(* ===== verification/Prelude.thy ===== *)
theory Prelude
  imports Main "HOL-Library.Word" "HOL-Library.Char_ord" "HOL-Library.List_Lexorder"
begin

text \<open>
  Shared vocabulary of the development.  Rust's \<open>u64\<close> counters are natural
  numbers below \<open>2 ^ 64\<close> that are only ever changed by \<open>saturating_add\<close> and
  \<open>saturating_sub\<close>, so they are modelled as \<open>nat\<close> with the saturation written
  out (\<open>sat_add\<close>).  A \<open>Duration\<close> and an \<open>Instant\<close> are a number of nanoseconds.
  \<open>Result<T, E>\<close> is the sum \<open>'e + 't\<close>, \<open>Inl\<close> being \<open>Err\<close>.  The list
  operations are the ones of \<open>Vec\<close> and \<open>slice\<close> that the source uses:
  \<open>position\<close>, \<open>rposition\<close>, \<open>remove\<close>, and the least-recently-used discipline
  \<open>lru_touch\<close> that two components share.
\<close>

named_theorems counter_simps \<open>arithmetic of saturating counters\<close>
named_theorems lru_simps \<open>facts on recency lists\<close>

section \<open>Machine counters\<close>

definition u64_max :: nat where
  "u64_max = 2 ^ 64 - 1"

definition u32_max :: nat where
  "u32_max = 2 ^ 32 - 1"

definition sat_add :: "nat \<Rightarrow> nat \<Rightarrow> nat" where
  "sat_add a b = min (a + b) u64_max"

abbreviation sat_inc :: "nat \<Rightarrow> nat" where
  "sat_inc a \<equiv> sat_add a 1"

lemma sat_add_le_max [counter_simps, intro]: "sat_add a b \<le> u64_max"
  by (simp add: sat_add_def)

lemma sat_add_mono [counter_simps]: "a \<le> u64_max \<Longrightarrow> a \<le> sat_add a b"
  by (simp add: sat_add_def)

lemma sat_add_exact [counter_simps]: "a + b \<le> u64_max \<Longrightarrow> sat_add a b = a + b"
  by (simp add: sat_add_def)

lemma sat_inc_exact [counter_simps]: "a < u64_max \<Longrightarrow> sat_add a (Suc 0) = Suc a"
  by (simp add: sat_add_def)

lemma sat_inc_neq [counter_simps]: "a < u64_max \<Longrightarrow> sat_add a (Suc 0) \<noteq> a"
  by (simp add: sat_add_def)

lemma sat_add_assoc [counter_simps]: "sat_add (sat_add a b) c = sat_add a (b + c)"
  by (simp add: sat_add_def min_def)

lemma sat_add_commute: "sat_add a b = sat_add b a"
  by (simp add: sat_add_def add.commute)

lemma sat_add_mono2 [counter_simps]: "a \<le> a' \<Longrightarrow> b \<le> b' \<Longrightarrow> sat_add a b \<le> sat_add a' b'"
  by (simp add: sat_add_def min_def)

lemma sat_add_zero [simp]: "a \<le> u64_max \<Longrightarrow> sat_add a 0 = a"
  by (simp add: sat_add_def)

lemma u64_max_pos [simp]: "0 < u64_max"
  by (simp add: u64_max_def)

text \<open>\<open>u64::try_from(x).unwrap_or(u64::MAX)\<close>.\<close>

definition clamp_u64 :: "nat \<Rightarrow> nat" where
  "clamp_u64 n = min n u64_max"

definition nanos_per_ms :: nat where
  "nanos_per_ms = 1000000"

abbreviation millis :: "nat \<Rightarrow> nat" where
  "millis n \<equiv> n * nanos_per_ms"

abbreviation secs :: "nat \<Rightarrow> nat" where
  "secs n \<equiv> millis (n * 1000)"

section \<open>Slices and vectors\<close>

text \<open>\<open>iter().position(p)\<close>: the first index whose element satisfies \<open>p\<close>.\<close>

fun position :: "('a \<Rightarrow> bool) \<Rightarrow> 'a list \<Rightarrow> nat option" where
  "position p [] = None"
| "position p (x # xs) = (if p x then Some 0 else map_option Suc (position p xs))"

text \<open>\<open>iter().rposition(p)\<close>: the last index whose element satisfies \<open>p\<close>.\<close>

fun rposition :: "('a \<Rightarrow> bool) \<Rightarrow> 'a list \<Rightarrow> nat option" where
  "rposition p [] = None"
| "rposition p (x # xs) =
     (case rposition p xs of
        Some i \<Rightarrow> Some (Suc i)
      | None \<Rightarrow> if p x then Some 0 else None)"

text \<open>The vector left by \<open>Vec::remove(i)\<close> for an index in range.\<close>

definition remove_at :: "nat \<Rightarrow> 'a list \<Rightarrow> 'a list" where
  "remove_at i xs = take i xs @ drop (Suc i) xs"

lemma position_None [simp]: "position p xs = None \<longleftrightarrow> (\<forall>x \<in> set xs. \<not> p x)"
  by (induction xs) auto

lemma position_SomeD:
  "position p xs = Some i \<Longrightarrow> i < length xs \<and> p (xs ! i) \<and> (\<forall>j < i. \<not> p (xs ! j))"
proof (induction xs arbitrary: i)
  case (Cons x xs)
  show ?case
  proof (cases "p x")
    case False
    with Cons.prems obtain j where "position p xs = Some j" "i = Suc j" by auto
    with Cons.IH [of j] False show ?thesis
      by (auto simp: nth_Cons split: nat.splits)
  qed (use Cons.prems in auto)
qed simp

lemma rposition_None [simp]: "rposition p xs = None \<longleftrightarrow> (\<forall>x \<in> set xs. \<not> p x)"
  by (induction xs) (auto split: option.splits)

lemma rposition_SomeD:
  "rposition p xs = Some i \<Longrightarrow>
     i < length xs \<and> p (xs ! i) \<and> (\<forall>j. i < j \<longrightarrow> j < length xs \<longrightarrow> \<not> p (xs ! j))"
proof (induction xs arbitrary: i)
  case (Cons x xs)
  show ?case
  proof (cases "rposition p xs")
    case None
    then have "\<forall>y \<in> set xs. \<not> p y" by simp
    moreover from None Cons.prems have "i = 0 \<and> p x"
      by (auto simp del: rposition_None split: if_splits)
    ultimately show ?thesis
      by (auto simp: nth_Cons split: nat.splits)
  next
    case (Some j)
    with Cons.prems have i: "i = Suc j" by simp
    from Cons.IH [OF Some] i show ?thesis
      by (auto simp: nth_Cons split: nat.splits)
  qed
qed simp

lemma length_remove_at: "i < length xs \<Longrightarrow> length (remove_at i xs) = length xs - 1"
  by (simp add: remove_at_def)

lemma set_remove_at_subset: "set (remove_at i xs) \<subseteq> set xs"
  by (auto simp: remove_at_def dest: in_set_takeD in_set_dropD)

lemma set_remove_at: "i < length xs \<Longrightarrow> set xs = insert (xs ! i) (set (remove_at i xs))"
proof -
  assume i: "i < length xs"
  then have "xs = take i xs @ xs ! i # drop (Suc i) xs" by (rule id_take_nth_drop)
  then have "set xs = set (take i xs @ xs ! i # drop (Suc i) xs)" by simp
  then show ?thesis by (simp add: remove_at_def)
qed

lemma distinct_remove_at: "distinct xs \<Longrightarrow> distinct (remove_at i xs)"
proof -
  assume d: "distinct xs"
  have "distinct (take i xs @ drop i xs)" using d by simp
  then have "set (take i xs) \<inter> set (drop i xs) = {}" by (simp only: distinct_append)
  moreover have "set (drop (Suc i) xs) \<subseteq> set (drop i xs)" by (rule set_drop_subset_set_drop) simp
  ultimately show ?thesis using d by (auto simp: remove_at_def)
qed

lemma map_remove_at: "map f (remove_at i xs) = remove_at i (map f xs)"
  by (simp add: remove_at_def take_map drop_map)

lemma position_map: "position p (map f xs) = position (p \<circ> f) xs"
  by (induction xs) auto

text \<open>On a list without repetitions, removing the first match is filtering it out.\<close>

lemma remove_at_position:
  "distinct xs \<Longrightarrow> position (\<lambda>x. x = k) xs = Some i \<Longrightarrow> remove_at i xs = removeAll k xs"
proof (induction xs arbitrary: i)
  case (Cons x xs)
  show ?case
  proof (cases "x = k")
    case True
    with Cons.prems show ?thesis by (auto simp: remove_at_def)
  next
    case False
    with Cons.prems obtain j where "position (\<lambda>x. x = k) xs = Some j" "i = Suc j" by auto
    with Cons.IH [of j] Cons.prems(1) False show ?thesis by (auto simp: remove_at_def)
  qed
qed simp

section \<open>Recency lists\<close>

text \<open>
  The least-recently-used discipline, most recent at the back: a used key moves to
  the back, and what exceeds the capacity is dropped from the front.
\<close>

definition lru_touch :: "nat \<Rightarrow> 'k \<Rightarrow> 'k list \<Rightarrow> 'k list" where
  "lru_touch cap k ks =
     (let ks' = removeAll k ks @ [k] in drop (length ks' - cap) ks')"

lemma lru_touch_bound [lru_simps]: "length (lru_touch cap k ks) \<le> cap"
  by (simp add: lru_touch_def Let_def)

lemma lru_touch_distinct [lru_simps]: "distinct ks \<Longrightarrow> distinct (lru_touch cap k ks)"
  by (simp add: lru_touch_def Let_def distinct_removeAll distinct_drop del: drop_append)

lemma lru_touch_last [lru_simps]: "0 < cap \<Longrightarrow> lru_touch cap k ks \<noteq> [] \<and> last (lru_touch cap k ks) = k"
  by (simp add: lru_touch_def Let_def last_drop)

lemma lru_touch_subset [lru_simps]: "set (lru_touch cap k ks) \<subseteq> insert k (set ks)"
  by (auto simp: lru_touch_def Let_def dest: in_set_dropD)

lemma lru_touch_mem_no_drop [lru_simps]:
  "distinct ks \<Longrightarrow> length ks \<le> cap \<Longrightarrow> k \<in> set ks \<Longrightarrow> lru_touch cap k ks = removeAll k ks @ [k]"
proof -
  assume d: "distinct ks" and l: "length ks \<le> cap" and k: "k \<in> set ks"
  have "length (removeAll k ks) < length ks"
    using k by (simp add: length_removeAll_less)
  with l show ?thesis by (simp add: lru_touch_def Let_def)
qed

text \<open>\<open>while v.len() > cap \{ v.remove(0); \}\<close>.\<close>

function pop_front_to :: "nat \<Rightarrow> 'a list \<Rightarrow> 'a list" where
  "pop_front_to cap xs = (if cap < length xs then pop_front_to cap (remove_at 0 xs) else xs)"
  by pat_completeness auto
termination by (relation "measure (\<lambda>(cap, xs). length xs)") (auto simp: remove_at_def)

declare pop_front_to.simps [simp del]

lemma pop_front_to_drop: "pop_front_to cap xs = drop (length xs - cap) xs"
proof (induction cap xs rule: pop_front_to.induct)
  case (1 cap xs)
  show ?case
  proof (cases "cap < length xs")
    case True
    then obtain x ys where xs: "xs = x # ys" by (cases xs) auto
    with True have "length xs - cap = Suc (length ys - cap)" by auto
    with 1 True xs show ?thesis by (subst pop_front_to.simps) (simp add: remove_at_def)
  qed (simp add: pop_front_to.simps)
qed

section \<open>Decimal numerals\<close>

text \<open>\<open>to_string\<close> of an unsigned integer, and \<open>str::parse\<close> back into one.\<close>

definition digit :: "nat \<Rightarrow> char" where
  "digit d = char_of (48 + d)"

definition digit_value :: "char \<Rightarrow> nat option" where
  "digit_value c = (if 48 \<le> (of_char c :: nat) \<and> (of_char c :: nat) \<le> 57 then Some (of_char c - 48) else None)"

fun decimal :: "nat \<Rightarrow> string" where
  "decimal n = (if n < 10 then [digit n] else decimal (n div 10) @ [digit (n mod 10)])"

declare decimal.simps [simp del]

fun parse_digits :: "nat \<Rightarrow> nat \<Rightarrow> string \<Rightarrow> nat option" where
  "parse_digits bound acc [] = Some acc"
| "parse_digits bound acc (c # cs) =
     (case digit_value c of
        None \<Rightarrow> None
      | Some d \<Rightarrow> if bound < acc * 10 + d then None else parse_digits bound (acc * 10 + d) cs)"

definition parse_unsigned :: "nat \<Rightarrow> string \<Rightarrow> nat option" where
  "parse_unsigned bound s =
     (let s' = (case s of c # cs \<Rightarrow> if c = CHR ''+'' then cs else s | [] \<Rightarrow> [])
      in if s' = [] then None else parse_digits bound 0 s')"

lemma digit_value_digit [simp]: "d < 10 \<Longrightarrow> digit_value (digit d) = Some d"
  by (simp add: digit_value_def digit_def take_bit_eq_mod)

lemma parse_digits_append:
  "parse_digits bound acc (xs @ ys) =
     (case parse_digits bound acc xs of None \<Rightarrow> None | Some a \<Rightarrow> parse_digits bound a ys)"
  by (induction xs arbitrary: acc) (auto split: option.splits)

lemma parse_digits_decimal: "n \<le> bound \<Longrightarrow> parse_digits bound 0 (decimal n) = Some n"
proof (induction n rule: decimal.induct)
  case (1 n)
  show ?case
  proof (cases "n < 10")
    case True
    with 1 show ?thesis by (subst decimal.simps) simp
  next
    case False
    with 1 have "parse_digits bound 0 (decimal (n div 10)) = Some (n div 10)" by auto
    moreover have "n div 10 * 10 + n mod 10 = n" by simp
    ultimately show ?thesis
      using 1 False by (subst decimal.simps) (simp add: parse_digits_append)
  qed
qed

lemma decimal_nonempty [simp]: "decimal n \<noteq> []"
  by (subst decimal.simps) simp

lemma hd_decimal: "hd (decimal n) \<noteq> CHR ''+''"
proof (induction n rule: decimal.induct)
  case (1 n)
  have d: "d < 10 \<Longrightarrow> digit d \<noteq> CHR ''+''" for d
    using digit_value_digit [of d] by (auto simp: digit_value_def)
  show ?case using 1 d by (subst decimal.simps) simp
qed

lemma parse_unsigned_decimal: "n \<le> bound \<Longrightarrow> parse_unsigned bound (decimal n) = Some n"
  using hd_decimal [of n] decimal_nonempty [of n] parse_digits_decimal [of n bound]
  by (cases "decimal n") (simp_all add: parse_unsigned_def)

section \<open>Splitting and joining\<close>

text \<open>\<open>str::split(c)\<close> and \<open>[_]::join(sep)\<close>.\<close>

fun split_on :: "'a \<Rightarrow> 'a list \<Rightarrow> 'a list list" where
  "split_on c [] = [[]]"
| "split_on c (x # xs) =
     (if x = c then [] # split_on c xs
      else (case split_on c xs of p # ps \<Rightarrow> (x # p) # ps | [] \<Rightarrow> [[x]]))"

fun join_with :: "'a list \<Rightarrow> 'a list list \<Rightarrow> 'a list" where
  "join_with sep [] = []"
| "join_with sep [p] = p"
| "join_with sep (p # q # ps) = p @ sep @ join_with sep (q # ps)"

lemma split_on_nonempty [simp]: "split_on c xs \<noteq> []"
  by (cases xs) (auto split: list.splits)

lemma split_on_Cons_part: "x \<noteq> c \<Longrightarrow> split_on c (x # xs) = (x # hd (split_on c xs)) # tl (split_on c xs)"
  by (cases "split_on c xs") auto

lemma join_split: "join_with [c] (split_on c xs) = xs"
proof (induction xs)
  case (Cons x xs)
  obtain p ps where s: "split_on c xs = p # ps" by (cases "split_on c xs") auto
  with Cons show ?case by (cases ps) auto
qed simp

lemma split_on_plain: "c \<notin> set p \<Longrightarrow> split_on c p = [p]"
  by (induction p) auto

lemma split_on_append: "c \<notin> set p \<Longrightarrow> split_on c (p @ c # xs) = p # split_on c xs"
  by (induction p) auto

lemma split_join: "ps \<noteq> [] \<Longrightarrow> \<forall>p \<in> set ps. c \<notin> set p \<Longrightarrow> split_on c (join_with [c] ps) = ps"
  by (induction "[c]" ps rule: join_with.induct) (auto simp: split_on_plain split_on_append)

lemma split_on_parts: "p \<in> set (split_on c xs) \<Longrightarrow> c \<notin> set p"
proof (induction xs arbitrary: p)
  case (Cons x xs)
  obtain q qs where s: "split_on c xs = q # qs" by (cases "split_on c xs") auto
  with Cons show ?case by (cases "x = c") auto
qed simp

section \<open>Shared by the capability manifest's writer and readers\<close>

definition quoted :: "string \<Rightarrow> string" where "quoted s = [CHR 0x27] @ s @ [CHR 0x27]"

text \<open>The schema of manifests that the build writes and that the loader and the worker's bootstrap accept.\<close>

definition CAPABILITY_MANIFEST_SCHEMA_VERSION :: nat where "CAPABILITY_MANIFEST_SCHEMA_VERSION = 2"

end
