(* ===== verification/Wire.thy ===== *)
theory Wire
  imports Prelude
begin

text \<open>
  The worker wire protocol (\<open>lean-rs-worker-protocol\<close>, \<open>protocol.rs\<close> and the
  types of \<open>types.rs\<close> the supervisor inspects): messages, requests and
  responses, the length-delimited frame codec \<open>write_frame\<close> / \<open>read_frame\<close> over
  byte streams that may break, and \<open>DataRowEmitter\<close>, which numbers the rows of a
  stream.  Payload structs that the modelled code forwards without looking inside
  are carried as their JSON text (type \<open>json\<close>).  The JSON library is a
  parameter: an encoder and a decoder of frames.
\<close>

type_synonym byte = "8 word"
type_synonym json = string

section \<open>Types of types.rs\<close>

record import_stats =
  is_direct_import_names :: "string list"
  is_effective_module_count :: nat
  is_compacted_region_count :: nat
  is_memory_mapped_region_count :: nat
  is_compacted_region_bytes :: nat
  is_memory_mapped_region_bytes :: nat
  is_non_memory_mapped_region_bytes :: nat
  is_imported_bytes :: nat
  is_imported_constant_count :: nat
  is_extension_count :: nat
  is_total_imported_extension_entries :: nat
  is_import_level :: string
  is_import_all :: bool
  is_load_exts :: bool

record resource_facts =
  rf_cause :: string
  rf_work_entered_child :: bool
  rf_operation :: "string option"
  rf_current_rss_kib :: "nat option"
  rf_limit_kib :: "nat option"
  rf_import_count :: "nat option"
  rf_worker_generation :: "nat option"
  rf_restart_reason :: "string option"
  rf_queue_wait_ms :: "nat option"
  rf_duration_ms :: "nat option"
  rf_cold_open_attempts :: "nat option"
  rf_cold_open_admitted :: "nat option"
  rf_cold_open_refusals :: "nat option"
  rf_import_like_requests :: "nat option"
  rf_import_like_admitted :: "nat option"
  rf_last_import_stats :: "import_stats option"

datatype import_profile = ExportedPublic | Server | Private | FullPrivateCompat

fun profile_label :: "import_profile \<Rightarrow> string" where
  "profile_label ExportedPublic = ''exported-public''"
| "profile_label Server = ''server''"
| "profile_label Private = ''private''"
| "profile_label FullPrivateCompat = ''full-private-compat''"

datatype verification_status =
    Accepted | Rejected | NotFound | Ambiguous | NeedsBuild | VTimeout | VUnsupported | BudgetExceeded

section \<open>Messages\<close>

datatype host_session_mode =
    ModeCapability (mode_package: string) (mode_lib_name: string) (mode_manifest_path: "string option")
  | ModeShimsOnly

datatype request =
    Health
  | LoadFixtureCapability string
  | CallFixtureMul string nat nat
  | TriggerLeanPanic string
  | OpenHostSession string host_session_mode "string list" import_profile
  | Elaborate string json
  | KernelCheck string json bool
  | DeclarationKinds "string list" bool
  | DeclarationNames "string list" bool
  | RunDataStream string string bool
  | CapabilityMetadata string string
  | CapabilityDoctor string string
  | JsonCommand string string
  | InferType string json
  | Whnf string json
  | IsDefEq string string json json
  | Describe string
  | SearchDeclarations json
  | DeclarationType string nat
  | InspectDeclaration json
  | AttemptProof json json bool
  | VerifyDeclaration json json bool
  | VerifyDeclarationBatch json json bool
  | ListDeclarationsStrings json bool
  | DescribeBulk "string list" bool
  | ProcessModuleQuery string json json
  | ProcessModuleQueryBatch string "json list" json json
  | ClearModuleSnapshotCache
  | EmitTestRows "string list"
  | EmitTestRowsThenExit
  | EmitTestRowsThenPanic
  | Terminate

record stream_summary =
  ss_total_rows :: nat
  ss_per_stream_counts :: "string \<rightharpoonup> nat"
  ss_elapsed_micros :: nat
  ss_metadata :: "json option"

datatype response =
    RHealthOk
  | RCapabilityLoaded
  | RU64 nat
  | RHostSessionOpened import_stats
  | RHostSessionReused import_stats
  | RElaboration json
  | RKernelCheck json
  | RStrings "string list"
  | RStreamComplete stream_summary
  | RStreamExportFailed nat
  | RStreamCallbackFailed nat string
  | RStreamRowMalformed string
  | RCapabilityMetadata json
  | RCapabilityDoctor json
  | RCapabilityMetadataMalformed string
  | RCapabilityDoctorMalformed string
  | RJsonCommand string
  | RMetaExpr json
  | RMetaBool json
  | RDeclaration "json option"
  | RDeclarationSearch json
  | RDeclarationType "json option"
  | RDeclarationInspection json
  | RProofAttempt json
  | RDeclarationVerification json
  | RDeclarationVerificationBatch json
  | RDeclarationBulk "json list"
  | RProcessModuleQuery json
  | RProcessModuleQueryBatch json
  | RModuleSnapshotCacheCleared json
  | RRowsComplete nat
  | RTerminating
  | RError (error_code: string) (error_message: string)

record diagnostic =
  dg_code :: string
  dg_message :: string

record progress_tick =
  pt_phase :: string
  pt_current :: nat
  pt_total :: "nat option"

record data_row =
  dr_stream :: string
  dr_sequence :: nat
  dr_payload :: json

record fatal_exit =
  fe_status :: string
  fe_stderr :: string

datatype message =
    Handshake string nat
  | ConfigureFrameLimit nat
  | MRequest request
  | MResponse response
  | MDiagnostic diagnostic
  | MProgressTick progress_tick
  | MDataRow data_row
  | MFatalExit fatal_exit

record frame =
  fr_version :: nat
  fr_message :: message

definition PROTOCOL_VERSION :: nat where "PROTOCOL_VERSION = 10"
definition MAX_FRAME_BYTES :: nat where "MAX_FRAME_BYTES = 1024 * 1024"
definition MIN_FRAME_BYTES :: nat where "MIN_FRAME_BYTES = 64 * 1024"
definition MAX_FRAME_BYTES_HARD_CAP :: nat where "MAX_FRAME_BYTES_HARD_CAP = 256 * 1024 * 1024"

definition frame_new :: "message \<Rightarrow> frame" where
  "frame_new m = \<lparr>fr_version = PROTOCOL_VERSION, fr_message = m\<rparr>"

section \<open>Byte streams\<close>

text \<open>
  A \<open>Write\<close> is the bytes it has accepted, the room left before the pipe breaks
  (\<open>None\<close> is a writer that never fails) and whether \<open>flush\<close> fails.  A \<open>Read\<close> is
  the bytes still to come and the error kind \<open>read_exact\<close> reports when they do not
  suffice: \<open>UnexpectedEof\<close> for a closed pipe.
\<close>

datatype io_kind = UnexpectedEof | OtherIo

record writer =
  wr_out :: "byte list"
  wr_room :: "nat option"
  wr_flush_fails :: bool

record reader =
  rd_bytes :: "byte list"
  rd_end :: io_kind

datatype protocol_error =
    PIo io_kind
  | PJson string
  | FrameTooLarge nat nat
  | VersionMismatch nat nat

fun protocol_error_is_eof :: "protocol_error \<Rightarrow> bool" where
  "protocol_error_is_eof (PIo k) = (k = UnexpectedEof)"
| "protocol_error_is_eof _ = False"

definition write_all :: "writer \<Rightarrow> byte list \<Rightarrow> (io_kind + unit) \<times> writer" where
  "write_all w bs =
     (case wr_room w of
        None \<Rightarrow> (Inr (), w\<lparr>wr_out := wr_out w @ bs\<rparr>)
      | Some n \<Rightarrow>
          (if length bs \<le> n
           then (Inr (), w\<lparr>wr_out := wr_out w @ bs, wr_room := Some (n - length bs)\<rparr>)
           else (Inl OtherIo, w\<lparr>wr_out := wr_out w @ take n bs, wr_room := Some 0\<rparr>)))"

definition read_exact :: "reader \<Rightarrow> nat \<Rightarrow> (io_kind + byte list) \<times> reader" where
  "read_exact r n =
     (if n \<le> length (rd_bytes r)
      then (Inr (take n (rd_bytes r)), r\<lparr>rd_bytes := drop n (rd_bytes r)\<rparr>)
      else (Inl (rd_end r), r\<lparr>rd_bytes := []\<rparr>))"

section \<open>The frame codec\<close>

definition to_be_bytes :: "nat \<Rightarrow> byte list" where
  "to_be_bytes n =
     [word_of_nat (n div 2 ^ 24), word_of_nat (n div 2 ^ 16), word_of_nat (n div 2 ^ 8), word_of_nat n]"

definition from_be_bytes :: "byte list \<Rightarrow> nat" where
  "from_be_bytes bs = foldl (\<lambda>acc b. acc * 256 + unat b) 0 bs"

definition write_frame ::
  "(frame \<Rightarrow> string + byte list) \<Rightarrow> writer \<Rightarrow> message \<Rightarrow> nat \<Rightarrow> (protocol_error + unit) \<times> writer" where
  "write_frame enc w m max_frame_bytes =
     (case enc (frame_new m) of
        Inl e \<Rightarrow> (Inl (PJson e), w)
      | Inr bytes \<Rightarrow>
          (if u32_max < length bytes then (Inl (FrameTooLarge u32_max max_frame_bytes), w)
           else if max_frame_bytes < length bytes
             then (Inl (FrameTooLarge (length bytes) max_frame_bytes), w)
           else
             (case write_all w (to_be_bytes (length bytes)) of
                (Inl k, w1) \<Rightarrow> (Inl (PIo k), w1)
              | (Inr _, w1) \<Rightarrow>
                  (case write_all w1 bytes of
                     (Inl k, w2) \<Rightarrow> (Inl (PIo k), w2)
                   | (Inr _, w2) \<Rightarrow>
                       (if wr_flush_fails w2 then (Inl (PIo OtherIo), w2) else (Inr (), w2))))))"

definition read_frame ::
  "(byte list \<Rightarrow> string + frame) \<Rightarrow> reader \<Rightarrow> nat \<Rightarrow> (protocol_error + frame) \<times> reader" where
  "read_frame dec r max_frame_bytes =
     (case read_exact r 4 of
        (Inl k, r1) \<Rightarrow> (Inl (PIo k), r1)
      | (Inr len_bytes, r1) \<Rightarrow>
          (let len = from_be_bytes len_bytes in
           if max_frame_bytes < len then (Inl (FrameTooLarge len max_frame_bytes), r1)
           else
             (case read_exact r1 len of
                (Inl k, r2) \<Rightarrow> (Inl (PIo k), r2)
              | (Inr bytes, r2) \<Rightarrow>
                  (case dec bytes of
                     Inl e \<Rightarrow> (Inl (PJson e), r2)
                   | Inr f \<Rightarrow>
                       (if fr_version f \<noteq> PROTOCOL_VERSION
                        then (Inl (VersionMismatch PROTOCOL_VERSION (fr_version f)), r2)
                        else (Inr f, r2))))))"

section \<open>The row emitter\<close>

record data_row_emitter =
  em_sequences :: "string \<rightharpoonup> nat"
  em_count :: nat

definition emitter_default :: data_row_emitter where
  "emitter_default = \<lparr>em_sequences = Map.empty, em_count = 0\<rparr>"

definition emitter_next :: "data_row_emitter \<Rightarrow> string \<Rightarrow> json \<Rightarrow> data_row \<times> data_row_emitter" where
  "emitter_next em stream payload =
     (let sq = (case em_sequences em stream of None \<Rightarrow> 0 | Some n \<Rightarrow> n) in
      (\<lparr>dr_stream = stream, dr_sequence = sq, dr_payload = payload\<rparr>,
       em\<lparr>em_sequences := (em_sequences em)(stream \<mapsto> sat_inc sq),
          em_count := sat_inc (em_count em)\<rparr>))"

definition stream_summary_new ::
  "nat \<Rightarrow> (string \<rightharpoonup> nat) \<Rightarrow> nat \<Rightarrow> json option \<Rightarrow> stream_summary" where
  "stream_summary_new total_rows counts elapsed metadata =
     \<lparr>ss_total_rows = total_rows, ss_per_stream_counts = counts,
      ss_elapsed_micros = clamp_u64 (elapsed div 1000), ss_metadata = metadata\<rparr>"

text \<open>The rows produced by calling \<open>next\<close> once per item, in order.\<close>

fun emit_all :: "data_row_emitter \<Rightarrow> (string \<times> json) list \<Rightarrow> data_row list \<times> data_row_emitter" where
  "emit_all em [] = ([], em)"
| "emit_all em ((s, p) # items) =
     (case emitter_next em s p of
        (row, em') \<Rightarrow> (case emit_all em' items of (rows, em'') \<Rightarrow> (row # rows, em'')))"

section \<open>Byte-level facts\<close>


lemma unat_byte: "unat (word_of_nat n :: byte) = n mod 256"
  by (simp add: unat_of_nat)

lemma length_to_be_bytes [simp]: "length (to_be_bytes n) = 4"
  by (simp add: to_be_bytes_def)

lemma horner_byte: "(n :: nat) div (b * 256) * 256 + n div b mod 256 = n div b"
  by (simp add: div_mult2_eq)

lemma from_to_be_bytes: "n \<le> u32_max \<Longrightarrow> from_be_bytes (to_be_bytes n) = n"
proof -
  assume "n \<le> u32_max"
  then have "n < 2 ^ 32" by (simp add: u32_max_def)
  then have t: "n div 16777216 mod 256 = n div 16777216" by (simp add: less_mult_imp_div_less)
  from horner_byte [of n 1] horner_byte [of n 256] horner_byte [of n 65536]
  show ?thesis
    by (simp add: from_be_bytes_def to_be_bytes_def unat_byte t)
qed

lemma from_be_bytes_bound: "length bs = 4 \<Longrightarrow> from_be_bytes bs \<le> u32_max"
proof -
  assume l: "length bs = 4"
  have "foldl (\<lambda>acc b. acc * 256 + unat b) acc bs < (acc + 1) * 256 ^ length bs" for acc and bs :: "byte list"
  proof (induction bs arbitrary: acc)
    case (Cons b bs)
    have "unat b < 256" using unsigned_less [of b] by simp
    then have "acc * 256 + unat b + 1 \<le> (acc + 1) * 256" by simp
    then have "(acc * 256 + unat b + 1) * 256 ^ length bs \<le> (acc + 1) * 256 * 256 ^ length bs"
      by (rule mult_right_mono) simp
    with Cons.IH [of "acc * 256 + unat b"]
    have "foldl (\<lambda>acc b. acc * 256 + unat b) (acc * 256 + unat b) bs < (acc + 1) * 256 * 256 ^ length bs"
      by (rule less_le_trans)
    then show ?case by (simp add: algebra_simps)
  qed simp
  from this [of 0 bs] l show ?thesis
    by (simp add: from_be_bytes_def u32_max_def)
qed

section \<open>Length-delimited blocks\<close>

definition put_block :: "byte list \<Rightarrow> byte list" where
  "put_block bs = to_be_bytes (length bs) @ bs"

definition get_block :: "nat \<Rightarrow> byte list \<Rightarrow> (byte list \<times> byte list) option" where
  "get_block cap bs =
     (if length bs < 4 then None
      else let len = from_be_bytes (take 4 bs); rest = drop 4 bs in
        if cap < len \<or> length rest < len then None else Some (take len rest, drop len rest))"

locale framing =
  fixes put :: "'m \<Rightarrow> byte list"
    and get :: "byte list \<Rightarrow> ('m \<times> byte list) option"
    and fits :: "'m \<Rightarrow> bool"
  assumes get_put: "fits m \<Longrightarrow> get (put m @ rest) = Some (m, rest)"
    and put_nonempty: "put m \<noteq> []"
    and get_shrinks: "get bs = Some (m, rest) \<Longrightarrow> length rest < length bs"
begin

lemma put_injective: "fits m \<Longrightarrow> fits m' \<Longrightarrow> put m @ xs = put m' @ ys \<Longrightarrow> m = m' \<and> xs = ys"
  by (metis get_put option.inject prod.inject)

lemma concat_put_injective:
  "\<forall>m \<in> set ms. fits m \<Longrightarrow> \<forall>m \<in> set ms'. fits m \<Longrightarrow>
     concat (map put ms) = concat (map put ms') \<Longrightarrow> ms = ms'"
proof (induction ms arbitrary: ms')
  case Nil
  then show ?case using put_nonempty by (cases ms') simp_all
next
  case (Cons m ms)
  show ?case
  proof (cases ms')
    case Nil
    with Cons.prems(3) put_nonempty show ?thesis by simp
  next
    case ms: (Cons m' rest)
    have eq: "put m @ concat (map put ms) = put m' @ concat (map put rest)"
      using Cons.prems(3) unfolding ms list.map concat.simps .
    have "fits m" "fits m'" using Cons.prems(1,2) ms by simp_all
    from put_injective [OF this eq] have same: "m = m'" "concat (map put ms) = concat (map put rest)"
      by simp_all
    have "ms = rest"
      by (rule Cons.IH) (use Cons.prems(1,2) ms same in simp_all)
    with same ms show ?thesis by simp
  qed
qed

end

lemma put_block_get_block:
  "length bs \<le> cap \<Longrightarrow> length bs \<le> u32_max \<Longrightarrow> get_block cap (put_block bs @ rest) = Some (bs, rest)"
  by (simp add: get_block_def put_block_def from_to_be_bytes)

interpretation block: framing put_block "get_block cap" "\<lambda>bs. length bs \<le> cap \<and> length bs \<le> u32_max" for cap
proof unfold_locales
  show "get_block cap (put_block m @ rest) = Some (m, rest)"
    if "length m \<le> cap \<and> length m \<le> u32_max" for m rest
    using that by (simp add: put_block_get_block)
  show "put_block m \<noteq> []" for m
    by (simp add: put_block_def to_be_bytes_def)
  show "length rest < length bs" if "get_block cap bs = Some (m, rest)" for bs m rest
    using that by (auto simp: get_block_def Let_def split: if_splits)
qed

section \<open>Properties of the codec\<close>

text \<open>What \<open>write_frame\<close> appends, and that it appends nothing at all when it refuses.\<close>

lemma write_frame_ok:
  assumes "write_frame enc w m cap = (Inr (), w')"
  obtains bytes where "enc (frame_new m) = Inr bytes" "length bytes \<le> cap" "length bytes \<le> u32_max"
    "wr_out w' = wr_out w @ put_block bytes"
  using assms
  by (auto simp: write_frame_def write_all_def put_block_def split: sum.splits if_splits option.splits prod.splits)

lemma write_frame_refused:
  assumes "write_frame enc w m cap = (Inl e, w')" and "\<forall>k. e \<noteq> PIo k"
  shows "w' = w"
  using assms
  by (auto simp: write_frame_def write_all_def split: sum.splits if_splits option.splits prod.splits)

lemma write_frame_prefix:
  assumes "enc (frame_new m) = Inr bytes"
  shows "\<exists>k. wr_out (snd (write_frame enc w m cap)) = wr_out w @ take k (put_block bytes)"
proof (cases "wr_room w")
  case None
  have "\<exists>k. put_block bytes = take k (put_block bytes)" by (rule exI [of _ "length (put_block bytes)"]) simp
  moreover have "\<exists>k. take k (put_block bytes) = []" by (rule exI [of _ 0]) simp
  ultimately show ?thesis using assms None
    by (auto simp: write_frame_def write_all_def put_block_def)
next
  case (Some n)
  have "\<exists>k. put_block bytes = take k (put_block bytes)" by (rule exI [of _ "length (put_block bytes)"]) simp
  moreover have "\<exists>k. take k (put_block bytes) = []" by (rule exI [of _ 0]) simp
  moreover have "\<exists>k. take n (to_be_bytes (length bytes)) = take k (put_block bytes)" if "n < 4"
    using that by (intro exI [of _ n]) (simp add: put_block_def)
  moreover have "\<exists>k. to_be_bytes (length bytes) @ take (n - 4) bytes = take k (put_block bytes)" if "4 \<le> n"
    using that by (intro exI [of _ n]) (simp add: put_block_def)
  ultimately show ?thesis using assms Some
    by (auto simp: write_frame_def write_all_def put_block_def not_le)
qed

lemma read_frame_block:
  assumes "length bytes \<le> cap" "length bytes \<le> u32_max"
    and "rd_bytes r = put_block bytes @ rest"
  shows "read_frame dec r cap =
    (case dec bytes of Inl e \<Rightarrow> (Inl (PJson e), r\<lparr>rd_bytes := rest\<rparr>)
     | Inr f \<Rightarrow> (if fr_version f \<noteq> PROTOCOL_VERSION
                then (Inl (VersionMismatch PROTOCOL_VERSION (fr_version f)), r\<lparr>rd_bytes := rest\<rparr>)
                else (Inr f, r\<lparr>rd_bytes := rest\<rparr>)))"
  using assms
  by (simp add: read_frame_def read_exact_def put_block_def from_to_be_bytes split: sum.splits)

text \<open>C33: A frame the encoder accepted and \<open>write_frame\<close> put on the wire completely is read back by
  \<open>read_frame\<close> under the same cap as the same message at the current protocol version, and the bytes
  after it are left unread, for every JSON codec whose decoder inverts its encoder.\<close>

theorem frame_round_trip:
  assumes codec: "\<And>f bytes. enc f = Inr bytes \<Longrightarrow> dec bytes = Inr f"
    and wrote: "write_frame enc w m cap = (Inr (), w')"
    and wire: "wr_out w @ rd_bytes r = wr_out w'"
  shows "read_frame dec (r\<lparr>rd_bytes := rd_bytes r @ rest\<rparr>) cap = (Inr (frame_new m), r\<lparr>rd_bytes := rest\<rparr>)"
proof -
  from wrote obtain bytes where b: "enc (frame_new m) = Inr bytes" "length bytes \<le> cap" "length bytes \<le> u32_max"
    "wr_out w' = wr_out w @ put_block bytes"
    by (rule write_frame_ok)
  with wire have "rd_bytes r = put_block bytes" by simp
  with b show ?thesis
    by (simp add: read_frame_block [OF b(2,3)] codec frame_new_def)
qed

definition tiny_enc :: "frame \<Rightarrow> string + byte list" where
  "tiny_enc f = (if f = frame_new (MRequest Health) then Inr [7] else Inl ''unsupported'')"

definition tiny_dec :: "byte list \<Rightarrow> string + frame" where
  "tiny_dec bs = (if bs = [7] then Inr (frame_new (MRequest Health)) else Inl ''bad json'')"

theorem frame_round_trip_witness:
  "read_frame tiny_dec \<lparr>rd_bytes = [0, 0, 0, 1, 7, 9], rd_end = UnexpectedEof\<rparr> 65536 =
     (Inr (frame_new (MRequest Health)), \<lparr>rd_bytes = [9], rd_end = UnexpectedEof\<rparr>)"
proof -
  let ?w = "\<lparr>wr_out = [], wr_room = None, wr_flush_fails = False\<rparr>"
  let ?r = "\<lparr>rd_bytes = [0, 0, 0, 1, 7], rd_end = UnexpectedEof\<rparr>"
  have codec: "tiny_dec bytes = Inr f" if "tiny_enc f = Inr bytes" for f bytes
    using that by (auto simp: tiny_enc_def tiny_dec_def split: if_splits)
  have wrote: "write_frame tiny_enc ?w (MRequest Health) 65536 =
      (Inr (), \<lparr>wr_out = [0, 0, 0, 1, 7], wr_room = None, wr_flush_fails = False\<rparr>)"
    by (simp add: write_frame_def write_all_def tiny_enc_def to_be_bytes_def u32_max_def)
  from frame_round_trip [of tiny_enc tiny_dec ?w "MRequest Health" 65536 _ ?r "[9]", OF codec wrote]
  show ?thesis by simp
qed

text \<open>\<open>read_frame\<close> never reads more than the four length bytes and a payload within the cap, whatever
  the peer sends; a frame it rejects as too large really announces more than the cap and is rejected after
  the length bytes alone, before any payload buffer is allocated.\<close>

theorem read_frame_bounded:
  assumes "read_frame dec r cap = (res, r')"
  shows "\<exists>n \<le> 4 + cap. rd_bytes r' = drop n (rd_bytes r) \<and>
           (\<forall>len. res = Inl (FrameTooLarge len cap) \<longrightarrow> cap < len \<and> n = 4)"
proof -
  consider (short) "length (rd_bytes r) < 4"
    | (big) "4 \<le> length (rd_bytes r)" "cap < from_be_bytes (take 4 (rd_bytes r))"
    | (torn) "4 \<le> length (rd_bytes r)" "from_be_bytes (take 4 (rd_bytes r)) \<le> cap"
        "length (rd_bytes r) - 4 < from_be_bytes (take 4 (rd_bytes r))"
    | (whole) "4 \<le> length (rd_bytes r)" "from_be_bytes (take 4 (rd_bytes r)) \<le> cap"
        "from_be_bytes (take 4 (rd_bytes r)) \<le> length (rd_bytes r) - 4"
    by linarith
  then show ?thesis
  proof cases
    case short
    with assms show ?thesis
      by (intro exI [of _ 4]) (auto simp: read_frame_def read_exact_def)
  next
    case big
    with assms show ?thesis
      by (intro exI [of _ 4]) (auto simp: read_frame_def read_exact_def)
  next
    case torn
    with assms show ?thesis
      by (intro exI [of _ "4 + from_be_bytes (take 4 (rd_bytes r))"]) (auto simp: read_frame_def read_exact_def)
  next
    case whole
    with assms show ?thesis
      by (intro exI [of _ "4 + from_be_bytes (take 4 (rd_bytes r))"])
        (auto simp: read_frame_def read_exact_def add.commute Let_def split: sum.splits if_splits)
  qed
qed

theorem read_frame_bounded_witness:
  "\<exists>n \<le> 4 + 65536. drop n [0, 2, 0, 0, 5] = [5 :: byte] \<and> n = 4"
proof -
  have "read_frame tiny_dec \<lparr>rd_bytes = [0, 2, 0, 0, 5], rd_end = UnexpectedEof\<rparr> 65536 =
      (Inl (FrameTooLarge 131072 65536), \<lparr>rd_bytes = [5], rd_end = UnexpectedEof\<rparr>)"
    by (simp add: read_frame_def read_exact_def from_be_bytes_def)
  from read_frame_bounded [OF this] show ?thesis by auto
qed

text \<open>A frame cut short at any byte by a closed pipe (in its length or in its payload) is reported as an
  end-of-file error, which the supervisor treats as a dead child; it is never decoded as a message.\<close>

theorem torn_frame_is_eof:
  assumes fits: "length bytes \<le> cap" "length bytes \<le> u32_max"
    and torn: "n < length (put_block bytes)" "rd_bytes r = take n (put_block bytes)"
    and closed: "rd_end r = UnexpectedEof"
  shows "\<exists>e. fst (read_frame dec r cap) = Inl e \<and> protocol_error_is_eof e"
proof (cases "n < 4")
  case True
  with torn closed show ?thesis
    by (simp add: read_frame_def read_exact_def put_block_def)
next
  case False
  with torn have "take 4 (rd_bytes r) = to_be_bytes (length bytes)"
    and "length (rd_bytes r) = n"
    by (simp_all add: put_block_def)
  moreover from False torn have "n - 4 < length bytes" by (simp add: put_block_def)
  ultimately show ?thesis using False fits closed
    by (simp add: read_frame_def read_exact_def from_to_be_bytes)
qed

theorem torn_frame_is_eof_witness:
  "\<exists>e. fst (read_frame tiny_dec \<lparr>rd_bytes = [0, 0, 0, 3, 7], rd_end = UnexpectedEof\<rparr> 65536) = Inl e
       \<and> protocol_error_is_eof e"
proof (rule torn_frame_is_eof [of "[7, 8, 9]" 65536 5])
  show "rd_bytes \<lparr>rd_bytes = [0, 0, 0, 3, 7], rd_end = UnexpectedEof\<rparr> = take 5 (put_block [7, 8, 9])"
    by (simp add: put_block_def to_be_bytes_def)
qed (simp_all add: put_block_def u32_max_def)

text \<open>Two sequences of payloads that are framed within the cap and concatenated on the wire agree byte for
  byte only if they are the same sequence: message boundaries can never be confused.\<close>

theorem framed_stream_injective:
  assumes "\<forall>bs \<in> set ms. length bs \<le> cap \<and> length bs \<le> u32_max"
    and "\<forall>bs \<in> set ms'. length bs \<le> cap \<and> length bs \<le> u32_max"
    and "concat (map put_block ms) = concat (map put_block ms')"
  shows "ms = ms'"
  using assms by (rule block.concat_put_injective)

theorem framed_stream_injective_witness:
  "[[1], [2, 3]] = [[1], [2, 3 :: byte]]"
  by (rule framed_stream_injective [of _ 8]) (simp_all add: u32_max_def)

section \<open>Row numbering\<close>

definition occurrences :: "string \<Rightarrow> (string \<times> json) list \<Rightarrow> nat" where
  "occurrences s items = length (filter (\<lambda>it. fst it = s) items)"

lemma emit_all_count:
  "em_count em + length items \<le> u64_max \<Longrightarrow> em_count (snd (emit_all em items)) = em_count em + length items"
proof (induction em items rule: emit_all.induct)
  case (2 em s p items)
  then show ?case
    by (auto simp: emitter_next_def Let_def sat_inc_exact split: prod.splits)
qed simp

lemma emit_all_streams:
  "fst (emit_all em items) = rows \<Longrightarrow> map (\<lambda>r. (dr_stream r, dr_payload r)) rows = items"
  by (induction em items arbitrary: rows rule: emit_all.induct)
    (auto simp: emitter_next_def Let_def split: prod.splits)

lemma emit_all_sequences:
  assumes "\<forall>s. (case em_sequences em s of None \<Rightarrow> 0 | Some n \<Rightarrow> n) + length items \<le> u64_max"
  shows "map dr_sequence (filter (\<lambda>r. dr_stream r = s) (fst (emit_all em items))) =
     (let b = (case em_sequences em s of None \<Rightarrow> 0 | Some n \<Rightarrow> n) in [b ..< b + occurrences s items])"
  using assms
proof (induction em items rule: emit_all.induct)
  case (2 em t p items)
  let ?b = "\<lambda>e u. case em_sequences e u of None \<Rightarrow> 0 | Some n \<Rightarrow> n"
  obtain row em' where em: "emitter_next em t p = (row, em')"
    by (cases "emitter_next em t p")
  from em have row: "dr_stream row = t" "dr_sequence row = ?b em t"
    by (auto simp: emitter_next_def Let_def)
  have b: "?b em' u = (if u = t then Suc (?b em t) else ?b em u)" for u
    using em spec [OF 2(2), of t]
    by (auto simp: emitter_next_def Let_def sat_inc_exact split: option.splits)
  have pre: "\<forall>u. ?b em' u + length items \<le> u64_max"
  proof
    fix u
    show "?b em' u + length items \<le> u64_max"
      using spec [OF 2(2), of u] spec [OF 2(2), of t] unfolding b by simp
  qed
  have rows: "fst (emit_all em ((t, p) # items)) = row # fst (emit_all em' items)"
    by (simp add: em split: prod.splits)
  have IH: "map dr_sequence (filter (\<lambda>r. dr_stream r = s) (fst (emit_all em' items))) =
      [?b em' s ..< ?b em' s + occurrences s items]"
    using 2(1) [OF em [symmetric] pre] by (simp only: Let_def)
  show ?case
  proof (cases "s = t")
    case True
    have "occurrences s ((t, p) # items) = Suc (occurrences s items)"
      by (simp add: occurrences_def True)
    with True IH b [of s] row show ?thesis
      unfolding rows by (simp add: upt_conv_Cons Let_def del: upt_Suc)
  next
    case False
    have "occurrences s ((t, p) # items) = occurrences s items"
      using False by (simp add: occurrences_def)
    with False IH b [of s] row show ?thesis
      unfolding rows by (simp add: Let_def)
  qed
qed (simp add: occurrences_def Let_def)

text \<open>Rows emitted for a stream are numbered 0, 1, 2, ... with no gap or repetition, independently of the
  rows of other streams interleaved with them, and the emitter's total is the number of rows, as long as
  no \<open>u64\<close> counter saturates.\<close>

theorem emitted_rows_numbered:
  assumes "length items \<le> u64_max"
  shows "map dr_sequence (filter (\<lambda>r. dr_stream r = s) (fst (emit_all emitter_default items))) =
           [0 ..< occurrences s items] \<and>
         map (\<lambda>r. (dr_stream r, dr_payload r)) (fst (emit_all emitter_default items)) = items \<and>
         em_count (snd (emit_all emitter_default items)) = length items"
proof (intro conjI)
  show "map dr_sequence (filter (\<lambda>r. dr_stream r = s) (fst (emit_all emitter_default items))) =
           [0 ..< occurrences s items]"
    using emit_all_sequences [of emitter_default items s] assms
    by (simp add: emitter_default_def)
  show "map (\<lambda>r. (dr_stream r, dr_payload r)) (fst (emit_all emitter_default items)) = items"
    by (rule emit_all_streams) simp
  show "em_count (snd (emit_all emitter_default items)) = length items"
    using emit_all_count [of emitter_default items] assms by (simp add: emitter_default_def)
qed

theorem emitted_rows_numbered_witness:
  "map dr_sequence (filter (\<lambda>r. dr_stream r = ''rows'')
     (fst (emit_all emitter_default [(''rows'', ''1''), (''warn'', ''2''), (''rows'', ''3'')]))) = [0, 1]"
proof -
  have le: "length [(''rows'', ''1''), (''warn'', ''2''), (''rows'', ''3'')] \<le> u64_max"
    by (simp add: u64_max_def)
  show ?thesis
    using emitted_rows_numbered [OF le, of "''rows''"]
    by (simp add: occurrences_def upt_rec)
qed

end
