(* ===== verification/Display_Text.thy ===== *)
theory Display_Text
  imports Prelude
begin

text \<open>
  What a dead child's stderr looks like in an error line
  (\<open>truncate_for_display\<close> and \<open>write_exit\<close> of \<open>supervisor.rs\<close>).  A Rust string is
  its UTF-8 bytes, so a \<open>string\<close> here is a list of bytes, one \<open>char\<close> each.
\<close>

definition DISPLAY_DIAGNOSTICS_MAX_BYTES :: nat where
  "DISPLAY_DIAGNOSTICS_MAX_BYTES = 4 * 1024"

text \<open>\<open>str::is_char_boundary\<close>: the ends, and every byte that is not a continuation byte.\<close>

definition is_char_boundary :: "string \<Rightarrow> nat \<Rightarrow> bool" where
  "is_char_boundary s i \<longleftrightarrow>
     i = 0 \<or> i = length s \<or> (i < length s \<and> \<not> (128 \<le> (of_char (s ! i) :: nat) \<and> (of_char (s ! i) :: nat) < 192))"

fun floor_boundary :: "string \<Rightarrow> nat \<Rightarrow> nat" where
  "floor_boundary s 0 = 0"
| "floor_boundary s (Suc c) = (if is_char_boundary s (Suc c) then Suc c else floor_boundary s c)"

definition ESC :: char where "ESC = CHR 0x1B"

definition csi_terminator :: "char \<Rightarrow> bool" where
  "csi_terminator b \<longleftrightarrow>
     (0x40 \<le> (of_char b :: nat) \<and> (of_char b :: nat) \<le> 0x5A) \<or> (0x5C \<le> (of_char b :: nat) \<and> (of_char b :: nat) \<le> 0x7E)"

definition escape_floor :: "string \<Rightarrow> nat \<Rightarrow> nat" where
  "escape_floor s ct =
     (case rposition (\<lambda>b. b = ESC) (take ct s) of
        None \<Rightarrow> ct
      | Some esc_off \<Rightarrow>
          let scan_start = min (esc_off + 2) ct in
          if list_ex csi_terminator (drop scan_start (take ct s)) then ct else esc_off)"

definition display_cut :: "string \<Rightarrow> nat \<Rightarrow> nat" where
  "display_cut s max_bytes = floor_boundary s (escape_floor s (floor_boundary s max_bytes))"

definition truncate_for_display :: "string \<Rightarrow> nat \<Rightarrow> string" where
  "truncate_for_display s max_bytes =
     (if length s \<le> max_bytes then s
      else let ct = display_cut s max_bytes in
        take ct s @ [CHR 0xE2, CHR 0x80, CHR 0xA6] @ '' ('' @ decimal (length s - ct) @ '' bytes truncated)'')"

text \<open>\<open>str::trim\<close>: the UTF-8 encodings of the characters with the property White\_Space.\<close>

fun strip_space :: "string \<Rightarrow> string" where
  "strip_space [] = []"
| "strip_space (a # s) =
     (let n = of_char a :: nat in
      if (9 \<le> n \<and> n \<le> 13) \<or> n = 32 then strip_space s
      else (case s of
              b # s1 \<Rightarrow>
                let m = of_char b :: nat in
                if n = 0xC2 \<and> (m = 0x85 \<or> m = 0xA0) then strip_space s1
                else (case s1 of
                        c # s2 \<Rightarrow>
                          let k = of_char c :: nat in
                          if (n = 0xE1 \<and> m = 0x9A \<and> k = 0x80)
                             \<or> (n = 0xE2 \<and> m = 0x80 \<and> ((0x80 \<le> k \<and> k \<le> 0x8A) \<or> k = 0xA8 \<or> k = 0xA9 \<or> k = 0xAF))
                             \<or> (n = 0xE2 \<and> m = 0x81 \<and> k = 0x9F) \<or> (n = 0xE3 \<and> m = 0x80 \<and> k = 0x80)
                          then strip_space s2 else a # s
                      | [] \<Rightarrow> a # s)
            | [] \<Rightarrow> a # s))"

fun strip_space_back :: "string \<Rightarrow> string" where
  "strip_space_back [] = []"
| "strip_space_back (c # s) =
     (let k = of_char c :: nat in
      if (9 \<le> k \<and> k \<le> 13) \<or> k = 32 then strip_space_back s
      else (case s of
              b # s1 \<Rightarrow>
                let m = of_char b :: nat in
                if m = 0xC2 \<and> (k = 0x85 \<or> k = 0xA0) then strip_space_back s1
                else (case s1 of
                        a # s2 \<Rightarrow>
                          let n = of_char a :: nat in
                          if (n = 0xE1 \<and> m = 0x9A \<and> k = 0x80)
                             \<or> (n = 0xE2 \<and> m = 0x80 \<and> ((0x80 \<le> k \<and> k \<le> 0x8A) \<or> k = 0xA8 \<or> k = 0xA9 \<or> k = 0xAF))
                             \<or> (n = 0xE2 \<and> m = 0x81 \<and> k = 0x9F) \<or> (n = 0xE3 \<and> m = 0x80 \<and> k = 0x80)
                          then strip_space_back s2 else c # s
                      | [] \<Rightarrow> c # s)
            | [] \<Rightarrow> c # s))"

definition trim :: "string \<Rightarrow> string" where
  "trim s = rev (strip_space_back (rev (strip_space s)))"

definition write_exit :: "string \<Rightarrow> string \<Rightarrow> string \<Rightarrow> string" where
  "write_exit prefix_text exit_text diagnostics =
     (let tail = trim diagnostics in
      if tail = [] then prefix_text @ '' with '' @ exit_text
      else prefix_text @ '' with '' @ exit_text @ '': '' @ truncate_for_display tail DISPLAY_DIAGNOSTICS_MAX_BYTES)"

section \<open>The ct\<close>

lemma floor_boundary_le: "floor_boundary s c \<le> c"
  by (induction c) auto

lemma floor_boundary_boundary: "is_char_boundary s (floor_boundary s c)"
  by (induction c) (auto simp: is_char_boundary_def)

lemma floor_boundary_fix [simp]: "is_char_boundary s c \<Longrightarrow> floor_boundary s c = c"
  by (cases c) auto

lemma escape_floor_cases:
  "escape_floor s ct = ct \<or> (escape_floor s ct < ct \<and> escape_floor s ct < length s \<and> s ! escape_floor s ct = ESC)"
  by (auto simp: escape_floor_def Let_def split: option.splits dest!: rposition_SomeD)

lemma display_cut_escape:
  "display_cut s n = escape_floor s (floor_boundary s n)"
proof -
  let ?c = "floor_boundary s n"
  have "is_char_boundary s (escape_floor s ?c)"
    using escape_floor_cases [of s ?c] floor_boundary_boundary [of s n]
    by (auto simp: is_char_boundary_def ESC_def)
  then show ?thesis by (simp add: display_cut_def)
qed

lemma display_cut_le: "display_cut s n \<le> n"
  using escape_floor_cases [of s "floor_boundary s n"] floor_boundary_le [of s n]
  by (auto simp: display_cut_escape)

text \<open>
  An escape sequence at \<open>i\<close> is closed before \<open>k\<close> when a terminator stands at least two
  bytes after it; a text is well formed when each of its escapes is closed before the next one.
\<close>

definition closed_before :: "string \<Rightarrow> nat \<Rightarrow> nat \<Rightarrow> bool" where
  "closed_before s i k \<longleftrightarrow> (\<exists>j. i + 2 \<le> j \<and> j < k \<and> j < length s \<and> csi_terminator (s ! j))"

definition escapes_closed :: "string \<Rightarrow> bool" where
  "escapes_closed s \<longleftrightarrow> (\<forall>i k. i < k \<and> k < length s \<and> s ! i = ESC \<and> s ! k = ESC \<longrightarrow> closed_before s i k)"

lemma escape_floor_closed:
  assumes wf: "escapes_closed s" and ct: "ct \<le> length s"
    and i: "i < escape_floor s ct" "s ! i = ESC"
  shows "closed_before s i (escape_floor s ct)"
proof -
  let ?e = "escape_floor s ct"
  have le: "?e \<le> ct" using escape_floor_cases [of s ct] by auto
  then obtain k where k: "rposition (\<lambda>b. b = ESC) (take ct s) = Some k"
    using i ct by (cases "rposition (\<lambda>b. b = ESC) (take ct s)") (auto simp: in_set_conv_nth)
  from rposition_SomeD [OF k] ct
  have kc: "k < ct" "s ! k = ESC" "\<And>j. k < j \<Longrightarrow> j < ct \<Longrightarrow> s ! j \<noteq> ESC" by auto
  show ?thesis
  proof (cases "i < k")
    case True
    with wf kc i ct have "closed_before s i k" by (auto simp: escapes_closed_def)
    moreover have "k \<le> ?e" using k kc by (auto simp: escape_floor_def Let_def)
    ultimately show ?thesis by (auto simp: closed_before_def)
  next
    case False
    then have ik: "i = k" using kc(3) [of i] i le by (metis linorder_neqE_nat order_less_le_trans)
    with i k have ex: "list_ex csi_terminator (drop (min (k + 2) ct) (take ct s))" and e: "?e = ct"
      by (auto simp: escape_floor_def Let_def split: if_splits)
    from ex obtain j where j: "j < length (drop (min (k + 2) ct) (take ct s))"
      "csi_terminator (drop (min (k + 2) ct) (take ct s) ! j)"
      unfolding list_ex_length by blast
    then have "closed_before s k ct" unfolding closed_before_def using ct
      by (intro exI [of _ "min (k + 2) ct + j"]) auto
    with ik e show ?thesis by simp
  qed
qed

text \<open>A diagnostic line is never cut inside a character or an escape sequence.  A text within the
  limit is shown whole.  A longer one keeps a prefix of at most the limit, which ends at a UTF-8
  character boundary and, when every escape of the text is closed before the next one, holds no
  half-open escape; the number reported as truncated is exactly what was dropped.\<close>

theorem truncation_safe:
  "(length s \<le> n \<longrightarrow> truncate_for_display s n = s) \<and>
   (n < length s \<longrightarrow>
     (\<exists>ct. ct \<le> n \<and> is_char_boundary s ct \<and>
        truncate_for_display s n =
          take ct s @ [CHR 0xE2, CHR 0x80, CHR 0xA6] @ '' ('' @ decimal (length s - ct) @ '' bytes truncated)'' \<and>
        (escapes_closed s \<longrightarrow> (\<forall>i < ct. s ! i = ESC \<longrightarrow> closed_before s i ct))))"
proof (intro conjI impI)
  assume n: "n < length s"
  let ?ct = "display_cut s n"
  have b: "is_char_boundary s ?ct" unfolding display_cut_def by (rule floor_boundary_boundary)
  have f: "floor_boundary s n \<le> length s" using floor_boundary_le [of s n] n by simp
  have "escapes_closed s \<longrightarrow> (\<forall>i < ?ct. s ! i = ESC \<longrightarrow> closed_before s i ?ct)"
    using escape_floor_closed [OF _ f] by (auto simp: display_cut_escape)
  with b n display_cut_le [of s n] show "\<exists>ct. ct \<le> n \<and> is_char_boundary s ct \<and>
        truncate_for_display s n =
          take ct s @ [CHR 0xE2, CHR 0x80, CHR 0xA6] @ '' ('' @ decimal (length s - ct) @ '' bytes truncated)'' \<and>
        (escapes_closed s \<longrightarrow> (\<forall>i < ct. s ! i = ESC \<longrightarrow> closed_before s i ct))"
    by (intro exI [of _ ?ct]) (simp add: truncate_for_display_def Let_def)
qed (simp add: truncate_for_display_def)

theorem truncation_safe_witness:
  "\<exists>ct \<le> 3. is_char_boundary ''abcdef'' ct \<and>
     truncate_for_display ''abcdef'' 3 =
       take ct ''abcdef'' @ [CHR 0xE2, CHR 0x80, CHR 0xA6] @ '' ('' @ decimal (6 - ct) @ '' bytes truncated)''"
proof -
  have "3 < length ''abcdef''" by simp
  from mp [OF conjunct2 [OF truncation_safe] this] obtain ct where
    "ct \<le> 3" "is_char_boundary ''abcdef'' ct"
    "truncate_for_display ''abcdef'' 3 =
       take ct ''abcdef'' @ [CHR 0xE2, CHR 0x80, CHR 0xA6] @ '' ('' @ decimal (length ''abcdef'' - ct) @ '' bytes truncated)''"
    by (elim exE conjE) (rule that)
  moreover have "length ''abcdef'' = 6" by simp
  ultimately show ?thesis by metis
qed

text \<open>The cut looks at the last escape only.  When an escape interrupts another one that was
  left open, backing up to the later escape leaves the earlier one half-open at the end of what is kept,
  so the documented invariant (the cut never lands inside an unterminated escape) fails for such a text.\<close>

theorem truncation_reopens_interrupted_escape:
  "take (display_cut (ESC # ''[3'' @ ESC # ''[000000'') 7) (ESC # ''[3'' @ ESC # ''[000000'') = ESC # ''[3'' \<and>
   \<not> closed_before (ESC # ''[3'' @ ESC # ''[000000'') 0 (display_cut (ESC # ''[3'' @ ESC # ''[000000'') 7)"
  by (simp add: display_cut_def escape_floor_def ESC_def is_char_boundary_def closed_before_def csi_terminator_def
      eval_nat_numeral)
end
