(* ===== verification/Worker_Core.thy ===== *)
theory Worker_Core
  imports Wire Display_Text
begin

text \<open>
  The data of the worker supervisor (\<open>lean-rs-worker-parent/src/supervisor.rs\<close>):
  configuration and restart policy with their builders, the per-generation budget,
  restart reasons, statistics, errors, the supervisor state and the worker itself;
  and the part of the operating system it acts on: a clock, child processes, and
  the answers of later spawns.

  Every call whose answer the environment chooses reads the next entry of a script
  held by the child process or the world (\<open>try_wait\<close>, \<open>wait\<close>, \<open>kill\<close>, the RSS
  sample, frame writes, arrivals on stdout).  Theorems quantify over the scripts,
  hence over every behaviour of the environment.  Time is a clock in nanoseconds:
  reading it may find that any delay has passed, and a call that blocks advances it
  by at least one nanosecond.  The text of an error is kept as structured data where
  the source formats values into it.
\<close>

section \<open>Restart policy and configuration\<close>

record restart_intensity =
  ri_max_restarts :: nat
  ri_window :: nat

definition DEFAULT_RESTART_INTENSITY_LIMIT :: nat where "DEFAULT_RESTART_INTENSITY_LIMIT = 16"
definition DEFAULT_RESTART_INTENSITY_WINDOW :: nat where "DEFAULT_RESTART_INTENSITY_WINDOW = secs 60"
definition DEFAULT_REUSE_HINT_CAPACITY :: nat where "DEFAULT_REUSE_HINT_CAPACITY = 4"
definition KILL_WAIT_TIMEOUT :: nat where "KILL_WAIT_TIMEOUT = secs 5"

definition restart_intensity_default :: restart_intensity where
  "restart_intensity_default =
     \<lparr>ri_max_restarts = DEFAULT_RESTART_INTENSITY_LIMIT, ri_window = DEFAULT_RESTART_INTENSITY_WINDOW\<rparr>"

record restart_policy =
  rp_max_requests :: "nat option"
  rp_max_imports :: "nat option"
  rp_max_import_residue_bytes :: "nat option"
  rp_max_rss_kib :: "nat option"
  rp_idle_restart_after :: "nat option"
  rp_restart_intensity :: restart_intensity

definition policy_disabled :: restart_policy where
  "policy_disabled = \<lparr>rp_max_requests = None, rp_max_imports = None, rp_max_import_residue_bytes = None,
     rp_max_rss_kib = None, rp_idle_restart_after = None, rp_restart_intensity = restart_intensity_default\<rparr>"

definition max_requests :: "restart_policy \<Rightarrow> nat \<Rightarrow> restart_policy" where
  "max_requests p limit = p\<lparr>rp_max_requests := Some (max limit 1)\<rparr>"

definition max_imports :: "restart_policy \<Rightarrow> nat \<Rightarrow> restart_policy" where
  "max_imports p limit = p\<lparr>rp_max_imports := Some (max limit 1)\<rparr>"

definition max_import_residue_bytes :: "restart_policy \<Rightarrow> nat \<Rightarrow> restart_policy" where
  "max_import_residue_bytes p limit = p\<lparr>rp_max_import_residue_bytes := Some (max limit 1)\<rparr>"

definition max_rss_kib :: "restart_policy \<Rightarrow> nat \<Rightarrow> restart_policy" where
  "max_rss_kib p limit = p\<lparr>rp_max_rss_kib := Some (max limit 1)\<rparr>"

definition idle_restart_after :: "restart_policy \<Rightarrow> nat \<Rightarrow> restart_policy" where
  "idle_restart_after p duration = p\<lparr>rp_idle_restart_after := Some duration\<rparr>"

definition max_restarts_per_window :: "restart_policy \<Rightarrow> nat \<Rightarrow> nat \<Rightarrow> restart_policy" where
  "max_restarts_per_window p n window =
     p\<lparr>rp_restart_intensity := \<lparr>ri_max_restarts = max n 1, ri_window = max window (millis 1)\<rparr>\<rparr>"

definition memory_bounded :: "nat \<Rightarrow> nat \<Rightarrow> restart_policy" where
  "memory_bounded imports_limit rss = max_rss_kib (max_imports policy_disabled imports_limit) rss"

record worker_config =
  cfg_executable :: string
  cfg_current_dir :: "string option"
  cfg_env :: "(string \<times> string) list"
  cfg_startup_timeout :: nat
  cfg_request_timeout :: nat
  cfg_shutdown_timeout :: nat
  cfg_restart_policy :: restart_policy
  cfg_session_pool_capacity :: "nat option"
  cfg_rss_hard_limit_kib :: "nat option"
  cfg_rss_sample_interval :: nat
  cfg_max_frame_bytes :: nat

definition config_new :: "string \<Rightarrow> worker_config" where
  "config_new exe = \<lparr>cfg_executable = exe, cfg_current_dir = None, cfg_env = [],
     cfg_startup_timeout = secs 10, cfg_request_timeout = secs 30, cfg_shutdown_timeout = secs 2,
     cfg_restart_policy = policy_disabled, cfg_session_pool_capacity = None, cfg_rss_hard_limit_kib = None,
     cfg_rss_sample_interval = millis 250, cfg_max_frame_bytes = MAX_FRAME_BYTES\<rparr>"

definition cfg_with_env :: "worker_config \<Rightarrow> string \<Rightarrow> string \<Rightarrow> worker_config" where
  "cfg_with_env c k v = c\<lparr>cfg_env := cfg_env c @ [(k, v)]\<rparr>"

definition session_pool_capacity :: "worker_config \<Rightarrow> nat \<Rightarrow> worker_config" where
  "session_pool_capacity c capacity = c\<lparr>cfg_session_pool_capacity := Some (max capacity 1)\<rparr>"

text \<open>\<open>usize\<close> is 64 bits wide on every supported target, so \<open>usize::try_from\<close> cannot fail here.\<close>

definition resolved_session_pool_capacity :: "worker_config \<Rightarrow> nat option" where
  "resolved_session_pool_capacity c =
     (case cfg_session_pool_capacity c of
        Some n \<Rightarrow> Some n
      | None \<Rightarrow> rp_max_imports (cfg_restart_policy c))"

definition rss_hard_limit :: "worker_config \<Rightarrow> nat \<Rightarrow> nat \<Rightarrow> worker_config" where
  "rss_hard_limit c limit_kib interval =
     c\<lparr>cfg_rss_hard_limit_kib := Some (max limit_kib 1), cfg_rss_sample_interval := max interval (millis 1)\<rparr>"

definition max_frame_bytes :: "worker_config \<Rightarrow> nat \<Rightarrow> worker_config" where
  "max_frame_bytes c n = c\<lparr>cfg_max_frame_bytes := max MIN_FRAME_BYTES (min n MAX_FRAME_BYTES_HARD_CAP)\<rparr>"

section \<open>Restart reasons and the generation budget\<close>

datatype restart_reason =
    Explicit
  | MaxRequests nat
  | MaxImports nat
  | ImportResidue (residue_bytes: nat) (residue_limit: nat)
  | RssCeiling nat nat "import_stats option"
  | RssHardLimit string nat nat "import_stats option"
  | Idle nat nat
  | Cancelled string
  | RequestTimeout string nat
  | ChildAbort string string string

fun stable_cause :: "restart_reason \<Rightarrow> string" where
  "stable_cause Explicit = ''explicit''"
| "stable_cause (MaxRequests _) = ''max_requests''"
| "stable_cause (MaxImports _) = ''max_imports''"
| "stable_cause (ImportResidue _ _) = ''import_residue''"
| "stable_cause (RssCeiling _ _ _) = ''rss_ceiling''"
| "stable_cause (RssHardLimit _ _ _ _) = ''rss_hard_limit''"
| "stable_cause (Idle _ _) = ''idle''"
| "stable_cause (Cancelled _) = ''cancelled''"
| "stable_cause (RequestTimeout _ _) = ''timeout''"
| "stable_cause (ChildAbort _ _ _) = ''child_abort''"

record generation_budget =
  gb_requests :: nat
  gb_imports :: nat
  gb_import_residue_bytes :: nat

definition budget_default :: generation_budget where
  "budget_default = \<lparr>gb_requests = 0, gb_imports = 0, gb_import_residue_bytes = 0\<rparr>"

definition budget_record_request :: "generation_budget \<Rightarrow> bool \<Rightarrow> generation_budget" where
  "budget_record_request b import_like =
     (let b1 = b\<lparr>gb_requests := sat_inc (gb_requests b)\<rparr> in
      if import_like then b1\<lparr>gb_imports := sat_inc (gb_imports b1)\<rparr> else b1)"

definition budget_record_import :: "generation_budget \<Rightarrow> import_stats \<Rightarrow> generation_budget" where
  "budget_record_import b s =
     b\<lparr>gb_imports := sat_inc (gb_imports b),
       gb_import_residue_bytes := sat_add (gb_import_residue_bytes b) (is_non_memory_mapped_region_bytes s)\<rparr>"

definition import_limit_reached :: "generation_budget \<Rightarrow> restart_policy \<Rightarrow> restart_reason option" where
  "import_limit_reached b p =
     (case rp_max_import_residue_bytes p of
        Some limit_bytes \<Rightarrow>
          (if limit_bytes \<le> gb_import_residue_bytes b
           then Some (ImportResidue (gb_import_residue_bytes b) limit_bytes)
           else (case rp_max_imports p of
                   Some limit \<Rightarrow> (if limit \<le> gb_imports b then Some (MaxImports limit) else None)
                 | None \<Rightarrow> None))
      | None \<Rightarrow> (case rp_max_imports p of
                   Some limit \<Rightarrow> (if limit \<le> gb_imports b then Some (MaxImports limit) else None)
                 | None \<Rightarrow> None))"

definition request_limit_reached :: "generation_budget \<Rightarrow> restart_policy \<Rightarrow> restart_reason option" where
  "request_limit_reached b p =
     (case rp_max_requests p of
        Some limit \<Rightarrow> (if limit \<le> gb_requests b then Some (MaxRequests limit) else None)
      | None \<Rightarrow> None)"

section \<open>Statistics\<close>

record replacement_timing =
  ti_spawn_handshake :: nat
  ti_capability_load :: nat
  ti_session_open_import :: nat
  ti_first_command :: "nat option"
  ti_warm_command :: "nat option"
  ti_replacement_total :: nat
  ti_replacement_reason :: string
  ti_replacement_budget_status :: string

record worker_stats =
  st_requests :: nat
  st_imports :: nat
  st_import_like_admission_attempts :: nat
  st_import_like_admitted :: nat
  st_last_import_like_rss_before_admission_kib :: "nat option"
  st_exits :: nat
  st_restarts :: nat
  st_explicit_cycles :: nat
  st_max_request_restarts :: nat
  st_max_import_restarts :: nat
  st_import_residue_restarts :: nat
  st_import_stats_unusable :: nat
  st_rss_restarts :: nat
  st_idle_restarts :: nat
  st_cancelled_restarts :: nat
  st_timeout_restarts :: nat
  st_rss_samples_unavailable :: nat
  st_last_rss_kib :: "nat option"
  st_last_restart_reason :: "restart_reason option"
  st_replacement_attempts :: nat
  st_replacement_successes :: nat
  st_replacement_failures :: nat
  st_replacement_budget_admitted :: nat
  st_replacement_budget_skipped :: nat
  st_last_replacement_timing :: "replacement_timing option"
  st_last_replacement_skipped_reason :: "string option"
  st_last_spawn_handshake_elapsed :: "nat option"
  st_last_capability_load_elapsed :: "nat option"
  st_last_session_open_import_elapsed :: "nat option"
  st_last_first_command_elapsed :: "nat option"
  st_last_warm_command_elapsed :: "nat option"
  st_last_import_stats :: "import_stats option"
  st_stream_requests :: nat
  st_stream_successes :: nat
  st_stream_failures :: nat
  st_data_rows_delivered :: nat
  st_data_row_payload_bytes :: nat
  st_stream_elapsed :: nat
  st_backpressure_waits :: nat
  st_backpressure_failures :: nat

definition stats_default :: worker_stats where
  "stats_default = \<lparr>st_requests = 0, st_imports = 0, st_import_like_admission_attempts = 0,
     st_import_like_admitted = 0, st_last_import_like_rss_before_admission_kib = None, st_exits = 0,
     st_restarts = 0, st_explicit_cycles = 0, st_max_request_restarts = 0, st_max_import_restarts = 0,
     st_import_residue_restarts = 0, st_import_stats_unusable = 0, st_rss_restarts = 0,
     st_idle_restarts = 0, st_cancelled_restarts = 0, st_timeout_restarts = 0,
     st_rss_samples_unavailable = 0, st_last_rss_kib = None, st_last_restart_reason = None,
     st_replacement_attempts = 0, st_replacement_successes = 0, st_replacement_failures = 0,
     st_replacement_budget_admitted = 0, st_replacement_budget_skipped = 0,
     st_last_replacement_timing = None, st_last_replacement_skipped_reason = None,
     st_last_spawn_handshake_elapsed = None, st_last_capability_load_elapsed = None,
     st_last_session_open_import_elapsed = None, st_last_first_command_elapsed = None,
     st_last_warm_command_elapsed = None, st_last_import_stats = None, st_stream_requests = 0,
     st_stream_successes = 0, st_stream_failures = 0, st_data_rows_delivered = 0,
     st_data_row_payload_bytes = 0, st_stream_elapsed = 0, st_backpressure_waits = 0,
     st_backpressure_failures = 0\<rparr>"

fun count_restart_cause :: "restart_reason \<Rightarrow> worker_stats \<Rightarrow> worker_stats" where
  "count_restart_cause Explicit s = s\<lparr>st_explicit_cycles := sat_inc (st_explicit_cycles s)\<rparr>"
| "count_restart_cause (MaxRequests _) s = s\<lparr>st_max_request_restarts := sat_inc (st_max_request_restarts s)\<rparr>"
| "count_restart_cause (MaxImports _) s = s\<lparr>st_max_import_restarts := sat_inc (st_max_import_restarts s)\<rparr>"
| "count_restart_cause (ImportResidue _ _) s =
     s\<lparr>st_import_residue_restarts := sat_inc (st_import_residue_restarts s)\<rparr>"
| "count_restart_cause (RssCeiling _ _ _) s = s\<lparr>st_rss_restarts := sat_inc (st_rss_restarts s)\<rparr>"
| "count_restart_cause (RssHardLimit _ _ _ _) s = s\<lparr>st_rss_restarts := sat_inc (st_rss_restarts s)\<rparr>"
| "count_restart_cause (Idle _ _) s = s\<lparr>st_idle_restarts := sat_inc (st_idle_restarts s)\<rparr>"
| "count_restart_cause (Cancelled _) s = s\<lparr>st_cancelled_restarts := sat_inc (st_cancelled_restarts s)\<rparr>"
| "count_restart_cause (RequestTimeout _ _) s = s\<lparr>st_timeout_restarts := sat_inc (st_timeout_restarts s)\<rparr>"
| "count_restart_cause (ChildAbort _ _ _) s = s"

definition record_restart :: "worker_stats \<Rightarrow> restart_reason \<Rightarrow> worker_stats" where
  "record_restart s reason =
     (count_restart_cause reason (s\<lparr>st_restarts := sat_inc (st_restarts s)\<rparr>))
       \<lparr>st_last_restart_reason := Some reason\<rparr>"

section \<open>Exits and errors\<close>

record worker_exit =
  ex_success :: bool
  ex_code :: "int option"
  ex_status :: string
  ex_diagnostics :: string

datatype shutdown_outcome =
    AlreadyExited | Graceful | GracefulTimedOutKilled | GracefulProtocolFailedKilled | KillOnly

record shutdown_report =
  sd_outcome :: shutdown_outcome
  sd_exit :: worker_exit
  sd_graceful_timeout :: nat
  sd_elapsed :: nat
  sd_kill_elapsed :: "nat option"
  sd_wait_elapsed :: nat

text \<open>The text of protocol and handshake errors, with the values the source formats into it.\<close>

datatype protocol_text =
    PText string
  | PCodec protocol_error
  | PSendLimit protocol_error
  | PUnexpectedResponse string response
  | PUnexpectedMessage string message
  | PUnexpectedHandshake message
  | PStaleGeneration string nat nat
  | PStaleRequest string "nat option" nat
  | PRowDecode

text \<open>Why a lease was invalidated.\<close>

datatype lease_reason =
    ReasonText string
  | MemoryPolicyCycled nat nat
  | IdlePolicyCycled nat nat
  | GenerationChanged nat nat
  | CancelledDuring string
  | TimedOutDuring string
  | MetadataMismatchFrom string

datatype worker_error =
    ESpawn string
  | EWorkerChildUnresolved "string list"
  | EWorkerChildNotExecutable string string
  | EBootstrap string string
  | ECapabilityBuild string
  | ESetup string
  | EHandshake protocol_text
  | EProtocol protocol_text
  | EWorker string string
  | EChildExited worker_exit
  | EChildPanicOrAbort worker_exit
  | ETimeout string nat resource_facts
  | ERssHardLimitExceeded string nat nat "import_stats option" resource_facts
  | ECancelled string resource_facts
  | EProgressPanic string
  | EDataSinkPanic string
  | EDiagnosticSinkPanic string
  | EStreamExportFailed nat
  | EStreamCallbackFailed nat string
  | EStreamRowMalformed string
  | ECapabilityMetadataMalformed string
  | ECapabilityMetadataMismatch string json json
  | ECapabilityDoctorMalformed string
  | ETypedCommandRequestEncode string string
  | ETypedCommandResponseDecode string string
  | ETypedCommandRowDecode string string nat string
  | ETypedCommandSummaryDecode string string
  | ELeaseInvalidated lease_reason
  | EWorkerPoolExhausted nat resource_facts
  | EWorkerPoolMemoryBudgetExceeded nat nat "import_stats option" resource_facts
  | EWorkerPoolQueueTimeout nat resource_facts
  | ERestartLimitExceeded nat nat
  | EUnsupportedRequest string
  | EWait
  | EKill
  | EWaitTimeout string nat
  | EShutdownInProgress string

fun resource_exhausted_facts :: "worker_error \<Rightarrow> resource_facts option" where
  "resource_exhausted_facts (ETimeout _ _ r) = Some r"
| "resource_exhausted_facts (ERssHardLimitExceeded _ _ _ _ r) = Some r"
| "resource_exhausted_facts (ECancelled _ r) = Some r"
| "resource_exhausted_facts (EWorkerPoolExhausted _ r) = Some r"
| "resource_exhausted_facts (EWorkerPoolMemoryBudgetExceeded _ _ _ r) = Some r"
| "resource_exhausted_facts (EWorkerPoolQueueTimeout _ r) = Some r"
| "resource_exhausted_facts _ = None"

definition duration_ms :: "nat \<Rightarrow> nat" where
  "duration_ms d = clamp_u64 (d div nanos_per_ms)"

definition worker_resource_facts ::
  "string \<Rightarrow> bool \<Rightarrow> string option \<Rightarrow> worker_stats \<Rightarrow> nat option \<Rightarrow> nat option \<Rightarrow> nat option \<Rightarrow> resource_facts" where
  "worker_resource_facts cause entered operation s current_rss limit duration =
     \<lparr>rf_cause = cause, rf_work_entered_child = entered, rf_operation = operation,
      rf_current_rss_kib = current_rss, rf_limit_kib = limit, rf_import_count = Some (st_imports s),
      rf_worker_generation = Some (st_restarts s),
      rf_restart_reason = map_option stable_cause (st_last_restart_reason s),
      rf_queue_wait_ms = None, rf_duration_ms = map_option duration_ms duration,
      rf_cold_open_attempts = None, rf_cold_open_admitted = None, rf_cold_open_refusals = None,
      rf_import_like_requests = Some (st_import_like_admission_attempts s),
      rf_import_like_admitted = Some (st_import_like_admitted s),
      rf_last_import_stats = st_last_import_stats s\<rparr>"

text \<open>\<open>pre_dispatch_cancelled_resource\<close> and the facts of a failed startup carry a cause, an operation
  and at most a duration.\<close>

definition bare_resource_facts :: "string \<Rightarrow> string \<Rightarrow> nat option \<Rightarrow> resource_facts" where
  "bare_resource_facts cause operation duration =
     \<lparr>rf_cause = cause, rf_work_entered_child = False, rf_operation = Some operation,
      rf_current_rss_kib = None, rf_limit_kib = None, rf_import_count = None, rf_worker_generation = None,
      rf_restart_reason = None, rf_queue_wait_ms = None, rf_duration_ms = map_option duration_ms duration,
      rf_cold_open_attempts = None, rf_cold_open_admitted = None, rf_cold_open_refusals = None,
      rf_import_like_requests = None, rf_import_like_admitted = None, rf_last_import_stats = None\<rparr>"

section \<open>The supervisor state\<close>

record in_flight =
  if_id :: nat
  if_operation :: string
  if_generation :: nat

datatype supervisor_state =
    SIdle nat
  | SBusy in_flight
  | SStreaming in_flight
  | SStopping nat
  | SKilling nat
  | SReaping nat
  | SCrashed nat
  | SRestartExhausted nat
  | SExited nat

fun rejects_new_requests :: "supervisor_state \<Rightarrow> bool" where
  "rejects_new_requests (SStopping _) = True"
| "rejects_new_requests (SKilling _) = True"
| "rejects_new_requests (SReaping _) = True"
| "rejects_new_requests (SRestartExhausted _) = True"
| "rejects_new_requests _ = False"

fun current_operation :: "supervisor_state \<Rightarrow> string option" where
  "current_operation (SBusy r) = Some (if_operation r)"
| "current_operation (SStreaming r) = Some (if_operation r)"
| "current_operation _ = None"

fun current_request_id :: "supervisor_state \<Rightarrow> nat option" where
  "current_request_id (SBusy r) = Some (if_id r)"
| "current_request_id (SStreaming r) = Some (if_id r)"
| "current_request_id _ = None"

section \<open>Sessions\<close>

record session_config =
  sc_project_root :: string
  sc_mode :: host_session_mode
  sc_imports :: "string list"
  sc_import_profile :: import_profile

record runtime_metadata =
  rm_worker_version :: string
  rm_protocol_version :: nat
  rm_lean_version :: "string option"

section \<open>Child processes and the world\<close>

record exit_status =
  es_success :: bool
  es_code :: "int option"
  es_text :: string

datatype poll = PollRunning | PollExited exit_status | PollError

datatype read_result = ReadOk message | ReadFail protocol_error | ReaderGone

text \<open>
  One arrival on a child's stdout: how long after the previous one it comes, whether
  the parent's event buffer was full when the reader thread handed it over, and what
  \<open>read_frame\<close> returned.  A child whose arrivals are used up has closed its stdout.
\<close>

record arrival =
  ar_delay :: nat
  ar_buffer_full :: bool
  ar_result :: read_result

definition eof_arrival :: arrival where
  "eof_arrival = \<lparr>ar_delay = 0, ar_buffer_full = False, ar_result = ReadFail (PIo UnexpectedEof)\<rparr>"

record child_proc =
  cp_pid :: nat
  cp_polls :: "poll list"
  cp_wait :: "exit_status option"
  cp_kill_errors :: "bool list"
  cp_rss :: "nat option list"
  cp_writes :: "protocol_error option list"

record spawned =
  sp_child :: child_proc
  sp_has_stdin :: bool
  sp_stdout :: "arrival list option"
  sp_stderr :: "string option"

record progress_event =
  pe_phase :: string
  pe_current :: nat
  pe_total :: "nat option"
  pe_elapsed :: nat

record world =
  os_clock :: nat
  os_instant_max :: nat
  os_delays :: "nat list"
  os_spawns :: "spawned option list"
  os_sent :: "(nat \<times> request) list"
  os_envs :: "(string \<times> string) list list"
  os_killed :: "nat list"
  os_reaped :: "nat list"
  os_rows :: "data_row list"
  os_ticks :: "progress_event list"
  os_diagnostics :: "diagnostic list"

record worker =
  wk_config :: worker_config
  wk_child :: "child_proc option"
  wk_stdin :: bool
  wk_stdout :: "arrival list option"
  wk_stderr :: "string option"
  wk_last_exit :: "worker_exit option"
  wk_runtime_metadata :: runtime_metadata
  wk_stats :: worker_stats
  wk_budget :: generation_budget
  wk_open_session_keys :: "session_config list"
  wk_reuse_hint_enabled :: bool
  wk_reuse_observed :: bool
  wk_pending_restart :: "restart_reason option"
  wk_last_activity :: nat
  wk_generation :: nat
  wk_next_request_id :: nat
  wk_restart_window :: "nat list"
  wk_state :: supervisor_state

text \<open>\<open>deadline.checked_duration_since(now)\<close>: nothing when the deadline lies in the past.\<close>

definition checked_duration_since :: "nat \<Rightarrow> nat \<Rightarrow> nat option" where
  "checked_duration_since later earlier = (if earlier \<le> later then Some (later - earlier) else None)"

text \<open>\<open>Duration::saturating_add\<close>.\<close>

definition duration_max :: nat where
  "duration_max = u64_max * 1000000000 + 999999999"

definition duration_sat_add :: "nat \<Rightarrow> nat \<Rightarrow> nat" where
  "duration_sat_add a b = min (a + b) duration_max"

text \<open>\<open>Instant::now()\<close>: time may have passed since the last look.\<close>

definition now :: "world \<Rightarrow> nat \<times> world" where
  "now os =
     (case os_delays os of
        [] \<Rightarrow> (os_clock os, os)
      | d # ds \<Rightarrow> (os_clock os + d, os\<lparr>os_clock := os_clock os + d, os_delays := ds\<rparr>))"

text \<open>\<open>started.elapsed()\<close>; subtraction on \<open>nat\<close> is the saturating one of \<open>Instant\<close>.\<close>

definition elapsed :: "nat \<Rightarrow> world \<Rightarrow> nat \<times> world" where
  "elapsed started os = (case now os of (t, os') \<Rightarrow> (t - started, os'))"

text \<open>\<open>thread::sleep(d)\<close> and every other blocking call last at least a nanosecond.\<close>

definition sleep :: "nat \<Rightarrow> world \<Rightarrow> world" where
  "sleep d os = os\<lparr>os_clock := os_clock os + max d 1\<rparr>"

definition checked_add_instant :: "world \<Rightarrow> nat \<Rightarrow> nat \<Rightarrow> nat option" where
  "checked_add_instant os t d = (if t + d \<le> os_instant_max os then Some (t + d) else None)"

definition child_try_wait :: "child_proc \<Rightarrow> poll \<times> child_proc" where
  "child_try_wait c =
     (case cp_polls c of [] \<Rightarrow> (PollRunning, c) | p # ps \<Rightarrow> (p, c\<lparr>cp_polls := ps\<rparr>))"

definition child_kill :: "child_proc \<Rightarrow> bool \<times> child_proc" where
  "child_kill c =
     (case cp_kill_errors c of [] \<Rightarrow> (False, c) | e # es \<Rightarrow> (e, c\<lparr>cp_kill_errors := es\<rparr>))"

definition child_rss :: "child_proc \<Rightarrow> nat option \<times> child_proc" where
  "child_rss c = (case cp_rss c of [] \<Rightarrow> (None, c) | r # rs \<Rightarrow> (r, c\<lparr>cp_rss := rs\<rparr>))"

definition child_write :: "child_proc \<Rightarrow> protocol_error option \<times> child_proc" where
  "child_write c = (case cp_writes c of [] \<Rightarrow> (None, c) | e # es \<Rightarrow> (e, c\<lparr>cp_writes := es\<rparr>))"

definition exit_from_status :: "exit_status \<Rightarrow> string \<Rightarrow> worker_exit" where
  "exit_from_status st diagnostics =
     \<lparr>ex_success = es_success st, ex_code = es_code st, ex_status = es_text st, ex_diagnostics = diagnostics\<rparr>"

lemma now_mono: "now os = (t, os') \<Longrightarrow> os_clock os \<le> t \<and> os_clock os' = t"
  by (auto simp: now_def split: list.splits)

end
