(* ===== verification/Worker_Life.thy ===== *)
theory Worker_Life
  imports Worker_Core "HOL-Library.Sublist"
begin

text \<open>
  The life of a worker (\<open>lean-rs-worker-parent/src/supervisor.rs\<close>): spawn and
  handshake, status, shutdown with its escalation to kill, the bounded reaping
  loops, restart admission, and the restart itself.

  An operation takes the worker and the world and returns its result with both
  updated; \<open>?\<close> and early returns are the branches of the \<open>case\<close> on the sum.
  The reader thread of a shutdown and its channel are the list of arrivals: the
  thread hands each one over in order and ends at the first response, failure or
  panic, so what the parent receives is a prefix of that list.
\<close>

type_synonym 'a outcome = "(worker_error + 'a) \<times> worker \<times> world"

section \<open>Small operations on the worker\<close>

definition not_running_exit :: worker_exit where
  "not_running_exit =
     \<lparr>ex_success = False, ex_code = None, ex_status = ''worker is not running'', ex_diagnostics = ''''\<rparr>"

definition exit_error :: "worker_exit \<Rightarrow> worker_error" where
  "exit_error ex = (if ex_success ex then EChildExited ex else EChildPanicOrAbort ex)"

definition dead_error :: "worker \<Rightarrow> worker_error" where
  "dead_error w = exit_error (case wk_last_exit w of Some ex \<Rightarrow> ex | None \<Rightarrow> not_running_exit)"

definition read_stderr :: "worker \<Rightarrow> string \<times> worker" where
  "read_stderr w = ((case wk_stderr w of Some text \<Rightarrow> text | None \<Rightarrow> ''''), w\<lparr>wk_stderr := None\<rparr>)"

definition begin_in_flight :: "string \<Rightarrow> worker \<Rightarrow> in_flight \<times> worker" where
  "begin_in_flight operation w =
     (let request = \<lparr>if_id = wk_next_request_id w, if_operation = operation, if_generation = wk_generation w\<rparr>
      in (request, w\<lparr>wk_next_request_id := sat_inc (wk_next_request_id w), wk_state := SBusy request\<rparr>))"

definition mark_current_request_streaming :: "worker \<Rightarrow> worker" where
  "mark_current_request_streaming w =
     (case wk_state w of
        SBusy request \<Rightarrow> w\<lparr>wk_state := SStreaming request\<rparr>
      | SStreaming request \<Rightarrow> w\<lparr>wk_state := SStreaming request\<rparr>
      | _ \<Rightarrow> w)"

definition finish_in_flight :: "worker \<Rightarrow> worker" where
  "finish_in_flight w =
     (case wk_state w of
        SBusy _ \<Rightarrow> w\<lparr>wk_state := SIdle (wk_generation w)\<rparr>
      | SStreaming _ \<Rightarrow> w\<lparr>wk_state := SIdle (wk_generation w)\<rparr>
      | _ \<Rightarrow> w)"

definition finalize_child_exit :: "exit_status \<Rightarrow> worker \<Rightarrow> worker_exit \<times> worker" where
  "finalize_child_exit st w =
     (case read_stderr w of (diagnostics, w1) \<Rightarrow>
        let ex = exit_from_status st diagnostics;
            w2 = finish_in_flight (w1\<lparr>wk_last_exit := Some ex, wk_child := None, wk_stdin := False, wk_stdout := None\<rparr>)
        in (ex, w2\<lparr>wk_state := SExited (wk_generation w2),
                   wk_stats := (wk_stats w2)\<lparr>st_exits := sat_inc (st_exits (wk_stats w2))\<rparr>\<rparr>))"

text \<open>\<open>child.try_wait().map_err(Wait)\<close>; collecting an exit status reaps the process.\<close>

definition try_wait_child :: "worker \<Rightarrow> world \<Rightarrow> exit_status option outcome" where
  "try_wait_child w os =
     (case wk_child w of
        None \<Rightarrow> (Inr None, w, os)
      | Some c \<Rightarrow>
          (case child_try_wait c of (p, c') \<Rightarrow>
             let w' = w\<lparr>wk_child := Some c'\<rparr> in
             (case p of
                PollRunning \<Rightarrow> (Inr None, w', os)
              | PollExited st \<Rightarrow> (Inr (Some st), w', os\<lparr>os_reaped := os_reaped os @ [cp_pid c]\<rparr>)
              | PollError \<Rightarrow> (Inl EWait, w', os))))"

text \<open>\<open>child.wait()\<close> blocks until the process has gone.\<close>

definition wait_proc :: "child_proc \<Rightarrow> world \<Rightarrow> (worker_error + exit_status) \<times> world" where
  "wait_proc c os =
     (case cp_wait c of
        None \<Rightarrow> (Inl EWait, os)
      | Some st \<Rightarrow> (Inr st, (sleep 0 os)\<lparr>os_reaped := os_reaped os @ [cp_pid c]\<rparr>))"

definition kill_proc :: "child_proc \<Rightarrow> world \<Rightarrow> bool \<times> child_proc \<times> world" where
  "kill_proc c os =
     (case child_kill c of (failed, c') \<Rightarrow>
        (failed, c', if failed then os else os\<lparr>os_killed := os_killed os @ [cp_pid c]\<rparr>))"

text \<open>\<open>if let Some(child) = self.child.as_mut() { child.kill().map_err(Kill)?; }\<close>.\<close>

definition kill_child :: "worker \<Rightarrow> world \<Rightarrow> unit outcome" where
  "kill_child w os =
     (case wk_child w of
        None \<Rightarrow> (Inr (), w, os)
      | Some c \<Rightarrow> (case kill_proc c os of (failed, c', os') \<Rightarrow>
          (if failed then Inl EKill else Inr (), w\<lparr>wk_child := Some c'\<rparr>, os')))"

text \<open>A frame written to a child that is gone meets a broken pipe.\<close>

definition write_request :: "request \<Rightarrow> worker \<Rightarrow> world \<Rightarrow> unit outcome" where
  "write_request req w os =
     (if \<not> wk_stdin w then (Inl (dead_error w), w, os)
      else (case wk_child w of
              None \<Rightarrow> (Inl (EProtocol (PCodec (PIo OtherIo))), w, os)
            | Some c \<Rightarrow>
                (case child_write c of
                   (Some err, c') \<Rightarrow> (Inl (EProtocol (PCodec err)), w\<lparr>wk_child := Some c'\<rparr>, os)
                 | (None, c') \<Rightarrow> (Inr (), w\<lparr>wk_child := Some c'\<rparr>, os\<lparr>os_sent := os_sent os @ [(cp_pid c, req)]\<rparr>))))"

section \<open>Status\<close>

datatype worker_status = Running | Exited worker_exit

definition status :: "worker \<Rightarrow> world \<Rightarrow> worker_status outcome" where
  "status w os =
     (case wk_last_exit w of
        Some ex \<Rightarrow> (Inr (Exited ex), w\<lparr>wk_state := SExited (wk_generation w)\<rparr>, os)
      | None \<Rightarrow>
          if wk_child w = None
          then (Inr (Exited not_running_exit), w\<lparr>wk_state := SExited (wk_generation w)\<rparr>, os)
          else (case try_wait_child w os of
                  (Inl e, w1, os1) \<Rightarrow> (Inl e, w1, os1)
                | (Inr None, w1, os1) \<Rightarrow> (Inr Running, w1, os1)
                | (Inr (Some st), w1, os1) \<Rightarrow>
                    (case read_stderr w1 of (diagnostics, w2) \<Rightarrow>
                       let ex = exit_from_status st diagnostics in
                       (Inr (Exited ex),
                        w2\<lparr>wk_last_exit := Some ex, wk_child := None, wk_stdin := False, wk_stdout := None,
                           wk_stats := (wk_stats w2)\<lparr>st_exits := sat_inc (st_exits (wk_stats w2))\<rparr>,
                           wk_state := SExited (wk_generation w2)\<rparr>, os1))))"

definition ensure_running :: "worker \<Rightarrow> world \<Rightarrow> unit outcome" where
  "ensure_running w os =
     (if rejects_new_requests (wk_state w)
      then (Inl (EShutdownInProgress (case current_operation (wk_state w) of
                                        Some op \<Rightarrow> op | None \<Rightarrow> ''worker_request'')), w, os)
      else (case status w os of
              (Inl e, w1, os1) \<Rightarrow> (Inl e, w1, os1)
            | (Inr Running, w1, os1) \<Rightarrow> (Inr (), w1, os1)
            | (Inr (Exited ex), w1, os1) \<Rightarrow> (Inl (exit_error ex), w1, os1)))"

definition send_request :: "request \<Rightarrow> worker \<Rightarrow> world \<Rightarrow> unit outcome" where
  "send_request req w os =
     (case ensure_running w os of
        (Inl e, w1, os1) \<Rightarrow> (Inl e, w1, os1)
      | (Inr _, w1, os1) \<Rightarrow> write_request req w1 os1)"

section \<open>Reaping\<close>

definition wait_for_exit :: "worker \<Rightarrow> world \<Rightarrow> worker_exit outcome" where
  "wait_for_exit w os =
     (case wk_child w of
        None \<Rightarrow> (Inl (dead_error w), w, os)
      | Some c \<Rightarrow>
          let w1 = w\<lparr>wk_state := SReaping (wk_generation w)\<rparr> in
          (case wait_proc c os of
             (Inl e, os1) \<Rightarrow> (Inl e, w1, os1)
           | (Inr st, os1) \<Rightarrow> (case finalize_child_exit st w1 of (ex, w2) \<Rightarrow> (Inr ex, w2, os1))))"

definition record_exit_error :: "worker \<Rightarrow> world \<Rightarrow> worker_error \<times> worker \<times> world" where
  "record_exit_error w os =
     (case wait_for_exit (w\<lparr>wk_state := SCrashed (wk_generation w)\<rparr>) os of
        (Inr ex, w1, os1) \<Rightarrow> (exit_error ex, w1, os1)
      | (Inl e, w1, os1) \<Rightarrow> (e, w1, os1))"

text \<open>The polling loop of \<open>wait_for_exit_bounded\<close>: it ends because every round sleeps.\<close>

lemma elapsed_mono: "elapsed s os = (d, os') \<Longrightarrow> os_clock os \<le> os_clock os' \<and> d = os_clock os' - s"
  by (auto simp: elapsed_def now_mono split: prod.splits dest: now_mono)

lemma try_wait_clock [simp]: "try_wait_child w os = (r, w', os') \<Longrightarrow> os_clock os' = os_clock os"
  by (auto simp: try_wait_child_def Let_def split: option.splits prod.splits poll.splits)

function wait_loop :: "string \<Rightarrow> nat \<Rightarrow> nat \<Rightarrow> worker \<Rightarrow> world \<Rightarrow> (worker_exit \<times> nat) outcome" where
  "wait_loop operation timeout started w os =
     (if wk_child w = None then (Inl (dead_error w), w, os)
      else (case try_wait_child (w\<lparr>wk_state := SReaping (wk_generation w)\<rparr>) os of
              (Inl e, w1, os1) \<Rightarrow> (Inl e, w1, os1)
            | (Inr (Some st), w1, os1) \<Rightarrow>
                (case finalize_child_exit st w1 of (ex, w2) \<Rightarrow>
                   (case elapsed started os1 of (d, os2) \<Rightarrow> (Inr (ex, d), w2, os2)))
            | (Inr None, w1, os1) \<Rightarrow>
                (case elapsed started os1 of (d1, os2) \<Rightarrow>
                   if timeout \<le> d1 then (Inl (EWaitTimeout operation timeout), w1, os2)
                   else (case elapsed started os2 of (d2, os3) \<Rightarrow>
                           wait_loop operation timeout started w1
                             (sleep (min (millis 10) (timeout - d2)) os3)))))"
  by pat_completeness auto
termination
proof (relation "measure (\<lambda>(operation, timeout, started, w, os). started + timeout - os_clock os)", simp, goal_cases)
  case 1
  then show ?case
    by (auto simp: sleep_def dest!: elapsed_mono try_wait_clock sym [where t = "try_wait_child _ _"] sym [where t = "elapsed _ _"])
qed


definition wait_for_exit_bounded :: "string \<Rightarrow> nat \<Rightarrow> worker \<Rightarrow> world \<Rightarrow> (worker_exit \<times> nat) outcome" where
  "wait_for_exit_bounded operation timeout w os =
     (case now os of (started, os1) \<Rightarrow> wait_loop operation timeout started w os1)"

section \<open>Shutdown\<close>

datatype shutdown_intent = IntentGraceful | IntentKillOnly

definition kill_and_report :: "nat \<Rightarrow> nat \<Rightarrow> shutdown_outcome \<Rightarrow> worker \<Rightarrow> world \<Rightarrow> shutdown_report outcome" where
  "kill_and_report started graceful_timeout outcome w os =
     (case now os of (kill_started, os1) \<Rightarrow>
        (case kill_child (w\<lparr>wk_state := SKilling (wk_generation w)\<rparr>) os1 of
           (Inl e, w2, os2) \<Rightarrow> (Inl e, w2, os2)
         | (Inr _, w2, os2) \<Rightarrow>
             (case wait_for_exit_bounded ''kill_wait'' KILL_WAIT_TIMEOUT w2 os2 of
                (Inl e, w3, os3) \<Rightarrow> (Inl e, w3, os3)
              | (Inr (ex, waited), w3, os3) \<Rightarrow>
                  (case elapsed started os3 of (took, os4) \<Rightarrow>
                     (case elapsed kill_started os4 of (killing, os5) \<Rightarrow>
                        (Inr \<lparr>sd_outcome = outcome, sd_exit = ex, sd_graceful_timeout = graceful_timeout,
                              sd_elapsed = took, sd_kill_elapsed = Some killing, sd_wait_elapsed = waited\<rparr>,
                         w3, os5))))))"

text \<open>\<open>receiver.recv_timeout(wait)\<close> on the reader's channel.\<close>

datatype received = Received arrival "arrival list" | TimedOut "arrival list"

definition recv_timeout :: "nat \<Rightarrow> arrival list \<Rightarrow> world \<Rightarrow> received \<times> world" where
  "recv_timeout wait arrivals os =
     (case arrivals of
        [] \<Rightarrow> (Received eof_arrival [], os)
      | a # rest \<Rightarrow>
          if ar_delay a \<le> wait then (Received a rest, os\<lparr>os_clock := os_clock os + ar_delay a\<rparr>)
          else (TimedOut (a\<lparr>ar_delay := ar_delay a - wait\<rparr> # rest), sleep wait os))"

lemma recv_timeout_clock: "recv_timeout wait arrivals os = (r, os') \<Longrightarrow> os_clock os \<le> os_clock os'"
  by (auto simp: recv_timeout_def sleep_def split: list.splits if_splits)

lemma recv_timeout_Received:
  "recv_timeout wait arrivals os = (Received a rest, os') \<Longrightarrow>
     (arrivals = [] \<and> a = eof_arrival \<and> rest = []) \<or> arrivals = a # rest"
  by (auto simp: recv_timeout_def split: list.splits if_splits)

lemma eof_arrival_result [simp]: "ar_result eof_arrival = ReadFail (PIo UnexpectedEof)"
  by (simp add: eof_arrival_def)

lemma recv_timeout_message:
  "recv_timeout wait arrivals os = (Received a rest, os') \<Longrightarrow> ar_result a = ReadOk m \<Longrightarrow>
     length rest < length arrivals \<and> os_clock os \<le> os_clock os'"
  by (auto simp: recv_timeout_def split: list.splits if_splits)

lemma recv_timeout_TimedOut:
  "recv_timeout wait arrivals os = (TimedOut arrivals', os') \<Longrightarrow>
     length arrivals' = length arrivals \<and> os_clock os < os_clock os'"
  by (auto simp: recv_timeout_def sleep_def split: list.splits if_splits)

text \<open>After \<open>Terminating\<close> or end of file the rest of the grace period is spent waiting.\<close>

definition await_clean_exit :: "nat \<Rightarrow> nat \<Rightarrow> nat \<Rightarrow> worker \<Rightarrow> world \<Rightarrow> shutdown_report outcome" where
  "await_clean_exit started grace_started graceful_timeout w os =
     (case elapsed grace_started os of (used, os1) \<Rightarrow>
        (case wait_for_exit_bounded ''shutdown'' (graceful_timeout - used) w os1 of
           (Inr (ex, waited), w2, os2) \<Rightarrow>
             (case elapsed started os2 of (took, os3) \<Rightarrow>
                (Inr \<lparr>sd_outcome = Graceful, sd_exit = ex, sd_graceful_timeout = graceful_timeout,
                      sd_elapsed = took, sd_kill_elapsed = None, sd_wait_elapsed = waited\<rparr>, w2, os3))
         | (Inl (EWaitTimeout _ _), w2, os2) \<Rightarrow>
             kill_and_report started graceful_timeout GracefulTimedOutKilled w2 os2
         | (Inl e, w2, os2) \<Rightarrow> (Inl e, w2, os2)))"

definition kill_after_grace :: "nat \<Rightarrow> nat \<Rightarrow> worker \<Rightarrow> world \<Rightarrow> shutdown_report outcome" where
  "kill_after_grace started graceful_timeout w os =
     (case now os of (kill_started, os1) \<Rightarrow>
        (case kill_child w os1 of
           (Inl e, w2, os2) \<Rightarrow> (Inl e, w2, os2)
         | (Inr _, w2, os2) \<Rightarrow>
             (case wait_for_exit_bounded ''kill_wait'' KILL_WAIT_TIMEOUT w2 os2 of
                (Inl e, w3, os3) \<Rightarrow> (Inl e, w3, os3)
              | (Inr (ex, waited), w3, os3) \<Rightarrow>
                  (case elapsed started os3 of (took, os4) \<Rightarrow>
                     (case elapsed kill_started os4 of (killing, os5) \<Rightarrow>
                        (Inr \<lparr>sd_outcome = GracefulTimedOutKilled, sd_exit = ex,
                              sd_graceful_timeout = graceful_timeout, sd_elapsed = took,
                              sd_kill_elapsed = Some killing, sd_wait_elapsed = waited\<rparr>, w3, os5))))))"

definition reaped_gracefully ::
  "nat \<Rightarrow> nat \<Rightarrow> nat \<Rightarrow> exit_status \<Rightarrow> worker \<Rightarrow> world \<Rightarrow> shutdown_report outcome" where
  "reaped_gracefully started grace_started graceful_timeout st w os =
     (case elapsed grace_started os of (waited, os1) \<Rightarrow>
        (case finalize_child_exit st w of (ex, w1) \<Rightarrow>
           (case elapsed started os1 of (took, os2) \<Rightarrow>
              (Inr \<lparr>sd_outcome = Graceful, sd_exit = ex, sd_graceful_timeout = graceful_timeout,
                    sd_elapsed = took, sd_kill_elapsed = None, sd_wait_elapsed = waited\<rparr>, w1, os2))))"

text \<open>
  One round of the loop of \<open>wait_for_graceful_shutdown\<close>: it ends the loop, or leaves
  the arrivals, worker and world of the next round, having consumed an arrival or let
  the clock advance towards the deadline.
\<close>

datatype 'a round = Done "'a outcome" | Again "arrival list" worker world

definition graceful_round ::
  "nat \<Rightarrow> nat \<Rightarrow> nat \<Rightarrow> arrival list \<Rightarrow> worker \<Rightarrow> world \<Rightarrow> shutdown_report round" where
  "graceful_round started grace_started graceful_timeout arrivals w os =
     (case try_wait_child w os of
        (Inl e, w1, os1) \<Rightarrow> Done (Inl e, w1, os1)
      | (Inr (Some st), w1, os1) \<Rightarrow> Done (reaped_gracefully started grace_started graceful_timeout st w1 os1)
      | (Inr None, w1, os1) \<Rightarrow>
          (case elapsed grace_started os1 of (used, os2) \<Rightarrow>
             if graceful_timeout \<le> used then Done (kill_after_grace started graceful_timeout w1 os2)
             else (case recv_timeout (min (millis 10) (graceful_timeout - used)) arrivals os2 of
                     (TimedOut arrivals', os3) \<Rightarrow> Again arrivals' w1 os3
                   | (Received a rest, os3) \<Rightarrow>
                       (case ar_result a of
                          ReadOk (MResponse r) \<Rightarrow>
                            if r = RTerminating
                            then Done (await_clean_exit started grace_started graceful_timeout
                                         (w1\<lparr>wk_stdout := Some rest\<rparr>) os3)
                            else Done (kill_and_report started graceful_timeout GracefulProtocolFailedKilled
                                         (w1\<lparr>wk_stdout := Some rest\<rparr>) os3)
                        | ReadOk _ \<Rightarrow> Again rest w1 os3
                        | ReadFail e \<Rightarrow>
                            if protocol_error_is_eof e
                            then Done (await_clean_exit started grace_started graceful_timeout w1 os3)
                            else Done (kill_and_report started graceful_timeout GracefulProtocolFailedKilled w1 os3)
                        | ReaderGone \<Rightarrow>
                            Done (kill_and_report started graceful_timeout GracefulProtocolFailedKilled w1 os3)))))"

lemma graceful_round_Again:
  assumes "graceful_round started gs gt arrivals w os = Again arrivals' w' os'"
  obtains used os1 os2 where
    "try_wait_child w os = (Inr None, w', os1)" "elapsed gs os1 = (used, os2)" "used < gt"
    "os_clock os \<le> os_clock os'" "length arrivals' \<le> length arrivals"
    "length arrivals' < length arrivals \<or> os_clock os2 < os_clock os'"
proof -
  from assms obtain os1 where t: "try_wait_child w os = (Inr None, w', os1)"
    by (auto simp: graceful_round_def split: prod.splits sum.splits option.splits if_splits received.splits
        read_result.splits message.splits)
  obtain used os2 where e: "elapsed gs os1 = (used, os2)" by (cases "elapsed gs os1")
  from assms t e have lt: "used < gt" by (auto simp: graceful_round_def split: if_splits)
  obtain r os3 where rc: "recv_timeout (min (millis 10) (gt - used)) arrivals os2 = (r, os3)"
    by (cases "recv_timeout (min (millis 10) (gt - used)) arrivals os2")
  from try_wait_clock [OF t] elapsed_mono [OF e] have le: "os_clock os \<le> os_clock os2" by simp
  show thesis
  proof (cases r)
    case (Received a rest)
    with assms t e rc lt obtain m where "ar_result a = ReadOk m" "rest = arrivals'" "os3 = os'"
      by (auto simp: graceful_round_def split: read_result.splits message.splits if_splits)
    with recv_timeout_message [of "min (millis 10) (gt - used)" arrivals os2 a rest os3] rc Received le
    show thesis by (intro that [OF t e lt]) auto
  next
    case (TimedOut rest)
    with assms t e rc lt have "rest = arrivals'" "os3 = os'" by (auto simp: graceful_round_def)
    with recv_timeout_TimedOut [of "min (millis 10) (gt - used)" arrivals os2 rest os3] rc TimedOut le
    show thesis by (intro that [OF t e lt]) auto
  qed
qed

function graceful_loop ::
  "nat \<Rightarrow> nat \<Rightarrow> nat \<Rightarrow> arrival list \<Rightarrow> worker \<Rightarrow> world \<Rightarrow> shutdown_report outcome" where
  "graceful_loop started grace_started graceful_timeout arrivals w os =
     (case graceful_round started grace_started graceful_timeout arrivals w os of
        Done r \<Rightarrow> r
      | Again arrivals' w' os' \<Rightarrow> graceful_loop started grace_started graceful_timeout arrivals' w' os')"
  by pat_completeness auto
termination
proof (relation "measures [\<lambda>(started, grace_started, graceful_timeout, arrivals, w, os).
                            grace_started + graceful_timeout - os_clock os,
                          \<lambda>(started, grace_started, graceful_timeout, arrivals, w, os). length arrivals]",
       simp, goal_cases)
  case (1 started gs gt arrivals w os arrivals' w' os')
  then have ag: "graceful_round started gs gt arrivals w os = Again arrivals' w' os'" by simp
  from graceful_round_Again [OF ag] obtain used os1 os2 where
    t: "try_wait_child w os = (Inr None, w', os1)" and e: "elapsed gs os1 = (used, os2)" and u: "used < gt"
    and c: "os_clock os \<le> os_clock os'" "length arrivals' \<le> length arrivals"
    "length arrivals' < length arrivals \<or> os_clock os2 < os_clock os'" by metis
  from elapsed_mono [OF e] try_wait_clock [OF t] u
  have "os_clock os \<le> os_clock os2" "os_clock os2 < gs + gt" by linarith+
  with c have "gs + gt - os_clock os' < gs + gt - os_clock os \<or>
     gs + gt - os_clock os' = gs + gt - os_clock os \<and> length arrivals' < length arrivals"
    by linarith
  then show ?case by simp
qed

definition wait_for_graceful_shutdown :: "nat \<Rightarrow> nat \<Rightarrow> worker \<Rightarrow> world \<Rightarrow> shutdown_report outcome" where
  "wait_for_graceful_shutdown started graceful_timeout w os =
     (case now os of (grace_started, os1) \<Rightarrow>
        (case wk_stdout w of
           None \<Rightarrow> (Inl (dead_error w), w, os1)
         | Some arrivals \<Rightarrow>
             graceful_loop started grace_started graceful_timeout arrivals (w\<lparr>wk_stdout := None\<rparr>) os1))"

definition shutdown_child :: "shutdown_intent \<Rightarrow> worker \<Rightarrow> world \<Rightarrow> shutdown_report outcome" where
  "shutdown_child intent w os =
     (case now os of (started, os1) \<Rightarrow>
        let graceful_timeout = cfg_shutdown_timeout (wk_config w) in
        (case status w os1 of
           (Inl e, w2, os2) \<Rightarrow> (Inl e, w2, os2)
         | (Inr (Exited ex), w2, os2) \<Rightarrow>
             (case elapsed started os2 of (took, os3) \<Rightarrow>
                (Inr \<lparr>sd_outcome = AlreadyExited, sd_exit = ex, sd_graceful_timeout = graceful_timeout,
                      sd_elapsed = took, sd_kill_elapsed = None, sd_wait_elapsed = 0\<rparr>, w2, os3))
         | (Inr Running, w2, os2) \<Rightarrow>
             let w3 = finish_in_flight (w2\<lparr>wk_state := (if intent = IntentGraceful then SStopping (wk_generation w2)
                                                       else SKilling (wk_generation w2))\<rparr>) in
             if intent = IntentGraceful
             then (case write_request Terminate w3 os2 of
                     (Inr _, w4, os4) \<Rightarrow> wait_for_graceful_shutdown started graceful_timeout w4 os4
                   | (Inl (EProtocol _), w4, os4) \<Rightarrow>
                       kill_and_report started graceful_timeout GracefulProtocolFailedKilled w4 os4
                   | (Inl (EWorker _ _), w4, os4) \<Rightarrow>
                       kill_and_report started graceful_timeout GracefulProtocolFailedKilled w4 os4
                   | (Inl e, w4, os4) \<Rightarrow> (Inl e, w4, os4))
             else kill_and_report started graceful_timeout KillOnly w3 os2))"

definition shutdown :: "worker \<Rightarrow> world \<Rightarrow> shutdown_report outcome" where
  "shutdown w os = shutdown_child IntentGraceful w os"

text \<open>\<open>Drop for LeanWorker\<close>: the same path, its result discarded.\<close>

definition drop_worker :: "worker \<Rightarrow> world \<Rightarrow> world" where
  "drop_worker w os = snd (snd (shutdown_child IntentGraceful w os))"

declare wait_loop.simps [simp del]
declare graceful_loop.simps [simp del]

section \<open>Spawn\<close>

definition SESSION_POOL_CAPACITY_ENV :: string where
  "SESSION_POOL_CAPACITY_ENV = ''LEAN_RS_WORKER_SESSION_POOL_CAPACITY''"

text \<open>The variables \<open>spawn\<close> sets on the command, in order; a later one replaces an earlier one.\<close>

definition command_env :: "worker_config \<Rightarrow> (string \<times> string) list" where
  "command_env cfg =
     [(''LEAN_ABORT_ON_PANIC'', ''1''), (''LEAN_BACKTRACE'', ''0''), (''RUST_BACKTRACE'', ''0'')]
     @ (case resolved_session_pool_capacity cfg of
          Some capacity \<Rightarrow> [(SESSION_POOL_CAPACITY_ENV, decimal capacity)]
        | None \<Rightarrow> [])
     @ cfg_env cfg"

definition env_lookup :: "(string \<times> string) list \<Rightarrow> string \<Rightarrow> string option" where
  "env_lookup env k = map_of (rev env) k"

fun expect_handshake :: "message \<Rightarrow> worker_error + runtime_metadata" where
  "expect_handshake (Handshake version protocol) =
     (if protocol = PROTOCOL_VERSION
      then Inr \<lparr>rm_worker_version = version, rm_protocol_version = protocol, rm_lean_version = None\<rparr>
      else Inl (EHandshake (PUnexpectedHandshake (Handshake version protocol))))"
| "expect_handshake other = Inl (EHandshake (PUnexpectedHandshake other))"

text \<open>Collect the exit and the stderr of a child that never became a worker.\<close>

definition wait_with_stderr :: "child_proc \<Rightarrow> string option \<Rightarrow> world \<Rightarrow> (worker_error + worker_exit) \<times> world" where
  "wait_with_stderr c stderr os =
     (case wait_proc c os of
        (Inl e, os1) \<Rightarrow> (Inl e, os1)
      | (Inr st, os1) \<Rightarrow>
          (Inr (exit_from_status st (case stderr of Some txt \<Rightarrow> txt | None \<Rightarrow> [])), os1))"

definition new_worker ::
  "worker_config \<Rightarrow> child_proc \<Rightarrow> arrival list \<Rightarrow> string option \<Rightarrow> runtime_metadata \<Rightarrow> nat \<Rightarrow> nat \<Rightarrow> worker" where
  "new_worker cfg c arrivals stderr metadata handshake_elapsed at =
     \<lparr>wk_config = cfg, wk_child = Some c, wk_stdin = True, wk_stdout = Some arrivals, wk_stderr = stderr,
      wk_last_exit = None, wk_runtime_metadata = metadata,
      wk_stats = stats_default\<lparr>st_last_spawn_handshake_elapsed := Some handshake_elapsed\<rparr>,
      wk_budget = budget_default, wk_open_session_keys = [], wk_reuse_hint_enabled = True,
      wk_reuse_observed = False, wk_pending_restart = None, wk_last_activity = at, wk_generation = 0,
      wk_next_request_id = 0, wk_restart_window = [], wk_state = SIdle 0\<rparr>"

definition read_handshake :: "read_result \<Rightarrow> worker_error + runtime_metadata" where
  "read_handshake r =
     (case r of
        ReadOk m \<Rightarrow> expect_handshake m
      | ReadFail e \<Rightarrow>
          Inl (EHandshake (if protocol_error_is_eof e then PText ''child closed stdout before handshake''
                           else PCodec e))
      | ReaderGone \<Rightarrow> Inl (EHandshake (PText ''handshake reader exited without a result'')))"

definition startup_child ::
  "worker_config \<Rightarrow> nat \<Rightarrow> child_proc \<Rightarrow> arrival list \<Rightarrow> string option \<Rightarrow> world \<Rightarrow> (worker_error + worker) \<times> world" where
  "startup_child cfg spawn_started c stdout stderr os =
     (case recv_timeout (cfg_startup_timeout cfg) stdout os of
        (TimedOut _, os1) \<Rightarrow>
          (case kill_proc c os1 of (_, c1, os2) \<Rightarrow>
             (case wait_with_stderr c1 stderr os2 of
                (Inl e, os3) \<Rightarrow> (Inl e, os3)
              | (Inr _, os3) \<Rightarrow>
                  (Inl (ETimeout ''startup'' (cfg_startup_timeout cfg)
                     (bare_resource_facts ''worker_timeout'' ''startup'' (Some (cfg_startup_timeout cfg)))), os3)))
      | (Received a rest, os1) \<Rightarrow>
          (case read_handshake (ar_result a) of
             Inl e \<Rightarrow>
               if ar_result a = ReaderGone then (Inl e, os1)
               else (case kill_proc c os1 of (_, c1, os2) \<Rightarrow>
                       (case wait_with_stderr c1 stderr os2 of
                          (Inl e, os3) \<Rightarrow> (Inl e, os3)
                        | (Inr ex, os3) \<Rightarrow> (Inl (exit_error ex), os3)))
           | Inr metadata \<Rightarrow>
               (case child_write c of
                  (Some e, _) \<Rightarrow> (Inl (EProtocol (PSendLimit e)), os1)
                | (None, c1) \<Rightarrow>
                    (case elapsed spawn_started os1 of (handshake_elapsed, os2) \<Rightarrow>
                       (case now os2 of (at, os3) \<Rightarrow>
                          (Inr (new_worker cfg c1 rest stderr metadata handshake_elapsed at), os3))))))"

definition spawn :: "worker_config \<Rightarrow> world \<Rightarrow> (worker_error + worker) \<times> world" where
  "spawn cfg os =
     (case now os of (spawn_started, os1) \<Rightarrow>
        let os2 = os1\<lparr>os_envs := os_envs os1 @ [command_env cfg], os_spawns := tl (os_spawns os1)\<rparr> in
        (case os_spawns os1 of
           Some sp # _ \<Rightarrow>
             (if \<not> sp_has_stdin sp then (Inl (ESetup ''child stdin unavailable''), os2)
              else (case sp_stdout sp of
                      None \<Rightarrow> (Inl (ESetup ''child stdout unavailable''), os2)
                    | Some stdout \<Rightarrow> startup_child cfg spawn_started (sp_child sp) stdout (sp_stderr sp) os2))
         | _ \<Rightarrow> (Inl (ESpawn (cfg_executable cfg)), os2)))"

section \<open>Restart\<close>

definition upd_stats :: "(worker_stats \<Rightarrow> worker_stats) \<Rightarrow> worker \<Rightarrow> worker" where
  "upd_stats f w = w\<lparr>wk_stats := f (wk_stats w)\<rparr>"

definition admit_restart :: "nat \<Rightarrow> worker \<Rightarrow> (worker_error + unit) \<times> worker" where
  "admit_restart at w =
     (let limit = rp_restart_intensity (cfg_restart_policy (wk_config w));
          kept = dropWhile (\<lambda>instant. ri_window limit \<le> at - instant) (wk_restart_window w);
          w1 = w\<lparr>wk_restart_window := kept\<rparr>;
          restarts = clamp_u64 (length kept)
      in if ri_max_restarts limit \<le> restarts
         then (Inl (ERestartLimitExceeded restarts (ri_window limit)),
               w1\<lparr>wk_state := SRestartExhausted (wk_generation w1)\<rparr>)
         else (Inr (), w1\<lparr>wk_restart_window := kept @ [at]\<rparr>))"

fun stop_intent :: "restart_reason \<Rightarrow> shutdown_intent" where
  "stop_intent Explicit = IntentGraceful"
| "stop_intent (MaxRequests _) = IntentGraceful"
| "stop_intent (MaxImports _) = IntentGraceful"
| "stop_intent (ImportResidue _ _) = IntentGraceful"
| "stop_intent (RssCeiling _ _ _) = IntentGraceful"
| "stop_intent (Idle _ _) = IntentGraceful"
| "stop_intent (RssHardLimit _ _ _ _) = IntentKillOnly"
| "stop_intent (Cancelled _) = IntentKillOnly"
| "stop_intent (RequestTimeout _ _) = IntentKillOnly"
| "stop_intent (ChildAbort _ _ _) = IntentKillOnly"

text \<open>The statistics each way out of \<open>restart_with_reason_before_spawn\<close> leaves behind.\<close>

definition replacement_attempted :: "worker_stats \<Rightarrow> worker_stats" where
  "replacement_attempted s = s\<lparr>st_replacement_attempts := sat_inc (st_replacement_attempts s)\<rparr>"

definition stop_failed :: "worker_stats \<Rightarrow> worker_stats" where
  "stop_failed s = s\<lparr>st_replacement_failures := sat_inc (st_replacement_failures s),
                      st_last_replacement_skipped_reason := Some ''stop_failed''\<rparr>"

definition restart_refused :: "worker_stats \<Rightarrow> worker_stats" where
  "restart_refused s = s\<lparr>st_replacement_budget_skipped := sat_inc (st_replacement_budget_skipped s),
                         st_replacement_failures := sat_inc (st_replacement_failures s),
                         st_last_replacement_skipped_reason := Some ''restart_limit_exceeded''\<rparr>"

definition restart_admitted :: "restart_reason \<Rightarrow> worker_stats \<Rightarrow> worker_stats" where
  "restart_admitted reason s =
     record_restart (s\<lparr>st_replacement_budget_admitted := sat_inc (st_replacement_budget_admitted s)\<rparr>) reason"

definition spawn_failed :: "worker_stats \<Rightarrow> worker_stats" where
  "spawn_failed s = s\<lparr>st_replacement_failures := sat_inc (st_replacement_failures s),
                       st_last_replacement_skipped_reason := Some ''spawn_failed''\<rparr>"

definition replacement_succeeded :: "nat \<Rightarrow> nat \<Rightarrow> worker_stats \<Rightarrow> worker_stats" where
  "replacement_succeeded spawn_handshake replacement_total s =
     s\<lparr>st_replacement_successes := sat_inc (st_replacement_successes s),
       st_last_replacement_skipped_reason := None,
       st_last_spawn_handshake_elapsed := Some spawn_handshake,
       st_last_replacement_timing := Some \<lparr>
         ti_spawn_handshake = spawn_handshake,
         ti_capability_load = (case st_last_capability_load_elapsed s of Some d \<Rightarrow> d | None \<Rightarrow> 0),
         ti_session_open_import = 0,
         ti_first_command = st_last_first_command_elapsed s,
         ti_warm_command = st_last_warm_command_elapsed s,
         ti_replacement_total = replacement_total,
         ti_replacement_reason =
           (case st_last_restart_reason s of Some r \<Rightarrow> stable_cause r | None \<Rightarrow> ''unknown''),
         ti_replacement_budget_status = ''synchronous-no-overlap''\<rparr>\<rparr>"

text \<open>What the replacement takes over from the old worker.\<close>

definition adopt :: "worker \<Rightarrow> worker \<Rightarrow> nat \<Rightarrow> nat \<Rightarrow> nat \<Rightarrow> worker" where
  "adopt w fresh next_generation replacement_total at =
     fresh\<lparr>
       wk_stats := replacement_succeeded
         (case st_last_spawn_handshake_elapsed (wk_stats fresh) of Some d \<Rightarrow> d | None \<Rightarrow> 0)
         replacement_total (wk_stats w),
       wk_generation := next_generation,
       wk_next_request_id := wk_next_request_id w,
       wk_state := SIdle next_generation,
       wk_restart_window := wk_restart_window w,
       wk_last_activity := at\<rparr>"

text \<open>
  \<open>before_spawn\<close> only joins the reader thread of the request that is being abandoned.
  Assigning the replacement to \<open>*self\<close> drops the old worker.
\<close>

definition restart_with_reason :: "restart_reason \<Rightarrow> worker \<Rightarrow> world \<Rightarrow> unit outcome" where
  "restart_with_reason reason w os =
     (let cfg = wk_config w in
      case now os of (replacement_started, os1) \<Rightarrow>
        (case shutdown_child (stop_intent reason) (upd_stats replacement_attempted w) os1 of
           (Inl e, w2, os2) \<Rightarrow> (Inl e, upd_stats stop_failed w2, os2)
         | (Inr _, w2, os2) \<Rightarrow>
             (case admit_restart replacement_started w2 of
                (Inl e, w3) \<Rightarrow> (Inl e, upd_stats restart_refused w3, os2)
              | (Inr _, w3) \<Rightarrow>
                  let next_generation = sat_inc (wk_generation w3);
                      w4 = (upd_stats (restart_admitted reason) w3)\<lparr>wk_budget := budget_default\<rparr>
                  in (case spawn cfg os2 of
                        (Inl e, os3) \<Rightarrow> (Inl e, upd_stats spawn_failed w4, os3)
                      | (Inr fresh, os3) \<Rightarrow>
                          (case elapsed replacement_started os3 of (took, os4) \<Rightarrow>
                             (case now os4 of (at, os5) \<Rightarrow>
                                (Inr (), adopt w4 fresh next_generation took at, drop_worker w4 os5)))))))"

definition cycle :: "worker \<Rightarrow> world \<Rightarrow> unit outcome" where
  "cycle w os = restart_with_reason Explicit w os"

definition child_abort_reason :: "string \<Rightarrow> worker_exit \<Rightarrow> restart_reason" where
  "child_abort_reason operation ex =
     ChildAbort operation (ex_status ex)
       (truncate_for_display (trim (ex_diagnostics ex)) DISPLAY_DIAGNOSTICS_MAX_BYTES)"

definition recover_child_abort :: "string \<Rightarrow> worker_error \<Rightarrow> worker \<Rightarrow> world \<Rightarrow> unit outcome" where
  "recover_child_abort operation err w os =
     (case err of
        EChildPanicOrAbort ex \<Rightarrow> restart_with_reason (child_abort_reason operation ex) w os
      | _ \<Rightarrow> (Inl err, w, os))"

section \<open>Observations\<close>

record lifecycle_snapshot =
  ls_worker_generation :: nat
  ls_restarts :: nat
  ls_exits :: nat
  ls_last_restart_reason :: "restart_reason option"
  ls_last_exit :: "worker_exit option"
  ls_last_rss_kib :: "nat option"
  ls_rss_samples_unavailable :: nat
  ls_import_residue_bytes :: nat
  ls_import_residue_limit_bytes :: "nat option"

definition lifecycle_snapshot_of :: "worker \<Rightarrow> lifecycle_snapshot" where
  "lifecycle_snapshot_of w =
     \<lparr>ls_worker_generation = st_restarts (wk_stats w), ls_restarts = st_restarts (wk_stats w),
      ls_exits = st_exits (wk_stats w), ls_last_restart_reason = st_last_restart_reason (wk_stats w),
      ls_last_exit = wk_last_exit w, ls_last_rss_kib = st_last_rss_kib (wk_stats w),
      ls_rss_samples_unavailable = st_rss_samples_unavailable (wk_stats w),
      ls_import_residue_bytes = gb_import_residue_bytes (wk_budget w),
      ls_import_residue_limit_bytes = rp_max_import_residue_bytes (cfg_restart_policy (wk_config w))\<rparr>"

definition child_rss_kib :: "worker \<Rightarrow> nat option \<times> worker" where
  "child_rss_kib w =
     (case wk_child w of
        None \<Rightarrow> (None, w)
      | Some c \<Rightarrow> (case child_rss c of (r, c') \<Rightarrow> (r, w\<lparr>wk_child := Some c'\<rparr>)))"

definition note_rss :: "nat option \<Rightarrow> worker \<Rightarrow> worker" where
  "note_rss sample w =
     (case sample of
        Some current \<Rightarrow> upd_stats (\<lambda>s. s\<lparr>st_last_rss_kib := Some current\<rparr>) w
      | None \<Rightarrow> upd_stats (\<lambda>s. s\<lparr>st_rss_samples_unavailable := sat_inc (st_rss_samples_unavailable s)\<rparr>) w)"

definition rss_kib :: "worker \<Rightarrow> nat option \<times> worker" where
  "rss_kib w = (case child_rss_kib w of (sample, w1) \<Rightarrow> (sample, note_rss sample w1))"

definition record_capability_open_timing :: "nat \<Rightarrow> nat option \<Rightarrow> worker \<Rightarrow> worker" where
  "record_capability_open_timing load_elapsed open_elapsed w =
     upd_stats (\<lambda>s.
       let s1 = s\<lparr>st_last_capability_load_elapsed := Some load_elapsed\<rparr>;
           s2 = (case open_elapsed of
                   Some d \<Rightarrow> s1\<lparr>st_last_session_open_import_elapsed := Some d\<rparr> | None \<Rightarrow> s1)
       in s2\<lparr>st_last_replacement_timing := map_option (\<lambda>t.
            let t1 = t\<lparr>ti_capability_load := load_elapsed\<rparr> in
            (case open_elapsed of Some d \<Rightarrow> t1\<lparr>ti_session_open_import := d\<rparr> | None \<Rightarrow> t1))
            (st_last_replacement_timing s2)\<rparr>) w"

definition record_command_timing :: "bool \<Rightarrow> nat \<Rightarrow> worker \<Rightarrow> worker" where
  "record_command_timing first_command_after_open took w =
     upd_stats (\<lambda>s.
       if first_command_after_open
       then s\<lparr>st_last_first_command_elapsed := Some took,
              st_last_replacement_timing :=
                map_option (\<lambda>t. t\<lparr>ti_first_command := Some took\<rparr>) (st_last_replacement_timing s)\<rparr>
       else s\<lparr>st_last_warm_command_elapsed := Some took,
              st_last_replacement_timing :=
                map_option (\<lambda>t. t\<lparr>ti_warm_command := Some took\<rparr>) (st_last_replacement_timing s)\<rparr>) w"

definition set_request_timeout :: "nat \<Rightarrow> worker \<Rightarrow> worker" where
  "set_request_timeout timeout w = w\<lparr>wk_config := (wk_config w)\<lparr>cfg_request_timeout := timeout\<rparr>\<rparr>"

section \<open>What lifecycle operations leave alone\<close>

text \<open>
  Lifecycle operations short of a restart change the process handles, the last exit,
  the state and the exit counter, and nothing else (\<open>life_frame\<close>); of the world they
  let time pass and extend the records of frames, kills and reaped processes
  (\<open>world_mono\<close>), spawning nothing (\<open>world_grows\<close>).
\<close>

definition life_frame :: "worker \<Rightarrow> worker \<Rightarrow> bool" where
  "life_frame w w' \<longleftrightarrow>
     wk_config w' = wk_config w \<and> wk_runtime_metadata w' = wk_runtime_metadata w \<and>
     (wk_stats w')\<lparr>st_exits := 0\<rparr> = (wk_stats w)\<lparr>st_exits := 0\<rparr> \<and> wk_budget w' = wk_budget w \<and>
     wk_open_session_keys w' = wk_open_session_keys w \<and> wk_reuse_hint_enabled w' = wk_reuse_hint_enabled w \<and>
     wk_reuse_observed w' = wk_reuse_observed w \<and> wk_pending_restart w' = wk_pending_restart w \<and>
     wk_last_activity w' = wk_last_activity w \<and> wk_generation w' = wk_generation w \<and>
     wk_next_request_id w' = wk_next_request_id w \<and> wk_restart_window w' = wk_restart_window w"

definition world_mono :: "world \<Rightarrow> world \<Rightarrow> bool" where
  "world_mono os os' \<longleftrightarrow>
     os_clock os \<le> os_clock os' \<and> prefix (os_sent os) (os_sent os') \<and> prefix (os_killed os) (os_killed os') \<and>
     prefix (os_reaped os) (os_reaped os')"

definition world_grows :: "world \<Rightarrow> world \<Rightarrow> bool" where
  "world_grows os os' \<longleftrightarrow>
     world_mono os os' \<and> os_spawns os' = os_spawns os \<and> os_envs os' = os_envs os \<and>
     os_rows os' = os_rows os \<and> os_ticks os' = os_ticks os \<and> os_diagnostics os' = os_diagnostics os"

named_theorems frame_simps \<open>fields an operation leaves alone\<close>

lemma life_frame_refl [simp]: "life_frame w w"
  by (simp add: life_frame_def)

lemma life_frame_trans [trans]: "life_frame w w1 \<Longrightarrow> life_frame w1 w2 \<Longrightarrow> life_frame w w2"
  by (simp add: life_frame_def)

lemma world_mono_refl [simp]: "world_mono os os"
  by (simp add: world_mono_def)

lemma world_mono_trans [trans]: "world_mono os os1 \<Longrightarrow> world_mono os1 os2 \<Longrightarrow> world_mono os os2"
  by (auto simp: world_mono_def intro: prefix_order.trans)

lemma world_grows_refl [simp]: "world_grows os os"
  by (simp add: world_grows_def)

lemma world_grows_trans [trans]: "world_grows os os1 \<Longrightarrow> world_grows os1 os2 \<Longrightarrow> world_grows os os2"
  by (auto simp: world_grows_def intro: world_mono_trans)

lemma world_grows_mono: "world_grows os os' \<Longrightarrow> world_mono os os'"
  by (simp add: world_grows_def)

lemma world_mono_killed: "world_mono os os' \<Longrightarrow> p \<in> set (os_killed os) \<Longrightarrow> p \<in> set (os_killed os')"
  by (auto simp: world_mono_def dest: set_mono_prefix)

lemma world_mono_reaped: "world_mono os os' \<Longrightarrow> p \<in> set (os_reaped os) \<Longrightarrow> p \<in> set (os_reaped os')"
  by (auto simp: world_mono_def dest: set_mono_prefix)

lemma now_grows: "now os = (t, os') \<Longrightarrow> world_grows os os'"
  by (auto simp: now_def world_grows_def world_mono_def split: list.splits)

lemma elapsed_grows: "elapsed s os = (d, os') \<Longrightarrow> world_grows os os'"
  by (auto simp: elapsed_def split: prod.splits dest: now_grows)

lemma sleep_grows: "world_grows os (sleep d os)"
  by (simp add: sleep_def world_grows_def world_mono_def)

lemma recv_timeout_grows: "recv_timeout d arrivals os = (r, os') \<Longrightarrow> world_grows os os'"
  by (auto simp: recv_timeout_def sleep_def world_grows_def world_mono_def split: list.splits if_splits)

section \<open>Alive and gone\<close>

definition alive :: "nat \<Rightarrow> worker \<Rightarrow> bool" where
  "alive p w \<longleftrightarrow> map_option cp_pid (wk_child w) = Some p \<and> wk_last_exit w = None \<and> wk_stdin w"

definition gone :: "worker \<Rightarrow> bool" where
  "gone w \<longleftrightarrow> wk_child w = None \<and> \<not> wk_stdin w \<and> wk_stdout w = None \<and> wk_last_exit w \<noteq> None"

text \<open>
  An operation that is to end process \<open>p\<close> either reaps it, leaving the worker gone with
  the exit it reports, or fails and leaves it alive.
\<close>

fun lifecycle_failure :: "worker_error \<Rightarrow> bool" where
  "lifecycle_failure EWait = True"
| "lifecycle_failure EKill = True"
| "lifecycle_failure (EWaitTimeout _ _) = True"
| "lifecycle_failure _ = False"

definition closes :: "nat \<Rightarrow> worker \<Rightarrow> world \<Rightarrow> ('a \<Rightarrow> worker_exit) \<Rightarrow> 'a outcome \<Rightarrow> bool" where
  "closes p w os exit_of out \<longleftrightarrow>
     (case out of (r, w', os') \<Rightarrow>
        life_frame w w' \<and> world_grows os os' \<and>
        (case r of
           Inr x \<Rightarrow> gone w' \<and> wk_last_exit w' = Some (exit_of x) \<and> wk_state w' = SExited (wk_generation w) \<and>
                    st_exits (wk_stats w') = sat_inc (st_exits (wk_stats w)) \<and> p \<in> set (os_reaped os')
         | Inl e \<Rightarrow> alive p w' \<and> wk_stats w' = wk_stats w \<and> lifecycle_failure e))"

lemma closes_step:
  "life_frame w w1 \<Longrightarrow> wk_stats w1 = wk_stats w \<Longrightarrow> world_grows os os1 \<Longrightarrow> closes p w1 os1 f out \<Longrightarrow>
     closes p w os f out"
  by (auto simp: closes_def life_frame_def split: sum.splits intro: world_grows_trans)

lemma finalize_gone:
  "finalize_child_exit st w = (ex, w') \<Longrightarrow>
     life_frame w w' \<and> gone w' \<and> wk_last_exit w' = Some ex \<and> wk_state w' = SExited (wk_generation w) \<and>
     st_exits (wk_stats w') = sat_inc (st_exits (wk_stats w))"
  by (auto simp: finalize_child_exit_def read_stderr_def finish_in_flight_def life_frame_def gone_def Let_def
      split: supervisor_state.splits)

lemma try_wait_child_cases:
  assumes "alive p w" and "try_wait_child w os = (r, w', os')"
  shows "life_frame w w'" and "wk_stats w' = wk_stats w" and "world_grows os os'" and "alive p w'"
    and "wk_stdout w' = wk_stdout w" and "wk_state w' = wk_state w"
    and "\<And>st. r = Inr (Some st) \<Longrightarrow> p \<in> set (os_reaped os')"
    and "\<And>e. r = Inl e \<Longrightarrow> e = EWait" and "r = Inr None \<Longrightarrow> os' = os"
proof -
  obtain c where c: "wk_child w = Some c" "cp_pid c = p" "wk_stdin w" "wk_last_exit w = None"
    using assms(1) by (auto simp: alive_def)
  obtain a c' where t: "child_try_wait c = (a, c')" by (cases "child_try_wait c")
  have c': "cp_pid c' = p" using t c by (auto simp: child_try_wait_def split: list.splits)
  from assms(2) c t have w': "w' = w\<lparr>wk_child := Some c'\<rparr>"
    and r: "(r = Inr None \<and> os' = os) \<or> (r = Inl EWait \<and> os' = os) \<or>
      (\<exists>st. r = Inr (Some st) \<and> os' = os\<lparr>os_reaped := os_reaped os @ [p]\<rparr>)"
    by (auto simp: try_wait_child_def Let_def split: poll.splits)
  from w' c c' show "life_frame w w'" "wk_stats w' = wk_stats w" "alive p w'" "wk_stdout w' = wk_stdout w"
    "wk_state w' = wk_state w" by (simp_all add: life_frame_def alive_def)
  from r show "world_grows os os'" by (elim disjE exE) (auto simp: world_grows_def world_mono_def)
  from r show "r = Inr (Some st) \<Longrightarrow> p \<in> set (os_reaped os')"
    "r = Inl e \<Longrightarrow> e = EWait" "r = Inr None \<Longrightarrow> os' = os" for st e by auto
qed

lemma kill_child_cases:
  assumes "alive p w" and "kill_child w os = (r, w', os')"
  shows "life_frame w w'" and "wk_stats w' = wk_stats w" and "world_grows os os'" and "alive p w'"
    and "\<And>u. r = Inr u \<Longrightarrow> p \<in> set (os_killed os')" and "\<And>e. r = Inl e \<Longrightarrow> e = EKill"
    and "wk_stdout w' = wk_stdout w" and "wk_state w' = wk_state w"
proof -
  obtain c where c: "wk_child w = Some c" "cp_pid c = p" "wk_stdin w" "wk_last_exit w = None"
    using assms(1) by (auto simp: alive_def)
  obtain a c' where k: "child_kill c = (a, c')" by (cases "child_kill c")
  have c': "cp_pid c' = p" using k c by (auto simp: child_kill_def split: list.splits)
  from assms(2) c k have w': "w' = w\<lparr>wk_child := Some c'\<rparr>"
    and r: "(r = Inl EKill \<and> os' = os) \<or> (r = Inr () \<and> os' = os\<lparr>os_killed := os_killed os @ [p]\<rparr>)"
    by (auto simp: kill_child_def kill_proc_def split: if_splits)
  from w' c c' show "life_frame w w'" "wk_stats w' = wk_stats w" "alive p w'" "wk_stdout w' = wk_stdout w"
    "wk_state w' = wk_state w" by (simp_all add: life_frame_def alive_def)
  from r show "world_grows os os'" by (elim disjE) (auto simp: world_grows_def world_mono_def)
  from r show "r = Inr u \<Longrightarrow> p \<in> set (os_killed os')" "r = Inl e \<Longrightarrow> e = EKill" for u e by auto
qed

lemma write_request_cases:
  assumes "alive p w" and "write_request req w os = (r, w', os')"
  shows "life_frame w w'" and "wk_stats w' = wk_stats w" and "world_grows os os'" and "alive p w'"
    and "wk_stdout w' = wk_stdout w" and "wk_state w' = wk_state w"
    and "r = Inr () \<Longrightarrow> os_sent os' = os_sent os @ [(p, req)]"
    and "\<And>e. r = Inl e \<Longrightarrow> (\<exists>x. e = EProtocol (PCodec x)) \<and> os' = os"
proof -
  obtain c where c: "wk_child w = Some c" "cp_pid c = p" "wk_stdin w" "wk_last_exit w = None"
    using assms(1) by (auto simp: alive_def)
  obtain e c' where e: "child_write c = (e, c')" by (cases "child_write c")
  have c': "cp_pid c' = p" using e c by (auto simp: child_write_def split: list.splits)
  from assms(2) c e have w': "w' = w\<lparr>wk_child := Some c'\<rparr>"
    and r: "(\<exists>x. e = Some x \<and> r = Inl (EProtocol (PCodec x)) \<and> os' = os) \<or>
      (r = Inr () \<and> os' = os\<lparr>os_sent := os_sent os @ [(p, req)]\<rparr>)"
    by (auto simp: write_request_def split: option.splits)
  from w' c c' show "life_frame w w'" "wk_stats w' = wk_stats w" "alive p w'" "wk_stdout w' = wk_stdout w"
    "wk_state w' = wk_state w" by (simp_all add: life_frame_def alive_def)
  from r show "world_grows os os'" by (elim disjE) (auto simp: world_grows_def world_mono_def)
  from r show "r = Inr () \<Longrightarrow> os_sent os' = os_sent os @ [(p, req)]"
    "r = Inl e \<Longrightarrow> (\<exists>x. e = EProtocol (PCodec x)) \<and> os' = os" for e by auto
qed

lemma alive_child: "alive p w \<Longrightarrow> wk_child w \<noteq> None"
  by (auto simp: alive_def)

lemma alive_set_state [simp]: "alive p (w\<lparr>wk_state := s\<rparr>) = alive p w" "alive p (w\<lparr>wk_stdout := a\<rparr>) = alive p w"
  by (auto simp: alive_def)

lemma life_frame_set_state [simp]:
  "life_frame w (w\<lparr>wk_state := s\<rparr>)" "life_frame w (w\<lparr>wk_stdout := a\<rparr>)"
  by (auto simp: life_frame_def)

lemma wait_loop_closes: "alive p w \<Longrightarrow> closes p w os fst (wait_loop operation timeout started w os)"
proof (induction operation timeout started w os rule: wait_loop.induct)
  case (1 operation timeout started w os)
  let ?w = "w\<lparr>wk_state := SReaping (wk_generation w)\<rparr>"
  obtain r w1 os1 where t: "try_wait_child ?w os = (r, w1, os1)" by (cases "try_wait_child ?w os")
  have a: "alive p ?w" using 1(2) by simp
  note tc = try_wait_child_cases [OF a t]
  have f: "life_frame w w1" using life_frame_trans [OF life_frame_set_state(1) tc(1)] .
  have s: "wk_stats w1 = wk_stats w" using tc(2) by simp
  from 1(2) obtain c0 where c: "wk_child w = Some c0" by (auto simp: alive_def)
  show ?case
  proof (cases r)
    case (Inl e)
    then show ?thesis using c t f s tc by (subst wait_loop.simps) (simp add: closes_def)
  next
    case (Inr o1)
    show ?thesis
    proof (cases o1)
      case (Some st)
      obtain ex w2 where fin: "finalize_child_exit st w1 = (ex, w2)" by (cases "finalize_child_exit st w1")
      obtain d os2 where e: "elapsed started os1 = (d, os2)" by (cases "elapsed started os1")
      have g: "world_grows os os2" using world_grows_trans [OF tc(3) elapsed_grows [OF e]] .
      have "p \<in> set (os_reaped os2)"
        using tc(7) Inr Some world_mono_reaped [OF world_grows_mono [OF elapsed_grows [OF e]]] by simp
      with finalize_gone [OF fin] f s g c t Inr Some fin e show ?thesis
        by (subst wait_loop.simps) (auto simp: closes_def life_frame_def)
    next
      case None
      obtain d1 os2 where e1: "elapsed started os1 = (d1, os2)" by (cases "elapsed started os1")
      have g2: "world_grows os os2" using world_grows_trans [OF tc(3) elapsed_grows [OF e1]] .
      show ?thesis
      proof (cases "timeout \<le> d1")
        case True
        then show ?thesis using c t f s g2 tc(4) Inr None e1 by (subst wait_loop.simps) (simp add: closes_def)
      next
        case False
        obtain d2 os3 where e2: "elapsed started os2 = (d2, os3)" by (cases "elapsed started os2")
        let ?os = "sleep (min (millis 10) (timeout - d2)) os3"
        have g: "world_grows os ?os"
          using world_grows_trans [OF world_grows_trans [OF g2 elapsed_grows [OF e2]] sleep_grows] .
        have "closes p w1 ?os fst (wait_loop operation timeout started w1 ?os)"
          using 1(1) c t Inr None e1 False e2 tc(4) by simp
        from closes_step [OF f s g this] show ?thesis
          using c t Inr None e1 False e2 by (subst wait_loop.simps) simp
      qed
    qed
  qed
qed

lemma wait_for_exit_bounded_closes:
  "alive p w \<Longrightarrow> closes p w os fst (wait_for_exit_bounded operation timeout w os)"
  unfolding wait_for_exit_bounded_def
  by (cases "now os") (auto intro: closes_step [OF life_frame_refl refl now_grows wait_loop_closes])

lemma wait_loop_child_none [simp]: "wk_child w = None \<Longrightarrow> wait_loop operation timeout started w os = (Inl (dead_error w), w, os)"
  by (subst wait_loop.simps) simp

section \<open>Shutdown ends the process\<close>

fun killed_outcome :: "shutdown_outcome \<Rightarrow> bool" where
  "killed_outcome GracefulTimedOutKilled = True"
| "killed_outcome GracefulProtocolFailedKilled = True"
| "killed_outcome KillOnly = True"
| "killed_outcome _ = False"

definition closes_report :: "nat \<Rightarrow> worker \<Rightarrow> world \<Rightarrow> shutdown_report outcome \<Rightarrow> bool" where
  "closes_report p w os out \<longleftrightarrow>
     closes p w os sd_exit out \<and>
     (\<forall>x. fst out = Inr x \<longrightarrow>
        sd_outcome x \<noteq> AlreadyExited \<and> killed_outcome (sd_outcome x) = (sd_kill_elapsed x \<noteq> None) \<and>
        (killed_outcome (sd_outcome x) \<longrightarrow> p \<in> set (os_killed (snd (snd out)))))"

lemma closes_report_step:
  "life_frame w w1 \<Longrightarrow> wk_stats w1 = wk_stats w \<Longrightarrow> world_grows os os1 \<Longrightarrow> closes_report p w1 os1 out \<Longrightarrow>
     closes_report p w os out"
  unfolding closes_report_def by (blast intro: closes_step)

lemma closesE:
  assumes "closes p w os f (r, w', os')"
  shows "life_frame w w'" and "world_grows os os'"
    and "\<And>e. r = Inl e \<Longrightarrow> alive p w' \<and> wk_stats w' = wk_stats w \<and> lifecycle_failure e"
    and "\<And>x. r = Inr x \<Longrightarrow> gone w' \<and> wk_last_exit w' = Some (f x) \<and> wk_state w' = SExited (wk_generation w) \<and>
            st_exits (wk_stats w') = sat_inc (st_exits (wk_stats w)) \<and> p \<in> set (os_reaped os')"
  using assms by (auto simp: closes_def)

lemma closes_Inl:
  "life_frame w w' \<Longrightarrow> world_grows os os' \<Longrightarrow> alive p w' \<Longrightarrow> wk_stats w' = wk_stats w \<Longrightarrow> lifecycle_failure e \<Longrightarrow>
     closes p w os f (Inl e, w', os')"
  by (simp add: closes_def)

lemma closes_map:
  assumes "closes p w os f (Inr x, w', os')" and "g y = f x" and "world_grows os' os''"
  shows "closes p w os g (Inr y, w', os'')"
  using assms by (auto simp: closes_def intro: world_grows_trans world_mono_reaped world_grows_mono)

lemma kill_then_wait_closes:
  assumes a: "alive p w" and g: "world_grows os0 os" and f: "life_frame w0 w" and s: "wk_stats w = wk_stats w0"
    and o1: "killed_outcome outcome"
    and out: "out =
      (case kill_child w os of
         (Inl e, w2, os2) \<Rightarrow> (Inl e, w2, os2)
       | (Inr _, w2, os2) \<Rightarrow>
           (case wait_for_exit_bounded ''kill_wait'' KILL_WAIT_TIMEOUT w2 os2 of
              (Inl e, w3, os3) \<Rightarrow> (Inl e, w3, os3)
            | (Inr (ex, waited), w3, os3) \<Rightarrow>
                (case elapsed started os3 of (took, os4) \<Rightarrow>
                   (case elapsed kill_started os4 of (killing, os5) \<Rightarrow>
                      (Inr \<lparr>sd_outcome = outcome, sd_exit = ex, sd_graceful_timeout = gt,
                            sd_elapsed = took, sd_kill_elapsed = Some killing, sd_wait_elapsed = waited\<rparr>,
                       w3, os5)))))"
  shows "closes_report p w0 os0 out"
proof -
  obtain r w2 os2 where k: "kill_child w os = (r, w2, os2)" by (cases "kill_child w os")
  note kc = kill_child_cases [OF a k]
  have f2: "life_frame w0 w2" using life_frame_trans [OF f kc(1)] .
  have s2: "wk_stats w2 = wk_stats w0" using kc(2) s by simp
  have g2: "world_grows os0 os2" using world_grows_trans [OF g kc(3)] .
  show ?thesis
  proof (cases r)
    case (Inl e)
    then have "out = (Inl e, w2, os2)" using out k by simp
    moreover have "e = EKill" using kc(6) Inl by simp
    ultimately show ?thesis using f2 g2 kc(4) s2 by (simp add: closes_report_def closes_Inl)
  next
    case (Inr u)
    obtain q w3 os3 where w: "wait_for_exit_bounded ''kill_wait'' KILL_WAIT_TIMEOUT w2 os2 = (q, w3, os3)"
      by (cases "wait_for_exit_bounded ''kill_wait'' KILL_WAIT_TIMEOUT w2 os2")
    have "closes p w2 os2 fst (q, w3, os3)" using wait_for_exit_bounded_closes [OF kc(4)] w by metis
    then have c: "closes p w0 os0 fst (q, w3, os3)" by (rule closes_step [OF f2 s2 g2])
    show ?thesis
    proof (cases q)
      case (Inl e)
      with c out k Inr w show ?thesis by (auto simp: closes_report_def closes_def)
    next
      case (Inr y)
      obtain ex waited where y: "y = (ex, waited)" by (cases y)
      obtain took os4 where e4: "elapsed started os3 = (took, os4)" by (cases "elapsed started os3")
      obtain killing os5 where e5: "elapsed kill_started os4 = (killing, os5)" by (cases "elapsed kill_started os4")
      have g35: "world_grows os3 os5" using world_grows_trans [OF elapsed_grows [OF e4] elapsed_grows [OF e5]] .
      let ?rep = "\<lparr>sd_outcome = outcome, sd_exit = ex, sd_graceful_timeout = gt,
                            sd_elapsed = took, sd_kill_elapsed = Some killing, sd_wait_elapsed = waited\<rparr>"
      have o2: "out = (Inr ?rep, w3, os5)" using out k \<open>r = Inr u\<close> w Inr y e4 e5 by simp
      have "closes p w0 os0 sd_exit (Inr ?rep, w3, os5)"
        using closes_map [OF c [unfolded Inr], where g = sd_exit and y = ?rep, OF _ g35] y by simp
      moreover have "p \<in> set (os_killed os2)" using kc(5) \<open>r = Inr u\<close> by simp
      then have "p \<in> set (os_killed os5)"
        using world_mono_killed world_grows_mono world_grows_trans [OF _ g35]
          closesE(2) [OF \<open>closes p w2 os2 fst (q, w3, os3)\<close>] by metis
      ultimately show ?thesis using o2 o1 by (cases outcome) (auto simp: closes_report_def)
    qed
  qed
qed

lemma kill_and_report_closes:
  assumes "alive p w" and "killed_outcome outcome"
  shows "closes_report p w os (kill_and_report started gt outcome w os)"
proof -
  obtain ks os1 where n: "now os = (ks, os1)" by (cases "now os")
  show ?thesis
    by (rule kill_then_wait_closes [of p "w\<lparr>wk_state := SKilling (wk_generation w)\<rparr>" os os1 w outcome _ gt ks started])
      (use assms n in \<open>simp_all add: kill_and_report_def now_grows [OF n]\<close>)
qed

lemma kill_after_grace_closes:
  assumes "alive p w"
  shows "closes_report p w os (kill_after_grace started gt w os)"
proof -
  obtain ks os1 where n: "now os = (ks, os1)" by (cases "now os")
  show ?thesis
    by (rule kill_then_wait_closes [of p w os os1 w GracefulTimedOutKilled _ gt ks started])
      (use assms n in \<open>simp_all add: kill_after_grace_def now_grows [OF n]\<close>)
qed

lemma await_clean_exit_closes:
  assumes a: "alive p w"
  shows "closes_report p w os (await_clean_exit started gs gt w os)"
proof -
  obtain used os1 where e: "elapsed gs os = (used, os1)" by (cases "elapsed gs os")
  obtain r w2 os2 where w: "wait_for_exit_bounded ''shutdown'' (gt - used) w os1 = (r, w2, os2)"
    by (cases "wait_for_exit_bounded ''shutdown'' (gt - used) w os1")
  have c1: "closes p w os1 fst (r, w2, os2)" using wait_for_exit_bounded_closes [OF a] w by metis
  have c: "closes p w os fst (r, w2, os2)" by (rule closes_step [OF life_frame_refl refl elapsed_grows [OF e] c1])
  show ?thesis
  proof (cases r)
    case (Inl err)
    with closesE [OF c] have f: "life_frame w w2" "wk_stats w2 = wk_stats w" "world_grows os os2" "alive p w2"
      "lifecycle_failure err" by auto
    show ?thesis
    proof (cases "\<exists>op d. err = EWaitTimeout op d")
      case True
      then have "await_clean_exit started gs gt w os = kill_and_report started gt GracefulTimedOutKilled w2 os2"
        using e w Inl by (auto simp: await_clean_exit_def)
      with closes_report_step [OF f(1-3) kill_and_report_closes [OF f(4)]] show ?thesis by simp
    next
      case False
      with f(5) have "err = EWait \<or> err = EKill" by (cases err) auto
      then have "await_clean_exit started gs gt w os = (Inl err, w2, os2)"
        using e w Inl by (auto simp: await_clean_exit_def)
      with f show ?thesis by (simp add: closes_report_def closes_Inl)
    qed
  next
    case (Inr y)
    obtain ex waited where y: "y = (ex, waited)" by (cases y)
    obtain took os3 where e3: "elapsed started os2 = (took, os3)" by (cases "elapsed started os2")
    let ?rep = "\<lparr>sd_outcome = Graceful, sd_exit = ex, sd_graceful_timeout = gt,
                          sd_elapsed = took, sd_kill_elapsed = None, sd_wait_elapsed = waited\<rparr>"
    have "await_clean_exit started gs gt w os = (Inr ?rep, w2, os3)"
      using e w Inr y e3 by (simp add: await_clean_exit_def)
    moreover have "closes p w os sd_exit (Inr ?rep, w2, os3)"
      using closes_map [OF c [unfolded Inr], where g = sd_exit and y = ?rep, OF _ elapsed_grows [OF e3]] y by simp
    ultimately show ?thesis by (simp add: closes_report_def)
  qed
qed

lemma reaped_gracefully_closes:
  assumes "p \<in> set (os_reaped os)"
  shows "closes_report p w os (reaped_gracefully started gs gt st w os)"
proof -
  obtain d os1 where e1: "elapsed gs os = (d, os1)" by (cases "elapsed gs os")
  obtain ex w1 where fin: "finalize_child_exit st w = (ex, w1)" by (cases "finalize_child_exit st w")
  obtain took os2 where e2: "elapsed started os1 = (took, os2)" by (cases "elapsed started os1")
  have g: "world_grows os os2" using world_grows_trans [OF elapsed_grows [OF e1] elapsed_grows [OF e2]] .
  with assms have "p \<in> set (os_reaped os2)" by (blast intro: world_mono_reaped world_grows_mono)
  with finalize_gone [OF fin] g show ?thesis
    by (simp add: reaped_gracefully_def e1 fin e2 closes_report_def closes_def)
qed

lemma graceful_round_closes:
  assumes a: "alive p w"
  shows "(\<forall>out. graceful_round started gs gt arrivals w os = Done out \<longrightarrow> closes_report p w os out) \<and>
         (\<forall>arrivals' w' os'. graceful_round started gs gt arrivals w os = Again arrivals' w' os' \<longrightarrow>
            life_frame w w' \<and> wk_stats w' = wk_stats w \<and> world_grows os os' \<and> alive p w')"
proof -
  obtain r w1 os1 where t: "try_wait_child w os = (r, w1, os1)" by (cases "try_wait_child w os")
  note tc = try_wait_child_cases [OF a t]
  consider (err) e where "r = Inl e" | (exited) st where "r = Inr (Some st)" | (running) "r = Inr None"
    by (cases r) auto
  then show ?thesis
  proof cases
    case err
    then show ?thesis using t tc by (auto simp: graceful_round_def closes_report_def closes_Inl)
  next
    case exited
    then have "graceful_round started gs gt arrivals w os = Done (reaped_gracefully started gs gt st w1 os1)"
      using t by (simp add: graceful_round_def)
    with closes_report_step [OF tc(1-3) reaped_gracefully_closes [OF tc(7) [OF exited]]] show ?thesis by simp
  next
    case running
    obtain used os2 where e: "elapsed gs os1 = (used, os2)" by (cases "elapsed gs os1")
    have g2: "world_grows os os2" using world_grows_trans [OF tc(3) elapsed_grows [OF e]] .
    show ?thesis
    proof (cases "gt \<le> used")
      case True
      then have "graceful_round started gs gt arrivals w os = Done (kill_after_grace started gt w1 os2)"
        using t running e by (simp add: graceful_round_def)
      with closes_report_step [OF tc(1,2) g2 kill_after_grace_closes [OF tc(4)]] show ?thesis by simp
    next
      case False
      obtain m os3 where rc: "recv_timeout (min (millis 10) (gt - used)) arrivals os2 = (m, os3)"
        by (cases "recv_timeout (min (millis 10) (gt - used)) arrivals os2")
      have g3: "world_grows os os3" using world_grows_trans [OF g2 recv_timeout_grows [OF rc]] .
      have ends: "closes_report p w os (await_clean_exit started gs gt w1 os3)"
        "\<And>s. closes_report p w os (await_clean_exit started gs gt (w1\<lparr>wk_stdout := s\<rparr>) os3)"
        "closes_report p w os (kill_and_report started gt GracefulProtocolFailedKilled w1 os3)"
        "\<And>s. closes_report p w os (kill_and_report started gt GracefulProtocolFailedKilled (w1\<lparr>wk_stdout := s\<rparr>) os3)"
      proof -
        have s: "life_frame w (w1\<lparr>wk_stdout := s\<rparr>)" for s using life_frame_trans [OF tc(1) life_frame_set_state(2)] .
        show "closes_report p w os (await_clean_exit started gs gt w1 os3)"
          by (rule closes_report_step [OF tc(1,2) g3 await_clean_exit_closes [OF tc(4)]])
        show "closes_report p w os (await_clean_exit started gs gt (w1\<lparr>wk_stdout := s\<rparr>) os3)" for s
          by (rule closes_report_step [OF s _ g3 await_clean_exit_closes]) (simp_all add: tc)
        show "closes_report p w os (kill_and_report started gt GracefulProtocolFailedKilled w1 os3)"
          by (rule closes_report_step [OF tc(1,2) g3 kill_and_report_closes [OF tc(4)]]) simp
        show "closes_report p w os (kill_and_report started gt GracefulProtocolFailedKilled (w1\<lparr>wk_stdout := s\<rparr>) os3)" for s
          by (rule closes_report_step [OF s _ g3 kill_and_report_closes]) (simp_all add: tc)
      qed
      show ?thesis
        using t running e False rc ends g3 tc(1,2,4)
        by (simp add: graceful_round_def split: received.splits read_result.splits message.splits
            del: split_paired_All)
    qed
  qed
qed

lemma graceful_loop_closes: "alive p w \<Longrightarrow> closes_report p w os (graceful_loop started gs gt arrivals w os)"
proof (induction started gs gt arrivals w os rule: graceful_loop.induct)
  case (1 started gs gt arrivals w os)
  note gr = graceful_round_closes [OF 1(2), of started gs gt arrivals os]
  show ?case
  proof (cases "graceful_round started gs gt arrivals w os")
    case (Done out)
    with gr show ?thesis by (subst graceful_loop.simps) simp
  next
    case (Again arrivals' w' os')
    with gr have f: "life_frame w w'" "wk_stats w' = wk_stats w" "world_grows os os'" "alive p w'" by auto
    from closes_report_step [OF f(1-3) 1(1) [OF Again f(4)]] Again show ?thesis
      by (subst graceful_loop.simps) simp
  qed
qed

lemma finish_in_flight_not_busy [simp]:
  "wk_state w = SStopping g \<Longrightarrow> finish_in_flight w = w" "wk_state w = SKilling g \<Longrightarrow> finish_in_flight w = w"
  "wk_state w = SExited g \<Longrightarrow> finish_in_flight w = w" "wk_state w = SIdle g \<Longrightarrow> finish_in_flight w = w"
  "wk_state w = SRestartExhausted g \<Longrightarrow> finish_in_flight w = w"
  by (simp_all add: finish_in_flight_def)

text \<open>\<open>status\<close> of a worker that holds a child: it is running, or was found exited and is now gone.\<close>

lemma status_alive:
  assumes a: "alive p w" and st: "status w os = (r, w', os')"
  shows "life_frame w w' \<and> world_grows os os' \<and>
    (case r of
       Inl e \<Rightarrow> e = EWait \<and> alive p w' \<and> wk_stats w' = wk_stats w \<and> wk_stdout w' = wk_stdout w \<and> wk_state w' = wk_state w
     | Inr Running \<Rightarrow> alive p w' \<and> wk_stats w' = wk_stats w \<and> wk_stdout w' = wk_stdout w \<and> wk_state w' = wk_state w \<and> os' = os
     | Inr (Exited ex) \<Rightarrow> closes p w os (\<lambda>x. ex) (r, w', os'))"
proof -
  obtain q w1 os1 where t: "try_wait_child w os = (q, w1, os1)" by (cases "try_wait_child w os")
  note tc = try_wait_child_cases [OF a t]
  from a have c: "wk_last_exit w = None" "wk_child w \<noteq> None" by (auto simp: alive_def)
  show ?thesis
  proof (cases q)
    case (Inl e)
    have "status w os = (Inl e, w1, os1)" using t c Inl by (simp add: status_def)
    with st have "r = Inl e" "w1 = w'" "os1 = os'" by simp_all
    with Inl tc show ?thesis by simp
  next
    case (Inr o1)
    show ?thesis
    proof (cases o1)
      case None
      then have "status w os = (Inr Running, w1, os1)" using t c Inr by (simp add: status_def)
      with st have "r = Inr Running" "w1 = w'" "os1 = os'" by simp_all
      with Inr None tc show ?thesis by simp
    next
      case (Some es)
      obtain d w2 where rd: "read_stderr w1 = (d, w2)" by (cases "read_stderr w1")
      let ?w = "w2\<lparr>wk_last_exit := Some (exit_from_status es d), wk_child := None, wk_stdin := False, wk_stdout := None,
                           wk_stats := (wk_stats w2)\<lparr>st_exits := sat_inc (st_exits (wk_stats w2))\<rparr>,
                           wk_state := SExited (wk_generation w2)\<rparr>"
      have eqs: "r = Inr (Exited (exit_from_status es d))" "w' = ?w" "os' = os1"
        using st t c Inr Some rd by (auto simp: status_def Let_def)
      have w2: "w2 = w1\<lparr>wk_stderr := None\<rparr>" using rd by (auto simp: read_stderr_def)
      have f: "life_frame w ?w" using tc(1) by (auto simp: life_frame_def w2)
      have x: "gone ?w" "wk_last_exit ?w = Some (exit_from_status es d)" "wk_state ?w = SExited (wk_generation w)"
        "st_exits (wk_stats ?w) = sat_inc (st_exits (wk_stats w))"
        using tc(1,2) by (auto simp: gone_def w2 life_frame_def)
      have p: "p \<in> set (os_reaped os1)" using tc(7) Inr Some by simp
      show ?thesis unfolding eqs using f x p tc(3) by (simp add: closes_def)
    qed
  qed
qed

lemma shutdown_child_closes:
  assumes a: "alive p w" and so: "wk_stdout w \<noteq> None \<or> intent = IntentKillOnly"
  shows "closes p w os sd_exit (shutdown_child intent w os) \<and>
    (\<forall>x. fst (shutdown_child intent w os) = Inr x \<longrightarrow> killed_outcome (sd_outcome x) \<longrightarrow>
       p \<in> set (os_killed (snd (snd (shutdown_child intent w os)))))"
proof -
  obtain started os1 where n: "now os = (started, os1)" by (cases "now os")
  obtain r w2 os2 where st: "status w os1 = (r, w2, os2)" by (cases "status w os1")
  note sa = status_alive [OF a st]
  let ?gt = "cfg_shutdown_timeout (wk_config w)"
  have g2: "world_grows os os2" using world_grows_trans [OF now_grows [OF n]] sa by blast
  consider (err) e where "r = Inl e" | (running) "r = Inr Running" | (exited) ex where "r = Inr (Exited ex)"
    by (cases r) (use worker_status.exhaust in blast)+
  then show ?thesis
  proof cases
    case err
    then have "shutdown_child intent w os = (Inl e, w2, os2)" using n st by (simp add: shutdown_child_def Let_def)
    moreover have "life_frame w w2" "alive p w2" "wk_stats w2 = wk_stats w" "lifecycle_failure e" using sa err by auto
    ultimately show ?thesis using g2 by (simp add: closes_Inl)
  next
    case exited
    obtain took os3 where e: "elapsed started os2 = (took, os3)" by (cases "elapsed started os2")
    have "closes p w os1 (\<lambda>x. ex) (Inr (Exited ex), w2, os2)" using sa exited by simp
    then have c: "closes p w os (\<lambda>x. ex) (Inr (Exited ex), w2, os2)"
      by (rule closes_step [OF life_frame_refl refl now_grows [OF n]])
    let ?rep = "\<lparr>sd_outcome = AlreadyExited, sd_exit = ex, sd_graceful_timeout = ?gt,
                      sd_elapsed = took, sd_kill_elapsed = None, sd_wait_elapsed = 0\<rparr>"
    have "shutdown_child intent w os = (Inr ?rep, w2, os3)"
      using n st exited e by (simp add: shutdown_child_def Let_def)
    with closes_map [OF c, where g = sd_exit and y = ?rep, OF _ elapsed_grows [OF e]] show ?thesis by simp
  next
    case running
    let ?w = "w2\<lparr>wk_state := (if intent = IntentGraceful then SStopping (wk_generation w2)
                                                       else SKilling (wk_generation w2))\<rparr>"
    have fi: "finish_in_flight ?w = ?w" by simp
    have a3: "alive p ?w" and s3: "wk_stats ?w = wk_stats w" and so3: "wk_stdout ?w = wk_stdout w"
      and f3: "life_frame w ?w"
      using sa running by (auto simp: life_frame_def)
    have step: "closes_report p w os out \<Longrightarrow> closes p w os sd_exit out \<and>
      (\<forall>x. fst out = Inr x \<longrightarrow> killed_outcome (sd_outcome x) \<longrightarrow> p \<in> set (os_killed (snd (snd out))))" for out
      by (simp add: closes_report_def)
    show ?thesis
    proof (cases "intent = IntentGraceful")
      case False
      then have eq: "shutdown_child intent w os = kill_and_report started ?gt KillOnly ?w os2"
        using n st running fi by (simp add: shutdown_child_def Let_def)
      show ?thesis unfolding eq
        by (rule step, rule closes_report_step [OF f3 s3 g2 kill_and_report_closes [OF a3]]) simp
    next
      case True
      obtain q w4 os4 where wr: "write_request Terminate ?w os2 = (q, w4, os4)"
        by (cases "write_request Terminate ?w os2")
      note wc = write_request_cases [OF a3 wr]
      have f4: "life_frame w w4" using life_frame_trans [OF f3 wc(1)] .
      have s4: "wk_stats w4 = wk_stats w" using wc(2) s3 by simp
      have g4: "world_grows os os4" using world_grows_trans [OF g2 wc(3)] .
      show ?thesis
      proof (cases q)
        case (Inl e)
        with wc(8) obtain x where "e = EProtocol (PCodec x)" by blast
        then have eq: "shutdown_child intent w os = kill_and_report started ?gt GracefulProtocolFailedKilled w4 os4"
          using n st running True fi wr Inl by (simp add: shutdown_child_def Let_def)
        show ?thesis unfolding eq
          by (rule step, rule closes_report_step [OF f4 s4 g4 kill_and_report_closes [OF wc(4)]]) simp
      next
        case (Inr u)
        from so True so3 wc(5) obtain arrivals where ar: "wk_stdout w4 = Some arrivals" by auto
        obtain gs os5 where n5: "now os4 = (gs, os5)" by (cases "now os4")
        have eq: "shutdown_child intent w os = graceful_loop started gs ?gt arrivals (w4\<lparr>wk_stdout := None\<rparr>) os5"
          using n st running True fi wr Inr ar n5 by (simp add: shutdown_child_def Let_def wait_for_graceful_shutdown_def)
        have f5: "life_frame w (w4\<lparr>wk_stdout := None\<rparr>)" using life_frame_trans [OF f4 life_frame_set_state(2)] .
        have g5: "world_grows os os5" using world_grows_trans [OF g4 now_grows [OF n5]] .
        show ?thesis unfolding eq
          by (rule step, rule closes_report_step [OF f5 _ g5 graceful_loop_closes]) (simp_all add: s4 wc)
      qed
    qed
  qed
qed

lemma upd_stats_simps [simp]:
  "wk_child (upd_stats f w) = wk_child w" "wk_stdin (upd_stats f w) = wk_stdin w"
  "wk_stdout (upd_stats f w) = wk_stdout w" "wk_last_exit (upd_stats f w) = wk_last_exit w"
  "wk_config (upd_stats f w) = wk_config w" "wk_budget (upd_stats f w) = wk_budget w"
  "wk_open_session_keys (upd_stats f w) = wk_open_session_keys w"
  "wk_generation (upd_stats f w) = wk_generation w" "wk_next_request_id (upd_stats f w) = wk_next_request_id w"
  "wk_restart_window (upd_stats f w) = wk_restart_window w" "wk_state (upd_stats f w) = wk_state w"
  "wk_pending_restart (upd_stats f w) = wk_pending_restart w" "wk_stats (upd_stats f w) = f (wk_stats w)"
  "wk_reuse_hint_enabled (upd_stats f w) = wk_reuse_hint_enabled w"
  "wk_reuse_observed (upd_stats f w) = wk_reuse_observed w" "wk_last_activity (upd_stats f w) = wk_last_activity w"
  "alive p (upd_stats f w) = alive p w" "gone (upd_stats f w) = gone w"
  by (simp_all add: upd_stats_def alive_def gone_def)

section \<open>Properties of shutdown\<close>

lemma ensure_running_gone:
  "gone w \<Longrightarrow> \<not> rejects_new_requests (wk_state w) \<Longrightarrow> wk_last_exit w = Some ex \<Longrightarrow>
     fst (ensure_running w os) = Inl (exit_error ex)"
  by (simp add: ensure_running_def status_def gone_def)

text \<open>C35: Shutdown is terminal.  For a worker whose child is alive and whose reader is in place (or when
  the intent is to kill), \<open>shutdown_child\<close> either reports an exit, and then the process has been
  reaped, the worker holds no handle on it, the exit it reports is the recorded one and every later
  request is refused with it; or it fails with a wait, kill or wait-timeout error, and then the worker
  still holds the process, so that the shutdown can be tried again.\<close>

theorem shutdown_reaps_or_keeps_child:
  assumes "alive p w" and "wk_stdout w \<noteq> None \<or> intent = IntentKillOnly"
    and "shutdown_child intent w os = (r, w', os')"
  shows "(\<forall>x. r = Inr x \<longrightarrow>
            gone w' \<and> wk_last_exit w' = Some (sd_exit x) \<and> p \<in> set (os_reaped os') \<and>
            (killed_outcome (sd_outcome x) \<longrightarrow> p \<in> set (os_killed os')) \<and>
            (\<forall>os''. fst (ensure_running w' os'') = Inl (exit_error (sd_exit x)))) \<and>
         (\<forall>e. r = Inl e \<longrightarrow> lifecycle_failure e \<and> alive p w') \<and>
         wk_generation w' = wk_generation w \<and> wk_next_request_id w' = wk_next_request_id w \<and>
         os_spawns os' = os_spawns os"
proof -
  from shutdown_child_closes [OF assms(1,2), of os] assms(3)
  have c: "closes p w os sd_exit (r, w', os')"
    and k: "\<And>x. r = Inr x \<Longrightarrow> killed_outcome (sd_outcome x) \<Longrightarrow> p \<in> set (os_killed os')" by auto
  have "fst (ensure_running w' os'') = Inl (exit_error (sd_exit x))" if "r = Inr x" for x os''
    using closesE(4) [OF c that] by (intro ensure_running_gone) auto
  with closesE [OF c] k show ?thesis by (auto simp: life_frame_def world_grows_def)
qed

definition demo_exit :: exit_status where
  "demo_exit = \<lparr>es_success = False, es_code = Some 134, es_text = ''signal: 6''\<rparr>"

definition demo_child :: "poll list \<Rightarrow> child_proc" where
  "demo_child polls = \<lparr>cp_pid = 7, cp_polls = polls, cp_wait = Some demo_exit, cp_kill_errors = [], cp_rss = [],
     cp_writes = []\<rparr>"

definition demo_world :: world where
  "demo_world = \<lparr>os_clock = 0, os_instant_max = 1000000000000, os_delays = [], os_spawns = [], os_sent = [],
     os_envs = [], os_killed = [], os_reaped = [], os_rows = [], os_ticks = [], os_diagnostics = []\<rparr>"

definition demo_metadata :: runtime_metadata where
  "demo_metadata = \<lparr>rm_worker_version = ''1'', rm_protocol_version = 10, rm_lean_version = None\<rparr>"

definition demo_worker :: "poll list \<Rightarrow> arrival list \<Rightarrow> worker" where
  "demo_worker polls arrivals =
     new_worker (config_new ''/bin/worker'') (demo_child polls) arrivals (Some ''INTERNAL PANIC'') demo_metadata 0 0"

lemma demo_alive: "alive 7 (demo_worker polls arrivals)"
  by (simp add: alive_def demo_worker_def new_worker_def demo_child_def)

lemma demo_stdout: "wk_stdout (demo_worker polls arrivals) \<noteq> None"
  by (simp add: demo_worker_def new_worker_def)

theorem shutdown_reaps_or_keeps_child_witness:
  "case shutdown_child IntentKillOnly (demo_worker [PollRunning, PollExited demo_exit] []) demo_world of
     (r, w', os') \<Rightarrow> (\<forall>x. r = Inr x \<longrightarrow> gone w' \<and> 7 \<in> set (os_reaped os')) \<and> wk_generation w' = 0"
proof -
  obtain r w' os' where s:
    "shutdown_child IntentKillOnly (demo_worker [PollRunning, PollExited demo_exit] []) demo_world = (r, w', os')"
    by (cases "shutdown_child IntentKillOnly (demo_worker [PollRunning, PollExited demo_exit] []) demo_world")
  have "wk_generation (demo_worker [PollRunning, PollExited demo_exit] []) = 0"
    by (simp add: demo_worker_def new_worker_def)
  with shutdown_reaps_or_keeps_child [OF demo_alive disjI2 [OF refl] s] s show ?thesis by auto
qed

text \<open>Once a worker has lost its stdout (a request ended by a sink panic or by a malformed frame
  leaves it so), graceful shutdown, which is also what dropping and cycling the worker run, sends
  \<open>Terminate\<close> and then returns the dead-worker error: the process is neither killed nor
  reaped and the worker still holds it, though the runtime semantics document promises that shutdown is
  bounded and ends in an exit or a kill.\<close>

theorem graceful_shutdown_without_stdout_leaks:
  assumes "wk_child w = Some c" and "wk_last_exit w = None" and "wk_stdin w" and "wk_stdout w = None"
    and "cp_polls c = PollRunning # polls" and "cp_writes c = []"
  shows "case shutdown_child IntentGraceful w os of
           (r, w', os') \<Rightarrow> r = Inl (EChildPanicOrAbort not_running_exit) \<and> alive (cp_pid c) w' \<and>
             os_sent os' = os_sent os @ [(cp_pid c, Terminate)] \<and> os_killed os' = os_killed os \<and>
             os_reaped os' = os_reaped os"
proof -
  obtain t os1 where n: "now os = (t, os1)" by (cases "now os")
  have os1: "os_sent os1 = os_sent os" "os_killed os1 = os_killed os" "os_reaped os1 = os_reaped os"
    using n by (auto simp: now_def split: list.splits)
  let ?w = "w\<lparr>wk_child := Some (c\<lparr>cp_polls := polls\<rparr>)\<rparr>"
  let ?v = "?w\<lparr>wk_state := SStopping (wk_generation w)\<rparr>"
  let ?os = "os1\<lparr>os_sent := os_sent os1 @ [(cp_pid c, Terminate)]\<rparr>"
  have s: "status w os1 = (Inr Running, ?w, os1)"
    using assms by (simp add: status_def try_wait_child_def child_try_wait_def Let_def)
  have fi: "finish_in_flight ?v = ?v" by simp
  have wr: "write_request Terminate ?v os1 = (Inr (), ?v, ?os)"
    using assms by (simp add: write_request_def child_write_def)
  obtain t2 os2 where n2: "now ?os = (t2, os2)" by (cases "now ?os")
  have os2: "os_sent os2 = os_sent ?os" "os_killed os2 = os_killed ?os" "os_reaped os2 = os_reaped ?os"
    using n2 by (auto simp: now_def split: list.splits)
  have "shutdown_child IntentGraceful w os = (Inl (dead_error ?v), ?v, os2)"
    using n s fi wr n2 assms(4) by (simp add: shutdown_child_def Let_def wait_for_graceful_shutdown_def)
  then show ?thesis using assms os1 os2
    by (simp add: dead_error_def exit_error_def not_running_exit_def alive_def)
qed

theorem graceful_shutdown_without_stdout_leaks_witness:
  "case shutdown_child IntentGraceful ((demo_worker [PollRunning] [])\<lparr>wk_stdout := None\<rparr>) demo_world of
     (r, w', os') \<Rightarrow> r = Inl (EChildPanicOrAbort not_running_exit) \<and> alive 7 w' \<and> os_killed os' = [] \<and> os_reaped os' = []"
  using graceful_shutdown_without_stdout_leaks
    [of "(demo_worker [PollRunning] [])\<lparr>wk_stdout := None\<rparr>" "demo_child [PollRunning]" "[]" demo_world]
  by (simp add: demo_worker_def new_worker_def demo_child_def demo_world_def split: prod.splits)

lemma wait_loop_polls:
  assumes "os_delays os = []" and "wk_child w = Some c"
    and "cp_polls c = replicate k PollRunning @ PollExited st # polls"
    and "started \<le> os_clock os" and "os_clock os + k * millis 10 < started + timeout"
  shows "\<exists>d w' os'. wait_loop operation timeout started w os =
           (Inr (exit_from_status st (fst (read_stderr w)), d), w', os') \<and> gone w'"
  using assms
proof (induction k arbitrary: w os c)
  case 0
  let ?v = "w\<lparr>wk_state := SReaping (wk_generation w)\<rparr>"
  let ?u = "?v\<lparr>wk_child := Some (c\<lparr>cp_polls := polls\<rparr>)\<rparr>"
  let ?os = "os\<lparr>os_reaped := os_reaped os @ [cp_pid c]\<rparr>"
  have t: "try_wait_child ?v os = (Inr (Some st), ?u, ?os)"
    using 0 by (simp add: try_wait_child_def child_try_wait_def Let_def)
  obtain ex w2 where fin: "finalize_child_exit st ?u = (ex, w2)" by (cases "finalize_child_exit st ?u")
  obtain d os2 where e: "elapsed started ?os = (d, os2)" by (cases "elapsed started ?os")
  have "ex = exit_from_status st (fst (read_stderr w))"
    using fin by (auto simp: finalize_child_exit_def read_stderr_def Let_def)
  with finalize_gone [OF fin] show ?case using 0(2) t fin e by (subst wait_loop.simps) simp
next
  case (Suc k)
  let ?v = "w\<lparr>wk_state := SReaping (wk_generation w)\<rparr>"
  let ?c = "c\<lparr>cp_polls := replicate k PollRunning @ PollExited st # polls\<rparr>"
  let ?u = "?v\<lparr>wk_child := Some ?c\<rparr>"
  have t: "try_wait_child ?v os = (Inr None, ?u, os)"
    using Suc.prems by (simp add: try_wait_child_def child_try_wait_def Let_def)
  have e: "elapsed started os = (os_clock os - started, os)"
    using Suc.prems(1) by (simp add: elapsed_def now_def)
  have lt: "\<not> timeout \<le> os_clock os - started"
    "os_clock os + (Suc k) * millis 10 < started + timeout" using Suc.prems(4,5) by simp_all
  let ?os = "sleep (min (millis 10) (timeout - (os_clock os - started))) os"
  have clk: "os_clock os \<le> os_clock ?os" "os_clock ?os \<le> os_clock os + millis 10"
    by (simp_all add: sleep_def nanos_per_ms_def)
  have "\<exists>d w' os'. wait_loop operation timeout started ?u ?os =
           (Inr (exit_from_status st (fst (read_stderr ?u)), d), w', os') \<and> gone w'"
    by (rule Suc.IH [of _ _ ?c]) (use Suc.prems clk in \<open>simp_all add: sleep_def\<close>)
  moreover have "fst (read_stderr ?u) = fst (read_stderr w)" by (simp add: read_stderr_def)
  moreover have "wait_loop operation timeout started w os = wait_loop operation timeout started ?u ?os"
    by (subst wait_loop.simps) (simp only: Suc.prems(2) t e lt(1) option.distinct if_False prod.case sum.case option.case)
  ultimately show ?case by (simp only:)
qed

text \<open>The bounded wait is live: when nothing else delays it, a child that is seen to have exited at
  the \<open>k\<close>-th poll is reaped by \<open>wait_for_exit_bounded\<close> provided the \<open>k\<close> sleeps of ten milliseconds fit
  in the timeout; the exit it returns carries the captured stderr.\<close>

theorem bounded_wait_reaps:
  assumes "os_delays os = []" and "wk_child w = Some c"
    and "cp_polls c = replicate k PollRunning @ PollExited st # polls" and "k * millis 10 < timeout"
  shows "\<exists>d w' os'. wait_for_exit_bounded operation timeout w os =
           (Inr (exit_from_status st (fst (read_stderr w)), d), w', os') \<and> gone w'"
  using wait_loop_polls [OF assms(1-3), of "os_clock os" timeout operation] assms(1,4)
  by (simp add: wait_for_exit_bounded_def now_def)

theorem bounded_wait_reaps_witness:
  "\<exists>d w' os'. wait_for_exit_bounded ''shutdown'' (millis 30)
       (demo_worker [PollRunning, PollRunning, PollExited demo_exit] []) demo_world =
     (Inr (exit_from_status demo_exit ''INTERNAL PANIC'', d), w', os') \<and> gone w'"
  using bounded_wait_reaps [of demo_world "demo_worker [PollRunning, PollRunning, PollExited demo_exit] []"
      "demo_child [PollRunning, PollRunning, PollExited demo_exit]" 2 demo_exit "[]" "millis 30" "''shutdown''"]
  by (simp add: demo_worker_def new_worker_def demo_child_def demo_world_def read_stderr_def nanos_per_ms_def
      numeral_2_eq_2)

section \<open>Spawning\<close>

lemma wait_proc_mono: "wait_proc c os = (r, os') \<Longrightarrow> world_mono os os'"
  by (auto simp: wait_proc_def sleep_def world_mono_def split: option.splits)

lemma kill_proc_cases:
  assumes "kill_proc c os = (failed, c', os')"
  shows "world_mono os os'" and "cp_pid c' = cp_pid c" and "cp_wait c' = cp_wait c" and "os_reaped os' = os_reaped os"
  using assms by (auto simp: kill_proc_def child_kill_def world_mono_def split: list.splits)

lemma wait_with_stderr_cases:
  assumes "wait_with_stderr c stderr os = (r, os')"
  shows "world_mono os os'" and "\<And>ex. r = Inr ex \<Longrightarrow> cp_pid c \<in> set (os_reaped os')"
    and "\<And>e. r = Inl e \<Longrightarrow> e = EWait"
proof -
  obtain q os1 where w: "wait_proc c os = (q, os1)" by (cases "wait_proc c os")
  from assms w have "os1 = os'" by (cases q) (auto simp: wait_with_stderr_def)
  with wait_proc_mono [OF w] show "world_mono os os'" by simp
  from assms w show "r = Inr ex \<Longrightarrow> cp_pid c \<in> set (os_reaped os')" for ex
    by (cases q) (auto simp: wait_with_stderr_def wait_proc_def split: option.splits)
  from assms w show "r = Inl e \<Longrightarrow> e = EWait" for e
    by (cases q) (auto simp: wait_with_stderr_def wait_proc_def split: option.splits)
qed

lemma recv_timeout_keeps:
  "recv_timeout d arrivals os = (r, os') \<Longrightarrow> os_killed os' = os_killed os \<and> os_reaped os' = os_reaped os"
  by (auto simp: recv_timeout_def sleep_def split: list.splits if_splits)

lemma now_keeps: "now os = (t, os') \<Longrightarrow> os_killed os' = os_killed os \<and> os_reaped os' = os_reaped os"
  by (auto simp: now_def split: list.splits)

lemma elapsed_keeps: "elapsed s os = (t, os') \<Longrightarrow> os_killed os' = os_killed os \<and> os_reaped os' = os_reaped os"
  by (auto simp: elapsed_def split: prod.splits dest: now_keeps)

text \<open>How starting a child can end.\<close>

definition started_up :: "worker_config \<Rightarrow> child_proc \<Rightarrow> worker \<Rightarrow> bool" where
  "started_up cfg c fresh \<longleftrightarrow>
     (\<exists>c' rest stderr metadata handshake_elapsed at.
        fresh = new_worker cfg c' rest stderr metadata handshake_elapsed at \<and> cp_pid c' = cp_pid c)"

definition abandoned :: "worker_error \<Rightarrow> bool" where
  "abandoned e \<longleftrightarrow> (\<exists>x. e = EProtocol (PSendLimit x)) \<or>
     e = EHandshake (PText ''handshake reader exited without a result'')"

lemma startup_child_cases:
  assumes "startup_child cfg spawn_started c stdout stderr os = (r, os')"
  shows "world_mono os os'"
    and "\<And>fresh. r = Inr fresh \<Longrightarrow> started_up cfg c fresh"
    and "\<And>e. r = Inl e \<Longrightarrow> \<not> abandoned e \<Longrightarrow> e = EWait \<or> cp_pid c \<in> set (os_reaped os')"
    and "\<And>e. r = Inl e \<Longrightarrow> abandoned e \<Longrightarrow> os_killed os' = os_killed os \<and> os_reaped os' = os_reaped os"
proof -
  obtain m os1 where rc: "recv_timeout (cfg_startup_timeout cfg) stdout os = (m, os1)"
    by (cases "recv_timeout (cfg_startup_timeout cfg) stdout os")
  note g1 = world_grows_mono [OF recv_timeout_grows [OF rc]]
  obtain f c1 os2 where k: "kill_proc c os1 = (f, c1, os2)" by (cases "kill_proc c os1")
  obtain q os3 where w: "wait_with_stderr c1 stderr os2 = (q, os3)" by (cases "wait_with_stderr c1 stderr os2")
  note kc = kill_proc_cases [OF k] and wc = wait_with_stderr_cases [OF w]
  have g3: "world_mono os os3" using g1 kc(1) wc(1) by (blast intro: world_mono_trans)
  have na: "\<not> abandoned EWait" "\<not> abandoned (exit_error ex)" "\<not> abandoned (ETimeout op d rf)" for ex op d rf
    by (simp_all add: abandoned_def exit_error_def)
  consider (late) a where "m = TimedOut a"
    | (panicked) a rest where "m = Received a rest" "ar_result a = ReaderGone"
    | (bad) a rest e where "m = Received a rest" "ar_result a \<noteq> ReaderGone" "read_handshake (ar_result a) = Inl e"
    | (good) a rest md where "m = Received a rest" "read_handshake (ar_result a) = Inr md"
    by (metis received.exhaust sum.exhaust_sel sum.collapse)
  then have "world_mono os os' \<and> (\<forall>fresh. r = Inr fresh \<longrightarrow> started_up cfg c fresh) \<and>
    (\<forall>e. r = Inl e \<longrightarrow> (\<not> abandoned e \<longrightarrow> e = EWait \<or> cp_pid c \<in> set (os_reaped os')) \<and>
       (abandoned e \<longrightarrow> os_killed os' = os_killed os \<and> os_reaped os' = os_reaped os))"
  proof cases
    case late
    with assms rc k w have "os' = os3 \<and> (r = Inl EWait \<and> q = Inl EWait \<or> (\<exists>x. q = Inr x) \<and>
        r = Inl (ETimeout ''startup'' (cfg_startup_timeout cfg)
                     (bare_resource_facts ''worker_timeout'' ''startup'' (Some (cfg_startup_timeout cfg)))))"
      using wc(3) by (auto simp: startup_child_def split: sum.splits)
    with g3 wc(2) kc(2) na show ?thesis by auto
  next
    case panicked
    then have "r = Inl (EHandshake (PText ''handshake reader exited without a result''))" "os' = os1"
      using assms rc by (auto simp: startup_child_def read_handshake_def)
    with g1 recv_timeout_keeps [OF rc] show ?thesis by (simp add: abandoned_def)
  next
    case bad
    with assms rc k w have "os' = os3 \<and> (r = Inl EWait \<and> q = Inl EWait \<or> (\<exists>x. q = Inr x \<and> r = Inl (exit_error x)))"
      using wc(3) by (auto simp: startup_child_def split: sum.splits)
    with g3 wc(2) kc(2) na show ?thesis by auto
  next
    case good
    obtain we c2 where wr: "child_write c = (we, c2)" by (cases "child_write c")
    have pid: "cp_pid c2 = cp_pid c" using wr by (auto simp: child_write_def split: list.splits)
    show ?thesis
    proof (cases we)
      case (Some x)
      with good assms rc wr have "r = Inl (EProtocol (PSendLimit x))" "os' = os1" by (auto simp: startup_child_def)
      with g1 recv_timeout_keeps [OF rc] show ?thesis by (simp add: abandoned_def)
    next
      case None
      obtain el os4 where e4: "elapsed spawn_started os1 = (el, os4)" by (cases "elapsed spawn_started os1")
      obtain at os5 where n5: "now os4 = (at, os5)" by (cases "now os4")
      have "r = Inr (new_worker cfg c2 rest stderr md el at)" "os' = os5"
        using good assms rc wr None e4 n5 by (auto simp: startup_child_def)
      moreover have "world_mono os os5"
        using world_mono_trans [OF g1 world_mono_trans [OF world_grows_mono [OF elapsed_grows [OF e4]]
          world_grows_mono [OF now_grows [OF n5]]]] .
      moreover have "started_up cfg c (new_worker cfg c2 rest stderr md el at)"
        unfolding started_up_def using pid by blast
      ultimately show ?thesis by simp
    qed
  qed
  then show "world_mono os os'" "\<And>fresh. r = Inr fresh \<Longrightarrow> started_up cfg c fresh"
    "\<And>e. r = Inl e \<Longrightarrow> \<not> abandoned e \<Longrightarrow> e = EWait \<or> cp_pid c \<in> set (os_reaped os')"
    "\<And>e. r = Inl e \<Longrightarrow> abandoned e \<Longrightarrow> os_killed os' = os_killed os \<and> os_reaped os' = os_reaped os" by auto
qed

lemma spawn_mono: "spawn cfg os = (r, os') \<Longrightarrow> world_mono os os'"
proof -
  assume s: "spawn cfg os = (r, os')"
  obtain t os1 where n: "now os = (t, os1)" by (cases "now os")
  let ?os = "os1\<lparr>os_envs := os_envs os1 @ [command_env cfg], os_spawns := tl (os_spawns os1)\<rparr>"
  have g: "world_mono os1 ?os" by (simp add: world_mono_def)
  have g': "world_mono os ?os" using world_mono_trans [OF world_grows_mono [OF now_grows [OF n]] g] .
  show ?thesis
  proof (cases "\<exists>sp rest stdout. os_spawns os1 = Some sp # rest \<and> sp_has_stdin sp \<and> sp_stdout sp = Some stdout")
    case True
    then obtain sp rest stdout where "os_spawns os1 = Some sp # rest" "sp_has_stdin sp" "sp_stdout sp = Some stdout"
      by blast
    with s n have "startup_child cfg t (sp_child sp) stdout (sp_stderr sp) ?os = (r, os')"
      by (simp add: spawn_def Let_def)
    with g' show ?thesis by (blast intro: world_mono_trans startup_child_cases(1))
  next
    case False
    with s n have "os' = ?os"
      by (auto simp: spawn_def Let_def split: list.splits option.splits if_splits)
    with g' show ?thesis by simp
  qed
qed

lemma spawn_fresh:
  assumes "spawn cfg os = (Inr fresh, os')"
  obtains c where "started_up cfg c fresh"
  using assms
  by (auto simp: spawn_def Let_def split: prod.splits list.splits option.splits if_splits dest: startup_child_cases(2))


definition demo_handshake :: arrival where
  "demo_handshake = \<lparr>ar_delay = 5, ar_buffer_full = False, ar_result = ReadOk (Handshake ''1'' 10)\<rparr>"

definition demo_spawned :: "nat \<Rightarrow> arrival list \<Rightarrow> protocol_error option list \<Rightarrow> spawned" where
  "demo_spawned p arrivals writes =
     \<lparr>sp_child = (demo_child [])\<lparr>cp_pid := p, cp_writes := writes\<rparr>, sp_has_stdin = True,
      sp_stdout = Some arrivals, sp_stderr = None\<rparr>"


section \<open>Restart admission\<close>

lemma dropWhile_sorted_filter:
  "sorted xs \<Longrightarrow> dropWhile (\<lambda>x. d \<le> t - x) xs = filter (\<lambda>x. \<not> d \<le> t - (x :: nat)) xs"
proof (induction xs)
  case (Cons x xs)
  show ?case
  proof (cases "d \<le> t - x")
    case False
    with Cons.prems have "\<forall>y \<in> set (x # xs). \<not> d \<le> t - y" by (auto dest: diff_le_mono2)
    then have "filter (\<lambda>x. \<not> d \<le> t - x) (x # xs) = x # xs" by (simp only: filter_id_conv)
    with False show ?thesis by simp
  qed (use Cons in auto)
qed simp

definition recent_restarts :: "nat \<Rightarrow> worker \<Rightarrow> nat list" where
  "recent_restarts at w =
     filter (\<lambda>instant. at - instant < ri_window (rp_restart_intensity (cfg_restart_policy (wk_config w))))
       (wk_restart_window w)"

lemma admit_restart_recent:
  assumes "sorted (wk_restart_window w)"
  shows "dropWhile (\<lambda>instant. ri_window (rp_restart_intensity (cfg_restart_policy (wk_config w))) \<le> at - instant)
           (wk_restart_window w) = recent_restarts at w"
  using dropWhile_sorted_filter [OF assms] by (simp add: recent_restarts_def not_le)

text \<open>Restart admission is exact.  With the recorded restarts in order and none later than now, a
  restart is refused exactly when \<open>max_restarts\<close> recorded restarts are younger than the window; a refusal
  moves the worker to \<open>RestartExhausted\<close>, in which every request is rejected, and an admission is
  recorded.\<close>

theorem restart_admission_exact:
  assumes "sorted (wk_restart_window w)" and "length (wk_restart_window w) \<le> u64_max"
    and "admit_restart at w = (r, w')"
  shows "((\<exists>e. r = Inl e) \<longleftrightarrow>
            ri_max_restarts (rp_restart_intensity (cfg_restart_policy (wk_config w))) \<le> length (recent_restarts at w)) \<and>
         (\<forall>e. r = Inl e \<longrightarrow> wk_state w' = SRestartExhausted (wk_generation w) \<and>
            e = ERestartLimitExceeded (length (recent_restarts at w))
                  (ri_window (rp_restart_intensity (cfg_restart_policy (wk_config w)))) \<and>
            (\<forall>os. fst (ensure_running w' os) = Inl (EShutdownInProgress ''worker_request''))) \<and>
         (r = Inr () \<longrightarrow> wk_restart_window w' = recent_restarts at w @ [at] \<and> wk_state w' = wk_state w)"
proof -
  have "length (recent_restarts at w) \<le> length (wk_restart_window w)" by (simp add: recent_restarts_def)
  with assms(2) have "clamp_u64 (length (recent_restarts at w)) = length (recent_restarts at w)"
    by (simp add: clamp_u64_def)
  with assms(3) admit_restart_recent [OF assms(1), of at] show ?thesis
    by (auto simp: admit_restart_def Let_def ensure_running_def split: if_splits)
qed

theorem restart_admission_exact_witness:
  "\<exists>w'. admit_restart 10 ((demo_worker [] [])\<lparr>wk_restart_window := [1, 2]\<rparr>) = (Inr (), w') \<and>
        wk_restart_window w' = [1, 2, 10]"
proof -
  let ?w = "(demo_worker [] [])\<lparr>wk_restart_window := [1, 2]\<rparr>"
  have cfg: "rp_restart_intensity (cfg_restart_policy (wk_config ?w)) = restart_intensity_default"
    by (simp add: demo_worker_def new_worker_def config_new_def policy_disabled_def)
  have rec: "recent_restarts 10 ?w = [1, 2]"
    using cfg by (simp add: recent_restarts_def restart_intensity_default_def DEFAULT_RESTART_INTENSITY_WINDOW_def
        nanos_per_ms_def)
  obtain r w' where a: "admit_restart 10 ?w = (r, w')" by (cases "admit_restart 10 ?w")
  have "sorted (wk_restart_window ?w)" "length (wk_restart_window ?w) \<le> u64_max" by (simp_all add: u64_max_def)
  from restart_admission_exact [OF this a] show ?thesis
    unfolding cfg rec using a
    by (cases r) (auto simp: restart_intensity_default_def DEFAULT_RESTART_INTENSITY_LIMIT_def)
qed

text \<open>A run of restart requests at the given times, and the times that were admitted.\<close>

fun admit_restarts :: "nat list \<Rightarrow> worker \<Rightarrow> nat list \<times> worker" where
  "admit_restarts [] w = ([], w)"
| "admit_restarts (t # ts) w =
     (case admit_restart t w of
        (Inl _, w1) \<Rightarrow> admit_restarts ts w1
      | (Inr _, w1) \<Rightarrow> (case admit_restarts ts w1 of (admitted, w2) \<Rightarrow> (t # admitted, w2)))"

text \<open>All admissions so far, and the suffix of them the worker still remembers.\<close>

definition spaced :: "nat \<Rightarrow> nat \<Rightarrow> nat list \<Rightarrow> bool" where
  "spaced m d xs \<longleftrightarrow> (\<forall>i. i + m < length xs \<longrightarrow> xs ! i + d \<le> xs ! (i + m))"

definition window_inv :: "nat \<Rightarrow> nat list \<Rightarrow> worker \<Rightarrow> bool" where
  "window_inv t hist w \<longleftrightarrow>
     sorted hist \<and> (\<forall>x \<in> set hist. x \<le> t) \<and>
     (\<exists>old. hist = old @ wk_restart_window w \<and>
        (\<forall>x \<in> set old. x + ri_window (rp_restart_intensity (cfg_restart_policy (wk_config w))) \<le> t)) \<and>
     spaced (ri_max_restarts (rp_restart_intensity (cfg_restart_policy (wk_config w))))
       (ri_window (rp_restart_intensity (cfg_restart_policy (wk_config w)))) hist"

lemma admit_restart_window_inv:
  fixes t t' :: nat and w :: worker
  defines "m \<equiv> ri_max_restarts (rp_restart_intensity (cfg_restart_policy (wk_config w)))"
    and "d \<equiv> ri_window (rp_restart_intensity (cfg_restart_policy (wk_config w)))"
  assumes inv: "window_inv t hist w" and tt: "t \<le> t'" and d0: "0 < d" and m: "m \<le> u64_max"
    and a: "admit_restart t' w = (r, w')"
  shows "wk_config w' = wk_config w" and "window_inv t' (if r = Inr () then hist @ [t'] else hist) w'"
proof -
  from inv obtain old where hist: "hist = old @ wk_restart_window w" "sorted hist" "\<forall>x \<in> set hist. x \<le> t"
    and old: "\<forall>x \<in> set old. x + d \<le> t" and sp: "spaced m d hist"
    by (auto simp: window_inv_def m_def d_def)
  let ?drop = "takeWhile (\<lambda>x. d \<le> t' - x) (wk_restart_window w)"
  let ?kept = "dropWhile (\<lambda>x. d \<le> t' - x) (wk_restart_window w)"
  have old': "\<forall>x \<in> set (old @ ?drop). x + d \<le> t'"
    using old tt d0 by (auto dest!: set_takeWhileD)
  have h: "hist = (old @ ?drop) @ ?kept" using hist(1) by simp
  have ex: "\<exists>old'. hist = old' @ ?kept \<and> (\<forall>x \<in> set old'. x + d \<le> t')" using h old' by blast
  have le: "\<forall>x \<in> set hist. x \<le> t'" using hist(3) tt by auto
  show cfg: "wk_config w' = wk_config w" using a by (auto simp: admit_restart_def Let_def split: if_splits)
  show "window_inv t' (if r = Inr () then hist @ [t'] else hist) w'"
  proof (cases r)
    case (Inl e)
    then have "wk_restart_window w' = ?kept" using a by (auto simp: admit_restart_def Let_def d_def split: if_splits)
    then show ?thesis
      unfolding window_inv_def cfg m_def [symmetric] d_def [symmetric] using Inl hist(2) le ex sp by simp
  next
    case (Inr u)
    then have w': "wk_restart_window w' = ?kept @ [t']" and lt: "length ?kept < m"
      using a m by (auto simp: admit_restart_def Let_def d_def m_def clamp_u64_def split: if_splits)
    have "spaced m d (hist @ [t'])" unfolding spaced_def
    proof (intro allI impI)
      fix i assume i: "i + m < length (hist @ [t'])"
      show "(hist @ [t']) ! i + d \<le> (hist @ [t']) ! (i + m)"
      proof (cases "i + m < length hist")
        case True
        with sp show ?thesis by (simp add: spaced_def nth_append)
      next
        case False
        with i have im: "i + m = length hist" by simp
        with lt h have il: "i < length (old @ ?drop)" by (metis add_less_cancel_left length_append linorder_not_less add_le_mono le_trans nat_less_le add.commute)
        then have "hist ! i \<in> set (old @ ?drop)" using h by (metis nth_append nth_mem)
        with old' have "hist ! i + d \<le> t'" by blast
        moreover have "i < length hist" using il h by (metis length_append trans_less_add1)
        ultimately show ?thesis using im by (simp add: nth_append)
      qed
    qed
    moreover have "sorted (hist @ [t'])" using hist(2) le by (simp add: sorted_append)
    ultimately show ?thesis
      unfolding window_inv_def cfg m_def [symmetric] d_def [symmetric]
      using Inr w' h le old' by (auto intro!: exI [of _ "old @ ?drop"])
  qed
qed

lemma admit_restarts_spaced:
  assumes "window_inv t hist w" and "sorted (t # ts)"
    and "0 < ri_window (rp_restart_intensity (cfg_restart_policy (wk_config w)))"
    and "ri_max_restarts (rp_restart_intensity (cfg_restart_policy (wk_config w))) \<le> u64_max"
    and "admit_restarts ts w = (admitted, w')"
  shows "spaced (ri_max_restarts (rp_restart_intensity (cfg_restart_policy (wk_config w))))
           (ri_window (rp_restart_intensity (cfg_restart_policy (wk_config w)))) (hist @ admitted)"
  using assms
proof (induction ts arbitrary: t hist w admitted)
  case Nil
  then show ?case by (simp add: window_inv_def)
next
  case (Cons s ts)
  obtain r w1 where a: "admit_restart s w = (r, w1)" by (cases "admit_restart s w")
  have ts: "t \<le> s" "sorted (s # ts)" using Cons.prems(2) by auto
  note step = admit_restart_window_inv [OF Cons.prems(1) ts(1) Cons.prems(3,4) a]
  show ?case
  proof (cases r)
    case (Inl e)
    with Cons.prems(5) a have "admit_restarts ts w1 = (admitted, w')" by simp
    from Cons.IH [OF step(2) ts(2) _ _ this] step(1) Cons.prems(3,4) Inl show ?thesis by simp
  next
    case (Inr u)
    with Cons.prems(5) a obtain rest where r: "admit_restarts ts w1 = (rest, w')" "admitted = s # rest"
      by (auto split: prod.splits)
    from Cons.IH [OF step(2) ts(2) _ _ r(1)] step(1) Cons.prems(3,4) Inr r(2) show ?thesis by simp
  qed
qed

text \<open>C18: Restart intensity is bounded.  However restart requests arrive (in the order of their times), of
  the restarts a fresh worker admits any \<open>max_restarts + 1\<close> consecutive ones span at least the window:
  no window of that length ever sees more than \<open>max_restarts\<close> restarts.\<close>

theorem restart_intensity_bounded:
  assumes "wk_restart_window w = []" and "sorted ts"
    and "rp_restart_intensity (cfg_restart_policy (wk_config w)) = \<lparr>ri_max_restarts = m, ri_window = d\<rparr>"
    and "0 < d" and "m \<le> u64_max" and "admit_restarts ts w = (admitted, w')"
  shows "\<forall>i. i + m < length admitted \<longrightarrow> admitted ! i + d \<le> admitted ! (i + m)"
proof -
  have "window_inv 0 [] w" using assms(1) by (simp add: window_inv_def spaced_def)
  from admit_restarts_spaced [OF this, of ts admitted w'] assms show ?thesis by (simp add: spaced_def)
qed

theorem restart_intensity_bounded_witness:
  "fst (admit_restarts [1, 2, 3, 12, 13]
     ((demo_worker [] [])\<lparr>wk_config := (config_new [])\<lparr>cfg_restart_policy := policy_disabled
        \<lparr>rp_restart_intensity := \<lparr>ri_max_restarts = 2, ri_window = 10\<rparr>\<rparr>\<rparr>\<rparr>)) = [1, 2, 12, 13] \<and>
   (1 :: nat) + 10 \<le> 12"
proof -
  let ?w = "(demo_worker [] [])\<lparr>wk_config := (config_new [])\<lparr>cfg_restart_policy := policy_disabled
        \<lparr>rp_restart_intensity := \<lparr>ri_max_restarts = 2, ri_window = 10\<rparr>\<rparr>\<rparr>\<rparr>"
  obtain admitted w' where a: "admit_restarts [1, 2, 3, 12, 13] ?w = (admitted, w')"
    by (cases "admit_restarts [1, 2, 3, 12, 13] ?w")
  then have adm: "admitted = [1, 2, 12, 13]"
    by (simp add: admit_restart_def clamp_u64_def u64_max_def demo_worker_def new_worker_def split: prod.splits)
  have "\<forall>i. i + 2 < length admitted \<longrightarrow> admitted ! i + 10 \<le> admitted ! (i + 2)"
    by (rule restart_intensity_bounded [OF _ _ _ _ _ a])
      (simp_all add: demo_worker_def new_worker_def u64_max_def)
  from this [rule_format, of 0] adm a show ?thesis by simp
qed

section \<open>Restart\<close>

definition restartable :: "nat \<Rightarrow> shutdown_intent \<Rightarrow> worker \<Rightarrow> bool" where
  "restartable p intent w \<longleftrightarrow> (alive p w \<and> (wk_stdout w \<noteq> None \<or> intent = IntentKillOnly)) \<or> gone w"

lemma shutdown_gone:
  assumes "gone w" and "shutdown_child intent w os = (r, w', os')"
  shows "w' = w\<lparr>wk_state := SExited (wk_generation w)\<rparr>" and "world_grows os os'" and "\<exists>x. r = Inr x"
proof -
  obtain t os1 where n: "now os = (t, os1)" by (cases "now os")
  obtain ex where ex: "wk_last_exit w = Some ex" using assms(1) by (auto simp: gone_def)
  obtain d os2 where e: "elapsed t os1 = (d, os2)" by (cases "elapsed t os1")
  have "w' = w\<lparr>wk_state := SExited (wk_generation w)\<rparr> \<and> os' = os2 \<and> (\<exists>x. r = Inr x)"
    using assms(2) n ex e by (auto simp: shutdown_child_def status_def Let_def)
  with world_grows_trans [OF now_grows [OF n] elapsed_grows [OF e]]
  show "w' = w\<lparr>wk_state := SExited (wk_generation w)\<rparr>" "world_grows os os'" "\<exists>x. r = Inr x" by auto
qed

lemma drop_gone_mono: "gone w \<Longrightarrow> world_mono os (drop_worker w os)"
  unfolding drop_worker_def
  by (cases "shutdown_child IntentGraceful w os") (auto dest: shutdown_gone(2) world_grows_mono)

text \<open>Stopping the old child, whether it is still there or not.\<close>

definition stopped :: "nat \<Rightarrow> worker \<Rightarrow> world \<Rightarrow> shutdown_report outcome \<Rightarrow> bool" where
  "stopped p w os out \<longleftrightarrow>
     (case out of (r, w', os') \<Rightarrow>
        life_frame w w' \<and> world_grows os os' \<and>
        (case r of
           Inr x \<Rightarrow> gone w' \<and> wk_state w' = SExited (wk_generation w) \<and> (alive p w \<longrightarrow> p \<in> set (os_reaped os')) \<and>
                    (alive p w \<longrightarrow> st_exits (wk_stats w') = sat_inc (st_exits (wk_stats w)))
         | Inl e \<Rightarrow> alive p w \<and> alive p w' \<and> lifecycle_failure e))"

lemma restartable_stopped:
  assumes "restartable p intent w"
  shows "stopped p w os (shutdown_child intent w os)"
proof -
  obtain r w' os' where s: "shutdown_child intent w os = (r, w', os')" by (cases "shutdown_child intent w os")
  from assms consider (a) "alive p w" "wk_stdout w \<noteq> None \<or> intent = IntentKillOnly" | (g) "gone w"
    by (auto simp: restartable_def)
  then show ?thesis
  proof cases
    case a
    from shutdown_child_closes [OF a, of os] s have "closes p w os sd_exit (r, w', os')" by auto
    with a(1) s show ?thesis by (auto simp: stopped_def closes_def split: sum.splits)
  next
    case g
    from g have "\<not> alive p w" by (auto simp: alive_def gone_def)
    with g shutdown_gone [OF g s] s show ?thesis by (auto simp: stopped_def gone_def life_frame_def)
  qed
qed

lemma restartable_upd_stats [simp]: "restartable p i (upd_stats f w) = restartable p i w"
  by (simp add: restartable_def upd_stats_def alive_def gone_def)

text \<open>The four ways a restart ends.\<close>

lemma restart_outcomes:
  assumes rs: "restartable p (stop_intent reason) w" and r: "restart_with_reason reason w os = (r, w', os')"
  obtains
    (stop) w2 e where "r = Inl e" "w' = upd_stats stop_failed w2" "alive p w" "alive p w2" "lifecycle_failure e"
      "life_frame (upd_stats replacement_attempted w) w2" "world_grows os os'"
  | (refused) w2 w3 t e where "r = Inl e" "w' = upd_stats restart_refused w3" "gone w2"
      "admit_restart t w2 = (Inl e, w3)" "life_frame (upd_stats replacement_attempted w) w2" "world_grows os os'"
      "alive p w \<longrightarrow> p \<in> set (os_reaped os')"
  | (spawning) w2 w3 t e where "r = Inl e" "gone w2"
      "w' = upd_stats spawn_failed ((upd_stats (restart_admitted reason) w3)\<lparr>wk_budget := budget_default\<rparr>)"
      "admit_restart t w2 = (Inr (), w3)" "life_frame (upd_stats replacement_attempted w) w2" "world_mono os os'"
      "alive p w \<longrightarrow> p \<in> set (os_reaped os')" "wk_state w2 = SExited (wk_generation w)"
  | (replaced) w2 w3 t c fresh took at where "r = Inr ()" "gone w2" "started_up (wk_config w) c fresh"
      "w' = adopt ((upd_stats (restart_admitted reason) w3)\<lparr>wk_budget := budget_default\<rparr>) fresh
              (sat_inc (wk_generation w3)) took at"
      "admit_restart t w2 = (Inr (), w3)" "life_frame (upd_stats replacement_attempted w) w2" "world_mono os os'"
      "alive p w \<longrightarrow> p \<in> set (os_reaped os')"
      "alive p w \<longrightarrow> st_exits (wk_stats w2) = sat_inc (st_exits (wk_stats w))"
proof -
  obtain t os1 where n: "now os = (t, os1)" by (cases "now os")
  let ?w = "upd_stats replacement_attempted w"
  obtain s w2 os2 where sd: "shutdown_child (stop_intent reason) ?w os1 = (s, w2, os2)"
    by (cases "shutdown_child (stop_intent reason) ?w os1")
  have st: "stopped p ?w os1 (s, w2, os2)" using restartable_stopped [of p "stop_intent reason" ?w os1] rs sd by simp
  have al: "alive p ?w = alive p w" by (simp add: alive_def upd_stats_def)
  have g2: "world_grows os os2" using world_grows_trans [OF now_grows [OF n]] st by (auto simp: stopped_def)
  have f2: "life_frame ?w w2" using st by (simp add: stopped_def)
  show thesis
  proof (cases s)
    case (Inl e)
    have "r = Inl e" "w' = upd_stats stop_failed w2" "os' = os2"
      using r n sd Inl by (auto simp: restart_with_reason_def Let_def)
    with st Inl al f2 g2 show thesis by (intro stop) (auto simp: stopped_def)
  next
    case (Inr x)
    have gw: "gone w2" "wk_state w2 = SExited (wk_generation w)" "alive p w \<longrightarrow> p \<in> set (os_reaped os2)"
      "alive p w \<longrightarrow> st_exits (wk_stats w2) = sat_inc (st_exits (wk_stats w))"
      using st Inr al by (auto simp: stopped_def upd_stats_def replacement_attempted_def)
    obtain a w3 where ad: "admit_restart t w2 = (a, w3)" by (cases "admit_restart t w2")
    show thesis
    proof (cases a)
      case (Inl e)
      have "r = Inl e" "w' = upd_stats restart_refused w3" "os' = os2"
        using r n sd Inr ad Inl by (auto simp: restart_with_reason_def Let_def)
      with gw ad Inl f2 g2 show thesis by (intro refused) auto
    next
      case (Inr u)
      let ?w4 = "(upd_stats (restart_admitted reason) w3)\<lparr>wk_budget := budget_default\<rparr>"
      obtain q os3 where sp: "spawn (wk_config w) os2 = (q, os3)" by (cases "spawn (wk_config w) os2")
      have m3: "world_mono os os3" using world_mono_trans [OF world_grows_mono [OF g2] spawn_mono [OF sp]] .
      have re: "p \<in> set (os_reaped os2) \<Longrightarrow> p \<in> set (os_reaped os3)" using world_mono_reaped [OF spawn_mono [OF sp]] .
      show thesis
      proof (cases q)
        case (Inl e)
        have "r = Inl e" "w' = upd_stats spawn_failed ?w4" "os' = os3"
          using r n sd \<open>s = Inr x\<close> ad Inr sp Inl by (auto simp: restart_with_reason_def Let_def)
        with gw ad Inr f2 m3 re show thesis by (intro spawning) auto
      next
        case (Inr fresh)
        obtain took os4 where e4: "elapsed t os3 = (took, os4)" by (cases "elapsed t os3")
        obtain at os5 where n5: "now os4 = (at, os5)" by (cases "now os4")
        obtain c where su: "started_up (wk_config w) c fresh" using spawn_fresh sp Inr by blast
        have eq: "r = Inr ()" "w' = adopt ?w4 fresh (sat_inc (wk_generation w3)) took at" "os' = drop_worker ?w4 os5"
          using r n sd \<open>s = Inr x\<close> ad \<open>a = Inr u\<close> sp Inr e4 n5 by (auto simp: restart_with_reason_def Let_def)
        have "gone ?w4" using gw(1) ad by (auto simp: admit_restart_def gone_def upd_stats_def Let_def split: if_splits)
        from drop_gone_mono [OF this, of os5] have m5: "world_mono os5 os'" using eq(3) by simp
        have m35: "world_mono os3 os5"
          using world_mono_trans [OF world_grows_mono [OF elapsed_grows [OF e4]] world_grows_mono [OF now_grows [OF n5]]] .
        have mo: "world_mono os os'" using world_mono_trans [OF m3 world_mono_trans [OF m35 m5]] .
        have "alive p w \<longrightarrow> p \<in> set (os_reaped os')"
          using gw(3) re world_mono_reaped [OF world_mono_trans [OF m35 m5]] by blast
        with eq gw ad \<open>a = Inr u\<close> f2 mo su show thesis by (intro replaced) auto
      qed
    qed
  qed
qed

lemma admit_restart_frame:
  assumes "admit_restart t w = (r, w')"
  shows "wk_generation w' = wk_generation w" "wk_next_request_id w' = wk_next_request_id w"
    "wk_stats w' = wk_stats w" "wk_config w' = wk_config w" "gone w' = gone w"
    "r = Inr () \<Longrightarrow> wk_state w' = wk_state w" "wk_last_exit w' = wk_last_exit w"
  using assms by (auto simp: admit_restart_def Let_def gone_def split: if_splits)

lemma adopt_fields [simp]:
  "started_up cfg c fresh \<Longrightarrow> alive (cp_pid c) (adopt w fresh g took at)"
  "started_up cfg c fresh \<Longrightarrow> wk_stdout (adopt w fresh g took at) \<noteq> None"
  "started_up cfg c fresh \<Longrightarrow> wk_budget (adopt w fresh g took at) = budget_default"
  "started_up cfg c fresh \<Longrightarrow> wk_open_session_keys (adopt w fresh g took at) = []"
  "started_up cfg c fresh \<Longrightarrow> wk_pending_restart (adopt w fresh g took at) = None"
  "started_up cfg c fresh \<Longrightarrow> wk_last_exit (adopt w fresh g took at) = None"
  "started_up cfg c fresh \<Longrightarrow> wk_config (adopt w fresh g took at) = cfg"
  "wk_state (adopt w fresh g took at) = SIdle g"
  "wk_generation (adopt w fresh g took at) = g"
  "wk_next_request_id (adopt w fresh g took at) = wk_next_request_id w"
  "wk_restart_window (adopt w fresh g took at) = wk_restart_window w"
  by (auto simp: adopt_def started_up_def new_worker_def alive_def)

lemma count_restart_cause_frame [simp]:
  "st_restarts (count_restart_cause reason s) = st_restarts s"
  "st_exits (count_restart_cause reason s) = st_exits s"
  "st_replacement_attempts (count_restart_cause reason s) = st_replacement_attempts s"
  "st_replacement_successes (count_restart_cause reason s) = st_replacement_successes s"
  "st_replacement_failures (count_restart_cause reason s) = st_replacement_failures s"
  "st_replacement_budget_admitted (count_restart_cause reason s) = st_replacement_budget_admitted s"
  "st_replacement_budget_skipped (count_restart_cause reason s) = st_replacement_budget_skipped s"
  by (cases reason; simp)+

lemma restart_spec:
  assumes "restartable p (stop_intent reason) w" and "restart_with_reason reason w os = (r, w', os')"
  shows "(r = Inr () \<longrightarrow>
            (\<exists>q. alive q w') \<and> wk_stdout w' \<noteq> None \<and> (alive p w \<longrightarrow> p \<in> set (os_reaped os')) \<and>
            wk_generation w' = sat_inc (wk_generation w) \<and> wk_state w' = SIdle (wk_generation w') \<and>
            wk_budget w' = budget_default \<and> wk_open_session_keys w' = [] \<and> wk_pending_restart w' = None \<and>
            st_restarts (wk_stats w') = sat_inc (st_restarts (wk_stats w)) \<and>
            st_last_restart_reason (wk_stats w') = Some reason) \<and>
         ((\<exists>e. r = Inl e) \<longrightarrow>
            wk_generation w' = wk_generation w \<and>
            ((alive p w' \<and> alive p w) \<or> (gone w' \<and> (alive p w \<longrightarrow> p \<in> set (os_reaped os'))))) \<and>
         wk_next_request_id w' = wk_next_request_id w \<and> wk_config w' = wk_config w"
  using assms
proof (cases rule: restart_outcomes)
  case (stop w2 e)
  then show ?thesis by (auto simp: life_frame_def upd_stats_def alive_def)
next
  case (refused w2 w3 t e)
  with admit_restart_frame [OF refused(4)] show ?thesis by (auto simp: life_frame_def upd_stats_def gone_def)
next
  case (spawning w2 w3 t e)
  with admit_restart_frame [OF spawning(4)] show ?thesis by (auto simp: life_frame_def upd_stats_def gone_def)
next
  case (replaced w2 w3 t c fresh took at)
  have s2: "st_restarts (wk_stats w2) = st_restarts (wk_stats w)"
    using arg_cong [where f = st_restarts, OF replaced(6) [unfolded life_frame_def, THEN conjunct2, THEN conjunct2, THEN conjunct1]]
    by (simp add: upd_stats_def replacement_attempted_def)
  have st: "st_restarts (wk_stats w') = sat_inc (st_restarts (wk_stats w))"
    "st_last_restart_reason (wk_stats w') = Some reason"
    unfolding replaced(4) using s2 admit_restart_frame(3) [OF replaced(5)]
    by (simp_all add: adopt_def replacement_succeeded_def upd_stats_def restart_admitted_def record_restart_def)
  have gen: "wk_generation w3 = wk_generation w" "wk_next_request_id w3 = wk_next_request_id w"
    using replaced(6) admit_restart_frame [OF replaced(5)] by (simp_all add: life_frame_def upd_stats_def)
  have "\<exists>q. alive q w'" using replaced(3,4) adopt_fields(1) by blast
  with replaced(1,3,4,8) st gen show ?thesis by (simp add: upd_stats_def)
qed

text \<open>C1: A restart is all or nothing.  When it succeeds the old process has been reaped, a new live child
  with a reader serves the worker, the generation has advanced by one while request ids continue, the
  import budget, the session-reuse hints and any pending restart of the old child are forgotten, and the
  restart is counted under its reason.  When it fails the generation stays, and either the old process is
  still held (stopping it failed) or the worker is gone, the old process reaped.\<close>

theorem restart_all_or_nothing:
  assumes "restartable p (stop_intent reason) w" and "restart_with_reason reason w os = (r, w', os')"
  shows "(r = Inr () \<longrightarrow>
            (\<exists>q. alive q w') \<and> wk_stdout w' \<noteq> None \<and> (alive p w \<longrightarrow> p \<in> set (os_reaped os')) \<and>
            wk_generation w' = sat_inc (wk_generation w) \<and> wk_state w' = SIdle (wk_generation w') \<and>
            wk_budget w' = budget_default \<and> wk_open_session_keys w' = [] \<and> wk_pending_restart w' = None \<and>
            st_restarts (wk_stats w') = sat_inc (st_restarts (wk_stats w)) \<and>
            st_last_restart_reason (wk_stats w') = Some reason) \<and>
         ((\<exists>e. r = Inl e) \<longrightarrow>
            wk_generation w' = wk_generation w \<and>
            ((alive p w' \<and> alive p w) \<or> (gone w' \<and> (alive p w \<longrightarrow> p \<in> set (os_reaped os'))))) \<and>
         wk_next_request_id w' = wk_next_request_id w \<and> wk_config w' = wk_config w"
  using assms by (rule restart_spec)

definition ledger :: "worker_stats \<Rightarrow> worker_stats \<Rightarrow> bool \<Rightarrow> bool" where
  "ledger s s' ok \<longleftrightarrow>
     st_replacement_attempts s' = sat_inc (st_replacement_attempts s) \<and>
     st_replacement_successes s' = (if ok then sat_inc (st_replacement_successes s) else st_replacement_successes s) \<and>
     st_replacement_failures s' = (if ok then st_replacement_failures s else sat_inc (st_replacement_failures s)) \<and>
     ((st_replacement_budget_admitted s' = sat_inc (st_replacement_budget_admitted s) \<and>
       st_replacement_budget_skipped s' = st_replacement_budget_skipped s \<and>
       st_restarts s' = sat_inc (st_restarts s)) \<or>
      (\<not> ok \<and> st_replacement_budget_admitted s' = st_replacement_budget_admitted s \<and>
       st_replacement_budget_skipped s' \<in> {st_replacement_budget_skipped s, sat_inc (st_replacement_budget_skipped s)} \<and>
       st_restarts s' = st_restarts s))"

lemma life_frame_stats:
  assumes "life_frame w w'"
  shows "wk_stats w' = (wk_stats w)\<lparr>st_exits := st_exits (wk_stats w')\<rparr>"
proof -
  have "wk_stats w' = ((wk_stats w')\<lparr>st_exits := 0\<rparr>)\<lparr>st_exits := st_exits (wk_stats w')\<rparr>" by simp
  also have "\<dots> = ((wk_stats w)\<lparr>st_exits := 0\<rparr>)\<lparr>st_exits := st_exits (wk_stats w')\<rparr>"
    using assms by (simp add: life_frame_def)
  finally show ?thesis by simp
qed

lemma ledger_exits: "ledger s (s'\<lparr>st_exits := n\<rparr>) ok = ledger s s' ok"
  by (simp add: ledger_def)

text \<open>The replacement ledger balances.  Every restart attempt is counted once, as an attempt and as
  exactly one of success and failure; an attempt the intensity budget decided on is counted as admitted or as
  skipped, and \<open>restarts\<close> counts exactly the admitted ones, including those whose spawn then failed.\<close>

theorem replacement_ledger_balances:
  assumes "restartable p (stop_intent reason) w" and "restart_with_reason reason w os = (r, w', os')"
  shows "ledger (wk_stats w) (wk_stats w') (r = Inr ())"
  using assms
proof (cases rule: restart_outcomes)
  case (stop w2 e)
  from stop show ?thesis
    using arg_cong [OF life_frame_stats [OF stop(6)], of stop_failed]
    by (auto simp: ledger_def upd_stats_def stop_failed_def replacement_attempted_def)
next
  case (refused w2 w3 t e)
  from refused(1,2) admit_restart_frame(3) [OF refused(4)] show ?thesis
    by (subst (asm) life_frame_stats [OF refused(5)])
       (simp add: ledger_def upd_stats_def restart_refused_def replacement_attempted_def)
next
  case (spawning w2 w3 t e)
  from spawning(1,3) admit_restart_frame(3) [OF spawning(4)] show ?thesis
    by (subst (asm) life_frame_stats [OF spawning(5)])
       (simp add: ledger_def upd_stats_def spawn_failed_def restart_admitted_def record_restart_def
          replacement_attempted_def)
next
  case (replaced w2 w3 t c fresh took at)
  from replaced(1,4) admit_restart_frame(3) [OF replaced(5)] show ?thesis
    by (subst (asm) life_frame_stats [OF replaced(6)])
       (simp add: ledger_def upd_stats_def adopt_def replacement_succeeded_def restart_admitted_def record_restart_def
          replacement_attempted_def)
qed

text \<open>After a restart the lifecycle snapshot shows no last exit, although it is documented as the most
  recent child exit observed by the supervisor and the restart has just observed one (the exit counter
  went up).\<close>

theorem snapshot_forgets_exit_on_restart:
  assumes "alive p w" and "wk_stdout w \<noteq> None" and "restart_with_reason reason w os = (Inr (), w', os')"
    and "st_exits (wk_stats w) < u64_max"
  shows "ls_last_exit (lifecycle_snapshot_of w') = None \<and>
         ls_exits (lifecycle_snapshot_of w') = Suc (st_exits (wk_stats w))"
proof -
  have rs: "restartable p (stop_intent reason) w" using assms(1,2) by (simp add: restartable_def)
  from rs assms(3) show ?thesis
  proof (cases rule: restart_outcomes)
    case (replaced w2 w3 t c fresh took at)
    have "st_exits (wk_stats w3) = sat_inc (st_exits (wk_stats w))"
      using replaced(9) assms(1) admit_restart_frame(3) [OF replaced(5)] by simp
    then have "st_exits (wk_stats w') = Suc (st_exits (wk_stats w))"
      unfolding replaced(4) using assms(4)
      by (simp add: adopt_def replacement_succeeded_def upd_stats_def restart_admitted_def record_restart_def
          sat_inc_exact)
    with replaced(3,4) show ?thesis by (simp add: lifecycle_snapshot_of_def)
  qed simp_all
qed

definition demo_restart_world :: world where
  "demo_restart_world = demo_world\<lparr>os_spawns := [Some (demo_spawned 9 [demo_handshake] [])]\<rparr>"

lemmas demo_defs = demo_restart_world_def demo_world_def demo_worker_def new_worker_def demo_child_def
  demo_spawned_def demo_handshake_def demo_metadata_def demo_exit_def

lemmas world_defs = now_def elapsed_def sleep_def child_try_wait_def child_kill_def child_write_def try_wait_child_def
  kill_proc_def kill_child_def recv_timeout_def

lemma demo_stop:
  "\<exists>x w'. shutdown_child IntentKillOnly (upd_stats f (demo_worker [PollRunning, PollExited demo_exit] []))
      demo_restart_world = (Inr x, w', demo_restart_world\<lparr>os_killed := [7], os_reaped := [7]\<rparr>) \<and>
      wk_restart_window w' = [] \<and> gone w' \<and> wk_config w' = config_new ''/bin/worker''"
  by (simp add: shutdown_child_def Let_def status_def kill_and_report_def wait_for_exit_bounded_def wait_loop.simps
      finalize_child_exit_def read_stderr_def finish_in_flight_def upd_stats_def demo_defs world_defs gone_def)

lemma demo_restart:
  "\<exists>w' os'. restart_with_reason (RequestTimeout ''op'' 1) (demo_worker [PollRunning, PollExited demo_exit] [])
      demo_restart_world = (Inr (), w', os')"
proof -
  let ?w = "demo_worker [PollRunning, PollExited demo_exit] []"
  let ?os = "demo_restart_world\<lparr>os_killed := [7], os_reaped := [7]\<rparr>"
  obtain x w2 where st: "shutdown_child IntentKillOnly (upd_stats replacement_attempted ?w) demo_restart_world
      = (Inr x, w2, ?os)" "wk_restart_window w2 = []" "wk_config w2 = config_new ''/bin/worker''"
    using demo_stop [of replacement_attempted] by auto
  have n: "now demo_restart_world = (0, demo_restart_world)" by (simp add: now_def demo_restart_world_def demo_world_def)
  have ad: "\<exists>w3. admit_restart 0 w2 = (Inr (), w3)"
    using st by (simp add: admit_restart_def Let_def config_new_def policy_disabled_def restart_intensity_default_def
        DEFAULT_RESTART_INTENSITY_LIMIT_def clamp_u64_def)
  have cfg: "wk_config ?w = config_new ''/bin/worker''" by (simp add: demo_worker_def new_worker_def)
  have sp: "\<exists>fresh os3. spawn (config_new ''/bin/worker'') ?os = (Inr fresh, os3)"
    by (simp add: spawn_def startup_child_def Let_def demo_defs world_defs read_handshake_def PROTOCOL_VERSION_def
        config_new_def nanos_per_ms_def)
  from ad sp obtain w3 fresh os3 where "admit_restart 0 w2 = (Inr (), w3)"
    "spawn (config_new ''/bin/worker'') ?os = (Inr fresh, os3)" by auto
  with st n cfg show ?thesis by (auto simp: restart_with_reason_def Let_def split: prod.splits)
qed

lemma demo_restartable: "restartable 7 i (demo_worker polls arrivals)"
  using demo_alive [of polls arrivals] demo_stdout [of polls arrivals] by (simp add: restartable_def)

lemma demo_generation [simp]: "wk_generation (demo_worker polls arrivals) = 0"
  and demo_stats [simp]: "wk_stats (demo_worker polls arrivals) = stats_default\<lparr>st_last_spawn_handshake_elapsed := Some 0\<rparr>"
  by (simp_all add: demo_worker_def new_worker_def)

theorem restart_all_or_nothing_witness:
  "\<exists>w' os'. restart_with_reason (RequestTimeout ''op'' 1) (demo_worker [PollRunning, PollExited demo_exit] [])
      demo_restart_world = (Inr (), w', os') \<and> wk_generation w' = 1 \<and> 7 \<in> set (os_reaped os')"
proof -
  from demo_restart obtain w' os' where r: "restart_with_reason (RequestTimeout ''op'' 1)
    (demo_worker [PollRunning, PollExited demo_exit] []) demo_restart_world = (Inr (), w', os')" by blast
  from restart_all_or_nothing [OF demo_restartable r] r demo_alive show ?thesis
    by (auto simp: sat_add_def u64_max_def)
qed

theorem replacement_ledger_balances_witness:
  "\<exists>w' os'. restart_with_reason (RequestTimeout ''op'' 1) (demo_worker [PollRunning, PollExited demo_exit] [])
      demo_restart_world = (Inr (), w', os') \<and> st_replacement_successes (wk_stats w') = 1"
proof -
  from demo_restart obtain w' os' where r: "restart_with_reason (RequestTimeout ''op'' 1)
    (demo_worker [PollRunning, PollExited demo_exit] []) demo_restart_world = (Inr (), w', os')" by blast
  from replacement_ledger_balances [OF demo_restartable r] r show ?thesis
    by (auto simp: ledger_def stats_default_def sat_add_def u64_max_def)
qed

theorem snapshot_forgets_exit_on_restart_witness:
  "\<exists>w' os'. restart_with_reason (RequestTimeout ''op'' 1) (demo_worker [PollRunning, PollExited demo_exit] [])
      demo_restart_world = (Inr (), w', os') \<and> ls_last_exit (lifecycle_snapshot_of w') = None \<and>
      ls_exits (lifecycle_snapshot_of w') = 1"
proof -
  from demo_restart obtain w' os' where r: "restart_with_reason (RequestTimeout ''op'' 1)
    (demo_worker [PollRunning, PollExited demo_exit] []) demo_restart_world = (Inr (), w', os')" by blast
  from snapshot_forgets_exit_on_restart [OF demo_alive demo_stdout r] r show ?thesis
    by (auto simp: stats_default_def u64_max_def)
qed

end
