(* ===== verification/Worker_Request.thy ===== *)
theory Worker_Request
  imports Worker_Life
begin

text \<open>
  One request to the worker (\<open>supervisor.rs\<close>): admission under the restart policy,
  sending, and the loop that reads what the child answers, with its watch on resident
  memory, its deadline, the caller's sinks and the cancellation token.

  The reader thread is again the list of arrivals.  A sink is a function from all it has
  been given so far, newest last, to the text it panics with, if it panics.  A
  cancellation token is the instant from which it is cancelled.  \<open>parse_payload\<close> stands
  for \<open>serde_json\<close>: it gives the error when a row's payload is not a JSON value.
\<close>

section \<open>Sinks and cancellation\<close>

datatype data_target =
    ValueTarget "data_row list \<Rightarrow> string option"
  | RawTarget "data_row list \<Rightarrow> string option"

record sinks =
  sk_progress :: "(progress_event list \<Rightarrow> string option) option"
  sk_token :: "nat option"
  sk_data :: "data_target option"
  sk_diagnostics :: "(diagnostic list \<Rightarrow> string option) option"

definition no_sinks :: sinks where
  "no_sinks = \<lparr>sk_progress = None, sk_token = None, sk_data = None, sk_diagnostics = None\<rparr>"

definition is_cancelled :: "nat option \<Rightarrow> world \<Rightarrow> bool" where
  "is_cancelled token os = (case token of None \<Rightarrow> False | Some at \<Rightarrow> at \<le> os_clock os)"

definition check_cancelled :: "string \<Rightarrow> nat option \<Rightarrow> world \<Rightarrow> worker_error + unit" where
  "check_cancelled operation token os =
     (if is_cancelled token os
      then Inl (ECancelled operation (bare_resource_facts ''worker_cancelled'' operation None)) else Inr ())"

definition report_parent_progress ::
  "(progress_event list \<Rightarrow> string option) option \<Rightarrow> progress_event \<Rightarrow> world \<Rightarrow> (worker_error + unit) \<times> world" where
  "report_parent_progress sink event os =
     (case sink of
        None \<Rightarrow> (Inr (), os)
      | Some report \<Rightarrow>
          let os' = os\<lparr>os_ticks := os_ticks os @ [event]\<rparr> in
          (case report (os_ticks os') of
             None \<Rightarrow> (Inr (), os') | Some panic \<Rightarrow> (Inl (EProgressPanic panic), os')))"

definition deliver_row ::
  "(data_row list \<Rightarrow> string option) \<Rightarrow> data_row \<Rightarrow> world \<Rightarrow> (worker_error + unit) \<times> world" where
  "deliver_row report row os =
     (let os' = os\<lparr>os_rows := os_rows os @ [row]\<rparr> in
      (case report (os_rows os') of
         None \<Rightarrow> (Inr (), os') | Some panic \<Rightarrow> (Inl (EDataSinkPanic panic), os')))"

definition report_parent_data_row ::
  "(json \<Rightarrow> string option) \<Rightarrow> data_target option \<Rightarrow> data_row \<Rightarrow> world \<Rightarrow> (worker_error + unit) \<times> world" where
  "report_parent_data_row parse_payload sink row os =
     (case sink of
        None \<Rightarrow> (Inl (EProtocol (PText ''worker sent data row for a request without a row sink'')), os)
      | Some (ValueTarget report) \<Rightarrow>
          (case parse_payload (dr_payload row) of
             Some _ \<Rightarrow> (Inl (EProtocol PRowDecode), os)
           | None \<Rightarrow> deliver_row report row os)
      | Some (RawTarget report) \<Rightarrow> deliver_row report row os)"

definition report_parent_diagnostic ::
  "(diagnostic list \<Rightarrow> string option) option \<Rightarrow> diagnostic \<Rightarrow> world \<Rightarrow> (worker_error + unit) \<times> world" where
  "report_parent_diagnostic sink d os =
     (case sink of
        None \<Rightarrow> (Inr (), os)
      | Some report \<Rightarrow>
          let os' = os\<lparr>os_diagnostics := os_diagnostics os @ [d]\<rparr> in
          (case report (os_diagnostics os') of
             None \<Rightarrow> (Inr (), os') | Some panic \<Rightarrow> (Inl (EDiagnosticSinkPanic panic), os')))"

definition elapsed_event :: "progress_tick \<Rightarrow> nat \<Rightarrow> world \<Rightarrow> progress_event \<times> world" where
  "elapsed_event tick started os =
     (case elapsed started os of (d, os') \<Rightarrow>
        (\<lparr>pe_phase = pt_phase tick, pe_current = pt_current tick, pe_total = pt_total tick, pe_elapsed = d\<rparr>, os'))"

section \<open>Admission\<close>

definition hard_rss_limit_exceeded :: "worker \<Rightarrow> (nat \<times> nat) option \<times> worker" where
  "hard_rss_limit_exceeded w =
     (case cfg_rss_hard_limit_kib (wk_config w) of
        None \<Rightarrow> (None, w)
      | Some limit \<Rightarrow>
          (case child_rss_kib w of (sample, w1) \<Rightarrow>
             ((case sample of Some current \<Rightarrow> if limit \<le> current then Some (current, limit) else None | None \<Rightarrow> None),
              note_rss sample w1)))"

definition count_admission :: "bool \<Rightarrow> worker \<Rightarrow> worker" where
  "count_admission import_like w =
     (if import_like
      then upd_stats (\<lambda>s. s\<lparr>st_import_like_admitted := sat_inc (st_import_like_admitted s)\<rparr>) w else w)"

text \<open>\<open>self.restart_with_reason(reason)?; if import\_like \{ admitted += 1 \}; return Ok(())\<close>.\<close>

definition restart_then_admit :: "restart_reason \<Rightarrow> bool \<Rightarrow> worker \<Rightarrow> world \<Rightarrow> unit outcome" where
  "restart_then_admit reason import_like w os =
     (case restart_with_reason reason w os of
        (Inl e, w1, os1) \<Rightarrow> (Inl e, w1, os1)
      | (Inr _, w1, os1) \<Rightarrow> (Inr (), count_admission import_like w1, os1))"

definition note_import_attempt :: "bool \<Rightarrow> worker \<Rightarrow> worker" where
  "note_import_attempt import_like w =
     (if \<not> import_like then w
      else (case child_rss_kib (upd_stats (\<lambda>s. s\<lparr>st_import_like_admission_attempts :=
                                  sat_inc (st_import_like_admission_attempts s)\<rparr>) w) of
              (sample, w1) \<Rightarrow>
                upd_stats (\<lambda>s. s\<lparr>st_last_import_like_rss_before_admission_kib := sample\<rparr>) w1))"

definition idle_check :: "bool \<Rightarrow> worker \<Rightarrow> world \<Rightarrow> unit outcome" where
  "idle_check import_like w os =
     (case rp_idle_restart_after (cfg_restart_policy (wk_config w)) of
        None \<Rightarrow> (Inr (), count_admission import_like w, os)
      | Some limit \<Rightarrow>
          (case elapsed (wk_last_activity w) os of (idle_for, os1) \<Rightarrow>
             if limit \<le> idle_for then restart_then_admit (Idle idle_for limit) import_like w os1
             else (Inr (), count_admission import_like w, os1)))"

definition rss_check :: "bool \<Rightarrow> worker \<Rightarrow> world \<Rightarrow> unit outcome" where
  "rss_check import_like w os =
     (case rp_max_rss_kib (cfg_restart_policy (wk_config w)) of
        None \<Rightarrow> idle_check import_like w os
      | Some limit \<Rightarrow>
          (case child_rss_kib w of (sample, w1) \<Rightarrow>
             (case sample of
                Some current \<Rightarrow>
                  if limit \<le> current
                  then restart_then_admit
                         (RssCeiling current limit (st_last_import_stats (wk_stats (note_rss sample w1))))
                         import_like (note_rss sample w1) os
                  else idle_check import_like (note_rss sample w1) os
              | None \<Rightarrow> idle_check import_like (note_rss sample w1) os)))"

definition prepare_request :: "bool \<Rightarrow> worker \<Rightarrow> world \<Rightarrow> unit outcome" where
  "prepare_request import_like w os =
     (case ensure_running w os of
        (Inl e, w1, os1) \<Rightarrow> (Inl e, w1, os1)
      | (Inr _, w1, os1) \<Rightarrow>
          let w2 = note_import_attempt import_like w1;
              policy = cfg_restart_policy (wk_config w2)
          in (case request_limit_reached (wk_budget w2) policy of
                Some reason \<Rightarrow> restart_then_admit reason import_like w2 os1
              | None \<Rightarrow>
                  (case (if import_like then import_limit_reached (wk_budget w2) policy else None) of
                     Some reason \<Rightarrow> restart_then_admit reason True w2 os1
                   | None \<Rightarrow> rss_check import_like w2 os1)))"

definition record_request :: "bool \<Rightarrow> worker \<Rightarrow> world \<Rightarrow> worker \<times> world" where
  "record_request import_like w os =
     (let w1 = upd_stats (\<lambda>s. let s1 = s\<lparr>st_requests := sat_inc (st_requests s)\<rparr> in
                  if import_like then s1\<lparr>st_imports := sat_inc (st_imports s1)\<rparr> else s1) w;
          w2 = w1\<lparr>wk_budget := budget_record_request (wk_budget w1) import_like\<rparr>
      in case now os of (at, os1) \<Rightarrow> (w2\<lparr>wk_last_activity := at\<rparr>, os1))"

definition record_import :: "import_stats \<Rightarrow> worker \<Rightarrow> worker" where
  "record_import i w =
     (let w1 = upd_stats (\<lambda>s.
          let s1 = s\<lparr>st_imports := sat_inc (st_imports s)\<rparr> in
          if 0 < is_effective_module_count i \<and> is_compacted_region_bytes i = 0
          then s1\<lparr>st_import_stats_unusable := sat_inc (st_import_stats_unusable s1)\<rparr> else s1) w
      in w1\<lparr>wk_budget := budget_record_import (wk_budget w1) i\<rparr>)"

section \<open>Reader events\<close>

datatype reader_event =
    EvMessage (ev_generation: nat) (ev_request_id: "nat option") message (ev_backpressure_waits: nat)
  | EvTerminal (ev_generation: nat) (ev_request_id: "nat option") message "arrival list" (ev_backpressure_waits: nat)
  | EvReadError (ev_generation: nat) (ev_request_id: "nat option") protocol_error (ev_backpressure_waits: nat)

fun add_backpressure_wait :: "reader_event \<Rightarrow> reader_event" where
  "add_backpressure_wait (EvMessage g i m n) = EvMessage g i m (sat_inc n)"
| "add_backpressure_wait (EvTerminal g i m a n) = EvTerminal g i m a (sat_inc n)"
| "add_backpressure_wait (EvReadError g i e n) = EvReadError g i e (sat_inc n)"

text \<open>What \<open>send_reader_event\<close> hands over: a full buffer costs one wait.\<close>

definition send_reader_event :: "bool \<Rightarrow> reader_event \<Rightarrow> reader_event" where
  "send_reader_event full ev = (if full then add_backpressure_wait ev else ev)"

definition read_request_message :: "nat \<Rightarrow> nat option \<Rightarrow> arrival \<Rightarrow> arrival list \<Rightarrow> reader_event option" where
  "read_request_message generation request_id a rest =
     (case ar_result a of
        ReadOk (MResponse r) \<Rightarrow>
          Some (send_reader_event (ar_buffer_full a) (EvTerminal generation request_id (MResponse r) rest 0))
      | ReadOk m \<Rightarrow> Some (send_reader_event (ar_buffer_full a) (EvMessage generation request_id m 0))
      | ReadFail e \<Rightarrow> Some (send_reader_event (ar_buffer_full a) (EvReadError generation request_id e 0))
      | ReaderGone \<Rightarrow> None)"

section \<open>Ends of a request\<close>

definition record_stream_success :: "nat \<Rightarrow> worker \<Rightarrow> world \<Rightarrow> worker \<times> world" where
  "record_stream_success started w os =
     (case elapsed started os of (d, os1) \<Rightarrow>
        (upd_stats (\<lambda>s. s\<lparr>st_stream_successes := sat_inc (st_stream_successes s),
                          st_stream_elapsed := duration_sat_add (st_stream_elapsed s) d\<rparr>) w, os1))"

definition record_stream_failure :: "nat \<Rightarrow> nat \<Rightarrow> worker \<Rightarrow> world \<Rightarrow> worker \<times> world" where
  "record_stream_failure started backpressure_waits w os =
     (case elapsed started os of (d, os1) \<Rightarrow>
        (upd_stats (\<lambda>s. let s1 = s\<lparr>st_stream_failures := sat_inc (st_stream_failures s),
                                   st_stream_elapsed := duration_sat_add (st_stream_elapsed s) d\<rparr> in
             if 0 < backpressure_waits
             then s1\<lparr>st_backpressure_failures := sat_inc (st_backpressure_failures s1)\<rparr> else s1) w, os1))"

fun completes_stream :: "response \<Rightarrow> bool" where
  "completes_stream (RStreamComplete _) = True"
| "completes_stream (RRowsComplete _) = True"
| "completes_stream _ = False"

definition terminalize_request_response ::
  "response \<Rightarrow> bool \<Rightarrow> nat \<Rightarrow> nat \<Rightarrow> worker \<Rightarrow> world \<Rightarrow> worker \<times> world" where
  "terminalize_request_response r streaming started backpressure_waits w os =
     (case (if streaming
            then if completes_stream r then record_stream_success started w os
                 else record_stream_failure started backpressure_waits w os
            else (w, os)) of
        (w1, os1) \<Rightarrow> (finish_in_flight w1, os1))"

definition terminalize_request_failure :: "bool \<Rightarrow> nat \<Rightarrow> nat \<Rightarrow> worker \<Rightarrow> world \<Rightarrow> worker \<times> world" where
  "terminalize_request_failure streaming started backpressure_waits w os =
     (case (if streaming then record_stream_failure started backpressure_waits w os else (w, os)) of
        (w1, os1) \<Rightarrow> (finish_in_flight w1, os1))"

definition unexpected_response :: "string \<Rightarrow> response \<Rightarrow> worker_error" where
  "unexpected_response operation r = EProtocol (PUnexpectedResponse operation r)"

text \<open>The request in hand: what the loop of \<open>read_response_with_events\<close> closes over.\<close>

record in_hand =
  ih_operation :: string
  ih_started :: nat
  ih_timeout :: nat
  ih_deadline :: "nat option"
  ih_request :: in_flight
  ih_sinks :: sinks

definition ih_streaming :: "in_hand \<Rightarrow> bool" where
  "ih_streaming h = (sk_data (ih_sinks h) \<noteq> None)"

text \<open>Kill and replace the child, then fail the request with the given error.\<close>

definition abandon_request ::
  "in_hand \<Rightarrow> nat \<Rightarrow> restart_reason \<Rightarrow> (worker \<Rightarrow> worker_error) \<Rightarrow> worker \<Rightarrow> world \<Rightarrow> response outcome" where
  "abandon_request h waits reason failure w os =
     (case (if ih_streaming h then record_stream_failure (ih_started h) waits w os else (w, os)) of
        (w1, os1) \<Rightarrow>
          (case restart_with_reason reason w1 os1 of
             (Inl e, w2, os2) \<Rightarrow> (Inl e, finish_in_flight w2, os2)
           | (Inr _, w2, os2) \<Rightarrow>
               let w3 = finish_in_flight w2 in (Inl (failure w3), w3, os2)))"

definition time_out_request :: "in_hand \<Rightarrow> nat \<Rightarrow> worker \<Rightarrow> world \<Rightarrow> response outcome" where
  "time_out_request h waits w os =
     abandon_request h waits (RequestTimeout (ih_operation h) (ih_timeout h))
       (\<lambda>w'. ETimeout (ih_operation h) (ih_timeout h)
          (worker_resource_facts ''worker_timeout'' True (Some (ih_operation h)) (wk_stats w')
             (st_last_rss_kib (wk_stats w')) None (Some (ih_timeout h)))) w os"

definition cancel_request :: "in_hand \<Rightarrow> nat \<Rightarrow> worker \<Rightarrow> world \<Rightarrow> response outcome" where
  "cancel_request h waits w os =
     abandon_request h waits (Cancelled (ih_operation h))
       (\<lambda>w'. ECancelled (ih_operation h)
          (worker_resource_facts ''worker_cancelled'' True (Some (ih_operation h)) (wk_stats w')
             (st_last_rss_kib (wk_stats w')) None None)) w os"

definition exceed_rss_request :: "in_hand \<Rightarrow> nat \<Rightarrow> nat \<Rightarrow> nat \<Rightarrow> worker \<Rightarrow> world \<Rightarrow> response outcome" where
  "exceed_rss_request h waits current limit w os =
     (let stats = st_last_import_stats (wk_stats w) in
      abandon_request h waits (RssHardLimit (ih_operation h) current limit stats)
        (\<lambda>w'. ERssHardLimitExceeded (ih_operation h) current limit stats
           (worker_resource_facts ''worker_rss_hard_limit'' True (Some (ih_operation h)) (wk_stats w')
              (Some current) (Some limit) None)) w os)"

definition fail_request :: "in_hand \<Rightarrow> nat \<Rightarrow> worker_error \<Rightarrow> worker \<Rightarrow> world \<Rightarrow> response outcome" where
  "fail_request h waits e w os =
     (case terminalize_request_failure (ih_streaming h) (ih_started h) waits w os of (w1, os1) \<Rightarrow> (Inl e, w1, os1))"

section \<open>Reading the response\<close>

datatype step =
    Finish "response outcome"
  | Continue nat "arrival list" worker world

definition handle_message ::
  "(json \<Rightarrow> string option) \<Rightarrow> in_hand \<Rightarrow> nat \<Rightarrow> message \<Rightarrow> arrival list \<Rightarrow> worker \<Rightarrow> world \<Rightarrow> step" where
  "handle_message parse_payload h waits m rest w os =
     (case m of
        MProgressTick tick \<Rightarrow>
          let w1 = mark_current_request_streaming w in
          (case elapsed_event tick (ih_started h) os of (event, os1) \<Rightarrow>
             (case report_parent_progress (sk_progress (ih_sinks h)) event os1 of
                (Inl e, os2) \<Rightarrow> Finish (fail_request h waits e w1 os2)
              | (Inr _, os2) \<Rightarrow>
                  if is_cancelled (sk_token (ih_sinks h)) os2 then Finish (cancel_request h waits w1 os2)
                  else Continue waits rest w1 os2))
      | MDataRow row \<Rightarrow>
          let w1 = mark_current_request_streaming w in
          (case report_parent_data_row parse_payload (sk_data (ih_sinks h)) row os of
             (Inl e, os1) \<Rightarrow> Finish (fail_request h waits e w1 os1)
           | (Inr _, os1) \<Rightarrow>
               let w2 = upd_stats (\<lambda>s. s\<lparr>
                     st_data_rows_delivered := sat_inc (st_data_rows_delivered s),
                     st_data_row_payload_bytes :=
                       sat_add (st_data_row_payload_bytes s) (length (dr_payload row))\<rparr>) w1 in
               if is_cancelled (sk_token (ih_sinks h)) os1 then Finish (cancel_request h waits w2 os1)
               else Continue waits rest w2 os1)
      | MDiagnostic d \<Rightarrow>
          let w1 = mark_current_request_streaming w in
          (case report_parent_diagnostic (sk_diagnostics (ih_sinks h)) d os of
             (Inl e, os1) \<Rightarrow> Finish (fail_request h waits e w1 os1)
           | (Inr _, os1) \<Rightarrow> Continue waits rest w1 os1)
      | MResponse r \<Rightarrow> Finish (fail_request h waits (unexpected_response (ih_operation h) r) w os)
      | other \<Rightarrow> Finish (fail_request h waits (EProtocol (PUnexpectedMessage (ih_operation h) other)) w os))"

definition handle_terminal ::
  "in_hand \<Rightarrow> nat \<Rightarrow> message \<Rightarrow> worker \<Rightarrow> world \<Rightarrow> response outcome" where
  "handle_terminal h waits m w os =
     (case m of
        MResponse r \<Rightarrow>
          (case r of
             RError code msg \<Rightarrow> fail_request h waits (EWorker code msg) w os
           | _ \<Rightarrow> (case terminalize_request_response r (ih_streaming h) (ih_started h) waits w os of
                     (w1, os1) \<Rightarrow> (Inr r, w1, os1)))
      | other \<Rightarrow> fail_request h waits (EProtocol (PUnexpectedMessage (ih_operation h) other)) w os)"

definition handle_read_error :: "in_hand \<Rightarrow> nat \<Rightarrow> protocol_error \<Rightarrow> worker \<Rightarrow> world \<Rightarrow> response outcome" where
  "handle_read_error h waits err w os =
     (case terminalize_request_failure (ih_streaming h) (ih_started h) waits w os of
        (w1, os1) \<Rightarrow>
          if protocol_error_is_eof err
          then (case record_exit_error w1 os1 of (e, w2, os2) \<Rightarrow> (Inl e, w2, os2))
          else (Inl (EProtocol (PCodec err)), w1, os1))"

definition reader_exited :: worker_error where
  "reader_exited = EProtocol (PText ''worker response reader exited without a terminal response'')"

definition handle_arrival ::
  "(json \<Rightarrow> string option) \<Rightarrow> in_hand \<Rightarrow> nat \<Rightarrow> arrival \<Rightarrow> arrival list \<Rightarrow> worker \<Rightarrow> world \<Rightarrow> step" where
  "handle_arrival parse_payload h waits a rest w os =
     (case read_request_message (if_generation (ih_request h)) (Some (if_id (ih_request h))) a rest of
        None \<Rightarrow> Finish (Inl reader_exited, finish_in_flight w, os)
      | Some ev \<Rightarrow>
          if ev_generation ev \<noteq> wk_generation w
          then Finish (Inl (EProtocol (PStaleGeneration (ih_operation h) (ev_generation ev) (wk_generation w))),
                       finish_in_flight w, os)
          else if \<exists>i. ev_request_id ev = Some i \<and> current_request_id (wk_state w) \<noteq> Some i
          then let w1 = finish_in_flight w in
               Finish (Inl (EProtocol (PStaleRequest (ih_operation h) (current_request_id (wk_state w1))
                                         (the (ev_request_id ev)))), w1, os)
          else let waits1 = sat_add waits (ev_backpressure_waits ev);
                   w1 = upd_stats (\<lambda>s. s\<lparr>st_backpressure_waits :=
                                            sat_add (st_backpressure_waits s) (ev_backpressure_waits ev)\<rparr>) w in
               (case ev of
                  EvMessage _ _ m _ \<Rightarrow> handle_message parse_payload h waits1 m rest w1 os
                | EvTerminal _ _ m arrivals _ \<Rightarrow>
                    Finish (handle_terminal h waits1 m (w1\<lparr>wk_stdout := Some arrivals\<rparr>) os)
                | EvReadError _ _ err _ \<Rightarrow> Finish (handle_read_error h waits1 err w1 os)))"

text \<open>\<open>deadline.and\_then(|d| d.checked\_duration\_since(Instant::now()))\<close>.\<close>

definition remaining_time :: "nat option \<Rightarrow> world \<Rightarrow> nat option \<times> world" where
  "remaining_time deadline os =
     (case deadline of
        None \<Rightarrow> (None, os)
      | Some d \<Rightarrow> (case now os of (t, os1) \<Rightarrow> (checked_duration_since d t, os1)))"

text \<open>\<open>receiver.recv()\<close>: wait however long the next event takes.\<close>

definition recv_any :: "arrival list \<Rightarrow> world \<Rightarrow> arrival \<times> arrival list \<times> world" where
  "recv_any arrivals os =
     (case arrivals of
        [] \<Rightarrow> (eof_arrival, [], os)
      | a # rest \<Rightarrow> (a, rest, os\<lparr>os_clock := os_clock os + ar_delay a\<rparr>))"

definition response_round ::
  "(json \<Rightarrow> string option) \<Rightarrow> in_hand \<Rightarrow> nat \<Rightarrow> arrival list \<Rightarrow> worker \<Rightarrow> world \<Rightarrow> step" where
  "response_round parse_payload h waits arrivals w os =
     (case hard_rss_limit_exceeded w of
        (Some (current, limit), w1) \<Rightarrow> Finish (exceed_rss_request h waits current limit w1 os)
      | (None, w1) \<Rightarrow>
          (case remaining_time (ih_deadline h) os of
             (None, os1) \<Rightarrow>
               (case recv_any arrivals os1 of (a, rest, os2) \<Rightarrow>
                  handle_arrival parse_payload h waits a rest w1 os2)
           | (Some remaining, os1) \<Rightarrow>
               if remaining = 0 then Finish (time_out_request h waits w1 os1)
               else let hard_watch_enabled = (cfg_rss_hard_limit_kib (wk_config w1) \<noteq> None);
                        wait_for = (if hard_watch_enabled
                                    then min remaining (cfg_rss_sample_interval (wk_config w1)) else remaining)
                    in (case recv_timeout wait_for arrivals os1 of
                          (Received a rest, os2) \<Rightarrow> handle_arrival parse_payload h waits a rest w1 os2
                        | (TimedOut arrivals', os2) \<Rightarrow>
                            if hard_watch_enabled \<and> wait_for < remaining then Continue waits arrivals' w1 os2
                            else Finish (time_out_request h waits w1 os2))))"

lemma handle_arrival_Continue:
  "handle_arrival parse_payload h waits a rest w os = Continue waits' arrivals' w' os' \<Longrightarrow>
     arrivals' = rest \<and> (\<exists>m. ar_result a = ReadOk m)"
  by (auto simp: handle_arrival_def handle_message_def read_request_message_def send_reader_event_def Let_def
      split: read_result.splits message.splits if_splits prod.splits sum.splits)

lemma response_round_Continue:
  assumes "response_round parse_payload h waits arrivals w os = Continue waits' arrivals' w' os'"
  shows "length arrivals' < length arrivals \<or>
    (length arrivals' = length arrivals \<and> (\<exists>d. ih_deadline h = Some d \<and> os_clock os < d \<and> os_clock os < os_clock os'))"
proof -
  obtain l w1 where rs: "hard_rss_limit_exceeded w = (l, w1)" by (cases "hard_rss_limit_exceeded w")
  from assms rs have l: "l = None" by (auto simp: response_round_def split: option.splits)
  obtain q os1 where rt: "remaining_time (ih_deadline h) os = (q, os1)" by (cases "remaining_time (ih_deadline h) os")
  have consumed: "length rest < length arrivals"
    if "arrivals = [] \<and> a = eof_arrival \<or> arrivals = a # rest"
       "handle_arrival parse_payload h waits a rest w1 os2 = Continue waits' arrivals' w' os'" for a rest os2
    using that handle_arrival_Continue [OF that(2)] by auto
  show ?thesis
  proof (cases q)
    case None
    obtain a rest os2 where ra: "recv_any arrivals os1 = (a, rest, os2)" by (cases "recv_any arrivals os1")
    have h: "handle_arrival parse_payload h waits a rest w1 os2 = Continue waits' arrivals' w' os'"
      using assms rs l rt None ra by (simp add: response_round_def)
    from ra have "arrivals = [] \<and> a = eof_arrival \<or> arrivals = a # rest"
      by (auto simp: recv_any_def split: list.splits)
    from consumed [OF this h] handle_arrival_Continue [OF h] show ?thesis by simp
  next
    case (Some remaining)
    obtain d t where d: "ih_deadline h = Some d" "now os = (t, os1)" "d = t + remaining"
      using rt Some by (auto simp: remaining_time_def checked_duration_since_def split: option.splits prod.splits if_splits)
    note nm = now_mono [OF d(2)]
    let ?wait = "if cfg_rss_hard_limit_kib (wk_config w1) \<noteq> None
                 then min remaining (cfg_rss_sample_interval (wk_config w1)) else remaining"
    obtain m os2 where rc: "recv_timeout ?wait arrivals os1 = (m, os2)" by (cases "recv_timeout ?wait arrivals os1")
    from assms rs l rt Some have r0: "remaining \<noteq> 0"
      by (cases "remaining = 0") (simp_all add: response_round_def)
    show ?thesis
    proof (cases m)
      case (Received a rest)
      have h: "handle_arrival parse_payload h waits a rest w1 os2 = Continue waits' arrivals' w' os'"
        using assms rs l rt Some rc Received r0 by (simp add: response_round_def Let_def)
      from consumed [OF _ h] recv_timeout_Received [OF rc [unfolded Received]] handle_arrival_Continue [OF h]
      show ?thesis by blast
    next
      case (TimedOut arr)
      have "arr = arrivals'" "os2 = os'"
        using assms rs l rt Some rc TimedOut r0 by (auto simp: response_round_def Let_def split: if_splits)
      with recv_timeout_TimedOut [OF rc [unfolded TimedOut]] d nm r0 show ?thesis by auto
    qed
  qed
qed

function response_loop ::
  "(json \<Rightarrow> string option) \<Rightarrow> in_hand \<Rightarrow> nat \<Rightarrow> arrival list \<Rightarrow> worker \<Rightarrow> world \<Rightarrow> response outcome" where
  "response_loop parse_payload h waits arrivals w os =
     (case response_round parse_payload h waits arrivals w os of
        Finish r \<Rightarrow> r
      | Continue waits' arrivals' w' os' \<Rightarrow> response_loop parse_payload h waits' arrivals' w' os')"
  by pat_completeness auto
termination
proof (relation "measures [\<lambda>(parse_payload, h, waits, arrivals, w, os). length arrivals,
                          \<lambda>(parse_payload, h, waits, arrivals, w, os). the (ih_deadline h) - os_clock os]",
       simp, goal_cases)
  case (1 parse_payload h waits arrivals w os waits' arrivals' w' os')
  from response_round_Continue [OF 1] show ?case by auto
qed

declare response_loop.simps [simp del]

definition read_response_with_events ::
  "(json \<Rightarrow> string option) \<Rightarrow> string \<Rightarrow> sinks \<Rightarrow> worker \<Rightarrow> world \<Rightarrow> response outcome" where
  "read_response_with_events parse_payload operation snk w os =
     (case now os of (started, os1) \<Rightarrow>
        let timeout = cfg_request_timeout (wk_config w);
            deadline = checked_add_instant os1 started timeout in
        (case wk_stdout w of
           None \<Rightarrow> (Inl (dead_error w), w, os1)
         | Some arrivals \<Rightarrow>
             (case begin_in_flight operation (w\<lparr>wk_stdout := None\<rparr>) of
                (req, w1) \<Rightarrow>
                  response_loop parse_payload
                    \<lparr>ih_operation = operation, ih_started = started, ih_timeout = timeout, ih_deadline = deadline,
                     ih_request = req, ih_sinks = snk\<rparr> 0 arrivals w1 os1)))"

definition read_response ::
  "(json \<Rightarrow> string option) \<Rightarrow> string \<Rightarrow> worker \<Rightarrow> world \<Rightarrow> response outcome" where
  "read_response parse_payload operation w os = read_response_with_events parse_payload operation no_sinks w os"

definition read_response_with_progress ::
  "(json \<Rightarrow> string option) \<Rightarrow> string \<Rightarrow> sinks \<Rightarrow> worker \<Rightarrow> world \<Rightarrow> response outcome" where
  "read_response_with_progress parse_payload operation snk w os =
     read_response_with_events parse_payload operation (snk\<lparr>sk_data := None, sk_diagnostics := None\<rparr>) w os"

text \<open>The sequence every request shares: check for cancellation, admit, send, record, read.\<close>

definition exchange ::
  "(json \<Rightarrow> string option) \<Rightarrow> string \<Rightarrow> request \<Rightarrow> bool \<Rightarrow> (worker_stats \<Rightarrow> worker_stats) \<Rightarrow> sinks \<Rightarrow> worker \<Rightarrow> world
     \<Rightarrow> response outcome" where
  "exchange parse_payload operation req import_like count snk w os =
     (case check_cancelled operation (sk_token snk) os of
        Inl e \<Rightarrow> (Inl e, w, os)
      | Inr _ \<Rightarrow>
          (case prepare_request import_like w os of
             (Inl e, w1, os1) \<Rightarrow> (Inl e, w1, os1)
           | (Inr _, w1, os1) \<Rightarrow>
               (case send_request req w1 os1 of
                  (Inl e, w2, os2) \<Rightarrow> (Inl e, w2, os2)
                | (Inr _, w2, os2) \<Rightarrow>
                    (case record_request import_like w2 os2 of (w3, os3) \<Rightarrow>
                       read_response_with_events parse_payload operation snk (upd_stats count w3) os3))))"

definition extract_response ::
  "(response \<Rightarrow> worker_error + 'r) \<Rightarrow> response outcome \<Rightarrow> 'r outcome" where
  "extract_response extract out =
     (case out of (Inl e, w, os) \<Rightarrow> (Inl e, w, os) | (Inr r, w, os) \<Rightarrow> (extract r, w, os))"

definition round_trip ::
  "(json \<Rightarrow> string option) \<Rightarrow> string \<Rightarrow> request \<Rightarrow> bool \<Rightarrow> sinks \<Rightarrow> (response \<Rightarrow> worker_error + 'r) \<Rightarrow> worker \<Rightarrow> world
     \<Rightarrow> 'r outcome" where
  "round_trip parse_payload operation req import_like snk extract w os =
     extract_response extract
       (exchange parse_payload operation req import_like id (snk\<lparr>sk_data := None, sk_diagnostics := None\<rparr>) w os)"

section \<open>Operations\<close>

text \<open>
  Each operation is an exchange and a projection of the response; any response the operation does
  not expect is a protocol error.  Payload types the supervisor only passes on are JSON.
\<close>

definition expect_response :: "string \<Rightarrow> (response \<Rightarrow> 'r option) \<Rightarrow> response \<Rightarrow> worker_error + 'r" where
  "expect_response operation select r =
     (case select r of Some x \<Rightarrow> Inr x | None \<Rightarrow> Inl (unexpected_response operation r))"

definition worker_elaborate ::
  "(json \<Rightarrow> string option) \<Rightarrow> string \<Rightarrow> json \<Rightarrow> sinks \<Rightarrow> worker \<Rightarrow> world \<Rightarrow> json outcome" where
  "worker_elaborate pp src opts snk w os =
     round_trip pp ''worker_elaborate'' (Elaborate src opts) False snk
       (expect_response ''worker_elaborate'' (\<lambda>r. case r of RElaboration x \<Rightarrow> Some x | _ \<Rightarrow> None)) w os"

definition worker_kernel_check ::
  "(json \<Rightarrow> string option) \<Rightarrow> string \<Rightarrow> json \<Rightarrow> sinks \<Rightarrow> worker \<Rightarrow> world \<Rightarrow> json outcome" where
  "worker_kernel_check pp src opts snk w os =
     round_trip pp ''worker_kernel_check'' (KernelCheck src opts (sk_progress snk \<noteq> None)) False snk
       (expect_response ''worker_kernel_check'' (\<lambda>r. case r of RKernelCheck x \<Rightarrow> Some x | _ \<Rightarrow> None)) w os"

definition worker_declaration_kinds ::
  "(json \<Rightarrow> string option) \<Rightarrow> string list \<Rightarrow> sinks \<Rightarrow> worker \<Rightarrow> world \<Rightarrow> string list outcome" where
  "worker_declaration_kinds pp names snk w os =
     round_trip pp ''worker_declaration_kinds'' (DeclarationKinds names (sk_progress snk \<noteq> None)) False snk
       (expect_response ''worker_declaration_kinds'' (\<lambda>r. case r of RStrings x \<Rightarrow> Some x | _ \<Rightarrow> None)) w os"

definition worker_declaration_names ::
  "(json \<Rightarrow> string option) \<Rightarrow> string list \<Rightarrow> sinks \<Rightarrow> worker \<Rightarrow> world \<Rightarrow> string list outcome" where
  "worker_declaration_names pp names snk w os =
     round_trip pp ''worker_declaration_names'' (DeclarationNames names (sk_progress snk \<noteq> None)) False snk
       (expect_response ''worker_declaration_names'' (\<lambda>r. case r of RStrings x \<Rightarrow> Some x | _ \<Rightarrow> None)) w os"

definition worker_infer_type ::
  "(json \<Rightarrow> string option) \<Rightarrow> string \<Rightarrow> json \<Rightarrow> sinks \<Rightarrow> worker \<Rightarrow> world \<Rightarrow> json outcome" where
  "worker_infer_type pp src opts snk w os =
     round_trip pp ''worker_infer_type'' (InferType src opts) False snk
       (expect_response ''worker_infer_type'' (\<lambda>r. case r of RMetaExpr x \<Rightarrow> Some x | _ \<Rightarrow> None)) w os"

definition worker_whnf ::
  "(json \<Rightarrow> string option) \<Rightarrow> string \<Rightarrow> json \<Rightarrow> sinks \<Rightarrow> worker \<Rightarrow> world \<Rightarrow> json outcome" where
  "worker_whnf pp src opts snk w os =
     round_trip pp ''worker_whnf'' (Whnf src opts) False snk
       (expect_response ''worker_whnf'' (\<lambda>r. case r of RMetaExpr x \<Rightarrow> Some x | _ \<Rightarrow> None)) w os"

definition worker_is_def_eq ::
  "(json \<Rightarrow> string option) \<Rightarrow> string \<Rightarrow> string \<Rightarrow> json \<Rightarrow> json \<Rightarrow> sinks \<Rightarrow> worker \<Rightarrow> world \<Rightarrow> json outcome" where
  "worker_is_def_eq pp lhs rhs transparency opts snk w os =
     round_trip pp ''worker_is_def_eq'' (IsDefEq lhs rhs transparency opts) False snk
       (expect_response ''worker_is_def_eq'' (\<lambda>r. case r of RMetaBool x \<Rightarrow> Some x | _ \<Rightarrow> None)) w os"

definition worker_describe ::
  "(json \<Rightarrow> string option) \<Rightarrow> string \<Rightarrow> sinks \<Rightarrow> worker \<Rightarrow> world \<Rightarrow> json option outcome" where
  "worker_describe pp name snk w os =
     round_trip pp ''worker_describe'' (Describe name) False snk
       (expect_response ''worker_describe'' (\<lambda>r. case r of RDeclaration x \<Rightarrow> Some x | _ \<Rightarrow> None)) w os"

definition worker_search_declarations ::
  "(json \<Rightarrow> string option) \<Rightarrow> json \<Rightarrow> sinks \<Rightarrow> worker \<Rightarrow> world \<Rightarrow> json outcome" where
  "worker_search_declarations pp search snk w os =
     round_trip pp ''worker_search_declarations'' (SearchDeclarations search) False snk
       (expect_response ''worker_search_declarations'' (\<lambda>r. case r of RDeclarationSearch x \<Rightarrow> Some x | _ \<Rightarrow> None)) w os"

definition worker_declaration_type ::
  "(json \<Rightarrow> string option) \<Rightarrow> string \<Rightarrow> nat \<Rightarrow> sinks \<Rightarrow> worker \<Rightarrow> world \<Rightarrow> json option outcome" where
  "worker_declaration_type pp name limit snk w os =
     round_trip pp ''worker_declaration_type'' (DeclarationType name limit) False snk
       (expect_response ''worker_declaration_type'' (\<lambda>r. case r of RDeclarationType x \<Rightarrow> Some x | _ \<Rightarrow> None)) w os"

definition worker_inspect_declaration ::
  "(json \<Rightarrow> string option) \<Rightarrow> json \<Rightarrow> sinks \<Rightarrow> worker \<Rightarrow> world \<Rightarrow> json outcome" where
  "worker_inspect_declaration pp req snk w os =
     round_trip pp ''worker_inspect_declaration'' (InspectDeclaration req) False snk
       (expect_response ''worker_inspect_declaration'' (\<lambda>r. case r of RDeclarationInspection x \<Rightarrow> Some x | _ \<Rightarrow> None)) w os"

definition worker_attempt_proof ::
  "(json \<Rightarrow> string option) \<Rightarrow> json \<Rightarrow> json \<Rightarrow> sinks \<Rightarrow> worker \<Rightarrow> world \<Rightarrow> json outcome" where
  "worker_attempt_proof pp req opts snk w os =
     round_trip pp ''worker_attempt_proof'' (AttemptProof req opts (sk_progress snk \<noteq> None)) False snk
       (expect_response ''worker_attempt_proof'' (\<lambda>r. case r of RProofAttempt x \<Rightarrow> Some x | _ \<Rightarrow> None)) w os"

definition worker_describe_bulk ::
  "(json \<Rightarrow> string option) \<Rightarrow> string list \<Rightarrow> sinks \<Rightarrow> worker \<Rightarrow> world \<Rightarrow> json list outcome" where
  "worker_describe_bulk pp names snk w os =
     round_trip pp ''worker_describe_bulk'' (DescribeBulk names (sk_progress snk \<noteq> None)) False snk
       (expect_response ''worker_describe_bulk'' (\<lambda>r. case r of RDeclarationBulk x \<Rightarrow> Some x | _ \<Rightarrow> None)) w os"

definition worker_process_module_query ::
  "(json \<Rightarrow> string option) \<Rightarrow> string \<Rightarrow> json \<Rightarrow> json \<Rightarrow> sinks \<Rightarrow> worker \<Rightarrow> world \<Rightarrow> json outcome" where
  "worker_process_module_query pp src query opts snk w os =
     round_trip pp ''worker_process_module_query'' (ProcessModuleQuery src query opts) False snk
       (expect_response ''worker_process_module_query'' (\<lambda>r. case r of RProcessModuleQuery x \<Rightarrow> Some x | _ \<Rightarrow> None)) w os"

definition worker_clear_module_snapshot_cache ::
  "(json \<Rightarrow> string option) \<Rightarrow> sinks \<Rightarrow> worker \<Rightarrow> world \<Rightarrow> json outcome" where
  "worker_clear_module_snapshot_cache pp snk w os =
     round_trip pp ''worker_clear_module_snapshot_cache'' (ClearModuleSnapshotCache) False snk
       (expect_response ''worker_clear_module_snapshot_cache'' (\<lambda>r. case r of RModuleSnapshotCacheCleared x \<Rightarrow> Some x | _ \<Rightarrow> None)) w os"

definition worker_json_command ::
  "(json \<Rightarrow> string option) \<Rightarrow> string \<Rightarrow> string \<Rightarrow> sinks \<Rightarrow> worker \<Rightarrow> world \<Rightarrow> string outcome" where
  "worker_json_command pp export_name request_json snk w os =
     round_trip pp ''worker_json_command'' (JsonCommand export_name request_json) False snk
       (expect_response ''worker_json_command'' (\<lambda>r. case r of RJsonCommand x \<Rightarrow> Some x | _ \<Rightarrow> None)) w os"

definition worker_capability_metadata ::
  "(json \<Rightarrow> string option) \<Rightarrow> string \<Rightarrow> string \<Rightarrow> sinks \<Rightarrow> worker \<Rightarrow> world \<Rightarrow> json outcome" where
  "worker_capability_metadata pp export_name request_json snk w os =
     round_trip pp ''worker_capability_metadata'' (CapabilityMetadata export_name request_json) False snk
       (\<lambda>r. case r of
          RCapabilityMetadata metadata \<Rightarrow> Inr metadata
        | RCapabilityMetadataMalformed msg \<Rightarrow> Inl (ECapabilityMetadataMalformed msg)
        | _ \<Rightarrow> Inl (unexpected_response ''worker_capability_metadata'' r)) w os"

definition worker_capability_doctor ::
  "(json \<Rightarrow> string option) \<Rightarrow> string \<Rightarrow> string \<Rightarrow> sinks \<Rightarrow> worker \<Rightarrow> world \<Rightarrow> json outcome" where
  "worker_capability_doctor pp export_name request_json snk w os =
     round_trip pp ''worker_capability_doctor'' (CapabilityDoctor export_name request_json) False snk
       (\<lambda>r. case r of
          RCapabilityDoctor report \<Rightarrow> Inr report
        | RCapabilityDoctorMalformed msg \<Rightarrow> Inl (ECapabilityDoctorMalformed msg)
        | _ \<Rightarrow> Inl (unexpected_response ''worker_capability_doctor'' r)) w os"

text \<open>\<open>health\<close> and the fixture requests run without a cancellation token; the manifest path comes from
  building the fixture, which is outside the supervisor.\<close>

definition health :: "(json \<Rightarrow> string option) \<Rightarrow> worker \<Rightarrow> world \<Rightarrow> unit outcome" where
  "health pp w os =
     extract_response (expect_response ''health'' (\<lambda>r. case r of RHealthOk \<Rightarrow> Some () | _ \<Rightarrow> None))
       (exchange pp ''health'' Health False id no_sinks w os)"

definition load_fixture_capability :: "(json \<Rightarrow> string option) \<Rightarrow> string \<Rightarrow> worker \<Rightarrow> world \<Rightarrow> unit outcome" where
  "load_fixture_capability pp manifest_path w os =
     extract_response
       (expect_response ''load_fixture_capability'' (\<lambda>r. case r of RCapabilityLoaded \<Rightarrow> Some () | _ \<Rightarrow> None))
       (exchange pp ''load_fixture_capability'' (LoadFixtureCapability manifest_path) True id no_sinks w os)"

definition call_fixture_mul ::
  "(json \<Rightarrow> string option) \<Rightarrow> string \<Rightarrow> nat \<Rightarrow> nat \<Rightarrow> worker \<Rightarrow> world \<Rightarrow> nat outcome" where
  "call_fixture_mul pp manifest_path lhs rhs w os =
     extract_response (expect_response ''call_fixture_mul'' (\<lambda>r. case r of RU64 v \<Rightarrow> Some v | _ \<Rightarrow> None))
       (exchange pp ''call_fixture_mul'' (CallFixtureMul manifest_path lhs rhs) True id no_sinks w os)"

definition trigger_lean_panic_fixture ::
  "(json \<Rightarrow> string option) \<Rightarrow> string \<Rightarrow> worker \<Rightarrow> world \<Rightarrow> worker_exit outcome" where
  "trigger_lean_panic_fixture pp manifest_path w os =
     (case exchange pp ''trigger_lean_panic'' (TriggerLeanPanic manifest_path) True id no_sinks w os of
        (Inr r, w1, os1) \<Rightarrow> (Inl (unexpected_response ''trigger_lean_panic'' r), w1, os1)
      | (Inl (EChildPanicOrAbort ex), w1, os1) \<Rightarrow> (Inr ex, w1, os1)
      | (Inl e, w1, os1) \<Rightarrow> (Inl e, w1, os1))"

text \<open>Requests whose rows go to a value sink.\<close>

definition row_sinks :: "nat option \<Rightarrow> (data_row list \<Rightarrow> string option) option \<Rightarrow> sinks" where
  "row_sinks token sink = no_sinks\<lparr>sk_token := token, sk_data := map_option ValueTarget sink\<rparr>"

definition emit_test_rows ::
  "(json \<Rightarrow> string option) \<Rightarrow> string list \<Rightarrow> nat option \<Rightarrow> (data_row list \<Rightarrow> string option) option \<Rightarrow> worker \<Rightarrow> world
     \<Rightarrow> nat outcome" where
  "emit_test_rows pp streams token sink w os =
     extract_response (expect_response ''emit_test_rows'' (\<lambda>r. case r of RRowsComplete n \<Rightarrow> Some n | _ \<Rightarrow> None))
       (exchange pp ''emit_test_rows'' (EmitTestRows streams) False id (row_sinks token sink) w os)"

definition emit_test_rows_then_exit ::
  "(json \<Rightarrow> string option) \<Rightarrow> nat option \<Rightarrow> (data_row list \<Rightarrow> string option) option \<Rightarrow> worker \<Rightarrow> world \<Rightarrow> unit outcome" where
  "emit_test_rows_then_exit pp token sink w os =
     extract_response (\<lambda>r. Inl (unexpected_response ''emit_test_rows_then_exit'' r))
       (exchange pp ''emit_test_rows_then_exit'' EmitTestRowsThenExit False id (row_sinks token sink) w os)"

definition emit_test_rows_then_panic ::
  "(json \<Rightarrow> string option) \<Rightarrow> nat option \<Rightarrow> (data_row list \<Rightarrow> string option) option \<Rightarrow> worker \<Rightarrow> world \<Rightarrow> unit outcome" where
  "emit_test_rows_then_panic pp token sink w os =
     extract_response (\<lambda>r. Inl (unexpected_response ''emit_test_rows_then_panic'' r))
       (exchange pp ''emit_test_rows_then_panic'' EmitTestRowsThenPanic False id (row_sinks token sink) w os)"

definition count_stream_request :: "worker_stats \<Rightarrow> worker_stats" where
  "count_stream_request s = s\<lparr>st_stream_requests := sat_inc (st_stream_requests s)\<rparr>"

definition worker_run_data_stream ::
  "(json \<Rightarrow> string option) \<Rightarrow> string \<Rightarrow> string \<Rightarrow> data_target \<Rightarrow> sinks \<Rightarrow> worker \<Rightarrow> world \<Rightarrow> stream_summary outcome" where
  "worker_run_data_stream pp export_name request_json rows snk w os =
     extract_response
       (\<lambda>r. case r of
          RStreamComplete summary \<Rightarrow> Inr summary
        | RStreamExportFailed status_byte \<Rightarrow> Inl (EStreamExportFailed status_byte)
        | RStreamCallbackFailed status_byte description \<Rightarrow> Inl (EStreamCallbackFailed status_byte description)
        | RStreamRowMalformed msg \<Rightarrow> Inl (EStreamRowMalformed msg)
        | _ \<Rightarrow> Inl (unexpected_response ''worker_run_data_stream'' r))
       (exchange pp ''worker_run_data_stream'' (RunDataStream export_name request_json (sk_progress snk \<noteq> None)) False
          count_stream_request (snk\<lparr>sk_data := Some rows\<rparr>) w os)"

text \<open>The collector of \<open>worker_list_declarations_strings\<close> sees the rows delivered during the request;
  \<open>decode_name\<close> is \<open>serde_json\<close> reading a string.\<close>

fun collect_names :: "(json \<Rightarrow> string + string) \<Rightarrow> data_row list \<Rightarrow> string option \<times> string list" where
  "collect_names decode_name [] = (None, [])"
| "collect_names decode_name (row # rows) =
     (case collect_names decode_name rows of (err, names) \<Rightarrow>
        (case decode_name (dr_payload row) of
           Inr name \<Rightarrow> (err, name # names)
         | Inl e \<Rightarrow> (Some e, names)))"

definition worker_list_declarations_strings ::
  "(json \<Rightarrow> string option) \<Rightarrow> (json \<Rightarrow> string + string) \<Rightarrow> json \<Rightarrow> sinks \<Rightarrow> worker \<Rightarrow> world \<Rightarrow> string list outcome" where
  "worker_list_declarations_strings pp decode_name flt snk w os =
     (case exchange pp ''worker_list_declarations_strings'' (ListDeclarationsStrings flt (sk_progress snk \<noteq> None)) False
             id (snk\<lparr>sk_data := Some (RawTarget (\<lambda>_. None)), sk_diagnostics := None\<rparr>) w os of
        (Inl e, w1, os1) \<Rightarrow> (Inl e, w1, os1)
      | (Inr r, w1, os1) \<Rightarrow>
          (case collect_names decode_name (drop (length (os_rows os)) (os_rows os1)) of
             (Some e, _) \<Rightarrow> (Inl (EProtocol (PText e)), w1, os1)
           | (None, names) \<Rightarrow>
               (case r of
                  RRowsComplete count \<Rightarrow>
                    if clamp_u64 (length names) \<noteq> count then (Inl (EProtocol (PText ''row count mismatch'')), w1, os1)
                    else (Inr names, w1, os1)
                | _ \<Rightarrow> (Inl (unexpected_response ''worker_list_declarations_strings'' r), w1, os1))))"

section \<open>Degraded verdicts\<close>

text \<open>What a read-only request answers: the child's result, or a verdict the supervisor makes up after
  absorbing a child abort.\<close>

datatype ('a, 'd) verdict = FromWorker 'a | Degraded 'd

record degraded_row =
  dgr_id :: string
  dgr_target :: json
  dgr_status :: verification_status

record verification_batch =
  vb_targets :: "(string \<times> json) list"
  vb_json :: json

definition degraded_declaration_verification_batch_result :: "verification_batch \<Rightarrow> degraded_row list" where
  "degraded_declaration_verification_batch_result req =
     map (\<lambda>(i, target). \<lparr>dgr_id = i, dgr_target = target, dgr_status = BudgetExceeded\<rparr>) (vb_targets req)"

text \<open>A degraded batch query answers every selector and carries the resource facts.\<close>

definition degraded_query_batch_outcome ::
  "(json \<Rightarrow> string) \<Rightarrow> json list \<Rightarrow> resource_facts \<Rightarrow> (string \<times> string) list \<times> resource_facts" where
  "degraded_query_batch_outcome selector_id selectors facts =
     (map (\<lambda>s. (selector_id s,
        ''worker aborted during module query; result degraded under resource pressure'')) selectors, facts)"

definition absorb_child_abort :: "string \<Rightarrow> 'd \<Rightarrow> 'a outcome \<Rightarrow> ('a, 'd) verdict outcome" where
  "absorb_child_abort operation degraded out =
     (case out of
        (Inr x, w, os) \<Rightarrow> (Inr (FromWorker x), w, os)
      | (Inl e, w, os) \<Rightarrow>
          (case recover_child_abort operation e w os of
             (Inl e', w1, os1) \<Rightarrow> (Inl e', w1, os1)
           | (Inr _, w1, os1) \<Rightarrow> (Inr (Degraded degraded), w1, os1)))"

definition worker_verify_declaration ::
  "(json \<Rightarrow> string option) \<Rightarrow> json \<Rightarrow> json \<Rightarrow> sinks \<Rightarrow> worker \<Rightarrow> world \<Rightarrow> (json, verification_status) verdict outcome" where
  "worker_verify_declaration pp req opts snk w os =
     absorb_child_abort ''worker_verify_declaration'' BudgetExceeded
       (round_trip pp ''worker_verify_declaration'' (VerifyDeclaration req opts (sk_progress snk \<noteq> None)) False snk
          (expect_response ''worker_verify_declaration''
             (\<lambda>r. case r of RDeclarationVerification x \<Rightarrow> Some x | _ \<Rightarrow> None)) w os)"

definition worker_verify_declaration_batch ::
  "(json \<Rightarrow> string option) \<Rightarrow> verification_batch \<Rightarrow> json \<Rightarrow> sinks \<Rightarrow> worker \<Rightarrow> world
     \<Rightarrow> (json, degraded_row list) verdict outcome" where
  "worker_verify_declaration_batch pp req opts snk w os =
     absorb_child_abort ''worker_verify_declaration_batch'' (degraded_declaration_verification_batch_result req)
       (round_trip pp ''worker_verify_declaration_batch''
          (VerifyDeclarationBatch (vb_json req) opts (sk_progress snk \<noteq> None)) False snk
          (expect_response ''worker_verify_declaration_batch''
             (\<lambda>r. case r of RDeclarationVerificationBatch x \<Rightarrow> Some x | _ \<Rightarrow> None)) w os)"

definition worker_process_module_query_batch ::
  "(json \<Rightarrow> string option) \<Rightarrow> (json \<Rightarrow> string) \<Rightarrow> string \<Rightarrow> json list \<Rightarrow> json \<Rightarrow> json \<Rightarrow> sinks \<Rightarrow> worker \<Rightarrow> world
     \<Rightarrow> (json, (string \<times> string) list \<times> resource_facts) verdict outcome" where
  "worker_process_module_query_batch pp selector_id src selectors budgets opts snk w os =
     (case round_trip pp ''worker_process_module_query_batch'' (ProcessModuleQueryBatch src selectors budgets opts)
             False snk
             (expect_response ''worker_process_module_query_batch''
                (\<lambda>r. case r of RProcessModuleQueryBatch x \<Rightarrow> Some x | _ \<Rightarrow> None)) w os of
        (Inr x, w1, os1) \<Rightarrow> (Inr (FromWorker x), w1, os1)
      | (Inl e, w1, os1) \<Rightarrow>
          let facts = (case resource_exhausted_facts e of
                 Some f \<Rightarrow> f
               | None \<Rightarrow> worker_resource_facts ''worker_child_abort'' True (Some ''worker_process_module_query_batch'')
                           (wk_stats w1) (st_last_rss_kib (wk_stats w1)) None None)
          in absorb_child_abort ''worker_process_module_query_batch''
               (degraded_query_batch_outcome selector_id selectors facts)
               (Inl e :: worker_error + json, w1, os1))"

section \<open>A request in progress\<close>

definition serving :: "nat \<Rightarrow> in_hand \<Rightarrow> worker \<Rightarrow> bool" where
  "serving p h w \<longleftrightarrow>
     alive p w \<and> wk_stdout w = None \<and> if_generation (ih_request h) = wk_generation w \<and>
     (wk_state w = SBusy (ih_request h) \<or> wk_state w = SStreaming (ih_request h))"

text \<open>How a request may leave the worker: idle in the same generation with its reader back after an
  answer; after an error in the same generation (alive or gone) or served by a replacement.\<close>

definition settled :: "nat \<Rightarrow> worker \<Rightarrow> response outcome \<Rightarrow> bool" where
  "settled p w out \<longleftrightarrow>
     (case out of (r, w', os') \<Rightarrow>
        current_request_id (wk_state w') = None \<and> wk_next_request_id w' = wk_next_request_id w \<and>
        (case r of
           Inr x \<Rightarrow> alive p w' \<and> wk_stdout w' \<noteq> None \<and> wk_generation w' = wk_generation w \<and>
                    wk_state w' = SIdle (wk_generation w) \<and> (\<forall>c m. x \<noteq> RError c m)
         | Inl e \<Rightarrow> (wk_generation w' = wk_generation w \<and> (alive p w' \<or> gone w')) \<or>
                    (wk_generation w' = sat_inc (wk_generation w) \<and> (\<exists>q. alive q w') \<and> wk_stdout w' \<noteq> None)))"

lemma finish_in_flight_simps [simp]:
  "wk_child (finish_in_flight w) = wk_child w" "wk_stdin (finish_in_flight w) = wk_stdin w"
  "wk_stdout (finish_in_flight w) = wk_stdout w" "wk_last_exit (finish_in_flight w) = wk_last_exit w"
  "wk_config (finish_in_flight w) = wk_config w" "wk_generation (finish_in_flight w) = wk_generation w"
  "wk_next_request_id (finish_in_flight w) = wk_next_request_id w" "wk_stats (finish_in_flight w) = wk_stats w"
  "wk_budget (finish_in_flight w) = wk_budget w" "wk_restart_window (finish_in_flight w) = wk_restart_window w"
  "alive p (finish_in_flight w) = alive p w" "gone (finish_in_flight w) = gone w"
  "current_request_id (wk_state (finish_in_flight w)) = None"
  by (auto simp: finish_in_flight_def alive_def gone_def split: supervisor_state.splits)

lemma mark_streaming_simps [simp]:
  "wk_child (mark_current_request_streaming w) = wk_child w"
  "wk_stdout (mark_current_request_streaming w) = wk_stdout w"
  "wk_generation (mark_current_request_streaming w) = wk_generation w"
  "wk_next_request_id (mark_current_request_streaming w) = wk_next_request_id w"
  "wk_stats (mark_current_request_streaming w) = wk_stats w"
  "wk_config (mark_current_request_streaming w) = wk_config w"
  "alive p (mark_current_request_streaming w) = alive p w"
  by (auto simp: mark_current_request_streaming_def alive_def split: supervisor_state.splits)

lemma finish_serving: "serving p h w \<Longrightarrow> wk_state (finish_in_flight w) = SIdle (wk_generation w)"
  by (auto simp: serving_def finish_in_flight_def)

lemma serving_mark [simp]: "serving p h w \<Longrightarrow> serving p h (mark_current_request_streaming w)"
  by (auto simp: serving_def mark_current_request_streaming_def alive_def)

lemma serving_upd_stats [simp]: "serving p h (upd_stats f w) = serving p h w"
  by (simp add: serving_def)

lemma child_rss_kib_cases:
  assumes "child_rss_kib w = (sample, w')"
  shows "alive p w' = alive p w" "wk_stdout w' = wk_stdout w" "wk_state w' = wk_state w"
    "wk_generation w' = wk_generation w" "wk_next_request_id w' = wk_next_request_id w"
    "wk_config w' = wk_config w" "wk_budget w' = wk_budget w" "wk_stats w' = wk_stats w" "gone w' = gone w"
    "wk_open_session_keys w' = wk_open_session_keys w" "wk_restart_window w' = wk_restart_window w"
  using assms by (auto simp: child_rss_kib_def child_rss_def alive_def gone_def split: option.splits list.splits)

lemma note_rss_upd: "\<exists>f. note_rss sample w = upd_stats f w"
  by (auto simp: note_rss_def split: option.splits)

lemma hard_rss_cases:
  assumes "hard_rss_limit_exceeded w = (l, w')"
  shows "serving p h w' = serving p h w" "wk_generation w' = wk_generation w"
    "wk_next_request_id w' = wk_next_request_id w" "wk_config w' = wk_config w"
proof -
  have "w' = w \<or> (\<exists>sample w1 f. child_rss_kib w = (sample, w1) \<and> w' = upd_stats f w1)"
    using assms note_rss_upd by (auto simp: hard_rss_limit_exceeded_def split: option.splits prod.splits)
  then show "serving p h w' = serving p h w" "wk_generation w' = wk_generation w"
    "wk_next_request_id w' = wk_next_request_id w" "wk_config w' = wk_config w"
    by (auto simp: serving_def child_rss_kib_cases)
qed

lemma record_stream_upd:
  "\<exists>f os'. record_stream_failure started waits w os = (upd_stats f w, os')"
  "\<exists>f os'. record_stream_success started w os = (upd_stats f w, os')"
  by (auto simp: record_stream_failure_def record_stream_success_def split: prod.splits)

lemma terminalize_failure_cases:
  obtains f os' where "terminalize_request_failure streaming started waits w os = (finish_in_flight (upd_stats f w), os')"
proof (cases streaming)
  case True
  obtain f os' where "record_stream_failure started waits w os = (upd_stats f w, os')" using record_stream_upd by blast
  with True show thesis by (intro that [of f os']) (simp add: terminalize_request_failure_def)
next
  case False
  have "w = upd_stats id w" by (simp add: upd_stats_def)
  with False show thesis by (intro that [of id os]) (simp add: terminalize_request_failure_def)
qed

lemma terminalize_response_cases:
  obtains f os' where "terminalize_request_response r streaming started waits w os = (finish_in_flight (upd_stats f w), os')"
proof (cases streaming)
  case True
  obtain f os1 where 1: "record_stream_failure started waits w os = (upd_stats f w, os1)" using record_stream_upd by blast
  obtain g os2 where 2: "record_stream_success started w os = (upd_stats g w, os2)" using record_stream_upd by blast
  from True 1 2 show thesis
    by (cases "completes_stream r") (auto simp: terminalize_request_response_def intro: that)
next
  case False
  have "w = upd_stats id w" by (simp add: upd_stats_def)
  with False show thesis by (intro that [of id os]) (simp add: terminalize_request_response_def)
qed

lemma fail_request_settled:
  assumes "alive p w"
  shows "settled p w (fail_request h waits e w os)"
  by (rule terminalize_failure_cases [of "ih_streaming h" "ih_started h" waits w os])
     (use assms in \<open>simp add: fail_request_def settled_def\<close>)

lemma kill_only_reasons [simp]:
  "stop_intent (RequestTimeout op d) = IntentKillOnly" "stop_intent (Cancelled op) = IntentKillOnly"
  "stop_intent (RssHardLimit op c l s) = IntentKillOnly" "stop_intent (ChildAbort op a b) = IntentKillOnly"
  by simp_all

lemma abandon_request_settled:
  assumes a: "alive p w" and k: "stop_intent reason = IntentKillOnly"
  shows "settled p w (abandon_request h waits reason failure w os)"
proof -
  obtain f os1 where st: "(if ih_streaming h then record_stream_failure (ih_started h) waits w os else (w, os)) =
      (upd_stats f w, os1)"
    using record_stream_upd(1) [of "ih_started h" waits w os]
    by (cases "ih_streaming h") (auto intro: that [of id os] simp: upd_stats_def)
  obtain r w2 os2 where rs: "restart_with_reason reason (upd_stats f w) os1 = (r, w2, os2)"
    by (cases "restart_with_reason reason (upd_stats f w) os1")
  have ra: "restartable p (stop_intent reason) (upd_stats f w)" using a k by (simp add: restartable_def)
  note sp = restart_spec [OF ra rs]
  show ?thesis
    using st rs sp a by (cases r) (auto simp: abandon_request_def settled_def Let_def)
qed

lemma settled_trans:
  "settled p w1 out \<Longrightarrow> wk_generation w1 = wk_generation w \<Longrightarrow> wk_next_request_id w1 = wk_next_request_id w \<Longrightarrow>
     settled p w out"
  by (auto simp: settled_def split: sum.splits)

lemma handle_terminal_settled:
  assumes s: "serving p h (w\<lparr>wk_stdout := None\<rparr>)" and o: "wk_stdout w \<noteq> None"
  shows "settled p w (handle_terminal h waits m w os)"
proof -
  have a: "alive p w" using s by (simp add: serving_def)
  have fi: "wk_state (finish_in_flight (upd_stats f w)) = SIdle (wk_generation w)" for f
    using s by (auto simp: serving_def finish_in_flight_def)
  have ok: "settled p w (case terminalize_request_response r (ih_streaming h) (ih_started h) waits w os of
                     (w1, os1) \<Rightarrow> (Inr r, w1, os1))" if "\<forall>c m. r \<noteq> RError c m" for r
    by (rule terminalize_response_cases [of r "ih_streaming h" "ih_started h" waits w os])
       (use a o fi that in \<open>simp add: settled_def\<close>)
  show ?thesis
    using fail_request_settled [OF a] ok
    by (cases m) (auto simp: handle_terminal_def split: response.splits)
qed

lemma record_exit_error_cases:
  assumes a: "alive p w" and r: "record_exit_error w os = (e, w', os')"
  shows "wk_generation w' = wk_generation w" "wk_next_request_id w' = wk_next_request_id w"
    "alive p w' \<or> gone w'" "current_request_id (wk_state w') = None"
    "gone w' \<Longrightarrow> p \<in> set (os_reaped os') \<and> (\<exists>ex. wk_last_exit w' = Some ex \<and> e = exit_error ex)"
    "alive p w' \<Longrightarrow> e = EWait"
proof -
  obtain c where c: "wk_child w = Some c" "cp_pid c = p" "wk_last_exit w = None" "wk_stdin w"
    using a by (auto simp: alive_def)
  let ?w = "w\<lparr>wk_state := SReaping (wk_generation w)\<rparr>"
  have "(cp_wait c = None \<and> e = EWait \<and> w' = ?w \<and> os' = os) \<or>
    (\<exists>st ex. cp_wait c = Some st \<and> finalize_child_exit st ?w = (ex, w') \<and> e = exit_error ex \<and>
       os' = (sleep 0 os)\<lparr>os_reaped := os_reaped os @ [p]\<rparr>)"
    using r c by (auto simp: record_exit_error_def wait_for_exit_def wait_proc_def Let_def split: option.splits prod.splits)
  then have "wk_generation w' = wk_generation w \<and> wk_next_request_id w' = wk_next_request_id w \<and>
    (alive p w' \<or> gone w') \<and> current_request_id (wk_state w') = None \<and>
    (gone w' \<longrightarrow> p \<in> set (os_reaped os') \<and> (\<exists>ex. wk_last_exit w' = Some ex \<and> e = exit_error ex)) \<and>
    (alive p w' \<longrightarrow> e = EWait)"
  proof (elim disjE exE conjE)
    assume "cp_wait c = None" "e = EWait" "w' = ?w" "os' = os"
    with a show ?thesis by (auto simp: gone_def alive_def)
  next
    fix st ex assume f: "finalize_child_exit st ?w = (ex, w')" and "e = exit_error ex"
      "os' = (sleep 0 os)\<lparr>os_reaped := os_reaped os @ [p]\<rparr>"
    with finalize_gone [OF f] show ?thesis by (auto simp: life_frame_def gone_def alive_def)
  qed
  then show "wk_generation w' = wk_generation w" "wk_next_request_id w' = wk_next_request_id w"
    "alive p w' \<or> gone w'" "current_request_id (wk_state w') = None"
    "gone w' \<Longrightarrow> p \<in> set (os_reaped os') \<and> (\<exists>ex. wk_last_exit w' = Some ex \<and> e = exit_error ex)"
    "alive p w' \<Longrightarrow> e = EWait" by auto
qed

lemma handle_read_error_settled:
  assumes a: "alive p w"
  shows "settled p w (handle_read_error h waits err w os)"
proof -
  obtain f os1 where t: "terminalize_request_failure (ih_streaming h) (ih_started h) waits w os =
      (finish_in_flight (upd_stats f w), os1)" by (rule terminalize_failure_cases)
  have a1: "alive p (finish_in_flight (upd_stats f w))" using a by simp
  obtain e w2 os2 where r: "record_exit_error (finish_in_flight (upd_stats f w)) os1 = (e, w2, os2)"
    by (cases "record_exit_error (finish_in_flight (upd_stats f w)) os1")
  from record_exit_error_cases [OF a1 r] t r a show ?thesis
    by (auto simp: handle_read_error_def settled_def)
qed

lemma handle_message_step:
  assumes s: "serving p h w"
  shows "case handle_message parse_payload h waits m rest w os of
           Finish out \<Rightarrow> settled p w out
         | Continue waits' arrivals' w' os' \<Rightarrow>
             arrivals' = rest \<and> serving p h w' \<and> wk_generation w' = wk_generation w \<and>
             wk_next_request_id w' = wk_next_request_id w"
proof -
  have a: "alive p w" "alive p (mark_current_request_streaming w)" using s by (simp_all add: serving_def)
  have f: "settled p w (fail_request h waits e (mark_current_request_streaming w) os')" for e os'
    by (rule settled_trans [OF fail_request_settled [OF a(2)]]) simp_all
  have f0: "settled p w (fail_request h waits e w os')" for e os' by (rule fail_request_settled [OF a(1)])
  have c: "settled p w (cancel_request h waits (mark_current_request_streaming w) os')" for os'
    unfolding cancel_request_def
    by (rule settled_trans [OF abandon_request_settled [OF a(2)]]) simp_all
  have c2: "settled p w (cancel_request h waits (upd_stats g (mark_current_request_streaming w)) os')" for g os'
    unfolding cancel_request_def
    by (rule settled_trans [OF abandon_request_settled]) (use a in simp_all)
  show ?thesis
    using s f f0 c c2
    by (cases m) (auto simp: handle_message_def Let_def split: prod.splits sum.splits)
qed

text \<open>The reader's tags always match the request in hand, so no event is taken for stale.\<close>

lemma read_request_message_tags:
  "read_request_message g i a rest = Some ev \<Longrightarrow> ev_generation ev = g \<and> ev_request_id ev = i"
  by (auto simp: read_request_message_def send_reader_event_def split: read_result.splits message.splits if_splits)

lemma serving_not_stale:
  assumes "serving p h w" and "read_request_message (if_generation (ih_request h)) (Some (if_id (ih_request h))) a rest = Some ev"
  shows "ev_generation ev = wk_generation w"
    and "\<not> (\<exists>i. ev_request_id ev = Some i \<and> current_request_id (wk_state w) \<noteq> Some i)"
  using assms read_request_message_tags [OF assms(2)] by (auto simp: serving_def)

definition step_ok :: "nat \<Rightarrow> in_hand \<Rightarrow> worker \<Rightarrow> step \<Rightarrow> bool" where
  "step_ok p h w st \<longleftrightarrow>
     (case st of
        Finish out \<Rightarrow> settled p w out
      | Continue waits' arrivals' w' os' \<Rightarrow>
          serving p h w' \<and> wk_generation w' = wk_generation w \<and> wk_next_request_id w' = wk_next_request_id w)"

lemma step_ok_trans:
  "step_ok p h w1 st \<Longrightarrow> wk_generation w1 = wk_generation w \<Longrightarrow> wk_next_request_id w1 = wk_next_request_id w \<Longrightarrow>
     step_ok p h w st"
  by (auto simp: step_ok_def split: step.splits intro: settled_trans)

lemma handle_arrival_step:
  assumes s: "serving p h w"
  shows "step_ok p h w (handle_arrival parse_payload h waits a rest w os)"
proof -
  let ?g = "if_generation (ih_request h)" and ?i = "Some (if_id (ih_request h))"
  have al: "alive p w" using s by (simp add: serving_def)
  show ?thesis
  proof (cases "read_request_message ?g ?i a rest")
    case None
    with al show ?thesis by (simp add: handle_arrival_def step_ok_def settled_def)
  next
    case (Some ev)
    let ?waits = "sat_add waits (ev_backpressure_waits ev)"
    let ?w = "upd_stats (\<lambda>s. s\<lparr>st_backpressure_waits := sat_add (st_backpressure_waits s) (ev_backpressure_waits ev)\<rparr>) w"
    have s1: "serving p h ?w" using s by simp
    note ns = serving_not_stale [OF s Some]
    have eq: "handle_arrival parse_payload h waits a rest w os =
       (case ev of
          EvMessage _ _ m _ \<Rightarrow> handle_message parse_payload h ?waits m rest ?w os
        | EvTerminal _ _ m arrivals _ \<Rightarrow> Finish (handle_terminal h ?waits m (?w\<lparr>wk_stdout := Some arrivals\<rparr>) os)
        | EvReadError _ _ err _ \<Rightarrow> Finish (handle_read_error h ?waits err ?w os))"
      unfolding handle_arrival_def Some option.case if_not_P [OF ns(2)]
      using ns(1) by (simp add: Let_def)
    have "step_ok p h ?w (handle_arrival parse_payload h waits a rest w os)"
    proof (cases ev)
      case (EvMessage g i m n)
      with eq handle_message_step [OF s1, where parse_payload = parse_payload and waits = ?waits and m = m and rest = rest and os = os] show ?thesis
        by (auto simp: step_ok_def split: step.splits)
    next
      case (EvTerminal g i m arrivals n)
      let ?v = "?w\<lparr>wk_stdout := Some arrivals\<rparr>"
      have "settled p ?v (handle_terminal h ?waits m ?v os)"
        by (rule handle_terminal_settled) (use s1 in \<open>simp_all add: serving_def\<close>)
      then have "settled p ?w (handle_terminal h ?waits m ?v os)" by (rule settled_trans) simp_all
      with eq EvTerminal show ?thesis by (simp add: step_ok_def)
    next
      case (EvReadError g i err n)
      have "settled p ?w (handle_read_error h ?waits err ?w os)"
        by (rule handle_read_error_settled) (use al in simp)
      with eq EvReadError show ?thesis by (simp add: step_ok_def)
    qed
    then show ?thesis by (rule step_ok_trans) simp_all
  qed
qed

lemma response_round_step:
  assumes s: "serving p h w"
  shows "step_ok p h w (response_round parse_payload h waits arrivals w os)"
proof -
  obtain l w1 where rs: "hard_rss_limit_exceeded w = (l, w1)" by (cases "hard_rss_limit_exceeded w")
  note hc = hard_rss_cases [OF rs]
  have s1: "serving p h w1" using hc(1) [of p h] s by simp
  then have a1: "alive p w1" by (simp add: serving_def)
  have ab: "settled p w1 (time_out_request h waits w1 os')"
    "settled p w1 (exceed_rss_request h waits c lim w1 os')" for os' c lim
    unfolding time_out_request_def exceed_rss_request_def Let_def
    by (rule abandon_request_settled [OF a1], simp)+
  note ha = handle_arrival_step [OF s1, of parse_payload waits]
  have "step_ok p h w1 (response_round parse_payload h waits arrivals w os)"
  proof (cases l)
    case (Some x)
    with rs ab(2) show ?thesis by (cases x) (simp add: response_round_def step_ok_def)
  next
    case None
    obtain q os1 where rt: "remaining_time (ih_deadline h) os = (q, os1)" by (cases "remaining_time (ih_deadline h) os")
    show ?thesis
      using rs None rt ab(1) ha s1
      by (auto simp: response_round_def Let_def step_ok_def split: option.splits prod.splits received.splits)
  qed
  then show ?thesis by (rule step_ok_trans) (simp_all add: hc)
qed

lemma response_loop_settled:
  "serving p h w \<Longrightarrow> settled p w (response_loop parse_payload h waits arrivals w os)"
proof (induction parse_payload h waits arrivals w os rule: response_loop.induct)
  case (1 parse_payload h waits arrivals w os)
  note st = response_round_step [OF 1(2), of parse_payload waits arrivals os]
  show ?case
  proof (cases "response_round parse_payload h waits arrivals w os")
    case (Finish out)
    with st show ?thesis by (subst response_loop.simps) (simp add: step_ok_def)
  next
    case (Continue waits' arrivals' w' os')
    with st have s: "serving p h w'" "wk_generation w' = wk_generation w" "wk_next_request_id w' = wk_next_request_id w"
      by (simp_all add: step_ok_def)
    from settled_trans [OF 1(1) [OF Continue s(1)] s(2,3)] Continue show ?thesis
      by (subst response_loop.simps) simp
  qed
qed

lemma begin_in_flight_serving:
  assumes "alive p w" and "begin_in_flight operation (w\<lparr>wk_stdout := None\<rparr>) = (req, w1)"
    and "ih_request h = req"
  shows "serving p h w1" "wk_generation w1 = wk_generation w" "wk_next_request_id w1 = sat_inc (wk_next_request_id w)"
proof -
  have eq: "req = \<lparr>if_id = wk_next_request_id w, if_operation = operation, if_generation = wk_generation w\<rparr>"
    "w1 = w\<lparr>wk_stdout := None, wk_next_request_id := sat_inc (wk_next_request_id w), wk_state := SBusy req\<rparr>"
    using assms(2) by (auto simp: begin_in_flight_def Let_def)
  show "wk_generation w1 = wk_generation w" "wk_next_request_id w1 = sat_inc (wk_next_request_id w)"
    by (simp_all add: eq(2))
  have "alive p w1" using assms(1) by (simp add: eq(2) alive_def)
  moreover have "if_generation (ih_request h) = wk_generation w1" unfolding assms(3) eq by simp
  moreover have "wk_stdout w1 = None" "wk_state w1 = SBusy (ih_request h)" unfolding assms(3) eq(2) by simp_all
  ultimately show "serving p h w1" by (simp add: serving_def)
qed


section \<open>What an answered request delivered\<close>

fun row_of :: "read_result \<Rightarrow> data_row list" where
  "row_of (ReadOk (MDataRow row)) = [row]"
| "row_of _ = []"

fun is_event :: "read_result \<Rightarrow> bool" where
  "is_event (ReadOk (MResponse _)) = False"
| "is_event (ReadOk _) = True"
| "is_event _ = False"

abbreviation delivered_count :: "worker \<Rightarrow> nat" where
  "delivered_count w \<equiv> st_data_rows_delivered (wk_stats w)"

lemma abandon_not_Inr: "abandon_request h waits reason failure w os \<noteq> (Inr r, w', os')"
  by (auto simp: abandon_request_def Let_def split: prod.splits sum.splits)

lemma fail_not_Inr: "fail_request h waits e w os \<noteq> (Inr r, w', os')"
  by (auto simp: fail_request_def split: prod.splits)

lemma time_out_not_Inr: "time_out_request h waits w os \<noteq> (Inr r, w', os')"
  and cancel_not_Inr: "cancel_request h waits w os \<noteq> (Inr r, w', os')"
  and exceed_not_Inr: "exceed_rss_request h waits c l w os \<noteq> (Inr r, w', os')"
  by (simp_all add: time_out_request_def cancel_request_def exceed_rss_request_def Let_def abandon_not_Inr)

lemmas not_Inr = fail_not_Inr time_out_not_Inr cancel_not_Inr exceed_not_Inr

lemma elapsed_rows: "elapsed s os = (d, os') \<Longrightarrow> os_rows os' = os_rows os"
  and now_rows: "now os = (d, os') \<Longrightarrow> os_rows os' = os_rows os"
  and recv_timeout_rows: "recv_timeout t arrivals os = (m, os') \<Longrightarrow> os_rows os' = os_rows os"
  using elapsed_grows now_grows recv_timeout_grows by (auto simp: world_grows_def)

lemma elapsed_event_rows: "elapsed_event tick s os = (ev, os') \<Longrightarrow> os_rows os' = os_rows os"
  by (auto simp: elapsed_event_def split: prod.splits dest: elapsed_rows)

lemma report_progress_rows: "report_parent_progress sink ev os = (r, os') \<Longrightarrow> os_rows os' = os_rows os"
  by (auto simp: report_parent_progress_def Let_def split: option.splits)

lemma report_diagnostic_rows: "report_parent_diagnostic sink d os = (r, os') \<Longrightarrow> os_rows os' = os_rows os"
  by (auto simp: report_parent_diagnostic_def Let_def split: option.splits)

lemma report_row_rows: "report_parent_data_row pp sink row os = (Inr u, os') \<Longrightarrow> os_rows os' = os_rows os @ [row]"
  by (auto simp: report_parent_data_row_def deliver_row_def Let_def split: option.splits data_target.splits)

lemma handle_message_Continue:
  assumes "handle_message pp h waits m rest w os = Continue waits' arrivals' w' os'"
  shows "os_rows os' = os_rows os @ row_of (ReadOk m)" and "is_event (ReadOk m)"
    and "delivered_count w \<le> u64_max \<Longrightarrow> delivered_count w' = sat_add (delivered_count w) (length (row_of (ReadOk m)))"
  using assms
  by (cases m; auto simp: handle_message_def Let_def split: prod.splits sum.splits if_splits
      dest!: elapsed_event_rows report_progress_rows report_diagnostic_rows report_row_rows)+

lemma handle_message_not_Inr: "handle_message pp h waits m rest w os \<noteq> Finish (Inr r, w', os')"
  by (cases m) (auto simp: handle_message_def Let_def not_Inr split: prod.splits sum.splits if_splits)

lemma handle_terminal_Inr:
  assumes "handle_terminal h waits m w os = (Inr r, w', os')"
  shows "m = MResponse r" and "wk_stdout w' = wk_stdout w" and "os_rows os' = os_rows os"
    and "delivered_count w' = delivered_count w"
proof -
  obtain q where m: "m = MResponse q" using assms by (cases m) (auto simp: handle_terminal_def not_Inr)
  have t: "terminalize_request_response q (ih_streaming h) (ih_started h) waits w os = (w', os')" and q: "q = r"
    using assms m by (auto simp: handle_terminal_def not_Inr split: response.splits prod.splits)
  from m q show "m = MResponse r" by simp
  from t show "wk_stdout w' = wk_stdout w" "os_rows os' = os_rows os" "delivered_count w' = delivered_count w"
    by (auto simp: terminalize_request_response_def record_stream_success_def record_stream_failure_def Let_def
        split: prod.splits if_splits dest!: elapsed_rows)
qed

lemma handle_arrival_Inr:
  assumes "handle_arrival pp h waits a rest w os = Finish (Inr r, w', os')"
  shows "ar_result a = ReadOk (MResponse r)" and "wk_stdout w' = Some rest" and "os_rows os' = os_rows os"
    and "delivered_count w' = delivered_count w"
proof -
  have ev: "\<exists>ev. read_request_message (if_generation (ih_request h)) (Some (if_id (ih_request h))) a rest = Some ev"
    using assms by (auto simp: handle_arrival_def split: option.splits)
  then obtain ev where ev: "read_request_message (if_generation (ih_request h)) (Some (if_id (ih_request h))) a rest = Some ev"
    by blast
  let ?waits = "sat_add waits (ev_backpressure_waits ev)"
  let ?w = "upd_stats (\<lambda>s. s\<lparr>st_backpressure_waits := sat_add (st_backpressure_waits s) (ev_backpressure_waits ev)\<rparr>) w"
  have st: "(case ev of
      EvMessage _ _ m _ \<Rightarrow> handle_message pp h ?waits m rest ?w os
    | EvTerminal _ _ m arrivals _ \<Rightarrow> Finish (handle_terminal h ?waits m (?w\<lparr>wk_stdout := Some arrivals\<rparr>) os)
    | EvReadError _ _ err _ \<Rightarrow> Finish (handle_read_error h ?waits err ?w os)) = Finish (Inr r, w', os')"
    using assms ev by (auto simp: handle_arrival_def Let_def split: if_splits)
  have ne: "handle_read_error h k err v os \<noteq> (Inr r, w', os')" for k err v
    by (auto simp: handle_read_error_def split: prod.splits if_splits)
  obtain g i m arrivals n where t: "ev = EvTerminal g i m arrivals n"
    using st ne by (cases ev) (auto simp: handle_message_not_Inr)
  then have arr: "arrivals = rest" "ar_result a = ReadOk m"
    using ev by (auto simp: read_request_message_def send_reader_event_def split: read_result.splits message.splits if_splits)
  have "handle_terminal h ?waits m (?w\<lparr>wk_stdout := Some arrivals\<rparr>) os = (Inr r, w', os')" using st t by simp
  from handle_terminal_Inr [OF this] arr
  show "ar_result a = ReadOk (MResponse r)" "wk_stdout w' = Some rest" "os_rows os' = os_rows os"
    "delivered_count w' = delivered_count w" by simp_all
qed

lemma handle_arrival_Continue_rows:
  assumes "handle_arrival pp h waits a rest w os = Continue waits' arrivals' w' os'"
  shows "arrivals' = rest" and "os_rows os' = os_rows os @ row_of (ar_result a)" and "is_event (ar_result a)"
    and "delivered_count w \<le> u64_max \<Longrightarrow> delivered_count w' = sat_add (delivered_count w) (length (row_of (ar_result a)))"
proof -
  obtain ev where ev: "read_request_message (if_generation (ih_request h)) (Some (if_id (ih_request h))) a rest = Some ev"
    using assms by (auto simp: handle_arrival_def split: option.splits)
  let ?waits = "sat_add waits (ev_backpressure_waits ev)"
  let ?w = "upd_stats (\<lambda>s. s\<lparr>st_backpressure_waits := sat_add (st_backpressure_waits s) (ev_backpressure_waits ev)\<rparr>) w"
  obtain g i m n where m: "ev = EvMessage g i m n" and st: "handle_message pp h ?waits m rest ?w os = Continue waits' arrivals' w' os'"
    using assms ev by (cases ev) (auto simp: handle_arrival_def Let_def split: if_splits)
  have a: "ar_result a = ReadOk m"
    using ev m by (auto simp: read_request_message_def send_reader_event_def split: read_result.splits message.splits if_splits)
  from handle_message_Continue [OF st] a handle_arrival_Continue [OF assms]
  show "arrivals' = rest" "os_rows os' = os_rows os @ row_of (ar_result a)" "is_event (ar_result a)"
    "delivered_count w \<le> u64_max \<Longrightarrow> delivered_count w' = sat_add (delivered_count w) (length (row_of (ar_result a)))"
    by simp_all
qed

lemma hard_rss_stats:
  assumes "hard_rss_limit_exceeded w = (l, w')"
  shows "delivered_count w' = delivered_count w"
  using assms
  by (auto simp: hard_rss_limit_exceeded_def note_rss_def child_rss_kib_cases(8) split: option.splits prod.splits)

text \<open>What one round receives, if it receives anything.\<close>

lemma response_round_cases:
  assumes "response_round pp h waits arrivals w os = st"
  obtains
    (ended) out where "st = Finish out" "\<And>r w' os'. out \<noteq> (Inr r, w', os')"
  | (waiting) arrivals' w1 os1 where "st = Continue waits arrivals' w1 os1" "map ar_result arrivals' = map ar_result arrivals"
      "os_rows os1 = os_rows os" "delivered_count w1 = delivered_count w"
  | (received) a rest w1 os1 where "st = handle_arrival pp h waits a rest w1 os1"
      "arrivals = [] \<and> a = eof_arrival \<or> arrivals = a # rest" "os_rows os1 = os_rows os"
      "delivered_count w1 = delivered_count w"
proof -
  obtain l w1 where rs: "hard_rss_limit_exceeded w = (l, w1)" by (cases "hard_rss_limit_exceeded w")
  obtain q os1 where rt: "remaining_time (ih_deadline h) os = (q, os1)" by (cases "remaining_time (ih_deadline h) os")
  have r1: "os_rows os1 = os_rows os" using rt
    by (auto simp: remaining_time_def split: option.splits prod.splits dest: now_rows)
  note d1 = hard_rss_stats [OF rs]
  show thesis
  proof (cases l)
    case (Some x)
    with assms rs show thesis
      by (cases x) (auto simp: response_round_def exceed_not_Inr intro: ended)
  next
    case l: None
    show thesis
    proof (cases q)
      case None
      obtain a rest os2 where ra: "recv_any arrivals os1 = (a, rest, os2)" by (cases "recv_any arrivals os1")
      have "arrivals = [] \<and> a = eof_arrival \<or> arrivals = a # rest" "os_rows os2 = os_rows os1"
        using ra by (auto simp: recv_any_def split: list.splits)
      with assms rs l rt None ra r1 d1 show thesis
        by (intro received [of a rest w1 os2]) (simp_all add: response_round_def)
    next
      case (Some remaining)
      let ?wait = "if cfg_rss_hard_limit_kib (wk_config w1) \<noteq> None
                   then min remaining (cfg_rss_sample_interval (wk_config w1)) else remaining"
      obtain m os2 where rc: "recv_timeout ?wait arrivals os1 = (m, os2)" by (cases "recv_timeout ?wait arrivals os1")
      note r2 = recv_timeout_rows [OF rc]
      show thesis
      proof (cases "remaining = 0")
        case True
        with assms rs l rt Some show thesis
          by (intro ended [of "time_out_request h waits w1 os1"]) (simp_all add: response_round_def not_Inr)
      next
        case False
        show thesis
        proof (cases m)
          case (Received a rest)
          with assms rs l rt Some rc False r1 r2 d1 recv_timeout_Received [OF rc [unfolded Received]] show thesis
            by (intro received [of a rest w1 os2]) (auto simp: response_round_def Let_def)
        next
          case (TimedOut arr)
          have same: "map ar_result arr = map ar_result arrivals"
            using rc TimedOut by (auto simp: recv_timeout_def split: list.splits if_splits)
          show thesis
          proof (cases "cfg_rss_hard_limit_kib (wk_config w1) \<noteq> None \<and> ?wait < remaining")
            case True
            with assms rs l rt Some rc False TimedOut r1 r2 d1 same show thesis
              by (intro waiting [of arr w1 os2]) (auto simp: response_round_def Let_def)
          next
            case no: False
            have "st = Finish (time_out_request h waits w1 os2)"
              using assms rs l rt Some rc False TimedOut no by (auto simp: response_round_def Let_def)
            then show thesis by (rule ended) (rule time_out_not_Inr)
          qed
        qed
      qed
    qed
  qed
qed

lemma response_loop_delivers:
  assumes "response_loop pp h waits arrivals w os = (Inr r, w', os')" and "delivered_count w \<le> u64_max"
  shows "\<exists>pre post. map ar_result arrivals = pre @ ReadOk (MResponse r) # map ar_result post \<and>
    wk_stdout w' = Some post \<and> (\<forall>x \<in> set pre. is_event x) \<and>
    os_rows os' = os_rows os @ concat (map row_of pre) \<and>
    delivered_count w' = sat_add (delivered_count w) (length (concat (map row_of pre)))"
  using assms
proof (induction pp h waits arrivals w os rule: response_loop.induct)
  case (1 pp h waits arrivals w os)
  obtain st where st: "response_round pp h waits arrivals w os = st" by simp
  have loop: "response_loop pp h waits arrivals w os =
     (case st of Finish out \<Rightarrow> out | Continue waits' arrivals' w' os' \<Rightarrow> response_loop pp h waits' arrivals' w' os')"
    using st by (subst response_loop.simps) simp
  from st show ?case
  proof (cases rule: response_round_cases)
    case (ended out)
    then have "out = (Inr r, w', os')" using loop 1(2) by simp
    with ended(2) show ?thesis by blast
  next
    case (waiting arrivals' w1 os1)
    have "response_loop pp h waits arrivals' w1 os1 = (Inr r, w', os')" using loop 1(2) waiting(1) by simp
    from 1(1) [OF st [unfolded waiting(1)] this] 1(3) waiting show ?thesis by simp
  next
    case (received a rest w1 os1)
    show ?thesis
    proof (cases st)
      case (Finish out)
      then have "handle_arrival pp h waits a rest w1 os1 = Finish (Inr r, w', os')"
        using received(1) loop 1(2) by simp
      note hi = handle_arrival_Inr [OF this]
      then have "arrivals = a # rest" using received(2) by (auto simp: eof_arrival_def)
      with hi received(3,4) 1(3) show ?thesis by (intro exI [of _ "[]"] exI [of _ rest]) simp
    next
      case (Continue waits' arrivals' w2 os2)
      have hc: "handle_arrival pp h waits a rest w1 os1 = Continue waits' arrivals' w2 os2"
        using received(1) Continue by simp
      note hi = handle_arrival_Continue_rows [OF hc]
      have arr: "arrivals = a # rest" using received(2) hi(3) by (auto simp: eof_arrival_def)
      have d2: "delivered_count w2 = sat_add (delivered_count w) (length (row_of (ar_result a)))"
        using hi(4) received(4) 1(3) by simp
      have "response_loop pp h waits' arrivals' w2 os2 = (Inr r, w', os')" using loop 1(2) Continue by simp
      from 1(1) [OF st [unfolded Continue] this] d2 hi(1) obtain pre post where
        ih: "map ar_result rest = pre @ ReadOk (MResponse r) # map ar_result post" "wk_stdout w' = Some post"
        "\<forall>x \<in> set pre. is_event x" "os_rows os' = os_rows os2 @ concat (map row_of pre)"
        "delivered_count w' = sat_add (delivered_count w2) (length (concat (map row_of pre)))"
        by auto
      show ?thesis
        by (rule exI [of _ "ar_result a # pre"], rule exI [of _ post])
           (use ih arr hi(2,3) received(3) d2 in \<open>simp add: sat_add_assoc\<close>)
    qed
  qed
qed

lemma read_response_delivers:
  assumes "wk_stdout w = Some arrivals" and "delivered_count w \<le> u64_max"
    and "read_response_with_events pp operation snk w os = (Inr r, w', os')"
  shows "\<exists>pre post. map ar_result arrivals = pre @ ReadOk (MResponse r) # map ar_result post \<and>
    wk_stdout w' = Some post \<and> (\<forall>x \<in> set pre. is_event x) \<and>
    os_rows os' = os_rows os @ concat (map row_of pre) \<and>
    delivered_count w' = sat_add (delivered_count w) (length (concat (map row_of pre)))"
proof -
  obtain started os1 where n: "now os = (started, os1)" by (cases "now os")
  obtain req w1 where b: "begin_in_flight operation (w\<lparr>wk_stdout := None\<rparr>) = (req, w1)"
    by (cases "begin_in_flight operation (w\<lparr>wk_stdout := None\<rparr>)")
  have s: "wk_stats w1 = wk_stats w" using b by (auto simp: begin_in_flight_def Let_def)
  from assms(3) n assms(1) b response_loop_delivers [of pp _ 0 arrivals w1 os1 r w' os'] s assms(2) now_rows [OF n]
  show ?thesis by (simp add: read_response_with_events_def Let_def)
qed

text \<open>C2: An answered request delivered exactly the rows that preceded its answer.  When the wait returns a
  response, the child had sent only progress ticks, rows and diagnostics before it; the sink received all of
  those rows, in order and once each, and nothing that came after the response; what follows it is left for
  the next request; and the delivery counter went up by their number.\<close>

theorem answered_request_delivers_rows:
  assumes "wk_stdout w = Some arrivals" and "delivered_count w \<le> u64_max"
    and "read_response_with_events pp operation snk w os = (Inr r, w', os')"
  shows "\<exists>pre post. map ar_result arrivals = pre @ ReadOk (MResponse r) # map ar_result post \<and>
    wk_stdout w' = Some post \<and> (\<forall>x \<in> set pre. is_event x) \<and>
    os_rows os' = os_rows os @ concat (map row_of pre) \<and>
    delivered_count w' = sat_add (delivered_count w) (length (concat (map row_of pre)))"
  by (rule read_response_delivers [OF assms])

section \<open>Admission under the restart policy\<close>

text \<open>The builders of the policy keep every limit positive.\<close>

definition policy_positive :: "restart_policy \<Rightarrow> bool" where
  "policy_positive policy \<longleftrightarrow>
     rp_max_requests policy \<noteq> Some 0 \<and> rp_max_imports policy \<noteq> Some 0 \<and>
     rp_max_import_residue_bytes policy \<noteq> Some 0"

lemma policy_builders_positive:
  "policy_positive policy_disabled"
  "policy_positive policy \<Longrightarrow> policy_positive (max_requests policy n)"
  "policy_positive policy \<Longrightarrow> policy_positive (max_imports policy n)"
  "policy_positive policy \<Longrightarrow> policy_positive (max_import_residue_bytes policy n)"
  "policy_positive policy \<Longrightarrow> policy_positive (max_rss_kib policy n)"
  "policy_positive policy \<Longrightarrow> policy_positive (idle_restart_after policy n)"
  "policy_positive policy \<Longrightarrow> policy_positive (max_restarts_per_window policy n m)"
  by (simp_all add: policy_positive_def policy_disabled_def max_requests_def max_imports_def
      max_import_residue_bytes_def max_rss_kib_def idle_restart_after_def max_restarts_per_window_def max_def)

lemma fresh_budget_admits:
  assumes "policy_positive policy"
  shows "request_limit_reached budget_default policy = None" "import_limit_reached budget_default policy = None"
  using assms
  by (auto simp: policy_positive_def request_limit_reached_def import_limit_reached_def budget_default_def
      split: option.splits)

text \<open>What admission achieved: the budget leaves room for the request on a child that is alive.\<close>

definition admitted :: "bool \<Rightarrow> worker \<Rightarrow> bool" where
  "admitted import_like w \<longleftrightarrow>
     (\<exists>p. alive p w) \<and>
     request_limit_reached (wk_budget w) (cfg_restart_policy (wk_config w)) = None \<and>
     (import_like \<longrightarrow> import_limit_reached (wk_budget w) (cfg_restart_policy (wk_config w)) = None)"

lemma count_admission_simps [simp]:
  "wk_budget (count_admission b w) = wk_budget w" "wk_config (count_admission b w) = wk_config w"
  "alive p (count_admission b w) = alive p w" "wk_generation (count_admission b w) = wk_generation w"
  "wk_stdout (count_admission b w) = wk_stdout w" "wk_state (count_admission b w) = wk_state w"
  "wk_next_request_id (count_admission b w) = wk_next_request_id w"
  "wk_open_session_keys (count_admission b w) = wk_open_session_keys w"
  "wk_pending_restart (count_admission b w) = wk_pending_restart w"
  by (simp_all add: count_admission_def)

lemma admitted_count [simp]: "admitted i (count_admission b w) = admitted i w"
  by (simp add: admitted_def)

lemma restart_then_admit_admitted:
  assumes "alive p w" and "wk_stdout w \<noteq> None" and "policy_positive (cfg_restart_policy (wk_config w))"
    and "restart_then_admit reason b w os = (Inr (), w', os')"
  shows "admitted i w' \<and> wk_stdout w' \<noteq> None \<and> wk_config w' = wk_config w \<and>
    wk_generation w' = sat_inc (wk_generation w) \<and> wk_budget w' = budget_default \<and> wk_open_session_keys w' = []"
proof -
  obtain w1 where r: "restart_with_reason reason w os = (Inr (), w1, os')" and w': "w' = count_admission b w1"
    using assms(4) by (auto simp: restart_then_admit_def split: prod.splits sum.splits)
  have "restartable p (stop_intent reason) w" using assms(1,2) by (simp add: restartable_def)
  from restart_spec [OF this r] fresh_budget_admits [OF assms(3)] w'
  show ?thesis by (simp add: admitted_def)
qed

lemma admitted_note_rss [simp]:
  "admitted i (note_rss s w) = admitted i w" "wk_stdout (note_rss s w) = wk_stdout w"
  "wk_config (note_rss s w) = wk_config w" "alive p (note_rss s w) = alive p w"
  "wk_generation (note_rss s w) = wk_generation w" "wk_budget (note_rss s w) = wk_budget w"
  "wk_open_session_keys (note_rss s w) = wk_open_session_keys w"
  by (auto simp: note_rss_def admitted_def split: option.splits)

definition admission_effect :: "bool \<Rightarrow> worker \<Rightarrow> worker \<Rightarrow> bool" where
  "admission_effect i w w' \<longleftrightarrow>
     admitted i w' \<and> wk_stdout w' \<noteq> None \<and> wk_config w' = wk_config w \<and>
     ((wk_generation w' = wk_generation w \<and> wk_budget w' = wk_budget w \<and>
       wk_open_session_keys w' = wk_open_session_keys w) \<or>
      (wk_generation w' = sat_inc (wk_generation w) \<and> wk_budget w' = budget_default \<and> wk_open_session_keys w' = []))"

lemma idle_check_effect:
  assumes "admitted i w" and "wk_stdout w \<noteq> None" and "policy_positive (cfg_restart_policy (wk_config w))"
    and "idle_check b w os = (Inr (), w', os')"
  shows "admission_effect i w w'"
proof -
  obtain p where p: "alive p w" using assms(1) by (auto simp: admitted_def)
  note rt = restart_then_admit_admitted [OF p assms(2,3)]
  have "w' = count_admission b w \<or> (\<exists>reason os1. restart_then_admit reason b w os1 = (Inr (), w', os'))"
    using assms(4) by (auto simp: idle_check_def split: option.splits prod.splits if_splits)
  then show ?thesis using assms(1,2) rt by (auto simp: admission_effect_def)
qed

lemma rss_check_effect:
  assumes "admitted i w" and "wk_stdout w \<noteq> None" and "policy_positive (cfg_restart_policy (wk_config w))"
    and "rss_check b w os = (Inr (), w', os')"
  shows "admission_effect i w w'"
proof (cases "rp_max_rss_kib (cfg_restart_policy (wk_config w))")
  case None
  with assms idle_check_effect show ?thesis by (simp add: rss_check_def)
next
  case (Some limit)
  obtain sample w1 where c: "child_rss_kib w = (sample, w1)" by (cases "child_rss_kib w")
  note cc = child_rss_kib_cases [OF c]
  let ?w = "note_rss sample w1"
  have a: "admitted i ?w" "wk_stdout ?w \<noteq> None" "policy_positive (cfg_restart_policy (wk_config ?w))"
    using assms(1-3) cc by (simp_all add: admitted_def)
  then obtain p where p: "alive p ?w" by (auto simp: admitted_def)
  have "idle_check b ?w os = (Inr (), w', os') \<or> (\<exists>reason. restart_then_admit reason b ?w os = (Inr (), w', os'))"
    using assms(4) Some c by (auto simp: rss_check_def split: option.splits if_splits)
  then have "admission_effect i ?w w'"
    using idle_check_effect [OF a] restart_then_admit_admitted [OF p a(2,3)] by (auto simp: admission_effect_def)
  with cc show ?thesis by (simp add: admission_effect_def)
qed

lemma note_import_attempt_cases:
  "wk_stdout (note_import_attempt b w) = wk_stdout w \<and> wk_config (note_import_attempt b w) = wk_config w \<and>
   alive p (note_import_attempt b w) = alive p w \<and> wk_generation (note_import_attempt b w) = wk_generation w \<and>
   wk_budget (note_import_attempt b w) = wk_budget w \<and>
   wk_open_session_keys (note_import_attempt b w) = wk_open_session_keys w"
  by (auto simp: note_import_attempt_def child_rss_kib_cases split: prod.splits)

lemma ensure_running_ok:
  assumes "alive p w" and "ensure_running w os = (Inr (), w', os')"
  shows "alive p w' \<and> wk_stdout w' = wk_stdout w \<and> life_frame w w' \<and> wk_stats w' = wk_stats w \<and>
    wk_state w' = wk_state w \<and> os' = os"
proof -
  obtain r w1 os1 where s: "status w os = (r, w1, os1)" by (cases "status w os")
  have "r = Inr Running" "w1 = w'" "os1 = os'"
    using assms(2) s by (auto simp: ensure_running_def split: if_splits sum.splits worker_status.splits)
  with status_alive [OF assms(1) s] show ?thesis by simp
qed

lemma prepare_request_effect:
  assumes a: "alive p w" and so: "wk_stdout w \<noteq> None" and pol: "policy_positive (cfg_restart_policy (wk_config w))"
    and pr: "prepare_request b w os = (Inr (), w', os')"
  shows "admission_effect b w w'"
proof -
  obtain w1 os1 where e: "ensure_running w os = (Inr (), w1, os1)"
    using pr by (auto simp: prepare_request_def split: prod.splits sum.splits)
  note eo = ensure_running_ok [OF a e]
  let ?w = "note_import_attempt b w1"
  have n: "alive p ?w" "wk_stdout ?w \<noteq> None" "policy_positive (cfg_restart_policy (wk_config ?w))"
    and eq: "wk_config ?w = wk_config w" "wk_generation ?w = wk_generation w" "wk_budget ?w = wk_budget w"
      "wk_open_session_keys ?w = wk_open_session_keys w"
    using note_import_attempt_cases [of b w1 p] eo so pol by (auto simp: life_frame_def)
  note rt = restart_then_admit_admitted [OF n]
  have "admission_effect b ?w w'"
  proof (cases "\<exists>reason c. restart_then_admit reason c ?w os1 = (Inr (), w', os')")
    case True
    with rt show ?thesis by (auto simp: admission_effect_def)
  next
    case False
    with pr e have "request_limit_reached (wk_budget ?w) (cfg_restart_policy (wk_config ?w)) = None"
      "b \<longrightarrow> import_limit_reached (wk_budget ?w) (cfg_restart_policy (wk_config ?w)) = None"
      "rss_check b ?w os1 = (Inr (), w', os')"
      by (auto simp: prepare_request_def Let_def split: option.splits if_splits)
    with n rss_check_effect [of b ?w b os1 w' os'] show ?thesis by (auto simp: admitted_def)
  qed
  with eq show ?thesis by (simp add: admission_effect_def)
qed


section \<open>A missed deadline\<close>

text \<open>A request that is past its deadline when the loop comes round is no longer timed.  The
  source computes the time that remains as a \<open>checked_duration_since\<close>, which is \<open>None\<close> once the deadline
  lies in the past, the same value as for a request without a deadline: the loop then blocks for the next
  frame however long it takes.  Here the child sends a progress tick just within the timeout \<open>T + 1\<close>, the
  clock passes the deadline while the tick is handled, and the response that follows after any time \<open>D\<close>
  is accepted: the request returns success at \<open>T + 2 + D\<close> and the child is never killed.\<close>

theorem missed_deadline_is_never_enforced:
  "case read_response pp ''health''
       ((demo_worker [] [\<lparr>ar_delay = T, ar_buffer_full = False, ar_result = ReadOk (MProgressTick tick)\<rparr>,
                         \<lparr>ar_delay = D, ar_buffer_full = False, ar_result = ReadOk (MResponse RHealthOk)\<rparr>])
          \<lparr>wk_config := (config_new [])\<lparr>cfg_request_timeout := T + 1\<rparr>\<rparr>)
       (demo_world\<lparr>os_instant_max := T + 1, os_delays := [0, 0, 2]\<rparr>) of
     (r, w', os') \<Rightarrow> r = Inr RHealthOk \<and> os_clock os' = T + 2 + D \<and> os_killed os' = []"
  by (simp add: read_response_def read_response_with_events_def response_loop.simps response_round_def
      hard_rss_limit_exceeded_def remaining_time_def checked_duration_since_def checked_add_instant_def
      recv_any_def handle_arrival_def read_request_message_def send_reader_event_def handle_message_def
      handle_terminal_def terminalize_request_response_def ih_streaming_def no_sinks_def is_cancelled_def
      elapsed_event_def report_parent_progress_def begin_in_flight_def mark_current_request_streaming_def
      Let_def upd_stats_def demo_defs world_defs config_new_def)

section \<open>A panicking sink\<close>

lemma reader_event_message:
  "ar_result a = ReadOk (MDataRow row) \<Longrightarrow>
     \<exists>n. read_request_message g i a rest = Some (EvMessage g i (MDataRow row) n)"
  by (simp add: read_request_message_def send_reader_event_def)

lemma request_with_panicking_sink:
  assumes "wk_stdout w = Some (a # rest)" and "ar_result a = ReadOk (MDataRow row)"
    and "cfg_rss_hard_limit_kib (wk_config w) = None" and "os_delays os = []"
    and "ar_delay a \<le> cfg_request_timeout (wk_config w)" and "0 < cfg_request_timeout (wk_config w)"
    and "sink (os_rows os @ [row]) = Some msg"
  shows "\<exists>w'. read_response_with_events pp operation (no_sinks\<lparr>sk_data := Some (RawTarget sink)\<rparr>) w os =
    (Inl (EDataSinkPanic msg), w',
     os\<lparr>os_clock := os_clock os + ar_delay a, os_rows := os_rows os @ [row]\<rparr>) \<and>
     wk_stdout w' = None \<and> wk_child w' = wk_child w \<and> wk_last_exit w' = wk_last_exit w \<and>
     wk_stdin w' = wk_stdin w \<and> wk_config w' = wk_config w \<and> wk_state w' = SIdle (wk_generation w)"
proof -
  obtain n where n: "read_request_message (wk_generation w) (Some (wk_next_request_id w)) a rest =
      Some (EvMessage (wk_generation w) (Some (wk_next_request_id w)) (MDataRow row) n)"
    using reader_event_message [OF assms(2)] by blast
  let ?os = "os\<lparr>os_clock := os_clock os + ar_delay a\<rparr>"
  let ?h = "\<lparr>ih_operation = operation, ih_started = os_clock os, ih_timeout = cfg_request_timeout (wk_config w),
     ih_deadline = checked_add_instant os (os_clock os) (cfg_request_timeout (wk_config w)),
     ih_request = \<lparr>if_id = wk_next_request_id w, if_operation = operation, if_generation = wk_generation w\<rparr>,
     ih_sinks = no_sinks\<lparr>sk_data := Some (RawTarget sink)\<rparr>\<rparr>"
  let ?w = "w\<lparr>wk_stdout := None, wk_next_request_id := sat_inc (wk_next_request_id w),
     wk_state := SBusy \<lparr>if_id = wk_next_request_id w, if_operation = operation, if_generation = wk_generation w\<rparr>\<rparr>"
  have round: "response_round pp ?h 0 (a # rest) ?w os = handle_arrival pp ?h 0 a rest ?w ?os"
  proof -
    have hard: "hard_rss_limit_exceeded ?w = (None, ?w)" using assms(3) by (simp add: hard_rss_limit_exceeded_def)
    have nw: "now os = (os_clock os, os)" using assms(4) by (simp add: now_def)
    show ?thesis
    proof (cases "checked_add_instant os (os_clock os) (cfg_request_timeout (wk_config w))")
      case None
      with hard show ?thesis by (simp add: response_round_def remaining_time_def recv_any_def)
    next
      case (Some d)
      then have d: "checked_duration_since d (os_clock os) = Some (cfg_request_timeout (wk_config w))"
        by (auto simp: checked_add_instant_def checked_duration_since_def split: if_splits)
      with hard Some nw assms(3,5,6) show ?thesis
        by (simp add: response_round_def remaining_time_def recv_timeout_def)
    qed
  qed
  have loop: "response_loop pp ?h 0 (a # rest) ?w os =
     (case handle_arrival pp ?h 0 a rest ?w ?os of
        Finish r \<Rightarrow> r
      | Continue waits' arrivals' w' os' \<Rightarrow> response_loop pp ?h waits' arrivals' w' os')"
    using round by (subst response_loop.simps) simp
  have "\<exists>w'. handle_arrival pp ?h 0 a rest ?w ?os = Finish (Inl (EDataSinkPanic msg), w',
     os\<lparr>os_clock := os_clock os + ar_delay a, os_rows := os_rows os @ [row]\<rparr>) \<and>
     wk_stdout w' = None \<and> wk_child w' = wk_child w \<and> wk_last_exit w' = wk_last_exit w \<and>
     wk_stdin w' = wk_stdin w \<and> wk_config w' = wk_config w \<and> wk_state w' = SIdle (wk_generation w)"
    using n assms(4,7)
    by (simp add: handle_arrival_def handle_message_def mark_current_request_streaming_def upd_stats_def
        report_parent_data_row_def deliver_row_def no_sinks_def fail_request_def terminalize_request_failure_def
        ih_streaming_def record_stream_failure_def elapsed_def now_def finish_in_flight_def Let_def)
  with loop show ?thesis
    using assms(1,4)
    by (auto simp: read_response_with_events_def now_def begin_in_flight_def Let_def)
qed

text \<open>A request to a worker that has lost its reader: it is sent, and then fails.\<close>

lemma health_without_reader:
  assumes "wk_child w = Some c" and "wk_last_exit w = None" and "wk_stdin w" and "wk_stdout w = None"
    and "cp_polls c = []" and "cp_writes c = []" and "cfg_restart_policy (wk_config w) = policy_disabled"
    and "wk_state w = SIdle g"
  shows "case health pp w os of (r, w', os') \<Rightarrow>
     r = Inl (EChildPanicOrAbort not_running_exit) \<and> wk_child w' = Some c \<and> wk_stdout w' = None \<and>
     os_sent os' = os_sent os @ [(cp_pid c, Health)]"
proof -
  have st: "status v os' = (Inr Running, v, os')"
    if "wk_child v = Some c" "wk_last_exit v = None" for v os'
  proof -
    have "v\<lparr>wk_child := Some c\<rparr> = v" using that(1) by (cases v) simp
    with that assms(5) show ?thesis
      by (simp add: status_def try_wait_child_def child_try_wait_def Let_def)
  qed
  have er: "ensure_running w os = (Inr (), w, os)" using st [of w os] assms by (simp add: ensure_running_def)
  have wc: "w\<lparr>wk_child := Some c\<rparr> = w" using assms(1) by (cases w) simp
  let ?os = "os\<lparr>os_sent := os_sent os @ [(cp_pid c, Health)]\<rparr>"
  have pr: "prepare_request False w os = (Inr (), w, os)"
    using er assms(7)
    by (simp add: prepare_request_def note_import_attempt_def Let_def request_limit_reached_def rss_check_def
        idle_check_def count_admission_def policy_disabled_def)
  have se: "send_request Health w os = (Inr (), w, ?os)"
    using er wc assms by (simp add: send_request_def write_request_def child_write_def)
  obtain w3 os3 where rr: "record_request False w ?os = (w3, os3)" by (cases "record_request False w ?os")
  have w3: "wk_child w3 = Some c" "wk_stdout w3 = None" "wk_last_exit w3 = None"
    and os3: "os_sent os3 = os_sent os @ [(cp_pid c, Health)]"
    using rr assms by (auto simp: record_request_def now_def Let_def split: list.splits)
  have "exchange pp ''health'' Health False id no_sinks w os =
     read_response_with_events pp ''health'' no_sinks (upd_stats id w3) os3"
    using pr se rr by (simp add: exchange_def check_cancelled_def is_cancelled_def no_sinks_def)
  moreover obtain t os4 where n: "now os3 = (t, os4)" by (cases "now os3")
  moreover have "os_sent os4 = os_sent os3" using n by (auto simp: now_def split: list.splits)
  ultimately show ?thesis
    using w3 os3
    by (simp add: health_def extract_response_def read_response_with_events_def Let_def dead_error_def exit_error_def
        not_running_exit_def)
qed

text \<open>A row sink that panics costs the worker its reader.  The request fails with the sink's panic and
  the worker is idle with its child alive, but its stdout is gone for good: the next request is still written
  to the child and then fails with the error of a dead worker, though the child is running.\<close>

theorem sink_panic_loses_reader:
  assumes "wk_child w = Some c" and "wk_last_exit w = None" and "wk_stdin w"
    and "wk_stdout w = Some (a # rest)" and "ar_result a = ReadOk (MDataRow row)"
    and "cfg_rss_hard_limit_kib (wk_config w) = None" and "os_delays os = []"
    and "ar_delay a \<le> cfg_request_timeout (wk_config w)" and "0 < cfg_request_timeout (wk_config w)"
    and "sink (os_rows os @ [row]) = Some msg"
    and "cp_polls c = []" and "cp_writes c = []" and "cfg_restart_policy (wk_config w) = policy_disabled"
  shows "case read_response_with_events pp operation (no_sinks\<lparr>sk_data := Some (RawTarget sink)\<rparr>) w os of
     (r, w', os') \<Rightarrow>
       r = Inl (EDataSinkPanic msg) \<and> wk_stdout w' = None \<and> wk_child w' = Some c \<and>
       wk_state w' = SIdle (wk_generation w) \<and>
       (case health pp w' os' of (r2, w2, os2) \<Rightarrow>
          r2 = Inl (EChildPanicOrAbort not_running_exit) \<and> wk_child w2 = Some c \<and>
          os_sent os2 = os_sent os' @ [(cp_pid c, Health)])"
proof -
  let ?os = "os\<lparr>os_clock := os_clock os + ar_delay a, os_rows := os_rows os @ [row]\<rparr>"
  obtain w' where f: "read_response_with_events pp operation (no_sinks\<lparr>sk_data := Some (RawTarget sink)\<rparr>) w os =
    (Inl (EDataSinkPanic msg), w', ?os)"
    and w': "wk_stdout w' = None" "wk_child w' = wk_child w" "wk_last_exit w' = wk_last_exit w"
     "wk_stdin w' = wk_stdin w" "wk_config w' = wk_config w" "wk_state w' = SIdle (wk_generation w)"
    using request_with_panicking_sink [of w a rest row os sink msg pp operation, OF assms(4-10)] by blast
  have "case health pp w' ?os of (r, w2, os2) \<Rightarrow>
     r = Inl (EChildPanicOrAbort not_running_exit) \<and> wk_child w2 = Some c \<and> wk_stdout w2 = None \<and>
     os_sent os2 = os_sent ?os @ [(cp_pid c, Health)]"
    by (rule health_without_reader) (use assms w' in simp_all)
  with w' assms(1) show ?thesis unfolding f by auto
qed

definition demo_row :: data_row where
  "demo_row = \<lparr>dr_stream = ''names'', dr_sequence = 0, dr_payload = ''1''\<rparr>"

definition demo_arrival :: "message \<Rightarrow> arrival" where
  "demo_arrival m = \<lparr>ar_delay = 1, ar_buffer_full = False, ar_result = ReadOk m\<rparr>"

theorem sink_panic_loses_reader_witness:
  "case read_response_with_events (\<lambda>_. None) ''rows'' (no_sinks\<lparr>sk_data := Some (RawTarget (\<lambda>_. Some ''boom''))\<rparr>)
      (demo_worker [] [demo_arrival (MDataRow demo_row)]) demo_world of
     (r, w', os') \<Rightarrow> r = Inl (EDataSinkPanic ''boom'') \<and> wk_stdout w' = None"
  using sink_panic_loses_reader [of "demo_worker [] [demo_arrival (MDataRow demo_row)]" "demo_child []"
      "demo_arrival (MDataRow demo_row)" "[]" demo_row demo_world "\<lambda>_. Some ''boom''" "''boom''" "\<lambda>_. None" "''rows''"]
  by (simp add: demo_worker_def new_worker_def demo_child_def demo_arrival_def config_new_def demo_world_def
      nanos_per_ms_def split: prod.splits)

section \<open>Absorbing a child abort\<close>

text \<open>A verification never invents an answer.  What \<open>worker_verify_declaration\<close> reports as coming from
  the worker is what the child answered; a child abort is absorbed into the degraded verdict
  \<open>BudgetExceeded\<close> exactly when the child could be replaced, and then the worker is in the next
  generation; every other error is passed on with the worker as the request left it.\<close>

theorem verification_degrades_honestly:
  assumes "round_trip pp ''worker_verify_declaration'' (VerifyDeclaration req opts (sk_progress snk \<noteq> None)) False snk
      (expect_response ''worker_verify_declaration''
         (\<lambda>r. case r of RDeclarationVerification x \<Rightarrow> Some x | _ \<Rightarrow> None)) w os = (answer, w1, os1)"
    and "restartable p IntentKillOnly w1"
    and "worker_verify_declaration pp req opts snk w os = (r, w', os')"
  shows "(\<forall>x. r = Inr (FromWorker x) \<longleftrightarrow> answer = Inr x) \<and>
    (\<forall>d. r = Inr (Degraded d) \<longrightarrow> d = BudgetExceeded \<and> (\<exists>ex. answer = Inl (EChildPanicOrAbort ex)) \<and>
       wk_generation w' = sat_inc (wk_generation w1) \<and> (\<exists>q. alive q w')) \<and>
    (\<forall>e. answer = Inl e \<longrightarrow> (\<forall>ex. e \<noteq> EChildPanicOrAbort ex) \<longrightarrow> r = Inl e \<and> w' = w1 \<and> os' = os1)"
proof -
  have eq: "(r, w', os') = absorb_child_abort ''worker_verify_declaration'' BudgetExceeded (answer, w1, os1)"
    using assms(1,3) by (simp add: worker_verify_declaration_def)
  show ?thesis
  proof (cases answer)
    case (Inr x)
    with eq show ?thesis by (simp add: absorb_child_abort_def)
  next
    case (Inl e)
    show ?thesis
    proof (cases "\<exists>ex. e = EChildPanicOrAbort ex")
      case False
      then have "recover_child_abort ''worker_verify_declaration'' e w1 os1 = (Inl e, w1, os1)"
        by (cases e) (auto simp: recover_child_abort_def)
      with eq Inl False show ?thesis by (simp add: absorb_child_abort_def)
    next
      case True
      then obtain ex where ex: "e = EChildPanicOrAbort ex" by blast
      let ?reason = "child_abort_reason ''worker_verify_declaration'' ex"
      obtain q w2 os2 where rs: "restart_with_reason ?reason w1 os1 = (q, w2, os2)"
        by (cases "restart_with_reason ?reason w1 os1")
      have "restartable p (stop_intent ?reason) w1" using assms(2) by (simp add: child_abort_reason_def)
      note sp = restart_spec [OF this rs]
      have "recover_child_abort ''worker_verify_declaration'' e w1 os1 = (q, w2, os2)"
        using ex rs by (simp add: recover_child_abort_def)
      with eq Inl ex sp show ?thesis by (cases q) (auto simp: absorb_child_abort_def)
    qed
  qed
qed

section \<open>Concrete requests\<close>

lemmas request_defs = read_response_with_events_def response_round_def
  hard_rss_limit_exceeded_def remaining_time_def checked_duration_since_def checked_add_instant_def
  recv_any_def handle_arrival_def read_request_message_def send_reader_event_def handle_message_def
  handle_terminal_def terminalize_request_response_def ih_streaming_def no_sinks_def is_cancelled_def
  elapsed_event_def report_parent_progress_def report_parent_data_row_def deliver_row_def begin_in_flight_def
  mark_current_request_streaming_def record_stream_success_def Let_def upd_stats_def

definition demo_stream :: "arrival list" where
  "demo_stream = [demo_arrival (MDataRow demo_row), demo_arrival (MResponse (RRowsComplete 1))]"

definition demo_sinks :: sinks where
  "demo_sinks = no_sinks\<lparr>sk_data := Some (RawTarget (\<lambda>_. None))\<rparr>"

lemma demo_request:
  "\<exists>w' os'. read_response_with_events (\<lambda>_. None) ''rows'' demo_sinks (demo_worker [] demo_stream) demo_world =
     (Inr (RRowsComplete 1), w', os')"
  by (simp add: request_defs response_loop.simps demo_sinks_def demo_stream_def demo_arrival_def demo_defs world_defs
      config_new_def nanos_per_ms_def)

lemma demo_arrivals: "wk_stdout (demo_worker polls arrivals) = Some arrivals"
  by (simp add: demo_worker_def new_worker_def)


theorem answered_request_delivers_rows_witness:
  "\<exists>w' os' pre post. read_response_with_events (\<lambda>_. None) ''rows'' demo_sinks (demo_worker [] demo_stream) demo_world =
     (Inr (RRowsComplete 1), w', os') \<and> wk_stdout w' = Some post \<and> os_rows os' = concat (map row_of pre) \<and>
     map ar_result demo_stream = pre @ ReadOk (MResponse (RRowsComplete 1)) # map ar_result post"
proof -
  obtain w' os' where r: "read_response_with_events (\<lambda>_. None) ''rows'' demo_sinks (demo_worker [] demo_stream)
     demo_world = (Inr (RRowsComplete 1), w', os')" using demo_request by blast
  have d: "delivered_count (demo_worker [] demo_stream) \<le> u64_max" by (simp add: stats_default_def)
  from answered_request_delivers_rows [OF demo_arrivals d r] r show ?thesis
    by (auto simp: demo_world_def)
qed

lemma demo_running:
  "ensure_running (demo_worker [] arrivals) os = (Inr (), demo_worker [] arrivals, os)"
  by (simp add: ensure_running_def status_def try_wait_child_def child_try_wait_def demo_worker_def new_worker_def
      demo_child_def Let_def)

lemma demo_prepare:
  "prepare_request False (demo_worker [] arrivals) os = (Inr (), demo_worker [] arrivals, os)"
  using demo_running [of arrivals os]
  by (simp add: prepare_request_def note_import_attempt_def Let_def request_limit_reached_def rss_check_def
      idle_check_def count_admission_def demo_worker_def new_worker_def config_new_def policy_disabled_def)


theorem verification_degrades_honestly_witness:
  "case worker_verify_declaration (\<lambda>_. None) ''req'' ''opts'' (no_sinks\<lparr>sk_token := Some 0\<rparr>)
      (demo_worker [] []) demo_world of
     (r, w', os') \<Rightarrow> (\<exists>f. r = Inl (ECancelled ''worker_verify_declaration'' f)) \<and> w' = demo_worker [] []"
proof -
  let ?snk = "no_sinks\<lparr>sk_token := Some 0\<rparr>"
  let ?ext = "expect_response ''worker_verify_declaration''
         (\<lambda>r. case r of RDeclarationVerification x \<Rightarrow> Some x | _ \<Rightarrow> None)"
  obtain r w' os' where v: "worker_verify_declaration (\<lambda>_. None) ''req'' ''opts'' ?snk (demo_worker [] []) demo_world
     = (r, w', os')" by (cases "worker_verify_declaration (\<lambda>_. None) ''req'' ''opts'' ?snk (demo_worker [] []) demo_world")
  let ?e = "ECancelled ''worker_verify_declaration'' (bare_resource_facts ''worker_cancelled'' ''worker_verify_declaration'' None)"
  have rt: "round_trip (\<lambda>_. None) ''worker_verify_declaration'' (VerifyDeclaration ''req'' ''opts'' (sk_progress ?snk \<noteq> None))
      False ?snk ?ext (demo_worker [] []) demo_world = (Inl ?e, demo_worker [] [], demo_world)"
    by (simp add: round_trip_def exchange_def check_cancelled_def is_cancelled_def extract_response_def no_sinks_def)
  have "r = Inl ?e" "w' = demo_worker [] []"
    using verification_degrades_honestly [OF rt demo_restartable v] by auto
  then show ?thesis using v by simp
qed

end
