(* ===== verification/Worker_Session.thy ===== *)
theory Worker_Session
  imports Worker_Request
begin

text \<open>
  Opening a session (\<open>open_worker_session\<close> of \<open>supervisor.rs\<close>): the parent predicts from
  the keys it has opened whether the child still holds the session, picks the admission
  checks by that prediction, and corrects its accounts by what the child answers.
\<close>

section \<open>The reuse hint\<close>

definition reuse_hint_capacity :: "worker \<Rightarrow> nat" where
  "reuse_hint_capacity w =
     max (case resolved_session_pool_capacity (wk_config w) of
            Some n \<Rightarrow> n | None \<Rightarrow> DEFAULT_REUSE_HINT_CAPACITY) 1"

definition note_open_session_key :: "session_config \<Rightarrow> worker \<Rightarrow> worker" where
  "note_open_session_key cfg w =
     (case position (\<lambda>key. key = cfg) (wk_open_session_keys w) of
        Some index \<Rightarrow>
          w\<lparr>wk_open_session_keys := remove_at index (wk_open_session_keys w) @ [wk_open_session_keys w ! index]\<rparr>
      | None \<Rightarrow>
          w\<lparr>wk_open_session_keys := pop_front_to (reuse_hint_capacity w) (wk_open_session_keys w @ [cfg])\<rparr>)"

definition forget_session_keys :: "worker \<Rightarrow> worker" where
  "forget_session_keys w = w\<lparr>wk_open_session_keys := []\<rparr>"

section \<open>Opening\<close>

text \<open>What \<open>HostSessionOpened\<close> and \<open>HostSessionReused\<close> change.\<close>

definition session_opened ::
  "session_config \<Rightarrow> bool \<Rightarrow> nat \<Rightarrow> nat \<Rightarrow> import_stats \<Rightarrow> worker \<Rightarrow> world \<Rightarrow> worker \<times> world" where
  "session_opened cfg expect_reuse before_restarts import_started i w os =
     (let w1 = (if expect_reuse \<and> \<not> wk_reuse_observed w \<and> wk_open_session_keys w \<noteq> [] \<and>
                   last (wk_open_session_keys w) = cfg
                then w\<lparr>wk_reuse_hint_enabled := False\<rparr> else w);
          w2 = record_import i w1;
          w3 = (if expect_reuse
                then w2\<lparr>wk_pending_restart :=
                          import_limit_reached (wk_budget w2) (cfg_restart_policy (wk_config w2))\<rparr>
                else w2)
      in case elapsed import_started os of (took, os1) \<Rightarrow>
        let w4 = upd_stats (\<lambda>s. s\<lparr>st_last_session_open_import_elapsed := Some took\<rparr>) w3;
            w5 = (if before_restarts < st_restarts (wk_stats w4)
                  then upd_stats (\<lambda>s. s\<lparr>st_last_replacement_timing :=
                         map_option (\<lambda>t. t\<lparr>ti_session_open_import := took\<rparr>) (st_last_replacement_timing s)\<rparr>) w4
                  else w4);
            w6 = upd_stats (\<lambda>s. s\<lparr>st_last_import_stats := Some i\<rparr>) w5
        in (note_open_session_key cfg w6, os1))"

definition session_reused :: "session_config \<Rightarrow> import_stats \<Rightarrow> worker \<Rightarrow> worker" where
  "session_reused cfg i w =
     note_open_session_key cfg
       (upd_stats (\<lambda>s. s\<lparr>st_last_import_stats := Some i\<rparr>) (w\<lparr>wk_reuse_observed := True\<rparr>))"

definition take_pending_restart :: "worker \<Rightarrow> world \<Rightarrow> unit outcome" where
  "take_pending_restart w os =
     (case wk_pending_restart w of
        None \<Rightarrow> (Inr (), w, os)
      | Some reason \<Rightarrow> restart_with_reason reason (w\<lparr>wk_pending_restart := None\<rparr>) os)"

definition predicts_reuse :: "session_config \<Rightarrow> worker \<Rightarrow> bool" where
  "predicts_reuse cfg w \<longleftrightarrow> wk_reuse_hint_enabled w \<and> list_ex (\<lambda>key. key = cfg) (wk_open_session_keys w)"

definition open_request :: "session_config \<Rightarrow> request" where
  "open_request cfg = OpenHostSession (sc_project_root cfg) (sc_mode cfg) (sc_imports cfg) (sc_import_profile cfg)"

definition open_answered ::
  "session_config \<Rightarrow> bool \<Rightarrow> nat \<Rightarrow> nat \<Rightarrow> response outcome \<Rightarrow> unit outcome" where
  "open_answered cfg expect_reuse before_restarts import_started out =
     (case out of
        (Inl e, w, os) \<Rightarrow> (Inl e, forget_session_keys w, os)
      | (Inr r, w, os) \<Rightarrow>
          (case r of
             RHostSessionOpened i \<Rightarrow>
               (case session_opened cfg expect_reuse before_restarts import_started i w os of
                  (w1, os1) \<Rightarrow> (Inr (), w1, os1))
           | RHostSessionReused i \<Rightarrow> (Inr (), session_reused cfg i w, os)
           | _ \<Rightarrow> (Inl (unexpected_response ''open_worker_session'' r), forget_session_keys w, os)))"

definition open_worker_session ::
  "(json \<Rightarrow> string option) \<Rightarrow> session_config \<Rightarrow> sinks \<Rightarrow> worker \<Rightarrow> world \<Rightarrow> unit outcome" where
  "open_worker_session pp cfg snk w os =
     (case check_cancelled ''open_worker_session'' (sk_token snk) os of
        Inl e \<Rightarrow> (Inl e, w, os)
      | Inr _ \<Rightarrow>
          let before_restarts = st_restarts (wk_stats w) in
          (case take_pending_restart w os of
             (Inl e, w1, os1) \<Rightarrow> (Inl e, w1, os1)
           | (Inr _, w1, os1) \<Rightarrow>
               let predicted = predicts_reuse cfg w1 in
               (case prepare_request (\<not> predicted) w1 os1 of
                  (Inl e, w2, os2) \<Rightarrow> (Inl e, w2, os2)
                | (Inr _, w2, os2) \<Rightarrow>
                    let expect_reuse = (predicted \<and> st_restarts (wk_stats w2) = before_restarts) in
                    (case now os2 of (import_started, os3) \<Rightarrow>
                       (case send_request (open_request cfg) w2 os3 of
                          (Inl e, w4, os4) \<Rightarrow> (Inl e, w4, os4)
                        | (Inr _, w4, os4) \<Rightarrow>
                            (case record_request False w4 os4 of (w5, os5) \<Rightarrow>
                               open_answered cfg expect_reuse before_restarts import_started
                                 (read_response_with_progress pp ''open_worker_session'' snk w5 os5)))))))"

section \<open>The hint is a recency list\<close>

definition hint_ok :: "worker \<Rightarrow> bool" where
  "hint_ok w \<longleftrightarrow> distinct (wk_open_session_keys w) \<and> length (wk_open_session_keys w) \<le> reuse_hint_capacity w"

lemma reuse_hint_capacity_pos [simp]: "0 < reuse_hint_capacity w"
  by (simp add: reuse_hint_capacity_def)

lemma note_open_session_key_lru:
  assumes "hint_ok w"
  shows "wk_open_session_keys (note_open_session_key cfg w) =
    lru_touch (reuse_hint_capacity w) cfg (wk_open_session_keys w)"
proof (cases "position (\<lambda>key. key = cfg) (wk_open_session_keys w)")
  case None
  then have "cfg \<notin> set (wk_open_session_keys w)" by (auto simp: position_None)
  with None show ?thesis
    by (simp add: note_open_session_key_def pop_front_to_drop lru_touch_def Let_def removeAll_id del: position_None)
next
  case (Some i)
  note p = position_SomeD [OF Some]
  from assms have d: "distinct (wk_open_session_keys w)" and l: "length (wk_open_session_keys w) \<le> reuse_hint_capacity w"
    by (simp_all add: hint_ok_def)
  have "cfg \<in> set (wk_open_session_keys w)" using p nth_mem by metis
  from lru_touch_mem_no_drop [OF d l this] remove_at_position [OF d Some] p Some show ?thesis
    by (simp add: note_open_session_key_def)
qed

lemma note_open_session_key_frame [simp]:
  "wk_config (note_open_session_key cfg w) = wk_config w" "wk_stats (note_open_session_key cfg w) = wk_stats w"
  "wk_budget (note_open_session_key cfg w) = wk_budget w" "wk_generation (note_open_session_key cfg w) = wk_generation w"
  "wk_pending_restart (note_open_session_key cfg w) = wk_pending_restart w"
  "wk_reuse_hint_enabled (note_open_session_key cfg w) = wk_reuse_hint_enabled w"
  "wk_reuse_observed (note_open_session_key cfg w) = wk_reuse_observed w"
  "alive p (note_open_session_key cfg w) = alive p w"
  by (auto simp: note_open_session_key_def alive_def split: option.splits)

lemma reuse_hint_capacity_config: "wk_config w' = wk_config w \<Longrightarrow> reuse_hint_capacity w' = reuse_hint_capacity w"
  by (simp add: reuse_hint_capacity_def)

lemma note_open_session_key_ok: "hint_ok w \<Longrightarrow> hint_ok (note_open_session_key cfg w)"
  using note_open_session_key_lru [of w cfg] reuse_hint_capacity_config [of "note_open_session_key cfg w" w]
  by (simp add: hint_ok_def lru_simps)

lemma session_opened_fields:
  assumes "session_opened cfg expect before started i w os = (w', os')"
  shows "wk_open_session_keys w' = wk_open_session_keys (note_open_session_key cfg w)"
    and "wk_budget w' = budget_record_import (wk_budget w) i"
    and "st_imports (wk_stats w') = sat_inc (st_imports (wk_stats w))"
    and "wk_pending_restart w' = (if expect then import_limit_reached (wk_budget w') (cfg_restart_policy (wk_config w))
                                  else wk_pending_restart w)"
    and "st_last_import_stats (wk_stats w') = Some i"
    and "wk_config w' = wk_config w"
proof -
  obtain took os1 where e: "elapsed started os = (took, os1)" by (cases "elapsed started os")
  have keys: "wk_open_session_keys (note_open_session_key cfg v) = wk_open_session_keys (note_open_session_key cfg w)"
    if "wk_open_session_keys v = wk_open_session_keys w" "wk_config v = wk_config w" for v
    using that by (simp add: note_open_session_key_def reuse_hint_capacity_def split: option.splits del: position_None)
  from assms e show "wk_open_session_keys w' = wk_open_session_keys (note_open_session_key cfg w)"
    by (auto simp: session_opened_def Let_def record_import_def intro!: keys)
  from assms e show "wk_budget w' = budget_record_import (wk_budget w) i"
    "st_imports (wk_stats w') = sat_inc (st_imports (wk_stats w))"
    "wk_pending_restart w' = (if expect then import_limit_reached (wk_budget w') (cfg_restart_policy (wk_config w))
                                  else wk_pending_restart w)"
    "st_last_import_stats (wk_stats w') = Some i" "wk_config w' = wk_config w"
    by (auto simp: session_opened_def Let_def record_import_def)
qed

lemma session_reused_fields [simp]:
  "wk_budget (session_reused cfg i w) = wk_budget w" "wk_pending_restart (session_reused cfg i w) = wk_pending_restart w"
  "st_imports (wk_stats (session_reused cfg i w)) = st_imports (wk_stats w)"
  "st_last_session_open_import_elapsed (wk_stats (session_reused cfg i w)) =
     st_last_session_open_import_elapsed (wk_stats w)"
  "wk_reuse_observed (session_reused cfg i w) = True"
  "wk_config (session_reused cfg i w) = wk_config w"
  by (simp_all add: session_reused_def)

lemma session_reused_keys:
  "wk_open_session_keys (session_reused cfg i w) = wk_open_session_keys (note_open_session_key cfg w)"
  by (simp add: session_reused_def note_open_session_key_def reuse_hint_capacity_def split: option.splits del: position_None)

text \<open>Session accounting follows the child's answer, not the parent's prediction.  An opened session
  counts one import and charges its residue to the generation; if a reuse had been predicted, the restart the
  skipped admission check would have made is deferred exactly when a limit is now reached.  A reused session
  moves no import counter, no budget and no import time.  Both make the session the most recent hint; every
  other outcome is an error and leaves no hint at all.\<close>

theorem session_accounts_follow_answer:
  assumes "hint_ok w" and "open_answered cfg expect before started (r, w, os) = (q, w', os')"
  shows "(\<forall>i. r = Inr (RHostSessionOpened i) \<longrightarrow>
            q = Inr () \<and> st_imports (wk_stats w') = sat_inc (st_imports (wk_stats w)) \<and>
            wk_budget w' = budget_record_import (wk_budget w) i \<and>
            (expect \<longrightarrow> wk_pending_restart w' =
               import_limit_reached (wk_budget w') (cfg_restart_policy (wk_config w))) \<and>
            wk_open_session_keys w' = lru_touch (reuse_hint_capacity w) cfg (wk_open_session_keys w)) \<and>
         (\<forall>i. r = Inr (RHostSessionReused i) \<longrightarrow>
            q = Inr () \<and> st_imports (wk_stats w') = st_imports (wk_stats w) \<and> wk_budget w' = wk_budget w \<and>
            st_last_session_open_import_elapsed (wk_stats w') = st_last_session_open_import_elapsed (wk_stats w) \<and>
            wk_open_session_keys w' = lru_touch (reuse_hint_capacity w) cfg (wk_open_session_keys w)) \<and>
         ((\<forall>i. r \<noteq> Inr (RHostSessionOpened i) \<and> r \<noteq> Inr (RHostSessionReused i)) \<longrightarrow>
            (\<exists>e. q = Inl e) \<and> wk_open_session_keys w' = [])"
proof -
  note k = note_open_session_key_lru [OF assms(1)]
  have 1: "q = Inr () \<and> session_opened cfg expect before started i w os = (w', os')"
    if "r = Inr (RHostSessionOpened i)" for i
    using that assms(2) by (auto simp: open_answered_def split: prod.splits)
  have 2: "q = Inr () \<and> w' = session_reused cfg i w" if "r = Inr (RHostSessionReused i)" for i
    using that assms(2) by (auto simp: open_answered_def)
  have 3: "(\<exists>e. q = Inl e) \<and> wk_open_session_keys w' = []"
    if "\<forall>i. r \<noteq> Inr (RHostSessionOpened i) \<and> r \<noteq> Inr (RHostSessionReused i)"
    using that assms(2) by (auto simp: open_answered_def forget_session_keys_def split: sum.splits response.splits)
  show ?thesis
    using session_opened_fields [OF conjunct2 [OF 1]] 1 2 3 k by (auto simp: session_reused_keys)
qed

definition demo_config :: "string \<Rightarrow> session_config" where
  "demo_config root = \<lparr>sc_project_root = root, sc_mode = ModeShimsOnly, sc_imports = [''Init''], sc_import_profile = Private\<rparr>"

definition demo_import_stats :: import_stats where
  "demo_import_stats = \<lparr>is_direct_import_names = [], is_effective_module_count = 1, is_compacted_region_count = 1,
     is_memory_mapped_region_count = 0, is_compacted_region_bytes = 10, is_memory_mapped_region_bytes = 0,
     is_non_memory_mapped_region_bytes = 10, is_imported_bytes = 0, is_imported_constant_count = 5,
     is_extension_count = 0, is_total_imported_extension_entries = 0,
     is_import_level = '''', is_import_all = False, is_load_exts = False\<rparr>"

theorem session_accounts_follow_answer_witness:
  "case open_answered (demo_config ''p'') True 0 0 (Inr (RHostSessionOpened demo_import_stats), demo_worker [] [], demo_world) of
     (q, w', os') \<Rightarrow> q = Inr () \<and> st_imports (wk_stats w') = 1 \<and> wk_open_session_keys w' = [demo_config ''p'']"
proof -
  let ?out = "(Inr (RHostSessionOpened demo_import_stats), demo_worker [] [], demo_world)"
  obtain q w' os' where o: "open_answered (demo_config ''p'') True 0 0 ?out = (q, w', os')"
    by (cases "open_answered (demo_config ''p'') True 0 0 ?out")
  have keys: "wk_open_session_keys (demo_worker [] []) = []" by (simp add: demo_worker_def new_worker_def)
  then have h: "hint_ok (demo_worker [] [])" by (simp add: hint_ok_def)
  have cap: "reuse_hint_capacity (demo_worker [] []) = 4"
    by (simp add: reuse_hint_capacity_def demo_worker_def new_worker_def config_new_def
        resolved_session_pool_capacity_def policy_disabled_def DEFAULT_REUSE_HINT_CAPACITY_def)
  from session_accounts_follow_answer [OF h o] o keys cap show ?thesis
    by (simp add: lru_touch_def stats_default_def sat_add_def u64_max_def)
qed

end
