(* ===== verification/Child_Sessions.thy ===== *)
theory Child_Sessions
  imports Worker_Session
begin

text \<open>
  The imported environments a worker child holds (\<open>child.rs\<close> of
  \<open>lean-rs-worker-child\<close>): one current session, the parked ones, the leaked host anchors
  behind them, and the rule by which \<open>OpenHostSession\<close> reuses, evicts and imports.

  What Lean does is a \<open>lean_rt\<close>: the process-global registry stamp, which an import may
  move, the environments that a retained module snapshot pins, and one script for each kind
  of call that can fail (loads, imports, stamp reads, cache clears).  A call takes the head
  of its script.
\<close>

section \<open>State\<close>

text \<open>What the child reads of a \<open>LeanError\<close>: its code and its rendering.\<close>

record lean_error =
  le_code :: string
  le_message :: string

record host_session_key =
  hk_project_root :: string
  hk_mode :: host_session_mode
  hk_imports :: "string list"
  hk_import_profile :: import_profile

text \<open>The exports a capability has resolved for one session, per signature.\<close>

record worker_bindings =
  wb_string_io :: "string list"
  wb_streams :: "string list"
  wb_fixture_mul :: "string list"
  wb_fixture_panic :: "string list"

definition bindings_new :: worker_bindings where
  "bindings_new = \<lparr>wb_string_io = [], wb_streams = [], wb_fixture_mul = [], wb_fixture_panic = []\<rparr>"

record host_anchor =
  ha_project_root :: string
  ha_mode :: host_session_mode
  ha_worker_capability :: bool

record host_session =
  hs_key :: host_session_key
  hs_worker_bindings :: "worker_bindings option"
  hs_environment :: nat
  hs_import_stats :: import_stats
  hs_epoch :: nat

record child_sessions =
  cs_host_session :: "host_session option"
  cs_parked :: "host_session list"
  cs_anchors :: "host_anchor list"

datatype load = LakeProject string | BuildManifest string | ShimsOnlyLoad | CapabilityLoad string string

record lean_rt =
  rt_epoch :: nat
  rt_next_environment :: nat
  rt_snapshots :: "nat list"
  rt_leaked :: "load list"
  rt_loads :: "(lean_error + unit) list"
  rt_imports :: "(nat \<times> (lean_error + import_stats)) list"
  rt_epoch_reads :: "bool list"
  rt_clears :: "(lean_error + nat) list"

section \<open>Configuration\<close>

definition SESSION_POOL_DEFAULT_CAPACITY :: nat where "SESSION_POOL_DEFAULT_CAPACITY = 4"

definition child_session_pool_capacity :: "string option \<Rightarrow> nat" where
  "child_session_pool_capacity raw =
     max (case (case raw of None \<Rightarrow> None | Some r \<Rightarrow> parse_unsigned u64_max (trim r)) of
            Some n \<Rightarrow> n | None \<Rightarrow> SESSION_POOL_DEFAULT_CAPACITY) 1"

section \<open>Responses to failures\<close>

definition error_response :: "lean_error \<Rightarrow> response" where
  "error_response err = RError (le_code err) (le_message err)"

definition missing_session_response :: response where
  "missing_session_response =
     RError ''lean_rs.worker.session_missing'' ''open a LeanWorkerSession before sending host-session requests''"

section \<open>Calls into Lean\<close>

definition live_extension_registry_epoch :: "lean_rt \<Rightarrow> nat option \<times> lean_rt" where
  "live_extension_registry_epoch rt =
     (case rt_epoch_reads rt of
        [] \<Rightarrow> (Some (rt_epoch rt), rt)
      | ok # rest \<Rightarrow> (if ok then Some (rt_epoch rt) else None, rt\<lparr>rt_epoch_reads := rest\<rparr>))"

definition clear_module_snapshot_cache :: "lean_rt \<Rightarrow> (lean_error + nat) \<times> lean_rt" where
  "clear_module_snapshot_cache rt =
     (case rt_clears rt of
        [] \<Rightarrow> (Inr (length (rt_snapshots rt)), rt\<lparr>rt_snapshots := []\<rparr>)
      | Inl e # rest \<Rightarrow> (Inl e, rt\<lparr>rt_clears := rest\<rparr>)
      | Inr _ # rest \<Rightarrow> (Inr (length (rt_snapshots rt)), rt\<lparr>rt_snapshots := [], rt_clears := rest\<rparr>))"

text \<open>A successful load is leaked at once (\<open>Box::leak\<close>).\<close>

definition load_leaked :: "load \<Rightarrow> lean_rt \<Rightarrow> (lean_error + unit) \<times> lean_rt" where
  "load_leaked l rt =
     (case rt_loads rt of
        [] \<Rightarrow> (Inr (), rt\<lparr>rt_leaked := rt_leaked rt @ [l]\<rparr>)
      | Inl e # rest \<Rightarrow> (Inl e, rt\<lparr>rt_loads := rest\<rparr>)
      | Inr _ # rest \<Rightarrow> (Inr (), rt\<lparr>rt_loads := rest, rt_leaked := rt_leaked rt @ [l]\<rparr>))"

section \<open>Anchors\<close>

definition anchor_matches :: "string \<Rightarrow> host_session_mode \<Rightarrow> host_anchor \<Rightarrow> bool" where
  "anchor_matches root mode a \<longleftrightarrow> ha_project_root a = root \<and> ha_mode a = mode"

definition load_mode :: "host_session_mode \<Rightarrow> lean_rt \<Rightarrow> (lean_error + bool) \<times> lean_rt" where
  "load_mode mode rt =
     (case mode of
        ModeCapability package lib_name manifest_path \<Rightarrow>
          (case manifest_path of
             Some path \<Rightarrow>
               (case load_leaked (BuildManifest path) rt of
                  (Inl e, rt1) \<Rightarrow> (Inl e, rt1)
                | (Inr _, rt1) \<Rightarrow>
                    (case load_leaked ShimsOnlyLoad rt1 of
                       (Inl e, rt2) \<Rightarrow> (Inl e, rt2)
                     | (Inr _, rt2) \<Rightarrow> (Inr True, rt2)))
           | None \<Rightarrow>
               (case load_leaked (CapabilityLoad package lib_name) rt of
                  (Inl e, rt1) \<Rightarrow> (Inl e, rt1)
                | (Inr _, rt1) \<Rightarrow> (Inr False, rt1)))
      | ModeShimsOnly \<Rightarrow>
          (case load_leaked ShimsOnlyLoad rt of
             (Inl e, rt1) \<Rightarrow> (Inl e, rt1)
           | (Inr _, rt1) \<Rightarrow> (Inr False, rt1)))"

definition anchor_build :: "string \<Rightarrow> host_session_mode \<Rightarrow> lean_rt \<Rightarrow> (lean_error + host_anchor) \<times> lean_rt" where
  "anchor_build root mode rt =
     (case load_leaked (LakeProject root) rt of
        (Inl e, rt1) \<Rightarrow> (Inl e, rt1)
      | (Inr _, rt1) \<Rightarrow>
          (case load_mode mode rt1 of
             (Inl e, rt2) \<Rightarrow> (Inl e, rt2)
           | (Inr cap, rt2) \<Rightarrow>
               (Inr \<lparr>ha_project_root = root, ha_mode = mode, ha_worker_capability = cap\<rparr>, rt2)))"

definition find_or_build_anchor ::
  "host_session_key \<Rightarrow> host_anchor list \<Rightarrow> lean_rt \<Rightarrow> (lean_error + host_anchor) \<times> host_anchor list \<times> lean_rt" where
  "find_or_build_anchor key anchors rt =
     (case find (anchor_matches (hk_project_root key) (hk_mode key)) anchors of
        Some a \<Rightarrow> (Inr a, anchors, rt)
      | None \<Rightarrow>
          (case anchor_build (hk_project_root key) (hk_mode key) rt of
             (Inr a, rt1) \<Rightarrow> (Inr a, anchors @ [a], rt1)
           | (Inl e, rt1) \<Rightarrow> (Inl e, anchors, rt1)))"

section \<open>Importing\<close>

definition host_session_open ::
  "host_anchor \<Rightarrow> host_session_key \<Rightarrow> lean_rt \<Rightarrow> (lean_error + host_session) \<times> lean_rt" where
  "host_session_open anchor key rt =
     (case rt_imports rt of
        [] \<Rightarrow> (Inl \<lparr>le_code = ''lean_rs.lean_exception'', le_message = ''no such module''\<rparr>, rt)
      | (grown, res) # rest \<Rightarrow>
          let rt1 = rt\<lparr>rt_imports := rest, rt_epoch := rt_epoch rt + grown\<rparr> in
          (case res of
             Inl e \<Rightarrow> (Inl e, rt1)
           | Inr stats \<Rightarrow>
               (Inr \<lparr>hs_key = key,
                     hs_worker_bindings = (if ha_worker_capability anchor then Some bindings_new else None),
                     hs_environment = rt_next_environment rt1, hs_import_stats = stats, hs_epoch = rt_epoch rt1\<rparr>,
                rt1\<lparr>rt_next_environment := Suc (rt_next_environment rt1)\<rparr>)))"

section \<open>Evicting\<close>

definition is_stale :: "nat option \<Rightarrow> host_session \<Rightarrow> bool" where
  "is_stale live s \<longleftrightarrow> live \<noteq> Some (hs_epoch s)"

definition probe :: "child_sessions \<Rightarrow> host_session option" where
  "probe cs = (case cs_host_session cs of
                 Some s \<Rightarrow> Some s
               | None \<Rightarrow> (case cs_parked cs of [] \<Rightarrow> None | s # _ \<Rightarrow> Some s))"

definition evict_stale_host_sessions :: "child_sessions \<Rightarrow> lean_rt \<Rightarrow> child_sessions \<times> lean_rt" where
  "evict_stale_host_sessions cs rt =
     (case probe cs of
        None \<Rightarrow> (cs, rt)
      | Some _ \<Rightarrow>
          (case live_extension_registry_epoch rt of
             (live, rt1) \<Rightarrow>
               let current_stale = (case cs_host_session cs of Some s \<Rightarrow> is_stale live s | None \<Rightarrow> False) in
               if \<not> current_stale \<and> \<not> list_ex (is_stale live) (cs_parked cs) then (cs, rt1)
               else
                 (case clear_module_snapshot_cache rt1 of
                    (_, rt2) \<Rightarrow>
                      (cs\<lparr>cs_parked := filter (\<lambda>s. \<not> is_stale live s) (cs_parked cs),
                          cs_host_session := (if current_stale then None else cs_host_session cs)\<rparr>, rt2))))"

text \<open>
  \<open>while parked.len() >= capacity\<close>: clear, then drop the front.  With a capacity of zero the
  source would go on to remove from an empty vector and panic; \<open>child_session_pool_capacity\<close> is at
  least one.
\<close>

fun evict_to_capacity :: "nat \<Rightarrow> host_session list \<Rightarrow> lean_rt \<Rightarrow> host_session list \<times> lean_rt" where
  "evict_to_capacity capacity [] rt = ([], rt)"
| "evict_to_capacity capacity (s # parked) rt =
     (if capacity \<le> length (s # parked)
      then case clear_module_snapshot_cache rt of (_, rt1) \<Rightarrow> evict_to_capacity capacity parked rt1
      else (s # parked, rt))"

section \<open>Opening\<close>

definition park_current :: "child_sessions \<Rightarrow> child_sessions" where
  "park_current cs =
     (case cs_host_session cs of
        Some outgoing \<Rightarrow> cs\<lparr>cs_parked := cs_parked cs @ [outgoing], cs_host_session := None\<rparr>
      | None \<Rightarrow> cs)"

definition import_host_session ::
  "nat \<Rightarrow> host_session_key \<Rightarrow> child_sessions \<Rightarrow> lean_rt \<Rightarrow> response \<times> child_sessions \<times> lean_rt" where
  "import_host_session capacity key cs rt =
     (let cs1 = park_current cs in
      case evict_to_capacity capacity (cs_parked cs1) rt of
        (parked, rt1) \<Rightarrow>
          (case find_or_build_anchor key (cs_anchors cs1) rt1 of
             (anchor, anchors, rt2) \<Rightarrow>
               let cs2 = cs1\<lparr>cs_parked := parked, cs_anchors := anchors\<rparr> in
               (case anchor of
                  Inl err \<Rightarrow> (error_response err, cs2, rt2)
                | Inr a \<Rightarrow>
                    (case host_session_open a key rt2 of
                       (Inl err, rt3) \<Rightarrow> (error_response err, cs2, rt3)
                     | (Inr state, rt3) \<Rightarrow>
                         (case evict_stale_host_sessions (cs2\<lparr>cs_host_session := Some state\<rparr>) rt3 of
                            (cs3, rt4) \<Rightarrow> (RHostSessionOpened (hs_import_stats state), cs3, rt4))))))"

definition reuse_parked :: "nat \<Rightarrow> child_sessions \<Rightarrow> response \<times> child_sessions" where
  "reuse_parked index cs =
     (let state = cs_parked cs ! index;
          cs1 = park_current (cs\<lparr>cs_parked := remove_at index (cs_parked cs)\<rparr>)
      in (RHostSessionReused (hs_import_stats state), cs1\<lparr>cs_host_session := Some state\<rparr>))"

definition open_or_reuse_host_session ::
  "nat \<Rightarrow> host_session_key \<Rightarrow> child_sessions \<Rightarrow> lean_rt \<Rightarrow> response \<times> child_sessions \<times> lean_rt" where
  "open_or_reuse_host_session capacity key cs0 rt0 =
     (case evict_stale_host_sessions cs0 rt0 of
        (cs, rt) \<Rightarrow>
          let import_or_parked =
            (case position (\<lambda>state. hs_key state = key) (cs_parked cs) of
               Some index \<Rightarrow> (case reuse_parked index cs of (r, cs1) \<Rightarrow> (r, cs1, rt))
             | None \<Rightarrow> import_host_session capacity key cs rt)
          in case cs_host_session cs of
               Some state \<Rightarrow>
                 (if hs_key state = key then (RHostSessionReused (hs_import_stats state), cs, rt)
                  else import_or_parked)
             | None \<Rightarrow> import_or_parked)"

section \<open>What the child holds\<close>

definition held :: "child_sessions \<Rightarrow> host_session list" where
  "held cs = cs_parked cs @ (case cs_host_session cs of Some s \<Rightarrow> [s] | None \<Rightarrow> [])"

definition held_keys :: "child_sessions \<Rightarrow> host_session_key list" where
  "held_keys cs = map hs_key (held cs)"

definition anchor_key :: "host_anchor \<Rightarrow> string \<times> host_session_mode" where
  "anchor_key a = (ha_project_root a, ha_mode a)"

definition anchored :: "host_anchor list \<Rightarrow> host_session \<Rightarrow> bool" where
  "anchored anchors s \<longleftrightarrow> (hk_project_root (hs_key s), hk_mode (hs_key s)) \<in> set (map anchor_key anchors)"

text \<open>The invariant of the pool.\<close>

definition pool_ok :: "nat \<Rightarrow> child_sessions \<Rightarrow> lean_rt \<Rightarrow> bool" where
  "pool_ok capacity cs rt \<longleftrightarrow>
     length (held cs) \<le> capacity \<and> distinct (held_keys cs) \<and>
     distinct (map hs_environment (held cs)) \<and> list_all (\<lambda>s. hs_environment s < rt_next_environment rt) (held cs) \<and>
     distinct (map anchor_key (cs_anchors cs)) \<and> list_all (anchored (cs_anchors cs)) (held cs)"

definition reads_succeed :: "lean_rt \<Rightarrow> bool" where
  "reads_succeed rt \<longleftrightarrow> list_all (\<lambda>ok. ok) (rt_epoch_reads rt)"

definition clears_succeed :: "lean_rt \<Rightarrow> bool" where
  "clears_succeed rt \<longleftrightarrow> list_all (\<lambda>r. \<not> isl r) (rt_clears rt)"

text \<open>Every environment a retained snapshot pins is one the child holds.\<close>

definition pins_only_held :: "child_sessions \<Rightarrow> lean_rt \<Rightarrow> bool" where
  "pins_only_held cs rt \<longleftrightarrow> set (rt_snapshots rt) \<subseteq> set (map hs_environment (held cs))"

section \<open>Facts on the steps\<close>

lemma live_epoch_frame:
  assumes "live_extension_registry_epoch rt = (live, rt')"
  shows "rt_epoch rt' = rt_epoch rt" "rt_next_environment rt' = rt_next_environment rt"
    "rt_snapshots rt' = rt_snapshots rt" "rt_leaked rt' = rt_leaked rt" "rt_loads rt' = rt_loads rt"
    "rt_imports rt' = rt_imports rt" "rt_clears rt' = rt_clears rt"
    "live = Some (rt_epoch rt) \<or> live = None"
    "reads_succeed rt \<Longrightarrow> live = Some (rt_epoch rt) \<and> reads_succeed rt'"
  using assms by (auto simp: live_extension_registry_epoch_def reads_succeed_def split: list.splits if_splits)

lemma clear_frame:
  assumes "clear_module_snapshot_cache rt = (r, rt')"
  shows "rt_epoch rt' = rt_epoch rt" "rt_next_environment rt' = rt_next_environment rt"
    "set (rt_snapshots rt') \<subseteq> set (rt_snapshots rt)" "rt_leaked rt' = rt_leaked rt" "rt_loads rt' = rt_loads rt"
    "rt_imports rt' = rt_imports rt" "rt_epoch_reads rt' = rt_epoch_reads rt"
    "clears_succeed rt \<Longrightarrow> rt_snapshots rt' = [] \<and> clears_succeed rt'"
  using assms
  by (auto simp: clear_module_snapshot_cache_def clears_succeed_def split: list.splits sum.splits)

lemma held_empty: "probe cs = None \<longleftrightarrow> held cs = []"
  by (auto simp: probe_def held_def split: option.splits list.splits)

text \<open>Evicting keeps exactly the sessions the stamp that was read agrees with.\<close>

lemma evict_stale_spec:
  assumes e: "evict_stale_host_sessions cs rt = (cs', rt')"
  obtains live where "live = Some (rt_epoch rt) \<or> live = None"
    and "reads_succeed rt \<Longrightarrow> live = Some (rt_epoch rt)"
    and "held cs' = filter (\<lambda>s. \<not> is_stale live s) (held cs)"
    and "cs_anchors cs' = cs_anchors cs"
    and "rt_epoch rt' = rt_epoch rt" "rt_next_environment rt' = rt_next_environment rt"
    and "rt_leaked rt' = rt_leaked rt" "rt_loads rt' = rt_loads rt" "rt_imports rt' = rt_imports rt"
    and "reads_succeed rt \<Longrightarrow> reads_succeed rt'" "clears_succeed rt \<Longrightarrow> clears_succeed rt'"
    and "clears_succeed rt \<Longrightarrow> pins_only_held cs rt \<Longrightarrow> pins_only_held cs' rt'"
    and "cs_host_session cs' = None \<or> cs_host_session cs' = cs_host_session cs"
proof (cases "probe cs")
  case None
  with e have "cs' = cs" "rt' = rt" by (simp_all add: evict_stale_host_sessions_def)
  with None that [of "Some (rt_epoch rt)"] show thesis by (simp add: held_empty)
next
  case (Some p)
  obtain live rt1 where l: "live_extension_registry_epoch rt = (live, rt1)"
    by (cases "live_extension_registry_epoch rt")
  obtain r rt2 where c: "clear_module_snapshot_cache rt1 = (r, rt2)"
    by (cases "clear_module_snapshot_cache rt1")
  note lf = live_epoch_frame [OF l] and cf = clear_frame [OF c]
  have clr: "clears_succeed rt \<Longrightarrow> clears_succeed rt1" using lf by (simp add: clears_succeed_def)
  have rd: "reads_succeed rt1 \<Longrightarrow> reads_succeed rt2" using cf by (simp add: reads_succeed_def)
  let ?cur = "case cs_host_session cs of Some s \<Rightarrow> is_stale live s | None \<Rightarrow> False"
  show thesis
  proof (cases "\<not> ?cur \<and> \<not> list_ex (is_stale live) (cs_parked cs)")
    case True
    with e Some l have same: "cs' = cs" "rt' = rt1" by (simp_all add: evict_stale_host_sessions_def)
    have "\<forall>s \<in> set (held cs). \<not> is_stale live s"
      using True by (auto simp: held_def list_ex_iff split: option.splits)
    then have "filter (\<lambda>s. \<not> is_stale live s) (held cs) = held cs" by simp
    with same lf clr show thesis by (intro that [of live]) (auto simp: pins_only_held_def)
  next
    case False
    with e Some l c have new:
      "cs' = cs\<lparr>cs_parked := filter (\<lambda>s. \<not> is_stale live s) (cs_parked cs),
                cs_host_session := (if ?cur then None else cs_host_session cs)\<rparr>" "rt' = rt2"
      by (auto simp: evict_stale_host_sessions_def Let_def)
    have "held cs' = filter (\<lambda>s. \<not> is_stale live s) (held cs)"
      using new by (auto simp: held_def split: option.splits)
    with new lf cf clr rd show thesis by (intro that [of live]) (auto simp: pins_only_held_def)
  qed
qed

lemma evict_to_capacity_frame:
  "evict_to_capacity capacity parked rt = (parked', rt') \<Longrightarrow>
     rt_epoch rt' = rt_epoch rt \<and> rt_next_environment rt' = rt_next_environment rt \<and>
     rt_leaked rt' = rt_leaked rt \<and> rt_loads rt' = rt_loads rt \<and> rt_imports rt' = rt_imports rt \<and>
     rt_epoch_reads rt' = rt_epoch_reads rt \<and> (clears_succeed rt \<longrightarrow> clears_succeed rt')"
proof (induction capacity parked rt arbitrary: parked' rt' rule: evict_to_capacity.induct)
  case (2 capacity s parked rt)
  obtain r rt1 where c: "clear_module_snapshot_cache rt = (r, rt1)" by (cases "clear_module_snapshot_cache rt")
  note cf = clear_frame [OF c]
  show ?case
  proof (cases "capacity \<le> length (s # parked)")
    case True
    with 2(2) c have "evict_to_capacity capacity parked rt1 = (parked', rt')" by simp
    from 2(1) [OF True c [symmetric] this] cf show ?thesis by simp
  qed (use 2(2) in simp)
qed simp

lemma evict_to_capacity_drop:
  "0 < capacity \<Longrightarrow> fst (evict_to_capacity capacity parked rt) = drop (Suc (length parked) - capacity) parked"
proof (induction capacity parked rt rule: evict_to_capacity.induct)
  case (2 capacity s parked rt)
  obtain r rt1 where c: "clear_module_snapshot_cache rt = (r, rt1)" by (cases "clear_module_snapshot_cache rt")
  show ?case
  proof (cases "capacity \<le> length (s # parked)")
    case True
    with 2(1) [OF True c [symmetric] 2(2)] c show ?thesis by (simp add: Suc_diff_le)
  qed (use 2(2) in simp)
qed simp

lemma evict_to_capacity_pins:
  "evict_to_capacity capacity parked rt = (parked', rt') \<Longrightarrow> clears_succeed rt \<Longrightarrow>
   set (rt_snapshots rt) \<subseteq> set (map hs_environment parked) \<Longrightarrow>
   set (rt_snapshots rt') \<subseteq> set (map hs_environment parked')"
proof (induction capacity parked rt arbitrary: parked' rt' rule: evict_to_capacity.induct)
  case (2 capacity s parked rt)
  obtain r rt1 where c: "clear_module_snapshot_cache rt = (r, rt1)" by (cases "clear_module_snapshot_cache rt")
  note cf = clear_frame [OF c]
  show ?case
  proof (cases "capacity \<le> length (s # parked)")
    case True
    with 2(2) c have "evict_to_capacity capacity parked rt1 = (parked', rt')" by simp
    from 2(1) [OF True c [symmetric] this] cf 2(3) show ?thesis by simp
  qed (use 2(2,4) in simp)
qed simp

lemma park_current_fields [simp]:
  "cs_parked (park_current cs) = held cs" "cs_host_session (park_current cs) = None"
  "cs_anchors (park_current cs) = cs_anchors cs"
  by (auto simp: park_current_def held_def split: option.splits)

lemma load_leaked_frame:
  assumes "load_leaked l rt = (r, rt')"
  shows "rt_epoch rt' = rt_epoch rt \<and> rt_next_environment rt' = rt_next_environment rt \<and>
    rt_snapshots rt' = rt_snapshots rt \<and> rt_imports rt' = rt_imports rt \<and> rt_epoch_reads rt' = rt_epoch_reads rt \<and>
    rt_clears rt' = rt_clears rt"
  using assms by (auto simp: load_leaked_def split: list.splits sum.splits)

lemma load_mode_frame:
  assumes "load_mode mode rt = (r, rt')"
  shows "rt_epoch rt' = rt_epoch rt \<and> rt_next_environment rt' = rt_next_environment rt \<and>
    rt_snapshots rt' = rt_snapshots rt \<and> rt_imports rt' = rt_imports rt \<and> rt_epoch_reads rt' = rt_epoch_reads rt \<and>
    rt_clears rt' = rt_clears rt"
  using assms
  by (auto simp: load_mode_def dest!: load_leaked_frame split: host_session_mode.splits option.splits prod.splits sum.splits)

lemma anchor_build_frame:
  assumes "anchor_build root mode rt = (r, rt')"
  shows "rt_epoch rt' = rt_epoch rt \<and> rt_next_environment rt' = rt_next_environment rt \<and>
    rt_snapshots rt' = rt_snapshots rt \<and> rt_imports rt' = rt_imports rt \<and> rt_epoch_reads rt' = rt_epoch_reads rt \<and>
    rt_clears rt' = rt_clears rt"
  using assms
  by (auto simp: anchor_build_def dest!: load_leaked_frame load_mode_frame split: prod.splits sum.splits)

lemma anchor_build_key: "anchor_build root mode rt = (Inr a, rt') \<Longrightarrow> anchor_key a = (root, mode)"
  by (auto simp: anchor_build_def anchor_key_def split: prod.splits sum.splits)

text \<open>Looking an anchor up adds at most one, never a second one for the same project and mode.\<close>

lemma find_or_build_anchor_spec:
  assumes "find_or_build_anchor key anchors rt = (a, anchors', rt')" and d: "distinct (map anchor_key anchors)"
  shows "rt_epoch rt' = rt_epoch rt \<and> rt_next_environment rt' = rt_next_environment rt \<and>
      rt_snapshots rt' = rt_snapshots rt \<and> rt_imports rt' = rt_imports rt \<and> rt_epoch_reads rt' = rt_epoch_reads rt \<and>
      rt_clears rt' = rt_clears rt"
    and "distinct (map anchor_key anchors')" and "set anchors \<subseteq> set anchors'"
    and "\<And>h. a = Inr h \<Longrightarrow> h \<in> set anchors' \<and> anchor_key h = (hk_project_root key, hk_mode key)"
    and "(\<exists>h \<in> set anchors. anchor_key h = (hk_project_root key, hk_mode key)) \<Longrightarrow>
           rt_leaked rt' = rt_leaked rt \<and> anchors' = anchors"
proof -
  let ?root = "hk_project_root key" and ?mode = "hk_mode key"
  obtain b rt1 where b: "anchor_build ?root ?mode rt = (b, rt1)" by (cases "anchor_build ?root ?mode rt")
  note bf = anchor_build_frame [OF b]
  have m: "anchor_matches ?root ?mode h \<longleftrightarrow> anchor_key h = (?root, ?mode)" for h
    by (simp add: anchor_matches_def anchor_key_def)
  have all: "(rt_epoch rt' = rt_epoch rt \<and> rt_next_environment rt' = rt_next_environment rt \<and>
      rt_snapshots rt' = rt_snapshots rt \<and> rt_imports rt' = rt_imports rt \<and> rt_epoch_reads rt' = rt_epoch_reads rt \<and>
      rt_clears rt' = rt_clears rt) \<and> distinct (map anchor_key anchors') \<and> set anchors \<subseteq> set anchors' \<and>
      (\<forall>h. a = Inr h \<longrightarrow> h \<in> set anchors' \<and> anchor_key h = (?root, ?mode)) \<and>
      ((\<exists>h \<in> set anchors. anchor_key h = (?root, ?mode)) \<longrightarrow> rt_leaked rt' = rt_leaked rt \<and> anchors' = anchors)"
  proof (cases "find (anchor_matches ?root ?mode) anchors")
    case (Some h)
    then have "h \<in> set anchors" "anchor_matches ?root ?mode h" by (auto simp: find_Some_iff)
    with Some assms show ?thesis by (auto simp: find_or_build_anchor_def m)
  next
    case None
    then have nm: "(?root, ?mode) \<notin> anchor_key ` set anchors" by (auto simp: find_None_iff m)
    then have none: "(\<exists>h \<in> set anchors. anchor_key h = (?root, ?mode)) = False" by force
    show ?thesis
    proof (cases b)
      case (Inl e)
      with None assms(1) b have "a = Inl e" "anchors' = anchors" "rt' = rt1" by (simp_all add: find_or_build_anchor_def)
      with none d bf show ?thesis by simp
    next
      case (Inr h)
      with b have k: "anchor_key h = (?root, ?mode)" by (auto dest: anchor_build_key)
      from None assms(1) b Inr have "a = Inr h" "anchors' = anchors @ [h]" "rt' = rt1"
        by (simp_all add: find_or_build_anchor_def)
      with k nm d bf none show ?thesis by auto
    qed
  qed
  then show "rt_epoch rt' = rt_epoch rt \<and> rt_next_environment rt' = rt_next_environment rt \<and>
      rt_snapshots rt' = rt_snapshots rt \<and> rt_imports rt' = rt_imports rt \<and> rt_epoch_reads rt' = rt_epoch_reads rt \<and>
      rt_clears rt' = rt_clears rt"
    and "distinct (map anchor_key anchors')" and "set anchors \<subseteq> set anchors'"
    and "\<And>h. a = Inr h \<Longrightarrow> h \<in> set anchors' \<and> anchor_key h = (?root, ?mode)"
    and "(\<exists>h \<in> set anchors. anchor_key h = (?root, ?mode)) \<Longrightarrow>
           rt_leaked rt' = rt_leaked rt \<and> anchors' = anchors"
    by blast+
qed

text \<open>A failed import leaves no current session; a completed one is current unless its own stamp read failed.\<close>

lemma import_host_session_cases:
  assumes i: "import_host_session capacity key cs rt = (r, cs', rt')" and cap: "0 < capacity"
    and ok: "distinct (map anchor_key (cs_anchors cs))"
  obtains (failed) err where "r = error_response err" "cs_host_session cs' = None"
      "cs_parked cs' = drop (Suc (length (held cs)) - capacity) (held cs)"
      "distinct (map anchor_key (cs_anchors cs'))" "set (cs_anchors cs) \<subseteq> set (cs_anchors cs')"
      "rt_next_environment rt' = rt_next_environment rt" "rt_epoch rt \<le> rt_epoch rt'"
      "clears_succeed rt \<Longrightarrow> pins_only_held cs rt \<Longrightarrow> pins_only_held cs' rt'"
      "reads_succeed rt \<Longrightarrow> reads_succeed rt'" "clears_succeed rt \<Longrightarrow> clears_succeed rt'"
  | (opened) state cs2 rt3 grown stats rest where "r = RHostSessionOpened stats" "hs_key state = key" "hs_import_stats state = stats"
      "rt_imports rt = (grown, Inr stats) # rest" "rt_imports rt' = rest"
      "hs_environment state = rt_next_environment rt" "hs_epoch state = rt_epoch rt + grown"
      "rt_epoch rt3 = rt_epoch rt + grown" "rt_next_environment rt3 = Suc (rt_next_environment rt)"
      "held cs2 = drop (Suc (length (held cs)) - capacity) (held cs) @ [state]" "cs_host_session cs2 = Some state"
      "distinct (map anchor_key (cs_anchors cs2))" "set (cs_anchors cs) \<subseteq> set (cs_anchors cs2)"
      "anchored (cs_anchors cs2) state"
      "clears_succeed rt \<Longrightarrow> pins_only_held cs rt \<Longrightarrow> pins_only_held cs2 rt3"
      "reads_succeed rt \<Longrightarrow> reads_succeed rt3" "clears_succeed rt \<Longrightarrow> clears_succeed rt3"
      "evict_stale_host_sessions cs2 rt3 = (cs', rt')"
proof -
  let ?keep = "drop (Suc (length (held cs)) - capacity) (held cs)"
  obtain parked rt1 where e: "evict_to_capacity capacity (held cs) rt = (parked, rt1)"
    by (cases "evict_to_capacity capacity (held cs) rt")
  obtain anchor anchors rt2 where a: "find_or_build_anchor key (cs_anchors cs) rt1 = (anchor, anchors, rt2)"
    by (cases "find_or_build_anchor key (cs_anchors cs) rt1")
  note ef = evict_to_capacity_frame [OF e] and af = find_or_build_anchor_spec [OF a ok]
  have parked: "parked = ?keep" using evict_to_capacity_drop [OF cap, of "held cs" rt] e by simp
  have pins: "set (rt_snapshots rt2) \<subseteq> set (map hs_environment parked)"
    if "clears_succeed rt" "pins_only_held cs rt"
    using evict_to_capacity_pins [OF e that(1)] that(2) af(1) by (simp add: pins_only_held_def)
  have cl: "clears_succeed rt \<Longrightarrow> clears_succeed rt2" using ef af(1) by (simp add: clears_succeed_def)
  have rd: "reads_succeed rt \<Longrightarrow> reads_succeed rt2" using ef af(1) by (simp add: reads_succeed_def)
  let ?cs2 = "(park_current cs)\<lparr>cs_parked := parked, cs_anchors := anchors\<rparr>"
  show thesis
  proof (cases anchor)
    case (Inl err)
    with i e a have "r = error_response err" "cs' = ?cs2" "rt' = rt2"
      by (simp_all add: import_host_session_def)
    with parked pins cl rd ef af show thesis
      by (intro failed [of err]) (auto simp: pins_only_held_def held_def)
  next
    case (Inr h)
    note hk = af(4) [OF Inr]
    obtain res rt3 where s: "host_session_open h key rt2 = (res, rt3)" by (cases "host_session_open h key rt2")
    show thesis
    proof (cases res)
      case (Inl err)
      with i e a Inr s have same: "r = error_response err" "cs' = ?cs2" "rt' = rt3"
        by (simp_all add: import_host_session_def)
      from s Inl have "rt_next_environment rt3 = rt_next_environment rt2 \<and> rt_epoch rt2 \<le> rt_epoch rt3 \<and>
         rt_snapshots rt3 = rt_snapshots rt2 \<and> rt_clears rt3 = rt_clears rt2 \<and> rt_epoch_reads rt3 = rt_epoch_reads rt2"
        by (auto simp: host_session_open_def Let_def split: list.splits sum.splits prod.splits)
      with same parked pins cl rd ef af show thesis
        by (intro failed [of err]) (auto simp: pins_only_held_def held_def clears_succeed_def reads_succeed_def)
    next
      case (Inr state)
      from s Inr obtain grown stats rest where im: "rt_imports rt2 = (grown, Inr stats) # rest"
        and st: "hs_key state = key" "hs_environment state = rt_next_environment rt2" "hs_import_stats state = stats"
          "hs_epoch state = rt_epoch rt2 + grown"
        and r3: "rt_epoch rt3 = rt_epoch rt2 + grown" "rt_next_environment rt3 = Suc (rt_next_environment rt2)"
          "rt_imports rt3 = rest" "rt_snapshots rt3 = rt_snapshots rt2" "rt_clears rt3 = rt_clears rt2"
          "rt_epoch_reads rt3 = rt_epoch_reads rt2"
        by (auto simp: host_session_open_def Let_def split: list.splits sum.splits prod.splits)
      let ?cs3 = "?cs2\<lparr>cs_host_session := Some state\<rparr>"
      from i e a \<open>anchor = Inr h\<close> s Inr st obtain ev: "evict_stale_host_sessions ?cs3 rt3 = (cs', rt')"
        and r: "r = RHostSessionOpened stats"
        by (auto simp: import_host_session_def split: prod.splits)
      have rest: "rt_imports rt' = rest" using evict_stale_spec [OF ev] r3(3) by metis
      have anch: "anchored anchors state" using hk st(1) by (force simp: anchored_def anchor_key_def)
      have hd3: "held ?cs3 = parked @ [state]" by (simp add: held_def)
      show thesis
        using r st im r3 rest ev parked pins cl rd ef af anch hd3
        by (intro opened [of stats state grown rest rt3 ?cs3]) (auto simp: pins_only_held_def clears_succeed_def reads_succeed_def)
    qed
  qed
qed

text \<open>The two ways an open ends: a held session moves to the most recent place, or an import is tried.\<close>

lemma open_cases:
  assumes o: "open_or_reuse_host_session capacity key cs0 rt0 = (r, cs', rt')"
  obtains (reused) cs i where "evict_stale_host_sessions cs0 rt0 = (cs, rt')"
      "i < length (held cs)" "hs_key (held cs ! i) = key" "r = RHostSessionReused (hs_import_stats (held cs ! i))"
      "held cs' = remove_at i (held cs) @ [held cs ! i]" "cs_host_session cs' = Some (held cs ! i)"
      "cs_anchors cs' = cs_anchors cs"
  | (imported) cs rt where "evict_stale_host_sessions cs0 rt0 = (cs, rt)"
      "key \<notin> set (held_keys cs)" "import_host_session capacity key cs rt = (r, cs', rt')"
proof -
  obtain cs rt where e: "evict_stale_host_sessions cs0 rt0 = (cs, rt)" by (cases "evict_stale_host_sessions cs0 rt0")
  show thesis
  proof (cases "\<exists>state. cs_host_session cs = Some state \<and> hs_key state = key")
    case True
    then obtain state where s: "cs_host_session cs = Some state" "hs_key state = key" by blast
    with o e have "r = RHostSessionReused (hs_import_stats state)" "cs' = cs" "rt' = rt"
      by (simp_all add: open_or_reuse_host_session_def)
    with s e show thesis
      by (intro reused [of cs "length (cs_parked cs)"]) (simp_all add: held_def remove_at_def)
  next
    case nocur: False
    show thesis
    proof (cases "position (\<lambda>state. hs_key state = key) (cs_parked cs)")
      case None
      with o e nocur have "import_host_session capacity key cs rt = (r, cs', rt')"
        by (simp add: open_or_reuse_host_session_def Let_def del: position_None split: option.splits)
      moreover have "key \<notin> set (held_keys cs)"
        using None nocur by (cases "cs_host_session cs") (auto simp: held_keys_def held_def)
      ultimately show thesis using e by (intro imported)
    next
      case (Some i)
      note p = position_SomeD [OF Some]
      from o e nocur Some have *: "(r, cs') = reuse_parked i cs" "rt' = rt"
        by (auto simp: open_or_reuse_host_session_def Let_def split: option.splits prod.splits if_splits)
      have nth: "held cs ! i = cs_parked cs ! i" using p by (simp add: held_def nth_append)
      have rem: "held (cs\<lparr>cs_parked := remove_at i (cs_parked cs)\<rparr>) = remove_at i (held cs)"
        using p by (simp add: held_def remove_at_def split: option.splits)
      from *(1) rem nth have "r = RHostSessionReused (hs_import_stats (held cs ! i))"
        "held cs' = remove_at i (held cs) @ [held cs ! i]" "cs_host_session cs' = Some (held cs ! i)"
        "cs_anchors cs' = cs_anchors cs"
        by (simp_all add: reuse_parked_def Let_def held_def [of "_\<lparr>cs_host_session := Some _\<rparr>"])
      with e * p nth show thesis by (intro reused [of cs i]) (simp_all add: held_def)
    qed
  qed
qed

lemma pool_ok_sub:
  assumes "pool_ok capacity cs rt" and "held cs' = filter P (held cs)" and "cs_anchors cs' = cs_anchors cs"
    and "rt_next_environment rt' = rt_next_environment rt"
  shows "pool_ok capacity cs' rt'"
  using assms length_filter_le [of P "held cs"]
  by (auto simp: pool_ok_def held_keys_def distinct_map inj_on_def list_all_iff simp del: length_filter_le intro: le_trans)

lemma evict_stale_pool_ok:
  "pool_ok capacity cs rt \<Longrightarrow> evict_stale_host_sessions cs rt = (cs', rt') \<Longrightarrow> pool_ok capacity cs' rt'"
  by (erule evict_stale_spec) (erule pool_ok_sub, assumption+)

lemma touch_pool_ok:
  assumes ok: "pool_ok capacity cs rt" and i: "i < length (held cs)"
    and h: "held cs' = remove_at i (held cs) @ [held cs ! i]" and a: "cs_anchors cs' = cs_anchors cs"
  shows "pool_ok capacity cs' rt"
proof -
  have split: "held cs = take i (held cs) @ held cs ! i # drop (Suc i) (held cs)" using i by (rule id_take_nth_drop)
  define xs x ys where "xs = take i (held cs)" and "x = held cs ! i" and "ys = drop (Suc i) (held cs)"
  then have "held cs = xs @ x # ys" "held cs' = xs @ ys @ [x]" using split h by (simp_all add: remove_at_def)
  with ok a show ?thesis by (auto simp: pool_ok_def held_keys_def)
qed

lemma anchored_mono: "anchored as s \<Longrightarrow> set as \<subseteq> set as' \<Longrightarrow> anchored as' s"
  by (auto simp: anchored_def)

lemma pool_ok_drop:
  assumes "pool_ok capacity cs rt" and "held cs' = drop n (held cs)"
    and "set (cs_anchors cs) \<subseteq> set (cs_anchors cs')" and "distinct (map anchor_key (cs_anchors cs'))"
    and "rt_next_environment rt' = rt_next_environment rt"
  shows "pool_ok capacity cs' rt'"
  using assms
  by (auto simp: pool_ok_def held_keys_def drop_map [symmetric] distinct_drop list_all_iff
      dest!: in_set_dropD intro: anchored_mono)

lemma pool_ok_snoc:
  assumes ok: "pool_ok capacity cs rt" and h: "held cs' = held cs @ [s]" and "Suc (length (held cs)) \<le> capacity"
    and "hs_key s \<notin> set (held_keys cs)" and "hs_environment s = rt_next_environment rt"
    and "rt_next_environment rt' = Suc (rt_next_environment rt)"
    and "cs_anchors cs' = cs_anchors cs" and "anchored (cs_anchors cs) s"
  shows "pool_ok capacity cs' rt'"
proof -
  have lt: "\<forall>x \<in> set (held cs). hs_environment x < rt_next_environment rt"
    using ok by (simp add: pool_ok_def list_all_iff)
  then have "rt_next_environment rt \<notin> hs_environment ` set (held cs)" by force
  with assms lt show ?thesis by (simp add: pool_ok_def held_keys_def list_all_iff less_Suc_eq)
qed

lemma open_pool_ok:
  assumes cap: "0 < capacity" and ok: "pool_ok capacity cs0 rt0"
    and o: "open_or_reuse_host_session capacity key cs0 rt0 = (r, cs', rt')"
  shows "pool_ok capacity cs' rt'"
  using o
proof (cases rule: open_cases)
  case (reused cs i)
  from evict_stale_pool_ok [OF ok reused(1)] reused(2,5,7) show ?thesis by (rule touch_pool_ok)
next
  case (imported cs rt)
  note ok1 = evict_stale_pool_ok [OF ok imported(1)]
  then have d: "distinct (map anchor_key (cs_anchors cs))" by (simp add: pool_ok_def)
  from imported(3) cap d show ?thesis
  proof (cases rule: import_host_session_cases)
    case (failed err)
    have "held cs' = drop (Suc (length (held cs)) - capacity) (held cs)" using failed by (simp add: held_def)
    from pool_ok_drop [OF ok1 this failed(5,4,6)] show ?thesis .
  next
    case (opened state cs2 rt3 grown stats rest)
    let ?keep = "drop (Suc (length (held cs)) - capacity) (held cs)"
    let ?kept = "\<lparr>cs_host_session = None, cs_parked = ?keep, cs_anchors = cs_anchors cs2\<rparr>"
    have hk: "held ?kept = ?keep" by (simp add: held_def)
    have "pool_ok capacity ?kept rt"
      using hk opened(12,13) by - (rule pool_ok_drop [OF ok1], simp_all)
    moreover have "hs_key state \<notin> set (held_keys ?kept)"
      using imported(2) opened(2) unfolding held_keys_def hk by (auto dest: in_set_dropD)
    moreover have "Suc (length (held ?kept)) \<le> capacity" unfolding hk using cap by simp
    ultimately have "pool_ok capacity cs2 rt3"
      using opened(6,9,10,14) hk by - (rule pool_ok_snoc [of capacity ?kept rt cs2 state rt3], simp_all)
    from evict_stale_pool_ok [OF this opened(18)] show ?thesis .
  qed
qed

section \<open>Sequences of opens\<close>

definition fresh_child :: child_sessions where
  "fresh_child = \<lparr>cs_host_session = None, cs_parked = [], cs_anchors = []\<rparr>"

fun run_opens ::
  "nat \<Rightarrow> host_session_key list \<Rightarrow> child_sessions \<Rightarrow> lean_rt \<Rightarrow> response list \<times> child_sessions \<times> lean_rt" where
  "run_opens capacity [] cs rt = ([], cs, rt)"
| "run_opens capacity (key # keys) cs rt =
     (case open_or_reuse_host_session capacity key cs rt of
        (r, cs1, rt1) \<Rightarrow> (case run_opens capacity keys cs1 rt1 of (rs, cs2, rt2) \<Rightarrow> (r # rs, cs2, rt2)))"

definition is_error :: "response \<Rightarrow> bool" where
  "is_error r = (case r of RError _ _ \<Rightarrow> True | _ \<Rightarrow> False)"

text \<open>The environments that agree with the registry as it stands.\<close>

definition fresh :: "lean_rt \<Rightarrow> host_session \<Rightarrow> bool" where
  "fresh rt s \<longleftrightarrow> hs_epoch s = rt_epoch rt"

definition current_fresh :: "child_sessions \<Rightarrow> lean_rt \<Rightarrow> bool" where
  "current_fresh cs rt \<longleftrightarrow> (case cs_host_session cs of Some s \<Rightarrow> fresh rt s | None \<Rightarrow> True)"

lemma child_session_pool_capacity_pos [simp]: "0 < child_session_pool_capacity raw"
  by (simp add: child_session_pool_capacity_def)

lemma fresh_child_ok: "pool_ok capacity fresh_child rt"
  by (simp add: pool_ok_def fresh_child_def held_def held_keys_def)

lemma run_opens_ok:
  "0 < capacity \<Longrightarrow> pool_ok capacity cs rt \<Longrightarrow> run_opens capacity keys cs rt = (rs, cs', rt') \<Longrightarrow>
   pool_ok capacity cs' rt'"
proof (induction keys arbitrary: cs rt rs cs' rt')
  case (Cons key keys)
  obtain r cs1 rt1 where o: "open_or_reuse_host_session capacity key cs rt = (r, cs1, rt1)"
    by (cases "open_or_reuse_host_session capacity key cs rt")
  obtain rs2 cs2 rt2 where n: "run_opens capacity keys cs1 rt1 = (rs2, cs2, rt2)"
    by (cases "run_opens capacity keys cs1 rt1")
  from Cons.IH [OF Cons.prems(1) open_pool_ok [OF Cons.prems(1,2) o] n] Cons.prems(3) o n show ?case by simp
qed simp

text \<open>A sweep leaves only sessions that agree with the registry, whatever the stamp read did.\<close>

lemma evict_stale_fresh:
  assumes e: "evict_stale_host_sessions cs rt = (cs', rt')"
  shows "list_all (fresh rt') (held cs')"
  using e
proof (cases rule: evict_stale_spec)
  case (1 live)
  then show ?thesis by (auto simp: list_all_iff fresh_def is_stale_def)
qed

lemma evict_stale_live:
  assumes e: "evict_stale_host_sessions cs rt = (cs', rt')" and r: "reads_succeed rt"
  shows "held cs' = filter (fresh rt) (held cs)"
  using e
proof (cases rule: evict_stale_spec)
  case (1 live)
  then have "live = Some (rt_epoch rt)" using r by blast
  with 1(3) show ?thesis by (auto simp: fresh_def [abs_def] is_stale_def intro: filter_cong)
qed

lemma held_current: "cs_host_session cs = Some s \<Longrightarrow> s \<in> set (held cs)"
  by (simp add: held_def)

lemma error_response_is_error [simp]: "is_error (error_response e)"
  by (simp add: is_error_def error_response_def)

lemma open_fresh:
  assumes cap: "0 < capacity" and ok: "pool_ok capacity cs rt"
    and o: "open_or_reuse_host_session capacity key cs rt = (r, cs', rt')"
  shows "if is_error r then cs_host_session cs' = None else list_all (fresh rt') (held cs')"
  using o
proof (cases rule: open_cases)
  case (reused cs1 i)
  with evict_stale_fresh [OF reused(1)] set_remove_at_subset [of i "held cs1"] show ?thesis
    by (auto simp: is_error_def list_all_iff)
next
  case (imported cs1 rt1)
  from evict_stale_pool_ok [OF ok imported(1)] have d: "distinct (map anchor_key (cs_anchors cs1))"
    by (simp add: pool_ok_def)
  from imported(3) cap d show ?thesis
  proof (cases rule: import_host_session_cases)
    case (opened state cs2 rt3 grown stats rest)
    with evict_stale_fresh [OF opened(18)] show ?thesis by (simp add: is_error_def)
  qed simp
qed

lemma run_opens_fresh:
  "0 < capacity \<Longrightarrow> pool_ok capacity cs rt \<Longrightarrow> current_fresh cs rt \<Longrightarrow>
   run_opens capacity keys cs rt = (rs, cs', rt') \<Longrightarrow> current_fresh cs' rt'"
proof (induction keys arbitrary: cs rt rs cs' rt')
  case (Cons key keys)
  obtain r cs1 rt1 where o: "open_or_reuse_host_session capacity key cs rt = (r, cs1, rt1)"
    by (cases "open_or_reuse_host_session capacity key cs rt")
  obtain rs2 cs2 rt2 where n: "run_opens capacity keys cs1 rt1 = (rs2, cs2, rt2)"
    by (cases "run_opens capacity keys cs1 rt1")
  have c1: "current_fresh cs1 rt1"
    using open_fresh [OF Cons.prems(1,2) o]
    by (auto simp: current_fresh_def list_all_iff dest: held_current split: option.splits if_splits)
  from Cons.IH [OF Cons.prems(1) open_pool_ok [OF Cons.prems(1,2) o] c1 n] Cons.prems(4) o n show ?case by simp
qed simp

section \<open>Correctness\<close>

text \<open>C34: Whatever imports, loads, clears and stamp reads do, a child that has served any sequence of open
  requests holds at most the configured number of environments (at least one), no two sessions of the same
  key, no two of the same environment, and exactly one leaked anchor for every project and mode it holds a
  session of.\<close>

theorem child_pool_invariant:
  "case run_opens (child_session_pool_capacity raw) keys fresh_child rt of
     (rs, cs, rt') \<Rightarrow> pool_ok (child_session_pool_capacity raw) cs rt'"
proof -
  obtain rs cs rt' where n: "run_opens (child_session_pool_capacity raw) keys fresh_child rt = (rs, cs, rt')"
    by (cases "run_opens (child_session_pool_capacity raw) keys fresh_child rt")
  from run_opens_ok [OF _ fresh_child_ok n] n show ?thesis by simp
qed

text \<open>C9: No request is ever served from an environment that predates a registry change: after any sequence
  of opens the current session, when there is one, was imported under the stamp that is live now.  This holds
  also when stamp reads fail (then everything is dropped) and when an import fails after it has moved the
  registry (then there is no current session).\<close>

theorem current_session_never_stale:
  "case run_opens (child_session_pool_capacity raw) keys fresh_child rt of (rs, cs, rt') \<Rightarrow> current_fresh cs rt'"
proof -
  obtain rs cs rt' where n: "run_opens (child_session_pool_capacity raw) keys fresh_child rt = (rs, cs, rt')"
    by (cases "run_opens (child_session_pool_capacity raw) keys fresh_child rt")
  have "current_fresh fresh_child rt" by (simp add: current_fresh_def fresh_child_def)
  from run_opens_fresh [OF _ fresh_child_ok this n] n show ?thesis by simp
qed

text \<open>The specification: a recency cache of environment keys, emptied by an import that moves the registry.\<close>

definition recency_open :: "nat \<Rightarrow> nat \<Rightarrow> 'k \<Rightarrow> 'k list \<Rightarrow> 'k list" where
  "recency_open capacity grown key live =
     (if key \<in> set live then removeAll key live @ [key]
      else if grown = 0 then lru_touch capacity key live else [key])"

definition live_keys :: "lean_rt \<Rightarrow> child_sessions \<Rightarrow> host_session_key list" where
  "live_keys rt cs = map hs_key (filter (fresh rt) (held cs))"

lemma remove_at_removeAll:
  "distinct xs \<Longrightarrow> i < length xs \<Longrightarrow> remove_at i xs = removeAll (xs ! i) xs"
proof -
  assume d: "distinct xs" and i: "i < length xs"
  have split: "xs = take i xs @ xs ! i # drop (Suc i) xs" using i by (rule id_take_nth_drop)
  define ys x zs where "ys = take i xs" and "x = xs ! i" and "zs = drop (Suc i) xs"
  with split have xs: "xs = ys @ x # zs" by simp
  with d have "x \<notin> set ys" "x \<notin> set zs" by auto
  then have "removeAll x xs = ys @ zs" using xs by (simp add: removeAll_id)
  then show ?thesis by (simp add: remove_at_def ys_def x_def zs_def)
qed

lemma lru_touch_fresh_key:
  "key \<notin> set ks \<Longrightarrow> 0 < capacity \<Longrightarrow> lru_touch capacity key ks = drop (Suc (length ks) - capacity) ks @ [key]"
  by (simp add: lru_touch_def removeAll_id Suc_diff_le)

lemma open_refines:
  assumes cap: "0 < capacity" and ok: "pool_ok capacity cs rt" and reads: "reads_succeed rt"
    and o: "open_or_reuse_host_session capacity key cs rt = (r, cs', rt')"
  shows "((\<exists>i. r = RHostSessionReused i) \<longleftrightarrow> key \<in> set (live_keys rt cs)) \<and>
         (\<forall>i. r = RHostSessionReused i \<longrightarrow>
            rt_imports rt' = rt_imports rt \<and> rt_leaked rt' = rt_leaked rt \<and>
            held_keys cs' = recency_open capacity 0 key (live_keys rt cs)) \<and>
         (\<forall>i. r = RHostSessionOpened i \<longrightarrow>
            (\<exists>grown. rt_imports rt = (grown, Inr i) # rt_imports rt' \<and> rt_epoch rt' = rt_epoch rt + grown \<and>
               held_keys cs' = recency_open capacity grown key (live_keys rt cs))) \<and>
         (is_error r \<longrightarrow> held_keys cs' = drop (Suc (length (live_keys rt cs)) - capacity) (live_keys rt cs))"
  using o
proof (cases rule: open_cases)
  case (reused cs1 i)
  have live: "live_keys rt cs = held_keys cs1"
    using evict_stale_live [OF reused(1) reads] by (simp add: live_keys_def held_keys_def)
  have d: "distinct (held_keys cs1)" and il: "i < length (held_keys cs1)" and ik: "held_keys cs1 ! i = key"
    using evict_stale_pool_ok [OF ok reused(1)] reused(2,3) by (auto simp: pool_ok_def held_keys_def)
  have mem: "key \<in> set (held_keys cs1)" using il ik nth_mem by metis
  have "held_keys cs' = remove_at i (held_keys cs1) @ [key]"
    using reused(3,5) by (simp add: held_keys_def map_remove_at)
  also have "\<dots> = recency_open capacity 0 key (held_keys cs1)"
    using remove_at_removeAll [OF d il] ik mem by (simp add: recency_open_def)
  finally have hk: "held_keys cs' = recency_open capacity 0 key (live_keys rt cs)" by (simp add: live)
  have "rt_imports rt' = rt_imports rt \<and> rt_leaked rt' = rt_leaked rt"
    using reused(1) by (cases rule: evict_stale_spec) simp
  with hk mem live reused(4) show ?thesis by (simp add: is_error_def)
next
  case (imported cs1 rt1)
  note ok1 = evict_stale_pool_ok [OF ok imported(1)]
  then have d: "distinct (map anchor_key (cs_anchors cs1))" by (simp add: pool_ok_def)
  have live: "live_keys rt cs = held_keys cs1"
    using evict_stale_live [OF imported(1) reads] by (simp add: live_keys_def held_keys_def)
  have r1: "reads_succeed rt1 \<and> rt_imports rt1 = rt_imports rt \<and> rt_epoch rt1 = rt_epoch rt"
    using imported(1) reads by (cases rule: evict_stale_spec) simp
  have len: "length (held_keys cs1) = length (held cs1)" by (simp add: held_keys_def)
  from imported(3) cap d show ?thesis
  proof (cases rule: import_host_session_cases)
    case (failed err)
    then have "held_keys cs' = drop (Suc (length (held cs1)) - capacity) (held_keys cs1)"
      by (simp add: held_keys_def held_def drop_map)
    with failed(1) imported(2) live len show ?thesis by (simp add: error_response_def)
  next
    case (opened state cs2 rt3 grown stats rest)
    let ?keep = "drop (Suc (length (held cs1)) - capacity) (held cs1)"
    have old: "hs_epoch s = rt_epoch rt1" if "s \<in> set ?keep" for s
      using evict_stale_fresh [OF imported(1)] in_set_dropD [OF that] by (simp add: list_all_iff fresh_def)
    have keep: "filter (fresh rt3) ?keep = (if grown = 0 then ?keep else [])"
      using old opened(8) by (auto simp: fresh_def filter_empty_conv intro!: filter_True)
    have "fresh rt3 state" using opened(7,8) by (simp add: fresh_def)
    with evict_stale_live [OF opened(18)] opened(16) r1 opened(10) keep
    have "held cs' = (if grown = 0 then ?keep else []) @ [state]" by simp
    then have "held_keys cs' = (if grown = 0 then drop (Suc (length (held cs1)) - capacity) (held_keys cs1) else []) @ [key]"
      using opened(2) by (simp add: held_keys_def drop_map)
    then have "held_keys cs' = recency_open capacity grown key (held_keys cs1)"
      using imported(2) cap len lru_touch_fresh_key [OF imported(2) cap] by (simp add: recency_open_def)
    moreover have "rt_epoch rt' = rt_epoch rt + grown"
      using evict_stale_spec [OF opened(18)] opened(8) r1 by metis
    ultimately show ?thesis using opened(1,4,5) r1 imported(2) live by (simp add: is_error_def)
  qed
qed

text \<open>C3: When stamp reads succeed, the pool behaves as its specification, a recency cache of the keys whose
  environments agree with the registry.  A request is answered by a reuse exactly when its key is in the
  cache, and then nothing is imported, built or leaked; it is answered by an import exactly when one import
  was consumed, and the cache is then the least-recently-used update at the configured capacity, or the new
  key alone when that import moved the registry; a failed request keeps what capacity eviction left.\<close>

theorem child_pool_refines_recency_cache:
  assumes "0 < capacity" and "pool_ok capacity cs rt" and "reads_succeed rt"
    and "open_or_reuse_host_session capacity key cs rt = (r, cs', rt')"
  shows "((\<exists>i. r = RHostSessionReused i) \<longleftrightarrow> key \<in> set (live_keys rt cs)) \<and>
         (\<forall>i. r = RHostSessionReused i \<longrightarrow>
            rt_imports rt' = rt_imports rt \<and> rt_leaked rt' = rt_leaked rt \<and>
            held_keys cs' = recency_open capacity 0 key (live_keys rt cs)) \<and>
         (\<forall>i. r = RHostSessionOpened i \<longrightarrow>
            (\<exists>grown. rt_imports rt = (grown, Inr i) # rt_imports rt' \<and> rt_epoch rt' = rt_epoch rt + grown \<and>
               held_keys cs' = recency_open capacity grown key (live_keys rt cs))) \<and>
         (is_error r \<longrightarrow> held_keys cs' = drop (Suc (length (live_keys rt cs)) - capacity) (live_keys rt cs))"
  using assms by (rule open_refines)

definition demo_key :: "string \<Rightarrow> host_session_key" where
  "demo_key root = \<lparr>hk_project_root = root, hk_mode = ModeShimsOnly, hk_imports = [''Init''], hk_import_profile = Private\<rparr>"

definition demo_rt :: lean_rt where
  "demo_rt = \<lparr>rt_epoch = 7, rt_next_environment = 0, rt_snapshots = [], rt_leaked = [], rt_loads = [],
     rt_imports = [(0, Inr demo_import_stats), (0, Inr demo_import_stats), (1, Inr demo_import_stats)],
     rt_epoch_reads = [], rt_clears = []\<rparr>"

lemmas child_demo_defs = demo_key_def demo_rt_def open_or_reuse_host_session_def import_host_session_def
  evict_stale_host_sessions_def probe_def park_current_def find_or_build_anchor_def anchor_build_def load_mode_def
  load_leaked_def anchor_matches_def host_session_open_def live_extension_registry_epoch_def is_stale_def
  clear_module_snapshot_cache_def fresh_child_def held_def held_keys_def bindings_new_def Let_def

theorem child_pool_refines_recency_cache_witness:
  "case run_opens 2 [demo_key ''a'', demo_key ''b''] fresh_child demo_rt of
     (rs, cs, rt) \<Rightarrow> held_keys cs = [demo_key ''a'', demo_key ''b''] \<and>
       (case open_or_reuse_host_session 2 (demo_key ''a'') cs rt of
          (r, cs', rt') \<Rightarrow> held_keys cs' = [demo_key ''b'', demo_key ''a''] \<and> rt_imports rt' = rt_imports rt)"
proof -
  obtain rs cs rt where n: "run_opens 2 [demo_key ''a'', demo_key ''b''] fresh_child demo_rt = (rs, cs, rt)"
    by (cases "run_opens 2 [demo_key ''a'', demo_key ''b''] fresh_child demo_rt")
  then have cs: "held_keys cs = [demo_key ''a'', demo_key ''b'']" "live_keys rt cs = [demo_key ''a'', demo_key ''b'']"
    "reads_succeed rt"
    by (auto simp: child_demo_defs live_keys_def fresh_def reads_succeed_def)
  have ok: "pool_ok 2 cs rt" by (rule run_opens_ok [OF _ fresh_child_ok n]) simp
  obtain r cs' rt' where o: "open_or_reuse_host_session 2 (demo_key ''a'') cs rt = (r, cs', rt')"
    by (cases "open_or_reuse_host_session 2 (demo_key ''a'') cs rt")
  have "held_keys cs' = [demo_key ''b'', demo_key ''a''] \<and> rt_imports rt' = rt_imports rt"
    using child_pool_refines_recency_cache [OF _ ok cs(3) o] cs(2)
    by (auto simp: recency_open_def demo_key_def)
  with n cs o show ?thesis by simp
qed

lemma open_serves:
  assumes cap: "0 < capacity" and ok: "pool_ok capacity cs rt"
    and o: "open_or_reuse_host_session capacity key cs rt = (r, cs', rt')"
    and ne: "\<not> is_error r" and reads: "reads_succeed rt"
  shows "\<exists>s. cs_host_session cs' = Some s \<and> hs_key s = key \<and>
           (r = RHostSessionReused (hs_import_stats s) \<or> r = RHostSessionOpened (hs_import_stats s))"
  using o
proof (cases rule: open_cases)
  case (imported cs1 rt1)
  note ok1 = evict_stale_pool_ok [OF ok imported(1)]
  then have d: "distinct (map anchor_key (cs_anchors cs1))" by (simp add: pool_ok_def)
  have r1: "reads_succeed rt1" using imported(1) reads by (cases rule: evict_stale_spec) simp
  from imported(3) cap d show ?thesis
  proof (cases rule: import_host_session_cases)
    case (failed err)
    with ne show ?thesis by simp
  next
    case (opened state cs2 rt3 grown stats rest)
    have "fresh rt3 state" using opened(7,8) by (simp add: fresh_def)
    then have "state \<in> set (held cs')"
      using evict_stale_live [OF opened(18) opened(16) [OF r1]] opened(10) by simp
    moreover have "cs_host_session cs' = None \<or> cs_host_session cs' = Some state"
      using evict_stale_spec [OF opened(18)] opened(11) by metis
    moreover have "cs_host_session cs' \<noteq> None"
    proof
      assume none: "cs_host_session cs' = None"
      have cur: "\<not> is_stale (Some (rt_epoch rt3)) state" using opened(7,8) by (simp add: is_stale_def)
      obtain live rt4 where l: "live_extension_registry_epoch rt3 = (live, rt4)"
        by (cases "live_extension_registry_epoch rt3")
      have "live = Some (rt_epoch rt3)" using live_epoch_frame(9) [OF l opened(16) [OF r1]] by simp
      with l cur opened(11,18) none show False
        by (auto simp: evict_stale_host_sessions_def probe_def Let_def split: prod.splits if_splits)
    qed
    ultimately show ?thesis using opened(1,2,3) by auto
  qed
qed auto

text \<open>A confirmed open serves what was asked for: after \<open>HostSessionReused\<close> or
  \<open>HostSessionOpened\<close> the current session is one of exactly the requested project, mode, import list and
  profile, and the import statistics in the answer are the ones recorded when that environment was imported.\<close>

theorem confirmed_open_serves_request:
  assumes "0 < capacity" and "pool_ok capacity cs rt"
    and "open_or_reuse_host_session capacity key cs rt = (r, cs', rt')"
    and "\<not> is_error r" and "reads_succeed rt"
  shows "\<exists>s. cs_host_session cs' = Some s \<and> hs_key s = key \<and>
           (r = RHostSessionReused (hs_import_stats s) \<or> r = RHostSessionOpened (hs_import_stats s))"
  using assms by (rule open_serves)

theorem confirmed_open_serves_request_witness:
  "case open_or_reuse_host_session 2 (demo_key ''a'') fresh_child demo_rt of
     (r, cs', rt') \<Rightarrow> \<exists>s. cs_host_session cs' = Some s \<and> hs_key s = demo_key ''a''"
proof -
  obtain r cs' rt' where o: "open_or_reuse_host_session 2 (demo_key ''a'') fresh_child demo_rt = (r, cs', rt')"
    by (cases "open_or_reuse_host_session 2 (demo_key ''a'') fresh_child demo_rt")
  then have "\<not> is_error r" by (auto simp: child_demo_defs is_error_def)
  moreover have "reads_succeed demo_rt" by (simp add: demo_rt_def reads_succeed_def)
  ultimately show ?thesis
    using confirmed_open_serves_request [OF _ fresh_child_ok o] o by auto
qed

lemma open_pins:
  assumes cap: "0 < capacity" and ok: "pool_ok capacity cs rt" and clears: "clears_succeed rt"
    and pins: "pins_only_held cs rt"
    and o: "open_or_reuse_host_session capacity key cs rt = (r, cs', rt')"
  shows "clears_succeed rt' \<and> pins_only_held cs' rt'"
  using o
proof (cases rule: open_cases)
  case (reused cs1 i)
  have "clears_succeed rt' \<and> pins_only_held cs1 rt'"
    using reused(1) clears pins by (cases rule: evict_stale_spec) simp
  moreover have "set (held cs') = set (held cs1)" using set_remove_at [OF reused(2)] reused(5) by auto
  ultimately show ?thesis by (simp add: pins_only_held_def)
next
  case (imported cs1 rt1)
  have 1: "clears_succeed rt1 \<and> pins_only_held cs1 rt1"
    using imported(1) clears pins by (cases rule: evict_stale_spec) simp
  from evict_stale_pool_ok [OF ok imported(1)] have d: "distinct (map anchor_key (cs_anchors cs1))"
    by (simp add: pool_ok_def)
  from imported(3) cap d show ?thesis
  proof (cases rule: import_host_session_cases)
    case (opened state cs2 rt3 grown stats rest)
    from opened(18) opened(15,17) 1 show ?thesis by (cases rule: evict_stale_spec) simp
  qed (use 1 in simp)
qed

text \<open>As long as cache clears succeed, a retained snapshot never keeps a dropped environment alive: if
  every environment the module-snapshot cache pins is held before an open, it is held afterwards, through
  staleness sweeps, capacity eviction, failed imports and reuses alike.\<close>

theorem snapshots_pin_only_held_environments:
  assumes "0 < capacity" and "pool_ok capacity cs rt" and "clears_succeed rt" and "pins_only_held cs rt"
    and "open_or_reuse_host_session capacity key cs rt = (r, cs', rt')"
  shows "clears_succeed rt' \<and> pins_only_held cs' rt'"
  using assms by (rule open_pins)

theorem snapshots_pin_only_held_environments_witness:
  "case run_opens 1 [demo_key ''a''] fresh_child demo_rt of
     (rs, cs, rt) \<Rightarrow>
       (case open_or_reuse_host_session 1 (demo_key ''b'') cs (rt\<lparr>rt_snapshots := [0, 0]\<rparr>) of
          (r, cs', rt') \<Rightarrow> held_keys cs' = [demo_key ''b''] \<and> pins_only_held cs' rt' \<and> rt_snapshots rt' = [])"
proof -
  obtain rs cs rt where n: "run_opens 1 [demo_key ''a''] fresh_child demo_rt = (rs, cs, rt)"
    by (cases "run_opens 1 [demo_key ''a''] fresh_child demo_rt")
  let ?rt = "rt\<lparr>rt_snapshots := [0, 0]\<rparr>"
  obtain r cs' rt' where o: "open_or_reuse_host_session 1 (demo_key ''b'') cs ?rt = (r, cs', rt')"
    by (cases "open_or_reuse_host_session 1 (demo_key ''b'') cs ?rt")
  have "pool_ok 1 cs rt" by (rule run_opens_ok [OF _ fresh_child_ok n]) simp
  then have ok: "pool_ok 1 cs ?rt" by (simp add: pool_ok_def)
  have "clears_succeed ?rt" "pins_only_held cs ?rt" "held_keys cs' = [demo_key ''b'']" "rt_snapshots rt' = []"
    using n o by (auto simp: child_demo_defs clears_succeed_def pins_only_held_def)
  with snapshots_pin_only_held_environments [OF _ ok _ _ o] n o show ?thesis by auto
qed

text \<open>A stamp read that fails right after an import drops the session that was just imported: the child
  answers \<open>HostSessionOpened\<close> and holds nothing, so the next request on that session is refused as missing.
  The comment at the sweep says the session just set is the one it cannot drop.\<close>

theorem failed_stamp_read_drops_fresh_session:
  assumes "held cs = []" and "hk_mode key = ModeShimsOnly"
    and "rt_loads rt = []" and "rt_imports rt = (grown, Inr stats) # rest" and "rt_epoch_reads rt = False # reads"
    and "open_or_reuse_host_session capacity key cs rt = (r, cs', rt')"
  shows "r = RHostSessionOpened stats \<and> held cs' = [] \<and> cs_host_session cs' = None"
proof -
  from assms(1) have h: "cs_host_session cs = None" "cs_parked cs = []"
    by (auto simp: held_def split: option.splits)
  from assms(2-6) h show ?thesis
    by (auto simp: open_or_reuse_host_session_def evict_stale_host_sessions_def probe_def import_host_session_def
        park_current_def find_or_build_anchor_def anchor_build_def load_mode_def load_leaked_def
        host_session_open_def live_extension_registry_epoch_def is_stale_def held_def Let_def
        split: option.splits prod.splits)
qed

theorem failed_stamp_read_drops_fresh_session_witness:
  "case open_or_reuse_host_session 4 (demo_key ''a'') fresh_child (demo_rt\<lparr>rt_epoch_reads := [False]\<rparr>) of
     (r, cs', rt') \<Rightarrow> r = RHostSessionOpened demo_import_stats \<and> cs_host_session cs' = None"
proof -
  let ?rt = "demo_rt\<lparr>rt_epoch_reads := [False]\<rparr>"
  obtain r cs' rt' where o: "open_or_reuse_host_session 4 (demo_key ''a'') fresh_child ?rt = (r, cs', rt')"
    by (cases "open_or_reuse_host_session 4 (demo_key ''a'') fresh_child ?rt")
  from failed_stamp_read_drops_fresh_session [OF _ _ _ _ _ o] o show ?thesis
    by (simp add: fresh_child_def held_def demo_key_def demo_rt_def)
qed

text \<open>
  What a failed open leaks: the anchor list is the defence against growth, but a build that
  fails after the project was loaded has leaked the host and leaves no anchor to find.
\<close>

definition no_manifest :: lean_error where
  "no_manifest = \<lparr>le_code = ''lean_rs.module_init'', le_message = ''no such manifest''\<rparr>"

definition failing_loads :: "nat \<Rightarrow> (lean_error + unit) list" where
  "failing_loads n = concat (replicate n [Inr (), Inl no_manifest])"

lemma failing_open:
  assumes "held cs = []" and "cs_anchors cs = []" and "rt_loads rt = Inr () # Inl no_manifest # loads"
    and "hk_mode key = ModeCapability p l (Some m)"
    and "open_or_reuse_host_session capacity key cs rt = (r, cs', rt')"
  shows "is_error r \<and> held cs' = [] \<and> cs_anchors cs' = [] \<and> rt_loads rt' = loads \<and>
         rt_leaked rt' = rt_leaked rt @ [LakeProject (hk_project_root key)]"
proof -
  from assms(1) have h: "cs_host_session cs = None" "cs_parked cs = []"
    by (auto simp: held_def split: option.splits)
  from assms(2-5) h show ?thesis
    by (auto simp: open_or_reuse_host_session_def evict_stale_host_sessions_def probe_def import_host_session_def
        park_current_def find_or_build_anchor_def anchor_build_def load_mode_def load_leaked_def
        held_def Let_def error_response_def is_error_def)
qed

text \<open>Retrying an open whose capability manifest cannot be loaded leaks one host per attempt: after \<open>n\<close>
  attempts there are \<open>n\<close> leaked hosts of the same project and still no anchor, so the next attempt leaks
  another one.  The documentation promises at most one anchor per project and mode as the defence against
  unbounded growth; it bounds the anchors, not what a failing build leaves behind.\<close>

theorem failing_opens_leak_hosts:
  assumes "held cs = []" and "cs_anchors cs = []" and "rt_loads rt = failing_loads n"
    and "hk_mode key = ModeCapability p l (Some m)"
  shows "case run_opens capacity (replicate n key) cs rt of
           (rs, cs', rt') \<Rightarrow> cs_anchors cs' = [] \<and>
             rt_leaked rt' = rt_leaked rt @ replicate n (LakeProject (hk_project_root key))"
  using assms
proof (induction n arbitrary: cs rt)
  case (Suc n)
  obtain r cs1 rt1 where o: "open_or_reuse_host_session capacity key cs rt = (r, cs1, rt1)"
    by (cases "open_or_reuse_host_session capacity key cs rt")
  have "rt_loads rt = Inr () # Inl no_manifest # failing_loads n"
    using Suc.prems(3) by (simp add: failing_loads_def)
  from failing_open [OF Suc.prems(1,2) this Suc.prems(4) o]
  have s: "held cs1 = []" "cs_anchors cs1 = []" "rt_loads rt1 = failing_loads n"
    "rt_leaked rt1 = rt_leaked rt @ [LakeProject (hk_project_root key)]" by auto
  from Suc.IH [OF s(1-3) Suc.prems(4)] o s(4) show ?case by (auto split: prod.splits)
qed simp

theorem failing_opens_leak_hosts_witness:
  "case run_opens 4 (replicate 3 ((demo_key ''a'')\<lparr>hk_mode := ModeCapability ''p'' ''L'' (Some ''m'')\<rparr>)) fresh_child
          (demo_rt\<lparr>rt_loads := failing_loads 3\<rparr>) of
     (rs, cs', rt') \<Rightarrow> cs_anchors cs' = [] \<and> rt_leaked rt' = replicate 3 (LakeProject ''a'')"
  using failing_opens_leak_hosts [of fresh_child "demo_rt\<lparr>rt_loads := failing_loads 3\<rparr>" 3
      "(demo_key ''a'')\<lparr>hk_mode := ModeCapability ''p'' ''L'' (Some ''m'')\<rparr>" "''p''" "''L''" "''m''" 4]
  by (simp add: fresh_child_def held_def demo_key_def demo_rt_def)

end
