(* ===== verification/Session_Mirror.thy ===== *)
theory Session_Mirror
  imports Child_Sessions "HOL-Library.Sublist"
begin

text \<open>
  The parent's reuse hint and the child's session pool as two implementations of one
  interface, a recency cache, and what keeps them in step: the hint predicts what the child
  answers, across imports, evictions and failures.
\<close>

section \<open>The interface\<close>

text \<open>
  A recency cache: \<open>keys\<close> reads the cached keys, least recent first; \<open>step k s s'\<close> is a
  completed use of the key \<open>k\<close>.
\<close>

locale recency_cache =
  fixes keys :: "'s \<Rightarrow> 'k list"
    and capacity :: "'s \<Rightarrow> nat"
    and ok :: "'s \<Rightarrow> bool"
    and step :: "'k \<Rightarrow> 's \<Rightarrow> 's \<Rightarrow> bool"
  assumes keys_distinct: "ok s \<Longrightarrow> distinct (keys s)"
    and keys_bound: "ok s \<Longrightarrow> length (keys s) \<le> capacity s"
    and step_ok: "ok s \<Longrightarrow> step k s s' \<Longrightarrow> ok s'"
    and step_capacity: "ok s \<Longrightarrow> step k s s' \<Longrightarrow> capacity s' = capacity s"
    and step_keys: "ok s \<Longrightarrow> step k s s' \<Longrightarrow> keys s' = lru_touch (capacity s) k (keys s)"
begin

inductive steps :: "'k list \<Rightarrow> 's \<Rightarrow> 's \<Rightarrow> bool" where
  refl: "steps [] s s"
| more: "step k s s' \<Longrightarrow> steps ks s' s'' \<Longrightarrow> steps (k # ks) s s''"

lemma steps_ok: "steps ks s s' \<Longrightarrow> ok s \<Longrightarrow> ok s' \<and> capacity s' = capacity s"
  by (induction rule: steps.induct) (auto simp: step_ok step_capacity)

lemma steps_keys: "steps ks s s' \<Longrightarrow> ok s \<Longrightarrow> keys s' = fold (lru_touch (capacity s)) ks (keys s)"
  by (induction rule: steps.induct) (auto simp: step_ok step_capacity step_keys)

lemma step_last: "ok s \<Longrightarrow> step k s s' \<Longrightarrow> 0 < capacity s \<Longrightarrow> keys s' \<noteq> [] \<and> last (keys s') = k"
  by (simp add: step_keys lru_simps)

end

lemma lru_touch_map:
  assumes "inj f"
  shows "map f (lru_touch cap k ks) = lru_touch cap (f k) (map f ks)"
proof -
  have "map f (removeAll k ks) = removeAll (f k) (map f ks)" for ks
    using assms by (induction ks) (auto simp: inj_eq)
  then have "map f (removeAll k ks @ [k]) = removeAll (f k) (map f ks) @ [f k]" by simp
  then show ?thesis unfolding lru_touch_def Let_def by (metis drop_map length_map)
qed

text \<open>What one touch does to two lists of which one is the end of the other.\<close>

lemma lru_touch_suffix:
  assumes "suffix ps cs"
  shows "suffix (lru_touch cap k ps) (lru_touch cap k cs)"
proof -
  from assms obtain xs where cs: "cs = xs @ ps" by (auto simp: suffix_def)
  let ?p = "removeAll k ps @ [k]" and ?x = "removeAll k xs"
  have d: "lru_touch cap k cs = drop (length (?x @ ?p) - cap) (?x @ ?p)" by (simp add: lru_touch_def Let_def cs)
  have e: "lru_touch cap k ps = drop (length ?p - cap) ?p" by (simp add: lru_touch_def Let_def)
  show ?thesis
  proof (cases "length ?p \<le> cap")
    case True
    then have "drop (length (?x @ ?p) - cap) (?x @ ?p) = drop (length (?x @ ?p) - cap) ?x @ ?p" by simp
    with True d e show ?thesis by (simp add: suffix_def)
  next
    case False
    then have "length ?x \<le> length (?x @ ?p) - cap" by simp
    then have "drop (length (?x @ ?p) - cap) (?x @ ?p) = drop (length ?p - cap) ?p" using False by simp
    with d e show ?thesis by simp
  qed
qed

text \<open>Two caches used with the same keys, the second holding at least what the first remembers.\<close>

locale mirrored_caches =
  front: recency_cache fkeys fcap fok fstep + rear: recency_cache bkeys bcap bok bstep
  for fkeys :: "'f \<Rightarrow> 'k list" and fcap fok fstep and bkeys :: "'b \<Rightarrow> 'k list" and bcap bok bstep
begin

definition mirror :: "'f \<Rightarrow> 'b \<Rightarrow> bool" where
  "mirror f b \<longleftrightarrow> fok f \<and> bok b \<and> fcap f = bcap b \<and> suffix (fkeys f) (bkeys b)"

lemma mirror_step:
  assumes "mirror f b" and "fstep k f f'" and "bstep k b b'"
  shows "mirror f' b'"
  using assms front.step_ok rear.step_ok front.step_capacity rear.step_capacity
    front.step_keys rear.step_keys lru_touch_suffix
  unfolding mirror_def by metis

lemma mirror_predicts: "mirror f b \<Longrightarrow> k \<in> set (fkeys f) \<Longrightarrow> k \<in> set (bkeys b)"
  unfolding mirror_def by (meson set_mono_suffix subsetD)

end

section \<open>The two implementations\<close>

text \<open>The key the child builds from the fields of the request.\<close>

definition request_key :: "session_config \<Rightarrow> host_session_key" where
  "request_key cfg =
     \<lparr>hk_project_root = sc_project_root cfg, hk_mode = sc_mode cfg, hk_imports = sc_imports cfg,
      hk_import_profile = sc_import_profile cfg\<rparr>"

lemma inj_request_key: "inj request_key"
  by (rule injI) (simp add: request_key_def)

definition hint_keys :: "worker \<Rightarrow> host_session_key list" where
  "hint_keys w = map request_key (wk_open_session_keys w)"

definition hint_step :: "host_session_key \<Rightarrow> worker \<Rightarrow> worker \<Rightarrow> bool" where
  "hint_step key w w' \<longleftrightarrow>
     (\<exists>cfg. key = request_key cfg \<and> wk_open_session_keys w' = wk_open_session_keys (note_open_session_key cfg w) \<and>
            wk_config w' = wk_config w)"

interpretation hint: recency_cache hint_keys reuse_hint_capacity hint_ok hint_step
proof
  fix w k w' assume ok: "hint_ok w"
  show "distinct (hint_keys w)"
    using ok inj_request_key by (auto simp: hint_ok_def hint_keys_def distinct_map inj_on_def inj_def)
  show "length (hint_keys w) \<le> reuse_hint_capacity w" using ok by (simp add: hint_ok_def hint_keys_def)
  assume "hint_step k w w'"
  then obtain cfg where k: "k = request_key cfg"
    and keys: "wk_open_session_keys w' = wk_open_session_keys (note_open_session_key cfg w)"
    and cfg: "wk_config w' = wk_config w"
    by (auto simp: hint_step_def)
  show cap: "reuse_hint_capacity w' = reuse_hint_capacity w" using cfg by (rule reuse_hint_capacity_config)
  show "hint_ok w'"
    using note_open_session_key_ok [OF ok, of cfg] keys cap reuse_hint_capacity_config [of "note_open_session_key cfg w" w]
    by (simp add: hint_ok_def)
  show "hint_keys w' = lru_touch (reuse_hint_capacity w) k (hint_keys w)"
    using note_open_session_key_lru [OF ok, of cfg] keys k
    by (simp add: hint_keys_def lru_touch_map [OF inj_request_key])
qed

text \<open>The child: a confirmed open during which the registry stands still and every stamp read succeeds.\<close>

type_synonym child_state = "nat \<times> child_sessions \<times> lean_rt"

fun pool_keys :: "child_state \<Rightarrow> host_session_key list" where
  "pool_keys (cap, cs, rt) = held_keys cs"

fun pool_capacity :: "child_state \<Rightarrow> nat" where
  "pool_capacity (cap, cs, rt) = cap"

fun pool_quiet :: "child_state \<Rightarrow> bool" where
  "pool_quiet (cap, cs, rt) \<longleftrightarrow> 0 < cap \<and> pool_ok cap cs rt \<and> reads_succeed rt \<and> list_all (fresh rt) (held cs)"

fun pool_step :: "host_session_key \<Rightarrow> child_state \<Rightarrow> child_state \<Rightarrow> bool" where
  "pool_step key (cap, cs, rt) (cap', cs', rt') \<longleftrightarrow>
     cap' = cap \<and> rt_epoch rt' = rt_epoch rt \<and>
     (case open_or_reuse_host_session cap key cs rt of
        (r, cs1, rt1) \<Rightarrow> cs1 = cs' \<and> rt1 = rt' \<and> \<not> is_error r)"

lemma open_reads:
  assumes cap: "0 < capacity" and ok: "pool_ok capacity cs rt" and reads: "reads_succeed rt"
    and o: "open_or_reuse_host_session capacity key cs rt = (r, cs', rt')"
  shows "reads_succeed rt'"
  using o
proof (cases rule: open_cases)
  case (reused cs1 i)
  from reused(1) reads show ?thesis by (cases rule: evict_stale_spec) simp
next
  case (imported cs1 rt1)
  have r1: "reads_succeed rt1" using imported(1) reads by (cases rule: evict_stale_spec) simp
  from evict_stale_pool_ok [OF ok imported(1)] have d: "distinct (map anchor_key (cs_anchors cs1))"
    by (simp add: pool_ok_def)
  from imported(3) cap d show ?thesis
  proof (cases rule: import_host_session_cases)
    case (opened state cs2 rt3 grown stats rest)
    from opened(18) opened(16) [OF r1] show ?thesis by (cases rule: evict_stale_spec) simp
  qed (use r1 in simp)
qed

lemma live_keys_all: "list_all (fresh rt) (held cs) \<Longrightarrow> live_keys rt cs = held_keys cs"
  by (simp add: live_keys_def held_keys_def filter_True list_all_iff)

interpretation pool: recency_cache pool_keys pool_capacity pool_quiet pool_step
proof
  fix s :: child_state and k s' assume q: "pool_quiet s"
  obtain cap cs rt where s: "s = (cap, cs, rt)" by (cases s)
  from q s have cap: "0 < cap" and ok: "pool_ok cap cs rt" and reads: "reads_succeed rt"
    and fr: "list_all (fresh rt) (held cs)" by auto
  have d: "distinct (held_keys cs)" and b: "length (held_keys cs) \<le> cap"
    using ok by (simp_all add: pool_ok_def held_keys_def)
  show "distinct (pool_keys s)" "length (pool_keys s) \<le> pool_capacity s" using d b s by simp_all
  assume "pool_step k s s'"
  with s obtain cs' rt' r where s': "s' = (cap, cs', rt')" and ep: "rt_epoch rt' = rt_epoch rt"
    and o: "open_or_reuse_host_session cap k cs rt = (r, cs', rt')" and ne: "\<not> is_error r"
    by (cases s') (auto split: prod.splits)
  show "pool_capacity s' = pool_capacity s" using s s' by simp
  show "pool_quiet s'"
    using s' cap open_pool_ok [OF cap ok o] open_reads [OF cap ok reads o] open_fresh [OF cap ok o] ne by simp
  note ref = open_refines [OF cap ok reads o]
  note live = live_keys_all [OF fr]
  have mem: "removeAll k (held_keys cs) @ [k] = lru_touch cap k (held_keys cs)" if "k \<in> set (held_keys cs)"
    using lru_touch_mem_no_drop [OF d b that] by simp
  have "held_keys cs' = lru_touch cap k (held_keys cs)"
    using open_serves [OF cap ok o ne reads] ref ep mem by (auto simp: recency_open_def live)
  then show "pool_keys s' = lru_touch (pool_capacity s) k (pool_keys s)" using s s' by simp
qed

interpretation mirrored: mirrored_caches hint_keys reuse_hint_capacity hint_ok hint_step
  pool_keys pool_capacity pool_quiet pool_step
  by unfold_locales

section \<open>One open, end to end\<close>

text \<open>The child's answer to an open request, and what the parent's reader makes of it.\<close>

definition child_open ::
  "nat \<Rightarrow> request \<Rightarrow> child_sessions \<Rightarrow> lean_rt \<Rightarrow> (response \<times> child_sessions \<times> lean_rt) option" where
  "child_open capacity req cs rt =
     (case req of
        OpenHostSession project_root mode imports import_profile \<Rightarrow>
          Some (open_or_reuse_host_session capacity
            \<lparr>hk_project_root = project_root, hk_mode = mode, hk_imports = imports, hk_import_profile = import_profile\<rparr>
            cs rt)
      | _ \<Rightarrow> None)"

definition delivered :: "response \<Rightarrow> worker_error + response" where
  "delivered r = (case r of RError code msg \<Rightarrow> Inl (EWorker code msg) | _ \<Rightarrow> Inr r)"

record joint =
  jt_worker :: worker
  jt_world :: world
  jt_sessions :: child_sessions
  jt_rt :: lean_rt

definition open_exchange :: "nat \<Rightarrow> session_config \<Rightarrow> nat \<Rightarrow> joint \<Rightarrow> (bool \<times> response) \<times> joint" where
  "open_exchange capacity cfg started j =
     (let w = jt_worker j; predicted = predicts_reuse cfg w in
      case child_open capacity (open_request cfg) (jt_sessions j) (jt_rt j) of
        None \<Rightarrow> ((predicted, missing_session_response), j)
      | Some (r, cs', rt') \<Rightarrow>
          (case open_answered cfg predicted (st_restarts (wk_stats w)) started (delivered r, w, jt_world j) of
             (_, w', os') \<Rightarrow>
               ((predicted, r), \<lparr>jt_worker = w', jt_world = os', jt_sessions = cs', jt_rt = rt'\<rparr>)))"

fun run_exchanges :: "nat \<Rightarrow> (session_config \<times> nat) list \<Rightarrow> joint \<Rightarrow> (bool \<times> response) list \<times> joint" where
  "run_exchanges capacity [] j = ([], j)"
| "run_exchanges capacity ((cfg, started) # cfgs) j =
     (case open_exchange capacity cfg started j of
        (p, j1) \<Rightarrow> (case run_exchanges capacity cfgs j1 of (ps, j2) \<Rightarrow> (p # ps, j2)))"

definition is_reused :: "response \<Rightarrow> bool" where
  "is_reused r = (case r of RHostSessionReused _ \<Rightarrow> True | _ \<Rightarrow> False)"

lemma open_answer_kinds:
  assumes "open_or_reuse_host_session capacity key cs rt = (r, cs', rt')" "0 < capacity" "pool_ok capacity cs rt"
  obtains (reused) i where "r = RHostSessionReused i" | (opened) i where "r = RHostSessionOpened i"
    | (err) code msg where "r = RError code msg"
  using assms(1)
proof (cases rule: open_cases)
  case (reused cs1 i)
  with that show thesis by blast
next
  case (imported cs1 rt1)
  from evict_stale_pool_ok [OF assms(3) imported(1)] have d: "distinct (map anchor_key (cs_anchors cs1))"
    by (simp add: pool_ok_def)
  from imported(3) assms(2) d show thesis
    by (cases rule: import_host_session_cases) (use that in \<open>auto simp: error_response_def\<close>)
qed

lemma session_opened_hint:
  assumes s: "session_opened cfg expect before started i w os = (w', os')"
  shows "wk_reuse_hint_enabled w' = wk_reuse_hint_enabled w \<or>
    wk_open_session_keys w \<noteq> [] \<and> last (wk_open_session_keys w) = cfg"
proof (cases "wk_open_session_keys w \<noteq> [] \<and> last (wk_open_session_keys w) = cfg")
  case False
  obtain took os1 where el: "elapsed started os = (took, os1)" by (cases "elapsed started os")
  from False have c: "(expect \<and> \<not> wk_reuse_observed w \<and> wk_open_session_keys w \<noteq> [] \<and>
    last (wk_open_session_keys w) = cfg) = False" by blast
  have u: "wk_reuse_hint_enabled (upd_stats f v) = wk_reuse_hint_enabled v" for f v by (simp add: upd_stats_def)
  have n: "wk_reuse_hint_enabled (record_import i v) = wk_reuse_hint_enabled v" for v
    by (simp add: record_import_def u)
  from s el have "wk_reuse_hint_enabled w' = wk_reuse_hint_enabled w"
    unfolding session_opened_def c by (auto simp: Let_def u n split: if_splits)
  then show ?thesis by simp
qed blast

text \<open>What one exchange does to the parent, by the kind of answer.\<close>

lemma exchange_cases:
  assumes e: "open_exchange capacity cfg started j = ((p, r), j')"
    and cap: "0 < capacity" and ok: "pool_ok capacity (jt_sessions j) (jt_rt j)"
  obtains "open_or_reuse_host_session capacity (request_key cfg) (jt_sessions j) (jt_rt j) =
             (r, jt_sessions j', jt_rt j')"
    and "p = predicts_reuse cfg (jt_worker j)"
    and "wk_config (jt_worker j') = wk_config (jt_worker j)"
    and "is_error r \<Longrightarrow> wk_open_session_keys (jt_worker j') = []"
    and "\<not> is_error r \<Longrightarrow> wk_open_session_keys (jt_worker j') =
           wk_open_session_keys (note_open_session_key cfg (jt_worker j))"
    and "wk_reuse_hint_enabled (jt_worker j') = wk_reuse_hint_enabled (jt_worker j) \<or>
         \<not> is_reused r \<and> \<not> is_error r \<and> wk_open_session_keys (jt_worker j) \<noteq> [] \<and>
         last (wk_open_session_keys (jt_worker j)) = cfg"
proof -
  let ?w = "jt_worker j"
  obtain r1 cs' rt' where o: "open_or_reuse_host_session capacity (request_key cfg) (jt_sessions j) (jt_rt j) = (r1, cs', rt')"
    by (cases "open_or_reuse_host_session capacity (request_key cfg) (jt_sessions j) (jt_rt j)")
  obtain q w' os' where a: "open_answered cfg (predicts_reuse cfg ?w) (st_restarts (wk_stats ?w)) started
      (delivered r1, ?w, jt_world j) = (q, w', os')"
    by (cases "open_answered cfg (predicts_reuse cfg ?w) (st_restarts (wk_stats ?w)) started (delivered r1, ?w, jt_world j)")
  have c: "child_open capacity (open_request cfg) (jt_sessions j) (jt_rt j) = Some (r1, cs', rt')"
    using o by (simp add: child_open_def open_request_def request_key_def)
  from e c a have eq: "p = predicts_reuse cfg ?w" "r = r1" "jt_worker j' = w'" "jt_sessions j' = cs'" "jt_rt j' = rt'"
    by (auto simp: open_exchange_def Let_def)
  have main: "wk_config w' = wk_config ?w \<and> (is_error r1 \<longrightarrow> wk_open_session_keys w' = []) \<and>
      (\<not> is_error r1 \<longrightarrow> wk_open_session_keys w' = wk_open_session_keys (note_open_session_key cfg ?w)) \<and>
      (wk_reuse_hint_enabled w' = wk_reuse_hint_enabled ?w \<or>
         \<not> is_reused r1 \<and> \<not> is_error r1 \<and> wk_open_session_keys ?w \<noteq> [] \<and> last (wk_open_session_keys ?w) = cfg)"
    using o cap ok
  proof (cases rule: open_answer_kinds)
    case (reused i)
    with a have w': "w' = session_reused cfg i ?w" by (simp add: delivered_def open_answered_def)
    have "wk_reuse_hint_enabled w' = wk_reuse_hint_enabled ?w" by (simp add: w' session_reused_def)
    with reused w' show ?thesis by (simp add: session_reused_keys is_error_def)
  next
    case (opened i)
    with a have s: "session_opened cfg (predicts_reuse cfg ?w) (st_restarts (wk_stats ?w)) started i ?w (jt_world j) = (w', os')"
      by (auto simp: delivered_def open_answered_def split: prod.splits)
    from session_opened_hint [OF s] opened session_opened_fields [OF s] show ?thesis by (simp add: is_error_def is_reused_def)
  next
    case (err code msg)
    with a have "w' = forget_session_keys ?w" by (simp add: delivered_def open_answered_def)
    with err show ?thesis by (simp add: forget_session_keys_def is_error_def)
  qed
  show thesis using that o eq main by blast
qed

section \<open>The hint survives\<close>

text \<open>
  The last key the parent noted is the session the child is serving, and that session is
  fresh; everything else the parent remembers may have been evicted.
\<close>

definition tracked :: "nat \<Rightarrow> joint \<Rightarrow> bool" where
  "tracked capacity j \<longleftrightarrow>
     0 < capacity \<and> pool_ok capacity (jt_sessions j) (jt_rt j) \<and> reads_succeed (jt_rt j) \<and> hint_ok (jt_worker j) \<and>
     (wk_open_session_keys (jt_worker j) = [] \<or>
      (\<exists>s. cs_host_session (jt_sessions j) = Some s \<and> fresh (jt_rt j) s \<and>
           hs_key s = request_key (last (wk_open_session_keys (jt_worker j)))))"

lemma exchange_tracked:
  assumes t: "tracked capacity j" and e: "open_exchange capacity cfg started j = (pr, j')"
  shows "tracked capacity j' \<and> wk_reuse_hint_enabled (jt_worker j') = wk_reuse_hint_enabled (jt_worker j)"
proof -
  obtain p r where pr: "pr = (p, r)" by (cases pr)
  from t have cap: "0 < capacity" and ok: "pool_ok capacity (jt_sessions j) (jt_rt j)"
    and reads: "reads_succeed (jt_rt j)" and h: "hint_ok (jt_worker j)" by (simp_all add: tracked_def)
  from exchange_cases [OF e [unfolded pr] cap ok] obtain
    o: "open_or_reuse_host_session capacity (request_key cfg) (jt_sessions j) (jt_rt j) = (r, jt_sessions j', jt_rt j')"
    and cf: "wk_config (jt_worker j') = wk_config (jt_worker j)"
    and err: "is_error r \<Longrightarrow> wk_open_session_keys (jt_worker j') = []"
    and good: "\<not> is_error r \<Longrightarrow> wk_open_session_keys (jt_worker j') =
           wk_open_session_keys (note_open_session_key cfg (jt_worker j))"
    and hint: "wk_reuse_hint_enabled (jt_worker j') = wk_reuse_hint_enabled (jt_worker j) \<or>
         \<not> is_reused r \<and> \<not> is_error r \<and> wk_open_session_keys (jt_worker j) \<noteq> [] \<and>
         last (wk_open_session_keys (jt_worker j)) = cfg" by blast
  have ok': "pool_ok capacity (jt_sessions j') (jt_rt j')" by (rule open_pool_ok [OF cap ok o])
  have reads': "reads_succeed (jt_rt j')" by (rule open_reads [OF cap ok reads o])
  have capeq: "reuse_hint_capacity (jt_worker j') = reuse_hint_capacity (jt_worker j)"
    using cf by (rule reuse_hint_capacity_config)
  have keys: "wk_open_session_keys (jt_worker j') = lru_touch (reuse_hint_capacity (jt_worker j)) cfg
      (wk_open_session_keys (jt_worker j))" if "\<not> is_error r"
    using good [OF that] note_open_session_key_lru [OF h] by simp
  have h': "hint_ok (jt_worker j')"
    using err keys h capeq by (cases "is_error r") (simp_all add: hint_ok_def lru_simps)
  have trk: "tracked capacity j'"
  proof (cases "is_error r")
    case False
    from open_serves [OF cap ok o False reads] obtain s where
      s: "cs_host_session (jt_sessions j') = Some s" "hs_key s = request_key cfg" by blast
    have "fresh (jt_rt j') s"
      using open_fresh [OF cap ok o] False held_current [OF s(1)] by (simp add: list_all_iff)
    with s keys [OF False] lru_touch_last [of "reuse_hint_capacity (jt_worker j)" cfg] cap ok' reads' h' show ?thesis
      by (simp add: tracked_def)
  qed (use cap ok' reads' h' err in \<open>simp add: tracked_def\<close>)
  have "is_reused r" if "wk_open_session_keys (jt_worker j) \<noteq> []" "last (wk_open_session_keys (jt_worker j)) = cfg"
  proof -
    from t that obtain s where s: "cs_host_session (jt_sessions j) = Some s" "fresh (jt_rt j) s"
      "hs_key s = request_key cfg" by (auto simp: tracked_def)
    then have "request_key cfg \<in> set (live_keys (jt_rt j) (jt_sessions j))"
      by (auto simp: live_keys_def dest!: held_current intro!: image_eqI [where x = s])
    with open_refines [OF cap ok reads o] show ?thesis by (auto simp: is_reused_def)
  qed
  with hint trk show ?thesis by blast
qed

lemma run_tracked:
  "tracked capacity j \<Longrightarrow> run_exchanges capacity cfgs j = (ps, j') \<Longrightarrow>
   tracked capacity j' \<and> wk_reuse_hint_enabled (jt_worker j') = wk_reuse_hint_enabled (jt_worker j)"
proof (induction cfgs arbitrary: j ps)
  case (Cons c cfgs)
  obtain cfg started where c: "c = (cfg, started)" by (cases c)
  obtain p j1 where e: "open_exchange capacity cfg started j = (p, j1)" by (cases "open_exchange capacity cfg started j")
  obtain ps2 j2 where n: "run_exchanges capacity cfgs j1 = (ps2, j2)" by (cases "run_exchanges capacity cfgs j1")
  from Cons.prems(2) c e n have "j' = j2" by simp
  with Cons.IH [of j1 ps2] exchange_tracked [OF Cons.prems(1) e] n show ?case by simp
qed simp

text \<open>A healthy child never costs the parent its reuse hint.  Starting from any state in which the last
  noted key is the session being served (in particular a fresh worker and a fresh child), no sequence of opens
  turns the hint off, whichever imports fail, move the registry or evict other sessions: an identical
  consecutive reopen is always answered by a reuse.\<close>

theorem healthy_child_keeps_reuse_hint:
  assumes "tracked capacity j" and "run_exchanges capacity cfgs j = (ps, j')"
  shows "tracked capacity j' \<and> wk_reuse_hint_enabled (jt_worker j') = wk_reuse_hint_enabled (jt_worker j)"
  using assms by (rule run_tracked)

section \<open>The hint predicts\<close>

definition in_step :: "nat \<Rightarrow> joint \<Rightarrow> bool" where
  "in_step capacity j \<longleftrightarrow>
     hint_ok (jt_worker j) \<and> pool_quiet (capacity, jt_sessions j, jt_rt j) \<and>
     reuse_hint_capacity (jt_worker j) = capacity \<and>
     suffix (hint_keys (jt_worker j)) (held_keys (jt_sessions j))"

text \<open>No import the child still has to make registers an extension.\<close>

definition registry_still :: "lean_rt \<Rightarrow> bool" where
  "registry_still rt \<longleftrightarrow> list_all (\<lambda>(grown, _). grown = 0) (rt_imports rt)"

lemma in_step_mirror: "in_step capacity j \<longleftrightarrow> mirrored.mirror (jt_worker j) (capacity, jt_sessions j, jt_rt j)"
  by (auto simp: in_step_def mirrored.mirror_def)

text \<open>A still registry stays where it is, and its imports only run out.\<close>

lemma import_still:
  assumes "host_session_open a key rt = (res, rt')" and "registry_still rt"
  shows "rt_epoch rt' = rt_epoch rt \<and> registry_still rt'"
  using assms
  by (auto simp: host_session_open_def registry_still_def Let_def split: list.splits prod.splits sum.splits)

lemma evict_still:
  assumes "evict_stale_host_sessions cs rt = (cs', rt')" and "registry_still rt"
  shows "rt_epoch rt' = rt_epoch rt \<and> registry_still rt'"
  using assms(1) by (cases rule: evict_stale_spec) (use assms(2) in \<open>simp add: registry_still_def\<close>)

lemma open_still:
  assumes o: "open_or_reuse_host_session capacity key cs rt = (r, cs', rt')" and st: "registry_still rt"
    and ok: "pool_ok capacity cs rt" and cap: "0 < capacity"
  shows "rt_epoch rt' = rt_epoch rt \<and> registry_still rt'"
  using o
proof (cases rule: open_cases)
  case (reused cs1 i)
  from evict_still [OF reused(1) st] show ?thesis .
next
  case (imported cs1 rt1)
  note s1 = evict_still [OF imported(1) st]
  obtain parked rt2 where e: "evict_to_capacity capacity (held cs1) rt1 = (parked, rt2)"
    by (cases "evict_to_capacity capacity (held cs1) rt1")
  obtain anchor anchors rt3 where a: "find_or_build_anchor key (cs_anchors cs1) rt2 = (anchor, anchors, rt3)"
    by (cases "find_or_build_anchor key (cs_anchors cs1) rt2")
  from evict_stale_pool_ok [OF ok imported(1)] have d: "distinct (map anchor_key (cs_anchors cs1))"
    by (simp add: pool_ok_def)
  have s3: "rt_epoch rt3 = rt_epoch rt \<and> registry_still rt3"
    using s1 evict_to_capacity_frame [OF e] find_or_build_anchor_spec(1) [OF a d] by (simp add: registry_still_def)
  show ?thesis
  proof (cases anchor)
    case (Inl err)
    with imported(3) e a s3 show ?thesis by (simp add: import_host_session_def)
  next
    case (Inr h)
    obtain res rt4 where s: "host_session_open h key rt3 = (res, rt4)" by (cases "host_session_open h key rt3")
    note s4 = import_still [OF s conjunct2 [OF s3]]
    show ?thesis
    proof (cases res)
      case (Inl err)
      with imported(3) e a Inr s s3 s4 show ?thesis by (simp add: import_host_session_def)
    next
      case (Inr state)
      let ?cs2 = "(park_current cs1)\<lparr>cs_parked := parked, cs_anchors := anchors, cs_host_session := Some state\<rparr>"
      have ev: "evict_stale_host_sessions ?cs2 rt4 = (cs', rt')"
        using imported(3) e a \<open>anchor = Inr h\<close> s Inr by (auto simp: import_host_session_def split: prod.splits)
      with evict_still [OF ev] s3 s4 show ?thesis by simp
    qed
  qed
qed

lemma import_failed_held:
  assumes o: "open_or_reuse_host_session capacity key cs rt = (r, cs', rt')" and e: "is_error r"
    and cap: "0 < capacity" and ok: "pool_ok capacity cs rt"
  shows "set (held cs') \<subseteq> set (held cs)"
  using o
proof (cases rule: open_cases)
  case (reused cs1 i)
  with e show ?thesis by (simp add: is_error_def)
next
  case (imported cs1 rt1)
  have sub: "set (held cs1) \<subseteq> set (held cs)"
    using imported(1) by (cases rule: evict_stale_spec) auto
  from evict_stale_pool_ok [OF ok imported(1)] have d: "distinct (map anchor_key (cs_anchors cs1))"
    by (simp add: pool_ok_def)
  from imported(3) cap d show ?thesis
  proof (cases rule: import_host_session_cases)
    case (failed err)
    then show ?thesis using sub by (auto simp: held_def [of cs'] dest: in_set_dropD)
  next
    case (opened state cs2 rt3 grown stats rest)
    with e show ?thesis by (simp add: is_error_def)
  qed
qed

lemma exchange_in_step:
  assumes i: "in_step capacity j" and st: "registry_still (jt_rt j)"
    and e: "open_exchange capacity cfg started j = ((p, r), j')"
  shows "in_step capacity j' \<and> registry_still (jt_rt j') \<and> (p \<longrightarrow> is_reused r)"
proof -
  from i have cap: "0 < capacity" and ok: "pool_ok capacity (jt_sessions j) (jt_rt j)"
    and reads: "reads_succeed (jt_rt j)" and fr: "list_all (fresh (jt_rt j)) (held (jt_sessions j))"
    and h: "hint_ok (jt_worker j)" by (simp_all add: in_step_def)
  from exchange_cases [OF e cap ok] obtain
    o: "open_or_reuse_host_session capacity (request_key cfg) (jt_sessions j) (jt_rt j) = (r, jt_sessions j', jt_rt j')"
    and p: "p = predicts_reuse cfg (jt_worker j)"
    and cf: "wk_config (jt_worker j') = wk_config (jt_worker j)"
    and err: "is_error r \<Longrightarrow> wk_open_session_keys (jt_worker j') = []"
    and good: "\<not> is_error r \<Longrightarrow> wk_open_session_keys (jt_worker j') =
           wk_open_session_keys (note_open_session_key cfg (jt_worker j))" by blast
  note still = open_still [OF o st ok cap]
  have "in_step capacity j'"
  proof (cases "is_error r")
    case True
    have "list_all (fresh (jt_rt j')) (held (jt_sessions j'))"
      using import_failed_held [OF o True cap ok] fr still by (auto simp: list_all_iff fresh_def)
    with open_pool_ok [OF cap ok o] open_reads [OF cap ok reads o] cap err [OF True]
      reuse_hint_capacity_config [OF cf] i
    show ?thesis by (simp add: in_step_def hint_ok_def hint_keys_def)
  next
    case False
    have "hint_step (request_key cfg) (jt_worker j) (jt_worker j')"
      using good [OF False] cf by (auto simp: hint_step_def)
    moreover have "pool_step (request_key cfg) (capacity, jt_sessions j, jt_rt j) (capacity, jt_sessions j', jt_rt j')"
      using o False still by simp
    ultimately show ?thesis using i mirrored.mirror_step unfolding in_step_mirror by blast
  qed
  moreover have "is_reused r" if p
  proof -
    from that p have "cfg \<in> set (wk_open_session_keys (jt_worker j))"
      by (auto simp: predicts_reuse_def list_ex_iff)
    then have "request_key cfg \<in> set (hint_keys (jt_worker j))" by (simp add: hint_keys_def)
    with i mirrored.mirror_predicts have "request_key cfg \<in> set (held_keys (jt_sessions j))"
      unfolding in_step_mirror by fastforce
    with open_refines [OF cap ok reads o] live_keys_all [OF fr] show ?thesis by (auto simp: is_reused_def)
  qed
  ultimately show ?thesis using still by blast
qed


definition demo_joint :: joint where
  "demo_joint = \<lparr>jt_worker = demo_worker [] [], jt_world = demo_world, jt_sessions = fresh_child,
     jt_rt = demo_rt\<lparr>rt_imports := [(0, Inr demo_import_stats), (0, Inr demo_import_stats)]\<rparr>\<rparr>"

lemma demo_joint_capacity: "reuse_hint_capacity (demo_worker [] []) = 4"
  by (simp add: reuse_hint_capacity_def demo_worker_def new_worker_def config_new_def
      resolved_session_pool_capacity_def policy_disabled_def DEFAULT_REUSE_HINT_CAPACITY_def)

lemma demo_joint_in_step: "in_step 4 demo_joint" "registry_still (jt_rt demo_joint)" "tracked 4 demo_joint"
proof -
  have w: "jt_worker demo_joint = demo_worker [] []" "jt_sessions demo_joint = fresh_child"
    by (simp_all add: demo_joint_def)
  have k: "wk_open_session_keys (demo_worker [] []) = []" by (simp add: demo_worker_def new_worker_def)
  have r: "reads_succeed (jt_rt demo_joint)" by (simp add: demo_joint_def demo_rt_def reads_succeed_def)
  have e: "held fresh_child = []" by (simp add: fresh_child_def held_def)
  show "in_step 4 demo_joint"
    by (simp add: in_step_def w k r e hint_ok_def hint_keys_def held_keys_def demo_joint_capacity fresh_child_ok)
  show "tracked 4 demo_joint" by (simp add: tracked_def w k r hint_ok_def fresh_child_ok)
  show "registry_still (jt_rt demo_joint)" by (simp add: registry_still_def demo_joint_def)
qed


theorem healthy_child_keeps_reuse_hint_witness:
  "case run_exchanges 4 [(demo_config ''a'', 0), (demo_config ''a'', 0)] demo_joint of
     (ps, j') \<Rightarrow> wk_reuse_hint_enabled (jt_worker j')"
proof -
  obtain ps j' where n: "run_exchanges 4 [(demo_config ''a'', 0), (demo_config ''a'', 0)] demo_joint = (ps, j')"
    by (cases "run_exchanges 4 [(demo_config ''a'', 0), (demo_config ''a'', 0)] demo_joint")
  have "wk_reuse_hint_enabled (jt_worker demo_joint)"
    by (simp add: demo_joint_def demo_worker_def new_worker_def)
  with healthy_child_keeps_reuse_hint [OF demo_joint_in_step(3) n] n show ?thesis by simp
qed

section \<open>The capacity both sides use\<close>

lemma digit_code: "d < 10 \<Longrightarrow> (of_char (digit d) :: nat) = 48 + d"
  by (simp add: digit_def take_bit_eq_mod)

lemma decimal_digits: "c \<in> set (decimal n) \<Longrightarrow> \<exists>d < 10. c = digit d"
proof (induction n rule: decimal.induct)
  case (1 n)
  show ?case
  proof (cases "n < 10")
    case True
    with 1(2) show ?thesis by (subst (asm) decimal.simps) auto
  next
    case False
    with 1(2) have "c \<in> set (decimal (n div 10)) \<or> c = digit (n mod 10)" by (subst (asm) decimal.simps) auto
    with 1(1) [OF False] show ?thesis by (auto intro: exI [where x = "n mod 10"])
  qed
qed

lemma trim_decimal: "trim (decimal n) = decimal n"
proof -
  have front: "strip_space (c # s) = c # s" if c: "48 \<le> (of_char c :: nat)" "(of_char c :: nat) \<le> 57" for c s
  proof -
    have n: "\<not> (of_char c :: nat) \<le> 13" "(of_char c :: nat) \<noteq> 32" "(of_char c :: nat) \<noteq> 0xC2"
      "(of_char c :: nat) \<noteq> 0xE1" "(of_char c :: nat) \<noteq> 0xE2" "(of_char c :: nat) \<noteq> 0xE3"
      using c by linarith+
    show ?thesis by (cases s; cases "tl s") (simp_all add: n)
  qed
  have rear: "strip_space_back (c # s) = c # s" if c: "48 \<le> (of_char c :: nat)" "(of_char c :: nat) \<le> 57" for c s
  proof -
    have n: "\<not> (of_char c :: nat) \<le> 13" "(of_char c :: nat) \<noteq> 32" "(of_char c :: nat) \<noteq> 0x85"
      "(of_char c :: nat) \<noteq> 0xA0" "(of_char c :: nat) \<noteq> 0x80" "\<not> 0x80 \<le> (of_char c :: nat)"
      "(of_char c :: nat) \<noteq> 0xA8" "(of_char c :: nat) \<noteq> 0xA9" "(of_char c :: nat) \<noteq> 0xAF"
      "(of_char c :: nat) \<noteq> 0x9F"
      using c by linarith+
    show ?thesis by (cases s; cases "tl s") (simp_all add: n)
  qed
  have code: "48 \<le> (of_char c :: nat) \<and> (of_char c :: nat) \<le> 57" if "c \<in> set (decimal n)" for c
    using decimal_digits [OF that] digit_code by auto
  obtain c cs where c: "decimal n = c # cs" using decimal_nonempty by (cases "decimal n") auto
  with code [of c] front [of c cs] have f: "strip_space (decimal n) = decimal n" by (simp del: strip_space.simps)
  obtain e es where e: "rev (decimal n) = e # es" using decimal_nonempty by (cases "rev (decimal n)") auto
  then have "e \<in> set (decimal n)" by (metis list.set_intros(1) set_rev)
  with code [of e] rear [of e es] e have "strip_space_back (rev (decimal n)) = rev (decimal n)"
    by (simp del: strip_space_back.simps)
  with f show ?thesis by (simp add: trim_def)
qed

text \<open>The capacity the parent predicts with is the capacity the child was started with.  The variable that
  \<open>spawn\<close> sets is printed by the parent and parsed by the child without loss, its floor of one is applied on
  both sides, and a worker that configures none leaves both at their common default (the variable not being
  inherited from the environment of the parent process); only a variable the
  embedder sets by hand overrides it, and then the child takes that one.\<close>

theorem session_capacity_agrees:
  assumes "wk_config w = cfg" and "\<forall>n. resolved_session_pool_capacity cfg = Some n \<longrightarrow> n \<le> u64_max"
  shows "child_session_pool_capacity (env_lookup (command_env cfg) SESSION_POOL_CAPACITY_ENV) =
           (case env_lookup (cfg_env cfg) SESSION_POOL_CAPACITY_ENV of
              None \<Rightarrow> reuse_hint_capacity w
            | Some byhand \<Rightarrow> child_session_pool_capacity (Some byhand))"
proof (cases "env_lookup (cfg_env cfg) SESSION_POOL_CAPACITY_ENV")
  case (Some byhand)
  then have "env_lookup (command_env cfg) SESSION_POOL_CAPACITY_ENV = Some byhand"
    by (simp add: env_lookup_def command_env_def)
  with Some show ?thesis by simp
next
  case None
  then have "map_of (rev (cfg_env cfg)) SESSION_POOL_CAPACITY_ENV = None" by (simp add: env_lookup_def)
  then have l: "env_lookup (command_env cfg) SESSION_POOL_CAPACITY_ENV =
      map_option decimal (resolved_session_pool_capacity cfg)"
    by (auto simp: env_lookup_def command_env_def SESSION_POOL_CAPACITY_ENV_def map_add_def split: option.splits)
  show ?thesis
  proof (cases "resolved_session_pool_capacity cfg")
    case None
    with l \<open>env_lookup (cfg_env cfg) _ = None\<close> assms(1) show ?thesis
      by (simp add: child_session_pool_capacity_def reuse_hint_capacity_def SESSION_POOL_DEFAULT_CAPACITY_def
          DEFAULT_REUSE_HINT_CAPACITY_def)
  next
    case (Some n)
    with assms(2) have "parse_unsigned u64_max (trim (decimal n)) = Some n"
      by (simp add: trim_decimal parse_unsigned_decimal)
    with Some l \<open>env_lookup (cfg_env cfg) _ = None\<close> assms(1) show ?thesis
      by (simp add: child_session_pool_capacity_def reuse_hint_capacity_def)
  qed
qed

theorem session_capacity_agrees_witness:
  "child_session_pool_capacity (env_lookup (command_env (wk_config (demo_worker [] []))) SESSION_POOL_CAPACITY_ENV) = 4"
proof -
  have c: "cfg_env (wk_config (demo_worker [] [])) = []"
    "resolved_session_pool_capacity (wk_config (demo_worker [] [])) = None"
    by (simp_all add: demo_worker_def new_worker_def config_new_def resolved_session_pool_capacity_def policy_disabled_def)
  show ?thesis
    using session_capacity_agrees [of "demo_worker [] []" "wk_config (demo_worker [] [])"] c
    by (simp add: env_lookup_def demo_joint_capacity)
qed

end
