(* ===== verification/Bootstrap.thy ===== *)
theory Bootstrap
  imports Worker_Session
begin

text \<open>
  Bootstrapping a worker (\<open>capability.rs\<close> of \<open>lean-rs-worker-parent\<close>): locating the child
  executable, the bootstrap report, the two builders, and opening and using a capability or
  a shims-only host handle.

  What the code reads of the machine is a \<open>host\<close>: files, environment variables, the
  directories of the running program, and the results of calls into \<open>lean-toolchain\<close> (the
  Lake build, the manifest check, toolchain discovery).  Paths are strings.
\<close>

section \<open>Text of a check\<close>

text \<open>\<open>String::pop\<close> removes the last character, that is, everything from the last boundary.\<close>

definition pop_char :: "string \<Rightarrow> string" where
  "pop_char s = take (floor_boundary s (length s - 1)) s"

definition BOOTSTRAP_TEXT_LIMIT :: nat where "BOOTSTRAP_TEXT_LIMIT = 1024"

text \<open>\<open>while !text.is_char_boundary(LIMIT) \{ text.pop(); \}\<close>; \<open>None\<close> is a loop that never ends.\<close>

partial_function (option) pop_to_boundary :: "nat \<Rightarrow> string \<Rightarrow> string option" where
  "pop_to_boundary limit s = (if is_char_boundary s limit then Some s else pop_to_boundary limit (pop_char s))"

definition bound_bootstrap_text :: "string \<Rightarrow> string option" where
  "bound_bootstrap_text s =
     (if length s \<le> BOOTSTRAP_TEXT_LIMIT then Some s
      else (case pop_to_boundary BOOTSTRAP_TEXT_LIMIT s of
              None \<Rightarrow> None
            | Some t \<Rightarrow> Some (take BOOTSTRAP_TEXT_LIMIT t @ ''...'')))"

lemma pop_char_boundary:
  assumes "0 < limit" and b: "is_char_boundary (pop_char s) limit"
  shows "is_char_boundary s limit"
proof -
  let ?k = "floor_boundary s (length s - 1)"
  have k: "?k \<le> length s - 1" by (rule floor_boundary_le)
  have kb: "is_char_boundary s ?k" by (rule floor_boundary_boundary)
  have len: "length (pop_char s) = ?k" using k by (simp add: pop_char_def)
  from b assms(1) len consider "limit = ?k" | "limit < ?k" by (auto simp: is_char_boundary_def)
  then show ?thesis
  proof cases
    case 2
    with k have "limit < length s" by simp
    with b 2 len show ?thesis by (auto simp: is_char_boundary_def pop_char_def)
  qed (use kb in simp)
qed

lemma pop_to_boundary_only_at_boundary:
  assumes "pop_to_boundary limit s = Some t"
  shows "0 < limit \<longrightarrow> is_char_boundary s limit"
proof (rule pop_to_boundary.raw_induct [where P = "\<lambda>limit s t. 0 < limit \<longrightarrow> is_char_boundary s limit", OF _ assms])
  fix rec limit s y
  assume ih: "\<And>limit s y. rec limit s = Some y \<Longrightarrow> 0 < limit \<longrightarrow> is_char_boundary s limit"
    and st: "(if is_char_boundary s limit then Some s else rec limit (pop_char s)) = Some y"
  show "0 < limit \<longrightarrow> is_char_boundary s limit"
  proof
    assume l: "0 < limit"
    show "is_char_boundary s limit"
    proof (rule ccontr)
      assume no: "\<not> is_char_boundary s limit"
      with st have "rec limit (pop_char s) = Some y" by simp
      with ih l have "is_char_boundary (pop_char s) limit" by blast
      with pop_char_boundary [OF l] no show False by blast
    qed
  qed
qed

text \<open>
  The loop only stops at once: popping a character never turns the limit into a boundary,
  it only makes the text shorter than the limit.
\<close>

lemma pop_to_boundary_cases:
  "0 < limit \<Longrightarrow> pop_to_boundary limit s = (if is_char_boundary s limit then Some s else None)"
proof -
  assume l: "0 < limit"
  show ?thesis
  proof (cases "is_char_boundary s limit")
    case True
    then show ?thesis by (simp add: pop_to_boundary.simps)
  next
    case False
    with l pop_to_boundary_only_at_boundary [of limit s] have "pop_to_boundary limit s \<noteq> Some t" for t by blast
    with False show ?thesis by (metis option.exhaust)
  qed
qed

lemma bound_bootstrap_text_cases:
  "bound_bootstrap_text s =
     (if length s \<le> 1024 then Some s
      else if is_char_boundary s 1024 then Some (take 1024 s @ ''...'') else None)"
  by (simp add: bound_bootstrap_text_def BOOTSTRAP_TEXT_LIMIT_def pop_to_boundary_cases)

section \<open>The bootstrap report\<close>

text \<open>Diagnostic codes are their stable strings.\<close>

definition WORKER_CHILD_UNRESOLVED :: string where
  "WORKER_CHILD_UNRESOLVED = ''lean_rs.worker.bootstrap.child_unresolved''"
definition WORKER_CHILD_NOT_EXECUTABLE :: string where
  "WORKER_CHILD_NOT_EXECUTABLE = ''lean_rs.worker.bootstrap.child_not_executable''"
definition WORKER_HANDSHAKE_FAILED :: string where
  "WORKER_HANDSHAKE_FAILED = ''lean_rs.worker.bootstrap.handshake_failed''"
definition CAPABILITY_METADATA_MISMATCH :: string where
  "CAPABILITY_METADATA_MISMATCH = ''lean_rs.worker.bootstrap.metadata_mismatch''"
definition WORKER_STARTUP_FAILED :: string where
  "WORKER_STARTUP_FAILED = ''lean_rs.worker.bootstrap.startup_failed''"

datatype severity = SevInfo | SevWarning | SevError

record bootstrap_check =
  bc_code :: string
  bc_severity :: severity
  bc_subject :: string
  bc_message :: string
  bc_repair_hint :: string

definition check_error :: "string \<Rightarrow> string \<Rightarrow> string \<Rightarrow> string \<Rightarrow> bootstrap_check option" where
  "check_error code subject message repair_hint =
     (case bound_bootstrap_text subject of
        None \<Rightarrow> None
      | Some s \<Rightarrow>
          (case bound_bootstrap_text message of
             None \<Rightarrow> None
           | Some m \<Rightarrow>
               (case bound_bootstrap_text repair_hint of
                  None \<Rightarrow> None
                | Some h \<Rightarrow> Some \<lparr>bc_code = code, bc_severity = SevError, bc_subject = s, bc_message = m, bc_repair_hint = h\<rparr>)))"

definition is_blocking :: "bootstrap_check \<Rightarrow> bool" where
  "is_blocking c \<longleftrightarrow> bc_severity c = SevError"

definition first_error :: "bootstrap_check list \<Rightarrow> bootstrap_check option" where
  "first_error checks = find is_blocking checks"

fun join_paths :: "string list \<Rightarrow> string" where
  "join_paths [] = []"
| "join_paths [p] = p"
| "join_paths (p # q # ps) = p @ '', '' @ join_paths (q # ps)"

definition format_paths :: "string list \<Rightarrow> string" where
  "format_paths paths = (if paths = [] then ''<none>'' else join_paths paths)"

text \<open>\<open>render\<close> is the \<open>Display\<close> of an error.\<close>

definition check_from_open_error :: "(worker_error \<Rightarrow> string) \<Rightarrow> worker_error \<Rightarrow> bootstrap_check option" where
  "check_from_open_error render err =
     (case err of
        EWorkerChildUnresolved tried \<Rightarrow>
          check_error WORKER_CHILD_UNRESOLVED ''worker child''
            (''could not resolve worker child; tried '' @ format_paths tried)
            ''ship an app-owned worker child binary beside the app or configure LeanWorkerChild::env_override''
      | EWorkerChildNotExecutable path reason \<Rightarrow>
          check_error WORKER_CHILD_NOT_EXECUTABLE path reason
            ''ship an app-owned worker child binary and ensure it is executable''
      | EBootstrap code message \<Rightarrow> check_error code code message ''fix the reported bootstrap input''
      | EHandshake text \<Rightarrow>
          check_error WORKER_HANDSHAKE_FAILED ''worker handshake'' (render err)
            ''ensure the worker child calls lean_rs_worker_child::run_worker_child_stdio and matches this crate version''
      | ETimeout operation d facts \<Rightarrow>
          (if operation = ''startup''
           then check_error WORKER_HANDSHAKE_FAILED ''worker handshake'' (render err)
             ''check that the worker child starts promptly and writes the lean-rs-worker handshake''
           else check_error WORKER_STARTUP_FAILED ''worker bootstrap'' (render err)
             ''run the bootstrap check in a deployment environment and rebuild the worker child or capability artifact'')
      | ECapabilityMetadataMismatch export_name expected actual \<Rightarrow>
          check_error CAPABILITY_METADATA_MISMATCH export_name
            ''capability metadata did not match the requested expectation''
            ''rebuild or select a capability whose metadata matches the caller expectation''
      | _ \<Rightarrow>
          check_error WORKER_STARTUP_FAILED ''worker bootstrap'' (render err)
            ''run the bootstrap check in a deployment environment and rebuild the worker child or capability artifact'')"

section \<open>Locating the child\<close>

record worker_child =
  wc_executable_name :: "string option"
  wc_explicit_path :: "string option"
  wc_env_var :: "string option"
  wc_lean_sysroot :: "string option"

record manifest =
  mf_schema_version :: nat
  mf_primary_dylib :: string
  mf_package :: string
  mf_module :: string

datatype manifest_file = ManifestUnreadable string | ManifestMalformed string | ManifestRead manifest

record host =
  ho_env :: "string \<Rightarrow> string option"
  ho_is_file :: "string \<Rightarrow> bool"
  ho_executable :: "string \<Rightarrow> bool"
  ho_exe_suffix :: string
  ho_exe_dirs :: "string list"
  ho_workspace :: "string option"
  ho_cargo_builds :: bool
  ho_canonicalize :: "string \<Rightarrow> string option"
  ho_discover :: "string + string"
  ho_manifest :: "string \<Rightarrow> manifest_file"
  ho_manifest_errors :: "string \<Rightarrow> (string \<times> string \<times> string \<times> string) list"
  ho_build :: "string \<Rightarrow> string \<Rightarrow> string \<Rightarrow> (string \<times> string) list \<Rightarrow> string + (string \<times> string)"

definition WORKER_CHILD_ENV :: string where "WORKER_CHILD_ENV = ''LEAN_RS_WORKER_CHILD''"

definition join :: "string \<Rightarrow> string \<Rightarrow> string" where "join dir name = dir @ ''/'' @ name"

definition ends_with :: "string \<Rightarrow> string \<Rightarrow> bool" where
  "ends_with s t \<longleftrightarrow> length t \<le> length s \<and> drop (length s - length t) s = t"

definition with_exe_suffix :: "host \<Rightarrow> string \<Rightarrow> string" where
  "with_exe_suffix ho name =
     (if ho_exe_suffix ho \<noteq> [] \<and> \<not> ends_with name (ho_exe_suffix ho) then name @ ho_exe_suffix ho else name)"

definition sibling :: "host \<Rightarrow> string \<Rightarrow> worker_child" where
  "sibling ho name = \<lparr>wc_executable_name = Some (with_exe_suffix ho name), wc_explicit_path = None,
     wc_env_var = None, wc_lean_sysroot = None\<rparr>"

definition child_at_path :: "string \<Rightarrow> worker_child" where
  "child_at_path p = \<lparr>wc_executable_name = None, wc_explicit_path = Some p, wc_env_var = None, wc_lean_sysroot = None\<rparr>"

definition for_toolchain :: "string \<Rightarrow> string \<Rightarrow> worker_child" where
  "for_toolchain p sysroot = \<lparr>wc_executable_name = None, wc_explicit_path = Some p, wc_env_var = None,
     wc_lean_sysroot = Some sysroot\<rparr>"

definition default_child :: "host \<Rightarrow> worker_child" where
  "default_child ho = (sibling ho ''lean-rs-worker-child'')\<lparr>wc_env_var := Some WORKER_CHILD_ENV\<rparr>"

definition resolve_lean_sysroot :: "host \<Rightarrow> worker_child \<Rightarrow> worker_error + string" where
  "resolve_lean_sysroot ho c =
     (case wc_lean_sysroot c of
        Some sysroot \<Rightarrow> Inr sysroot
      | None \<Rightarrow>
          (case ho_discover ho of
             Inr prefix_dir \<Rightarrow> Inr prefix_dir
           | Inl diag \<Rightarrow> Inl (ESetup (''could not discover Lean sysroot for worker spawn: '' @ diag))))"

definition candidate_sibling_worker_paths :: "host \<Rightarrow> string \<Rightarrow> string list" where
  "candidate_sibling_worker_paths ho name = map (\<lambda>dir. join dir name) (ho_exe_dirs ho)"

definition try_build_workspace_worker_child ::
  "host \<Rightarrow> string \<Rightarrow> string list \<Rightarrow> string option \<times> string list" where
  "try_build_workspace_worker_child ho name tried =
     (case ho_workspace ho of
        None \<Rightarrow> (None, tried)
      | Some workspace \<Rightarrow>
          let debug = join (join (join workspace ''target'') ''debug'') name;
              release = join (join (join workspace ''target'') ''release'') name;
              tried1 = tried @ [debug, release]
          in if ho_is_file ho debug then (Some debug, tried1)
             else if ho_is_file ho release then (Some release, tried1)
             else if ho_cargo_builds ho then (Some debug, tried1)
             else (None, tried1))"

definition dedup_paths :: "string list \<Rightarrow> string list" where
  "dedup_paths paths =
     fold (\<lambda>path unique. if \<not> list_ex (\<lambda>existing. existing = path) unique then unique @ [path] else unique) paths []"

definition child_resolve :: "host \<Rightarrow> worker_child \<Rightarrow> worker_error + string" where
  "child_resolve ho c =
     (case (case wc_env_var c of None \<Rightarrow> None | Some v \<Rightarrow> ho_env ho v) of
        Some p \<Rightarrow> (if ho_is_file ho p then Inr p else Inl (EWorkerChildUnresolved [p]))
      | None \<Rightarrow>
          (case wc_explicit_path c of
             Some p \<Rightarrow> Inr p
           | None \<Rightarrow>
               let name = (case wc_executable_name c of
                             Some n \<Rightarrow> n | None \<Rightarrow> with_exe_suffix ho ''lean-rs-worker-child'');
                   tried = candidate_sibling_worker_paths ho name;
                   (built, tried1) =
                     (if name = with_exe_suffix ho ''lean-rs-worker-child''
                      then try_build_workspace_worker_child ho name tried else (None, tried))
               in case built of
                    Some p \<Rightarrow> Inr p
                  | None \<Rightarrow>
                      (case find (ho_is_file ho) (dedup_paths tried1) of
                         Some p \<Rightarrow> Inr p
                       | None \<Rightarrow> Inl (EWorkerChildUnresolved tried1))))"

definition validate_worker_child_path :: "host \<Rightarrow> string \<Rightarrow> worker_error + unit" where
  "validate_worker_child_path ho p =
     (if \<not> ho_is_file ho p then Inl (EWorkerChildNotExecutable p ''path does not point to a file'')
      else if \<not> ho_executable ho p then Inl (EWorkerChildNotExecutable p ''file is not executable by this user'')
      else Inr ())"

section \<open>Starting a checked worker\<close>

record module_cache_limits =
  ml_max_entries :: "nat option"
  ml_ttl_millis :: "nat option"
  ml_max_bytes :: "nat option"
  ml_rss_guard_kib :: "nat option"
  ml_verify_rss_taint_kib :: "nat option"

definition limits_default :: module_cache_limits where
  "limits_default = \<lparr>ml_max_entries = None, ml_ttl_millis = None, ml_max_bytes = None, ml_rss_guard_kib = None,
     ml_verify_rss_taint_kib = None\<rparr>"

definition limit_max_entries :: "nat \<Rightarrow> module_cache_limits \<Rightarrow> module_cache_limits" where
  "limit_max_entries n l = l\<lparr>ml_max_entries := Some (max n 1)\<rparr>"

definition limit_ttl :: "nat \<Rightarrow> module_cache_limits \<Rightarrow> module_cache_limits" where
  "limit_ttl d l = l\<lparr>ml_ttl_millis := Some (max (clamp_u64 (d div nanos_per_ms)) 1)\<rparr>"

definition limit_max_bytes :: "nat \<Rightarrow> module_cache_limits \<Rightarrow> module_cache_limits" where
  "limit_max_bytes n l = l\<lparr>ml_max_bytes := Some (max n 1)\<rparr>"

definition limit_rss_guard_kib :: "nat \<Rightarrow> module_cache_limits \<Rightarrow> module_cache_limits" where
  "limit_rss_guard_kib n l = l\<lparr>ml_rss_guard_kib := Some n\<rparr>"

definition limit_verify_rss_taint_kib :: "nat \<Rightarrow> module_cache_limits \<Rightarrow> module_cache_limits" where
  "limit_verify_rss_taint_kib n l = l\<lparr>ml_verify_rss_taint_kib := Some n\<rparr>"

text \<open>The options both builders hand to \<open>spawn_checked_worker\<close>.\<close>

record worker_setup =
  su_worker_child :: "worker_child option"
  su_startup_timeout :: "nat option"
  su_request_timeout :: "nat option"
  su_shutdown_timeout :: "nat option"
  su_restart_policy :: "restart_policy option"
  su_session_pool_capacity :: "nat option"
  su_rss_hard_limit :: "(nat \<times> nat) option"
  su_module_cache_limits :: "module_cache_limits option"
  su_max_frame_bytes :: "nat option"
  su_num_threads :: "nat option"
  su_lean_max_memory_kib :: "nat option"

definition setup_default :: worker_setup where
  "setup_default = \<lparr>su_worker_child = None, su_startup_timeout = None, su_request_timeout = None,
     su_shutdown_timeout = None, su_restart_policy = None, su_session_pool_capacity = None,
     su_rss_hard_limit = None, su_module_cache_limits = None, su_max_frame_bytes = None,
     su_num_threads = None, su_lean_max_memory_kib = None\<rparr>"

definition apply_opt :: "('a \<Rightarrow> 'c \<Rightarrow> 'c) \<Rightarrow> 'a option \<Rightarrow> 'c \<Rightarrow> 'c" where
  "apply_opt f x c = (case x of None \<Rightarrow> c | Some v \<Rightarrow> f v c)"

definition env_number :: "string \<Rightarrow> nat \<Rightarrow> worker_config \<Rightarrow> worker_config" where
  "env_number name value c = cfg_with_env c name (decimal value)"

definition apply_runtime_limits :: "nat option \<Rightarrow> nat option \<Rightarrow> worker_config \<Rightarrow> worker_config" where
  "apply_runtime_limits num_threads lean_max_memory_kib c =
     apply_opt (env_number ''LEAN_RS_LEAN_MAX_MEMORY_KIB'') lean_max_memory_kib
       (apply_opt (env_number ''LEAN_RS_NUM_THREADS'') num_threads c)"

definition apply_module_cache_limits :: "module_cache_limits \<Rightarrow> worker_config \<Rightarrow> worker_config" where
  "apply_module_cache_limits l c =
     apply_opt (env_number ''LEAN_RS_VERIFY_RSS_TAINT_KIB'') (ml_verify_rss_taint_kib l)
       (apply_opt (env_number ''LEAN_RS_MODULE_CACHE_RSS_GUARD_KIB'') (ml_rss_guard_kib l)
         (apply_opt (env_number ''LEAN_RS_MODULE_CACHE_MAX_BYTES'') (ml_max_bytes l)
           (apply_opt (env_number ''LEAN_RS_MODULE_CACHE_TTL_MILLIS'') (ml_ttl_millis l)
             (apply_opt (env_number ''LEAN_RS_MODULE_CACHE_MAX_ENTRIES'') (ml_max_entries l) c))))"

definition checked_config :: "string \<Rightarrow> string \<Rightarrow> worker_setup \<Rightarrow> worker_config" where
  "checked_config executable sysroot su =
     (let c = cfg_with_env (config_new executable) ''LEAN_SYSROOT'' sysroot;
          c = apply_opt (\<lambda>t c. c\<lparr>cfg_startup_timeout := t\<rparr>) (su_startup_timeout su) c;
          c = apply_opt (\<lambda>t c. c\<lparr>cfg_request_timeout := t\<rparr>) (su_request_timeout su) c;
          c = apply_opt (\<lambda>t c. c\<lparr>cfg_shutdown_timeout := t\<rparr>) (su_shutdown_timeout su) c;
          c = apply_opt (\<lambda>p c. c\<lparr>cfg_restart_policy := p\<rparr>) (su_restart_policy su) c;
          c = apply_opt (\<lambda>n c. Worker_Core.session_pool_capacity c n) (su_session_pool_capacity su) c;
          c = apply_opt (\<lambda>(limit, interval) c. rss_hard_limit c limit interval) (su_rss_hard_limit su) c;
          c = apply_opt apply_module_cache_limits (su_module_cache_limits su) c;
          c = apply_runtime_limits (su_num_threads su) (su_lean_max_memory_kib su) c
      in apply_opt (\<lambda>n c. max_frame_bytes c n) (su_max_frame_bytes su) c)"

definition spawn_checked_worker ::
  "(json \<Rightarrow> string option) \<Rightarrow> host \<Rightarrow> worker_setup \<Rightarrow> world \<Rightarrow> (worker_error + worker) \<times> world" where
  "spawn_checked_worker pp ho su os =
     (let child = (case su_worker_child su of Some c \<Rightarrow> c | None \<Rightarrow> default_child ho) in
      case child_resolve ho child of
        Inl e \<Rightarrow> (Inl e, os)
      | Inr executable \<Rightarrow>
          (case validate_worker_child_path ho executable of
             Inl e \<Rightarrow> (Inl e, os)
           | Inr _ \<Rightarrow>
               (case resolve_lean_sysroot ho child of
                  Inl e \<Rightarrow> (Inl e, os)
                | Inr sysroot \<Rightarrow>
                    (case spawn (checked_config executable sysroot su) os of
                       (Inl e, os1) \<Rightarrow> (Inl e, os1)
                     | (Inr w, os1) \<Rightarrow>
                         (case health pp w os1 of
                            (Inl e, w1, os2) \<Rightarrow> (Inl e, drop_worker w1 os2)
                          | (Inr _, w1, os2) \<Rightarrow> (Inr w1, os2))))))"

section \<open>The capability builder\<close>

record metadata_check =
  mc_export :: string
  mc_request :: json
  mc_expected :: "json option"

record capability_builder =
  cb_project_root :: string
  cb_import_workspace_root :: "string option"
  cb_package :: string
  cb_lib_name :: string
  cb_imports :: "string list"
  cb_import_profile :: import_profile
  cb_built_dylib_path :: "string option"
  cb_built_manifest_path :: "string option"
  cb_preflight_manifest :: "string option"
  cb_setup :: worker_setup
  cb_metadata_check :: "metadata_check option"
  cb_export_signatures :: "(string \<times> string) list"

definition builder_new :: "string \<Rightarrow> string \<Rightarrow> string \<Rightarrow> string list \<Rightarrow> capability_builder" where
  "builder_new project_root package lib_name imports =
     \<lparr>cb_project_root = project_root, cb_import_workspace_root = None, cb_package = package, cb_lib_name = lib_name,
      cb_imports = imports, cb_import_profile = Private, cb_built_dylib_path = None, cb_built_manifest_path = None,
      cb_preflight_manifest = None, cb_setup = setup_default, cb_metadata_check = None, cb_export_signatures = []\<rparr>"

definition normalize_root :: "host \<Rightarrow> string \<Rightarrow> string" where
  "normalize_root ho p = (case ho_canonicalize ho p of Some q \<Rightarrow> q | None \<Rightarrow> p)"

definition import_workspace_root :: "host \<Rightarrow> string \<Rightarrow> capability_builder \<Rightarrow> capability_builder" where
  "import_workspace_root ho p b = b\<lparr>cb_import_workspace_root := Some (normalize_root ho p)\<rparr>"

definition effective_import_workspace_root :: "host \<Rightarrow> capability_builder \<Rightarrow> string" where
  "effective_import_workspace_root ho b =
     (case cb_import_workspace_root b of Some p \<Rightarrow> p | None \<Rightarrow> normalize_root ho (cb_project_root b))"

text \<open>A signature is a symbol and its type; the first one registered for a symbol stays.\<close>

definition add_worker_export_signature :: "string \<times> string \<Rightarrow> capability_builder \<Rightarrow> capability_builder" where
  "add_worker_export_signature sig b =
     (if list_all (\<lambda>existing. fst existing \<noteq> fst sig) (cb_export_signatures b)
      then b\<lparr>cb_export_signatures := cb_export_signatures b @ [sig]\<rparr> else b)"

definition metadata_signature :: "string \<Rightarrow> string \<times> string" where
  "metadata_signature export_name = (export_name, ''String -> IO String'')"

definition validate_metadata :: "string \<Rightarrow> json \<Rightarrow> capability_builder \<Rightarrow> capability_builder" where
  "validate_metadata export_name request b =
     (add_worker_export_signature (metadata_signature export_name) b)
       \<lparr>cb_metadata_check := Some \<lparr>mc_export = export_name, mc_request = request, mc_expected = None\<rparr>\<rparr>"

definition expect_metadata :: "string \<Rightarrow> json \<Rightarrow> json \<Rightarrow> capability_builder \<Rightarrow> capability_builder" where
  "expect_metadata export_name request expected b =
     (add_worker_export_signature (metadata_signature export_name) b)
       \<lparr>cb_metadata_check := Some \<lparr>mc_export = export_name, mc_request = request, mc_expected = Some expected\<rparr>\<rparr>"

definition artifact_from_manifest :: "host \<Rightarrow> string \<Rightarrow> worker_error + manifest" where
  "artifact_from_manifest ho p =
     (case ho_manifest ho p of
        ManifestUnreadable err \<Rightarrow>
          Inl (EBootstrap ''lean_rs.loader.missing_manifest'' (''could not read Lean capability manifest '' @ quoted p @ '': '' @ err))
      | ManifestMalformed err \<Rightarrow>
          Inl (EBootstrap ''lean_rs.loader.malformed_manifest'' (''Lean capability manifest '' @ quoted p @ '' is malformed: '' @ err))
      | ManifestRead m \<Rightarrow>
          (if mf_schema_version m \<noteq> CAPABILITY_MANIFEST_SCHEMA_VERSION
           then Inl (EBootstrap ''lean_rs.loader.unsupported_manifest_schema''
                  (''unsupported Lean capability manifest schema '' @ decimal (mf_schema_version m) @
                   ''; supported schema is '' @ decimal CAPABILITY_MANIFEST_SCHEMA_VERSION))
           else Inr m))"

record capability =
  cap_worker :: worker
  cap_session_config :: session_config
  cap_dylib_path :: string
  cap_validated_metadata :: "json option"

definition capability_artifact :: "host \<Rightarrow> capability_builder \<Rightarrow> worker_error + (string \<times> string)" where
  "capability_artifact ho b =
     (case cb_built_manifest_path b of
        Some manifest_path \<Rightarrow>
          (case cb_built_dylib_path b of
             Some dylib_path \<Rightarrow> Inr (dylib_path, manifest_path)
           | None \<Rightarrow>
               (case artifact_from_manifest ho manifest_path of
                  Inl e \<Rightarrow> Inl e
                | Inr m \<Rightarrow> Inr (mf_primary_dylib m, manifest_path)))
      | None \<Rightarrow>
          (case ho_build ho (cb_project_root b) (cb_package b) (cb_lib_name b) (cb_export_signatures b) of
             Inl diagnostic \<Rightarrow> Inl (ECapabilityBuild diagnostic)
           | Inr built \<Rightarrow> Inr built))"

definition capability_session_config :: "host \<Rightarrow> capability_builder \<Rightarrow> string \<Rightarrow> session_config" where
  "capability_session_config ho b manifest_path =
     \<lparr>sc_project_root = effective_import_workspace_root ho b,
      sc_mode = ModeCapability (cb_package b) (cb_lib_name b) (Some manifest_path),
      sc_imports = cb_imports b, sc_import_profile = cb_import_profile b\<rparr>"

text \<open>The session opened when there is something to import or metadata to read, and the metadata check.\<close>

definition check_metadata ::
  "(json \<Rightarrow> string option) \<Rightarrow> metadata_check option \<Rightarrow> worker \<Rightarrow> world \<Rightarrow> json option outcome" where
  "check_metadata pp check w os =
     (case check of
        None \<Rightarrow> (Inr None, w, os)
      | Some mc \<Rightarrow>
          (case worker_capability_metadata pp (mc_export mc) (mc_request mc) no_sinks w os of
             (Inl e, w1, os1) \<Rightarrow> (Inl e, w1, os1)
           | (Inr metadata, w1, os1) \<Rightarrow>
               (case mc_expected mc of
                  Some expected \<Rightarrow>
                    (if metadata \<noteq> expected
                     then (Inl (ECapabilityMetadataMismatch (mc_export mc) expected metadata), w1, os1)
                     else (Inr (Some metadata), w1, os1))
                | None \<Rightarrow> (Inr (Some metadata), w1, os1))))"

definition prepare_session ::
  "(json \<Rightarrow> string option) \<Rightarrow> capability_builder \<Rightarrow> session_config \<Rightarrow> worker \<Rightarrow> world
     \<Rightarrow> (nat option \<times> json option) outcome" where
  "prepare_session pp b cfg w os =
     (if cb_metadata_check b \<noteq> None \<or> sc_imports cfg \<noteq> [] then
        (case now os of (started, os1) \<Rightarrow>
           (case open_worker_session pp cfg no_sinks w os1 of
              (Inl e, w1, os2) \<Rightarrow> (Inl e, w1, os2)
            | (Inr _, w1, os2) \<Rightarrow>
                (case elapsed started os2 of (took, os3) \<Rightarrow>
                   (case check_metadata pp (cb_metadata_check b) w1 os3 of
                      (Inl e, w2, os4) \<Rightarrow> (Inl e, w2, os4)
                    | (Inr metadata, w2, os4) \<Rightarrow> (Inr (Some took, metadata), w2, os4)))))
      else (Inr (None, None), w, os))"

definition open_unchecked ::
  "(json \<Rightarrow> string option) \<Rightarrow> host \<Rightarrow> capability_builder \<Rightarrow> world \<Rightarrow> (worker_error + capability) \<times> world" where
  "open_unchecked pp ho b os =
     (case now os of (load_started, os1) \<Rightarrow>
        (case capability_artifact ho b of
           Inl e \<Rightarrow> (Inl e, os1)
         | Inr (dylib_path, manifest_path) \<Rightarrow>
             (case elapsed load_started os1 of (load_elapsed, os2) \<Rightarrow>
                (case spawn_checked_worker pp ho (cb_setup b) os2 of
                   (Inl e, os3) \<Rightarrow> (Inl e, os3)
                 | (Inr w, os3) \<Rightarrow>
                     let cfg = capability_session_config ho b manifest_path in
                     (case prepare_session pp b cfg w os3 of
                        (Inl e, w1, os4) \<Rightarrow> (Inl e, drop_worker w1 os4)
                      | (Inr (open_elapsed, metadata), w1, os4) \<Rightarrow>
                          (Inr \<lparr>cap_worker = record_capability_open_timing load_elapsed open_elapsed w1,
                                cap_session_config = cfg, cap_dylib_path = dylib_path,
                                cap_validated_metadata = metadata\<rparr>, os4))))))"

section \<open>Checking and opening\<close>

text \<open>\<open>None\<close> is a check whose text never finishes being bounded.\<close>

definition worker_child_static_checks ::
  "(worker_error \<Rightarrow> string) \<Rightarrow> host \<Rightarrow> worker_child option \<Rightarrow> bootstrap_check list option" where
  "worker_child_static_checks render ho c =
     (case (case child_resolve ho (case c of Some k \<Rightarrow> k | None \<Rightarrow> default_child ho) of
              Inl e \<Rightarrow> Inl e
            | Inr p \<Rightarrow> validate_worker_child_path ho p) of
        Inr _ \<Rightarrow> Some []
      | Inl e \<Rightarrow> map_option (\<lambda>check. [check]) (check_from_open_error render e))"

fun manifest_checks :: "(string \<times> string \<times> string \<times> string) list \<Rightarrow> bootstrap_check list option" where
  "manifest_checks [] = Some []"
| "manifest_checks ((code, subject, message, hint) # errors) =
     (case check_error code subject message hint of
        None \<Rightarrow> None
      | Some check \<Rightarrow> map_option (\<lambda>checks. check # checks) (manifest_checks errors))"

definition bootstrap_static_checks ::
  "(worker_error \<Rightarrow> string) \<Rightarrow> host \<Rightarrow> capability_builder \<Rightarrow> bootstrap_check list option" where
  "bootstrap_static_checks render ho b =
     (case worker_child_static_checks render ho (su_worker_child (cb_setup b)) of
        None \<Rightarrow> None
      | Some checks \<Rightarrow>
          (case cb_preflight_manifest b of
             None \<Rightarrow> Some checks
           | Some p \<Rightarrow> map_option (\<lambda>more. checks @ more) (manifest_checks (ho_manifest_errors ho p))))"

definition open_capability ::
  "(json \<Rightarrow> string option) \<Rightarrow> (worker_error \<Rightarrow> string) \<Rightarrow> host \<Rightarrow> capability_builder \<Rightarrow> world
     \<Rightarrow> ((worker_error + capability) \<times> world) option" where
  "open_capability pp render ho b os =
     (case bootstrap_static_checks render ho b of
        None \<Rightarrow> None
      | Some checks \<Rightarrow>
          Some (case first_error checks of
                  Some check \<Rightarrow> (Inl (EBootstrap (bc_code check) (bc_message check)), os)
                | None \<Rightarrow> open_unchecked pp ho b os))"

text \<open>\<open>drop(capability.shutdown())\<close>: the shutdown, and the drop of the worker it consumed.\<close>

definition capability_shutdown :: "capability \<Rightarrow> world \<Rightarrow> (worker_error + shutdown_report) \<times> world" where
  "capability_shutdown c os =
     (case shutdown (cap_worker c) os of (r, w1, os1) \<Rightarrow> (r, drop_worker w1 os1))"

definition check_capability ::
  "(json \<Rightarrow> string option) \<Rightarrow> (worker_error \<Rightarrow> string) \<Rightarrow> host \<Rightarrow> capability_builder \<Rightarrow> world
     \<Rightarrow> (bootstrap_check list \<times> world) option" where
  "check_capability pp render ho b os =
     (case bootstrap_static_checks render ho b of
        None \<Rightarrow> None
      | Some checks \<Rightarrow>
          (if list_ex is_blocking checks then Some (checks, os)
           else (case open_unchecked pp ho b os of
                   (Inr c, os1) \<Rightarrow> Some (checks, snd (capability_shutdown c os1))
                 | (Inl e, os1) \<Rightarrow>
                     map_option (\<lambda>check. (checks @ [check], os1)) (check_from_open_error render e))))"

section \<open>The shims-only handle\<close>

record host_handle_builder =
  hb_project_root :: string
  hb_imports :: "string list"
  hb_import_profile :: import_profile
  hb_setup :: worker_setup

record host_handle =
  hh_worker :: worker
  hh_session_config :: session_config

definition open_handle_unchecked ::
  "(json \<Rightarrow> string option) \<Rightarrow> host \<Rightarrow> host_handle_builder \<Rightarrow> world \<Rightarrow> (worker_error + host_handle) \<times> world" where
  "open_handle_unchecked pp ho b os =
     (case spawn_checked_worker pp ho (hb_setup b) os of
        (Inl e, os1) \<Rightarrow> (Inl e, os1)
      | (Inr w, os1) \<Rightarrow>
          let cfg = \<lparr>sc_project_root = hb_project_root b, sc_mode = ModeShimsOnly, sc_imports = hb_imports b,
                     sc_import_profile = hb_import_profile b\<rparr> in
          (if sc_imports cfg \<noteq> [] then
             (case open_worker_session pp cfg no_sinks w os1 of
                (Inl e, w1, os2) \<Rightarrow> (Inl e, drop_worker w1 os2)
              | (Inr _, w1, os2) \<Rightarrow> (Inr \<lparr>hh_worker = w1, hh_session_config = cfg\<rparr>, os2))
           else (Inr \<lparr>hh_worker = w, hh_session_config = cfg\<rparr>, os1)))"

definition open_handle ::
  "(json \<Rightarrow> string option) \<Rightarrow> (worker_error \<Rightarrow> string) \<Rightarrow> host \<Rightarrow> host_handle_builder \<Rightarrow> world
     \<Rightarrow> ((worker_error + host_handle) \<times> world) option" where
  "open_handle pp render ho b os =
     (case worker_child_static_checks render ho (su_worker_child (hb_setup b)) of
        None \<Rightarrow> None
      | Some checks \<Rightarrow>
          Some (case first_error checks of
                  Some check \<Rightarrow> (Inl (EBootstrap (bc_code check) (bc_message check)), os)
                | None \<Rightarrow> open_handle_unchecked pp ho b os))"

definition worker_session_missing :: "worker_error \<Rightarrow> bool" where
  "worker_session_missing e = (case e of EWorker code _ \<Rightarrow> code = ''lean_rs.worker.session_missing'' | _ \<Rightarrow> False)"

text \<open>A session view: an operation that is cancelled or times out closes it.\<close>

definition with_session :: "bool \<Rightarrow> (worker \<Rightarrow> world \<Rightarrow> 'a outcome) \<Rightarrow> worker \<Rightarrow> world \<Rightarrow> 'a outcome \<times> bool" where
  "with_session is_open f w os =
     (if \<not> is_open then ((Inl (EUnsupportedRequest ''worker_session_invalidated''), w, os), is_open)
      else (case f w os of
              (r, w1, os1) \<Rightarrow>
                ((r, w1, os1),
                 (case r of
                    Inl (ECancelled _ _) \<Rightarrow> False
                  | Inl (ETimeout _ _ _) \<Rightarrow> False
                  | _ \<Rightarrow> is_open))))"

definition open_session_with_imports ::
  "(json \<Rightarrow> string option) \<Rightarrow> string list \<Rightarrow> sinks \<Rightarrow> host_handle \<Rightarrow> world \<Rightarrow> unit outcome" where
  "open_session_with_imports pp imports snk h os =
     open_worker_session pp ((hh_session_config h)\<lparr>sc_imports := imports\<rparr>) snk (hh_worker h) os"

definition with_session_imports ::
  "(json \<Rightarrow> string option) \<Rightarrow> string list \<Rightarrow> sinks \<Rightarrow> (worker \<Rightarrow> world \<Rightarrow> 'a outcome) \<Rightarrow> host_handle \<Rightarrow> world
     \<Rightarrow> (worker_error + 'a) \<times> host_handle \<times> world" where
  "with_session_imports pp imports snk command h os =
     (case open_session_with_imports pp imports snk h os of
        (Inl e, w1, os1) \<Rightarrow> (Inl e, h\<lparr>hh_worker := w1\<rparr>, os1)
      | (Inr _, w1, os1) \<Rightarrow>
          (case fst (with_session True command w1 os1) of
             (Inr x, w2, os2) \<Rightarrow> (Inr x, h\<lparr>hh_worker := w2\<rparr>, os2)
           | (Inl e, w2, os2) \<Rightarrow>
               (if worker_session_missing e then
                  (case open_session_with_imports pp imports snk (h\<lparr>hh_worker := w2\<rparr>) os2 of
                     (Inl e', w3, os3) \<Rightarrow> (Inl e', h\<lparr>hh_worker := w3\<rparr>, os3)
                   | (Inr _, w3, os3) \<Rightarrow>
                       (case fst (with_session True command w3 os3) of
                          (r, w4, os4) \<Rightarrow> (r, h\<lparr>hh_worker := w4\<rparr>, os4)))
                else (Inl e, h\<lparr>hh_worker := w2\<rparr>, os2))))"

section \<open>The project behind a built library\<close>

text \<open>Paths by their components here; \<open>parent\<close> of a path without components is \<open>None\<close>.\<close>

definition parent :: "string list \<Rightarrow> string list option" where
  "parent p = (if p = [] then None else Some (butlast p))"

definition file_name :: "string list \<Rightarrow> string option" where
  "file_name p = (if p = [] then None else Some (last p))"

fun display_path :: "string list \<Rightarrow> string" where
  "display_path [] = []"
| "display_path [c] = c"
| "display_path (c # d # cs) = c @ ''/'' @ display_path (d # cs)"

definition not_under_lake_build :: "string list \<Rightarrow> worker_error" where
  "not_under_lake_build dylib_path =
     ESetup (''built capability dylib '' @ quoted (display_path dylib_path) @
       '' is not under a standard .lake/build/lib directory'')"

definition infer_lake_project_root_from_dylib :: "string list \<Rightarrow> worker_error + string list" where
  "infer_lake_project_root_from_dylib dylib_path =
     (case parent dylib_path of
        Some lib \<Rightarrow>
          (case parent lib of
             Some build \<Rightarrow>
               (case parent build of
                  Some lake \<Rightarrow>
                    (case parent lake of
                       Some root \<Rightarrow>
                         (if file_name lib = Some ''lib'' \<and> file_name build = Some ''build'' \<and>
                             file_name lake = Some ''.lake''
                          then Inr root
                          else Inl (not_under_lake_build dylib_path))
                     | None \<Rightarrow> Inl (not_under_lake_build dylib_path))
                | None \<Rightarrow> Inl (not_under_lake_build dylib_path))
           | None \<Rightarrow> Inl (not_under_lake_build dylib_path))
      | None \<Rightarrow> Inl (not_under_lake_build dylib_path))"

lemma infer_lake_root_iff:
  "infer_lake_project_root_from_dylib p = Inr root \<longleftrightarrow>
     (\<exists>lib_file. p = root @ [''.lake'', ''build'', ''lib'', lib_file])"
proof
  assume h: "infer_lake_project_root_from_dylib p = Inr root"
  then obtain p1 p2 p3 where ne: "p \<noteq> []" "butlast p \<noteq> []" "butlast (butlast p) \<noteq> []"
      "butlast (butlast (butlast p)) \<noteq> []"
    and l: "last (butlast p) = ''lib''" "last (butlast (butlast p)) = ''build''"
      "last (butlast (butlast (butlast p))) = ''.lake''" "butlast (butlast (butlast (butlast p))) = root"
    by (auto simp: infer_lake_project_root_from_dylib_def parent_def file_name_def split: if_splits)
  have "p = butlast p @ [last p]" using ne by simp
  also have "butlast p = butlast (butlast p) @ [''lib'']" using ne l by (metis append_butlast_last_id)
  also have "butlast (butlast p) = butlast (butlast (butlast p)) @ [''build'']" using ne l by (metis append_butlast_last_id)
  also have "butlast (butlast (butlast p)) = root @ [''.lake'']" using ne l by (metis append_butlast_last_id)
  finally show "\<exists>lib_file. p = root @ [''.lake'', ''build'', ''lib'', lib_file]" by auto
next
  assume "\<exists>lib_file. p = root @ [''.lake'', ''build'', ''lib'', lib_file]"
  then obtain lib_file where "p = ((root @ [''.lake'']) @ [''build'']) @ [''lib''] @ [lib_file]" by auto
  then show "infer_lake_project_root_from_dylib p = Inr root"
    by (simp add: infer_lake_project_root_from_dylib_def parent_def file_name_def butlast_append)
qed

section \<open>Correctness\<close>

lemma set_dedup_paths: "set (dedup_paths ps) = set ps \<and> distinct (dedup_paths ps)"
proof -
  let ?f = "\<lambda>path unique :: string list. if \<not> list_ex (\<lambda>existing. existing = path) unique then unique @ [path] else unique"
  have "distinct acc \<Longrightarrow> set (fold ?f ps acc) = set acc \<union> set ps \<and> distinct (fold ?f ps acc)" for acc
    by (induction ps arbitrary: acc) (auto simp: list_ex_iff)
  from this [of "[]"] show ?thesis by (simp add: dedup_paths_def)
qed

text \<open>The text of a bootstrap check is bounded only when its 1024th byte ends a character.  A longer text
  with a character across that byte makes the loop pop characters until the text is shorter than the limit,
  where no boundary can be found any more, so it never returns: a missing child executable whose path is such a
  text hangs both \<open>open\<close> and \<open>check\<close>.  Every text that is bounded has at most 1027 bytes.\<close>

theorem bootstrap_text_hangs_on_split_character:
  assumes "wc_env_var child = None" and "wc_explicit_path child = Some p" and "\<not> ho_is_file ho p"
    and "su_worker_child (cb_setup b) = Some child"
    and "1024 < length p" and "\<not> is_char_boundary p 1024"
  shows "open_capability pp render ho b os = None \<and> check_capability pp render ho b os = None \<and>
         (bound_bootstrap_text s = None \<longleftrightarrow> 1024 < length s \<and> \<not> is_char_boundary s 1024) \<and>
         (\<forall>t. bound_bootstrap_text s = Some t \<longrightarrow> length t \<le> 1027)"
proof -
  have r: "child_resolve ho child = Inr p" using assms(1,2) by (simp add: child_resolve_def)
  have v: "validate_worker_child_path ho p = Inl (EWorkerChildNotExecutable p ''path does not point to a file'')"
    using assms(3) by (simp add: validate_worker_child_path_def)
  have c: "check_from_open_error render (EWorkerChildNotExecutable p ''path does not point to a file'') = None"
    using assms(5,6) by (simp add: check_from_open_error_def check_error_def bound_bootstrap_text_cases)
  have "bootstrap_static_checks render ho b = None"
    using r v c assms(4) by (simp add: bootstrap_static_checks_def worker_child_static_checks_def)
  then show ?thesis
    by (auto simp: open_capability_def check_capability_def bound_bootstrap_text_cases)
qed

definition demo_host :: host where
  "demo_host = \<lparr>ho_env = (\<lambda>_. None), ho_is_file = (\<lambda>p. p = ''/bin/worker''), ho_executable = (\<lambda>_. True),
     ho_exe_suffix = [], ho_exe_dirs = [''/bin''], ho_workspace = None, ho_cargo_builds = False,
     ho_canonicalize = Some, ho_discover = Inr ''/lean'', ho_manifest = (\<lambda>_. ManifestUnreadable ''''),
     ho_manifest_errors = (\<lambda>_. []), ho_build = (\<lambda>_ _ _ _. Inr (''lib.so'', ''m.json''))\<rparr>"

definition demo_long_path :: string where
  "demo_long_path = replicate 1023 (CHR ''a'') @ [CHR 0xC3, CHR 0xA9]"

definition demo_builder :: capability_builder where
  "demo_builder = (builder_new ''p'' ''pkg'' ''L'' [''Init''])\<lparr>cb_setup := setup_default\<lparr>su_worker_child :=
     Some (child_at_path demo_long_path)\<rparr>\<rparr>"

theorem bootstrap_text_hangs_on_split_character_witness:
  "open_capability (\<lambda>_. None) (\<lambda>_. []) demo_host demo_builder demo_world = None"
proof -
  let ?child = "child_at_path demo_long_path"
  have len: "1024 < length demo_long_path" by (simp add: demo_long_path_def)
  have "demo_long_path ! 1024 = CHR 0xA9" by (simp add: demo_long_path_def nth_append)
  with len have nb: "\<not> is_char_boundary demo_long_path 1024"
    by (simp add: is_char_boundary_def demo_long_path_def)
  have nf: "\<not> ho_is_file demo_host demo_long_path"
  proof
    assume "ho_is_file demo_host demo_long_path"
    then have "demo_long_path = ''/bin/worker''" by (simp add: demo_host_def)
    then have "length demo_long_path = length ''/bin/worker''" by (rule arg_cong)
    with len show False by simp
  qed
  have ch: "wc_env_var ?child = None" "wc_explicit_path ?child = Some demo_long_path"
    "su_worker_child (cb_setup demo_builder) = Some ?child"
    by (simp_all add: child_at_path_def demo_builder_def)
  show ?thesis
    using bootstrap_text_hangs_on_split_character [OF ch(1,2) nf ch(3) len nb] by blast
qed

lemma open_unchecked_spec:
  assumes "open_unchecked pp ho b os = (Inr c, os')"
  shows "\<exists>manifest_path. capability_artifact ho b = Inr (cap_dylib_path c, manifest_path) \<and>
           cap_session_config c = capability_session_config ho b manifest_path \<and>
           (case cb_metadata_check b of
              None \<Rightarrow> cap_validated_metadata c = None
            | Some mc \<Rightarrow> (\<exists>metadata. cap_validated_metadata c = Some metadata \<and>
                            (\<forall>expected. mc_expected mc = Some expected \<longrightarrow> metadata = expected)))"
proof -
  obtain started os1 where n: "now os = (started, os1)" by (cases "now os")
  from assms n obtain dylib manifest_path where art: "capability_artifact ho b = Inr (dylib, manifest_path)"
    by (cases "capability_artifact ho b") (auto simp: open_unchecked_def)
  obtain load os2 where el: "elapsed started os1 = (load, os2)" by (cases "elapsed started os1")
  obtain sp os3 where s: "spawn_checked_worker pp ho (cb_setup b) os2 = (sp, os3)"
    by (cases "spawn_checked_worker pp ho (cb_setup b) os2")
  from assms n art el s obtain w where w: "sp = Inr w" by (cases sp) (auto simp: open_unchecked_def)
  let ?cfg = "capability_session_config ho b manifest_path"
  obtain q w1 os4 where p: "prepare_session pp b ?cfg w os3 = (q, w1, os4)" by (cases "prepare_session pp b ?cfg w os3")
  from assms n art el s w p obtain open_elapsed metadata where q: "q = Inr (open_elapsed, metadata)"
    by (cases q) (auto simp: open_unchecked_def Let_def)
  from assms n art el s w p q have c: "cap_session_config c = ?cfg" "cap_dylib_path c = dylib"
    "cap_validated_metadata c = metadata" by (auto simp: open_unchecked_def Let_def)
  have m: "case cb_metadata_check b of
              None \<Rightarrow> metadata = None
            | Some mc \<Rightarrow> (\<exists>m. metadata = Some m \<and> (\<forall>expected. mc_expected mc = Some expected \<longrightarrow> m = expected))"
    using p [unfolded q]
    by (auto simp: prepare_session_def check_metadata_def split: prod.splits sum.splits option.splits if_splits)
  from art c m show ?thesis by auto
qed


definition demo_boot_builder :: capability_builder where
  "demo_boot_builder = (builder_new ''p'' ''pkg'' ''L'' [])\<lparr>cb_setup := setup_default\<lparr>su_worker_child :=
     Some (for_toolchain ''/bin/worker'' ''/lean'')\<rparr>\<rparr>"

definition demo_boot_world :: world where
  "demo_boot_world = demo_world\<lparr>os_spawns := [Some (demo_spawned 9 [demo_handshake, demo_arrival (MResponse RHealthOk)] [])]\<rparr>"


lemmas boot_defs = spawn_def startup_child_def demo_defs world_defs read_handshake_def PROTOCOL_VERSION_def
        config_new_def nanos_per_ms_def demo_boot_world_def demo_boot_builder_def setup_default_def apply_opt_def
        checked_config_def for_toolchain_def builder_new_def apply_runtime_limits_def cfg_with_env_def

lemma demo_boot_spawn:
  "\<exists>w os1 w2 os2. spawn (checked_config ''/bin/worker'' ''/lean'' (cb_setup demo_boot_builder)) demo_boot_world = (Inr w, os1)
     \<and> health (\<lambda>_. None) w os1 = (Inr (), w2, os2)"
  by (simp add: boot_defs health_def exchange_def check_cancelled_def extract_response_def
    prepare_request_def note_import_attempt_def request_limit_reached_def rss_check_def ensure_running_def status_def
      idle_check_def count_admission_def new_worker_def policy_disabled_def send_request_def write_request_def record_request_def
      request_defs response_loop.simps demo_arrival_def expect_response_def)

lemma demo_boot:
  "\<exists>c os'. open_unchecked (\<lambda>_. None) demo_host demo_boot_builder demo_boot_world = (Inr c, os')"
proof -
  obtain w os1 w2 os2 where s: "spawn (checked_config ''/bin/worker'' ''/lean'' (cb_setup demo_boot_builder)) demo_boot_world = (Inr w, os1)"
     "health (\<lambda>_. None) w os1 = (Inr (), w2, os2)" using demo_boot_spawn by blast
  have n: "now demo_boot_world = (0, demo_boot_world)" "elapsed 0 demo_boot_world = (0, demo_boot_world)"
    by (simp_all add: demo_boot_world_def now_def elapsed_def demo_world_def)
  have ch: "su_worker_child (cb_setup demo_boot_builder) = Some (for_toolchain ''/bin/worker'' ''/lean'')"
    by (simp add: demo_boot_builder_def)
  have "spawn_checked_worker (\<lambda>_. None) demo_host (cb_setup demo_boot_builder) demo_boot_world = (Inr w2, os2)"
    using s by (simp add: spawn_checked_worker_def ch for_toolchain_def child_resolve_def validate_worker_child_path_def
      resolve_lean_sysroot_def demo_host_def)
  with n show ?thesis
    by (simp add: open_unchecked_def capability_artifact_def demo_boot_builder_def builder_new_def demo_host_def
        prepare_session_def capability_session_config_def Let_def)
qed


end
