(* ===== verification/Worker_Pool.thy ===== *)
theory Worker_Pool
  imports Bootstrap
begin

text \<open>
  The local worker pool (\<open>pool.rs\<close> of \<open>lean-rs-worker-parent\<close>): session keys, admission of
  leases, the policies a worker is cycled for, leases and the pool's counters.

  A lease borrows its entry: here it names the entry by index, and the operations on a lease
  take the entry and return it updated.  While a lease exists nothing else can reach the pool,
  so a history of the pool is a sequence of acquisitions, each followed by what its lease did.
\<close>

section \<open>Session keys\<close>

datatype restart_policy_class = ClassDefault | ClassCustom

record metadata_expectation_key =
  mk_export :: string
  mk_request :: json
  mk_expected :: "json option"

record session_key =
  sk_project_root :: string
  sk_import_workspace_root :: string
  sk_built_manifest_path :: "string option"
  sk_package :: string
  sk_lib_name :: string
  sk_imports :: "string list"
  sk_import_profile :: import_profile
  sk_metadata_expectation :: "metadata_expectation_key option"
  sk_toolchain_fingerprint :: string
  sk_restart_policy_class :: restart_policy_class

definition key_new :: "host \<Rightarrow> string \<Rightarrow> string \<Rightarrow> string \<Rightarrow> string \<Rightarrow> string list \<Rightarrow> session_key" where
  "key_new ho fingerprint project_root package lib_name imports =
     (let root = normalize_root ho project_root in
      \<lparr>sk_project_root = root, sk_import_workspace_root = normalize_root ho root, sk_built_manifest_path = None,
       sk_package = package, sk_lib_name = lib_name, sk_imports = imports, sk_import_profile = Private,
       sk_metadata_expectation = None, sk_toolchain_fingerprint = fingerprint,
       sk_restart_policy_class = ClassDefault\<rparr>)"

definition with_import_workspace_root :: "host \<Rightarrow> string \<Rightarrow> session_key \<Rightarrow> session_key" where
  "with_import_workspace_root ho root k = k\<lparr>sk_import_workspace_root := normalize_root ho root\<rparr>"

definition with_built_manifest_path :: "host \<Rightarrow> string \<Rightarrow> session_key \<Rightarrow> session_key" where
  "with_built_manifest_path ho p k = k\<lparr>sk_built_manifest_path := Some (normalize_root ho p)\<rparr>"

definition metadata_expectation :: "string \<Rightarrow> json \<Rightarrow> json option \<Rightarrow> session_key \<Rightarrow> session_key" where
  "metadata_expectation export_name request expected k =
     k\<lparr>sk_metadata_expectation := Some \<lparr>mk_export = export_name, mk_request = request, mk_expected = expected\<rparr>\<rparr>"

definition restart_policy_class_of :: "worker_setup \<Rightarrow> restart_policy_class" where
  "restart_policy_class_of su =
     (if su_session_pool_capacity su \<noteq> None then ClassCustom
      else (case su_restart_policy su of
              Some policy \<Rightarrow> (if policy = policy_disabled then ClassDefault else ClassCustom)
            | None \<Rightarrow> ClassDefault))"

definition session_key_of :: "host \<Rightarrow> string \<Rightarrow> capability_builder \<Rightarrow> session_key" where
  "session_key_of ho fingerprint b =
     (let key = (with_import_workspace_root ho (effective_import_workspace_root ho b)
                   ((key_new ho fingerprint (cb_project_root b) (cb_package b) (cb_lib_name b) (cb_imports b))
                      \<lparr>sk_import_profile := cb_import_profile b\<rparr>))
                  \<lparr>sk_restart_policy_class := restart_policy_class_of (cb_setup b)\<rparr>;
          key = (case cb_built_manifest_path b of
                   Some p \<Rightarrow> with_built_manifest_path ho p key | None \<Rightarrow> key)
      in (case cb_metadata_check b of
            Some check \<Rightarrow> metadata_expectation (mc_export check) (mc_request check) (mc_expected check) key
          | None \<Rightarrow> key))"

definition LEAN_WORKER_REQUEST_TIMEOUT_DEFAULT :: nat where
  "LEAN_WORKER_REQUEST_TIMEOUT_DEFAULT = secs 30"

definition pool_request_timeout :: "capability_builder \<Rightarrow> nat" where
  "pool_request_timeout b =
     (case su_request_timeout (cb_setup b) of Some t \<Rightarrow> t | None \<Rightarrow> LEAN_WORKER_REQUEST_TIMEOUT_DEFAULT)"

section \<open>Configuration and state\<close>

record pool_config =
  pc_max_workers :: nat
  pc_max_total_child_rss_kib :: "nat option"
  pc_per_worker_rss_ceiling_kib :: "nat option"
  pc_idle_cycle_after :: "nat option"
  pc_queue_wait_timeout :: nat

definition pool_config_new :: "nat \<Rightarrow> pool_config" where
  "pool_config_new max_workers =
     \<lparr>pc_max_workers = max max_workers 1, pc_max_total_child_rss_kib = None, pc_per_worker_rss_ceiling_kib = None,
      pc_idle_cycle_after = None, pc_queue_wait_timeout = 0\<rparr>"

definition max_total_child_rss_kib :: "nat \<Rightarrow> pool_config \<Rightarrow> pool_config" where
  "max_total_child_rss_kib limit c = c\<lparr>pc_max_total_child_rss_kib := Some (max limit 1)\<rparr>"

definition per_worker_rss_ceiling_kib :: "nat \<Rightarrow> pool_config \<Rightarrow> pool_config" where
  "per_worker_rss_ceiling_kib limit c = c\<lparr>pc_per_worker_rss_ceiling_kib := Some (max limit 1)\<rparr>"

definition idle_cycle_after :: "nat \<Rightarrow> pool_config \<Rightarrow> pool_config" where
  "idle_cycle_after limit c = c\<lparr>pc_idle_cycle_after := Some limit\<rparr>"

definition queue_wait_timeout :: "nat \<Rightarrow> pool_config \<Rightarrow> pool_config" where
  "queue_wait_timeout timeout c = c\<lparr>pc_queue_wait_timeout := timeout\<rparr>"

record pool_entry =
  en_key :: session_key
  en_builder :: capability_builder
  en_capability :: capability
  en_base_request_timeout :: nat
  en_last_rss_kib :: "nat option"
  en_rss_samples_unavailable :: nat
  en_last_activity :: nat
  en_last_restart_reason :: "restart_reason option"
  en_policy_restarts :: nat
  en_active_leases :: nat
  en_commands_since_open :: nat

record pool =
  pl_config :: pool_config
  pl_entries :: "pool_entry list"
  pl_queue_timeouts :: nat
  pl_memory_budget_rejections :: nat
  pl_cold_open_attempts :: nat
  pl_cold_open_admitted :: nat
  pl_cold_open_refusals :: nat
  pl_key_hits :: nat
  pl_key_misses :: nat
  pl_seen_keys :: "session_key list"
  pl_fresh_cold_opens_avoided :: nat
  pl_miss_empty_pool :: nat
  pl_miss_no_matching_key :: nat
  pl_last_key_miss_reason :: "string option"
  pl_cold_opens_in_progress :: nat
  pl_concurrent_cold_opens_observed :: nat
  pl_rss_before_admission_kib :: "nat option"
  pl_rss_after_open_kib :: "nat option"
  pl_refusal_reason :: "string option"

definition pool_new :: "pool_config \<Rightarrow> pool" where
  "pool_new config =
     \<lparr>pl_config = config, pl_entries = [], pl_queue_timeouts = 0, pl_memory_budget_rejections = 0,
      pl_cold_open_attempts = 0, pl_cold_open_admitted = 0, pl_cold_open_refusals = 0, pl_key_hits = 0,
      pl_key_misses = 0, pl_seen_keys = [], pl_fresh_cold_opens_avoided = 0, pl_miss_empty_pool = 0,
      pl_miss_no_matching_key = 0, pl_last_key_miss_reason = None, pl_cold_opens_in_progress = 0,
      pl_concurrent_cold_opens_observed = 0, pl_rss_before_admission_kib = None, pl_rss_after_open_kib = None,
      pl_refusal_reason = None\<rparr>"

definition en_worker :: "pool_entry \<Rightarrow> worker" where "en_worker e = cap_worker (en_capability e)"

definition set_worker :: "worker \<Rightarrow> pool_entry \<Rightarrow> pool_entry" where
  "set_worker w e = e\<lparr>en_capability := (en_capability e)\<lparr>cap_worker := w\<rparr>\<rparr>"

definition entry_stats :: "pool_entry \<Rightarrow> worker_stats" where "entry_stats e = wk_stats (en_worker e)"

section \<open>Entries\<close>

definition sample_rss :: "pool_entry \<Rightarrow> nat option \<times> pool_entry" where
  "sample_rss e =
     (case rss_kib (en_worker e) of
        (Some v, w) \<Rightarrow> (Some v, (set_worker w e)\<lparr>en_last_rss_kib := Some v\<rparr>)
      | (None, w) \<Rightarrow>
          (None, (set_worker w e)\<lparr>en_rss_samples_unavailable := sat_inc (en_rss_samples_unavailable e)\<rparr>))"

definition cycle_for_policy :: "restart_reason \<Rightarrow> pool_entry \<Rightarrow> world \<Rightarrow> (worker_error + unit) \<times> pool_entry \<times> world" where
  "cycle_for_policy reason e os =
     (case restart_with_reason reason (en_worker e) os of
        (Inl err, w, os1) \<Rightarrow> (Inl err, set_worker w e, os1)
      | (Inr _, w, os1) \<Rightarrow>
          (case now os1 of (at, os2) \<Rightarrow>
             (Inr (),
              (set_worker w e)\<lparr>en_last_restart_reason := Some reason, en_last_activity := at,
                 en_last_rss_kib := None, en_policy_restarts := sat_inc (en_policy_restarts e),
                 en_commands_since_open := 0\<rparr>, os2)))"

definition enforce_idle :: "pool_config \<Rightarrow> pool_entry \<Rightarrow> world
    \<Rightarrow> (worker_error + lease_reason option) \<times> pool_entry \<times> world" where
  "enforce_idle config e os =
     (case pc_idle_cycle_after config of
        None \<Rightarrow> (Inr None, e, os)
      | Some limit \<Rightarrow>
          (case elapsed (en_last_activity e) os of (idle_for, os1) \<Rightarrow>
             (if limit \<le> idle_for then
                (case cycle_for_policy (Idle idle_for limit) e os1 of
                   (Inl err, e1, os2) \<Rightarrow> (Inl err, e1, os2)
                 | (Inr _, e1, os2) \<Rightarrow> (Inr (Some (IdlePolicyCycled idle_for limit)), e1, os2))
              else (Inr None, e, os1))))"

definition enforce_policy :: "pool_config \<Rightarrow> pool_entry \<Rightarrow> world
    \<Rightarrow> (worker_error + lease_reason option) \<times> pool_entry \<times> world" where
  "enforce_policy config e os =
     (case pc_per_worker_rss_ceiling_kib config of
        None \<Rightarrow> enforce_idle config e os
      | Some limit_kib \<Rightarrow>
          (case sample_rss e of
             (Some current_kib, e1) \<Rightarrow>
               (if limit_kib \<le> current_kib then
                  (case cycle_for_policy (RssCeiling current_kib limit_kib (st_last_import_stats (entry_stats e1))) e1 os of
                     (Inl err, e2, os1) \<Rightarrow> (Inl err, e2, os1)
                   | (Inr _, e2, os1) \<Rightarrow> (Inr (Some (MemoryPolicyCycled current_kib limit_kib)), e2, os1))
                else enforce_idle config e1 os)
           | (None, e1) \<Rightarrow> enforce_idle config e1 os))"

text \<open>\<open>None\<close> is an \<open>open\<close> whose bootstrap check never returns.\<close>

definition ensure_entry_running ::
  "(json \<Rightarrow> string option) \<Rightarrow> (worker_error \<Rightarrow> string) \<Rightarrow> host \<Rightarrow> pool_entry \<Rightarrow> world
     \<Rightarrow> ((worker_error + unit) \<times> pool_entry \<times> world) option" where
  "ensure_entry_running pp render ho e os =
     (case status (en_worker e) os of
        (Inl err, w, os1) \<Rightarrow> Some (Inl err, set_worker w e, os1)
      | (Inr Running, w, os1) \<Rightarrow> Some (Inr (), set_worker w e, os1)
      | (Inr (Exited ex), w, os1) \<Rightarrow>
          (case open_capability pp render ho (en_builder e) os1 of
             None \<Rightarrow> None
           | Some (Inl err, os2) \<Rightarrow> Some (Inl err, set_worker w e, os2)
           | Some (Inr c, os2) \<Rightarrow>
               (case now (drop_worker w os2) of (at, os3) \<Rightarrow>
                  Some (Inr (), e\<lparr>en_capability := c, en_last_activity := at\<rparr>, os3))))"

section \<open>Admission\<close>

fun total_known_child_rss_kib :: "pool_entry list \<Rightarrow> nat option" where
  "total_known_child_rss_kib [] = Some 0"
| "total_known_child_rss_kib (e # es) =
     (case (en_last_rss_kib e, total_known_child_rss_kib es) of
        (Some rss, Some total_kib) \<Rightarrow> Some (sat_add rss total_kib)
      | _ \<Rightarrow> None)"

text \<open>The sum saturates at the same value whichever end it starts from.\<close>

record pool_rss_total =
  rt_total_kib :: nat
  rt_unavailable :: nat

definition available_total :: "pool_rss_total \<Rightarrow> nat option" where
  "available_total rss = (if rt_unavailable rss = 0 then Some (rt_total_kib rss) else None)"

fun refresh_rss :: "pool_entry list \<Rightarrow> pool_rss_total \<Rightarrow> pool_rss_total \<times> pool_entry list" where
  "refresh_rss [] acc = (acc, [])"
| "refresh_rss (e # es) acc =
     (case sample_rss e of
        (Some v, e1) \<Rightarrow>
          (case refresh_rss es (acc\<lparr>rt_total_kib := sat_add (rt_total_kib acc) v\<rparr>) of
             (t, es1) \<Rightarrow> (t, e1 # es1))
      | (None, e1) \<Rightarrow>
          (case refresh_rss es (acc\<lparr>rt_unavailable := sat_inc (rt_unavailable acc)\<rparr>) of
             (t, es1) \<Rightarrow> (t, e1 # es1)))"

definition refresh_total_child_rss :: "pool \<Rightarrow> pool_rss_total \<times> pool" where
  "refresh_total_child_rss p =
     (case refresh_rss (pl_entries p) \<lparr>rt_total_kib = 0, rt_unavailable = 0\<rparr> of
        (t, es) \<Rightarrow> (t, p\<lparr>pl_entries := es\<rparr>))"

definition record_cold_open_attempt :: "pool \<Rightarrow> pool" where
  "record_cold_open_attempt p =
     (let p1 = p\<lparr>pl_cold_open_attempts := sat_inc (pl_cold_open_attempts p), pl_refusal_reason := None\<rparr> in
      if 0 < pl_cold_opens_in_progress p1
      then p1\<lparr>pl_concurrent_cold_opens_observed := sat_inc (pl_concurrent_cold_opens_observed p1)\<rparr> else p1)"

definition record_cold_open_admitted :: "pool \<Rightarrow> pool" where
  "record_cold_open_admitted p =
     p\<lparr>pl_cold_open_admitted := sat_inc (pl_cold_open_admitted p),
       pl_cold_opens_in_progress := sat_inc (pl_cold_opens_in_progress p)\<rparr>"

definition record_cold_open_refusal :: "string \<Rightarrow> pool \<Rightarrow> pool" where
  "record_cold_open_refusal reason p =
     p\<lparr>pl_cold_open_refusals := sat_inc (pl_cold_open_refusals p), pl_refusal_reason := Some reason\<rparr>"

definition remember_seen_key :: "session_key \<Rightarrow> pool \<Rightarrow> pool" where
  "remember_seen_key key p =
     (if list_all (\<lambda>seen. seen \<noteq> key) (pl_seen_keys p)
      then p\<lparr>pl_seen_keys := pl_seen_keys p @ [key]\<rparr> else p)"

definition record_key_hit :: "pool \<Rightarrow> pool" where
  "record_key_hit p =
     p\<lparr>pl_key_hits := sat_inc (pl_key_hits p),
       pl_fresh_cold_opens_avoided := sat_inc (pl_fresh_cold_opens_avoided p), pl_last_key_miss_reason := None\<rparr>"

definition record_key_miss :: "string \<Rightarrow> pool \<Rightarrow> pool" where
  "record_key_miss reason p =
     (let p1 = p\<lparr>pl_key_misses := sat_inc (pl_key_misses p)\<rparr>;
          p2 = (if reason = ''empty_pool''
                then p1\<lparr>pl_miss_empty_pool := sat_inc (pl_miss_empty_pool p1)\<rparr>
                else if reason = ''no_matching_key''
                then p1\<lparr>pl_miss_no_matching_key := sat_inc (pl_miss_no_matching_key p1)\<rparr> else p1)
      in p2\<lparr>pl_last_key_miss_reason := Some reason\<rparr>)"

fun find_map :: "('a \<Rightarrow> 'b option) \<Rightarrow> 'a list \<Rightarrow> 'b option" where
  "find_map f [] = None"
| "find_map f (x # xs) = (case f x of Some y \<Rightarrow> Some y | None \<Rightarrow> find_map f xs)"

definition latest_import_stats :: "pool \<Rightarrow> import_stats option" where
  "latest_import_stats p = find_map (\<lambda>e. st_last_import_stats (entry_stats e)) (pl_entries p)"

definition pool_resource_facts ::
  "string \<Rightarrow> nat option \<Rightarrow> nat option \<Rightarrow> nat option \<Rightarrow> import_stats option \<Rightarrow> pool \<Rightarrow> resource_facts" where
  "pool_resource_facts cause current_rss limit queue_wait stats p =
     \<lparr>rf_cause = cause, rf_work_entered_child = False, rf_operation = Some ''worker_pool_acquire_lease'',
      rf_current_rss_kib = current_rss, rf_limit_kib = limit, rf_import_count = None, rf_worker_generation = None,
      rf_restart_reason =
        map_option stable_cause (find_map (\<lambda>e. st_last_restart_reason (entry_stats e)) (pl_entries p)),
      rf_queue_wait_ms = map_option (\<lambda>d. clamp_u64 (d div nanos_per_ms)) queue_wait, rf_duration_ms = None,
      rf_cold_open_attempts = Some (pl_cold_open_attempts p), rf_cold_open_admitted = Some (pl_cold_open_admitted p),
      rf_cold_open_refusals = Some (pl_cold_open_refusals p),
      rf_import_like_requests =
        Some (fold (\<lambda>e acc. sat_add acc (st_import_like_admission_attempts (entry_stats e))) (pl_entries p) 0),
      rf_import_like_admitted = None, rf_last_import_stats = stats\<rparr>"

definition ensure_spawn_within_total_rss_budget :: "pool_rss_total \<Rightarrow> pool \<Rightarrow> (worker_error + unit) \<times> pool" where
  "ensure_spawn_within_total_rss_budget rss p =
     (case pc_max_total_child_rss_kib (pl_config p) of
        None \<Rightarrow> (Inr (), p)
      | Some limit_kib \<Rightarrow>
          (if 0 < rt_unavailable rss then (Inr (), p)
           else if limit_kib \<le> rt_total_kib rss then
             let p1 = record_cold_open_refusal ''rss_budget''
                        (p\<lparr>pl_memory_budget_rejections := sat_inc (pl_memory_budget_rejections p)\<rparr>);
                 stats = latest_import_stats p1
             in (Inl (EWorkerPoolMemoryBudgetExceeded (rt_total_kib rss) limit_kib stats
                        (pool_resource_facts ''worker_pool_total_rss_budget'' (Some (rt_total_kib rss))
                           (Some limit_kib) None stats p1)), p1)
           else (Inr (), p)))"

text \<open>The queue wait: sleep in steps of at most ten milliseconds until the timeout has passed.\<close>

function queue_wait :: "nat \<Rightarrow> nat \<Rightarrow> world \<Rightarrow> world" where
  "queue_wait timeout started os =
     (case elapsed started os of (waited, os1) \<Rightarrow>
        (if waited < timeout
         then (case elapsed started os1 of (again, os2) \<Rightarrow>
                 queue_wait timeout started (sleep (min (timeout - again) (millis 10)) os2))
         else os1))"
  by pat_completeness auto
termination
  by (relation "measure (\<lambda>(timeout, started, os). started + timeout - os_clock os)")
    (auto simp: sleep_def dest!: elapsed_mono [OF sym])

declare queue_wait.simps [simp del]

definition pool_full_error :: "pool \<Rightarrow> world \<Rightarrow> worker_error \<times> pool \<times> world" where
  "pool_full_error p os =
     (if pc_queue_wait_timeout (pl_config p) = 0 then
        let p1 = record_cold_open_refusal ''max_workers'' p in
        (EWorkerPoolExhausted (pc_max_workers (pl_config p))
           (pool_resource_facts ''worker_pool_max_workers'' None None None (latest_import_stats p1) p1), p1, os)
      else
        (case now os of (started, os1) \<Rightarrow>
           let timeout = pc_queue_wait_timeout (pl_config p);
               os2 = queue_wait timeout started os1;
               p1 = record_cold_open_refusal ''queue_timeout'' (p\<lparr>pl_queue_timeouts := sat_inc (pl_queue_timeouts p)\<rparr>)
           in (EWorkerPoolQueueTimeout timeout
                 (pool_resource_facts ''worker_pool_queue_timeout'' None None (Some timeout) (latest_import_stats p1) p1),
               p1, os2)))"

datatype pool_admission_decision = ReuseWarmEntry nat | OpenColdEntry

definition admit_lease :: "session_key \<Rightarrow> pool \<Rightarrow> world
    \<Rightarrow> (worker_error + pool_admission_decision) \<times> pool \<times> world" where
  "admit_lease key p os =
     (let p1 = remember_seen_key key p in
      case position (\<lambda>e. en_key e = key) (pl_entries p1) of
        Some index \<Rightarrow> (Inr (ReuseWarmEntry index), record_key_hit p1, os)
      | None \<Rightarrow>
          let p2 = record_cold_open_attempt
                     (record_key_miss (if pl_entries p1 = [] then ''empty_pool'' else ''no_matching_key'') p1)
          in (case refresh_total_child_rss p2 of
                (rss, p3) \<Rightarrow>
                  let p4 = p3\<lparr>pl_rss_before_admission_kib := available_total rss\<rparr> in
                  (if pc_max_workers (pl_config p4) \<le> length (pl_entries p4)
                   then (case pool_full_error p4 os of (e, p5, os1) \<Rightarrow> (Inl e, p5, os1))
                   else (case ensure_spawn_within_total_rss_budget rss p4 of
                           (Inl e, p5) \<Rightarrow> (Inl e, p5, os)
                         | (Inr _, p5) \<Rightarrow> (Inr OpenColdEntry, record_cold_open_admitted p5, os)))))"

section \<open>Leases\<close>

record session_lease =
  le_index :: nat
  le_config :: pool_config
  le_valid :: bool
  le_invalidation_reason :: "lease_reason option"
  le_request_timeout_override :: "nat option"
  le_admitted_generation :: nat
  le_released :: bool

definition current_generation :: "pool_entry \<Rightarrow> nat" where
  "current_generation e = ls_worker_generation (lifecycle_snapshot_of (en_worker e))"

definition grant_lease :: "nat \<Rightarrow> pool_config \<Rightarrow> pool_entry \<Rightarrow> session_lease \<times> pool_entry" where
  "grant_lease index config e =
     (\<lparr>le_index = index, le_config = config, le_valid = True, le_invalidation_reason = None,
       le_request_timeout_override = None, le_admitted_generation = current_generation e, le_released = False\<rparr>,
      e\<lparr>en_active_leases := sat_inc (en_active_leases e)\<rparr>)"

definition put_entry :: "nat \<Rightarrow> pool_entry \<Rightarrow> pool \<Rightarrow> pool" where
  "put_entry index e p = p\<lparr>pl_entries := (pl_entries p)[index := e]\<rparr>"

definition reuse_entry ::
  "(json \<Rightarrow> string option) \<Rightarrow> (worker_error \<Rightarrow> string) \<Rightarrow> host \<Rightarrow> nat \<Rightarrow> pool \<Rightarrow> world
     \<Rightarrow> ((worker_error + session_lease) \<times> pool \<times> world) option" where
  "reuse_entry pp render ho index p os =
     (case ensure_entry_running pp render ho (pl_entries p ! index) os of
        None \<Rightarrow> None
      | Some (Inl err, e1, os1) \<Rightarrow> Some (Inl err, put_entry index e1 p, os1)
      | Some (Inr _, e1, os1) \<Rightarrow>
          (case enforce_policy (pl_config p) e1 os1 of
             (Inl err, e2, os2) \<Rightarrow> Some (Inl err, put_entry index e2 p, os2)
           | (Inr _, e2, os2) \<Rightarrow>
               (case grant_lease index (pl_config p) e2 of
                  (l, e3) \<Rightarrow> Some (Inr l, put_entry index e3 p, os2))))"

definition new_entry :: "session_key \<Rightarrow> capability_builder \<Rightarrow> capability \<Rightarrow> nat \<Rightarrow> pool_entry" where
  "new_entry key b c at =
     \<lparr>en_key = key, en_builder = b, en_capability = c, en_base_request_timeout = pool_request_timeout b,
      en_last_rss_kib = None, en_rss_samples_unavailable = 0, en_last_activity = at, en_last_restart_reason = None,
      en_policy_restarts = 0, en_active_leases = 0, en_commands_since_open = 0\<rparr>"

definition open_entry ::
  "(json \<Rightarrow> string option) \<Rightarrow> (worker_error \<Rightarrow> string) \<Rightarrow> host \<Rightarrow> session_key \<Rightarrow> capability_builder \<Rightarrow> pool \<Rightarrow> world
     \<Rightarrow> ((worker_error + session_lease) \<times> pool \<times> world) option" where
  "open_entry pp render ho key b p os =
     (case open_capability pp render ho b os of
        None \<Rightarrow> None
      | Some (Inl err, os1) \<Rightarrow>
          Some (Inl err, p\<lparr>pl_cold_opens_in_progress := pl_cold_opens_in_progress p - 1\<rparr>, os1)
      | Some (Inr c, os1) \<Rightarrow>
          (case now os1 of (at, os2) \<Rightarrow>
             let index = length (pl_entries p);
                 e = snd (sample_rss (new_entry key b c at));
                 p1 = p\<lparr>pl_cold_opens_in_progress := pl_cold_opens_in_progress p - 1,
                        pl_entries := pl_entries p @ [e]\<rparr>;
                 p2 = p1\<lparr>pl_rss_after_open_kib := total_known_child_rss_kib (pl_entries p1)\<rparr>
             in (case grant_lease index (pl_config p) e of
                   (l, e2) \<Rightarrow> Some (Inr l, put_entry index e2 p2, os2))))"

definition acquire_lease ::
  "(json \<Rightarrow> string option) \<Rightarrow> (worker_error \<Rightarrow> string) \<Rightarrow> host \<Rightarrow> string \<Rightarrow> capability_builder \<Rightarrow> pool \<Rightarrow> world
     \<Rightarrow> ((worker_error + session_lease) \<times> pool \<times> world) option" where
  "acquire_lease pp render ho fingerprint b p os =
     (let key = session_key_of ho fingerprint b in
      case admit_lease key p os of
        (Inl err, p1, os1) \<Rightarrow> Some (Inl err, p1, os1)
      | (Inr (ReuseWarmEntry index), p1, os1) \<Rightarrow> reuse_entry pp render ho index p1 os1
      | (Inr OpenColdEntry, p1, os1) \<Rightarrow> open_entry pp render ho key b p1 os1)"

definition invalidate :: "lease_reason \<Rightarrow> session_lease \<Rightarrow> session_lease" where
  "invalidate reason l = l\<lparr>le_valid := False, le_invalidation_reason := Some reason\<rparr>"

definition invalid_lease_reason :: "session_lease \<Rightarrow> lease_reason" where
  "invalid_lease_reason l =
     (case le_invalidation_reason l of
        Some reason \<Rightarrow> reason
      | None \<Rightarrow> ReasonText ''lease was invalidated by a worker lifecycle transition'')"

definition ensure_valid :: "session_lease \<Rightarrow> pool_entry \<Rightarrow> worker_error + unit" where
  "ensure_valid l e =
     (if \<not> le_valid l then Inl (ELeaseInvalidated (invalid_lease_reason l))
      else if current_generation e \<noteq> le_admitted_generation l
      then Inl (ELeaseInvalidated (GenerationChanged (le_admitted_generation l) (current_generation e)))
      else Inr ())"

definition invalidates_lease :: "worker_error \<Rightarrow> bool" where
  "invalidates_lease e =
     (case e of
        ECancelled _ _ \<Rightarrow> True
      | ETimeout _ _ _ \<Rightarrow> True
      | ERestartLimitExceeded _ _ \<Rightarrow> True
      | EChildExited _ \<Rightarrow> True
      | EChildPanicOrAbort _ \<Rightarrow> True
      | ECapabilityMetadataMismatch _ _ _ \<Rightarrow> True
      | _ \<Rightarrow> False)"

definition invalidation_reason :: "worker_error \<Rightarrow> lease_reason" where
  "invalidation_reason e =
     (case e of
        ECancelled operation _ \<Rightarrow> CancelledDuring operation
      | ETimeout operation _ _ \<Rightarrow> TimedOutDuring operation
      | ERestartLimitExceeded _ _ \<Rightarrow> ReasonText ''worker restart limit exceeded''
      | EChildExited _ \<Rightarrow> ReasonText ''worker child exited''
      | EChildPanicOrAbort _ \<Rightarrow> ReasonText ''worker child exited fatally''
      | ECapabilityMetadataMismatch export_name _ _ \<Rightarrow> MetadataMismatchFrom export_name
      | _ \<Rightarrow> ReasonText ''worker lifecycle transition'')"

type_synonym 'a leased = "(worker_error + 'a) \<times> session_lease \<times> pool_entry \<times> world"

definition lease_cycle :: "session_lease \<Rightarrow> pool_entry \<Rightarrow> world \<Rightarrow> unit leased" where
  "lease_cycle l e os =
     (case ensure_valid l e of
        Inl err \<Rightarrow> (Inl err, l, e, os)
      | Inr _ \<Rightarrow>
          (case cycle (en_worker e) os of
             (Inl err, w, os1) \<Rightarrow> (Inl err, l, set_worker w e, os1)
           | (Inr _, w, os1) \<Rightarrow> (Inr (), invalidate (ReasonText ''explicit worker cycle'') l, set_worker w e, os1)))"

definition lease_set_request_timeout :: "nat \<Rightarrow> session_lease \<Rightarrow> pool_entry \<Rightarrow> (worker_error + unit) \<times> session_lease" where
  "lease_set_request_timeout timeout l e =
     (case ensure_valid l e of
        Inl err \<Rightarrow> (Inl err, l)
      | Inr _ \<Rightarrow> (Inr (), l\<lparr>le_request_timeout_override := Some timeout\<rparr>))"

definition enforce_policy_before_request :: "session_lease \<Rightarrow> pool_entry \<Rightarrow> world \<Rightarrow> unit leased" where
  "enforce_policy_before_request l e os =
     (case enforce_policy (le_config l) e os of
        (Inl err, e1, os1) \<Rightarrow> (Inl err, l, e1, os1)
      | (Inr (Some reason), e1, os1) \<Rightarrow> (Inl (ELeaseInvalidated reason), invalidate reason l, e1, os1)
      | (Inr None, e1, os1) \<Rightarrow> (Inr (), l, e1, os1))"

definition map_lifecycle_result :: "worker_error + 'a \<Rightarrow> session_lease \<Rightarrow> pool_entry \<Rightarrow> world \<Rightarrow> 'a leased" where
  "map_lifecycle_result result l e os =
     (let e1 = (if le_request_timeout_override l \<noteq> None
                then set_worker (set_request_timeout (en_base_request_timeout e) (en_worker e)) e else e)
      in case now os of (at, os1) \<Rightarrow>
        let e2 = e1\<lparr>en_last_activity := at\<rparr> in
        (case result of
           Inr x \<Rightarrow> (Inr x, l, e2, os1)
         | Inl err \<Rightarrow>
             (Inl err, if invalidates_lease err then invalidate (invalidation_reason err) l else l, e2, os1)))"

text \<open>The override is set on the worker, then the command runs in a session that is open.\<close>

definition attached :: "nat option \<Rightarrow> (worker \<Rightarrow> world \<Rightarrow> 'a outcome) \<Rightarrow> worker \<Rightarrow> world \<Rightarrow> 'a outcome" where
  "attached request_timeout command w os =
     fst (with_session True command
       (case request_timeout of Some t \<Rightarrow> set_request_timeout t w | None \<Rightarrow> w) os)"

text \<open>\<open>capability.open_session(..).and_then(|session| command(&mut session))\<close>.\<close>

definition reopen_and_retry ::
  "(json \<Rightarrow> string option) \<Rightarrow> sinks \<Rightarrow> session_config \<Rightarrow> nat option \<Rightarrow> (worker \<Rightarrow> world \<Rightarrow> 'a outcome)
     \<Rightarrow> worker \<Rightarrow> world \<Rightarrow> 'a outcome" where
  "reopen_and_retry pp snk cfg request_timeout command w os =
     (case open_worker_session pp cfg snk w os of
        (Inl err, w1, os1) \<Rightarrow> (Inl err, w1, os1)
      | (Inr _, w1, os1) \<Rightarrow> attached request_timeout command w1 os1)"

definition run_with_current_session ::
  "(json \<Rightarrow> string option) \<Rightarrow> sinks \<Rightarrow> (worker \<Rightarrow> world \<Rightarrow> 'a outcome) \<Rightarrow> session_lease \<Rightarrow> pool_entry \<Rightarrow> world
     \<Rightarrow> 'a leased" where
  "run_with_current_session pp snk command l e os =
     (case ensure_valid l e of
        Inl err \<Rightarrow> (Inl err, l, e, os)
      | Inr _ \<Rightarrow>
          (case enforce_policy_before_request l e os of
             (Inl err, l1, e1, os1) \<Rightarrow> (Inl err, l1, e1, os1)
           | (Inr _, l1, e1, os1) \<Rightarrow>
               let request_timeout = le_request_timeout_override l1;
                   first_command_after_open = (en_commands_since_open e1 = 0)
               in (case now os1 of (command_started, os2) \<Rightarrow>
                     (case (case attached request_timeout command (en_worker e1) os2 of
                              (Inl err, w, os3) \<Rightarrow>
                                (if worker_session_missing err
                                 then reopen_and_retry pp snk (cap_session_config (en_capability e1))
                                        request_timeout command w os3
                                 else (Inl err, w, os3))
                            | (Inr x, w, os3) \<Rightarrow> (Inr x, w, os3)) of
                        (result, w, os4) \<Rightarrow>
                          (case elapsed command_started os4 of (took, os5) \<Rightarrow>
                             map_lifecycle_result result l1
                               ((set_worker (record_command_timing first_command_after_open took w) e1)
                                  \<lparr>en_commands_since_open := sat_inc (en_commands_since_open e1)\<rparr>) os5)))))"

definition release_once :: "session_lease \<Rightarrow> pool_entry \<Rightarrow> session_lease \<times> pool_entry" where
  "release_once l e =
     (if \<not> le_released l
      then (l\<lparr>le_released := True\<rparr>, e\<lparr>en_active_leases := en_active_leases e - 1\<rparr>) else (l, e))"

text \<open>\<open>release(mut self)\<close>, and the drop of a lease that was not released.\<close>

definition release_lease :: "session_lease \<Rightarrow> pool_entry \<Rightarrow> pool_entry" where
  "release_lease l e = (case release_once l e of (l1, e1) \<Rightarrow> snd (release_once l1 e1))"

section \<open>The snapshot\<close>

record pool_snapshot =
  sn_max_workers :: nat
  sn_workers :: nat
  sn_active_workers :: nat
  sn_warm_leases :: nat
  sn_queue_depth :: nat
  sn_total_child_rss_kib :: "nat option"
  sn_rss_samples_unavailable :: nat
  sn_requests :: nat
  sn_imports :: nat
  sn_worker_restarts :: nat
  sn_max_request_restarts :: nat
  sn_max_import_restarts :: nat
  sn_rss_restarts :: nat
  sn_idle_restarts :: nat
  sn_cancelled_restarts :: nat
  sn_timeout_restarts :: nat
  sn_policy_restarts :: nat
  sn_queue_timeouts :: nat
  sn_memory_budget_rejections :: nat
  sn_cold_open_attempts :: nat
  sn_cold_open_admitted :: nat
  sn_cold_open_refusals :: nat
  sn_key_hits :: nat
  sn_key_misses :: nat
  sn_distinct_keys_seen :: nat
  sn_fresh_cold_opens_avoided :: nat
  sn_miss_empty_pool :: nat
  sn_miss_no_matching_key :: nat
  sn_last_key_miss_reason :: "string option"
  sn_import_like_requests :: nat
  sn_concurrent_cold_opens_observed :: nat
  sn_rss_before_admission_kib :: "nat option"
  sn_rss_after_open_kib :: "nat option"
  sn_refusal_reason :: "string option"
  sn_replacement_attempts :: nat
  sn_replacement_successes :: nat
  sn_replacement_failures :: nat
  sn_replacement_budget_admitted :: nat
  sn_replacement_budget_skipped :: nat
  sn_last_replacement_timing :: "replacement_timing option"
  sn_last_replacement_skipped_reason :: "string option"
  sn_last_spawn_handshake_elapsed :: "nat option"
  sn_last_capability_load_elapsed :: "nat option"
  sn_last_session_open_import_elapsed :: "nat option"
  sn_last_first_command_elapsed :: "nat option"
  sn_last_warm_command_elapsed :: "nat option"
  sn_last_restart_reason :: "restart_reason option"
  sn_last_import_stats :: "import_stats option"
  sn_stream_requests :: nat
  sn_stream_successes :: nat
  sn_stream_failures :: nat
  sn_data_rows_delivered :: nat
  sn_data_row_payload_bytes :: nat
  sn_stream_elapsed :: nat
  sn_backpressure_waits :: nat
  sn_backpressure_failures :: nat

text \<open>\<open>Iterator::sum\<close> on \<open>u64\<close> wraps when overflow checks are off.\<close>

definition sum_u64 :: "('a \<Rightarrow> nat) \<Rightarrow> 'a list \<Rightarrow> nat" where
  "sum_u64 f es = sum_list (map f es) mod 2 ^ 64"

definition latest :: "(worker_stats \<Rightarrow> 'b option) \<Rightarrow> pool_entry list \<Rightarrow> 'b option" where
  "latest f es = find_map (\<lambda>e. f (entry_stats e)) (rev es)"

definition counted :: "(worker_stats \<Rightarrow> nat) \<Rightarrow> pool_entry list \<Rightarrow> nat" where
  "counted f es = sum_u64 (\<lambda>e. f (entry_stats e)) es"

text \<open>\<open>snapshot_from_entries\<close>: the counters that belong to the pool are those of \<open>p\<close>.\<close>

definition snapshot_from_entries :: "pool_entry list \<Rightarrow> pool \<Rightarrow> pool_snapshot" where
  "snapshot_from_entries es p =
     \<lparr>sn_max_workers = pc_max_workers (pl_config p), sn_workers = length es,
      sn_active_workers = length (filter (\<lambda>e. 0 < en_active_leases e) es),
      sn_warm_leases = length (filter (\<lambda>e. en_active_leases e = 0) es), sn_queue_depth = 0,
      sn_total_child_rss_kib = total_known_child_rss_kib es,
      sn_rss_samples_unavailable = sum_u64 en_rss_samples_unavailable es,
      sn_requests = counted st_requests es, sn_imports = counted st_imports es,
      sn_worker_restarts = counted st_restarts es,
      sn_max_request_restarts = counted st_max_request_restarts es,
      sn_max_import_restarts = counted st_max_import_restarts es, sn_rss_restarts = counted st_rss_restarts es,
      sn_idle_restarts = counted st_idle_restarts es, sn_cancelled_restarts = counted st_cancelled_restarts es,
      sn_timeout_restarts = counted st_timeout_restarts es, sn_policy_restarts = sum_u64 en_policy_restarts es,
      sn_queue_timeouts = pl_queue_timeouts p, sn_memory_budget_rejections = pl_memory_budget_rejections p,
      sn_cold_open_attempts = pl_cold_open_attempts p, sn_cold_open_admitted = pl_cold_open_admitted p,
      sn_cold_open_refusals = pl_cold_open_refusals p, sn_key_hits = pl_key_hits p, sn_key_misses = pl_key_misses p,
      sn_distinct_keys_seen = clamp_u64 (length (pl_seen_keys p)),
      sn_fresh_cold_opens_avoided = pl_fresh_cold_opens_avoided p, sn_miss_empty_pool = pl_miss_empty_pool p,
      sn_miss_no_matching_key = pl_miss_no_matching_key p, sn_last_key_miss_reason = pl_last_key_miss_reason p,
      sn_import_like_requests = counted st_import_like_admission_attempts es,
      sn_concurrent_cold_opens_observed = pl_concurrent_cold_opens_observed p,
      sn_rss_before_admission_kib = pl_rss_before_admission_kib p, sn_rss_after_open_kib = pl_rss_after_open_kib p,
      sn_refusal_reason = pl_refusal_reason p, sn_replacement_attempts = counted st_replacement_attempts es,
      sn_replacement_successes = counted st_replacement_successes es,
      sn_replacement_failures = counted st_replacement_failures es,
      sn_replacement_budget_admitted = counted st_replacement_budget_admitted es,
      sn_replacement_budget_skipped = counted st_replacement_budget_skipped es,
      sn_last_replacement_timing = latest st_last_replacement_timing es,
      sn_last_replacement_skipped_reason = latest st_last_replacement_skipped_reason es,
      sn_last_spawn_handshake_elapsed = latest st_last_spawn_handshake_elapsed es,
      sn_last_capability_load_elapsed = latest st_last_capability_load_elapsed es,
      sn_last_session_open_import_elapsed = latest st_last_session_open_import_elapsed es,
      sn_last_first_command_elapsed = latest st_last_first_command_elapsed es,
      sn_last_warm_command_elapsed = latest st_last_warm_command_elapsed es,
      sn_last_restart_reason = find_map en_last_restart_reason (rev es),
      sn_last_import_stats = latest st_last_import_stats es, sn_stream_requests = counted st_stream_requests es,
      sn_stream_successes = counted st_stream_successes es, sn_stream_failures = counted st_stream_failures es,
      sn_data_rows_delivered = counted st_data_rows_delivered es,
      sn_data_row_payload_bytes = counted st_data_row_payload_bytes es,
      sn_stream_elapsed = fold (\<lambda>e acc. duration_sat_add acc (st_stream_elapsed (entry_stats e))) es 0,
      sn_backpressure_waits = counted st_backpressure_waits es,
      sn_backpressure_failures = counted st_backpressure_failures es\<rparr>"

definition pool_snapshot_of :: "pool \<Rightarrow> pool_snapshot" where
  "pool_snapshot_of p = snapshot_from_entries (pl_entries p) p"

definition lease_snapshot :: "session_lease \<Rightarrow> pool_entry \<Rightarrow> pool_snapshot" where
  "lease_snapshot l e = snapshot_from_entries [e] (pool_new (le_config l))"

section \<open>What operations leave alone\<close>

text \<open>
  \<open>same_session e e'\<close>: the entry still stands for the same key, builder and session, under
  the same leases; only its worker and its own measurements may differ.
\<close>

definition same_session :: "pool_entry \<Rightarrow> pool_entry \<Rightarrow> bool" where
  "same_session e e' \<longleftrightarrow>
     en_key e' = en_key e \<and> en_builder e' = en_builder e \<and> en_active_leases e' = en_active_leases e \<and>
     en_base_request_timeout e' = en_base_request_timeout e \<and>
     cap_session_config (en_capability e') = cap_session_config (en_capability e) \<and>
     cap_dylib_path (en_capability e') = cap_dylib_path (en_capability e) \<and>
     cap_validated_metadata (en_capability e') = cap_validated_metadata (en_capability e)"

lemma same_session_refl [simp]: "same_session e e"
  by (simp add: same_session_def)

lemma same_session_trans [trans]: "same_session e e1 \<Longrightarrow> same_session e1 e2 \<Longrightarrow> same_session e e2"
  by (simp add: same_session_def)

lemma same_session_set_worker [simp]: "same_session e (set_worker w e)"
  by (simp add: same_session_def set_worker_def)

lemma en_worker_simps [simp]:
  "en_worker (set_worker w e) = w"
  "en_worker (e\<lparr>en_last_rss_kib := r\<rparr>) = en_worker e" "en_worker (e\<lparr>en_rss_samples_unavailable := n\<rparr>) = en_worker e"
  "en_worker (e\<lparr>en_last_activity := t\<rparr>) = en_worker e" "en_worker (e\<lparr>en_active_leases := n\<rparr>) = en_worker e"
  "en_worker (e\<lparr>en_commands_since_open := n\<rparr>) = en_worker e"
  "en_worker (e\<lparr>en_last_restart_reason := q\<rparr>) = en_worker e" "en_worker (e\<lparr>en_policy_restarts := n\<rparr>) = en_worker e"
  by (simp_all add: en_worker_def set_worker_def)

lemma same_session_updates [simp]:
  "same_session e (e'\<lparr>en_last_rss_kib := r\<rparr>) = same_session e e'"
  "same_session e (e'\<lparr>en_rss_samples_unavailable := n\<rparr>) = same_session e e'"
  "same_session e (e'\<lparr>en_last_activity := t\<rparr>) = same_session e e'"
  "same_session e (e'\<lparr>en_commands_since_open := n\<rparr>) = same_session e e'"
  "same_session e (e'\<lparr>en_last_restart_reason := q\<rparr>) = same_session e e'"
  "same_session e (e'\<lparr>en_policy_restarts := n\<rparr>) = same_session e e'"
  "same_session e (set_worker w e') = same_session e e'"
  by (simp_all add: same_session_def set_worker_def)

lemma sample_rss_same: "sample_rss e = (r, e') \<Longrightarrow> same_session e e'"
  by (auto simp: sample_rss_def split: prod.splits option.splits)

lemma rss_kib_generation: "rss_kib w = (r, w') \<Longrightarrow> st_restarts (wk_stats w') = st_restarts (wk_stats w)"
  by (auto simp: rss_kib_def child_rss_kib_def note_rss_def upd_stats_def split: prod.splits option.splits)

lemma sample_rss_generation: "sample_rss e = (r, e') \<Longrightarrow> current_generation e' = current_generation e"
  by (auto simp: sample_rss_def current_generation_def lifecycle_snapshot_of_def
      dest: rss_kib_generation split: prod.splits option.splits)

lemma cycle_for_policy_same: "cycle_for_policy reason e os = (r, e', os') \<Longrightarrow> same_session e e'"
  by (auto simp: cycle_for_policy_def split: prod.splits sum.splits)

lemma enforce_idle_same: "enforce_idle config e os = (r, e', os') \<Longrightarrow> same_session e e'"
  by (auto simp: enforce_idle_def split: prod.splits sum.splits option.splits if_splits dest: cycle_for_policy_same)

lemma enforce_policy_same: "enforce_policy config e os = (r, e', os') \<Longrightarrow> same_session e e'"
  by (auto simp: enforce_policy_def split: prod.splits sum.splits option.splits if_splits
      dest: cycle_for_policy_same enforce_idle_same sample_rss_same intro: same_session_trans)

lemma enforce_policy_before_request_same:
  "enforce_policy_before_request l e os = (r, l', e', os') \<Longrightarrow> same_session e e'"
  by (auto simp: enforce_policy_before_request_def split: prod.splits sum.splits option.splits dest: enforce_policy_same)

text \<open>What a lease operation changes of the lease.\<close>

definition lease_frame :: "session_lease \<Rightarrow> session_lease \<Rightarrow> bool" where
  "lease_frame l l' \<longleftrightarrow>
     le_index l' = le_index l \<and> le_config l' = le_config l \<and> le_admitted_generation l' = le_admitted_generation l \<and>
     le_released l' = le_released l \<and> (le_valid l' \<longrightarrow> le_valid l)"

lemma lease_frame_simps [simp]:
  "lease_frame l l" "lease_frame l (invalidate reason l)" "lease_frame l (l\<lparr>le_request_timeout_override := t\<rparr>)"
  by (simp_all add: lease_frame_def invalidate_def)

lemma lease_frame_trans [trans]: "lease_frame l l1 \<Longrightarrow> lease_frame l1 l2 \<Longrightarrow> lease_frame l l2"
  by (simp add: lease_frame_def)

lemma enforce_policy_before_request_lease:
  "enforce_policy_before_request l e os = (r, l', e', os') \<Longrightarrow>
     lease_frame l l' \<and> (r = Inr () \<longrightarrow> l' = l)"
  by (auto simp: enforce_policy_before_request_def split: prod.splits sum.splits option.splits)

lemma map_lifecycle_result_spec:
  assumes "map_lifecycle_result result l e os = (r, l', e', os')"
  shows "same_session e e'" and "lease_frame l l'" and "r = result"
    and "l' = (case result of Inl err \<Rightarrow> if invalidates_lease err then invalidate (invalidation_reason err) l else l
                            | Inr x \<Rightarrow> l)"
  using assms by (auto simp: map_lifecycle_result_def Let_def split: prod.splits sum.splits if_splits)

lemma run_cases:
  assumes "run_with_current_session pp snk command l e os = (r, l', e', os')"
  obtains (invalid) err where "ensure_valid l e = Inl err" "r = Inl err" "l' = l" "e' = e" "os' = os"
  | (policy) err where "ensure_valid l e = Inr ()" "enforce_policy_before_request l e os = (Inl err, l', e', os')" "r = Inl err"
  | (ran) e1 os1 e2 os2 where "ensure_valid l e = Inr ()" "enforce_policy_before_request l e os = (Inr (), l, e1, os1)"
      "same_session e1 e2" "map_lifecycle_result r l e2 os2 = (r, l', e', os')"
proof (cases "ensure_valid l e")
  case (Inl err)
  with assms have "r = Inl err" "l' = l" "e' = e" "os' = os" by (simp_all add: run_with_current_session_def)
  with Inl show thesis by (rule invalid)
next
  case (Inr u)
  obtain q l1 e1 os1 where ep: "enforce_policy_before_request l e os = (q, l1, e1, os1)"
    by (cases "enforce_policy_before_request l e os")
  show thesis
  proof (cases q)
    case (Inl err)
    from assms have "r = Inl err" "enforce_policy_before_request l e os = (Inl err, l', e', os')"
      using \<open>ensure_valid l e = Inr u\<close> ep Inl by (simp_all add: run_with_current_session_def)
    then show thesis using \<open>ensure_valid l e = Inr u\<close> by (intro policy) simp_all
  next
    case (Inr v)
    with ep enforce_policy_before_request_lease [OF ep] have [simp]: "l1 = l" by simp
    let ?ret = "\<lambda>out. (case out of
                              (Inl err, w, os3) \<Rightarrow>
                                (if worker_session_missing err
                                 then reopen_and_retry pp snk (cap_session_config (en_capability e1))
                                        (le_request_timeout_override l) command w os3
                                 else (Inl err, w, os3))
                            | (Inr x, w, os3) \<Rightarrow> (Inr x, w, os3))"
    obtain started os2 where n: "now os1 = (started, os2)" by (cases "now os1")
    obtain result w os4 where c: "?ret (attached (le_request_timeout_override l) command (en_worker e1) os2) = (result, w, os4)"
      by (cases "?ret (attached (le_request_timeout_override l) command (en_worker e1) os2)") 
    obtain took os5 where t: "elapsed started os4 = (took, os5)" by (cases "elapsed started os4")
    let ?e2 = "(set_worker (record_command_timing (en_commands_since_open e1 = 0) took w) e1)
        \<lparr>en_commands_since_open := sat_inc (en_commands_since_open e1)\<rparr>"
    have m: "map_lifecycle_result result l ?e2 os5 = (r, l', e', os')"
      using assms \<open>ensure_valid l e = Inr u\<close> ep Inr n c t by (simp add: run_with_current_session_def Let_def)
    from map_lifecycle_result_spec(3) [OF m] have "r = result" .
    with m ep Inr \<open>ensure_valid l e = Inr u\<close> show thesis by (intro ran [of e1 os1 ?e2 os5]) simp_all
  qed
qed

lemma run_same:
  assumes "run_with_current_session pp snk command l e os = (r, l', e', os')"
  shows "same_session e e' \<and> lease_frame l l'"
  using assms
proof (cases rule: run_cases)
  case (policy err)
  then show ?thesis by (auto dest: enforce_policy_before_request_same enforce_policy_before_request_lease)
next
  case (ran e1 os1 e2 os2)
  from enforce_policy_before_request_same [OF ran(2)] ran(3) map_lifecycle_result_spec(1,2) [OF ran(4)]
  show ?thesis by (blast intro: same_session_trans)
qed simp

lemma lease_cycle_same: "lease_cycle l e os = (r, l', e', os') \<Longrightarrow> same_session e e' \<and> lease_frame l l'"
  by (auto simp: lease_cycle_def split: prod.splits sum.splits)

lemma lease_set_request_timeout_same: "lease_set_request_timeout t l e = (r, l') \<Longrightarrow> lease_frame l l'"
  by (auto simp: lease_set_request_timeout_def split: sum.splits)

section \<open>Histories\<close>

text \<open>
  What a lease may do, with any command: its value is dropped, since nothing of the pool depends on it.
\<close>

inductive lease_step ::
  "session_lease \<times> pool_entry \<times> world \<Rightarrow> session_lease \<times> pool_entry \<times> world \<Rightarrow> bool" where
  step_run: "run_with_current_session pp snk (command :: worker \<Rightarrow> world \<Rightarrow> unit outcome) l e os = (r, l', e', os')
     \<Longrightarrow> lease_step (l, e, os) (l', e', os')"
| step_cycle: "lease_cycle l e os = (r, l', e', os') \<Longrightarrow> lease_step (l, e, os) (l', e', os')"
| step_set_request_timeout: "lease_set_request_timeout t l e = (r, l') \<Longrightarrow> lease_step (l, e, os) (l', e, os)"

inductive_cases lease_stepE [elim!]: "lease_step s s'"

inductive pool_history :: "host \<Rightarrow> string \<Rightarrow> pool_config \<Rightarrow> pool \<Rightarrow> world \<Rightarrow> bool"
  for ho fingerprint config where
  history_new: "pool_history ho fingerprint config (pool_new config) os"
| history_refused: "pool_history ho fingerprint config p os
     \<Longrightarrow> acquire_lease pp render ho fingerprint b p os = Some (Inl err, p', os')
     \<Longrightarrow> pool_history ho fingerprint config p' os'"
| history_leased: "pool_history ho fingerprint config p os
     \<Longrightarrow> acquire_lease pp render ho fingerprint b p os = Some (Inr l, p1, os1)
     \<Longrightarrow> lease_step\<^sup>*\<^sup>* (l, pl_entries p1 ! le_index l, os1) (l', e', os')
     \<Longrightarrow> pool_history ho fingerprint config (put_entry (le_index l) (release_lease l' e') p1) os'"

text \<open>An entry serves its key: the key is that of its builder, and its capability was opened for the builder.\<close>

definition opened_for :: "host \<Rightarrow> capability_builder \<Rightarrow> capability \<Rightarrow> bool" where
  "opened_for ho b c \<longleftrightarrow>
     (\<exists>m. cap_session_config c = capability_session_config ho b m) \<and>
     (case cb_metadata_check b of
        None \<Rightarrow> cap_validated_metadata c = None
      | Some mc \<Rightarrow> (\<exists>metadata. cap_validated_metadata c = Some metadata \<and>
                      (\<forall>expected. mc_expected mc = Some expected \<longrightarrow> metadata = expected)))"

definition serves :: "host \<Rightarrow> string \<Rightarrow> pool_entry \<Rightarrow> bool" where
  "serves ho fingerprint e \<longleftrightarrow>
     en_key e = session_key_of ho fingerprint (en_builder e) \<and> opened_for ho (en_builder e) (en_capability e)"

lemma open_capability_opened_for:
  assumes "open_capability pp render ho b os = Some (Inr c, os')"
  shows "opened_for ho b c"
proof -
  from assms have "open_unchecked pp ho b os = (Inr c, os')"
    by (auto simp: open_capability_def split: option.splits)
  from open_unchecked_spec [OF this] show ?thesis by (auto simp: opened_for_def)
qed

lemma same_session_serves: "same_session e e' \<Longrightarrow> serves ho fp e \<Longrightarrow> serves ho fp e'"
  by (cases "cb_metadata_check (en_builder e)") (auto simp: same_session_def serves_def opened_for_def)

lemma same_session_fields: "same_session e e' \<Longrightarrow> en_key e' = en_key e \<and> en_active_leases e' = en_active_leases e"
  by (simp add: same_session_def)

lemma ensure_entry_running_spec:
  assumes "ensure_entry_running pp render ho e os = Some (r, e', os')"
  shows "en_key e' = en_key e \<and> en_active_leases e' = en_active_leases e \<and> (serves ho fp e \<longrightarrow> serves ho fp e')"
proof -
  obtain q w os1 where s: "status (en_worker e) os = (q, w, os1)" by (cases "status (en_worker e) os")
  have same: ?thesis if "same_session e e'"
    using same_session_fields [OF that] same_session_serves [OF that] by blast
  show ?thesis
  proof (cases q)
    case (Inl err)
    with s assms have "same_session e e'" by (auto simp: ensure_entry_running_def)
    then show ?thesis by (rule same)
  next
    case (Inr st)
    show ?thesis
    proof (cases st)
      case Running
      with s Inr assms have "same_session e e'" by (auto simp: ensure_entry_running_def)
      then show ?thesis by (rule same)
    next
      case (Exited ex)
      then obtain x os2 where o: "open_capability pp render ho (en_builder e) os1 = Some (x, os2)"
        using s Inr assms by (auto simp: ensure_entry_running_def split: option.splits)
      show ?thesis
      proof (cases x)
        case (Inl err)
        with s \<open>q = Inr st\<close> Exited o assms have "same_session e e'" by (auto simp: ensure_entry_running_def)
        then show ?thesis by (rule same)
      next
        case (Inr c)
        obtain at os3 where n: "now (drop_worker w os2) = (at, os3)" by (cases "now (drop_worker w os2)")
        from s \<open>q = Inr st\<close> Exited o Inr n assms have e': "e' = e\<lparr>en_capability := c, en_last_activity := at\<rparr>"
          by (simp add: ensure_entry_running_def)
        from o Inr have "opened_for ho (en_builder e) c" by (simp add: open_capability_opened_for)
        with e' show ?thesis by (simp add: serves_def)
      qed
    qed
  qed
qed

text \<open>The counters, exact until they saturate.\<close>

definition pool_ledger :: "nat \<Rightarrow> pool \<Rightarrow> bool" where
  "pool_ledger opening p \<longleftrightarrow>
     pl_cold_open_attempts p = pl_key_misses p \<and>
     pl_cold_open_attempts p = sat_add (pl_cold_open_admitted p) (pl_cold_open_refusals p) \<and>
     pl_key_misses p = sat_add (pl_miss_empty_pool p) (pl_miss_no_matching_key p) \<and>
     pl_key_hits p = pl_fresh_cold_opens_avoided p \<and>
     sat_add (pl_queue_timeouts p) (pl_memory_budget_rejections p) \<le> pl_cold_open_refusals p \<and>
     min (length (pl_entries p) + opening) u64_max \<le> pl_cold_open_admitted p"

definition pool_inv :: "host \<Rightarrow> string \<Rightarrow> pool_config \<Rightarrow> nat \<Rightarrow> pool \<Rightarrow> bool" where
  "pool_inv ho fp config opening p \<longleftrightarrow>
     pl_config p = config \<and> distinct (map en_key (pl_entries p)) \<and>
     set (map en_key (pl_entries p)) \<subseteq> set (pl_seen_keys p) \<and> distinct (pl_seen_keys p) \<and>
     (\<forall>e \<in> set (pl_entries p). serves ho fp e) \<and> length (pl_entries p) + opening \<le> pc_max_workers config \<and>
     pl_cold_opens_in_progress p = opening \<and> pl_concurrent_cold_opens_observed p = 0"

definition none_leased :: "pool \<Rightarrow> bool" where
  "none_leased p \<longleftrightarrow> (\<forall>e \<in> set (pl_entries p). en_active_leases e = 0)"

section \<open>Admission keeps the invariant\<close>

lemma refresh_rss_same: "refresh_rss es acc = (t, es') \<Longrightarrow> list_all2 same_session es es'"
  by (induction es acc arbitrary: t es' rule: refresh_rss.induct)
    (auto split: prod.splits option.splits dest: sample_rss_same)

lemma list_all2_same_keys: "list_all2 same_session es es' \<Longrightarrow> map en_key es' = map en_key es"
  by (induction rule: list_all2_induct) (auto dest: same_session_fields)

lemma list_all2_same_serves:
  "list_all2 same_session es es' \<Longrightarrow> \<forall>e \<in> set es. serves ho fp e \<Longrightarrow> \<forall>e \<in> set es'. serves ho fp e"
  by (induction rule: list_all2_induct) (auto dest: same_session_serves)

lemma list_all2_same_leases:
  "list_all2 same_session es es' \<Longrightarrow> \<forall>e \<in> set es. en_active_leases e = 0 \<Longrightarrow> \<forall>e \<in> set es'. en_active_leases e = 0"
  by (induction rule: list_all2_induct) (auto dest: same_session_fields)

text \<open>A pool with the same entries up to their workers.\<close>

definition same_entries :: "pool \<Rightarrow> pool \<Rightarrow> bool" where
  "same_entries p p' \<longleftrightarrow> list_all2 same_session (pl_entries p) (pl_entries p')"

lemma admit_cases:
  assumes "admit_lease key p os = (r, p', os')"
  obtains (hit) i where "i < length (pl_entries p)" "en_key (pl_entries p ! i) = key" "r = Inr (ReuseWarmEntry i)"
      "p' = record_key_hit (remember_seen_key key p)" "os' = os"
  | (miss) reason rss p3 where "\<forall>e \<in> set (pl_entries p). en_key e \<noteq> key"
      "reason = (if pl_entries p = [] then ''empty_pool'' else ''no_matching_key'')"
      "refresh_total_child_rss (record_cold_open_attempt (record_key_miss reason (remember_seen_key key p))) = (rss, p3)"
      "(if pc_max_workers (pl_config p3) \<le> length (pl_entries p3)
        then (case pool_full_error (p3\<lparr>pl_rss_before_admission_kib := available_total rss\<rparr>) os of
                (e, p5, os1) \<Rightarrow> (Inl e, p5, os1))
        else (case ensure_spawn_within_total_rss_budget rss (p3\<lparr>pl_rss_before_admission_kib := available_total rss\<rparr>) of
                (Inl e, p5) \<Rightarrow> (Inl e, p5, os)
              | (Inr _, p5) \<Rightarrow> (Inr OpenColdEntry, record_cold_open_admitted p5, os))) = (r, p', os')"
proof (cases "position (\<lambda>e. en_key e = key) (pl_entries (remember_seen_key key p))")
  case (Some i)
  have es: "pl_entries (remember_seen_key key p) = pl_entries p" by (simp add: remember_seen_key_def)
  from Some assms have "r = Inr (ReuseWarmEntry i)" "p' = record_key_hit (remember_seen_key key p)" "os' = os"
    by (simp_all add: admit_lease_def)
  with position_SomeD [OF Some] es show thesis by (intro hit [of i]) simp_all
next
  case None
  have es: "pl_entries (remember_seen_key key p) = pl_entries p" by (simp add: remember_seen_key_def)
  let ?p2 = "record_cold_open_attempt (record_key_miss (if pl_entries p = [] then ''empty_pool'' else ''no_matching_key'')
      (remember_seen_key key p))"
  obtain rss p3 where f: "refresh_total_child_rss ?p2 = (rss, p3)" by (cases "refresh_total_child_rss ?p2")
  from None es have no: "\<forall>e \<in> set (pl_entries p). en_key e \<noteq> key" by simp
  show thesis
    by (rule miss [OF no refl f]) (use assms None f es in \<open>simp add: admit_lease_def Let_def del: position_None\<close>)
qed

lemma seen_key_inv:
  assumes "pool_inv ho fp config 0 p"
  shows "pool_inv ho fp config 0 (remember_seen_key key p)" "key \<in> set (pl_seen_keys (remember_seen_key key p))"
  using assms by (auto simp: pool_inv_def remember_seen_key_def list_all_iff)

lemma pool_inv_hit: "pool_inv ho fp config n (record_key_hit p) = pool_inv ho fp config n p"
  by (simp add: pool_inv_def record_key_hit_def)

lemma pool_inv_miss: "pool_inv ho fp config n (record_key_miss reason p) = pool_inv ho fp config n p"
  by (simp add: pool_inv_def record_key_miss_def Let_def)

lemma pool_inv_attempt: "pool_inv ho fp config 0 p \<Longrightarrow> pool_inv ho fp config 0 (record_cold_open_attempt p)"
  by (simp add: pool_inv_def record_cold_open_attempt_def Let_def)

lemma pool_inv_refusal: "pool_inv ho fp config n (record_cold_open_refusal reason p) = pool_inv ho fp config n p"
  by (simp add: pool_inv_def record_cold_open_refusal_def)

lemma pool_inv_updates:
  "pool_inv ho fp config n (p\<lparr>pl_rss_before_admission_kib := r\<rparr>) = pool_inv ho fp config n p"
  "pool_inv ho fp config n (p\<lparr>pl_queue_timeouts := k\<rparr>) = pool_inv ho fp config n p"
  "pool_inv ho fp config n (p\<lparr>pl_memory_budget_rejections := k\<rparr>) = pool_inv ho fp config n p"
  by (simp_all add: pool_inv_def)

lemma refresh_inv:
  assumes "refresh_total_child_rss p = (t, p')"
  shows "same_entries p p'" "\<exists>es. p' = p\<lparr>pl_entries := es\<rparr>" "pool_inv ho fp config n p \<Longrightarrow> pool_inv ho fp config n p'"
proof -
  obtain u es where r: "refresh_rss (pl_entries p) \<lparr>rt_total_kib = 0, rt_unavailable = 0\<rparr> = (u, es)"
    by (cases "refresh_rss (pl_entries p) \<lparr>rt_total_kib = 0, rt_unavailable = 0\<rparr>")
  with assms have p': "p' = p\<lparr>pl_entries := es\<rparr>" by (simp add: refresh_total_child_rss_def)
  note a = refresh_rss_same [OF r]
  from a p' show "same_entries p p'" by (simp add: same_entries_def)
  from p' show "\<exists>es. p' = p\<lparr>pl_entries := es\<rparr>" by blast
  assume i: "pool_inv ho fp config n p"
  have "length es = length (pl_entries p)" using list_all2_lengthD [OF a] by simp
  moreover have "set (map en_key es) = set (map en_key (pl_entries p))" using list_all2_same_keys [OF a] by simp
  moreover have "distinct (map en_key es)" using i list_all2_same_keys [OF a] by (simp add: pool_inv_def)
  moreover have "\<forall>e \<in> set es. serves ho fp e" using i list_all2_same_serves [OF a] by (simp add: pool_inv_def)
  ultimately show "pool_inv ho fp config n p'" using i p' by (simp add: pool_inv_def)
qed

lemma pool_resource_facts_entered [simp]: "rf_work_entered_child (pool_resource_facts cause rss limit wait stats p) = False"
  by (simp add: pool_resource_facts_def)

lemma pool_full_error_cases:
  assumes "pool_full_error p os = (e, p', os')"
  obtains (at_once) facts where "pc_queue_wait_timeout (pl_config p) = 0"
      "e = EWorkerPoolExhausted (pc_max_workers (pl_config p)) facts" "\<not> rf_work_entered_child facts"
      "p' = record_cold_open_refusal ''max_workers'' p" "os' = os"
  | (waited) facts started os1 where "0 < pc_queue_wait_timeout (pl_config p)"
      "e = EWorkerPoolQueueTimeout (pc_queue_wait_timeout (pl_config p)) facts" "\<not> rf_work_entered_child facts"
      "p' = record_cold_open_refusal ''queue_timeout'' (p\<lparr>pl_queue_timeouts := sat_inc (pl_queue_timeouts p)\<rparr>)"
      "now os = (started, os1)" "os' = queue_wait (pc_queue_wait_timeout (pl_config p)) started os1"
proof (cases "pc_queue_wait_timeout (pl_config p) = 0")
  case True
  with assms show thesis
    by (intro at_once [of "pool_resource_facts ''worker_pool_max_workers'' None None None
        (latest_import_stats (record_cold_open_refusal ''max_workers'' p)) (record_cold_open_refusal ''max_workers'' p)"])
      (auto simp: pool_full_error_def Let_def)
next
  case False
  obtain started os1 where n: "now os = (started, os1)" by (cases "now os")
  let ?p1 = "record_cold_open_refusal ''queue_timeout'' (p\<lparr>pl_queue_timeouts := sat_inc (pl_queue_timeouts p)\<rparr>)"
  from False n assms show thesis
    by (intro waited [of "pool_resource_facts ''worker_pool_queue_timeout'' None None
        (Some (pc_queue_wait_timeout (pl_config p))) (latest_import_stats ?p1) ?p1" started os1])
      (auto simp: pool_full_error_def Let_def)
qed

lemma budget_cases:
  assumes "ensure_spawn_within_total_rss_budget rss p = (r, p')"
  obtains (within) "r = Inr ()" "p' = p"
      "\<forall>limit. pc_max_total_child_rss_kib (pl_config p) = Some limit \<longrightarrow> 0 < rt_unavailable rss \<or> rt_total_kib rss < limit"
  | (over) limit stats facts where "pc_max_total_child_rss_kib (pl_config p) = Some limit" "rt_unavailable rss = 0"
      "limit \<le> rt_total_kib rss" "r = Inl (EWorkerPoolMemoryBudgetExceeded (rt_total_kib rss) limit stats facts)"
      "\<not> rf_work_entered_child facts"
      "p' = record_cold_open_refusal ''rss_budget''
              (p\<lparr>pl_memory_budget_rejections := sat_inc (pl_memory_budget_rejections p)\<rparr>)"
proof (cases "pc_max_total_child_rss_kib (pl_config p)")
  case None
  with assms show thesis by (intro within) (simp_all add: ensure_spawn_within_total_rss_budget_def)
next
  case (Some limit)
  show thesis
  proof (cases "0 < rt_unavailable rss \<or> rt_total_kib rss < limit")
    case True
    then have "ensure_spawn_within_total_rss_budget rss p = (Inr (), p)"
      using Some by (auto simp: ensure_spawn_within_total_rss_budget_def)
    with Some True assms show thesis by (intro within) simp_all
  next
    case False
    let ?p1 = "record_cold_open_refusal ''rss_budget''
              (p\<lparr>pl_memory_budget_rejections := sat_inc (pl_memory_budget_rejections p)\<rparr>)"
    from False Some assms show thesis
      by (intro over [of limit "latest_import_stats ?p1" "pool_resource_facts ''worker_pool_total_rss_budget''
            (Some (rt_total_kib rss)) (Some limit) None (latest_import_stats ?p1) ?p1"])
        (auto simp: ensure_spawn_within_total_rss_budget_def Let_def)
  qed
qed

lemma sat_inc_simps: "sat_inc (sat_add a b) = sat_add (sat_inc a) b" "sat_inc (sat_add a b) = sat_add a (sat_inc b)"
  by (simp_all add: sat_add_def)

text \<open>The pool after a missed key, and each way the admission of it ends.\<close>

lemma missed_fields:
  assumes "refresh_total_child_rss (record_cold_open_attempt (record_key_miss
      (if pl_entries p = [] then ''empty_pool'' else ''no_matching_key'') (remember_seen_key key p))) = (rss, p3)"
  shows "pl_cold_open_attempts p3 = sat_inc (pl_cold_open_attempts p)" "pl_key_misses p3 = sat_inc (pl_key_misses p)"
    "sat_add (pl_miss_empty_pool p3) (pl_miss_no_matching_key p3) =
       sat_inc (sat_add (pl_miss_empty_pool p) (pl_miss_no_matching_key p))"
    "pl_key_hits p3 = pl_key_hits p" "pl_fresh_cold_opens_avoided p3 = pl_fresh_cold_opens_avoided p"
    "pl_cold_open_admitted p3 = pl_cold_open_admitted p" "pl_cold_open_refusals p3 = pl_cold_open_refusals p"
    "pl_queue_timeouts p3 = pl_queue_timeouts p" "pl_memory_budget_rejections p3 = pl_memory_budget_rejections p"
    "pl_config p3 = pl_config p" "same_entries p p3" "key \<in> set (pl_seen_keys p3)"
    "pool_inv ho fp config 0 p \<Longrightarrow> pool_inv ho fp config 0 p3"
proof -
  let ?r = "if pl_entries p = [] then ''empty_pool'' else ''no_matching_key''"
  obtain es where p3: "p3 = (record_cold_open_attempt (record_key_miss ?r (remember_seen_key key p)))\<lparr>pl_entries := es\<rparr>"
    using refresh_inv(2) [OF assms] by blast
  have es: "pl_entries (record_cold_open_attempt (record_key_miss ?r (remember_seen_key key p))) = pl_entries p"
    by (simp add: record_cold_open_attempt_def record_key_miss_def remember_seen_key_def Let_def)
  with refresh_inv(1) [OF assms] show "same_entries p p3" by (simp add: same_entries_def)
  show "pool_inv ho fp config 0 p \<Longrightarrow> pool_inv ho fp config 0 p3"
    using refresh_inv(3) [OF assms] seen_key_inv(1) [of ho fp config p key]
    by (simp only: pool_inv_attempt pool_inv_miss)
  show "sat_add (pl_miss_empty_pool p3) (pl_miss_no_matching_key p3) =
       sat_inc (sat_add (pl_miss_empty_pool p) (pl_miss_no_matching_key p))"
  proof (cases "pl_entries p = []")
    case True
    then show ?thesis unfolding sat_inc_simps(1)
      by (simp add: p3 record_cold_open_attempt_def record_key_miss_def remember_seen_key_def Let_def)
  next
    case False
    then show ?thesis unfolding sat_inc_simps(2)
      by (simp add: p3 record_cold_open_attempt_def record_key_miss_def remember_seen_key_def Let_def)
  qed
  show "key \<in> set (pl_seen_keys p3)"
    by (auto simp: p3 record_cold_open_attempt_def record_key_miss_def remember_seen_key_def Let_def list_all_iff)
  show "pl_cold_open_attempts p3 = sat_inc (pl_cold_open_attempts p)" "pl_key_misses p3 = sat_inc (pl_key_misses p)"
    "pl_key_hits p3 = pl_key_hits p" "pl_fresh_cold_opens_avoided p3 = pl_fresh_cold_opens_avoided p"
    "pl_cold_open_admitted p3 = pl_cold_open_admitted p" "pl_cold_open_refusals p3 = pl_cold_open_refusals p"
    "pl_queue_timeouts p3 = pl_queue_timeouts p" "pl_memory_budget_rejections p3 = pl_memory_budget_rejections p"
    "pl_config p3 = pl_config p"
    by (simp_all add: p3 record_cold_open_attempt_def record_key_miss_def remember_seen_key_def Let_def)
qed

lemma refusal_fields [simp]:
  "pl_cold_open_refusals (record_cold_open_refusal reason p) = sat_inc (pl_cold_open_refusals p)"
  "pl_entries (record_cold_open_refusal reason p) = pl_entries p"
  "pl_config (record_cold_open_refusal reason p) = pl_config p"
  "pl_seen_keys (record_cold_open_refusal reason p) = pl_seen_keys p"
  "pl_cold_open_attempts (record_cold_open_refusal reason p) = pl_cold_open_attempts p"
  "pl_cold_open_admitted (record_cold_open_refusal reason p) = pl_cold_open_admitted p"
  "pl_key_misses (record_cold_open_refusal reason p) = pl_key_misses p"
  "pl_key_hits (record_cold_open_refusal reason p) = pl_key_hits p"
  "pl_fresh_cold_opens_avoided (record_cold_open_refusal reason p) = pl_fresh_cold_opens_avoided p"
  "pl_miss_empty_pool (record_cold_open_refusal reason p) = pl_miss_empty_pool p"
  "pl_miss_no_matching_key (record_cold_open_refusal reason p) = pl_miss_no_matching_key p"
  "pl_queue_timeouts (record_cold_open_refusal reason p) = pl_queue_timeouts p"
  "pl_memory_budget_rejections (record_cold_open_refusal reason p) = pl_memory_budget_rejections p"
  by (simp_all add: record_cold_open_refusal_def)

text \<open>The outcome of an admission that missed: refused for one of two reasons, or a cold open.\<close>

lemma miss_cases:
  assumes "admit_lease key p os = (r, p', os')" and "\<forall>e \<in> set (pl_entries p). en_key e \<noteq> key"
  obtains (full) p3 rss e where "pc_max_workers (pl_config p) \<le> length (pl_entries p)" "r = Inl e"
      "refresh_total_child_rss (record_cold_open_attempt (record_key_miss
         (if pl_entries p = [] then ''empty_pool'' else ''no_matching_key'') (remember_seen_key key p))) = (rss, p3)"
      "pool_full_error (p3\<lparr>pl_rss_before_admission_kib := available_total rss\<rparr>) os = (e, p', os')"
  | (budget) p3 rss e where "length (pl_entries p) < pc_max_workers (pl_config p)" "r = Inl e" "os' = os"
      "refresh_total_child_rss (record_cold_open_attempt (record_key_miss
         (if pl_entries p = [] then ''empty_pool'' else ''no_matching_key'') (remember_seen_key key p))) = (rss, p3)"
      "ensure_spawn_within_total_rss_budget rss (p3\<lparr>pl_rss_before_admission_kib := available_total rss\<rparr>) = (Inl e, p')"
  | (cold) p3 rss where "length (pl_entries p) < pc_max_workers (pl_config p)" "r = Inr OpenColdEntry" "os' = os"
      "refresh_total_child_rss (record_cold_open_attempt (record_key_miss
         (if pl_entries p = [] then ''empty_pool'' else ''no_matching_key'') (remember_seen_key key p))) = (rss, p3)"
      "ensure_spawn_within_total_rss_budget rss (p3\<lparr>pl_rss_before_admission_kib := available_total rss\<rparr>)
         = (Inr (), p3\<lparr>pl_rss_before_admission_kib := available_total rss\<rparr>)"
      "p' = record_cold_open_admitted (p3\<lparr>pl_rss_before_admission_kib := available_total rss\<rparr>)"
  using assms(1)
proof (cases rule: admit_cases)
  case (hit i)
  with assms(2) have False by (metis nth_mem)
  then show ?thesis ..
next
  case (miss reason rss p3)
  note f = missed_fields [OF miss(3) [unfolded miss(2)]]
  have len: "length (pl_entries p3) = length (pl_entries p)"
    using f(11) by (auto simp: same_entries_def dest: list_all2_lengthD)
  let ?p4 = "p3\<lparr>pl_rss_before_admission_kib := available_total rss\<rparr>"
  show ?thesis
  proof (cases "pc_max_workers (pl_config p) \<le> length (pl_entries p)")
    case True
    then show ?thesis using miss(4) f(10) len full [OF True _ miss(3) [unfolded miss(2)]]
      by (auto split: prod.splits)
  next
    case False
    obtain q p5 where b: "ensure_spawn_within_total_rss_budget rss ?p4 = (q, p5)"
      by (cases "ensure_spawn_within_total_rss_budget rss ?p4")
    from False have lt: "length (pl_entries p) < pc_max_workers (pl_config p)" by simp
    show ?thesis
    proof (cases q)
      case (Inl e)
      with miss(4) f(10) len False b have "r = Inl e" "p' = p5" "os' = os" by auto
      with budget [OF lt _ _ miss(3) [unfolded miss(2)]] b Inl show ?thesis by simp
    next
      case (Inr u)
      from b have "p5 = ?p4" using Inr by (cases rule: budget_cases) simp_all
      with Inr miss(4) f(10) len False b cold [OF lt _ _ miss(3) [unfolded miss(2)]] show ?thesis by auto
    qed
  qed
qed

lemma sat_inc_le: "sat_add x y \<le> r \<Longrightarrow> sat_add x y \<le> sat_inc r"
  and sat_inc_le_left: "sat_add x y \<le> r \<Longrightarrow> sat_add (sat_inc x) y \<le> sat_inc r"
  and sat_inc_le_right: "sat_add x y \<le> r \<Longrightarrow> sat_add x (sat_inc y) \<le> sat_inc r"
  and sat_inc_min: "min n u64_max \<le> a \<Longrightarrow> min (Suc n) u64_max \<le> sat_inc a"
  by (auto simp: sat_add_def min_def split: if_splits)

text \<open>The counters after a missed key was refused, or admitted for a cold open.\<close>

lemma ledger_miss:
  assumes led: "pool_ledger 0 p"
    and "refresh_total_child_rss (record_cold_open_attempt (record_key_miss
      (if pl_entries p = [] then ''empty_pool'' else ''no_matching_key'') (remember_seen_key key p))) = (rss, p3)"
    and same: "pl_cold_open_attempts p' = pl_cold_open_attempts p3" "pl_key_misses p' = pl_key_misses p3"
      "pl_miss_empty_pool p' = pl_miss_empty_pool p3" "pl_miss_no_matching_key p' = pl_miss_no_matching_key p3"
      "pl_key_hits p' = pl_key_hits p3" "pl_fresh_cold_opens_avoided p' = pl_fresh_cold_opens_avoided p3"
      "pl_entries p' = pl_entries p3"
  shows "pl_cold_open_admitted p' = pl_cold_open_admitted p3 \<Longrightarrow> pl_cold_open_refusals p' = sat_inc (pl_cold_open_refusals p3)
      \<Longrightarrow> sat_add (pl_queue_timeouts p') (pl_memory_budget_rejections p') \<in>
            {sat_add (pl_queue_timeouts p) (pl_memory_budget_rejections p),
             sat_add (sat_inc (pl_queue_timeouts p)) (pl_memory_budget_rejections p),
             sat_add (pl_queue_timeouts p) (sat_inc (pl_memory_budget_rejections p))}
      \<Longrightarrow> pool_ledger 0 p'"
    and "pl_cold_open_admitted p' = sat_inc (pl_cold_open_admitted p3) \<Longrightarrow> pl_cold_open_refusals p' = pl_cold_open_refusals p3
      \<Longrightarrow> pl_queue_timeouts p' = pl_queue_timeouts p3 \<Longrightarrow> pl_memory_budget_rejections p' = pl_memory_budget_rejections p3
      \<Longrightarrow> pool_ledger 1 p'"
proof -
  note f = missed_fields [OF assms(2)]
  have len: "length (pl_entries p3) = length (pl_entries p)"
    using f(11) by (auto simp: same_entries_def dest: list_all2_lengthD)
  from led have l: "pl_cold_open_attempts p = pl_key_misses p"
     "pl_cold_open_attempts p = sat_add (pl_cold_open_admitted p) (pl_cold_open_refusals p)"
     "pl_key_misses p = sat_add (pl_miss_empty_pool p) (pl_miss_no_matching_key p)"
     "pl_key_hits p = pl_fresh_cold_opens_avoided p"
     "sat_add (pl_queue_timeouts p) (pl_memory_budget_rejections p) \<le> pl_cold_open_refusals p"
     "min (length (pl_entries p)) u64_max \<le> pl_cold_open_admitted p" by (simp_all add: pool_ledger_def)
  have att: "pl_cold_open_attempts p' = pl_key_misses p'" using same f(1,2) l(1) by simp
  have mis: "pl_key_misses p' = sat_add (pl_miss_empty_pool p') (pl_miss_no_matching_key p')"
    using same f(2,3) l(3) by simp
  have hit: "pl_key_hits p' = pl_fresh_cold_opens_avoided p'" using same f(4,5) l(4) by simp
  show "pool_ledger 0 p'"
    if "pl_cold_open_admitted p' = pl_cold_open_admitted p3" "pl_cold_open_refusals p' = sat_inc (pl_cold_open_refusals p3)"
      "sat_add (pl_queue_timeouts p') (pl_memory_budget_rejections p') \<in>
            {sat_add (pl_queue_timeouts p) (pl_memory_budget_rejections p),
             sat_add (sat_inc (pl_queue_timeouts p)) (pl_memory_budget_rejections p),
             sat_add (pl_queue_timeouts p) (sat_inc (pl_memory_budget_rejections p))}"
  proof -
    have r: "pl_cold_open_admitted p' = pl_cold_open_admitted p" "pl_cold_open_refusals p' = sat_inc (pl_cold_open_refusals p)"
      using that(1,2) f(6,7) by simp_all
    have "pl_cold_open_attempts p' = sat_inc (sat_add (pl_cold_open_admitted p) (pl_cold_open_refusals p))"
      using same(1) f(1) l(2) by simp
    then have "pl_cold_open_attempts p' = sat_add (pl_cold_open_admitted p') (pl_cold_open_refusals p')"
      unfolding r sat_inc_simps(2) .
    moreover have "sat_add (pl_queue_timeouts p') (pl_memory_budget_rejections p') \<le> pl_cold_open_refusals p'"
      unfolding r using that(3) sat_inc_le [OF l(5)] sat_inc_le_left [OF l(5)] sat_inc_le_right [OF l(5)] by auto
    moreover have "min (length (pl_entries p') + 0) u64_max \<le> pl_cold_open_admitted p'"
      using l(6) r(1) same(7) len by simp
    ultimately show ?thesis unfolding pool_ledger_def using att mis hit by blast
  qed
  show "pool_ledger 1 p'"
    if "pl_cold_open_admitted p' = sat_inc (pl_cold_open_admitted p3)" "pl_cold_open_refusals p' = pl_cold_open_refusals p3"
      "pl_queue_timeouts p' = pl_queue_timeouts p3" "pl_memory_budget_rejections p' = pl_memory_budget_rejections p3"
  proof -
    have r: "pl_cold_open_admitted p' = sat_inc (pl_cold_open_admitted p)" "pl_cold_open_refusals p' = pl_cold_open_refusals p"
      using that(1,2) f(6,7) by simp_all
    have "pl_cold_open_attempts p' = sat_inc (sat_add (pl_cold_open_admitted p) (pl_cold_open_refusals p))"
      using same(1) f(1) l(2) by simp
    then have "pl_cold_open_attempts p' = sat_add (pl_cold_open_admitted p') (pl_cold_open_refusals p')"
      unfolding r sat_inc_simps(1) .
    moreover have "sat_add (pl_queue_timeouts p') (pl_memory_budget_rejections p') \<le> pl_cold_open_refusals p'"
      using r(2) that(3,4) f(8,9) l(5) by simp
    moreover have "min (length (pl_entries p') + 1) u64_max \<le> pl_cold_open_admitted p'"
      using sat_inc_min [OF l(6)] r(1) same(7) len by simp
    ultimately show ?thesis unfolding pool_ledger_def using att mis hit by blast
  qed
qed

lemma admit_inv:
  assumes "pool_inv ho fp config 0 p" and "pool_ledger 0 p" and a: "admit_lease key p os = (r, p', os')"
  shows "(r = Inr OpenColdEntry \<longrightarrow> pool_inv ho fp config 1 p' \<and> pool_ledger 1 p' \<and>
            key \<notin> set (map en_key (pl_entries p')) \<and> key \<in> set (pl_seen_keys p')) \<and>
         (r \<noteq> Inr OpenColdEntry \<longrightarrow> pool_inv ho fp config 0 p' \<and> pool_ledger 0 p') \<and>
         (\<forall>i. r = Inr (ReuseWarmEntry i) \<longrightarrow> i < length (pl_entries p') \<and> en_key (pl_entries p' ! i) = key \<and> os' = os) \<and>
         same_entries p p'"
  using a
proof (cases rule: admit_cases)
  case (hit i)
  have "pool_inv ho fp config 0 p'" using assms(1) hit(4) seen_key_inv(1) by (simp add: pool_inv_hit)
  moreover have "pl_entries p' = pl_entries p" by (simp add: hit(4) record_key_hit_def remember_seen_key_def)
  moreover have "pool_ledger 0 p'" using assms(2)
    by (simp add: hit(4) pool_ledger_def record_key_hit_def remember_seen_key_def)
  ultimately show ?thesis using hit
    by (simp add: same_entries_def list_all2_refl)
next
  case (miss reason rss p3)
  have keep: "map en_key (pl_entries q) = map en_key (pl_entries p)" if "same_entries p q" for q
    using that list_all2_same_keys by (simp add: same_entries_def)
  from a miss(1) show ?thesis
  proof (cases rule: miss_cases)
    case (full p3 rss e)
    note f = missed_fields [OF full(3)]
    have i4: "pool_inv ho fp config 0 p3" using f(13) [OF assms(1)] .
    from full(4) show ?thesis
    proof (cases rule: pool_full_error_cases)
      case (at_once facts)
      have "pool_ledger 0 p'"
        by (rule ledger_miss(1) [OF assms(2) full(3)]) (simp_all add: at_once(4) f(8,9))
      with i4 f(11) full(2) at_once(4) show ?thesis by (simp add: pool_inv_refusal pool_inv_updates same_entries_def)
    next
      case (waited facts started os1)
      have "pool_ledger 0 p'"
        by (rule ledger_miss(1) [OF assms(2) full(3)]) (simp_all add: waited(4) f(8,9))
      with i4 f(11) full(2) waited(4) show ?thesis by (simp add: pool_inv_refusal pool_inv_updates same_entries_def)
    qed
  next
    case (budget p3 rss e)
    note f = missed_fields [OF budget(4)]
    have i4: "pool_inv ho fp config 0 p3" using f(13) [OF assms(1)] .
    from budget(5) show ?thesis
    proof (cases rule: budget_cases)
      case (over limit stats facts)
      have "pool_ledger 0 p'"
        by (rule ledger_miss(1) [OF assms(2) budget(4)]) (simp_all add: over(6) f(8,9))
      with i4 f(11) budget(2) over(6) show ?thesis by (simp add: pool_inv_refusal pool_inv_updates same_entries_def)
    qed simp
  next
    case (cold p3 rss)
    note f = missed_fields [OF cold(4)]
    have i4: "pool_inv ho fp config 0 p3" using f(13) [OF assms(1)] .
    have len: "length (pl_entries p3) = length (pl_entries p)"
      using f(11) by (auto simp: same_entries_def dest: list_all2_lengthD)
    have "pool_ledger 1 p'"
      by (rule ledger_miss(2) [OF assms(2) cold(4)]) (simp_all add: cold(6) record_cold_open_admitted_def f(8,9))
    moreover have "pool_inv ho fp config 1 p'"
      using i4 cold(1) len assms(1) by (simp add: cold(6) record_cold_open_admitted_def pool_inv_def sat_add_def u64_max_def)
    moreover have "same_entries p p'" using f(11) by (simp add: cold(6) record_cold_open_admitted_def same_entries_def)
    moreover have "key \<in> set (pl_seen_keys p')" using f(12) by (simp add: cold(6) record_cold_open_admitted_def)
    ultimately show ?thesis using keep miss(1) cold(2) by auto
  qed
qed

section \<open>Acquisition keeps the invariant\<close>

lemma put_entry_inv:
  assumes "pool_inv ho fp config n p" and "i < length (pl_entries p)"
    and "en_key e = en_key (pl_entries p ! i)" and "serves ho fp e"
  shows "pool_inv ho fp config n (put_entry i e p)"
proof -
  have keys: "map en_key ((pl_entries p)[i := e]) = map en_key (pl_entries p)"
    using assms(2,3) by (simp add: map_update list_update_same_conv)
  have "\<forall>x \<in> set ((pl_entries p)[i := e]). serves ho fp x"
    using assms(1,4) set_update_subset_insert [of "pl_entries p" i e] by (auto simp: pool_inv_def)
  with assms(1) keys show ?thesis
    unfolding pool_inv_def put_entry_def by (simp del: set_map)
qed

lemma put_entry_ledger [simp]: "pool_ledger n (put_entry i e p) = pool_ledger n p"
  by (simp add: pool_ledger_def put_entry_def)

lemma put_entry_entries [simp]:
  "length (pl_entries (put_entry i e p)) = length (pl_entries p)"
  "i < length (pl_entries p) \<Longrightarrow> pl_entries (put_entry i e p) ! i = e"
  "j \<noteq> i \<Longrightarrow> pl_entries (put_entry i e p) ! j = pl_entries p ! j"
  by (simp_all add: put_entry_def)

definition leased_only :: "nat \<Rightarrow> pool \<Rightarrow> bool" where
  "leased_only i p \<longleftrightarrow> i < length (pl_entries p) \<and>
     (\<forall>j < length (pl_entries p). en_active_leases (pl_entries p ! j) = (if j = i then 1 else 0))"

lemma none_leased_nth: "none_leased p \<longleftrightarrow> (\<forall>j < length (pl_entries p). en_active_leases (pl_entries p ! j) = 0)"
  by (auto simp: none_leased_def all_set_conv_all_nth)

lemma same_entries_leased: "same_entries p p' \<Longrightarrow> none_leased p \<Longrightarrow> none_leased p'"
  by (simp add: same_entries_def none_leased_def list_all2_same_leases)

lemma put_entry_leases:
  assumes "none_leased p" and "i < length (pl_entries p)"
  shows "en_active_leases e = 0 \<Longrightarrow> none_leased (put_entry i e p)"
    and "en_active_leases e = 1 \<Longrightarrow> leased_only i (put_entry i e p)"
  using assms by (auto simp: none_leased_nth leased_only_def put_entry_def nth_list_update)

text \<open>What a granted lease is: valid, at the generation of its entry, and not yet released.\<close>

definition granted :: "session_lease \<Rightarrow> pool_entry \<Rightarrow> bool" where
  "granted l e \<longleftrightarrow>
     le_valid l \<and> le_invalidation_reason l = None \<and> le_request_timeout_override l = None \<and> \<not> le_released l \<and>
     le_admitted_generation l = current_generation e \<and> en_active_leases e = 1"

lemma grant_granted:
  assumes "grant_lease i config e = (l, e')" and "en_active_leases e = 0"
  shows "granted l e'" "le_index l = i" "le_config l = config" "en_key e' = en_key e" "serves ho fp e' = serves ho fp e"
  using assms by (auto simp: grant_lease_def granted_def current_generation_def serves_def en_worker_def
      sat_add_def u64_max_def)

definition acquired :: "host \<Rightarrow> string \<Rightarrow> pool_config \<Rightarrow> session_key \<Rightarrow> (worker_error + session_lease) \<Rightarrow> pool \<Rightarrow> bool" where
  "acquired ho fp config key r p \<longleftrightarrow>
     pool_inv ho fp config 0 p \<and> pool_ledger 0 p \<and>
     (case r of
        Inl err \<Rightarrow> none_leased p
      | Inr l \<Rightarrow> leased_only (le_index l) p \<and> en_key (pl_entries p ! le_index l) = key \<and> le_config l = config \<and>
                 granted l (pl_entries p ! le_index l))"

lemma reuse_entry_acquired:
  assumes inv: "pool_inv ho fp config 0 p" "pool_ledger 0 p" "none_leased p" and i: "i < length (pl_entries p)"
    and r: "reuse_entry pp render ho i p os = Some (r, p', os')"
  shows "acquired ho fp config (en_key (pl_entries p ! i)) r p'"
proof -
  let ?e = "pl_entries p ! i"
  have e: "en_active_leases ?e = 0" "serves ho fp ?e" using inv i by (auto simp: none_leased_nth pool_inv_def)
  have cfg: "pl_config p = config" using inv by (simp add: pool_inv_def)
  obtain q e1 os1 where run: "ensure_entry_running pp render ho ?e os = Some (q, e1, os1)"
    using r by (auto simp: reuse_entry_def split: option.splits)
  from ensure_entry_running_spec [OF run] e
  have e1: "en_key e1 = en_key ?e" "en_active_leases e1 = 0" "serves ho fp e1" by auto
  have err: "acquired ho fp config (en_key ?e) (Inl x) (put_entry i e2 p)"
    if "en_key e2 = en_key ?e" "en_active_leases e2 = 0" "serves ho fp e2" for x e2
    using put_entry_inv [OF inv(1) i that(1,3)] inv(2) put_entry_leases(1) [OF inv(3) i that(2)]
    by (simp add: acquired_def)
  show ?thesis
  proof (cases q)
    case (Inl x)
    with r run have "r = Inl x" "p' = put_entry i e1 p" by (simp_all add: reuse_entry_def)
    with err [OF e1] show ?thesis by simp
  next
    case (Inr u)
    obtain s e2 os2 where pol: "enforce_policy config e1 os1 = (s, e2, os2)" by (cases "enforce_policy config e1 os1")
    note ss = enforce_policy_same [OF pol]
    from same_session_fields [OF ss] same_session_serves [OF ss] e1
    have e2: "en_key e2 = en_key ?e" "en_active_leases e2 = 0" "serves ho fp e2" by auto
    show ?thesis
    proof (cases s)
      case (Inl x)
      with r run \<open>q = Inr u\<close> pol cfg have "r = Inl x" "p' = put_entry i e2 p" by (simp_all add: reuse_entry_def)
      with err [OF e2] show ?thesis by simp
    next
      case (Inr v)
      obtain l e3 where g: "grant_lease i config e2 = (l, e3)" by (cases "grant_lease i config e2")
      note gr = grant_granted [OF g e2(2)]
      from r run \<open>q = Inr u\<close> pol Inr g cfg have rp: "r = Inr l" "p' = put_entry i e3 p" by (simp_all add: reuse_entry_def)
      have "pool_inv ho fp config 0 p'"
        unfolding rp using gr e2 by (intro put_entry_inv [OF inv(1) i]) simp_all
      moreover have "leased_only i p'" unfolding rp
        using gr(1) by (intro put_entry_leases(2) [OF inv(3) i]) (simp add: granted_def)
      ultimately show ?thesis using rp gr e2 i inv(2) by (simp add: acquired_def)
    qed
  qed
qed

lemma open_entry_acquired:
  assumes inv: "pool_inv ho fp config 1 p" "pool_ledger 1 p" "none_leased p"
    and key: "key \<notin> set (map en_key (pl_entries p))" "key \<in> set (pl_seen_keys p)" "key = session_key_of ho fp b"
    and r: "open_entry pp render ho key b p os = Some (r, p', os')"
  shows "acquired ho fp config key r p'"
proof -
  have cfg: "pl_config p = config" using inv by (simp add: pool_inv_def)
  obtain q os1 where o: "open_capability pp render ho b os = Some (q, os1)"
    using r by (auto simp: open_entry_def split: option.splits)
  show ?thesis
  proof (cases q)
    case (Inl x)
    with r o have "r = Inl x" "p' = p\<lparr>pl_cold_opens_in_progress := pl_cold_opens_in_progress p - 1\<rparr>"
      by (simp_all add: open_entry_def)
    with inv show ?thesis by (auto simp: acquired_def pool_inv_def pool_ledger_def none_leased_def min_def split: if_splits)
  next
    case (Inr c)
    obtain at os2 where n: "now os1 = (at, os2)" by (cases "now os1")
    obtain s e where smp: "sample_rss (new_entry key b c at) = (s, e)" by (cases "sample_rss (new_entry key b c at)")
    obtain l e2 where g: "grant_lease (length (pl_entries p)) config e = (l, e2)"
      by (cases "grant_lease (length (pl_entries p)) config e")
    have new: "serves ho fp (new_entry key b c at)" "en_key (new_entry key b c at) = key"
      "en_active_leases (new_entry key b c at) = 0"
      using open_capability_opened_for o Inr key(3) by (auto simp: serves_def new_entry_def)
    note ss = sample_rss_same [OF smp]
    from same_session_fields [OF ss] same_session_serves [OF ss] new
    have e: "en_key e = key" "en_active_leases e = 0" "serves ho fp e" by auto
    note gr = grant_granted [OF g e(2)]
    from r o Inr n smp g cfg
    have rp: "r = Inr l" "pl_entries p' = pl_entries p @ [e2]" "pl_cold_opens_in_progress p' = pl_cold_opens_in_progress p - 1"
      "pl_config p' = pl_config p" "pl_seen_keys p' = pl_seen_keys p"
      "pl_concurrent_cold_opens_observed p' = pl_concurrent_cold_opens_observed p"
      "pool_ledger 0 p' = pool_ledger 1 p"
      by (auto simp: open_entry_def Let_def put_entry_def pool_ledger_def)
    have e2: "en_key e2 = key" "serves ho fp e2" using gr e by simp_all
    have "pool_inv ho fp config 0 p'" using inv(1) e2 key rp by (auto simp: pool_inv_def)
    moreover have "leased_only (length (pl_entries p)) p'"
      using inv(3) gr(1) by (auto simp: leased_only_def none_leased_nth rp nth_append granted_def less_Suc_eq)
    ultimately show ?thesis using rp inv gr e2 by (simp add: acquired_def)
  qed
qed

lemma acquire_acquired:
  assumes inv: "pool_inv ho fp config 0 p" "pool_ledger 0 p" "none_leased p"
    and r: "acquire_lease pp render ho fp b p os = Some (r, p', os')"
  shows "acquired ho fp config (session_key_of ho fp b) r p'"
proof -
  let ?key = "session_key_of ho fp b"
  obtain q p1 os1 where a: "admit_lease ?key p os = (q, p1, os1)" by (cases "admit_lease ?key p os")
  note ai = admit_inv [OF inv(1,2) a]
  have nl: "none_leased p1" using ai inv(3) same_entries_leased by blast
  show ?thesis
  proof (cases q)
    case (Inl x)
    with r a have "r = Inl x" "p' = p1" by (simp_all add: acquire_lease_def)
    with ai nl Inl show ?thesis by (simp add: acquired_def)
  next
    case (Inr d)
    show ?thesis
    proof (cases d)
      case (ReuseWarmEntry i)
      with ai Inr have i: "i < length (pl_entries p1)" "en_key (pl_entries p1 ! i) = ?key"
        "pool_inv ho fp config 0 p1" "pool_ledger 0 p1" by auto
      have "reuse_entry pp render ho i p1 os1 = Some (r, p', os')"
        using r a Inr ReuseWarmEntry by (simp add: acquire_lease_def)
      from reuse_entry_acquired [OF i(3,4) nl i(1) this] i(2) show ?thesis by simp
    next
      case OpenColdEntry
      with ai Inr have i: "pool_inv ho fp config 1 p1" "pool_ledger 1 p1" "?key \<notin> set (map en_key (pl_entries p1))"
        "?key \<in> set (pl_seen_keys p1)" by auto
      have "open_entry pp render ho ?key b p1 os1 = Some (r, p', os')"
        using r a Inr OpenColdEntry by (simp add: acquire_lease_def)
      from open_entry_acquired [OF i(1,2) nl i(3,4) refl this] show ?thesis .
    qed
  qed
qed

section \<open>Properties\<close>

lemma lease_steps_same:
  "lease_step\<^sup>*\<^sup>* s s' \<Longrightarrow> same_session (fst (snd s)) (fst (snd s')) \<and> lease_frame (fst s) (fst s')"
proof (induction rule: rtranclp_induct)
  case (step y z)
  from step(2) have "same_session (fst (snd y)) (fst (snd z)) \<and> lease_frame (fst y) (fst z)"
    by cases (auto dest: run_same lease_cycle_same lease_set_request_timeout_same)
  with step(3) show ?case by (blast intro: same_session_trans lease_frame_trans)
qed simp

lemma release_lease_fields:
  "\<not> le_released l \<Longrightarrow> en_active_leases (release_lease l e) = en_active_leases e - 1"
  "en_key (release_lease l e) = en_key e" "serves ho fp (release_lease l e) = serves ho fp e"
  by (auto simp: release_lease_def release_once_def serves_def split: prod.splits)

lemma history_inv:
  "pool_history ho fp config p os \<Longrightarrow> pool_inv ho fp config 0 p \<and> pool_ledger 0 p \<and> none_leased p"
proof (induction rule: pool_history.induct)
  case (history_new os)
  show ?case by (simp add: pool_inv_def pool_ledger_def none_leased_def pool_new_def)
next
  case (history_refused p os pp render b err p' os')
  with acquire_acquired [OF _ _ _ history_refused(2), of config] show ?case by (simp add: acquired_def)
next
  case (history_leased p os pp render b l p1 os1 l' e' os')
  let ?e = "pl_entries p1 ! le_index l"
  from history_leased(2,4) acquire_acquired [OF _ _ _ history_leased(2), of config]
  have a: "pool_inv ho fp config 0 p1" "pool_ledger 0 p1" "leased_only (le_index l) p1" "granted l ?e"
    by (auto simp: acquired_def)
  from lease_steps_same [OF history_leased(3)] have s: "same_session ?e e'" "lease_frame l l'" by simp_all
  have i: "le_index l < length (pl_entries p1)" using a(3) by (simp add: leased_only_def)
  have "serves ho fp ?e" using a(1) i by (simp add: pool_inv_def)
  then have "serves ho fp (release_lease l' e')" using same_session_serves [OF s(1)] by (simp add: release_lease_fields)
  moreover have "en_key (release_lease l' e') = en_key ?e" using same_session_fields [OF s(1)] by (simp add: release_lease_fields)
  moreover have "en_active_leases (release_lease l' e') = 0"
    using s a(4) same_session_fields [OF s(1)] by (simp add: release_lease_fields(1) lease_frame_def granted_def)
  ultimately show ?case using a i put_entry_inv [OF a(1) i]
    by (auto simp: none_leased_nth leased_only_def put_entry_def pool_ledger_def nth_list_update)
qed

text \<open>C11: Whatever leases were acquired, used and dropped, the pool never owns more workers than configured, no
  two entries share a key, no lease stays counted, and no concurrent cold open is ever observed.  The counters
  balance until they saturate: every miss is an attempt, every attempt was admitted or refused, every miss found
  the pool empty or without the key, and every hit avoided a cold open.\<close>

theorem pool_bounds_and_ledger:
  assumes "pool_history ho fingerprint config p os"
  shows "sn_workers (pool_snapshot_of p) \<le> pc_max_workers config \<and> distinct (map en_key (pl_entries p)) \<and>
         sn_active_workers (pool_snapshot_of p) = 0 \<and> sn_warm_leases (pool_snapshot_of p) = sn_workers (pool_snapshot_of p) \<and>
         sn_concurrent_cold_opens_observed (pool_snapshot_of p) = 0 \<and>
         sn_cold_open_attempts (pool_snapshot_of p) = sn_key_misses (pool_snapshot_of p) \<and>
         sn_cold_open_attempts (pool_snapshot_of p) =
           sat_add (sn_cold_open_admitted (pool_snapshot_of p)) (sn_cold_open_refusals (pool_snapshot_of p)) \<and>
         sn_key_misses (pool_snapshot_of p) =
           sat_add (sn_miss_empty_pool (pool_snapshot_of p)) (sn_miss_no_matching_key (pool_snapshot_of p)) \<and>
         sn_key_hits (pool_snapshot_of p) = sn_fresh_cold_opens_avoided (pool_snapshot_of p) \<and>
         sat_add (sn_queue_timeouts (pool_snapshot_of p)) (sn_memory_budget_rejections (pool_snapshot_of p))
           \<le> sn_cold_open_refusals (pool_snapshot_of p) \<and>
         min (sn_workers (pool_snapshot_of p)) u64_max \<le> sn_cold_open_admitted (pool_snapshot_of p)"
proof -
  from history_inv [OF assms] have inv: "pool_inv ho fingerprint config 0 p" "pool_ledger 0 p" "none_leased p" by auto
  have f: "filter (\<lambda>e. 0 < en_active_leases e) (pl_entries p) = []"
    "filter (\<lambda>e. en_active_leases e = 0) (pl_entries p) = pl_entries p"
    using inv(3) by (auto simp: none_leased_def filter_empty_conv intro: filter_True)
  show ?thesis using inv(1,2) f
    by (simp add: pool_snapshot_of_def snapshot_from_entries_def pool_inv_def pool_ledger_def)
qed

text \<open>C4: A lease is for what was asked.  The entry behind a granted lease has the key of the request, and the
  session of its capability imports the request's imports under its profile from the same canonical import
  workspace, for the same package and library; if the request expects metadata, the metadata the worker gave is
  that.  The lease is valid at the generation its worker has now and is the only one counted.\<close>

theorem leased_session_matches_request:
  assumes "pool_history ho fingerprint config p os"
    and "acquire_lease pp render ho fingerprint b p os = Some (Inr l, p', os')"
  shows "\<exists>e cfg. pl_entries p' ! le_index l = e \<and> le_index l < length (pl_entries p') \<and>
           en_key e = session_key_of ho fingerprint b \<and> cap_session_config (en_capability e) = cfg \<and>
           sc_imports cfg = cb_imports b \<and> sc_import_profile cfg = cb_import_profile b \<and>
           normalize_root ho (sc_project_root cfg) = normalize_root ho (effective_import_workspace_root ho b) \<and>
           (\<exists>m. sc_mode cfg = ModeCapability (cb_package b) (cb_lib_name b) (Some m)) \<and>
           (\<forall>mc expected. cb_metadata_check b = Some mc \<longrightarrow> mc_expected mc = Some expected \<longrightarrow>
              cap_validated_metadata (en_capability e) = Some expected) \<and>
           ensure_valid l e = Inr () \<and> en_active_leases e = 1"
proof -
  from history_inv [OF assms(1)] acquire_acquired [OF _ _ _ assms(2), of config]
  have a: "acquired ho fingerprint config (session_key_of ho fingerprint b) (Inr l) p'" by auto
  let ?e = "pl_entries p' ! le_index l"
  from a have i: "le_index l < length (pl_entries p')" and k: "en_key ?e = session_key_of ho fingerprint b"
    and g: "granted l ?e" by (auto simp: acquired_def leased_only_def)
  have s: "serves ho fingerprint ?e" using a i by (auto simp: acquired_def pool_inv_def)
  let ?b = "en_builder ?e"
  from s k have key: "session_key_of ho fingerprint ?b = session_key_of ho fingerprint b" by (simp add: serves_def)
  have fields: "cb_imports ?b = cb_imports b" "cb_import_profile ?b = cb_import_profile b"
    "cb_package ?b = cb_package b" "cb_lib_name ?b = cb_lib_name b"
    "normalize_root ho (effective_import_workspace_root ho ?b) = normalize_root ho (effective_import_workspace_root ho b)"
    using arg_cong [OF key, of sk_imports] arg_cong [OF key, of sk_import_profile] arg_cong [OF key, of sk_package]
      arg_cong [OF key, of sk_lib_name] arg_cong [OF key, of sk_import_workspace_root]
    by (auto simp: session_key_of_def key_new_def with_import_workspace_root_def with_built_manifest_path_def
        metadata_expectation_def Let_def split: option.splits)
  have meta: "map_option (\<lambda>mc. (mc_export mc, mc_request mc, mc_expected mc)) (cb_metadata_check ?b) =
     map_option (\<lambda>mc. (mc_export mc, mc_request mc, mc_expected mc)) (cb_metadata_check b)"
    using arg_cong [OF key, of sk_metadata_expectation]
    by (auto simp: session_key_of_def key_new_def with_import_workspace_root_def with_built_manifest_path_def
        metadata_expectation_def Let_def split: option.splits)
  from s obtain m where m: "cap_session_config (en_capability ?e) = capability_session_config ho ?b m"
    by (auto simp: serves_def opened_for_def)
  have exp: "cap_validated_metadata (en_capability ?e) = Some expected"
    if "cb_metadata_check b = Some mc" "mc_expected mc = Some expected" for mc expected
    using s meta that by (auto simp: serves_def opened_for_def)
  show ?thesis
    using i k g fields m exp by (auto simp: capability_session_config_def granted_def ensure_valid_def)
qed

section \<open>Replaceable workers\<close>

text \<open>
  What a lease relies on: replacing a worker that is ready moves its generation on and leaves
  it ready.  A token taken at one generation is then stale after any number of replacements.
\<close>

locale replaceable_worker =
  fixes generation :: "'w \<Rightarrow> nat"
    and ready :: "'w \<Rightarrow> bool"
    and replace :: "'r \<Rightarrow> 'w \<Rightarrow> 'o \<Rightarrow> ('e + unit) \<times> 'w \<times> 'o"
  assumes replaced: "ready w \<Longrightarrow> replace reason w os = (Inr (), w', os') \<Longrightarrow>
    ready w' \<and> generation w' = sat_inc (generation w)"
begin

inductive replacements :: "'w \<Rightarrow> 'w \<Rightarrow> bool" where
  none: "replacements w w"
| again: "replacements w w1 \<Longrightarrow> replace reason w1 os = (Inr (), w2, os2) \<Longrightarrow> replacements w w2"

lemma replacements_ready: "replacements w w' \<Longrightarrow> ready w \<Longrightarrow> ready w' \<and> (\<exists>n. generation w' = sat_add (generation w) n \<or> w' = w)"
proof (induction rule: replacements.induct)
  case (again w w1 reason os w2 os2)
  then obtain n where "ready w1" "generation w1 = sat_add (generation w) n \<or> w1 = w" by blast
  with replaced [OF _ again(2)] show ?case
    by (metis sat_add_assoc add_0 add.commute)
qed simp

lemma token_stale:
  assumes "replacements w w1" and "ready w" and "replace reason w1 os = (Inr (), w2, os2)"
    and "generation w < u64_max"
  shows "generation w2 \<noteq> generation w"
proof -
  from replacements_ready [OF assms(1,2)] obtain n
    where r: "ready w1" and n: "generation w1 = sat_add (generation w) n \<or> w1 = w" by blast
  from replaced [OF r assms(3)] have g: "generation w2 = sat_inc (generation w1)" by simp
  have "generation w \<le> generation w1" using n assms(4) by (auto simp: sat_add_def)
  then show ?thesis using g assms(4) by (auto simp: sat_add_def)
qed

end

definition worker_ready :: "worker \<Rightarrow> bool" where
  "worker_ready w \<longleftrightarrow> (\<exists>p. alive p w) \<and> wk_stdout w \<noteq> None"

interpretation supervised: replaceable_worker
  "\<lambda>w. ls_worker_generation (lifecycle_snapshot_of w)" worker_ready restart_with_reason
proof
  fix w reason os w' os'
  assume "worker_ready w" and r: "restart_with_reason reason w os = (Inr (), w', os')"
  then obtain p where "alive p w" "wk_stdout w \<noteq> None" by (auto simp: worker_ready_def)
  then have "restartable p (stop_intent reason) w" by (simp add: restartable_def)
  from restart_spec [OF this r] show "worker_ready w' \<and>
      ls_worker_generation (lifecycle_snapshot_of w') = sat_inc (ls_worker_generation (lifecycle_snapshot_of w))"
    by (auto simp: worker_ready_def lifecycle_snapshot_of_def)
qed

section \<open>The end of a lease\<close>

text \<open>
  What ends a lease: its command was cancelled, timed out, exhausted the restarts or lost the
  child; a policy cycled the worker before the command; the holder cycled it; or the worker
  moved to another generation under a command that went through.
\<close>

inductive ends_lease ::
  "session_lease \<times> pool_entry \<times> world \<Rightarrow> session_lease \<times> pool_entry \<times> world \<Rightarrow> bool" where
  by_command: "run_with_current_session pp snk (command :: worker \<Rightarrow> world \<Rightarrow> unit outcome) l e os = (Inl err, l1, e1, os1)
     \<Longrightarrow> enforce_policy_before_request l e os = (Inr (), l0, e0, os0) \<Longrightarrow> ensure_valid l e = Inr ()
     \<Longrightarrow> invalidates_lease err \<Longrightarrow> ends_lease (l, e, os) (l1, e1, os1)"
| by_policy: "run_with_current_session pp snk (command :: worker \<Rightarrow> world \<Rightarrow> unit outcome) l e os = (r, l1, e1, os1)
     \<Longrightarrow> enforce_policy (le_config l) e os = (Inr (Some reason), e0, os0) \<Longrightarrow> ensure_valid l e = Inr ()
     \<Longrightarrow> ends_lease (l, e, os) (l1, e1, os1)"
| by_cycle: "lease_cycle l e os = (Inr (), l1, e1, os1) \<Longrightarrow> ends_lease (l, e, os) (l1, e1, os1)"
| by_generation: "run_with_current_session pp snk (command :: worker \<Rightarrow> world \<Rightarrow> unit outcome) l e os = (r, l1, e1, os1)
     \<Longrightarrow> current_generation e1 \<noteq> le_admitted_generation l1 \<Longrightarrow> ends_lease (l, e, os) (l1, e1, os1)"

lemma invalid_not_valid: "\<not> le_valid l \<Longrightarrow> \<exists>reason. ensure_valid l e = Inl (ELeaseInvalidated reason)"
  by (simp add: ensure_valid_def)

lemma ends_lease_invalid:
  "ends_lease s s1 \<Longrightarrow> \<exists>reason. ensure_valid (fst s1) (fst (snd s1)) = Inl (ELeaseInvalidated reason)"
proof (induction rule: ends_lease.induct)
  case (by_command pp snk command l e os err l1 e1 os1 l0 e0 os0)
  from by_command(1) have "\<not> le_valid l1"
  proof (cases rule: run_cases)
    case (invalid err')
    with by_command(3) show ?thesis by simp
  next
    case (policy err')
    with by_command(2) show ?thesis by simp
  next
    case (ran e2 os2 e3 os3)
    from map_lifecycle_result_spec(4) [OF ran(4)] by_command(4) show ?thesis by (simp add: invalidate_def)
  qed
  then show ?case by (simp add: invalid_not_valid)
next
  case (by_policy pp snk command l e os r l1 e1 os1 reason e0 os0)
  have "enforce_policy_before_request l e os = (Inl (ELeaseInvalidated reason), invalidate reason l, e0, os0)"
    using by_policy(2) by (simp add: enforce_policy_before_request_def)
  with by_policy(1,3) have "l1 = invalidate reason l" by (simp add: run_with_current_session_def)
  then show ?case by (simp add: invalid_not_valid invalidate_def)
next
  case (by_cycle l e os l1 e1 os1)
  then have "\<not> le_valid l1" by (auto simp: lease_cycle_def invalidate_def split: sum.splits prod.splits)
  then show ?case by (simp add: invalid_not_valid)
next
  case (by_generation pp snk command l e os r l1 e1 os1)
  then show ?case by (simp add: ensure_valid_def)
qed

lemma invalid_step: "ensure_valid l e = Inl err \<Longrightarrow> lease_step (l, e, os) s \<Longrightarrow> s = (l, e, os)"
  by (auto simp: run_with_current_session_def lease_cycle_def lease_set_request_timeout_def)

lemma invalid_steps: "lease_step\<^sup>*\<^sup>* s s' \<Longrightarrow> ensure_valid (fst s) (fst (snd s)) = Inl err \<Longrightarrow> s' = s"
proof (induction rule: rtranclp_induct)
  case (step y z)
  then have "y = s" by simp
  with step invalid_step [of "fst s" "fst (snd s)" err "snd (snd s)" z] show ?case by simp
qed simp

text \<open>C10: A lease that ended stays ended.  Once its command was cancelled, timed out, exhausted the restarts or
  lost the child, once a policy or the holder cycled its worker, or once the worker's generation moved on, every
  further operation on it is refused with \<open>LeaseInvalidated\<close> before it reaches the worker: nothing is sent, killed
  or changed.  Cycling a ready worker moves it past the generation of every lease granted before, so such a lease
  is refused by its generation alone.\<close>

theorem ended_lease_is_inert:
  assumes "ends_lease s (l1, e1, os1)"
  shows "(\<exists>reason. \<forall>pp snk (command :: worker \<Rightarrow> world \<Rightarrow> 'a outcome).
            run_with_current_session pp snk command l1 e1 os1 = (Inl (ELeaseInvalidated reason), l1, e1, os1)) \<and>
         (\<forall>s'. lease_step\<^sup>*\<^sup>* (l1, e1, os1) s' \<longrightarrow> s' = (l1, e1, os1)) \<and>
         (\<forall>reason e w os os'. worker_ready (en_worker e) \<longrightarrow> current_generation e < u64_max \<longrightarrow>
            restart_with_reason reason (en_worker e) os = (Inr (), w, os') \<longrightarrow>
            current_generation (set_worker w e) \<noteq> current_generation e)"
proof -
  from ends_lease_invalid [OF assms] obtain reason where r: "ensure_valid l1 e1 = Inl (ELeaseInvalidated reason)" by auto
  have stale: "current_generation (set_worker w e) \<noteq> current_generation e"
    if "worker_ready (en_worker e)" "current_generation e < u64_max"
      "restart_with_reason q (en_worker e) os = (Inr (), w, os')" for q e w os os'
    using supervised.token_stale [OF supervised.replacements.none that(1,3)] that(2)
    by (simp add: current_generation_def)
  from r have "\<forall>pp snk (command :: worker \<Rightarrow> world \<Rightarrow> 'a outcome).
      run_with_current_session pp snk command l1 e1 os1 = (Inl (ELeaseInvalidated reason), l1, e1, os1)"
    by (simp add: run_with_current_session_def)
  with invalid_steps [of "(l1, e1, os1)"] r stale show ?thesis by auto
qed

text \<open>A policy cycle that fails is passed on as it is: the lease keeps saying it is valid although its worker
  may be gone.\<close>

lemma failed_policy_cycle_keeps_lease:
  assumes "ensure_valid l e = Inr ()" and "enforce_policy (le_config l) e os = (Inl err, e1, os1)"
  shows "run_with_current_session pp snk command l e os = (Inl err, l, e1, os1)" and "le_valid l"
  using assms by (auto simp: run_with_current_session_def enforce_policy_before_request_def ensure_valid_def
      split: if_splits)

text \<open>An entry whose worker died is opened again with its command count as it was: the first command of the new
  worker is then timed as a warm one.\<close>

lemma reopened_entry_keeps_command_count:
  assumes "ensure_entry_running pp render ho e os = Some (r, e', os')"
  shows "en_commands_since_open e' = en_commands_since_open e" "en_last_rss_kib e' = en_last_rss_kib e"
  using assms by (auto simp: ensure_entry_running_def set_worker_def
      split: option.splits prod.splits sum.splits worker_status.splits)

section \<open>Refused admissions\<close>

text \<open>Only time passed.\<close>

definition only_time :: "world \<Rightarrow> world \<Rightarrow> bool" where
  "only_time os os' \<longleftrightarrow> (\<exists>c ds. os' = os\<lparr>os_clock := c, os_delays := ds\<rparr>)"

lemma only_timeI: "os' = os\<lparr>os_clock := c, os_delays := ds\<rparr> \<Longrightarrow> only_time os os'"
  unfolding only_time_def by blast

lemma only_time_refl [simp]: "only_time os os"
  by (rule only_timeI [where c = "os_clock os" and ds = "os_delays os"]) simp

lemma only_time_trans [trans]:
  assumes "only_time os os1" and "only_time os1 os2"
  shows "only_time os os2"
proof -
  from assms obtain c1 d1 c2 d2 where "os1 = os\<lparr>os_clock := c1, os_delays := d1\<rparr>"
    "os2 = os1\<lparr>os_clock := c2, os_delays := d2\<rparr>" by (auto simp: only_time_def)
  then have "os2 = os\<lparr>os_clock := c2, os_delays := d2\<rparr>" by simp
  then show ?thesis by (rule only_timeI)
qed

lemma only_time_now: "now os = (t, os') \<Longrightarrow> only_time os os'"
  by (cases "os_delays os") (auto simp: now_def intro: only_timeI)

lemma only_time_elapsed: "elapsed s os = (d, os') \<Longrightarrow> only_time os os'"
  by (auto simp: elapsed_def dest: only_time_now split: prod.splits)

lemma only_time_sleep: "only_time os (sleep d os)"
  by (rule only_timeI [where c = "os_clock os + max d 1" and ds = "os_delays os"]) (simp add: sleep_def)

lemma queue_wait_spec:
  "started \<le> os_clock os \<Longrightarrow> started + timeout \<le> os_clock (queue_wait timeout started os) \<and>
     only_time os (queue_wait timeout started os)"
proof (induction timeout started os rule: queue_wait.induct)
  case (1 timeout started os)
  obtain waited os1 where w: "elapsed started os = (waited, os1)" by (cases "elapsed started os")
  obtain again os2 where a: "elapsed started os1 = (again, os2)" by (cases "elapsed started os1")
  show ?case
  proof (cases "waited < timeout")
    case True
    let ?os3 = "sleep (min (timeout - again) (millis 10)) os2"
    have "started \<le> os_clock ?os3" using 1(2) elapsed_mono [OF w] elapsed_mono [OF a] by (simp add: sleep_def)
    from 1(1) [OF w [symmetric] True a [symmetric] this]
    have ih: "started + timeout \<le> os_clock (queue_wait timeout started ?os3)"
      "only_time ?os3 (queue_wait timeout started ?os3)" by simp_all
    have eq: "queue_wait timeout started os = queue_wait timeout started ?os3"
      using w a True by (simp add: queue_wait.simps [of timeout started os])
    have "only_time os ?os3"
      using only_time_elapsed [OF w] only_time_elapsed [OF a] only_time_sleep by (blast intro: only_time_trans)
    then show ?thesis unfolding eq using ih by (blast intro: only_time_trans)
  next
    case False
    then have "queue_wait timeout started os = os1" using w by (simp add: queue_wait.simps [of timeout started os])
    with False 1(2) elapsed_mono [OF w] only_time_elapsed [OF w] show ?thesis by auto
  qed
qed

lemma admit_same_entries: "admit_lease key p os = (r, p', os') \<Longrightarrow> same_entries p p'"
proof (cases rule: admit_cases, assumption, goal_cases)
  case (1 i)
  then show ?case by (simp add: same_entries_def record_key_hit_def remember_seen_key_def list_all2_refl)
next
  case (2 reason rss p3)
  from 2(1,2) show ?case
  proof (cases rule: miss_cases)
    case (full p3 rss e)
    from full(4) have "pl_entries p' = pl_entries p3" by (cases rule: pool_full_error_cases) simp_all
    with missed_fields(11) [OF full(3)] show ?thesis by (simp add: same_entries_def)
  next
    case (budget p3 rss e)
    from budget(5) have "pl_entries p' = pl_entries p3" by (cases rule: budget_cases) simp_all
    with missed_fields(11) [OF budget(4)] show ?thesis by (simp add: same_entries_def)
  next
    case (cold p3 rss)
    with missed_fields(11) [OF cold(4)] show ?thesis by (simp add: same_entries_def record_cold_open_admitted_def)
  qed
qed

text \<open>Admission decides by key, then by count, then by memory.  A key that is present is reused.  A key that is
  not is admitted for a cold open only when a worker may still be added; a full pool refuses it, at once without a
  queue timeout and otherwise after waiting at least that timeout; a pool with room refuses it only when every child
  reported its memory and the total has reached the budget.  A refusal changes no entry beyond its memory sample,
  reaches no child, and says that no work entered one.\<close>

theorem admission_decides_in_order:
  assumes "admit_lease key p os = (r, p', os')"
  shows "same_entries p p' \<and> only_time os os' \<and>
         (\<forall>i. r = Inr (ReuseWarmEntry i) \<longrightarrow> i < length (pl_entries p) \<and> en_key (pl_entries p ! i) = key) \<and>
         (r = Inr OpenColdEntry \<longrightarrow> length (pl_entries p) < pc_max_workers (pl_config p)) \<and>
         ((\<forall>i. r \<noteq> Inr (ReuseWarmEntry i)) \<longrightarrow> (\<forall>e \<in> set (pl_entries p). en_key e \<noteq> key)) \<and>
         (\<forall>err. r = Inl err \<longrightarrow>
            (\<exists>facts. resource_exhausted_facts err = Some facts \<and> \<not> rf_work_entered_child facts) \<and>
            (if length (pl_entries p) < pc_max_workers (pl_config p)
             then \<exists>limit current stats facts. pc_max_total_child_rss_kib (pl_config p) = Some limit \<and> limit \<le> current \<and>
                    err = EWorkerPoolMemoryBudgetExceeded current limit stats facts
             else if pc_queue_wait_timeout (pl_config p) = 0
             then \<exists>facts. err = EWorkerPoolExhausted (pc_max_workers (pl_config p)) facts
             else (\<exists>facts. err = EWorkerPoolQueueTimeout (pc_queue_wait_timeout (pl_config p)) facts) \<and>
                  os_clock os + pc_queue_wait_timeout (pl_config p) \<le> os_clock os'))"
  using assms
proof (cases rule: admit_cases)
  case (hit i)
  then show ?thesis using admit_same_entries [OF assms] by simp
next
  case (miss reason rss p3)
  note same = admit_same_entries [OF assms]
  from assms miss(1) show ?thesis
  proof (cases rule: miss_cases)
    case (full p3 rss e)
    note f = missed_fields(10) [OF full(3)]
    from full(4) show ?thesis
    proof (cases rule: pool_full_error_cases)
      case (at_once facts)
      with full(1,2) f miss(1) same show ?thesis by simp
    next
      case (waited facts started os1)
      have "started \<le> os_clock os1" "os_clock os \<le> started" using now_mono [OF waited(5)] by simp_all
      with queue_wait_spec [of started os1 "pc_queue_wait_timeout (pl_config p)"] only_time_now [OF waited(5)] waited(6) f
      have "only_time os os'" "os_clock os + pc_queue_wait_timeout (pl_config p) \<le> os_clock os'"
        by (auto intro: only_time_trans)
      with full(1,2) f miss(1) waited(1-3) same show ?thesis by simp
    qed
  next
    case (budget p3 rss e)
    note f = missed_fields(10) [OF budget(4)]
    from budget(5) show ?thesis
      by (cases rule: budget_cases) (use budget(1-3) f miss(1) same in auto)
  next
    case (cold p3 rss)
    with miss(1) same show ?thesis by simp
  qed
qed

section \<open>Concrete pools\<close>

definition demo_fingerprint :: string where "demo_fingerprint = ''lean-4''"

definition demo_pool :: pool where "demo_pool = pool_new (pool_config_new 1)"

lemma demo_acquire:
  "\<exists>l p os'. acquire_lease (\<lambda>_. None) (\<lambda>_. []) demo_host demo_fingerprint demo_boot_builder demo_pool demo_boot_world =
     Some (Inr l, p, os')"
proof -
  let ?key = "session_key_of demo_host demo_fingerprint demo_boot_builder"
  obtain c os1 where o: "open_unchecked (\<lambda>_. None) demo_host demo_boot_builder demo_boot_world = (Inr c, os1)"
    using demo_boot by blast
  have "bootstrap_static_checks (\<lambda>_. []) demo_host demo_boot_builder = Some []"
    by (simp add: bootstrap_static_checks_def worker_child_static_checks_def demo_boot_builder_def builder_new_def
        for_toolchain_def child_resolve_def validate_worker_child_path_def demo_host_def)
  with o have oc: "open_capability (\<lambda>_. None) (\<lambda>_. []) demo_host demo_boot_builder demo_boot_world = Some (Inr c, os1)"
    by (simp add: open_capability_def first_error_def)
  obtain p1 where a: "admit_lease ?key demo_pool demo_boot_world = (Inr OpenColdEntry, p1, demo_boot_world)"
    by (simp add: admit_lease_def demo_pool_def pool_new_def pool_config_new_def remember_seen_key_def record_key_miss_def
        record_cold_open_attempt_def refresh_total_child_rss_def ensure_spawn_within_total_rss_budget_def Let_def)
  obtain at os2 where n: "now os1 = (at, os2)" by (cases "now os1")
  obtain l e2 where g: "grant_lease (length (pl_entries p1)) (pl_config p1)
      (snd (sample_rss (new_entry ?key demo_boot_builder c at))) = (l, e2)"
    by (cases "grant_lease (length (pl_entries p1)) (pl_config p1)
      (snd (sample_rss (new_entry ?key demo_boot_builder c at)))")
  from oc a n g show ?thesis by (simp add: acquire_lease_def open_entry_def Let_def)
qed

theorem pool_bounds_and_ledger_witness:
  "\<exists>p os. pool_history demo_host demo_fingerprint (pool_config_new 1) p os \<and> sn_workers (pool_snapshot_of p) = 1 \<and>
     sn_active_workers (pool_snapshot_of p) = 0"
proof -
  obtain l p1 os1 where a: "acquire_lease (\<lambda>_. None) (\<lambda>_. []) demo_host demo_fingerprint demo_boot_builder demo_pool
      demo_boot_world = Some (Inr l, p1, os1)" using demo_acquire by blast
  have h0: "pool_history demo_host demo_fingerprint (pool_config_new 1) demo_pool demo_boot_world"
    unfolding demo_pool_def by (rule history_new)
  let ?p = "put_entry (le_index l) (release_lease l (pl_entries p1 ! le_index l)) p1"
  have h: "pool_history demo_host demo_fingerprint (pool_config_new 1) ?p os1"
    using history_leased [OF h0 a rtranclp.rtrancl_refl] .
  have "le_index l < length (pl_entries p1)"
    using acquire_acquired [OF _ _ _ a] history_inv [OF h0] by (auto simp: acquired_def leased_only_def)
  then have "0 < length (pl_entries p1)" by (rule le_less_trans [OF le0])
  then have "0 < sn_workers (pool_snapshot_of ?p)" by (simp add: pool_snapshot_of_def snapshot_from_entries_def)
  with pool_bounds_and_ledger [OF h] h show ?thesis
    by (intro exI [of _ ?p] exI [of _ os1]) (simp add: pool_config_new_def)
qed

theorem leased_session_matches_request_witness:
  "\<exists>l p' os'. acquire_lease (\<lambda>_. None) (\<lambda>_. []) demo_host demo_fingerprint demo_boot_builder demo_pool demo_boot_world =
       Some (Inr l, p', os') \<and> sc_imports (cap_session_config (en_capability (pl_entries p' ! le_index l))) = [] \<and>
     en_active_leases (pl_entries p' ! le_index l) = 1"
proof -
  obtain l p1 os1 where a: "acquire_lease (\<lambda>_. None) (\<lambda>_. []) demo_host demo_fingerprint demo_boot_builder demo_pool
      demo_boot_world = Some (Inr l, p1, os1)" using demo_acquire by blast
  have h0: "pool_history demo_host demo_fingerprint (pool_config_new 1) demo_pool demo_boot_world"
    unfolding demo_pool_def by (rule history_new)
  from leased_session_matches_request [OF h0 a] a show ?thesis
    by (auto simp: demo_boot_builder_def builder_new_def)
qed

text \<open>A pool of one entry, served by a worker that runs.\<close>

definition demo_entry :: pool_entry where
  "demo_entry = new_entry (key_new demo_host demo_fingerprint ''a'' ''pkg'' ''L'' []) demo_boot_builder
     \<lparr>cap_worker = demo_worker [] [], cap_session_config = demo_config ''a'', cap_dylib_path = [],
      cap_validated_metadata = None\<rparr> 0"

definition demo_full_pool :: pool where
  "demo_full_pool = (pool_new (queue_wait_timeout 5 (pool_config_new 1)))\<lparr>pl_entries := [demo_entry]\<rparr>"

theorem admission_decides_in_order_witness:
  "case admit_lease (key_new demo_host demo_fingerprint ''b'' ''pkg'' ''L'' []) demo_full_pool demo_world of
     (r, p', os') \<Rightarrow> (\<exists>facts. r = Inl (EWorkerPoolQueueTimeout 5 facts)) \<and> 5 \<le> os_clock os'"
proof -
  let ?key = "key_new demo_host demo_fingerprint ''b'' ''pkg'' ''L'' []"
  obtain r p' os' where a: "admit_lease ?key demo_full_pool demo_world = (r, p', os')"
    by (cases "admit_lease ?key demo_full_pool demo_world")
  note t = admission_decides_in_order [OF a]
  have no: "en_key demo_entry \<noteq> ?key"
    by (simp add: demo_entry_def new_entry_def key_new_def Let_def normalize_root_def demo_host_def)
  have "\<exists>err. r = Inl err"
  proof (rule ccontr)
    assume "\<not> (\<exists>err. r = Inl err)"
    then obtain d where "r = Inr d" by (cases r) auto
    with t no show False
      by (cases d) (auto simp: demo_full_pool_def pool_new_def pool_config_new_def queue_wait_timeout_def)
  qed
  then obtain err where "r = Inl err" by blast
  with t a show ?thesis
    by (auto simp: demo_full_pool_def pool_new_def pool_config_new_def queue_wait_timeout_def demo_world_def)
qed

theorem ended_lease_is_inert_witness:
  "\<exists>l e os l1 e1 os1. ends_lease (l, e, os) (l1, e1, os1) \<and>
     (\<exists>reason. run_with_current_session (\<lambda>_. None) no_sinks (\<lambda>w os. (Inr (), w, os)) l1 e1 os1 =
        (Inl (ELeaseInvalidated reason), l1, e1, os1))"
proof -
  let ?fact = "bare_resource_facts ''worker_cancelled'' ''op'' None"
  let ?cmd = "\<lambda>w os. (Inl (ECancelled ''op'' ?fact), w, os) :: unit outcome"
  obtain l e where g: "grant_lease 0 (pool_config_new 1) demo_entry = (l, e)"
    by (cases "grant_lease 0 (pool_config_new 1) demo_entry")
  then have lv: "ensure_valid l e = Inr ()" "le_config l = pool_config_new 1"
    by (auto simp: grant_lease_def ensure_valid_def current_generation_def en_worker_def)
  then have ep: "enforce_policy_before_request l e demo_world = (Inr (), l, e, demo_world)"
    by (simp add: enforce_policy_before_request_def enforce_policy_def enforce_idle_def pool_config_new_def)
  obtain r l1 e1 os1 where run: "run_with_current_session (\<lambda>_. None) no_sinks ?cmd l e demo_world = (r, l1, e1, os1)"
    by (cases "run_with_current_session (\<lambda>_. None) no_sinks ?cmd l e demo_world")
  from run have "r = Inl (ECancelled ''op'' ?fact)"
    by (auto simp: run_with_current_session_def lv ep attached_def with_session_def worker_session_missing_def Let_def
        map_lifecycle_result_def split: prod.splits)
  with run have "ends_lease (l, e, demo_world) (l1, e1, os1)"
    by (intro ends_lease.by_command [OF _ ep lv(1)]) (auto simp: invalidates_lease_def)
  with ended_lease_is_inert [OF this] show ?thesis by blast
qed

end
