(* ===== verification/Lean_Error.thy ===== *)
theory Lean_Error
  imports Display_Text
begin

text \<open>
  The error type of \<open>lean-rs\<close> (\<open>error/mod.rs\<close>): the stage at which the host stack failed, the
  stable diagnostic code a caller reacts to, and the constructors through which every error is
  built, which bound its message.  \<open>error/panic.rs\<close> turns a panic in a callback into such an
  error, \<open>error/redact.rs\<close> shortens a path for a log line, and \<open>error/capture.rs\<close> keeps the most
  recent log events of a thread and reads the diagnostic code back from them.
\<close>

section \<open>Classification\<close>

datatype host_stage =
    StageRuntimeInit
  | StageConversion
  | StageCallbackPanic
  | StageLink
  | StageLoad
  | StageInternal
  | StageResource

datatype diagnostic_code =
    CodeRuntimeInit
  | CodeLinking
  | CodeModuleInit
  | CodeSymbolLookup
  | CodeAbiConversion
  | CodeLeanException
  | CodeElaboration
  | CodeUnsupported
  | CodeCancelled
  | CodeInternal
  | CodeResourceExhausted

datatype exception_kind =
    KindAlreadyExists | KindOtherError | KindResourceBusy | KindResourceVanished | KindUnsupportedOperation
  | KindHardwareFault | KindUnsatisfiedConstraints | KindIllegalOperation | KindProtocolError | KindTimeExpired
  | KindInterrupted | KindNoFileOrDirectory | KindInvalidArgument | KindPermissionDenied | KindResourceExhausted
  | KindInappropriateType | KindNoSuchThing | KindUnexpectedEof | KindUserError | KindOther

fun code_as_str :: "diagnostic_code \<Rightarrow> string" where
  "code_as_str CodeRuntimeInit = ''lean_rs.runtime_init''"
| "code_as_str CodeLinking = ''lean_rs.linking''"
| "code_as_str CodeModuleInit = ''lean_rs.module_init''"
| "code_as_str CodeSymbolLookup = ''lean_rs.symbol_lookup''"
| "code_as_str CodeAbiConversion = ''lean_rs.abi_conversion''"
| "code_as_str CodeLeanException = ''lean_rs.lean_exception''"
| "code_as_str CodeElaboration = ''lean_rs.elaboration''"
| "code_as_str CodeUnsupported = ''lean_rs.unsupported''"
| "code_as_str CodeCancelled = ''lean_rs.cancelled''"
| "code_as_str CodeInternal = ''lean_rs.internal''"
| "code_as_str CodeResourceExhausted = ''lean_rs.resource_exhausted''"

text \<open>The derived \<open>Debug\<close> rendering of the tags is the name of the variant.\<close>

fun stage_debug :: "host_stage \<Rightarrow> string" where
  "stage_debug StageRuntimeInit = ''RuntimeInit''"
| "stage_debug StageConversion = ''Conversion''"
| "stage_debug StageCallbackPanic = ''CallbackPanic''"
| "stage_debug StageLink = ''Link''"
| "stage_debug StageLoad = ''Load''"
| "stage_debug StageInternal = ''Internal''"
| "stage_debug StageResource = ''Resource''"

fun code_debug :: "diagnostic_code \<Rightarrow> string" where
  "code_debug CodeRuntimeInit = ''RuntimeInit''"
| "code_debug CodeLinking = ''Linking''"
| "code_debug CodeModuleInit = ''ModuleInit''"
| "code_debug CodeSymbolLookup = ''SymbolLookup''"
| "code_debug CodeAbiConversion = ''AbiConversion''"
| "code_debug CodeLeanException = ''LeanException''"
| "code_debug CodeElaboration = ''Elaboration''"
| "code_debug CodeUnsupported = ''Unsupported''"
| "code_debug CodeCancelled = ''Cancelled''"
| "code_debug CodeInternal = ''Internal''"
| "code_debug CodeResourceExhausted = ''ResourceExhausted''"

fun kind_debug :: "exception_kind \<Rightarrow> string" where
  "kind_debug KindAlreadyExists = ''AlreadyExists''"
| "kind_debug KindOtherError = ''OtherError''"
| "kind_debug KindResourceBusy = ''ResourceBusy''"
| "kind_debug KindResourceVanished = ''ResourceVanished''"
| "kind_debug KindUnsupportedOperation = ''UnsupportedOperation''"
| "kind_debug KindHardwareFault = ''HardwareFault''"
| "kind_debug KindUnsatisfiedConstraints = ''UnsatisfiedConstraints''"
| "kind_debug KindIllegalOperation = ''IllegalOperation''"
| "kind_debug KindProtocolError = ''ProtocolError''"
| "kind_debug KindTimeExpired = ''TimeExpired''"
| "kind_debug KindInterrupted = ''Interrupted''"
| "kind_debug KindNoFileOrDirectory = ''NoFileOrDirectory''"
| "kind_debug KindInvalidArgument = ''InvalidArgument''"
| "kind_debug KindPermissionDenied = ''PermissionDenied''"
| "kind_debug KindResourceExhausted = ''ResourceExhausted''"
| "kind_debug KindInappropriateType = ''InappropriateType''"
| "kind_debug KindNoSuchThing = ''NoSuchThing''"
| "kind_debug KindUnexpectedEof = ''UnexpectedEof''"
| "kind_debug KindUserError = ''UserError''"
| "kind_debug KindOther = ''Other''"

section \<open>Errors\<close>

definition LEAN_ERROR_MESSAGE_LIMIT :: nat where "LEAN_ERROR_MESSAGE_LIMIT = 4096"

definition bound_message :: "string \<Rightarrow> string" where
  "bound_message s =
     (if length s \<le> LEAN_ERROR_MESSAGE_LIMIT then s else take (floor_boundary s LEAN_ERROR_MESSAGE_LIMIT) s)"

record exhausted_facts =
  xf_cause :: string
  xf_work_entered_lean :: bool
  xf_current_rss_kib :: "nat option"
  xf_limit_kib :: "nat option"
  xf_import_count :: "nat option"
  xf_import_limit :: "nat option"
  xf_requested_imports :: "nat option"
  xf_last_import_stats :: "string option"

record host_failure =
  hf_stage :: host_stage
  hf_code :: diagnostic_code
  hf_message :: string
  hf_resource_facts :: "exhausted_facts option"

record lean_exception =
  lx_kind :: exception_kind
  lx_message :: string

datatype lean_rs_error =
    LeanException lean_exception
  | HostFailure host_failure
  | LeanCancelled string

fun lean_error_code :: "lean_rs_error \<Rightarrow> diagnostic_code" where
  "lean_error_code (LeanException e) = CodeLeanException"
| "lean_error_code (HostFailure failure) = hf_code failure"
| "lean_error_code (LeanCancelled msg) = CodeCancelled"

definition host_error :: "host_stage \<Rightarrow> diagnostic_code \<Rightarrow> string \<Rightarrow> lean_rs_error" where
  "host_error stage code msg =
     HostFailure \<lparr>hf_stage = stage, hf_code = code, hf_message = bound_message msg, hf_resource_facts = None\<rparr>"

datatype panic_payload = StaticStr string | OwnedString string | OtherPayload

fun render_panic_payload :: "panic_payload \<Rightarrow> string" where
  "render_panic_payload (StaticStr s) = s"
| "render_panic_payload (OwnedString s) = s"
| "render_panic_payload OtherPayload = ''panic payload was not a string''"

definition runtime_init :: "string \<Rightarrow> lean_rs_error" where
  "runtime_init = host_error StageRuntimeInit CodeRuntimeInit"

definition runtime_init_panic :: "panic_payload \<Rightarrow> lean_rs_error" where
  "runtime_init_panic payload = runtime_init (render_panic_payload payload)"

text \<open>
  The supported window: the versions of each toolchain, as \<open>Debug\<close> renders a list of strings
  (version strings hold no character that it would escape).
\<close>

definition versions_debug :: "string list \<Rightarrow> string" where
  "versions_debug vs = ''['' @ join_with '', '' (map (\<lambda>v. [CHR 0x22] @ v @ [CHR 0x22]) vs) @ '']''"

definition runtime_init_unsupported_toolchain :: "string list list \<Rightarrow> string \<Rightarrow> lean_rs_error" where
  "runtime_init_unsupported_toolchain toolchains active_version =
     runtime_init (''active Lean toolchain '' @ active_version @ '' is not in the supported window: '' @
       join_with '', '' (map versions_debug toolchains))"

definition linking :: "string \<Rightarrow> lean_rs_error" where
  "linking = host_error StageLink CodeLinking"

definition module_init :: "string \<Rightarrow> lean_rs_error" where
  "module_init = host_error StageLoad CodeModuleInit"

definition module_init_panic :: "panic_payload \<Rightarrow> lean_rs_error" where
  "module_init_panic payload = module_init (render_panic_payload payload)"

definition symbol_lookup :: "string \<Rightarrow> lean_rs_error" where
  "symbol_lookup = host_error StageLink CodeSymbolLookup"

definition abi_conversion :: "string \<Rightarrow> lean_rs_error" where
  "abi_conversion = host_error StageConversion CodeAbiConversion"

definition lean_exception_error :: "exception_kind \<Rightarrow> string \<Rightarrow> lean_rs_error" where
  "lean_exception_error kind msg = LeanException \<lparr>lx_kind = kind, lx_message = bound_message msg\<rparr>"

definition callback_panic :: "panic_payload \<Rightarrow> lean_rs_error" where
  "callback_panic payload = host_error StageCallbackPanic CodeInternal (render_panic_payload payload)"

definition internal_error :: "string \<Rightarrow> lean_rs_error" where
  "internal_error = host_error StageInternal CodeInternal"

definition resource_exhausted_with_facts :: "string \<Rightarrow> exhausted_facts option \<Rightarrow> lean_rs_error" where
  "resource_exhausted_with_facts msg facts =
     HostFailure \<lparr>hf_stage = StageResource, hf_code = CodeResourceExhausted, hf_message = bound_message msg,
       hf_resource_facts = facts\<rparr>"

definition resource_exhausted :: "string \<Rightarrow> lean_rs_error" where
  "resource_exhausted msg = resource_exhausted_with_facts msg None"

definition host_cancelled :: lean_rs_error where
  "host_cancelled = LeanCancelled ''operation cancelled by LeanCancellationToken''"

definition host_unsupported :: "string \<Rightarrow> lean_rs_error" where
  "host_unsupported = host_error StageLink CodeUnsupported"

text \<open>\<open>Display\<close> of an error and its parts; \<open>lean_error_message\<close> is the \<open>message()\<close> of each.\<close>

fun lean_error_message :: "lean_rs_error \<Rightarrow> string" where
  "lean_error_message (LeanException e) = lx_message e"
| "lean_error_message (HostFailure failure) = hf_message failure"
| "lean_error_message (LeanCancelled msg) = msg"

definition exception_text :: "lean_exception \<Rightarrow> string" where
  "exception_text e = ''Lean threw '' @ kind_debug (lx_kind e) @ '': '' @ lx_message e"

definition failure_text :: "host_failure \<Rightarrow> string" where
  "failure_text f = ''host stage '' @ stage_debug (hf_stage f) @ '' ['' @ code_as_str (hf_code f) @ '']: '' @ hf_message f"

fun error_text :: "lean_rs_error \<Rightarrow> string" where
  "error_text (LeanException e) = ''lean-rs: '' @ exception_text e"
| "error_text (HostFailure f) = ''lean-rs: '' @ failure_text f"
| "error_text (LeanCancelled msg) = ''lean-rs: '' @ msg"

text \<open>\<open>catch_callback_panic\<close>: what a closure invoked from Lean did, as a result.\<close>

datatype 'r closure_end = Returned "lean_rs_error + 'r" | Panicked panic_payload

fun catch_callback_panic :: "'r closure_end \<Rightarrow> lean_rs_error + 'r" where
  "catch_callback_panic (Returned result) = result"
| "catch_callback_panic (Panicked payload) = Inl (callback_panic payload)"

section \<open>Paths in log lines\<close>

text \<open>
  \<open>Path::components\<close> on Unix: the parts between slashes, where empty parts and \<open>.\<close> vanish; of
  the others all but \<open>..\<close> are \<open>Normal\<close>.
\<close>

definition normal_components :: "string \<Rightarrow> string list" where
  "normal_components path = filter (\<lambda>p. p \<noteq> [] \<and> p \<noteq> ''.'' \<and> p \<noteq> ''..'') (split_on (CHR ''/'') path)"

definition short_path :: "string \<Rightarrow> string" where
  "short_path path =
     (let tail = rev (take 3 (rev (normal_components path))) in
      if tail = [] then ''<unknown>''
      else let joined = join_with ''/'' tail in
        if LEAN_ERROR_MESSAGE_LIMIT < length joined then bound_message joined else joined)"

section \<open>Captured events\<close>

definition DIAGNOSTIC_CAPTURE_DEFAULT_CAPACITY :: nat where "DIAGNOSTIC_CAPTURE_DEFAULT_CAPACITY = 256"

text \<open>
  What \<open>tracing\<close> hands the layer: the metadata of the span or event, the name of the span it
  happened in, and the fields in the order they are recorded, each with its rendered value.
\<close>

datatype log_level = LevelError | LevelWarn | LevelInfo | LevelDebug | LevelTrace

record log_record =
  lr_target :: string
  lr_level :: log_level
  lr_name :: string
  lr_event_span :: "string option"
  lr_current_span :: "string option"
  lr_fields :: "(string \<times> string) list"

record captured_event =
  ce_target :: string
  ce_level :: string
  ce_name :: string
  ce_span :: "string option"
  ce_code :: "diagnostic_code option"
  ce_message :: string
  ce_fields :: "(string \<times> string) list"

record capture_buffer =
  cp_events :: "captured_event list"
  cp_overflowed :: nat
  cp_capacity :: nat

definition capture_new :: "nat \<Rightarrow> capture_buffer" where
  "capture_new capacity = \<lparr>cp_events = [], cp_overflowed = 0, cp_capacity = max capacity 1\<rparr>"

definition capture_push :: "captured_event \<Rightarrow> capture_buffer \<Rightarrow> capture_buffer" where
  "capture_push event b =
     (let b1 = (if cp_capacity b \<le> length (cp_events b)
                then b\<lparr>cp_events := tl (cp_events b), cp_overflowed := sat_inc (cp_overflowed b)\<rparr>
                else b)
      in b1\<lparr>cp_events := cp_events b1 @ [event]\<rparr>)"

fun level_str :: "log_level \<Rightarrow> string" where
  "level_str LevelError = ''error''"
| "level_str LevelWarn = ''warn''"
| "level_str LevelInfo = ''info''"
| "level_str LevelDebug = ''debug''"
| "level_str LevelTrace = ''trace''"

definition trim_quotes :: "string \<Rightarrow> string" where
  "trim_quotes s = rev (dropWhile (\<lambda>c. c = CHR 0x22) (rev (dropWhile (\<lambda>c. c = CHR 0x22) s)))"

definition code_names :: "(string \<times> string \<times> diagnostic_code) list" where
  "code_names =
     [(''lean_rs.runtime_init'', ''RuntimeInit'', CodeRuntimeInit),
      (''lean_rs.linking'', ''Linking'', CodeLinking),
      (''lean_rs.module_init'', ''ModuleInit'', CodeModuleInit),
      (''lean_rs.symbol_lookup'', ''SymbolLookup'', CodeSymbolLookup),
      (''lean_rs.abi_conversion'', ''AbiConversion'', CodeAbiConversion),
      (''lean_rs.lean_exception'', ''LeanException'', CodeLeanException),
      (''lean_rs.elaboration'', ''Elaboration'', CodeElaboration),
      (''lean_rs.unsupported'', ''Unsupported'', CodeUnsupported),
      (''lean_rs.internal'', ''Internal'', CodeInternal),
      (''lean_rs.resource_exhausted'', ''ResourceExhausted'', CodeResourceExhausted)]"

definition parse_code_str :: "string \<Rightarrow> diagnostic_code option" where
  "parse_code_str raw =
     (let trimmed = trim_quotes raw in
      map_option (\<lambda>(_, _, code). code) (find (\<lambda>(id, name, _). trimmed = id \<or> trimmed = name) code_names))"

record field_visitor =
  fv_code :: "diagnostic_code option"
  fv_message :: "string option"
  fv_other_fields :: "(string \<times> string) list"

definition record_str :: "string \<times> string \<Rightarrow> field_visitor \<Rightarrow> field_visitor" where
  "record_str field v =
     (case field of (name, val) \<Rightarrow>
        if name = ''code'' then
          (case parse_code_str val of
             Some known \<Rightarrow> v\<lparr>fv_code := Some known\<rparr>
           | None \<Rightarrow> v\<lparr>fv_other_fields := fv_other_fields v @ [(''code'', val)]\<rparr>)
        else if name = ''message'' then v\<lparr>fv_message := Some val\<rparr>
        else v\<lparr>fv_other_fields := fv_other_fields v @ [(name, val)]\<rparr>)"

definition visit_fields :: "(string \<times> string) list \<Rightarrow> field_visitor" where
  "visit_fields flds = fold record_str flds \<lparr>fv_code = None, fv_message = None, fv_other_fields = []\<rparr>"

definition target_is_ours :: "string \<Rightarrow> bool" where
  "target_is_ours t \<longleftrightarrow> take 7 t = ''lean_rs''"

definition captured_record :: "string \<Rightarrow> string option \<Rightarrow> log_record \<Rightarrow> captured_event" where
  "captured_record name spn r =
     (let v = visit_fields (lr_fields r) in
      \<lparr>ce_target = lr_target r, ce_level = level_str (lr_level r), ce_name = name, ce_span = spn,
       ce_code = fv_code v, ce_message = (case fv_message v of Some m \<Rightarrow> m | None \<Rightarrow> []),
       ce_fields = fv_other_fields v\<rparr>)"

definition on_new_span :: "log_record \<Rightarrow> capture_buffer \<Rightarrow> capture_buffer" where
  "on_new_span r b =
     (if \<not> target_is_ours (lr_target r) then b
      else capture_push (captured_record ''span_open'' (Some (lr_name r)) r) b)"

definition on_event :: "log_record \<Rightarrow> capture_buffer \<Rightarrow> capture_buffer" where
  "on_event r b =
     (if \<not> target_is_ours (lr_target r) then b
      else capture_push (captured_record (lr_name r)
        (case lr_event_span r of Some s \<Rightarrow> Some s | None \<Rightarrow> lr_current_span r) r) b)"

section \<open>Messages are bounded\<close>

lemma bound_message_bound: "length (bound_message s) \<le> LEAN_ERROR_MESSAGE_LIMIT"
  using floor_boundary_le [of s LEAN_ERROR_MESSAGE_LIMIT] by (auto simp: bound_message_def)

lemma bound_message_short [simp]: "length s \<le> LEAN_ERROR_MESSAGE_LIMIT \<Longrightarrow> bound_message s = s"
  by (simp add: bound_message_def)

lemma bound_message_prefix:
  "\<exists>c. bound_message s = take c s \<and> is_char_boundary s c \<and> c \<le> length s"
proof (cases "length s \<le> LEAN_ERROR_MESSAGE_LIMIT")
  case True
  then show ?thesis by (intro exI [of _ "length s"]) (simp add: is_char_boundary_def)
next
  case False
  then have "floor_boundary s LEAN_ERROR_MESSAGE_LIMIT \<le> length s"
    using floor_boundary_le [of s LEAN_ERROR_MESSAGE_LIMIT] by simp
  with False show ?thesis
    using floor_boundary_boundary [of s LEAN_ERROR_MESSAGE_LIMIT]
    by (intro exI [of _ "floor_boundary s LEAN_ERROR_MESSAGE_LIMIT"]) (simp add: bound_message_def)
qed

lemma floor_boundary_greatest: "is_char_boundary s i \<Longrightarrow> i \<le> c \<Longrightarrow> i \<le> floor_boundary s c"
proof (induction c)
  case (Suc c)
  then show ?case by (cases "i = Suc c") auto
qed simp

text \<open>The kept prefix is the longest one that ends at a character boundary within the limit.\<close>

lemma bound_message_longest:
  assumes "is_char_boundary s i" "i \<le> length s" "i \<le> LEAN_ERROR_MESSAGE_LIMIT"
  shows "i \<le> length (bound_message s)"
proof (cases "length s \<le> LEAN_ERROR_MESSAGE_LIMIT")
  case False
  then show ?thesis
    using floor_boundary_greatest [OF assms(1,3)] floor_boundary_le [of s LEAN_ERROR_MESSAGE_LIMIT]
    by (simp add: bound_message_def)
qed (use assms in simp)

lemma bound_message_idem [simp]: "bound_message (bound_message s) = bound_message s"
  by (simp add: bound_message_bound)

text \<open>
  What every error satisfies: its message is within the limit, stage and code belong together,
  and structured facts come only with an exhausted resource.
\<close>

fun stage_code :: "host_stage \<Rightarrow> diagnostic_code \<Rightarrow> bool" where
  "stage_code StageRuntimeInit c \<longleftrightarrow> c = CodeRuntimeInit"
| "stage_code StageConversion c \<longleftrightarrow> c = CodeAbiConversion"
| "stage_code StageCallbackPanic c \<longleftrightarrow> c = CodeInternal"
| "stage_code StageLink c \<longleftrightarrow> c = CodeLinking \<or> c = CodeSymbolLookup \<or> c = CodeUnsupported"
| "stage_code StageLoad c \<longleftrightarrow> c = CodeModuleInit"
| "stage_code StageInternal c \<longleftrightarrow> c = CodeInternal"
| "stage_code StageResource c \<longleftrightarrow> c = CodeResourceExhausted"

fun well_formed_error :: "lean_rs_error \<Rightarrow> bool" where
  "well_formed_error (LeanException e) \<longleftrightarrow> length (lx_message e) \<le> LEAN_ERROR_MESSAGE_LIMIT"
| "well_formed_error (HostFailure f) \<longleftrightarrow>
     length (hf_message f) \<le> LEAN_ERROR_MESSAGE_LIMIT \<and> stage_code (hf_stage f) (hf_code f) \<and>
     (hf_resource_facts f \<noteq> None \<longrightarrow> hf_stage f = StageResource)"
| "well_formed_error (LeanCancelled msg) \<longleftrightarrow> length msg \<le> LEAN_ERROR_MESSAGE_LIMIT"

lemmas error_constructors = runtime_init_def runtime_init_panic_def runtime_init_unsupported_toolchain_def linking_def
  module_init_def module_init_panic_def symbol_lookup_def abi_conversion_def lean_exception_error_def callback_panic_def
  internal_error_def resource_exhausted_with_facts_def resource_exhausted_def host_cancelled_def host_unsupported_def
  host_error_def

text \<open>The calls of the error module that make an error.\<close>

inductive built_error :: "lean_rs_error \<Rightarrow> bool" where
  "built_error (runtime_init msg)"
| "built_error (runtime_init_panic payload)"
| "built_error (runtime_init_unsupported_toolchain window active)"
| "built_error (linking msg)"
| "built_error (module_init msg)"
| "built_error (module_init_panic payload)"
| "built_error (symbol_lookup msg)"
| "built_error (abi_conversion msg)"
| "built_error (lean_exception_error kind msg)"
| "built_error (callback_panic payload)"
| "built_error (internal_error msg)"
| "built_error (resource_exhausted msg)"
| "built_error (resource_exhausted_with_facts msg facts)"
| "built_error host_cancelled"
| "built_error (host_unsupported msg)"

lemma cancelled_short: "length ''operation cancelled by LeanCancellationToken'' \<le> LEAN_ERROR_MESSAGE_LIMIT"
  by (simp add: LEAN_ERROR_MESSAGE_LIMIT_def)

lemma built_well_formed: "built_error e \<Longrightarrow> well_formed_error e"
  by (induction rule: built_error.induct)
    (simp_all add: error_constructors bound_message_bound cancelled_short del: list.size)

text \<open>C38: Whatever constructor makes an error (the panic conversions included), its message is at most
  4096 bytes, its stage and its diagnostic code belong together, structured resource facts occur only in
  an exhausted-resource failure, and a closure that panics inside a callback yields such an error too,
  never a panic.\<close>

theorem errors_are_bounded_and_classified:
  "(built_error e \<longrightarrow> well_formed_error e) \<and>
   (case catch_callback_panic (Panicked payload) of
      Inl err \<Rightarrow> built_error err \<and> lean_error_code err = CodeInternal \<and>
        lean_error_message err = bound_message (render_panic_payload payload)
    | Inr (_ :: unit) \<Rightarrow> False)"
proof -
  have "built_error (callback_panic payload)" by (rule built_error.intros)
  then show ?thesis using built_well_formed by (simp add: callback_panic_def host_error_def)
qed

theorem errors_are_bounded_and_classified_witness:
  "well_formed_error (linking ''no such package'') \<and> lean_error_message (linking ''no such package'') = ''no such package''"
proof -
  have "built_error (linking ''no such package'')" by (rule built_error.intros)
  with errors_are_bounded_and_classified [of "linking ''no such package''" OtherPayload]
  show ?thesis by (simp add: linking_def host_error_def LEAN_ERROR_MESSAGE_LIMIT_def)
qed

section \<open>Codes read back from the log\<close>

lemma code_as_str_inject: "code_as_str c = code_as_str d \<longleftrightarrow> c = d"
  by (cases c; cases d) simp_all

lemma dropWhile_keeps: "s \<noteq> [] \<Longrightarrow> \<not> P (hd s) \<Longrightarrow> dropWhile P s = s"
  by (cases s) simp_all

lemma trim_quotes_plain: "s \<noteq> [] \<Longrightarrow> hd s \<noteq> CHR 0x22 \<Longrightarrow> last s \<noteq> CHR 0x22 \<Longrightarrow> trim_quotes s = s"
  by (simp add: trim_quotes_def dropWhile_keeps hd_rev)

lemma trim_quotes_quoted:
  "s \<noteq> [] \<Longrightarrow> hd s \<noteq> CHR 0x22 \<Longrightarrow> last s \<noteq> CHR 0x22 \<Longrightarrow> trim_quotes ([CHR 0x22] @ s @ [CHR 0x22]) = s"
  by (simp add: trim_quotes_def dropWhile_keeps hd_rev)

lemma code_as_str_ends: "code_as_str c \<noteq> []" "hd (code_as_str c) \<noteq> CHR 0x22" "last (code_as_str c) \<noteq> CHR 0x22"
  by (cases c; simp)+

lemma code_debug_ends: "code_debug c \<noteq> []" "hd (code_debug c) \<noteq> CHR 0x22" "last (code_debug c) \<noteq> CHR 0x22"
  by (cases c; simp)+

lemma find_code:
  "find (\<lambda>(id, name, _). code_as_str c = id \<or> code_as_str c = name) code_names =
     (if c = CodeCancelled then None else Some (code_as_str c, code_debug c, c))"
  "find (\<lambda>(id, name, _). code_debug c = id \<or> code_debug c = name) code_names =
     (if c = CodeCancelled then None else Some (code_as_str c, code_debug c, c))"
  by (cases c; simp add: code_names_def)+

text \<open>A diagnostic code written into a log field is read back by the capture, from its stable
  identifier or its variant name, plain or in the quotes of a \<open>Debug\<close> rendering, with one exception:
  the code of a cancellation is never recognised, although its identifier is one of the published ones.\<close>

theorem captured_codes_round_trip:
  "let read_back = (if c = CodeCancelled then None else Some c) in
   parse_code_str (code_as_str c) = read_back \<and>
   parse_code_str ([CHR 0x22] @ code_as_str c @ [CHR 0x22]) = read_back \<and>
   parse_code_str (code_debug c) = read_back \<and>
   parse_code_str ([CHR 0x22] @ code_debug c @ [CHR 0x22]) = read_back"
  by (simp only: parse_code_str_def Let_def trim_quotes_plain trim_quotes_quoted code_as_str_ends code_debug_ends
      not_False_eq_True simp_thms find_code) simp

lemma cancellation_is_logged_without_code:
  "ce_code (captured_record name spn (r\<lparr>lr_fields := [(''code'', code_as_str (lean_error_code host_cancelled))]\<rparr>)) = None"
proof -
  have "parse_code_str (code_as_str CodeCancelled) = None"
    by (simp add: parse_code_str_def trim_quotes_def code_names_def)
  then show ?thesis
    by (simp add: captured_record_def visit_fields_def record_str_def Let_def host_cancelled_def)
qed

section \<open>The capture keeps the most recent events\<close>

lemma capture_push_all:
  assumes "length (cp_events b) \<le> cp_capacity b" "0 < cp_capacity b"
  shows "cp_events (fold capture_push es b) =
           drop (length (cp_events b) + length es - cp_capacity b) (cp_events b @ es) \<and>
         cp_capacity (fold capture_push es b) = cp_capacity b"
  using assms
proof (induction es arbitrary: b)
  case (Cons e es)
  let ?b = "capture_push e b"
  show ?case
  proof (cases "cp_capacity b \<le> length (cp_events b)")
    case True
    then obtain x xs where xs: "cp_events b = x # xs" using Cons.prems by (cases "cp_events b") auto
    have b: "cp_events ?b = xs @ [e]" "cp_capacity ?b = cp_capacity b"
      using True xs by (simp_all add: capture_push_def)
    show ?thesis using Cons.IH [of ?b] Cons.prems True b xs by simp
  next
    case False
    then have b: "cp_events ?b = cp_events b @ [e]" "cp_capacity ?b = cp_capacity b"
      by (simp_all add: capture_push_def)
    show ?thesis using Cons.IH [of ?b] Cons.prems False b by simp
  qed
qed simp

lemma capture_keeps_most_recent:
  "cp_events (fold capture_push es (capture_new capacity)) = drop (length es - max capacity 1) es"
  using capture_push_all [of "capture_new capacity" es] by (simp add: capture_new_def)

end
