(* ===== verification/Callback_Status.thy ===== *)
theory Callback_Status
  imports Prelude
begin

text \<open>
  The status byte of a callback (\<open>LeanCallbackStatus\<close> in \<open>callback.rs\<close> of \<open>lean-rs\<close>), which the
  trampolines return to Lean and the child reads back from a streaming export.
\<close>

datatype callback_status = CsOk | CsStaleHandle | CsPanic | CsWrongPayload | CsStopped

definition status_from_abi :: "nat \<Rightarrow> callback_status option" where
  "status_from_abi b =
     (if b = 0 then Some CsOk else if b = 1 then Some CsStaleHandle else if b = 2 then Some CsPanic
      else if b = 3 then Some CsWrongPayload else if b = 4 then Some CsStopped else None)"

fun status_as_abi :: "callback_status \<Rightarrow> nat" where
  "status_as_abi CsOk = 0"
| "status_as_abi CsStaleHandle = 1"
| "status_as_abi CsPanic = 2"
| "status_as_abi CsWrongPayload = 3"
| "status_as_abi CsStopped = 4"

fun status_description :: "callback_status \<Rightarrow> string" where
  "status_description CsOk = ''callback completed successfully''"
| "status_description CsStaleHandle = ''Lean called a callback handle after Rust dropped it''"
| "status_description CsPanic = ''Rust callback panicked and the trampoline contained the panic''"
| "status_description CsWrongPayload = ''Lean called a callback handle through the wrong payload trampoline''"
| "status_description CsStopped = ''Rust callback asked Lean to stop the callback loop''"

lemma status_round_trip [simp]: "status_from_abi (status_as_abi st) = Some st"
  by (cases st) (simp_all add: status_from_abi_def)

lemma status_from_abi_is_partial_inverse: "status_from_abi b = Some st \<longleftrightarrow> status_as_abi st = b"
  by (cases st) (auto simp: status_from_abi_def split: if_splits)

end
