(* ===== verification/Child_Queries.thy ===== *)
theory Child_Queries
  imports Bootstrap
begin

text \<open>
  What a child decides about queries on its own (\<open>child.rs\<close> of \<open>lean-rs-worker-child\<close>): the
  limits it reads from its environment, the key of the module snapshot cache, the memory guard
  of that cache, the memory-pressure taint of verification verdicts, and bounded rendering.

  SHA-256 and the JSON encoding of a session mode are parameters.
\<close>

section \<open>Limits from the environment\<close>

definition MODULE_CACHE_DEFAULT_MAX_ENTRIES :: nat where "MODULE_CACHE_DEFAULT_MAX_ENTRIES = 4"
definition MODULE_CACHE_DEFAULT_TTL_MILLIS :: nat where "MODULE_CACHE_DEFAULT_TTL_MILLIS = 5 * 60 * 1000"
definition MODULE_CACHE_DEFAULT_MAX_BYTES :: nat where "MODULE_CACHE_DEFAULT_MAX_BYTES = 64 * 1024 * 1024"
definition MODULE_CACHE_DEFAULT_RSS_GUARD_KIB :: nat where "MODULE_CACHE_DEFAULT_RSS_GUARD_KIB = 3 * 1024 * 1024"

text \<open>The variables a child sees: those the parent set on the command, then those it inherited.\<close>

definition child_var :: "(string \<Rightarrow> string option) \<Rightarrow> worker_config \<Rightarrow> string \<Rightarrow> string option" where
  "child_var inherited cfg name =
     (case env_lookup (command_env cfg) name of Some v \<Rightarrow> Some v | None \<Rightarrow> inherited name)"

definition module_cache_env_u64 :: "(string \<Rightarrow> string option) \<Rightarrow> string \<Rightarrow> nat \<Rightarrow> nat" where
  "module_cache_env_u64 vars name default_value =
     (case vars name of
        None \<Rightarrow> default_value
      | Some raw \<Rightarrow> (case parse_unsigned u64_max raw of Some n \<Rightarrow> n | None \<Rightarrow> default_value))"

text \<open>\<open>configure_lean_runtime_memory_limit_from_env\<close>: the limit given to the Lean runtime, if any.\<close>

definition sat_mul :: "nat \<Rightarrow> nat \<Rightarrow> nat" where "sat_mul a b = min (a * b) u64_max"

definition lean_runtime_memory_limit :: "(string \<Rightarrow> string option) \<Rightarrow> nat option" where
  "lean_runtime_memory_limit vars =
     (let limit_kib = module_cache_env_u64 vars ''LEAN_RS_LEAN_MAX_MEMORY_KIB'' 0 in
      if limit_kib = 0 then None else Some (sat_mul limit_kib 1024))"

section \<open>The key of the module snapshot cache\<close>

definition MODULE_QUERY_CACHE_API_VERSION :: string where
  "MODULE_QUERY_CACHE_API_VERSION = ''lean-rs.module-query-cache.v3''"

record elab_options =
  eo_namespace_context :: string
  eo_file_label :: string
  eo_heartbeat_limit :: nat
  eo_diagnostic_byte_limit :: nat

record toolchain_fingerprint =
  tf_lean_version :: string
  tf_resolved_version :: string
  tf_header_sha256 :: string
  tf_fixture_sha256 :: string
  tf_host_triple :: string

definition nul :: char where "nul = CHR 0x00"

fun to_le_bytes :: "nat \<Rightarrow> nat \<Rightarrow> string" where
  "to_le_bytes 0 n = []"
| "to_le_bytes (Suc k) n = char_of (n mod 256) # to_le_bytes k (n div 256)"

definition tagged :: "string \<Rightarrow> string" where "tagged name = nul # name @ [nul]"

text \<open>The bytes fed to the hasher, update by update.\<close>

definition cache_preimage ::
  "(host_session_mode \<Rightarrow> string) \<Rightarrow> toolchain_fingerprint \<Rightarrow> string \<Rightarrow> host_session_mode \<Rightarrow> string \<Rightarrow> string list
     \<Rightarrow> import_profile \<Rightarrow> elab_options \<Rightarrow> string \<Rightarrow> string" where
  "cache_preimage mode_json tc project_root mode source imports profile options file_identity =
     MODULE_QUERY_CACHE_API_VERSION @ tagged ''project'' @ project_root @ tagged ''mode'' @ mode_json mode @
     tagged ''file'' @ file_identity @ tagged ''source'' @ source @ tagged ''imports'' @
     concat (map (\<lambda>i. i @ [nul]) imports) @ tagged ''import_profile'' @ profile_label profile @
     tagged ''toolchain'' @ tf_lean_version tc @ [nul] @ tf_resolved_version tc @ [nul] @ tf_header_sha256 tc @ [nul] @
     tf_fixture_sha256 tc @ [nul] @ tf_host_triple tc @
     tagged ''options'' @ eo_namespace_context options @ [nul] @ eo_file_label options @ [nul] @
     to_le_bytes 8 (eo_heartbeat_limit options) @ to_le_bytes 8 (eo_diagnostic_byte_limit options)"

definition hex_digit :: "nat \<Rightarrow> char" where "hex_digit d = ''0123456789abcdef'' ! d"

definition hex_byte :: "byte \<Rightarrow> string" where
  "hex_byte b = [hex_digit (unat b div 16), hex_digit (unat b mod 16)]"

definition module_query_cache_key ::
  "(string \<Rightarrow> byte list) \<Rightarrow> (host_session_mode \<Rightarrow> string) \<Rightarrow> toolchain_fingerprint \<Rightarrow> string \<Rightarrow> host_session_mode
     \<Rightarrow> string \<Rightarrow> string list \<Rightarrow> import_profile \<Rightarrow> elab_options \<Rightarrow> string \<Rightarrow> string" where
  "module_query_cache_key sha256 mode_json tc project_root mode source imports profile options file_identity =
     concat (map hex_byte
       (sha256 (cache_preimage mode_json tc project_root mode source imports profile options file_identity)))"

record cache_policy =
  cp_file_identity :: string
  cp_key :: string
  cp_max_entries :: nat
  cp_ttl_millis :: nat
  cp_max_bytes :: nat

text \<open>The policy of one request; the session key is given by its fields.\<close>

definition module_query_cache_policy ::
  "(string \<Rightarrow> byte list) \<Rightarrow> (host_session_mode \<Rightarrow> string) \<Rightarrow> toolchain_fingerprint \<Rightarrow> (string \<Rightarrow> string option)
     \<Rightarrow> session_config \<Rightarrow> string \<Rightarrow> elab_options \<Rightarrow> cache_policy" where
  "module_query_cache_policy sha256 mode_json tc vars session source options =
     \<lparr>cp_file_identity = eo_file_label options,
      cp_key = module_query_cache_key sha256 mode_json tc (sc_project_root session) (sc_mode session) source
        (sc_imports session) (sc_import_profile session) options (eo_file_label options),
      cp_max_entries = module_cache_env_u64 vars ''LEAN_RS_MODULE_CACHE_MAX_ENTRIES'' MODULE_CACHE_DEFAULT_MAX_ENTRIES,
      cp_ttl_millis = module_cache_env_u64 vars ''LEAN_RS_MODULE_CACHE_TTL_MILLIS'' MODULE_CACHE_DEFAULT_TTL_MILLIS,
      cp_max_bytes = module_cache_env_u64 vars ''LEAN_RS_MODULE_CACHE_MAX_BYTES'' MODULE_CACHE_DEFAULT_MAX_BYTES\<rparr>"

section \<open>Memory pressure\<close>

definition should_clear_for_rss_guard :: "nat \<Rightarrow> nat option \<Rightarrow> bool" where
  "should_clear_for_rss_guard guard_kib current_rss =
     (if guard_kib = 0 then False
      else (case current_rss of Some current_kib \<Rightarrow> guard_kib \<le> current_kib | None \<Rightarrow> False))"

record verification_facts =
  vf_target :: "json option"
  vf_diagnostics :: json
  vf_unresolved_goals :: "json list"
  vf_contains_sorry :: bool
  vf_contains_admit :: bool
  vf_contains_sorry_ax :: bool
  vf_axioms :: "string list"
  vf_axioms_truncated :: bool
  vf_output_truncated :: bool
  vf_candidates :: "json list"
  vf_axioms_available :: bool

datatype verification_result =
    VrOk verification_status verification_facts "string list"
  | VrMissingImports verification_status verification_facts "string list" "string list"
  | VrHeaderParseFailed json
  | VrUnsupported

record verification_row =
  vw_id :: string
  vw_target :: json
  vw_status :: verification_status
  vw_facts :: verification_facts

datatype verification_batch_result =
    VbOk "verification_row list" "string list"
  | VbMissingImports "verification_row list" "string list" "string list"
  | VbHeaderParseFailed json
  | VbUnsupported

definition verification_status_non_positive :: "verification_status \<Rightarrow> bool" where
  "verification_status_non_positive s \<longleftrightarrow> s \<in> {NotFound, NeedsBuild, Rejected, Ambiguous}"

definition clear_axioms :: "verification_facts \<Rightarrow> verification_facts" where
  "clear_axioms f = f\<lparr>vf_axioms := [], vf_axioms_available := False\<rparr>"

definition apply_memory_pressure_taint :: "verification_result \<Rightarrow> nat \<Rightarrow> nat option \<Rightarrow> verification_result" where
  "apply_memory_pressure_taint result ceiling_kib current_rss =
     (if ceiling_kib = 0 then result
      else (case current_rss of
              None \<Rightarrow> result
            | Some current_kib \<Rightarrow>
                (if current_kib < ceiling_kib then result
                 else (case result of
                         VrOk s f imports \<Rightarrow>
                           (if verification_status_non_positive s
                            then VrOk BudgetExceeded (clear_axioms f) imports else result)
                       | VrMissingImports s f imports missing \<Rightarrow>
                           (if verification_status_non_positive s
                            then VrMissingImports BudgetExceeded (clear_axioms f) imports missing else result)
                       | _ \<Rightarrow> result))))"

definition taint_row :: "verification_row \<Rightarrow> verification_row" where
  "taint_row row =
     (if verification_status_non_positive (vw_status row)
      then row\<lparr>vw_status := BudgetExceeded, vw_facts := clear_axioms (vw_facts row)\<rparr> else row)"

definition apply_batch_memory_pressure_taint ::
  "verification_batch_result \<Rightarrow> nat \<Rightarrow> nat option \<Rightarrow> verification_batch_result" where
  "apply_batch_memory_pressure_taint result ceiling_kib current_rss =
     (if ceiling_kib = 0 then result
      else (case current_rss of
              None \<Rightarrow> result
            | Some current_kib \<Rightarrow>
                (if current_kib < ceiling_kib then result
                 else (case result of
                         VbOk rows imports \<Rightarrow> VbOk (map taint_row rows) imports
                       | VbMissingImports rows imports missing \<Rightarrow> VbMissingImports (map taint_row rows) imports missing
                       | _ \<Rightarrow> result))))"

definition taint_verification_under_memory_pressure ::
  "(string \<Rightarrow> string option) \<Rightarrow> nat option \<Rightarrow> verification_result \<Rightarrow> verification_result" where
  "taint_verification_under_memory_pressure vars current_rss result =
     apply_memory_pressure_taint result (module_cache_env_u64 vars ''LEAN_RS_VERIFY_RSS_TAINT_KIB'' 0) current_rss"

definition taint_verification_batch_under_memory_pressure ::
  "(string \<Rightarrow> string option) \<Rightarrow> nat option \<Rightarrow> verification_batch_result \<Rightarrow> verification_batch_result" where
  "taint_verification_batch_under_memory_pressure vars current_rss result =
     apply_batch_memory_pressure_taint result (module_cache_env_u64 vars ''LEAN_RS_VERIFY_RSS_TAINT_KIB'' 0) current_rss"

section \<open>Bounded rendering\<close>

record rendered_info =
  ri_value :: string
  ri_truncated :: bool

function boundary_down :: "string \<Rightarrow> nat \<Rightarrow> nat" where
  "boundary_down s e = (if is_char_boundary s e then e else boundary_down s (e - 1))"
  by pat_completeness auto
termination
proof (relation "measure snd", goal_cases)
  case (2 s e)
  then have "e \<noteq> 0" by (auto simp: is_char_boundary_def)
  then show ?case by simp
qed simp

declare boundary_down.simps [simp del]

definition bound_rendered_info :: "string \<Rightarrow> nat \<Rightarrow> rendered_info" where
  "bound_rendered_info v max_bytes =
     (if length v \<le> max_bytes then \<lparr>ri_value = v, ri_truncated = False\<rparr>
      else \<lparr>ri_value = take (boundary_down v max_bytes) v, ri_truncated = True\<rparr>)"

section \<open>The preimage is a token list\<close>

definition sep :: "string list \<Rightarrow> string" where "sep ts = concat (map (\<lambda>t. t @ [nul]) ts)"

lemma sep_simps [simp]: "sep [] = []" "sep (t # ts) = t @ nul # sep ts" "sep (ts @ us) = sep ts @ sep us"
  by (simp_all add: sep_def)

lemma nul_split:
  "a @ nul # b = c @ nul # d \<Longrightarrow> nul \<notin> set a \<Longrightarrow> nul \<notin> set c \<Longrightarrow> a = c \<and> b = d"
  by (induction a arbitrary: c) (auto simp: Cons_eq_append_conv append_eq_Cons_conv)

lemma sep_inject: "sep ts = sep us \<Longrightarrow> \<forall>t \<in> set ts \<union> set us. nul \<notin> set t \<Longrightarrow> ts = us"
proof (induction ts arbitrary: us)
  case Nil
  then show ?case by (cases us) auto
next
  case (Cons t ts)
  then obtain u us' where us: "us = u # us'" by (cases us) auto
  from Cons.prems us have "t = u \<and> sep ts = sep us'" by (intro nul_split) auto
  with Cons us show ?case by auto
qed

lemma length_to_le_bytes [simp]: "length (to_le_bytes k n) = k"
  by (induction k n rule: to_le_bytes.induct) simp_all

lemma to_le_bytes_inject: "to_le_bytes k m = to_le_bytes k n \<Longrightarrow> m < 256 ^ k \<Longrightarrow> n < 256 ^ k \<Longrightarrow> m = n"
proof (induction k m arbitrary: n rule: to_le_bytes.induct)
  case (2 k m)
  from 2(2) have c: "char_of (m mod 256) = (char_of (n mod 256) :: char)" and r: "to_le_bytes k (m div 256) = to_le_bytes k (n div 256)"
    by simp_all
  from c have "(of_char (char_of (m mod 256) :: char) :: nat) = of_char (char_of (n mod 256) :: char)" by simp
  then have "m mod 256 = n mod 256" by simp
  moreover have "m div 256 = n div 256"
    using 2(3,4) by (intro 2(1) r) (auto simp: less_mult_imp_div_less mult.commute)
  ultimately show ?case by (metis div_mult_mod_eq)
qed simp

definition cache_tokens ::
  "(host_session_mode \<Rightarrow> string) \<Rightarrow> toolchain_fingerprint \<Rightarrow> string \<Rightarrow> host_session_mode \<Rightarrow> string \<Rightarrow> string list
     \<Rightarrow> import_profile \<Rightarrow> elab_options \<Rightarrow> string \<Rightarrow> string list" where
  "cache_tokens mode_json tc project_root mode source imports profile options file_identity =
     [MODULE_QUERY_CACHE_API_VERSION, ''project'', project_root, ''mode'', mode_json mode, ''file'', file_identity,
      ''source'', source, ''imports''] @ imports @
     ['''', ''import_profile'', profile_label profile, ''toolchain'', tf_lean_version tc, tf_resolved_version tc,
      tf_header_sha256 tc, tf_fixture_sha256 tc, tf_host_triple tc, ''options'', eo_namespace_context options,
      eo_file_label options]"

lemma cache_preimage_tokens:
  "cache_preimage mode_json tc project_root mode source imports profile options file_identity =
     sep (cache_tokens mode_json tc project_root mode source imports profile options file_identity) @
     to_le_bytes 8 (eo_heartbeat_limit options) @ to_le_bytes 8 (eo_diagnostic_byte_limit options)"
  unfolding cache_preimage_def cache_tokens_def tagged_def sep_simps by (simp add: sep_def)

lemma hex_digit_inject: "hex_digit m = hex_digit n \<Longrightarrow> m < 16 \<Longrightarrow> n < 16 \<Longrightarrow> m = n"
proof -
  have d: "distinct ''0123456789abcdef''" by simp
  assume "hex_digit m = hex_digit n" "m < 16" "n < 16"
  with d show "m = n" unfolding hex_digit_def by (subst (asm) nth_eq_iff_index_eq) simp_all
qed

lemma hex_byte_inject: "hex_byte a = hex_byte b \<Longrightarrow> a = b"
proof -
  assume h: "hex_byte a = hex_byte b"
  have lt: "unat x < 256" for x :: byte using unsigned_less [of x, where ?'a = nat] by simp
  have "unat a div 16 = unat b div 16" using h lt [of a] lt [of b]
    by (intro hex_digit_inject) (auto simp: hex_byte_def)
  moreover have "unat a mod 16 = unat b mod 16" using h by (intro hex_digit_inject) (auto simp: hex_byte_def)
  ultimately have "unat a = unat b" by (metis div_mult_mod_eq)
  then show "a = b" by (rule unsigned_word_eqI)
qed

lemma hex_inject: "concat (map hex_byte xs) = concat (map hex_byte ys) \<Longrightarrow> xs = ys"
proof (induction xs arbitrary: ys)
  case Nil
  then show ?case by (cases ys) (auto simp: hex_byte_def)
next
  case (Cons x xs)
  from Cons.prems obtain y ys' where ys: "ys = y # ys'" by (cases ys) (auto simp: hex_byte_def)
  have len: "length (hex_byte x) = length (hex_byte y)" by (simp add: hex_byte_def)
  from Cons.prems ys have "hex_byte x @ concat (map hex_byte xs) = hex_byte y @ concat (map hex_byte ys')" by simp
  with len have "hex_byte x = hex_byte y" "concat (map hex_byte xs) = concat (map hex_byte ys')" by simp_all
  with Cons.IH [of ys'] hex_byte_inject ys show ?case by blast
qed

lemma nul_literals [simp]:
  "nul \<notin> set MODULE_QUERY_CACHE_API_VERSION" "nul \<notin> set (profile_label profile)"
  by (cases profile; simp add: nul_def MODULE_QUERY_CACHE_API_VERSION_def)+

text \<open>Text without the NUL byte: paths and names, and sources that are Lean text.\<close>

definition clean_inputs ::
  "(host_session_mode \<Rightarrow> string) \<Rightarrow> toolchain_fingerprint \<Rightarrow> string \<Rightarrow> host_session_mode \<Rightarrow> string \<Rightarrow> string list
     \<Rightarrow> elab_options \<Rightarrow> bool" where
  "clean_inputs mode_json tc project_root mode source imports options \<longleftrightarrow>
     nul \<notin> set project_root \<and> nul \<notin> set (mode_json mode) \<and> nul \<notin> set source \<and> (\<forall>i \<in> set imports. nul \<notin> set i) \<and>
     nul \<notin> set (eo_namespace_context options) \<and> nul \<notin> set (eo_file_label options) \<and>
     nul \<notin> set (tf_lean_version tc) \<and> nul \<notin> set (tf_resolved_version tc) \<and> nul \<notin> set (tf_header_sha256 tc) \<and>
     nul \<notin> set (tf_fixture_sha256 tc) \<and> nul \<notin> set (tf_host_triple tc) \<and>
     eo_heartbeat_limit options < 2 ^ 64 \<and> eo_diagnostic_byte_limit options < 2 ^ 64"

lemma tokens_clean:
  "clean_inputs mode_json tc root mode source imports options \<Longrightarrow>
     \<forall>t \<in> set (cache_tokens mode_json tc root mode source imports profile options (eo_file_label options)). nul \<notin> set t"
  by (auto simp: clean_inputs_def cache_tokens_def) (simp_all add: nul_def)

lemma cache_preimage_inject:
  assumes "cache_preimage mj tc root mode source imports profile options (eo_file_label options) =
      cache_preimage mj tc root' mode' source' imports' profile' options' (eo_file_label options')"
    and "clean_inputs mj tc root mode source imports options"
    and "clean_inputs mj tc root' mode' source' imports' options'"
  shows "root = root' \<and> mj mode = mj mode' \<and> source = source' \<and> imports = imports' \<and>
    profile_label profile = profile_label profile' \<and> options = options'"
proof -
  let ?t = "cache_tokens mj tc root mode source imports profile options (eo_file_label options)"
  let ?t' = "cache_tokens mj tc root' mode' source' imports' profile' options' (eo_file_label options')"
  let ?s = "to_le_bytes 8 (eo_heartbeat_limit options) @ to_le_bytes 8 (eo_diagnostic_byte_limit options)"
  let ?s' = "to_le_bytes 8 (eo_heartbeat_limit options') @ to_le_bytes 8 (eo_diagnostic_byte_limit options')"
  have "sep ?t @ ?s = sep ?t' @ ?s'" using assms(1) unfolding cache_preimage_tokens .
  then have "sep ?t = sep ?t' \<and> ?s = ?s'" by (subst (asm) append_eq_append_conv) simp_all
  then have e: "sep ?t = sep ?t'" and s: "?s = ?s'" by blast+
  from s have "to_le_bytes 8 (eo_heartbeat_limit options) = to_le_bytes 8 (eo_heartbeat_limit options')"
    "to_le_bytes 8 (eo_diagnostic_byte_limit options) = to_le_bytes 8 (eo_diagnostic_byte_limit options')"
    by (simp_all del: to_le_bytes.simps add: append_eq_append_conv)
  moreover have "eo_heartbeat_limit options < 256 ^ 8" "eo_heartbeat_limit options' < 256 ^ 8"
    "eo_diagnostic_byte_limit options < 256 ^ 8" "eo_diagnostic_byte_limit options' < 256 ^ 8"
    using assms(2,3) by (simp_all add: clean_inputs_def)
  ultimately have n: "eo_heartbeat_limit options = eo_heartbeat_limit options'"
    "eo_diagnostic_byte_limit options = eo_diagnostic_byte_limit options'"
    using to_le_bytes_inject by blast+
  have "?t = ?t'" using tokens_clean [OF assms(2)] tokens_clean [OF assms(3)] by (intro sep_inject [OF e]) auto
  then have "root = root' \<and> mj mode = mj mode' \<and> source = source' \<and> imports = imports' \<and>
      profile_label profile = profile_label profile' \<and>
      eo_namespace_context options = eo_namespace_context options' \<and> eo_file_label options = eo_file_label options'"
    by (simp add: cache_tokens_def)
  with n show ?thesis by (auto intro: elab_options.equality)
qed

section \<open>Limits set by the builder reach the child\<close>

lemma child_var_env:
  assumes "name \<notin> {''LEAN_ABORT_ON_PANIC'', ''LEAN_BACKTRACE'', ''RUST_BACKTRACE'', SESSION_POOL_CAPACITY_ENV}"
  shows "child_var inherited cfg name =
    (case map_of (rev (cfg_env cfg)) name of Some v \<Rightarrow> Some v | None \<Rightarrow> inherited name)"
  using assms by (auto simp: child_var_def env_lookup_def command_env_def map_add_def split: option.splits)

lemma map_of_env_number:
  "map_of (rev (cfg_env (apply_opt (env_number k) x c))) name =
     (if name = k \<and> x \<noteq> None then map_option decimal x else map_of (rev (cfg_env c)) name)"
  by (cases x) (simp_all add: apply_opt_def env_number_def cfg_with_env_def)

lemma checked_config_env:
  "cfg_env (checked_config executable sysroot su) =
     cfg_env (apply_runtime_limits (su_num_threads su) (su_lean_max_memory_kib su)
       (apply_opt apply_module_cache_limits (su_module_cache_limits su)
         (cfg_with_env (config_new executable) ''LEAN_SYSROOT'' sysroot)))"
proof -
  have frame: "cfg_env (apply_opt f x c) = cfg_env c" if "\<And>v c. cfg_env (f v c) = cfg_env c"
    for f :: "'x \<Rightarrow> worker_config \<Rightarrow> worker_config" and x c
    using that by (simp add: apply_opt_def split: option.split)
  have run: "cfg_env (apply_runtime_limits n m c) = cfg_env (apply_runtime_limits n m c')"
    "cfg_env (apply_opt apply_module_cache_limits l c) = cfg_env (apply_opt apply_module_cache_limits l c')"
    if "cfg_env c = cfg_env c'" for n m l c c'
    using that by (auto simp: apply_runtime_limits_def apply_module_cache_limits_def apply_opt_def env_number_def
        cfg_with_env_def split: option.split)
  show ?thesis
    unfolding checked_config_def Let_def
    by (subst frame, simp add: max_frame_bytes_def)
      (intro run frame [THEN trans], auto simp: rss_hard_limit_def Worker_Core.session_pool_capacity_def
        intro!: frame frame [THEN trans])
qed

definition limits_in_range :: "module_cache_limits \<Rightarrow> bool" where
  "limits_in_range l \<longleftrightarrow>
     (\<forall>n. n \<in> set (List.map_filter id [ml_max_entries l, ml_ttl_millis l, ml_max_bytes l, ml_rss_guard_kib l,
        ml_verify_rss_taint_kib l]) \<longrightarrow> n \<le> u64_max)"

lemma module_cache_env_decimal:
  "vars name = Some (decimal n) \<Longrightarrow> n \<le> u64_max \<Longrightarrow> module_cache_env_u64 vars name d = n"
  by (simp add: module_cache_env_u64_def parse_unsigned_decimal)

text \<open>What the child reads of one limit: the value the builder set, or else what it would read without one.\<close>

definition child_limit :: "nat option \<Rightarrow> (string \<Rightarrow> string option) \<Rightarrow> string \<Rightarrow> nat \<Rightarrow> nat" where
  "child_limit x inherited name d = (case x of Some n \<Rightarrow> n | None \<Rightarrow> module_cache_env_u64 inherited name d)"

lemma child_reads_limit:
  assumes "child_var inherited cfg name = (case map_option decimal x of Some v \<Rightarrow> Some v | None \<Rightarrow> inherited name)"
    and "\<forall>n. x = Some n \<longrightarrow> n \<le> u64_max"
  shows "module_cache_env_u64 (child_var inherited cfg) name d = child_limit x inherited name d"
  using assms by (cases x) (simp_all add: child_limit_def module_cache_env_u64_def parse_unsigned_decimal)

lemma limits_in_rangeD:
  assumes "limits_in_range l"
  shows "ml_max_entries l = Some n \<Longrightarrow> n \<le> u64_max" "ml_ttl_millis l = Some n \<Longrightarrow> n \<le> u64_max"
    "ml_max_bytes l = Some n \<Longrightarrow> n \<le> u64_max" "ml_rss_guard_kib l = Some n \<Longrightarrow> n \<le> u64_max"
    "ml_verify_rss_taint_kib l = Some n \<Longrightarrow> n \<le> u64_max"
  using assms by (auto simp: limits_in_range_def List.map_filter_simps split: option.splits)

lemma checked_config_lookup:
  assumes "su_module_cache_limits su = Some l"
  shows "map_of (rev (cfg_env (checked_config executable sysroot su))) name =
    (if name = ''LEAN_RS_LEAN_MAX_MEMORY_KIB'' \<and> su_lean_max_memory_kib su \<noteq> None
       then map_option decimal (su_lean_max_memory_kib su)
     else if name = ''LEAN_RS_NUM_THREADS'' \<and> su_num_threads su \<noteq> None then map_option decimal (su_num_threads su)
     else if name = ''LEAN_RS_VERIFY_RSS_TAINT_KIB'' \<and> ml_verify_rss_taint_kib l \<noteq> None
       then map_option decimal (ml_verify_rss_taint_kib l)
     else if name = ''LEAN_RS_MODULE_CACHE_RSS_GUARD_KIB'' \<and> ml_rss_guard_kib l \<noteq> None
       then map_option decimal (ml_rss_guard_kib l)
     else if name = ''LEAN_RS_MODULE_CACHE_MAX_BYTES'' \<and> ml_max_bytes l \<noteq> None then map_option decimal (ml_max_bytes l)
     else if name = ''LEAN_RS_MODULE_CACHE_TTL_MILLIS'' \<and> ml_ttl_millis l \<noteq> None then map_option decimal (ml_ttl_millis l)
     else if name = ''LEAN_RS_MODULE_CACHE_MAX_ENTRIES'' \<and> ml_max_entries l \<noteq> None
       then map_option decimal (ml_max_entries l)
     else if name = ''LEAN_SYSROOT'' then Some sysroot else None)"
proof -
  have "apply_opt apply_module_cache_limits (su_module_cache_limits su) c = apply_module_cache_limits l c" for c
    by (simp add: assms apply_opt_def)
  then show ?thesis
    unfolding checked_config_env apply_runtime_limits_def apply_module_cache_limits_def
    by (simp add: map_of_env_number cfg_with_env_def config_new_def)
qed

lemma child_reads_builder_limit:
  assumes "name \<notin> {''LEAN_ABORT_ON_PANIC'', ''LEAN_BACKTRACE'', ''RUST_BACKTRACE'', SESSION_POOL_CAPACITY_ENV}"
    and "map_of (rev (cfg_env cfg)) name = map_option decimal x"
    and "\<And>n. x = Some n \<Longrightarrow> n \<le> u64_max"
  shows "module_cache_env_u64 (child_var inherited cfg) name d = child_limit x inherited name d"
  using assms by (intro child_reads_limit) (auto simp: child_var_env)

text \<open>Every limit the parent's builder sets is the limit the child uses: written as decimal text into the
  child's environment and parsed there, a set value is read back as itself, and an unset one leaves the
  inherited variable or the default in place. This holds for the four limits of the module snapshot cache, the
  memory-pressure ceiling and the Lean heap limit, whatever else the builder configures.\<close>

theorem module_cache_limits_reach_child:
  assumes "su_module_cache_limits su = Some l" and "limits_in_range l"
    and "\<And>n. su_lean_max_memory_kib su = Some n \<Longrightarrow> n \<le> u64_max"
  shows "let vars = child_var inherited (checked_config executable sysroot su);
             p = module_query_cache_policy sha256 mode_json tc vars session source options in
    cp_max_entries p = child_limit (ml_max_entries l) inherited ''LEAN_RS_MODULE_CACHE_MAX_ENTRIES'' 4 \<and>
    cp_ttl_millis p = child_limit (ml_ttl_millis l) inherited ''LEAN_RS_MODULE_CACHE_TTL_MILLIS'' 300000 \<and>
    cp_max_bytes p = child_limit (ml_max_bytes l) inherited ''LEAN_RS_MODULE_CACHE_MAX_BYTES'' (64 * 1024 * 1024) \<and>
    module_cache_env_u64 vars ''LEAN_RS_MODULE_CACHE_RSS_GUARD_KIB'' MODULE_CACHE_DEFAULT_RSS_GUARD_KIB =
      child_limit (ml_rss_guard_kib l) inherited ''LEAN_RS_MODULE_CACHE_RSS_GUARD_KIB'' (3 * 1024 * 1024) \<and>
    taint_verification_under_memory_pressure vars rss result =
      apply_memory_pressure_taint result
        (child_limit (ml_verify_rss_taint_kib l) inherited ''LEAN_RS_VERIFY_RSS_TAINT_KIB'' 0) rss \<and>
    (\<forall>n. su_lean_max_memory_kib su = Some n \<longrightarrow>
       lean_runtime_memory_limit vars = (if n = 0 then None else Some (min (n * 1024) u64_max)))"
proof -
  let ?c = "checked_config executable sysroot su"
  note look = checked_config_lookup [OF assms(1), of executable sysroot]
  note rng = limits_in_rangeD [OF assms(2)]
  have read: "module_cache_env_u64 (child_var inherited ?c) ''LEAN_RS_MODULE_CACHE_MAX_ENTRIES'' d =
        child_limit (ml_max_entries l) inherited ''LEAN_RS_MODULE_CACHE_MAX_ENTRIES'' d"
    "module_cache_env_u64 (child_var inherited ?c) ''LEAN_RS_MODULE_CACHE_TTL_MILLIS'' d =
        child_limit (ml_ttl_millis l) inherited ''LEAN_RS_MODULE_CACHE_TTL_MILLIS'' d"
    "module_cache_env_u64 (child_var inherited ?c) ''LEAN_RS_MODULE_CACHE_MAX_BYTES'' d =
        child_limit (ml_max_bytes l) inherited ''LEAN_RS_MODULE_CACHE_MAX_BYTES'' d"
    "module_cache_env_u64 (child_var inherited ?c) ''LEAN_RS_MODULE_CACHE_RSS_GUARD_KIB'' d =
        child_limit (ml_rss_guard_kib l) inherited ''LEAN_RS_MODULE_CACHE_RSS_GUARD_KIB'' d"
    "module_cache_env_u64 (child_var inherited ?c) ''LEAN_RS_VERIFY_RSS_TAINT_KIB'' d =
        child_limit (ml_verify_rss_taint_kib l) inherited ''LEAN_RS_VERIFY_RSS_TAINT_KIB'' d" for d
    by (rule child_reads_builder_limit; simp add: SESSION_POOL_CAPACITY_ENV_def look rng)+
  have mem: "module_cache_env_u64 (child_var inherited ?c) ''LEAN_RS_LEAN_MAX_MEMORY_KIB'' 0 =
      child_limit (su_lean_max_memory_kib su) inherited ''LEAN_RS_LEAN_MAX_MEMORY_KIB'' 0"
    by (rule child_reads_builder_limit) (simp_all add: SESSION_POOL_CAPACITY_ENV_def look assms(3))
  show ?thesis
    by (simp add: Let_def module_query_cache_policy_def taint_verification_under_memory_pressure_def
        lean_runtime_memory_limit_def sat_mul_def read mem MODULE_CACHE_DEFAULT_MAX_ENTRIES_def
        MODULE_CACHE_DEFAULT_TTL_MILLIS_def MODULE_CACHE_DEFAULT_MAX_BYTES_def MODULE_CACHE_DEFAULT_RSS_GUARD_KIB_def
        child_limit_def)
qed

text \<open>C20: Two queries of one child share a key of the module snapshot cache only when they ask the same question
  of the same environment: same project root, session mode, source text, imports in order, import profile and
  elaboration options. The texts contain no NUL byte, the wire encoding of a mode is injective, and the two
  preimages do not collide under the hash.\<close>

theorem cache_key_separates_environments:
  assumes "inj mode_json"
    and "clean_inputs mode_json tc (sc_project_root s) (sc_mode s) source (sc_imports s) options"
    and "clean_inputs mode_json tc (sc_project_root s') (sc_mode s') source' (sc_imports s') options'"
    and "let pre = (\<lambda>s source options. cache_preimage mode_json tc (sc_project_root s) (sc_mode s) source
           (sc_imports s) (sc_import_profile s) options (eo_file_label options))
         in sha256 (pre s source options) = sha256 (pre s' source' options') \<longrightarrow>
              pre s source options = pre s' source' options'"
  shows "cp_key (module_query_cache_policy sha256 mode_json tc vars s source options) =
           cp_key (module_query_cache_policy sha256 mode_json tc vars s' source' options') \<longleftrightarrow>
         sc_project_root s = sc_project_root s' \<and> sc_mode s = sc_mode s' \<and> source = source' \<and>
           sc_imports s = sc_imports s' \<and> sc_import_profile s = sc_import_profile s' \<and> options = options'"
    (is "?keys \<longleftrightarrow> ?same")
proof
  have profile: "p = q" if "profile_label p = profile_label q" for p q
    using that by (cases p; cases q) simp_all
  assume ?keys
  then have "sha256 (cache_preimage mode_json tc (sc_project_root s) (sc_mode s) source (sc_imports s)
        (sc_import_profile s) options (eo_file_label options)) =
      sha256 (cache_preimage mode_json tc (sc_project_root s') (sc_mode s') source' (sc_imports s')
        (sc_import_profile s') options' (eo_file_label options'))"
    by (simp add: module_query_cache_policy_def module_query_cache_key_def hex_inject)
  with assms(4) have "cache_preimage mode_json tc (sc_project_root s) (sc_mode s) source (sc_imports s)
        (sc_import_profile s) options (eo_file_label options) =
      cache_preimage mode_json tc (sc_project_root s') (sc_mode s') source' (sc_imports s')
        (sc_import_profile s') options' (eo_file_label options')"
    by (simp add: Let_def)
  from cache_preimage_inject [OF this assms(2,3)] show ?same
    using profile injD [OF assms(1)] by blast
qed (simp add: module_query_cache_policy_def)

section \<open>The taint\<close>

fun result_status :: "verification_result \<Rightarrow> verification_status option" where
  "result_status (VrOk s f i) = Some s"
| "result_status (VrMissingImports s f i m) = Some s"
| "result_status _ = None"

definition memory_pressure :: "nat \<Rightarrow> nat option \<Rightarrow> bool" where
  "memory_pressure ceiling_kib current_rss \<longleftrightarrow> ceiling_kib \<noteq> 0 \<and> (\<exists>k. current_rss = Some k \<and> ceiling_kib \<le> k)"

definition relabel :: "verification_result \<Rightarrow> verification_result" where
  "relabel r = (case r of VrOk s f i \<Rightarrow> if verification_status_non_positive s then VrOk BudgetExceeded (clear_axioms f) i else r
     | VrMissingImports s f i m \<Rightarrow>
         if verification_status_non_positive s then VrMissingImports BudgetExceeded (clear_axioms f) i m else r
     | _ \<Rightarrow> r)"

lemma taint_is_relabel:
  "apply_memory_pressure_taint r c rss = (if memory_pressure c rss then relabel r else r)"
  by (auto simp: apply_memory_pressure_taint_def memory_pressure_def relabel_def split: option.splits verification_result.splits)

lemma batch_taint_maps_rows:
  "apply_batch_memory_pressure_taint b c rss =
     (if memory_pressure c rss
      then (case b of VbOk rows i \<Rightarrow> VbOk (map taint_row rows) i
              | VbMissingImports rows i m \<Rightarrow> VbMissingImports (map taint_row rows) i m | _ \<Rightarrow> b)
      else b)"
  by (auto simp: apply_batch_memory_pressure_taint_def memory_pressure_def split: option.splits)

lemma relabel_status:
  "result_status (relabel r) =
     map_option (\<lambda>s. if verification_status_non_positive s then BudgetExceeded else s) (result_status r)"
  by (cases r) (simp_all add: relabel_def)

lemma budget_not_non_positive [simp]: "\<not> verification_status_non_positive BudgetExceeded"
  by (simp add: verification_status_non_positive_def)

lemma accepted_not_non_positive [simp]: "\<not> verification_status_non_positive Accepted"
  by (simp add: verification_status_non_positive_def)

lemma relabel_accepted: "result_status (relabel r) = Some Accepted \<longleftrightarrow> result_status r = Some Accepted"
  by (cases r) (auto simp: relabel_def verification_status_non_positive_def)

lemma relabel_idem: "relabel (relabel r) = relabel r"
  by (cases r) (simp_all add: relabel_def)

lemma relabel_unaffected:
  "(\<And>s. result_status r = Some s \<Longrightarrow> \<not> verification_status_non_positive s) \<Longrightarrow> relabel r = r"
  by (cases r) (simp_all add: relabel_def)

lemma relabel_row:
  "relabel (VrOk (vw_status row) (vw_facts row) imports) =
     VrOk (vw_status (taint_row row)) (vw_facts (taint_row row)) imports"
  by (simp add: relabel_def taint_row_def)


text \<open>The wire type documents \<open>candidates\<close> as empty unless the verdict is \<open>Ambiguous\<close>; a tainted
  \<open>Ambiguous\<close> verdict keeps its candidates under the label \<open>BudgetExceeded\<close>.\<close>

lemma tainted_ambiguity_keeps_candidates:
  "memory_pressure ceiling rss \<Longrightarrow> apply_memory_pressure_taint (VrOk Ambiguous f imports) ceiling rss =
     VrOk BudgetExceeded (clear_axioms f) imports \<and> vf_candidates (clear_axioms f) = vf_candidates f"
  by (simp add: taint_is_relabel relabel_def verification_status_non_positive_def clear_axioms_def)

section \<open>Rendering stays within its bound\<close>

lemma boundary_down_floor: "boundary_down s e = floor_boundary s e"
proof (induction e)
  case 0
  show ?case by (subst boundary_down.simps) (simp add: is_char_boundary_def)
next
  case (Suc e)
  then show ?case by (subst boundary_down.simps) simp
qed

lemma bound_rendered_info_prefix:
  "\<exists>rest. v = ri_value (bound_rendered_info v n) @ rest \<and> length (ri_value (bound_rendered_info v n)) \<le> n \<and>
     is_char_boundary v (length (ri_value (bound_rendered_info v n)))"
proof (cases "length v \<le> n")
  case True
  then show ?thesis by (simp add: bound_rendered_info_def is_char_boundary_def)
next
  case False
  let ?k = "boundary_down v n"
  have k: "?k \<le> n" "is_char_boundary v ?k"
    by (simp_all add: boundary_down_floor floor_boundary_le floor_boundary_boundary)
  with False show ?thesis
    by (intro exI [of _ "drop ?k v"]) (simp add: bound_rendered_info_def min_def)
qed

section \<open>Instances\<close>

definition demo_limits :: module_cache_limits where
  "demo_limits = limit_max_entries 0 (limit_verify_rss_taint_kib 7 limits_default)"

definition demo_options :: elab_options where
  "demo_options = \<lparr>eo_namespace_context = ''Foo'', eo_file_label = ''A.lean'', eo_heartbeat_limit = 5, eo_diagnostic_byte_limit = 6\<rparr>"

definition demo_toolchain :: toolchain_fingerprint where
  "demo_toolchain = \<lparr>tf_lean_version = ''4.1'', tf_resolved_version = ''4.1'', tf_header_sha256 = ''aa'',
     tf_fixture_sha256 = ''bb'', tf_host_triple = ''x86''\<rparr>"

definition demo_query_session :: session_config where
  "demo_query_session = \<lparr>sc_project_root = ''/p'', sc_mode = ModeShimsOnly, sc_imports = [''Init''],
     sc_import_profile = Private\<rparr>"

text \<open>An injective encoding of modes, and a hash without collisions.\<close>

definition quoted_text :: "string \<Rightarrow> string" where "quoted_text s = concat (map (\<lambda>c. [CHR ''.'', c]) s) @ '';''"

fun demo_mode_json :: "host_session_mode \<Rightarrow> string" where
  "demo_mode_json ModeShimsOnly = ''0''"
| "demo_mode_json (ModeCapability p l m) =
     quoted_text p @ quoted_text l @ (case m of None \<Rightarrow> ''0'' | Some x \<Rightarrow> quoted_text x)"

definition demo_hash :: "string \<Rightarrow> byte list" where "demo_hash s = map (\<lambda>c. of_nat (of_char c)) s"

lemma quoted_text_inject: "quoted_text s @ x = quoted_text t @ y \<Longrightarrow> s = t \<and> x = y"
proof (induction s arbitrary: t)
  case Nil
  then show ?case by (cases t) (simp_all add: quoted_text_def)
next
  case (Cons c s)
  then obtain d t' where "t = d # t'" by (cases t) (simp_all add: quoted_text_def)
  with Cons show ?case by (simp add: quoted_text_def)
qed

lemma quoted_text_starts: "hd (quoted_text s @ x) \<noteq> CHR ''0''" "quoted_text s \<noteq> []"
  by (cases s; simp add: quoted_text_def)+

lemma demo_mode_json_inj: "inj demo_mode_json"
proof (rule injI)
  fix a b assume e: "demo_mode_json a = demo_mode_json b"
  have no: "quoted_text p @ r \<noteq> ''0''" for p r using quoted_text_starts(1) [of p r] by auto
  have opt: "m = m'" if o: "(case m of None \<Rightarrow> ''0'' | Some x \<Rightarrow> quoted_text x) = (case m' of None \<Rightarrow> ''0'' | Some x \<Rightarrow> quoted_text x)"
    for m m'
  proof (cases m; cases m')
    fix x y assume "m = Some x" "m' = Some y"
    with o quoted_text_inject [of x "[]" y "[]"] show ?thesis by simp
  qed (use o no [of _ "[]"] no [of _ "[]", symmetric] in auto)
  show "a = b"
  proof (cases a; cases b)
    fix p l m p' l' m' assume ab: "a = ModeCapability p l m" "b = ModeCapability p' l' m'"
    with e have q: "quoted_text p @ quoted_text l @ (case m of None \<Rightarrow> ''0'' | Some x \<Rightarrow> quoted_text x) =
        quoted_text p' @ quoted_text l' @ (case m' of None \<Rightarrow> ''0'' | Some x \<Rightarrow> quoted_text x)" by simp
    from quoted_text_inject [OF q] have "p = p'" and q': "quoted_text l @ (case m of None \<Rightarrow> ''0'' | Some x \<Rightarrow> quoted_text x) =
        quoted_text l' @ (case m' of None \<Rightarrow> ''0'' | Some x \<Rightarrow> quoted_text x)" by blast+
    from quoted_text_inject [OF q'] opt ab \<open>p = p'\<close> show ?thesis by blast
  qed (use e no no [symmetric] in auto)
qed

lemma demo_hash_inject: "demo_hash s = demo_hash t \<Longrightarrow> s = t"
proof -
  have "inj (\<lambda>c. of_nat (of_char c) :: byte)"
  proof (rule injI)
    fix c d :: char
    assume "(of_nat (of_char c) :: byte) = of_nat (of_char d)"
    then have "unat (of_nat (of_char c) :: byte) = unat (of_nat (of_char d) :: byte)" by simp
    then have "(of_char c :: nat) mod 256 = of_char d mod 256" by (simp add: unsigned_of_nat take_bit_eq_mod)
    then show "c = d" by (simp add: of_char_eq_iff)
  qed
  then show "demo_hash s = demo_hash t \<Longrightarrow> s = t" unfolding demo_hash_def by (rule map_injective [rotated])
qed

theorem cache_key_separates_environments_witness:
  "cp_key (module_query_cache_policy demo_hash demo_mode_json demo_toolchain (\<lambda>_. None) demo_query_session ''x'' demo_options) \<noteq>
   cp_key (module_query_cache_policy demo_hash demo_mode_json demo_toolchain (\<lambda>_. None)
      (demo_query_session\<lparr>sc_import_profile := Server\<rparr>) ''x'' demo_options)"
proof -
  let ?s = "demo_query_session\<lparr>sc_import_profile := Server\<rparr>"
  have c: "clean_inputs demo_mode_json demo_toolchain (sc_project_root s) (sc_mode s) ''x'' (sc_imports s) demo_options"
    if "s = demo_query_session \<or> s = ?s" for s
    using that by (auto simp: clean_inputs_def demo_toolchain_def demo_query_session_def demo_options_def nul_def)
  show ?thesis
    by (subst cache_key_separates_environments [OF demo_mode_json_inj c c])
      (auto simp: Let_def demo_query_session_def dest: demo_hash_inject)
qed

theorem module_cache_limits_reach_child_witness:
  "let vars = child_var (\<lambda>_. None) (checked_config ''/bin/worker'' ''/lean''
         (setup_default\<lparr>su_module_cache_limits := Some demo_limits, su_num_threads := Some 2\<rparr>));
       p = module_query_cache_policy (\<lambda>_. []) (\<lambda>_. '''') demo_toolchain vars demo_query_session ''x'' demo_options in
    cp_max_entries p = 1 \<and> cp_ttl_millis p = 300000"
proof -
  let ?su = "setup_default\<lparr>su_module_cache_limits := Some demo_limits, su_num_threads := Some 2\<rparr>"
  have l: "su_module_cache_limits ?su = Some demo_limits" by simp
  have r: "limits_in_range demo_limits"
    by (auto simp: limits_in_range_def demo_limits_def limit_max_entries_def limit_verify_rss_taint_kib_def
        limits_default_def List.map_filter_simps u64_max_def)
  have m: "su_lean_max_memory_kib ?su = Some n \<Longrightarrow> n \<le> u64_max" for n by (simp add: setup_default_def)
  show ?thesis
    using module_cache_limits_reach_child [OF l r m, where inherited = "\<lambda>_. None" and executable = "''/bin/worker''"
        and sysroot = "''/lean''" and ?sha256.0 = "\<lambda>_. []" and mode_json = "\<lambda>_. ''''" and tc = demo_toolchain
        and session = demo_query_session and source = "''x''" and options = demo_options]
    by (simp add: Let_def demo_limits_def limit_max_entries_def limit_verify_rss_taint_kib_def limits_default_def
        child_limit_def module_cache_env_u64_def)
qed

definition demo_facts :: verification_facts where
  "demo_facts = \<lparr>vf_target = None, vf_diagnostics = '''', vf_unresolved_goals = [], vf_contains_sorry = False,
     vf_contains_admit = False, vf_contains_sorry_ax = False, vf_axioms = [''propext''], vf_axioms_truncated = False,
     vf_output_truncated = False, vf_candidates = [], vf_axioms_available = True\<rparr>"


end
