(* ===== verification/Child_Serve.thy ===== *)
theory Child_Serve
  imports Lean_Error Callback_Status Child_Sessions Child_Queries
begin

text \<open>
  The child's side of the protocol (\<open>serve_stdio\<close> and \<open>HostSessionState\<close> of \<open>child.rs\<close>): reading
  requests, running them on the current session, streaming rows, progress and diagnostics while
  they run, and answering each with one response.

  What lies behind the child is a \<open>child_env\<close>: the JSON codec, the process environment, and the
  answers of Lean, each call given its number in the child's life, so that two calls with the same
  arguments may answer differently.
\<close>

section \<open>Payloads\<close>

record elab_failure =
  ef_diagnostics :: "json list"
  ef_truncated :: bool

record elab_result =
  er_success :: bool
  er_diagnostics :: "json list"
  er_truncated :: bool

datatype kernel_status = KernelChecked | KernelRejected | KernelUnavailable | KernelUnsupported

record kernel_summary =
  ks_declaration_name :: string
  ks_kind :: string
  ks_type_signature :: string

record kernel_result =
  kr_status :: kernel_status
  kr_diagnostics :: "json list"
  kr_truncated :: bool
  kr_summary :: "kernel_summary option"

datatype 'a meta_result = MetaOk 'a | MetaFailed elab_failure | MetaTimeout elab_failure | MetaUnsupported elab_failure

datatype rendering = Pretty | Raw

record rendered =
  rn_value :: string
  rn_rendering :: rendering

record declaration_row =
  dw_name :: string
  dw_kind :: string
  dw_type_signature :: "string option"
  dw_source :: "json option"

record declaration_type_row =
  dt_name :: string
  dt_kind :: string
  dt_type_signature :: "rendered_info option"
  dt_source :: "json option"

fun protocol_error_text :: "(io_kind \<Rightarrow> string) \<Rightarrow> protocol_error \<Rightarrow> string" where
  "protocol_error_text io_text (PIo k) = ''worker protocol I/O failed: '' @ io_text k"
| "protocol_error_text io_text (PJson e) = ''worker protocol JSON decode failed: '' @ e"
| "protocol_error_text io_text (FrameTooLarge len max_bytes) =
     ''worker protocol frame too large: '' @ decimal len @ '' bytes exceeds '' @ decimal max_bytes"
| "protocol_error_text io_text (VersionMismatch expected actual) =
     ''worker protocol version mismatch: expected '' @ decimal expected @ '', received '' @ decimal actual"

text \<open>What the child keeps of an error of \<open>lean-rs\<close>: its code and its rendering.\<close>

definition projected_error :: "lean_rs_error \<Rightarrow> lean_error" where
  "projected_error e = \<lparr>le_code = code_as_str (lean_error_code e), le_message = error_text e\<rparr>"

definition host_internal :: "string \<Rightarrow> lean_error" where
  "host_internal msg = projected_error (internal_error msg)"

text \<open>A kernel check's evidence and an elaborated expression are handles of the session.\<close>

type_synonym expr = nat

datatype kernel_outcome =
    Checked nat
  | KRejected elab_failure
  | KUnavailable elab_failure
  | KUnsupported elab_failure

section \<open>What the row callback accepts\<close>

record row_callback_diagnostic =
  rd_code :: "string option"
  rd_message :: "string option"

record row_callback_progress =
  rp_phase :: "string option"
  rp_current :: nat
  rp_total :: "nat option"

record row_callback_envelope =
  re_stream :: "string option"
  re_payload :: "json option"
  re_diagnostic :: "row_callback_diagnostic option"
  re_progress :: "row_callback_progress option"
  re_metadata :: "json option"

datatype stream_callback_event =
    EvRow string json
  | EvDiagnostic diagnostic
  | EvProgress progress_tick
  | EvMetadata json

datatype stream_callback_error = CbMalformed string | CbWrite string

text \<open>\<open>Option::filter(|value| !value.is_empty())\<close>.\<close>

definition non_empty :: "string option \<Rightarrow> string option" where
  "non_empty x = (case x of Some v \<Rightarrow> if v = [] then None else Some v | None \<Rightarrow> None)"

definition parse_row_envelope ::
  "(string \<Rightarrow> string + row_callback_envelope) \<Rightarrow> (json \<Rightarrow> string + json) \<Rightarrow> string \<Rightarrow> string + stream_callback_event" where
  "parse_row_envelope envelope_of value_of raw =
     (case envelope_of raw of
        Inl err \<Rightarrow> Inl (''row callback payload is not valid JSON: '' @ err)
      | Inr envelope \<Rightarrow>
          (case re_diagnostic envelope of
             Some d \<Rightarrow>
               (case non_empty (rd_code d) of
                  None \<Rightarrow> Inl ''diagnostic callback payload must contain a non-empty string field `code`''
                | Some code \<Rightarrow>
                    (case rd_message d of
                       None \<Rightarrow> Inl ''diagnostic callback payload must contain a string field `message`''
                     | Some msg \<Rightarrow> Inr (EvDiagnostic \<lparr>dg_code = code, dg_message = msg\<rparr>)))
           | None \<Rightarrow>
               (case re_progress envelope of
                  Some p \<Rightarrow>
                    (case non_empty (rp_phase p) of
                       None \<Rightarrow> Inl ''progress callback payload must contain a non-empty string field `phase`''
                     | Some phase \<Rightarrow>
                         Inr (EvProgress \<lparr>pt_phase = phase, pt_current = rp_current p, pt_total = rp_total p\<rparr>))
                | None \<Rightarrow>
                    (case re_metadata envelope of
                       Some m \<Rightarrow>
                         (case value_of m of
                            Inl err \<Rightarrow> Inl (''metadata callback payload is not valid JSON: '' @ err)
                          | Inr v \<Rightarrow> Inr (EvMetadata v))
                     | None \<Rightarrow>
                         (case non_empty (re_stream envelope) of
                            None \<Rightarrow> Inl ''row callback payload must contain a non-empty string field `stream`''
                          | Some stream \<Rightarrow>
                              (case re_payload envelope of
                                 None \<Rightarrow> Inl ''row callback payload must contain field `payload`''
                               | Some payload \<Rightarrow> Inr (EvRow stream payload)))))))"

section \<open>The child\<close>

datatype export_operation = OpMetadata | OpDoctor | OpJsonCommand | OpStreamingCommand | OpFixtureMul | OpFixturePanic

text \<open>A streaming export: the payloads it hands to the callback, and what it returns, which may depend on
  whether some call told it to stop.\<close>

record stream_export =
  sx_events :: "string list"
  sx_outcome :: "bool \<Rightarrow> lean_error + nat"

record child_env =
  ce_encode :: "frame \<Rightarrow> string + byte list"
  ce_vars :: "string \<Rightarrow> string option"
  ce_rss :: "nat \<Rightarrow> nat option"
  ce_elapsed :: "nat \<Rightarrow> nat"
  ce_capacity :: nat
  ce_sha256 :: "string \<Rightarrow> byte list"
  ce_mode_json :: "host_session_mode \<Rightarrow> string"
  ce_toolchain :: toolchain_fingerprint
  ce_options :: "json \<Rightarrow> elab_options"
  ce_envelope :: "string \<Rightarrow> string + row_callback_envelope"
  ce_value :: "json \<Rightarrow> string + json"
  ce_metadata :: "string \<Rightarrow> string + json"
  ce_doctor :: "string \<Rightarrow> string + json"
  ce_string_json :: "string \<Rightarrow> json"
  ce_test_row_json :: "string \<Rightarrow> nat \<Rightarrow> json"
  ce_elab_json :: "elab_result \<Rightarrow> json"
  ce_kernel_json :: "kernel_result \<Rightarrow> json"
  ce_meta_expr_json :: "rendered meta_result \<Rightarrow> json"
  ce_meta_bool_json :: "bool meta_result \<Rightarrow> json"
  ce_row_json :: "declaration_row \<Rightarrow> json"
  ce_type_json :: "declaration_type_row \<Rightarrow> json"
  ce_verification_json :: "verification_result \<Rightarrow> json"
  ce_verification_batch_json :: "verification_batch_result \<Rightarrow> json"
  ce_io_text :: "io_kind \<Rightarrow> string"
  la_elaborate :: "nat \<Rightarrow> nat \<Rightarrow> string \<Rightarrow> json \<Rightarrow> lean_error + (elab_failure + expr)"
  la_kernel_check :: "nat \<Rightarrow> nat \<Rightarrow> string \<Rightarrow> json \<Rightarrow> lean_error + kernel_outcome"
  la_summarize_evidence :: "nat \<Rightarrow> nat \<Rightarrow> nat \<Rightarrow> lean_error + kernel_summary"
  la_infer_type :: "nat \<Rightarrow> nat \<Rightarrow> expr \<Rightarrow> json \<Rightarrow> lean_error + expr meta_result"
  la_whnf :: "nat \<Rightarrow> nat \<Rightarrow> expr \<Rightarrow> json \<Rightarrow> lean_error + expr meta_result"
  la_is_def_eq :: "nat \<Rightarrow> nat \<Rightarrow> expr \<Rightarrow> expr \<Rightarrow> json \<Rightarrow> json \<Rightarrow> lean_error + bool meta_result"
  la_pp_expr :: "nat \<Rightarrow> nat \<Rightarrow> expr \<Rightarrow> json \<Rightarrow> lean_error + string meta_result"
  la_expr_to_string_raw :: "nat \<Rightarrow> nat \<Rightarrow> expr \<Rightarrow> lean_error + string"
  la_declaration_kind :: "nat \<Rightarrow> nat \<Rightarrow> string \<Rightarrow> lean_error + string"
  la_declaration_name :: "nat \<Rightarrow> nat \<Rightarrow> string \<Rightarrow> lean_error + string"
  la_declaration_kind_bulk :: "nat \<Rightarrow> nat \<Rightarrow> string list \<Rightarrow> lean_error + string list"
  la_declaration_name_bulk :: "nat \<Rightarrow> nat \<Rightarrow> string list \<Rightarrow> lean_error + string list"
  la_declaration_type :: "nat \<Rightarrow> nat \<Rightarrow> string \<Rightarrow> lean_error + expr option"
  la_declaration_type_bulk :: "nat \<Rightarrow> nat \<Rightarrow> string list \<Rightarrow> lean_error + expr option list"
  la_declaration_source_range :: "nat \<Rightarrow> nat \<Rightarrow> string \<Rightarrow> lean_error + json option"
  la_list_declarations_strings :: "nat \<Rightarrow> nat \<Rightarrow> json \<Rightarrow> lean_error + string list"
  la_search_declarations :: "nat \<Rightarrow> nat \<Rightarrow> json \<Rightarrow> lean_error + json"
  la_inspect_declaration :: "nat \<Rightarrow> nat \<Rightarrow> json \<Rightarrow> lean_error + json"
  la_attempt_proof :: "nat \<Rightarrow> nat \<Rightarrow> json \<Rightarrow> json \<Rightarrow> lean_error + json"
  la_verify_declaration :: "nat \<Rightarrow> nat \<Rightarrow> json \<Rightarrow> json \<Rightarrow> lean_error + verification_result"
  la_verify_declaration_batch :: "nat \<Rightarrow> nat \<Rightarrow> json \<Rightarrow> json \<Rightarrow> lean_error + verification_batch_result"
  la_process_module_query :: "nat \<Rightarrow> nat \<Rightarrow> string \<Rightarrow> json \<Rightarrow> json \<Rightarrow> lean_error + json"
  la_module_query_batch_cached ::
    "nat \<Rightarrow> nat \<Rightarrow> string \<Rightarrow> json list \<Rightarrow> json \<Rightarrow> json \<Rightarrow> cache_policy \<Rightarrow> lean_error + json option"
  la_module_query_batch :: "nat \<Rightarrow> nat \<Rightarrow> string \<Rightarrow> json list \<Rightarrow> json \<Rightarrow> json \<Rightarrow> lean_error + json"
  la_selectors_host :: "json list \<Rightarrow> lean_error option"
  la_clear_result_json :: "nat \<Rightarrow> json"
  la_checked_export :: "nat \<Rightarrow> export_operation \<Rightarrow> string \<Rightarrow> string option"
  la_string_io :: "nat \<Rightarrow> string \<Rightarrow> string \<Rightarrow> lean_error + string"
  la_stream :: "nat \<Rightarrow> string \<Rightarrow> string \<Rightarrow> stream_export"
  la_register_callback :: "nat \<Rightarrow> lean_error option"
  la_fixture_mul :: "nat \<Rightarrow> nat \<Rightarrow> nat \<Rightarrow> lean_error + nat"
  la_fixture_panic :: "nat \<Rightarrow> lean_error option"

text \<open>What the child keeps: the writer over its standard output with the agreed frame limit, its
  sessions, Lean's process-global state, and the number of calls it has made.\<close>

record serve =
  sv_writer :: writer
  sv_max_frame_bytes :: nat
  sv_sessions :: child_sessions
  sv_rt :: lean_rt
  sv_calls :: nat

section \<open>Calls\<close>

type_synonym ('e, 'a) call = "serve \<Rightarrow> ('e + 'a) \<times> serve"

text \<open>The \<open>?\<close> operator, \<open>Ok\<close> and \<open>Err\<close>.\<close>

definition call_bind :: "('e, 'a) call \<Rightarrow> ('a \<Rightarrow> ('e, 'b) call) \<Rightarrow> ('e, 'b) call" where
  "call_bind m f st = (case m st of (Inl e, st1) \<Rightarrow> (Inl e, st1) | (Inr x, st1) \<Rightarrow> f x st1)"

definition call_ok :: "'a \<Rightarrow> ('e, 'a) call" where "call_ok x st = (Inr x, st)"

definition call_err :: "'e \<Rightarrow> ('e, 'a) call" where "call_err e st = (Inl e, st)"

definition map_err :: "('e \<Rightarrow> 'f) \<Rightarrow> ('e, 'a) call \<Rightarrow> ('f, 'a) call" where
  "map_err f m st = (case m st of (Inl e, st1) \<Rightarrow> (Inl (f e), st1) | (Inr x, st1) \<Rightarrow> (Inr x, st1))"

definition lean_call :: "(nat \<Rightarrow> 'e + 'a) \<Rightarrow> ('e, 'a) call" where
  "lean_call f st = (f (sv_calls st), st\<lparr>sv_calls := Suc (sv_calls st)\<rparr>)"

section \<open>Writing frames\<close>

definition protocol_write :: "child_env \<Rightarrow> message \<Rightarrow> (protocol_error, unit) call" where
  "protocol_write ce m st =
     (case write_frame (ce_encode ce) (sv_writer st) m (sv_max_frame_bytes st) of
        (r, w) \<Rightarrow> (r, st\<lparr>sv_writer := w\<rparr>))"

definition output_frame_too_large :: "nat \<Rightarrow> nat \<Rightarrow> response" where
  "output_frame_too_large len max_bytes =
     RError ''lean_rs.worker.output_frame_too_large''
       (''worker response frame too large: '' @ decimal len @ '' bytes exceeds '' @ decimal max_bytes)"

definition write_response :: "child_env \<Rightarrow> response \<Rightarrow> (protocol_error, unit) call" where
  "write_response ce response st =
     (case protocol_write ce (MResponse response) st of
        (Inr _, st1) \<Rightarrow> (Inr (), st1)
      | (Inl err, st1) \<Rightarrow>
          (case err of
             FrameTooLarge len max_bytes \<Rightarrow> protocol_write ce (MResponse (output_frame_too_large len max_bytes)) st1
           | _ \<Rightarrow> (Inl err, st1)))"

text \<open>\<open>emit_progress\<close> drops the result of its write.\<close>

definition emit_progress :: "child_env \<Rightarrow> string \<Rightarrow> nat \<Rightarrow> nat option \<Rightarrow> ('e, unit) call" where
  "emit_progress ce phase current tot st =
     (case protocol_write ce (MProgressTick \<lparr>pt_phase = phase, pt_current = current, pt_total = tot\<rparr>) st of
        (_, st1) \<Rightarrow> (Inr (), st1))"

definition emit_progress_if :: "bool \<Rightarrow> child_env \<Rightarrow> string \<Rightarrow> nat \<Rightarrow> nat option \<Rightarrow> ('e, unit) call" where
  "emit_progress_if progress ce phase current tot = (if progress then emit_progress ce phase current tot else call_ok ())"

section \<open>Session operations\<close>

type_synonym 'a host_call = "(lean_error, 'a) call"

definition elab_failure_outcome :: "elab_failure \<Rightarrow> elab_result" where
  "elab_failure_outcome f = \<lparr>er_success = False, er_diagnostics = ef_diagnostics f, er_truncated = ef_truncated f\<rparr>"

definition elaborate_expr :: "child_env \<Rightarrow> host_session \<Rightarrow> string \<Rightarrow> json \<Rightarrow> (elab_failure + expr) host_call" where
  "elaborate_expr ce s source options = lean_call (\<lambda>n. la_elaborate ce n (hs_environment s) source options)"

definition elaborate :: "child_env \<Rightarrow> host_session \<Rightarrow> string \<Rightarrow> json \<Rightarrow> elab_result host_call" where
  "elaborate ce s source options =
     call_bind (elaborate_expr ce s source options)
       (\<lambda>outcome. call_ok (case outcome of
            Inr _ \<Rightarrow> \<lparr>er_success = True, er_diagnostics = [], er_truncated = False\<rparr>
          | Inl failure \<Rightarrow> elab_failure_outcome failure))"

definition kernel_failure_outcome :: "kernel_status \<Rightarrow> elab_failure \<Rightarrow> kernel_result" where
  "kernel_failure_outcome st f =
     \<lparr>kr_status = st, kr_diagnostics = ef_diagnostics f, kr_truncated = ef_truncated f, kr_summary = None\<rparr>"

definition kernel_check :: "child_env \<Rightarrow> host_session \<Rightarrow> string \<Rightarrow> json \<Rightarrow> bool \<Rightarrow> kernel_result host_call" where
  "kernel_check ce s source options progress =
     call_bind (emit_progress_if progress ce ''kernel_check'' 0 (Some 1)) (\<lambda>_.
     call_bind (lean_call (\<lambda>n. la_kernel_check ce n (hs_environment s) source options)) (\<lambda>outcome.
     call_bind (emit_progress_if progress ce ''kernel_check'' 1 (Some 1)) (\<lambda>_.
       case outcome of
         Checked evidence \<Rightarrow>
           call_bind (lean_call (\<lambda>n. la_summarize_evidence ce n (hs_environment s) evidence)) (\<lambda>summary.
             call_ok \<lparr>kr_status = KernelChecked, kr_diagnostics = [], kr_truncated = False, kr_summary = Some summary\<rparr>)
       | KRejected f \<Rightarrow> call_ok (kernel_failure_outcome KernelRejected f)
       | KUnavailable f \<Rightarrow> call_ok (kernel_failure_outcome KernelUnavailable f)
       | KUnsupported f \<Rightarrow> call_ok (kernel_failure_outcome KernelUnsupported f))))"

text \<open>The loop of \<open>declaration_kinds\<close> and \<open>declaration_names\<close> when progress is asked for.\<close>

fun each_with_progress ::
  "child_env \<Rightarrow> string \<Rightarrow> (string \<Rightarrow> 'a host_call) \<Rightarrow> nat \<Rightarrow> nat \<Rightarrow> string list \<Rightarrow> 'a list host_call" where
  "each_with_progress ce phase f tot idx [] = call_ok []"
| "each_with_progress ce phase f tot idx (name # names) =
     call_bind (f name) (\<lambda>x.
     call_bind (emit_progress ce phase (clamp_u64 (Suc idx)) (Some tot)) (\<lambda>_.
     call_bind (each_with_progress ce phase f tot (Suc idx) names) (\<lambda>xs. call_ok (x # xs))))"

definition declaration_kind :: "child_env \<Rightarrow> host_session \<Rightarrow> string \<Rightarrow> string host_call" where
  "declaration_kind ce s name = lean_call (\<lambda>n. la_declaration_kind ce n (hs_environment s) name)"

definition declaration_kinds :: "child_env \<Rightarrow> host_session \<Rightarrow> string list \<Rightarrow> bool \<Rightarrow> string list host_call" where
  "declaration_kinds ce s names progress =
     (if progress
      then each_with_progress ce ''declaration_kind_bulk'' (declaration_kind ce s) (clamp_u64 (length names)) 0 names
      else lean_call (\<lambda>n. la_declaration_kind_bulk ce n (hs_environment s) names))"

definition declaration_names :: "child_env \<Rightarrow> host_session \<Rightarrow> string list \<Rightarrow> bool \<Rightarrow> string list host_call" where
  "declaration_names ce s names progress =
     (if progress
      then each_with_progress ce ''declaration_name_bulk''
             (\<lambda>name. lean_call (\<lambda>n. la_declaration_name ce n (hs_environment s) name)) (clamp_u64 (length names)) 0 names
      else lean_call (\<lambda>n. la_declaration_name_bulk ce n (hs_environment s) names))"

definition meta_render_expr ::
  "child_env \<Rightarrow> host_session \<Rightarrow> expr meta_result \<Rightarrow> json \<Rightarrow> rendered meta_result host_call" where
  "meta_render_expr ce s response options =
     (case response of
        MetaFailed f \<Rightarrow> call_ok (MetaFailed f)
      | MetaTimeout f \<Rightarrow> call_ok (MetaTimeout f)
      | MetaUnsupported f \<Rightarrow> call_ok (MetaUnsupported f)
      | MetaOk e \<Rightarrow>
          call_bind (lean_call (\<lambda>n. la_pp_expr ce n (hs_environment s) e options)) (\<lambda>pp.
            case pp of
              MetaOk text \<Rightarrow> call_ok (MetaOk \<lparr>rn_value = text, rn_rendering = Pretty\<rparr>)
            | MetaUnsupported _ \<Rightarrow>
                call_bind (lean_call (\<lambda>n. la_expr_to_string_raw ce n (hs_environment s) e))
                  (\<lambda>text. call_ok (MetaOk \<lparr>rn_value = text, rn_rendering = Raw\<rparr>))
            | MetaFailed f \<Rightarrow> call_ok (MetaFailed f)
            | MetaTimeout f \<Rightarrow> call_ok (MetaTimeout f)))"

definition infer_type :: "child_env \<Rightarrow> host_session \<Rightarrow> string \<Rightarrow> json \<Rightarrow> rendered meta_result host_call" where
  "infer_type ce s source options =
     call_bind (elaborate_expr ce s source options) (\<lambda>outcome.
       case outcome of
         Inl f \<Rightarrow> call_ok (MetaFailed f)
       | Inr e \<Rightarrow>
           call_bind (lean_call (\<lambda>n. la_infer_type ce n (hs_environment s) e options))
             (\<lambda>response. meta_render_expr ce s response options))"

definition whnf :: "child_env \<Rightarrow> host_session \<Rightarrow> string \<Rightarrow> json \<Rightarrow> rendered meta_result host_call" where
  "whnf ce s source options =
     call_bind (elaborate_expr ce s source options) (\<lambda>outcome.
       case outcome of
         Inl f \<Rightarrow> call_ok (MetaFailed f)
       | Inr e \<Rightarrow>
           call_bind (lean_call (\<lambda>n. la_whnf ce n (hs_environment s) e options))
             (\<lambda>response. meta_render_expr ce s response options))"

definition is_def_eq ::
  "child_env \<Rightarrow> host_session \<Rightarrow> string \<Rightarrow> string \<Rightarrow> json \<Rightarrow> json \<Rightarrow> bool meta_result host_call" where
  "is_def_eq ce s lhs rhs transparency options =
     call_bind (elaborate_expr ce s lhs options) (\<lambda>lhs_outcome.
       case lhs_outcome of
         Inl f \<Rightarrow> call_ok (MetaFailed f)
       | Inr lhs_expr \<Rightarrow>
           call_bind (elaborate_expr ce s rhs options) (\<lambda>rhs_outcome.
             case rhs_outcome of
               Inl f \<Rightarrow> call_ok (MetaFailed f)
             | Inr rhs_expr \<Rightarrow>
                 lean_call (\<lambda>n. la_is_def_eq ce n (hs_environment s) lhs_expr rhs_expr transparency options)))"

definition describe :: "child_env \<Rightarrow> host_session \<Rightarrow> string \<Rightarrow> declaration_row option host_call" where
  "describe ce s name =
     call_bind (declaration_kind ce s name) (\<lambda>kind.
       if kind = ''missing'' then call_ok None
       else
         call_bind (lean_call (\<lambda>n. la_declaration_type ce n (hs_environment s) name)) (\<lambda>ty.
         call_bind (case ty of
                      Some e \<Rightarrow> call_bind (lean_call (\<lambda>n. la_expr_to_string_raw ce n (hs_environment s) e))
                                  (\<lambda>text. call_ok (Some text))
                    | None \<Rightarrow> call_ok None) (\<lambda>type_signature.
         call_bind (lean_call (\<lambda>n. la_declaration_source_range ce n (hs_environment s) name)) (\<lambda>source.
           call_ok (Some \<lparr>dw_name = name, dw_kind = kind, dw_type_signature = type_signature, dw_source = source\<rparr>)))))"

definition DECLARATION_TYPE_MAX_BYTES :: nat where "DECLARATION_TYPE_MAX_BYTES = 64 * 1024"

definition declaration_type :: "child_env \<Rightarrow> host_session \<Rightarrow> string \<Rightarrow> nat \<Rightarrow> declaration_type_row option host_call" where
  "declaration_type ce s name max_bytes =
     call_bind (declaration_kind ce s name) (\<lambda>kind.
       if kind = ''missing'' then call_ok None
       else
         call_bind (lean_call (\<lambda>n. la_declaration_type ce n (hs_environment s) name)) (\<lambda>ty.
         call_bind (case ty of
                      Some e \<Rightarrow> call_bind (lean_call (\<lambda>n. la_expr_to_string_raw ce n (hs_environment s) e))
                                  (\<lambda>text. call_ok (Some (bound_rendered_info text (min max_bytes DECLARATION_TYPE_MAX_BYTES))))
                    | None \<Rightarrow> call_ok None) (\<lambda>type_signature.
         call_bind (lean_call (\<lambda>n. la_declaration_source_range ce n (hs_environment s) name)) (\<lambda>source.
           call_ok (Some \<lparr>dt_name = name, dt_kind = kind, dt_type_signature = type_signature, dt_source = source\<rparr>)))))"

definition attempt_proof :: "child_env \<Rightarrow> host_session \<Rightarrow> json \<Rightarrow> json \<Rightarrow> bool \<Rightarrow> json host_call" where
  "attempt_proof ce s request options progress =
     call_bind (emit_progress_if progress ce ''attempt_proof'' 0 (Some 1)) (\<lambda>_.
     call_bind (lean_call (\<lambda>n. la_attempt_proof ce n (hs_environment s) request options)) (\<lambda>result.
     call_bind (emit_progress_if progress ce ''attempt_proof'' 1 (Some 1)) (\<lambda>_. call_ok result)))"

text \<open>The resident memory is sampled at call \<open>n\<close>; a sample is one more call.\<close>

definition child_sample_rss :: "child_env \<Rightarrow> ('e, nat option) call" where
  "child_sample_rss ce = lean_call (\<lambda>n. Inr (ce_rss ce n))"

definition verify_declaration :: "child_env \<Rightarrow> host_session \<Rightarrow> json \<Rightarrow> json \<Rightarrow> bool \<Rightarrow> verification_result host_call" where
  "verify_declaration ce s request options progress =
     call_bind (emit_progress_if progress ce ''verify_declaration'' 0 (Some 1)) (\<lambda>_.
     call_bind (lean_call (\<lambda>n. la_verify_declaration ce n (hs_environment s) request options)) (\<lambda>result.
     call_bind (emit_progress_if progress ce ''verify_declaration'' 1 (Some 1)) (\<lambda>_.
     call_bind (child_sample_rss ce) (\<lambda>rss.
       call_ok (taint_verification_under_memory_pressure (ce_vars ce) rss result)))))"

definition verify_declaration_batch ::
  "child_env \<Rightarrow> host_session \<Rightarrow> json \<Rightarrow> json \<Rightarrow> bool \<Rightarrow> verification_batch_result host_call" where
  "verify_declaration_batch ce s request options progress =
     call_bind (emit_progress_if progress ce ''verify_declaration_batch'' 0 (Some 1)) (\<lambda>_.
     call_bind (lean_call (\<lambda>n. la_verify_declaration_batch ce n (hs_environment s) request options)) (\<lambda>result.
     call_bind (emit_progress_if progress ce ''verify_declaration_batch'' 1 (Some 1)) (\<lambda>_.
     call_bind (child_sample_rss ce) (\<lambda>rss.
       call_ok (taint_verification_batch_under_memory_pressure (ce_vars ce) rss result)))))"

text \<open>The rows of a listing are written one by one; the first write that fails ends it.\<close>

fun write_name_rows :: "child_env \<Rightarrow> string list \<Rightarrow> data_row_emitter \<Rightarrow> data_row_emitter host_call" where
  "write_name_rows ce [] em = call_ok em"
| "write_name_rows ce (name # names) em =
     (case emitter_next em ''rows'' (ce_string_json ce name) of
        (row, em1) \<Rightarrow>
          call_bind (map_err (\<lambda>err. host_internal (''list_declarations_strings row frame write failed: '' @
              protocol_error_text (ce_io_text ce) err)) (protocol_write ce (MDataRow row)))
            (\<lambda>_. write_name_rows ce names em1))"

definition list_declarations_strings :: "child_env \<Rightarrow> host_session \<Rightarrow> json \<Rightarrow> bool \<Rightarrow> nat host_call" where
  "list_declarations_strings ce s flt progress =
     call_bind (emit_progress_if progress ce ''list_declarations_strings'' 0 None) (\<lambda>_.
     call_bind (lean_call (\<lambda>n. la_list_declarations_strings ce n (hs_environment s) flt)) (\<lambda>names.
     call_bind (write_name_rows ce names emitter_default) (\<lambda>em.
     call_bind (emit_progress_if progress ce ''list_declarations_strings'' (clamp_u64 (length names))
         (Some (clamp_u64 (length names)))) (\<lambda>_.
       call_ok (em_count em)))))"

text \<open>One row of a bulk description; a list that is too short reads as missing.\<close>

definition describe_bulk_row ::
  "child_env \<Rightarrow> host_session \<Rightarrow> string list \<Rightarrow> expr option list \<Rightarrow> nat \<Rightarrow> string \<Rightarrow> declaration_row host_call" where
  "describe_bulk_row ce s kinds types idx name =
     (let kind = (if idx < length kinds then kinds ! idx else ''missing'') in
      if kind = ''missing''
      then call_ok \<lparr>dw_name = name, dw_kind = kind, dw_type_signature = None, dw_source = None\<rparr>
      else
        call_bind (case (if idx < length types then types ! idx else None) of
                     Some e \<Rightarrow> call_bind (lean_call (\<lambda>n. la_expr_to_string_raw ce n (hs_environment s) e))
                                 (\<lambda>text. call_ok (Some text))
                   | None \<Rightarrow> call_ok None) (\<lambda>type_signature.
        call_bind (lean_call (\<lambda>n. la_declaration_source_range ce n (hs_environment s) name)) (\<lambda>source.
          call_ok \<lparr>dw_name = name, dw_kind = kind, dw_type_signature = type_signature, dw_source = source\<rparr>)))"

fun describe_bulk_rows ::
  "child_env \<Rightarrow> host_session \<Rightarrow> string list \<Rightarrow> expr option list \<Rightarrow> bool \<Rightarrow> nat \<Rightarrow> nat \<Rightarrow> string list
     \<Rightarrow> declaration_row list host_call" where
  "describe_bulk_rows ce s kinds types progress tot idx [] = call_ok []"
| "describe_bulk_rows ce s kinds types progress tot idx (name # names) =
     call_bind (describe_bulk_row ce s kinds types idx name) (\<lambda>row.
     call_bind (emit_progress_if progress ce ''describe_bulk'' (clamp_u64 (Suc idx)) (Some tot)) (\<lambda>_.
     call_bind (describe_bulk_rows ce s kinds types progress tot (Suc idx) names) (\<lambda>rows. call_ok (row # rows))))"

definition describe_bulk :: "child_env \<Rightarrow> host_session \<Rightarrow> string list \<Rightarrow> bool \<Rightarrow> declaration_row list host_call" where
  "describe_bulk ce s names progress =
     call_bind (lean_call (\<lambda>n. la_declaration_kind_bulk ce n (hs_environment s) names)) (\<lambda>kinds.
     call_bind (lean_call (\<lambda>n. la_declaration_type_bulk ce n (hs_environment s) names)) (\<lambda>types.
       describe_bulk_rows ce s kinds types progress (clamp_u64 (length names)) 0 names))"

section \<open>Module queries\<close>

definition session_clear_cache :: "nat host_call" where
  "session_clear_cache st =
     (case clear_module_snapshot_cache (sv_rt st) of (r, rt) \<Rightarrow> (r, st\<lparr>sv_rt := rt\<rparr>))"

definition clear_module_snapshot_cache_for_rss_guard :: "child_env \<Rightarrow> unit host_call" where
  "clear_module_snapshot_cache_for_rss_guard ce =
     call_bind (child_sample_rss ce) (\<lambda>rss.
       if should_clear_for_rss_guard
            (module_cache_env_u64 (ce_vars ce) ''LEAN_RS_MODULE_CACHE_RSS_GUARD_KIB'' MODULE_CACHE_DEFAULT_RSS_GUARD_KIB) rss
       then call_bind session_clear_cache (\<lambda>_. call_ok ())
       else call_ok ())"

definition key_session_config :: "host_session_key \<Rightarrow> session_config" where
  "key_session_config k =
     \<lparr>sc_project_root = hk_project_root k, sc_mode = hk_mode k, sc_imports = hk_imports k,
      sc_import_profile = hk_import_profile k\<rparr>"

definition session_cache_policy :: "child_env \<Rightarrow> host_session \<Rightarrow> string \<Rightarrow> json \<Rightarrow> cache_policy" where
  "session_cache_policy ce s source options =
     module_query_cache_policy (ce_sha256 ce) (ce_mode_json ce) (ce_toolchain ce) (ce_vars ce)
       (key_session_config (hs_key s)) source (ce_options ce options)"

definition process_module_query_batch ::
  "child_env \<Rightarrow> host_session \<Rightarrow> string \<Rightarrow> json list \<Rightarrow> json \<Rightarrow> json \<Rightarrow> json host_call" where
  "process_module_query_batch ce s source selectors budgets options =
     (let policy = session_cache_policy ce s source options in
      case la_selectors_host ce selectors of
        Some e \<Rightarrow> call_err e
      | None \<Rightarrow>
          call_bind (clear_module_snapshot_cache_for_rss_guard ce) (\<lambda>_.
          call_bind (lean_call (\<lambda>n. la_module_query_batch_cached ce n (hs_environment s) source selectors budgets options policy))
            (\<lambda>cached. case cached of
                Some outcome \<Rightarrow> call_ok outcome
              | None \<Rightarrow> lean_call (\<lambda>n. la_module_query_batch ce n (hs_environment s) source selectors budgets options))))"

section \<open>Exports of the capability\<close>

fun operation_label :: "export_operation \<Rightarrow> string" where
  "operation_label OpMetadata = ''metadata String -> IO String''"
| "operation_label OpDoctor = ''doctor String -> IO String''"
| "operation_label OpJsonCommand = ''json command String -> IO String''"
| "operation_label OpStreamingCommand = ''streaming command String, USize, USize -> IO UInt8''"
| "operation_label OpFixtureMul = ''fixture multiplication UInt64, UInt64 -> UInt64''"
| "operation_label OpFixturePanic = ''fixture panic UInt8 -> Unit''"

datatype binding_source = BsChecked string | BsInternal string

record binding_error =
  bd_operation :: export_operation
  bd_export :: string
  bd_source :: binding_source

definition binding_error_text :: "binding_error \<Rightarrow> string" where
  "binding_error_text e =
     ''failed to resolve checked worker export '' @ [CHR 0x27] @ bd_export e @ [CHR 0x27] @ '' for '' @
     operation_label (bd_operation e) @ '': '' @ (case bd_source e of BsChecked t \<Rightarrow> t | BsInternal t \<Rightarrow> t)"

datatype worker_call_error = WcHost lean_error | WcBinding binding_error

definition binding_error_response :: "binding_error \<Rightarrow> response" where
  "binding_error_response e = RError ''lean_rs.worker.checked_binding'' (binding_error_text e)"

definition worker_call_response :: "worker_call_error \<Rightarrow> response" where
  "worker_call_response e = (case e of WcHost err \<Rightarrow> error_response err | WcBinding err \<Rightarrow> binding_error_response err)"

definition worker_bindings_for :: "export_operation \<Rightarrow> string \<Rightarrow> (worker_call_error, worker_bindings) call" where
  "worker_bindings_for operation export st =
     (case cs_host_session (sv_sessions st) of
        Some s \<Rightarrow>
          (case hs_worker_bindings s of
             Some b \<Rightarrow> (Inr b, st)
           | None \<Rightarrow>
               (Inl (WcBinding \<lparr>bd_operation = operation, bd_export = export, bd_source = BsInternal
                  ''worker request requires a manifest-backed capability identity, but this session has no capability manifest''\<rparr>), st))
      | None \<Rightarrow>
          (Inl (WcBinding \<lparr>bd_operation = operation, bd_export = export, bd_source = BsInternal
             ''worker request requires a manifest-backed capability identity, but this session has no capability manifest''\<rparr>), st))"

text \<open>The bindings live in the current session.\<close>

definition set_bindings :: "worker_bindings \<Rightarrow> serve \<Rightarrow> serve" where
  "set_bindings b st =
     (case cs_host_session (sv_sessions st) of
        Some s \<Rightarrow> st\<lparr>sv_sessions := (sv_sessions st)\<lparr>cs_host_session := Some (s\<lparr>hs_worker_bindings := Some b\<rparr>)\<rparr>\<rparr>
      | None \<Rightarrow> st)"

text \<open>Resolving an export: a cached one is not looked up again, a new one is cached when it resolves.\<close>

definition resolve_export ::
  "child_env \<Rightarrow> export_operation \<Rightarrow> (worker_bindings \<Rightarrow> string list) \<Rightarrow> (string \<Rightarrow> worker_bindings \<Rightarrow> worker_bindings)
     \<Rightarrow> string \<Rightarrow> worker_bindings \<Rightarrow> (worker_call_error, unit) call" where
  "resolve_export ce operation known add export b st =
     (if export \<in> set (known b) then (Inr (), st)
      else
        (case lean_call (\<lambda>n. case la_checked_export ce n operation export of None \<Rightarrow> Inr () | Some e \<Rightarrow> Inl e) st of
           (Inl e, st1) \<Rightarrow>
             (Inl (WcBinding \<lparr>bd_operation = operation, bd_export = export, bd_source = BsChecked e\<rparr>), st1)
         | (Inr _, st1) \<Rightarrow> (Inr (), set_bindings (add export b) st1)))"

definition string_io :: "child_env \<Rightarrow> export_operation \<Rightarrow> string \<Rightarrow> worker_bindings \<Rightarrow> (worker_call_error, unit) call" where
  "string_io ce operation = resolve_export ce operation wb_string_io (\<lambda>e b. b\<lparr>wb_string_io := e # wb_string_io b\<rparr>)"

definition stream_binding :: "child_env \<Rightarrow> string \<Rightarrow> worker_bindings \<Rightarrow> (worker_call_error, unit) call" where
  "stream_binding ce =
     resolve_export ce OpStreamingCommand wb_streams (\<lambda>e b. b\<lparr>wb_streams := e # wb_streams b\<rparr>)"

definition call_string_io ::
  "child_env \<Rightarrow> export_operation \<Rightarrow> string \<Rightarrow> string \<Rightarrow> (worker_call_error, string) call" where
  "call_string_io ce operation export request_json =
     call_bind (worker_bindings_for operation export) (\<lambda>b.
     call_bind (string_io ce operation export b) (\<lambda>_.
       map_err WcHost (lean_call (\<lambda>n. la_string_io ce n export request_json))))"

definition json_command :: "child_env \<Rightarrow> string \<Rightarrow> string \<Rightarrow> (worker_call_error, string) call" where
  "json_command ce export request_json = call_string_io ce OpJsonCommand export request_json"

datatype capability_json_error = CjHost lean_error | CjBinding binding_error | CjMalformed string

definition capability_json_from_worker_call :: "worker_call_error \<Rightarrow> capability_json_error" where
  "capability_json_from_worker_call e = (case e of WcHost err \<Rightarrow> CjHost err | WcBinding err \<Rightarrow> CjBinding err)"

definition decode_json :: "(string \<Rightarrow> string + json) \<Rightarrow> string \<Rightarrow> (capability_json_error, json) call" where
  "decode_json parse raw = (case parse raw of Inl e \<Rightarrow> call_err (CjMalformed e) | Inr v \<Rightarrow> call_ok v)"

definition capability_metadata :: "child_env \<Rightarrow> string \<Rightarrow> string \<Rightarrow> (capability_json_error, json) call" where
  "capability_metadata ce export request_json =
     call_bind (map_err capability_json_from_worker_call (call_string_io ce OpMetadata export request_json))
       (decode_json (ce_metadata ce))"

definition capability_doctor :: "child_env \<Rightarrow> string \<Rightarrow> string \<Rightarrow> (capability_json_error, json) call" where
  "capability_doctor ce export request_json =
     call_bind (map_err capability_json_from_worker_call (call_string_io ce OpDoctor export request_json))
       (decode_json (ce_doctor ce))"

section \<open>Streaming\<close>

record forwarder =
  fw_emitter :: data_row_emitter
  fw_progress :: bool
  fw_metadata :: "json option"

definition forwarder_new :: "bool \<Rightarrow> forwarder" where
  "forwarder_new progress = \<lparr>fw_emitter = emitter_default, fw_progress = progress, fw_metadata = None\<rparr>"

definition emit_row ::
  "child_env \<Rightarrow> string \<Rightarrow> json \<Rightarrow> forwarder \<Rightarrow> serve \<Rightarrow> (protocol_error + unit) \<times> forwarder \<times> serve" where
  "emit_row ce stream payload fw st =
     (case emitter_next (fw_emitter fw) stream payload of
        (row, em) \<Rightarrow>
          let fw1 = fw\<lparr>fw_emitter := em\<rparr> in
          (case protocol_write ce (MDataRow row) st of
             (Inl e, st1) \<Rightarrow> (Inl e, fw1, st1)
           | (Inr _, st1) \<Rightarrow>
               (case emit_progress_if (fw_progress fw1) ce ''data_stream'' (em_count em) None st1 of
                  ((_ :: unit + unit), st2) \<Rightarrow> (Inr (), fw1, st2))))"

definition forwarder_summary :: "forwarder \<Rightarrow> nat \<Rightarrow> stream_summary" where
  "forwarder_summary fw nanos =
     stream_summary_new (em_count (fw_emitter fw)) (em_sequences (fw_emitter fw)) nanos (fw_metadata fw)"

text \<open>One call of the row callback while nothing has failed: an error is what ends the stream.\<close>

definition row_callback ::
  "child_env \<Rightarrow> string \<Rightarrow> forwarder \<Rightarrow> serve \<Rightarrow> stream_callback_error option \<times> forwarder \<times> serve" where
  "row_callback ce raw fw st =
     (let write_failed = (\<lambda>e. CbWrite (protocol_error_text (ce_io_text ce) e)) in
      case parse_row_envelope (ce_envelope ce) (ce_value ce) raw of
        Inl msg \<Rightarrow> (Some (CbMalformed msg), fw, st)
      | Inr (EvRow stream payload) \<Rightarrow>
          (case emit_row ce stream payload fw st of
             (Inl e, fw1, st1) \<Rightarrow> (Some (write_failed e), fw1, st1)
           | (Inr _, fw1, st1) \<Rightarrow> (None, fw1, st1))
      | Inr (EvDiagnostic d) \<Rightarrow>
          (case protocol_write ce (MDiagnostic d) st of
             (Inl e, st1) \<Rightarrow> (Some (write_failed e), fw, st1)
           | (Inr _, st1) \<Rightarrow> (None, fw, st1))
      | Inr (EvProgress p) \<Rightarrow>
          (case protocol_write ce (MProgressTick p) st of
             (Inl e, st1) \<Rightarrow> (Some (write_failed e), fw, st1)
           | (Inr _, st1) \<Rightarrow> (None, fw, st1))
      | Inr (EvMetadata v) \<Rightarrow> (None, fw\<lparr>fw_metadata := Some v\<rparr>, st))"

text \<open>The calls an export makes: once one has failed, every later one only answers \<open>Stop\<close>.\<close>

fun deliver_events ::
  "child_env \<Rightarrow> string list \<Rightarrow> forwarder \<Rightarrow> serve \<Rightarrow> stream_callback_error option \<times> forwarder \<times> serve" where
  "deliver_events ce [] fw st = (None, fw, st)"
| "deliver_events ce (raw # raws) fw st =
     (case row_callback ce raw fw st of
        (Some e, fw1, st1) \<Rightarrow> (Some e, fw1, st1)
      | (None, fw1, st1) \<Rightarrow> deliver_events ce raws fw1 st1)"

datatype stream_run_error =
    SrHost lean_error
  | SrBinding binding_error
  | SrExportStatus nat
  | SrCallbackStatus callback_status
  | SrMalformedRow string

definition stream_run_from_worker_call :: "worker_call_error \<Rightarrow> stream_run_error" where
  "stream_run_from_worker_call e = (case e of WcHost err \<Rightarrow> SrHost err | WcBinding err \<Rightarrow> SrBinding err)"

text \<open>The call into the export, with the callback it drives, and what its result means.\<close>

definition run_export ::
  "child_env \<Rightarrow> string \<Rightarrow> string \<Rightarrow> bool \<Rightarrow> (stream_run_error, stream_summary) call" where
  "run_export ce export request_json progress st =
     (let sx = la_stream ce (sv_calls st) export request_json in
      case deliver_events ce (sx_events sx) (forwarder_new progress) (st\<lparr>sv_calls := Suc (sv_calls st)\<rparr>) of
        (row_error, fw, st1) \<Rightarrow>
          (case sx_outcome sx (row_error \<noteq> None) of
             Inl err \<Rightarrow> (Inl (SrHost err), st1)
           | Inr export_status \<Rightarrow>
               (case row_error of
                  Some (CbMalformed msg) \<Rightarrow> (Inl (SrMalformedRow msg), st1)
                | Some (CbWrite msg) \<Rightarrow>
                    (Inl (SrHost (host_internal (''worker stream frame write failed: '' @ msg))), st1)
                | None \<Rightarrow>
                    (case status_from_abi export_status of
                       Some CsOk \<Rightarrow>
                         (Inr (forwarder_summary fw (ce_elapsed ce (sv_calls st1))), st1\<lparr>sv_calls := Suc (sv_calls st1)\<rparr>)
                     | Some cs \<Rightarrow> (Inl (SrCallbackStatus cs), st1)
                     | None \<Rightarrow> (Inl (SrExportStatus export_status), st1)))))"

definition run_data_stream ::
  "child_env \<Rightarrow> string \<Rightarrow> string \<Rightarrow> bool \<Rightarrow> (stream_run_error, stream_summary) call" where
  "run_data_stream ce export request_json progress =
     call_bind (emit_progress_if progress ce ''data_stream'' 0 None) (\<lambda>_.
     call_bind (lean_call (\<lambda>n. case la_register_callback ce n of Some e \<Rightarrow> Inl (SrHost e) | None \<Rightarrow> Inr ())) (\<lambda>_.
     call_bind (map_err stream_run_from_worker_call (worker_bindings_for OpStreamingCommand export)) (\<lambda>b.
     call_bind (map_err stream_run_from_worker_call (stream_binding ce export b)) (\<lambda>_.
       run_export ce export request_json progress))))"

fun stream_error_response :: "stream_run_error \<Rightarrow> response" where
  "stream_error_response (SrHost err) = error_response err"
| "stream_error_response (SrBinding err) = binding_error_response err"
| "stream_error_response (SrExportStatus b) = RStreamExportFailed b"
| "stream_error_response (SrCallbackStatus cs) = RStreamCallbackFailed (status_as_abi cs) (status_description cs)"
| "stream_error_response (SrMalformedRow msg) = RStreamRowMalformed msg"

section \<open>Answering a request\<close>

text \<open>\<open>match op \{ Ok(x) => .., Err(err) => .. \}\<close>.\<close>

definition answer_with :: "('a \<Rightarrow> response) \<Rightarrow> ('e \<Rightarrow> response) \<Rightarrow> ('e, 'a) call \<Rightarrow> serve \<Rightarrow> response \<times> serve" where
  "answer_with ok err m st = (case m st of (Inl e, st1) \<Rightarrow> (err e, st1) | (Inr x, st1) \<Rightarrow> (ok x, st1))"

definition with_host_session :: "(host_session \<Rightarrow> serve \<Rightarrow> response \<times> serve) \<Rightarrow> serve \<Rightarrow> response \<times> serve" where
  "with_host_session f st =
     (case cs_host_session (sv_sessions st) of Some s \<Rightarrow> f s st | None \<Rightarrow> (missing_session_response, st))"

definition child_open_request :: "child_env \<Rightarrow> host_session_key \<Rightarrow> serve \<Rightarrow> response \<times> serve" where
  "child_open_request ce key st =
     (case open_or_reuse_host_session (ce_capacity ce) key (sv_sessions st) (sv_rt st) of
        (r, cs, rt) \<Rightarrow> (r, st\<lparr>sv_sessions := cs, sv_rt := rt\<rparr>))"

definition child_load_fixture :: "string \<Rightarrow> unit host_call" where
  "child_load_fixture manifest_path st =
     (case load_leaked (BuildManifest manifest_path) (sv_rt st) of
        (r, rt) \<Rightarrow> (r, st\<lparr>sv_rt := rt\<lparr>rt_leaked := rt_leaked (sv_rt st)\<rparr>\<rparr>))"

definition load_leaked_capability :: "string \<Rightarrow> (worker_call_error, unit) call" where
  "load_leaked_capability manifest_path st =
     (case load_leaked (BuildManifest manifest_path) (sv_rt st) of
        (Inl e, rt) \<Rightarrow> (Inl (WcHost e), st\<lparr>sv_rt := rt\<rparr>)
      | (Inr _, rt) \<Rightarrow> (Inr (), st\<lparr>sv_rt := rt\<rparr>))"

text \<open>The fixture calls resolve their export on bindings of their own.\<close>

definition fixture_export :: "child_env \<Rightarrow> export_operation \<Rightarrow> string \<Rightarrow> (worker_call_error, unit) call" where
  "fixture_export ce operation export =
     lean_call (\<lambda>n. case la_checked_export ce n operation export of
        None \<Rightarrow> Inr ()
      | Some e \<Rightarrow> Inl (WcBinding \<lparr>bd_operation = operation, bd_export = export, bd_source = BsChecked e\<rparr>))"

definition child_fixture_mul :: "child_env \<Rightarrow> string \<Rightarrow> nat \<Rightarrow> nat \<Rightarrow> (worker_call_error, nat) call" where
  "child_fixture_mul ce manifest_path lhs rhs =
     call_bind (load_leaked_capability manifest_path) (\<lambda>_.
     call_bind (fixture_export ce OpFixtureMul ''lean_rs_fixture_u64_mul'') (\<lambda>_.
       map_err WcHost (lean_call (\<lambda>n. la_fixture_mul ce n lhs rhs))))"

definition trigger_lean_panic :: "child_env \<Rightarrow> string \<Rightarrow> (worker_call_error, unit) call" where
  "trigger_lean_panic ce manifest_path =
     call_bind (load_leaked_capability manifest_path) (\<lambda>_.
     call_bind (fixture_export ce OpFixturePanic ''lean_rs_fixture_panic_unit'') (\<lambda>_.
       lean_call (\<lambda>n. case la_fixture_panic ce n of Some e \<Rightarrow> Inl (WcHost e) | None \<Rightarrow> Inr ())))"

definition capability_json_response :: "(string \<Rightarrow> response) \<Rightarrow> capability_json_error \<Rightarrow> response" where
  "capability_json_response malformed e =
     (case e of CjHost err \<Rightarrow> error_response err | CjBinding err \<Rightarrow> binding_error_response err
      | CjMalformed msg \<Rightarrow> malformed msg)"

text \<open>The requests that are answered by one response; first those from type inference on.\<close>

fun answer_query :: "child_env \<Rightarrow> request \<Rightarrow> serve \<Rightarrow> response \<times> serve" where
  "answer_query ce (InferType source options) st =
     with_host_session (\<lambda>s. answer_with (\<lambda>x. RMetaExpr (ce_meta_expr_json ce x)) error_response
       (infer_type ce s source options)) st"
| "answer_query ce (Whnf source options) st =
     with_host_session (\<lambda>s. answer_with (\<lambda>x. RMetaExpr (ce_meta_expr_json ce x)) error_response
       (whnf ce s source options)) st"
| "answer_query ce (IsDefEq lhs rhs transparency options) st =
     with_host_session (\<lambda>s. answer_with (\<lambda>x. RMetaBool (ce_meta_bool_json ce x)) error_response
       (is_def_eq ce s lhs rhs transparency options)) st"
| "answer_query ce (Describe name) st =
     with_host_session (\<lambda>s. answer_with (\<lambda>x. RDeclaration (map_option (ce_row_json ce) x)) error_response
       (describe ce s name)) st"
| "answer_query ce (SearchDeclarations search) st =
     with_host_session (\<lambda>s. answer_with RDeclarationSearch error_response
       (lean_call (\<lambda>n. la_search_declarations ce n (hs_environment s) search))) st"
| "answer_query ce (DeclarationType name max_bytes) st =
     with_host_session (\<lambda>s. answer_with (\<lambda>x. RDeclarationType (map_option (ce_type_json ce) x)) error_response
       (declaration_type ce s name max_bytes)) st"
| "answer_query ce (InspectDeclaration request) st =
     with_host_session (\<lambda>s. answer_with RDeclarationInspection error_response
       (lean_call (\<lambda>n. la_inspect_declaration ce n (hs_environment s) request))) st"
| "answer_query ce (AttemptProof request options progress) st =
     with_host_session (\<lambda>s. answer_with RProofAttempt error_response (attempt_proof ce s request options progress)) st"
| "answer_query ce (VerifyDeclaration request options progress) st =
     with_host_session (\<lambda>s. answer_with (\<lambda>x. RDeclarationVerification (ce_verification_json ce x)) error_response
       (verify_declaration ce s request options progress)) st"
| "answer_query ce (VerifyDeclarationBatch request options progress) st =
     with_host_session (\<lambda>s. answer_with (\<lambda>x. RDeclarationVerificationBatch (ce_verification_batch_json ce x)) error_response
       (verify_declaration_batch ce s request options progress)) st"
| "answer_query ce (ListDeclarationsStrings flt progress) st =
     with_host_session (\<lambda>s. answer_with RRowsComplete error_response (list_declarations_strings ce s flt progress)) st"
| "answer_query ce (DescribeBulk names progress) st =
     with_host_session (\<lambda>s. answer_with (\<lambda>rows. RDeclarationBulk (map (ce_row_json ce) rows)) error_response
       (describe_bulk ce s names progress)) st"
| "answer_query ce (ProcessModuleQuery source query options) st =
     with_host_session (\<lambda>s. answer_with RProcessModuleQuery error_response
       (lean_call (\<lambda>n. la_process_module_query ce n (hs_environment s) source query options))) st"
| "answer_query ce (ProcessModuleQueryBatch source selectors budgets options) st =
     with_host_session (\<lambda>s. answer_with RProcessModuleQueryBatch error_response
       (process_module_query_batch ce s source selectors budgets options)) st"
| "answer_query ce ClearModuleSnapshotCache st =
     with_host_session (\<lambda>s. answer_with (\<lambda>n. RModuleSnapshotCacheCleared (la_clear_result_json ce n)) error_response
       session_clear_cache) st"
| "answer_query ce _ st =
     (RError ''lean_rs.worker.protocol.unknown_request'' ''child received a request variant it does not recognise'', st)"

fun answer_request :: "child_env \<Rightarrow> request \<Rightarrow> serve \<Rightarrow> response \<times> serve" where
  "answer_request ce Health st = (RHealthOk, st)"
| "answer_request ce (LoadFixtureCapability path) st =
     answer_with (\<lambda>_. RCapabilityLoaded) error_response (child_load_fixture path) st"
| "answer_request ce (CallFixtureMul path lhs rhs) st =
     answer_with RU64 worker_call_response (child_fixture_mul ce path lhs rhs) st"
| "answer_request ce (TriggerLeanPanic path) st =
     answer_with (\<lambda>_. RError ''lean_rs.worker.panic_fixture_returned''
         ''Lean panic fixture returned instead of terminating the child'')
       worker_call_response (trigger_lean_panic ce path) st"
| "answer_request ce (OpenHostSession root mode imports profile) st =
     child_open_request ce \<lparr>hk_project_root = root, hk_mode = mode, hk_imports = imports, hk_import_profile = profile\<rparr> st"
| "answer_request ce (Elaborate source options) st =
     with_host_session (\<lambda>s. answer_with (\<lambda>x. RElaboration (ce_elab_json ce x)) error_response
       (elaborate ce s source options)) st"
| "answer_request ce (KernelCheck source options progress) st =
     with_host_session (\<lambda>s. answer_with (\<lambda>x. RKernelCheck (ce_kernel_json ce x)) error_response
       (kernel_check ce s source options progress)) st"
| "answer_request ce (DeclarationKinds names progress) st =
     with_host_session (\<lambda>s. answer_with RStrings error_response (declaration_kinds ce s names progress)) st"
| "answer_request ce (DeclarationNames names progress) st =
     with_host_session (\<lambda>s. answer_with RStrings error_response (declaration_names ce s names progress)) st"
| "answer_request ce (RunDataStream export request_json progress) st =
     with_host_session (\<lambda>s. answer_with RStreamComplete stream_error_response
       (run_data_stream ce export request_json progress)) st"
| "answer_request ce (CapabilityMetadata export request_json) st =
     with_host_session (\<lambda>s. answer_with RCapabilityMetadata (capability_json_response RCapabilityMetadataMalformed)
       (capability_metadata ce export request_json)) st"
| "answer_request ce (CapabilityDoctor export request_json) st =
     with_host_session (\<lambda>s. answer_with RCapabilityDoctor (capability_json_response RCapabilityDoctorMalformed)
       (capability_doctor ce export request_json)) st"
| "answer_request ce (JsonCommand export request_json) st =
     with_host_session (\<lambda>s. answer_with RJsonCommand worker_call_response (json_command ce export request_json)) st"
| "answer_request ce Terminate st = (RTerminating, st)"
| "answer_request ce request st = answer_query ce request st"

section \<open>The serve loop\<close>

fun child_emit_test_rows :: "child_env \<Rightarrow> string list \<Rightarrow> nat \<Rightarrow> data_row_emitter \<Rightarrow> (protocol_error, nat) call" where
  "child_emit_test_rows ce [] idx em = call_ok (em_count em)"
| "child_emit_test_rows ce (stream # streams) idx em =
     (case emitter_next em stream (ce_test_row_json ce stream idx) of
        (row, em1) \<Rightarrow> call_bind (protocol_write ce (MDataRow row)) (\<lambda>_. child_emit_test_rows ce streams (Suc idx) em1))"

text \<open>Whether the child goes on after a request, has ended well, has aborted, or has failed.\<close>

datatype serve_next = ServeOn | ServeDone | ServeAborts | ServeFails protocol_error

definition serve_after :: "serve_next \<Rightarrow> (protocol_error + 'a) \<times> serve \<Rightarrow> serve_next \<times> serve" where
  "serve_after nxt out = (case out of (Inl e, st) \<Rightarrow> (ServeFails e, st) | (Inr _, st) \<Rightarrow> (nxt, st))"

definition serve_request :: "child_env \<Rightarrow> request \<Rightarrow> serve \<Rightarrow> serve_next \<times> serve" where
  "serve_request ce request st =
     (case request of
        EmitTestRows streams \<Rightarrow>
          serve_after ServeOn (call_bind (child_emit_test_rows ce streams 0 emitter_default)
            (\<lambda>count. write_response ce (RRowsComplete count)) st)
      | EmitTestRowsThenExit \<Rightarrow> serve_after ServeDone (child_emit_test_rows ce [''rows''] 0 emitter_default st)
      | EmitTestRowsThenPanic \<Rightarrow> serve_after ServeAborts (child_emit_test_rows ce [''rows''] 0 emitter_default st)
      | Terminate \<Rightarrow> serve_after ServeDone (write_response ce RTerminating st)
      | _ \<Rightarrow> (case answer_request ce request st of (r, st1) \<Rightarrow> serve_after ServeOn (write_response ce r st1)))"

definition serve_message :: "child_env \<Rightarrow> message \<Rightarrow> serve \<Rightarrow> serve_next \<times> serve" where
  "serve_message ce m st =
     (case m of
        MRequest request \<Rightarrow> serve_request ce request st
      | _ \<Rightarrow> serve_after ServeOn (write_response ce
               (RError ''lean_rs.worker.protocol.unexpected_frame'' ''child expected request frame'') st))"

lemma read_frame_consumes:
  "read_frame dec rd cap = (Inr f, rd1) \<Longrightarrow> length (rd_bytes rd1) < length (rd_bytes rd)"
  by (auto simp: read_frame_def read_exact_def Let_def split: if_splits sum.splits prod.splits)

function serve_loop ::
  "child_env \<Rightarrow> (byte list \<Rightarrow> string + frame) \<Rightarrow> reader \<Rightarrow> serve \<Rightarrow> serve_next \<times> serve" where
  "serve_loop ce dec rd st =
     (case read_frame dec rd (sv_max_frame_bytes st) of
        (Inl e, rd1) \<Rightarrow> (ServeFails e, st)
      | (Inr f, rd1) \<Rightarrow>
          (case serve_message ce (fr_message f) st of
             (ServeOn, st1) \<Rightarrow> serve_loop ce dec rd1 st1
           | (ended, st1) \<Rightarrow> (ended, st1)))"
  by pat_completeness auto
termination
  by (relation "measure (\<lambda>(ce, dec, rd, st). length (rd_bytes rd))") (auto dest: read_frame_consumes [OF sym])

declare serve_loop.simps [simp del]

text \<open>What ends a child: \<open>run_stdio\<close>'s exit status, or the abort.\<close>

datatype serve_start_error = StartProtocol protocol_error | StartExpectedConfigure message

definition serve_initial :: "writer \<Rightarrow> lean_rt \<Rightarrow> serve" where
  "serve_initial w rt =
     \<lparr>sv_writer = w, sv_max_frame_bytes = MAX_FRAME_BYTES, sv_sessions = fresh_child, sv_rt = rt, sv_calls = 0\<rparr>"

definition serve_stdio ::
  "child_env \<Rightarrow> (byte list \<Rightarrow> string + frame) \<Rightarrow> string \<Rightarrow> reader \<Rightarrow> writer \<Rightarrow> lean_rt
     \<Rightarrow> (serve_start_error + serve_next) \<times> serve" where
  "serve_stdio ce dec worker_version rd w rt =
     (case protocol_write ce (Handshake worker_version PROTOCOL_VERSION) (serve_initial w rt) of
        (Inl e, st1) \<Rightarrow> (Inl (StartProtocol e), st1)
      | (Inr _, st1) \<Rightarrow>
          (case read_frame dec rd MAX_FRAME_BYTES of
             (Inl e, rd1) \<Rightarrow> (Inl (StartProtocol e), st1)
           | (Inr f, rd1) \<Rightarrow>
               (case fr_message f of
                  ConfigureFrameLimit max_bytes \<Rightarrow>
                    (case serve_loop ce dec rd1 (st1\<lparr>sv_max_frame_bytes := max_bytes\<rparr>) of
                       (n, st2) \<Rightarrow> (Inr n, st2))
                | m \<Rightarrow> (Inl (StartExpectedConfigure m), st1))))"

section \<open>What a pipe that does not break carries\<close>

definition open_pipe :: "serve \<Rightarrow> bool" where
  "open_pipe st \<longleftrightarrow> wr_room (sv_writer st) = None \<and> \<not> wr_flush_fails (sv_writer st)"

definition transmissible :: "child_env \<Rightarrow> nat \<Rightarrow> message \<Rightarrow> bool" where
  "transmissible ce cap m \<longleftrightarrow>
     (\<exists>bytes. ce_encode ce (frame_new m) = Inr bytes \<and> length bytes \<le> cap \<and> length bytes \<le> u32_max)"

definition wire :: "child_env \<Rightarrow> message \<Rightarrow> byte list" where
  "wire ce m = put_block (projr (ce_encode ce (frame_new m)))"

text \<open>From \<open>st\<close> to \<open>st'\<close> the child has put exactly the messages \<open>ms\<close> on its standard output.\<close>

definition sent :: "child_env \<Rightarrow> message list \<Rightarrow> serve \<Rightarrow> serve \<Rightarrow> bool" where
  "sent ce ms st st' \<longleftrightarrow>
     open_pipe st' \<and> sv_max_frame_bytes st' = sv_max_frame_bytes st \<and>
     list_all (transmissible ce (sv_max_frame_bytes st)) ms \<and>
     wr_out (sv_writer st') = wr_out (sv_writer st) @ concat (map (wire ce) ms)"

lemma sent_nil: "open_pipe st \<Longrightarrow> sent ce [] st st"
  by (simp add: sent_def)

lemma sent_append: "sent ce ms st st1 \<Longrightarrow> sent ce ns st1 st2 \<Longrightarrow> sent ce (ms @ ns) st st2"
  by (simp add: sent_def)

lemma sent_open: "sent ce ms st st' \<Longrightarrow> open_pipe st'"
  by (simp add: sent_def)

text \<open>Steps that do not touch the writer send nothing.\<close>

lemma sent_frame:
  "open_pipe st \<Longrightarrow> sv_writer st' = sv_writer st \<Longrightarrow> sv_max_frame_bytes st' = sv_max_frame_bytes st \<Longrightarrow> sent ce [] st st'"
  by (simp add: sent_def open_pipe_def)

lemma protocol_write_open:
  assumes "protocol_write ce m st = (r, st')" and "open_pipe st"
  obtains (written) "r = Inr ()" "sent ce [m] st st'"
  | (refused) e where "r = Inl e" "\<forall>k. e \<noteq> PIo k" "st' = st"
proof (cases r)
  case (Inr u)
  obtain w where w: "write_frame (ce_encode ce) (sv_writer st) m (sv_max_frame_bytes st) = (Inr (), w)"
    "st' = st\<lparr>sv_writer := w\<rparr>"
    using assms(1) Inr by (cases "write_frame (ce_encode ce) (sv_writer st) m (sv_max_frame_bytes st)")
      (auto simp: protocol_write_def)
  have o: "wr_room w = None" "\<not> wr_flush_fails w"
    using w(1) assms(2) by (auto simp: open_pipe_def write_frame_def write_all_def split: sum.splits if_splits)
  from write_frame_ok [OF w(1)] obtain bytes where
    "ce_encode ce (frame_new m) = Inr bytes" "length bytes \<le> sv_max_frame_bytes st" "length bytes \<le> u32_max"
    "wr_out w = wr_out (sv_writer st) @ put_block bytes" by blast
  with w(2) o have "sent ce [m] st st'"
    by (auto simp: sent_def open_pipe_def transmissible_def wire_def)
  with Inr show thesis by (intro written) simp_all
next
  case (Inl e)
  obtain w where w: "write_frame (ce_encode ce) (sv_writer st) m (sv_max_frame_bytes st) = (Inl e, w)"
    "st' = st\<lparr>sv_writer := w\<rparr>"
    using assms(1) Inl by (cases "write_frame (ce_encode ce) (sv_writer st) m (sv_max_frame_bytes st)")
      (auto simp: protocol_write_def)
  have "\<forall>k. e \<noteq> PIo k"
    using w(1) assms(2) by (auto simp: open_pipe_def write_frame_def write_all_def split: sum.splits if_splits)
  with write_frame_refused [OF w(1)] w(2) Inl show thesis by (intro refused [of e]) simp_all
qed

section \<open>Operations send events\<close>

fun event_message :: "message \<Rightarrow> bool" where
  "event_message (MDiagnostic _) = True"
| "event_message (MProgressTick _) = True"
| "event_message (MDataRow _) = True"
| "event_message _ = False"

fun row_in :: "message \<Rightarrow> data_row list" where
  "row_in (MDataRow row) = [row]"
| "row_in _ = []"

definition rows_in :: "message list \<Rightarrow> data_row list" where "rows_in ms = concat (map row_in ms)"

lemma rows_in_simps [simp]: "rows_in [] = []" "rows_in (m # ms) = row_in m @ rows_in ms"
  "rows_in (ms @ ns) = rows_in ms @ rows_in ns"
  by (simp_all add: rows_in_def)

text \<open>Events, and the rows among them, are what an operation sends on the way to its result.\<close>

definition emits :: "child_env \<Rightarrow> ('r \<Rightarrow> data_row list \<Rightarrow> bool) \<Rightarrow> (serve \<Rightarrow> 'r \<times> serve) \<Rightarrow> bool" where
  "emits ce P m \<longleftrightarrow>
     (\<forall>st r st'. m st = (r, st') \<longrightarrow> open_pipe st \<longrightarrow>
        (\<exists>ms. sent ce ms st st' \<and> list_all event_message ms \<and> P r (rows_in ms)))"

definition rowless :: "child_env \<Rightarrow> (serve \<Rightarrow> 'r \<times> serve) \<Rightarrow> bool" where
  "rowless ce m \<longleftrightarrow> emits ce (\<lambda>_ rows. rows = []) m"

lemma emitsD:
  assumes "emits ce P m" "m st = (r, st')" "open_pipe st"
  obtains ms where "sent ce ms st st'" "list_all event_message ms" "P r (rows_in ms)"
  using assms unfolding emits_def by blast

lemma emits_bind:
  assumes m: "emits ce P m" and f: "\<And>x. emits ce (Q x) (f x)"
    and err: "\<And>e rows. P (Inl e) rows \<Longrightarrow> R (Inl e) rows"
    and ok: "\<And>x rows r rows'. P (Inr x) rows \<Longrightarrow> Q x r rows' \<Longrightarrow> R r (rows @ rows')"
  shows "emits ce R (call_bind m f)"
  unfolding emits_def
proof (intro allI impI)
  fix st r st' assume b: "call_bind m f st = (r, st')" and o: "open_pipe st"
  obtain x st1 where s: "m st = (x, st1)" by (cases "m st")
  from m s o obtain ms where ms: "sent ce ms st st1" "list_all event_message ms" "P x (rows_in ms)" by (rule emitsD)
  show "\<exists>ms. sent ce ms st st' \<and> list_all event_message ms \<and> R r (rows_in ms)"
  proof (cases x)
    case (Inl e)
    with b s have "r = Inl e" "st' = st1" by (simp_all add: call_bind_def)
    with ms err Inl show ?thesis by blast
  next
    case (Inr y)
    with b s have "f y st1 = (r, st')" by (simp add: call_bind_def)
    from emitsD [OF f this sent_open [OF ms(1)]] obtain ns where
      "sent ce ns st1 st'" "list_all event_message ns" "Q y r (rows_in ns)" by blast
    with ms Inr ok sent_append show ?thesis by (intro exI [of _ "ms @ ns"]) auto
  qed
qed

lemma rowless_bind: "rowless ce m \<Longrightarrow> (\<And>x. rowless ce (f x)) \<Longrightarrow> rowless ce (call_bind m f)"
  unfolding rowless_def by (rule emits_bind [where P = "\<lambda>_ rows. rows = []" and Q = "\<lambda>_ _ rows. rows = []"]) simp_all

lemma rowlessI: "(\<And>st r st'. m st = (r, st') \<Longrightarrow> open_pipe st \<Longrightarrow>
     \<exists>ms. sent ce ms st st' \<and> list_all event_message ms \<and> rows_in ms = []) \<Longrightarrow> rowless ce m"
  unfolding rowless_def emits_def by blast

lemma rowlessD:
  assumes "rowless ce m" "m st = (r, st')" "open_pipe st"
  obtains ms where "sent ce ms st st'" "list_all event_message ms" "rows_in ms = []"
  using assms unfolding rowless_def emits_def by blast

lemma rowless_silent:
  "(\<And>st. sv_writer (snd (m st)) = sv_writer st \<and> sv_max_frame_bytes (snd (m st)) = sv_max_frame_bytes st) \<Longrightarrow> rowless ce m"
proof (rule rowlessI)
  fix st r st' assume q: "\<And>st. sv_writer (snd (m st)) = sv_writer st \<and> sv_max_frame_bytes (snd (m st)) = sv_max_frame_bytes st"
    and "m st = (r, st')" "open_pipe st"
  with sent_frame [of st st' ce] q [of st] show "\<exists>ms. sent ce ms st st' \<and> list_all event_message ms \<and> rows_in ms = []"
    by (intro exI [of _ "[]"]) simp
qed

lemma rowless_ok: "rowless ce (call_ok x)" by (rule rowless_silent) (simp add: call_ok_def)

lemma rowless_err: "rowless ce (call_err e)" by (rule rowless_silent) (simp add: call_err_def)

lemma rowless_lean: "rowless ce (lean_call f)" by (rule rowless_silent) (simp add: lean_call_def)

lemma rowless_map_err: "rowless ce m \<Longrightarrow> rowless ce (map_err f m)"
proof (rule rowlessI)
  fix st r st' assume m: "rowless ce m" and e: "map_err f m st = (r, st')" and o: "open_pipe st"
  obtain x where "m st = (x, st')" using e by (auto simp: map_err_def split: prod.splits sum.splits)
  from rowlessD [OF m this o] show "\<exists>ms. sent ce ms st st' \<and> list_all event_message ms \<and> rows_in ms = []" by blast
qed

lemma rowless_write:
  assumes "event_message m" "row_in m = []"
  shows "rowless ce (protocol_write ce m)"
proof (rule rowlessI)
  fix st r st' assume w: "protocol_write ce m st = (r, st')" and o: "open_pipe st"
  from w o show "\<exists>ms. sent ce ms st st' \<and> list_all event_message ms \<and> rows_in ms = []"
  proof (cases rule: protocol_write_open)
    case written
    with assms show ?thesis by (intro exI [of _ "[m]"]) simp
  next
    case refused
    with sent_nil [OF o] show ?thesis by (intro exI [of _ "[]"]) simp
  qed
qed

lemma rowless_progress: "rowless ce (emit_progress ce phase current tot)"
proof (rule rowlessI)
  fix st st' r
  assume e: "emit_progress ce phase current tot st = (r, st')" and o: "open_pipe st"
  let ?m = "MProgressTick \<lparr>pt_phase = phase, pt_current = current, pt_total = tot\<rparr>"
  obtain x where x: "protocol_write ce ?m st = (x, st')"
    using e by (auto simp: emit_progress_def split: prod.splits)
  have "rowless ce (protocol_write ce ?m)" by (rule rowless_write) simp_all
  from rowlessD [OF this x o] show "\<exists>ms. sent ce ms st st' \<and> list_all event_message ms \<and> rows_in ms = []" by blast
qed

lemma rowless_progress_if: "rowless ce (emit_progress_if b ce phase current tot)"
  by (simp add: emit_progress_if_def rowless_progress rowless_ok)

lemma rowless_clear: "rowless ce session_clear_cache"
  by (rule rowless_silent) (simp add: session_clear_cache_def split: prod.split)

lemma rowless_if: "(b \<Longrightarrow> rowless ce m) \<Longrightarrow> (\<not> b \<Longrightarrow> rowless ce n) \<Longrightarrow> rowless ce (if b then m else n)" by simp

named_theorems rowless_rules

lemmas [rowless_rules] = rowless_bind rowless_ok rowless_err rowless_lean rowless_map_err rowless_progress_if
  rowless_progress rowless_clear rowless_if

lemma rowless_sum: "(\<And>e. rowless ce (f e)) \<Longrightarrow> (\<And>x. rowless ce (g x)) \<Longrightarrow> rowless ce (case y of Inl e \<Rightarrow> f e | Inr x \<Rightarrow> g x)"
  by (cases y) simp_all

lemma rowless_option: "rowless ce m \<Longrightarrow> (\<And>x. rowless ce (g x)) \<Longrightarrow> rowless ce (case y of None \<Rightarrow> m | Some x \<Rightarrow> g x)"
  by (cases y) simp_all

lemma rowless_meta:
  "(\<And>x. rowless ce (f1 x)) \<Longrightarrow> (\<And>x. rowless ce (f2 x)) \<Longrightarrow> (\<And>x. rowless ce (f3 x)) \<Longrightarrow> (\<And>x. rowless ce (f4 x)) \<Longrightarrow>
     rowless ce (case y of MetaOk x \<Rightarrow> f1 x | MetaFailed x \<Rightarrow> f2 x | MetaTimeout x \<Rightarrow> f3 x | MetaUnsupported x \<Rightarrow> f4 x)"
  by (cases y) simp_all

lemma rowless_kernel:
  "(\<And>x. rowless ce (f1 x)) \<Longrightarrow> (\<And>x. rowless ce (f2 x)) \<Longrightarrow> (\<And>x. rowless ce (f3 x)) \<Longrightarrow> (\<And>x. rowless ce (f4 x)) \<Longrightarrow>
     rowless ce (case y of Checked x \<Rightarrow> f1 x | KRejected x \<Rightarrow> f2 x | KUnavailable x \<Rightarrow> f3 x | KUnsupported x \<Rightarrow> f4 x)"
  by (cases y) simp_all

lemmas [rowless_rules] = rowless_sum rowless_option rowless_meta rowless_kernel

section \<open>Every session operation is one of these\<close>

lemma rowless_each: "(\<And>x. rowless ce (f x)) \<Longrightarrow> rowless ce (each_with_progress ce phase f tot idx names)"
  by (induction ce phase f tot idx names rule: each_with_progress.induct) (simp_all, intro rowless_rules, auto intro: rowless_rules)

lemma rowless_operations:
  "rowless ce (elaborate ce s source options)"
  "rowless ce (kernel_check ce s source options progress)"
  "rowless ce (declaration_kinds ce s names progress)"
  "rowless ce (declaration_names ce s names progress)"
  "rowless ce (infer_type ce s source options)"
  "rowless ce (whnf ce s source options)"
  "rowless ce (is_def_eq ce s lhs rhs transparency options)"
  "rowless ce (describe ce s name)"
  "rowless ce (declaration_type ce s name max_bytes)"
  "rowless ce (attempt_proof ce s j options progress)"
  "rowless ce (verify_declaration ce s j options progress)"
  "rowless ce (verify_declaration_batch ce s j options progress)"
  "rowless ce (process_module_query_batch ce s source selectors budgets options)"
  unfolding elaborate_def elaborate_expr_def kernel_check_def declaration_kinds_def declaration_names_def declaration_kind_def
    infer_type_def whnf_def meta_render_expr_def is_def_eq_def describe_def declaration_type_def attempt_proof_def
    verify_declaration_def verify_declaration_batch_def child_sample_rss_def process_module_query_batch_def Let_def
    clear_module_snapshot_cache_for_rss_guard_def
  by (intro rowless_rules rowless_each)+

lemma rowless_bulk_row: "rowless ce (describe_bulk_row ce s kinds types idx name)"
  unfolding describe_bulk_row_def Let_def by (intro rowless_rules)+

lemma rowless_bulk_rows: "rowless ce (describe_bulk_rows ce s kinds types progress tot idx names)"
  by (induction ce s kinds types progress tot idx names rule: describe_bulk_rows.induct)
    (simp_all, intro rowless_rules, auto intro: rowless_rules rowless_bulk_row)

lemma rowless_bulk: "rowless ce (describe_bulk ce s names progress)"
  unfolding describe_bulk_def by (intro rowless_rules rowless_bulk_rows)+

lemma set_bindings_frame [simp]:
  "sv_writer (set_bindings b st) = sv_writer st" "sv_max_frame_bytes (set_bindings b st) = sv_max_frame_bytes st"
  "sv_rt (set_bindings b st) = sv_rt st" "sv_calls (set_bindings b st) = sv_calls st"
  by (simp_all add: set_bindings_def split: option.split)

lemma rowless_bindings: "rowless ce (worker_bindings_for operation export)"
  by (rule rowless_silent) (simp add: worker_bindings_for_def split: option.split)

lemma rowless_resolve: "rowless ce (resolve_export ce operation known add export b)"
  by (rule rowless_silent) (simp add: resolve_export_def lean_call_def split: option.split)

lemma rowless_exports:
  "rowless ce (call_string_io ce operation export request_json)"
  "rowless ce (json_command ce export request_json)"
  "rowless ce (capability_metadata ce export request_json)"
  "rowless ce (capability_doctor ce export request_json)"
  unfolding json_command_def capability_metadata_def capability_doctor_def call_string_io_def string_io_def
    decode_json_def
  by (intro rowless_rules rowless_bindings rowless_resolve)+

lemma rowless_fixtures:
  "rowless ce (child_load_fixture path)"
  "rowless ce (child_fixture_mul ce path lhs rhs)"
  "rowless ce (trigger_lean_panic ce path)"
proof -
  have leaked: "rowless ce (load_leaked_capability p)" for p
    by (rule rowless_silent) (simp add: load_leaked_capability_def split: prod.split sum.split)
  show "rowless ce (child_load_fixture path)"
    by (rule rowless_silent) (simp add: child_load_fixture_def split: prod.split)
  show "rowless ce (child_fixture_mul ce path lhs rhs)" "rowless ce (trigger_lean_panic ce path)"
    unfolding child_fixture_mul_def trigger_lean_panic_def fixture_export_def
    by (intro rowless_rules leaked)+
qed

section \<open>Operations that send rows\<close>

definition emitted :: "data_row_emitter \<Rightarrow> data_row_emitter \<Rightarrow> data_row list \<Rightarrow> bool" where
  "emitted em em' rows \<longleftrightarrow> (\<exists>items. emit_all em items = (rows, em'))"

lemma emitted_nil: "emitted em em []"
  unfolding emitted_def by (rule exI [of _ "[]"]) simp

lemma emitted_next:
  assumes "emitter_next em stream payload = (row, em1)" and "emitted em1 em2 rows"
  shows "emitted em em2 (row # rows)"
proof -
  obtain items where "emit_all em1 items = (rows, em2)" using assms(2) by (auto simp: emitted_def)
  with assms(1) have "emit_all em ((stream, payload) # items) = (row # rows, em2)" by simp
  then show ?thesis unfolding emitted_def by blast
qed

lemma protocol_write_row:
  assumes "protocol_write ce (MDataRow row) st = (r, st')" "open_pipe st"
  obtains (written) "r = Inr ()" "sent ce [MDataRow row] st st'"
  | (refused) e where "r = Inl e" "st' = st"
  using assms by (cases rule: protocol_write_open) auto

lemma write_name_rows_rows:
  "emits ce (\<lambda>r rows. case r of Inr em' \<Rightarrow> emitted em em' rows | Inl _ \<Rightarrow> \<exists>em'. emitted em em' rows)
     (write_name_rows ce names em)"
proof (induction ce names em rule: write_name_rows.induct)
  case (1 ce em)
  show ?case unfolding emits_def using emitted_nil sent_nil by (auto simp: call_ok_def intro!: exI [of _ "[]"])
next
  case (2 ce name names em)
  obtain row em1 where n: "emitter_next em ''rows'' (ce_string_json ce name) = (row, em1)" by fastforce
  show ?case unfolding emits_def
  proof (intro allI impI)
    fix st r st' assume w: "write_name_rows ce (name # names) em st = (r, st')" and o: "open_pipe st"
    obtain x st1 where x: "protocol_write ce (MDataRow row) st = (x, st1)" by (cases "protocol_write ce (MDataRow row) st")
    from x o show "\<exists>ms. sent ce ms st st' \<and> list_all event_message ms \<and>
        (case r of Inr em' \<Rightarrow> emitted em em' (rows_in ms) | Inl _ \<Rightarrow> \<exists>em'. emitted em em' (rows_in ms))"
    proof (cases rule: protocol_write_row)
      case written
      with w n x have "write_name_rows ce names em1 st1 = (r, st')"
        by (simp add: call_bind_def map_err_def)
      from emitsD [OF 2(1) [OF n [symmetric]] this sent_open [OF written(2)]] obtain ms where ms:
        "sent ce ms st1 st'" "list_all event_message ms"
        "case r of Inr em' \<Rightarrow> emitted em1 em' (rows_in ms) | Inl _ \<Rightarrow> \<exists>em'. emitted em1 em' (rows_in ms)" by blast
      from ms(3) have "case r of Inr em' \<Rightarrow> emitted em em' (row # rows_in ms) | Inl _ \<Rightarrow> \<exists>em'. emitted em em' (row # rows_in ms)"
        using emitted_next [OF n] by (auto split: sum.splits)
      with ms(1,2) sent_append [OF written(2) ms(1)] show ?thesis
        by (intro exI [of _ "MDataRow row # ms"]) (cases r; simp)
    next
      case (refused e)
      with w n x have "st' = st" "\<exists>e. r = Inl e" by (auto simp: call_bind_def map_err_def)
      with sent_nil [OF o] emitted_nil [of em] show ?thesis
        by (intro exI [of _ "[]"]) (auto intro: exI [of _ em])
    qed
  qed
qed

lemma child_emit_test_rows_rows:
  "emits ce (\<lambda>r rows. \<exists>em'. emitted em em' rows \<and> (case r of Inr n \<Rightarrow> n = em_count em' | Inl _ \<Rightarrow> True))
     (child_emit_test_rows ce streams idx em)"
proof (induction ce streams idx em rule: child_emit_test_rows.induct)
  case (1 ce idx em)
  show ?case unfolding emits_def using emitted_nil sent_nil by (auto simp: call_ok_def intro!: exI [of _ "[]"] exI [of _ em])
next
  case (2 ce stream streams idx em)
  obtain row em1 where n: "emitter_next em stream (ce_test_row_json ce stream idx) = (row, em1)" by fastforce
  show ?case unfolding emits_def
  proof (intro allI impI)
    fix st r st' assume w: "child_emit_test_rows ce (stream # streams) idx em st = (r, st')" and o: "open_pipe st"
    obtain x st1 where x: "protocol_write ce (MDataRow row) st = (x, st1)" by (cases "protocol_write ce (MDataRow row) st")
    from x o show "\<exists>ms. sent ce ms st st' \<and> list_all event_message ms \<and>
        (\<exists>em'. emitted em em' (rows_in ms) \<and> (case r of Inr n \<Rightarrow> n = em_count em' | Inl _ \<Rightarrow> True))"
    proof (cases rule: protocol_write_row)
      case written
      with w n x have "child_emit_test_rows ce streams (Suc idx) em1 st1 = (r, st')"
        by (simp add: call_bind_def)
      from emitsD [OF 2(1) [OF n [symmetric]] this sent_open [OF written(2)]] obtain ms em' where ms:
        "sent ce ms st1 st'" "list_all event_message ms" "emitted em1 em' (rows_in ms)"
        "case r of Inr n \<Rightarrow> n = em_count em' | Inl _ \<Rightarrow> True" by blast
      with sent_append [OF written(2) ms(1)] emitted_next [OF n ms(3)]
      show ?thesis by (intro exI [of _ "MDataRow row # ms"]) auto
    next
      case (refused e)
      with w n x have "st' = st" "\<exists>e. r = Inl e" by (auto simp: call_bind_def)
      with sent_nil [OF o] emitted_nil [of em] show ?thesis
        by (intro exI [of _ "[]"] conjI exI [of _ em]) auto
    qed
  qed
qed

lemma emitted_trans:
  assumes "emitted a b xs" "emitted b c ys" shows "emitted a c (xs @ ys)"
proof -
  obtain items where i: "emit_all a items = (xs, b)" using assms(1) by (auto simp: emitted_def)
  obtain items' where i': "emit_all b items' = (ys, c)" using assms(2) by (auto simp: emitted_def)
  have "emit_all a (items @ items') = (xs @ ys, c)"
    using i
  proof (induction a items arbitrary: xs rule: emit_all.induct)
    case (2 em s p items)
    obtain row em1 where n: "emitter_next em s p = (row, em1)" by fastforce
    obtain rows em2 where r: "emit_all em1 items = (rows, em2)" by fastforce
    from 2(2) n r have "em2 = b" "xs = row # rows" by simp_all
    with 2(1) [OF n [symmetric]] r n show ?case by simp
  qed (use i' in simp)
  then show ?thesis unfolding emitted_def by blast
qed

definition callback_sends :: "child_env \<Rightarrow> forwarder \<Rightarrow> serve \<Rightarrow> stream_callback_error option \<times> forwarder \<times> serve \<Rightarrow> bool" where
  "callback_sends ce fw st out =
     (case out of (e, fw', st') \<Rightarrow>
        \<exists>ms. sent ce ms st st' \<and> list_all event_message ms \<and>
          (\<exists>em. emitted (fw_emitter fw) em (rows_in ms) \<and> (e = None \<longrightarrow> em = fw_emitter fw')))"

lemma callback_sendsI:
  "sent ce ms st st' \<Longrightarrow> list_all event_message ms \<Longrightarrow> emitted (fw_emitter fw) em (rows_in ms) \<Longrightarrow>
     (e = None \<Longrightarrow> em = fw_emitter fw') \<Longrightarrow> callback_sends ce fw st (e, fw', st')"
  unfolding callback_sends_def by blast

lemma emit_row_sends:
  assumes o: "open_pipe st" and e: "emit_row ce stream payload fw st = (r, fw', st')"
  shows "callback_sends ce fw st (case r of Inl e \<Rightarrow> Some (f e) | Inr _ \<Rightarrow> None, fw', st')"
proof -
  obtain row em where n: "emitter_next (fw_emitter fw) stream payload = (row, em)" by fastforce
  obtain x st1 where x: "protocol_write ce (MDataRow row) st = (x, st1)" by (cases "protocol_write ce (MDataRow row) st")
  from x o show ?thesis
  proof (cases rule: protocol_write_row)
    case written
    obtain u st2 where u: "emit_progress_if (fw_progress fw) ce ''data_stream'' (em_count em) None st1 = (u :: unit + unit, st2)"
      by fastforce
    from rowlessD [OF rowless_progress_if u sent_open [OF written(2)]] obtain ms where ms:
      "sent ce ms st1 st2" "list_all event_message ms" "rows_in ms = []" .
    from e n x written u have "r = Inr ()" "st' = st2" "fw_emitter fw' = em"
      by (auto simp: emit_row_def Let_def)
    with sent_append [OF written(2) ms(1)] ms emitted_next [OF n emitted_nil] show ?thesis
      unfolding callback_sends_def by (auto intro!: exI [of _ "MDataRow row # ms"])
  next
    case (refused e')
    with e n x have "r = Inl e'" "st' = st" by (auto simp: emit_row_def Let_def)
    with sent_nil [OF o] emitted_nil [of "fw_emitter fw"] show ?thesis
      by (intro callback_sendsI [of _ "[]" _ _ _ "fw_emitter fw"]) simp_all
  qed
qed

lemma event_write_sends:
  assumes o: "open_pipe st" and m: "event_message m" "row_in m = []" and w: "protocol_write ce m st = (r, st')"
  shows "callback_sends ce fw st (case r of Inl e \<Rightarrow> Some (f e) | Inr _ \<Rightarrow> None, fw, st')"
proof -
  from rowlessD [OF rowless_write [OF m] w o] obtain ms where
    "sent ce ms st st'" "list_all event_message ms" "rows_in ms = []" .
  then show ?thesis using emitted_nil [of "fw_emitter fw"]
    by (intro callback_sendsI [of _ ms _ _ _ "fw_emitter fw"]) simp_all
qed

lemma row_callback_sends:
  assumes o: "open_pipe st"
  shows "callback_sends ce fw st (row_callback ce raw fw st)"
proof -
  let ?f = "\<lambda>e. CbWrite (protocol_error_text (ce_io_text ce) e)"
  have quiet: "callback_sends ce fw st (e, fw', st)" if "fw_emitter fw' = fw_emitter fw" for e fw'
    using that sent_nil [OF o] emitted_nil [of "fw_emitter fw"]
    by (intro callback_sendsI [of _ "[]" _ _ _ "fw_emitter fw"]) simp_all
  show ?thesis
  proof (cases "parse_row_envelope (ce_envelope ce) (ce_value ce) raw")
    case (Inl msg)
    then show ?thesis using quiet by (simp add: row_callback_def)
  next
    case (Inr ev)
    show ?thesis
    proof (cases ev)
      case (EvRow stream payload)
      obtain r fw' st' where e: "emit_row ce stream payload fw st = (r, fw', st')"
        by (cases "emit_row ce stream payload fw st") auto
      from emit_row_sends [OF o e, of ?f] Inr EvRow e show ?thesis
        by (cases r) (simp_all add: row_callback_def)
    next
      case (EvDiagnostic d)
      obtain r st' where w: "protocol_write ce (MDiagnostic d) st = (r, st')" by fastforce
      from event_write_sends [OF o _ _ w, of fw ?f] Inr EvDiagnostic w show ?thesis
        by (cases r) (simp_all add: row_callback_def)
    next
      case (EvProgress p)
      obtain r st' where w: "protocol_write ce (MProgressTick p) st = (r, st')" by fastforce
      from event_write_sends [OF o _ _ w, of fw ?f] Inr EvProgress w show ?thesis
        by (cases r) (simp_all add: row_callback_def)
    next
      case (EvMetadata v)
      then show ?thesis using Inr quiet [of "fw\<lparr>fw_metadata := Some v\<rparr>" None] by (simp add: row_callback_def)
    qed
  qed
qed

lemma callback_sends_open: "callback_sends ce fw st (e, fw', st') \<Longrightarrow> open_pipe st'"
  by (auto simp: callback_sends_def dest: sent_open)

lemma callback_sends_trans:
  assumes "callback_sends ce fw st (None, fw1, st1)" and "callback_sends ce fw1 st1 out"
  shows "callback_sends ce fw st out"
proof -
  obtain ms where ms: "sent ce ms st st1" "list_all event_message ms" "emitted (fw_emitter fw) (fw_emitter fw1) (rows_in ms)"
    using assms(1) by (auto simp: callback_sends_def)
  obtain e fw2 st2 where out: "out = (e, fw2, st2)" by (cases out) auto
  with assms(2) obtain ns em where ns: "sent ce ns st1 st2" "list_all event_message ns"
    "emitted (fw_emitter fw1) em (rows_in ns)" "e = None \<longrightarrow> em = fw_emitter fw2"
    by (auto simp: callback_sends_def)
  with ms sent_append [OF ms(1) ns(1)] emitted_trans [OF ms(3) ns(3)] out show ?thesis
    unfolding callback_sends_def by (auto intro!: exI [of _ "ms @ ns"] exI [of _ em])
qed

lemma deliver_events_sends:
  "open_pipe st \<Longrightarrow> callback_sends ce fw st (deliver_events ce raws fw st)"
proof (induction ce raws fw st rule: deliver_events.induct)
  case (1 ce fw st)
  then show ?case unfolding callback_sends_def using sent_nil [OF 1] emitted_nil by (auto intro!: exI [of _ "[]"])
next
  case (2 ce raw raws fw st)
  obtain e fw1 st1 where c: "row_callback ce raw fw st = (e, fw1, st1)" by (cases "row_callback ce raw fw st") auto
  have s: "callback_sends ce fw st (e, fw1, st1)" using row_callback_sends [OF 2(2), of ce fw raw] c by simp
  show ?case
  proof (cases e)
    case None
    have c': "row_callback ce raw fw st = (None, fw1, st1)" using c None by simp
    have "callback_sends ce fw1 st1 (deliver_events ce raws fw1 st1)"
      using 2(1) c' callback_sends_open [OF s] by auto
    with callback_sends_trans s None c show ?thesis by auto
  next
    case (Some x)
    then show ?thesis using s c by simp
  qed
qed

section \<open>What a response says of the rows before it\<close>

definition row_account :: "response \<Rightarrow> data_row list \<Rightarrow> bool" where
  "row_account r rows \<longleftrightarrow>
     (\<exists>items em. emit_all emitter_default items = (rows, em) \<and>
        (case r of
           RStreamComplete s \<Rightarrow> ss_total_rows s = em_count em \<and> ss_per_stream_counts s = em_sequences em
         | RRowsComplete n \<Rightarrow> n = em_count em
         | _ \<Rightarrow> True))"

fun counts_rows :: "response \<Rightarrow> bool" where
  "counts_rows (RStreamComplete _) = True"
| "counts_rows (RRowsComplete _) = True"
| "counts_rows _ = False"

lemma row_account_uncounted: "\<not> counts_rows r \<Longrightarrow> emitted emitter_default em rows \<Longrightarrow> row_account r rows"
  by (cases r) (auto simp: row_account_def emitted_def)

lemma row_account_emitted: "row_account r rows \<Longrightarrow> \<exists>em. emitted emitter_default em rows"
  by (auto simp: row_account_def emitted_def)

lemma row_account_none: "\<not> counts_rows r \<Longrightarrow> row_account r []"
  using row_account_uncounted emitted_nil by blast

lemma error_uncounted [simp]: "\<not> counts_rows (error_response e)" "\<not> counts_rows missing_session_response"
  "\<not> counts_rows (output_frame_too_large n m)" "\<not> counts_rows (binding_error_response b)"
  by (simp_all add: error_response_def missing_session_response_def output_frame_too_large_def binding_error_response_def)

lemma worker_call_uncounted [simp]: "\<not> counts_rows (worker_call_response w)"
  by (simp add: worker_call_response_def split: worker_call_error.split)

lemma stream_error_uncounted [simp]: "\<not> counts_rows (stream_error_response s)"
  by (cases s) simp_all

lemma run_export_sends:
  "emits ce (\<lambda>r rows. \<exists>em. emitted emitter_default em rows \<and>
       (case r of Inr s \<Rightarrow> ss_total_rows s = em_count em \<and> ss_per_stream_counts s = em_sequences em | Inl _ \<Rightarrow> True))
     (run_export ce export request_json progress)"
  unfolding emits_def
proof (intro allI impI)
  fix st r st' assume x: "run_export ce export request_json progress st = (r, st')" and o: "open_pipe st"
  let ?st = "st\<lparr>sv_calls := Suc (sv_calls st)\<rparr>"
  let ?sx = "la_stream ce (sv_calls st) export request_json"
  obtain row_error fw st1 where d: "deliver_events ce (sx_events ?sx) (forwarder_new progress) ?st = (row_error, fw, st1)"
    by (cases "deliver_events ce (sx_events ?sx) (forwarder_new progress) ?st") auto
  have o': "open_pipe ?st" using o by (simp add: open_pipe_def)
  from deliver_events_sends [OF o', of ce "forwarder_new progress" "sx_events ?sx"] d obtain ms em where ms:
    "sent ce ms ?st st1" "list_all event_message ms" "emitted emitter_default em (rows_in ms)"
    "row_error = None \<Longrightarrow> em = fw_emitter fw"
    by (auto simp: callback_sends_def forwarder_new_def)
  have send: "sent ce ms st st'" if "sv_writer st' = sv_writer st1" "sv_max_frame_bytes st' = sv_max_frame_bytes st1"
    using ms(1) that by (simp add: sent_def open_pipe_def)
  consider (completed) s n where "r = Inr s" "row_error = None" "s = forwarder_summary fw n"
      "sv_writer st' = sv_writer st1" "sv_max_frame_bytes st' = sv_max_frame_bytes st1"
    | (failed) e where "r = Inl e" "st' = st1"
    using x d by (auto simp: run_export_def Let_def split: sum.splits option.splits stream_callback_error.splits
        callback_status.splits)
  then show "\<exists>ms. sent ce ms st st' \<and> list_all event_message ms \<and> (\<exists>em. emitted emitter_default em (rows_in ms) \<and>
      (case r of Inr s \<Rightarrow> ss_total_rows s = em_count em \<and> ss_per_stream_counts s = em_sequences em | Inl _ \<Rightarrow> True))"
  proof cases
    case completed
    then have "ss_total_rows s = em_count em" "ss_per_stream_counts s = em_sequences em"
      using ms(4) by (auto simp: forwarder_summary_def stream_summary_new_def)
    with ms send completed show ?thesis by auto
  next
    case failed
    with ms send show ?thesis by auto
  qed
qed

lemma emits_after_rowless:
  assumes m: "rowless ce m" and f: "\<And>x. emits ce Q (f x)" and e: "\<And>e. Q (Inl e) []"
  shows "emits ce Q (call_bind m f)"
  by (rule emits_bind [where P = "\<lambda>_ rows. rows = []" and Q = "\<lambda>_. Q"])
    (use m f e in \<open>simp_all add: rowless_def\<close>)

lemma run_data_stream_sends:
  "emits ce (\<lambda>r rows. \<exists>em. emitted emitter_default em rows \<and>
       (case r of Inr s \<Rightarrow> ss_total_rows s = em_count em \<and> ss_per_stream_counts s = em_sequences em | Inl _ \<Rightarrow> True))
     (run_data_stream ce export request_json progress)"
proof -
  let ?Q = "\<lambda>r rows. \<exists>em. emitted emitter_default em rows \<and>
       (case r of Inr s \<Rightarrow> ss_total_rows s = em_count em \<and> ss_per_stream_counts s = em_sequences em | Inl _ \<Rightarrow> True)"
  have nil: "?Q (Inl e) []" for e :: stream_run_error using emitted_nil by auto
  show ?thesis unfolding run_data_stream_def stream_binding_def
    by (rule emits_after_rowless, rule rowless_progress_if, rule emits_after_rowless, rule rowless_lean,
        rule emits_after_rowless, rule rowless_map_err, rule rowless_bindings, rule emits_after_rowless,
        rule rowless_map_err, rule rowless_resolve, rule run_export_sends) (rule nil)+
qed

lemma list_declarations_strings_sends:
  "emits ce (\<lambda>r rows. \<exists>em. emitted emitter_default em rows \<and> (case r of Inr n \<Rightarrow> n = em_count em | Inl _ \<Rightarrow> True))
     (list_declarations_strings ce s flt progress)"
proof -
  let ?Q = "\<lambda>r rows. \<exists>em. emitted emitter_default em rows \<and> (case r of Inr n \<Rightarrow> n = em_count em | Inl _ \<Rightarrow> True)"
  have nil: "?Q (Inl e) []" for e :: lean_error using emitted_nil by auto
  have tail: "emits ce ?Q (call_bind (write_name_rows ce names emitter_default) (\<lambda>em.
     call_bind (emit_progress_if progress ce ''list_declarations_strings'' (clamp_u64 (length names))
         (Some (clamp_u64 (length names)))) (\<lambda>_. call_ok (em_count em))))" for names
  proof (rule emits_bind [OF write_name_rows_rows])
    fix em :: data_row_emitter
    have "rowless ce (call_bind (emit_progress_if progress ce ''list_declarations_strings'' (clamp_u64 (length names))
         (Some (clamp_u64 (length names)))) (\<lambda>_. call_ok (em_count em) :: nat host_call))" by (intro rowless_rules)
    then show "emits ce (\<lambda>r rows. rows = [] \<and> (\<forall>n. r = Inr n \<longrightarrow> n = em_count em))
        (call_bind (emit_progress_if progress ce ''list_declarations_strings'' (clamp_u64 (length names))
         (Some (clamp_u64 (length names)))) (\<lambda>_. call_ok (em_count em) :: nat host_call))"
      unfolding rowless_def emits_def
      by (auto simp: call_bind_def call_ok_def emit_progress_if_def emit_progress_def split: prod.splits if_splits sum.splits)
  qed (auto split: sum.splits)
  show ?thesis unfolding list_declarations_strings_def
    by (intro emits_after_rowless tail rowless_rules nil)
qed

section \<open>Every answer\<close>

text \<open>On an open pipe, \<open>out\<close> comes after events alone and says the truth of the rows among them.\<close>

definition answered :: "child_env \<Rightarrow> serve \<Rightarrow> response \<times> serve \<Rightarrow> bool" where
  "answered ce st out \<longleftrightarrow> (open_pipe st \<longrightarrow>
     (\<exists>ms. sent ce ms st (snd out) \<and> list_all event_message ms \<and> row_account (fst out) (rows_in ms)))"

named_theorems answered_rules

lemma answered_plain [answered_rules]: "\<not> counts_rows r \<Longrightarrow> answered ce st (r, st)"
  unfolding answered_def using sent_nil row_account_none by (intro impI exI [of _ "[]"]) simp

lemma answered_rowless [answered_rules]:
  assumes "rowless ce m" "\<And>x. \<not> counts_rows (ok x)" "\<And>e. \<not> counts_rows (err e)"
  shows "answered ce st (answer_with ok err m st)"
proof (unfold answered_def, intro impI)
  assume o: "open_pipe st"
  obtain r st' where m: "m st = (r, st')" by (cases "m st")
  from rowlessD [OF assms(1) m o] obtain ms where "sent ce ms st st'" "list_all event_message ms" "rows_in ms = []" .
  moreover have "snd (answer_with ok err m st) = st'" "\<not> counts_rows (fst (answer_with ok err m st))"
    using m assms(2,3) by (auto simp: answer_with_def split: sum.split)
  ultimately show "\<exists>ms. sent ce ms st (snd (answer_with ok err m st)) \<and> list_all event_message ms \<and>
      row_account (fst (answer_with ok err m st)) (rows_in ms)"
    using row_account_none by auto
qed

lemma answered_session [answered_rules]:
  "(\<And>s. answered ce st (f s st)) \<Longrightarrow> answered ce st (with_host_session f st)"
  using answered_plain [of missing_session_response] by (simp add: with_host_session_def split: option.split)

lemma answered_counting:
  assumes m: "emits ce (\<lambda>r rows. \<exists>em. emitted emitter_default em rows \<and> (case r of Inr x \<Rightarrow> Q x em | Inl _ \<Rightarrow> True)) m"
    and ok: "\<And>x em rows. emitted emitter_default em rows \<Longrightarrow> Q x em \<Longrightarrow> row_account (ok x) rows"
    and err: "\<And>e. \<not> counts_rows (err e)"
  shows "answered ce st (answer_with ok err m st)"
proof (unfold answered_def, intro impI)
  assume o: "open_pipe st"
  obtain r st' where s: "m st = (r, st')" by (cases "m st")
  from emitsD [OF m s o] obtain ms em where ms: "sent ce ms st st'" "list_all event_message ms"
    "emitted emitter_default em (rows_in ms)" "case r of Inr x \<Rightarrow> Q x em | Inl _ \<Rightarrow> True" by blast
  have "row_account (fst (answer_with ok err m st)) (rows_in ms)"
    using s ms(3,4) ok row_account_uncounted [OF err ms(3)] by (auto simp: answer_with_def split: sum.splits)
  moreover have "snd (answer_with ok err m st) = st'" using s by (auto simp: answer_with_def split: sum.split)
  ultimately show "\<exists>ms. sent ce ms st (snd (answer_with ok err m st)) \<and> list_all event_message ms \<and>
      row_account (fst (answer_with ok err m st)) (rows_in ms)"
    using ms by auto
qed

lemma answered_stream [answered_rules]:
  "answered ce st (answer_with RStreamComplete stream_error_response (run_data_stream ce export request_json progress) st)"
  by (rule answered_counting [OF run_data_stream_sends]) (auto simp: row_account_def emitted_def)

lemma answered_listing [answered_rules]:
  "answered ce st (answer_with RRowsComplete error_response (list_declarations_strings ce s flt progress) st)"
  by (rule answered_counting [OF list_declarations_strings_sends]) (auto simp: row_account_def emitted_def)

lemma open_response_uncounted:
  "open_or_reuse_host_session capacity key cs rt = (r, cs', rt') \<Longrightarrow> \<not> counts_rows r"
  by (auto simp: open_or_reuse_host_session_def import_host_session_def reuse_parked_def Let_def
      split: prod.splits option.splits if_splits sum.splits)

lemma answered_open [answered_rules]: "answered ce st (child_open_request ce key st)"
proof (unfold answered_def, intro impI)
  assume o: "open_pipe st"
  obtain r cs rt where x: "open_or_reuse_host_session (ce_capacity ce) key (sv_sessions st) (sv_rt st) = (r, cs, rt)"
    by (cases "open_or_reuse_host_session (ce_capacity ce) key (sv_sessions st) (sv_rt st)") auto
  from open_response_uncounted [OF x] sent_frame [OF o, of "snd (child_open_request ce key st)" ce] x
  show "\<exists>ms. sent ce ms st (snd (child_open_request ce key st)) \<and> list_all event_message ms \<and>
      row_account (fst (child_open_request ce key st)) (rows_in ms)"
    by (intro exI [of _ "[]"]) (simp add: child_open_request_def row_account_none)
qed

lemma capability_json_uncounted [simp]:
  "(\<And>m. \<not> counts_rows (f m)) \<Longrightarrow> \<not> counts_rows (capability_json_response f e)"
  by (cases e) (simp_all add: capability_json_response_def)

lemmas answer_operations = rowless_operations rowless_bulk rowless_exports rowless_fixtures rowless_lean rowless_clear

lemma answer_request_answered: "answered ce st (answer_request ce request st)"
proof (cases request)
  case (RunDataStream export request_json progress)
  then show ?thesis by (simp, intro answered_rules)
next
  case (ListDeclarationsStrings flt progress)
  then show ?thesis by (simp, intro answered_rules)
next
  case (OpenHostSession root mode names profile)
  then show ?thesis by (simp add: answered_open)
qed (simp, (rule answered_rules answer_operations | simp)+)+

section \<open>One terminal response per request\<close>

definition test_request :: "request \<Rightarrow> bool" where
  "test_request request \<longleftrightarrow>
     (case request of EmitTestRows _ \<Rightarrow> True | EmitTestRowsThenExit \<Rightarrow> True | EmitTestRowsThenPanic \<Rightarrow> True | _ \<Rightarrow> False)"

text \<open>The answer can be encoded, and it fits a frame or its replacement does.\<close>

definition answerable :: "child_env \<Rightarrow> nat \<Rightarrow> response \<Rightarrow> bool" where
  "answerable ce cap r \<longleftrightarrow>
     (\<exists>bytes. ce_encode ce (frame_new (MResponse r)) = Inr bytes) \<and>
     (transmissible ce cap (MResponse r) \<or>
        (\<forall>len \<le> u32_max. transmissible ce cap (MResponse (output_frame_too_large len cap))))"

lemma protocol_write_transmissible:
  assumes "transmissible ce (sv_max_frame_bytes st) m" "open_pipe st" "protocol_write ce m st = (r, st')"
  shows "r = Inr () \<and> sent ce [m] st st'"
  using assms(3,2)
proof (cases rule: protocol_write_open)
  case (refused e)
  with assms show ?thesis
    by (auto simp: protocol_write_def write_frame_def write_all_def transmissible_def open_pipe_def
        split: prod.splits sum.splits if_splits)
qed simp

lemma protocol_write_too_large:
  assumes e: "ce_encode ce (frame_new m) = Inr bytes" and t: "\<not> transmissible ce (sv_max_frame_bytes st) m"
    and w: "protocol_write ce m st = (r, st')"
  obtains len where "r = Inl (FrameTooLarge len (sv_max_frame_bytes st))" "len \<le> u32_max" "st' = st"
proof (cases "u32_max < length bytes")
  case True
  then have "protocol_write ce m st = (Inl (FrameTooLarge u32_max (sv_max_frame_bytes st)), st)"
    by (simp add: protocol_write_def write_frame_def e)
  with w show thesis by (intro that [of u32_max]) auto
next
  case False
  have "sv_max_frame_bytes st < length bytes"
  proof (rule ccontr)
    assume "\<not> sv_max_frame_bytes st < length bytes"
    with False e have "transmissible ce (sv_max_frame_bytes st) m"
      unfolding transmissible_def by (intro exI [of _ bytes]) simp
    with t show False by contradiction
  qed
  with False have "protocol_write ce m st = (Inl (FrameTooLarge (length bytes) (sv_max_frame_bytes st)), st)"
    by (simp add: protocol_write_def write_frame_def e)
  with w False show thesis by (intro that [of "length bytes"]) auto
qed

lemma write_response_sends:
  assumes o: "open_pipe st" and a: "answerable ce (sv_max_frame_bytes st) r"
  obtains r' st' where "write_response ce r st = (Inr (), st')" "sent ce [MResponse r'] st st'"
    "r' = r \<or> (\<not> transmissible ce (sv_max_frame_bytes st) (MResponse r) \<and>
       (\<exists>len. r' = output_frame_too_large len (sv_max_frame_bytes st)))"
proof -
  obtain x st1 where w: "protocol_write ce (MResponse r) st = (x, st1)" by (cases "protocol_write ce (MResponse r) st")
  show thesis
  proof (cases "transmissible ce (sv_max_frame_bytes st) (MResponse r)")
    case True
    from protocol_write_transmissible [OF True o w] w show thesis
      by (intro that [of st1 r]) (auto simp: write_response_def)
  next
    case False
    from a obtain bytes where b: "ce_encode ce (frame_new (MResponse r)) = Inr bytes" by (auto simp: answerable_def)
    from protocol_write_too_large [OF b False w] obtain len where
      l: "x = Inl (FrameTooLarge len (sv_max_frame_bytes st))" "len \<le> u32_max" "st1 = st" .
    let ?f = "output_frame_too_large len (sv_max_frame_bytes st)"
    obtain y st2 where w2: "protocol_write ce (MResponse ?f) st = (y, st2)" by (cases "protocol_write ce (MResponse ?f) st")
    have "transmissible ce (sv_max_frame_bytes st) (MResponse ?f)" using a False l(2) by (auto simp: answerable_def)
    from protocol_write_transmissible [OF this o w2] w w2 l False show thesis
      by (intro that [of st2 ?f]) (auto simp: write_response_def)
  qed
qed

lemma serve_request_plain:
  "\<not> test_request request \<Longrightarrow> serve_request ce request st =
     (case answer_request ce request st of
        (r, st1) \<Rightarrow> serve_after (if request = Terminate then ServeDone else ServeOn) (write_response ce r st1))"
  by (cases request) (simp_all add: test_request_def serve_request_def)

lemma child_request_sends:
  assumes o: "open_pipe st" and t: "\<not> test_request request"
    and a: "answerable ce (sv_max_frame_bytes st) (fst (answer_request ce request st))"
    and s: "serve_request ce request st = (nxt, st')"
  obtains events r where "sent ce (events @ [MResponse r]) st st'" "list_all event_message events"
    "row_account r (rows_in events)" "nxt = (if request = Terminate then ServeDone else ServeOn)"
    "r = fst (answer_request ce request st) \<or>
       (\<not> transmissible ce (sv_max_frame_bytes st) (MResponse (fst (answer_request ce request st))) \<and>
        (\<exists>len. r = output_frame_too_large len (sv_max_frame_bytes st)))"
proof -
  obtain x st1 where x: "answer_request ce request st = (x, st1)" by (cases "answer_request ce request st")
  from answer_request_answered [of ce st request] o x obtain events where ev:
    "sent ce events st st1" "list_all event_message events" "row_account x (rows_in events)"
    by (auto simp: answered_def)
  have cap: "sv_max_frame_bytes st1 = sv_max_frame_bytes st" using ev(1) by (simp add: sent_def)
  have a': "answerable ce (sv_max_frame_bytes st1) x" using a x cap by simp
  obtain r st2 where w:
    "write_response ce x st1 = (Inr (), st2)" "sent ce [MResponse r] st1 st2"
    "r = x \<or> (\<not> transmissible ce (sv_max_frame_bytes st) (MResponse x) \<and>
       (\<exists>len. r = output_frame_too_large len (sv_max_frame_bytes st)))"
    using write_response_sends [OF sent_open [OF ev(1)] a'] unfolding cap by blast
  have n: "nxt = (if request = Terminate then ServeDone else ServeOn)" "st' = st2"
    using s x w(1) by (auto simp: serve_request_plain [OF t] serve_after_def)
  have "row_account r (rows_in events)"
  proof (cases "r = x")
    case False
    then have "\<not> counts_rows r" using w(3) by auto
    with row_account_emitted [OF ev(3)] show ?thesis using row_account_uncounted by blast
  qed (use ev(3) in simp)
  with that [of events r] sent_append [OF ev(1) w(2)] ev(2) n w(3) x show thesis by auto
qed

text \<open>The requests a session has to serve.\<close>

definition session_request :: "request \<Rightarrow> bool" where
  "session_request request \<longleftrightarrow> \<not> test_request request \<and>
     (case request of Health \<Rightarrow> False | LoadFixtureCapability _ \<Rightarrow> False | CallFixtureMul _ _ _ \<Rightarrow> False
      | TriggerLeanPanic _ \<Rightarrow> False | OpenHostSession _ _ _ _ \<Rightarrow> False | Terminate \<Rightarrow> False | _ \<Rightarrow> True)"

lemma missing_session_answer:
  "session_request request \<Longrightarrow> cs_host_session (sv_sessions st) = None \<Longrightarrow>
     answer_request ce request st = (missing_session_response, st)"
  by (cases request) (simp_all add: session_request_def test_request_def with_host_session_def)


section \<open>From the child's pipe to the parent's sink\<close>


text \<open>The reader thread of the parent: up to \<open>n\<close> frames, until one cannot be read.\<close>

fun read_messages :: "(byte list \<Rightarrow> string + frame) \<Rightarrow> nat \<Rightarrow> nat \<Rightarrow> reader \<Rightarrow> message list" where
  "read_messages dec cap 0 rd = []"
| "read_messages dec cap (Suc n) rd =
     (case read_frame dec rd cap of
        (Inr f, rd1) \<Rightarrow> fr_message f # read_messages dec cap n rd1
      | (Inl _, _) \<Rightarrow> [])"

lemma read_frame_empty: "rd_bytes rd = [] \<Longrightarrow> \<exists>rd1. read_frame dec rd cap = (Inl (PIo (rd_end rd)), rd1)"
  by (simp add: read_frame_def read_exact_def)

lemma read_messages_wire:
  assumes codec: "\<And>f bytes. ce_encode ce f = Inr bytes \<Longrightarrow> dec bytes = Inr f"
  shows "list_all (transmissible ce cap) ms \<Longrightarrow> rd_bytes rd = concat (map (wire ce) ms) \<Longrightarrow>
    read_messages dec cap n rd = take n ms"
proof (induction ms arbitrary: n rd)
  case Nil
  then show ?case using read_frame_empty [of rd dec cap] by (cases n) auto
next
  case (Cons m ms)
  from Cons.prems(1) obtain bytes where b: "ce_encode ce (frame_new m) = Inr bytes" "length bytes \<le> cap" "length bytes \<le> u32_max"
    by (auto simp: transmissible_def)
  have wm: "wire ce m = put_block bytes" using b(1) by (simp add: wire_def)
  have "rd_bytes rd = put_block bytes @ concat (map (wire ce) ms)"
    using Cons.prems(2) wm by simp
  from read_frame_block [OF b(2,3) this, of dec] codec [OF b(1)]
  have r: "read_frame dec rd cap = (Inr (frame_new m), rd\<lparr>rd_bytes := concat (map (wire ce) ms)\<rparr>)"
    by (simp add: frame_new_def)
  show ?case
  proof (cases n)
    case (Suc k)
    with r Cons.IH [of "rd\<lparr>rd_bytes := concat (map (wire ce) ms)\<rparr>" k] Cons.prems(1)
    show ?thesis by (simp add: frame_new_def)
  qed simp
qed

lemma rows_delivered: "concat (map row_of (map ReadOk ms)) = rows_in ms"
proof (induction ms)
  case (Cons m ms)
  then show ?case by (cases m) simp_all
qed simp

lemma event_not_response: "list_all event_message ms \<Longrightarrow> MResponse r \<notin> set ms"
  by (induction ms) auto

lemma single_response_split:
  assumes "pre @ ReadOk (MResponse r) # post = map ReadOk (take n (events @ [MResponse r']))"
    and "list_all event_message events"
  shows "r = r' \<and> pre = map ReadOk events \<and> post = []"
proof (cases "n \<le> length events")
  case True
  then have "ReadOk (MResponse r) \<in> ReadOk ` set (take n events)"
    using assms(1) by (metis append_take_drop_id in_set_conv_decomp list.set_map take_append take_eq_Nil diff_is_0_eq append_Nil2)
  then have "MResponse r \<in> set events" using set_take_subset by fastforce
  with event_not_response [OF assms(2)] show ?thesis by blast
next
  case False
  then have all: "pre @ ReadOk (MResponse r) # post = map ReadOk events @ [ReadOk (MResponse r')]"
    using assms(1) by simp
  show ?thesis
  proof (cases post rule: rev_cases)
    case Nil
    with all show ?thesis by simp
  next
    case (snoc ys y)
    with all have "map ReadOk events = pre @ ReadOk (MResponse r) # ys" by simp
    then have "ReadOk (MResponse r) \<in> set (map ReadOk events)" by simp
    then have "MResponse r \<in> set events" by auto
    with event_not_response [OF assms(2)] show ?thesis by blast
  qed
qed

lemma row_account_numbered:
  assumes "row_account r rows" and l: "length rows \<le> u64_max"
  shows "\<forall>s. map dr_sequence (filter (\<lambda>row. dr_stream row = s) rows) =
      [0 ..< length (filter (\<lambda>row. dr_stream row = s) rows)]"
    and "r = RStreamComplete x \<Longrightarrow> ss_total_rows x = length rows" and "r = RRowsComplete n \<Longrightarrow> n = length rows"
proof -
  obtain items em where e: "emit_all emitter_default items = (rows, em)"
    "case r of RStreamComplete s \<Rightarrow> ss_total_rows s = em_count em \<and> ss_per_stream_counts s = em_sequences em
       | RRowsComplete n \<Rightarrow> n = em_count em | _ \<Rightarrow> True"
    using assms(1) by (auto simp: row_account_def)
  have items: "map (\<lambda>r. (dr_stream r, dr_payload r)) rows = items"
    using emit_all_streams [of emitter_default items rows] e(1) by simp
  then have li: "length items = length rows" by (metis length_map)
  have "occurrences s items = length (filter (\<lambda>row. dr_stream row = s) rows)" for s
    using items by (auto simp: occurrences_def filter_map o_def)
  then show "\<forall>s. map dr_sequence (filter (\<lambda>row. dr_stream row = s) rows) =
      [0 ..< length (filter (\<lambda>row. dr_stream row = s) rows)]"
    using emit_all_sequences [of emitter_default items] e(1) li l by (simp add: emitter_default_def)
  have "em_count em = length rows"
    using emit_all_count [of emitter_default items] e(1) li l by (simp add: emitter_default_def)
  with e(2) show "r = RStreamComplete x \<Longrightarrow> ss_total_rows x = length rows" "r = RRowsComplete n \<Longrightarrow> n = length rows"
    by simp_all
qed


section \<open>The child ends with its parent\<close>

lemma write_response_broken:
  assumes "ce_encode ce (frame_new (MResponse r)) = Inr bytes" "transmissible ce (sv_max_frame_bytes st) (MResponse r)"
    and "wr_room (sv_writer st) = Some 0"
  shows "\<exists>st'. write_response ce r st = (Inl (PIo OtherIo), st')"
  using assms
  by (auto simp: write_response_def protocol_write_def write_frame_def write_all_def transmissible_def to_be_bytes_def)

text \<open>C37: A child does not outlive its parent. Reading requests ends: the loop returns for every input, with a
  terminate or exit request, an abort, or the error that stopped it, never asking for more; when standard input is
  closed it stops at once, reporting the end of file, with nothing written; and when standard output is broken the
  response it owes is the last thing it tries.\<close>

theorem child_ends_with_parent:
  "fst (serve_loop ce dec rd st) \<noteq> ServeOn \<and>
   (rd_bytes rd = [] \<longrightarrow> serve_loop ce dec rd st = (ServeFails (PIo (rd_end rd)), st)) \<and>
   (read_frame dec rd (sv_max_frame_bytes st) = (Inr \<lparr>fr_version = v, fr_message = MRequest request\<rparr>, rd1) \<longrightarrow>
      \<not> test_request request \<longrightarrow> answer_request ce request st = (r, st1) \<longrightarrow>
      wr_room (sv_writer st1) = Some 0 \<longrightarrow> transmissible ce (sv_max_frame_bytes st1) (MResponse r) \<longrightarrow>
      fst (serve_loop ce dec rd st) = ServeFails (PIo OtherIo))"
proof (intro conjI impI)
  show "fst (serve_loop ce dec rd st) \<noteq> ServeOn"
  proof (induction ce dec rd st rule: serve_loop.induct)
    case (1 ce dec rd st)
    obtain x rd1 where x: "read_frame dec rd (sv_max_frame_bytes st) = (x, rd1)"
      by (cases "read_frame dec rd (sv_max_frame_bytes st)")
    show ?case
    proof (cases x)
      case (Inl e)
      with x show ?thesis by (subst serve_loop.simps) simp
    next
      case (Inr f)
      obtain nxt st1 where n: "serve_message ce (fr_message f) st = (nxt, st1)"
        by (cases "serve_message ce (fr_message f) st")
      show ?thesis
      proof (cases nxt)
        case ServeOn
        with 1 [of "Inr f" rd1 f] x Inr n show ?thesis by (subst serve_loop.simps) auto
      qed (use x Inr n in \<open>subst serve_loop.simps; simp\<close>)+
    qed
  qed
  show "serve_loop ce dec rd st = (ServeFails (PIo (rd_end rd)), st)" if "rd_bytes rd = []"
    using read_frame_empty [OF that, of dec "sv_max_frame_bytes st"] by (subst serve_loop.simps) auto
  assume f: "read_frame dec rd (sv_max_frame_bytes st) = (Inr \<lparr>fr_version = v, fr_message = MRequest request\<rparr>, rd1)"
    and t: "\<not> test_request request" and a: "answer_request ce request st = (r, st1)"
    and w: "wr_room (sv_writer st1) = Some 0" and tr: "transmissible ce (sv_max_frame_bytes st1) (MResponse r)"
  obtain bytes where "ce_encode ce (frame_new (MResponse r)) = Inr bytes" using tr by (auto simp: transmissible_def)
  from write_response_broken [OF this tr w] obtain st2 where "write_response ce r st1 = (Inl (PIo OtherIo), st2)" by blast
  with f a show "fst (serve_loop ce dec rd st) = ServeFails (PIo OtherIo)"
    by (subst serve_loop.simps) (simp add: serve_message_def serve_request_plain [OF t] serve_after_def)
qed

section \<open>Instances\<close>

text \<open>A table of frames is a codec.\<close>

definition table_enc :: "frame list \<Rightarrow> frame \<Rightarrow> string + byte list" where
  "table_enc fs f = (case position (\<lambda>g. g = f) fs of Some i \<Rightarrow> Inr (replicate i 0) | None \<Rightarrow> Inl ''unsupported'')"

definition table_dec :: "frame list \<Rightarrow> byte list \<Rightarrow> string + frame" where
  "table_dec fs bytes = (if length bytes < length fs then Inr (fs ! length bytes) else Inl ''bad json'')"

lemma table_codec: "table_enc fs f = Inr bytes \<Longrightarrow> table_dec fs bytes = Inr f"
  by (auto simp: table_enc_def table_dec_def dest: position_SomeD split: option.splits)

definition names_row :: data_row where
  "names_row = \<lparr>dr_stream = ''rows'', dr_sequence = 0, dr_payload = ''1''\<rparr>"

definition names_frames :: "frame list" where
  "names_frames = map frame_new [MDataRow names_row, MResponse (RRowsComplete 1)]"

definition demo_env :: child_env where
  "demo_env = \<lparr>ce_encode = table_enc names_frames, ce_vars = (\<lambda>_. None), ce_rss = (\<lambda>_. None), ce_elapsed = (\<lambda>_. 0),
     ce_capacity = 4, ce_sha256 = demo_hash, ce_mode_json = demo_mode_json, ce_toolchain = demo_toolchain,
     ce_options = (\<lambda>_. demo_options), ce_envelope = (\<lambda>_. Inl ''eof''), ce_value = Inr, ce_metadata = Inr, ce_doctor = Inr,
     ce_string_json = (\<lambda>s. s), ce_test_row_json = (\<lambda>s _. s), ce_elab_json = (\<lambda>_. ''''), ce_kernel_json = (\<lambda>_. ''''),
     ce_meta_expr_json = (\<lambda>_. ''''), ce_meta_bool_json = (\<lambda>_. ''''), ce_row_json = (\<lambda>_. ''''), ce_type_json = (\<lambda>_. ''''),
     ce_verification_json = (\<lambda>_. ''''), ce_verification_batch_json = (\<lambda>_. ''''), ce_io_text = (\<lambda>_. ''broken pipe''),
     la_elaborate = (\<lambda>_ _ _ _. Inr (Inr 0)), la_kernel_check = (\<lambda>_ _ _ _. Inr (Checked 0)),
     la_summarize_evidence = (\<lambda>_ _ _. Inr \<lparr>ks_declaration_name = '''', ks_kind = '''', ks_type_signature = ''''\<rparr>),
     la_infer_type = (\<lambda>_ _ e _. Inr (MetaOk e)), la_whnf = (\<lambda>_ _ e _. Inr (MetaOk e)),
     la_is_def_eq = (\<lambda>_ _ _ _ _ _. Inr (MetaOk True)), la_pp_expr = (\<lambda>_ _ _ _. Inr (MetaOk '''')),
     la_expr_to_string_raw = (\<lambda>_ _ _. Inr ''''), la_declaration_kind = (\<lambda>_ _ _. Inr ''missing''),
     la_declaration_name = (\<lambda>_ _ n. Inr n), la_declaration_kind_bulk = (\<lambda>_ _ ns. Inr ns),
     la_declaration_name_bulk = (\<lambda>_ _ ns. Inr ns), la_declaration_type = (\<lambda>_ _ _. Inr None),
     la_declaration_type_bulk = (\<lambda>_ _ _. Inr []), la_declaration_source_range = (\<lambda>_ _ _. Inr None),
     la_list_declarations_strings = (\<lambda>_ _ _. Inr [''1'']), la_search_declarations = (\<lambda>_ _ j. Inr j),
     la_inspect_declaration = (\<lambda>_ _ j. Inr j), la_attempt_proof = (\<lambda>_ _ j _. Inr j),
     la_verify_declaration = (\<lambda>_ _ _ _. Inr VrUnsupported), la_verify_declaration_batch = (\<lambda>_ _ _ _. Inr VbUnsupported),
     la_process_module_query = (\<lambda>_ _ _ j _. Inr j), la_module_query_batch_cached = (\<lambda>_ _ _ _ _ _ _. Inr None),
     la_module_query_batch = (\<lambda>_ _ _ _ j _. Inr j), la_selectors_host = (\<lambda>_. None), la_clear_result_json = (\<lambda>_. ''''),
     la_checked_export = (\<lambda>_ _ _. None), la_string_io = (\<lambda>_ _ s. Inr s),
     la_stream = (\<lambda>_ _ _. \<lparr>sx_events = [], sx_outcome = (\<lambda>_. Inr 0)\<rparr>), la_register_callback = (\<lambda>_. None),
     la_fixture_mul = (\<lambda>_ a b. Inr (a * b)), la_fixture_panic = (\<lambda>_. None)\<rparr>"

definition demo_host_session :: host_session where
  "demo_host_session = \<lparr>hs_key = demo_key ''p'', hs_worker_bindings = None, hs_environment = 0,
     hs_import_stats = demo_import_stats, hs_epoch = 7\<rparr>"

definition demo_serve :: serve where
  "demo_serve = \<lparr>sv_writer = \<lparr>wr_out = [], wr_room = None, wr_flush_fails = False\<rparr>, sv_max_frame_bytes = 65536,
     sv_sessions = \<lparr>cs_host_session = Some demo_host_session, cs_parked = [], cs_anchors = []\<rparr>, sv_rt = demo_rt, sv_calls = 0\<rparr>"

text \<open>A listing of one declaration: a row, then the count.\<close>

definition demo_listing :: request where "demo_listing = ListDeclarationsStrings '''' False"

lemma demo_listing_served:
  "answer_request demo_env demo_listing demo_serve = (RRowsComplete 1,
     demo_serve\<lparr>sv_writer := \<lparr>wr_out = [0, 0, 0, 0], wr_room = None, wr_flush_fails = False\<rparr>, sv_calls := 1\<rparr>)"
  "serve_request demo_env demo_listing demo_serve = (ServeOn,
     demo_serve\<lparr>sv_writer := \<lparr>wr_out = [0, 0, 0, 0, 0, 0, 0, 1, 0], wr_room = None, wr_flush_fails = False\<rparr>, sv_calls := 1\<rparr>)"
proof -
  have enc: "ce_encode demo_env (frame_new (MDataRow names_row)) = Inr []"
    "ce_encode demo_env (frame_new (MResponse (RRowsComplete 1))) = Inr [0]"
    by (simp_all add: demo_env_def table_enc_def names_frames_def frame_new_def)
  have cw: "protocol_write demo_env (MDataRow names_row) st = (Inr (), st\<lparr>sv_writer := (sv_writer st)\<lparr>wr_out := wr_out (sv_writer st) @ [0, 0, 0, 0]\<rparr>\<rparr>)"
    if "open_pipe st" for st
    using that enc(1)
    by (simp add: protocol_write_def write_frame_def write_all_def open_pipe_def to_be_bytes_def)
  have cr: "protocol_write demo_env (MResponse (RRowsComplete 1)) st =
      (Inr (), st\<lparr>sv_writer := (sv_writer st)\<lparr>wr_out := wr_out (sv_writer st) @ [0, 0, 0, 1, 0]\<rparr>\<rparr>)"
    if "open_pipe st" "sv_max_frame_bytes st = 65536" for st
    using that enc(2)
    by (simp add: protocol_write_def write_frame_def write_all_def open_pipe_def to_be_bytes_def u32_max_def)
  have row: "emitter_next emitter_default ''rows'' (ce_string_json demo_env ''1'') = (names_row, \<lparr>em_sequences = [''rows'' \<mapsto> 1], em_count = 1\<rparr>)"
    by (simp add: emitter_next_def emitter_default_def names_row_def demo_env_def sat_inc_exact u64_max_def)
  have listed: "la_list_declarations_strings demo_env n e j = Inr [''1'']" for n e j by (simp add: demo_env_def)
  show a: "answer_request demo_env demo_listing demo_serve = (RRowsComplete 1,
     demo_serve\<lparr>sv_writer := \<lparr>wr_out = [0, 0, 0, 0], wr_room = None, wr_flush_fails = False\<rparr>, sv_calls := 1\<rparr>)"
    by (simp add: demo_listing_def with_host_session_def demo_serve_def answer_with_def list_declarations_strings_def
        call_bind_def emit_progress_if_def call_ok_def lean_call_def row listed cw open_pipe_def map_err_def)
  show "serve_request demo_env demo_listing demo_serve = (ServeOn,
     demo_serve\<lparr>sv_writer := \<lparr>wr_out = [0, 0, 0, 0, 0, 0, 0, 1, 0], wr_room = None, wr_flush_fails = False\<rparr>, sv_calls := 1\<rparr>)"
  proof -
    let ?st1 = "demo_serve\<lparr>sv_writer := \<lparr>wr_out = [0, 0, 0, 0], wr_room = None, wr_flush_fails = False\<rparr>, sv_calls := 1\<rparr>"
    have t: "\<not> test_request demo_listing" "demo_listing \<noteq> Terminate"
      by (simp_all add: demo_listing_def test_request_def)
    have "serve_request demo_env demo_listing demo_serve = serve_after ServeOn (write_response demo_env (RRowsComplete 1) ?st1)"
      unfolding serve_request_plain [OF t(1)] a using t(2) by simp
    also have "protocol_write demo_env (MResponse (RRowsComplete 1)) ?st1 =
        (Inr (), ?st1\<lparr>sv_writer := (sv_writer ?st1)\<lparr>wr_out := wr_out (sv_writer ?st1) @ [0, 0, 0, 1, 0]\<rparr>\<rparr>)"
      by (rule cr) (simp_all add: open_pipe_def demo_serve_def)
    then have "write_response demo_env (RRowsComplete 1) ?st1 =
        (Inr (), ?st1\<lparr>sv_writer := (sv_writer ?st1)\<lparr>wr_out := wr_out (sv_writer ?st1) @ [0, 0, 0, 1, 0]\<rparr>\<rparr>)"
      by (simp add: write_response_def)
    finally show ?thesis by (simp add: serve_after_def)
  qed
qed

lemma demo_serve_open: "open_pipe demo_serve"
  by (simp add: open_pipe_def demo_serve_def)

lemma demo_answerable:
  "\<not> test_request demo_listing"
  "answerable demo_env (sv_max_frame_bytes demo_serve) (fst (answer_request demo_env demo_listing demo_serve))"
  "transmissible demo_env (sv_max_frame_bytes demo_serve) (MResponse (fst (answer_request demo_env demo_listing demo_serve)))"
proof -
  have enc: "ce_encode demo_env (frame_new (MResponse (RRowsComplete 1))) = Inr [0]"
    by (simp add: demo_env_def table_enc_def names_frames_def frame_new_def)
  then have t: "transmissible demo_env 65536 (MResponse (RRowsComplete 1))"
    by (simp add: transmissible_def u32_max_def)
  show "\<not> test_request demo_listing" by (simp add: demo_listing_def test_request_def)
  show "answerable demo_env (sv_max_frame_bytes demo_serve) (fst (answer_request demo_env demo_listing demo_serve))"
    unfolding demo_listing_served fst_conv using enc t by (simp add: answerable_def demo_serve_def)
  show "transmissible demo_env (sv_max_frame_bytes demo_serve) (MResponse (fst (answer_request demo_env demo_listing demo_serve)))"
    unfolding demo_listing_served fst_conv using t by (simp add: demo_serve_def)
qed


definition names_arrivals :: "arrival list" where
  "names_arrivals = [demo_arrival (MDataRow names_row), demo_arrival (MResponse (RRowsComplete 1))]"


theorem child_ends_with_parent_witness:
  "serve_loop demo_env (table_dec names_frames) \<lparr>rd_bytes = [], rd_end = UnexpectedEof\<rparr> demo_serve =
     (ServeFails (PIo UnexpectedEof), demo_serve)"
  using child_ends_with_parent [where rd = "\<lparr>rd_bytes = [], rd_end = UnexpectedEof\<rparr>" and ce = demo_env
      and dec = "table_dec names_frames" and st = demo_serve]
  by simp

end
