(* ===== verification/Host_Pool.thy ===== *)
theory Host_Pool
  imports Lean_Error Wire
begin

text \<open>
  The same-process session pool (\<open>host/pool.rs\<close> of \<open>lean-rs-host\<close>) and the session import it
  performs on a miss (\<open>host/session.rs\<close>, \<open>host/capabilities.rs\<close>): a bounded free list of imported
  environments, reused only for the same project, imports and profile and only while no later
  import has registered an environment extension.

  What Lean and the operating system answer is a \<open>host_rt\<close>: the process-global registration stamp,
  and one script for each kind of call that can fail.  A call takes the head of its script; an
  empty script means success.  An environment is what was imported: for which project, which modules
  under which profile, and the stamp its extension array was sized for.
\<close>

section \<open>Sessions\<close>

record lean_environment =
  env_id :: nat
  env_root :: string
  env_imports :: "string list"
  env_profile :: import_profile
  env_extensions :: nat

datatype import_call =
    SessionImport "string list"
  | SessionImportProgress "string list"
  | SessionImportProfile "string list" bool nat bool
  | SessionImportProfileProgress "string list" bool nat

record host_rt =
  hr_epoch :: nat
  hr_next_env :: nat
  hr_log :: "import_call list"
  hr_cargo_override :: "string option"
  hr_nextest :: bool
  hr_cargo_test_binary :: bool
  hr_cancels :: "bool list"
  hr_search_paths :: "lean_rs_error option list"
  hr_bindings :: "lean_rs_error option list"
  hr_bridges :: "lean_rs_error option list"
  hr_imports :: "(nat \<times> lean_rs_error option) list"
  hr_import_stats :: "(lean_rs_error + import_stats) list"
  hr_epoch_reads :: "lean_rs_error option list"
  hr_elapsed :: "nat list"
  hr_rss :: "nat option list"

type_synonym 'a host_call = "host_rt \<Rightarrow> (lean_rs_error + 'a) \<times> host_rt"

definition host_bind :: "'a host_call \<Rightarrow> ('a \<Rightarrow> 'b host_call) \<Rightarrow> 'b host_call" where
  "host_bind m f rt = (case m rt of (Inl e, rt1) \<Rightarrow> (Inl e, rt1) | (Inr x, rt1) \<Rightarrow> f x rt1)"

definition host_ok :: "'a \<Rightarrow> 'a host_call" where
  "host_ok x rt = (Inr x, rt)"

fun import_all :: "import_profile \<Rightarrow> bool" where
  "import_all FullPrivateCompat = True"
| "import_all ExportedPublic = False"
| "import_all Server = False"
| "import_all Private = False"

datatype import_level = LevelExported | LevelServer | LevelPrivate

fun profile_import_level :: "import_profile \<Rightarrow> import_level" where
  "profile_import_level ExportedPublic = LevelExported"
| "profile_import_level Server = LevelServer"
| "profile_import_level Private = LevelPrivate"
| "profile_import_level FullPrivateCompat = LevelPrivate"

fun import_level_code :: "import_level \<Rightarrow> nat" where
  "import_level_code LevelExported = 0"
| "import_level_code LevelServer = 1"
| "import_level_code LevelPrivate = 2"

definition load_exts :: "import_profile \<Rightarrow> bool" where
  "load_exts p = True"

text \<open>Dispatch metrics of one session.\<close>

record session_stats =
  ss_ffi_calls :: nat
  ss_batch_items :: nat
  ss_elapsed_ns :: nat

definition session_stats_default :: session_stats where
  "session_stats_default = \<lparr>ss_ffi_calls = 0, ss_batch_items = 0, ss_elapsed_ns = 0\<rparr>"

record lean_session =
  ls_environment :: lean_environment
  ls_import_stats :: import_stats
  ls_epoch :: nat
  ls_stats :: session_stats

definition record_call :: "nat \<Rightarrow> nat \<Rightarrow> lean_session \<Rightarrow> lean_session" where
  "record_call batch took s =
     s\<lparr>ls_stats := (ls_stats s)\<lparr>ss_ffi_calls := sat_inc (ss_ffi_calls (ls_stats s)),
        ss_batch_items := sat_add (ss_batch_items (ls_stats s)) batch,
        ss_elapsed_ns := sat_add (ss_elapsed_ns (ls_stats s)) (clamp_u64 took)\<rparr>\<rparr>"

section \<open>Calls\<close>

text \<open>\<open>check_cancellation\<close>: a token, when one is given, is read once.\<close>

definition check_cancellation :: "bool \<Rightarrow> unit host_call" where
  "check_cancellation token rt =
     (if token
      then (case hr_cancels rt of
              [] \<Rightarrow> (Inr (), rt)
            | c # rest \<Rightarrow> (if c then Inl host_cancelled else Inr (), rt\<lparr>hr_cancels := rest\<rparr>))
      else (Inr (), rt))"

definition import_search_paths :: "unit host_call" where
  "import_search_paths rt =
     (case hr_search_paths rt of
        [] \<Rightarrow> (Inr (), rt)
      | None # rest \<Rightarrow> (Inr (), rt\<lparr>hr_search_paths := rest\<rparr>)
      | Some e # rest \<Rightarrow> (Inl e, rt\<lparr>hr_search_paths := rest\<rparr>))"

definition resolve_shims :: "unit host_call" where
  "resolve_shims rt =
     (case hr_bindings rt of
        [] \<Rightarrow> (Inr (), rt)
      | None # rest \<Rightarrow> (Inr (), rt\<lparr>hr_bindings := rest\<rparr>)
      | Some e # rest \<Rightarrow> (Inl e, rt\<lparr>hr_bindings := rest\<rparr>))"

definition progress_bridge :: "bool \<Rightarrow> unit host_call" where
  "progress_bridge progress rt =
     (if progress
      then (case hr_bridges rt of
              [] \<Rightarrow> (Inr (), rt)
            | None # rest \<Rightarrow> (Inr (), rt\<lparr>hr_bridges := rest\<rparr>)
            | Some e # rest \<Rightarrow> (Inl e, rt\<lparr>hr_bridges := rest\<rparr>))
      else (Inr (), rt))"

text \<open>
  The import shims.  The initializers of the imported modules may register extensions, so the stamp
  may move, also when the import fails in the end.
\<close>

definition lean_import :: "import_call \<Rightarrow> string \<Rightarrow> string list \<Rightarrow> import_profile \<Rightarrow> lean_environment host_call" where
  "lean_import call root imports profile rt =
     (let (registered, failure) = (case hr_imports rt of [] \<Rightarrow> (0, None) | x # _ \<Rightarrow> x);
          epoch = hr_epoch rt + registered;
          rt1 = rt\<lparr>hr_log := hr_log rt @ [call], hr_imports := tl (hr_imports rt), hr_epoch := epoch\<rparr>
      in case failure of
           Some e \<Rightarrow> (Inl e, rt1)
         | None \<Rightarrow> (Inr \<lparr>env_id = hr_next_env rt, env_root = root, env_imports = imports, env_profile = profile,
                        env_extensions = epoch\<rparr>, rt1\<lparr>hr_next_env := Suc (hr_next_env rt)\<rparr>))"

definition no_import_stats :: import_stats where
  "no_import_stats =
     \<lparr>is_direct_import_names = [], is_effective_module_count = 0, is_compacted_region_count = 0,
      is_memory_mapped_region_count = 0, is_compacted_region_bytes = 0, is_memory_mapped_region_bytes = 0,
      is_non_memory_mapped_region_bytes = 0, is_imported_bytes = 0, is_imported_constant_count = 0,
      is_extension_count = 0, is_total_imported_extension_entries = 0, is_import_level = ''private'',
      is_import_all = False, is_load_exts = True\<rparr>"

definition env_import_stats :: "lean_environment \<Rightarrow> import_stats host_call" where
  "env_import_stats env rt =
     (case hr_import_stats rt of
        [] \<Rightarrow> (Inr no_import_stats, rt)
      | r # rest \<Rightarrow> (r, rt\<lparr>hr_import_stats := rest\<rparr>))"

definition extension_registry_epoch :: "nat host_call" where
  "extension_registry_epoch rt =
     (case hr_epoch_reads rt of
        [] \<Rightarrow> (Inr (hr_epoch rt), rt)
      | None # rest \<Rightarrow> (Inr (hr_epoch rt), rt\<lparr>hr_epoch_reads := rest\<rparr>)
      | Some e # rest \<Rightarrow> (Inl e, rt\<lparr>hr_epoch_reads := rest\<rparr>))"

section \<open>Importing a session\<close>

definition import_call_for :: "import_profile \<Rightarrow> bool \<Rightarrow> string list \<Rightarrow> import_call" where
  "import_call_for profile progress imports =
     (if progress
      then (if profile = Private then SessionImportProgress imports
            else SessionImportProfileProgress imports (import_all profile)
                   (import_level_code (profile_import_level profile)))
      else (if profile = Private then SessionImport imports
            else SessionImportProfile imports (import_all profile)
                   (import_level_code (profile_import_level profile)) (load_exts profile)))"

definition import_with_profile :: "string \<Rightarrow> string list \<Rightarrow> import_profile \<Rightarrow> bool \<Rightarrow> bool \<Rightarrow> lean_session host_call" where
  "import_with_profile root imports profile token progress =
     host_bind (check_cancellation token) (\<lambda>_.
     host_bind import_search_paths (\<lambda>_.
     host_bind resolve_shims (\<lambda>_.
     host_bind (progress_bridge progress) (\<lambda>_.
     host_bind (lean_import (import_call_for profile progress imports) root imports profile) (\<lambda>env.
     host_bind (env_import_stats env) (\<lambda>stats.
     host_bind extension_registry_epoch (\<lambda>epoch.
     host_ok \<lparr>ls_environment = env, ls_import_stats = stats, ls_epoch = epoch, ls_stats = session_stats_default\<rparr>)))))))"

definition env_value_truthy :: "string option \<Rightarrow> bool" where
  "env_value_truthy v =
     (case v of None \<Rightarrow> False
      | Some s \<Rightarrow> s \<in> {''1'', ''true'', ''TRUE'', ''yes'', ''YES'', ''on'', ''ON''})"

definition import_guard_active_from_facts :: "string option \<Rightarrow> bool \<Rightarrow> bool \<Rightarrow> bool" where
  "import_guard_active_from_facts override nextest test_binary =
     (if env_value_truthy override \<or> nextest then False else test_binary)"

definition HOST_CARGO_TEST_IMPORT_OVERRIDE :: string where
  "HOST_CARGO_TEST_IMPORT_OVERRIDE = ''LEAN_RS_ALLOW_CARGO_TEST_HOST_IMPORTS''"

definition reject_same_process_cargo_test_session_import :: "unit host_call" where
  "reject_same_process_cargo_test_session_import rt =
     (if \<not> import_guard_active_from_facts (hr_cargo_override rt) (hr_nextest rt) (hr_cargo_test_binary rt)
      then (Inr (), rt)
      else (Inl (resource_exhausted
              (''lean-rs-host full-session imports are disabled under same-process cargo test; '' @
               ''run `cargo nextest run -p lean-rs-host ...` for process-per-test isolation, '' @
               ''or set '' @ HOST_CARGO_TEST_IMPORT_OVERRIDE @ ''=1 for an explicitly budgeted single-test debug run'')), rt))"

definition session_with_profile :: "string \<Rightarrow> string list \<Rightarrow> import_profile \<Rightarrow> bool \<Rightarrow> bool \<Rightarrow> lean_session host_call" where
  "session_with_profile root imports profile token progress =
     host_bind reject_same_process_cargo_test_session_import (\<lambda>_.
     import_with_profile root imports profile token progress)"

text \<open>A pooled environment wrapped again; its metrics start at zero.\<close>

definition from_environment_with_import_stats :: "lean_environment \<Rightarrow> import_stats \<Rightarrow> nat \<Rightarrow> lean_session host_call" where
  "from_environment_with_import_stats env stats epoch =
     host_bind resolve_shims (\<lambda>_.
     host_ok \<lparr>ls_environment = env, ls_import_stats = stats, ls_epoch = epoch, ls_stats = session_stats_default\<rparr>)"

definition live_registry_epoch :: "lean_session \<Rightarrow> host_rt \<Rightarrow> (lean_rs_error + nat) \<times> lean_session \<times> host_rt" where
  "live_registry_epoch s rt =
     (let (r, rt1) = extension_registry_epoch rt;
          took = (case hr_elapsed rt1 of [] \<Rightarrow> 0 | t # _ \<Rightarrow> t)
      in (r, record_call 0 took s, rt1\<lparr>hr_elapsed := tl (hr_elapsed rt1)\<rparr>))"

definition current_process_rss_kib :: "host_rt \<Rightarrow> nat option \<times> host_rt" where
  "current_process_rss_kib rt =
     (case hr_rss rt of [] \<Rightarrow> (None, rt) | r # rest \<Rightarrow> (r, rt\<lparr>hr_rss := rest\<rparr>))"

section \<open>The pool\<close>

datatype key_miss_reason = MissEmptyPool | MissReuseDisabled | MissNoMatchingKey | MissStaleEnvironment

fun miss_reason_label :: "key_miss_reason \<Rightarrow> string" where
  "miss_reason_label MissEmptyPool = ''empty_pool''"
| "miss_reason_label MissReuseDisabled = ''reuse_disabled''"
| "miss_reason_label MissStaleEnvironment = ''stale_environment''"
| "miss_reason_label MissNoMatchingKey = ''no_matching_key''"

record pool_stats =
  pt_imports_performed :: nat
  pt_reused :: nat
  pt_acquired :: nat
  pt_released_to_pool :: nat
  pt_released_dropped :: nat
  pt_drains :: nat
  pt_drained :: nat
  pt_fresh_import_refusals :: nat
  pt_rss_samples :: nat
  pt_rss_samples_unavailable :: nat
  pt_key_hits :: nat
  pt_key_misses :: nat
  pt_distinct_keys_seen :: nat
  pt_fresh_imports_avoided :: nat
  pt_miss_empty_pool :: nat
  pt_miss_reuse_disabled :: nat
  pt_miss_no_matching_key :: nat
  pt_miss_stale_environment :: nat
  pt_stale_evictions :: nat
  pt_last_miss_reason :: "key_miss_reason option"

definition pool_stats_default :: pool_stats where
  "pool_stats_default =
     \<lparr>pt_imports_performed = 0, pt_reused = 0, pt_acquired = 0, pt_released_to_pool = 0, pt_released_dropped = 0,
      pt_drains = 0, pt_drained = 0, pt_fresh_import_refusals = 0, pt_rss_samples = 0,
      pt_rss_samples_unavailable = 0, pt_key_hits = 0, pt_key_misses = 0, pt_distinct_keys_seen = 0,
      pt_fresh_imports_avoided = 0, pt_miss_empty_pool = 0, pt_miss_reuse_disabled = 0,
      pt_miss_no_matching_key = 0, pt_miss_stale_environment = 0, pt_stale_evictions = 0,
      pt_last_miss_reason = None\<rparr>"

record pool_memory_policy =
  mp_max_fresh_imports :: "nat option"
  mp_max_rss_kib :: "nat option"

definition memory_policy_disabled :: pool_memory_policy where
  "memory_policy_disabled = \<lparr>mp_max_fresh_imports = None, mp_max_rss_kib = None\<rparr>"

definition policy_max_fresh_imports :: "nat \<Rightarrow> pool_memory_policy \<Rightarrow> pool_memory_policy" where
  "policy_max_fresh_imports limit p = p\<lparr>mp_max_fresh_imports := Some (max limit 1)\<rparr>"

definition policy_max_rss_kib :: "nat \<Rightarrow> pool_memory_policy \<Rightarrow> pool_memory_policy" where
  "policy_max_rss_kib limit_kib p = p\<lparr>mp_max_rss_kib := Some (max limit_kib 1)\<rparr>"

record session_pool_key =
  pk_project_root :: string
  pk_imports :: "string list"
  pk_import_profile :: import_profile

record pooled_entry =
  pe_key :: session_pool_key
  pe_environment :: lean_environment
  pe_import_stats :: import_stats
  pe_epoch :: nat

record session_pool =
  sp_capacity :: nat
  sp_memory_policy :: pool_memory_policy
  sp_free :: "pooled_entry list"
  sp_seen_keys :: "session_pool_key list"
  sp_last_import_stats :: "import_stats option"
  sp_stats :: pool_stats

definition pool_with_config :: "nat \<Rightarrow> pool_memory_policy \<Rightarrow> session_pool" where
  "pool_with_config capacity policy =
     \<lparr>sp_capacity = capacity, sp_memory_policy = policy, sp_free = [], sp_seen_keys = [],
      sp_last_import_stats = None, sp_stats = pool_stats_default\<rparr>"

definition take_matching :: "session_pool_key \<Rightarrow> pooled_entry list \<Rightarrow> (pooled_entry \<times> pooled_entry list) option" where
  "take_matching key free =
     map_option (\<lambda>idx. (free ! idx, remove_at idx free)) (rposition (\<lambda>e. pe_key e = key) free)"

definition pool_upd :: "(pool_stats \<Rightarrow> pool_stats) \<Rightarrow> session_pool \<Rightarrow> session_pool" where
  "pool_upd f p = p\<lparr>sp_stats := f (sp_stats p)\<rparr>"

definition bump_reused :: "session_pool \<Rightarrow> session_pool" where
  "bump_reused = pool_upd (\<lambda>s. s\<lparr>pt_reused := sat_inc (pt_reused s), pt_acquired := sat_inc (pt_acquired s),
     pt_key_hits := sat_inc (pt_key_hits s), pt_fresh_imports_avoided := sat_inc (pt_fresh_imports_avoided s),
     pt_last_miss_reason := None\<rparr>)"

definition bump_imported :: "session_pool \<Rightarrow> session_pool" where
  "bump_imported = pool_upd (\<lambda>s. s\<lparr>pt_imports_performed := sat_inc (pt_imports_performed s),
     pt_acquired := sat_inc (pt_acquired s)\<rparr>)"

definition remember_key :: "session_pool_key \<Rightarrow> session_pool \<Rightarrow> session_pool" where
  "remember_key key p =
     (if list_all (\<lambda>seen. seen \<noteq> key) (sp_seen_keys p)
      then pool_upd (\<lambda>s. s\<lparr>pt_distinct_keys_seen := clamp_u64 (length (sp_seen_keys p @ [key]))\<rparr>)
             (p\<lparr>sp_seen_keys := sp_seen_keys p @ [key]\<rparr>)
      else p)"

definition miss_reason :: "session_pool \<Rightarrow> key_miss_reason" where
  "miss_reason p =
     (if sp_capacity p = 0 then MissReuseDisabled
      else if sp_free p = [] then MissEmptyPool else MissNoMatchingKey)"

definition bump_stale_evictions :: "nat \<Rightarrow> session_pool \<Rightarrow> session_pool" where
  "bump_stale_evictions count = pool_upd (\<lambda>s. s\<lparr>pt_stale_evictions := sat_add (pt_stale_evictions s) count\<rparr>)"

definition sweep_stale :: "nat option \<Rightarrow> session_pool \<Rightarrow> session_pool" where
  "sweep_stale live p =
     (let kept = filter (\<lambda>e. live = Some (pe_epoch e)) (sp_free p);
          evicted = length (sp_free p) - length kept;
          p1 = p\<lparr>sp_free := kept\<rparr>
      in if 0 < evicted then bump_stale_evictions (clamp_u64 evicted) p1 else p1)"

fun count_miss :: "key_miss_reason \<Rightarrow> pool_stats \<Rightarrow> pool_stats" where
  "count_miss MissEmptyPool s = s\<lparr>pt_miss_empty_pool := sat_inc (pt_miss_empty_pool s)\<rparr>"
| "count_miss MissReuseDisabled s = s\<lparr>pt_miss_reuse_disabled := sat_inc (pt_miss_reuse_disabled s)\<rparr>"
| "count_miss MissNoMatchingKey s = s\<lparr>pt_miss_no_matching_key := sat_inc (pt_miss_no_matching_key s)\<rparr>"
| "count_miss MissStaleEnvironment s = s\<lparr>pt_miss_stale_environment := sat_inc (pt_miss_stale_environment s)\<rparr>"

definition bump_key_miss :: "key_miss_reason \<Rightarrow> session_pool \<Rightarrow> session_pool" where
  "bump_key_miss reason = pool_upd (\<lambda>s.
     (count_miss reason (s\<lparr>pt_key_misses := sat_inc (pt_key_misses s)\<rparr>))\<lparr>pt_last_miss_reason := Some reason\<rparr>)"

definition bump_fresh_import_refusal :: "session_pool \<Rightarrow> session_pool" where
  "bump_fresh_import_refusal = pool_upd (\<lambda>s. s\<lparr>pt_fresh_import_refusals := sat_inc (pt_fresh_import_refusals s)\<rparr>)"

definition bump_rss_sample :: "bool \<Rightarrow> session_pool \<Rightarrow> session_pool" where
  "bump_rss_sample unavailable = pool_upd (\<lambda>s.
     let s1 = s\<lparr>pt_rss_samples := sat_inc (pt_rss_samples s)\<rparr> in
     if unavailable then s1\<lparr>pt_rss_samples_unavailable := sat_inc (pt_rss_samples_unavailable s1)\<rparr> else s1)"

section \<open>Refusals\<close>

definition bool_text :: "bool \<Rightarrow> string" where
  "bool_text b = (if b then ''true'' else ''false'')"

definition memory_diagnostic :: "import_stats \<Rightarrow> string" where
  "memory_diagnostic s =
     ''import_profile=level:'' @ is_import_level s @ '' import_all:'' @ bool_text (is_import_all s) @
     '' load_exts:'' @ bool_text (is_load_exts s) @
     '' direct_import_count='' @ decimal (length (is_direct_import_names s)) @
     '' direct_imports='' @ join_with '','' (is_direct_import_names s) @
     '' effective_modules='' @ decimal (is_effective_module_count s) @
     '' compacted_regions='' @ decimal (is_compacted_region_count s) @
     '' memory_mapped_regions='' @ decimal (is_memory_mapped_region_count s) @
     '' compacted_region_bytes='' @ decimal (is_compacted_region_bytes s) @
     '' memory_mapped_region_bytes='' @ decimal (is_memory_mapped_region_bytes s) @
     '' non_memory_mapped_region_bytes='' @ decimal (is_non_memory_mapped_region_bytes s) @
     '' imported_constants='' @ decimal (is_imported_constant_count s) @
     '' extension_entries='' @ decimal (is_total_imported_extension_entries s)"

definition latest_import_stats_diagnostic :: "session_pool \<Rightarrow> string" where
  "latest_import_stats_diagnostic p =
     (case sp_last_import_stats p of
        None \<Rightarrow> ''last_import_stats=unavailable''
      | Some s \<Rightarrow> ''last_import_stats=available '' @ memory_diagnostic s)"

definition resource_refusal ::
  "session_pool \<Rightarrow> string \<Rightarrow> string \<Rightarrow> nat option \<Rightarrow> nat option \<Rightarrow> nat option \<Rightarrow> nat option \<Rightarrow> nat \<Rightarrow> lean_rs_error" where
  "resource_refusal p cause msg current_rss_kib limit_kib import_count import_limit requested =
     resource_exhausted_with_facts msg (Some
       \<lparr>xf_cause = cause, xf_work_entered_lean = False, xf_current_rss_kib = current_rss_kib, xf_limit_kib = limit_kib,
        xf_import_count = import_count, xf_import_limit = import_limit, xf_requested_imports = Some requested,
        xf_last_import_stats = map_option memory_diagnostic (sp_last_import_stats p)\<rparr>)"

definition fresh_import_limit_error :: "session_pool \<Rightarrow> nat \<Rightarrow> string list \<Rightarrow> lean_rs_error" where
  "fresh_import_limit_error p limit imports =
     resource_refusal p ''same_process_fresh_import_limit''
       (''same-process SessionPool refused fresh import #'' @ decimal (sat_inc (pt_imports_performed (sp_stats p))) @
        '' for '' @ decimal (length imports) @ '' import(s): max_fresh_imports='' @ decimal limit @ ''; '' @
        latest_import_stats_diagnostic p @ ''; reuse a pooled environment or cycle the worker process'')
       None None (Some (pt_imports_performed (sp_stats p))) (Some limit) (length imports)"

definition rss_ceiling_error :: "session_pool \<Rightarrow> nat \<Rightarrow> nat \<Rightarrow> string list \<Rightarrow> lean_rs_error" where
  "rss_ceiling_error p current_kib limit_kib imports =
     resource_refusal p ''same_process_rss_ceiling''
       (''same-process SessionPool refused fresh import for '' @ decimal (length imports) @
        '' import(s): current RSS '' @ decimal current_kib @ '' KiB reached max_rss_kib='' @ decimal limit_kib @ ''; '' @
        latest_import_stats_diagnostic p @
        ''; cycle the worker process to reset Lean process-global import state'')
       (Some current_kib) (Some limit_kib) (Some (pt_imports_performed (sp_stats p))) None (length imports)"

definition rss_unavailable_error :: "session_pool \<Rightarrow> nat \<Rightarrow> string list \<Rightarrow> lean_rs_error" where
  "rss_unavailable_error p limit_kib imports =
     resource_refusal p ''same_process_rss_sample_unavailable''
       (''same-process SessionPool refused fresh import for '' @ decimal (length imports) @
        '' import(s): current RSS sample unavailable while max_rss_kib='' @ decimal limit_kib @ '' is configured; '' @
        latest_import_stats_diagnostic p)
       None (Some limit_kib) (Some (pt_imports_performed (sp_stats p))) None (length imports)"

definition enforce_before_fresh_import ::
  "string list \<Rightarrow> session_pool \<Rightarrow> host_rt \<Rightarrow> (lean_rs_error + unit) \<times> session_pool \<times> host_rt" where
  "enforce_before_fresh_import imports p rt =
     (let rss_step =
        (case mp_max_rss_kib (sp_memory_policy p) of
           None \<Rightarrow> (Inr (), p, rt)
         | Some limit_kib \<Rightarrow>
             (case current_process_rss_kib rt of
                (Some current_kib, rt1) \<Rightarrow>
                  if limit_kib \<le> current_kib
                  then (Inl (rss_ceiling_error p current_kib limit_kib imports),
                        bump_fresh_import_refusal (bump_rss_sample False p), rt1)
                  else (Inr (), bump_rss_sample False p, rt1)
              | (None, rt1) \<Rightarrow>
                  (Inl (rss_unavailable_error p limit_kib imports),
                   bump_fresh_import_refusal (bump_rss_sample True p), rt1)))
      in case mp_max_fresh_imports (sp_memory_policy p) of
           Some limit \<Rightarrow>
             (if limit \<le> pt_imports_performed (sp_stats p)
              then (Inl (fresh_import_limit_error p limit imports), bump_fresh_import_refusal p, rt)
              else rss_step)
         | None \<Rightarrow> rss_step)"

section \<open>Acquiring and releasing\<close>

record pooled_session =
  ps_key :: session_pool_key
  ps_session :: lean_session

text \<open>What the matched entry is good for: a session, a counted miss, or the error of wrapping it.\<close>

definition try_reuse ::
  "(key_miss_reason + pooled_entry) \<Rightarrow> session_pool \<Rightarrow> host_rt
     \<Rightarrow> (lean_rs_error + lean_session option) \<times> session_pool \<times> host_rt" where
  "try_reuse matched p rt =
     (case matched of
        Inl reason \<Rightarrow> (Inr None, bump_key_miss reason p, rt)
      | Inr entry \<Rightarrow>
          (case from_environment_with_import_stats (pe_environment entry) (pe_import_stats entry) (pe_epoch entry) rt of
             (Inl e, rt1) \<Rightarrow> (Inl e, p, rt1)
           | (Inr session, rt1) \<Rightarrow>
               (case live_registry_epoch session rt1 of
                  (live, session1, rt2) \<Rightarrow>
                    if (case live of Inr v \<Rightarrow> v = pe_epoch entry | Inl _ \<Rightarrow> False)
                    then (Inr (Some session1), bump_reused p, rt2)
                    else (Inr None, bump_key_miss MissStaleEnvironment (bump_stale_evictions 1 p), rt2))))"

definition fresh_session ::
  "session_pool_key \<Rightarrow> bool \<Rightarrow> bool \<Rightarrow> session_pool \<Rightarrow> host_rt
     \<Rightarrow> (lean_rs_error + lean_session) \<times> session_pool \<times> host_rt" where
  "fresh_session key token progress p rt =
     (case enforce_before_fresh_import (pk_imports key) p rt of
        (Inl e, p1, rt1) \<Rightarrow> (Inl e, p1, rt1)
      | (Inr _, p1, rt1) \<Rightarrow>
          (case session_with_profile (pk_project_root key) (pk_imports key) (pk_import_profile key) token progress rt1 of
             (Inl e, rt2) \<Rightarrow> (Inl e, p1, rt2)
           | (Inr session, rt2) \<Rightarrow>
               (Inr session, bump_imported (p1\<lparr>sp_last_import_stats := Some (ls_import_stats session)\<rparr>), rt2)))"

definition matched_entry :: "session_pool_key \<Rightarrow> session_pool \<Rightarrow> (key_miss_reason + pooled_entry) \<times> session_pool" where
  "matched_entry key p =
     (case take_matching key (sp_free p) of
        Some (entry, rest) \<Rightarrow> (Inr entry, p\<lparr>sp_free := rest\<rparr>)
      | None \<Rightarrow> (Inl (miss_reason p), p))"

definition acquire_with_profile ::
  "session_pool_key \<Rightarrow> bool \<Rightarrow> bool \<Rightarrow> session_pool \<Rightarrow> host_rt
     \<Rightarrow> (lean_rs_error + pooled_session) \<times> session_pool \<times> host_rt" where
  "acquire_with_profile key token progress p rt =
     (case check_cancellation token rt of
        (Inl e, rt0) \<Rightarrow> (Inl e, p, rt0)
      | (Inr _, rt0) \<Rightarrow>
          (case matched_entry key (remember_key key p) of
             (matched, p1) \<Rightarrow>
               (case try_reuse matched p1 rt0 of
                  (Inl e, p2, rt1) \<Rightarrow> (Inl e, p2, rt1)
                | (Inr (Some session), p2, rt1) \<Rightarrow>
                    (Inr \<lparr>ps_key = key, ps_session = session\<rparr>, sweep_stale (Some (ls_epoch session)) p2, rt1)
                | (Inr None, p2, rt1) \<Rightarrow>
                    (case fresh_session key token progress p2 rt1 of
                       (Inl e, p3, rt2) \<Rightarrow> (Inl e, p3, rt2)
                     | (Inr session, p3, rt2) \<Rightarrow>
                         (Inr \<lparr>ps_key = key, ps_session = session\<rparr>, sweep_stale (Some (ls_epoch session)) p3, rt2)))))"

definition pool_acquire :: "string \<Rightarrow> string list \<Rightarrow> bool \<Rightarrow> bool \<Rightarrow> session_pool \<Rightarrow> host_rt
     \<Rightarrow> (lean_rs_error + pooled_session) \<times> session_pool \<times> host_rt" where
  "pool_acquire root imports =
     acquire_with_profile \<lparr>pk_project_root = root, pk_imports = imports, pk_import_profile = Private\<rparr>"

definition pool_drain :: "session_pool \<Rightarrow> nat \<times> session_pool" where
  "pool_drain p =
     (let drained = length (sp_free p) in
      (drained, pool_upd (\<lambda>s. s\<lparr>pt_drains := sat_inc (pt_drains s),
         pt_drained := sat_add (pt_drained s) (clamp_u64 drained)\<rparr>) (p\<lparr>sp_free := []\<rparr>)))"

definition pool_release :: "session_pool_key \<Rightarrow> lean_environment \<Rightarrow> import_stats \<Rightarrow> nat \<Rightarrow> session_pool \<Rightarrow> session_pool" where
  "pool_release key env stats epoch p =
     (if length (sp_free p) < sp_capacity p
      then pool_upd (\<lambda>s. s\<lparr>pt_released_to_pool := sat_inc (pt_released_to_pool s)\<rparr>)
             (p\<lparr>sp_free := sp_free p @ [\<lparr>pe_key = key, pe_environment = env, pe_import_stats = stats, pe_epoch = epoch\<rparr>]\<rparr>)
      else pool_upd (\<lambda>s. s\<lparr>pt_released_dropped := sat_inc (pt_released_dropped s)\<rparr>) p)"

text \<open>Dropping a checked-out session returns its environment.\<close>

definition drop_pooled :: "pooled_session \<Rightarrow> session_pool \<Rightarrow> session_pool" where
  "drop_pooled s =
     pool_release (ps_key s) (ls_environment (ps_session s)) (ls_import_stats (ps_session s)) (ls_epoch (ps_session s))"

section \<open>Histories\<close>

text \<open>
  A pool, what it has checked out, and the process around it, where other code may import modules
  that register extensions.
\<close>

datatype pool_op =
    Acquire session_pool_key bool bool
  | Return nat
  | Drain
  | OtherImport nat

record pool_world =
  pw_pool :: session_pool
  pw_rt :: host_rt
  pw_out :: "pooled_session list"

fun apply_pool_op :: "pool_op \<Rightarrow> pool_world \<Rightarrow> pool_world" where
  "apply_pool_op (Acquire key token progress) w =
     (case acquire_with_profile key token progress (pw_pool w) (pw_rt w) of
        (Inl _, p, rt) \<Rightarrow> w\<lparr>pw_pool := p, pw_rt := rt\<rparr>
      | (Inr s, p, rt) \<Rightarrow> w\<lparr>pw_pool := p, pw_rt := rt, pw_out := pw_out w @ [s]\<rparr>)"
| "apply_pool_op (Return i) w =
     (if i < length (pw_out w)
      then w\<lparr>pw_pool := drop_pooled (pw_out w ! i) (pw_pool w), pw_out := remove_at i (pw_out w)\<rparr>
      else w)"
| "apply_pool_op Drain w = w\<lparr>pw_pool := snd (pool_drain (pw_pool w))\<rparr>"
| "apply_pool_op (OtherImport n) w = w\<lparr>pw_rt := (pw_rt w)\<lparr>hr_epoch := hr_epoch (pw_rt w) + n\<rparr>\<rparr>"

definition run_pool :: "pool_op list \<Rightarrow> pool_world \<Rightarrow> pool_world" where
  "run_pool = fold apply_pool_op"

section \<open>The ledger\<close>

text \<open>
  The accounts of a pool with \<open>o\<close> sessions checked out, \<open>h\<close> entries taken off the free list and not yet
  accounted for, \<open>q\<close> counted misses not yet followed by an import or a refusal, at most \<open>a\<close> acquisitions,
  \<open>m\<close> misses and \<open>k\<close> keys; \<open>exact\<close> says that no taken entry has been lost to a failed rewrap.
\<close>

definition session_pool_ledger :: "bool \<Rightarrow> nat \<Rightarrow> nat \<Rightarrow> nat \<Rightarrow> nat \<Rightarrow> nat \<Rightarrow> nat \<Rightarrow> session_pool \<Rightarrow> bool" where
  "session_pool_ledger exact out h q a m k p \<longleftrightarrow>
     (let s = sp_stats p in
      length (sp_free p) \<le> sp_capacity p \<and>
      pt_acquired s = pt_imports_performed s + pt_reused s \<and>
      pt_acquired s = out + pt_released_to_pool s + pt_released_dropped s \<and>
      pt_key_hits s = pt_reused s \<and> pt_fresh_imports_avoided s = pt_reused s \<and>
      pt_key_misses s = pt_miss_empty_pool s + pt_miss_reuse_disabled s + pt_miss_no_matching_key s +
        pt_miss_stale_environment s \<and>
      pt_miss_stale_environment s \<le> pt_stale_evictions s \<and>
      pt_imports_performed s + pt_fresh_import_refusals s + q \<le> pt_key_misses s \<and>
      length (sp_free p) + pt_reused s + pt_stale_evictions s + pt_drained s + h \<le> pt_released_to_pool s \<and>
      (exact \<longrightarrow> length (sp_free p) + pt_reused s + pt_stale_evictions s + pt_drained s + h = pt_released_to_pool s) \<and>
      pt_distinct_keys_seen s = length (sp_seen_keys p) \<and> distinct (sp_seen_keys p) \<and>
      (\<forall>limit. mp_max_fresh_imports (sp_memory_policy p) = Some limit \<longrightarrow> 0 < limit \<longrightarrow> pt_imports_performed s \<le> limit) \<and>
      pt_acquired s \<le> a \<and> pt_key_misses s \<le> m \<and> length (sp_seen_keys p) \<le> k)"

lemma pool_upd_simps [simp]:
  "sp_stats (pool_upd f p) = f (sp_stats p)" "sp_free (pool_upd f p) = sp_free p"
  "sp_capacity (pool_upd f p) = sp_capacity p" "sp_memory_policy (pool_upd f p) = sp_memory_policy p"
  "sp_seen_keys (pool_upd f p) = sp_seen_keys p" "sp_last_import_stats (pool_upd f p) = sp_last_import_stats p"
  by (simp_all add: pool_upd_def)

lemma ledger_remember:
  "session_pool_ledger exact out h q a m k p \<Longrightarrow> k < u64_max \<Longrightarrow> session_pool_ledger exact out h q a m (k + 1) (remember_key key p)"
  by (auto simp: session_pool_ledger_def remember_key_def Let_def clamp_u64_def list_all_iff)

lemma take_matching_Some:
  assumes "take_matching key free = Some (entry, rest)"
  shows "pe_key entry = key" "length free = length rest + 1" "set free = insert entry (set rest)"
    "\<exists>i. i < length free \<and> entry = free ! i \<and> rest = remove_at i free \<and>
       (\<forall>j. i < j \<longrightarrow> j < length free \<longrightarrow> pe_key (free ! j) \<noteq> key)"
proof -
  from assms obtain i where i: "rposition (\<lambda>e. pe_key e = key) free = Some i" "entry = free ! i" "rest = remove_at i free"
    by (auto simp: take_matching_def)
  from rposition_SomeD [OF i(1)] i(2,3)
  show "pe_key entry = key" "length free = length rest + 1" "set free = insert entry (set rest)"
    "\<exists>i. i < length free \<and> entry = free ! i \<and> rest = remove_at i free \<and>
       (\<forall>j. i < j \<longrightarrow> j < length free \<longrightarrow> pe_key (free ! j) \<noteq> key)"
    by (auto simp: length_remove_at set_remove_at)
qed

lemma ledger_take:
  "session_pool_ledger exact out 0 q a m k p \<Longrightarrow> length (sp_free p) = length rest + 1 \<Longrightarrow>
     session_pool_ledger exact out 1 q a m k (p\<lparr>sp_free := rest\<rparr>)"
  by (simp add: session_pool_ledger_def Let_def)

lemma ledger_lose:
  "session_pool_ledger exact out h q a m k p \<Longrightarrow> session_pool_ledger False out 0 0 a m k p"
  by (auto simp: session_pool_ledger_def Let_def)

lemma ledger_settle:
  "session_pool_ledger exact out 0 q a m k p \<Longrightarrow> session_pool_ledger exact out 0 0 a m k p"
  by (auto simp: session_pool_ledger_def Let_def)

lemma ledger_key_miss:
  "session_pool_ledger exact out 0 0 a m k p \<Longrightarrow> m < u64_max \<Longrightarrow> reason \<noteq> MissStaleEnvironment \<Longrightarrow>
     session_pool_ledger exact out 0 1 a (m + 1) k (bump_key_miss reason p)"
  by (cases reason) (auto simp: session_pool_ledger_def Let_def bump_key_miss_def sat_inc_exact)

lemma ledger_stale:
  "session_pool_ledger exact out 1 0 a m k p \<Longrightarrow> m < u64_max \<Longrightarrow> a < u64_max \<Longrightarrow>
     session_pool_ledger exact out 0 1 a (m + 1) k (bump_key_miss MissStaleEnvironment (bump_stale_evictions 1 p))"
  by (auto simp: session_pool_ledger_def Let_def bump_key_miss_def bump_stale_evictions_def sat_inc_exact)

lemma ledger_reused:
  "session_pool_ledger exact out 1 0 a m k p \<Longrightarrow> a < u64_max \<Longrightarrow>
     session_pool_ledger exact (out + 1) 0 0 (a + 1) m k (bump_reused p)"
  by (auto simp: session_pool_ledger_def Let_def bump_reused_def sat_inc_exact)

lemma ledger_imported:
  "session_pool_ledger exact out 0 1 a m k p \<Longrightarrow> a < u64_max \<Longrightarrow>
     (\<forall>limit. mp_max_fresh_imports (sp_memory_policy p) = Some limit \<longrightarrow> pt_imports_performed (sp_stats p) < limit) \<Longrightarrow>
     session_pool_ledger exact (out + 1) 0 0 (a + 1) m k (bump_imported (p\<lparr>sp_last_import_stats := x\<rparr>))"
  by (auto simp: session_pool_ledger_def Let_def bump_imported_def sat_inc_exact)

lemma ledger_refusal:
  "session_pool_ledger exact out 0 1 a m k p \<Longrightarrow> m < u64_max \<Longrightarrow>
     session_pool_ledger exact out 0 0 a m k (bump_fresh_import_refusal p)"
  by (auto simp: session_pool_ledger_def Let_def bump_fresh_import_refusal_def sat_inc_exact)

lemma ledger_rss_sample:
  "session_pool_ledger exact out h q a m k p \<Longrightarrow> session_pool_ledger exact out h q a m k (bump_rss_sample unavailable p)"
  by (simp add: session_pool_ledger_def Let_def bump_rss_sample_def)

lemma ledger_sweep:
  assumes "session_pool_ledger exact out 0 0 a m k p" "a < u64_max"
  shows "session_pool_ledger exact out 0 0 a m k (sweep_stale live p)"
proof -
  let ?kept = "filter (\<lambda>e. live = Some (pe_epoch e)) (sp_free p)"
  have le: "length ?kept \<le> length (sp_free p)" by simp
  obtain d where d: "length (sp_free p) = length ?kept + d" using le le_Suc_ex by blast
  have "length (sp_free p) + pt_stale_evictions (sp_stats p) \<le> pt_released_to_pool (sp_stats p)"
    "pt_released_to_pool (sp_stats p) \<le> a"
    using assms(1) by (auto simp: session_pool_ledger_def Let_def)
  then have "pt_stale_evictions (sp_stats p) + d \<le> u64_max" "d \<le> u64_max" using d assms(2) by simp_all
  then have ev: "sat_add (pt_stale_evictions (sp_stats p)) (clamp_u64 d) = pt_stale_evictions (sp_stats p) + d"
    by (simp add: clamp_u64_def sat_add_exact)
  show ?thesis
    using assms d ev by (auto simp: session_pool_ledger_def Let_def sweep_stale_def bump_stale_evictions_def)
qed

lemma ledger_release:
  "session_pool_ledger exact (out + 1) 0 0 a m k p \<Longrightarrow> a < u64_max \<Longrightarrow>
     session_pool_ledger exact out 0 0 a m k (pool_release key env stats epoch p)"
  by (auto simp: session_pool_ledger_def Let_def pool_release_def sat_inc_exact)

lemma ledger_drain:
  assumes "session_pool_ledger exact out 0 0 a m k p" "a < u64_max"
  shows "session_pool_ledger exact out 0 0 a m k (snd (pool_drain p))"
proof -
  have "pt_drained (sp_stats p) + length (sp_free p) \<le> pt_released_to_pool (sp_stats p)"
    "pt_released_to_pool (sp_stats p) \<le> a"
    using assms(1) by (auto simp: session_pool_ledger_def Let_def)
  then have "sat_add (pt_drained (sp_stats p)) (clamp_u64 (length (sp_free p))) =
      pt_drained (sp_stats p) + length (sp_free p)"
    using assms(2) by (simp add: clamp_u64_def sat_add_exact)
  then show ?thesis using assms by (auto simp: session_pool_ledger_def Let_def pool_drain_def)
qed

section \<open>What calls leave alone\<close>

text \<open>
  A call outside an import touches neither the registration stamp nor the environments; no call adds
  to the script of binding failures.
\<close>

definition rt_frame :: "host_rt \<Rightarrow> host_rt \<Rightarrow> bool" where
  "rt_frame rt rt' \<longleftrightarrow> set (hr_bindings rt') \<subseteq> set (hr_bindings rt) \<and> hr_epoch rt' = hr_epoch rt \<and>
     hr_next_env rt' = hr_next_env rt \<and> hr_log rt' = hr_log rt"

lemma rt_frame_refl [simp]: "rt_frame rt rt"
  by (simp add: rt_frame_def)

lemma rt_frame_trans [trans]: "rt_frame a b \<Longrightarrow> rt_frame b c \<Longrightarrow> rt_frame a c"
  by (auto simp: rt_frame_def)

lemma check_cancellation_frame: "check_cancellation token rt = (r, rt') \<Longrightarrow> rt_frame rt rt'"
  by (auto simp: check_cancellation_def rt_frame_def split: if_splits list.splits)

lemma import_search_paths_frame: "import_search_paths rt = (r, rt') \<Longrightarrow> rt_frame rt rt'"
  by (auto simp: import_search_paths_def rt_frame_def split: list.splits option.splits)

lemma resolve_shims_frame: "resolve_shims rt = (r, rt') \<Longrightarrow> rt_frame rt rt'"
  by (auto simp: resolve_shims_def rt_frame_def split: list.splits option.splits)

lemma resolve_shims_fails: "resolve_shims rt = (Inl e, rt') \<Longrightarrow> Some e \<in> set (hr_bindings rt)"
  by (auto simp: resolve_shims_def split: list.splits option.splits)

lemma progress_bridge_frame: "progress_bridge progress rt = (r, rt') \<Longrightarrow> rt_frame rt rt'"
  by (auto simp: progress_bridge_def rt_frame_def split: if_splits list.splits option.splits)

lemma env_import_stats_frame: "env_import_stats env rt = (r, rt') \<Longrightarrow> rt_frame rt rt'"
  by (auto simp: env_import_stats_def rt_frame_def split: list.splits)

lemma epoch_frame: "extension_registry_epoch rt = (r, rt') \<Longrightarrow> rt_frame rt rt' \<and> (\<forall>v. r = Inr v \<longrightarrow> v = hr_epoch rt)"
  by (auto simp: extension_registry_epoch_def rt_frame_def split: list.splits option.splits)

lemma live_registry_frame:
  assumes "live_registry_epoch s rt = (r, s', rt')"
  shows "rt_frame rt rt'" "r = Inr v \<Longrightarrow> v = hr_epoch rt"
    "ls_environment s' = ls_environment s" "ls_epoch s' = ls_epoch s" "ls_import_stats s' = ls_import_stats s"
proof -
  obtain rt1 where e: "extension_registry_epoch rt = (r, rt1)" "rt' = rt1\<lparr>hr_elapsed := tl (hr_elapsed rt1)\<rparr>"
    and s: "s' = record_call 0 (case hr_elapsed rt1 of [] \<Rightarrow> 0 | t # _ \<Rightarrow> t) s"
    using assms by (cases "extension_registry_epoch rt") (auto simp: live_registry_epoch_def Let_def)
  from epoch_frame [OF e(1)] e(2) show "rt_frame rt rt'" "r = Inr v \<Longrightarrow> v = hr_epoch rt"
    by (auto simp: rt_frame_def)
  from s show "ls_environment s' = ls_environment s" "ls_epoch s' = ls_epoch s" "ls_import_stats s' = ls_import_stats s"
    by (simp_all add: record_call_def)
qed

lemma rss_frame: "current_process_rss_kib rt = (r, rt') \<Longrightarrow> rt_frame rt rt'"
  by (auto simp: current_process_rss_kib_def rt_frame_def split: list.splits)

lemma host_bind_Inr:
  "host_bind m f rt = (Inr y, rt') \<longleftrightarrow> (\<exists>x rt1. m rt = (Inr x, rt1) \<and> f x rt1 = (Inr y, rt'))"
  by (auto simp: host_bind_def split: prod.splits sum.splits)

lemma host_bind_Inl:
  "host_bind m f rt = (Inl e, rt') \<longleftrightarrow> m rt = (Inl e, rt') \<or> (\<exists>x rt1. m rt = (Inr x, rt1) \<and> f x rt1 = (Inl e, rt'))"
  by (auto simp: host_bind_def split: prod.splits sum.splits)

text \<open>
  What a fresh import does to the process: at most one import call, for the requested modules and
  profile; a session it returns holds a new environment sized for the stamp as it now stands.
\<close>

definition imports_once :: "import_call \<Rightarrow> host_rt \<Rightarrow> host_rt \<Rightarrow> bool" where
  "imports_once call rt rt' \<longleftrightarrow> set (hr_bindings rt') \<subseteq> set (hr_bindings rt) \<and> hr_epoch rt \<le> hr_epoch rt' \<and>
     hr_next_env rt \<le> hr_next_env rt' \<and> (hr_log rt' = hr_log rt \<or> hr_log rt' = hr_log rt @ [call])"

lemma lean_import_once:
  assumes "lean_import call root imports profile rt = (r, rt')"
  shows "imports_once call rt rt'"
  using assms by (auto simp: lean_import_def Let_def imports_once_def split: list.splits option.splits)

lemma imports_once_frame: "rt_frame a b \<Longrightarrow> imports_once call b c \<Longrightarrow> rt_frame c d \<Longrightarrow> imports_once call a d"
  by (auto simp: rt_frame_def imports_once_def)

lemma frame_imports_once: "rt_frame a b \<Longrightarrow> imports_once call a b"
  by (auto simp: rt_frame_def imports_once_def)

definition newly_imported ::
  "import_call \<Rightarrow> string \<Rightarrow> string list \<Rightarrow> import_profile \<Rightarrow> host_rt \<Rightarrow> lean_session \<Rightarrow> host_rt \<Rightarrow> bool" where
  "newly_imported call root imports profile rt s rt' \<longleftrightarrow>
     ls_environment s = \<lparr>env_id = hr_next_env rt, env_root = root, env_imports = imports, env_profile = profile,
       env_extensions = hr_epoch rt'\<rparr> \<and>
     ls_epoch s = hr_epoch rt' \<and> hr_next_env rt' = Suc (hr_next_env rt) \<and> hr_log rt' = hr_log rt @ [call] \<and>
     ls_stats s = session_stats_default"

lemma import_with_profile_spec:
  assumes "import_with_profile root imports profile token progress rt = (r, rt')"
  shows "imports_once (import_call_for profile progress imports) rt rt'"
    "r = Inr s \<Longrightarrow> newly_imported (import_call_for profile progress imports) root imports profile rt s rt'"
proof -
  let ?call = "import_call_for profile progress imports"
  obtain r0 rt0 where c: "check_cancellation token rt = (r0, rt0)" by fastforce
  obtain r1 rt1 where p: "import_search_paths rt0 = (r1, rt1)" by fastforce
  obtain r2 rt2 where b: "resolve_shims rt1 = (r2, rt2)" by fastforce
  obtain r3 rt3 where g: "progress_bridge progress rt2 = (r3, rt3)" by fastforce
  obtain r4 rt4 where i: "lean_import ?call root imports profile rt3 = (r4, rt4)" by fastforce
  note frames = check_cancellation_frame [OF c] import_search_paths_frame [OF p] resolve_shims_frame [OF b]
    progress_bridge_frame [OF g]
  have f1: "rt_frame rt rt1" and f2: "rt_frame rt rt2" and f3: "rt_frame rt rt3"
    using frames rt_frame_trans by blast+
  have once: "imports_once ?call rt4 d \<Longrightarrow> rt_frame rt4 d \<Longrightarrow> imports_once ?call rt d" for d
    using imports_once_frame [OF f3 lean_import_once [OF i]] .
  note simps = assms import_with_profile_def host_bind_def host_ok_def c p b g i
  have "imports_once ?call rt rt' \<and> (r = Inr s \<longrightarrow> newly_imported ?call root imports profile rt s rt')"
  proof (cases "(\<exists>e. r0 = Inl e) \<or> (\<exists>e. r1 = Inl e) \<or> (\<exists>e. r2 = Inl e) \<or> (\<exists>e. r3 = Inl e)")
    case True
    then have "(rt' = rt0 \<or> rt' = rt1 \<or> rt' = rt2 \<or> rt' = rt3) \<and> (\<exists>e. r = Inl e)"
      using assms by (auto simp: import_with_profile_def host_bind_def c p b g split: sum.splits)
    then show ?thesis using f1 f2 f3 frames(1) frame_imports_once by auto
  next
    case False
    then obtain x0 x1 x2 x3 where ok: "r0 = Inr x0" "r1 = Inr x1" "r2 = Inr x2" "r3 = Inr x3"
      by (metis sum.exhaust)
    show ?thesis
    proof (cases r4)
      case (Inl e)
      then have "r = Inl e" "rt' = rt4"
        using assms ok by (simp_all add: import_with_profile_def host_bind_def c p b g i)
      then show ?thesis using imports_once_frame [OF f3 lean_import_once [OF i] rt_frame_refl] by simp
    next
      case (Inr env)
      obtain r5 rt5 where st: "env_import_stats env rt4 = (r5, rt5)" by fastforce
      obtain r6 rt6 where ep: "extension_registry_epoch rt5 = (r6, rt6)" by fastforce
      have f45: "rt_frame rt4 rt5" using env_import_stats_frame [OF st] .
      have f46: "rt_frame rt4 rt6" using f45 epoch_frame [OF ep] rt_frame_trans by blast
      have env: "env = \<lparr>env_id = hr_next_env rt, env_root = root, env_imports = imports, env_profile = profile,
          env_extensions = hr_epoch rt4\<rparr>" "hr_next_env rt4 = Suc (hr_next_env rt)" "hr_log rt4 = hr_log rt @ [?call]"
        using i Inr f3 by (auto simp: lean_import_def Let_def rt_frame_def split: list.splits option.splits)
      have "rt' = (if \<exists>e. r5 = Inl e then rt5 else rt6)"
        using assms ok Inr st ep
        by (auto simp: import_with_profile_def host_bind_def host_ok_def c p b g i split: sum.splits)
      then have o: "imports_once ?call rt rt'" and f4: "rt_frame rt4 rt'"
        using imports_once_frame [OF f3 lean_import_once [OF i]] f45 f46 by auto
      have "r = Inr s \<longrightarrow> ls_environment s = env \<and> r6 = Inr (ls_epoch s) \<and> ls_stats s = session_stats_default"
        using assms ok Inr st ep
        by (auto simp: import_with_profile_def host_bind_def host_ok_def c p b g i split: sum.splits)
      moreover have "r6 = Inr (ls_epoch s) \<Longrightarrow> ls_epoch s = hr_epoch rt5" using epoch_frame [OF ep] by simp
      ultimately show ?thesis using o env f4 f45 by (auto simp: rt_frame_def newly_imported_def)
    qed
  qed
  then show "imports_once ?call rt rt'"
    "r = Inr s \<Longrightarrow> newly_imported ?call root imports profile rt s rt'"
    by blast+
qed

lemma session_with_profile_spec:
  assumes "session_with_profile root imports profile token progress rt = (r, rt')"
  shows "imports_once (import_call_for profile progress imports) rt rt'"
    "r = Inr s \<Longrightarrow> newly_imported (import_call_for profile progress imports) root imports profile rt s rt'"
proof -
  have "(\<exists>e. r = Inl e \<and> rt' = rt) \<or> import_with_profile root imports profile token progress rt = (r, rt')"
    using assms by (auto simp: session_with_profile_def host_bind_def reject_same_process_cargo_test_session_import_def
        split: if_splits)
  then show "imports_once (import_call_for profile progress imports) rt rt'"
    "r = Inr s \<Longrightarrow> newly_imported (import_call_for profile progress imports) root imports profile rt s rt'"
    using import_with_profile_spec frame_imports_once [OF rt_frame_refl] by blast+
qed

section \<open>The outcomes of an acquire\<close>

definition miss_step :: "session_pool_key \<Rightarrow> session_pool \<Rightarrow> session_pool \<Rightarrow> bool" where
  "miss_step key p p1 \<longleftrightarrow>
     (case take_matching key (sp_free p) of
        None \<Rightarrow> p1 = bump_key_miss (miss_reason p) p
      | Some (entry, rest) \<Rightarrow>
          p1 = bump_key_miss MissStaleEnvironment (bump_stale_evictions 1 (p\<lparr>sp_free := rest\<rparr>)))"

lemma remember_key_fields [simp]:
  "sp_free (remember_key key p) = sp_free p" "sp_capacity (remember_key key p) = sp_capacity p"
  "sp_memory_policy (remember_key key p) = sp_memory_policy p"
  by (simp_all add: remember_key_def)

lemma rewrap_cases:
  assumes "from_environment_with_import_stats env stats epoch rt = (r, rt')"
  shows "rt_frame rt rt'" "r = Inl e \<Longrightarrow> Some e \<in> set (hr_bindings rt)"
    "r = Inr s \<Longrightarrow> s = \<lparr>ls_environment = env, ls_import_stats = stats, ls_epoch = epoch, ls_stats = session_stats_default\<rparr>"
proof -
  obtain r1 where b: "resolve_shims rt = (r1, rt')" "r1 = Inl e \<or> (\<exists>x. r1 = Inr x)"
    "(r = Inl e \<longrightarrow> r1 = Inl e)"
    "r = Inr s \<longrightarrow> s = \<lparr>ls_environment = env, ls_import_stats = stats, ls_epoch = epoch, ls_stats = session_stats_default\<rparr>"
    if "r = Inl e \<or> (\<exists>x. r = Inr x)"
    using assms by (fastforce simp: from_environment_with_import_stats_def host_bind_def host_ok_def split: prod.splits sum.splits)
  have "resolve_shims rt = (r1, rt1) \<Longrightarrow> rt' = rt1" for r1 rt1
    using assms by (auto simp: from_environment_with_import_stats_def host_bind_def host_ok_def split: sum.splits)
  then show "rt_frame rt rt'" using resolve_shims_frame by (metis surj_pair)
  show "r = Inl e \<Longrightarrow> Some e \<in> set (hr_bindings rt)"
    using b resolve_shims_fails by blast
  show "r = Inr s \<Longrightarrow> s = \<lparr>ls_environment = env, ls_import_stats = stats, ls_epoch = epoch, ls_stats = session_stats_default\<rparr>"
    using b by blast
qed

lemma try_reuse_cases:
  assumes "try_reuse (fst (matched_entry key p)) (snd (matched_entry key p)) rt = (r, p', rt')"
  obtains (lost) entry rest e where "take_matching key (sp_free p) = Some (entry, rest)" "r = Inl e"
      "p' = p\<lparr>sp_free := rest\<rparr>" "Some e \<in> set (hr_bindings rt)" "rt_frame rt rt'"
  | (reused) entry rest s where "take_matching key (sp_free p) = Some (entry, rest)" "r = Inr (Some s)"
      "p' = bump_reused (p\<lparr>sp_free := rest\<rparr>)" "ls_environment s = pe_environment entry" "ls_epoch s = pe_epoch entry"
      "ls_import_stats s = pe_import_stats entry" "hr_epoch rt = pe_epoch entry" "rt_frame rt rt'"
  | (missed) "r = Inr None" "miss_step key p p'" "rt_frame rt rt'"
proof (cases "take_matching key (sp_free p)")
  case None
  then show ?thesis using assms missed by (auto simp: matched_entry_def try_reuse_def miss_step_def)
next
  case (Some er)
  then obtain entry rest where t: "take_matching key (sp_free p) = Some (entry, rest)" by (cases er) auto
  let ?p = "p\<lparr>sp_free := rest\<rparr>"
  obtain r1 rt1 where w: "from_environment_with_import_stats (pe_environment entry) (pe_import_stats entry)
      (pe_epoch entry) rt = (r1, rt1)" by fastforce
  note w' = rewrap_cases [OF w]
  show ?thesis
  proof (cases r1)
    case (Inl e)
    then have "r = Inl e" "p' = ?p" "rt' = rt1" using assms t w by (simp_all add: matched_entry_def try_reuse_def)
    then show ?thesis using lost t w' Inl by blast
  next
    case (Inr s)
    obtain live s1 rt2 where l: "live_registry_epoch s rt1 = (live, s1, rt2)" by (metis prod_cases3)
    note lf = live_registry_frame [OF l]
    have f: "rt_frame rt rt2" using w'(1) lf(1) rt_frame_trans by blast
    have s: "ls_environment s1 = pe_environment entry" "ls_epoch s1 = pe_epoch entry"
      "ls_import_stats s1 = pe_import_stats entry" using w'(3) [OF Inr] lf(3-5) by simp_all
    show ?thesis
    proof (cases "live = Inr (pe_epoch entry)")
      case True
      then have "r = Inr (Some s1)" "p' = bump_reused ?p" "rt' = rt2"
        using assms t w Inr l by (simp_all add: matched_entry_def try_reuse_def)
      moreover have "hr_epoch rt = pe_epoch entry" using lf(2) [OF True] w'(1) by (simp add: rt_frame_def)
      ultimately show ?thesis using reused t s f by blast
    next
      case False
      then have "\<not> (case live of Inr v \<Rightarrow> v = pe_epoch entry | Inl _ \<Rightarrow> False)" by (cases live) auto
      then have "r = Inr None" "miss_step key p p'" "rt' = rt2"
        using assms t w Inr l by (simp_all add: matched_entry_def try_reuse_def miss_step_def)
      then show ?thesis using missed f by blast
    qed
  qed
qed

lemma enforce_cases:
  assumes "enforce_before_fresh_import imports p rt = (r, p', rt')"
  obtains (refused) e p1 cause msg current limit_kib count limit where "r = Inl e" "p' = bump_fresh_import_refusal p1"
      "p1 = p \<or> (\<exists>u. p1 = bump_rss_sample u p)" "rt_frame rt rt'"
      "e = resource_refusal p cause msg current limit_kib count limit (length imports)"
  | (admitted) "r = Inr ()" "p' = p \<or> (\<exists>u. p' = bump_rss_sample u p)" "rt_frame rt rt'"
      "\<forall>limit. mp_max_fresh_imports (sp_memory_policy p) = Some limit \<longrightarrow> pt_imports_performed (sp_stats p) < limit"
      "\<forall>limit. mp_max_rss_kib (sp_memory_policy p) = Some limit \<longrightarrow>
         (\<exists>current. fst (current_process_rss_kib rt) = Some current \<and> current < limit)"
proof (cases "\<exists>limit. mp_max_fresh_imports (sp_memory_policy p) = Some limit \<and> limit \<le> pt_imports_performed (sp_stats p)")
  case True
  then obtain limit where "mp_max_fresh_imports (sp_memory_policy p) = Some limit" "limit \<le> pt_imports_performed (sp_stats p)"
    by blast
  then have r: "r = Inl (fresh_import_limit_error p limit imports)" "p' = bump_fresh_import_refusal p" "rt' = rt"
    using assms by (simp_all add: enforce_before_fresh_import_def Let_def)
  show ?thesis
    by (rule refused [of _ p, OF r(1,2) _ _ fresh_import_limit_error_def]) (simp_all add: r)
next
  case False
  then have under: "\<forall>limit. mp_max_fresh_imports (sp_memory_policy p) = Some limit \<longrightarrow>
      pt_imports_performed (sp_stats p) < limit" by (meson not_le)
  show ?thesis
  proof (cases "mp_max_rss_kib (sp_memory_policy p)")
    case None
    then have "r = Inr ()" "p' = p" "rt' = rt"
      using assms under by (auto simp: enforce_before_fresh_import_def Let_def split: option.splits if_splits)
    then show ?thesis using admitted under None by simp
  next
    case (Some limit_kib)
    obtain rss rt1 where s: "current_process_rss_kib rt = (rss, rt1)" by fastforce
    have step: "(r, p', rt') =
        (case rss of
           Some current \<Rightarrow> if limit_kib \<le> current
             then (Inl (rss_ceiling_error p current limit_kib imports),
                   bump_fresh_import_refusal (bump_rss_sample False p), rt1)
             else (Inr (), bump_rss_sample False p, rt1)
         | None \<Rightarrow> (Inl (rss_unavailable_error p limit_kib imports),
                   bump_fresh_import_refusal (bump_rss_sample True p), rt1))"
      using assms under Some s
      by (auto simp: enforce_before_fresh_import_def Let_def split: option.splits if_splits)
    show ?thesis
    proof (cases rss)
      case None
      then have r: "r = Inl (rss_unavailable_error p limit_kib imports)"
        "p' = bump_fresh_import_refusal (bump_rss_sample True p)" "rt' = rt1" using step by simp_all
      show ?thesis
        by (rule refused [of _ "bump_rss_sample True p", OF r(1,2) _ _ rss_unavailable_error_def]) 
          (use r rss_frame [OF s] in auto)
    next
      case (Some current)
      show ?thesis
      proof (cases "limit_kib \<le> current")
        case True
        then have r: "r = Inl (rss_ceiling_error p current limit_kib imports)"
          "p' = bump_fresh_import_refusal (bump_rss_sample False p)" "rt' = rt1" using step Some by simp_all
        show ?thesis
          by (rule refused [of _ "bump_rss_sample False p", OF r(1,2) _ _ rss_ceiling_error_def])
            (use r rss_frame [OF s] in auto)
      next
        case False
        then have "r = Inr ()" "p' = bump_rss_sample False p" "rt' = rt1" using step Some by simp_all
        then show ?thesis
          using admitted under rss_frame [OF s] False Some s \<open>mp_max_rss_kib (sp_memory_policy p) = Some limit_kib\<close>
          by auto
      qed
    qed
  qed
qed

lemma fresh_session_cases:
  assumes "fresh_session key token progress p rt = (r, p', rt')"
  obtains (refused) e p1 cause msg current limit_kib count limit where "r = Inl e" "p' = bump_fresh_import_refusal p1"
      "p1 = p \<or> (\<exists>u. p1 = bump_rss_sample u p)" "rt_frame rt rt'"
      "e = resource_refusal p cause msg current limit_kib count limit (length (pk_imports key))"
  | (failed) e where "r = Inl e" "p' = p \<or> (\<exists>u. p' = bump_rss_sample u p)"
      "imports_once (import_call_for (pk_import_profile key) progress (pk_imports key)) rt rt'"
  | (imported) s p1 rt1 where "r = Inr s" "p1 = p \<or> (\<exists>u. p1 = bump_rss_sample u p)"
      "p' = bump_imported (p1\<lparr>sp_last_import_stats := Some (ls_import_stats s)\<rparr>)" "rt_frame rt rt1"
      "newly_imported (import_call_for (pk_import_profile key) progress (pk_imports key))
         (pk_project_root key) (pk_imports key) (pk_import_profile key) rt1 s rt'"
      "imports_once (import_call_for (pk_import_profile key) progress (pk_imports key)) rt1 rt'"
      "\<forall>limit. mp_max_fresh_imports (sp_memory_policy p) = Some limit \<longrightarrow> pt_imports_performed (sp_stats p) < limit"
proof -
  let ?call = "import_call_for (pk_import_profile key) progress (pk_imports key)"
  obtain r1 p1 rt1 where e: "enforce_before_fresh_import (pk_imports key) p rt = (r1, p1, rt1)"
    by (metis prod_cases3)
  from e show ?thesis
  proof (cases rule: enforce_cases)
    case (refused err p2 cause msg current limit_kib count limit)
    then have r: "r = Inl err" "p' = bump_fresh_import_refusal p2" "rt' = rt1"
      using assms e by (simp_all add: fresh_session_def)
    show ?thesis by (rule that(1) [OF r(1,2) refused(3)]) (use refused(4,5) r(3) in simp_all)
  next
    case admitted
    obtain r2 rt2 where i: "session_with_profile (pk_project_root key) (pk_imports key) (pk_import_profile key)
        token progress rt1 = (r2, rt2)" by fastforce
    note spec = session_with_profile_spec [OF i]
    show ?thesis
    proof (cases r2)
      case (Inl err)
      then have r: "r = Inl err" "p' = p1" "rt' = rt2" using assms e admitted(1) i by (simp_all add: fresh_session_def)
      have "imports_once ?call rt rt'" using imports_once_frame [OF admitted(3) spec(1) rt_frame_refl] r by simp
      then show ?thesis using that(2) [OF r(1)] r(2) admitted(2) by simp
    next
      case (Inr s)
      then have r: "r = Inr s" "p' = bump_imported (p1\<lparr>sp_last_import_stats := Some (ls_import_stats s)\<rparr>)" "rt' = rt2"
        using assms e admitted(1) i by (simp_all add: fresh_session_def)
      show ?thesis
        by (rule that(3) [OF r(1) admitted(2) r(2) admitted(3) _ _ admitted(4)]) (use spec Inr r(3) in simp_all)
    qed
  qed
qed

lemma acquire_cases:
  assumes "acquire_with_profile key token progress p rt = (r, p', rt')"
  obtains (cancelled) e where "r = Inl e" "p' = p" "rt_frame rt rt'"
  | (lost) entry rest e where "take_matching key (sp_free p) = Some (entry, rest)" "r = Inl e"
      "p' = (remember_key key p)\<lparr>sp_free := rest\<rparr>" "Some e \<in> set (hr_bindings rt)" "rt_frame rt rt'"
  | (reused) entry rest s where "take_matching key (sp_free p) = Some (entry, rest)"
      "r = Inr \<lparr>ps_key = key, ps_session = s\<rparr>"
      "p' = sweep_stale (Some (pe_epoch entry)) (bump_reused ((remember_key key p)\<lparr>sp_free := rest\<rparr>))"
      "ls_environment s = pe_environment entry" "ls_epoch s = pe_epoch entry" "ls_import_stats s = pe_import_stats entry"
      "hr_epoch rt = pe_epoch entry" "rt_frame rt rt'"
  | (failed) p1 rt1 e where "miss_step key (remember_key key p) p1" "rt_frame rt rt1"
      "fresh_session key token progress p1 rt1 = (Inl e, p', rt')" "r = Inl e"
  | (imported) p1 rt1 p2 s where "miss_step key (remember_key key p) p1" "rt_frame rt rt1"
      "fresh_session key token progress p1 rt1 = (Inr s, p2, rt')" "r = Inr \<lparr>ps_key = key, ps_session = s\<rparr>"
      "p' = sweep_stale (Some (ls_epoch s)) p2"
proof -
  let ?P = "remember_key key p"
  obtain c rt0 where c: "check_cancellation token rt = (c, rt0)" by fastforce
  note cf = check_cancellation_frame [OF c]
  show ?thesis
  proof (cases c)
    case (Inl e)
    then have "r = Inl e" "p' = p" "rt' = rt0" using assms c by (simp_all add: acquire_with_profile_def)
    then show ?thesis using that(1) cf by simp
  next
    case (Inr x)
    obtain r1 p1 rt1 where t: "try_reuse (fst (matched_entry key ?P)) (snd (matched_entry key ?P)) rt0 = (r1, p1, rt1)"
      by (metis prod_cases3)
    have acq: "acquire_with_profile key token progress p rt =
        (case (r1, p1, rt1) of
           (Inl e, p2, rt1) \<Rightarrow> (Inl e, p2, rt1)
         | (Inr (Some session), p2, rt1) \<Rightarrow>
             (Inr \<lparr>ps_key = key, ps_session = session\<rparr>, sweep_stale (Some (ls_epoch session)) p2, rt1)
         | (Inr None, p2, rt1) \<Rightarrow>
             (case fresh_session key token progress p2 rt1 of
                (Inl e, p3, rt2) \<Rightarrow> (Inl e, p3, rt2)
              | (Inr session, p3, rt2) \<Rightarrow>
                  (Inr \<lparr>ps_key = key, ps_session = session\<rparr>, sweep_stale (Some (ls_epoch session)) p3, rt2)))"
      using t c Inr by (cases "matched_entry key ?P") (simp add: acquire_with_profile_def)
    from t show ?thesis
    proof (cases rule: try_reuse_cases)
      case (lost entry rest e)
      then have r: "r = Inl e" "p' = ?P\<lparr>sp_free := rest\<rparr>" "rt' = rt1" using assms acq by simp_all
      have "Some e \<in> set (hr_bindings rt)" using lost(4) cf by (auto simp: rt_frame_def)
      moreover have "rt_frame rt rt'" using rt_frame_trans [OF cf] lost(5) r(3) by simp
      ultimately show ?thesis using that(2) [OF _ r(1,2)] lost(1) by simp
    next
      case (reused entry rest s)
      then have r: "r = Inr \<lparr>ps_key = key, ps_session = s\<rparr>"
        "p' = sweep_stale (Some (pe_epoch entry)) (bump_reused (?P\<lparr>sp_free := rest\<rparr>))" "rt' = rt1"
        using assms acq by simp_all
      have "hr_epoch rt = pe_epoch entry" using reused(7) cf by (simp add: rt_frame_def)
      moreover have "rt_frame rt rt'" using rt_frame_trans [OF cf] reused(8) r(3) by simp
      ultimately show ?thesis using that(3) [OF _ r(1,2) reused(4-6)] reused(1) by simp
    next
      case missed
      have f: "rt_frame rt rt1" using cf missed(3) rt_frame_trans by blast
      obtain r2 p2 rt2 where s: "fresh_session key token progress p1 rt1 = (r2, p2, rt2)" by (metis prod_cases3)
      show ?thesis
      proof (cases r2)
        case (Inl e)
        then have "r = Inl e" "p' = p2" "rt' = rt2" using assms acq missed(1) s by simp_all
        then show ?thesis using that(4) missed(2) f s Inl by blast
      next
        case (Inr session)
        then have "r = Inr \<lparr>ps_key = key, ps_session = session\<rparr>" "p' = sweep_stale (Some (ls_epoch session)) p2" "rt' = rt2"
          using assms acq missed(1) s by simp_all
        then show ?thesis using that(5) missed(2) f s Inr by blast
      qed
    qed
  qed
qed

lemma ledger_mono:
  "session_pool_ledger exact out h q a m k p \<Longrightarrow> a \<le> a' \<Longrightarrow> m \<le> m' \<Longrightarrow> k \<le> k' \<Longrightarrow> (exact' \<Longrightarrow> exact) \<Longrightarrow>
     session_pool_ledger exact' out h q a' m' k' p"
  by (auto simp: session_pool_ledger_def Let_def)

lemma ledger_miss_step:
  assumes "session_pool_ledger exact out 0 0 a m k p" "miss_step key p p1" "m < u64_max" "a < u64_max"
  shows "session_pool_ledger exact out 0 1 a (m + 1) k p1"
proof (cases "take_matching key (sp_free p)")
  case None
  have "miss_reason p \<noteq> MissStaleEnvironment" by (simp add: miss_reason_def)
  with ledger_key_miss [OF assms(1,3)] None assms(2) show ?thesis by (simp add: miss_step_def)
next
  case (Some er)
  then obtain entry rest where t: "take_matching key (sp_free p) = Some (entry, rest)" by (cases er) auto
  have "session_pool_ledger exact out 1 0 a m k (p\<lparr>sp_free := rest\<rparr>)"
    by (rule ledger_take [OF assms(1) take_matching_Some(2) [OF t]])
  from ledger_stale [OF this assms(3,4)] t assms(2) show ?thesis by (simp add: miss_step_def)
qed

lemma rss_sampled_ledger:
  "p1 = p \<or> (\<exists>u. p1 = bump_rss_sample u p) \<Longrightarrow> session_pool_ledger exact out h q a m k p \<Longrightarrow> session_pool_ledger exact out h q a m k p1"
  using ledger_rss_sample by blast

lemma rss_sampled_fields:
  "p1 = p \<or> (\<exists>u. p1 = bump_rss_sample u p) \<Longrightarrow> sp_free p1 = sp_free p \<and> sp_memory_policy p1 = sp_memory_policy p \<and>
     pt_imports_performed (sp_stats p1) = pt_imports_performed (sp_stats p)"
  by (auto simp: bump_rss_sample_def Let_def)

lemma fresh_session_ledger:
  assumes "fresh_session key token progress p rt = (r, p', rt')" "session_pool_ledger exact out 0 1 a m k p"
    "a < u64_max" "m < u64_max"
  shows "session_pool_ledger exact (case r of Inr _ \<Rightarrow> out + 1 | Inl _ \<Rightarrow> out) 0 0 (a + 1) m k p'"
  using assms(1)
proof (cases rule: fresh_session_cases)
  case (refused e p1)
  from ledger_mono [OF ledger_refusal [OF rss_sampled_ledger [OF refused(3) assms(2)] assms(4)], of "a + 1" m k exact]
    refused(1,2) show ?thesis by simp
next
  case (failed e)
  from ledger_mono [OF ledger_settle [OF rss_sampled_ledger [OF failed(2) assms(2)]], of "a + 1" m k exact] failed(1)
  show ?thesis by simp
next
  case (imported s p1)
  have "\<forall>limit. mp_max_fresh_imports (sp_memory_policy p1) = Some limit \<longrightarrow> pt_imports_performed (sp_stats p1) < limit"
    using imported(7) rss_sampled_fields [OF imported(2)] by simp
  from ledger_imported [OF rss_sampled_ledger [OF imported(2) assms(2)] assms(3) this] imported(1,3) show ?thesis
    by simp
qed

lemma acquire_ledger:
  assumes "acquire_with_profile key token progress p rt = (r, p', rt')" "session_pool_ledger exact out 0 0 a m k p"
    "a + 1 < u64_max" "m + 1 < u64_max" "k < u64_max" "exact \<Longrightarrow> \<forall>b \<in> set (hr_bindings rt). b = None"
  shows "session_pool_ledger exact (case r of Inr _ \<Rightarrow> out + 1 | Inl _ \<Rightarrow> out) 0 0 (a + 1) (m + 1) (k + 1) p'"
proof -
  let ?P = "remember_key key p"
  have P: "session_pool_ledger exact out 0 0 a m (k + 1) ?P" by (rule ledger_remember [OF assms(2,5)])
  have lt: "a < u64_max" "m < u64_max" using assms(3,4) by simp_all
  have taken: "session_pool_ledger exact out 1 0 a m (k + 1) (?P\<lparr>sp_free := rest\<rparr>)"
    if "take_matching key (sp_free p) = Some (entry, rest)" for entry rest
    using ledger_take [OF P] take_matching_Some(2) [OF that] by simp
  from assms(1) show ?thesis
  proof (cases rule: acquire_cases)
    case (cancelled e)
    then show ?thesis using ledger_mono [OF assms(2), of "a + 1" "m + 1" "k + 1" exact] by simp
  next
    case (lost entry rest e)
    then have "\<not> exact" using assms(6) by auto
    with ledger_mono [OF ledger_lose [OF taken [OF lost(1)]], of "a + 1" "m + 1" "k + 1" exact] lost(2,3)
    show ?thesis by simp
  next
    case (reused entry rest s)
    have "session_pool_ledger exact (out + 1) 0 0 (a + 1) m (k + 1) p'"
      using ledger_sweep [OF ledger_reused [OF taken [OF reused(1)] lt(1)] assms(3)] reused(3) by simp
    from ledger_mono [OF this, of "a + 1" "m + 1" "k + 1" exact] reused(2) show ?thesis by simp
  next
    case (failed p1 rt1 e)
    from fresh_session_ledger [OF failed(3) ledger_miss_step [OF P failed(1) lt(2,1)] lt(1) assms(4)] failed(4)
    show ?thesis by simp
  next
    case (imported p1 rt1 p2 s)
    have "session_pool_ledger exact (out + 1) 0 0 (a + 1) (m + 1) (k + 1) p2"
      using fresh_session_ledger [OF imported(3) ledger_miss_step [OF P imported(1) lt(2,1)] lt(1) assms(4)] by simp
    from ledger_sweep [OF this assms(3)] imported(4,5) show ?thesis by simp
  qed
qed

section \<open>Environments are current and never shared\<close>

definition serves_key :: "session_pool_key \<Rightarrow> lean_environment \<Rightarrow> nat \<Rightarrow> bool" where
  "serves_key key env epoch \<longleftrightarrow>
     env_root env = pk_project_root key \<and> env_imports env = pk_imports key \<and>
     env_profile env = pk_import_profile key \<and> env_extensions env = epoch"

definition pool_environments :: "session_pool \<Rightarrow> nat list" where
  "pool_environments p = map (\<lambda>e. env_id (pe_environment e)) (sp_free p)"

definition out_environments :: "pooled_session list \<Rightarrow> nat list" where
  "out_environments out = map (\<lambda>s. env_id (ls_environment (ps_session s))) out"

definition entries_ok :: "session_pool \<Rightarrow> bool" where
  "entries_ok p \<longleftrightarrow> (\<forall>e \<in> set (sp_free p). serves_key (pe_key e) (pe_environment e) (pe_epoch e))"

definition session_ok :: "pooled_session \<Rightarrow> bool" where
  "session_ok s \<longleftrightarrow> serves_key (ps_key s) (ls_environment (ps_session s)) (ls_epoch (ps_session s))"

definition environments_ok :: "pool_world \<Rightarrow> bool" where
  "environments_ok w \<longleftrightarrow>
     entries_ok (pw_pool w) \<and> (\<forall>s \<in> set (pw_out w). session_ok s) \<and>
     distinct (pool_environments (pw_pool w)) \<and> distinct (out_environments (pw_out w)) \<and>
     set (pool_environments (pw_pool w)) \<inter> set (out_environments (pw_out w)) = {} \<and>
     (\<forall>i \<in> set (pool_environments (pw_pool w)) \<union> set (out_environments (pw_out w)). i < hr_next_env (pw_rt w))"

text \<open>Every change of the free list but a release takes entries away.\<close>

definition thinned :: "session_pool \<Rightarrow> session_pool \<Rightarrow> bool" where
  "thinned p p' \<longleftrightarrow> set (sp_free p') \<subseteq> set (sp_free p) \<and>
     (distinct (pool_environments p) \<longrightarrow> distinct (pool_environments p'))"

lemma thinned_refl [simp]: "thinned p p"
  by (simp add: thinned_def)

lemma thinned_trans [trans]: "thinned a b \<Longrightarrow> thinned b c \<Longrightarrow> thinned a c"
  by (auto simp: thinned_def)

lemma thinned_same: "sp_free p' = sp_free p \<Longrightarrow> thinned p p'"
  by (simp add: thinned_def pool_environments_def)

lemma nth_not_in_rest: "xs = ys @ x # zs \<Longrightarrow> distinct xs \<Longrightarrow> x \<notin> set (ys @ zs)"
  by auto

lemma thinned_take:
  assumes "take_matching key (sp_free p) = Some (entry, rest)" "sp_free p' = rest"
  shows "thinned p p'" "entry \<in> set (sp_free p)"
    "distinct (pool_environments p) \<Longrightarrow> env_id (pe_environment entry) \<notin> set (pool_environments p')"
proof -
  obtain i where i: "i < length (sp_free p)" "entry = sp_free p ! i" "rest = remove_at i (sp_free p)"
    using take_matching_Some(4) [OF assms(1)] by blast
  let ?f = "\<lambda>e. env_id (pe_environment e)"
  have env: "pool_environments p' = remove_at i (pool_environments p)"
    using assms(2) i(3) by (simp add: pool_environments_def map_remove_at)
  show "entry \<in> set (sp_free p)" using i by simp
  show "thinned p p'"
    using take_matching_Some(3) [OF assms(1)] assms(2) env by (auto simp: thinned_def distinct_remove_at)
  assume d: "distinct (pool_environments p)"
  have "pool_environments p = take i (pool_environments p) @ pool_environments p ! i # drop (Suc i) (pool_environments p)"
    using i(1) by (intro id_take_nth_drop) (simp add: pool_environments_def)
  then have "pool_environments p ! i \<notin> set (remove_at i (pool_environments p))"
    using d unfolding remove_at_def by (rule nth_not_in_rest)
  then show "?f entry \<notin> set (pool_environments p')" using i env by (simp add: pool_environments_def)
qed

lemma thinned_sweep: "thinned p (sweep_stale live p)"
  by (auto simp: thinned_def sweep_stale_def Let_def bump_stale_evictions_def pool_environments_def
      intro: distinct_map_filter)

lemma sweep_free: "sp_free (sweep_stale live p) = filter (\<lambda>e. live = Some (pe_epoch e)) (sp_free p)"
  by (simp add: sweep_stale_def Let_def bump_stale_evictions_def)

lemma thinned_miss_step: "miss_step key p p1 \<Longrightarrow> thinned p p1"
proof (cases "take_matching key (sp_free p)")
  case None
  then show "miss_step key p p1 \<Longrightarrow> ?thesis" by (simp add: miss_step_def bump_key_miss_def thinned_same)
next
  case (Some er)
  then obtain entry rest where t: "take_matching key (sp_free p) = Some (entry, rest)" by (cases er) auto
  assume "miss_step key p p1"
  then have "sp_free p1 = rest" using t by (simp add: miss_step_def bump_key_miss_def bump_stale_evictions_def)
  then show ?thesis using thinned_take(1) [OF t] by blast
qed

lemma fresh_session_free:
  assumes "fresh_session key token progress p rt = (r, p', rt')"
  shows "sp_free p' = sp_free p"
  using assms
proof (cases rule: fresh_session_cases)
  case (refused e p1)
  then show ?thesis using rss_sampled_fields [OF refused(3)] by (simp add: bump_fresh_import_refusal_def)
next
  case (failed e)
  then show ?thesis using rss_sampled_fields [OF failed(2)] by simp
next
  case (imported s p1)
  then show ?thesis using rss_sampled_fields [OF imported(2)] by (simp add: bump_imported_def)
qed

lemma fresh_session_rt:
  assumes "fresh_session key token progress p rt = (r, p', rt')"
  shows "imports_once (import_call_for (pk_import_profile key) progress (pk_imports key)) rt rt'"
  using assms
  by (cases rule: fresh_session_cases) (auto simp: imports_once_frame frame_imports_once)

lemma acquire_rt:
  assumes "acquire_with_profile key token progress p rt = (r, p', rt')"
  shows "imports_once (import_call_for (pk_import_profile key) progress (pk_imports key)) rt rt'"
  using assms
proof (cases rule: acquire_cases)
  case (failed p1 rt1 e)
  then show ?thesis using fresh_session_rt imports_once_frame rt_frame_refl by blast
next
  case (imported p1 rt1 p2 s)
  then show ?thesis using fresh_session_rt imports_once_frame rt_frame_refl by blast
qed (auto simp: frame_imports_once)

lemma acquire_thins:
  assumes "acquire_with_profile key token progress p rt = (r, p', rt')"
  shows "thinned p p'"
  using assms
proof (cases rule: acquire_cases)
  case (lost entry rest e)
  then show ?thesis using thinned_take(1) by simp
next
  case (reused entry rest s)
  have "thinned p (bump_reused ((remember_key key p)\<lparr>sp_free := rest\<rparr>))"
    using thinned_take(1) [OF reused(1)] by (simp add: bump_reused_def)
  with reused(3) show ?thesis using thinned_sweep thinned_trans by blast
next
  case (failed p1 rt1 e)
  have "thinned p p1" using thinned_miss_step [OF failed(1)] by (simp add: thinned_def pool_environments_def)
  then show ?thesis using thinned_same [OF fresh_session_free [OF failed(3)]] thinned_trans by blast
next
  case (imported p1 rt1 p2 s)
  have "thinned p p1" using thinned_miss_step [OF imported(1)] by (simp add: thinned_def pool_environments_def)
  then have "thinned p p2" using thinned_same [OF fresh_session_free [OF imported(3)]] thinned_trans by blast
  then show ?thesis using imported(5) thinned_sweep thinned_trans by blast
qed simp

text \<open>
  A session handed out holds an environment of the requested project, imports and profile, sized for the
  stamp as it stands, and not the environment of any entry left in the pool; those left are current too.
\<close>

lemma acquired_current:
  assumes "acquire_with_profile key token progress p rt = (Inr s, p', rt')" "entries_ok p"
    "distinct (pool_environments p)" "\<forall>i \<in> set (pool_environments p). i < hr_next_env rt"
  shows "ps_key s = key" "session_ok s" "ls_epoch (ps_session s) = hr_epoch rt'"
    "\<forall>e \<in> set (sp_free p'). pe_epoch e = hr_epoch rt'"
    "env_id (ls_environment (ps_session s)) \<notin> set (pool_environments p')"
    "env_id (ls_environment (ps_session s)) < hr_next_env rt'"
    "env_id (ls_environment (ps_session s)) \<in> set (pool_environments p) \<or>
     env_id (ls_environment (ps_session s)) = hr_next_env rt"
proof -
  have "ps_key s = key \<and> session_ok s \<and> ls_epoch (ps_session s) = hr_epoch rt' \<and>
    (\<forall>e \<in> set (sp_free p'). pe_epoch e = hr_epoch rt') \<and>
    env_id (ls_environment (ps_session s)) \<notin> set (pool_environments p') \<and>
    env_id (ls_environment (ps_session s)) < hr_next_env rt' \<and>
    (env_id (ls_environment (ps_session s)) \<in> set (pool_environments p) \<or>
     env_id (ls_environment (ps_session s)) = hr_next_env rt)"
    using assms(1)
  proof (cases rule: acquire_cases)
    case (reused entry rest ses)
    note taken = thinned_take [OF reused(1), of "bump_reused ((remember_key key p)\<lparr>sp_free := rest\<rparr>)"]
    have in_pool: "entry \<in> set (sp_free p)" using taken(2) by (simp add: bump_reused_def)
    have s: "ps_key s = key" "ps_session s = ses" using reused(2) by simp_all
    have ok: "session_ok s"
      using assms(2) in_pool reused(4,5) s take_matching_Some(1) [OF reused(1)] by (auto simp: entries_ok_def session_ok_def)
    have epoch: "hr_epoch rt' = pe_epoch entry" using reused(7,8) by (simp add: rt_frame_def)
    have "env_id (pe_environment entry) \<notin> set (pool_environments p')"
      using taken(3) assms(3) reused(3) by (auto simp: bump_reused_def pool_environments_def sweep_free)
    moreover have "env_id (pe_environment entry) \<in> set (pool_environments p)"
      using in_pool by (simp add: pool_environments_def)
    ultimately show ?thesis
      using ok s reused(3-5,8) epoch assms(4) by (auto simp: sweep_free rt_frame_def)
  next
    case (imported p1 rt1 p2 ses)
    have s: "ps_key s = key" "ps_session s = ses" using imported(4) by simp_all
    obtain rt2 where n: "rt_frame rt1 rt2"
      "newly_imported (import_call_for (pk_import_profile key) progress (pk_imports key))
         (pk_project_root key) (pk_imports key) (pk_import_profile key) rt2 ses rt'"
      using imported(3) by (cases rule: fresh_session_cases) auto
    have next_env: "hr_next_env rt2 = hr_next_env rt" using n(1) imported(2) by (simp add: rt_frame_def)
    have env: "env_id (ls_environment ses) = hr_next_env rt" "ls_epoch ses = hr_epoch rt'" "session_ok s"
        "hr_next_env rt' = Suc (hr_next_env rt)"
      using n(2) s next_env by (auto simp: newly_imported_def session_ok_def serves_key_def)
    have "set (pool_environments p') \<subseteq> set (pool_environments p)"
      using acquire_thins [OF assms(1)] by (auto simp: thinned_def pool_environments_def)
    then show ?thesis using env s imported(5) assms(4) by (auto simp: sweep_free)
  qed auto
  then show "ps_key s = key" "session_ok s" "ls_epoch (ps_session s) = hr_epoch rt'"
    "\<forall>e \<in> set (sp_free p'). pe_epoch e = hr_epoch rt'"
    "env_id (ls_environment (ps_session s)) \<notin> set (pool_environments p')"
    "env_id (ls_environment (ps_session s)) < hr_next_env rt'"
    "env_id (ls_environment (ps_session s)) \<in> set (pool_environments p) \<or>
     env_id (ls_environment (ps_session s)) = hr_next_env rt"
    by blast+
qed

lemma thinned_entries_ok: "thinned p p' \<Longrightarrow> entries_ok p \<Longrightarrow> entries_ok p'"
  by (auto simp: thinned_def entries_ok_def)

lemma thinned_environments: "thinned p p' \<Longrightarrow> set (pool_environments p') \<subseteq> set (pool_environments p)"
  by (auto simp: thinned_def pool_environments_def)

lemma acquire_environments_ok:
  assumes "acquire_with_profile key token progress (pw_pool w) (pw_rt w) = (r, p', rt')" "environments_ok w"
  shows "environments_ok (w\<lparr>pw_pool := p', pw_rt := rt', pw_out := pw_out w @ (case r of Inl _ \<Rightarrow> [] | Inr s \<Rightarrow> [s])\<rparr>)"
proof -
  note thin = acquire_thins [OF assms(1)]
  have w: "entries_ok (pw_pool w)" "distinct (pool_environments (pw_pool w))"
    "\<forall>i \<in> set (pool_environments (pw_pool w)). i < hr_next_env (pw_rt w)"
    using assms(2) by (auto simp: environments_ok_def)
  have grows: "hr_next_env (pw_rt w) \<le> hr_next_env rt'"
    using acquire_rt [OF assms(1)] by (simp add: imports_once_def)
  have pool: "entries_ok p'" "distinct (pool_environments p')"
    using thinned_entries_ok [OF thin w(1)] thin w(2) by (auto simp: thinned_def)
  note sub = thinned_environments [OF thin]
  have bound: "i < hr_next_env rt'"
    if "i \<in> set (pool_environments p') \<union> set (out_environments (pw_out w))" for i
    using that sub grows assms(2) unfolding environments_ok_def by (meson UnE UnI1 UnI2 order.strict_trans2 subsetD)
  have apart: "set (pool_environments p') \<inter> set (out_environments (pw_out w)) = {}"
    using sub assms(2) unfolding environments_ok_def by blast
  have old: "\<forall>s \<in> set (pw_out w). session_ok s" "distinct (out_environments (pw_out w))"
    using assms(2) by (simp_all add: environments_ok_def)
  show ?thesis
  proof (cases r)
    case (Inl e)
    then show ?thesis using pool bound apart old by (simp add: environments_ok_def)
  next
    case (Inr s)
    note new = acquired_current [OF assms(1) [unfolded Inr] w]
    let ?i = "env_id (ls_environment (ps_session s))"
    have fresh: "?i \<notin> set (out_environments (pw_out w))"
    proof
      assume i: "?i \<in> set (out_environments (pw_out w))"
      then have "?i < hr_next_env (pw_rt w)" "?i \<notin> set (pool_environments (pw_pool w))"
        using assms(2) unfolding environments_ok_def by blast+
      with new(7) show False by simp
    qed
    have out: "out_environments (pw_out w @ [s]) = out_environments (pw_out w) @ [?i]"
      by (simp add: out_environments_def)
    have "distinct (out_environments (pw_out w @ [s]))" using old(2) fresh out by simp
    moreover have "set (pool_environments p') \<inter> set (out_environments (pw_out w @ [s])) = {}"
      using apart new(5) out by auto
    moreover have "\<forall>i \<in> set (pool_environments p') \<union> set (out_environments (pw_out w @ [s])). i < hr_next_env rt'"
      using bound new(6) out by auto
    moreover have "\<forall>s' \<in> set (pw_out w @ [s]). session_ok s'" using old(1) new(2) by auto
    ultimately show ?thesis using pool Inr unfolding environments_ok_def by (simp del: set_append)
  qed
qed

lemma environments_ok_step: "environments_ok w \<Longrightarrow> environments_ok (apply_pool_op op w)"
proof (cases op)
  case (Acquire key token progress)
  obtain r p rt where a: "acquire_with_profile key token progress (pw_pool w) (pw_rt w) = (r, p, rt)"
    by (metis prod_cases3)
  assume "environments_ok w"
  from acquire_environments_ok [OF a this] show ?thesis
    using a Acquire by (cases r) (simp_all add: environments_ok_def)
next
  case (Return i)
  assume ok: "environments_ok w"
  show ?thesis
  proof (cases "i < length (pw_out w)")
    case True
    let ?s = "pw_out w ! i" and ?rest = "remove_at i (pw_out w)"
    let ?id = "env_id (ls_environment (ps_session ?s))"
    have s: "?s \<in> set (pw_out w)" "session_ok ?s" using True ok by (auto simp: environments_ok_def)
    have out: "out_environments ?rest = remove_at i (out_environments (pw_out w))"
      by (simp add: out_environments_def map_remove_at)
    have d: "distinct (out_environments (pw_out w))" using ok by (simp add: environments_ok_def)
    have "out_environments (pw_out w) =
        take i (out_environments (pw_out w)) @ out_environments (pw_out w) ! i # drop (Suc i) (out_environments (pw_out w))"
      using True by (intro id_take_nth_drop) (simp add: out_environments_def)
    then have "out_environments (pw_out w) ! i \<notin> set (remove_at i (out_environments (pw_out w)))"
      using d unfolding remove_at_def by (rule nth_not_in_rest)
    then have gone: "?id \<notin> set (out_environments ?rest)" using True unfolding out by (simp add: out_environments_def)
    have rest: "set (out_environments ?rest) \<subseteq> set (out_environments (pw_out w))" "distinct (out_environments ?rest)"
      using set_remove_at_subset [of i "out_environments (pw_out w)"] d by (simp_all add: out distinct_remove_at)
    have id: "?id \<in> set (out_environments (pw_out w))" using s(1) by (simp add: out_environments_def)
    have sub: "set ?rest \<subseteq> set (pw_out w)" by (rule set_remove_at_subset)
    have p: "pool_environments (drop_pooled ?s (pw_pool w)) = pool_environments (pw_pool w) \<or>
        pool_environments (drop_pooled ?s (pw_pool w)) = pool_environments (pw_pool w) @ [?id]"
      by (simp add: drop_pooled_def pool_release_def pool_environments_def)
    have e: "entries_ok (drop_pooled ?s (pw_pool w))"
      using ok s(2) by (auto simp: environments_ok_def drop_pooled_def pool_release_def entries_ok_def session_ok_def)
    from p have "environments_ok (w\<lparr>pw_pool := drop_pooled ?s (pw_pool w), pw_out := ?rest\<rparr>)"
    proof
      assume "pool_environments (drop_pooled ?s (pw_pool w)) = pool_environments (pw_pool w)"
      then show ?thesis using ok e rest sub by (auto simp: environments_ok_def)
    next
      assume "pool_environments (drop_pooled ?s (pw_pool w)) = pool_environments (pw_pool w) @ [?id]"
      then show ?thesis using ok e rest sub gone id by (auto simp: environments_ok_def)
    qed
    then show ?thesis using Return True by simp
  qed (use ok Return in simp)
next
  case Drain
  assume "environments_ok w"
  then show ?thesis using Drain
    by (auto simp: environments_ok_def pool_drain_def Let_def entries_ok_def pool_environments_def)
next
  case (OtherImport n)
  assume "environments_ok w"
  then show ?thesis using OtherImport by (simp add: environments_ok_def)
qed

definition fresh_world :: "nat \<Rightarrow> pool_memory_policy \<Rightarrow> host_rt \<Rightarrow> pool_world" where
  "fresh_world capacity policy rt = \<lparr>pw_pool = pool_with_config capacity policy, pw_rt = rt, pw_out = []\<rparr>"

lemma environments_ok_run: "environments_ok w \<Longrightarrow> environments_ok (run_pool ops w)"
  unfolding run_pool_def by (induction ops arbitrary: w) (simp_all add: environments_ok_step)

lemma environments_ok_fresh: "environments_ok (fresh_world capacity policy rt)"
  by (simp add: environments_ok_def fresh_world_def pool_with_config_def entries_ok_def pool_environments_def
      out_environments_def)

section \<open>Histories keep the ledger\<close>

definition world_ledger :: "bool \<Rightarrow> nat \<Rightarrow> pool_world \<Rightarrow> bool" where
  "world_ledger exact n w \<longleftrightarrow>
     session_pool_ledger exact (length (pw_out w)) 0 0 n n n (pw_pool w) \<and>
     (exact \<longrightarrow> (\<forall>b \<in> set (hr_bindings (pw_rt w)). b = None))"

lemma world_ledger_step:
  assumes "world_ledger exact n w" "n + 1 < u64_max"
  shows "world_ledger exact (n + 1) (apply_pool_op op w)"
proof (cases op)
  case (Acquire key token progress)
  obtain r p rt where a: "acquire_with_profile key token progress (pw_pool w) (pw_rt w) = (r, p, rt)"
    by (metis prod_cases3)
  have "session_pool_ledger exact (case r of Inr _ \<Rightarrow> length (pw_out w) + 1 | Inl _ \<Rightarrow> length (pw_out w)) 0 0
      (n + 1) (n + 1) (n + 1) p"
    by (rule acquire_ledger [OF a]) (use assms in \<open>auto simp: world_ledger_def\<close>)
  moreover have "set (hr_bindings rt) \<subseteq> set (hr_bindings (pw_rt w))"
    using acquire_rt [OF a] by (simp add: imports_once_def)
  ultimately show ?thesis using assms(1) a Acquire by (cases r) (auto simp: world_ledger_def)
next
  case (Return i)
  show ?thesis
  proof (cases "i < length (pw_out w)")
    case True
    have len: "length (pw_out w) = length (remove_at i (pw_out w)) + 1"
      using True by (simp add: length_remove_at)
    have "session_pool_ledger exact (length (remove_at i (pw_out w))) 0 0 n n n (drop_pooled (pw_out w ! i) (pw_pool w))"
      unfolding drop_pooled_def
      by (rule ledger_release) (use assms len in \<open>simp_all add: world_ledger_def\<close>)
    from ledger_mono [OF this, of "n + 1" "n + 1" "n + 1" exact] show ?thesis
      using assms(1) True Return by (simp add: world_ledger_def)
  next
    case False
    from assms(1) ledger_mono [of exact _ 0 0 n n n _ "n + 1" "n + 1" "n + 1" exact] show ?thesis
      using False Return by (simp add: world_ledger_def)
  qed
next
  case Drain
  have "session_pool_ledger exact (length (pw_out w)) 0 0 n n n (snd (pool_drain (pw_pool w)))"
    by (rule ledger_drain) (use assms in \<open>simp_all add: world_ledger_def\<close>)
  from ledger_mono [OF this, of "n + 1" "n + 1" "n + 1" exact] show ?thesis
    using assms(1) Drain by (simp add: world_ledger_def)
next
  case (OtherImport d)
  from assms(1) ledger_mono [of exact _ 0 0 n n n _ "n + 1" "n + 1" "n + 1" exact] show ?thesis
    using OtherImport by (simp add: world_ledger_def)
qed

lemma world_ledger_run:
  "world_ledger exact n w \<Longrightarrow> n + length ops < u64_max \<Longrightarrow> world_ledger exact (n + length ops) (run_pool ops w)"
  unfolding run_pool_def
proof (induction ops arbitrary: n w)
  case (Cons op ops)
  have "world_ledger exact (n + 1) (apply_pool_op op w)"
    by (rule world_ledger_step [OF Cons.prems(1)]) (use Cons.prems(2) in simp)
  from Cons.IH [OF this] Cons.prems(2) show ?case by simp
qed simp

lemma world_ledger_fresh:
  "(exact \<longrightarrow> (\<forall>b \<in> set (hr_bindings rt). b = None)) \<Longrightarrow> world_ledger exact 0 (fresh_world capacity policy rt)"
  by (simp add: world_ledger_def fresh_world_def pool_with_config_def session_pool_ledger_def pool_stats_default_def)

section \<open>Correctness\<close>

lemma rposition_last:
  "i < length xs \<Longrightarrow> P (xs ! i) \<Longrightarrow> \<forall>j. i < j \<longrightarrow> j < length xs \<longrightarrow> \<not> P (xs ! j) \<Longrightarrow> rposition P xs = Some i"
proof -
  assume i: "i < length xs" "P (xs ! i)" "\<forall>j. i < j \<longrightarrow> j < length xs \<longrightarrow> \<not> P (xs ! j)"
  have "rposition P xs \<noteq> None" using i(2) nth_mem [OF i(1)] by auto
  then obtain k where k: "rposition P xs = Some k" by blast
  from rposition_SomeD [OF k] i have "\<not> i < k" "\<not> k < i" by blast+
  with k show ?thesis by simp
qed

lemma refusal_outcome:
  assumes "(\<exists>limit. mp_max_fresh_imports (sp_memory_policy p) = Some limit \<and> limit \<le> pt_imports_performed (sp_stats p)) \<or>
     (\<exists>limit. mp_max_rss_kib (sp_memory_policy p) = Some limit \<and>
        (case fst (current_process_rss_kib rt) of None \<Rightarrow> True | Some current \<Rightarrow> limit \<le> current))"
    "pt_fresh_import_refusals (sp_stats m) = pt_fresh_import_refusals (sp_stats p)"
    "pt_imports_performed (sp_stats m) = pt_imports_performed (sp_stats p)"
    "pt_acquired (sp_stats m) = pt_acquired (sp_stats p)" "sp_free m = sp_free p"
    "sp_memory_policy m = sp_memory_policy p"
  obtains e p2 rt2 where "enforce_before_fresh_import imports m rt = (Inl e, p2, rt2)"
    "rt_frame rt rt2" "sp_free p2 = sp_free p" "pt_acquired (sp_stats p2) = pt_acquired (sp_stats p)"
    "pt_fresh_import_refusals (sp_stats p2) = sat_inc (pt_fresh_import_refusals (sp_stats p))"
    "e \<in> {fresh_import_limit_error m limit imports | limit. True} \<union>
        {rss_ceiling_error m current limit imports | current limit. True} \<union>
        {rss_unavailable_error m limit imports | limit. True}"
proof (cases "\<exists>limit. mp_max_fresh_imports (sp_memory_policy p) = Some limit \<and> limit \<le> pt_imports_performed (sp_stats p)")
  case True
  then obtain limit where l: "mp_max_fresh_imports (sp_memory_policy m) = Some limit" "limit \<le> pt_imports_performed (sp_stats m)"
    using assms(3,6) by auto
  then have "enforce_before_fresh_import imports m rt =
      (Inl (fresh_import_limit_error m limit imports), bump_fresh_import_refusal m, rt)"
    by (simp add: enforce_before_fresh_import_def Let_def)
  then show ?thesis by (rule that) (use assms in \<open>auto simp: bump_fresh_import_refusal_def\<close>)
next
  case False
  then obtain limit where l: "mp_max_rss_kib (sp_memory_policy m) = Some limit"
    "case fst (current_process_rss_kib rt) of None \<Rightarrow> True | Some current \<Rightarrow> limit \<le> current"
    using assms(1,6) by auto
  have under: "mp_max_fresh_imports (sp_memory_policy m) = Some l \<Longrightarrow> \<not> l \<le> pt_imports_performed (sp_stats m)" for l
    using False assms(3,6) by auto
  obtain rss rt1 where s: "current_process_rss_kib rt = (rss, rt1)" by fastforce
  show ?thesis
  proof (cases rss)
    case None
    have "enforce_before_fresh_import imports m rt =
        (Inl (rss_unavailable_error m limit imports), bump_fresh_import_refusal (bump_rss_sample True m), rt1)"
      using under l(1) s None by (auto simp: enforce_before_fresh_import_def Let_def split: option.splits)
    then show ?thesis
      by (rule that) (use assms rss_frame [OF s] in \<open>auto simp: bump_fresh_import_refusal_def bump_rss_sample_def Let_def\<close>)
  next
    case (Some current)
    then have "limit \<le> current" using l(2) s by simp
    then have "enforce_before_fresh_import imports m rt =
        (Inl (rss_ceiling_error m current limit imports), bump_fresh_import_refusal (bump_rss_sample False m), rt1)"
      using under l(1) s Some by (auto simp: enforce_before_fresh_import_def Let_def split: option.splits)
    then show ?thesis
      by (rule that) (use assms rss_frame [OF s] in \<open>auto simp: bump_fresh_import_refusal_def bump_rss_sample_def Let_def\<close>)
  qed
qed

text \<open>C12: After any history of acquires, returns, drains and foreign imports (fewer than \<open>2 ^ 64 - 2\<close> of
  them) the free list is within its capacity and the counters balance: every acquisition is one import or
  one reuse and its session is still out or was released once; hits, misses and their reasons add up; every
  released environment is still pooled or was reused, evicted as stale or drained, none counted twice (and
  exactly so when no rewrap failed); and a configured number of fresh imports is never exceeded.\<close>

theorem host_pool_ledger_balances:
  assumes "w = run_pool ops (fresh_world capacity policy rt)" "length ops < u64_max"
  shows "let p = pw_pool w; s = sp_stats p in
     length (sp_free p) \<le> sp_capacity p \<and>
     pt_acquired s = pt_imports_performed s + pt_reused s \<and>
     pt_acquired s = length (pw_out w) + pt_released_to_pool s + pt_released_dropped s \<and>
     pt_key_hits s = pt_reused s \<and> pt_fresh_imports_avoided s = pt_reused s \<and>
     pt_key_misses s = pt_miss_empty_pool s + pt_miss_reuse_disabled s + pt_miss_no_matching_key s +
       pt_miss_stale_environment s \<and>
     pt_imports_performed s + pt_fresh_import_refusals s \<le> pt_key_misses s \<and>
     pt_miss_stale_environment s \<le> pt_stale_evictions s \<and>
     length (sp_free p) + pt_reused s + pt_stale_evictions s + pt_drained s \<le> pt_released_to_pool s \<and>
     ((\<forall>b \<in> set (hr_bindings rt). b = None) \<longrightarrow>
        length (sp_free p) + pt_reused s + pt_stale_evictions s + pt_drained s = pt_released_to_pool s) \<and>
     pt_distinct_keys_seen s = length (sp_seen_keys p) \<and> distinct (sp_seen_keys p) \<and>
     (\<forall>limit. mp_max_fresh_imports (sp_memory_policy p) = Some limit \<longrightarrow> 0 < limit \<longrightarrow>
        pt_imports_performed s \<le> limit)"
proof -
  have "world_ledger (\<forall>b \<in> set (hr_bindings rt). b = None) (0 + length ops) w"
    unfolding assms(1) by (rule world_ledger_run [OF world_ledger_fresh]) (use assms(2) in simp_all)
  then show ?thesis by (simp add: world_ledger_def session_pool_ledger_def Let_def)
qed

text \<open>C13: After any history, a session that the pool hands out, reused or freshly imported, holds an
  environment of exactly the requested project, import list and profile, sized for the registration stamp
  as it stands at that moment; that environment belongs to no other session and to no pooled entry; and no
  entry that is outdated by then stays in the pool.  An acquire makes at most one import call into Lean, the
  one for the requested profile.\<close>

theorem pooled_sessions_are_current:
  assumes "w = run_pool ops (fresh_world capacity policy rt)"
    "acquire_with_profile key token progress (pw_pool w) (pw_rt w) = (r, p', rt')"
  shows "(case r of
       Inl _ \<Rightarrow> True
     | Inr s \<Rightarrow>
         ps_key s = key \<and> env_root (ls_environment (ps_session s)) = pk_project_root key \<and>
         env_imports (ls_environment (ps_session s)) = pk_imports key \<and>
         env_profile (ls_environment (ps_session s)) = pk_import_profile key \<and>
         env_extensions (ls_environment (ps_session s)) = hr_epoch rt' \<and>
         env_id (ls_environment (ps_session s)) \<notin> set (out_environments (pw_out w)) \<and>
         env_id (ls_environment (ps_session s)) \<notin> set (pool_environments p') \<and>
         (\<forall>e \<in> set (sp_free p'). env_extensions (pe_environment e) = hr_epoch rt')) \<and>
     (hr_log rt' = hr_log (pw_rt w) \<or>
      hr_log rt' = hr_log (pw_rt w) @ [import_call_for (pk_import_profile key) progress (pk_imports key)])"
proof -
  have ok: "environments_ok w" using assms(1) environments_ok_run environments_ok_fresh by simp
  have log: "hr_log rt' = hr_log (pw_rt w) \<or>
      hr_log rt' = hr_log (pw_rt w) @ [import_call_for (pk_import_profile key) progress (pk_imports key)]"
    using acquire_rt [OF assms(2)] by (simp add: imports_once_def)
  show ?thesis
  proof (cases r)
    case (Inr s)
    have w: "entries_ok (pw_pool w)" "distinct (pool_environments (pw_pool w))"
      "\<forall>i \<in> set (pool_environments (pw_pool w)). i < hr_next_env (pw_rt w)"
      using ok by (auto simp: environments_ok_def)
    note new = acquired_current [OF assms(2) [unfolded Inr] w]
    have "distinct (out_environments (pw_out w @ [s]))"
      using acquire_environments_ok [OF assms(2) ok] Inr by (simp add: environments_ok_def)
    then have "env_id (ls_environment (ps_session s)) \<notin> set (out_environments (pw_out w))"
      by (simp add: out_environments_def)
    moreover have "\<forall>e \<in> set (sp_free p'). env_extensions (pe_environment e) = hr_epoch rt'"
      using thinned_entries_ok [OF acquire_thins [OF assms(2)] w(1)] new(4)
      by (simp add: entries_ok_def serves_key_def)
    ultimately show ?thesis
      using new(1,2,3,5) log Inr by (simp add: session_ok_def serves_key_def)
  qed (use log in simp)
qed

text \<open>When an entry for the requested key is pooled and still current, the most recently released one is
  handed out: no import is made, no memory limit is consulted, the session's metrics start at zero, and the
  acquisition is counted as a hit.\<close>

theorem warm_entry_is_reused:
  assumes "i < length (sp_free p)" "pe_key (sp_free p ! i) = key"
    "\<forall>j. i < j \<longrightarrow> j < length (sp_free p) \<longrightarrow> pe_key (sp_free p ! j) \<noteq> key"
    "pe_epoch (sp_free p ! i) = hr_epoch rt" "\<not> token" "hr_bindings rt = []" "hr_epoch_reads rt = []"
    "acquire_with_profile key token progress p rt = (r, p', rt')"
  shows "(\<exists>s. r = Inr \<lparr>ps_key = key, ps_session = s\<rparr> \<and> ls_environment s = pe_environment (sp_free p ! i) \<and>
            ss_ffi_calls (ls_stats s) = 1) \<and>
         hr_log rt' = hr_log rt \<and>
         sp_free p' = filter (\<lambda>e. hr_epoch rt = pe_epoch e) (remove_at i (sp_free p)) \<and>
         pt_key_hits (sp_stats p') = sat_inc (pt_key_hits (sp_stats p)) \<and>
         pt_imports_performed (sp_stats p') = pt_imports_performed (sp_stats p) \<and>
         pt_last_miss_reason (sp_stats p') = None"
proof -
  have "rposition (\<lambda>e. pe_key e = key) (sp_free p) = Some i"
    using assms(1-3) by (rule rposition_last)
  then have t: "take_matching key (sp_free (remember_key key p)) = Some (sp_free p ! i, remove_at i (sp_free p))"
    by (simp add: take_matching_def)
  have stats: "pt_key_hits (sp_stats (remember_key key p)) = pt_key_hits (sp_stats p)"
    "pt_imports_performed (sp_stats (remember_key key p)) = pt_imports_performed (sp_stats p)"
    by (simp_all add: remember_key_def)
  let ?Q = "(remember_key key p)\<lparr>sp_free := remove_at i (sp_free p)\<rparr>" and ?e = "sp_free p ! i"
  let ?took = "case hr_elapsed rt of [] \<Rightarrow> 0 | t # _ \<Rightarrow> t"
  let ?s = "record_call 0 ?took \<lparr>ls_environment = pe_environment ?e, ls_import_stats = pe_import_stats ?e,
      ls_epoch = pe_epoch ?e, ls_stats = session_stats_default\<rparr>"
  have eq: "acquire_with_profile key token progress p rt =
      (Inr \<lparr>ps_key = key, ps_session = ?s\<rparr>, sweep_stale (Some (hr_epoch rt)) (bump_reused ?Q),
       rt\<lparr>hr_elapsed := tl (hr_elapsed rt)\<rparr>)"
    using assms(4-7) t
    by (simp add: acquire_with_profile_def check_cancellation_def matched_entry_def try_reuse_def
        from_environment_with_import_stats_def host_bind_def host_ok_def resolve_shims_def live_registry_epoch_def
        extension_registry_epoch_def Let_def record_call_def)
  have s: "ls_environment ?s = pe_environment ?e" "ss_ffi_calls (ls_stats ?s) = 1"
    by (simp_all add: record_call_def session_stats_default_def sat_inc_exact)
  have p: "sp_free (sweep_stale (Some (hr_epoch rt)) (bump_reused ?Q)) =
      filter (\<lambda>e. hr_epoch rt = pe_epoch e) (remove_at i (sp_free p))"
    "pt_key_hits (sp_stats (sweep_stale (Some (hr_epoch rt)) (bump_reused ?Q))) = sat_inc (pt_key_hits (sp_stats p))"
    "pt_imports_performed (sp_stats (sweep_stale (Some (hr_epoch rt)) (bump_reused ?Q))) =
       pt_imports_performed (sp_stats p)"
    "pt_last_miss_reason (sp_stats (sweep_stale (Some (hr_epoch rt)) (bump_reused ?Q))) = None"
    using stats by (simp_all add: sweep_stale_def Let_def bump_reused_def bump_stale_evictions_def)
  show ?thesis using eq assms(8) s p by auto
qed

text \<open>A miss that the memory policy does not admit (the import count reached, the resident set at or above
  its ceiling, or no sample while a ceiling is set) is refused before anything enters Lean: the error says so,
  with the matching cause, nothing is imported or registered, the pool keeps its entries, and exactly one
  refusal is counted.\<close>

theorem refused_import_never_enters_lean:
  assumes "\<forall>e \<in> set (sp_free p). pe_key e \<noteq> key" "\<not> token"
    "(\<exists>limit. mp_max_fresh_imports (sp_memory_policy p) = Some limit \<and> limit \<le> pt_imports_performed (sp_stats p)) \<or>
     (\<exists>limit. mp_max_rss_kib (sp_memory_policy p) = Some limit \<and>
        (case fst (current_process_rss_kib rt) of None \<Rightarrow> True | Some current \<Rightarrow> limit \<le> current))"
    "acquire_with_profile key token progress p rt = (r, p', rt')"
  shows "(\<exists>f facts. r = Inl (HostFailure f) \<and> hf_code f = CodeResourceExhausted \<and> hf_resource_facts f = Some facts \<and>
            \<not> xf_work_entered_lean facts \<and> xf_requested_imports facts = Some (length (pk_imports key)) \<and>
            xf_cause facts \<in> {''same_process_fresh_import_limit'', ''same_process_rss_ceiling'',
              ''same_process_rss_sample_unavailable''}) \<and>
         hr_log rt' = hr_log rt \<and> hr_epoch rt' = hr_epoch rt \<and> sp_free p' = sp_free p \<and>
         pt_fresh_import_refusals (sp_stats p') = sat_inc (pt_fresh_import_refusals (sp_stats p)) \<and>
         pt_acquired (sp_stats p') = pt_acquired (sp_stats p)"
proof -
  let ?P = "remember_key key p" and ?rss = "current_process_rss_kib rt"
  let ?m = "bump_key_miss (miss_reason ?P) ?P"
  have "rposition (\<lambda>e. pe_key e = key) (sp_free p) = None" using assms(1) by simp
  then have t: "take_matching key (sp_free p) = None" by (simp add: take_matching_def)
  have stats: "pt_fresh_import_refusals (sp_stats ?m) = pt_fresh_import_refusals (sp_stats p)"
    "pt_imports_performed (sp_stats ?m) = pt_imports_performed (sp_stats p)"
    "pt_acquired (sp_stats ?m) = pt_acquired (sp_stats p)" "sp_free ?m = sp_free p"
    "sp_memory_policy ?m = sp_memory_policy p"
    by (cases "miss_reason ?P"; simp add: bump_key_miss_def remember_key_def)+
  obtain e p2 rt2 where enf: "enforce_before_fresh_import (pk_imports key) ?m rt = (Inl e, p2, rt2)"
    and frame: "rt_frame rt rt2" "sp_free p2 = sp_free p" "pt_acquired (sp_stats p2) = pt_acquired (sp_stats p)"
      "pt_fresh_import_refusals (sp_stats p2) = sat_inc (pt_fresh_import_refusals (sp_stats p))"
    and e: "e \<in> {fresh_import_limit_error ?m limit (pk_imports key) | limit. True} \<union>
        {rss_ceiling_error ?m current limit (pk_imports key) | current limit. True} \<union>
        {rss_unavailable_error ?m limit (pk_imports key) | limit. True}"
    by (rule refusal_outcome [of p rt ?m "pk_imports key", OF assms(3) stats])
  have "acquire_with_profile key token progress p rt = (Inl e, p2, rt2)"
    using assms(2) t enf
    by (simp add: acquire_with_profile_def check_cancellation_def matched_entry_def try_reuse_def fresh_session_def)
  then have "r = Inl e" "p' = p2" "rt' = rt2" using assms(4) by simp_all
  moreover have "\<exists>f facts. e = HostFailure f \<and> hf_code f = CodeResourceExhausted \<and> hf_resource_facts f = Some facts \<and>
            \<not> xf_work_entered_lean facts \<and> xf_requested_imports facts = Some (length (pk_imports key)) \<and>
            xf_cause facts \<in> {''same_process_fresh_import_limit'', ''same_process_rss_ceiling'',
              ''same_process_rss_sample_unavailable''}"
    using e by (auto simp: fresh_import_limit_error_def rss_ceiling_error_def rss_unavailable_error_def
        resource_refusal_def resource_exhausted_with_facts_def)
  ultimately show ?thesis using frame by (auto simp: rt_frame_def)
qed

section \<open>Instances\<close>

definition demo_host_rt :: host_rt where
  "demo_host_rt = \<lparr>hr_epoch = 0, hr_next_env = 0, hr_log = [], hr_cargo_override = None, hr_nextest = True,
     hr_cargo_test_binary = True, hr_cancels = [], hr_search_paths = [], hr_bindings = [], hr_bridges = [],
     hr_imports = [(3, None)], hr_import_stats = [], hr_epoch_reads = [], hr_elapsed = [], hr_rss = []\<rparr>"

definition demo_pool_key :: session_pool_key where
  "demo_pool_key = \<lparr>pk_project_root = ''/p'', pk_imports = [''Init''], pk_import_profile = Server\<rparr>"

lemma demo_first_acquire:
  "acquire_with_profile demo_pool_key False False (pool_with_config 1 memory_policy_disabled) demo_host_rt =
     (let s = \<lparr>ls_environment = \<lparr>env_id = 0, env_root = ''/p'', env_imports = [''Init''], env_profile = Server,
                env_extensions = 3\<rparr>, ls_import_stats = no_import_stats, ls_epoch = 3,
                ls_stats = session_stats_default\<rparr> in
      (Inr \<lparr>ps_key = demo_pool_key, ps_session = s\<rparr>,
       sweep_stale (Some 3) (bump_imported ((bump_key_miss MissEmptyPool (remember_key demo_pool_key
         (pool_with_config 1 memory_policy_disabled)))\<lparr>sp_last_import_stats := Some no_import_stats\<rparr>)),
       demo_host_rt\<lparr>hr_epoch := 3, hr_next_env := 1, hr_log := [SessionImportProfile [''Init''] False 1 True], hr_imports := []\<rparr>))"
  by (simp add: acquire_with_profile_def check_cancellation_def matched_entry_def try_reuse_def take_matching_def
      pool_with_config_def remember_key_def miss_reason_def fresh_session_def enforce_before_fresh_import_def
      memory_policy_disabled_def session_with_profile_def import_with_profile_def host_bind_def host_ok_def
      reject_same_process_cargo_test_session_import_def import_guard_active_from_facts_def demo_host_rt_def
      import_search_paths_def resolve_shims_def progress_bridge_def lean_import_def import_call_for_def
      env_import_stats_def extension_registry_epoch_def demo_pool_key_def Let_def load_exts_def bump_key_miss_def)

theorem host_pool_ledger_balances_witness:
  "let p = pw_pool (run_pool [Acquire demo_pool_key False False, Return 0, Drain] (fresh_world 1 memory_policy_disabled demo_host_rt)) in
   pt_acquired (sp_stats p) = pt_imports_performed (sp_stats p) + pt_reused (sp_stats p) \<and>
   length (sp_free p) + pt_reused (sp_stats p) + pt_stale_evictions (sp_stats p) + pt_drained (sp_stats p) =
     pt_released_to_pool (sp_stats p)"
  using host_pool_ledger_balances [OF refl, of "[Acquire demo_pool_key False False, Return 0, Drain]" 1 memory_policy_disabled demo_host_rt]
  by (simp add: Let_def u64_max_def demo_host_rt_def)

theorem pooled_sessions_are_current_witness:
  "case acquire_with_profile demo_pool_key False False (pool_with_config 1 memory_policy_disabled) demo_host_rt of
     (Inr s, p', rt') \<Rightarrow> env_extensions (ls_environment (ps_session s)) = hr_epoch rt' \<and> hr_epoch rt' = 3
   | (Inl e, p', rt') \<Rightarrow> False"
proof -
  have w: "pw_pool (run_pool [] (fresh_world 1 memory_policy_disabled demo_host_rt)) = pool_with_config 1 memory_policy_disabled"
    "pw_rt (run_pool [] (fresh_world 1 memory_policy_disabled demo_host_rt)) = demo_host_rt"
    by (simp_all add: run_pool_def fresh_world_def)
  obtain r p' rt' where a: "acquire_with_profile demo_pool_key False False (pool_with_config 1 memory_policy_disabled) demo_host_rt = (r, p', rt')"
    by (metis prod_cases3)
  obtain s where s: "r = Inr s" "hr_epoch rt' = 3"
    using a demo_first_acquire by (auto simp: Let_def)
  have "acquire_with_profile demo_pool_key False False (pw_pool (run_pool [] (fresh_world 1 memory_policy_disabled demo_host_rt)))
      (pw_rt (run_pool [] (fresh_world 1 memory_policy_disabled demo_host_rt))) = (r, p', rt')"
    using a w by simp
  from pooled_sessions_are_current [OF refl this] a s show ?thesis by simp
qed

definition demo_warm_pool :: session_pool where
  "demo_warm_pool = (pool_with_config 2 memory_policy_disabled)\<lparr>sp_free :=
     [\<lparr>pe_key = demo_pool_key, pe_environment = \<lparr>env_id = 7, env_root = ''/p'', env_imports = [''Init''], env_profile = Server,
        env_extensions = 0\<rparr>, pe_import_stats = no_import_stats, pe_epoch = 0\<rparr>]\<rparr>"

theorem warm_entry_is_reused_witness:
  "case acquire_with_profile demo_pool_key False False demo_warm_pool demo_host_rt of
     (r, p', rt') \<Rightarrow> hr_log rt' = [] \<and> sp_free p' = [] \<and>
       (\<exists>s. r = Inr s \<and> env_id (ls_environment (ps_session s)) = 7)"
proof -
  obtain r p' rt' where a: "acquire_with_profile demo_pool_key False False demo_warm_pool demo_host_rt = (r, p', rt')"
    by (metis prod_cases3)
  have e: "sp_free demo_warm_pool = [\<lparr>pe_key = demo_pool_key, pe_environment = \<lparr>env_id = 7, env_root = ''/p'',
      env_imports = [''Init''], env_profile = Server, env_extensions = 0\<rparr>, pe_import_stats = no_import_stats, pe_epoch = 0\<rparr>]"
    by (simp add: demo_warm_pool_def)
  have "hr_bindings demo_host_rt = []" "hr_epoch_reads demo_host_rt = []" "hr_epoch demo_host_rt = 0" "hr_log demo_host_rt = []"
    by (simp_all add: demo_host_rt_def)
  with warm_entry_is_reused [of 0 demo_warm_pool demo_pool_key demo_host_rt False False r p' rt'] a e
  show ?thesis by (auto simp: remove_at_def)
qed

definition demo_refusing_pool :: session_pool where
  "demo_refusing_pool = (pool_with_config 2 (policy_max_rss_kib 4096 memory_policy_disabled))"

theorem refused_import_never_enters_lean_witness:
  "case acquire_with_profile demo_pool_key False False demo_refusing_pool (demo_host_rt\<lparr>hr_rss := [Some 5000]\<rparr>) of
     (r, p', rt') \<Rightarrow> hr_log rt' = [] \<and> (\<exists>f. r = Inl (HostFailure f) \<and> hf_code f = CodeResourceExhausted)"
proof -
  let ?rt = "demo_host_rt\<lparr>hr_rss := [Some 5000]\<rparr>"
  obtain r p' rt' where a: "acquire_with_profile demo_pool_key False False demo_refusing_pool ?rt = (r, p', rt')"
    by (metis prod_cases3)
  have pool: "sp_free demo_refusing_pool = []" "mp_max_rss_kib (sp_memory_policy demo_refusing_pool) = Some 4096"
    by (simp_all add: demo_refusing_pool_def pool_with_config_def policy_max_rss_kib_def)
  have rss: "fst (current_process_rss_kib ?rt) = Some 5000" "hr_log ?rt = []"
    by (simp_all add: current_process_rss_kib_def demo_host_rt_def)
  have "(\<exists>limit. mp_max_rss_kib (sp_memory_policy demo_refusing_pool) = Some limit \<and>
        (case fst (current_process_rss_kib ?rt) of None \<Rightarrow> True | Some current \<Rightarrow> limit \<le> current))"
    using pool(2) rss(1) by simp
  with refused_import_never_enters_lean [OF _ _ _ a] pool(1) rss(2) a show ?thesis by auto
qed

end
