(* ===== verification/Ordered_Map.thy ===== *)
theory Ordered_Map
  imports Prelude
begin

text \<open>
  \<open>BTreeMap\<close>: a map iterated in the order of its keys, as the list of its entries.  Two uses of it share one
  interface: a map whose \<open>insert\<close> replaces, and one whose entries are lists that \<open>entry().or_default().push()\<close>
  extends.
\<close>

section \<open>The interface\<close>

definition strictly_sorted :: "('k::linorder \<times> 'w) list \<Rightarrow> bool" where
  "strictly_sorted m \<longleftrightarrow> sorted_wrt (<) (map fst m)"

lemma strictly_sorted_Cons:
  "strictly_sorted (e # m) \<longleftrightarrow> (\<forall>x \<in> set m. fst e < fst x) \<and> strictly_sorted m"
  by (simp add: strictly_sorted_def)

lemma strictly_sorted_distinct: "strictly_sorted m \<Longrightarrow> distinct (map fst m)"
  by (simp add: strictly_sorted_def strict_sorted_iff)

lemma strictly_sorted_keys: "strictly_sorted m \<Longrightarrow> map fst m = sorted_list_of_set (fst ` set m)"
proof -
  assume "strictly_sorted m"
  then have "sorted (map fst m)" "distinct (map fst m)" by (simp_all add: strictly_sorted_def strict_sorted_iff)
  then show ?thesis by (metis list.set_map sorted_list_of_set.idem_if_sorted_distinct)
qed

text \<open>The contract: inserting keeps the order and changes one key, as \<open>combine\<close> says.\<close>

locale ordered_map =
  fixes put :: "'k::linorder \<Rightarrow> 'v \<Rightarrow> ('k \<times> 'w) list \<Rightarrow> ('k \<times> 'w) list"
    and combine :: "'w option \<Rightarrow> 'v \<Rightarrow> 'w"
  assumes put_sorted: "strictly_sorted m \<Longrightarrow> strictly_sorted (put k v m)"
    and put_lookup: "strictly_sorted m \<Longrightarrow> map_of (put k v m) = (map_of m)(k \<mapsto> combine (map_of m k) v)"
begin

definition put_all :: "('k \<times> 'v) list \<Rightarrow> ('k \<times> 'w) list \<Rightarrow> ('k \<times> 'w) list" where
  "put_all kvs m = fold (\<lambda>(k, v). put k v) kvs m"

definition combined :: "'v list \<Rightarrow> 'w option \<Rightarrow> 'w option" where
  "combined vs w = fold (\<lambda>v w. Some (combine w v)) vs w"

lemma put_all_sorted: "strictly_sorted m \<Longrightarrow> strictly_sorted (put_all kvs m)"
  by (induction kvs arbitrary: m) (auto simp: put_all_def put_sorted)

lemma put_all_lookup:
  "strictly_sorted m \<Longrightarrow>
     map_of (put_all kvs m) k = combined (map snd (filter (\<lambda>e. fst e = k) kvs)) (map_of m k)"
proof (induction kvs arbitrary: m)
  case (Cons e kvs)
  obtain k' v where e: "e = (k', v)" by fastforce
  have "map_of (put_all (e # kvs) m) k = map_of (put_all kvs (put k' v m)) k"
    by (simp add: put_all_def e)
  also have "\<dots> = combined (map snd (filter (\<lambda>e. fst e = k) kvs)) (map_of (put k' v m) k)"
    by (rule Cons.IH [OF put_sorted [OF Cons.prems]])
  finally show ?case by (simp add: put_lookup [OF Cons.prems] e combined_def)
qed (simp add: put_all_def combined_def)

lemma combined_some: "vs \<noteq> [] \<Longrightarrow> combined vs w \<noteq> None"
  by (cases vs rule: rev_cases) (simp_all add: combined_def)

lemma put_all_keys: "fst ` set (put_all kvs []) = fst ` set kvs"
proof -
  have none: "map_of (put_all kvs []) k = None \<longleftrightarrow> k \<notin> fst ` set kvs" for k
  proof -
    let ?vs = "map snd (filter (\<lambda>e. fst e = k) kvs)"
    have vs: "?vs = [] \<longleftrightarrow> k \<notin> fst ` set kvs" by (force simp: filter_empty_conv)
    have l: "map_of (put_all kvs []) k = combined ?vs None"
      using put_all_lookup [of "[]" kvs k] by (simp add: strictly_sorted_def)
    show ?thesis
    proof (cases "?vs = []")
      case True
      then show ?thesis using l vs by (simp add: combined_def)
    next
      case False
      then show ?thesis using l vs combined_some [OF False] by simp
    qed
  qed
  then show ?thesis by (metis (no_types, lifting) map_of_eq_None_iff set_eqI)
qed

text \<open>The whole content, in order: every key once, with what its values combine to.\<close>

lemma put_all_entries:
  "put_all kvs [] =
     map (\<lambda>k. (k, the (combined (map snd (filter (\<lambda>e. fst e = k) kvs)) None)))
       (sorted_list_of_set (fst ` set kvs))"
proof -
  let ?m = "put_all kvs []"
  have s: "strictly_sorted ?m" by (rule put_all_sorted) (simp add: strictly_sorted_def)
  have keys: "map fst ?m = sorted_list_of_set (fst ` set kvs)"
    using strictly_sorted_keys [OF s] put_all_keys by simp
  have entry: "map_of ?m (fst e) = Some (snd e)" if "e \<in> set ?m" for e
    by (rule map_of_is_SomeI [OF strictly_sorted_distinct [OF s]]) (use that in simp)
  have "e = (fst e, the (combined (map snd (filter (\<lambda>x. fst x = fst e) kvs)) None))" if "e \<in> set ?m" for e
    using entry [OF that] put_all_lookup [of "[]" kvs "fst e"] by (cases e) (simp add: strictly_sorted_def eq_commute [of "Some b" for b])
  then have "?m = map (\<lambda>e. (fst e, the (combined (map snd (filter (\<lambda>x. fst x = fst e) kvs)) None))) ?m"
    by (intro nth_equalityI) auto
  also have "\<dots> = map (\<lambda>k. (k, the (combined (map snd (filter (\<lambda>e. fst e = k) kvs)) None))) (map fst ?m)"
    by simp
  finally show ?thesis by (simp only: keys)
qed

end

section \<open>Replacing\<close>

fun btree_insert :: "'k::linorder \<Rightarrow> 'v \<Rightarrow> ('k \<times> 'v) list \<Rightarrow> ('k \<times> 'v) list" where
  "btree_insert k v [] = [(k, v)]"
| "btree_insert k v ((k', v') # m) =
     (if k < k' then (k, v) # (k', v') # m
      else if k = k' then (k, v) # m
      else (k', v') # btree_insert k v m)"

lemma fst_btree_insert: "fst ` set (btree_insert k v m) = insert k (fst ` set m)"
  by (induction k v m rule: btree_insert.induct) auto

lemma btree_insert_sorted: "strictly_sorted m \<Longrightarrow> strictly_sorted (btree_insert k v m)"
proof (induction k v m rule: btree_insert.induct)
  case (2 k v k' v' m)
  have "k' < fst x" if "x \<in> set (btree_insert k v m)" "k' < k" "\<forall>y \<in> set m. k' < fst y" for x
  proof -
    have "fst x \<in> insert k (fst ` set m)" using fst_btree_insert [of k v m] that(1) by blast
    with that(2,3) show ?thesis by auto
  qed
  with 2 show ?case by (auto simp: strictly_sorted_Cons dest: less_trans)
qed (simp add: strictly_sorted_def)

lemma btree_insert_lookup: "strictly_sorted m \<Longrightarrow> map_of (btree_insert k v m) = (map_of m)(k \<mapsto> v)"
  by (induction k v m rule: btree_insert.induct) (auto simp: strictly_sorted_Cons fun_eq_iff)

interpretation replacing: ordered_map btree_insert "\<lambda>_ v. v"
  by unfold_locales (simp_all add: btree_insert_sorted btree_insert_lookup)

lemma replacing_combined: "vs \<noteq> [] \<Longrightarrow> replacing.combined vs w = Some (last vs)"
  by (cases vs rule: rev_cases) (simp_all add: replacing.combined_def)

section \<open>Grouping\<close>

fun group_push :: "'k::linorder \<Rightarrow> 'v \<Rightarrow> ('k \<times> 'v list) list \<Rightarrow> ('k \<times> 'v list) list" where
  "group_push k v [] = [(k, [v])]"
| "group_push k v ((k', vs) # m) =
     (if k < k' then (k, [v]) # (k', vs) # m
      else if k = k' then (k', vs @ [v]) # m
      else (k', vs) # group_push k v m)"

definition push_to :: "'v list option \<Rightarrow> 'v \<Rightarrow> 'v list" where
  "push_to vs v = (case vs of None \<Rightarrow> [v] | Some ws \<Rightarrow> ws @ [v])"

lemma fst_group_push: "fst ` set (group_push k v m) = insert k (fst ` set m)"
  by (induction k v m rule: group_push.induct) auto

lemma group_push_sorted: "strictly_sorted m \<Longrightarrow> strictly_sorted (group_push k v m)"
proof (induction k v m rule: group_push.induct)
  case (2 k v k' vs m)
  have "k' < fst x" if "x \<in> set (group_push k v m)" "k' < k" "\<forall>y \<in> set m. k' < fst y" for x
  proof -
    have "fst x \<in> insert k (fst ` set m)" using fst_group_push [of k v m] that(1) by blast
    with that(2,3) show ?thesis by auto
  qed
  with 2 show ?case by (auto simp: strictly_sorted_Cons dest: less_trans)
qed (simp add: strictly_sorted_def)

lemma group_push_lookup:
  "strictly_sorted m \<Longrightarrow> map_of (group_push k v m) = (map_of m)(k \<mapsto> push_to (map_of m k) v)"
proof (induction k v m rule: group_push.induct)
  case (2 k v k' vs m)
  have "map_of m k = None" if "k < k'"
    using 2(2) that by (auto simp: strictly_sorted_Cons map_of_eq_None_iff dest: less_trans)
  with 2 show ?case by (auto simp: strictly_sorted_Cons fun_eq_iff push_to_def)
qed (simp add: push_to_def)

interpretation grouping: ordered_map group_push push_to
  by unfold_locales (simp_all add: group_push_sorted group_push_lookup)

lemma grouping_combined: "vs \<noteq> [] \<Longrightarrow> grouping.combined vs None = Some vs"
proof -
  have "fold (\<lambda>v w. Some (push_to w v)) us (Some ws) = Some (ws @ us)" for us ws :: "'a list"
    by (induction us arbitrary: ws) (simp_all add: push_to_def)
  then show "vs \<noteq> [] \<Longrightarrow> ?thesis"
    by (cases vs) (simp_all add: grouping.combined_def push_to_def [of None])
qed

text \<open>Grouping by a key is filtering by it, once for each key in order.\<close>

lemma group_entries:
  "fold (\<lambda>x. group_push (f x) x) xs [] =
     map (\<lambda>k. (k, filter (\<lambda>x. f x = k) xs)) (sorted_list_of_set (f ` set xs))"
proof -
  let ?kvs = "map (\<lambda>x. (f x, x)) xs"
  have "fold (\<lambda>x. group_push (f x) x) xs [] = grouping.put_all ?kvs []"
    by (simp add: grouping.put_all_def fold_map comp_def)
  also have "\<dots> = map (\<lambda>k. (k, the (grouping.combined (map snd (filter (\<lambda>e. fst e = k) ?kvs)) None)))
      (sorted_list_of_set (fst ` set ?kvs))"
    by (rule grouping.put_all_entries)
  also have "fst ` set ?kvs = f ` set xs" by (simp add: image_image)
  also have "map (\<lambda>k. (k, the (grouping.combined (map snd (filter (\<lambda>e. fst e = k) ?kvs)) None)))
        (sorted_list_of_set (f ` set xs)) =
      map (\<lambda>k. (k, filter (\<lambda>x. f x = k) xs)) (sorted_list_of_set (f ` set xs))"
  proof (rule map_cong [OF refl])
    fix k
    assume "k \<in> set (sorted_list_of_set (f ` set xs))"
    then have "k \<in> f ` set xs" by simp
    then have ne: "filter (\<lambda>x. f x = k) xs \<noteq> []" by (auto simp: filter_empty_conv)
    have "map snd (filter (\<lambda>e. fst e = k) ?kvs) = filter (\<lambda>x. f x = k) xs"
      by (induction xs) auto
    with grouping_combined [OF ne]
    show "(k, the (grouping.combined (map snd (filter (\<lambda>e. fst e = k) ?kvs)) None)) = (k, filter (\<lambda>x. f x = k) xs)"
      by simp
  qed
  finally show ?thesis .
qed

end
