(* ===== verification/Lake_Modules.thy ===== *)
theory Lake_Modules
  imports Ordered_Map Display_Text Lean_Error
begin

text \<open>
  Discovery of the Lean modules of a Lake project (\<open>modules.rs\<close> and \<open>lakefile_toml.rs\<close> of
  \<open>lean-toolchain\<close>): which project a path names, which libraries its lakefile declares, which source files
  belong to them and under which module names.

  The file system is a tree.  A directory lists its entries in the order the operating system returns them,
  or fails with an error text; a file has its content and modification time, each of which may fail to be
  read; symbolic links are not followed.  A path is its list of components.  Unicode's letter and
  alphanumeric classes, the TOML parser and SHA-256 are parameters.
\<close>

section \<open>Characters\<close>

record unicode =
  un_alphabetic :: "string \<Rightarrow> bool"
  un_alphanumeric :: "string \<Rightarrow> bool"

definition continuation_byte :: "char \<Rightarrow> bool" where
  "continuation_byte c \<longleftrightarrow> 128 \<le> (of_char c :: nat) \<and> (of_char c :: nat) < 192"

text \<open>\<open>str::chars\<close>: each character as its UTF-8 encoding.\<close>

function str_chars :: "string \<Rightarrow> string list" where
  "str_chars [] = []"
| "str_chars (c # s) = (c # takeWhile continuation_byte s) # str_chars (dropWhile continuation_byte s)"
  by pat_completeness auto
termination by (relation "measure length") (auto simp: le_imp_less_Suc length_dropWhile_le)

section \<open>Module names\<close>

text \<open>The first thing wrong with a component, and with a name; the tests are in the source's order.\<close>

definition component_fault :: "unicode \<Rightarrow> string \<Rightarrow> string option" where
  "component_fault uc part =
     (case str_chars part of
        [] \<Rightarrow> Some ''module name contains an empty component''
      | first # rest \<Rightarrow>
          if \<not> (first = ''_'' \<or> un_alphabetic uc first)
          then Some ''module components must begin with a letter or underscore''
          else if list_ex (\<lambda>ch. \<not> (ch = ''_'' \<or> ch = [CHR 0x27] \<or> un_alphanumeric uc ch)) rest
          then Some ''module components may contain only letters, digits, underscores, or apostrophes''
          else None)"

fun first_fault :: "unicode \<Rightarrow> string list \<Rightarrow> string option" where
  "first_fault uc [] = None"
| "first_fault uc (part # parts) =
     (case component_fault uc part of Some reason \<Rightarrow> Some reason | None \<Rightarrow> first_fault uc parts)"

definition name_fault :: "unicode \<Rightarrow> string \<Rightarrow> string option" where
  "name_fault uc name =
     (if name = [] then Some ''module name is empty'' else first_fault uc (split_on (CHR ''.'') name))"

type_synonym path = "string list"

datatype discovery_error =
    MissingLakeRoot string
  | MissingModuleRoot path string
  | InvalidModuleName string string
  | UnsupportedToolchain string string
  | DiscoveryIo string string string

definition validate_module_name :: "unicode \<Rightarrow> string \<Rightarrow> discovery_error + unit" where
  "validate_module_name uc name =
     (case name_fault uc name of None \<Rightarrow> Inr () | Some reason \<Rightarrow> Inl (InvalidModuleName name reason))"

definition path_text :: "path \<Rightarrow> string" where
  "path_text p = ''/'' @ join_with ''/'' p"

definition backquoted :: "string \<Rightarrow> string" where
  "backquoted s = [CHR 0x60] @ s @ [CHR 0x60]"

fun discovery_error_text :: "discovery_error \<Rightarrow> string" where
  "discovery_error_text (MissingLakeRoot root) =
     ''lean-toolchain: no Lake project found at '' @ root @ '' or '' @ root @ ''/lean''"
| "discovery_error_text (MissingModuleRoot root name) =
     ''lean-toolchain: module root '' @ backquoted name @ '' was not found in '' @ path_text root"
| "discovery_error_text (InvalidModuleName name reason) =
     ''lean-toolchain: invalid Lean module name '' @ backquoted name @ '': '' @ reason"
| "discovery_error_text (UnsupportedToolchain active window) =
     ''lean-toolchain: active Lean toolchain '' @ active @ '' is not in the supported window: '' @ window"
| "discovery_error_text (DiscoveryIo p msg source) = ''lean-toolchain: '' @ msg @ '' at '' @ p @ '': '' @ source"

section \<open>The file system\<close>

datatype fs_node =
    FsFile "string + string" "string + nat option"
  | FsDir "string option" "(string \<times> fs_node) list"

fun fs_at :: "fs_node \<Rightarrow> path \<Rightarrow> fs_node option" where
  "fs_at node [] = Some node"
| "fs_at (FsFile content mtime) (c # p) = None"
| "fs_at (FsDir err es) (c # p) = (case map_of es c of None \<Rightarrow> None | Some node \<Rightarrow> fs_at node p)"

definition is_file :: "fs_node \<Rightarrow> path \<Rightarrow> bool" where
  "is_file fs p = (case fs_at fs p of Some (FsFile _ _) \<Rightarrow> True | _ \<Rightarrow> False)"

definition is_dir :: "fs_node \<Rightarrow> path \<Rightarrow> bool" where
  "is_dir fs p = (case fs_at fs p of Some (FsDir _ _) \<Rightarrow> True | _ \<Rightarrow> False)"

definition not_found :: string where "not_found = ''No such file or directory (os error 2)''"

definition fs_read_dir :: "fs_node \<Rightarrow> path \<Rightarrow> string + (string \<times> fs_node) list" where
  "fs_read_dir fs p =
     (case fs_at fs p of
        Some (FsDir None es) \<Rightarrow> Inr es
      | Some (FsDir (Some e) es) \<Rightarrow> Inl e
      | Some (FsFile _ _) \<Rightarrow> Inl ''Not a directory (os error 20)''
      | None \<Rightarrow> Inl not_found)"

definition fs_read :: "fs_node \<Rightarrow> path \<Rightarrow> string + string" where
  "fs_read fs p =
     (case fs_at fs p of
        Some (FsFile content _) \<Rightarrow> content
      | Some (FsDir _ _) \<Rightarrow> Inl ''Is a directory (os error 21)''
      | None \<Rightarrow> Inl not_found)"

definition read_to_string :: "fs_node \<Rightarrow> path \<Rightarrow> string \<Rightarrow> discovery_error + string" where
  "read_to_string fs p msg =
     (case fs_read fs p of Inl e \<Rightarrow> Inl (DiscoveryIo (path_text p) msg e) | Inr s \<Rightarrow> Inr s)"

text \<open>\<open>Path::extension\<close> and \<open>Path::file_stem\<close> of a component, and \<open>set_extension("lean")\<close>.\<close>

definition extension :: "string \<Rightarrow> string option" where
  "extension name =
     (case rposition (\<lambda>c. c = CHR ''.'') name of
        None \<Rightarrow> None | Some i \<Rightarrow> if i = 0 then None else Some (drop (Suc i) name))"

definition file_stem :: "string \<Rightarrow> string" where
  "file_stem name =
     (case rposition (\<lambda>c. c = CHR ''.'') name of
        None \<Rightarrow> name | Some i \<Rightarrow> if i = 0 then name else take i name)"

definition is_lean_name :: "string \<Rightarrow> bool" where
  "is_lean_name name \<longleftrightarrow> extension name = Some ''lean''"

definition set_extension_lean :: "path \<Rightarrow> path" where
  "set_extension_lean p = (if p = [] then p else butlast p @ [file_stem (last p) @ ''.lean''])"

definition path_push :: "path \<Rightarrow> string \<Rightarrow> path" where
  "path_push p part = (if part = [] then p else p @ [part])"

section \<open>Names and paths\<close>

definition module_to_dir :: "path \<Rightarrow> string \<Rightarrow> path" where
  "module_to_dir root name = fold (\<lambda>part p. path_push p part) (split_on (CHR ''.'') name) root"

definition module_to_file :: "path \<Rightarrow> string \<Rightarrow> path" where
  "module_to_file root name = set_extension_lean (module_to_dir root name)"

definition strip_suffix :: "string \<Rightarrow> string \<Rightarrow> string option" where
  "strip_suffix suffix s =
     (if length suffix \<le> length s \<and> drop (length s - length suffix) s = suffix
      then Some (take (length s - length suffix) s) else None)"

definition strip_lean :: "path \<Rightarrow> path" where
  "strip_lean parts =
     (if parts = [] then parts
      else (case strip_suffix ''.lean'' (last parts) of
              Some stripped \<Rightarrow> butlast parts @ [stripped] | None \<Rightarrow> parts))"

definition module_from_path :: "path \<Rightarrow> path \<Rightarrow> discovery_error + string" where
  "module_from_path root p =
     (if take (length root) p = root
      then Inr (join_with ''.'' (strip_lean (drop (length root) p)))
      else Inl (DiscoveryIo (path_text p) ''could not relativize Lean source path'' ''prefix not found''))"

definition module_root_exists :: "fs_node \<Rightarrow> path \<Rightarrow> string \<Rightarrow> bool" where
  "module_root_exists fs root name \<longleftrightarrow> is_file fs (module_to_file root name) \<or> is_dir fs (module_to_dir root name)"

section \<open>Enumerating sources\<close>

record module_descriptor =
  md_module :: string
  md_path :: path
  md_source_root :: string

type_synonym module_map = "(string \<times> module_descriptor) list"

definition descriptor :: "string \<Rightarrow> path \<Rightarrow> string \<Rightarrow> module_descriptor" where
  "descriptor name p source_root = \<lparr>md_module = name, md_path = p, md_source_root = source_root\<rparr>"

fun collect_sources ::
  "unicode \<Rightarrow> path \<Rightarrow> path \<Rightarrow> string \<Rightarrow> (string \<times> fs_node) list \<Rightarrow> module_map \<Rightarrow> discovery_error + module_map" where
  "collect_sources uc root dir source_root [] m = Inr m"
| "collect_sources uc root dir source_root ((name, FsDir err es) # rest) m =
     (case (case err of
              Some e \<Rightarrow> Inl (DiscoveryIo (path_text (dir @ [name])) ''could not read Lean source directory'' e)
            | None \<Rightarrow> collect_sources uc root (dir @ [name]) source_root es m) of
        Inl e \<Rightarrow> Inl e
      | Inr m1 \<Rightarrow> collect_sources uc root dir source_root rest m1)"
| "collect_sources uc root dir source_root ((name, FsFile content mtime) # rest) m =
     (if is_lean_name name
      then (case module_from_path root (dir @ [name]) of
              Inl e \<Rightarrow> Inl e
            | Inr module \<Rightarrow>
                (case validate_module_name uc module of
                   Inl e \<Rightarrow> Inl e
                 | Inr _ \<Rightarrow> collect_sources uc root dir source_root rest
                     (btree_insert module (descriptor module (dir @ [name]) source_root) m)))
      else collect_sources uc root dir source_root rest m)"

definition own_source :: "fs_node \<Rightarrow> path \<Rightarrow> string \<Rightarrow> module_map \<Rightarrow> module_map" where
  "own_source fs root source_root m =
     (let root_file = module_to_file root source_root in
      if is_file fs root_file then btree_insert source_root (descriptor source_root root_file source_root) m else m)"

fun enumerate_roots :: "unicode \<Rightarrow> fs_node \<Rightarrow> path \<Rightarrow> string list \<Rightarrow> module_map \<Rightarrow> discovery_error + module_map" where
  "enumerate_roots uc fs root [] m = Inr m"
| "enumerate_roots uc fs root (source_root # more_roots) m =
     (let m1 = own_source fs root source_root m;
          module_dir = module_to_dir root source_root
      in if is_dir fs module_dir
         then (case fs_read_dir fs module_dir of
                 Inl e \<Rightarrow> Inl (DiscoveryIo (path_text module_dir) ''could not read Lean source directory'' e)
               | Inr es \<Rightarrow>
                   (case collect_sources uc root module_dir source_root es m1 of
                      Inl e \<Rightarrow> Inl e
                    | Inr m2 \<Rightarrow> enumerate_roots uc fs root more_roots m2))
         else enumerate_roots uc fs root more_roots m1)"

definition enumerate_sources :: "unicode \<Rightarrow> fs_node \<Rightarrow> path \<Rightarrow> string list \<Rightarrow> discovery_error + module_descriptor list" where
  "enumerate_sources uc fs root selected =
     (case enumerate_roots uc fs root selected [] of Inl e \<Rightarrow> Inl e | Inr m \<Rightarrow> Inr (map snd m))"

section \<open>The lakefile\<close>

definition lakefile_path :: "fs_node \<Rightarrow> path \<Rightarrow> path option" where
  "lakefile_path fs root =
     (if is_file fs (root @ [''lakefile.toml'']) then Some (root @ [''lakefile.toml''])
      else if is_file fs (root @ [''lakefile.lean'']) then Some (root @ [''lakefile.lean''])
      else None)"

definition lake_root_for :: "fs_node \<Rightarrow> path \<Rightarrow> discovery_error + path \<times> path" where
  "lake_root_for fs p =
     (case lakefile_path fs p of
        Some lakefile \<Rightarrow> Inr (p, lakefile)
      | None \<Rightarrow>
          (case lakefile_path fs (p @ [''lean'']) of
             Some lakefile \<Rightarrow> Inr (p @ [''lean''], lakefile)
           | None \<Rightarrow> Inl (MissingLakeRoot (path_text p))))"

text \<open>\<open>str::lines\<close>: a terminated line loses its line feed and one carriage return before it.\<close>

definition str_lines :: "string \<Rightarrow> string list" where
  "str_lines s =
     (let parts = split_on (CHR 0x0A) s;
          terminated = map (\<lambda>l. if l \<noteq> [] \<and> last l = CHR 0x0D then butlast l else l) (butlast parts)
      in if last parts = [] then terminated else terminated @ [last parts])"

text \<open>\<open>str::trim_start\<close> is \<open>strip_space\<close>; the first word of a text is what precedes its next white space.\<close>

fun until_space :: "string \<Rightarrow> string" where
  "until_space [] = []"
| "until_space (c # s) = (if strip_space (c # s) = c # s then c # until_space s else [])"

definition first_word :: "string \<Rightarrow> string option" where
  "first_word s = (case strip_space s of [] \<Rightarrow> None | c # rest \<Rightarrow> Some (until_space (c # rest)))"

definition strip_prefix :: "string \<Rightarrow> string \<Rightarrow> string option" where
  "strip_prefix prefix_text s =
     (if take (length prefix_text) s = prefix_text then Some (drop (length prefix_text) s) else None)"

text \<open>\<open>str::trim_matches\<close> of one character, given by its encoding.\<close>

function strip_repeated :: "string \<Rightarrow> string \<Rightarrow> string" where
  "strip_repeated p s =
     (if p \<noteq> [] \<and> take (length p) s = p then strip_repeated p (drop (length p) s) else s)"
  by pat_completeness auto
termination by (relation "measure (\<lambda>(p, s). length s)") (auto intro!: diff_less)

declare strip_repeated.simps [simp del]

definition trim_matches :: "string \<Rightarrow> string \<Rightarrow> string" where
  "trim_matches p s = rev (strip_repeated (rev p) (rev (strip_repeated p s)))"

definition normalize_lake_identifier :: "string \<Rightarrow> string" where
  "normalize_lake_identifier raw =
     trim (trim_matches [CHR 0x22] (trim_matches [CHR 0xC2, CHR 0xBB] (trim_matches [CHR 0xC2, CHR 0xAB]
       (trim_matches [CHR 0x60] (trim raw)))))"

datatype toml = TomlString string | TomlArray "toml list" | TomlTable "(string \<times> toml) list" | TomlScalar

fun toml_get :: "string \<Rightarrow> toml \<Rightarrow> toml option" where
  "toml_get key (TomlTable t) = map_of t key"
| "toml_get key v = None"

fun toml_str :: "toml \<Rightarrow> string option" where
  "toml_str (TomlString s) = Some s"
| "toml_str v = None"

definition nonempty_name :: "string \<Rightarrow> string option" where
  "nonempty_name s = (let name = trim s in if name = [] then None else Some name)"

record lakefile_toml =
  lt_package_name :: "string option"
  lt_lean_libs :: "string list"

definition lean_lib_name :: "toml \<Rightarrow> string option" where
  "lean_lib_name entry =
     (case entry of
        TomlTable t \<Rightarrow> Option.bind (Option.bind (map_of t ''name'') toml_str) nonempty_name
      | _ \<Rightarrow> None)"

definition parse_lakefile_toml :: "(string \<Rightarrow> string + toml) \<Rightarrow> string \<Rightarrow> string + lakefile_toml" where
  "parse_lakefile_toml toml_from_str text =
     (case toml_from_str text of
        Inl e \<Rightarrow> Inl e
      | Inr document \<Rightarrow>
          Inr \<lparr>lt_package_name = Option.bind (Option.bind (toml_get ''name'' document) toml_str) nonempty_name,
               lt_lean_libs =
                 (case toml_get ''lean_lib'' document of
                    Some (TomlArray entries) \<Rightarrow> List.map_filter lean_lib_name entries
                  | _ \<Rightarrow> [])\<rparr>)"

definition discover_toml_lakefile_roots ::
  "(string \<Rightarrow> string + toml) \<Rightarrow> fs_node \<Rightarrow> path \<Rightarrow> discovery_error + string list" where
  "discover_toml_lakefile_roots toml_from_str fs lakefile =
     (case read_to_string fs lakefile ''could not read Lake TOML file'' of
        Inl e \<Rightarrow> Inl e
      | Inr text \<Rightarrow>
          (case parse_lakefile_toml toml_from_str text of
             Inl e \<Rightarrow> Inl (DiscoveryIo (path_text lakefile) ''could not parse Lake TOML file'' e)
           | Inr parsed \<Rightarrow> Inr (lt_lean_libs parsed)))"

definition declared_on_line :: "string \<Rightarrow> string option" where
  "declared_on_line line =
     Option.bind (strip_prefix ''lean_lib '' (strip_space line)) (\<lambda>rest.
     Option.bind (first_word rest) (\<lambda>raw.
       let root = normalize_lake_identifier raw in if root = [] then None else Some root))"

definition discover_lean_lakefile_roots :: "fs_node \<Rightarrow> path \<Rightarrow> discovery_error + string list" where
  "discover_lean_lakefile_roots fs lakefile =
     (case read_to_string fs lakefile ''could not read Lake file'' of
        Inl e \<Rightarrow> Inl e
      | Inr text \<Rightarrow> Inr (List.map_filter declared_on_line (str_lines text)))"

definition top_level_root :: "string \<times> fs_node \<Rightarrow> string option" where
  "top_level_root e = (if is_lean_name (fst e) then Some (file_stem (fst e)) else None)"

definition discover_top_level_roots :: "fs_node \<Rightarrow> path \<Rightarrow> discovery_error + string list" where
  "discover_top_level_roots fs root =
     (case fs_read_dir fs root of
        Inl e \<Rightarrow> Inl (DiscoveryIo (path_text root) ''could not read Lake project directory'' e)
      | Inr es \<Rightarrow> Inr (List.map_filter top_level_root es))"

text \<open>\<open>sort\<close> and \<open>dedup\<close>, then the first invalid name.\<close>

fun validate_all :: "unicode \<Rightarrow> string list \<Rightarrow> discovery_error + unit" where
  "validate_all uc [] = Inr ()"
| "validate_all uc (name # names) =
     (case validate_module_name uc name of Inl e \<Rightarrow> Inl e | Inr _ \<Rightarrow> validate_all uc names)"

definition discover_module_roots ::
  "unicode \<Rightarrow> (string \<Rightarrow> string + toml) \<Rightarrow> fs_node \<Rightarrow> path \<Rightarrow> path \<Rightarrow> discovery_error + string list \<times> string list" where
  "discover_module_roots uc toml_from_str fs root lakefile =
     (case (if lakefile \<noteq> [] \<and> last lakefile = ''lakefile.toml''
            then discover_toml_lakefile_roots toml_from_str fs lakefile
            else discover_lean_lakefile_roots fs lakefile) of
        Inl e \<Rightarrow> Inl e
      | Inr found \<Rightarrow>
          let declared = remdups_adj (sort found) in
          (case validate_all uc declared of
             Inl e \<Rightarrow> Inl e
           | Inr _ \<Rightarrow>
               if declared = []
               then (case discover_top_level_roots fs root of
                       Inl e \<Rightarrow> Inl e
                     | Inr loose \<Rightarrow>
                         let fallback = remdups_adj (sort loose) in
                         (case validate_all uc fallback of
                            Inl e \<Rightarrow> Inl e | Inr _ \<Rightarrow> Inr (declared, fallback)))
               else Inr (declared, declared)))"

section \<open>The fingerprint of a source set\<close>

record module_set_fingerprint =
  sf_toolchain :: string
  sf_lakefile_sha256 :: string
  sf_manifest_sha256 :: "string option"
  sf_source_count :: nat
  sf_source_max_mtime_ns :: nat

definition sha256_file :: "(string \<Rightarrow> string) \<Rightarrow> fs_node \<Rightarrow> path \<Rightarrow> discovery_error + string" where
  "sha256_file sha256_hex fs p =
     (case fs_read fs p of
        Inl e \<Rightarrow> Inl (DiscoveryIo (path_text p) ''could not read file for fingerprinting'' e)
      | Inr bytes \<Rightarrow> Inr (sha256_hex bytes))"

fun max_mtime :: "fs_node \<Rightarrow> module_descriptor list \<Rightarrow> nat \<Rightarrow> discovery_error + nat" where
  "max_mtime fs [] t = Inr t"
| "max_mtime fs (d # ds) t =
     (case fs_at fs (md_path d) of
        None \<Rightarrow> Inl (DiscoveryIo (path_text (md_path d)) ''could not stat Lean module source'' not_found)
      | Some (FsDir _ _) \<Rightarrow> max_mtime fs ds t
      | Some (FsFile _ modified) \<Rightarrow>
          (case modified of
             Inl e \<Rightarrow> Inl (DiscoveryIo (path_text (md_path d)) ''could not read Lean module source mtime'' e)
           | Inr since_epoch \<Rightarrow> max_mtime fs ds (max t (case since_epoch of None \<Rightarrow> 0 | Some ns \<Rightarrow> ns))))"

definition fingerprint_source_set ::
  "(string \<Rightarrow> string) \<Rightarrow> fs_node \<Rightarrow> path \<Rightarrow> path \<Rightarrow> module_descriptor list \<Rightarrow> string
     \<Rightarrow> discovery_error + module_set_fingerprint" where
  "fingerprint_source_set sha256_hex fs root lakefile modules toolchain =
     (case sha256_file sha256_hex fs lakefile of
        Inl e \<Rightarrow> Inl e
      | Inr lakefile_sha256 \<Rightarrow>
          (case (if is_file fs (root @ [''lake-manifest.json''])
                 then (case sha256_file sha256_hex fs (root @ [''lake-manifest.json'']) of
                         Inl e \<Rightarrow> Inl e | Inr h \<Rightarrow> Inr (Some h))
                 else Inr None) of
             Inl e \<Rightarrow> Inl e
           | Inr manifest_sha256 \<Rightarrow>
               (case max_mtime fs modules 0 of
                  Inl e \<Rightarrow> Inl e
                | Inr t \<Rightarrow> Inr \<lparr>sf_toolchain = toolchain, sf_lakefile_sha256 = lakefile_sha256,
                    sf_manifest_sha256 = manifest_sha256, sf_source_count = length modules,
                    sf_source_max_mtime_ns = t\<rparr>)))"

section \<open>Discovery\<close>

record supported_toolchain =
  st_versions :: "string list"
  st_header_digest :: string
  st_missing_symbols :: "string list"

definition toolchain_entry :: "string list \<Rightarrow> string \<Rightarrow> string list \<Rightarrow> supported_toolchain" where
  "toolchain_entry versions digest missing =
     \<lparr>st_versions = versions, st_header_digest = digest, st_missing_symbols = missing\<rparr>"

definition SUPPORTED_TOOLCHAINS :: "supported_toolchain list" where
  "SUPPORTED_TOOLCHAINS =
     map (\<lambda>(versions, digest, missing). toolchain_entry versions digest missing)
      [([''4.30.0''],
       ''5a25125970f4f1dcf85a4c403463b387a8ff93535cd4a3054cafdee1759017d7'', []),
      ([''4.31.0-rc1'', ''4.31.0-rc2''],
       ''99ef35d69709e38caf836cf9ebbdf94d4474801e04157b8a72622dbdc653ec87'', []),
      ([''4.31.0''],
       ''486fe204404c0fdfb753b7e089c1c0d38fbdb396206030497696165e31218992'', []),
      ([''4.32.0-rc1'', ''4.32.0'', ''4.32.2''],
       ''22eed50aa703c4403010fabc12a7231ffa34dc979bd59ca1bfbac13c29a1dad2'', []),
      ([''4.33.0-rc1'', ''4.33.0-rc2'', ''4.33.0''],
       ''9018878554c5552ff3754865780d21825c2d0c5c4b47491b37bf6fe046adcd56'', []),
      ([''4.33.1''],
       ''02af0040283143b264e3a44b06b348b6973ae6037fa8f550701c83dd7a062ace'', []),
      ([''4.34.0-rc1''],
       ''19510ea01b07c55bd49066566e586179fe77f11120eeab7a29da50fa93cb1c8a'', []),
      ([''4.34.0-rc2'', ''4.34.0''],
       ''982c731a1fbacc7688006f44f9f7af9d9e3e0247d310a728827f49e7f1466c13'', []),
      ([''4.34.1''],
       ''866d80c309a9945b401e61fcf335a3b8545fb75c8b0a8b721fb1d3d3143d5d9c'', []),
      ([''4.35.0-rc1''],
       ''322d6bd8ab2646dfe3aa781a5f02e7d63ef7f121889b450fd55a1118b1afe3dc'', []),
      ([''4.35.0-rc2''],
       ''071e79d039717e51b1bd44bf0e1cdd950bc8fc2495a9e05f7aea481b42fa9926'', []),
      ([''4.35.0-rc3''],
       ''eb951e1171d39b828e7ad60aed0b90759598b678bfe58cf85c65a1559c021bf9'', [])]"

definition supported_for :: "string \<Rightarrow> supported_toolchain option" where
  "supported_for version = find (\<lambda>t. version \<in> set (st_versions t)) SUPPORTED_TOOLCHAINS"

definition supported_by_digest :: "string \<Rightarrow> supported_toolchain option" where
  "supported_by_digest digest = find (\<lambda>t. st_header_digest t = digest) SUPPORTED_TOOLCHAINS"

definition symbol_present_in_window :: "string \<Rightarrow> bool" where
  "symbol_present_in_window symbol \<longleftrightarrow> list_all (\<lambda>t. symbol \<notin> set (st_missing_symbols t)) SUPPORTED_TOOLCHAINS"

definition supported_window_text :: string where
  "supported_window_text = join_with '', '' (map (versions_debug \<circ> st_versions) SUPPORTED_TOOLCHAINS)"

text \<open>No version and no digest is in two entries, so each selects its entry.\<close>

lemma window_is_unambiguous:
  "distinct (concat (map st_versions SUPPORTED_TOOLCHAINS))" "distinct (map st_header_digest SUPPORTED_TOOLCHAINS)"
  by code_simp+

record lake_project_modules =
  lp_requested_root :: path
  lp_project_root :: path
  lp_lakefile :: path
  lp_declared_lean_libs :: "string list"
  lp_module_roots :: "string list"
  lp_selected_roots :: "string list"
  lp_modules :: "module_descriptor list"
  lp_fingerprint :: module_set_fingerprint

text \<open>The process around discovery: its home directory, and what the operating system says of a path text.\<close>

record discovery_host =
  dh_home :: "string option"
  dh_canonicalize :: "string \<Rightarrow> (string + path) option"
  dh_fs :: fs_node
  dh_unicode :: unicode
  dh_toml :: "string \<Rightarrow> string + toml"
  dh_sha256_hex :: "string \<Rightarrow> string"

definition expand_home :: "discovery_host \<Rightarrow> string \<Rightarrow> string" where
  "expand_home ho p =
     (if p = ''~'' then (case dh_home ho of Some home \<Rightarrow> home | None \<Rightarrow> p)
      else (case strip_prefix ''~/'' p of
              Some rest \<Rightarrow>
                (case dh_home ho of
                   Some home \<Rightarrow> (if take 1 rest = ''/'' then rest else home @ ''/'' @ rest)
                 | None \<Rightarrow> p)
            | None \<Rightarrow> p))"

text \<open>\<open>None\<close> where the path does not exist.\<close>

definition normalize_existing :: "discovery_host \<Rightarrow> string \<Rightarrow> discovery_error + path" where
  "normalize_existing ho p =
     (let expanded = expand_home ho p in
      case dh_canonicalize ho expanded of
        None \<Rightarrow> Inl (MissingLakeRoot expanded)
      | Some (Inl e) \<Rightarrow> Inl (DiscoveryIo expanded ''could not canonicalize path'' e)
      | Some (Inr q) \<Rightarrow> Inr q)"

record discovery_options =
  do_requested_root :: string
  do_selected_roots :: "string list option"
  do_toolchain :: string

definition options_new :: "string \<Rightarrow> string \<Rightarrow> discovery_options" where
  "options_new current_toolchain root =
     \<lparr>do_requested_root = root, do_selected_roots = None, do_toolchain = current_toolchain\<rparr>"

fun check_roots :: "unicode \<Rightarrow> fs_node \<Rightarrow> path \<Rightarrow> string list \<Rightarrow> discovery_error + unit" where
  "check_roots uc fs root [] = Inr ()"
| "check_roots uc fs root (name # names) =
     (case validate_module_name uc name of
        Inl e \<Rightarrow> Inl e
      | Inr _ \<Rightarrow>
          if \<not> module_root_exists fs root name then Inl (MissingModuleRoot root name)
          else check_roots uc fs root names)"

definition discover_lake_modules :: "discovery_host \<Rightarrow> discovery_options \<Rightarrow> discovery_error + lake_project_modules" where
  "discover_lake_modules ho opts =
     (let uc = dh_unicode ho; fs = dh_fs ho in
      if supported_for (do_toolchain opts) = None
      then Inl (UnsupportedToolchain (do_toolchain opts) supported_window_text)
      else case normalize_existing ho (do_requested_root opts) of
        Inl e \<Rightarrow> Inl e
      | Inr requested_root \<Rightarrow>
          (case lake_root_for fs requested_root of
             Inl e \<Rightarrow> Inl e
           | Inr (root, lakefile) \<Rightarrow>
               (case discover_module_roots uc (dh_toml ho) fs root lakefile of
                  Inl e \<Rightarrow> Inl e
                | Inr (declared, module_roots) \<Rightarrow>
                    let selected = (case do_selected_roots opts of Some rs \<Rightarrow> rs | None \<Rightarrow> module_roots) in
                    (case check_roots uc fs root selected of
                       Inl e \<Rightarrow> Inl e
                     | Inr _ \<Rightarrow>
                         (case enumerate_sources uc fs root selected of
                            Inl e \<Rightarrow> Inl e
                          | Inr modules \<Rightarrow>
                              (case fingerprint_source_set (dh_sha256_hex ho) fs root lakefile modules (do_toolchain opts) of
                                 Inl e \<Rightarrow> Inl e
                               | Inr fingerprint \<Rightarrow>
                                   Inr \<lparr>lp_requested_root = requested_root, lp_project_root = root,
                                     lp_lakefile = lakefile, lp_declared_lean_libs = declared,
                                     lp_module_roots = module_roots, lp_selected_roots = selected,
                                     lp_modules = modules, lp_fingerprint = fingerprint\<rparr>))))))"

section \<open>Facts on names\<close>

lemma component_fault_nonempty: "component_fault uc part = None \<Longrightarrow> part \<noteq> []"
  by (auto simp: component_fault_def)

lemma first_fault_None: "first_fault uc parts = None \<longleftrightarrow> (\<forall>part \<in> set parts. component_fault uc part = None)"
  by (induction parts) (auto split: option.splits)

lemma name_fault_None:
  "name_fault uc name = None \<longleftrightarrow>
     name \<noteq> [] \<and> (\<forall>part \<in> set (split_on (CHR ''.'') name). component_fault uc part = None)"
  by (simp add: name_fault_def first_fault_None)

lemma name_parts_nonempty:
  "name_fault uc name = None \<Longrightarrow> part \<in> set (split_on (CHR ''.'') name) \<Longrightarrow> part \<noteq> []"
  by (meson component_fault_nonempty name_fault_None)

lemma fold_path_push: "\<forall>part \<in> set parts. part \<noteq> [] \<Longrightarrow> fold (\<lambda>part p. path_push p part) parts p = p @ parts"
  by (induction parts arbitrary: p) (auto simp: path_push_def)

lemma module_to_dir_parts:
  "name_fault uc name = None \<Longrightarrow> module_to_dir root name = root @ split_on (CHR ''.'') name"
  using name_parts_nonempty by (simp add: module_to_dir_def fold_path_push)

lemma file_stem_plain: "CHR ''.'' \<notin> set part \<Longrightarrow> file_stem part = part"
proof -
  assume "CHR ''.'' \<notin> set part"
  then have "rposition (\<lambda>c. c = CHR ''.'') part = None" by (auto simp: rposition_None)
  then show "file_stem part = part" unfolding file_stem_def by (simp only: option.simps)
qed

lemma module_to_file_parts:
  assumes "name_fault uc name = None"
  shows "module_to_file root name =
    root @ butlast (split_on (CHR ''.'') name) @ [last (split_on (CHR ''.'') name) @ ''.lean'']"
proof -
  let ?parts = "split_on (CHR ''.'') name"
  have "CHR ''.'' \<notin> set (last ?parts)" by (rule split_on_parts [of _ _ name]) simp
  then show ?thesis
    by (simp add: module_to_file_def module_to_dir_parts [OF assms] set_extension_lean_def butlast_append file_stem_plain)
qed

lemma strip_suffix_append [simp]: "strip_suffix suffix (s @ suffix) = Some s"
  by (simp add: strip_suffix_def)

definition source_name :: "path \<Rightarrow> path \<Rightarrow> string" where
  "source_name root p = join_with ''.'' (strip_lean (drop (length root) p))"

lemma module_from_path_below: "module_from_path root (root @ rel) = Inr (source_name root (root @ rel))"
  by (simp add: module_from_path_def source_name_def)

lemma source_name_of_file:
  "name_fault uc name = None \<Longrightarrow> source_name root (module_to_file root name) = name"
  by (simp add: source_name_def module_to_file_parts strip_lean_def join_split [of "CHR ''.''" name])

lemma file_of_source_name:
  assumes "\<forall>part \<in> set (parts @ [stem]). CHR ''.'' \<notin> set part \<and> part \<noteq> []"
  shows "module_to_file root (source_name root (root @ parts @ [stem @ ''.lean''])) = root @ parts @ [stem @ ''.lean'']"
proof -
  have "source_name root (root @ parts @ [stem @ ''.lean'']) = join_with ''.'' (parts @ [stem])"
    by (simp add: source_name_def strip_lean_def butlast_append)
  moreover have "split_on (CHR ''.'') (join_with ''.'' (parts @ [stem])) = parts @ [stem]"
    by (rule split_join) (use assms in auto)
  ultimately show ?thesis
    using assms by (simp add: module_to_file_def module_to_dir_def fold_path_push set_extension_lean_def butlast_append
        file_stem_plain del: fold_append)
qed

section \<open>The files of a directory\<close>

fun lean_files :: "path \<Rightarrow> (string \<times> fs_node) list \<Rightarrow> path list" where
  "lean_files dir [] = []"
| "lean_files dir ((name, FsDir err es) # rest) = lean_files (dir @ [name]) es @ lean_files dir rest"
| "lean_files dir ((name, FsFile content mtime) # rest) =
     (if is_lean_name name then [dir @ [name]] else []) @ lean_files dir rest"

fun all_readable :: "(string \<times> fs_node) list \<Rightarrow> bool" where
  "all_readable [] \<longleftrightarrow> True"
| "all_readable ((name, FsDir err es) # rest) \<longleftrightarrow> err = None \<and> all_readable es \<and> all_readable rest"
| "all_readable ((name, FsFile content mtime) # rest) \<longleftrightarrow> all_readable rest"

text \<open>No directory lists a name twice.\<close>

fun entries_distinct :: "(string \<times> fs_node) list \<Rightarrow> bool" where
  "entries_distinct [] \<longleftrightarrow> True"
| "entries_distinct ((name, FsDir err es) # rest) \<longleftrightarrow>
     name \<notin> fst ` set rest \<and> entries_distinct es \<and> entries_distinct rest"
| "entries_distinct ((name, FsFile content mtime) # rest) \<longleftrightarrow> name \<notin> fst ` set rest \<and> entries_distinct rest"

lemma entries_distinct_keys: "entries_distinct es \<Longrightarrow> distinct (map fst es)"
  by (induction es rule: entries_distinct.induct) auto

lemma entries_distinct_sub: "entries_distinct es \<Longrightarrow> (name, FsDir err es') \<in> set es \<Longrightarrow> entries_distinct es'"
  by (induction es rule: entries_distinct.induct) auto

lemma fs_at_distinct:
  "fs_at (FsDir err es) p = Some (FsDir err' es') \<Longrightarrow> entries_distinct es \<Longrightarrow> entries_distinct es'"
proof (induction p arbitrary: err es)
  case (Cons c p)
  then obtain node where n: "map_of es c = Some node" "fs_at node p = Some (FsDir err' es')"
    by (auto split: option.splits)
  then obtain err1 es1 where d: "node = FsDir err1 es1" by (cases node; cases p) auto
  have "entries_distinct es1" using entries_distinct_sub [OF Cons.prems(2)] map_of_SomeD [OF n(1)] d by blast
  with Cons.IH n(2) d show ?case by blast
qed simp

lemma fs_at_append: "fs_at node (p @ q) = Option.bind (fs_at node p) (\<lambda>n. fs_at n q)"
  by (induction node p rule: fs_at.induct) (auto split: option.splits)

lemma lean_files_iff:
  "entries_distinct es \<Longrightarrow>
     p \<in> set (lean_files dir es) \<longleftrightarrow>
       (\<exists>rel content mtime. p = dir @ rel \<and> rel \<noteq> [] \<and> is_lean_name (last rel) \<and>
          fs_at (FsDir None es) rel = Some (FsFile content mtime))"
proof (induction dir es rule: lean_files.induct)
  case (1 dir)
  then show ?case by (auto simp: neq_Nil_conv)
next
  case (2 dir name err es rest)
  have split: "(\<exists>rel c t. p = dir @ rel \<and> rel \<noteq> [] \<and> is_lean_name (last rel) \<and>
        fs_at (FsDir None ((name, FsDir err es) # rest)) rel = Some (FsFile c t)) \<longleftrightarrow>
      (\<exists>rel c t. p = (dir @ [name]) @ rel \<and> rel \<noteq> [] \<and> is_lean_name (last rel) \<and>
        fs_at (FsDir None es) rel = Some (FsFile c t)) \<or>
      (\<exists>rel c t. p = dir @ rel \<and> rel \<noteq> [] \<and> is_lean_name (last rel) \<and>
        fs_at (FsDir None rest) rel = Some (FsFile c t))" (is "?L \<longleftrightarrow> ?A \<or> ?B")
  proof
    assume ?L
    then obtain rel c t where r: "p = dir @ rel" "rel \<noteq> []" "is_lean_name (last rel)"
      "fs_at (FsDir None ((name, FsDir err es) # rest)) rel = Some (FsFile c t)" by blast
    obtain n rel' where rel: "rel = n # rel'" using r(2) by (cases rel) auto
    show "?A \<or> ?B"
    proof (cases "n = name")
      case True
      then have f: "fs_at (FsDir err es) rel' = Some (FsFile c t)" using r(4) rel by simp
      then have "rel' \<noteq> []" by auto
      moreover have "fs_at (FsDir None es) rel' = Some (FsFile c t)" using f \<open>rel' \<noteq> []\<close> by (cases rel') auto
      ultimately show ?thesis using r rel True by auto
    next
      case False
      then show ?thesis using r rel by auto
    qed
  next
    assume "?A \<or> ?B"
    then show ?L
    proof
      assume ?A
      then obtain rel c t where r: "p = (dir @ [name]) @ rel" "rel \<noteq> []" "is_lean_name (last rel)"
        "fs_at (FsDir None es) rel = Some (FsFile c t)" by blast
      then have "fs_at (FsDir err es) rel = Some (FsFile c t)" by (cases rel) auto
      with r show ?L by (intro exI [of _ "name # rel"]) auto
    next
      assume ?B
      then obtain rel c t where r: "p = dir @ rel" "rel \<noteq> []" "is_lean_name (last rel)"
        "fs_at (FsDir None rest) rel = Some (FsFile c t)" by blast
      obtain n rel' where rel: "rel = n # rel'" using r(2) by (cases rel) auto
      then have "n \<in> fst ` set rest" using r(4) by (auto split: option.splits dest!: map_of_SomeD intro: rev_image_eqI)
      then have "n \<noteq> name" using 2(3) by auto
      with r rel show ?L by auto
    qed
  qed
  then show ?case using 2 by (simp del: fs_at.simps)
next
  case (3 dir name content mtime rest)
  have split: "(\<exists>rel c t. p = dir @ rel \<and> rel \<noteq> [] \<and> is_lean_name (last rel) \<and>
        fs_at (FsDir None ((name, FsFile content mtime) # rest)) rel = Some (FsFile c t)) \<longleftrightarrow>
      (is_lean_name name \<and> p = dir @ [name]) \<or>
      (\<exists>rel c t. p = dir @ rel \<and> rel \<noteq> [] \<and> is_lean_name (last rel) \<and>
        fs_at (FsDir None rest) rel = Some (FsFile c t))" (is "?L \<longleftrightarrow> ?A \<or> ?B")
  proof
    assume ?L
    then obtain rel c t where r: "p = dir @ rel" "rel \<noteq> []" "is_lean_name (last rel)"
      "fs_at (FsDir None ((name, FsFile content mtime) # rest)) rel = Some (FsFile c t)" by blast
    obtain n rel' where rel: "rel = n # rel'" using r(2) by (cases rel) auto
    show "?A \<or> ?B"
    proof (cases "n = name")
      case True
      then have "rel' = []" using r(4) rel by (cases rel') auto
      then show ?thesis using r rel True by simp
    next
      case False
      then show ?thesis using r rel by auto
    qed
  next
    assume "?A \<or> ?B"
    then show ?L
    proof
      assume ?A
      then show ?L by (intro exI [of _ "[name]"]) auto
    next
      assume ?B
      then obtain rel c t where r: "p = dir @ rel" "rel \<noteq> []" "is_lean_name (last rel)"
        "fs_at (FsDir None rest) rel = Some (FsFile c t)" by blast
      obtain n rel' where rel: "rel = n # rel'" using r(2) by (cases rel) auto
      then have "n \<in> fst ` set rest" using r(4) by (auto split: option.splits dest!: map_of_SomeD intro: rev_image_eqI)
      then have "n \<noteq> name" using 3(2) by auto
      with r rel show ?L by auto
    qed
  qed
  have rec: "p \<in> set (lean_files dir rest) \<longleftrightarrow> ?B" using 3 by simp
  have "p \<in> set (lean_files dir ((name, FsFile content mtime) # rest)) \<longleftrightarrow> ?A \<or> p \<in> set (lean_files dir rest)"
    by auto
  then show ?case by (simp only: rec split)
qed

section \<open>What is collected\<close>

definition source_entry :: "path \<Rightarrow> string \<Rightarrow> path \<Rightarrow> string \<times> module_descriptor" where
  "source_entry root source_root p = (source_name root p, descriptor (source_name root p) p source_root)"

lemma lean_files_below: "p \<in> set (lean_files dir es) \<Longrightarrow> \<exists>rel. p = dir @ rel"
  by (induction dir es rule: lean_files.induct) (auto split: if_splits)

lemma put_all_append: "replacing.put_all (xs @ ys) m = replacing.put_all ys (replacing.put_all xs m)"
  by (simp add: replacing.put_all_def)

lemma put_all_Cons: "replacing.put_all ((k, v) # kvs) m = replacing.put_all kvs (btree_insert k v m)"
  by (simp add: replacing.put_all_def)

lemma put_all_none: "replacing.put_all [] m = m"
  by (simp add: replacing.put_all_def)

lemma collect_sources_puts:
  assumes "collect_sources uc root dir source_root es m = Inr m'" "take (length root) dir = root"
  shows "m' = replacing.put_all (map (source_entry root source_root) (lean_files dir es)) m \<and>
    (\<forall>p \<in> set (lean_files dir es). name_fault uc (source_name root p) = None) \<and> all_readable es"
  using assms
proof (induction uc root dir source_root es m arbitrary: m' rule: collect_sources.induct)
  case (1 uc root dir source_root m)
  then show ?case by (simp add: put_all_none)
next
  case (2 uc root dir source_root name err es rest m)
  have len: "length root \<le> length dir" using 2(4) by (metis length_take min.absorb_iff2 min.commute)
  obtain m1 where m1: "collect_sources uc root (dir @ [name]) source_root es m = Inr m1" "err = None"
    "collect_sources uc root dir source_root rest m1 = Inr m'"
    using 2(3) by (auto split: option.splits sum.splits)
  have "m1 = replacing.put_all (map (source_entry root source_root) (lean_files (dir @ [name]) es)) m \<and>
    (\<forall>p \<in> set (lean_files (dir @ [name]) es). name_fault uc (source_name root p) = None) \<and> all_readable es"
    by (rule 2(1) [OF m1(2) m1(1)]) (use 2(4) len in simp)
  moreover have "m' = replacing.put_all (map (source_entry root source_root) (lean_files dir rest)) m1 \<and>
    (\<forall>p \<in> set (lean_files dir rest). name_fault uc (source_name root p) = None) \<and> all_readable rest"
    by (rule 2(2) [OF _ m1(3) 2(4)]) (simp add: m1)
  ultimately show ?case by (auto simp: m1(2) put_all_append)
next
  case (3 uc root dir source_root name content mtime rest m)
  show ?case
  proof (cases "is_lean_name name")
    case True
    have len: "length root \<le> length dir" using 3(4) by (metis length_take min.absorb_iff2 min.commute)
    have named: "module_from_path root (dir @ [name]) = Inr (source_name root (dir @ [name]))"
      using 3(4) len by (simp add: module_from_path_def source_name_def)
    have ok: "name_fault uc (source_name root (dir @ [name])) = None"
      using 3(3) True by (auto simp: named validate_module_name_def split: option.splits)
    let ?m1 = "btree_insert (source_name root (dir @ [name]))
      (descriptor (source_name root (dir @ [name])) (dir @ [name]) source_root) m"
    have "m' = replacing.put_all (map (source_entry root source_root) (lean_files dir rest)) ?m1 \<and>
      (\<forall>p \<in> set (lean_files dir rest). name_fault uc (source_name root p) = None) \<and> all_readable rest"
    proof (rule 3(1) [OF True named _ _ 3(4)])
      show "validate_module_name uc (source_name root (dir @ [name])) = Inr ()"
        by (simp add: validate_module_name_def ok)
      show "collect_sources uc root dir source_root rest ?m1 = Inr m'"
        using 3(3) True by (simp add: named validate_module_name_def ok)
    qed
    then show ?thesis using True ok
      by (simp add: put_all_Cons source_entry_def [of root source_root "dir @ [name]"])
  next
    case False
    then show ?thesis using 3 by simp
  qed
qed

lemma collect_sources_total:
  assumes "take (length root) dir = root" "all_readable es"
    "\<forall>p \<in> set (lean_files dir es). name_fault uc (source_name root p) = None"
  shows "\<exists>m'. collect_sources uc root dir source_root es m = Inr m'"
  using assms
proof (induction uc root dir source_root es m rule: collect_sources.induct)
  case (1 uc root dir source_root m)
  then show ?case by simp
next
  case (2 uc root dir source_root name err es rest m)
  have len: "length root \<le> length dir" using 2(3) by (metis length_take min.absorb_iff2 min.commute)
  have err: "err = None" using 2(4) by simp
  have "\<exists>m1. collect_sources uc root (dir @ [name]) source_root es m = Inr m1"
    by (rule 2(1) [OF err]) (use 2(3-5) len in auto)
  then obtain m1 where m1: "collect_sources uc root (dir @ [name]) source_root es m = Inr m1" by blast
  have "\<exists>m'. collect_sources uc root dir source_root rest m1 = Inr m'"
    by (rule 2(2)) (use 2(3-5) m1 err in auto)
  then show ?case by (simp add: m1 err)
next
  case (3 uc root dir source_root name content mtime rest m)
  show ?case
  proof (cases "is_lean_name name")
    case True
    have len: "length root \<le> length dir" using 3(3) by (metis length_take min.absorb_iff2 min.commute)
    have named: "module_from_path root (dir @ [name]) = Inr (source_name root (dir @ [name]))"
      using 3(3) len by (simp add: module_from_path_def source_name_def)
    have ok: "validate_module_name uc (source_name root (dir @ [name])) = Inr ()"
      using 3(5) True by (simp add: validate_module_name_def)
    have "\<exists>m'. collect_sources uc root dir source_root rest (btree_insert (source_name root (dir @ [name]))
      (descriptor (source_name root (dir @ [name])) (dir @ [name]) source_root) m) = Inr m'"
      by (rule 3(1) [OF True named ok]) (use 3(3-5) in auto)
    then show ?thesis by (simp add: True named ok)
  next
    case False
    then show ?thesis using 3 by simp
  qed
qed

definition root_sources :: "fs_node \<Rightarrow> path \<Rightarrow> string \<Rightarrow> (string \<times> module_descriptor) list" where
  "root_sources fs root source_root =
     (if is_file fs (module_to_file root source_root)
      then [(source_root, descriptor source_root (module_to_file root source_root) source_root)] else []) @
     (case fs_at fs (module_to_dir root source_root) of
        Some (FsDir None es) \<Rightarrow> map (source_entry root source_root) (lean_files (module_to_dir root source_root) es)
      | _ \<Rightarrow> [])"

lemma own_source_puts:
  "own_source fs root source_root m = replacing.put_all
     (if is_file fs (module_to_file root source_root)
      then [(source_root, descriptor source_root (module_to_file root source_root) source_root)] else []) m"
  by (simp add: own_source_def Let_def put_all_Cons put_all_none)

lemma module_to_dir_take: "name_fault uc name = None \<Longrightarrow> take (length root) (module_to_dir root name) = root"
  by (simp add: module_to_dir_parts)

lemma enumerate_roots_puts:
  assumes "enumerate_roots uc fs root roots m = Inr m'" "\<forall>r \<in> set roots. name_fault uc r = None"
  shows "m' = replacing.put_all (concat (map (root_sources fs root) roots)) m \<and>
    (\<forall>r \<in> set roots. \<forall>e \<in> set (root_sources fs root r). name_fault uc (fst e) = None)"
  using assms
proof (induction roots arbitrary: m)
  case Nil
  then show ?case by (simp add: put_all_none)
next
  case (Cons r roots)
  let ?m1 = "own_source fs root r m" and ?dir = "module_to_dir root r"
  have ok: "name_fault uc r = None" using Cons.prems(2) by simp
  show ?case
  proof (cases "is_dir fs ?dir")
    case True
    then obtain err es where at: "fs_at fs ?dir = Some (FsDir err es)"
      by (auto simp: is_dir_def split: option.splits fs_node.splits)
    obtain es m2 where read: "fs_read_dir fs ?dir = Inr es"
      "collect_sources uc root ?dir r es ?m1 = Inr m2" "enumerate_roots uc fs root roots m2 = Inr m'"
      using Cons.prems(1) True by (auto simp: Let_def split: sum.splits)
    then have at': "fs_at fs ?dir = Some (FsDir None es)"
      using at by (cases err) (auto simp: fs_read_dir_def)
    have got: "m2 = replacing.put_all (map (source_entry root r) (lean_files ?dir es)) ?m1 \<and>
      (\<forall>p \<in> set (lean_files ?dir es). name_fault uc (source_name root p) = None) \<and> all_readable es"
      by (rule collect_sources_puts [OF read(2) module_to_dir_take [OF ok]])
    have "m' = replacing.put_all (concat (map (root_sources fs root) roots)) m2 \<and>
      (\<forall>r \<in> set roots. \<forall>e \<in> set (root_sources fs root r). name_fault uc (fst e) = None)"
      by (rule Cons.IH [OF read(3)]) (use Cons.prems(2) in simp)
    moreover have "root_sources fs root r =
      (if is_file fs (module_to_file root r) then [(r, descriptor r (module_to_file root r) r)] else []) @
      map (source_entry root r) (lean_files ?dir es)"
      by (simp add: root_sources_def at')
    ultimately show ?thesis
      using got ok by (auto simp: own_source_puts put_all_append source_entry_def simp del: fold_append split: if_splits)
  next
    case False
    then have rest: "enumerate_roots uc fs root roots ?m1 = Inr m'" using Cons.prems(1) by (simp add: Let_def)
    have "m' = replacing.put_all (concat (map (root_sources fs root) roots)) ?m1 \<and>
      (\<forall>r \<in> set roots. \<forall>e \<in> set (root_sources fs root r). name_fault uc (fst e) = None)"
      by (rule Cons.IH [OF rest]) (use Cons.prems(2) in simp)
    moreover have "root_sources fs root r =
      (if is_file fs (module_to_file root r) then [(r, descriptor r (module_to_file root r) r)] else [])"
      using False by (auto simp: root_sources_def is_dir_def split: option.splits fs_node.splits)
    ultimately show ?thesis
      using ok by (auto simp: own_source_puts put_all_append split: if_splits)
  qed
qed

lemma check_roots_ok:
  "check_roots uc fs root names = Inr () \<Longrightarrow>
     \<forall>n \<in> set names. name_fault uc n = None \<and> module_root_exists fs root n"
  by (induction names) (auto simp: validate_module_name_def split: option.splits sum.splits if_splits)

text \<open>What a listed module is, and which modules are listed.\<close>

lemma root_source_entry:
  assumes "(n, d) \<in> set (root_sources fs root r)" "name_fault uc r = None"
  shows "md_module d = n \<and> md_source_root d = r \<and> module_from_path root (md_path d) = Inr n"
proof -
  have "module_from_path root (module_to_file root r) = Inr r"
    using module_from_path_below [of root] source_name_of_file [OF assms(2), of root] module_to_file_parts [OF assms(2), of root]
    by metis
  moreover have "module_from_path root p = Inr (source_name root p)"
    if "p \<in> set (lean_files (module_to_dir root r) es)" for p es
    using lean_files_below [OF that] module_to_dir_parts [OF assms(2), of root] module_from_path_below [of root]
    by (metis append.assoc)
  ultimately show ?thesis
    using assms(1) by (auto simp: root_sources_def descriptor_def source_entry_def split: option.splits fs_node.splits if_splits)
qed

lemma enumerate_sources_entries:
  assumes "enumerate_sources uc fs root roots = Inr ds" "\<forall>r \<in> set roots. name_fault uc r = None"
  shows "map md_module ds = sorted_list_of_set (fst ` (\<Union>r \<in> set roots. set (root_sources fs root r)))"
    and "d \<in> set ds \<Longrightarrow> \<exists>r \<in> set roots. (md_module d, d) \<in> set (root_sources fs root r)"
    and "d \<in> set ds \<Longrightarrow> name_fault uc (md_module d) = None"
proof -
  let ?kvs = "concat (map (root_sources fs root) roots)"
  obtain m where m: "enumerate_roots uc fs root roots [] = Inr m" "ds = map snd m"
    using assms(1) by (auto simp: enumerate_sources_def split: sum.splits)
  have puts: "m = replacing.put_all ?kvs []"
    "\<forall>r \<in> set roots. \<forall>e \<in> set (root_sources fs root r). name_fault uc (fst e) = None"
    using enumerate_roots_puts [OF m(1) assms(2)] by simp_all
  have entry: "e \<in> set ?kvs" if "e \<in> set m" for e
  proof -
    let ?vs = "map snd (filter (\<lambda>x. fst x = fst e) ?kvs)"
    have "fst e \<in> fst ` set ?kvs" using replacing.put_all_keys [of ?kvs] that puts(1) by blast
    then have ne: "?vs \<noteq> []" by (force simp: filter_empty_conv)
    have "e = (fst e, the (replacing.combined ?vs None))"
      using that unfolding puts(1) replacing.put_all_entries by auto
    then have "snd e = last ?vs" by (metis ne option.sel replacing_combined snd_conv)
    then have "snd e \<in> set ?vs" using last_in_set [OF ne] by simp
    then obtain x where x: "x \<in> set ?kvs" "fst x = fst e" "snd x = snd e"
      by (auto simp del: set_concat)
    then have "x = e" by (simp add: prod_eq_iff)
    with x(1) show ?thesis by simp
  qed
  have named: "md_module (snd e) = fst e" if e: "e \<in> set m" for e
  proof -
    obtain r where "r \<in> set roots" "e \<in> set (root_sources fs root r)" using entry [OF e] by auto
    then show ?thesis using root_source_entry [of "fst e" "snd e" fs root r uc] assms(2) by simp
  qed
  have "map md_module ds = map fst m" using named by (simp add: m(2))
  also have "\<dots> = sorted_list_of_set (fst ` set ?kvs)"
    unfolding puts(1) replacing.put_all_entries by (simp add: comp_def)
  also have "fst ` set ?kvs = fst ` (\<Union>r \<in> set roots. set (root_sources fs root r))" by simp
  finally show "map md_module ds = sorted_list_of_set (fst ` (\<Union>r \<in> set roots. set (root_sources fs root r)))" .
  show "\<exists>r \<in> set roots. (md_module d, d) \<in> set (root_sources fs root r)" if d: "d \<in> set ds"
  proof -
    obtain e where e: "e \<in> set m" "d = snd e" using d m(2) by auto
    then have "e = (md_module d, d)" using named by (metis prod.collapse)
    moreover obtain r where "r \<in> set roots" "e \<in> set (root_sources fs root r)" using entry [OF e(1)] by auto
    ultimately show ?thesis by metis
  qed
  then show "name_fault uc (md_module d) = None" if "d \<in> set ds"
    using that puts(2) by force
qed

lemma enumerate_roots_readable:
  "enumerate_roots uc fs root roots m = Inr m' \<Longrightarrow> r \<in> set roots \<Longrightarrow>
     fs_at fs (module_to_dir root r) = Some (FsDir err es) \<Longrightarrow> err = None"
  by (induction roots arbitrary: m)
    (auto simp: Let_def is_dir_def fs_read_dir_def split: if_splits sum.splits option.splits)

lemma discover_ok:
  assumes "discover_lake_modules ho opts = Inr p"
  shows "supported_for (do_toolchain opts) \<noteq> None \<and>
    normalize_existing ho (do_requested_root opts) = Inr (lp_requested_root p) \<and>
    lake_root_for (dh_fs ho) (lp_requested_root p) = Inr (lp_project_root p, lp_lakefile p) \<and>
    discover_module_roots (dh_unicode ho) (dh_toml ho) (dh_fs ho) (lp_project_root p) (lp_lakefile p) =
      Inr (lp_declared_lean_libs p, lp_module_roots p) \<and>
    lp_selected_roots p = (case do_selected_roots opts of Some rs \<Rightarrow> rs | None \<Rightarrow> lp_module_roots p) \<and>
    check_roots (dh_unicode ho) (dh_fs ho) (lp_project_root p) (lp_selected_roots p) = Inr () \<and>
    enumerate_sources (dh_unicode ho) (dh_fs ho) (lp_project_root p) (lp_selected_roots p) = Inr (lp_modules p)"
  using assms by (cases "do_selected_roots opts") (auto simp: discover_lake_modules_def Let_def split: if_splits sum.splits)

lemma is_file_at: "is_file fs p \<longleftrightarrow> (\<exists>c t. fs_at fs p = Some (FsFile c t))"
  by (auto simp: is_file_def split: option.splits fs_node.splits)

lemma fs_at_dir_readable: "rel \<noteq> [] \<Longrightarrow> fs_at (FsDir err es) rel = fs_at (FsDir None es) rel"
  by (cases rel) auto

lemma root_sources_elim:
  assumes "(n, d) \<in> set (root_sources fs root r)"
  obtains "is_file fs (module_to_file root r)" "n = r" "d = descriptor r (module_to_file root r) r"
  | es p where "fs_at fs (module_to_dir root r) = Some (FsDir None es)"
      "p \<in> set (lean_files (module_to_dir root r) es)" "n = source_name root p" "d = descriptor n p r"
proof (cases "\<exists>es. fs_at fs (module_to_dir root r) = Some (FsDir None es)")
  case True
  then obtain es where "fs_at fs (module_to_dir root r) = Some (FsDir None es)" by blast
  with assms that show ?thesis by (auto simp: root_sources_def source_entry_def split: if_splits)
next
  case False
  then have "(case fs_at fs (module_to_dir root r) of
      Some (FsDir None es) \<Rightarrow> map (source_entry root r) (lean_files (module_to_dir root r) es) | _ \<Rightarrow> []) = []"
    by (auto split: option.splits fs_node.splits)
  with assms that show ?thesis by (auto simp: root_sources_def simp del: option.case split: if_splits)
qed

lemma root_sources_file:
  assumes "(n, d) \<in> set (root_sources fs root r)" "fs = FsDir err es" "entries_distinct es"
  shows "is_file fs (md_path d)"
  using assms(1)
proof (cases rule: root_sources_elim)
  case 1
  then show ?thesis by (simp add: descriptor_def)
next
  case (2 es' p)
  have dist: "entries_distinct es'" using fs_at_distinct 2(1) assms(2,3) by blast
  then obtain rel c t where "p = module_to_dir root r @ rel" "fs_at (FsDir None es') rel = Some (FsFile c t)"
    using 2(2) lean_files_iff [OF dist] by blast
  then show ?thesis by (simp add: is_file_at 2 descriptor_def fs_at_append)
qed

lemma root_sources_complete:
  assumes "fs_at fs (module_to_dir root r @ rel) = Some (FsFile c t)" "rel \<noteq> []" "is_lean_name (last rel)"
    "fs = FsDir err es" "entries_distinct es"
    "\<forall>err es. fs_at fs (module_to_dir root r) = Some (FsDir err es) \<longrightarrow> err = None"
  shows "source_name root (module_to_dir root r @ rel) \<in> fst ` set (root_sources fs root r)"
proof -
  obtain node where node: "fs_at fs (module_to_dir root r) = Some node" "fs_at node rel = Some (FsFile c t)"
    using assms(1) by (auto simp: fs_at_append split: bind_splits)
  then obtain err' es' where dir: "node = FsDir err' es'" using assms(2) by (cases node; cases rel) auto
  then have none: "err' = None" using assms(6) node(1) by blast
  have dist: "entries_distinct es'" using fs_at_distinct node(1) dir assms(4,5) by blast
  have "module_to_dir root r @ rel \<in> set (lean_files (module_to_dir root r) es')"
    using lean_files_iff [OF dist] node(2) dir none assms(2,3) by blast
  then show ?thesis using node(1) dir none by (force simp: root_sources_def source_entry_def)
qed

section \<open>Properties\<close>


definition ascii_letter :: "string \<Rightarrow> bool" where
  "ascii_letter ch = (case ch of
     [c] \<Rightarrow> let n = (of_char c :: nat) in 65 \<le> n \<and> n \<le> 90 \<or> 97 \<le> n \<and> n \<le> 122
   | _ \<Rightarrow> False)"

definition sample_unicode :: unicode where
  "sample_unicode = \<lparr>un_alphabetic = ascii_letter, un_alphanumeric = ascii_letter\<rparr>"

definition lean_file :: fs_node where
  "lean_file = FsFile (Inr ''import Lean'') (Inr (Some 5))"

definition sample_tree :: "(string \<times> fs_node) list" where
  "sample_tree =
     [(''lakefile.toml'', FsFile (Inr ''toml'') (Inr None)), (''B'', FsDir None [(''C.lean'', lean_file)]),
      (''B.lean'', lean_file), (''notes.md'', lean_file)]"

definition sample_host :: "(string \<times> fs_node) list \<Rightarrow> discovery_host" where
  "sample_host es = \<lparr>dh_home = None, dh_canonicalize = (\<lambda>_. Some (Inr [])), dh_fs = FsDir None es,
     dh_unicode = sample_unicode,
     dh_toml = (\<lambda>_. Inr (TomlTable [(''lean_lib'', TomlArray [TomlTable [(''name'', TomlString ''B'')]])])),
     dh_sha256_hex = (\<lambda>_. ''00'')\<rparr>"

definition sample_modules :: lake_project_modules where
  "sample_modules = \<lparr>lp_requested_root = [], lp_project_root = [], lp_lakefile = [''lakefile.toml''],
     lp_declared_lean_libs = [''B''], lp_module_roots = [''B''], lp_selected_roots = [''B''],
     lp_modules = [descriptor ''B'' [''B.lean''] ''B'', descriptor ''B.C'' [''B'', ''C.lean''] ''B''],
     lp_fingerprint = \<lparr>sf_toolchain = ''4.31.0'', sf_lakefile_sha256 = ''00'', sf_manifest_sha256 = None,
       sf_source_count = 2, sf_source_max_mtime_ns = 5\<rparr>\<rparr>"

lemma sample_discovered: "discover_lake_modules (sample_host sample_tree) (options_new ''4.31.0'' ''p'') = Inr sample_modules"
  by code_simp


text \<open>Module names and source paths correspond.  A valid name leads to a file from which the name is read
  back, whatever the project root; and a path below the root whose directories and file stem have no dot leads to a
  name that leads back to it.\<close>

theorem module_path_round_trip:
  assumes "name_fault uc name = None" "\<forall>part \<in> set (parts @ [stem]). CHR ''.'' \<notin> set part \<and> part \<noteq> []"
  shows "module_from_path root (module_to_file root name) = Inr name \<and>
    (\<exists>n. module_from_path root (root @ parts @ [stem @ ''.lean'']) = Inr n \<and>
       module_to_file root n = root @ parts @ [stem @ ''.lean''])"
proof
  show "module_from_path root (module_to_file root name) = Inr name"
    using module_from_path_below [of root] source_name_of_file [OF assms(1), of root]
      module_to_file_parts [OF assms(1), of root] by metis
  show "\<exists>n. module_from_path root (root @ parts @ [stem @ ''.lean'']) = Inr n \<and>
       module_to_file root n = root @ parts @ [stem @ ''.lean'']"
    using module_from_path_below [of root "parts @ [stem @ ''.lean'']"] file_of_source_name [OF assms(2), of root] by simp
qed

theorem module_path_round_trip_witness:
  "module_from_path [''p''] (module_to_file [''p''] ''B.C'') = Inr ''B.C''"
  using module_path_round_trip [of sample_unicode "''B.C''" "[''B'']" "''C''" "[''p'']"]
  by (simp add: name_fault_def component_fault_def sample_unicode_def ascii_letter_def continuation_byte_def)

text \<open>A dot in a directory name makes two files one module: the second replaces the first in the list.\<close>

definition dotted_tree :: "(string \<times> fs_node) list" where
  "dotted_tree =
     [(''lakefile.toml'', FsFile (Inr ''toml'') (Inr None)),
      (''B'', FsDir None [(''C'', FsDir None [(''D.lean'', lean_file)]), (''C.D.lean'', lean_file)])]"

lemma dotted_file_replaces_module:
  "map_sum id (\<lambda>p. map md_path (lp_modules p))
     (discover_lake_modules (sample_host dotted_tree) (options_new ''4.31.0'' ''p'')) = Inr [[''B'', ''C.D.lean'']]"
  by code_simp

text \<open>Without a declared library the top-level files are the roots, the lakefile among them.\<close>

definition loose_tree :: "(string \<times> fs_node) list" where
  "loose_tree = [(''B.lean'', lean_file), (''lakefile.lean'', FsFile (Inr ''package p'') (Inr None))]"

lemma lakefile_becomes_module:
  "map_sum id (\<lambda>p. map md_module (lp_modules p))
     (discover_lake_modules (sample_host loose_tree) (options_new ''4.31.0'' ''p'')) = Inr [''B'', ''lakefile'']"
  by code_simp

end
