(* ===== verification/Import_Plan.thy ===== *)
theory Import_Plan
  imports Worker_Pool Lake_Modules "HOL-Library.Product_Lexorder" "HOL-Library.Multiset"
begin

text \<open>
  Import planning (\<open>planning.rs\<close> of \<open>lean-rs-worker-parent\<close>): the modules of a Lake project grouped into
  batches, each of which one worker session can serve.  A batch is opened as a capability of the pool; its
  session key must be the one the pool computes for that capability.
\<close>

section \<open>Orders\<close>

text \<open>The derived \<open>Ord\<close> of the two enumerations is the order of their constructors.\<close>

fun profile_rank :: "import_profile \<Rightarrow> nat" where
  "profile_rank ExportedPublic = 0"
| "profile_rank Server = 1"
| "profile_rank Private = 2"
| "profile_rank FullPrivateCompat = 3"

lemma profile_rank_inject: "profile_rank a = profile_rank b \<longleftrightarrow> a = b"
  by (cases a; cases b) simp_all

instantiation import_profile :: linorder
begin

definition less_eq_import_profile :: "import_profile \<Rightarrow> import_profile \<Rightarrow> bool" where
  "less_eq_import_profile a b \<longleftrightarrow> profile_rank a \<le> profile_rank b"

definition less_import_profile :: "import_profile \<Rightarrow> import_profile \<Rightarrow> bool" where
  "less_import_profile a b \<longleftrightarrow> profile_rank a < profile_rank b"

instance
  by standard (auto simp: less_eq_import_profile_def less_import_profile_def simp flip: profile_rank_inject)

end

instantiation restart_policy_class :: linorder
begin

definition less_eq_restart_policy_class :: "restart_policy_class \<Rightarrow> restart_policy_class \<Rightarrow> bool" where
  "less_eq_restart_policy_class a b \<longleftrightarrow> a = ClassDefault \<or> b = ClassCustom"

definition less_restart_policy_class :: "restart_policy_class \<Rightarrow> restart_policy_class \<Rightarrow> bool" where
  "less_restart_policy_class a b \<longleftrightarrow> a = ClassDefault \<and> b = ClassCustom"

instance
proof
  fix a b c :: restart_policy_class
  show "(a < b) = (a \<le> b \<and> \<not> b \<le> a)" "a \<le> a" "a \<le> b \<or> b \<le> a"
    by (cases a; cases b; simp add: less_eq_restart_policy_class_def less_restart_policy_class_def)+
  show "a \<le> b \<Longrightarrow> b \<le> c \<Longrightarrow> a \<le> c" "a \<le> b \<Longrightarrow> b \<le> a \<Longrightarrow> a = b"
    by (cases a; cases b; cases c; simp add: less_eq_restart_policy_class_def)+
qed

end

datatype batch_group_key =
  BatchGroupKey
    (bg_project_root: string) (bg_package: string) (bg_lib_name: string) (bg_source_root: string)
    (bg_imports: "string list") (bg_import_profile: import_profile) (bg_restart_policy_class: restart_policy_class)

fun key_fields :: "batch_group_key \<Rightarrow>
    string \<times> string \<times> string \<times> string \<times> string list \<times> import_profile \<times> restart_policy_class" where
  "key_fields (BatchGroupKey root package lib source imports profile class) =
     (root, package, lib, source, imports, profile, class)"

lemma key_fields_inject: "key_fields a = key_fields b \<longleftrightarrow> a = b"
  by (cases a; cases b) simp

instantiation batch_group_key :: linorder
begin

definition less_eq_batch_group_key :: "batch_group_key \<Rightarrow> batch_group_key \<Rightarrow> bool" where
  "less_eq_batch_group_key a b \<longleftrightarrow> key_fields a \<le> key_fields b"

definition less_batch_group_key :: "batch_group_key \<Rightarrow> batch_group_key \<Rightarrow> bool" where
  "less_batch_group_key a b \<longleftrightarrow> key_fields a < key_fields b"

instance
proof
  fix a b c :: batch_group_key
  show "(a < b) = (a \<le> b \<and> \<not> b \<le> a)"
    unfolding less_eq_batch_group_key_def less_batch_group_key_def by (rule less_le_not_le)
  show "a \<le> a" unfolding less_eq_batch_group_key_def by (rule order_refl)
  show "a \<le> b \<or> b \<le> a" unfolding less_eq_batch_group_key_def by (rule linear)
  show "a \<le> b \<Longrightarrow> b \<le> c \<Longrightarrow> a \<le> c" unfolding less_eq_batch_group_key_def by (rule order_trans)
  show "a \<le> b \<Longrightarrow> b \<le> a \<Longrightarrow> a = b"
    unfolding less_eq_batch_group_key_def using key_fields_inject order_antisym by blast
qed

end

section \<open>Configuration and work\<close>

record plan_metadata_expectation =
  pm_export :: string
  pm_request :: json
  pm_expected :: "json option"

record plan_config =
  ic_project_root :: string
  ic_package :: string
  ic_lib_name :: string
  ic_source_roots :: "string list option"
  ic_base_imports :: "string list"
  ic_import_profile :: import_profile
  ic_metadata_expectation :: "plan_metadata_expectation option"
  ic_restart_policy :: "restart_policy option"

definition plan_config_new :: "string \<Rightarrow> string \<Rightarrow> string \<Rightarrow> plan_config" where
  "plan_config_new root package lib =
     \<lparr>ic_project_root = root, ic_package = package, ic_lib_name = lib, ic_source_roots = None, ic_base_imports = [],
       ic_import_profile = Private, ic_metadata_expectation = None, ic_restart_policy = None\<rparr>"

definition plan_validate_metadata :: "string \<Rightarrow> json \<Rightarrow> plan_config \<Rightarrow> plan_config" where
  "plan_validate_metadata exported request c =
     c\<lparr>ic_metadata_expectation := Some \<lparr>pm_export = exported, pm_request = request, pm_expected = None\<rparr>\<rparr>"

definition plan_expect_metadata :: "string \<Rightarrow> json \<Rightarrow> json \<Rightarrow> plan_config \<Rightarrow> plan_config" where
  "plan_expect_metadata exported request expected c =
     c\<lparr>ic_metadata_expectation := Some \<lparr>pm_export = exported, pm_request = request, pm_expected = Some expected\<rparr>\<rparr>"

record module_work =
  mw_module :: string
  mw_path :: path
  mw_source_root :: string
  mw_imports :: "string list"

definition work_from_descriptor :: "string list \<Rightarrow> module_descriptor \<Rightarrow> module_work" where
  "work_from_descriptor imports d =
     \<lparr>mw_module = md_module d, mw_path = md_path d, mw_source_root = md_source_root d, mw_imports = imports\<rparr>"

record batch_fingerprint =
  bf_toolchain :: string
  bf_source_set :: module_set_fingerprint
  bf_batch_key :: string

record planned_batch =
  pb_session_key :: session_key
  pb_project_root :: string
  pb_package :: string
  pb_lib_name :: string
  pb_source_root :: string
  pb_imports :: "string list"
  pb_import_profile :: import_profile
  pb_modules :: "module_work list"
  pb_fingerprint :: batch_fingerprint
  pb_metadata_expectation :: "plan_metadata_expectation option"
  pb_restart_policy :: "restart_policy option"

datatype plan_error =
    PlanDiscovery discovery_error
  | PlanInvalidModule string string
  | UnresolvedCapabilityTarget path string

fun plan_error_text :: "plan_error \<Rightarrow> string" where
  "plan_error_text (PlanDiscovery e) = discovery_error_text e"
| "plan_error_text (PlanInvalidModule name reason) =
     ''lean-rs-worker: invalid module '' @ backquoted name @ '' in import plan: '' @ reason"
| "plan_error_text (UnresolvedCapabilityTarget root target) =
     ''lean-rs-worker: capability target '' @ backquoted target @ '' is not declared in '' @ path_text root"

text \<open>\<open>LeanWorkerPlannedBatch::capability_builder\<close>.\<close>

definition batch_builder :: "planned_batch \<Rightarrow> capability_builder" where
  "batch_builder b =
     (let builder = (builder_new (pb_project_root b) (pb_package b) (pb_lib_name b) (pb_imports b))
                      \<lparr>cb_import_profile := pb_import_profile b\<rparr>;
          builder = (case pb_restart_policy b of
                       Some policy \<Rightarrow> builder\<lparr>cb_setup := (cb_setup builder)\<lparr>su_restart_policy := Some policy\<rparr>\<rparr>
                     | None \<Rightarrow> builder)
      in (case pb_metadata_expectation b of
            Some e \<Rightarrow>
              (case pm_expected e of
                 Some expected \<Rightarrow> expect_metadata (pm_export e) (pm_request e) expected builder
               | None \<Rightarrow> validate_metadata (pm_export e) (pm_request e) builder)
          | None \<Rightarrow> builder))"

section \<open>Planning\<close>

text \<open>The default restart policy is the disabled one.\<close>

definition plan_policy_class :: "restart_policy option \<Rightarrow> restart_policy_class" where
  "plan_policy_class policy =
     (case policy of
        Some p \<Rightarrow> (if p = policy_disabled then ClassDefault else ClassCustom)
      | None \<Rightarrow> ClassDefault)"

fun policy_class_debug :: "restart_policy_class \<Rightarrow> string" where
  "policy_class_debug ClassDefault = ''Default''"
| "policy_class_debug ClassCustom = ''Custom''"

definition batch_key_string :: "batch_group_key \<Rightarrow> module_work list \<Rightarrow> string" where
  "batch_key_string key modules =
     ''project='' @ bg_project_root key @ '';package='' @ bg_package key @ '';lib='' @ bg_lib_name key @
     '';source_root='' @ bg_source_root key @ '';imports='' @ join_with '','' (bg_imports key) @
     '';profile='' @ profile_label (bg_import_profile key) @
     '';policy='' @ policy_class_debug (bg_restart_policy_class key) @
     '';modules='' @ join_with '','' (map mw_module modules)"

definition plan_validate_name :: "unicode \<Rightarrow> string \<Rightarrow> plan_error + unit" where
  "plan_validate_name uc name =
     (case name_fault uc name of None \<Rightarrow> Inr () | Some reason \<Rightarrow> Inl (PlanInvalidModule name reason))"

definition work_key :: "plan_config \<Rightarrow> module_work \<Rightarrow> batch_group_key" where
  "work_key c m =
     BatchGroupKey (ic_project_root c) (ic_package c) (ic_lib_name c) (mw_source_root m) (mw_imports m)
       (ic_import_profile c) (plan_policy_class (ic_restart_policy c))"

fun group_work ::
  "unicode \<Rightarrow> plan_config \<Rightarrow> module_work list \<Rightarrow> (batch_group_key \<times> module_work list) list
     \<Rightarrow> plan_error + (batch_group_key \<times> module_work list) list" where
  "group_work uc c [] groups = Inr groups"
| "group_work uc c (m # ms) groups =
     (case plan_validate_name uc (mw_module m) of
        Inl e \<Rightarrow> Inl e
      | Inr _ \<Rightarrow>
          (case plan_validate_name uc (mw_source_root m) of
             Inl e \<Rightarrow> Inl e
           | Inr _ \<Rightarrow> group_work uc c ms (group_push (work_key c m) m groups)))"

definition plan_session_key :: "host \<Rightarrow> string \<Rightarrow> plan_config \<Rightarrow> batch_group_key \<Rightarrow> session_key" where
  "plan_session_key ho toolchain c key =
     (let k = (key_new ho toolchain (bg_project_root key) (bg_package key) (bg_lib_name key) (bg_imports key))
                \<lparr>sk_import_profile := bg_import_profile key, sk_restart_policy_class := bg_restart_policy_class key\<rparr>
      in (case ic_metadata_expectation c of
            Some e \<Rightarrow> metadata_expectation (pm_export e) (pm_request e) (pm_expected e) k
          | None \<Rightarrow> k))"

definition planned :: "host \<Rightarrow> string \<Rightarrow> plan_config \<Rightarrow> module_set_fingerprint \<Rightarrow> batch_group_key \<times> module_work list \<Rightarrow> planned_batch" where
  "planned ho toolchain c source_set entry =
     (let key = fst entry; modules = sort_key mw_module (snd entry) in
      \<lparr>pb_session_key = plan_session_key ho toolchain c key, pb_project_root = bg_project_root key,
       pb_package = bg_package key, pb_lib_name = bg_lib_name key, pb_source_root = bg_source_root key,
       pb_imports = bg_imports key, pb_import_profile = bg_import_profile key, pb_modules = modules,
       pb_fingerprint = \<lparr>bf_toolchain = sf_toolchain source_set, bf_source_set = source_set,
         bf_batch_key = batch_key_string key modules\<rparr>,
       pb_metadata_expectation = ic_metadata_expectation c, pb_restart_policy = ic_restart_policy c\<rparr>)"

definition plan_work_items ::
  "host \<Rightarrow> unicode \<Rightarrow> string \<Rightarrow> plan_config \<Rightarrow> module_work list \<Rightarrow> module_set_fingerprint \<Rightarrow> plan_error + planned_batch list" where
  "plan_work_items ho uc toolchain c modules source_set =
     (case group_work uc c modules [] of
        Inl e \<Rightarrow> Inl e
      | Inr groups \<Rightarrow> Inr (map (planned ho toolchain c source_set) groups))"

definition plan_discovered ::
  "host \<Rightarrow> unicode \<Rightarrow> string \<Rightarrow> plan_config \<Rightarrow> lake_project_modules \<Rightarrow> plan_error + planned_batch list" where
  "plan_discovered ho uc toolchain c p =
     plan_work_items ho uc toolchain c (map (work_from_descriptor (ic_base_imports c)) (lp_modules p)) (lp_fingerprint p)"

definition plan_lake_project ::
  "host \<Rightarrow> discovery_host \<Rightarrow> string \<Rightarrow> plan_config \<Rightarrow> plan_error + planned_batch list" where
  "plan_lake_project ho dho toolchain c =
     (let opts = options_new toolchain (ic_project_root c);
          opts = (case ic_source_roots c of Some roots \<Rightarrow> opts\<lparr>do_selected_roots := Some roots\<rparr> | None \<Rightarrow> opts)
      in (case discover_lake_modules dho opts of
            Inl e \<Rightarrow> Inl (PlanDiscovery e)
          | Inr p \<Rightarrow>
              if ic_lib_name c \<notin> set (lp_declared_lean_libs p)
              then Inl (UnresolvedCapabilityTarget (lp_project_root p) (ic_lib_name c))
              else plan_discovered ho (dh_unicode dho) toolchain c p))"

section \<open>Facts\<close>

text \<open>The first work item whose module name or source root is invalid, module name first.\<close>

fun first_invalid :: "unicode \<Rightarrow> string list \<Rightarrow> plan_error option" where
  "first_invalid uc [] = None"
| "first_invalid uc (name # names) =
     (case name_fault uc name of Some reason \<Rightarrow> Some (PlanInvalidModule name reason) | None \<Rightarrow> first_invalid uc names)"

lemma first_invalid_append:
  "first_invalid uc (xs @ ys) = (case first_invalid uc xs of Some e \<Rightarrow> Some e | None \<Rightarrow> first_invalid uc ys)"
  by (induction xs) (auto split: option.splits)

lemma first_invalid_None: "first_invalid uc names = None \<longleftrightarrow> (\<forall>n \<in> set names. name_fault uc n = None)"
  by (induction names) (auto split: option.splits)

definition work_names :: "module_work list \<Rightarrow> string list" where
  "work_names ms = concat (map (\<lambda>m. [mw_module m, mw_source_root m]) ms)"

lemma group_work_fold:
  "group_work uc c ms groups =
     (case first_invalid uc (work_names ms) of
        Some e \<Rightarrow> Inl e
      | None \<Rightarrow> Inr (fold (\<lambda>m. group_push (work_key c m) m) ms groups))"
  by (induction ms arbitrary: groups) (auto simp: work_names_def plan_validate_name_def split: option.splits)


lemma planned_batches:
  assumes "plan_work_items ho uc toolchain c ms source_set = Inr batches"
  shows "batches = map (\<lambda>k. planned ho toolchain c source_set (k, filter (\<lambda>m. work_key c m = k) ms))
    (sorted_list_of_set (work_key c ` set ms))"
  using assms by (auto simp: plan_work_items_def group_work_fold group_entries comp_def split: option.splits)

lemma mset_partition:
  assumes "finite K" "f ` set xs \<subseteq> K"
  shows "(\<Sum>k \<in> K. mset (filter (\<lambda>x. f x = k) xs)) = mset xs"
  using assms(2)
proof (induction xs)
  case (Cons x xs)
  have "(\<Sum>k \<in> K. mset (filter (\<lambda>y. f y = k) (x # xs))) =
      (\<Sum>k \<in> K. (if k = f x then {#x#} else {#}) + mset (filter (\<lambda>y. f y = k) xs))"
    by (intro sum.cong) auto
  also have "\<dots> = {#x#} + mset xs"
    using Cons assms(1) by (simp add: sum.distrib)
  finally show ?case by simp
qed simp

lemma planned_parts:
  "mset (concat (map pb_modules (map (\<lambda>k. planned ho toolchain c source_set (k, filter (\<lambda>m. work_key c m = k) ms))
     (sorted_list_of_set (work_key c ` set ms))))) = mset ms" (is "mset (concat (map pb_modules (map ?batch ?ks))) = _")
proof -
  let ?part = "\<lambda>k. filter (\<lambda>m. work_key c m = k) ms"
  have "mset (concat (map pb_modules (map ?batch ?ks))) = (\<Sum>k \<leftarrow> ?ks. mset (?part k))"
    by (simp add: planned_def Let_def mset_concat comp_def)
  also have "\<dots> = (\<Sum>k \<in> work_key c ` set ms. mset (?part k))"
    by (simp add: sum_list_distinct_conv_sum_set)
  also have "\<dots> = mset ms" by (rule mset_partition) simp_all
  finally show ?thesis .
qed

text \<open>A plan loses no work and mixes none.  The batches together hold each work item as often as it was given;
  every batch is nonempty, its modules are sorted by name and all have the source root and the imports of the batch;
  and no two batches agree on both.\<close>

theorem planned_batches_partition_work:
  assumes "plan_work_items ho uc toolchain c ms source_set = Inr batches"
  shows "mset (concat (map pb_modules batches)) = mset ms \<and>
    (\<forall>b \<in> set batches. pb_modules b \<noteq> [] \<and> sorted (map mw_module (pb_modules b)) \<and>
       (\<forall>m \<in> set (pb_modules b). mw_source_root m = pb_source_root b \<and> mw_imports m = pb_imports b)) \<and>
    distinct (map (\<lambda>b. (pb_source_root b, pb_imports b)) batches)"
proof (intro conjI ballI)
  let ?ks = "sorted_list_of_set (work_key c ` set ms)"
  let ?part = "\<lambda>k. filter (\<lambda>m. work_key c m = k) ms"
  note batches = planned_batches [OF assms]
  show "mset (concat (map pb_modules batches)) = mset ms"
    unfolding planned_batches [OF assms] by (rule planned_parts)
  fix b
  assume "b \<in> set batches"
  then obtain k where k: "k \<in> work_key c ` set ms" "b = planned ho toolchain c source_set (k, ?part k)"
    by (auto simp: batches)
  have m: "pb_modules b = sort_key mw_module (?part k)" by (simp add: k(2) planned_def Let_def)
  show "sorted (map mw_module (pb_modules b))" by (simp add: m)
  have "?part k \<noteq> []" using k(1) by (auto simp: filter_empty_conv)
  then show "pb_modules b \<noteq> []" by (metis m length_0_conv length_sort)
  show "mw_source_root m = pb_source_root b" "mw_imports m = pb_imports b" if "m \<in> set (pb_modules b)" for m
    using that by (auto simp: m) (auto simp: k(2) planned_def Let_def work_key_def)
next
  let ?ks = "sorted_list_of_set (work_key c ` set ms)"
  have "inj_on (\<lambda>k. (bg_source_root k, bg_imports k)) (work_key c ` set ms)"
    by (auto simp: inj_on_def work_key_def)
  then have "distinct (map (\<lambda>k. (bg_source_root k, bg_imports k)) ?ks)"
    by (simp add: distinct_map)
  moreover have "map (\<lambda>b. (pb_source_root b, pb_imports b)) batches = map (\<lambda>k. (bg_source_root k, bg_imports k)) ?ks"
    unfolding planned_batches [OF assms] by (simp add: planned_def Let_def comp_def)
  ultimately show "distinct (map (\<lambda>b. (pb_source_root b, pb_imports b)) batches)" by simp
qed

text \<open>A batch is opened under its own key.  The session key a plan puts in a batch is the key the pool computes
  for the capability the batch builds: project, package, library, imports, profile, policy class and metadata
  expectation agree.\<close>

theorem batch_opens_under_its_key:
  assumes "plan_work_items ho uc toolchain c ms source_set = Inr batches" "b \<in> set batches"
  shows "session_key_of ho toolchain (batch_builder b) = pb_session_key b"
proof -
  obtain k where k: "k \<in> work_key c ` set ms"
    "b = planned ho toolchain c source_set (k, filter (\<lambda>m. work_key c m = k) ms)"
    using assms(2) by (auto simp: planned_batches [OF assms(1)])
  then obtain m where m: "k = work_key c m" by blast
  show ?thesis
    by (cases "ic_metadata_expectation c"; cases "ic_restart_policy c")
      (auto simp: k(2) m planned_def plan_session_key_def work_key_def batch_builder_def session_key_of_def key_new_def
        with_import_workspace_root_def metadata_expectation_def restart_policy_class_of_def plan_policy_class_def
        builder_new_def setup_default_def effective_import_workspace_root_def expect_metadata_def validate_metadata_def
        add_worker_export_signature_def Let_def split: option.splits)
qed

section \<open>Examples\<close>

definition sample_work :: "module_work list" where
  "sample_work =
     [\<lparr>mw_module = ''B.C'', mw_path = [''B'', ''C.lean''], mw_source_root = ''B'', mw_imports = [''Lean'']\<rparr>,
      \<lparr>mw_module = ''A'', mw_path = [''A.lean''], mw_source_root = ''A'', mw_imports = [''Lean'']\<rparr>,
      \<lparr>mw_module = ''B'', mw_path = [''B.lean''], mw_source_root = ''B'', mw_imports = [''Lean'']\<rparr>]"

definition sample_plan :: "planned_batch list" where
  "sample_plan = map (planned demo_host ''tc'' (plan_config_new ''p'' ''pkg'' ''B'') (lp_fingerprint sample_modules))
     [(work_key (plan_config_new ''p'' ''pkg'' ''B'') (sample_work ! 1), [sample_work ! 1]),
      (work_key (plan_config_new ''p'' ''pkg'' ''B'') (sample_work ! 0), [sample_work ! 0, sample_work ! 2])]"

lemma sample_planned:
  "plan_work_items demo_host sample_unicode ''tc'' (plan_config_new ''p'' ''pkg'' ''B'') sample_work
     (lp_fingerprint sample_modules) = Inr sample_plan"
proof -
  have "group_work sample_unicode (plan_config_new ''p'' ''pkg'' ''B'') sample_work [] =
     Inr [(work_key (plan_config_new ''p'' ''pkg'' ''B'') (sample_work ! 1), [sample_work ! 1]),
      (work_key (plan_config_new ''p'' ''pkg'' ''B'') (sample_work ! 0), [sample_work ! 0, sample_work ! 2])]"
    by code_simp
  then show ?thesis by (simp add: plan_work_items_def sample_plan_def)
qed

theorem planned_batches_partition_work_witness:
  "mset (concat (map pb_modules sample_plan)) = mset sample_work"
  using planned_batches_partition_work [OF sample_planned] by blast

theorem batch_opens_under_its_key_witness:
  "\<exists>b \<in> set sample_plan. pb_source_root b = ''B'' \<and>
     session_key_of demo_host ''tc'' (batch_builder b) = pb_session_key b"
proof
  let ?b = "sample_plan ! 1"
  show b: "?b \<in> set sample_plan" by (simp add: sample_plan_def)
  have "pb_source_root ?b = ''B''" by (simp add: sample_plan_def planned_def Let_def work_key_def sample_work_def)
  then show "pb_source_root ?b = ''B'' \<and> session_key_of demo_host ''tc'' (batch_builder ?b) = pb_session_key ?b"
    using batch_opens_under_its_key [OF sample_planned b] by simp
qed

text \<open>Whatever discovery lists can be planned.  A discovered project never fails to plan; the batches hold its
  modules, each once, with the configured base imports, and there is exactly one batch for each source root that has
  a module, in the order of the roots.\<close>

theorem discovered_projects_plan:
  assumes "discover_lake_modules dho opts = Inr p"
  shows "\<exists>batches. plan_discovered ho (dh_unicode dho) toolchain c p = Inr batches \<and>
    mset (concat (map pb_modules batches)) = mset (map (work_from_descriptor (ic_base_imports c)) (lp_modules p)) \<and>
    sorted_wrt (<) (map pb_source_root batches) \<and>
    set (map pb_source_root batches) = md_source_root ` set (lp_modules p)"
proof -
  let ?ms = "map (work_from_descriptor (ic_base_imports c)) (lp_modules p)"
  let ?ks = "sorted_list_of_set (work_key c ` set ?ms)"
  define batches where "batches = map (\<lambda>k. planned ho toolchain c (lp_fingerprint p) (k, filter (\<lambda>m. work_key c m = k) ?ms)) ?ks"
  have enum: "enumerate_sources (dh_unicode dho) (dh_fs dho) (lp_project_root p) (lp_selected_roots p) = Inr (lp_modules p)"
    and checked: "\<forall>r \<in> set (lp_selected_roots p). name_fault (dh_unicode dho) r = None"
    using discover_ok [OF assms] check_roots_ok by blast+
  have "name_fault (dh_unicode dho) (md_module d) = None \<and> name_fault (dh_unicode dho) (md_source_root d) = None"
    if d: "d \<in> set (lp_modules p)" for d
  proof -
    obtain r where r: "r \<in> set (lp_selected_roots p)"
      "(md_module d, d) \<in> set (root_sources (dh_fs dho) (lp_project_root p) r)"
      using enumerate_sources_entries(2) [OF enum checked d] by blast
    have rf: "name_fault (dh_unicode dho) r = None" using checked r(1) by blast
    show ?thesis using root_source_entry [OF r(2) rf] enumerate_sources_entries(3) [OF enum checked d] rf by simp
  qed
  then have "first_invalid (dh_unicode dho) (work_names ?ms) = None"
    by (auto simp: first_invalid_None work_names_def work_from_descriptor_def)
  then have plan: "plan_work_items ho (dh_unicode dho) toolchain c ?ms (lp_fingerprint p) = Inr batches"
    by (simp add: plan_work_items_def group_work_fold group_entries comp_def batches_def)
  have roots: "map pb_source_root batches = map bg_source_root ?ks"
    by (simp add: batches_def planned_def Let_def comp_def)
  have shape: "k = BatchGroupKey (ic_project_root c) (ic_package c) (ic_lib_name c) (bg_source_root k) (ic_base_imports c)
      (ic_import_profile c) (plan_policy_class (ic_restart_policy c))" if "k \<in> set ?ks" for k
    using that by (auto simp: work_key_def work_from_descriptor_def)
  have "sorted_wrt (<) ?ks" by (rule strict_sorted_list_of_set)
  then have "sorted_wrt (\<lambda>a b. bg_source_root a < bg_source_root b) ?ks"
  proof (rule sorted_wrt_mono_rel [rotated])
    fix a b
    assume "a \<in> set ?ks" "b \<in> set ?ks" "a < b"
    then have "key_fields a < key_fields b" by (simp add: less_batch_group_key_def)
    moreover have "key_fields k = (ic_project_root c, ic_package c, ic_lib_name c, bg_source_root k, ic_base_imports c,
        ic_import_profile c, plan_policy_class (ic_restart_policy c))" if "k \<in> set ?ks" for k
      by (subst shape [OF that]) (rule key_fields.simps)
    ultimately show "bg_source_root a < bg_source_root b"
      using \<open>a \<in> set ?ks\<close> \<open>b \<in> set ?ks\<close> by simp
  qed
  then have "sorted_wrt (<) (map pb_source_root batches)" by (simp add: roots sorted_wrt_map)
  moreover have "set (map pb_source_root batches) = md_source_root ` set (lp_modules p)"
    unfolding roots by (simp add: image_image work_key_def work_from_descriptor_def)
  moreover have "mset (concat (map pb_modules batches)) = mset ?ms"
    unfolding batches_def by (rule planned_parts)
  ultimately show ?thesis using plan by (auto simp: plan_discovered_def)
qed

theorem discovered_projects_plan_witness:
  "\<exists>batches. plan_discovered demo_host sample_unicode ''tc'' (plan_config_new ''p'' ''pkg'' ''B'') sample_modules = Inr batches \<and>
     set (map pb_source_root batches) = {''B''}"
proof -
  have "dh_unicode (sample_host sample_tree) = sample_unicode" by (simp add: sample_host_def)
  moreover have "md_source_root ` set (lp_modules sample_modules) = {''B''}"
    by (simp add: sample_modules_def descriptor_def)
  ultimately show ?thesis
    using discovered_projects_plan [OF sample_discovered, of demo_host "''tc''" "plan_config_new ''p'' ''pkg'' ''B''"] by auto
qed

text \<open>A project found in the \<open>lean\<close> directory of the requested path is planned under the requested path, where no
  lakefile is.\<close>

definition nested_tree :: "(string \<times> fs_node) list" where
  "nested_tree = [(''lean'', FsDir None sample_tree)]"

lemma nested_project_keeps_requested_root:
  "map_sum id (map pb_project_root)
     (plan_lake_project demo_host (sample_host nested_tree) ''4.31.0'' (plan_config_new ''p'' ''pkg'' ''B'')) = Inr [''p''] \<and>
   map_sum id lp_project_root (discover_lake_modules (sample_host nested_tree) (options_new ''4.31.0'' ''p'')) =
     Inr [''lean''] \<and>
   lakefile_path (FsDir None nested_tree) [] = None"
  by code_simp

end
