(* ===== verification/Lean_Abi.thy ===== *)
theory Lean_Abi
  imports Lean_Error
begin

text \<open>
  The value boundary of \<open>lean-rs\<close> (\<open>abi/*.rs\<close> and \<open>error/io.rs\<close>): Lean objects as Rust sees them, the
  encoders and decoders of scalars, characters, strings, \<open>Nat\<close>, \<open>Int\<close>, options, \<open>Except\<close>, products and
  arrays, and the results of \<open>IO\<close> actions.

  An object is immutable here, so ownership (reference counts) is left out; a 64-bit host is assumed, as
  \<open>lean.h\<close> does for its scalar limits.  A read of a constructor's scalar area behind its last byte is not
  ruled out by definition: what it finds is the parameter \<open>mem\<close>, and the safe decoders must not depend on it.
  The trait dispatch of \<open>IntoLean\<close> and \<open>TryFromLean\<close> is a recursion over the type.
\<close>

section \<open>UTF-8\<close>

text \<open>What may follow a lead byte: a range for each further byte.\<close>

definition utf8_tail :: "nat \<Rightarrow> (nat \<times> nat) list option" where
  "utf8_tail b =
     (if b < 0x80 then Some []
      else if 0xC2 \<le> b \<and> b \<le> 0xDF then Some [(0x80, 0xBF)]
      else if b = 0xE0 then Some [(0xA0, 0xBF), (0x80, 0xBF)]
      else if b = 0xED then Some [(0x80, 0x9F), (0x80, 0xBF)]
      else if 0xE1 \<le> b \<and> b \<le> 0xEF then Some [(0x80, 0xBF), (0x80, 0xBF)]
      else if b = 0xF0 then Some [(0x90, 0xBF), (0x80, 0xBF), (0x80, 0xBF)]
      else if 0xF1 \<le> b \<and> b \<le> 0xF3 then Some [(0x80, 0xBF), (0x80, 0xBF), (0x80, 0xBF)]
      else if b = 0xF4 then Some [(0x80, 0x8F), (0x80, 0xBF), (0x80, 0xBF)]
      else None)"

fun matched_prefix :: "(nat \<times> nat) list \<Rightarrow> string \<Rightarrow> nat" where
  "matched_prefix ((low, high) # rs) (c # s) =
     (if low \<le> of_char c \<and> of_char c \<le> high then Suc (matched_prefix rs s) else 0)"
| "matched_prefix rs s = 0"

text \<open>Whether a text starts with a character, and how many bytes it or the invalid part has.\<close>

fun utf8_step :: "string \<Rightarrow> bool \<times> nat" where
  "utf8_step [] = (False, 0)"
| "utf8_step (c # s) =
     (case utf8_tail (of_char c) of
        None \<Rightarrow> (False, 1)
      | Some rs \<Rightarrow> (matched_prefix rs s = length rs, Suc (matched_prefix rs s)))"

function utf8_lossy :: "string \<Rightarrow> string" where
  "utf8_lossy [] = []"
| "utf8_lossy (c # s) =
     (case utf8_step (c # s) of (valid, n) \<Rightarrow>
        (if valid then take n (c # s) else [CHR 0xEF, CHR 0xBF, CHR 0xBD]) @ utf8_lossy (drop n (c # s)))"
  by pat_completeness auto
termination
  by (relation "measure length") (auto split: option.splits)

function utf8_valid :: "string \<Rightarrow> bool" where
  "utf8_valid [] \<longleftrightarrow> True"
| "utf8_valid (c # s) \<longleftrightarrow> fst (utf8_step (c # s)) \<and> utf8_valid (drop (snd (utf8_step (c # s))) (c # s))"
  by pat_completeness auto
termination
  by (relation "measure length") (auto split: option.splits)

lemma lossy_valid: "utf8_valid s \<Longrightarrow> utf8_lossy s = s"
proof (induction s rule: utf8_valid.induct)
  case (2 c s)
  obtain n where n: "utf8_step (c # s) = (True, n)" using 2(2) by (metis prod.collapse utf8_valid.simps(2))
  then have "utf8_lossy (drop n (c # s)) = drop n (c # s)" using 2 by simp
  then show ?case using n by (simp only: utf8_lossy.simps prod.case if_True append_take_drop_id)
qed simp

section \<open>Lean objects\<close>

text \<open>
  \<open>Boxed\<close> is the scalar-tagged pointer.  A constructor has its tag, its object fields and the bytes of its
  scalar area; \<open>Opaque\<close> is any other heap object, with its tag and identity.
\<close>

datatype lobj =
    Boxed nat
  | Ctor nat "lobj list" "nat list"
  | LString string
  | LArray "lobj list"
  | LScalarArray nat "nat list"
  | BigNumber int
  | Opaque nat nat

definition LEAN_MAX_SMALL_NAT :: nat where "LEAN_MAX_SMALL_NAT = 2 ^ 63 - 1"
definition LEAN_MAX_SMALL_INT :: int where "LEAN_MAX_SMALL_INT = 2 ^ 31 - 1"
definition LEAN_MIN_SMALL_INT :: int where "LEAN_MIN_SMALL_INT = - (2 ^ 31)"

text \<open>\<open>lean_box\<close> shifts its argument left, and \<open>lean_unbox\<close> reads what is left of it.\<close>

definition lean_box :: "nat \<Rightarrow> lobj" where
  "lean_box n = Boxed (n mod 2 ^ 63)"

fun is_scalar :: "lobj \<Rightarrow> bool" where
  "is_scalar (Boxed n) \<longleftrightarrow> True"
| "is_scalar v \<longleftrightarrow> False"

text \<open>The tag of a heap object.\<close>

fun obj_tag :: "lobj \<Rightarrow> nat" where
  "obj_tag (Boxed n) = 0"
| "obj_tag (Ctor tag objs tail) = tag"
| "obj_tag (LArray vs) = 246"
| "obj_tag (LScalarArray width bytes) = 248"
| "obj_tag (LString s) = 249"
| "obj_tag (BigNumber i) = 250"
| "obj_tag (Opaque tag identity) = tag"

type_synonym 'a decoded = "lean_rs_error + 'a"

definition decoded_bind :: "'a decoded \<Rightarrow> ('a \<Rightarrow> 'b decoded) \<Rightarrow> 'b decoded" where
  "decoded_bind r f = (case r of Inl e \<Rightarrow> Inl e | Inr x \<Rightarrow> f x)"

definition conversion_error :: "string \<Rightarrow> lean_rs_error" where
  "conversion_error = abi_conversion"

definition wrong_kind :: "string \<Rightarrow> nat \<Rightarrow> lean_rs_error" where
  "wrong_kind expected tag = conversion_error (''expected Lean '' @ expected @ '', found object with tag '' @ decimal tag)"

definition wrong_kind_scalar :: "string \<Rightarrow> lean_rs_error" where
  "wrong_kind_scalar expected = conversion_error (''expected Lean '' @ expected @ '', found scalar-tagged object'')"

definition out_of_range :: "string \<Rightarrow> lean_rs_error" where
  "out_of_range expected = conversion_error (''Lean value does not fit Rust '' @ expected)"

definition require_scalar :: "lobj \<Rightarrow> string \<Rightarrow> nat decoded" where
  "require_scalar v expected = (case v of Boxed n \<Rightarrow> Inr n | _ \<Rightarrow> Inl (wrong_kind expected (obj_tag v)))"

definition require_ctor :: "lobj \<Rightarrow> string \<Rightarrow> unit decoded" where
  "require_ctor v expected =
     (case v of
        Boxed n \<Rightarrow> Inl (wrong_kind_scalar expected)
      | Ctor tag objs tail \<Rightarrow> Inr ()
      | _ \<Rightarrow> Inl (wrong_kind expected (obj_tag v)))"

section \<open>Constructor views\<close>

definition scalar_payload :: "lobj \<Rightarrow> string \<Rightarrow> nat decoded" where
  "scalar_payload v label =
     (case v of
        Boxed n \<Rightarrow> Inr n
      | _ \<Rightarrow> Inl (conversion_error (''expected Lean '' @ label @ '' scalar-tagged object, found heap object with tag '' @
               decimal (obj_tag v))))"

record ctor_view =
  cv_obj :: lobj
  cv_tag :: nat
  cv_num_object_fields :: nat
  cv_scalar_tail_size :: nat

definition ctor_view_new :: "lobj \<Rightarrow> ctor_view decoded" where
  "ctor_view_new v =
     (case v of
        Boxed n \<Rightarrow> Inl (conversion_error ''expected Lean constructor, found scalar-tagged object'')
      | Ctor tag objs tail \<Rightarrow>
          Inr \<lparr>cv_obj = v, cv_tag = tag mod 256, cv_num_object_fields = length objs, cv_scalar_tail_size = length tail\<rparr>
      | _ \<Rightarrow> Inl (conversion_error (''expected Lean constructor, found object with tag '' @ decimal (obj_tag v))))"

definition sum_tag :: "lobj \<Rightarrow> nat decoded" where
  "sum_tag v =
     (case v of
        Boxed n \<Rightarrow>
          (if n < 256 then Inr n
           else Inl (conversion_error (''Lean scalar constructor tag '' @ decimal n @ '' does not fit in u8'')))
      | _ \<Rightarrow> decoded_bind (ctor_view_new v) (\<lambda>cv. Inr (cv_tag cv)))"

definition require_tag :: "nat \<Rightarrow> string \<Rightarrow> ctor_view \<Rightarrow> ctor_view decoded" where
  "require_tag expected_tag label cv =
     (if cv_tag cv = expected_tag then Inr cv
      else Inl (conversion_error (''expected Lean '' @ label @ '' ctor (tag '' @ decimal expected_tag @ ''), found tag '' @
        decimal (cv_tag cv))))"

definition require_shape :: "nat \<Rightarrow> nat \<Rightarrow> string \<Rightarrow> ctor_view \<Rightarrow> ctor_view decoded" where
  "require_shape expected_tag expected_fields label cv =
     decoded_bind (require_tag expected_tag label cv) (\<lambda>this.
       if cv_num_object_fields this = expected_fields then Inr this
       else Inl (conversion_error (''expected Lean '' @ label @ '' ctor with '' @ decimal expected_fields @
         '' object field(s), found '' @ decimal (cv_num_object_fields this))))"

definition ctor_shape :: "lobj \<Rightarrow> nat \<Rightarrow> nat \<Rightarrow> string \<Rightarrow> ctor_view decoded" where
  "ctor_shape v expected_tag expected_fields label =
     decoded_bind (ctor_view_new v) (require_shape expected_tag expected_fields label)"

text \<open>\<open>lean_ctor_get_uint8\<close> and \<open>lean_ctor_get_uint64\<close>: unchecked reads relative to the scalar area.\<close>

definition get_uint8 :: "(lobj \<Rightarrow> nat \<Rightarrow> nat) \<Rightarrow> lobj \<Rightarrow> nat \<Rightarrow> nat" where
  "get_uint8 mem v offset =
     (case v of
        Ctor tag objs tail \<Rightarrow> (if offset < length tail then tail ! offset else mem v offset mod 256)
      | _ \<Rightarrow> mem v offset mod 256)"

fun from_le_bytes :: "nat list \<Rightarrow> nat" where
  "from_le_bytes [] = 0"
| "from_le_bytes (b # bs) = b + 256 * from_le_bytes bs"

fun le_bytes :: "nat \<Rightarrow> nat \<Rightarrow> nat list" where
  "le_bytes 0 n = []"
| "le_bytes (Suc k) n = n mod 256 # le_bytes k (n div 256)"

definition get_uint64 :: "(lobj \<Rightarrow> nat \<Rightarrow> nat) \<Rightarrow> lobj \<Rightarrow> nat \<Rightarrow> nat" where
  "get_uint64 mem v offset = from_le_bytes (map (\<lambda>i. get_uint8 mem v (offset + i)) [0..<8])"

text \<open>The offset is a \<open>u32\<close>, so the sum does not overflow on a 64-bit host.\<close>

definition require_scalar_tail :: "nat \<Rightarrow> nat \<Rightarrow> string \<Rightarrow> ctor_view \<Rightarrow> unit decoded" where
  "require_scalar_tail offset width label cv =
     (if offset + width \<le> cv_scalar_tail_size cv then Inr ()
      else Inl (conversion_error (''Lean '' @ label @ '' scalar-tail read at offset '' @ decimal offset @ '' for '' @
        decimal width @ '' byte(s) exceeds scalar tail size '' @ decimal (cv_scalar_tail_size cv))))"

definition view_uint8 :: "(lobj \<Rightarrow> nat \<Rightarrow> nat) \<Rightarrow> nat \<Rightarrow> string \<Rightarrow> ctor_view \<Rightarrow> nat decoded" where
  "view_uint8 mem offset label cv =
     decoded_bind (require_scalar_tail offset 1 label cv) (\<lambda>_. Inr (get_uint8 mem (cv_obj cv) offset))"

definition view_uint64 :: "(lobj \<Rightarrow> nat \<Rightarrow> nat) \<Rightarrow> nat \<Rightarrow> string \<Rightarrow> ctor_view \<Rightarrow> nat decoded" where
  "view_uint64 mem offset label cv =
     decoded_bind (require_scalar_tail offset 8 label cv) (\<lambda>_. Inr (get_uint64 mem (cv_obj cv) offset))"

definition view_bool :: "(lobj \<Rightarrow> nat \<Rightarrow> nat) \<Rightarrow> nat \<Rightarrow> string \<Rightarrow> ctor_view \<Rightarrow> bool decoded" where
  "view_bool mem offset label cv =
     decoded_bind (view_uint8 mem offset label cv) (\<lambda>b.
       if b = 0 then Inr False else if b = 1 then Inr True
       else Inl (conversion_error (''Lean '' @ label @ '' byte '' @ decimal b @ '' is not in {0, 1}'')))"

definition alloc_ctor_with_objects :: "nat \<Rightarrow> lobj list \<Rightarrow> lobj" where
  "alloc_ctor_with_objects tag objects = Ctor tag objects []"

definition take_ctor_objects :: "lobj \<Rightarrow> nat \<Rightarrow> nat \<Rightarrow> string \<Rightarrow> lobj list decoded" where
  "take_ctor_objects v n expected_tag label =
     decoded_bind (ctor_shape v expected_tag n label) (\<lambda>_.
       case v of Ctor tag objs tail \<Rightarrow> Inr objs | _ \<Rightarrow> Inr [])"

definition ctor_tag :: "lobj \<Rightarrow> nat decoded" where
  "ctor_tag v = decoded_bind (ctor_view_new v) (\<lambda>cv. Inr (cv_tag cv))"

section \<open>Scalars\<close>

datatype int_width = W8 | W16 | W32

fun width_bits :: "int_width \<Rightarrow> nat" where
  "width_bits W8 = 8"
| "width_bits W16 = 16"
| "width_bits W32 = 32"

text \<open>A signed value travels as the bit pattern of its unsigned counterpart.\<close>

definition to_unsigned :: "nat \<Rightarrow> int \<Rightarrow> nat" where
  "to_unsigned bits i = nat (i mod 2 ^ bits)"

definition as_signed :: "nat \<Rightarrow> nat \<Rightarrow> int" where
  "as_signed bits n = (if n < 2 ^ (bits - 1) then int n else int n - 2 ^ bits)"

definition small_name :: "bool \<Rightarrow> int_width \<Rightarrow> string" where
  "small_name is_signed w = (if is_signed then ''i'' else ''u'') @ decimal (width_bits w)"

definition unit_into_lean :: lobj where "unit_into_lean = lean_box 0"

definition unit_from_lean :: "lobj \<Rightarrow> unit decoded" where
  "unit_from_lean v = decoded_bind (require_scalar v ''Unit'') (\<lambda>_. Inr ())"

definition bool_into_lean :: "bool \<Rightarrow> lobj" where
  "bool_into_lean b = lean_box (if b then 1 else 0)"

definition bool_from_lean :: "lobj \<Rightarrow> bool decoded" where
  "bool_from_lean v =
     decoded_bind (require_scalar v ''Bool'') (\<lambda>payload.
       if payload = 0 then Inr False else if payload = 1 then Inr True else Inl (out_of_range ''bool''))"

definition small_into_lean :: "int_width \<Rightarrow> int \<Rightarrow> lobj" where
  "small_into_lean w i = lean_box (to_unsigned (width_bits w) i)"

definition small_from_lean :: "bool \<Rightarrow> int_width \<Rightarrow> lobj \<Rightarrow> int decoded" where
  "small_from_lean is_signed w v =
     decoded_bind (require_scalar v (small_name is_signed w)) (\<lambda>raw.
       if raw < 2 ^ width_bits w
       then Inr (if is_signed then as_signed (width_bits w) raw else int raw)
       else Inl (out_of_range (small_name is_signed w)))"

definition lean_box_uint64 :: "nat \<Rightarrow> lobj" where
  "lean_box_uint64 n = Ctor 0 [] (le_bytes 8 n)"

definition wide_name :: "bool \<Rightarrow> bool \<Rightarrow> string" where
  "wide_name is_signed pointer_sized = (if is_signed then ''i'' else ''u'') @ (if pointer_sized then ''size'' else ''64'')"

definition wide_into_lean :: "int \<Rightarrow> lobj" where
  "wide_into_lean i = lean_box_uint64 (to_unsigned 64 i)"

text \<open>Only the kind of the object is checked before its eight bytes are read.\<close>

definition wide_from_lean :: "(lobj \<Rightarrow> nat \<Rightarrow> nat) \<Rightarrow> bool \<Rightarrow> bool \<Rightarrow> lobj \<Rightarrow> int decoded" where
  "wide_from_lean mem is_signed pointer_sized v =
     decoded_bind (require_ctor v (wide_name is_signed pointer_sized)) (\<lambda>_.
       Inr (if is_signed then as_signed 64 (get_uint64 mem v 0) else int (get_uint64 mem v 0)))"

text \<open>A \<open>Float\<close> is carried as its bits.\<close>

definition f64_into_lean :: "nat \<Rightarrow> lobj" where
  "f64_into_lean bits = lean_box_uint64 bits"

definition f64_from_lean :: "(lobj \<Rightarrow> nat \<Rightarrow> nat) \<Rightarrow> lobj \<Rightarrow> nat decoded" where
  "f64_from_lean mem v = decoded_bind (require_ctor v ''f64'') (\<lambda>_. Inr (get_uint64 mem v 0))"

definition is_unicode_scalar :: "nat \<Rightarrow> bool" where
  "is_unicode_scalar c \<longleftrightarrow> c < 0xD800 \<or> 0xE000 \<le> c \<and> c \<le> 0x10FFFF"

definition hex_char :: "nat \<Rightarrow> char" where
  "hex_char n = (if n < 10 then digit n else char_of (n + 87))"

fun hex :: "nat \<Rightarrow> string" where
  "hex n = (if n < 16 then [hex_char n] else hex (n div 16) @ [hex_char (n mod 16)])"

declare hex.simps [simp del]

definition char_into_lean :: "nat \<Rightarrow> lobj" where
  "char_into_lean c = small_into_lean W32 (int c)"

definition char_from_lean :: "lobj \<Rightarrow> nat decoded" where
  "char_from_lean v =
     decoded_bind (require_scalar v ''char'') (\<lambda>raw.
       if 2 ^ 32 \<le> raw then Inl (out_of_range ''char'')
       else if is_unicode_scalar raw then Inr raw
       else Inl (conversion_error (''Lean char 0x'' @ hex raw @ '' is not a Unicode scalar value'')))"

section \<open>Text, bytes, \<open>Nat\<close> and \<open>Int\<close>\<close>

definition string_into_lean :: "string \<Rightarrow> lobj" where "string_into_lean s = LString s"

definition require_string :: "lobj \<Rightarrow> string decoded" where
  "require_string v =
     (case v of
        Boxed n \<Rightarrow> Inl (wrong_kind_scalar ''String'')
      | LString s \<Rightarrow> Inr s
      | _ \<Rightarrow> Inl (wrong_kind ''String'' (obj_tag v)))"

definition string_from_lean :: "lobj \<Rightarrow> string decoded" where
  "string_from_lean v =
     decoded_bind (require_string v) (\<lambda>s.
       if utf8_valid s then Inr s else Inl (conversion_error ''Lean string bytes were not valid UTF-8''))"

definition bytes_into_lean :: "nat list \<Rightarrow> lobj" where "bytes_into_lean bs = LScalarArray 1 bs"

definition bytes_from_lean :: "lobj \<Rightarrow> nat list decoded" where
  "bytes_from_lean v =
     (case v of
        Boxed n \<Rightarrow> Inl (wrong_kind_scalar ''ByteArray'')
      | LScalarArray width bs \<Rightarrow> (if width = 1 then Inr bs else Inl (wrong_kind ''ByteArray'' (obj_tag v)))
      | _ \<Rightarrow> Inl (wrong_kind ''ByteArray'' (obj_tag v)))"

definition nat_from_u64 :: "nat \<Rightarrow> lobj" where
  "nat_from_u64 n = (if n \<le> LEAN_MAX_SMALL_NAT then lean_box n else BigNumber (int n))"

definition nat_try_to_u64 :: "lobj \<Rightarrow> nat decoded" where
  "nat_try_to_u64 v =
     (case v of
        Boxed n \<Rightarrow> Inr n
      | _ \<Rightarrow> Inl (conversion_error (''expected Lean Nat (scalar-fitting), found object with tag '' @ decimal (obj_tag v))))"

definition int_from_i64 :: "int \<Rightarrow> lobj" where
  "int_from_i64 i =
     (if LEAN_MIN_SMALL_INT \<le> i \<and> i \<le> LEAN_MAX_SMALL_INT then lean_box (to_unsigned 32 i) else BigNumber i)"

text \<open>\<open>lean_scalar_to_int64\<close> reads the low 32 bits.\<close>

definition int_try_to_i64 :: "lobj \<Rightarrow> int decoded" where
  "int_try_to_i64 v =
     (case v of
        Boxed n \<Rightarrow> Inr (as_signed 32 (n mod 2 ^ 32))
      | _ \<Rightarrow> Inl (conversion_error (''expected Lean Int (scalar-fitting), found object with tag '' @ decimal (obj_tag v))))"

section \<open>Composite values\<close>

definition option_into_lean :: "('a \<Rightarrow> lobj) \<Rightarrow> 'a option \<Rightarrow> lobj" where
  "option_into_lean into v = (case v of None \<Rightarrow> lean_box 0 | Some x \<Rightarrow> alloc_ctor_with_objects 1 [into x])"

definition take_one :: "lobj \<Rightarrow> nat \<Rightarrow> string \<Rightarrow> lobj decoded" where
  "take_one v tag label = decoded_bind (take_ctor_objects v 1 tag label) (\<lambda>objs. Inr (hd objs))"

definition option_from_lean :: "(lobj \<Rightarrow> 'a decoded) \<Rightarrow> lobj \<Rightarrow> 'a option decoded" where
  "option_from_lean from_lean v =
     (case v of
        Boxed payload \<Rightarrow>
          (if payload = 0 then Inr None
           else Inl (conversion_error (''expected Lean Option.none (scalar tag 0), found scalar payload '' @ decimal payload)))
      | Ctor tag objs tail \<Rightarrow>
          (if tag = 1
           then decoded_bind (take_one v 1 ''Option::some'') (\<lambda>inner. decoded_bind (from_lean inner) (\<lambda>x. Inr (Some x)))
           else Inl (conversion_error (''expected Lean Option.some ctor (tag 1), found heap ctor with tag '' @ decimal tag)))
      | _ \<Rightarrow> Inl (conversion_error (''expected Lean Option ctor or scalar tag, found object with tag '' @ decimal (obj_tag v))))"

definition except_into_lean :: "('e \<Rightarrow> lobj) \<Rightarrow> ('a \<Rightarrow> lobj) \<Rightarrow> 'e + 'a \<Rightarrow> lobj" where
  "except_into_lean into_e into_a v =
     (case v of Inl e \<Rightarrow> alloc_ctor_with_objects 0 [into_e e] | Inr a \<Rightarrow> alloc_ctor_with_objects 1 [into_a a])"

definition except_from_lean :: "(lobj \<Rightarrow> 'e decoded) \<Rightarrow> (lobj \<Rightarrow> 'a decoded) \<Rightarrow> lobj \<Rightarrow> ('e + 'a) decoded" where
  "except_from_lean from_e from_a v =
     decoded_bind (ctor_tag v) (\<lambda>tag.
       if tag = 0
       then decoded_bind (take_one v 0 ''Except::error'') (\<lambda>x. decoded_bind (from_e x) (\<lambda>e. Inr (Inl e)))
       else if tag = 1
       then decoded_bind (take_one v 1 ''Except::ok'') (\<lambda>x. decoded_bind (from_a x) (\<lambda>a. Inr (Inr a)))
       else Inl (conversion_error (''expected Lean Except ctor (tag 0 = error, 1 = ok), found tag '' @ decimal tag)))"

definition pair_into_lean :: "('a \<Rightarrow> lobj) \<Rightarrow> ('b \<Rightarrow> lobj) \<Rightarrow> 'a \<times> 'b \<Rightarrow> lobj" where
  "pair_into_lean into_a into_b v = alloc_ctor_with_objects 0 [into_a (fst v), into_b (snd v)]"

definition pair_from_lean :: "(lobj \<Rightarrow> 'a decoded) \<Rightarrow> (lobj \<Rightarrow> 'b decoded) \<Rightarrow> lobj \<Rightarrow> ('a \<times> 'b) decoded" where
  "pair_from_lean from_a from_b v =
     decoded_bind (take_ctor_objects v 2 0 ''Prod.mk'') (\<lambda>objs.
       decoded_bind (from_a (objs ! 0)) (\<lambda>a. decoded_bind (from_b (objs ! 1)) (\<lambda>b. Inr (a, b))))"

definition triple_into_lean :: "('a \<Rightarrow> lobj) \<Rightarrow> ('b \<Rightarrow> lobj) \<Rightarrow> ('c \<Rightarrow> lobj) \<Rightarrow> 'a \<times> 'b \<times> 'c \<Rightarrow> lobj" where
  "triple_into_lean into_a into_b into_c = pair_into_lean into_a (pair_into_lean into_b into_c)"

definition triple_from_lean ::
  "(lobj \<Rightarrow> 'a decoded) \<Rightarrow> (lobj \<Rightarrow> 'b decoded) \<Rightarrow> (lobj \<Rightarrow> 'c decoded) \<Rightarrow> lobj \<Rightarrow> ('a \<times> 'b \<times> 'c) decoded" where
  "triple_from_lean from_a from_b from_c = pair_from_lean from_a (pair_from_lean from_b from_c)"

definition array_into_lean :: "('a \<Rightarrow> lobj) \<Rightarrow> 'a list \<Rightarrow> lobj" where
  "array_into_lean into vs = LArray (map into vs)"

fun decode_each :: "(lobj \<Rightarrow> 'a decoded) \<Rightarrow> lobj list \<Rightarrow> 'a list decoded" where
  "decode_each from_lean [] = Inr []"
| "decode_each from_lean (v # vs) =
     decoded_bind (from_lean v) (\<lambda>x. decoded_bind (decode_each from_lean vs) (\<lambda>xs. Inr (x # xs)))"

definition array_from_lean :: "(lobj \<Rightarrow> 'a decoded) \<Rightarrow> lobj \<Rightarrow> 'a list decoded" where
  "array_from_lean from_lean v =
     (case v of
        Boxed n \<Rightarrow> Inl (wrong_kind_scalar ''Array'')
      | LArray vs \<Rightarrow> decode_each from_lean vs
      | _ \<Rightarrow> Inl (wrong_kind ''Array'' (obj_tag v)))"

section \<open>Types\<close>

datatype abi_type =
    TyUnit | TyBool | TySmall bool int_width | TyWide bool bool | TyF64 | TyChar | TyString
  | TyOption abi_type | TyExcept abi_type abi_type | TyPair abi_type abi_type
  | TyTriple abi_type abi_type abi_type | TyArray abi_type

datatype abi_value =
    VUnit
  | VBool (the_bool: bool)
  | VInt (the_int: int)
  | VCode (the_code: nat)
  | VString (the_string: string)
  | VOption (the_option: "abi_value option")
  | VExcept (the_except: "abi_value + abi_value")
  | VPair (the_pair: "abi_value \<times> abi_value")
  | VTriple (the_triple: "abi_value \<times> abi_value \<times> abi_value")
  | VArray (the_array: "abi_value list")

definition decoded_map :: "('a \<Rightarrow> 'b) \<Rightarrow> 'a decoded \<Rightarrow> 'b decoded" where
  "decoded_map f r = decoded_bind r (\<lambda>x. Inr (f x))"

primrec value_into_lean :: "abi_type \<Rightarrow> abi_value \<Rightarrow> lobj" where
  "value_into_lean TyUnit v = unit_into_lean"
| "value_into_lean TyBool v = bool_into_lean (the_bool v)"
| "value_into_lean (TySmall s w) v = small_into_lean w (the_int v)"
| "value_into_lean (TyWide s p) v = wide_into_lean (the_int v)"
| "value_into_lean TyF64 v = f64_into_lean (the_code v)"
| "value_into_lean TyChar v = char_into_lean (the_code v)"
| "value_into_lean TyString v = string_into_lean (the_string v)"
| "value_into_lean (TyOption t) v = option_into_lean (value_into_lean t) (the_option v)"
| "value_into_lean (TyExcept e t) v = except_into_lean (value_into_lean e) (value_into_lean t) (the_except v)"
| "value_into_lean (TyPair a b) v = pair_into_lean (value_into_lean a) (value_into_lean b) (the_pair v)"
| "value_into_lean (TyTriple a b c) v =
     triple_into_lean (value_into_lean a) (value_into_lean b) (value_into_lean c) (the_triple v)"
| "value_into_lean (TyArray t) v = array_into_lean (value_into_lean t) (the_array v)"

primrec value_from_lean :: "(lobj \<Rightarrow> nat \<Rightarrow> nat) \<Rightarrow> abi_type \<Rightarrow> lobj \<Rightarrow> abi_value decoded" where
  "value_from_lean mem TyUnit v = decoded_map (\<lambda>_. VUnit) (unit_from_lean v)"
| "value_from_lean mem TyBool v = decoded_map VBool (bool_from_lean v)"
| "value_from_lean mem (TySmall s w) v = decoded_map VInt (small_from_lean s w v)"
| "value_from_lean mem (TyWide s p) v = decoded_map VInt (wide_from_lean mem s p v)"
| "value_from_lean mem TyF64 v = decoded_map VCode (f64_from_lean mem v)"
| "value_from_lean mem TyChar v = decoded_map VCode (char_from_lean v)"
| "value_from_lean mem TyString v = decoded_map VString (string_from_lean v)"
| "value_from_lean mem (TyOption t) v = decoded_map VOption (option_from_lean (value_from_lean mem t) v)"
| "value_from_lean mem (TyExcept e t) v =
     decoded_map VExcept (except_from_lean (value_from_lean mem e) (value_from_lean mem t) v)"
| "value_from_lean mem (TyPair a b) v =
     decoded_map VPair (pair_from_lean (value_from_lean mem a) (value_from_lean mem b) v)"
| "value_from_lean mem (TyTriple a b c) v =
     decoded_map VTriple (triple_from_lean (value_from_lean mem a) (value_from_lean mem b) (value_from_lean mem c) v)"
| "value_from_lean mem (TyArray t) v = decoded_map VArray (array_from_lean (value_from_lean mem t) v)"

text \<open>The Rust values of a type.\<close>

definition int_fits :: "bool \<Rightarrow> nat \<Rightarrow> int \<Rightarrow> bool" where
  "int_fits is_signed bits i \<longleftrightarrow>
     (if is_signed then - (2 ^ (bits - 1)) \<le> i \<and> i < 2 ^ (bits - 1) else 0 \<le> i \<and> i < 2 ^ bits)"

primrec has_type :: "abi_type \<Rightarrow> abi_value \<Rightarrow> bool" where
  "has_type TyUnit v \<longleftrightarrow> v = VUnit"
| "has_type TyBool v \<longleftrightarrow> v = VBool (the_bool v)"
| "has_type (TySmall s w) v \<longleftrightarrow> v = VInt (the_int v) \<and> int_fits s (width_bits w) (the_int v)"
| "has_type (TyWide s p) v \<longleftrightarrow> v = VInt (the_int v) \<and> int_fits s 64 (the_int v)"
| "has_type TyF64 v \<longleftrightarrow> v = VCode (the_code v) \<and> the_code v < 2 ^ 64"
| "has_type TyChar v \<longleftrightarrow> v = VCode (the_code v) \<and> is_unicode_scalar (the_code v)"
| "has_type TyString v \<longleftrightarrow> v = VString (the_string v) \<and> utf8_valid (the_string v)"
| "has_type (TyOption t) v \<longleftrightarrow> v = VOption (the_option v) \<and> (\<forall>x \<in> set_option (the_option v). has_type t x)"
| "has_type (TyExcept e t) v \<longleftrightarrow> v = VExcept (the_except v) \<and>
     (case the_except v of Inl x \<Rightarrow> has_type e x | Inr x \<Rightarrow> has_type t x)"
| "has_type (TyPair a b) v \<longleftrightarrow> v = VPair (the_pair v) \<and> has_type a (fst (the_pair v)) \<and> has_type b (snd (the_pair v))"
| "has_type (TyTriple a b c) v \<longleftrightarrow> v = VTriple (the_triple v) \<and> has_type a (fst (the_triple v)) \<and>
     has_type b (fst (snd (the_triple v))) \<and> has_type c (snd (snd (the_triple v)))"
| "has_type (TyArray t) v \<longleftrightarrow> v = VArray (the_array v) \<and> (\<forall>x \<in> set (the_array v). has_type t x)"

section \<open>Codecs\<close>

text \<open>What every pair of trait implementations promises: a value that fits comes back, and a failure is a
  conversion error.\<close>

definition conversion_failure :: "lean_rs_error \<Rightarrow> bool" where
  "conversion_failure e \<longleftrightarrow> (\<exists>msg. e = conversion_error msg)"

locale codec =
  fixes into :: "'a \<Rightarrow> lobj" and from_lean :: "lobj \<Rightarrow> 'a decoded" and fits :: "'a \<Rightarrow> bool"
  assumes round_trip: "fits x \<Longrightarrow> from_lean (into x) = Inr x"
    and fails_as_conversion: "from_lean v = Inl e \<Longrightarrow> conversion_failure e"
begin

lemma each_round_trip: "\<forall>x \<in> set xs. fits x \<Longrightarrow> decode_each from_lean (map into xs) = Inr xs"
  by (induction xs) (simp_all add: decoded_bind_def round_trip)

lemma each_fails: "decode_each from_lean vs = Inl e \<Longrightarrow> conversion_failure e"
  by (induction vs) (auto simp: decoded_bind_def split: sum.splits dest: fails_as_conversion)

end

named_theorems decode_simps "one step of a decoder"

lemmas [decode_simps] = decoded_bind_def decoded_map_def conversion_failure_def wrong_kind_def wrong_kind_scalar_def
  out_of_range_def require_scalar_def require_ctor_def ctor_view_new_def ctor_tag_def ctor_shape_def require_shape_def
  require_tag_def take_ctor_objects_def take_one_def alloc_ctor_with_objects_def lean_box_def

lemma take_ctor_fails: "take_ctor_objects v n tag label = Inl e \<Longrightarrow> conversion_failure e"
  by (auto simp: decode_simps split: lobj.splits if_splits)

lemma take_one_fails: "take_one v tag label = Inl e \<Longrightarrow> conversion_failure e"
  using take_ctor_fails by (auto simp: take_one_def decoded_bind_def split: sum.splits)

lemma ctor_tag_fails: "ctor_tag v = Inl e \<Longrightarrow> conversion_failure e"
  by (auto simp: decode_simps split: lobj.splits)

lemma signed_round_trip:
  assumes "0 < bits" "int_fits True bits i"
  shows "as_signed bits (to_unsigned bits i) = i" and "to_unsigned bits i < 2 ^ bits"
proof -
  obtain k where k: "bits = Suc k" using assms(1) by (cases bits) auto
  have b: "- (2 ^ k) \<le> i" "i < 2 ^ k" using assms(2) by (simp_all add: int_fits_def k)
  have u: "i mod 2 ^ bits = (if 0 \<le> i then i else i + 2 ^ bits)"
  proof (cases "0 \<le> i")
    case True
    then show ?thesis using b by (simp add: k)
  next
    case False
    have "(i + 2 ^ bits) mod 2 ^ bits = i mod 2 ^ bits" by simp
    moreover have "(i + 2 ^ bits) mod 2 ^ bits = i + 2 ^ bits"
      using False b by (intro mod_pos_pos_trivial) (auto simp: k)
    ultimately show ?thesis using False by simp
  qed
  have n: "int (to_unsigned bits i) = (if 0 \<le> i then i else i + 2 ^ bits)"
    using u b by (auto simp: to_unsigned_def k)
  have small: "to_unsigned bits i < 2 ^ k \<longleftrightarrow> 0 \<le> i"
  proof -
    have "int (to_unsigned bits i) < 2 ^ k \<longleftrightarrow> 0 \<le> i" unfolding n using b by (auto simp: k)
    then show ?thesis by simp
  qed
  have "as_signed bits (to_unsigned bits i) =
      (if 0 \<le> i then int (to_unsigned bits i) else int (to_unsigned bits i) - 2 ^ bits)"
    unfolding as_signed_def using small by (simp add: k)
  then show "as_signed bits (to_unsigned bits i) = i" unfolding n by simp
  have "int (to_unsigned bits i) < 2 ^ bits" unfolding n using b by (auto simp: k)
  then show "to_unsigned bits i < 2 ^ bits" by simp
qed

lemma unsigned_round_trip:
  assumes "int_fits False bits i"
  shows "int (to_unsigned bits i) = i" "to_unsigned bits i < 2 ^ bits"
proof -
  have b: "0 \<le> i" "i < 2 ^ bits" using assms by (simp_all add: int_fits_def)
  then show n: "int (to_unsigned bits i) = i" by (simp add: to_unsigned_def)
  have "int (to_unsigned bits i) < 2 ^ bits" unfolding n by (rule b)
  then show "to_unsigned bits i < 2 ^ bits" by simp
qed

lemma from_le_bytes_inverse: "from_le_bytes (le_bytes k n) = n mod 256 ^ k"
proof (induction k arbitrary: n)
  case (Suc k)
  have "n mod 256 + 256 * (n div 256 mod 256 ^ k) = n mod (256 * 256 ^ k)" by (simp add: mod_mult2_eq)
  with Suc show ?case by simp
qed simp

lemma length_le_bytes [simp]: "length (le_bytes k n) = k"
  by (induction k arbitrary: n) simp_all

lemma get_boxed_uint64: "n < 2 ^ 64 \<Longrightarrow> get_uint64 mem (lean_box_uint64 n) 0 = n"
proof -
  assume n: "n < 2 ^ 64"
  have "map (\<lambda>i. get_uint8 mem (lean_box_uint64 n) (0 + i)) [0..<8] = map ((!) (le_bytes 8 n)) [0..<8]"
    by (simp add: get_uint8_def lean_box_uint64_def)
  also have "\<dots> = le_bytes 8 n" using map_nth [of "le_bytes 8 n"] by simp
  finally show ?thesis using n by (simp add: get_uint64_def from_le_bytes_inverse)
qed

lemma small_bits: "width_bits w \<le> 32"
  by (cases w) simp_all

interpretation unit_codec: codec "\<lambda>_::unit. unit_into_lean" unit_from_lean "\<lambda>_. True"
  by unfold_locales (auto simp: unit_into_lean_def unit_from_lean_def decode_simps split: lobj.splits)

interpretation bool_codec: codec bool_into_lean bool_from_lean "\<lambda>_. True"
  by unfold_locales (auto simp: bool_into_lean_def bool_from_lean_def decode_simps split: lobj.splits if_splits)

interpretation small_codec: codec "small_into_lean w" "small_from_lean s w" "int_fits s (width_bits w)" for s w
proof
  fix i
  assume fits: "int_fits s (width_bits w) i"
  have pos: "0 < width_bits w" by (cases w) simp_all
  have lt: "to_unsigned (width_bits w) i < 2 ^ width_bits w"
    using fits signed_round_trip(2) [OF pos] unsigned_round_trip(2) by (cases s) auto
  also have "(2::nat) ^ width_bits w \<le> 2 ^ 32" by (rule power_increasing [OF small_bits]) simp
  finally have box: "to_unsigned (width_bits w) i mod 2 ^ 63 = to_unsigned (width_bits w) i" by simp
  show "small_from_lean s w (small_into_lean w i) = Inr i"
    using fits lt signed_round_trip(1) [OF pos] unsigned_round_trip(1) [of "width_bits w" i]
    unfolding small_into_lean_def small_from_lean_def lean_box_def box
    by (cases s) (simp_all add: require_scalar_def decoded_bind_def)
qed (auto simp: small_from_lean_def decode_simps split: lobj.splits if_splits)

interpretation wide_codec: codec wide_into_lean "wide_from_lean mem s p" "int_fits s 64" for mem s p
proof
  fix i
  assume fits: "int_fits s 64 i"
  have lt: "to_unsigned 64 i < 2 ^ 64"
    using fits signed_round_trip(2) [of 64 i] unsigned_round_trip(2) [of 64 i] by (cases s) auto
  have ctor: "require_ctor (lean_box_uint64 n) label = Inr ()" for n label
    by (simp add: lean_box_uint64_def require_ctor_def)
  show "wide_from_lean mem s p (wide_into_lean i) = Inr i"
    using fits signed_round_trip(1) [of 64 i] unsigned_round_trip(1) [of 64 i]
    by (cases s) (simp_all add: wide_into_lean_def wide_from_lean_def ctor get_boxed_uint64 [OF lt] decoded_bind_def)
qed (auto simp: wide_from_lean_def decode_simps split: lobj.splits)

interpretation f64_codec: codec f64_into_lean "f64_from_lean mem" "\<lambda>n. n < 2 ^ 64" for mem
proof
  show "n < 2 ^ 64 \<Longrightarrow> f64_from_lean mem (f64_into_lean n) = Inr n" for n
    by (simp add: f64_into_lean_def f64_from_lean_def get_boxed_uint64 decoded_bind_def)
      (simp add: lean_box_uint64_def require_ctor_def)
qed (auto simp: f64_from_lean_def decode_simps split: lobj.splits)

interpretation char_codec: codec char_into_lean char_from_lean is_unicode_scalar
proof
  fix c
  assume c: "is_unicode_scalar c"
  then have lt: "c < 2 ^ 32" by (auto simp: is_unicode_scalar_def)
  then have "to_unsigned (width_bits W32) (int c) = c"
    using unsigned_round_trip(1) [of 32 "int c"] by (simp add: int_fits_def)
  with c lt show "char_from_lean (char_into_lean c) = Inr c"
    by (simp add: char_into_lean_def char_from_lean_def small_into_lean_def lean_box_def require_scalar_def decoded_bind_def)
qed (auto simp: char_from_lean_def decode_simps split: lobj.splits if_splits)

interpretation string_codec: codec string_into_lean string_from_lean utf8_valid
  by unfold_locales
    (auto simp: string_into_lean_def string_from_lean_def require_string_def decode_simps split: lobj.splits if_splits)

interpretation bytes_codec: codec bytes_into_lean bytes_from_lean "\<lambda>_. True"
  by unfold_locales (auto simp: bytes_into_lean_def bytes_from_lean_def decode_simps split: lobj.splits if_splits)

interpretation nat_codec: codec nat_from_u64 nat_try_to_u64 "\<lambda>n. n \<le> LEAN_MAX_SMALL_NAT"
  by unfold_locales
    (auto simp: nat_from_u64_def nat_try_to_u64_def LEAN_MAX_SMALL_NAT_def decode_simps split: lobj.splits)

interpretation int_codec: codec int_from_i64 int_try_to_i64 "int_fits True 32"
proof
  fix i
  assume fits: "int_fits True 32 i"
  have lt: "to_unsigned 32 i < 2 ^ 32" by (rule signed_round_trip(2) [OF _ fits]) simp
  have recover: "as_signed 32 (to_unsigned 32 i) = i" by (rule signed_round_trip(1) [OF _ fits]) simp
  have small: "LEAN_MIN_SMALL_INT \<le> i \<and> i \<le> LEAN_MAX_SMALL_INT"
    using fits by (simp add: int_fits_def LEAN_MIN_SMALL_INT_def LEAN_MAX_SMALL_INT_def)
  show "int_try_to_i64 (int_from_i64 i) = Inr i"
    using lt by (simp add: int_from_i64_def small lean_box_def int_try_to_i64_def recover)
qed (auto simp: int_try_to_i64_def decode_simps split: lobj.splits)

text \<open>Codecs compose.\<close>

lemma option_codec:
  assumes "codec into from_lean fits"
  shows "codec (option_into_lean into) (option_from_lean from_lean) (\<lambda>v. \<forall>x \<in> set_option v. fits x)"
proof
  show "option_from_lean from_lean (option_into_lean into v) = Inr v" if "\<forall>x \<in> set_option v. fits x" for v
    using that by (cases v)
      (simp_all add: option_into_lean_def option_from_lean_def decode_simps codec.round_trip [OF assms])
  show "conversion_failure e" if "option_from_lean from_lean v = Inl e" for v e
    using that take_one_fails codec.fails_as_conversion [OF assms]
    by (auto simp: option_from_lean_def decoded_bind_def conversion_failure_def split: lobj.splits sum.splits if_splits)
qed

lemma except_codec:
  assumes "codec into_e from_e fits_e" "codec into_a from_a fits_a"
  shows "codec (except_into_lean into_e into_a) (except_from_lean from_e from_a)
    (\<lambda>v. case v of Inl e \<Rightarrow> fits_e e | Inr a \<Rightarrow> fits_a a)"
proof
  show "except_from_lean from_e from_a (except_into_lean into_e into_a v) = Inr v"
    if "case v of Inl e \<Rightarrow> fits_e e | Inr a \<Rightarrow> fits_a a" for v
    using that by (cases v)
      (simp_all add: except_into_lean_def except_from_lean_def decode_simps codec.round_trip [OF assms(1)]
        codec.round_trip [OF assms(2)])
  show "conversion_failure e" if "except_from_lean from_e from_a v = Inl e" for v e
    using that ctor_tag_fails take_one_fails codec.fails_as_conversion [OF assms(1)] codec.fails_as_conversion [OF assms(2)]
    by (auto simp: except_from_lean_def decoded_bind_def conversion_failure_def split: sum.splits if_splits)
qed

lemma pair_codec:
  assumes "codec into_a from_a fits_a" "codec into_b from_b fits_b"
  shows "codec (pair_into_lean into_a into_b) (pair_from_lean from_a from_b) (\<lambda>v. fits_a (fst v) \<and> fits_b (snd v))"
proof
  show "pair_from_lean from_a from_b (pair_into_lean into_a into_b v) = Inr v" if "fits_a (fst v) \<and> fits_b (snd v)" for v
    using that by (simp add: pair_into_lean_def pair_from_lean_def decode_simps codec.round_trip [OF assms(1)]
        codec.round_trip [OF assms(2)])
  show "conversion_failure e" if "pair_from_lean from_a from_b v = Inl e" for v e
    using that take_ctor_fails codec.fails_as_conversion [OF assms(1)] codec.fails_as_conversion [OF assms(2)]
    by (auto simp: pair_from_lean_def decoded_bind_def conversion_failure_def split: sum.splits)
qed

lemma array_codec:
  assumes "codec into from_lean fits"
  shows "codec (array_into_lean into) (array_from_lean from_lean) (\<lambda>vs. \<forall>x \<in> set vs. fits x)"
proof
  show "array_from_lean from_lean (array_into_lean into vs) = Inr vs" if "\<forall>x \<in> set vs. fits x" for vs
    using that by (simp add: array_into_lean_def array_from_lean_def codec.each_round_trip [OF assms])
  show "conversion_failure e" if "array_from_lean from_lean v = Inl e" for v e
    using that codec.each_fails [OF assms]
    by (auto simp: array_from_lean_def wrong_kind_def wrong_kind_scalar_def conversion_failure_def split: lobj.splits)
qed

text \<open>A codec seen through a constructor of the value type.\<close>

lemma wrapped_codec:
  assumes "codec into from_lean fits" "\<And>x. unwrap (wrap x) = x"
  shows "codec (into \<circ> unwrap) (\<lambda>v. decoded_map wrap (from_lean v)) (\<lambda>v. v = wrap (unwrap v) \<and> fits (unwrap v))"
proof
  show "decoded_map wrap (from_lean ((into \<circ> unwrap) v)) = Inr v" if "v = wrap (unwrap v) \<and> fits (unwrap v)" for v
    using that by (simp add: decoded_map_def decoded_bind_def codec.round_trip [OF assms(1)])
  show "conversion_failure e" if "decoded_map wrap (from_lean v) = Inl e" for v e
    using that codec.fails_as_conversion [OF assms(1)] by (auto simp: decoded_map_def decoded_bind_def split: sum.splits)
qed

lemma value_codec: "codec (value_into_lean t) (value_from_lean mem t) (has_type t)"
proof (induction t)
  case TyUnit
  show ?case using wrapped_codec [OF unit_codec.codec_axioms, of "\<lambda>_. ()" "\<lambda>_. VUnit"] by (simp add: comp_def)
next
  case TyBool
  show ?case using wrapped_codec [OF bool_codec.codec_axioms, of the_bool VBool] by (simp add: comp_def)
next
  case (TySmall s w)
  show ?case using wrapped_codec [OF small_codec.codec_axioms, of the_int VInt w s] by (simp add: comp_def)
next
  case (TyWide s p)
  show ?case using wrapped_codec [OF wide_codec.codec_axioms, of the_int VInt mem s p] by (simp add: comp_def)
next
  case TyF64
  show ?case using wrapped_codec [OF f64_codec.codec_axioms, of the_code VCode mem] by (simp add: comp_def)
next
  case TyChar
  show ?case using wrapped_codec [OF char_codec.codec_axioms, of the_code VCode] by (simp add: comp_def)
next
  case TyString
  show ?case using wrapped_codec [OF string_codec.codec_axioms, of the_string VString] by (simp add: comp_def)
next
  case (TyOption t)
  show ?case using wrapped_codec [OF option_codec [OF TyOption.IH], of the_option VOption] by (simp add: comp_def)
next
  case (TyExcept e t)
  show ?case using wrapped_codec [OF except_codec [OF TyExcept.IH], of the_except VExcept] by (simp add: comp_def)
next
  case (TyPair a b)
  show ?case using wrapped_codec [OF pair_codec [OF TyPair.IH], of the_pair VPair] by (simp add: comp_def)
next
  case (TyTriple a b c)
  show ?case
    using wrapped_codec [OF pair_codec [OF TyTriple.IH(1) pair_codec [OF TyTriple.IH(2,3)]], of the_triple VTriple]
    by (simp add: comp_def triple_into_lean_def triple_from_lean_def)
next
  case (TyArray t)
  show ?case using wrapped_codec [OF array_codec [OF TyArray.IH], of the_array VArray] by (simp add: comp_def)
qed

section \<open>Results of \<open>IO\<close> actions\<close>

text \<open>An \<open>IO\<close> result is one of the two constructors of \<open>EStateM.Result\<close>, with its payload.\<close>

datatype io_result = IoOk lobj | IoError lobj

definition KIND_TABLE :: "exception_kind list" where
  "KIND_TABLE =
     [KindAlreadyExists, KindOtherError, KindResourceBusy, KindResourceVanished, KindUnsupportedOperation,
      KindHardwareFault, KindUnsatisfiedConstraints, KindIllegalOperation, KindProtocolError, KindTimeExpired,
      KindInterrupted, KindNoFileOrDirectory, KindInvalidArgument, KindPermissionDenied, KindResourceExhausted,
      KindInappropriateType, KindNoSuchThing, KindUnexpectedEof, KindUserError]"

text \<open>Only a constructor has object fields.\<close>

definition read_last_string_field :: "lobj \<Rightarrow> string option" where
  "read_last_string_field v =
     (case v of
        Ctor tag objs tail \<Rightarrow>
          (if objs = [] then None
           else case last objs of LString s \<Rightarrow> Some (utf8_lossy s) | _ \<Rightarrow> None)
      | _ \<Rightarrow> None)"

definition classify_io_error :: "lobj \<Rightarrow> exception_kind \<times> string" where
  "classify_io_error err =
     (case err of
        Boxed n \<Rightarrow> (KindOther, ''<Lean IO error: scalar-encoded constructor>'')
      | _ \<Rightarrow>
          (if obj_tag err < length KIND_TABLE then KIND_TABLE ! obj_tag err else KindOther,
           (case read_last_string_field err of
              Some msg \<Rightarrow> msg
            | None \<Rightarrow> ''<Lean IO error: constructor tag '' @ decimal (obj_tag err) @ ''>'')))"

definition decode_io :: "io_result \<Rightarrow> lobj decoded" where
  "decode_io result =
     (case result of
        IoOk v \<Rightarrow> Inr v
      | IoError err \<Rightarrow> (case classify_io_error err of (kind, msg) \<Rightarrow> Inl (lean_exception_error kind msg)))"

definition decode_io_as :: "(lobj \<Rightarrow> 'a decoded) \<Rightarrow> io_result \<Rightarrow> 'a decoded" where
  "decode_io_as from_lean result = decoded_bind (decode_io result) from_lean"

section \<open>Properties\<close>

lemma conversion_failure_code: "conversion_failure e \<Longrightarrow> lean_error_code e = CodeAbiConversion"
  by (auto simp: conversion_failure_def conversion_error_def abi_conversion_def host_error_def)

text \<open>C31: Every value that crosses the boundary comes back.  For each supported type, built from scalars, floats,
  characters, strings, options, results, pairs, triples and arrays, decoding the encoding of a value of the type
  yields the value, also behind a successful \<open>IO\<close> result; and a decoder that refuses an object reports a
  conversion error.\<close>

theorem abi_round_trip:
  assumes "has_type t v"
  shows "value_from_lean mem t (value_into_lean t v) = Inr v \<and>
    decode_io_as (value_from_lean mem t) (IoOk (value_into_lean t v)) = Inr v \<and>
    (\<forall>x e. value_from_lean mem t x = Inl e \<longrightarrow> lean_error_code e = CodeAbiConversion)"
  using codec.round_trip [OF value_codec assms] conversion_failure_code codec.fails_as_conversion [OF value_codec, of mem t]
  by (simp add: decode_io_as_def decode_io_def decoded_bind_def)

theorem abi_round_trip_witness:
  "value_from_lean (\<lambda>_ _. 0) (TyArray (TyOption (TySmall True W8)))
     (LArray [Boxed 0, Ctor 1 [Boxed 253] []]) =
   Inr (VArray [VOption None, VOption (Some (VInt (- 3)))])"
proof -
  let ?t = "TyArray (TyOption (TySmall True W8))" and ?v = "VArray [VOption None, VOption (Some (VInt (- 3)))]"
  have "has_type ?t ?v" by (simp add: int_fits_def)
  from abi_round_trip [OF this, of "\<lambda>_ _. 0"]
  have "value_from_lean (\<lambda>_ _. 0) ?t (value_into_lean ?t ?v) = Inr ?v" by blast
  moreover have "value_into_lean ?t ?v = LArray [Boxed 0, Ctor 1 [Boxed 253] []]"
    by (simp add: array_into_lean_def option_into_lean_def small_into_lean_def lean_box_def to_unsigned_def
        alloc_ctor_with_objects_def)
  ultimately show ?thesis by (simp only:)
qed

text \<open>The types whose decoders read the scalar area on the strength of the object's kind alone.\<close>

primrec reads_unchecked :: "abi_type \<Rightarrow> bool" where
  "reads_unchecked TyUnit \<longleftrightarrow> False"
| "reads_unchecked TyBool \<longleftrightarrow> False"
| "reads_unchecked (TySmall s w) \<longleftrightarrow> False"
| "reads_unchecked (TyWide s p) \<longleftrightarrow> True"
| "reads_unchecked TyF64 \<longleftrightarrow> True"
| "reads_unchecked TyChar \<longleftrightarrow> False"
| "reads_unchecked TyString \<longleftrightarrow> False"
| "reads_unchecked (TyOption t) \<longleftrightarrow> reads_unchecked t"
| "reads_unchecked (TyExcept e t) \<longleftrightarrow> reads_unchecked e \<or> reads_unchecked t"
| "reads_unchecked (TyPair a b) \<longleftrightarrow> reads_unchecked a \<or> reads_unchecked b"
| "reads_unchecked (TyTriple a b c) \<longleftrightarrow> reads_unchecked a \<or> reads_unchecked b \<or> reads_unchecked c"
| "reads_unchecked (TyArray t) \<longleftrightarrow> reads_unchecked t"

lemma view_stays_inside:
  assumes "ctor_view_new v = Inr cv"
  shows "view_uint8 mem offset label cv = view_uint8 mem' offset label cv"
    and "view_uint64 mem offset label cv = view_uint64 mem' offset label cv"
    and "view_bool mem offset label cv = view_bool mem' offset label cv"
proof -
  obtain tag objs tail where v: "v = Ctor tag objs tail" "cv_obj cv = v" "cv_scalar_tail_size cv = length tail"
    using assms by (auto simp: ctor_view_new_def split: lobj.splits)
  have byte: "get_uint8 mem v i = get_uint8 mem' v i" if "i < length tail" for i
    using that by (simp add: get_uint8_def v(1))
  show u8: "view_uint8 mem offset label cv = view_uint8 mem' offset label cv"
    using byte by (simp add: view_uint8_def require_scalar_tail_def v(2,3) decoded_bind_def)
  have "get_uint64 mem v offset = get_uint64 mem' v offset" if "offset + 8 \<le> length tail"
  proof -
    have "map (\<lambda>i. get_uint8 mem v (offset + i)) [0..<8] = map (\<lambda>i. get_uint8 mem' v (offset + i)) [0..<8]"
      using that byte by (intro map_cong) auto
    then show ?thesis by (simp only: get_uint64_def)
  qed
  then show "view_uint64 mem offset label cv = view_uint64 mem' offset label cv"
    by (simp add: view_uint64_def require_scalar_tail_def v(2,3) decoded_bind_def)
  show "view_bool mem offset label cv = view_bool mem' offset label cv" unfolding view_bool_def u8 ..
qed



text \<open>The 64-bit decoders do read outside: an object whose constructor has no scalar area passes the kind check.\<close>

lemma wide_decoding_reads_outside:
  "wide_from_lean (\<lambda>_ _. 0) False False (Ctor 1 [LString ''a''] []) = Inr 0"
  "wide_from_lean (\<lambda>_ _. 255) False False (Ctor 1 [LString ''a''] []) = Inr (2 ^ 64 - 1)"
  by (simp_all add: wide_from_lean_def require_ctor_def decoded_bind_def get_uint64_def get_uint8_def upt_rec)

text \<open>A failed \<open>IO\<close> action is classified by its constructor.  Each of the nineteen \<open>IO.Error\<close> constructors has its
  kind and any other tag the catch-all kind; the message is the constructor's last string, lossily decoded and
  unchanged when it is valid UTF-8, within the message bound.\<close>

theorem io_errors_are_classified:
  "\<exists>x. decode_io_as from_lean (IoError (Ctor tag objs tail)) = Inl (LeanException x) \<and>
     lx_kind x = (if tag < 19 then KIND_TABLE ! tag else KindOther) \<and>
     length (lx_message x) \<le> LEAN_ERROR_MESSAGE_LIMIT \<and>
     (\<forall>s. objs \<noteq> [] \<and> last objs = LString s \<and> utf8_valid s \<and> length s \<le> LEAN_ERROR_MESSAGE_LIMIT \<longrightarrow> lx_message x = s)"
proof -
  let ?r = "classify_io_error (Ctor tag objs tail)"
  have kind: "fst ?r = (if tag < 19 then KIND_TABLE ! tag else KindOther)"
    by (simp add: classify_io_error_def KIND_TABLE_def)
  have msg: "snd ?r = s" if "objs \<noteq> []" "last objs = LString s" "utf8_valid s" for s
    using that by (simp add: classify_io_error_def read_last_string_field_def lossy_valid)
  have bounded: "length (bound_message s) \<le> LEAN_ERROR_MESSAGE_LIMIT" for s by (rule bound_message_bound)
  have same: "bound_message s = s" if "length s \<le> LEAN_ERROR_MESSAGE_LIMIT" for s
    using that by (simp add: bound_message_def)
  have "decode_io_as from_lean (IoError (Ctor tag objs tail)) =
      Inl (LeanException \<lparr>lx_kind = fst ?r, lx_message = bound_message (snd ?r)\<rparr>)"
    by (simp add: decode_io_as_def decode_io_def decoded_bind_def lean_exception_error_def split: prod.splits)
  then show ?thesis using kind msg bounded same by fastforce
qed

theorem io_errors_are_classified_witness:
  "\<exists>x. decode_io (IoError (Ctor 18 [LString ''boom''] [])) = Inl (LeanException x) \<and> lx_kind x = KindUserError \<and>
     lx_message x = ''boom''"
proof -
  have valid: "utf8_valid ''boom''" by code_simp
  obtain x where x: "decode_io_as Inr (IoError (Ctor 18 [LString ''boom''] [])) = Inl (LeanException x)"
    "lx_kind x = KIND_TABLE ! 18" "lx_message x = ''boom''"
    using io_errors_are_classified [of Inr 18 "[LString ''boom'']" "[]"] valid
    by (auto simp: LEAN_ERROR_MESSAGE_LIMIT_def)
  then have "decode_io (IoError (Ctor 18 [LString ''boom''] [])) = Inl (LeanException x)"
    by (simp add: decode_io_as_def decoded_bind_def split: sum.splits)
  moreover have "KIND_TABLE ! 18 = KindUserError" by (simp add: KIND_TABLE_def)
  ultimately show ?thesis using x by auto
qed

end
