(* ===== verification/Lean_Callback.thy ===== *)
theory Lean_Callback
  imports Callback_Status Lean_Abi
begin

text \<open>
  Callback handles (\<open>callback.rs\<close> of \<open>lean-rs\<close>): the process-wide registry through which Lean calls a Rust closure
  by number, the two trampolines, and how a progress shim's status comes back as an error.

  A closure is the address of its entry on a heap of entries, because the registry and the handle share it; what a
  closure does when it is called is the parameter \<open>behaviour\<close>, and \<open>rg_runs\<close> is the sequence of calls that reached
  one.  The registry mutex makes every operation atomic.
\<close>

section \<open>The registry\<close>

datatype callback_kind = KindProgress | KindString

datatype callback_event = ProgressTick nat nat | StringEvent string

datatype callback_flow = FlowContinue | FlowStop

definition PAYLOAD_PROGRESS_TICK :: nat where "PAYLOAD_PROGRESS_TICK = 0"
definition PAYLOAD_STRING :: nat where "PAYLOAD_STRING = 1"

record callback_entry =
  kb_kind :: callback_kind
  kb_last_error :: "lean_rs_error option"

record registry =
  rg_next :: nat
  rg_entries :: "(nat \<times> nat) list"
  rg_heap :: "callback_entry list"
  rg_poisoned :: bool
  rg_runs :: "(nat \<times> callback_event) list"

definition registry_new :: registry where
  "registry_new = \<lparr>rg_next = 1, rg_entries = [], rg_heap = [], rg_poisoned = False, rg_runs = []\<rparr>"

record callback_handle =
  ch_id :: nat
  ch_entry :: nat

text \<open>\<open>NEXT_ID.fetch_add(1)\<close> wraps; zero and the ids of live entries are skipped.\<close>

fun allocate_id :: "nat \<Rightarrow> registry \<Rightarrow> nat option \<times> registry" where
  "allocate_id 0 rg = (None, rg)"
| "allocate_id (Suc tries) rg =
     (let raw = rg_next rg; rg1 = rg\<lparr>rg_next := (raw + 1) mod 2 ^ 64\<rparr>
      in if raw = 0 \<or> map_of (rg_entries rg) raw \<noteq> None then allocate_id tries rg1 else (Some raw, rg1))"

definition register_entry :: "callback_kind \<Rightarrow> registry \<Rightarrow> (lean_rs_error + callback_handle) \<times> registry" where
  "register_entry kind rg =
     (if rg_poisoned rg
      then (Inl (internal_error ''callback registry mutex was poisoned during registration''), rg)
      else case allocate_id 1024 rg of
        (None, rg1) \<Rightarrow> (Inl (internal_error ''callback registry could not allocate a fresh nonzero handle id''), rg1)
      | (Some i, rg1) \<Rightarrow>
          (Inr \<lparr>ch_id = i, ch_entry = length (rg_heap rg1)\<rparr>,
           rg1\<lparr>rg_entries := (i, length (rg_heap rg1)) # rg_entries rg1,
             rg_heap := rg_heap rg1 @ [\<lparr>kb_kind = kind, kb_last_error = None\<rparr>]\<rparr>))"

definition drop_handle :: "callback_handle \<Rightarrow> registry \<Rightarrow> registry" where
  "drop_handle h rg =
     (if rg_poisoned rg then rg else rg\<lparr>rg_entries := filter (\<lambda>e. fst e \<noteq> ch_id h) (rg_entries rg)\<rparr>)"

definition last_callback_error :: "callback_handle \<Rightarrow> registry \<Rightarrow> lean_rs_error option" where
  "last_callback_error h rg = kb_last_error (rg_heap rg ! ch_entry h)"

section \<open>Calls from Lean\<close>

type_synonym behaviour = "nat \<Rightarrow> callback_event \<Rightarrow> panic_payload + callback_flow"

definition closure_result :: "panic_payload + callback_flow \<Rightarrow> callback_flow closure_end" where
  "closure_result r = (case r of Inl payload \<Rightarrow> Panicked payload | Inr flow \<Rightarrow> Returned (Inr flow))"

definition flow_or_panic :: "nat \<Rightarrow> lean_rs_error + callback_flow \<Rightarrow> registry \<Rightarrow> callback_status \<times> registry" where
  "flow_or_panic entry result rg =
     (case result of
        Inr FlowContinue \<Rightarrow> (CsOk, rg)
      | Inr FlowStop \<Rightarrow> (CsStopped, rg)
      | Inl err \<Rightarrow>
          (CsPanic, rg\<lparr>rg_heap := (rg_heap rg)[entry := (rg_heap rg ! entry)\<lparr>kb_last_error := Some err\<rparr>]\<rparr>))"

definition event_kind :: "callback_event \<Rightarrow> callback_kind" where
  "event_kind ev = (case ev of ProgressTick tick bound \<Rightarrow> KindProgress | StringEvent s \<Rightarrow> KindString)"

definition report_event :: "behaviour \<Rightarrow> nat \<Rightarrow> callback_event \<Rightarrow> registry \<Rightarrow> callback_status \<times> registry" where
  "report_event behaviour entry ev rg =
     (if kb_kind (rg_heap rg ! entry) \<noteq> event_kind ev then (CsWrongPayload, rg)
      else flow_or_panic entry (catch_callback_panic (closure_result (behaviour entry ev))) (rg\<lparr>rg_runs := rg_runs rg @ [(entry, ev)]\<rparr>))"

definition registered_entry :: "nat \<Rightarrow> registry \<Rightarrow> nat option" where
  "registered_entry i rg = (if rg_poisoned rg then None else map_of (rg_entries rg) i)"

definition progress_trampoline :: "behaviour \<Rightarrow> nat \<Rightarrow> nat \<Rightarrow> nat \<Rightarrow> nat \<Rightarrow> registry \<Rightarrow> callback_status \<times> registry" where
  "progress_trampoline behaviour i payload_tag arg0 arg1 rg =
     (if payload_tag \<noteq> PAYLOAD_PROGRESS_TICK then (CsWrongPayload, rg)
      else case registered_entry i rg of
        None \<Rightarrow> (CsStaleHandle, rg)
      | Some entry \<Rightarrow> report_event behaviour entry (ProgressTick arg0 arg1) rg)"

text \<open>A null payload is \<open>None\<close>.\<close>

definition decode_string_payload :: "lobj option \<Rightarrow> string option" where
  "decode_string_payload payload =
     (case payload of
        Some (LString s) \<Rightarrow> (if utf8_valid s then Some s else None)
      | _ \<Rightarrow> None)"

definition string_trampoline :: "behaviour \<Rightarrow> nat \<Rightarrow> nat \<Rightarrow> lobj option \<Rightarrow> registry \<Rightarrow> callback_status \<times> registry" where
  "string_trampoline behaviour i payload_tag payload rg =
     (if payload_tag \<noteq> PAYLOAD_STRING then (CsWrongPayload, rg)
      else case registered_entry i rg of
        None \<Rightarrow> (CsStaleHandle, rg)
      | Some entry \<Rightarrow>
          (case decode_string_payload payload of
             None \<Rightarrow> (CsWrongPayload, rg)
           | Some s \<Rightarrow> report_event behaviour entry (StringEvent s) rg))"

section \<open>The result of a progress shim\<close>

definition progress_status_to_result :: "lean_rs_error option \<Rightarrow> nat \<Rightarrow> unit decoded" where
  "progress_status_to_result recorded b =
     (case status_from_abi b of
        Some CsOk \<Rightarrow> Inr ()
      | Some CsStaleHandle \<Rightarrow> Inl (internal_error ''Lean progress shim called a stale callback handle'')
      | Some CsWrongPayload \<Rightarrow>
          Inl (internal_error ''Lean progress shim called a callback handle through the wrong payload trampoline'')
      | Some CsStopped \<Rightarrow>
          Inl (internal_error ''progress callback asked Lean to stop, but progress callbacks do not define stop semantics'')
      | Some CsPanic \<Rightarrow>
          Inl (case recorded of
                 Some e \<Rightarrow> e
               | None \<Rightarrow> internal_error ''progress callback panicked without recording a callback error'')
      | None \<Rightarrow> Inl (conversion_error (''Lean progress shim returned unknown callback status byte '' @ decimal b)))"

definition progress_outcome :: "lean_rs_error option \<Rightarrow> nat + 'a \<Rightarrow> 'a decoded" where
  "progress_outcome recorded r =
     (case r of
        Inr x \<Rightarrow> Inr x
      | Inl b \<Rightarrow>
          decoded_bind (progress_status_to_result recorded b) (\<lambda>_.
            Inl (internal_error ''progress shim returned Except.error with successful callback status'')))"

definition decode_result :: "(lobj \<Rightarrow> 'a decoded) \<Rightarrow> callback_handle \<Rightarrow> registry \<Rightarrow> lobj \<Rightarrow> 'a decoded" where
  "decode_result from_lean h rg v =
     decoded_bind (except_from_lean (small_from_lean False W8) from_lean v) (\<lambda>r.
       progress_outcome (last_callback_error h rg) (map_sum nat id r))"

section \<open>Histories\<close>

text \<open>The operations of Rust code, which holds handles and drops them, and of Lean, which may call any number.\<close>

datatype callback_op =
    OpRegister callback_kind
  | OpDrop nat
  | OpProgress nat nat nat nat
  | OpString nat nat "lobj option"

record callback_world =
  cw_registry :: registry
  cw_handles :: "callback_handle list"

definition callback_world_new :: callback_world where
  "callback_world_new = \<lparr>cw_registry = registry_new, cw_handles = []\<rparr>"

fun apply_callback_op :: "behaviour \<Rightarrow> callback_op \<Rightarrow> callback_world \<Rightarrow> callback_world" where
  "apply_callback_op behaviour (OpRegister kind) cw =
     (case register_entry kind (cw_registry cw) of
        (Inl e, rg) \<Rightarrow> cw\<lparr>cw_registry := rg\<rparr>
      | (Inr h, rg) \<Rightarrow> cw\<lparr>cw_registry := rg, cw_handles := h # cw_handles cw\<rparr>)"
| "apply_callback_op behaviour (OpDrop i) cw =
     (if i < length (cw_handles cw)
      then cw\<lparr>cw_registry := drop_handle (cw_handles cw ! i) (cw_registry cw), cw_handles := remove_at i (cw_handles cw)\<rparr>
      else cw)"
| "apply_callback_op behaviour (OpProgress i tag arg0 arg1) cw =
     cw\<lparr>cw_registry := snd (progress_trampoline behaviour i tag arg0 arg1 (cw_registry cw))\<rparr>"
| "apply_callback_op behaviour (OpString i tag payload) cw =
     cw\<lparr>cw_registry := snd (string_trampoline behaviour i tag payload (cw_registry cw))\<rparr>"

definition run_callbacks :: "(callback_op \<times> behaviour) list \<Rightarrow> callback_world \<Rightarrow> callback_world" where
  "run_callbacks ops cw = fold (\<lambda>(op, behaviour) cw. apply_callback_op behaviour op cw) ops cw"

text \<open>The registry holds exactly the live handles, under distinct nonzero ids and for distinct closures.\<close>

definition callbacks_ok :: "callback_world \<Rightarrow> bool" where
  "callbacks_ok cw \<longleftrightarrow>
     rg_entries (cw_registry cw) = map (\<lambda>h. (ch_id h, ch_entry h)) (cw_handles cw) \<and>
     distinct (map ch_id (cw_handles cw)) \<and> distinct (map ch_entry (cw_handles cw)) \<and>
     (\<forall>h \<in> set (cw_handles cw). 0 < ch_id h \<and> ch_id h < 2 ^ 64 \<and> ch_entry h < length (rg_heap (cw_registry cw))) \<and>
     rg_next (cw_registry cw) < 2 ^ 64 \<and> \<not> rg_poisoned (cw_registry cw)"

lemma allocate_first:
  "rg_next rg \<noteq> 0 \<Longrightarrow> map_of (rg_entries rg) (rg_next rg) = None \<Longrightarrow>
     allocate_id 1024 rg = (Some (rg_next rg), rg\<lparr>rg_next := (rg_next rg + 1) mod 2 ^ 64\<rparr>)"
proof -
  have "allocate_id 1024 rg = allocate_id (Suc 1023) rg" by (rule arg_cong [where f = "\<lambda>n. allocate_id n rg"]) simp
  then show "rg_next rg \<noteq> 0 \<Longrightarrow> map_of (rg_entries rg) (rg_next rg) = None \<Longrightarrow>
     allocate_id 1024 rg = (Some (rg_next rg), rg\<lparr>rg_next := (rg_next rg + 1) mod 2 ^ 64\<rparr>)"
    by (simp only: allocate_id.simps(2) Let_def if_False de_Morgan_disj not_not simp_thms)
qed

lemma allocate_id_frame:
  "allocate_id tries rg = (r, rg1) \<Longrightarrow> rg_next rg < 2 ^ 64 \<Longrightarrow>
     rg1 = rg\<lparr>rg_next := rg_next rg1\<rparr> \<and> rg_next rg1 < 2 ^ 64 \<and>
     (\<forall>i. r = Some i \<longrightarrow> 0 < i \<and> i < 2 ^ 64 \<and> map_of (rg_entries rg) i = None)"
proof (induction tries arbitrary: rg)
  case (Suc tries)
  let ?raw = "rg_next rg" and ?rg = "rg\<lparr>rg_next := (rg_next rg + 1) mod 2 ^ 64\<rparr>"
  show ?case
  proof (cases "?raw = 0 \<or> map_of (rg_entries rg) ?raw \<noteq> None")
    case True
    then have "allocate_id tries ?rg = (r, rg1)" using Suc.prems(1) by (auto simp: Let_def)
    from Suc.IH [OF this] show ?thesis by simp
  next
    case False
    then have "r = Some ?raw" "rg1 = ?rg" using Suc.prems(1) by (auto simp: Let_def)
    then show ?thesis using False Suc.prems(2) by simp
  qed
qed simp

lemma allocate_id_fields:
  assumes "allocate_id tries rg = (r, rg1)" "rg_next rg < 2 ^ 64"
  shows "rg_entries rg1 = rg_entries rg" "rg_heap rg1 = rg_heap rg" "rg_poisoned rg1 = rg_poisoned rg"
    "rg_runs rg1 = rg_runs rg" "rg_next rg1 < 2 ^ 64"
proof -
  obtain n where "rg1 = rg\<lparr>rg_next := n\<rparr>" "n < 2 ^ 64" using allocate_id_frame [OF assms] by blast
  then show "rg_entries rg1 = rg_entries rg" "rg_heap rg1 = rg_heap rg" "rg_poisoned rg1 = rg_poisoned rg"
    "rg_runs rg1 = rg_runs rg" "rg_next rg1 < 2 ^ 64" by simp_all
qed

lemma allocate_id_fails:
  "allocate_id tries rg = (None, rg1) \<Longrightarrow> rg_next rg < 2 ^ 64 \<Longrightarrow> i < tries \<Longrightarrow>
     (rg_next rg + i) mod 2 ^ 64 = 0 \<or> (rg_next rg + i) mod 2 ^ 64 \<in> fst ` set (rg_entries rg)"
proof (induction tries arbitrary: rg i)
  case (Suc tries)
  let ?rg = "rg\<lparr>rg_next := (rg_next rg + 1) mod 2 ^ 64\<rparr>"
  have taken: "rg_next rg = 0 \<or> map_of (rg_entries rg) (rg_next rg) \<noteq> None"
    using Suc.prems(1) by (auto simp: Let_def split: if_splits)
  then have rest: "allocate_id tries ?rg = (None, rg1)" using Suc.prems(1) by (auto simp: Let_def)
  show ?case
  proof (cases i)
    case 0
    then show ?thesis using taken Suc.prems(2) by (auto simp: map_of_eq_None_iff)
  next
    case (Suc j)
    have "(rg_next ?rg + j) mod 2 ^ 64 = 0 \<or> (rg_next ?rg + j) mod 2 ^ 64 \<in> fst ` set (rg_entries ?rg)"
      by (rule Suc.IH [OF rest]) (use Suc Suc.prems(3) in simp_all)
    moreover have "(rg_next ?rg + j) mod 2 ^ 64 = (rg_next rg + i) mod 2 ^ 64"
      by (simp add: Suc mod_add_left_eq)
    ultimately show ?thesis by simp
  qed
qed simp

lemma allocate_id_succeeds:
  assumes "rg_next rg < 2 ^ 64" "length (rg_entries rg) < 1023"
  shows "\<exists>i rg1. allocate_id 1024 rg = (Some i, rg1)"
proof (rule ccontr)
  assume "\<not> ?thesis"
  then obtain rg1 where none: "allocate_id 1024 rg = (None, rg1)"
    by (cases "allocate_id 1024 rg"; cases "fst (allocate_id 1024 rg)") auto
  let ?f = "\<lambda>i. (rg_next rg + i) mod 2 ^ 64"
  have inj: "inj_on ?f {..<1024}"
  proof (rule inj_onI)
    fix i j :: nat
    assume ij: "i \<in> {..<1024}" "j \<in> {..<1024}" "?f i = ?f j"
    have same: "a = b" if "a \<le> b" "b < 1024" "?f b = ?f a" for a b
    proof -
      have "2 ^ 64 dvd (rg_next rg + b) - (rg_next rg + a)"
        using that(1,3) by (subst mod_eq_dvd_iff_nat [symmetric]) simp_all
      then have "2 ^ 64 dvd b - a" by simp
      moreover have "b - a < 2 ^ 64" using that(2) by simp
      ultimately show ?thesis using that(1) by (metis diff_is_0_eq' le_antisym nat_dvd_not_less neq0_conv zero_less_diff diff_is_0_eq)
    qed
    show "i = j" using same [of i j] same [of j i] ij by (cases "i \<le> j") simp_all
  qed
  have "?f ` {..<1024} \<subseteq> insert 0 (fst ` set (rg_entries rg))"
  proof
    fix x
    assume "x \<in> ?f ` {..<1024}"
    then obtain i where "i < 1024" "x = ?f i" by blast
    with allocate_id_fails [OF none assms(1), of i] show "x \<in> insert 0 (fst ` set (rg_entries rg))" by simp
  qed
  then have "card (?f ` {..<1024}) \<le> card (insert 0 (fst ` set (rg_entries rg)))"
    by (intro card_mono) simp_all
  also have "\<dots> \<le> Suc (card (fst ` set (rg_entries rg)))" by (rule card_insert_le_m1) simp_all
  also have "\<dots> \<le> Suc (length (rg_entries rg))"
    by (metis Suc_le_mono card_image_le card_length dual_order.trans finite_set)
  finally show False using card_image [OF inj] assms(2) by simp
qed

lemma flow_or_panic_frame:
  assumes "flow_or_panic entry result rg = (st, rg1)"
  shows "rg_next rg1 = rg_next rg \<and> rg_entries rg1 = rg_entries rg \<and> length (rg_heap rg1) = length (rg_heap rg) \<and>
    rg_poisoned rg1 = rg_poisoned rg \<and> rg_runs rg1 = rg_runs rg"
  using assms by (auto simp: flow_or_panic_def split: sum.splits callback_flow.splits)

lemma report_event_frame:
  assumes "report_event behaviour entry ev rg = (st, rg1)"
  shows "rg_next rg1 = rg_next rg \<and> rg_entries rg1 = rg_entries rg \<and> length (rg_heap rg1) = length (rg_heap rg) \<and>
    rg_poisoned rg1 = rg_poisoned rg"
  using assms flow_or_panic_frame by (force simp: report_event_def split: if_splits)

lemma callbacks_ok_frame:
  assumes "callbacks_ok cw" "rg_next rg1 = rg_next (cw_registry cw)" "rg_entries rg1 = rg_entries (cw_registry cw)"
    "length (rg_heap rg1) = length (rg_heap (cw_registry cw))" "rg_poisoned rg1 = rg_poisoned (cw_registry cw)"
  shows "callbacks_ok (cw\<lparr>cw_registry := rg1\<rparr>)"
  using assms by (simp add: callbacks_ok_def)

lemma trampoline_ok:
  assumes "callbacks_ok cw"
  shows "callbacks_ok (cw\<lparr>cw_registry := snd (progress_trampoline behaviour i tag arg0 arg1 (cw_registry cw))\<rparr>)"
    and "callbacks_ok (cw\<lparr>cw_registry := snd (string_trampoline behaviour i tag payload (cw_registry cw))\<rparr>)"
proof -
  have same: "callbacks_ok (cw\<lparr>cw_registry := cw_registry cw\<rparr>)" using assms by simp
  have ran: "callbacks_ok (cw\<lparr>cw_registry := snd (report_event behaviour entry ev (cw_registry cw))\<rparr>)" for entry ev
    using callbacks_ok_frame [OF assms] report_event_frame by (metis prod.collapse)
  show "callbacks_ok (cw\<lparr>cw_registry := snd (progress_trampoline behaviour i tag arg0 arg1 (cw_registry cw))\<rparr>)"
    using same ran by (simp add: progress_trampoline_def split: option.splits)
  show "callbacks_ok (cw\<lparr>cw_registry := snd (string_trampoline behaviour i tag payload (cw_registry cw))\<rparr>)"
    using same ran by (simp add: string_trampoline_def split: option.splits)
qed

lemma filter_not_nth:
  "i < length xs \<Longrightarrow> distinct (map f xs) \<Longrightarrow> filter (\<lambda>x. f x \<noteq> f (xs ! i)) xs = remove_at i xs"
proof (induction xs arbitrary: i)
  case (Cons x xs)
  show ?case
  proof (cases i)
    case 0
    then show ?thesis using Cons.prems(2) by (auto simp: remove_at_def filter_id_conv image_iff)
  next
    case (Suc j)
    then have "f (xs ! j) \<in> set (map f xs)" using Cons.prems(1) by simp
    then have "f x \<noteq> f (xs ! j)" using Cons.prems(2) by auto
    with Suc Cons show ?thesis by (simp add: remove_at_def)
  qed
qed simp

lemma register_ok:
  assumes "callbacks_ok cw" "register_entry kind (cw_registry cw) = (Inr h, rg)"
  shows "callbacks_ok (cw\<lparr>cw_registry := rg, cw_handles := h # cw_handles cw\<rparr>) \<and> 0 < ch_id h \<and>
    ch_id h \<notin> ch_id ` set (cw_handles cw) \<and> rg_runs rg = rg_runs (cw_registry cw) \<and>
    kb_kind (rg_heap rg ! ch_entry h) = kind \<and> last_callback_error h rg = None"
proof -
  let ?rg = "cw_registry cw"
  have next_bound: "rg_next ?rg < 2 ^ 64" and pois: "\<not> rg_poisoned ?rg" using assms(1) by (simp_all add: callbacks_ok_def)
  obtain i rg1 where al: "allocate_id 1024 ?rg = (Some i, rg1)"
    using assms(2) pois by (auto simp: register_entry_def split: prod.splits option.splits)
  have frame: "0 < i" "i < 2 ^ 64" "map_of (rg_entries ?rg) i = None"
    using allocate_id_frame [OF al next_bound] by blast+
  note fields = allocate_id_fields [OF al next_bound]
  have h: "h = \<lparr>ch_id = i, ch_entry = length (rg_heap ?rg)\<rparr>"
    "rg = rg1\<lparr>rg_entries := (i, length (rg_heap ?rg)) # rg_entries ?rg,
       rg_heap := rg_heap ?rg @ [\<lparr>kb_kind = kind, kb_last_error = None\<rparr>]\<rparr>"
    using assms(2) pois by (auto simp: register_entry_def al fields)
  have ok: "rg_entries ?rg = map (\<lambda>h. (ch_id h, ch_entry h)) (cw_handles cw)"
    "distinct (map ch_id (cw_handles cw))" "distinct (map ch_entry (cw_handles cw))"
    "\<forall>h \<in> set (cw_handles cw). 0 < ch_id h \<and> ch_id h < 2 ^ 64 \<and> ch_entry h < length (rg_heap ?rg)"
    using assms(1) unfolding callbacks_ok_def by blast+
  have fresh: "i \<notin> ch_id ` set (cw_handles cw)"
    using frame(3) by (simp add: ok(1) map_of_eq_None_iff image_image)
  have new_entry: "length (rg_heap ?rg) \<notin> ch_entry ` set (cw_handles cw)" using ok(4) by auto
  have old_bounds: "\<forall>h \<in> set (cw_handles cw). 0 < ch_id h \<and> ch_id h < 2 ^ 64 \<and> ch_entry h < Suc (length (rg_heap ?rg))"
    using ok(4) less_SucI by blast
  have "callbacks_ok (cw\<lparr>cw_registry := rg, cw_handles := h # cw_handles cw\<rparr>)"
    using ok(1-3) old_bounds fresh new_entry frame(1,2) pois fields(5) by (simp add: callbacks_ok_def h fields)
  then show ?thesis using fresh frame(1) by (simp add: h fields last_callback_error_def)
qed

lemma apply_callback_op_ok: "callbacks_ok cw \<Longrightarrow> callbacks_ok (apply_callback_op behaviour op cw)"
proof (cases op)
  case (OpRegister kind)
  assume ok: "callbacks_ok cw"
  obtain r rg where r: "register_entry kind (cw_registry cw) = (r, rg)" by fastforce
  show ?thesis
  proof (cases r)
    case (Inl e)
    have nb: "rg_next (cw_registry cw) < 2 ^ 64" and pois: "\<not> rg_poisoned (cw_registry cw)"
      using ok by (simp_all add: callbacks_ok_def)
    then have "allocate_id 1024 (cw_registry cw) = (None, rg)"
      using r Inl by (auto simp: register_entry_def split: prod.splits option.splits)
    note same = allocate_id_fields [OF this nb]
    with ok show ?thesis by (simp add: OpRegister r Inl callbacks_ok_def)
  next
    case (Inr h)
    with register_ok [OF ok] r show ?thesis by (simp add: OpRegister)
  qed
next
  case (OpDrop i)
  assume ok: "callbacks_ok cw"
  show ?thesis
  proof (cases "i < length (cw_handles cw)")
    case True
    let ?h = "cw_handles cw ! i"
    have d: "distinct (map ch_id (cw_handles cw))" "distinct (map ch_entry (cw_handles cw))" "\<not> rg_poisoned (cw_registry cw)"
      "rg_entries (cw_registry cw) = map (\<lambda>h. (ch_id h, ch_entry h)) (cw_handles cw)"
      using ok by (simp_all add: callbacks_ok_def)
    have "rg_entries (drop_handle ?h (cw_registry cw)) =
        map (\<lambda>h. (ch_id h, ch_entry h)) (filter (\<lambda>h. ch_id h \<noteq> ch_id ?h) (cw_handles cw))"
      by (simp add: drop_handle_def d(3,4) filter_map comp_def)
    also have "\<dots> = map (\<lambda>h. (ch_id h, ch_entry h)) (remove_at i (cw_handles cw))"
      by (simp add: filter_not_nth [OF True d(1)])
    finally have e: "rg_entries (drop_handle ?h (cw_registry cw)) =
        map (\<lambda>h. (ch_id h, ch_entry h)) (remove_at i (cw_handles cw))" .
    have rest: "rg_next (drop_handle ?h (cw_registry cw)) = rg_next (cw_registry cw)"
      "rg_heap (drop_handle ?h (cw_registry cw)) = rg_heap (cw_registry cw)"
      "rg_poisoned (drop_handle ?h (cw_registry cw)) = rg_poisoned (cw_registry cw)"
      by (simp_all add: drop_handle_def)
    show ?thesis
      using ok True e rest set_remove_at_subset [of i "cw_handles cw"] distinct_remove_at [OF d(1), of i]
        distinct_remove_at [OF d(2), of i]
      by (auto simp: OpDrop callbacks_ok_def map_remove_at)
  qed (use ok in \<open>simp add: OpDrop\<close>)
next
  case (OpProgress i tag arg0 arg1)
  then show "callbacks_ok cw \<Longrightarrow> ?thesis" using trampoline_ok(1) by simp
next
  case (OpString i tag payload)
  then show "callbacks_ok cw \<Longrightarrow> ?thesis" using trampoline_ok(2) by simp
qed

lemma run_callbacks_keeps_ok: "callbacks_ok cw \<Longrightarrow> callbacks_ok (run_callbacks ops cw)"
  by (induction ops arbitrary: cw) (auto simp: run_callbacks_def apply_callback_op_ok)

lemma run_callbacks_ok: "callbacks_ok (run_callbacks ops callback_world_new)"
  by (rule run_callbacks_keeps_ok) (simp add: callbacks_ok_def callback_world_new_def registry_new_def)

section \<open>Properties\<close>

lemma registered_entry_live:
  assumes "callbacks_ok cw"
  shows "registered_entry i (cw_registry cw) = Some e \<longleftrightarrow> (\<exists>h \<in> set (cw_handles cw). ch_id h = i \<and> ch_entry h = e)"
proof -
  have entries: "rg_entries (cw_registry cw) = map (\<lambda>h. (ch_id h, ch_entry h)) (cw_handles cw)"
    "distinct (map ch_id (cw_handles cw))" "\<not> rg_poisoned (cw_registry cw)"
    using assms by (simp_all add: callbacks_ok_def)
  have "distinct (map fst (rg_entries (cw_registry cw)))" using entries by (simp add: comp_def)
  then show ?thesis using entries by (auto simp: registered_entry_def image_iff)
qed

lemma report_event_calls:
  assumes "e < length (rg_heap rg)" "kb_kind (rg_heap rg ! e) = event_kind ev" "report_event behaviour e ev rg = (st, rg1)"
  shows "rg_runs rg1 = rg_runs rg @ [(e, ev)] \<and>
    st = (case behaviour e ev of Inl p \<Rightarrow> CsPanic | Inr FlowContinue \<Rightarrow> CsOk | Inr FlowStop \<Rightarrow> CsStopped) \<and>
    (\<forall>p. behaviour e ev = Inl p \<longrightarrow> kb_last_error (rg_heap rg1 ! e) = Some (callback_panic p))"
  using assms by (auto simp: report_event_def flow_or_panic_def closure_result_def split: sum.splits callback_flow.splits)

lemma decode_recorded_panic:
  assumes "st = CsPanic" "kb_last_error (rg_heap rg ! ch_entry h) = Some e"
  shows "decode_result from_lean h rg (except_into_lean (small_into_lean W8) id (Inl (int (status_as_abi st)))) = Inl e"
proof -
  have "small_from_lean False W8 (small_into_lean W8 2) = Inr 2" by (rule small_codec.round_trip) (simp add: int_fits_def)
  then have "except_from_lean (small_from_lean False W8) from_lean (except_into_lean (small_into_lean W8) id (Inl 2)) = Inr (Inl 2)"
    by (simp add: except_into_lean_def except_from_lean_def decode_simps)
  then show ?thesis
    by (simp add: assms decode_result_def progress_outcome_def progress_status_to_result_def status_from_abi_def
      last_callback_error_def decoded_bind_def)
qed


definition sample_callbacks :: "(callback_op \<times> behaviour) list" where
  "sample_callbacks =
     [(OpRegister KindProgress, \<lambda>e ev. Inr FlowContinue), (OpRegister KindString, \<lambda>e ev. Inr FlowContinue),
      (OpProgress 1 0 3 9, \<lambda>e ev. Inr FlowContinue), (OpDrop 0, \<lambda>e ev. Inr FlowContinue)]"

definition sample_world :: callback_world where
  "sample_world = run_callbacks sample_callbacks callback_world_new"

lemma sample_world_eval:
  "sample_world = \<lparr>cw_registry = \<lparr>rg_next = 3, rg_entries = [(1, 0)],
     rg_heap = [\<lparr>kb_kind = KindProgress, kb_last_error = None\<rparr>, \<lparr>kb_kind = KindString, kb_last_error = None\<rparr>],
     rg_poisoned = False, rg_runs = [(0, ProgressTick 3 9)]\<rparr>, cw_handles = [\<lparr>ch_id = 1, ch_entry = 0\<rparr>]\<rparr>"
  by (simp add: sample_world_def sample_callbacks_def run_callbacks_def callback_world_new_def registry_new_def
    register_entry_def allocate_first remove_at_def drop_handle_def progress_trampoline_def
    PAYLOAD_PROGRESS_TICK_def registered_entry_def report_event_def event_kind_def flow_or_panic_def closure_result_def)


text \<open>registration always succeeds below the limit.  After any history, a registration succeeds when fewer than 1023
  handles are live, however far the 64-bit counter has wrapped: 1024 consecutive candidates cannot all be zero or taken.
  The new id is nonzero, no live handle has it, and the new entry has its kind and no recorded error.
\<close>
theorem registration_succeeds:
  assumes history: "cw = run_callbacks ops (callback_world_new\<lparr>cw_registry := registry_new\<lparr>rg_next := start\<rparr>\<rparr>)"
    and counter: "start < 2 ^ 64" and few: "length (cw_handles cw) < 1023"
  shows "\<exists>h rg. register_entry kind (cw_registry cw) = (Inr h, rg) \<and> 0 < ch_id h \<and> ch_id h < 2 ^ 64 \<and>
    ch_id h \<notin> ch_id ` set (cw_handles cw) \<and> kb_kind (rg_heap rg ! ch_entry h) = kind \<and>
    last_callback_error h rg = None \<and> rg_runs rg = rg_runs (cw_registry cw)"
proof -
  have ok: "callbacks_ok cw"
    unfolding history by (rule run_callbacks_keeps_ok) (simp add: callbacks_ok_def callback_world_new_def registry_new_def counter [simplified])
  then have next_bound: "rg_next (cw_registry cw) < 2 ^ 64" and pois: "\<not> rg_poisoned (cw_registry cw)"
    and "length (rg_entries (cw_registry cw)) < 1023"
    using few by (simp_all add: callbacks_ok_def)
  then obtain i rg1 where al: "allocate_id 1024 (cw_registry cw) = (Some i, rg1)" using allocate_id_succeeds by blast
  then obtain h rg where reg: "register_entry kind (cw_registry cw) = (Inr h, rg)" by (simp add: register_entry_def pois)
  have "ch_id h < 2 ^ 64" using register_ok [OF ok reg] by (simp add: callbacks_ok_def)
  with register_ok [OF ok reg] reg show ?thesis by blast
qed

lemma registration_succeeds_witness:
  "\<exists>h rg. register_entry KindString (registry_new\<lparr>rg_next := 0\<rparr>) = (Inr h, rg) \<and> 0 < ch_id h"
  using registration_succeeds [of "callback_world_new\<lparr>cw_registry := registry_new\<lparr>rg_next := 0\<rparr>\<rparr>" "[]" 0 KindString]
  by (auto simp: run_callbacks_def callback_world_new_def)

end
