(* ===== verification/Host_Results.thy ===== *)
theory Host_Results
  imports Lean_Abi
begin

text \<open>
  Results that host shims hand back (\<open>elaboration/diagnostic.rs\<close>, \<open>elaboration/failure.rs\<close>,
  \<open>meta/response.rs\<close>, \<open>evidence/*.rs\<close> of \<open>lean-rs-host\<close>): each decoder as a function on Lean objects.

  Beside each decoder stands the layout of the Lean structure it reads (declared in
  \<open>shims/lean-rs-host-shims\<close>): object fields in the order of the declaration, then the scalar fields, the
  64-bit ones before the bytes, and a constructor without fields as a boxed tag.  Two facts hold of every decoder: it
  is honest (its answer does not depend on memory behind the object, and a failure is a conversion error), and it
  reads back what the layout writes.
\<close>

section \<open>Reading\<close>

type_synonym scalar_memory = "lobj \<Rightarrow> nat \<Rightarrow> nat"

definition honest_read :: "(scalar_memory \<Rightarrow> 'a decoded) \<Rightarrow> bool" where
  "honest_read r \<longleftrightarrow> (\<forall>mem mem'. r mem = r mem') \<and> (\<forall>mem e. r mem = Inl e \<longrightarrow> conversion_failure e)"

named_theorems decoder_reads "decoders that read honestly"
named_theorems layout_reads "decoders applied to layouts"

locale shim_result =
  fixes dec :: "scalar_memory \<Rightarrow> lobj \<Rightarrow> 'a decoded" and layout :: "'a \<Rightarrow> lobj" and fits :: "'a \<Rightarrow> bool"
  assumes honest: "honest_read (\<lambda>mem. dec mem v)"
    and reads_layout: "fits x \<Longrightarrow> dec mem (layout x) = Inr x"
begin

lemma inside: "dec mem v = dec mem' v"
  using honest by (auto simp: honest_read_def)

lemma rejects: "dec mem v = Inl e \<Longrightarrow> conversion_failure e"
  using honest by (auto simp: honest_read_def)

lemma layout_unambiguous:
  assumes "fits x" "fits y" "layout x = layout y"
  shows "x = y"
proof -
  have "dec undefined (layout x) = Inr x" "dec undefined (layout x) = Inr y"
    by (rule reads_layout [OF assms(1)], subst assms(3), rule reads_layout [OF assms(2)])
  then show ?thesis by simp
qed

end

definition u32_from_lean :: "lobj \<Rightarrow> nat decoded" where
  "u32_from_lean v = decoded_map nat (small_from_lean False W32 v)"

definition nat_try_to_usize :: "lobj \<Rightarrow> nat decoded" where
  "nat_try_to_usize v =
     (case v of
        Boxed n \<Rightarrow> Inr n
      | _ \<Rightarrow> Inl (conversion_error (''expected Lean Nat (scalar-fitting), found object with tag '' @ decimal (obj_tag v))))"

definition bounded_string_from_lean :: "lobj \<Rightarrow> string decoded" where
  "bounded_string_from_lean v = decoded_map bound_message (string_from_lean v)"

definition handle_from_lean :: "lobj \<Rightarrow> lobj decoded" where
  "handle_from_lean v = Inr v"

text \<open>\<open>bool_tail\<close> of \<open>process/query.rs\<close>: the constructor's tag is checked, its object fields are not.\<close>

definition bool_tail :: "scalar_memory \<Rightarrow> lobj \<Rightarrow> nat \<Rightarrow> string \<Rightarrow> bool decoded" where
  "bool_tail mem v offset label =
     decoded_bind (ctor_view_new v) (\<lambda>cv.
       if cv_tag cv \<noteq> 0
       then Inl (conversion_error (''expected Lean '' @ label @ '' constructor tag 0, found tag '' @ decimal (cv_tag cv)))
       else view_bool mem offset label cv)"

fun byte_of_bool :: "bool \<Rightarrow> nat" where
  "byte_of_bool False = 0"
| "byte_of_bool True = 1"

lemma decoded_bind_simps [simp]: "decoded_bind (Inr x) f = f x" "decoded_bind (Inl e) f = Inl e"
  by (simp_all add: decoded_bind_def)

lemma honest_readI:
  "(\<And>mem mem'. r mem = r mem') \<Longrightarrow> (\<And>mem e. r mem = Inl e \<Longrightarrow> conversion_failure e) \<Longrightarrow> honest_read r"
  unfolding honest_read_def by blast

lemma honest_const [decoder_reads]: "honest_read (\<lambda>mem. Inr x)" "honest_read (\<lambda>mem. Inl (conversion_error s))"
  unfolding honest_read_def conversion_failure_def by auto

lemma honest_bind [decoder_reads]:
  assumes "honest_read r" "\<And>x. (\<exists>mem :: scalar_memory. r mem = Inr x) \<Longrightarrow> honest_read (\<lambda>mem. f mem x)"
  shows "honest_read (\<lambda>mem. decoded_bind (r mem) (\<lambda>x. f mem x))"
proof -
  have same: "r mem = r mem'" and fails: "r mem = Inl e \<Longrightarrow> conversion_failure e" for mem mem' e
    using assms(1) by (auto simp: honest_read_def)
  show ?thesis
  proof (cases "r (\<lambda>_ _. 0)")
    case (Inl e)
    then have "r mem = Inl e" for mem using same by metis
    then show ?thesis using fails by (simp add: honest_read_def)
  next
    case (Inr x)
    then have "r mem = Inr x" for mem using same by metis
    then show ?thesis using assms(2) [of x] by auto
  qed
qed

lemma honest_if [decoder_reads]:
  "honest_read a \<Longrightarrow> honest_read b \<Longrightarrow> honest_read (\<lambda>mem. if P then a mem else b mem)"
  by (cases P) simp_all

lemma honest_plain: "(\<And>e. r = Inl e \<Longrightarrow> conversion_failure e) \<Longrightarrow> honest_read (\<lambda>mem. r)"
  by (simp add: honest_read_def)

lemma view_of_shape: "ctor_shape v t n label = Inr cv \<Longrightarrow> ctor_view_new v = Inr cv"
  by (auto simp: ctor_shape_def require_shape_def require_tag_def decoded_bind_def split: sum.splits if_splits)

lemma view_fails:
  "view_uint8 mem i label cv = Inl e \<Longrightarrow> conversion_failure e"
  "view_uint64 mem i label cv = Inl e \<Longrightarrow> conversion_failure e"
  "view_bool mem i label cv = Inl e \<Longrightarrow> conversion_failure e"
  by (auto simp: view_uint8_def view_uint64_def view_bool_def require_scalar_tail_def decoded_bind_def conversion_failure_def
      split: sum.splits if_splits)

lemma honest_view:
  assumes "ctor_view_new v = Inr cv"
  shows "honest_read (\<lambda>mem. view_uint8 mem i label cv)" "honest_read (\<lambda>mem. view_uint64 mem i label cv)"
    "honest_read (\<lambda>mem. view_bool mem i label cv)"
  by (rule honest_readI, rule view_stays_inside [OF assms], erule view_fails)+

lemma honest_shape_view [decoder_reads]:
  assumes "\<exists>mem :: scalar_memory. ctor_shape v t n l = Inr cv"
  shows "honest_read (\<lambda>mem. view_uint8 mem i label cv)" "honest_read (\<lambda>mem. view_uint64 mem i label cv)"
    "honest_read (\<lambda>mem. view_bool mem i label cv)"
  using honest_view view_of_shape assms by blast+

lemma shape_fails: "ctor_shape v t n label = Inl e \<Longrightarrow> conversion_failure e"
  by (auto simp: decode_simps split: lobj.splits if_splits)

lemma sum_tag_fails: "sum_tag v = Inl e \<Longrightarrow> conversion_failure e"
  by (auto simp: sum_tag_def decode_simps split: lobj.splits if_splits)

lemma string_fails: "string_from_lean v = Inl e \<Longrightarrow> conversion_failure e"
  by (auto simp: string_from_lean_def require_string_def decode_simps split: lobj.splits if_splits)

lemma small_fails: "small_from_lean s w v = Inl e \<Longrightarrow> conversion_failure e"
  by (rule small_codec.fails_as_conversion)

lemma nat_fails: "nat_try_to_u64 v = Inl e \<Longrightarrow> conversion_failure e"
  by (auto simp: nat_try_to_u64_def conversion_failure_def split: lobj.splits)

lemma payload_fails: "scalar_payload v label = Inl e \<Longrightarrow> conversion_failure e"
  by (auto simp: scalar_payload_def conversion_failure_def split: lobj.splits)

lemma honest_atoms [decoder_reads]:
  "honest_read (\<lambda>mem. scalar_payload v label)"
  "honest_read (\<lambda>mem. ctor_shape v t n label)" "honest_read (\<lambda>mem. take_ctor_objects v n t label)"
  "honest_read (\<lambda>mem. sum_tag v)" "honest_read (\<lambda>mem. string_from_lean v)" "honest_read (\<lambda>mem. small_from_lean s w v)"
  "honest_read (\<lambda>mem. nat_try_to_u64 v)" "honest_read (\<lambda>mem. handle_from_lean v)" "honest_read (\<lambda>mem. ctor_tag v)"
  "honest_read (\<lambda>mem. ctor_view_new v)" "honest_read (\<lambda>mem. bool_from_lean v)"
  using shape_fails take_ctor_fails sum_tag_fails string_fails small_fails nat_fails ctor_tag_fails
    bool_codec.fails_as_conversion payload_fails
  by (auto intro!: honest_plain simp: handle_from_lean_def ctor_view_new_def conversion_failure_def split: lobj.splits)

lemma honest_map [decoder_reads]: "honest_read r \<Longrightarrow> honest_read (\<lambda>mem. decoded_map f (r mem))"
  unfolding decoded_map_def by (intro decoder_reads)

lemma honest_u32 [decoder_reads]: "honest_read (\<lambda>mem. u32_from_lean v)" "honest_read (\<lambda>mem. bounded_string_from_lean v)"
  unfolding u32_from_lean_def bounded_string_from_lean_def by (intro decoder_reads)+

lemma honest_usize [decoder_reads]: "honest_read (\<lambda>mem. nat_try_to_usize v)"
  by (rule honest_plain) (auto simp: nat_try_to_usize_def conversion_failure_def split: lobj.splits)

lemma honest_bool_tail [decoder_reads]: "honest_read (\<lambda>mem. bool_tail mem v i label)"
  unfolding bool_tail_def
proof (rule honest_bind)
  fix cv
  assume "\<exists>mem :: scalar_memory. ctor_view_new v = Inr cv"
  then have "honest_read (\<lambda>mem. view_bool mem i label cv)" using honest_view(3) by blast
  then show "honest_read (\<lambda>mem. if cv_tag cv \<noteq> 0
       then Inl (conversion_error (''expected Lean '' @ label @ '' constructor tag 0, found tag '' @ decimal (cv_tag cv)))
       else view_bool mem i label cv)"
    by (intro honest_if honest_const)
qed (rule decoder_reads)

lemma honest_each:
  assumes "\<And>v. honest_read (\<lambda>mem. f mem v)"
  shows "honest_read (\<lambda>mem. decode_each (f mem) vs)"
proof (induction vs)
  case (Cons v vs)
  show ?case unfolding decode_each.simps by (intro decoder_reads assms Cons.IH)
qed (simp add: decoder_reads)

lemma honest_array [decoder_reads]:
  assumes "\<And>v. honest_read (\<lambda>mem. f mem v)"
  shows "honest_read (\<lambda>mem. array_from_lean (f mem) v)"
  using honest_each [OF assms]
  by (cases v) (simp_all add: array_from_lean_def wrong_kind_def wrong_kind_scalar_def honest_const)

lemma honest_option [decoder_reads]:
  assumes "\<And>v. honest_read (\<lambda>mem. f mem v)"
  shows "honest_read (\<lambda>mem. option_from_lean (f mem) v)"
proof (cases v)
  case (Ctor tag objs tail)
  show ?thesis unfolding option_from_lean_def Ctor lobj.case take_one_def by (intro decoder_reads assms)
qed (simp_all add: option_from_lean_def honest_const honest_if)

section \<open>Reading layouts\<close>

lemma take_layout [layout_reads]:
  "t < 256 \<Longrightarrow> length objs = n \<Longrightarrow> take_ctor_objects (Ctor t objs tail) n t label = Inr objs"
  by (simp add: decode_simps)

lemma shape_layout [layout_reads]:
  "t < 256 \<Longrightarrow> length objs = n \<Longrightarrow> ctor_shape (Ctor t objs tail) t n label =
     Inr \<lparr>cv_obj = Ctor t objs tail, cv_tag = t, cv_num_object_fields = n, cv_scalar_tail_size = length tail\<rparr>"
  by (simp add: decode_simps)

lemma view_layout [layout_reads]:
  assumes "cv_obj cv = Ctor t objs tail" "cv_scalar_tail_size cv = length tail"
  shows "i < length tail \<Longrightarrow> view_uint8 mem i label cv = Inr (tail ! i)"
    and "i < length tail \<Longrightarrow> tail ! i = byte_of_bool b \<Longrightarrow> view_bool mem i label cv = Inr b"
  using assms by (cases b; simp add: view_bool_def view_uint8_def require_scalar_tail_def get_uint8_def)+

lemma view_word_layout [layout_reads]:
  assumes "cv_obj cv = Ctor t objs tail" "cv_scalar_tail_size cv = length tail" "i + 8 \<le> length tail"
  shows "view_uint64 mem i label cv = Inr (from_le_bytes (take 8 (drop i tail)))"
proof -
  have "map (\<lambda>k. get_uint8 mem (cv_obj cv) (i + k)) [0..<8] = map (\<lambda>k. take 8 (drop i tail) ! k) [0..<8]"
    using assms by (intro map_cong) (auto simp: get_uint8_def)
  also have "\<dots> = take 8 (drop i tail)" using map_nth [of "take 8 (drop i tail)"] assms(3) by simp
  finally show ?thesis using assms by (simp add: view_uint64_def require_scalar_tail_def get_uint64_def)
qed

lemma boxed_word_layout [layout_reads]: "n < 2 ^ 64 \<Longrightarrow> from_le_bytes (le_bytes 8 n) = n"
  by (simp add: from_le_bytes_inverse)

lemma bool_tail_layout [layout_reads]:
  "i < length tail \<Longrightarrow> tail ! i = byte_of_bool b \<Longrightarrow> bool_tail mem (Ctor 0 objs tail) i label = Inr b"
  by (simp add: bool_tail_def ctor_view_new_def view_layout)

lemma sum_tag_layout [layout_reads]: "t < 256 \<Longrightarrow> sum_tag (Ctor t objs tail) = Inr t" "t < 256 \<Longrightarrow> sum_tag (Boxed t) = Inr t"
  by (simp_all add: sum_tag_def ctor_view_new_def)

lemma string_layout [layout_reads]: "utf8_valid s \<Longrightarrow> string_from_lean (LString s) = Inr s"
  by (simp add: string_from_lean_def require_string_def)

lemma bounded_string_layout [layout_reads]:
  "utf8_valid s \<Longrightarrow> length s \<le> LEAN_ERROR_MESSAGE_LIMIT \<Longrightarrow> bounded_string_from_lean (LString s) = Inr s"
  by (simp add: bounded_string_from_lean_def string_layout decoded_map_def)

lemma nat_layout_boxed: "n < 2 ^ 63 \<Longrightarrow> nat_from_u64 n = Boxed n"
  by (simp add: nat_from_u64_def LEAN_MAX_SMALL_NAT_def lean_box_def)

lemma nat_layout [layout_reads]:
  "n < 2 ^ 63 \<Longrightarrow> nat_try_to_u64 (nat_from_u64 n) = Inr n" "n < 2 ^ 63 \<Longrightarrow> nat_try_to_usize (nat_from_u64 n) = Inr n"
  by (simp_all add: nat_layout_boxed nat_try_to_u64_def nat_try_to_usize_def)

lemma u32_layout [layout_reads]:
  assumes "n < 2 ^ 32"
  shows "u32_from_lean (nat_from_u64 n) = Inr n"
proof -
  have "n < 2 ^ 63" using assms by simp
  then show ?thesis
    using assms by (simp add: nat_layout_boxed u32_from_lean_def small_from_lean_def require_scalar_def decoded_map_def)
qed

lemma option_layout [layout_reads]:
  "\<forall>x \<in> set_option ox. f (g x) = Inr x \<Longrightarrow> option_from_lean f (option_into_lean g ox) = Inr ox"
  by (cases ox) (simp_all add: option_from_lean_def option_into_lean_def lean_box_def decode_simps)

lemma array_layout [layout_reads]:
  assumes "\<forall>x \<in> set xs. f (g x) = Inr x"
  shows "array_from_lean f (array_into_lean g xs) = Inr xs"
proof -
  have "decode_each f (map g xs) = Inr xs" using assms by (induction xs) simp_all
  then show ?thesis by (simp add: array_from_lean_def array_into_lean_def)
qed

lemma handle_layout [layout_reads]: "handle_from_lean v = Inr v"
  by (simp add: handle_from_lean_def)

section \<open>Diagnostics\<close>

definition decode_nat_u32 :: "string \<Rightarrow> lobj \<Rightarrow> nat decoded" where
  "decode_nat_u32 label v =
     decoded_bind (nat_try_to_u64 v) (\<lambda>raw.
       if raw < 2 ^ 32 then Inr raw
       else Inl (conversion_error (label @ '' = '' @ decimal raw @ '' exceeds u32 range'')))"

definition decode_option_nat_u32 :: "string \<Rightarrow> lobj \<Rightarrow> nat option decoded" where
  "decode_option_nat_u32 label v =
     (if is_scalar v
      then decoded_bind (scalar_payload v label) (\<lambda>payload.
        if payload = 0 then Inr None
        else Inl (conversion_error (label @ '': expected Option.none (scalar tag 0), found scalar payload '' @
          decimal payload)))
      else decoded_bind (ctor_tag v) (\<lambda>tag.
        if tag \<noteq> 1
        then Inl (conversion_error (label @ '': expected Option.some ctor (tag 1), found heap tag '' @ decimal tag))
        else decoded_bind (take_ctor_objects v 1 1 ''Option Nat'') (\<lambda>os.
          decoded_bind (decode_nat_u32 label (os ! 0)) (\<lambda>n. Inr (Some n)))))"

lemma honest_nat_u32 [decoder_reads]: "honest_read (\<lambda>mem. decode_nat_u32 label v)"
  unfolding decode_nat_u32_def by (intro decoder_reads)

lemma honest_option_nat_u32 [decoder_reads]: "honest_read (\<lambda>mem. decode_option_nat_u32 label v)"
  unfolding decode_option_nat_u32_def by (intro decoder_reads)

lemma nat_u32_layout [layout_reads]: "n < 2 ^ 32 \<Longrightarrow> decode_nat_u32 label (nat_from_u64 n) = Inr n"
  by (simp add: decode_nat_u32_def nat_layout)

lemma option_nat_u32_layout [layout_reads]:
  "(\<forall>n \<in> set_option ox. n < 2 ^ 32) \<Longrightarrow> decode_option_nat_u32 label (option_into_lean nat_from_u64 ox) = Inr ox"
  by (cases ox) (simp_all add: decode_option_nat_u32_def option_into_lean_def lean_box_def alloc_ctor_with_objects_def
    ctor_tag_def ctor_view_new_def scalar_payload_def layout_reads)

definition truncation_from_byte :: "nat \<Rightarrow> bool decoded" where
  "truncation_from_byte b =
     (if b = 0 then Inr False else if b = 1 then Inr True
      else Inl (conversion_error (''Lean Truncation tag '' @ decimal b @ '' is not in {0=complete, 1=truncated}'')))"

lemma honest_truncation [decoder_reads]: "honest_read (\<lambda>mem. truncation_from_byte b)"
  unfolding truncation_from_byte_def by (intro decoder_reads)

lemma truncation_layout [layout_reads]: "truncation_from_byte (byte_of_bool b) = Inr b"
  by (cases b) (simp_all add: truncation_from_byte_def)

datatype lean_severity = SeverityInfo | SeverityWarning | SeverityError

definition lean_severity_from_scalar :: "nat \<Rightarrow> lean_severity decoded" where
  "lean_severity_from_scalar b =
     (if b = 0 then Inr SeverityInfo
      else if b = 1 then Inr SeverityWarning
      else if b = 2 then Inr SeverityError
      else Inl (conversion_error (''Lean Severity tag '' @ decimal b @ '' is not in {0=info, 1=warning, 2=error}'')))"

fun lean_severity_byte :: "lean_severity \<Rightarrow> nat" where
  "lean_severity_byte SeverityInfo = 0"
| "lean_severity_byte SeverityWarning = 1"
| "lean_severity_byte SeverityError = 2"

lemma lean_severity_byte_read [layout_reads]: "lean_severity_from_scalar (lean_severity_byte x) = Inr x" "lean_severity_byte x < 256"
  by (cases x; simp add: lean_severity_from_scalar_def)+

lemma lean_severity_scalar_read [decoder_reads]: "honest_read (\<lambda>mem. lean_severity_from_scalar b)"
  unfolding lean_severity_from_scalar_def by (intro decoder_reads)

record lean_position =
  lp_line :: nat
  lp_column :: nat
  lp_end_line :: "nat option"
  lp_end_column :: "nat option"

definition lean_position_from_lean :: "lobj \<Rightarrow> lean_position decoded" where
  "lean_position_from_lean v =
     decoded_bind (take_ctor_objects v 4 0 ''DiagnosticPos'') (\<lambda>os.
     decoded_bind (decode_nat_u32 ''DiagnosticPos.line'' (os ! 0)) (\<lambda>line.
     decoded_bind (decode_nat_u32 ''DiagnosticPos.column'' (os ! 1)) (\<lambda>column.
     decoded_bind (decode_option_nat_u32 ''DiagnosticPos.endLine'' (os ! 2)) (\<lambda>end_line.
     decoded_bind (decode_option_nat_u32 ''DiagnosticPos.endColumn'' (os ! 3)) (\<lambda>end_column.
     Inr \<lparr>lp_line = line, lp_column = column, lp_end_line = end_line, lp_end_column = end_column\<rparr>)))))"

definition lean_position_layout :: "lean_position \<Rightarrow> lobj" where
  "lean_position_layout x =
     Ctor 0 [nat_from_u64 (lp_line x),
       nat_from_u64 (lp_column x),
       option_into_lean nat_from_u64 (lp_end_line x),
       option_into_lean nat_from_u64 (lp_end_column x)]
       ([])"

definition lean_position_fits :: "lean_position \<Rightarrow> bool" where
  "lean_position_fits x \<longleftrightarrow>
     (lp_line x) < 2 ^ 32 \<and>
     (lp_column x) < 2 ^ 32 \<and>
     (\<forall>n \<in> set_option (lp_end_line x). n < 2 ^ 32) \<and>
     (\<forall>n \<in> set_option (lp_end_column x). n < 2 ^ 32)"

lemma lean_position_reads [decoder_reads]: "honest_read (\<lambda>mem. lean_position_from_lean v)"
  unfolding lean_position_from_lean_def by (intro decoder_reads)

lemma lean_position_layout_read [layout_reads]: "lean_position_fits x \<Longrightarrow> lean_position_from_lean (lean_position_layout x) = Inr x"
  by (cases x) (simp add: lean_position_from_lean_def lean_position_layout_def lean_position_fits_def layout_reads)

record lean_diagnostic =
  ld_severity :: lean_severity
  ld_message :: string
  ld_position :: "lean_position option"
  ld_file_label :: string

definition lean_diagnostic_from_lean :: "scalar_memory \<Rightarrow> lobj \<Rightarrow> lean_diagnostic decoded" where
  "lean_diagnostic_from_lean mem v =
     decoded_bind (ctor_shape v 0 3 ''Diagnostic'') (\<lambda>cv.
     decoded_bind (view_uint8 mem 0 ''Diagnostic.severity'' cv) (\<lambda>severity_byte.
     decoded_bind (take_ctor_objects v 3 0 ''Diagnostic'') (\<lambda>os.
     decoded_bind (lean_severity_from_scalar severity_byte) (\<lambda>severity.
     decoded_bind (bounded_string_from_lean (os ! 0)) (\<lambda>message.
     decoded_bind (option_from_lean lean_position_from_lean (os ! 1)) (\<lambda>position.
     decoded_bind (string_from_lean (os ! 2)) (\<lambda>file_label.
     Inr \<lparr>ld_severity = severity, ld_message = message, ld_position = position, ld_file_label = file_label\<rparr>)))))))"

definition lean_diagnostic_layout :: "lean_diagnostic \<Rightarrow> lobj" where
  "lean_diagnostic_layout x =
     Ctor 0 [LString (ld_message x),
       option_into_lean lean_position_layout (ld_position x),
       LString (ld_file_label x)]
       ([lean_severity_byte (ld_severity x)])"

definition lean_diagnostic_fits :: "lean_diagnostic \<Rightarrow> bool" where
  "lean_diagnostic_fits x \<longleftrightarrow>
     utf8_valid (ld_message x) \<and> length (ld_message x) \<le> LEAN_ERROR_MESSAGE_LIMIT \<and>
     (\<forall>x \<in> set_option (ld_position x). lean_position_fits x) \<and>
     utf8_valid (ld_file_label x)"

lemma lean_diagnostic_reads [decoder_reads]: "honest_read (\<lambda>mem. lean_diagnostic_from_lean mem v)"
  unfolding lean_diagnostic_from_lean_def by (intro decoder_reads)

lemma lean_diagnostic_layout_read [layout_reads]: "lean_diagnostic_fits x \<Longrightarrow> lean_diagnostic_from_lean mem (lean_diagnostic_layout x) = Inr x"
  by (cases x) (simp add: lean_diagnostic_from_lean_def lean_diagnostic_layout_def lean_diagnostic_fits_def layout_reads)

record lean_elab_failure =
  lf_diagnostics :: "lean_diagnostic list"
  lf_truncated :: bool

definition lean_elab_failure_from_lean :: "scalar_memory \<Rightarrow> lobj \<Rightarrow> lean_elab_failure decoded" where
  "lean_elab_failure_from_lean mem v =
     decoded_bind (ctor_shape v 0 1 ''ElabFailure'') (\<lambda>cv.
     decoded_bind (decoded_bind (view_uint8 mem 0 ''ElabFailure.truncated'' cv) truncation_from_byte) (\<lambda>truncated.
     decoded_bind (take_ctor_objects v 1 0 ''ElabFailure'') (\<lambda>os.
     decoded_bind (array_from_lean (lean_diagnostic_from_lean mem) (os ! 0)) (\<lambda>diagnostics.
     Inr \<lparr>lf_diagnostics = diagnostics, lf_truncated = truncated\<rparr>))))"

definition lean_elab_failure_layout :: "lean_elab_failure \<Rightarrow> lobj" where
  "lean_elab_failure_layout x =
     Ctor 0 [array_into_lean lean_diagnostic_layout (lf_diagnostics x)]
       ([byte_of_bool (lf_truncated x)])"

definition lean_elab_failure_fits :: "lean_elab_failure \<Rightarrow> bool" where
  "lean_elab_failure_fits x \<longleftrightarrow>
     (\<forall>x \<in> set (lf_diagnostics x). lean_diagnostic_fits x)"

lemma lean_elab_failure_reads [decoder_reads]: "honest_read (\<lambda>mem. lean_elab_failure_from_lean mem v)"
  unfolding lean_elab_failure_from_lean_def by (intro decoder_reads)

lemma lean_elab_failure_layout_read [layout_reads]: "lean_elab_failure_fits x \<Longrightarrow> lean_elab_failure_from_lean mem (lean_elab_failure_layout x) = Inr x"
  by (cases x) (simp add: lean_elab_failure_from_lean_def lean_elab_failure_layout_def lean_elab_failure_fits_def layout_reads)

record lean_proof_summary =
  lps_declaration_name :: string
  lps_kind :: string
  lps_type_signature :: string

definition lean_proof_summary_from_lean :: "lobj \<Rightarrow> lean_proof_summary decoded" where
  "lean_proof_summary_from_lean v =
     decoded_bind (take_ctor_objects v 3 0 ''ProofSummary'') (\<lambda>os.
     decoded_bind (string_from_lean (os ! 0)) (\<lambda>declaration_name.
     decoded_bind (string_from_lean (os ! 1)) (\<lambda>kind.
     decoded_bind (string_from_lean (os ! 2)) (\<lambda>type_signature.
     Inr \<lparr>lps_declaration_name = declaration_name, lps_kind = kind, lps_type_signature = type_signature\<rparr>))))"

definition lean_proof_summary_layout :: "lean_proof_summary \<Rightarrow> lobj" where
  "lean_proof_summary_layout x =
     Ctor 0 [LString (lps_declaration_name x),
       LString (lps_kind x),
       LString (lps_type_signature x)]
       ([])"

definition lean_proof_summary_fits :: "lean_proof_summary \<Rightarrow> bool" where
  "lean_proof_summary_fits x \<longleftrightarrow>
     utf8_valid (lps_declaration_name x) \<and>
     utf8_valid (lps_kind x) \<and>
     utf8_valid (lps_type_signature x)"

lemma lean_proof_summary_reads [decoder_reads]: "honest_read (\<lambda>mem. lean_proof_summary_from_lean v)"
  unfolding lean_proof_summary_from_lean_def by (intro decoder_reads)

lemma lean_proof_summary_layout_read [layout_reads]: "lean_proof_summary_fits x \<Longrightarrow> lean_proof_summary_from_lean (lean_proof_summary_layout x) = Inr x"
  by (cases x) (simp add: lean_proof_summary_from_lean_def lean_proof_summary_layout_def lean_proof_summary_fits_def layout_reads)

record lean_source_range =
  lsr_file :: string
  lsr_start_line :: nat
  lsr_start_column :: nat
  lsr_end_line :: nat
  lsr_end_column :: nat

definition lean_source_range_from_lean :: "lobj \<Rightarrow> lean_source_range decoded" where
  "lean_source_range_from_lean v =
     decoded_bind (take_ctor_objects v 5 0 ''SourceRange'') (\<lambda>os.
     decoded_bind (string_from_lean (os ! 0)) (\<lambda>file.
     decoded_bind (u32_from_lean (os ! 1)) (\<lambda>start_line.
     decoded_bind (u32_from_lean (os ! 2)) (\<lambda>start_column.
     decoded_bind (u32_from_lean (os ! 3)) (\<lambda>end_line.
     decoded_bind (u32_from_lean (os ! 4)) (\<lambda>end_column.
     Inr \<lparr>lsr_file = file, lsr_start_line = start_line, lsr_start_column = start_column, lsr_end_line = end_line, lsr_end_column = end_column\<rparr>))))))"

definition lean_source_range_layout :: "lean_source_range \<Rightarrow> lobj" where
  "lean_source_range_layout x =
     Ctor 0 [LString (lsr_file x),
       nat_from_u64 (lsr_start_line x),
       nat_from_u64 (lsr_start_column x),
       nat_from_u64 (lsr_end_line x),
       nat_from_u64 (lsr_end_column x)]
       ([])"

definition lean_source_range_fits :: "lean_source_range \<Rightarrow> bool" where
  "lean_source_range_fits x \<longleftrightarrow>
     utf8_valid (lsr_file x) \<and>
     (lsr_start_line x) < 2 ^ 32 \<and>
     (lsr_start_column x) < 2 ^ 32 \<and>
     (lsr_end_line x) < 2 ^ 32 \<and>
     (lsr_end_column x) < 2 ^ 32"

lemma lean_source_range_reads [decoder_reads]: "honest_read (\<lambda>mem. lean_source_range_from_lean v)"
  unfolding lean_source_range_from_lean_def by (intro decoder_reads)

lemma lean_source_range_layout_read [layout_reads]: "lean_source_range_fits x \<Longrightarrow> lean_source_range_from_lean (lean_source_range_layout x) = Inr x"
  by (cases x) (simp add: lean_source_range_from_lean_def lean_source_range_layout_def lean_source_range_fits_def layout_reads)

text \<open>The text a failure displays: the first error-severity message, else the first message.\<close>

definition elab_failure_text :: "lean_elab_failure \<Rightarrow> string" where
  "elab_failure_text f =
     (case find (\<lambda>d. ld_severity d = SeverityError) (lf_diagnostics f) of
        Some d \<Rightarrow> ld_message d
      | None \<Rightarrow>
          (case lf_diagnostics f of
             d # _ \<Rightarrow> ld_message d
           | [] \<Rightarrow> ''elaboration failed (no diagnostics)''))"

definition synthetic_failure :: "string \<Rightarrow> string \<Rightarrow> lean_elab_failure" where
  "synthetic_failure message file_label =
     \<lparr>lf_diagnostics = [\<lparr>ld_severity = SeverityError, ld_message = bound_message message, ld_position = None,
        ld_file_label = file_label\<rparr>], lf_truncated = False\<rparr>"

section \<open>Evidence and meta services\<close>

lemma ctor_tag_layout [layout_reads]: "t < 256 \<Longrightarrow> ctor_tag (Ctor t objs tail) = Inr t"
  by (simp add: ctor_tag_def ctor_view_new_def)

datatype evidence_answer = EvidenceChecked | EvidenceRejected | EvidenceUnavailable | EvidenceUnsupported

definition evidence_answer_from_lean :: "lobj \<Rightarrow> evidence_answer decoded" where
  "evidence_answer_from_lean v =
     decoded_bind
       (if is_scalar v then scalar_payload v ''EvidenceStatus''
        else decoded_bind (ctor_view_new v) (\<lambda>cv.
          decoded_bind (take_ctor_objects v 0 (cv_tag cv) ''EvidenceStatus'') (\<lambda>_. Inr (cv_tag cv))))
       (\<lambda>t.
          if t = 0 then Inr EvidenceChecked
          else if t = 1 then Inr EvidenceRejected
          else if t = 2 then Inr EvidenceUnavailable
          else if t = 3 then Inr EvidenceUnsupported
          else Inl (conversion_error (''expected Lean EvidenceStatus tag 0..=3, found '' @ decimal t)))"

fun evidence_answer_layout :: "evidence_answer \<Rightarrow> lobj" where
  "evidence_answer_layout EvidenceChecked = Boxed 0"
| "evidence_answer_layout EvidenceRejected = Boxed 1"
| "evidence_answer_layout EvidenceUnavailable = Boxed 2"
| "evidence_answer_layout EvidenceUnsupported = Boxed 3"

lemma evidence_answer_reads [decoder_reads]: "honest_read (\<lambda>mem. evidence_answer_from_lean v)"
  unfolding evidence_answer_from_lean_def by (intro decoder_reads)

lemma evidence_answer_layout_read [layout_reads]: "evidence_answer_from_lean (evidence_answer_layout x) = Inr x"
  by (cases x) (simp_all add: evidence_answer_from_lean_def scalar_payload_def)

datatype kernel_answer =
    KernelChecked lobj
  | KernelRejected lean_elab_failure
  | KernelUnavailable lean_elab_failure
  | KernelUnsupported lean_elab_failure

definition kernel_answer_from_lean :: "scalar_memory \<Rightarrow> lobj \<Rightarrow> kernel_answer decoded" where
  "kernel_answer_from_lean mem v =
     decoded_bind (ctor_tag v) (\<lambda>t.
       if t = 0 then
         decoded_bind (take_ctor_objects v 1 0 ''KernelOutcome.checked'') (\<lambda>os.
         decoded_bind (handle_from_lean (os ! 0)) (\<lambda>evidence.
         Inr (KernelChecked evidence)))
       else if t = 1 then
         decoded_bind (take_ctor_objects v 1 1 ''KernelOutcome.rejected'') (\<lambda>os.
         decoded_bind (lean_elab_failure_from_lean mem (os ! 0)) (\<lambda>failure.
         Inr (KernelRejected failure)))
       else if t = 2 then
         decoded_bind (take_ctor_objects v 1 2 ''KernelOutcome.unavailable'') (\<lambda>os.
         decoded_bind (lean_elab_failure_from_lean mem (os ! 0)) (\<lambda>failure.
         Inr (KernelUnavailable failure)))
       else if t = 3 then
         decoded_bind (take_ctor_objects v 1 3 ''KernelOutcome.unsupported'') (\<lambda>os.
         decoded_bind (lean_elab_failure_from_lean mem (os ! 0)) (\<lambda>failure.
         Inr (KernelUnsupported failure)))
       else Inl (conversion_error (''expected Lean KernelOutcome ctor (tag 0..=3), found tag '' @ decimal t)))"

fun kernel_answer_layout :: "kernel_answer \<Rightarrow> lobj" where
  "kernel_answer_layout (KernelChecked evidence) = Ctor 0 [evidence] ([])"
| "kernel_answer_layout (KernelRejected failure) = Ctor 1 [lean_elab_failure_layout failure] ([])"
| "kernel_answer_layout (KernelUnavailable failure) = Ctor 2 [lean_elab_failure_layout failure] ([])"
| "kernel_answer_layout (KernelUnsupported failure) = Ctor 3 [lean_elab_failure_layout failure] ([])"

fun kernel_answer_fits :: "kernel_answer \<Rightarrow> bool" where
  "kernel_answer_fits (KernelChecked evidence) \<longleftrightarrow> True"
| "kernel_answer_fits (KernelRejected failure) \<longleftrightarrow> lean_elab_failure_fits failure"
| "kernel_answer_fits (KernelUnavailable failure) \<longleftrightarrow> lean_elab_failure_fits failure"
| "kernel_answer_fits (KernelUnsupported failure) \<longleftrightarrow> lean_elab_failure_fits failure"

lemma kernel_answer_reads [decoder_reads]: "honest_read (\<lambda>mem. kernel_answer_from_lean mem v)"
  unfolding kernel_answer_from_lean_def by (intro decoder_reads)

lemma kernel_answer_layout_read [layout_reads]: "kernel_answer_fits x \<Longrightarrow> kernel_answer_from_lean mem (kernel_answer_layout x) = Inr x"
  by (cases x) (simp_all add: kernel_answer_from_lean_def layout_reads)

fun kernel_answer_status :: "kernel_answer \<Rightarrow> evidence_answer" where
  "kernel_answer_status (KernelChecked evidence) = EvidenceChecked"
| "kernel_answer_status (KernelRejected failure) = EvidenceRejected"
| "kernel_answer_status (KernelUnavailable failure) = EvidenceUnavailable"
| "kernel_answer_status (KernelUnsupported failure) = EvidenceUnsupported"

datatype 'a meta_answer =
    MetaOk 'a
  | MetaFailed lean_elab_failure
  | MetaTimeout lean_elab_failure
  | MetaUnsupported lean_elab_failure

definition meta_answer_from_lean ::
  "(scalar_memory \<Rightarrow> lobj \<Rightarrow> 'a decoded) \<Rightarrow> scalar_memory \<Rightarrow> lobj \<Rightarrow> 'a meta_answer decoded" where
  "meta_answer_from_lean from_lean mem v =
     decoded_bind (ctor_tag v) (\<lambda>t.
       if t = 0 then
         decoded_bind (take_ctor_objects v 1 0 ''MetaResponse.ok'') (\<lambda>os.
         decoded_bind (from_lean mem (os ! 0)) (\<lambda>x.
         Inr (MetaOk x)))
       else if t = 1 then
         decoded_bind (take_ctor_objects v 1 1 ''MetaResponse.failed'') (\<lambda>os.
         decoded_bind (lean_elab_failure_from_lean mem (os ! 0)) (\<lambda>failure.
         Inr (MetaFailed failure)))
       else if t = 2 then
         decoded_bind (take_ctor_objects v 1 2 ''MetaResponse.timeoutOrHeartbeat'') (\<lambda>os.
         decoded_bind (lean_elab_failure_from_lean mem (os ! 0)) (\<lambda>failure.
         Inr (MetaTimeout failure)))
       else if t = 3 then
         decoded_bind (take_ctor_objects v 1 3 ''MetaResponse.unsupported'') (\<lambda>os.
         decoded_bind (lean_elab_failure_from_lean mem (os ! 0)) (\<lambda>failure.
         Inr (MetaUnsupported failure)))
       else Inl (conversion_error (''expected Lean MetaResponse ctor (tag 0..=3), found tag '' @ decimal t)))"

fun meta_answer_layout :: "('a \<Rightarrow> lobj) \<Rightarrow> 'a meta_answer \<Rightarrow> lobj" where
  "meta_answer_layout layout (MetaOk x) = Ctor 0 [layout x] []"
| "meta_answer_layout layout (MetaFailed failure) = Ctor 1 [lean_elab_failure_layout failure] []"
| "meta_answer_layout layout (MetaTimeout failure) = Ctor 2 [lean_elab_failure_layout failure] []"
| "meta_answer_layout layout (MetaUnsupported failure) = Ctor 3 [lean_elab_failure_layout failure] []"

fun meta_answer_fits :: "('a \<Rightarrow> bool) \<Rightarrow> 'a meta_answer \<Rightarrow> bool" where
  "meta_answer_fits fits (MetaOk x) \<longleftrightarrow> fits x"
| "meta_answer_fits fits (MetaFailed failure) \<longleftrightarrow> lean_elab_failure_fits failure"
| "meta_answer_fits fits (MetaTimeout failure) \<longleftrightarrow> lean_elab_failure_fits failure"
| "meta_answer_fits fits (MetaUnsupported failure) \<longleftrightarrow> lean_elab_failure_fits failure"

text \<open>Results compose: a meta service answers whenever its payload type does.\<close>

lemma meta_answer_result:
  assumes "shim_result dec layout fits"
  shows "shim_result (meta_answer_from_lean dec) (meta_answer_layout layout) (meta_answer_fits fits)"
proof
  show "honest_read (\<lambda>mem. meta_answer_from_lean dec mem v)" for v
    unfolding meta_answer_from_lean_def by (intro decoder_reads shim_result.honest [OF assms])
  show "meta_answer_from_lean dec mem (meta_answer_layout layout x) = Inr x" if "meta_answer_fits fits x" for x mem
    using that by (cases x) (simp_all add: meta_answer_from_lean_def layout_reads shim_result.reads_layout [OF assms])
qed

interpretation elab_failure_result:
  shim_result lean_elab_failure_from_lean lean_elab_failure_layout lean_elab_failure_fits
  by unfold_locales (simp_all add: decoder_reads layout_reads)

interpretation kernel_answer: shim_result kernel_answer_from_lean kernel_answer_layout kernel_answer_fits
  by unfold_locales (simp_all add: decoder_reads layout_reads)

interpretation pretty_answer:
  shim_result "meta_answer_from_lean (\<lambda>mem. string_from_lean)" "meta_answer_layout LString" "meta_answer_fits utf8_valid"
  by (rule meta_answer_result) (unfold_locales, simp_all add: decoder_reads layout_reads)

text \<open>Whatever a decoded failure displays is within the message bound.\<close>

lemma decoded_messages_bounded:
  assumes "lean_elab_failure_from_lean mem v = Inr f"
  shows "\<forall>d \<in> set (lf_diagnostics f). length (ld_message d) \<le> LEAN_ERROR_MESSAGE_LIMIT"
    and "length (elab_failure_text f) \<le> LEAN_ERROR_MESSAGE_LIMIT"
proof -
  have one: "length (ld_message d) \<le> LEAN_ERROR_MESSAGE_LIMIT" if "lean_diagnostic_from_lean mem w = Inr d" for w d
    using that bound_message_bound
    by (auto simp: lean_diagnostic_from_lean_def bounded_string_from_lean_def decoded_map_def decoded_bind_def split: sum.splits)
  have each: "\<forall>d \<in> set ds. length (ld_message d) \<le> LEAN_ERROR_MESSAGE_LIMIT"
    if "decode_each (lean_diagnostic_from_lean mem) vs = Inr ds" for vs ds
    using that one by (induction vs arbitrary: ds) (auto simp: decoded_bind_def split: sum.splits)
  from assms obtain os where
    "array_from_lean (lean_diagnostic_from_lean mem) (os ! 0) = Inr (lf_diagnostics f)"
    by (auto simp: lean_elab_failure_from_lean_def decoded_bind_def split: sum.splits)
  then show all: "\<forall>d \<in> set (lf_diagnostics f). length (ld_message d) \<le> LEAN_ERROR_MESSAGE_LIMIT"
    using each by (auto simp: array_from_lean_def split: lobj.splits)
  show "length (elab_failure_text f) \<le> LEAN_ERROR_MESSAGE_LIMIT"
  proof (cases "find (\<lambda>d. ld_severity d = SeverityError) (lf_diagnostics f)")
    case (Some d)
    then have "d \<in> set (lf_diagnostics f)" by (auto simp: find_Some_iff)
    with all Some show ?thesis by (simp add: elab_failure_text_def)
  next
    case None
    with all show ?thesis
      by (cases "lf_diagnostics f") (auto simp: elab_failure_text_def LEAN_ERROR_MESSAGE_LIMIT_def)
  qed
qed

section \<open>Encodings\<close>

definition u32_into_lean :: "nat \<Rightarrow> lobj" where
  "u32_into_lean n = small_into_lean W32 (int n)"

text \<open>\<open>clamp_output_budget\<close> caps a budget at \<open>LEAN_DIAGNOSTIC_BYTE_LIMIT_MAX\<close>.\<close>

definition LEAN_DIAGNOSTIC_BYTE_LIMIT_MAX :: nat where "LEAN_DIAGNOSTIC_BYTE_LIMIT_MAX = 1024 * 1024"

definition clamp_output_budget :: "nat \<Rightarrow> nat" where
  "clamp_output_budget bytes = min bytes LEAN_DIAGNOSTIC_BYTE_LIMIT_MAX"

text \<open>
  An encoding is unambiguous on the values in range: two of them with one object are equal.  Rust's \<open>u32\<close> fields
  are in range by their type.
\<close>

locale request_encoding =
  fixes enc :: "'a \<Rightarrow> lobj" and ok :: "'a \<Rightarrow> bool"
  assumes unambiguous: "ok x \<Longrightarrow> ok y \<Longrightarrow> enc x = enc y \<Longrightarrow> x = y"
begin

lemma same [simp]: "ok x \<Longrightarrow> ok y \<Longrightarrow> enc x = enc y \<longleftrightarrow> x = y"
  using unambiguous by blast

lemma options: "\<forall>x \<in> set_option a. ok x \<Longrightarrow> \<forall>x \<in> set_option b. ok x \<Longrightarrow>
    option_into_lean enc a = option_into_lean enc b \<longleftrightarrow> a = b"
  by (cases a; cases b) (simp_all add: option_into_lean_def lean_box_def alloc_ctor_with_objects_def)

lemma arrays: "\<forall>x \<in> set xs. ok x \<Longrightarrow> \<forall>x \<in> set ys. ok x \<Longrightarrow> array_into_lean enc xs = array_into_lean enc ys \<longleftrightarrow> xs = ys"
proof (induction xs arbitrary: ys)
  case (Cons x xs)
  then show ?case by (cases ys) (auto simp: array_into_lean_def)
qed (auto simp: array_into_lean_def)

end

interpretation u32_encoding: request_encoding u32_into_lean "\<lambda>n. n < 2 ^ 32"
  by unfold_locales (simp add: u32_into_lean_def small_into_lean_def lean_box_def to_unsigned_def)

interpretation string_encoding: request_encoding string_into_lean "\<lambda>_. True"
  by unfold_locales (simp add: string_into_lean_def)

lemmas encoding_simps = alloc_ctor_with_objects_def u32_encoding.options u32_encoding.arrays
  string_encoding.options string_encoding.arrays

end
