(* ===== verification/Query_Results.thy ===== *)
theory Query_Results
  imports Host_Results
begin

text \<open>
  Module queries (\<open>process/query.rs\<close> of \<open>lean-rs-host\<close>): what comes back from the query, proof-attempt and
  verification shims, each decoder beside the layout of the Lean structure it reads, and what is sent to them.
\<close>

definition option_nat_u64 :: "lobj \<Rightarrow> nat option decoded" where
  "option_nat_u64 v =
     decoded_bind (sum_tag v) (\<lambda>t.
       if t = 0 then Inr None
       else if t = 1 then
         decoded_bind (take_ctor_objects v 1 1 ''Option::some Nat'') (\<lambda>os.
         decoded_bind (nat_try_to_u64 (os ! 0)) (\<lambda>n.
         Inr (Some n)))
       else Inl (conversion_error (''expected Lean Option Nat ctor (tag 0..=1), found tag '' @ decimal t)))"

lemma option_nat_u64_reads [decoder_reads]: "honest_read (\<lambda>mem. option_nat_u64 v)"
  unfolding option_nat_u64_def by (intro decoder_reads)

lemma option_nat_u64_layout [layout_reads]:
  "\<forall>n \<in> set_option ox. n < 2 ^ 63 \<Longrightarrow> option_nat_u64 (option_into_lean nat_from_u64 ox) = Inr ox"
  by (cases ox) (simp_all add: option_nat_u64_def option_into_lean_def lean_box_def alloc_ctor_with_objects_def layout_reads)

section \<open>Results\<close>

record lean_source_span =
  ssp_start_line :: nat
  ssp_start_column :: nat
  ssp_end_line :: nat
  ssp_end_column :: nat

definition lean_source_span_from_lean :: "lobj \<Rightarrow> lean_source_span decoded" where
  "lean_source_span_from_lean v =
     decoded_bind (take_ctor_objects v 4 0 ''ModuleSourceSpan'') (\<lambda>os.
     decoded_bind (u32_from_lean (os ! 0)) (\<lambda>start_line.
     decoded_bind (u32_from_lean (os ! 1)) (\<lambda>start_column.
     decoded_bind (u32_from_lean (os ! 2)) (\<lambda>end_line.
     decoded_bind (u32_from_lean (os ! 3)) (\<lambda>end_column.
     Inr \<lparr>ssp_start_line = start_line, ssp_start_column = start_column, ssp_end_line = end_line, ssp_end_column = end_column\<rparr>)))))"

definition lean_source_span_layout :: "lean_source_span \<Rightarrow> lobj" where
  "lean_source_span_layout x =
     Ctor 0 [nat_from_u64 (ssp_start_line x),
       nat_from_u64 (ssp_start_column x),
       nat_from_u64 (ssp_end_line x),
       nat_from_u64 (ssp_end_column x)]
       ([])"

definition lean_source_span_fits :: "lean_source_span \<Rightarrow> bool" where
  "lean_source_span_fits x \<longleftrightarrow>
     (ssp_start_line x) < 2 ^ 32 \<and>
     (ssp_start_column x) < 2 ^ 32 \<and>
     (ssp_end_line x) < 2 ^ 32 \<and>
     (ssp_end_column x) < 2 ^ 32"

lemma lean_source_span_reads [decoder_reads]: "honest_read (\<lambda>mem. lean_source_span_from_lean v)"
  unfolding lean_source_span_from_lean_def by (intro decoder_reads)

lemma lean_source_span_layout_read [layout_reads]: "lean_source_span_fits x \<Longrightarrow> lean_source_span_from_lean (lean_source_span_layout x) = Inr x"
  by (cases x) (simp add: lean_source_span_from_lean_def lean_source_span_layout_def lean_source_span_fits_def layout_reads)

record lean_rendered_info =
  lri_value :: string
  lri_truncated :: bool

definition lean_rendered_info_from_lean :: "scalar_memory \<Rightarrow> lobj \<Rightarrow> lean_rendered_info decoded" where
  "lean_rendered_info_from_lean mem v =
     decoded_bind (bool_tail mem v 0 ''RenderedInfo.truncated'') (\<lambda>truncated.
     decoded_bind (take_ctor_objects v 1 0 ''RenderedInfo'') (\<lambda>os.
     decoded_bind (string_from_lean (os ! 0)) (\<lambda>value.
     Inr \<lparr>lri_value = value, lri_truncated = truncated\<rparr>)))"

definition lean_rendered_info_layout :: "lean_rendered_info \<Rightarrow> lobj" where
  "lean_rendered_info_layout x =
     Ctor 0 [LString (lri_value x)]
       ([byte_of_bool (lri_truncated x)])"

definition lean_rendered_info_fits :: "lean_rendered_info \<Rightarrow> bool" where
  "lean_rendered_info_fits x \<longleftrightarrow>
     utf8_valid (lri_value x)"

lemma lean_rendered_info_reads [decoder_reads]: "honest_read (\<lambda>mem. lean_rendered_info_from_lean mem v)"
  unfolding lean_rendered_info_from_lean_def by (intro decoder_reads)

lemma lean_rendered_info_layout_read [layout_reads]: "lean_rendered_info_fits x \<Longrightarrow> lean_rendered_info_from_lean mem (lean_rendered_info_layout x) = Inr x"
  by (cases x) (simp add: lean_rendered_info_from_lean_def lean_rendered_info_layout_def lean_rendered_info_fits_def layout_reads)

record name_ref_node =
  nrn_start_line :: nat
  nrn_start_column :: nat
  nrn_end_line :: nat
  nrn_end_column :: nat
  nrn_name :: string
  nrn_is_binder :: bool

definition name_ref_node_from_lean :: "scalar_memory \<Rightarrow> lobj \<Rightarrow> name_ref_node decoded" where
  "name_ref_node_from_lean mem v =
     decoded_bind (bool_tail mem v 0 ''NameRefNode.isBinder'') (\<lambda>is_binder.
     decoded_bind (take_ctor_objects v 5 0 ''NameRefNode'') (\<lambda>os.
     decoded_bind (u32_from_lean (os ! 0)) (\<lambda>start_line.
     decoded_bind (u32_from_lean (os ! 1)) (\<lambda>start_column.
     decoded_bind (u32_from_lean (os ! 2)) (\<lambda>end_line.
     decoded_bind (u32_from_lean (os ! 3)) (\<lambda>end_column.
     decoded_bind (string_from_lean (os ! 4)) (\<lambda>name.
     Inr \<lparr>nrn_start_line = start_line, nrn_start_column = start_column, nrn_end_line = end_line, nrn_end_column = end_column, nrn_name = name, nrn_is_binder = is_binder\<rparr>)))))))"

definition name_ref_node_layout :: "name_ref_node \<Rightarrow> lobj" where
  "name_ref_node_layout x =
     Ctor 0 [nat_from_u64 (nrn_start_line x),
       nat_from_u64 (nrn_start_column x),
       nat_from_u64 (nrn_end_line x),
       nat_from_u64 (nrn_end_column x),
       LString (nrn_name x)]
       ([byte_of_bool (nrn_is_binder x)])"

definition name_ref_node_fits :: "name_ref_node \<Rightarrow> bool" where
  "name_ref_node_fits x \<longleftrightarrow>
     (nrn_start_line x) < 2 ^ 32 \<and>
     (nrn_start_column x) < 2 ^ 32 \<and>
     (nrn_end_line x) < 2 ^ 32 \<and>
     (nrn_end_column x) < 2 ^ 32 \<and>
     utf8_valid (nrn_name x)"

lemma name_ref_node_reads [decoder_reads]: "honest_read (\<lambda>mem. name_ref_node_from_lean mem v)"
  unfolding name_ref_node_from_lean_def by (intro decoder_reads)

lemma name_ref_node_layout_read [layout_reads]: "name_ref_node_fits x \<Longrightarrow> name_ref_node_from_lean mem (name_ref_node_layout x) = Inr x"
  by (cases x) (simp add: name_ref_node_from_lean_def name_ref_node_layout_def name_ref_node_fits_def layout_reads)

datatype type_at_answer =
    TypeTerm lean_source_span lean_rendered_info lean_rendered_info "lean_rendered_info option"
  | NoTerm

definition type_at_answer_from_lean :: "scalar_memory \<Rightarrow> lobj \<Rightarrow> type_at_answer decoded" where
  "type_at_answer_from_lean mem v =
     decoded_bind (sum_tag v) (\<lambda>t.
       if t = 0 then
         decoded_bind (take_ctor_objects v 4 0 ''TypeAtResult::term'') (\<lambda>os.
         decoded_bind (lean_source_span_from_lean (os ! 0)) (\<lambda>span.
         decoded_bind (lean_rendered_info_from_lean mem (os ! 1)) (\<lambda>expr.
         decoded_bind (lean_rendered_info_from_lean mem (os ! 2)) (\<lambda>type_str.
         decoded_bind (option_from_lean (lean_rendered_info_from_lean mem) (os ! 3)) (\<lambda>expected_type.
         Inr (TypeTerm span expr type_str expected_type))))))
       else if t = 1 then
         Inr NoTerm
       else Inl (conversion_error (''expected Lean TypeAtResult ctor (tag 0..=1), found tag '' @ decimal t)))"

fun type_at_answer_layout :: "type_at_answer \<Rightarrow> lobj" where
  "type_at_answer_layout (TypeTerm span expr type_str expected_type) = Ctor 0 [lean_source_span_layout span, lean_rendered_info_layout expr, lean_rendered_info_layout type_str, option_into_lean lean_rendered_info_layout expected_type] ([])"
| "type_at_answer_layout NoTerm = Boxed 1"

fun type_at_answer_fits :: "type_at_answer \<Rightarrow> bool" where
  "type_at_answer_fits (TypeTerm span expr type_str expected_type) \<longleftrightarrow> lean_source_span_fits span \<and> lean_rendered_info_fits expr \<and> lean_rendered_info_fits type_str \<and> (\<forall>x \<in> set_option expected_type. lean_rendered_info_fits x)"
| "type_at_answer_fits NoTerm \<longleftrightarrow> True"

lemma type_at_answer_reads [decoder_reads]: "honest_read (\<lambda>mem. type_at_answer_from_lean mem v)"
  unfolding type_at_answer_from_lean_def by (intro decoder_reads)

lemma type_at_answer_layout_read [layout_reads]: "type_at_answer_fits x \<Longrightarrow> type_at_answer_from_lean mem (type_at_answer_layout x) = Inr x"
  by (cases x) (simp_all add: type_at_answer_from_lean_def layout_reads)

datatype goal_at_answer =
    GoalTactic lean_source_span "string list" "string list" bool
  | NoTacticContext

definition goal_at_answer_from_lean :: "scalar_memory \<Rightarrow> lobj \<Rightarrow> goal_at_answer decoded" where
  "goal_at_answer_from_lean mem v =
     decoded_bind (sum_tag v) (\<lambda>t.
       if t = 0 then
         decoded_bind (bool_tail mem v 0 ''GoalAtResult::goal.truncated'') (\<lambda>truncated.
         decoded_bind (take_ctor_objects v 3 0 ''GoalAtResult::goal'') (\<lambda>os.
         decoded_bind (lean_source_span_from_lean (os ! 0)) (\<lambda>span.
         decoded_bind (array_from_lean string_from_lean (os ! 1)) (\<lambda>goals_before.
         decoded_bind (array_from_lean string_from_lean (os ! 2)) (\<lambda>goals_after.
         Inr (GoalTactic span goals_before goals_after truncated))))))
       else if t = 1 then
         Inr NoTacticContext
       else Inl (conversion_error (''expected Lean GoalAtResult ctor (tag 0..=1), found tag '' @ decimal t)))"

fun goal_at_answer_layout :: "goal_at_answer \<Rightarrow> lobj" where
  "goal_at_answer_layout (GoalTactic span goals_before goals_after truncated) = Ctor 0 [lean_source_span_layout span, array_into_lean LString goals_before, array_into_lean LString goals_after] ([byte_of_bool (truncated)])"
| "goal_at_answer_layout NoTacticContext = Boxed 1"

fun goal_at_answer_fits :: "goal_at_answer \<Rightarrow> bool" where
  "goal_at_answer_fits (GoalTactic span goals_before goals_after truncated) \<longleftrightarrow> lean_source_span_fits span \<and> (\<forall>x \<in> set goals_before. utf8_valid x) \<and> (\<forall>x \<in> set goals_after. utf8_valid x)"
| "goal_at_answer_fits NoTacticContext \<longleftrightarrow> True"

lemma goal_at_answer_reads [decoder_reads]: "honest_read (\<lambda>mem. goal_at_answer_from_lean mem v)"
  unfolding goal_at_answer_from_lean_def by (intro decoder_reads)

lemma goal_at_answer_layout_read [layout_reads]: "goal_at_answer_fits x \<Longrightarrow> goal_at_answer_from_lean mem (goal_at_answer_layout x) = Inr x"
  by (cases x) (simp_all add: goal_at_answer_from_lean_def layout_reads)

record references_answer =
  rfa_references :: "name_ref_node list"
  rfa_truncated :: bool

definition references_answer_from_lean :: "scalar_memory \<Rightarrow> lobj \<Rightarrow> references_answer decoded" where
  "references_answer_from_lean mem v =
     decoded_bind (bool_tail mem v 0 ''ReferencesResult.truncated'') (\<lambda>truncated.
     decoded_bind (take_ctor_objects v 1 0 ''ReferencesResult'') (\<lambda>os.
     decoded_bind (array_from_lean (name_ref_node_from_lean mem) (os ! 0)) (\<lambda>references.
     Inr \<lparr>rfa_references = references, rfa_truncated = truncated\<rparr>)))"

definition references_answer_layout :: "references_answer \<Rightarrow> lobj" where
  "references_answer_layout x =
     Ctor 0 [array_into_lean name_ref_node_layout (rfa_references x)]
       ([byte_of_bool (rfa_truncated x)])"

definition references_answer_fits :: "references_answer \<Rightarrow> bool" where
  "references_answer_fits x \<longleftrightarrow>
     (\<forall>x \<in> set (rfa_references x). name_ref_node_fits x)"

lemma references_answer_reads [decoder_reads]: "honest_read (\<lambda>mem. references_answer_from_lean mem v)"
  unfolding references_answer_from_lean_def by (intro decoder_reads)

lemma references_answer_layout_read [layout_reads]: "references_answer_fits x \<Longrightarrow> references_answer_from_lean mem (references_answer_layout x) = Inr x"
  by (cases x) (simp add: references_answer_from_lean_def references_answer_layout_def references_answer_fits_def layout_reads)

record lean_local_info =
  lli_name :: string
  lli_binder_info :: string
  lli_type_str :: lean_rendered_info
  lli_local_value :: "lean_rendered_info option"

definition lean_local_info_from_lean :: "scalar_memory \<Rightarrow> lobj \<Rightarrow> lean_local_info decoded" where
  "lean_local_info_from_lean mem v =
     decoded_bind (take_ctor_objects v 4 0 ''LocalInfo'') (\<lambda>os.
     decoded_bind (string_from_lean (os ! 0)) (\<lambda>name.
     decoded_bind (string_from_lean (os ! 1)) (\<lambda>binder_info.
     decoded_bind (lean_rendered_info_from_lean mem (os ! 2)) (\<lambda>type_str.
     decoded_bind (option_from_lean (lean_rendered_info_from_lean mem) (os ! 3)) (\<lambda>local_value.
     Inr \<lparr>lli_name = name, lli_binder_info = binder_info, lli_type_str = type_str, lli_local_value = local_value\<rparr>)))))"

definition lean_local_info_layout :: "lean_local_info \<Rightarrow> lobj" where
  "lean_local_info_layout x =
     Ctor 0 [LString (lli_name x),
       LString (lli_binder_info x),
       lean_rendered_info_layout (lli_type_str x),
       option_into_lean lean_rendered_info_layout (lli_local_value x)]
       ([])"

definition lean_local_info_fits :: "lean_local_info \<Rightarrow> bool" where
  "lean_local_info_fits x \<longleftrightarrow>
     utf8_valid (lli_name x) \<and>
     utf8_valid (lli_binder_info x) \<and>
     lean_rendered_info_fits (lli_type_str x) \<and>
     (\<forall>x \<in> set_option (lli_local_value x). lean_rendered_info_fits x)"

lemma lean_local_info_reads [decoder_reads]: "honest_read (\<lambda>mem. lean_local_info_from_lean mem v)"
  unfolding lean_local_info_from_lean_def by (intro decoder_reads)

lemma lean_local_info_layout_read [layout_reads]: "lean_local_info_fits x \<Longrightarrow> lean_local_info_from_lean mem (lean_local_info_layout x) = Inr x"
  by (cases x) (simp add: lean_local_info_from_lean_def lean_local_info_layout_def lean_local_info_fits_def layout_reads)

record target_info =
  tgi_short_name :: string
  tgi_declaration_name :: string
  tgi_namespace_name :: string
  tgi_declaration_kind :: string
  tgi_declaration_span :: lean_source_span
  tgi_name_span :: lean_source_span
  tgi_body_span :: lean_source_span

definition target_info_from_lean :: "lobj \<Rightarrow> target_info decoded" where
  "target_info_from_lean v =
     decoded_bind (take_ctor_objects v 7 0 ''DeclarationTargetInfo'') (\<lambda>os.
     decoded_bind (string_from_lean (os ! 0)) (\<lambda>short_name.
     decoded_bind (string_from_lean (os ! 1)) (\<lambda>declaration_name.
     decoded_bind (string_from_lean (os ! 2)) (\<lambda>namespace_name.
     decoded_bind (string_from_lean (os ! 3)) (\<lambda>declaration_kind.
     decoded_bind (lean_source_span_from_lean (os ! 4)) (\<lambda>declaration_span.
     decoded_bind (lean_source_span_from_lean (os ! 5)) (\<lambda>name_span.
     decoded_bind (lean_source_span_from_lean (os ! 6)) (\<lambda>body_span.
     Inr \<lparr>tgi_short_name = short_name, tgi_declaration_name = declaration_name, tgi_namespace_name = namespace_name, tgi_declaration_kind = declaration_kind, tgi_declaration_span = declaration_span, tgi_name_span = name_span, tgi_body_span = body_span\<rparr>))))))))"

definition target_info_layout :: "target_info \<Rightarrow> lobj" where
  "target_info_layout x =
     Ctor 0 [LString (tgi_short_name x),
       LString (tgi_declaration_name x),
       LString (tgi_namespace_name x),
       LString (tgi_declaration_kind x),
       lean_source_span_layout (tgi_declaration_span x),
       lean_source_span_layout (tgi_name_span x),
       lean_source_span_layout (tgi_body_span x)]
       ([])"

definition target_info_fits :: "target_info \<Rightarrow> bool" where
  "target_info_fits x \<longleftrightarrow>
     utf8_valid (tgi_short_name x) \<and>
     utf8_valid (tgi_declaration_name x) \<and>
     utf8_valid (tgi_namespace_name x) \<and>
     utf8_valid (tgi_declaration_kind x) \<and>
     lean_source_span_fits (tgi_declaration_span x) \<and>
     lean_source_span_fits (tgi_name_span x) \<and>
     lean_source_span_fits (tgi_body_span x)"

lemma target_info_reads [decoder_reads]: "honest_read (\<lambda>mem. target_info_from_lean v)"
  unfolding target_info_from_lean_def by (intro decoder_reads)

lemma target_info_layout_read [layout_reads]: "target_info_fits x \<Longrightarrow> target_info_from_lean (target_info_layout x) = Inr x"
  by (cases x) (simp add: target_info_from_lean_def target_info_layout_def target_info_fits_def layout_reads)

datatype target_answer =
    TargetFound target_info
  | TargetNotFound
  | TargetAmbiguous "target_info list"

definition target_answer_from_lean :: "lobj \<Rightarrow> target_answer decoded" where
  "target_answer_from_lean v =
     decoded_bind (sum_tag v) (\<lambda>t.
       if t = 0 then
         decoded_bind (take_ctor_objects v 1 0 ''DeclarationTargetResult::target'') (\<lambda>os.
         decoded_bind (target_info_from_lean (os ! 0)) (\<lambda>info.
         Inr (TargetFound info)))
       else if t = 1 then
         Inr TargetNotFound
       else if t = 2 then
         decoded_bind (take_ctor_objects v 1 2 ''DeclarationTargetResult::ambiguous'') (\<lambda>os.
         decoded_bind (array_from_lean target_info_from_lean (os ! 0)) (\<lambda>candidates.
         Inr (TargetAmbiguous candidates)))
       else Inl (conversion_error (''expected Lean DeclarationTargetResult ctor (tag 0..=2), found tag '' @ decimal t)))"

fun target_answer_layout :: "target_answer \<Rightarrow> lobj" where
  "target_answer_layout (TargetFound info) = Ctor 0 [target_info_layout info] ([])"
| "target_answer_layout TargetNotFound = Boxed 1"
| "target_answer_layout (TargetAmbiguous candidates) = Ctor 2 [array_into_lean target_info_layout candidates] ([])"

fun target_answer_fits :: "target_answer \<Rightarrow> bool" where
  "target_answer_fits (TargetFound info) \<longleftrightarrow> target_info_fits info"
| "target_answer_fits TargetNotFound \<longleftrightarrow> True"
| "target_answer_fits (TargetAmbiguous candidates) \<longleftrightarrow> (\<forall>x \<in> set candidates. target_info_fits x)"

lemma target_answer_reads [decoder_reads]: "honest_read (\<lambda>mem. target_answer_from_lean v)"
  unfolding target_answer_from_lean_def by (intro decoder_reads)

lemma target_answer_layout_read [layout_reads]: "target_answer_fits x \<Longrightarrow> target_answer_from_lean (target_answer_layout x) = Inr x"
  by (cases x) (simp_all add: target_answer_from_lean_def layout_reads)

record outline_answer =
  ola_declarations :: "target_info list"
  ola_truncated :: bool

definition outline_answer_from_lean :: "scalar_memory \<Rightarrow> lobj \<Rightarrow> outline_answer decoded" where
  "outline_answer_from_lean mem v =
     decoded_bind (bool_tail mem v 0 ''DeclarationOutlineResult.truncated'') (\<lambda>truncated.
     decoded_bind (take_ctor_objects v 1 0 ''DeclarationOutlineResult'') (\<lambda>os.
     decoded_bind (array_from_lean target_info_from_lean (os ! 0)) (\<lambda>declarations.
     Inr \<lparr>ola_declarations = declarations, ola_truncated = truncated\<rparr>)))"

definition outline_answer_layout :: "outline_answer \<Rightarrow> lobj" where
  "outline_answer_layout x =
     Ctor 0 [array_into_lean target_info_layout (ola_declarations x)]
       ([byte_of_bool (ola_truncated x)])"

definition outline_answer_fits :: "outline_answer \<Rightarrow> bool" where
  "outline_answer_fits x \<longleftrightarrow>
     (\<forall>x \<in> set (ola_declarations x). target_info_fits x)"

lemma outline_answer_reads [decoder_reads]: "honest_read (\<lambda>mem. outline_answer_from_lean mem v)"
  unfolding outline_answer_from_lean_def by (intro decoder_reads)

lemma outline_answer_layout_read [layout_reads]: "outline_answer_fits x \<Longrightarrow> outline_answer_from_lean mem (outline_answer_layout x) = Inr x"
  by (cases x) (simp add: outline_answer_from_lean_def outline_answer_layout_def outline_answer_fits_def layout_reads)

record boundary_candidate =
  bdc_index :: nat
  bdc_kind :: string
  bdc_source :: lean_source_span
  bdc_excerpt :: lean_rendered_info

definition boundary_candidate_from_lean :: "scalar_memory \<Rightarrow> lobj \<Rightarrow> boundary_candidate decoded" where
  "boundary_candidate_from_lean mem v =
     decoded_bind (take_ctor_objects v 4 0 ''ProofBoundaryCandidate'') (\<lambda>os.
     decoded_bind (u32_from_lean (os ! 0)) (\<lambda>index.
     decoded_bind (string_from_lean (os ! 1)) (\<lambda>kind.
     decoded_bind (lean_source_span_from_lean (os ! 2)) (\<lambda>source.
     decoded_bind (lean_rendered_info_from_lean mem (os ! 3)) (\<lambda>excerpt.
     Inr \<lparr>bdc_index = index, bdc_kind = kind, bdc_source = source, bdc_excerpt = excerpt\<rparr>)))))"

definition boundary_candidate_layout :: "boundary_candidate \<Rightarrow> lobj" where
  "boundary_candidate_layout x =
     Ctor 0 [nat_from_u64 (bdc_index x),
       LString (bdc_kind x),
       lean_source_span_layout (bdc_source x),
       lean_rendered_info_layout (bdc_excerpt x)]
       ([])"

definition boundary_candidate_fits :: "boundary_candidate \<Rightarrow> bool" where
  "boundary_candidate_fits x \<longleftrightarrow>
     (bdc_index x) < 2 ^ 32 \<and>
     utf8_valid (bdc_kind x) \<and>
     lean_source_span_fits (bdc_source x) \<and>
     lean_rendered_info_fits (bdc_excerpt x)"

lemma boundary_candidate_reads [decoder_reads]: "honest_read (\<lambda>mem. boundary_candidate_from_lean mem v)"
  unfolding boundary_candidate_from_lean_def by (intro decoder_reads)

lemma boundary_candidate_layout_read [layout_reads]: "boundary_candidate_fits x \<Longrightarrow> boundary_candidate_from_lean mem (boundary_candidate_layout x) = Inr x"
  by (cases x) (simp add: boundary_candidate_from_lean_def boundary_candidate_layout_def boundary_candidate_fits_def layout_reads)

record proof_state_info =
  psi_declaration_name :: "string option"
  psi_namespace_name :: string
  psi_safe_edit :: "target_info option"
  psi_span :: lean_source_span
  psi_goals_before :: "string list"
  psi_goals_after :: "string list"
  psi_locals :: "lean_local_info list"
  psi_expected_type :: "lean_rendered_info option"
  psi_truncated :: bool
  psi_proof_boundaries :: "boundary_candidate list"
  psi_proof_boundaries_truncated :: bool

definition proof_state_info_from_lean :: "scalar_memory \<Rightarrow> lobj \<Rightarrow> proof_state_info decoded" where
  "proof_state_info_from_lean mem v =
     decoded_bind (bool_tail mem v 0 ''ProofStateInfo.truncated'') (\<lambda>truncated.
     decoded_bind (bool_tail mem v 1 ''ProofStateInfo.proofBoundariesTruncated'') (\<lambda>proof_boundaries_truncated.
     decoded_bind (take_ctor_objects v 9 0 ''ProofStateInfo'') (\<lambda>os.
     decoded_bind (option_from_lean string_from_lean (os ! 0)) (\<lambda>declaration_name.
     decoded_bind (string_from_lean (os ! 1)) (\<lambda>namespace_name.
     decoded_bind (option_from_lean target_info_from_lean (os ! 2)) (\<lambda>safe_edit.
     decoded_bind (lean_source_span_from_lean (os ! 3)) (\<lambda>span.
     decoded_bind (array_from_lean string_from_lean (os ! 4)) (\<lambda>goals_before.
     decoded_bind (array_from_lean string_from_lean (os ! 5)) (\<lambda>goals_after.
     decoded_bind (array_from_lean (lean_local_info_from_lean mem) (os ! 6)) (\<lambda>locals.
     decoded_bind (option_from_lean (lean_rendered_info_from_lean mem) (os ! 7)) (\<lambda>expected_type.
     decoded_bind (array_from_lean (boundary_candidate_from_lean mem) (os ! 8)) (\<lambda>proof_boundaries.
     Inr \<lparr>psi_declaration_name = declaration_name, psi_namespace_name = namespace_name, psi_safe_edit = safe_edit, psi_span = span, psi_goals_before = goals_before, psi_goals_after = goals_after, psi_locals = locals, psi_expected_type = expected_type, psi_truncated = truncated, psi_proof_boundaries = proof_boundaries, psi_proof_boundaries_truncated = proof_boundaries_truncated\<rparr>))))))))))))"

definition proof_state_info_layout :: "proof_state_info \<Rightarrow> lobj" where
  "proof_state_info_layout x =
     Ctor 0 [option_into_lean LString (psi_declaration_name x),
       LString (psi_namespace_name x),
       option_into_lean target_info_layout (psi_safe_edit x),
       lean_source_span_layout (psi_span x),
       array_into_lean LString (psi_goals_before x),
       array_into_lean LString (psi_goals_after x),
       array_into_lean lean_local_info_layout (psi_locals x),
       option_into_lean lean_rendered_info_layout (psi_expected_type x),
       array_into_lean boundary_candidate_layout (psi_proof_boundaries x)]
       ([byte_of_bool (psi_truncated x)] @ [byte_of_bool (psi_proof_boundaries_truncated x)])"

definition proof_state_info_fits :: "proof_state_info \<Rightarrow> bool" where
  "proof_state_info_fits x \<longleftrightarrow>
     (\<forall>x \<in> set_option (psi_declaration_name x). utf8_valid x) \<and>
     utf8_valid (psi_namespace_name x) \<and>
     (\<forall>x \<in> set_option (psi_safe_edit x). target_info_fits x) \<and>
     lean_source_span_fits (psi_span x) \<and>
     (\<forall>x \<in> set (psi_goals_before x). utf8_valid x) \<and>
     (\<forall>x \<in> set (psi_goals_after x). utf8_valid x) \<and>
     (\<forall>x \<in> set (psi_locals x). lean_local_info_fits x) \<and>
     (\<forall>x \<in> set_option (psi_expected_type x). lean_rendered_info_fits x) \<and>
     (\<forall>x \<in> set (psi_proof_boundaries x). boundary_candidate_fits x)"

lemma proof_state_info_reads [decoder_reads]: "honest_read (\<lambda>mem. proof_state_info_from_lean mem v)"
  unfolding proof_state_info_from_lean_def by (intro decoder_reads)

lemma proof_state_info_layout_read [layout_reads]: "proof_state_info_fits x \<Longrightarrow> proof_state_info_from_lean mem (proof_state_info_layout x) = Inr x"
  by (cases x) (simp add: proof_state_info_from_lean_def proof_state_info_layout_def proof_state_info_fits_def layout_reads)

datatype proof_state_answer =
    ProofState proof_state_info
  | ProofStateUnavailable string "boundary_candidate list" bool
  | ProofStateAmbiguous "target_info list"
  | ProofStateNeedsBuild "string list"

definition proof_state_answer_from_lean :: "scalar_memory \<Rightarrow> lobj \<Rightarrow> proof_state_answer decoded" where
  "proof_state_answer_from_lean mem v =
     decoded_bind (sum_tag v) (\<lambda>t.
       if t = 0 then
         decoded_bind (take_ctor_objects v 1 0 ''ProofStateResult::state'') (\<lambda>os.
         decoded_bind (proof_state_info_from_lean mem (os ! 0)) (\<lambda>info.
         Inr (ProofState info)))
       else if t = 1 then
         decoded_bind (ctor_shape v 1 2 ''ProofStateResult::unavailable'') (\<lambda>cv.
         decoded_bind (view_bool mem 0 ''ProofStateResult::unavailable.proofBoundariesTruncated'' cv) (\<lambda>proof_boundaries_truncated.
         decoded_bind (take_ctor_objects v 2 1 ''ProofStateResult::unavailable'') (\<lambda>os.
         decoded_bind (string_from_lean (os ! 0)) (\<lambda>message.
         decoded_bind (array_from_lean (boundary_candidate_from_lean mem) (os ! 1)) (\<lambda>proof_boundaries.
         Inr (ProofStateUnavailable message proof_boundaries proof_boundaries_truncated))))))
       else if t = 2 then
         decoded_bind (take_ctor_objects v 1 2 ''ProofStateResult::ambiguous'') (\<lambda>os.
         decoded_bind (array_from_lean target_info_from_lean (os ! 0)) (\<lambda>candidates.
         Inr (ProofStateAmbiguous candidates)))
       else if t = 3 then
         decoded_bind (take_ctor_objects v 1 3 ''ProofStateResult::needsBuild'') (\<lambda>os.
         decoded_bind (array_from_lean string_from_lean (os ! 0)) (\<lambda>missing.
         Inr (ProofStateNeedsBuild missing)))
       else Inl (conversion_error (''expected Lean ProofStateResult ctor (tag 0..=3), found tag '' @ decimal t)))"

fun proof_state_answer_layout :: "proof_state_answer \<Rightarrow> lobj" where
  "proof_state_answer_layout (ProofState info) = Ctor 0 [proof_state_info_layout info] ([])"
| "proof_state_answer_layout (ProofStateUnavailable message proof_boundaries proof_boundaries_truncated) = Ctor 1 [LString message, array_into_lean boundary_candidate_layout proof_boundaries] ([byte_of_bool (proof_boundaries_truncated)])"
| "proof_state_answer_layout (ProofStateAmbiguous candidates) = Ctor 2 [array_into_lean target_info_layout candidates] ([])"
| "proof_state_answer_layout (ProofStateNeedsBuild missing) = Ctor 3 [array_into_lean LString missing] ([])"

fun proof_state_answer_fits :: "proof_state_answer \<Rightarrow> bool" where
  "proof_state_answer_fits (ProofState info) \<longleftrightarrow> proof_state_info_fits info"
| "proof_state_answer_fits (ProofStateUnavailable message proof_boundaries proof_boundaries_truncated) \<longleftrightarrow> utf8_valid message \<and> (\<forall>x \<in> set proof_boundaries. boundary_candidate_fits x)"
| "proof_state_answer_fits (ProofStateAmbiguous candidates) \<longleftrightarrow> (\<forall>x \<in> set candidates. target_info_fits x)"
| "proof_state_answer_fits (ProofStateNeedsBuild missing) \<longleftrightarrow> (\<forall>x \<in> set missing. utf8_valid x)"

lemma proof_state_answer_reads [decoder_reads]: "honest_read (\<lambda>mem. proof_state_answer_from_lean mem v)"
  unfolding proof_state_answer_from_lean_def by (intro decoder_reads)

lemma proof_state_answer_layout_read [layout_reads]: "proof_state_answer_fits x \<Longrightarrow> proof_state_answer_from_lean mem (proof_state_answer_layout x) = Inr x"
  by (cases x) (simp_all add: proof_state_answer_from_lean_def layout_reads)

datatype surrounding_answer =
    SurroundedBy target_info
  | NotSurrounded

definition surrounding_answer_from_lean :: "lobj \<Rightarrow> surrounding_answer decoded" where
  "surrounding_answer_from_lean v =
     decoded_bind (sum_tag v) (\<lambda>t.
       if t = 0 then
         decoded_bind (take_ctor_objects v 1 0 ''SurroundingDeclarationResult::declaration'') (\<lambda>os.
         decoded_bind (target_info_from_lean (os ! 0)) (\<lambda>info.
         Inr (SurroundedBy info)))
       else if t = 1 then
         Inr NotSurrounded
       else Inl (conversion_error (''expected Lean SurroundingDeclarationResult ctor (tag 0..=1), found tag '' @ decimal t)))"

fun surrounding_answer_layout :: "surrounding_answer \<Rightarrow> lobj" where
  "surrounding_answer_layout (SurroundedBy info) = Ctor 0 [target_info_layout info] ([])"
| "surrounding_answer_layout NotSurrounded = Boxed 1"

fun surrounding_answer_fits :: "surrounding_answer \<Rightarrow> bool" where
  "surrounding_answer_fits (SurroundedBy info) \<longleftrightarrow> target_info_fits info"
| "surrounding_answer_fits NotSurrounded \<longleftrightarrow> True"

lemma surrounding_answer_reads [decoder_reads]: "honest_read (\<lambda>mem. surrounding_answer_from_lean v)"
  unfolding surrounding_answer_from_lean_def by (intro decoder_reads)

lemma surrounding_answer_layout_read [layout_reads]: "surrounding_answer_fits x \<Longrightarrow> surrounding_answer_from_lean (surrounding_answer_layout x) = Inr x"
  by (cases x) (simp_all add: surrounding_answer_from_lean_def layout_reads)

datatype module_query_answer =
    QrDiagnostics lean_elab_failure
  | QrTypeAt type_at_answer
  | QrGoalAt goal_at_answer
  | QrReferences references_answer

definition module_query_answer_from_lean :: "scalar_memory \<Rightarrow> lobj \<Rightarrow> module_query_answer decoded" where
  "module_query_answer_from_lean mem v =
     decoded_bind (sum_tag v) (\<lambda>t.
       if t = 0 then
         decoded_bind (take_ctor_objects v 1 0 ''ModuleQueryResult::diagnostics'') (\<lambda>os.
         decoded_bind (lean_elab_failure_from_lean mem (os ! 0)) (\<lambda>failure.
         Inr (QrDiagnostics failure)))
       else if t = 1 then
         decoded_bind (take_ctor_objects v 1 1 ''ModuleQueryResult::typeAt'') (\<lambda>os.
         decoded_bind (type_at_answer_from_lean mem (os ! 0)) (\<lambda>result.
         Inr (QrTypeAt result)))
       else if t = 2 then
         decoded_bind (take_ctor_objects v 1 2 ''ModuleQueryResult::goalAt'') (\<lambda>os.
         decoded_bind (goal_at_answer_from_lean mem (os ! 0)) (\<lambda>result.
         Inr (QrGoalAt result)))
       else if t = 3 then
         decoded_bind (take_ctor_objects v 1 3 ''ModuleQueryResult::references'') (\<lambda>os.
         decoded_bind (references_answer_from_lean mem (os ! 0)) (\<lambda>result.
         Inr (QrReferences result)))
       else Inl (conversion_error (''expected Lean ModuleQueryResult ctor (tag 0..=3), found tag '' @ decimal t)))"

fun module_query_answer_layout :: "module_query_answer \<Rightarrow> lobj" where
  "module_query_answer_layout (QrDiagnostics failure) = Ctor 0 [lean_elab_failure_layout failure] ([])"
| "module_query_answer_layout (QrTypeAt result) = Ctor 1 [type_at_answer_layout result] ([])"
| "module_query_answer_layout (QrGoalAt result) = Ctor 2 [goal_at_answer_layout result] ([])"
| "module_query_answer_layout (QrReferences result) = Ctor 3 [references_answer_layout result] ([])"

fun module_query_answer_fits :: "module_query_answer \<Rightarrow> bool" where
  "module_query_answer_fits (QrDiagnostics failure) \<longleftrightarrow> lean_elab_failure_fits failure"
| "module_query_answer_fits (QrTypeAt result) \<longleftrightarrow> type_at_answer_fits result"
| "module_query_answer_fits (QrGoalAt result) \<longleftrightarrow> goal_at_answer_fits result"
| "module_query_answer_fits (QrReferences result) \<longleftrightarrow> references_answer_fits result"

lemma module_query_answer_reads [decoder_reads]: "honest_read (\<lambda>mem. module_query_answer_from_lean mem v)"
  unfolding module_query_answer_from_lean_def by (intro decoder_reads)

lemma module_query_answer_layout_read [layout_reads]: "module_query_answer_fits x \<Longrightarrow> module_query_answer_from_lean mem (module_query_answer_layout x) = Inr x"
  by (cases x) (simp_all add: module_query_answer_from_lean_def layout_reads)

datatype batch_answer =
    BrDiagnostics lean_elab_failure
  | BrProofState proof_state_answer
  | BrTypeAt type_at_answer
  | BrReferences references_answer
  | BrDeclarationTarget target_answer
  | BrSurrounding surrounding_answer
  | BrOutline outline_answer

definition batch_answer_from_lean :: "scalar_memory \<Rightarrow> lobj \<Rightarrow> batch_answer decoded" where
  "batch_answer_from_lean mem v =
     decoded_bind (sum_tag v) (\<lambda>t.
       if t = 0 then
         decoded_bind (take_ctor_objects v 1 0 ''ModuleQueryBatchResult::diagnostics'') (\<lambda>os.
         decoded_bind (lean_elab_failure_from_lean mem (os ! 0)) (\<lambda>failure.
         Inr (BrDiagnostics failure)))
       else if t = 1 then
         decoded_bind (take_ctor_objects v 1 1 ''ModuleQueryBatchResult::proofState'') (\<lambda>os.
         decoded_bind (proof_state_answer_from_lean mem (os ! 0)) (\<lambda>result.
         Inr (BrProofState result)))
       else if t = 2 then
         decoded_bind (take_ctor_objects v 1 2 ''ModuleQueryBatchResult::typeAt'') (\<lambda>os.
         decoded_bind (type_at_answer_from_lean mem (os ! 0)) (\<lambda>result.
         Inr (BrTypeAt result)))
       else if t = 3 then
         decoded_bind (take_ctor_objects v 1 3 ''ModuleQueryBatchResult::references'') (\<lambda>os.
         decoded_bind (references_answer_from_lean mem (os ! 0)) (\<lambda>result.
         Inr (BrReferences result)))
       else if t = 4 then
         decoded_bind (take_ctor_objects v 1 4 ''ModuleQueryBatchResult::declarationTarget'') (\<lambda>os.
         decoded_bind (target_answer_from_lean (os ! 0)) (\<lambda>result.
         Inr (BrDeclarationTarget result)))
       else if t = 5 then
         decoded_bind (take_ctor_objects v 1 5 ''ModuleQueryBatchResult::surroundingDeclaration'') (\<lambda>os.
         decoded_bind (surrounding_answer_from_lean (os ! 0)) (\<lambda>result.
         Inr (BrSurrounding result)))
       else if t = 6 then
         decoded_bind (take_ctor_objects v 1 6 ''ModuleQueryBatchResult::declarationOutline'') (\<lambda>os.
         decoded_bind (outline_answer_from_lean mem (os ! 0)) (\<lambda>result.
         Inr (BrOutline result)))
       else Inl (conversion_error (''expected Lean ModuleQueryBatchResult ctor (tag 0..=6), found tag '' @ decimal t)))"

fun batch_answer_layout :: "batch_answer \<Rightarrow> lobj" where
  "batch_answer_layout (BrDiagnostics failure) = Ctor 0 [lean_elab_failure_layout failure] ([])"
| "batch_answer_layout (BrProofState result) = Ctor 1 [proof_state_answer_layout result] ([])"
| "batch_answer_layout (BrTypeAt result) = Ctor 2 [type_at_answer_layout result] ([])"
| "batch_answer_layout (BrReferences result) = Ctor 3 [references_answer_layout result] ([])"
| "batch_answer_layout (BrDeclarationTarget result) = Ctor 4 [target_answer_layout result] ([])"
| "batch_answer_layout (BrSurrounding result) = Ctor 5 [surrounding_answer_layout result] ([])"
| "batch_answer_layout (BrOutline result) = Ctor 6 [outline_answer_layout result] ([])"

fun batch_answer_fits :: "batch_answer \<Rightarrow> bool" where
  "batch_answer_fits (BrDiagnostics failure) \<longleftrightarrow> lean_elab_failure_fits failure"
| "batch_answer_fits (BrProofState result) \<longleftrightarrow> proof_state_answer_fits result"
| "batch_answer_fits (BrTypeAt result) \<longleftrightarrow> type_at_answer_fits result"
| "batch_answer_fits (BrReferences result) \<longleftrightarrow> references_answer_fits result"
| "batch_answer_fits (BrDeclarationTarget result) \<longleftrightarrow> target_answer_fits result"
| "batch_answer_fits (BrSurrounding result) \<longleftrightarrow> surrounding_answer_fits result"
| "batch_answer_fits (BrOutline result) \<longleftrightarrow> outline_answer_fits result"

lemma batch_answer_reads [decoder_reads]: "honest_read (\<lambda>mem. batch_answer_from_lean mem v)"
  unfolding batch_answer_from_lean_def by (intro decoder_reads)

lemma batch_answer_layout_read [layout_reads]: "batch_answer_fits x \<Longrightarrow> batch_answer_from_lean mem (batch_answer_layout x) = Inr x"
  by (cases x) (simp_all add: batch_answer_from_lean_def layout_reads)

datatype batch_item =
    ItemOk string batch_answer
  | ItemUnavailable string string
  | ItemBudgetExceeded string string

definition batch_item_from_lean :: "scalar_memory \<Rightarrow> lobj \<Rightarrow> batch_item decoded" where
  "batch_item_from_lean mem v =
     decoded_bind (sum_tag v) (\<lambda>t.
       if t = 0 then
         decoded_bind (take_ctor_objects v 2 0 ''ModuleQueryBatchItem::ok'') (\<lambda>os.
         decoded_bind (string_from_lean (os ! 0)) (\<lambda>item_id.
         decoded_bind (batch_answer_from_lean mem (os ! 1)) (\<lambda>result.
         Inr (ItemOk item_id result))))
       else if t = 1 then
         decoded_bind (take_ctor_objects v 2 1 ''ModuleQueryBatchItem::unavailable'') (\<lambda>os.
         decoded_bind (string_from_lean (os ! 0)) (\<lambda>item_id.
         decoded_bind (string_from_lean (os ! 1)) (\<lambda>message.
         Inr (ItemUnavailable item_id message))))
       else if t = 2 then
         decoded_bind (take_ctor_objects v 2 2 ''ModuleQueryBatchItem::budgetExceeded'') (\<lambda>os.
         decoded_bind (string_from_lean (os ! 0)) (\<lambda>item_id.
         decoded_bind (string_from_lean (os ! 1)) (\<lambda>message.
         Inr (ItemBudgetExceeded item_id message))))
       else Inl (conversion_error (''expected Lean ModuleQueryBatchItem ctor (tag 0..=2), found tag '' @ decimal t)))"

fun batch_item_layout :: "batch_item \<Rightarrow> lobj" where
  "batch_item_layout (ItemOk item_id result) = Ctor 0 [LString item_id, batch_answer_layout result] ([])"
| "batch_item_layout (ItemUnavailable item_id message) = Ctor 1 [LString item_id, LString message] ([])"
| "batch_item_layout (ItemBudgetExceeded item_id message) = Ctor 2 [LString item_id, LString message] ([])"

fun batch_item_fits :: "batch_item \<Rightarrow> bool" where
  "batch_item_fits (ItemOk item_id result) \<longleftrightarrow> utf8_valid item_id \<and> batch_answer_fits result"
| "batch_item_fits (ItemUnavailable item_id message) \<longleftrightarrow> utf8_valid item_id \<and> utf8_valid message"
| "batch_item_fits (ItemBudgetExceeded item_id message) \<longleftrightarrow> utf8_valid item_id \<and> utf8_valid message"

lemma batch_item_reads [decoder_reads]: "honest_read (\<lambda>mem. batch_item_from_lean mem v)"
  unfolding batch_item_from_lean_def by (intro decoder_reads)

lemma batch_item_layout_read [layout_reads]: "batch_item_fits x \<Longrightarrow> batch_item_from_lean mem (batch_item_layout x) = Inr x"
  by (cases x) (simp_all add: batch_item_from_lean_def layout_reads)

record batch_envelope =
  bev_items :: "batch_item list"
  bev_total_truncated :: bool

definition batch_envelope_from_lean :: "scalar_memory \<Rightarrow> lobj \<Rightarrow> batch_envelope decoded" where
  "batch_envelope_from_lean mem v =
     decoded_bind (bool_tail mem v 0 ''ModuleQueryBatchEnvelope.totalTruncated'') (\<lambda>total_truncated.
     decoded_bind (take_ctor_objects v 1 0 ''ModuleQueryBatchEnvelope'') (\<lambda>os.
     decoded_bind (array_from_lean (batch_item_from_lean mem) (os ! 0)) (\<lambda>items.
     Inr \<lparr>bev_items = items, bev_total_truncated = total_truncated\<rparr>)))"

definition batch_envelope_layout :: "batch_envelope \<Rightarrow> lobj" where
  "batch_envelope_layout x =
     Ctor 0 [array_into_lean batch_item_layout (bev_items x)]
       ([byte_of_bool (bev_total_truncated x)])"

definition batch_envelope_fits :: "batch_envelope \<Rightarrow> bool" where
  "batch_envelope_fits x \<longleftrightarrow>
     (\<forall>x \<in> set (bev_items x). batch_item_fits x)"

lemma batch_envelope_reads [decoder_reads]: "honest_read (\<lambda>mem. batch_envelope_from_lean mem v)"
  unfolding batch_envelope_from_lean_def by (intro decoder_reads)

lemma batch_envelope_layout_read [layout_reads]: "batch_envelope_fits x \<Longrightarrow> batch_envelope_from_lean mem (batch_envelope_layout x) = Inr x"
  by (cases x) (simp add: batch_envelope_from_lean_def batch_envelope_layout_def batch_envelope_fits_def layout_reads)

datatype query_cache_status = CacheHit | CacheMiss | CacheRebuilt | CacheEvicted

definition query_cache_status_from_scalar :: "nat \<Rightarrow> query_cache_status decoded" where
  "query_cache_status_from_scalar b =
     (if b = 0 then Inr CacheHit
      else if b = 1 then Inr CacheMiss
      else if b = 2 then Inr CacheRebuilt
      else if b = 3 then Inr CacheEvicted
      else Inl (conversion_error (''expected Lean ModuleQueryCacheStatus scalar tag 0..=3, found '' @ decimal b)))"

fun query_cache_status_byte :: "query_cache_status \<Rightarrow> nat" where
  "query_cache_status_byte CacheHit = 0"
| "query_cache_status_byte CacheMiss = 1"
| "query_cache_status_byte CacheRebuilt = 2"
| "query_cache_status_byte CacheEvicted = 3"

lemma query_cache_status_byte_read [layout_reads]: "query_cache_status_from_scalar (query_cache_status_byte x) = Inr x" "query_cache_status_byte x < 256"
  by (cases x; simp add: query_cache_status_from_scalar_def)+

lemma query_cache_status_scalar_read [decoder_reads]: "honest_read (\<lambda>mem. query_cache_status_from_scalar b)"
  unfolding query_cache_status_from_scalar_def by (intro decoder_reads)

record query_timings =
  qtm_header_import_micros :: nat
  qtm_elaboration_micros :: nat
  qtm_projection_micros :: nat
  qtm_rendering_micros :: nat

definition query_timings_from_lean :: "scalar_memory \<Rightarrow> lobj \<Rightarrow> query_timings decoded" where
  "query_timings_from_lean mem v =
     decoded_bind (ctor_shape v 0 0 ''ModuleQueryTimings'') (\<lambda>cv.
     decoded_bind (view_uint64 mem 0 ''ModuleQueryTimings.headerImportMicros'' cv) (\<lambda>header_import_micros.
     decoded_bind (view_uint64 mem 8 ''ModuleQueryTimings.elaborationMicros'' cv) (\<lambda>elaboration_micros.
     decoded_bind (view_uint64 mem 16 ''ModuleQueryTimings.projectionMicros'' cv) (\<lambda>projection_micros.
     decoded_bind (view_uint64 mem 24 ''ModuleQueryTimings.renderingMicros'' cv) (\<lambda>rendering_micros.
     Inr \<lparr>qtm_header_import_micros = header_import_micros, qtm_elaboration_micros = elaboration_micros, qtm_projection_micros = projection_micros, qtm_rendering_micros = rendering_micros\<rparr>)))))"

definition query_timings_layout :: "query_timings \<Rightarrow> lobj" where
  "query_timings_layout x =
     Ctor 0 []
       (le_bytes 8 (qtm_header_import_micros x) @ le_bytes 8 (qtm_elaboration_micros x) @ le_bytes 8 (qtm_projection_micros x) @ le_bytes 8 (qtm_rendering_micros x))"

definition query_timings_fits :: "query_timings \<Rightarrow> bool" where
  "query_timings_fits x \<longleftrightarrow>
     qtm_header_import_micros x < 2 ^ 64 \<and>
     qtm_elaboration_micros x < 2 ^ 64 \<and>
     qtm_projection_micros x < 2 ^ 64 \<and>
     qtm_rendering_micros x < 2 ^ 64"

lemma query_timings_reads [decoder_reads]: "honest_read (\<lambda>mem. query_timings_from_lean mem v)"
  unfolding query_timings_from_lean_def by (intro decoder_reads)

lemma query_timings_layout_read [layout_reads]: "query_timings_fits x \<Longrightarrow> query_timings_from_lean mem (query_timings_layout x) = Inr x"
  by (cases x) (simp add: query_timings_from_lean_def query_timings_layout_def query_timings_fits_def layout_reads nth_append)

record query_cache_facts =
  qcf_cache_status :: query_cache_status
  qcf_timings :: query_timings
  qcf_output_bytes :: nat
  qcf_cache_entry_count :: "nat option"
  qcf_cache_approx_bytes :: "nat option"

definition query_cache_facts_from_lean :: "scalar_memory \<Rightarrow> lobj \<Rightarrow> query_cache_facts decoded" where
  "query_cache_facts_from_lean mem v =
     decoded_bind (ctor_shape v 0 3 ''ModuleQueryCacheFacts'') (\<lambda>cv.
     decoded_bind (view_uint64 mem 0 ''ModuleQueryCacheFacts.outputBytes'' cv) (\<lambda>output_bytes.
     decoded_bind (view_uint8 mem 8 ''ModuleQueryCacheFacts.cacheStatus'' cv) (\<lambda>cache_byte.
     decoded_bind (take_ctor_objects v 3 0 ''ModuleQueryCacheFacts'') (\<lambda>os.
     decoded_bind (query_cache_status_from_scalar cache_byte) (\<lambda>cache_status.
     decoded_bind (query_timings_from_lean mem (os ! 0)) (\<lambda>timings.
     decoded_bind (option_nat_u64 (os ! 1)) (\<lambda>cache_entry_count.
     decoded_bind (option_nat_u64 (os ! 2)) (\<lambda>cache_approx_bytes.
     Inr \<lparr>qcf_cache_status = cache_status, qcf_timings = timings, qcf_output_bytes = output_bytes, qcf_cache_entry_count = cache_entry_count, qcf_cache_approx_bytes = cache_approx_bytes\<rparr>))))))))"

definition query_cache_facts_layout :: "query_cache_facts \<Rightarrow> lobj" where
  "query_cache_facts_layout x =
     Ctor 0 [query_timings_layout (qcf_timings x),
       option_into_lean nat_from_u64 (qcf_cache_entry_count x),
       option_into_lean nat_from_u64 (qcf_cache_approx_bytes x)]
       (le_bytes 8 (qcf_output_bytes x) @ [query_cache_status_byte (qcf_cache_status x)])"

definition query_cache_facts_fits :: "query_cache_facts \<Rightarrow> bool" where
  "query_cache_facts_fits x \<longleftrightarrow>
     query_timings_fits (qcf_timings x) \<and>
     (\<forall>n \<in> set_option (qcf_cache_entry_count x). n < 2 ^ 63) \<and>
     (\<forall>n \<in> set_option (qcf_cache_approx_bytes x). n < 2 ^ 63) \<and>
     qcf_output_bytes x < 2 ^ 64"

lemma query_cache_facts_reads [decoder_reads]: "honest_read (\<lambda>mem. query_cache_facts_from_lean mem v)"
  unfolding query_cache_facts_from_lean_def by (intro decoder_reads)

lemma query_cache_facts_layout_read [layout_reads]: "query_cache_facts_fits x \<Longrightarrow> query_cache_facts_from_lean mem (query_cache_facts_layout x) = Inr x"
  by (cases x) (simp add: query_cache_facts_from_lean_def query_cache_facts_layout_def query_cache_facts_fits_def layout_reads nth_append)

datatype module_query_outcome =
    MqOk module_query_answer "string list"
  | MqMissingImports module_query_answer "string list" "string list"
  | MqHeaderParseFailed lean_elab_failure
  | MqUnsupported

definition module_query_outcome_from_lean :: "scalar_memory \<Rightarrow> lobj \<Rightarrow> module_query_outcome decoded" where
  "module_query_outcome_from_lean mem v =
     decoded_bind (sum_tag v) (\<lambda>t.
       if t = 0 then
         decoded_bind (take_ctor_objects v 2 0 ''ModuleQueryOutcome::ok'') (\<lambda>os.
         decoded_bind (module_query_answer_from_lean mem (os ! 0)) (\<lambda>result.
         decoded_bind (array_from_lean string_from_lean (os ! 1)) (\<lambda>imports.
         Inr (MqOk result imports))))
       else if t = 1 then
         decoded_bind (take_ctor_objects v 3 1 ''ModuleQueryOutcome::missingImports'') (\<lambda>os.
         decoded_bind (module_query_answer_from_lean mem (os ! 0)) (\<lambda>result.
         decoded_bind (array_from_lean string_from_lean (os ! 1)) (\<lambda>imports.
         decoded_bind (array_from_lean string_from_lean (os ! 2)) (\<lambda>missing.
         Inr (MqMissingImports result imports missing)))))
       else if t = 2 then
         decoded_bind (take_ctor_objects v 1 2 ''ModuleQueryOutcome::headerParseFailed'') (\<lambda>os.
         decoded_bind (lean_elab_failure_from_lean mem (os ! 0)) (\<lambda>diagnostics.
         Inr (MqHeaderParseFailed diagnostics)))
       else if t = 3 then
         Inr MqUnsupported
       else Inl (conversion_error (''expected Lean ModuleQueryOutcome ctor (tag 0..=3), found tag '' @ decimal t)))"

fun module_query_outcome_layout :: "module_query_outcome \<Rightarrow> lobj" where
  "module_query_outcome_layout (MqOk result imports) = Ctor 0 [module_query_answer_layout result, array_into_lean LString imports] ([])"
| "module_query_outcome_layout (MqMissingImports result imports missing) = Ctor 1 [module_query_answer_layout result, array_into_lean LString imports, array_into_lean LString missing] ([])"
| "module_query_outcome_layout (MqHeaderParseFailed diagnostics) = Ctor 2 [lean_elab_failure_layout diagnostics] ([])"
| "module_query_outcome_layout MqUnsupported = Boxed 3"

fun module_query_outcome_fits :: "module_query_outcome \<Rightarrow> bool" where
  "module_query_outcome_fits (MqOk result imports) \<longleftrightarrow> module_query_answer_fits result \<and> (\<forall>x \<in> set imports. utf8_valid x)"
| "module_query_outcome_fits (MqMissingImports result imports missing) \<longleftrightarrow> module_query_answer_fits result \<and> (\<forall>x \<in> set imports. utf8_valid x) \<and> (\<forall>x \<in> set missing. utf8_valid x)"
| "module_query_outcome_fits (MqHeaderParseFailed diagnostics) \<longleftrightarrow> lean_elab_failure_fits diagnostics"
| "module_query_outcome_fits MqUnsupported \<longleftrightarrow> True"

lemma module_query_outcome_reads [decoder_reads]: "honest_read (\<lambda>mem. module_query_outcome_from_lean mem v)"
  unfolding module_query_outcome_from_lean_def by (intro decoder_reads)

lemma module_query_outcome_layout_read [layout_reads]: "module_query_outcome_fits x \<Longrightarrow> module_query_outcome_from_lean mem (module_query_outcome_layout x) = Inr x"
  by (cases x) (simp_all add: module_query_outcome_from_lean_def layout_reads)

datatype batch_outcome =
    MbOk batch_envelope "string list"
  | MbMissingImports batch_envelope "string list" "string list"
  | MbHeaderParseFailed lean_elab_failure
  | MbUnsupported

definition batch_outcome_from_lean :: "scalar_memory \<Rightarrow> lobj \<Rightarrow> batch_outcome decoded" where
  "batch_outcome_from_lean mem v =
     decoded_bind (sum_tag v) (\<lambda>t.
       if t = 0 then
         decoded_bind (take_ctor_objects v 2 0 ''ModuleQueryBatchOutcome::ok'') (\<lambda>os.
         decoded_bind (batch_envelope_from_lean mem (os ! 0)) (\<lambda>result.
         decoded_bind (array_from_lean string_from_lean (os ! 1)) (\<lambda>imports.
         Inr (MbOk result imports))))
       else if t = 1 then
         decoded_bind (take_ctor_objects v 3 1 ''ModuleQueryBatchOutcome::missingImports'') (\<lambda>os.
         decoded_bind (batch_envelope_from_lean mem (os ! 0)) (\<lambda>result.
         decoded_bind (array_from_lean string_from_lean (os ! 1)) (\<lambda>imports.
         decoded_bind (array_from_lean string_from_lean (os ! 2)) (\<lambda>missing.
         Inr (MbMissingImports result imports missing)))))
       else if t = 2 then
         decoded_bind (take_ctor_objects v 1 2 ''ModuleQueryBatchOutcome::headerParseFailed'') (\<lambda>os.
         decoded_bind (lean_elab_failure_from_lean mem (os ! 0)) (\<lambda>diagnostics.
         Inr (MbHeaderParseFailed diagnostics)))
       else if t = 3 then
         Inr MbUnsupported
       else Inl (conversion_error (''expected Lean ModuleQueryBatchOutcome ctor (tag 0..=3), found tag '' @ decimal t)))"

fun batch_outcome_layout :: "batch_outcome \<Rightarrow> lobj" where
  "batch_outcome_layout (MbOk result imports) = Ctor 0 [batch_envelope_layout result, array_into_lean LString imports] ([])"
| "batch_outcome_layout (MbMissingImports result imports missing) = Ctor 1 [batch_envelope_layout result, array_into_lean LString imports, array_into_lean LString missing] ([])"
| "batch_outcome_layout (MbHeaderParseFailed diagnostics) = Ctor 2 [lean_elab_failure_layout diagnostics] ([])"
| "batch_outcome_layout MbUnsupported = Boxed 3"

fun batch_outcome_fits :: "batch_outcome \<Rightarrow> bool" where
  "batch_outcome_fits (MbOk result imports) \<longleftrightarrow> batch_envelope_fits result \<and> (\<forall>x \<in> set imports. utf8_valid x)"
| "batch_outcome_fits (MbMissingImports result imports missing) \<longleftrightarrow> batch_envelope_fits result \<and> (\<forall>x \<in> set imports. utf8_valid x) \<and> (\<forall>x \<in> set missing. utf8_valid x)"
| "batch_outcome_fits (MbHeaderParseFailed diagnostics) \<longleftrightarrow> lean_elab_failure_fits diagnostics"
| "batch_outcome_fits MbUnsupported \<longleftrightarrow> True"

lemma batch_outcome_reads [decoder_reads]: "honest_read (\<lambda>mem. batch_outcome_from_lean mem v)"
  unfolding batch_outcome_from_lean_def by (intro decoder_reads)

lemma batch_outcome_layout_read [layout_reads]: "batch_outcome_fits x \<Longrightarrow> batch_outcome_from_lean mem (batch_outcome_layout x) = Inr x"
  by (cases x) (simp_all add: batch_outcome_from_lean_def layout_reads)

datatype batch_cached_outcome =
    McOk batch_envelope "string list" query_cache_facts
  | McMissingImports batch_envelope "string list" "string list" query_cache_facts
  | McHeaderParseFailed lean_elab_failure query_cache_facts
  | McUnsupported

definition batch_cached_outcome_from_lean :: "scalar_memory \<Rightarrow> lobj \<Rightarrow> batch_cached_outcome decoded" where
  "batch_cached_outcome_from_lean mem v =
     decoded_bind (sum_tag v) (\<lambda>t.
       if t = 0 then
         decoded_bind (take_ctor_objects v 3 0 ''ModuleQueryBatchCachedOutcome::ok'') (\<lambda>os.
         decoded_bind (batch_envelope_from_lean mem (os ! 0)) (\<lambda>result.
         decoded_bind (array_from_lean string_from_lean (os ! 1)) (\<lambda>imports.
         decoded_bind (query_cache_facts_from_lean mem (os ! 2)) (\<lambda>facts.
         Inr (McOk result imports facts)))))
       else if t = 1 then
         decoded_bind (take_ctor_objects v 4 1 ''ModuleQueryBatchCachedOutcome::missingImports'') (\<lambda>os.
         decoded_bind (batch_envelope_from_lean mem (os ! 0)) (\<lambda>result.
         decoded_bind (array_from_lean string_from_lean (os ! 1)) (\<lambda>imports.
         decoded_bind (array_from_lean string_from_lean (os ! 2)) (\<lambda>missing.
         decoded_bind (query_cache_facts_from_lean mem (os ! 3)) (\<lambda>facts.
         Inr (McMissingImports result imports missing facts))))))
       else if t = 2 then
         decoded_bind (take_ctor_objects v 2 2 ''ModuleQueryBatchCachedOutcome::headerParseFailed'') (\<lambda>os.
         decoded_bind (lean_elab_failure_from_lean mem (os ! 0)) (\<lambda>diagnostics.
         decoded_bind (query_cache_facts_from_lean mem (os ! 1)) (\<lambda>facts.
         Inr (McHeaderParseFailed diagnostics facts))))
       else if t = 3 then
         Inr McUnsupported
       else Inl (conversion_error (''expected Lean ModuleQueryBatchCachedOutcome ctor (tag 0..=3), found tag '' @ decimal t)))"

fun batch_cached_outcome_layout :: "batch_cached_outcome \<Rightarrow> lobj" where
  "batch_cached_outcome_layout (McOk result imports facts) = Ctor 0 [batch_envelope_layout result, array_into_lean LString imports, query_cache_facts_layout facts] ([])"
| "batch_cached_outcome_layout (McMissingImports result imports missing facts) = Ctor 1 [batch_envelope_layout result, array_into_lean LString imports, array_into_lean LString missing, query_cache_facts_layout facts] ([])"
| "batch_cached_outcome_layout (McHeaderParseFailed diagnostics facts) = Ctor 2 [lean_elab_failure_layout diagnostics, query_cache_facts_layout facts] ([])"
| "batch_cached_outcome_layout McUnsupported = Boxed 3"

fun batch_cached_outcome_fits :: "batch_cached_outcome \<Rightarrow> bool" where
  "batch_cached_outcome_fits (McOk result imports facts) \<longleftrightarrow> batch_envelope_fits result \<and> (\<forall>x \<in> set imports. utf8_valid x) \<and> query_cache_facts_fits facts"
| "batch_cached_outcome_fits (McMissingImports result imports missing facts) \<longleftrightarrow> batch_envelope_fits result \<and> (\<forall>x \<in> set imports. utf8_valid x) \<and> (\<forall>x \<in> set missing. utf8_valid x) \<and> query_cache_facts_fits facts"
| "batch_cached_outcome_fits (McHeaderParseFailed diagnostics facts) \<longleftrightarrow> lean_elab_failure_fits diagnostics \<and> query_cache_facts_fits facts"
| "batch_cached_outcome_fits McUnsupported \<longleftrightarrow> True"

lemma batch_cached_outcome_reads [decoder_reads]: "honest_read (\<lambda>mem. batch_cached_outcome_from_lean mem v)"
  unfolding batch_cached_outcome_from_lean_def by (intro decoder_reads)

lemma batch_cached_outcome_layout_read [layout_reads]: "batch_cached_outcome_fits x \<Longrightarrow> batch_cached_outcome_from_lean mem (batch_cached_outcome_layout x) = Inr x"
  by (cases x) (simp_all add: batch_cached_outcome_from_lean_def layout_reads)

record snapshot_cache_cleared =
  scc_entries_cleared :: nat
  scc_approx_bytes_cleared :: nat

definition snapshot_cache_cleared_from_lean :: "scalar_memory \<Rightarrow> lobj \<Rightarrow> snapshot_cache_cleared decoded" where
  "snapshot_cache_cleared_from_lean mem v =
     decoded_bind (ctor_shape v 0 0 ''ModuleSnapshotCacheClearResult'') (\<lambda>cv.
     decoded_bind (view_uint64 mem 0 ''ModuleSnapshotCacheClearResult.entriesCleared'' cv) (\<lambda>entries_cleared.
     decoded_bind (view_uint64 mem 8 ''ModuleSnapshotCacheClearResult.approxBytesCleared'' cv) (\<lambda>approx_bytes_cleared.
     Inr \<lparr>scc_entries_cleared = entries_cleared, scc_approx_bytes_cleared = approx_bytes_cleared\<rparr>)))"

definition snapshot_cache_cleared_layout :: "snapshot_cache_cleared \<Rightarrow> lobj" where
  "snapshot_cache_cleared_layout x =
     Ctor 0 []
       (le_bytes 8 (scc_entries_cleared x) @ le_bytes 8 (scc_approx_bytes_cleared x))"

definition snapshot_cache_cleared_fits :: "snapshot_cache_cleared \<Rightarrow> bool" where
  "snapshot_cache_cleared_fits x \<longleftrightarrow>
     scc_entries_cleared x < 2 ^ 64 \<and>
     scc_approx_bytes_cleared x < 2 ^ 64"

lemma snapshot_cache_cleared_reads [decoder_reads]: "honest_read (\<lambda>mem. snapshot_cache_cleared_from_lean mem v)"
  unfolding snapshot_cache_cleared_from_lean_def by (intro decoder_reads)

lemma snapshot_cache_cleared_layout_read [layout_reads]: "snapshot_cache_cleared_fits x \<Longrightarrow> snapshot_cache_cleared_from_lean mem (snapshot_cache_cleared_layout x) = Inr x"
  by (cases x) (simp add: snapshot_cache_cleared_from_lean_def snapshot_cache_cleared_layout_def snapshot_cache_cleared_fits_def layout_reads nth_append)

datatype attempt_status = AttemptClosed | AttemptProgressed | AttemptFailed | AttemptTimeout | AttemptBudgetExceeded | NotAttempted | AttemptUnsupported

definition attempt_status_from_scalar :: "nat \<Rightarrow> attempt_status decoded" where
  "attempt_status_from_scalar b =
     (if b = 0 then Inr AttemptClosed
      else if b = 1 then Inr AttemptProgressed
      else if b = 2 then Inr AttemptFailed
      else if b = 3 then Inr AttemptTimeout
      else if b = 4 then Inr AttemptBudgetExceeded
      else if b = 5 then Inr NotAttempted
      else if b = 6 then Inr AttemptUnsupported
      else Inl (conversion_error (''expected Lean ProofAttemptStatus ctor (tag 0..=6), found tag '' @ decimal b)))"

fun attempt_status_byte :: "attempt_status \<Rightarrow> nat" where
  "attempt_status_byte AttemptClosed = 0"
| "attempt_status_byte AttemptProgressed = 1"
| "attempt_status_byte AttemptFailed = 2"
| "attempt_status_byte AttemptTimeout = 3"
| "attempt_status_byte AttemptBudgetExceeded = 4"
| "attempt_status_byte NotAttempted = 5"
| "attempt_status_byte AttemptUnsupported = 6"

lemma attempt_status_byte_read [layout_reads]: "attempt_status_from_scalar (attempt_status_byte x) = Inr x" "attempt_status_byte x < 256"
  by (cases x; simp add: attempt_status_from_scalar_def)+

lemma attempt_status_scalar_read [decoder_reads]: "honest_read (\<lambda>mem. attempt_status_from_scalar b)"
  unfolding attempt_status_from_scalar_def by (intro decoder_reads)

record position_summary =
  pps_index :: nat
  pps_tactic :: lean_rendered_info

definition position_summary_from_lean :: "scalar_memory \<Rightarrow> lobj \<Rightarrow> position_summary decoded" where
  "position_summary_from_lean mem v =
     decoded_bind (take_ctor_objects v 2 0 ''ProofPositionSummary'') (\<lambda>os.
     decoded_bind (u32_from_lean (os ! 0)) (\<lambda>index.
     decoded_bind (lean_rendered_info_from_lean mem (os ! 1)) (\<lambda>tactic.
     Inr \<lparr>pps_index = index, pps_tactic = tactic\<rparr>)))"

definition position_summary_layout :: "position_summary \<Rightarrow> lobj" where
  "position_summary_layout x =
     Ctor 0 [nat_from_u64 (pps_index x),
       lean_rendered_info_layout (pps_tactic x)]
       ([])"

definition position_summary_fits :: "position_summary \<Rightarrow> bool" where
  "position_summary_fits x \<longleftrightarrow>
     (pps_index x) < 2 ^ 32 \<and>
     lean_rendered_info_fits (pps_tactic x)"

lemma position_summary_reads [decoder_reads]: "honest_read (\<lambda>mem. position_summary_from_lean mem v)"
  unfolding position_summary_from_lean_def by (intro decoder_reads)

lemma position_summary_layout_read [layout_reads]: "position_summary_fits x \<Longrightarrow> position_summary_from_lean mem (position_summary_layout x) = Inr x"
  by (cases x) (simp add: position_summary_from_lean_def position_summary_layout_def position_summary_fits_def layout_reads)

record attempt_row =
  atr_row_id :: string
  atr_status :: attempt_status
  atr_candidate_text :: lean_rendered_info
  atr_diagnostics :: lean_elab_failure
  atr_downstream_diagnostics :: lean_elab_failure
  atr_goals :: "lean_rendered_info list"
  atr_declaration :: "target_info option"
  atr_proof_position :: "position_summary option"
  atr_output_truncated :: bool

definition attempt_row_from_lean :: "scalar_memory \<Rightarrow> lobj \<Rightarrow> attempt_row decoded" where
  "attempt_row_from_lean mem v =
     decoded_bind (ctor_shape v 0 7 ''ProofAttemptRow'') (\<lambda>cv.
     decoded_bind (decoded_bind (view_uint8 mem 0 ''ProofAttemptRow.status'' cv) attempt_status_from_scalar) (\<lambda>status.
     decoded_bind (view_bool mem 1 ''ProofAttemptRow.outputTruncated'' cv) (\<lambda>output_truncated.
     decoded_bind (take_ctor_objects v 7 0 ''ProofAttemptRow'') (\<lambda>os.
     decoded_bind (string_from_lean (os ! 0)) (\<lambda>row_id.
     decoded_bind (lean_rendered_info_from_lean mem (os ! 1)) (\<lambda>candidate_text.
     decoded_bind (lean_elab_failure_from_lean mem (os ! 2)) (\<lambda>diagnostics.
     decoded_bind (lean_elab_failure_from_lean mem (os ! 3)) (\<lambda>downstream_diagnostics.
     decoded_bind (array_from_lean (lean_rendered_info_from_lean mem) (os ! 4)) (\<lambda>goals.
     decoded_bind (option_from_lean target_info_from_lean (os ! 5)) (\<lambda>declaration.
     decoded_bind (option_from_lean (position_summary_from_lean mem) (os ! 6)) (\<lambda>proof_position.
     Inr \<lparr>atr_row_id = row_id, atr_status = status, atr_candidate_text = candidate_text, atr_diagnostics = diagnostics, atr_downstream_diagnostics = downstream_diagnostics, atr_goals = goals, atr_declaration = declaration, atr_proof_position = proof_position, atr_output_truncated = output_truncated\<rparr>)))))))))))"

definition attempt_row_layout :: "attempt_row \<Rightarrow> lobj" where
  "attempt_row_layout x =
     Ctor 0 [LString (atr_row_id x),
       lean_rendered_info_layout (atr_candidate_text x),
       lean_elab_failure_layout (atr_diagnostics x),
       lean_elab_failure_layout (atr_downstream_diagnostics x),
       array_into_lean lean_rendered_info_layout (atr_goals x),
       option_into_lean target_info_layout (atr_declaration x),
       option_into_lean position_summary_layout (atr_proof_position x)]
       ([attempt_status_byte (atr_status x)] @ [byte_of_bool (atr_output_truncated x)])"

definition attempt_row_fits :: "attempt_row \<Rightarrow> bool" where
  "attempt_row_fits x \<longleftrightarrow>
     utf8_valid (atr_row_id x) \<and>
     lean_rendered_info_fits (atr_candidate_text x) \<and>
     lean_elab_failure_fits (atr_diagnostics x) \<and>
     lean_elab_failure_fits (atr_downstream_diagnostics x) \<and>
     (\<forall>x \<in> set (atr_goals x). lean_rendered_info_fits x) \<and>
     (\<forall>x \<in> set_option (atr_declaration x). target_info_fits x) \<and>
     (\<forall>x \<in> set_option (atr_proof_position x). position_summary_fits x)"

lemma attempt_row_reads [decoder_reads]: "honest_read (\<lambda>mem. attempt_row_from_lean mem v)"
  unfolding attempt_row_from_lean_def by (intro decoder_reads)

lemma attempt_row_layout_read [layout_reads]: "attempt_row_fits x \<Longrightarrow> attempt_row_from_lean mem (attempt_row_layout x) = Inr x"
  by (cases x) (simp add: attempt_row_from_lean_def attempt_row_layout_def attempt_row_fits_def layout_reads)

record attempt_envelope =
  aev_candidates :: "attempt_row list"
  aev_candidate_limit :: nat
  aev_candidates_truncated :: bool
  aev_entry_goals :: "lean_rendered_info list"
  aev_locals :: "lean_local_info list"

definition attempt_envelope_from_lean :: "scalar_memory \<Rightarrow> lobj \<Rightarrow> attempt_envelope decoded" where
  "attempt_envelope_from_lean mem v =
     decoded_bind (bool_tail mem v 0 ''ProofAttemptEnvelope.candidatesTruncated'') (\<lambda>candidates_truncated.
     decoded_bind (take_ctor_objects v 4 0 ''ProofAttemptEnvelope'') (\<lambda>os.
     decoded_bind (array_from_lean (attempt_row_from_lean mem) (os ! 0)) (\<lambda>candidates.
     decoded_bind (u32_from_lean (os ! 1)) (\<lambda>candidate_limit.
     decoded_bind (array_from_lean (lean_rendered_info_from_lean mem) (os ! 2)) (\<lambda>entry_goals.
     decoded_bind (array_from_lean (lean_local_info_from_lean mem) (os ! 3)) (\<lambda>locals.
     Inr \<lparr>aev_candidates = candidates, aev_candidate_limit = candidate_limit, aev_candidates_truncated = candidates_truncated, aev_entry_goals = entry_goals, aev_locals = locals\<rparr>))))))"

definition attempt_envelope_layout :: "attempt_envelope \<Rightarrow> lobj" where
  "attempt_envelope_layout x =
     Ctor 0 [array_into_lean attempt_row_layout (aev_candidates x),
       nat_from_u64 (aev_candidate_limit x),
       array_into_lean lean_rendered_info_layout (aev_entry_goals x),
       array_into_lean lean_local_info_layout (aev_locals x)]
       ([byte_of_bool (aev_candidates_truncated x)])"

definition attempt_envelope_fits :: "attempt_envelope \<Rightarrow> bool" where
  "attempt_envelope_fits x \<longleftrightarrow>
     (\<forall>x \<in> set (aev_candidates x). attempt_row_fits x) \<and>
     (aev_candidate_limit x) < 2 ^ 32 \<and>
     (\<forall>x \<in> set (aev_entry_goals x). lean_rendered_info_fits x) \<and>
     (\<forall>x \<in> set (aev_locals x). lean_local_info_fits x)"

lemma attempt_envelope_reads [decoder_reads]: "honest_read (\<lambda>mem. attempt_envelope_from_lean mem v)"
  unfolding attempt_envelope_from_lean_def by (intro decoder_reads)

lemma attempt_envelope_layout_read [layout_reads]: "attempt_envelope_fits x \<Longrightarrow> attempt_envelope_from_lean mem (attempt_envelope_layout x) = Inr x"
  by (cases x) (simp add: attempt_envelope_from_lean_def attempt_envelope_layout_def attempt_envelope_fits_def layout_reads)

datatype proof_attempt_outcome =
    PaOk attempt_envelope "string list"
  | PaMissingImports attempt_envelope "string list" "string list"
  | PaHeaderParseFailed lean_elab_failure
  | PaUnsupported

definition proof_attempt_outcome_from_lean :: "scalar_memory \<Rightarrow> lobj \<Rightarrow> proof_attempt_outcome decoded" where
  "proof_attempt_outcome_from_lean mem v =
     decoded_bind (sum_tag v) (\<lambda>t.
       if t = 0 then
         decoded_bind (take_ctor_objects v 2 0 ''ProofAttemptOutcome::ok'') (\<lambda>os.
         decoded_bind (attempt_envelope_from_lean mem (os ! 0)) (\<lambda>result.
         decoded_bind (array_from_lean string_from_lean (os ! 1)) (\<lambda>imports.
         Inr (PaOk result imports))))
       else if t = 1 then
         decoded_bind (take_ctor_objects v 3 1 ''ProofAttemptOutcome::missingImports'') (\<lambda>os.
         decoded_bind (attempt_envelope_from_lean mem (os ! 0)) (\<lambda>result.
         decoded_bind (array_from_lean string_from_lean (os ! 1)) (\<lambda>imports.
         decoded_bind (array_from_lean string_from_lean (os ! 2)) (\<lambda>missing.
         Inr (PaMissingImports result imports missing)))))
       else if t = 2 then
         decoded_bind (take_ctor_objects v 1 2 ''ProofAttemptOutcome::headerParseFailed'') (\<lambda>os.
         decoded_bind (lean_elab_failure_from_lean mem (os ! 0)) (\<lambda>diagnostics.
         Inr (PaHeaderParseFailed diagnostics)))
       else if t = 3 then
         Inr PaUnsupported
       else Inl (conversion_error (''expected Lean ProofAttemptOutcome ctor (tag 0..=3), found tag '' @ decimal t)))"

fun proof_attempt_outcome_layout :: "proof_attempt_outcome \<Rightarrow> lobj" where
  "proof_attempt_outcome_layout (PaOk result imports) = Ctor 0 [attempt_envelope_layout result, array_into_lean LString imports] ([])"
| "proof_attempt_outcome_layout (PaMissingImports result imports missing) = Ctor 1 [attempt_envelope_layout result, array_into_lean LString imports, array_into_lean LString missing] ([])"
| "proof_attempt_outcome_layout (PaHeaderParseFailed diagnostics) = Ctor 2 [lean_elab_failure_layout diagnostics] ([])"
| "proof_attempt_outcome_layout PaUnsupported = Boxed 3"

fun proof_attempt_outcome_fits :: "proof_attempt_outcome \<Rightarrow> bool" where
  "proof_attempt_outcome_fits (PaOk result imports) \<longleftrightarrow> attempt_envelope_fits result \<and> (\<forall>x \<in> set imports. utf8_valid x)"
| "proof_attempt_outcome_fits (PaMissingImports result imports missing) \<longleftrightarrow> attempt_envelope_fits result \<and> (\<forall>x \<in> set imports. utf8_valid x) \<and> (\<forall>x \<in> set missing. utf8_valid x)"
| "proof_attempt_outcome_fits (PaHeaderParseFailed diagnostics) \<longleftrightarrow> lean_elab_failure_fits diagnostics"
| "proof_attempt_outcome_fits PaUnsupported \<longleftrightarrow> True"

lemma proof_attempt_outcome_reads [decoder_reads]: "honest_read (\<lambda>mem. proof_attempt_outcome_from_lean mem v)"
  unfolding proof_attempt_outcome_from_lean_def by (intro decoder_reads)

lemma proof_attempt_outcome_layout_read [layout_reads]: "proof_attempt_outcome_fits x \<Longrightarrow> proof_attempt_outcome_from_lean mem (proof_attempt_outcome_layout x) = Inr x"
  by (cases x) (simp_all add: proof_attempt_outcome_from_lean_def layout_reads)

datatype verification_target =
    TargetName string
  | TargetSpan lean_source_span

definition verification_target_from_lean :: "lobj \<Rightarrow> verification_target decoded" where
  "verification_target_from_lean v =
     decoded_bind (sum_tag v) (\<lambda>t.
       if t = 0 then
         decoded_bind (take_ctor_objects v 1 0 ''DeclarationVerificationTarget::name'') (\<lambda>os.
         decoded_bind (string_from_lean (os ! 0)) (\<lambda>name.
         Inr (TargetName name)))
       else if t = 1 then
         decoded_bind (take_ctor_objects v 1 1 ''DeclarationVerificationTarget::span'') (\<lambda>os.
         decoded_bind (lean_source_span_from_lean (os ! 0)) (\<lambda>span.
         Inr (TargetSpan span)))
       else Inl (conversion_error (''expected Lean DeclarationVerificationTarget ctor (tag 0..=1), found tag '' @ decimal t)))"

fun verification_target_layout :: "verification_target \<Rightarrow> lobj" where
  "verification_target_layout (TargetName name) = Ctor 0 [LString name] ([])"
| "verification_target_layout (TargetSpan span) = Ctor 1 [lean_source_span_layout span] ([])"

fun verification_target_fits :: "verification_target \<Rightarrow> bool" where
  "verification_target_fits (TargetName name) \<longleftrightarrow> utf8_valid name"
| "verification_target_fits (TargetSpan span) \<longleftrightarrow> lean_source_span_fits span"

lemma verification_target_reads [decoder_reads]: "honest_read (\<lambda>mem. verification_target_from_lean v)"
  unfolding verification_target_from_lean_def by (intro decoder_reads)

lemma verification_target_layout_read [layout_reads]: "verification_target_fits x \<Longrightarrow> verification_target_from_lean (verification_target_layout x) = Inr x"
  by (cases x) (simp_all add: verification_target_from_lean_def layout_reads)

datatype verify_status = VsAccepted | VsRejected | VsNotFound | VsAmbiguous | VsTimeout | VsBudgetExceeded | VsUnsupported | VsNeedsBuild

definition verify_status_from_scalar :: "nat \<Rightarrow> verify_status decoded" where
  "verify_status_from_scalar b =
     (if b = 0 then Inr VsAccepted
      else if b = 1 then Inr VsRejected
      else if b = 2 then Inr VsNotFound
      else if b = 3 then Inr VsAmbiguous
      else if b = 4 then Inr VsTimeout
      else if b = 5 then Inr VsBudgetExceeded
      else if b = 6 then Inr VsUnsupported
      else if b = 7 then Inr VsNeedsBuild
      else Inl (conversion_error (''expected Lean DeclarationVerificationStatus ctor (tag 0..=7), found tag '' @ decimal b)))"

fun verify_status_byte :: "verify_status \<Rightarrow> nat" where
  "verify_status_byte VsAccepted = 0"
| "verify_status_byte VsRejected = 1"
| "verify_status_byte VsNotFound = 2"
| "verify_status_byte VsAmbiguous = 3"
| "verify_status_byte VsTimeout = 4"
| "verify_status_byte VsBudgetExceeded = 5"
| "verify_status_byte VsUnsupported = 6"
| "verify_status_byte VsNeedsBuild = 7"

lemma verify_status_byte_read [layout_reads]: "verify_status_from_scalar (verify_status_byte x) = Inr x" "verify_status_byte x < 256"
  by (cases x; simp add: verify_status_from_scalar_def)+

lemma verify_status_scalar_read [decoder_reads]: "honest_read (\<lambda>mem. verify_status_from_scalar b)"
  unfolding verify_status_from_scalar_def by (intro decoder_reads)

record verify_facts =
  vfx_target :: "target_info option"
  vfx_diagnostics :: lean_elab_failure
  vfx_unresolved_goals :: "lean_rendered_info list"
  vfx_contains_sorry :: bool
  vfx_contains_admit :: bool
  vfx_contains_sorry_ax :: bool
  vfx_axioms :: "string list"
  vfx_axioms_truncated :: bool
  vfx_output_truncated :: bool
  vfx_candidates :: "target_info list"
  vfx_axioms_available :: bool

definition verify_facts_from_lean :: "scalar_memory \<Rightarrow> lobj \<Rightarrow> verify_facts decoded" where
  "verify_facts_from_lean mem v =
     decoded_bind (bool_tail mem v 0 ''DeclarationVerificationFacts.containsSorry'') (\<lambda>contains_sorry.
     decoded_bind (bool_tail mem v 1 ''DeclarationVerificationFacts.containsAdmit'') (\<lambda>contains_admit.
     decoded_bind (bool_tail mem v 2 ''DeclarationVerificationFacts.containsSorryAx'') (\<lambda>contains_sorry_ax.
     decoded_bind (bool_tail mem v 3 ''DeclarationVerificationFacts.axiomsTruncated'') (\<lambda>axioms_truncated.
     decoded_bind (bool_tail mem v 4 ''DeclarationVerificationFacts.outputTruncated'') (\<lambda>output_truncated.
     decoded_bind (bool_tail mem v 5 ''DeclarationVerificationFacts.axiomsAvailable'') (\<lambda>axioms_available.
     decoded_bind (take_ctor_objects v 5 0 ''DeclarationVerificationFacts'') (\<lambda>os.
     decoded_bind (option_from_lean target_info_from_lean (os ! 0)) (\<lambda>target.
     decoded_bind (lean_elab_failure_from_lean mem (os ! 1)) (\<lambda>diagnostics.
     decoded_bind (array_from_lean (lean_rendered_info_from_lean mem) (os ! 2)) (\<lambda>unresolved_goals.
     decoded_bind (array_from_lean string_from_lean (os ! 3)) (\<lambda>axioms.
     decoded_bind (array_from_lean target_info_from_lean (os ! 4)) (\<lambda>candidates.
     Inr \<lparr>vfx_target = target, vfx_diagnostics = diagnostics, vfx_unresolved_goals = unresolved_goals, vfx_contains_sorry = contains_sorry, vfx_contains_admit = contains_admit, vfx_contains_sorry_ax = contains_sorry_ax, vfx_axioms = axioms, vfx_axioms_truncated = axioms_truncated, vfx_output_truncated = output_truncated, vfx_candidates = candidates, vfx_axioms_available = axioms_available\<rparr>))))))))))))"

definition verify_facts_layout :: "verify_facts \<Rightarrow> lobj" where
  "verify_facts_layout x =
     Ctor 0 [option_into_lean target_info_layout (vfx_target x),
       lean_elab_failure_layout (vfx_diagnostics x),
       array_into_lean lean_rendered_info_layout (vfx_unresolved_goals x),
       array_into_lean LString (vfx_axioms x),
       array_into_lean target_info_layout (vfx_candidates x)]
       ([byte_of_bool (vfx_contains_sorry x)] @ [byte_of_bool (vfx_contains_admit x)] @ [byte_of_bool (vfx_contains_sorry_ax x)] @ [byte_of_bool (vfx_axioms_truncated x)] @ [byte_of_bool (vfx_output_truncated x)] @ [byte_of_bool (vfx_axioms_available x)])"

definition verify_facts_fits :: "verify_facts \<Rightarrow> bool" where
  "verify_facts_fits x \<longleftrightarrow>
     (\<forall>x \<in> set_option (vfx_target x). target_info_fits x) \<and>
     lean_elab_failure_fits (vfx_diagnostics x) \<and>
     (\<forall>x \<in> set (vfx_unresolved_goals x). lean_rendered_info_fits x) \<and>
     (\<forall>x \<in> set (vfx_axioms x). utf8_valid x) \<and>
     (\<forall>x \<in> set (vfx_candidates x). target_info_fits x)"

lemma verify_facts_reads [decoder_reads]: "honest_read (\<lambda>mem. verify_facts_from_lean mem v)"
  unfolding verify_facts_from_lean_def by (intro decoder_reads)

lemma verify_facts_layout_read [layout_reads]: "verify_facts_fits x \<Longrightarrow> verify_facts_from_lean mem (verify_facts_layout x) = Inr x"
  by (cases x) (simp add: verify_facts_from_lean_def verify_facts_layout_def verify_facts_fits_def layout_reads)

datatype verification_outcome =
    VoOk verify_status verify_facts "string list"
  | VoMissingImports verify_status verify_facts "string list" "string list"
  | VoHeaderParseFailed lean_elab_failure
  | VoUnsupported

definition verification_outcome_from_lean :: "scalar_memory \<Rightarrow> lobj \<Rightarrow> verification_outcome decoded" where
  "verification_outcome_from_lean mem v =
     decoded_bind (sum_tag v) (\<lambda>t.
       if t = 0 then
         decoded_bind (ctor_shape v 0 2 ''DeclarationVerificationOutcome::ok'') (\<lambda>cv.
         decoded_bind (decoded_bind (view_uint8 mem 0 ''DeclarationVerificationOutcome::ok.status'' cv) verify_status_from_scalar) (\<lambda>status.
         decoded_bind (take_ctor_objects v 2 0 ''DeclarationVerificationOutcome::ok'') (\<lambda>os.
         decoded_bind (verify_facts_from_lean mem (os ! 0)) (\<lambda>facts.
         decoded_bind (array_from_lean string_from_lean (os ! 1)) (\<lambda>imports.
         Inr (VoOk status facts imports))))))
       else if t = 1 then
         decoded_bind (ctor_shape v 1 3 ''DeclarationVerificationOutcome::missingImports'') (\<lambda>cv.
         decoded_bind (decoded_bind (view_uint8 mem 0 ''DeclarationVerificationOutcome::missingImports.status'' cv) verify_status_from_scalar) (\<lambda>status.
         decoded_bind (take_ctor_objects v 3 1 ''DeclarationVerificationOutcome::missingImports'') (\<lambda>os.
         decoded_bind (verify_facts_from_lean mem (os ! 0)) (\<lambda>facts.
         decoded_bind (array_from_lean string_from_lean (os ! 1)) (\<lambda>imports.
         decoded_bind (array_from_lean string_from_lean (os ! 2)) (\<lambda>missing.
         Inr (VoMissingImports status facts imports missing)))))))
       else if t = 2 then
         decoded_bind (take_ctor_objects v 1 2 ''DeclarationVerificationOutcome::headerParseFailed'') (\<lambda>os.
         decoded_bind (lean_elab_failure_from_lean mem (os ! 0)) (\<lambda>diagnostics.
         Inr (VoHeaderParseFailed diagnostics)))
       else if t = 3 then
         Inr VoUnsupported
       else Inl (conversion_error (''expected Lean DeclarationVerificationOutcome ctor (tag 0..=3), found tag '' @ decimal t)))"

fun verification_outcome_layout :: "verification_outcome \<Rightarrow> lobj" where
  "verification_outcome_layout (VoOk status facts imports) = Ctor 0 [verify_facts_layout facts, array_into_lean LString imports] ([verify_status_byte (status)])"
| "verification_outcome_layout (VoMissingImports status facts imports missing) = Ctor 1 [verify_facts_layout facts, array_into_lean LString imports, array_into_lean LString missing] ([verify_status_byte (status)])"
| "verification_outcome_layout (VoHeaderParseFailed diagnostics) = Ctor 2 [lean_elab_failure_layout diagnostics] ([])"
| "verification_outcome_layout VoUnsupported = Boxed 3"

fun verification_outcome_fits :: "verification_outcome \<Rightarrow> bool" where
  "verification_outcome_fits (VoOk status facts imports) \<longleftrightarrow> verify_facts_fits facts \<and> (\<forall>x \<in> set imports. utf8_valid x)"
| "verification_outcome_fits (VoMissingImports status facts imports missing) \<longleftrightarrow> verify_facts_fits facts \<and> (\<forall>x \<in> set imports. utf8_valid x) \<and> (\<forall>x \<in> set missing. utf8_valid x)"
| "verification_outcome_fits (VoHeaderParseFailed diagnostics) \<longleftrightarrow> lean_elab_failure_fits diagnostics"
| "verification_outcome_fits VoUnsupported \<longleftrightarrow> True"

lemma verification_outcome_reads [decoder_reads]: "honest_read (\<lambda>mem. verification_outcome_from_lean mem v)"
  unfolding verification_outcome_from_lean_def by (intro decoder_reads)

lemma verification_outcome_layout_read [layout_reads]: "verification_outcome_fits x \<Longrightarrow> verification_outcome_from_lean mem (verification_outcome_layout x) = Inr x"
  by (cases x) (simp_all add: verification_outcome_from_lean_def layout_reads)

record verify_row =
  vrw_row_id :: string
  vrw_target :: verification_target
  vrw_status :: verify_status
  vrw_facts :: verify_facts

definition verify_row_from_lean :: "scalar_memory \<Rightarrow> lobj \<Rightarrow> verify_row decoded" where
  "verify_row_from_lean mem v =
     decoded_bind (ctor_shape v 0 3 ''DeclarationVerificationBatchRow'') (\<lambda>cv.
     decoded_bind (decoded_bind (view_uint8 mem 0 ''DeclarationVerificationBatchRow.status'' cv) verify_status_from_scalar) (\<lambda>status.
     decoded_bind (take_ctor_objects v 3 0 ''DeclarationVerificationBatchRow'') (\<lambda>os.
     decoded_bind (string_from_lean (os ! 0)) (\<lambda>row_id.
     decoded_bind (verification_target_from_lean (os ! 1)) (\<lambda>target.
     decoded_bind (verify_facts_from_lean mem (os ! 2)) (\<lambda>facts.
     Inr \<lparr>vrw_row_id = row_id, vrw_target = target, vrw_status = status, vrw_facts = facts\<rparr>))))))"

definition verify_row_layout :: "verify_row \<Rightarrow> lobj" where
  "verify_row_layout x =
     Ctor 0 [LString (vrw_row_id x),
       verification_target_layout (vrw_target x),
       verify_facts_layout (vrw_facts x)]
       ([verify_status_byte (vrw_status x)])"

definition verify_row_fits :: "verify_row \<Rightarrow> bool" where
  "verify_row_fits x \<longleftrightarrow>
     utf8_valid (vrw_row_id x) \<and>
     verification_target_fits (vrw_target x) \<and>
     verify_facts_fits (vrw_facts x)"

lemma verify_row_reads [decoder_reads]: "honest_read (\<lambda>mem. verify_row_from_lean mem v)"
  unfolding verify_row_from_lean_def by (intro decoder_reads)

lemma verify_row_layout_read [layout_reads]: "verify_row_fits x \<Longrightarrow> verify_row_from_lean mem (verify_row_layout x) = Inr x"
  by (cases x) (simp add: verify_row_from_lean_def verify_row_layout_def verify_row_fits_def layout_reads)

datatype verification_batch_outcome =
    VbOk "verify_row list" "string list"
  | VbMissingImports "verify_row list" "string list" "string list"
  | VbHeaderParseFailed lean_elab_failure
  | VbUnsupported

definition verification_batch_outcome_from_lean :: "scalar_memory \<Rightarrow> lobj \<Rightarrow> verification_batch_outcome decoded" where
  "verification_batch_outcome_from_lean mem v =
     decoded_bind (sum_tag v) (\<lambda>t.
       if t = 0 then
         decoded_bind (take_ctor_objects v 2 0 ''DeclarationVerificationBatchOutcome::ok'') (\<lambda>os.
         decoded_bind (array_from_lean (verify_row_from_lean mem) (os ! 0)) (\<lambda>results.
         decoded_bind (array_from_lean string_from_lean (os ! 1)) (\<lambda>imports.
         Inr (VbOk results imports))))
       else if t = 1 then
         decoded_bind (take_ctor_objects v 3 1 ''DeclarationVerificationBatchOutcome::missingImports'') (\<lambda>os.
         decoded_bind (array_from_lean (verify_row_from_lean mem) (os ! 0)) (\<lambda>results.
         decoded_bind (array_from_lean string_from_lean (os ! 1)) (\<lambda>imports.
         decoded_bind (array_from_lean string_from_lean (os ! 2)) (\<lambda>missing.
         Inr (VbMissingImports results imports missing)))))
       else if t = 2 then
         decoded_bind (take_ctor_objects v 1 2 ''DeclarationVerificationBatchOutcome::headerParseFailed'') (\<lambda>os.
         decoded_bind (lean_elab_failure_from_lean mem (os ! 0)) (\<lambda>diagnostics.
         Inr (VbHeaderParseFailed diagnostics)))
       else if t = 3 then
         Inr VbUnsupported
       else Inl (conversion_error (''expected Lean DeclarationVerificationBatchOutcome ctor (tag 0..=3), found tag '' @ decimal t)))"

fun verification_batch_outcome_layout :: "verification_batch_outcome \<Rightarrow> lobj" where
  "verification_batch_outcome_layout (VbOk results imports) = Ctor 0 [array_into_lean verify_row_layout results, array_into_lean LString imports] ([])"
| "verification_batch_outcome_layout (VbMissingImports results imports missing) = Ctor 1 [array_into_lean verify_row_layout results, array_into_lean LString imports, array_into_lean LString missing] ([])"
| "verification_batch_outcome_layout (VbHeaderParseFailed diagnostics) = Ctor 2 [lean_elab_failure_layout diagnostics] ([])"
| "verification_batch_outcome_layout VbUnsupported = Boxed 3"

fun verification_batch_outcome_fits :: "verification_batch_outcome \<Rightarrow> bool" where
  "verification_batch_outcome_fits (VbOk results imports) \<longleftrightarrow> (\<forall>x \<in> set results. verify_row_fits x) \<and> (\<forall>x \<in> set imports. utf8_valid x)"
| "verification_batch_outcome_fits (VbMissingImports results imports missing) \<longleftrightarrow> (\<forall>x \<in> set results. verify_row_fits x) \<and> (\<forall>x \<in> set imports. utf8_valid x) \<and> (\<forall>x \<in> set missing. utf8_valid x)"
| "verification_batch_outcome_fits (VbHeaderParseFailed diagnostics) \<longleftrightarrow> lean_elab_failure_fits diagnostics"
| "verification_batch_outcome_fits VbUnsupported \<longleftrightarrow> True"

lemma verification_batch_outcome_reads [decoder_reads]: "honest_read (\<lambda>mem. verification_batch_outcome_from_lean mem v)"
  unfolding verification_batch_outcome_from_lean_def by (intro decoder_reads)

lemma verification_batch_outcome_layout_read [layout_reads]: "verification_batch_outcome_fits x \<Longrightarrow> verification_batch_outcome_from_lean mem (verification_batch_outcome_layout x) = Inr x"
  by (cases x) (simp_all add: verification_batch_outcome_from_lean_def layout_reads)

section \<open>Requests\<close>

record output_budgets =
  ob_per_field_bytes :: nat
  ob_total_bytes :: nat

definition output_budgets_new :: output_budgets where
  "output_budgets_new = \<lparr>ob_per_field_bytes = 8 * 1024, ob_total_bytes = 64 * 1024\<rparr>"

definition budgets_normalized :: "output_budgets \<Rightarrow> output_budgets" where
  "budgets_normalized b =
     \<lparr>ob_per_field_bytes = clamp_output_budget (ob_per_field_bytes b),
      ob_total_bytes = clamp_output_budget (ob_total_bytes b)\<rparr>"

definition with_per_field_bytes :: "output_budgets \<Rightarrow> nat \<Rightarrow> output_budgets" where
  "with_per_field_bytes b bytes = b\<lparr>ob_per_field_bytes := clamp_output_budget bytes\<rparr>"

definition with_total_bytes :: "output_budgets \<Rightarrow> nat \<Rightarrow> output_budgets" where
  "with_total_bytes b bytes = b\<lparr>ob_total_bytes := clamp_output_budget bytes\<rparr>"

definition output_budgets_into_lean :: "output_budgets \<Rightarrow> lobj" where
  "output_budgets_into_lean b =
     (let n = budgets_normalized b
      in alloc_ctor_with_objects 0 [u32_into_lean (ob_per_field_bytes n), u32_into_lean (ob_total_bytes n)])"

datatype module_query = QueryDiagnostics | QueryTypeAt nat nat | QueryGoalAt nat nat | QueryReferences string

fun module_query_into_lean :: "module_query \<Rightarrow> lobj" where
  "module_query_into_lean QueryDiagnostics = small_into_lean W8 0"
| "module_query_into_lean (QueryTypeAt line column) = alloc_ctor_with_objects 1 [u32_into_lean line, u32_into_lean column]"
| "module_query_into_lean (QueryGoalAt line column) = alloc_ctor_with_objects 2 [u32_into_lean line, u32_into_lean column]"
| "module_query_into_lean (QueryReferences name) = alloc_ctor_with_objects 3 [string_into_lean name]"

datatype position_selector = PositionDefault | PositionIndex nat | PositionAfterText string "nat option" | PositionEntry

fun position_selector_into_lean :: "position_selector \<Rightarrow> lobj" where
  "position_selector_into_lean PositionDefault = small_into_lean W8 0"
| "position_selector_into_lean (PositionIndex index) = alloc_ctor_with_objects 1 [u32_into_lean index]"
| "position_selector_into_lean (PositionAfterText text occurrence) =
     alloc_ctor_with_objects 2 [string_into_lean text, option_into_lean u32_into_lean occurrence]"
| "position_selector_into_lean PositionEntry = small_into_lean W8 3"

datatype query_selector =
    SelDiagnostics string
  | SelProofState string nat nat
  | SelProofStateIn string string position_selector bool
  | SelTypeAt string nat nat
  | SelReferences string string
  | SelDeclarationTarget string "string option" "nat option" "nat option"
  | SelSurrounding string nat nat
  | SelOutline string

fun query_selector_id :: "query_selector \<Rightarrow> string" where
  "query_selector_id (SelDiagnostics i) = i"
| "query_selector_id (SelProofState i line column) = i"
| "query_selector_id (SelProofStateIn i declaration pos locals_raw) = i"
| "query_selector_id (SelTypeAt i line column) = i"
| "query_selector_id (SelReferences i name) = i"
| "query_selector_id (SelDeclarationTarget i name line column) = i"
| "query_selector_id (SelSurrounding i line column) = i"
| "query_selector_id (SelOutline i) = i"

fun query_selector_into_lean :: "query_selector \<Rightarrow> lobj" where
  "query_selector_into_lean (SelDiagnostics i) = alloc_ctor_with_objects 0 [string_into_lean i]"
| "query_selector_into_lean (SelProofState i line column) =
     alloc_ctor_with_objects 1 [string_into_lean i, u32_into_lean line, u32_into_lean column]"
| "query_selector_into_lean (SelTypeAt i line column) =
     alloc_ctor_with_objects 2 [string_into_lean i, u32_into_lean line, u32_into_lean column]"
| "query_selector_into_lean (SelReferences i name) = alloc_ctor_with_objects 3 [string_into_lean i, string_into_lean name]"
| "query_selector_into_lean (SelDeclarationTarget i name line column) =
     alloc_ctor_with_objects 4
       [string_into_lean i, option_into_lean string_into_lean name, option_into_lean u32_into_lean line,
        option_into_lean u32_into_lean column]"
| "query_selector_into_lean (SelSurrounding i line column) =
     alloc_ctor_with_objects 5 [string_into_lean i, u32_into_lean line, u32_into_lean column]"
| "query_selector_into_lean (SelProofStateIn i declaration pos locals_raw) =
     alloc_ctor_with_objects 6
       [string_into_lean i, string_into_lean declaration, position_selector_into_lean pos,
        u32_into_lean (if locals_raw then 1 else 0)]"
| "query_selector_into_lean (SelOutline i) = alloc_ctor_with_objects 7 [string_into_lean i]"

definition source_span_into_lean :: "lean_source_span \<Rightarrow> lobj" where
  "source_span_into_lean s =
     alloc_ctor_with_objects 0
       [u32_into_lean (ssp_start_line s), u32_into_lean (ssp_start_column s), u32_into_lean (ssp_end_line s),
        u32_into_lean (ssp_end_column s)]"

fun verification_target_into_lean :: "verification_target \<Rightarrow> lobj" where
  "verification_target_into_lean (TargetName name) = alloc_ctor_with_objects 0 [string_into_lean name]"
| "verification_target_into_lean (TargetSpan span) = alloc_ctor_with_objects 1 [source_span_into_lean span]"

text \<open>\<open>ProofEditTarget\<close> has the one constructor \<open>Declaration\<close>.\<close>

record proof_edit =
  ped_name :: string
  ped_position :: position_selector

record proof_try =
  ptr_id :: string
  ptr_text :: string

record attempt_request =
  arq_source :: string
  arq_edit :: proof_edit
  arq_candidates :: "proof_try list"
  arq_budgets :: output_budgets

definition proof_edit_into_lean :: "proof_edit \<Rightarrow> lobj" where
  "proof_edit_into_lean e =
     alloc_ctor_with_objects 0 [string_into_lean (ped_name e), position_selector_into_lean (ped_position e)]"

definition proof_try_into_lean :: "proof_try \<Rightarrow> lobj" where
  "proof_try_into_lean c = alloc_ctor_with_objects 0 [string_into_lean (ptr_id c), string_into_lean (ptr_text c)]"

definition attempt_request_into_lean :: "attempt_request \<Rightarrow> lobj" where
  "attempt_request_into_lean r =
     alloc_ctor_with_objects 0
       [string_into_lean (arq_source r), proof_edit_into_lean (arq_edit r),
        array_into_lean proof_try_into_lean (arq_candidates r), output_budgets_into_lean (arq_budgets r)]"

datatype sorry_rule = SorryAllow | SorryDeny

fun sorry_rule_into_lean :: "sorry_rule \<Rightarrow> lobj" where
  "sorry_rule_into_lean SorryAllow = u32_into_lean 0"
| "sorry_rule_into_lean SorryDeny = u32_into_lean 1"

record verification_request =
  vrq_source :: string
  vrq_target :: verification_target
  vrq_sorry :: sorry_rule
  vrq_report_axioms :: bool
  vrq_budgets :: output_budgets

definition verification_request_into_lean :: "verification_request \<Rightarrow> lobj" where
  "verification_request_into_lean r =
     alloc_ctor_with_objects 0
       [string_into_lean (vrq_source r), verification_target_into_lean (vrq_target r), sorry_rule_into_lean (vrq_sorry r),
        u32_into_lean (if vrq_report_axioms r then 1 else 0), output_budgets_into_lean (vrq_budgets r)]"

record verification_item =
  vit_id :: string
  vit_target :: verification_target

record verification_batch_request =
  vbq_source :: string
  vbq_targets :: "verification_item list"
  vbq_sorry :: sorry_rule
  vbq_report_axioms :: bool
  vbq_budgets :: output_budgets

definition verification_item_into_lean :: "verification_item \<Rightarrow> lobj" where
  "verification_item_into_lean i =
     alloc_ctor_with_objects 0 [string_into_lean (vit_id i), verification_target_into_lean (vit_target i)]"

definition verification_batch_request_into_lean :: "verification_batch_request \<Rightarrow> lobj" where
  "verification_batch_request_into_lean r =
     alloc_ctor_with_objects 0
       [string_into_lean (vbq_source r), array_into_lean verification_item_into_lean (vbq_targets r),
        sorry_rule_into_lean (vbq_sorry r), u32_into_lean (if vbq_report_axioms r then 1 else 0),
        output_budgets_into_lean (vbq_budgets r)]"

section \<open>Encodings are unambiguous\<close>

definition budgets_ok :: "output_budgets \<Rightarrow> bool" where
  "budgets_ok b \<longleftrightarrow> ob_per_field_bytes b \<le> LEAN_DIAGNOSTIC_BYTE_LIMIT_MAX \<and> ob_total_bytes b \<le> LEAN_DIAGNOSTIC_BYTE_LIMIT_MAX"

fun position_selector_ok :: "position_selector \<Rightarrow> bool" where
  "position_selector_ok (PositionIndex index) \<longleftrightarrow> index < 2 ^ 32"
| "position_selector_ok (PositionAfterText text occurrence) \<longleftrightarrow> (\<forall>n \<in> set_option occurrence. n < 2 ^ 32)"
| "position_selector_ok _ \<longleftrightarrow> True"

fun module_query_ok :: "module_query \<Rightarrow> bool" where
  "module_query_ok (QueryTypeAt line column) \<longleftrightarrow> line < 2 ^ 32 \<and> column < 2 ^ 32"
| "module_query_ok (QueryGoalAt line column) \<longleftrightarrow> line < 2 ^ 32 \<and> column < 2 ^ 32"
| "module_query_ok _ \<longleftrightarrow> True"

fun query_selector_ok :: "query_selector \<Rightarrow> bool" where
  "query_selector_ok (SelProofState i line column) \<longleftrightarrow> line < 2 ^ 32 \<and> column < 2 ^ 32"
| "query_selector_ok (SelTypeAt i line column) \<longleftrightarrow> line < 2 ^ 32 \<and> column < 2 ^ 32"
| "query_selector_ok (SelSurrounding i line column) \<longleftrightarrow> line < 2 ^ 32 \<and> column < 2 ^ 32"
| "query_selector_ok (SelDeclarationTarget i name line column) \<longleftrightarrow>
     (\<forall>n \<in> set_option line. n < 2 ^ 32) \<and> (\<forall>n \<in> set_option column. n < 2 ^ 32)"
| "query_selector_ok (SelProofStateIn i declaration pos locals_raw) \<longleftrightarrow> position_selector_ok pos"
| "query_selector_ok _ \<longleftrightarrow> True"

lemma small_box [simp]: "small_into_lean W8 0 = Boxed 0" "small_into_lean W8 3 = Boxed 3"
  by (simp_all add: small_into_lean_def lean_box_def to_unsigned_def)

interpretation budgets_encoding: request_encoding output_budgets_into_lean budgets_ok
proof
  fix x y
  assume "budgets_ok x" "budgets_ok y" "output_budgets_into_lean x = output_budgets_into_lean y"
  then show "x = y"
    by (simp add: output_budgets_into_lean_def Let_def budgets_normalized_def clamp_output_budget_def budgets_ok_def
      LEAN_DIAGNOSTIC_BYTE_LIMIT_MAX_def encoding_simps)
qed

interpretation position_encoding: request_encoding position_selector_into_lean position_selector_ok
proof
  fix x y
  assume "position_selector_ok x" "position_selector_ok y" "position_selector_into_lean x = position_selector_into_lean y"
  then show "x = y" by (cases x; cases y) (simp_all add: encoding_simps)
qed

interpretation query_encoding: request_encoding module_query_into_lean module_query_ok
proof
  fix x y
  assume "module_query_ok x" "module_query_ok y" "module_query_into_lean x = module_query_into_lean y"
  then show "x = y" by (cases x; cases y) (simp_all add: encoding_simps)
qed

interpretation selector_encoding: request_encoding query_selector_into_lean query_selector_ok
proof
  fix x y
  assume "query_selector_ok x" "query_selector_ok y" "query_selector_into_lean x = query_selector_into_lean y"
  then show "x = y" by (cases x; cases y) (simp_all add: encoding_simps split: if_splits)
qed

interpretation target_encoding: request_encoding verification_target_into_lean verification_target_fits
proof
  fix x y
  assume "verification_target_fits x" "verification_target_fits y"
    "verification_target_into_lean x = verification_target_into_lean y"
  then show "x = y"
    by (cases x; cases y) (simp_all add: encoding_simps source_span_into_lean_def lean_source_span_fits_def)
qed

definition attempt_request_ok :: "attempt_request \<Rightarrow> bool" where
  "attempt_request_ok r \<longleftrightarrow> position_selector_ok (ped_position (arq_edit r)) \<and> budgets_ok (arq_budgets r)"

interpretation try_encoding: request_encoding proof_try_into_lean "\<lambda>_. True"
  by unfold_locales (simp add: proof_try_into_lean_def encoding_simps)

interpretation attempt_encoding: request_encoding attempt_request_into_lean attempt_request_ok
proof
  fix x y
  assume "attempt_request_ok x" "attempt_request_ok y" "attempt_request_into_lean x = attempt_request_into_lean y"
  then show "x = y"
    by (simp add: attempt_request_into_lean_def proof_edit_into_lean_def attempt_request_ok_def try_encoding.arrays
      encoding_simps)
qed

lemma sorry_rule_encoding: "sorry_rule_into_lean a = sorry_rule_into_lean b \<longleftrightarrow> a = b"
  by (cases a; cases b) simp_all

lemma flag_encoding: "u32_into_lean (if a then 1 else 0) = u32_into_lean (if b then 1 else 0) \<longleftrightarrow> a = b"
  by simp

definition verification_request_ok :: "verification_request \<Rightarrow> bool" where
  "verification_request_ok r \<longleftrightarrow> verification_target_fits (vrq_target r) \<and> budgets_ok (vrq_budgets r)"

interpretation verification_encoding: request_encoding verification_request_into_lean verification_request_ok
proof
  fix x y
  assume "verification_request_ok x" "verification_request_ok y"
    "verification_request_into_lean x = verification_request_into_lean y"
  then show "x = y"
    by (simp add: verification_request_into_lean_def verification_request_ok_def sorry_rule_encoding flag_encoding
      encoding_simps del: if_split)
qed

definition verification_batch_request_ok :: "verification_batch_request \<Rightarrow> bool" where
  "verification_batch_request_ok r \<longleftrightarrow>
     (\<forall>i \<in> set (vbq_targets r). verification_target_fits (vit_target i)) \<and> budgets_ok (vbq_budgets r)"

interpretation item_encoding: request_encoding verification_item_into_lean "\<lambda>i. verification_target_fits (vit_target i)"
  by unfold_locales (simp add: verification_item_into_lean_def encoding_simps)

interpretation verification_batch_encoding:
  request_encoding verification_batch_request_into_lean verification_batch_request_ok
proof
  fix x y
  assume "verification_batch_request_ok x" "verification_batch_request_ok y"
    "verification_batch_request_into_lean x = verification_batch_request_into_lean y"
  then show "x = y"
    by (simp add: verification_batch_request_into_lean_def verification_batch_request_ok_def sorry_rule_encoding
      flag_encoding item_encoding.arrays encoding_simps del: if_split)
qed

text \<open>Requests that differ only above the cap are sent alike.\<close>

lemma budgets_are_capped:
  "output_budgets_into_lean b = output_budgets_into_lean (budgets_normalized b)" "budgets_ok (budgets_normalized b)"
  by (simp_all add: output_budgets_into_lean_def budgets_normalized_def clamp_output_budget_def budgets_ok_def)

lemma budgets_on_the_wire:
  "output_budgets_into_lean \<lparr>ob_per_field_bytes = m, ob_total_bytes = n\<rparr>
     = Ctor 0 [Boxed (min m (1024 * 1024)), Boxed (min n (1024 * 1024))] []"
  "output_budgets_into_lean (with_total_bytes (with_per_field_bytes output_budgets_new m) n)
     = output_budgets_into_lean \<lparr>ob_per_field_bytes = m, ob_total_bytes = n\<rparr>"
  by (simp_all add: output_budgets_into_lean_def budgets_normalized_def clamp_output_budget_def u32_into_lean_def
    small_into_lean_def lean_box_def to_unsigned_def alloc_ctor_with_objects_def LEAN_DIAGNOSTIC_BYTE_LIMIT_MAX_def
    with_total_bytes_def with_per_field_bytes_def output_budgets_new_def)

section \<open>Interfaces\<close>

text \<open>Every outcome of the query, attempt and verification shims is a result in the sense of \<open>Host_Results\<close>.\<close>

interpretation module_query_result: shim_result module_query_outcome_from_lean module_query_outcome_layout module_query_outcome_fits
  by unfold_locales (rule module_query_outcome_reads, rule module_query_outcome_layout_read)

interpretation batch_result: shim_result batch_outcome_from_lean batch_outcome_layout batch_outcome_fits
  by unfold_locales (rule batch_outcome_reads, rule batch_outcome_layout_read)

interpretation cached_result: shim_result batch_cached_outcome_from_lean batch_cached_outcome_layout batch_cached_outcome_fits
  by unfold_locales (rule batch_cached_outcome_reads, rule batch_cached_outcome_layout_read)

interpretation cleared_result: shim_result snapshot_cache_cleared_from_lean snapshot_cache_cleared_layout snapshot_cache_cleared_fits
  by unfold_locales (rule snapshot_cache_cleared_reads, rule snapshot_cache_cleared_layout_read)

interpretation attempt_result: shim_result proof_attempt_outcome_from_lean proof_attempt_outcome_layout proof_attempt_outcome_fits
  by unfold_locales (rule proof_attempt_outcome_reads, rule proof_attempt_outcome_layout_read)

interpretation verification_result: shim_result verification_outcome_from_lean verification_outcome_layout verification_outcome_fits
  by unfold_locales (rule verification_outcome_reads, rule verification_outcome_layout_read)

interpretation verify_rows_result: shim_result verification_batch_outcome_from_lean verification_batch_outcome_layout verification_batch_outcome_fits
  by unfold_locales (rule verification_batch_outcome_reads, rule verification_batch_outcome_layout_read)

section \<open>Properties\<close>


definition sample_span :: lean_source_span where
  "sample_span = \<lparr>ssp_start_line = 3, ssp_start_column = 1, ssp_end_line = 5, ssp_end_column = 9\<rparr>"

definition sample_failure :: lean_elab_failure where
  "sample_failure =
     \<lparr>lf_diagnostics =
        [\<lparr>ld_severity = SeverityError, ld_message = ''unsolved goals'',
          ld_position = Some \<lparr>lp_line = 4, lp_column = 2, lp_end_line = Some 4, lp_end_column = None\<rparr>,
          ld_file_label = ''Demo.lean''\<rparr>],
      lf_truncated = False\<rparr>"

definition sample_target :: target_info where
  "sample_target =
     \<lparr>tgi_short_name = ''two'', tgi_declaration_name = ''Demo.two'', tgi_namespace_name = ''Demo'',
      tgi_declaration_kind = ''theorem'', tgi_declaration_span = sample_span, tgi_name_span = sample_span,
      tgi_body_span = sample_span\<rparr>"

definition sample_row :: attempt_row where
  "sample_row =
     \<lparr>atr_row_id = ''c1'', atr_status = AttemptFailed, atr_candidate_text = \<lparr>lri_value = ''simp'', lri_truncated = False\<rparr>,
      atr_diagnostics = sample_failure, atr_downstream_diagnostics = sample_failure,
      atr_goals = [\<lparr>lri_value = ''p'', lri_truncated = True\<rparr>], atr_declaration = Some sample_target,
      atr_proof_position = Some \<lparr>pps_index = 1, pps_tactic = \<lparr>lri_value = ''intro'', lri_truncated = False\<rparr>\<rparr>,
      atr_output_truncated = True\<rparr>"

definition sample_envelope :: attempt_envelope where
  "sample_envelope =
     \<lparr>aev_candidates = [sample_row], aev_candidate_limit = 8, aev_candidates_truncated = False, aev_entry_goals = [],
      aev_locals = [\<lparr>lli_name = ''h'', lli_binder_info = ''default'',
         lli_type_str = \<lparr>lri_value = ''p'', lri_truncated = False\<rparr>, lli_local_value = None\<rparr>]\<rparr>"

definition sample_facts :: verify_facts where
  "sample_facts =
     \<lparr>vfx_target = Some sample_target, vfx_diagnostics = sample_failure, vfx_unresolved_goals = [],
      vfx_contains_sorry = True, vfx_contains_admit = False, vfx_contains_sorry_ax = True, vfx_axioms = [''sorryAx''],
      vfx_axioms_truncated = False, vfx_output_truncated = True, vfx_candidates = [], vfx_axioms_available = True\<rparr>"

definition sample_cache_facts :: query_cache_facts where
  "sample_cache_facts =
     \<lparr>qcf_cache_status = CacheRebuilt,
      qcf_timings = \<lparr>qtm_header_import_micros = 7, qtm_elaboration_micros = 300, qtm_projection_micros = 2,
        qtm_rendering_micros = 1\<rparr>,
      qcf_output_bytes = 513, qcf_cache_entry_count = Some 4, qcf_cache_approx_bytes = None\<rparr>"

lemmas sample_simps = sample_span_def sample_failure_def sample_target_def sample_row_def sample_envelope_def
  sample_facts_def sample_cache_facts_def

lemma sample_texts:
  "utf8_valid ''unsolved goals''" "utf8_valid ''Demo.lean''" "utf8_valid ''two''" "utf8_valid ''Demo.two''"
  "utf8_valid ''Demo''" "utf8_valid ''theorem''" "utf8_valid ''c1''" "utf8_valid ''simp''" "utf8_valid ''p''"
  "utf8_valid ''intro''" "utf8_valid ''h''" "utf8_valid ''default''" "utf8_valid ''sorryAx''" "utf8_valid ''Init''"
  by code_simp+

lemma sample_failure_fits: "lean_elab_failure_fits sample_failure"
  by (simp add: sample_failure_def lean_elab_failure_fits_def lean_diagnostic_fits_def lean_position_fits_def sample_texts
    LEAN_ERROR_MESSAGE_LIMIT_def del: utf8_valid.simps)

lemma sample_target_fits: "target_info_fits sample_target"
  by (simp add: sample_target_def sample_span_def target_info_fits_def lean_source_span_fits_def sample_texts del: utf8_valid.simps)

lemma sample_row_fits: "attempt_row_fits sample_row"
  by (simp add: sample_row_def attempt_row_fits_def sample_failure_fits sample_target_fits lean_rendered_info_fits_def
    position_summary_fits_def sample_texts del: utf8_valid.simps)

lemma sample_envelope_fits: "attempt_envelope_fits sample_envelope"
  by (simp add: sample_envelope_def attempt_envelope_fits_def sample_row_fits lean_rendered_info_fits_def
    lean_local_info_fits_def sample_texts del: utf8_valid.simps)

lemma sample_facts_fits: "verify_facts_fits sample_facts"
  by (simp add: sample_facts_def verify_facts_fits_def sample_failure_fits sample_target_fits sample_texts del: utf8_valid.simps)

lemma sample_cache_facts_fits: "query_cache_facts_fits sample_cache_facts"
  by (simp add: sample_cache_facts_def query_cache_facts_fits_def query_timings_fits_def)



text \<open>Requests arrive intact: two attempt, verification, selector or query values in range are encoded as the same
  Lean object only when they are the same value, and the output budgets on the wire are the caller's capped at
  \<open>LEAN_DIAGNOSTIC_BYTE_LIMIT_MAX\<close>, whether set through the setters or written as a struct literal.\<close>

theorem requests_arrive_intact:
  assumes "module_query_ok q" "module_query_ok q'" "query_selector_ok s" "query_selector_ok s'"
    and "attempt_request_ok a" "attempt_request_ok a'" "verification_request_ok v" "verification_request_ok v'"
    and "verification_batch_request_ok b" "verification_batch_request_ok b'"
  shows "(module_query_into_lean q = module_query_into_lean q' \<longleftrightarrow> q = q')
    \<and> (query_selector_into_lean s = query_selector_into_lean s' \<longleftrightarrow> s = s')
    \<and> (attempt_request_into_lean a = attempt_request_into_lean a' \<longleftrightarrow> a = a')
    \<and> (verification_request_into_lean v = verification_request_into_lean v' \<longleftrightarrow> v = v')
    \<and> (verification_batch_request_into_lean b = verification_batch_request_into_lean b' \<longleftrightarrow> b = b')
    \<and> output_budgets_into_lean \<lparr>ob_per_field_bytes = m, ob_total_bytes = n\<rparr>
         = Ctor 0 [Boxed (min m (1024 * 1024)), Boxed (min n (1024 * 1024))] []
    \<and> output_budgets_into_lean (with_total_bytes (with_per_field_bytes output_budgets_new m) n)
         = output_budgets_into_lean \<lparr>ob_per_field_bytes = m, ob_total_bytes = n\<rparr>"
  using assms
  by (simp add: query_encoding.same selector_encoding.same attempt_encoding.same verification_encoding.same
    verification_batch_encoding.same budgets_on_the_wire)

definition sample_attempt :: "nat \<Rightarrow> attempt_request" where
  "sample_attempt k =
     \<lparr>arq_source = ''theorem two'', arq_edit = \<lparr>ped_name = ''Demo.two'', ped_position = PositionIndex k\<rparr>,
      arq_candidates = [\<lparr>ptr_id = ''c1'', ptr_text = ''simp''\<rparr>], arq_budgets = output_budgets_new\<rparr>"

definition sample_request :: "sorry_rule \<Rightarrow> verification_request" where
  "sample_request rule =
     \<lparr>vrq_source = ''theorem two'', vrq_target = TargetSpan sample_span, vrq_sorry = rule, vrq_report_axioms = True,
      vrq_budgets = output_budgets_new\<rparr>"

definition sample_batch :: "string \<Rightarrow> verification_batch_request" where
  "sample_batch i =
     \<lparr>vbq_source = ''theorem two'', vbq_targets = [\<lparr>vit_id = i, vit_target = TargetName ''Demo.two''\<rparr>],
      vbq_sorry = SorryDeny, vbq_report_axioms = False, vbq_budgets = output_budgets_new\<rparr>"

lemma requests_arrive_intact_witness:
  "query_selector_into_lean (SelProofState ''s'' 3 7) \<noteq> query_selector_into_lean (SelProofState ''s'' 7 3)
    \<and> attempt_request_into_lean (sample_attempt 0) \<noteq> attempt_request_into_lean (sample_attempt 1)
    \<and> verification_request_into_lean (sample_request SorryAllow) \<noteq> verification_request_into_lean (sample_request SorryDeny)
    \<and> verification_batch_request_into_lean (sample_batch ''a'') \<noteq> verification_batch_request_into_lean (sample_batch ''b'')"
proof -
  have budgets: "budgets_ok output_budgets_new"
    by (simp add: budgets_ok_def output_budgets_new_def LEAN_DIAGNOSTIC_BYTE_LIMIT_MAX_def)
  have ranges:
    "module_query_ok (QueryTypeAt 3 7)" "module_query_ok (QueryGoalAt 3 7)"
    "query_selector_ok (SelProofState ''s'' 3 7)" "query_selector_ok (SelProofState ''s'' 7 3)"
    "attempt_request_ok (sample_attempt 0)" "attempt_request_ok (sample_attempt 1)"
    "verification_request_ok (sample_request SorryAllow)" "verification_request_ok (sample_request SorryDeny)"
    "verification_batch_request_ok (sample_batch ''a'')" "verification_batch_request_ok (sample_batch ''b'')"
    using budgets
    by (simp_all add: attempt_request_ok_def verification_request_ok_def verification_batch_request_ok_def sample_attempt_def
      sample_request_def sample_batch_def sample_span_def lean_source_span_fits_def sample_texts del: utf8_valid.simps)
  have distinct: "sample_attempt 0 \<noteq> sample_attempt 1" "sample_request SorryAllow \<noteq> sample_request SorryDeny"
    "sample_batch ''a'' \<noteq> sample_batch ''b''"
    by (simp_all add: sample_attempt_def sample_request_def sample_batch_def)
  show ?thesis using requests_arrive_intact [OF ranges, of 0 0] distinct by simp
qed

end
