(* ===== verification/Search_Results.thy ===== *)
theory Search_Results
  imports Host_Results
begin

text \<open>
  Declaration search and inspection (\<open>declaration_search.rs\<close> of \<open>lean-rs-host\<close>): the decoders of what the
  shims return, and the requests sent to them.  Lean sends every flag of these structures as a \<open>Nat\<close> and every
  score as text.
\<close>

definition bool_from_nat :: "lobj \<Rightarrow> bool decoded" where
  "bool_from_nat v = decoded_bind (nat_try_to_usize v) (\<lambda>n. Inr (n \<noteq> 0))"

definition natbool_layout :: "bool \<Rightarrow> lobj" where
  "natbool_layout b = nat_from_u64 (if b then 1 else 0)"

text \<open>\<open>str::parse::<i32>\<close> and \<open>i32::to_string\<close>.\<close>

definition parse_i32 :: "string \<Rightarrow> int option" where
  "parse_i32 s =
     (if s \<noteq> [] \<and> hd s = CHR ''-''
      then (if tl s = [] then None else map_option (\<lambda>n. - int n) (parse_digits (2 ^ 31) 0 (tl s)))
      else map_option int (parse_unsigned (2 ^ 31 - 1) s))"

definition i32_text :: "int \<Rightarrow> string" where
  "i32_text i = (if i < 0 then CHR ''-'' # decimal (nat (- i)) else decimal (nat i))"

definition i32_range :: "int \<Rightarrow> bool" where
  "i32_range i \<longleftrightarrow> - (2 ^ 31) \<le> i \<and> i < 2 ^ 31"

definition score_from_lean :: "lobj \<Rightarrow> int decoded" where
  "score_from_lean v =
     decoded_bind (string_from_lean v) (\<lambda>s.
       case parse_i32 s of Some i \<Rightarrow> Inr i | None \<Rightarrow> Inl (conversion_error ''score does not fit i32''))"

definition score_layout :: "int \<Rightarrow> lobj" where
  "score_layout i = LString (i32_text i)"

definition statement_rendering_from_lean :: "lobj \<Rightarrow> bool option decoded" where
  "statement_rendering_from_lean v =
     decoded_bind (sum_tag v) (\<lambda>t.
       if t = 0 then Inr None
       else if t = 1 then
         decoded_bind (take_ctor_objects v 1 1 ''DeclarationInspection.statementRendering'') (\<lambda>os.
         decoded_bind (bool_from_nat (os ! 0)) (\<lambda>b.
         Inr (Some b)))
       else Inl (conversion_error (''expected Lean Option ctor (tag 0..=1) for statementRendering, found tag '' @ decimal t)))"

lemma bool_from_nat_reads [decoder_reads]: "honest_read (\<lambda>mem. bool_from_nat v)"
  unfolding bool_from_nat_def by (intro decoder_reads)

lemma statement_rendering_reads [decoder_reads]: "honest_read (\<lambda>mem. statement_rendering_from_lean v)"
  unfolding statement_rendering_from_lean_def by (intro decoder_reads)

lemma score_reads [decoder_reads]: "honest_read (\<lambda>mem. score_from_lean v)"
  unfolding score_from_lean_def
proof (rule honest_bind)
  show "honest_read (\<lambda>mem. case parse_i32 s of Some i \<Rightarrow> Inr i | None \<Rightarrow> Inl (conversion_error ''score does not fit i32''))" for s
    by (cases "parse_i32 s") (simp_all add: honest_const)
qed (rule decoder_reads)

lemma bool_from_nat_layout [layout_reads]: "bool_from_nat (natbool_layout b) = Inr b"
  by (simp add: bool_from_nat_def natbool_layout_def layout_reads)

lemma statement_rendering_layout [layout_reads]:
  "statement_rendering_from_lean (option_into_lean natbool_layout ox) = Inr ox"
  by (cases ox)
    (simp_all add: statement_rendering_from_lean_def option_into_lean_def lean_box_def alloc_ctor_with_objects_def layout_reads)

lemma decimal_ascii: "set (decimal n) \<subseteq> digit ` {..<10}"
proof (induction n rule: decimal.induct)
  case (1 n)
  then show ?case by (subst decimal.simps) auto
qed

lemma parse_i32_text: "i32_range i \<Longrightarrow> parse_i32 (i32_text i) = Some i"
proof (cases "i < 0")
  case True
  assume "i32_range i"
  then have "nat (- i) \<le> 2 ^ 31" by (simp add: i32_range_def nat_le_iff)
  from parse_digits_decimal [OF this] True show ?thesis by (simp add: parse_i32_def i32_text_def)
next
  case False
  assume "i32_range i"
  with False have "nat i \<le> 2 ^ 31 - 1" by (simp add: i32_range_def)
  from parse_unsigned_decimal [OF this] have "parse_unsigned (2 ^ 31 - 1) (decimal (nat i)) = Some (nat i)" .
  moreover have "hd (decimal (nat i)) \<noteq> CHR ''-''"
  proof -
    have "hd (decimal (nat i)) \<in> digit ` {..<10}"
      using decimal_ascii [of "nat i"] hd_in_set [OF decimal_nonempty] by blast
    then obtain d :: nat where "d < 10" "hd (decimal (nat i)) = digit d" by auto
    then show ?thesis using digit_value_digit [of d] by (auto simp: digit_value_def)
  qed
  ultimately show ?thesis
    using False by (simp add: parse_i32_def i32_text_def)
qed

lemma ascii_valid: "\<forall>c \<in> set s. (of_char c :: nat) < 128 \<Longrightarrow> utf8_valid s"
  by (induction s) (simp_all add: utf8_tail_def)

lemma digit_below_128: "d < 10 \<Longrightarrow> (of_char (digit d) :: nat) < 128"
  using digit_value_digit [of d] by (auto simp: digit_value_def split: if_splits)

lemma score_layout_read [layout_reads]: "i32_range i \<Longrightarrow> score_from_lean (score_layout i) = Inr i"
proof -
  assume range: "i32_range i"
  have "\<forall>c \<in> set (decimal n). (of_char c :: nat) < 128" for n using decimal_ascii [of n] digit_below_128 by fastforce
  then have "utf8_valid (i32_text i)" by (intro ascii_valid) (simp add: i32_text_def)
  then show ?thesis by (simp add: score_from_lean_def score_layout_def layout_reads parse_i32_text [OF range])
qed

section \<open>Results\<close>

record search_flags =
  sfl_is_private :: bool
  sfl_is_generated :: bool
  sfl_is_internal :: bool

definition search_flags_from_lean :: "lobj \<Rightarrow> search_flags decoded" where
  "search_flags_from_lean v =
     decoded_bind (take_ctor_objects v 3 0 ''DeclarationFlags'') (\<lambda>os.
     decoded_bind (bool_from_nat (os ! 0)) (\<lambda>is_private.
     decoded_bind (bool_from_nat (os ! 1)) (\<lambda>is_generated.
     decoded_bind (bool_from_nat (os ! 2)) (\<lambda>is_internal.
     Inr \<lparr>sfl_is_private = is_private, sfl_is_generated = is_generated, sfl_is_internal = is_internal\<rparr>))))"

definition search_flags_layout :: "search_flags \<Rightarrow> lobj" where
  "search_flags_layout x =
     Ctor 0 [natbool_layout (sfl_is_private x),
       natbool_layout (sfl_is_generated x),
       natbool_layout (sfl_is_internal x)]
       ([])"

definition search_flags_fits :: "search_flags \<Rightarrow> bool" where
  "search_flags_fits x \<longleftrightarrow>
     True"

lemma search_flags_reads [decoder_reads]: "honest_read (\<lambda>mem. search_flags_from_lean v)"
  unfolding search_flags_from_lean_def by (intro decoder_reads)

lemma search_flags_layout_read [layout_reads]: "search_flags_fits x \<Longrightarrow> search_flags_from_lean (search_flags_layout x) = Inr x"
  by (cases x) (simp add: search_flags_from_lean_def search_flags_layout_def search_flags_fits_def layout_reads)

record search_row =
  srw_name :: string
  srw_kind :: string
  srw_row_module :: "string option"
  srw_source :: "lean_source_range option"
  srw_match_reason :: string
  srw_score :: int
  srw_rank :: nat
  srw_flags :: search_flags

definition search_row_from_lean :: "lobj \<Rightarrow> search_row decoded" where
  "search_row_from_lean v =
     decoded_bind (take_ctor_objects v 8 0 ''DeclarationSearchRow'') (\<lambda>os.
     decoded_bind (string_from_lean (os ! 0)) (\<lambda>name.
     decoded_bind (string_from_lean (os ! 1)) (\<lambda>kind.
     decoded_bind (option_from_lean string_from_lean (os ! 2)) (\<lambda>row_module.
     decoded_bind (option_from_lean lean_source_range_from_lean (os ! 3)) (\<lambda>source.
     decoded_bind (string_from_lean (os ! 4)) (\<lambda>match_reason.
     decoded_bind (score_from_lean (os ! 5)) (\<lambda>score.
     decoded_bind (nat_try_to_usize (os ! 6)) (\<lambda>rank.
     decoded_bind (search_flags_from_lean (os ! 7)) (\<lambda>flags.
     Inr \<lparr>srw_name = name, srw_kind = kind, srw_row_module = row_module, srw_source = source, srw_match_reason = match_reason, srw_score = score, srw_rank = rank, srw_flags = flags\<rparr>)))))))))"

definition search_row_layout :: "search_row \<Rightarrow> lobj" where
  "search_row_layout x =
     Ctor 0 [LString (srw_name x),
       LString (srw_kind x),
       option_into_lean LString (srw_row_module x),
       option_into_lean lean_source_range_layout (srw_source x),
       LString (srw_match_reason x),
       score_layout (srw_score x),
       nat_from_u64 (srw_rank x),
       search_flags_layout (srw_flags x)]
       ([])"

definition search_row_fits :: "search_row \<Rightarrow> bool" where
  "search_row_fits x \<longleftrightarrow>
     utf8_valid (srw_name x) \<and>
     utf8_valid (srw_kind x) \<and>
     (\<forall>x \<in> set_option (srw_row_module x). utf8_valid x) \<and>
     (\<forall>x \<in> set_option (srw_source x). lean_source_range_fits x) \<and>
     utf8_valid (srw_match_reason x) \<and>
     i32_range (srw_score x) \<and>
     (srw_rank x) < 2 ^ 63 \<and>
     search_flags_fits (srw_flags x)"

lemma search_row_reads [decoder_reads]: "honest_read (\<lambda>mem. search_row_from_lean v)"
  unfolding search_row_from_lean_def by (intro decoder_reads)

lemma search_row_layout_read [layout_reads]: "search_row_fits x \<Longrightarrow> search_row_from_lean (search_row_layout x) = Inr x"
  by (cases x) (simp add: search_row_from_lean_def search_row_layout_def search_row_fits_def layout_reads)

record search_pruning =
  spr_stage :: string
  spr_reason :: string
  spr_pruned_count :: nat

definition search_pruning_from_lean :: "lobj \<Rightarrow> search_pruning decoded" where
  "search_pruning_from_lean v =
     decoded_bind (take_ctor_objects v 3 0 ''DeclarationSearchPruning'') (\<lambda>os.
     decoded_bind (string_from_lean (os ! 0)) (\<lambda>stage.
     decoded_bind (string_from_lean (os ! 1)) (\<lambda>reason.
     decoded_bind (nat_try_to_usize (os ! 2)) (\<lambda>pruned_count.
     Inr \<lparr>spr_stage = stage, spr_reason = reason, spr_pruned_count = pruned_count\<rparr>))))"

definition search_pruning_layout :: "search_pruning \<Rightarrow> lobj" where
  "search_pruning_layout x =
     Ctor 0 [LString (spr_stage x),
       LString (spr_reason x),
       nat_from_u64 (spr_pruned_count x)]
       ([])"

definition search_pruning_fits :: "search_pruning \<Rightarrow> bool" where
  "search_pruning_fits x \<longleftrightarrow>
     utf8_valid (spr_stage x) \<and>
     utf8_valid (spr_reason x) \<and>
     (spr_pruned_count x) < 2 ^ 63"

lemma search_pruning_reads [decoder_reads]: "honest_read (\<lambda>mem. search_pruning_from_lean v)"
  unfolding search_pruning_from_lean_def by (intro decoder_reads)

lemma search_pruning_layout_read [layout_reads]: "search_pruning_fits x \<Longrightarrow> search_pruning_from_lean (search_pruning_layout x) = Inr x"
  by (cases x) (simp add: search_pruning_from_lean_def search_pruning_layout_def search_pruning_fits_def layout_reads)

record search_timings =
  stm_scan_micros :: nat
  stm_rank_micros :: nat
  stm_source_micros :: nat

definition search_timings_from_lean :: "lobj \<Rightarrow> search_timings decoded" where
  "search_timings_from_lean v =
     decoded_bind (take_ctor_objects v 3 0 ''DeclarationSearchTimings'') (\<lambda>os.
     decoded_bind (nat_try_to_u64 (os ! 0)) (\<lambda>scan_micros.
     decoded_bind (nat_try_to_u64 (os ! 1)) (\<lambda>rank_micros.
     decoded_bind (nat_try_to_u64 (os ! 2)) (\<lambda>source_micros.
     Inr \<lparr>stm_scan_micros = scan_micros, stm_rank_micros = rank_micros, stm_source_micros = source_micros\<rparr>))))"

definition search_timings_layout :: "search_timings \<Rightarrow> lobj" where
  "search_timings_layout x =
     Ctor 0 [nat_from_u64 (stm_scan_micros x),
       nat_from_u64 (stm_rank_micros x),
       nat_from_u64 (stm_source_micros x)]
       ([])"

definition search_timings_fits :: "search_timings \<Rightarrow> bool" where
  "search_timings_fits x \<longleftrightarrow>
     (stm_scan_micros x) < 2 ^ 63 \<and>
     (stm_rank_micros x) < 2 ^ 63 \<and>
     (stm_source_micros x) < 2 ^ 63"

lemma search_timings_reads [decoder_reads]: "honest_read (\<lambda>mem. search_timings_from_lean v)"
  unfolding search_timings_from_lean_def by (intro decoder_reads)

lemma search_timings_layout_read [layout_reads]: "search_timings_fits x \<Longrightarrow> search_timings_from_lean (search_timings_layout x) = Inr x"
  by (cases x) (simp add: search_timings_from_lean_def search_timings_layout_def search_timings_fits_def layout_reads)

record derived_work =
  dwk_source_range_lookups :: nat
  dwk_docstring_lookups :: nat
  dwk_raw_type_renderings :: nat
  dwk_pretty_prints :: nat
  dwk_proof_search_fact_collections :: nat
  dwk_simp_extension_lookups :: nat
  dwk_parser_elaborator_runs :: nat
  dwk_module_snapshot_builds :: nat
  dwk_discr_tree_observed :: bool

definition derived_work_from_lean :: "lobj \<Rightarrow> derived_work decoded" where
  "derived_work_from_lean v =
     decoded_bind (take_ctor_objects v 9 0 ''DerivedWorkFacts'') (\<lambda>os.
     decoded_bind (nat_try_to_u64 (os ! 0)) (\<lambda>source_range_lookups.
     decoded_bind (nat_try_to_u64 (os ! 1)) (\<lambda>docstring_lookups.
     decoded_bind (nat_try_to_u64 (os ! 2)) (\<lambda>raw_type_renderings.
     decoded_bind (nat_try_to_u64 (os ! 3)) (\<lambda>pretty_prints.
     decoded_bind (nat_try_to_u64 (os ! 4)) (\<lambda>proof_search_fact_collections.
     decoded_bind (nat_try_to_u64 (os ! 5)) (\<lambda>simp_extension_lookups.
     decoded_bind (nat_try_to_u64 (os ! 6)) (\<lambda>parser_elaborator_runs.
     decoded_bind (nat_try_to_u64 (os ! 7)) (\<lambda>module_snapshot_builds.
     decoded_bind (bool_from_nat (os ! 8)) (\<lambda>discr_tree_observed.
     Inr \<lparr>dwk_source_range_lookups = source_range_lookups, dwk_docstring_lookups = docstring_lookups, dwk_raw_type_renderings = raw_type_renderings, dwk_pretty_prints = pretty_prints, dwk_proof_search_fact_collections = proof_search_fact_collections, dwk_simp_extension_lookups = simp_extension_lookups, dwk_parser_elaborator_runs = parser_elaborator_runs, dwk_module_snapshot_builds = module_snapshot_builds, dwk_discr_tree_observed = discr_tree_observed\<rparr>))))))))))"

definition derived_work_layout :: "derived_work \<Rightarrow> lobj" where
  "derived_work_layout x =
     Ctor 0 [nat_from_u64 (dwk_source_range_lookups x),
       nat_from_u64 (dwk_docstring_lookups x),
       nat_from_u64 (dwk_raw_type_renderings x),
       nat_from_u64 (dwk_pretty_prints x),
       nat_from_u64 (dwk_proof_search_fact_collections x),
       nat_from_u64 (dwk_simp_extension_lookups x),
       nat_from_u64 (dwk_parser_elaborator_runs x),
       nat_from_u64 (dwk_module_snapshot_builds x),
       natbool_layout (dwk_discr_tree_observed x)]
       ([])"

definition derived_work_fits :: "derived_work \<Rightarrow> bool" where
  "derived_work_fits x \<longleftrightarrow>
     (dwk_source_range_lookups x) < 2 ^ 63 \<and>
     (dwk_docstring_lookups x) < 2 ^ 63 \<and>
     (dwk_raw_type_renderings x) < 2 ^ 63 \<and>
     (dwk_pretty_prints x) < 2 ^ 63 \<and>
     (dwk_proof_search_fact_collections x) < 2 ^ 63 \<and>
     (dwk_simp_extension_lookups x) < 2 ^ 63 \<and>
     (dwk_parser_elaborator_runs x) < 2 ^ 63 \<and>
     (dwk_module_snapshot_builds x) < 2 ^ 63"

lemma derived_work_reads [decoder_reads]: "honest_read (\<lambda>mem. derived_work_from_lean v)"
  unfolding derived_work_from_lean_def by (intro decoder_reads)

lemma derived_work_layout_read [layout_reads]: "derived_work_fits x \<Longrightarrow> derived_work_from_lean (derived_work_layout x) = Inr x"
  by (cases x) (simp add: derived_work_from_lean_def derived_work_layout_def derived_work_fits_def layout_reads)

record search_facts =
  sfc_declarations_scanned :: nat
  sfc_after_name_filter :: nat
  sfc_after_kind_filter :: nat
  sfc_after_required_constants_filter :: nat
  sfc_after_conclusion_filter :: nat
  sfc_after_scope_filter :: nat
  sfc_source_lookups :: nat
  sfc_broad_pruning :: "search_pruning list"
  sfc_truncated :: bool
  sfc_timings :: search_timings
  sfc_derived :: derived_work

definition search_facts_from_lean :: "lobj \<Rightarrow> search_facts decoded" where
  "search_facts_from_lean v =
     decoded_bind (take_ctor_objects v 11 0 ''DeclarationSearchFacts'') (\<lambda>os.
     decoded_bind (nat_try_to_usize (os ! 0)) (\<lambda>declarations_scanned.
     decoded_bind (nat_try_to_usize (os ! 1)) (\<lambda>after_name_filter.
     decoded_bind (nat_try_to_usize (os ! 2)) (\<lambda>after_kind_filter.
     decoded_bind (nat_try_to_usize (os ! 3)) (\<lambda>after_required_constants_filter.
     decoded_bind (nat_try_to_usize (os ! 4)) (\<lambda>after_conclusion_filter.
     decoded_bind (nat_try_to_usize (os ! 5)) (\<lambda>after_scope_filter.
     decoded_bind (nat_try_to_usize (os ! 6)) (\<lambda>source_lookups.
     decoded_bind (array_from_lean search_pruning_from_lean (os ! 7)) (\<lambda>broad_pruning.
     decoded_bind (bool_from_nat (os ! 8)) (\<lambda>truncated.
     decoded_bind (search_timings_from_lean (os ! 9)) (\<lambda>timings.
     decoded_bind (derived_work_from_lean (os ! 10)) (\<lambda>derived.
     Inr \<lparr>sfc_declarations_scanned = declarations_scanned, sfc_after_name_filter = after_name_filter, sfc_after_kind_filter = after_kind_filter, sfc_after_required_constants_filter = after_required_constants_filter, sfc_after_conclusion_filter = after_conclusion_filter, sfc_after_scope_filter = after_scope_filter, sfc_source_lookups = source_lookups, sfc_broad_pruning = broad_pruning, sfc_truncated = truncated, sfc_timings = timings, sfc_derived = derived\<rparr>))))))))))))"

definition search_facts_layout :: "search_facts \<Rightarrow> lobj" where
  "search_facts_layout x =
     Ctor 0 [nat_from_u64 (sfc_declarations_scanned x),
       nat_from_u64 (sfc_after_name_filter x),
       nat_from_u64 (sfc_after_kind_filter x),
       nat_from_u64 (sfc_after_required_constants_filter x),
       nat_from_u64 (sfc_after_conclusion_filter x),
       nat_from_u64 (sfc_after_scope_filter x),
       nat_from_u64 (sfc_source_lookups x),
       array_into_lean search_pruning_layout (sfc_broad_pruning x),
       natbool_layout (sfc_truncated x),
       search_timings_layout (sfc_timings x),
       derived_work_layout (sfc_derived x)]
       ([])"

definition search_facts_fits :: "search_facts \<Rightarrow> bool" where
  "search_facts_fits x \<longleftrightarrow>
     (sfc_declarations_scanned x) < 2 ^ 63 \<and>
     (sfc_after_name_filter x) < 2 ^ 63 \<and>
     (sfc_after_kind_filter x) < 2 ^ 63 \<and>
     (sfc_after_required_constants_filter x) < 2 ^ 63 \<and>
     (sfc_after_conclusion_filter x) < 2 ^ 63 \<and>
     (sfc_after_scope_filter x) < 2 ^ 63 \<and>
     (sfc_source_lookups x) < 2 ^ 63 \<and>
     (\<forall>x \<in> set (sfc_broad_pruning x). search_pruning_fits x) \<and>
     search_timings_fits (sfc_timings x) \<and>
     derived_work_fits (sfc_derived x)"

lemma search_facts_reads [decoder_reads]: "honest_read (\<lambda>mem. search_facts_from_lean v)"
  unfolding search_facts_from_lean_def by (intro decoder_reads)

lemma search_facts_layout_read [layout_reads]: "search_facts_fits x \<Longrightarrow> search_facts_from_lean (search_facts_layout x) = Inr x"
  by (cases x) (simp add: search_facts_from_lean_def search_facts_layout_def search_facts_fits_def layout_reads)

record search_answer =
  san_declarations :: "search_row list"
  san_truncated :: bool
  san_facts :: search_facts

definition search_answer_from_lean :: "lobj \<Rightarrow> search_answer decoded" where
  "search_answer_from_lean v =
     decoded_bind (take_ctor_objects v 3 0 ''DeclarationSearchResult'') (\<lambda>os.
     decoded_bind (array_from_lean search_row_from_lean (os ! 0)) (\<lambda>declarations.
     decoded_bind (bool_from_nat (os ! 1)) (\<lambda>truncated.
     decoded_bind (search_facts_from_lean (os ! 2)) (\<lambda>facts.
     Inr \<lparr>san_declarations = declarations, san_truncated = truncated, san_facts = facts\<rparr>))))"

definition search_answer_layout :: "search_answer \<Rightarrow> lobj" where
  "search_answer_layout x =
     Ctor 0 [array_into_lean search_row_layout (san_declarations x),
       natbool_layout (san_truncated x),
       search_facts_layout (san_facts x)]
       ([])"

definition search_answer_fits :: "search_answer \<Rightarrow> bool" where
  "search_answer_fits x \<longleftrightarrow>
     (\<forall>x \<in> set (san_declarations x). search_row_fits x) \<and>
     search_facts_fits (san_facts x)"

lemma search_answer_reads [decoder_reads]: "honest_read (\<lambda>mem. search_answer_from_lean v)"
  unfolding search_answer_from_lean_def by (intro decoder_reads)

lemma search_answer_layout_read [layout_reads]: "search_answer_fits x \<Longrightarrow> search_answer_from_lean (search_answer_layout x) = Inr x"
  by (cases x) (simp add: search_answer_from_lean_def search_answer_layout_def search_answer_fits_def layout_reads)

record declaration_rendered =
  drn_value :: string
  drn_truncated :: bool

definition declaration_rendered_from_lean :: "lobj \<Rightarrow> declaration_rendered decoded" where
  "declaration_rendered_from_lean v =
     decoded_bind (take_ctor_objects v 2 0 ''DeclarationRenderedInfo'') (\<lambda>os.
     decoded_bind (string_from_lean (os ! 0)) (\<lambda>value.
     decoded_bind (bool_from_nat (os ! 1)) (\<lambda>truncated.
     Inr \<lparr>drn_value = value, drn_truncated = truncated\<rparr>)))"

definition declaration_rendered_layout :: "declaration_rendered \<Rightarrow> lobj" where
  "declaration_rendered_layout x =
     Ctor 0 [LString (drn_value x),
       natbool_layout (drn_truncated x)]
       ([])"

definition declaration_rendered_fits :: "declaration_rendered \<Rightarrow> bool" where
  "declaration_rendered_fits x \<longleftrightarrow>
     utf8_valid (drn_value x)"

lemma declaration_rendered_reads [decoder_reads]: "honest_read (\<lambda>mem. declaration_rendered_from_lean v)"
  unfolding declaration_rendered_from_lean_def by (intro decoder_reads)

lemma declaration_rendered_layout_read [layout_reads]: "declaration_rendered_fits x \<Longrightarrow> declaration_rendered_from_lean (declaration_rendered_layout x) = Inr x"
  by (cases x) (simp add: declaration_rendered_from_lean_def declaration_rendered_layout_def declaration_rendered_fits_def layout_reads)

record proof_search_facts =
  psf_computed :: bool
  psf_unavailable_reason :: "string option"
  psf_is_simp :: bool
  psf_is_rw_candidate :: bool
  psf_is_instance :: bool
  psf_is_class :: bool
  psf_class_name :: "string option"

definition proof_search_facts_from_lean :: "lobj \<Rightarrow> proof_search_facts decoded" where
  "proof_search_facts_from_lean v =
     decoded_bind (take_ctor_objects v 7 0 ''DeclarationProofSearchFacts'') (\<lambda>os.
     decoded_bind (bool_from_nat (os ! 0)) (\<lambda>computed.
     decoded_bind (option_from_lean string_from_lean (os ! 1)) (\<lambda>unavailable_reason.
     decoded_bind (bool_from_nat (os ! 2)) (\<lambda>is_simp.
     decoded_bind (bool_from_nat (os ! 3)) (\<lambda>is_rw_candidate.
     decoded_bind (bool_from_nat (os ! 4)) (\<lambda>is_instance.
     decoded_bind (bool_from_nat (os ! 5)) (\<lambda>is_class.
     decoded_bind (option_from_lean string_from_lean (os ! 6)) (\<lambda>class_name.
     Inr \<lparr>psf_computed = computed, psf_unavailable_reason = unavailable_reason, psf_is_simp = is_simp, psf_is_rw_candidate = is_rw_candidate, psf_is_instance = is_instance, psf_is_class = is_class, psf_class_name = class_name\<rparr>))))))))"

definition proof_search_facts_layout :: "proof_search_facts \<Rightarrow> lobj" where
  "proof_search_facts_layout x =
     Ctor 0 [natbool_layout (psf_computed x),
       option_into_lean LString (psf_unavailable_reason x),
       natbool_layout (psf_is_simp x),
       natbool_layout (psf_is_rw_candidate x),
       natbool_layout (psf_is_instance x),
       natbool_layout (psf_is_class x),
       option_into_lean LString (psf_class_name x)]
       ([])"

definition proof_search_facts_fits :: "proof_search_facts \<Rightarrow> bool" where
  "proof_search_facts_fits x \<longleftrightarrow>
     (\<forall>x \<in> set_option (psf_unavailable_reason x). utf8_valid x) \<and>
     (\<forall>x \<in> set_option (psf_class_name x). utf8_valid x)"

lemma proof_search_facts_reads [decoder_reads]: "honest_read (\<lambda>mem. proof_search_facts_from_lean v)"
  unfolding proof_search_facts_from_lean_def by (intro decoder_reads)

lemma proof_search_facts_layout_read [layout_reads]: "proof_search_facts_fits x \<Longrightarrow> proof_search_facts_from_lean (proof_search_facts_layout x) = Inr x"
  by (cases x) (simp add: proof_search_facts_from_lean_def proof_search_facts_layout_def proof_search_facts_fits_def layout_reads)

record declaration_inspection =
  din_name :: string
  din_kind :: string
  din_in_module :: "string option"
  din_source :: "lean_source_range option"
  din_statement :: "declaration_rendered option"
  din_docstring :: "declaration_rendered option"
  din_attributes :: "string list"
  din_proof_search :: proof_search_facts
  din_flags :: search_flags
  din_derived :: derived_work
  din_statement_pretty :: "bool option"

definition declaration_inspection_from_lean :: "lobj \<Rightarrow> declaration_inspection decoded" where
  "declaration_inspection_from_lean v =
     decoded_bind (take_ctor_objects v 11 0 ''DeclarationInspection'') (\<lambda>os.
     decoded_bind (statement_rendering_from_lean (os ! 10)) (\<lambda>statement_pretty.
     decoded_bind (string_from_lean (os ! 0)) (\<lambda>name.
     decoded_bind (string_from_lean (os ! 1)) (\<lambda>kind.
     decoded_bind (option_from_lean string_from_lean (os ! 2)) (\<lambda>in_module.
     decoded_bind (option_from_lean lean_source_range_from_lean (os ! 3)) (\<lambda>source.
     decoded_bind (option_from_lean declaration_rendered_from_lean (os ! 4)) (\<lambda>statement.
     decoded_bind (option_from_lean declaration_rendered_from_lean (os ! 5)) (\<lambda>docstring.
     decoded_bind (array_from_lean string_from_lean (os ! 6)) (\<lambda>attributes.
     decoded_bind (proof_search_facts_from_lean (os ! 7)) (\<lambda>proof_search.
     decoded_bind (search_flags_from_lean (os ! 8)) (\<lambda>flags.
     decoded_bind (derived_work_from_lean (os ! 9)) (\<lambda>derived.
     Inr \<lparr>din_name = name, din_kind = kind, din_in_module = in_module, din_source = source, din_statement = statement, din_docstring = docstring, din_attributes = attributes, din_proof_search = proof_search, din_flags = flags, din_derived = derived, din_statement_pretty = statement_pretty\<rparr>))))))))))))"

definition declaration_inspection_layout :: "declaration_inspection \<Rightarrow> lobj" where
  "declaration_inspection_layout x =
     Ctor 0 [LString (din_name x),
       LString (din_kind x),
       option_into_lean LString (din_in_module x),
       option_into_lean lean_source_range_layout (din_source x),
       option_into_lean declaration_rendered_layout (din_statement x),
       option_into_lean declaration_rendered_layout (din_docstring x),
       array_into_lean LString (din_attributes x),
       proof_search_facts_layout (din_proof_search x),
       search_flags_layout (din_flags x),
       derived_work_layout (din_derived x),
       option_into_lean natbool_layout (din_statement_pretty x)]
       ([])"

definition declaration_inspection_fits :: "declaration_inspection \<Rightarrow> bool" where
  "declaration_inspection_fits x \<longleftrightarrow>
     utf8_valid (din_name x) \<and>
     utf8_valid (din_kind x) \<and>
     (\<forall>x \<in> set_option (din_in_module x). utf8_valid x) \<and>
     (\<forall>x \<in> set_option (din_source x). lean_source_range_fits x) \<and>
     (\<forall>x \<in> set_option (din_statement x). declaration_rendered_fits x) \<and>
     (\<forall>x \<in> set_option (din_docstring x). declaration_rendered_fits x) \<and>
     (\<forall>x \<in> set (din_attributes x). utf8_valid x) \<and>
     proof_search_facts_fits (din_proof_search x) \<and>
     search_flags_fits (din_flags x) \<and>
     derived_work_fits (din_derived x)"

lemma declaration_inspection_reads [decoder_reads]: "honest_read (\<lambda>mem. declaration_inspection_from_lean v)"
  unfolding declaration_inspection_from_lean_def by (intro decoder_reads)

lemma declaration_inspection_layout_read [layout_reads]: "declaration_inspection_fits x \<Longrightarrow> declaration_inspection_from_lean (declaration_inspection_layout x) = Inr x"
  by (cases x) (simp add: declaration_inspection_from_lean_def declaration_inspection_layout_def declaration_inspection_fits_def layout_reads)

datatype inspection_answer =
    InspectionFound declaration_inspection
  | InspectionNotFound string
  | InspectionUnsupported

definition inspection_answer_from_lean :: "lobj \<Rightarrow> inspection_answer decoded" where
  "inspection_answer_from_lean v =
     decoded_bind (sum_tag v) (\<lambda>t.
       if t = 0 then
         decoded_bind (take_ctor_objects v 1 0 ''DeclarationInspectionResult::found'') (\<lambda>os.
         decoded_bind (declaration_inspection_from_lean (os ! 0)) (\<lambda>declaration.
         Inr (InspectionFound declaration)))
       else if t = 1 then
         decoded_bind (take_ctor_objects v 1 1 ''DeclarationInspectionResult::notFound'') (\<lambda>os.
         decoded_bind (string_from_lean (os ! 0)) (\<lambda>name.
         Inr (InspectionNotFound name)))
       else if t = 2 then
         decoded_bind (take_ctor_objects v 0 2 ''DeclarationInspectionResult::unsupported'') (\<lambda>os.
         Inr InspectionUnsupported)
       else Inl (conversion_error (''expected Lean DeclarationInspectionResult ctor (tag 0..=2), found tag '' @ decimal t)))"

fun inspection_answer_layout :: "inspection_answer \<Rightarrow> lobj" where
  "inspection_answer_layout (InspectionFound declaration) = Ctor 0 [declaration_inspection_layout declaration] []"
| "inspection_answer_layout (InspectionNotFound name) = Ctor 1 [LString name] []"
| "inspection_answer_layout InspectionUnsupported = Boxed 2"

text \<open>The third constructor is not read back (below), so it does not fit.\<close>

fun inspection_answer_fits :: "inspection_answer \<Rightarrow> bool" where
  "inspection_answer_fits (InspectionFound declaration) \<longleftrightarrow> declaration_inspection_fits declaration"
| "inspection_answer_fits (InspectionNotFound name) \<longleftrightarrow> utf8_valid name"
| "inspection_answer_fits InspectionUnsupported \<longleftrightarrow> False"

lemma inspection_answer_reads [decoder_reads]: "honest_read (\<lambda>mem. inspection_answer_from_lean v)"
  unfolding inspection_answer_from_lean_def by (intro decoder_reads)

lemma inspection_answer_layout_read [layout_reads]:
  "inspection_answer_fits x \<Longrightarrow> inspection_answer_from_lean (inspection_answer_layout x) = Inr x"
  by (cases x) (simp_all add: inspection_answer_from_lean_def layout_reads)

text \<open>
  Lean passes a constructor without fields as a boxed tag.  The decoder reads the tag and then asks for a heap
  constructor with no object fields, so \<open>DeclarationInspectionResult.unsupported\<close> is always refused.
\<close>

lemma unsupported_inspection_is_refused:
  "\<exists>e. inspection_answer_from_lean (inspection_answer_layout InspectionUnsupported) = Inl e \<and> conversion_failure e"
  unfolding conversion_failure_def
  by (auto simp: inspection_answer_from_lean_def sum_tag_def take_ctor_objects_def ctor_shape_def ctor_view_new_def)

interpretation search_answer: shim_result "\<lambda>mem. search_answer_from_lean" search_answer_layout search_answer_fits
  by unfold_locales (simp_all add: decoder_reads layout_reads)

interpretation inspection_answer:
  shim_result "\<lambda>mem. inspection_answer_from_lean" inspection_answer_layout inspection_answer_fits
  by unfold_locales (simp_all add: decoder_reads layout_reads)

section \<open>Requests\<close>

datatype name_match = MatchContains | MatchSuffix

fun name_match_into_lean :: "name_match \<Rightarrow> lobj" where
  "name_match_into_lean MatchContains = nat_from_u64 0"
| "name_match_into_lean MatchSuffix = nat_from_u64 1"

datatype search_scope = ScopeNamespace | ScopeModule

fun search_scope_into_lean :: "search_scope \<Rightarrow> lobj" where
  "search_scope_into_lean ScopeNamespace = nat_from_u64 0"
| "search_scope_into_lean ScopeModule = nat_from_u64 1"

definition nat_from_bool :: "bool \<Rightarrow> lobj" where
  "nat_from_bool value = nat_from_u64 (if value then 1 else 0)"

record search_bias =
  sbs_scope :: search_scope
  sbs_prefix :: string
  sbs_strict :: bool
  sbs_weight :: int

definition search_bias_into_lean :: "search_bias \<Rightarrow> lobj" where
  "search_bias_into_lean b =
     alloc_ctor_with_objects 0
       [search_scope_into_lean (sbs_scope b), string_into_lean (sbs_prefix b), nat_from_bool (sbs_strict b),
        string_into_lean (i32_text (sbs_weight b))]"

record declaration_filter =
  dfl_include_private :: bool
  dfl_include_generated :: bool
  dfl_include_internal :: bool

definition declaration_filter_default :: declaration_filter where
  "declaration_filter_default =
     \<lparr>dfl_include_private = True, dfl_include_generated = False, dfl_include_internal = False\<rparr>"

definition declaration_filter_into_lean :: "declaration_filter \<Rightarrow> lobj" where
  "declaration_filter_into_lean f =
     alloc_ctor_with_objects 0
       [bool_into_lean (dfl_include_private f), bool_into_lean (dfl_include_generated f),
        bool_into_lean (dfl_include_internal f)]"

definition declaration_filter_from_lean :: "lobj \<Rightarrow> declaration_filter decoded" where
  "declaration_filter_from_lean v =
     decoded_bind (take_ctor_objects v 3 0 ''DeclarationFilter'') (\<lambda>os.
     decoded_bind (bool_from_lean (os ! 0)) (\<lambda>include_private.
     decoded_bind (bool_from_lean (os ! 1)) (\<lambda>include_generated.
     decoded_bind (bool_from_lean (os ! 2)) (\<lambda>include_internal.
     Inr \<lparr>dfl_include_private = include_private, dfl_include_generated = include_generated,
          dfl_include_internal = include_internal\<rparr>))))"

record search_request =
  srq_name_fragment :: "string option"
  srq_name_match :: name_match
  srq_kind :: "string option"
  srq_required_constants :: "string list"
  srq_conclusion_head :: "string option"
  srq_scope_biases :: "search_bias list"
  srq_limit :: nat
  srq_filter :: declaration_filter
  srq_include_source :: bool

definition search_request_new :: "string \<Rightarrow> search_request" where
  "search_request_new fragment =
     \<lparr>srq_name_fragment = Some fragment, srq_name_match = MatchContains, srq_kind = None, srq_required_constants = [],
      srq_conclusion_head = None, srq_scope_biases = [], srq_limit = 20,
      srq_filter = \<lparr>dfl_include_private = False, dfl_include_generated = False, dfl_include_internal = False\<rparr>,
      srq_include_source = True\<rparr>"

definition search_request_into_lean :: "search_request \<Rightarrow> lobj" where
  "search_request_into_lean r =
     alloc_ctor_with_objects 0
       [option_into_lean string_into_lean (srq_name_fragment r), name_match_into_lean (srq_name_match r),
        option_into_lean string_into_lean (srq_kind r), array_into_lean string_into_lean (srq_required_constants r),
        option_into_lean string_into_lean (srq_conclusion_head r),
        array_into_lean search_bias_into_lean (srq_scope_biases r), nat_from_u64 (srq_limit r),
        declaration_filter_into_lean (srq_filter r), nat_from_bool (srq_include_source r)]"

record inspection_fields =
  ifd_source :: bool
  ifd_statement :: bool
  ifd_docstring :: bool
  ifd_attributes :: bool
  ifd_flags :: bool
  ifd_statement_pretty :: bool
  ifd_proof_search :: bool

definition inspection_fields_default :: inspection_fields where
  "inspection_fields_default =
     \<lparr>ifd_source = True, ifd_statement = True, ifd_docstring = True, ifd_attributes = True, ifd_flags = True,
      ifd_statement_pretty = True, ifd_proof_search = False\<rparr>"

definition inspection_fields_into_lean :: "inspection_fields \<Rightarrow> lobj" where
  "inspection_fields_into_lean f =
     alloc_ctor_with_objects 0
       [nat_from_bool (ifd_source f), nat_from_bool (ifd_statement f), nat_from_bool (ifd_docstring f),
        nat_from_bool (ifd_attributes f), nat_from_bool (ifd_flags f), nat_from_bool (ifd_statement_pretty f),
        nat_from_bool (ifd_proof_search f)]"

record inspection_budgets =
  ibg_per_field_bytes :: nat
  ibg_total_bytes :: nat

definition inspection_budgets_new :: inspection_budgets where
  "inspection_budgets_new = \<lparr>ibg_per_field_bytes = 8 * 1024, ibg_total_bytes = 64 * 1024\<rparr>"

definition inspection_per_field_bytes :: "inspection_budgets \<Rightarrow> nat \<Rightarrow> inspection_budgets" where
  "inspection_per_field_bytes b bytes = b\<lparr>ibg_per_field_bytes := clamp_output_budget bytes\<rparr>"

definition inspection_total_bytes :: "inspection_budgets \<Rightarrow> nat \<Rightarrow> inspection_budgets" where
  "inspection_total_bytes b bytes = b\<lparr>ibg_total_bytes := clamp_output_budget bytes\<rparr>"

definition inspection_budgets_normalized :: "inspection_budgets \<Rightarrow> inspection_budgets" where
  "inspection_budgets_normalized b =
     \<lparr>ibg_per_field_bytes = clamp_output_budget (ibg_per_field_bytes b),
      ibg_total_bytes = clamp_output_budget (ibg_total_bytes b)\<rparr>"

definition inspection_budgets_into_lean :: "inspection_budgets \<Rightarrow> lobj" where
  "inspection_budgets_into_lean b =
     (let n = inspection_budgets_normalized b
      in alloc_ctor_with_objects 0 [nat_from_u64 (ibg_per_field_bytes n), nat_from_u64 (ibg_total_bytes n)])"

record inspection_request =
  irq_name :: string
  irq_fields :: inspection_fields
  irq_budgets :: inspection_budgets

definition inspection_request_new :: "string \<Rightarrow> inspection_request" where
  "inspection_request_new name =
     \<lparr>irq_name = name, irq_fields = inspection_fields_default, irq_budgets = inspection_budgets_new\<rparr>"

definition inspection_request_into_lean :: "inspection_request \<Rightarrow> lobj" where
  "inspection_request_into_lean r =
     alloc_ctor_with_objects 0
       [string_into_lean (irq_name r), inspection_fields_into_lean (irq_fields r),
        inspection_budgets_into_lean (irq_budgets r)]"

section \<open>Requests are unambiguous\<close>

lemma nat_from_u64_same: "nat_from_u64 m = nat_from_u64 n \<longleftrightarrow> m = n"
  by (auto simp: nat_from_u64_def lean_box_def LEAN_MAX_SMALL_NAT_def)

lemma nat_from_bool_same: "nat_from_bool a = nat_from_bool b \<longleftrightarrow> a = b"
  by (cases a; cases b) (simp_all add: nat_from_bool_def nat_from_u64_same)

lemma bool_into_lean_same: "bool_into_lean a = bool_into_lean b \<longleftrightarrow> a = b"
  by (cases a; cases b) (simp_all add: bool_into_lean_def lean_box_def small_into_lean_def to_unsigned_def)

lemma i32_text_same: "i32_range i \<Longrightarrow> i32_range j \<Longrightarrow> i32_text i = i32_text j \<longleftrightarrow> i = j"
  using parse_i32_text by (metis option.inject)

lemma selectors_same:
  "name_match_into_lean a = name_match_into_lean b \<longleftrightarrow> a = b" "search_scope_into_lean c = search_scope_into_lean d \<longleftrightarrow> c = d"
  by (cases a; cases b, simp_all add: nat_from_u64_same) (cases c; cases d, simp_all add: nat_from_u64_same)

lemmas request_simps = encoding_simps nat_from_u64_same nat_from_bool_same bool_into_lean_same selectors_same

interpretation filter_encoding: request_encoding declaration_filter_into_lean "\<lambda>_. True"
  by unfold_locales (simp add: declaration_filter_into_lean_def request_simps)

lemma filter_read_back: "declaration_filter_from_lean (declaration_filter_into_lean f) = Inr f"
  by (cases f) (simp add: declaration_filter_from_lean_def declaration_filter_into_lean_def layout_reads
    alloc_ctor_with_objects_def bool_codec.round_trip)

interpretation bias_encoding: request_encoding search_bias_into_lean "\<lambda>b. i32_range (sbs_weight b)"
  by unfold_locales (simp add: search_bias_into_lean_def request_simps i32_text_same)

definition search_request_ok :: "search_request \<Rightarrow> bool" where
  "search_request_ok r \<longleftrightarrow> (\<forall>b \<in> set (srq_scope_biases r). i32_range (sbs_weight b))"

interpretation search_encoding: request_encoding search_request_into_lean search_request_ok
proof
  fix x y
  assume "search_request_ok x" "search_request_ok y" "search_request_into_lean x = search_request_into_lean y"
  then show "x = y"
    by (simp add: search_request_into_lean_def search_request_ok_def request_simps bias_encoding.arrays filter_encoding.same)
qed

definition inspection_request_ok :: "inspection_request \<Rightarrow> bool" where
  "inspection_request_ok r \<longleftrightarrow>
     ibg_per_field_bytes (irq_budgets r) \<le> LEAN_DIAGNOSTIC_BYTE_LIMIT_MAX \<and>
     ibg_total_bytes (irq_budgets r) \<le> LEAN_DIAGNOSTIC_BYTE_LIMIT_MAX"

interpretation inspection_encoding: request_encoding inspection_request_into_lean inspection_request_ok
proof
  fix x y
  assume "inspection_request_ok x" "inspection_request_ok y" "inspection_request_into_lean x = inspection_request_into_lean y"
  then show "x = y"
    by (simp add: inspection_request_into_lean_def inspection_fields_into_lean_def inspection_budgets_into_lean_def
      inspection_budgets_normalized_def clamp_output_budget_def inspection_request_ok_def Let_def request_simps)
qed

lemma inspection_budgets_are_capped:
  "inspection_budgets_into_lean b = inspection_budgets_into_lean (inspection_budgets_normalized b)"
  by (simp add: inspection_budgets_into_lean_def inspection_budgets_normalized_def clamp_output_budget_def)

section \<open>Properties\<close>

text \<open>Searching and inspecting declarations over the ABI: what the search and inspection shims build is read
  back field by field, requests that differ arrive as different objects, and the one answer that never comes through is
  \<open>DeclarationInspectionResult.unsupported\<close>, which the decoder takes for a malformed object.\<close>

theorem declarations_over_the_abi:
  assumes "search_answer_fits a" "inspection_answer_fits i"
    and "search_request_ok r" "search_request_ok r'" "inspection_request_ok q" "inspection_request_ok q'"
  shows "search_answer_from_lean (search_answer_layout a) = Inr a
    \<and> inspection_answer_from_lean (inspection_answer_layout i) = Inr i
    \<and> (\<exists>e. inspection_answer_from_lean (inspection_answer_layout InspectionUnsupported) = Inl e \<and> conversion_failure e)
    \<and> (search_request_into_lean r = search_request_into_lean r' \<longleftrightarrow> r = r')
    \<and> (inspection_request_into_lean q = inspection_request_into_lean q' \<longleftrightarrow> q = q')"
  using assms
  by (simp add: search_answer.reads_layout inspection_answer.reads_layout
    unsupported_inspection_is_refused [unfolded inspection_answer_layout.simps] search_encoding.same
    inspection_encoding.same)

definition sample_derived :: derived_work where
  "sample_derived =
     \<lparr>dwk_source_range_lookups = 1, dwk_docstring_lookups = 0, dwk_raw_type_renderings = 2, dwk_pretty_prints = 0,
      dwk_proof_search_fact_collections = 0, dwk_simp_extension_lookups = 0, dwk_parser_elaborator_runs = 0,
      dwk_module_snapshot_builds = 0, dwk_discr_tree_observed = True\<rparr>"

definition sample_answer :: search_answer where
  "sample_answer =
     \<lparr>san_declarations =
        [\<lparr>srw_name = ''Nat.add'', srw_kind = ''def'', srw_row_module = Some ''Init'', srw_source = None,
          srw_match_reason = ''name'', srw_score = - 12, srw_rank = 1,
          srw_flags = \<lparr>sfl_is_private = False, sfl_is_generated = True, sfl_is_internal = False\<rparr>\<rparr>],
      san_truncated = True,
      san_facts =
        \<lparr>sfc_declarations_scanned = 90, sfc_after_name_filter = 9, sfc_after_kind_filter = 8,
         sfc_after_required_constants_filter = 7, sfc_after_conclusion_filter = 6, sfc_after_scope_filter = 5,
         sfc_source_lookups = 1, sfc_broad_pruning = [], sfc_truncated = False,
         sfc_timings = \<lparr>stm_scan_micros = 11, stm_rank_micros = 2, stm_source_micros = 1\<rparr>,
         sfc_derived = sample_derived\<rparr>\<rparr>"

lemma sample_answer_fits: "search_answer_fits sample_answer"
proof -
  have texts: "utf8_valid ''Nat.add''" "utf8_valid ''def''" "utf8_valid ''Init''" "utf8_valid ''name''" by code_simp+
  then show ?thesis
    by (simp add: sample_answer_def sample_derived_def search_answer_fits_def search_row_fits_def search_flags_fits_def
      search_facts_fits_def search_timings_fits_def derived_work_fits_def i32_range_def del: utf8_valid.simps)
qed

lemma declarations_over_the_abi_witness:
  "search_answer_from_lean (search_answer_layout sample_answer) = Inr sample_answer
    \<and> inspection_answer_from_lean (inspection_answer_layout (InspectionNotFound ''Nat.sub'')) = Inr (InspectionNotFound ''Nat.sub'')
    \<and> search_request_into_lean (search_request_new ''add'') \<noteq> search_request_into_lean (search_request_new ''sub'')"
proof -
  have "inspection_answer_fits (InspectionNotFound ''Nat.sub'')"
    unfolding inspection_answer_fits.simps by code_simp
  moreover have "search_request_ok (search_request_new n)" "inspection_request_ok (inspection_request_new n)" for n
    by (simp_all add: search_request_ok_def search_request_new_def inspection_request_ok_def inspection_request_new_def
      inspection_budgets_new_def LEAN_DIAGNOSTIC_BYTE_LIMIT_MAX_def)
  moreover have "search_request_new ''add'' \<noteq> search_request_new ''sub''" by (simp add: search_request_new_def)
  ultimately show ?thesis
    using declarations_over_the_abi [OF sample_answer_fits, of "InspectionNotFound ''Nat.sub''" "search_request_new ''add''"
        "search_request_new ''sub''" "inspection_request_new ''Nat''" "inspection_request_new ''Nat''"] by simp
qed

end
