(* ===== verification/Host_Session.thy ===== *)
theory Host_Session
  imports Host_Pool Lean_Callback Query_Results Search_Results
begin

text \<open>
  Queries of a same-process session (\<open>host/session.rs\<close> of \<open>lean-rs-host\<close> from \<open>record_call\<close> on,
  with \<open>host/progress.rs\<close>, \<open>elaboration/options.rs\<close>, \<open>meta/options.rs\<close> and
  \<open>meta/service.rs\<close>).

  Lean is a record of answers, one per call: the object or \<open>IO\<close> result the shim returns, the progress ticks it
  reports on the way and the time it took.  What it returns is an object, and each method decodes it with the decoders
  of the earlier theories.  A progress shim stops at the first status that is not success, as
  \<open>reportProgress?\<close> of the shims does.  A cancellation token is the number of its polls that still find it
  unset: it is set by another thread, once and for good.
\<close>

section \<open>Options\<close>

definition LEAN_HEARTBEAT_LIMIT_DEFAULT :: nat where "LEAN_HEARTBEAT_LIMIT_DEFAULT = 200000"
definition LEAN_HEARTBEAT_LIMIT_MAX :: nat where "LEAN_HEARTBEAT_LIMIT_MAX = 200000000"
definition LEAN_DIAGNOSTIC_BYTE_LIMIT_DEFAULT :: nat where "LEAN_DIAGNOSTIC_BYTE_LIMIT_DEFAULT = 64 * 1024"
definition DEFAULT_FILE_LABEL :: string where "DEFAULT_FILE_LABEL = ''<elaborate>''"

record lean_elab_options =
  eo_namespace_context :: string
  eo_file_label :: string
  eo_heartbeat_limit :: nat
  eo_diagnostic_byte_limit :: nat

definition elab_options_new :: lean_elab_options where
  "elab_options_new =
     \<lparr>eo_namespace_context = [], eo_file_label = DEFAULT_FILE_LABEL, eo_heartbeat_limit = LEAN_HEARTBEAT_LIMIT_DEFAULT,
      eo_diagnostic_byte_limit = LEAN_DIAGNOSTIC_BYTE_LIMIT_DEFAULT\<rparr>"

definition elab_heartbeat_limit :: "nat \<Rightarrow> lean_elab_options \<Rightarrow> lean_elab_options" where
  "elab_heartbeat_limit heartbeats o1 = o1\<lparr>eo_heartbeat_limit := min heartbeats LEAN_HEARTBEAT_LIMIT_MAX\<rparr>"

definition elab_diagnostic_byte_limit :: "nat \<Rightarrow> lean_elab_options \<Rightarrow> lean_elab_options" where
  "elab_diagnostic_byte_limit bytes o1 = o1\<lparr>eo_diagnostic_byte_limit := min bytes LEAN_DIAGNOSTIC_BYTE_LIMIT_MAX\<rparr>"

definition elab_namespace_context :: "string \<Rightarrow> lean_elab_options \<Rightarrow> lean_elab_options" where
  "elab_namespace_context ns o1 = o1\<lparr>eo_namespace_context := bound_message ns\<rparr>"

definition elab_file_label :: "string \<Rightarrow> lean_elab_options \<Rightarrow> lean_elab_options" where
  "elab_file_label label o1 = o1\<lparr>eo_file_label := bound_message label\<rparr>"

datatype meta_transparency = TransparencyDefault | TransparencyReducible | TransparencyInstances | TransparencyAll

fun transparency_as_byte :: "meta_transparency \<Rightarrow> nat" where
  "transparency_as_byte TransparencyDefault = 0"
| "transparency_as_byte TransparencyReducible = 1"
| "transparency_as_byte TransparencyInstances = 2"
| "transparency_as_byte TransparencyAll = 3"

definition transparency_from_byte :: "nat \<Rightarrow> meta_transparency decoded" where
  "transparency_from_byte b =
     (if b = 0 then Inr TransparencyDefault
      else if b = 1 then Inr TransparencyReducible
      else if b = 2 then Inr TransparencyInstances
      else if b = 3 then Inr TransparencyAll
      else Inl (conversion_error (''expected LeanMetaTransparency byte 0..=3, found '' @ decimal b)))"

definition transparency_into_lean :: "meta_transparency \<Rightarrow> lobj" where
  "transparency_into_lean t = small_into_lean W8 (int (transparency_as_byte t))"

definition transparency_from_lean :: "lobj \<Rightarrow> meta_transparency decoded" where
  "transparency_from_lean v =
     decoded_bind (small_from_lean False W8 v) (\<lambda>b. transparency_from_byte (nat b))"

record meta_options =
  mo_namespace_context :: string
  mo_heartbeat_limit :: nat
  mo_diagnostic_byte_limit :: nat
  mo_transparency :: meta_transparency

definition meta_options_new :: meta_options where
  "meta_options_new =
     \<lparr>mo_namespace_context = [], mo_heartbeat_limit = LEAN_HEARTBEAT_LIMIT_DEFAULT,
      mo_diagnostic_byte_limit = LEAN_DIAGNOSTIC_BYTE_LIMIT_DEFAULT, mo_transparency = TransparencyDefault\<rparr>"

definition meta_heartbeat_limit :: "nat \<Rightarrow> meta_options \<Rightarrow> meta_options" where
  "meta_heartbeat_limit heartbeats o1 = o1\<lparr>mo_heartbeat_limit := min heartbeats LEAN_HEARTBEAT_LIMIT_MAX\<rparr>"

definition meta_diagnostic_byte_limit :: "nat \<Rightarrow> meta_options \<Rightarrow> meta_options" where
  "meta_diagnostic_byte_limit bytes o1 = o1\<lparr>mo_diagnostic_byte_limit := min bytes LEAN_DIAGNOSTIC_BYTE_LIMIT_MAX\<rparr>"

definition meta_namespace_context :: "string \<Rightarrow> meta_options \<Rightarrow> meta_options" where
  "meta_namespace_context ns o1 = o1\<lparr>mo_namespace_context := bound_message ns\<rparr>"

definition with_transparency :: "meta_transparency \<Rightarrow> meta_options \<Rightarrow> meta_options" where
  "with_transparency t o1 = o1\<lparr>mo_transparency := t\<rparr>"

lemma transparency_round_trip: "transparency_from_lean (transparency_into_lean t) = Inr t"
  by (cases t) (simp_all add: transparency_from_lean_def transparency_into_lean_def transparency_from_byte_def
    small_into_lean_def small_from_lean_def lean_box_def to_unsigned_def require_scalar_def)

section \<open>The world of a session\<close>

record lean_progress_event =
  pe_phase :: string
  pe_current :: nat
  pe_total :: "nat option"
  pe_elapsed :: nat

type_synonym progress_sink = "lean_progress_event \<Rightarrow> panic_payload option"

text \<open>Arguments of a call: owned objects, and scalars passed unboxed.\<close>

datatype shim_arg = ArgOwned lobj | ArgScalar nat

record shim_call =
  sc_symbol :: string
  sc_args :: "shim_arg list"

record shim_reply =
  sr_ticks :: "(nat \<times> nat) list"
  sr_result :: "callback_status list \<Rightarrow> io_result"

text \<open>
  \<open>sh_reply\<close> and \<open>sh_pure\<close> answer call number \<open>n\<close> of the session; \<open>sh_addresses n\<close> are the
  addresses of the elements of the array that call \<open>n\<close> returned; \<open>sh_clock k\<close> is the time since the start
  of its phase at which progress event \<open>k\<close> is reported.
\<close>

record shims =
  sh_exports :: "string \<Rightarrow> bool"
  sh_reply :: "nat \<Rightarrow> shim_call \<Rightarrow> shim_reply"
  sh_pure :: "nat \<Rightarrow> shim_call \<Rightarrow> lobj"
  sh_took :: "nat \<Rightarrow> nat"
  sh_addresses :: "nat \<Rightarrow> nat \<Rightarrow> nat"
  sh_clock :: "nat \<Rightarrow> nat"
  sh_memory :: scalar_memory
  sh_trampoline :: nat
  sh_source_roots :: "string list"

record session_world =
  sw_environment :: lobj
  sw_stats :: session_stats
  sw_polls :: nat
  sw_calls :: "shim_call list"
  sw_events :: "lean_progress_event list"
  sw_registry :: registry

type_synonym 'a session_call = "session_world \<Rightarrow> (lean_rs_error + 'a) \<times> session_world"

definition session_return :: "'a \<Rightarrow> 'a session_call" where
  "session_return x w = (Inr x, w)"

definition session_fail :: "lean_rs_error \<Rightarrow> 'a session_call" where
  "session_fail e w = (Inl e, w)"

definition session_bind :: "'a session_call \<Rightarrow> ('a \<Rightarrow> 'b session_call) \<Rightarrow> 'b session_call" where
  "session_bind m f w = (case m w of (Inl e, w1) \<Rightarrow> (Inl e, w1) | (Inr x, w1) \<Rightarrow> f x w1)"

definition record_stats :: "nat \<Rightarrow> nat \<Rightarrow> session_stats \<Rightarrow> session_stats" where
  "record_stats batch took s =
     s\<lparr>ss_ffi_calls := sat_inc (ss_ffi_calls s), ss_batch_items := sat_add (ss_batch_items s) batch,
       ss_elapsed_ns := sat_add (ss_elapsed_ns s) (clamp_u64 took)\<rparr>"

lemma record_call_stats: "ls_stats (record_call batch took s) = record_stats batch took (ls_stats s)"
  by (simp add: record_call_def record_stats_def)

text \<open>A token \<open>Some n\<close> is found set from poll number \<open>n\<close> on.\<close>

type_synonym cancel_token = "nat option"

definition poll_token :: "cancel_token \<Rightarrow> unit session_call" where
  "poll_token tok w =
     (case tok of
        None \<Rightarrow> (Inr (), w)
      | Some n \<Rightarrow> (if n \<le> sw_polls w then Inl host_cancelled else Inr (), w\<lparr>sw_polls := Suc (sw_polls w)\<rparr>))"

section \<open>Progress\<close>

definition progress_event_at :: "shims \<Rightarrow> string \<Rightarrow> nat \<Rightarrow> nat option \<Rightarrow> session_world \<Rightarrow> lean_progress_event" where
  "progress_event_at L phase current bound w =
     \<lparr>pe_phase = phase, pe_current = current, pe_total = bound, pe_elapsed = sh_clock L (length (sw_events w))\<rparr>"

definition report_progress :: "shims \<Rightarrow> progress_sink option \<Rightarrow> string \<Rightarrow> nat \<Rightarrow> nat option \<Rightarrow> unit session_call" where
  "report_progress L sink phase current bound w =
     (case sink of
        None \<Rightarrow> (Inr (), w)
      | Some report \<Rightarrow>
          (let ev = progress_event_at L phase current bound w
           in (case report ev of
                 None \<Rightarrow> Inr ()
               | Some payload \<Rightarrow> Inl (callback_panic payload),
               w\<lparr>sw_events := sw_events w @ [ev]\<rparr>)))"

text \<open>The closure a bridge registers: it hands the tick to the sink and asks to continue.\<close>

definition bridge_closure :: "shims \<Rightarrow> progress_sink \<Rightarrow> string \<Rightarrow> nat option \<Rightarrow> session_world \<Rightarrow> behaviour" where
  "bridge_closure L report phase bound w entry ev =
     (case ev of
        ProgressTick current tick_total \<Rightarrow>
          (case report (progress_event_at L phase current bound w) of
             Some payload \<Rightarrow> Inl payload
           | None \<Rightarrow> Inr FlowContinue)
      | StringEvent s \<Rightarrow> Inr FlowContinue)"

definition deliver_tick ::
  "shims \<Rightarrow> progress_sink \<Rightarrow> string \<Rightarrow> nat option \<Rightarrow> callback_handle \<Rightarrow> nat \<times> nat \<Rightarrow> session_world \<Rightarrow> callback_status \<times> session_world" where
  "deliver_tick L report phase bound h tick w =
     (case progress_trampoline (bridge_closure L report phase bound w) (ch_id h) PAYLOAD_PROGRESS_TICK (fst tick) (snd tick)
             (sw_registry w) of
        (st, rg) \<Rightarrow>
          (st, w\<lparr>sw_registry := rg,
              sw_events := (if rg_runs rg = rg_runs (sw_registry w) then sw_events w
                            else sw_events w @ [progress_event_at L phase (fst tick) bound w])\<rparr>))"

fun deliver_ticks ::
  "shims \<Rightarrow> progress_sink \<Rightarrow> string \<Rightarrow> nat option \<Rightarrow> callback_handle \<Rightarrow> (nat \<times> nat) list \<Rightarrow> session_world
    \<Rightarrow> callback_status list \<times> session_world" where
  "deliver_ticks L report phase bound h [] w = ([], w)"
| "deliver_ticks L report phase bound h (tick # ticks) w =
     (case deliver_tick L report phase bound h tick w of
        (st, w1) \<Rightarrow>
          (if st \<noteq> CsOk then ([st], w1)
           else case deliver_ticks L report phase bound h ticks w1 of (sts, w2) \<Rightarrow> (st # sts, w2)))"

section \<open>Calls into Lean\<close>

definition issue :: "shim_call \<Rightarrow> session_world \<Rightarrow> session_world" where
  "issue c w = w\<lparr>sw_calls := sw_calls w @ [c]\<rparr>"

definition count_call :: "shims \<Rightarrow> nat \<Rightarrow> nat \<Rightarrow> session_world \<Rightarrow> session_world" where
  "count_call L n batch w = w\<lparr>sw_stats := record_stats batch (sh_took L n) (sw_stats w)\<rparr>"

text \<open>A call through a checked binding of an \<open>IO\<close> export, recorded whatever it returned.\<close>

definition io_shim :: "shims \<Rightarrow> (lobj \<Rightarrow> 'a decoded) \<Rightarrow> nat \<Rightarrow> string \<Rightarrow> shim_arg list \<Rightarrow> 'a session_call" where
  "io_shim L dec batch name args w =
     (let n = length (sw_calls w); c = \<lparr>sc_symbol = name, sc_args = args\<rparr>
      in (decode_io_as dec (sr_result (sh_reply L n c) []), count_call L n batch (issue c w)))"

definition pure_shim :: "shims \<Rightarrow> (lobj \<Rightarrow> 'a decoded) \<Rightarrow> string \<Rightarrow> shim_arg list \<Rightarrow> 'a session_call" where
  "pure_shim L dec name args w =
     (let n = length (sw_calls w); c = \<lparr>sc_symbol = name, sc_args = args\<rparr>
      in (dec (sh_pure L n c), count_call L n 0 (issue c w)))"

definition env_shim :: "shims \<Rightarrow> (lobj \<Rightarrow> 'a decoded) \<Rightarrow> nat \<Rightarrow> string \<Rightarrow> shim_arg list \<Rightarrow> 'a session_call" where
  "env_shim L dec batch name args w = io_shim L dec batch name (ArgOwned (sw_environment w) # args) w"

text \<open>The call with \<open>?\<close> before it is recorded: a failure leaves it unrecorded.\<close>

definition env_shim_early :: "shims \<Rightarrow> (lobj \<Rightarrow> 'a decoded) \<Rightarrow> nat \<Rightarrow> string \<Rightarrow> shim_arg list \<Rightarrow> 'a session_call" where
  "env_shim_early L dec batch name args w =
     (let n = length (sw_calls w); c = \<lparr>sc_symbol = name, sc_args = ArgOwned (sw_environment w) # args\<rparr>
      in case decode_io_as dec (sr_result (sh_reply L n c) []) of
           Inl e \<Rightarrow> (Inl e, issue c w)
         | Inr x \<Rightarrow> (Inr x, count_call L n batch (issue c w)))"

text \<open>A call with a progress bridge, which is registered before the call and dropped after the answer is decoded.\<close>

definition progress_shim ::
  "shims \<Rightarrow> (lobj \<Rightarrow> 'a decoded) \<Rightarrow> progress_sink \<Rightarrow> string \<Rightarrow> nat option \<Rightarrow> nat \<Rightarrow> string \<Rightarrow> shim_arg list \<Rightarrow> 'a session_call" where
  "progress_shim L dec report phase bound batch name args w =
     (case register_entry KindProgress (sw_registry w) of
        (Inl e, rg) \<Rightarrow> (Inl e, w\<lparr>sw_registry := rg\<rparr>)
      | (Inr h, rg) \<Rightarrow>
          (let n = length (sw_calls w);
               c = \<lparr>sc_symbol = name,
                 sc_args = ArgOwned (sw_environment w) # args @ [ArgScalar (ch_id h), ArgScalar (sh_trampoline L)]\<rparr>;
               reply = sh_reply L n c
           in case deliver_ticks L report phase bound h (sr_ticks reply) (issue c (w\<lparr>sw_registry := rg\<rparr>)) of
                (sts, w1) \<Rightarrow>
                  (decoded_bind (decode_io (sr_result reply sts)) (decode_result dec h (sw_registry w1)),
                   (count_call L n batch w1)\<lparr>sw_registry := drop_handle h (sw_registry w1)\<rparr>)))"

section \<open>Names and declarations\<close>

definition arg_string :: "string \<Rightarrow> shim_arg" where
  "arg_string s = ArgOwned (string_into_lean s)"

definition arg_strings :: "string list \<Rightarrow> shim_arg" where
  "arg_strings ss = ArgOwned (array_into_lean string_into_lean ss)"

definition make_name :: "shims \<Rightarrow> cancel_token \<Rightarrow> string \<Rightarrow> lobj session_call" where
  "make_name L tok name =
     session_bind (poll_token tok) (\<lambda>_. pure_shim L handle_from_lean ''lean_rs_host_name_from_string'' [arg_string name])"

text \<open>The four lookups of one name share their first steps.\<close>

definition with_name :: "shims \<Rightarrow> cancel_token \<Rightarrow> string \<Rightarrow> (lobj \<Rightarrow> 'a session_call) \<Rightarrow> 'a session_call" where
  "with_name L tok name k =
     session_bind (poll_token tok) (\<lambda>_.
     session_bind (make_name L tok name) (\<lambda>handle.
     session_bind (poll_token tok) (\<lambda>_. k handle)))"

definition missing_declaration :: "string \<Rightarrow> lean_rs_error" where
  "missing_declaration name =
     conversion_error (''declaration '' @ [CHR 0x27] @ name @ [CHR 0x27] @ '' not found in imported environment'')"

definition query_declaration :: "shims \<Rightarrow> cancel_token \<Rightarrow> string \<Rightarrow> lobj session_call" where
  "query_declaration L tok name =
     with_name L tok name (\<lambda>handle.
       session_bind
         (env_shim L (option_from_lean handle_from_lean) 0 ''lean_rs_host_env_query_declaration'' [ArgOwned handle])
         (\<lambda>found. case found of Some d \<Rightarrow> session_return d | None \<Rightarrow> session_fail (missing_declaration name)))"

definition declaration_source_range :: "shims \<Rightarrow> cancel_token \<Rightarrow> string \<Rightarrow> lean_source_range option session_call" where
  "declaration_source_range L tok name =
     with_name L tok name (\<lambda>handle.
       session_bind (poll_token tok) (\<lambda>_.
         env_shim L (option_from_lean lean_source_range_from_lean) 0 ''lean_rs_host_env_declaration_source_range''
           [ArgOwned handle, arg_strings (sh_source_roots L)]))"

definition session_declaration_type :: "shims \<Rightarrow> cancel_token \<Rightarrow> string \<Rightarrow> lobj option session_call" where
  "session_declaration_type L tok name =
     with_name L tok name (\<lambda>handle.
       env_shim L (option_from_lean handle_from_lean) 0 ''lean_rs_host_env_declaration_type'' [ArgOwned handle])"

definition declaration_kind_of :: "shims \<Rightarrow> cancel_token \<Rightarrow> string \<Rightarrow> string session_call" where
  "declaration_kind_of L tok name =
     with_name L tok name (\<lambda>handle.
       env_shim L string_from_lean 0 ''lean_rs_host_env_declaration_kind'' [ArgOwned handle])"

definition declaration_name_of :: "shims \<Rightarrow> cancel_token \<Rightarrow> string \<Rightarrow> string session_call" where
  "declaration_name_of L tok name =
     with_name L tok name (\<lambda>handle.
       env_shim L string_from_lean 0 ''lean_rs_host_env_declaration_name'' [ArgOwned handle])"

definition list_declarations :: "shims \<Rightarrow> cancel_token \<Rightarrow> lobj list session_call" where
  "list_declarations L tok =
     session_bind (poll_token tok) (\<lambda>_.
       env_shim L (array_from_lean handle_from_lean) 0 ''lean_rs_host_env_list_declarations'' [])"

definition list_declarations_filtered ::
  "shims \<Rightarrow> cancel_token \<Rightarrow> progress_sink option \<Rightarrow> declaration_filter \<Rightarrow> lobj list session_call" where
  "list_declarations_filtered L tok sink filter1 =
     session_bind (poll_token tok) (\<lambda>_.
       case sink of
         Some report \<Rightarrow>
           progress_shim L (array_from_lean handle_from_lean) report ''list_declarations_filtered'' None 0
             ''lean_rs_host_env_list_declarations_filtered_progress'' [ArgOwned (declaration_filter_into_lean filter1)]
       | None \<Rightarrow>
           env_shim L (array_from_lean handle_from_lean) 0 ''lean_rs_host_env_list_declarations_filtered''
             [ArgOwned (declaration_filter_into_lean filter1)])"

section \<open>Many at once\<close>

text \<open>The loop of the methods that take a token: poll, one call, report.\<close>

fun per_item ::
  "shims \<Rightarrow> cancel_token \<Rightarrow> progress_sink option \<Rightarrow> string \<Rightarrow> ('x \<Rightarrow> 'a session_call) \<Rightarrow> nat \<Rightarrow> nat \<Rightarrow> 'x list \<Rightarrow> 'a list session_call" where
  "per_item L tok sink phase one bound idx [] = session_return []"
| "per_item L tok sink phase one bound idx (x # xs) =
     session_bind (poll_token tok) (\<lambda>_.
     session_bind (one x) (\<lambda>y.
     session_bind (report_progress L sink phase (clamp_u64 (idx + 1)) (Some bound)) (\<lambda>_.
     session_bind (per_item L tok sink phase one bound (idx + 1) xs) (\<lambda>ys. session_return (y # ys)))))"

definition each_item ::
  "shims \<Rightarrow> cancel_token \<Rightarrow> progress_sink option \<Rightarrow> string \<Rightarrow> ('x \<Rightarrow> 'a session_call) \<Rightarrow> 'x list \<Rightarrow> 'a list session_call" where
  "each_item L tok sink phase one xs = per_item L tok sink phase one (clamp_u64 (length xs)) 0 xs"

fun all_equal_name :: "string list \<Rightarrow> string option" where
  "all_equal_name [] = None"
| "all_equal_name (first # names) = (if \<forall>n \<in> set names. n = first then Some first else None)"

text \<open>Objects with their addresses: when all addresses agree the string is decoded once.\<close>

definition decode_strings_cached :: "(nat \<times> lobj) list \<Rightarrow> string list decoded" where
  "decode_strings_cached raw =
     (case raw of
        [] \<Rightarrow> Inr []
      | (key, first) # rest \<Rightarrow>
          (if \<forall>r \<in> set rest. fst r = key
           then decoded_bind (string_from_lean first) (\<lambda>s. Inr (replicate (length raw) s))
           else decode_each string_from_lean (map snd raw)))"

definition addressed :: "shims \<Rightarrow> nat \<Rightarrow> lobj list \<Rightarrow> (nat \<times> lobj) list" where
  "addressed L n vs = zip (map (sh_addresses L n) [0..<length vs]) vs"

definition strings_from_lean :: "shims \<Rightarrow> nat \<Rightarrow> lobj \<Rightarrow> string list decoded" where
  "strings_from_lean L n v =
     decoded_bind (array_from_lean handle_from_lean v) (\<lambda>raw. decode_strings_cached (addressed L n raw))"

text \<open>
  The three bulk lookups by name are written alike: a loop under a token, one call on one name when all names agree
  and nothing watches, and otherwise one call on all names, with or without a bridge.  \<open>dec n\<close> decodes what call
  \<open>n\<close> returned.
\<close>

definition last_or :: "'a \<Rightarrow> 'a list \<Rightarrow> 'a" where
  "last_or d xs = (if xs = [] then d else last xs)"

definition name_bulk ::
  "shims \<Rightarrow> cancel_token \<Rightarrow> progress_sink option \<Rightarrow> string \<Rightarrow> (string \<Rightarrow> 'a session_call) \<Rightarrow> (nat \<Rightarrow> lobj \<Rightarrow> 'a list decoded)
    \<Rightarrow> 'a \<Rightarrow> string \<Rightarrow> string \<Rightarrow> string list \<Rightarrow> 'a list session_call" where
  "name_bulk L tok sink phase one dec default1 bulk bulk_progress names w =
     (if names = [] then (Inr [], w)
      else session_bind (poll_token tok) (\<lambda>_ w1.
        if tok \<noteq> None then each_item L tok sink phase one names w1
        else case (sink, all_equal_name names) of
          (None, Some name) \<Rightarrow>
            session_bind
              (env_shim_early L (dec (length (sw_calls w1))) (clamp_u64 (length names)) bulk [arg_strings [name]])
              (\<lambda>r. session_return (replicate (length names) (last_or default1 r))) w1
        | (None, None) \<Rightarrow>
            env_shim L (dec (length (sw_calls w1))) (clamp_u64 (length names)) bulk [arg_strings names] w1
        | (Some report, _) \<Rightarrow>
            progress_shim L (dec (length (sw_calls w1))) report phase (Some (clamp_u64 (length names)))
              (clamp_u64 (length names)) bulk_progress [arg_strings names] w1) w)"

definition declaration_type_bulk ::
  "shims \<Rightarrow> cancel_token \<Rightarrow> progress_sink option \<Rightarrow> string list \<Rightarrow> lobj option list session_call" where
  "declaration_type_bulk L tok sink =
     name_bulk L tok sink ''declaration_type_bulk'' (session_declaration_type L tok)
       (\<lambda>n. array_from_lean (option_from_lean handle_from_lean)) None ''lean_rs_host_env_declaration_type_bulk''
       ''lean_rs_host_env_declaration_type_bulk_progress''"

definition declaration_kind_bulk ::
  "shims \<Rightarrow> cancel_token \<Rightarrow> progress_sink option \<Rightarrow> string list \<Rightarrow> string list session_call" where
  "declaration_kind_bulk L tok sink =
     name_bulk L tok sink ''declaration_kind_bulk'' (declaration_kind_of L tok) (strings_from_lean L) []
       ''lean_rs_host_env_declaration_kind_bulk'' ''lean_rs_host_env_declaration_kind_bulk_progress''"

definition declaration_name_bulk ::
  "shims \<Rightarrow> cancel_token \<Rightarrow> progress_sink option \<Rightarrow> string list \<Rightarrow> string list session_call" where
  "declaration_name_bulk L tok sink =
     name_bulk L tok sink ''declaration_name_bulk'' (declaration_name_of L tok) (strings_from_lean L) []
       ''lean_rs_host_env_declaration_name_bulk'' ''lean_rs_host_env_declaration_name_bulk_progress''"

text \<open>\<open>query_declarations_bulk\<close>: without a token the names are built one by one, then looked up in one call.\<close>

fun all_found :: "lobj option list \<Rightarrow> string list \<Rightarrow> lobj list decoded" where
  "all_found (slot # slots) (name # names) =
     (case slot of
        Some d \<Rightarrow> decoded_bind (all_found slots names) (\<lambda>ds. Inr (d # ds))
      | None \<Rightarrow> Inl (missing_declaration name))"
| "all_found slots names = Inr []"

fun prepare_names :: "shims \<Rightarrow> cancel_token \<Rightarrow> progress_sink option \<Rightarrow> nat \<Rightarrow> nat \<Rightarrow> string list \<Rightarrow> lobj list session_call" where
  "prepare_names L tok sink bound idx [] = session_return []"
| "prepare_names L tok sink bound idx (name # names) =
     session_bind (make_name L tok name) (\<lambda>handle.
     session_bind (report_progress L sink ''prepare_names'' (clamp_u64 (idx + 1)) (Some bound)) (\<lambda>_.
     session_bind (prepare_names L tok sink bound (idx + 1) names) (\<lambda>handles. session_return (handle # handles))))"

definition query_declarations_bulk ::
  "shims \<Rightarrow> cancel_token \<Rightarrow> progress_sink option \<Rightarrow> string list \<Rightarrow> lobj list session_call" where
  "query_declarations_bulk L tok sink names =
     (if names = [] then session_return []
      else session_bind (poll_token tok) (\<lambda>_.
        if tok \<noteq> None then each_item L tok sink ''query_declarations_bulk'' (query_declaration L tok) names
        else
          session_bind (prepare_names L tok sink (clamp_u64 (length names)) 0 names) (\<lambda>handles.
          session_bind (poll_token tok) (\<lambda>_.
          session_bind
            (case sink of
               Some report \<Rightarrow>
                 progress_shim L (array_from_lean (option_from_lean handle_from_lean)) report ''query_declarations_bulk''
                   (Some (clamp_u64 (length names))) (clamp_u64 (length names))
                   ''lean_rs_host_env_query_declarations_bulk_progress'' [ArgOwned (array_into_lean id handles)]
             | None \<Rightarrow>
                 env_shim L (array_from_lean (option_from_lean handle_from_lean)) (clamp_u64 (length names))
                   ''lean_rs_host_env_query_declarations_bulk'' [ArgOwned (array_into_lean id handles)])
            (\<lambda>slots w. (all_found slots names, w))))))"

definition name_to_string :: "shims \<Rightarrow> cancel_token \<Rightarrow> lobj \<Rightarrow> string session_call" where
  "name_to_string L tok name =
     session_bind (poll_token tok) (\<lambda>_. pure_shim L string_from_lean ''lean_rs_host_name_to_string'' [ArgOwned name])"

definition name_to_string_bulk :: "shims \<Rightarrow> cancel_token \<Rightarrow> progress_sink option \<Rightarrow> lobj list \<Rightarrow> string list session_call" where
  "name_to_string_bulk L tok sink names =
     (if names = [] then session_return []
      else session_bind (poll_token tok) (\<lambda>_.
        each_item L tok sink ''name_to_string_bulk'' (name_to_string L tok) names))"

definition session_list_strings ::
  "shims \<Rightarrow> cancel_token \<Rightarrow> progress_sink option \<Rightarrow> declaration_filter \<Rightarrow> string list session_call" where
  "session_list_strings L tok sink filter1 =
     session_bind (list_declarations_filtered L tok None filter1) (\<lambda>names. name_to_string_bulk L tok sink names)"

section \<open>Search and inspection\<close>

definition search_declarations :: "shims \<Rightarrow> cancel_token \<Rightarrow> search_request \<Rightarrow> search_answer session_call" where
  "search_declarations L tok request =
     session_bind (poll_token tok) (\<lambda>_.
     session_bind (poll_token tok) (\<lambda>_.
       env_shim L search_answer_from_lean 0 ''lean_rs_host_env_search_declarations''
         [ArgOwned (search_request_into_lean request),
          arg_strings (if srq_include_source request then sh_source_roots L else [])]))"

definition inspect_declaration :: "shims \<Rightarrow> cancel_token \<Rightarrow> inspection_request \<Rightarrow> inspection_answer session_call" where
  "inspect_declaration L tok request =
     session_bind (poll_token tok) (\<lambda>_.
       if \<not> sh_exports L ''lean_rs_host_env_inspect_declaration'' then session_return InspectionUnsupported
       else session_bind (poll_token tok) (\<lambda>_.
         env_shim L inspection_answer_from_lean 0 ''lean_rs_host_env_inspect_declaration''
           [ArgOwned (inspection_request_into_lean request),
            arg_strings (if ifd_source (irq_fields request) then sh_source_roots L else []),
            ArgScalar LEAN_HEARTBEAT_LIMIT_DEFAULT]))"

definition expr_to_string_raw :: "shims \<Rightarrow> cancel_token \<Rightarrow> lobj \<Rightarrow> string session_call" where
  "expr_to_string_raw L tok expr =
     session_bind (poll_token tok) (\<lambda>_. pure_shim L string_from_lean ''lean_rs_host_env_expr_to_string_raw'' [ArgOwned expr])"

section \<open>Module queries, attempts and verification\<close>

definition elab_args :: "lean_elab_options \<Rightarrow> shim_arg list" where
  "elab_args o1 =
     [arg_string (eo_namespace_context o1), arg_string (eo_file_label o1), ArgScalar (eo_heartbeat_limit o1),
      ArgScalar (eo_diagnostic_byte_limit o1)]"

text \<open>An optional binding that is absent answers without a call.\<close>

definition optional_shim ::
  "shims \<Rightarrow> cancel_token \<Rightarrow> (lobj \<Rightarrow> 'a decoded) \<Rightarrow> 'a \<Rightarrow> nat \<Rightarrow> string \<Rightarrow> shim_arg list \<Rightarrow> 'a session_call" where
  "optional_shim L tok dec absent batch name args =
     session_bind (poll_token tok) (\<lambda>_.
       if \<not> sh_exports L name then session_return absent else env_shim L dec batch name args)"

definition process_module_query :: "shims \<Rightarrow> cancel_token \<Rightarrow> string \<Rightarrow> module_query \<Rightarrow> lean_elab_options \<Rightarrow> module_query_outcome session_call" where
  "process_module_query L tok source query o1 =
     optional_shim L tok (module_query_outcome_from_lean (sh_memory L)) MqUnsupported 0 ''lean_rs_host_process_module_query''
       ([arg_string source, ArgOwned (module_query_into_lean query)] @ elab_args o1)"

definition session_query_batch ::
  "shims \<Rightarrow> cancel_token \<Rightarrow> string \<Rightarrow> query_selector list \<Rightarrow> output_budgets \<Rightarrow> lean_elab_options \<Rightarrow> batch_outcome session_call" where
  "session_query_batch L tok source selectors budgets o1 =
     optional_shim L tok (batch_outcome_from_lean (sh_memory L)) MbUnsupported (clamp_u64 (length selectors))
       ''lean_rs_host_process_module_query_batch''
       ([arg_string source, ArgOwned (array_into_lean query_selector_into_lean selectors),
         ArgOwned (output_budgets_into_lean budgets)] @ elab_args o1)"

record query_cache_policy =
  qcp_file_identity :: string
  qcp_key :: string
  qcp_max_entries :: nat
  qcp_ttl_millis :: nat
  qcp_max_bytes :: nat

definition cache_policy_text :: "query_cache_policy \<Rightarrow> string" where
  "cache_policy_text p =
     qcp_file_identity p @ [CHR 0x0A] @ qcp_key p @ [CHR 0x0A] @ decimal (qcp_max_entries p) @ [CHR 0x0A] @
     decimal (qcp_ttl_millis p) @ [CHR 0x0A] @ decimal (qcp_max_bytes p)"

definition process_module_query_batch_cached ::
  "shims \<Rightarrow> cancel_token \<Rightarrow> string \<Rightarrow> query_selector list \<Rightarrow> output_budgets \<Rightarrow> lean_elab_options \<Rightarrow> query_cache_policy
    \<Rightarrow> batch_cached_outcome session_call" where
  "process_module_query_batch_cached L tok source selectors budgets o1 policy =
     optional_shim L tok (batch_cached_outcome_from_lean (sh_memory L)) McUnsupported (clamp_u64 (length selectors))
       ''lean_rs_host_process_module_query_batch_cached''
       ([arg_string source, ArgOwned (array_into_lean query_selector_into_lean selectors),
         ArgOwned (output_budgets_into_lean budgets)] @ elab_args o1 @ [arg_string (cache_policy_text policy)])"

definition session_attempt_proof :: "shims \<Rightarrow> cancel_token \<Rightarrow> attempt_request \<Rightarrow> lean_elab_options \<Rightarrow> proof_attempt_outcome session_call" where
  "session_attempt_proof L tok request o1 =
     optional_shim L tok (proof_attempt_outcome_from_lean (sh_memory L)) PaUnsupported
       (clamp_u64 (length (arq_candidates request))) ''lean_rs_host_attempt_proof''
       (ArgOwned (attempt_request_into_lean request) # elab_args o1)"

definition session_verify :: "shims \<Rightarrow> cancel_token \<Rightarrow> verification_request \<Rightarrow> lean_elab_options \<Rightarrow> verification_outcome session_call" where
  "session_verify L tok request o1 =
     optional_shim L tok (verification_outcome_from_lean (sh_memory L)) VoUnsupported 1 ''lean_rs_host_verify_declaration''
       (ArgOwned (verification_request_into_lean request) # elab_args o1)"

definition session_verify_batch ::
  "shims \<Rightarrow> cancel_token \<Rightarrow> verification_batch_request \<Rightarrow> lean_elab_options \<Rightarrow> verification_batch_outcome session_call" where
  "session_verify_batch L tok request o1 =
     optional_shim L tok (verification_batch_outcome_from_lean (sh_memory L)) VbUnsupported
       (clamp_u64 (length (vbq_targets request))) ''lean_rs_host_verify_declaration_batch''
       (ArgOwned (verification_batch_request_into_lean request) # elab_args o1)"

definition clear_snapshot_cache :: "shims \<Rightarrow> snapshot_cache_cleared session_call" where
  "clear_snapshot_cache L =
     (if \<not> sh_exports L ''lean_rs_host_clear_module_snapshot_cache''
      then session_return \<lparr>scc_entries_cleared = 0, scc_approx_bytes_cleared = 0\<rparr>
      else io_shim L (snapshot_cache_cleared_from_lean (sh_memory L)) 0 ''lean_rs_host_clear_module_snapshot_cache'' [])"

section \<open>Elaboration, evidence and meta services\<close>

definition elaborated_from_lean :: "shims \<Rightarrow> lobj \<Rightarrow> (lean_elab_failure + lobj) decoded" where
  "elaborated_from_lean L = except_from_lean (lean_elab_failure_from_lean (sh_memory L)) handle_from_lean"

definition elaborate_term ::
  "shims \<Rightarrow> cancel_token \<Rightarrow> lean_elab_options \<Rightarrow> lobj option \<Rightarrow> string \<Rightarrow> (lean_elab_failure + lobj) session_call" where
  "elaborate_term L tok o1 expected_type source =
     session_bind (poll_token tok) (\<lambda>_.
       env_shim L (elaborated_from_lean L) 0 ''lean_rs_host_elaborate''
         ([arg_string source, ArgOwned (option_into_lean id expected_type)] @ elab_args o1))"

definition elaborate_bulk ::
  "shims \<Rightarrow> cancel_token \<Rightarrow> progress_sink option \<Rightarrow> lean_elab_options \<Rightarrow> string list \<Rightarrow> (lean_elab_failure + lobj) list session_call" where
  "elaborate_bulk L tok sink o1 sources =
     (if sources = [] then session_return []
      else session_bind (poll_token tok) (\<lambda>_.
        if tok \<noteq> None then each_item L tok sink ''elaborate_bulk'' (elaborate_term L tok o1 None) sources
        else case sink of
          Some report \<Rightarrow>
            progress_shim L (array_from_lean (elaborated_from_lean L)) report ''elaborate_bulk''
              (Some (clamp_u64 (length sources))) (clamp_u64 (length sources)) ''lean_rs_host_elaborate_bulk_progress''
              (arg_strings sources # elab_args o1)
        | None \<Rightarrow>
            env_shim L (array_from_lean (elaborated_from_lean L)) (clamp_u64 (length sources)) ''lean_rs_host_elaborate_bulk''
              (arg_strings sources # elab_args o1)))"

definition session_kernel_check ::
  "shims \<Rightarrow> cancel_token \<Rightarrow> progress_sink option \<Rightarrow> lean_elab_options \<Rightarrow> string \<Rightarrow> kernel_answer session_call" where
  "session_kernel_check L tok sink o1 source =
     session_bind (poll_token tok) (\<lambda>_.
       case sink of
         Some report \<Rightarrow>
           progress_shim L (kernel_answer_from_lean (sh_memory L)) report ''kernel_check'' (Some 1) 0
             ''lean_rs_host_kernel_check_progress'' (arg_string source # elab_args o1)
       | None \<Rightarrow>
           env_shim L (kernel_answer_from_lean (sh_memory L)) 0 ''lean_rs_host_kernel_check'' (arg_string source # elab_args o1))"

definition check_evidence :: "shims \<Rightarrow> cancel_token \<Rightarrow> lobj \<Rightarrow> evidence_answer session_call" where
  "check_evidence L tok evidence =
     session_bind (poll_token tok) (\<lambda>_.
       env_shim L evidence_answer_from_lean 0 ''lean_rs_host_check_evidence'' [ArgOwned evidence])"

definition summarize_evidence :: "shims \<Rightarrow> cancel_token \<Rightarrow> lobj \<Rightarrow> lean_proof_summary session_call" where
  "summarize_evidence L tok evidence =
     session_bind (poll_token tok) (\<lambda>_.
       env_shim L lean_proof_summary_from_lean 0 ''lean_rs_host_evidence_summary'' [ArgOwned evidence])"

definition unsupported_meta_response :: "string \<Rightarrow> 'a meta_answer" where
  "unsupported_meta_response symbol =
     MetaUnsupported
       (synthetic_failure (''bundled host shim does not export meta service '' @ [CHR 0x27] @ symbol @ [CHR 0x27])
         ''<lean-rs-host meta>'')"

definition meta_args :: "meta_options \<Rightarrow> shim_arg list" where
  "meta_args o1 =
     [ArgScalar (mo_heartbeat_limit o1), ArgScalar (mo_diagnostic_byte_limit o1),
      ArgScalar (transparency_as_byte (mo_transparency o1))]"

definition dispatch_meta :: "shims \<Rightarrow> (lobj \<Rightarrow> 'a decoded) \<Rightarrow> bool \<Rightarrow> string \<Rightarrow> lobj \<Rightarrow> meta_options \<Rightarrow> 'a meta_answer session_call" where
  "dispatch_meta L dec known service request o1 =
     (if \<not> (known \<and> sh_exports L service) then session_return (unsupported_meta_response service)
      else env_shim L (meta_answer_from_lean (\<lambda>mem. dec) (sh_memory L)) 0 service (ArgOwned request # meta_args o1))"

text \<open>The services of \<open>meta/service.rs\<close> by the symbol they are dispatched to.\<close>

definition expr_services :: "string list" where
  "expr_services =
     [''lean_rs_host_meta_infer_type'', ''lean_rs_host_meta_whnf'', ''lean_rs_host_meta_heartbeat_burn'']"

definition run_meta_expr :: "shims \<Rightarrow> cancel_token \<Rightarrow> string \<Rightarrow> lobj \<Rightarrow> meta_options \<Rightarrow> lobj meta_answer session_call" where
  "run_meta_expr L tok service expr o1 =
     session_bind (poll_token tok) (\<lambda>_. dispatch_meta L handle_from_lean (service \<in> set expr_services) service expr o1)"

definition run_meta_is_def_eq ::
  "shims \<Rightarrow> cancel_token \<Rightarrow> lobj \<times> lobj \<times> meta_transparency \<Rightarrow> meta_options \<Rightarrow> bool meta_answer session_call" where
  "run_meta_is_def_eq L tok request o1 =
     session_bind (poll_token tok) (\<lambda>_.
       dispatch_meta L bool_from_lean True ''lean_rs_host_meta_is_def_eq''
         (triple_into_lean id id transparency_into_lean request) o1)"

definition run_meta_pp_expr :: "shims \<Rightarrow> cancel_token \<Rightarrow> lobj \<Rightarrow> meta_options \<Rightarrow> string meta_answer session_call" where
  "run_meta_pp_expr L tok expr o1 =
     session_bind (poll_token tok) (\<lambda>_. dispatch_meta L string_from_lean True ''lean_rs_host_meta_pp_expr'' expr o1)"

end
