(* ===== verification/Session_Calls.thy ===== *)
theory Session_Calls
  imports Host_Session
begin

text \<open>
  What a same-process session promises about its calls (\<open>host/session.rs\<close>): every shim call is counted, a call
  is paid for by a poll of the token, nothing is called once the token is set, bridges leave no registration behind, and
  the bulk methods are folds of the singular ones.
\<close>

section \<open>Operations as data\<close>

datatype session_op =
    SoQuery cancel_token string
  | SoRange cancel_token string
  | SoType cancel_token string
  | SoKind cancel_token string
  | SoName cancel_token string
  | SoList cancel_token
  | SoListFiltered cancel_token "progress_sink option" declaration_filter
  | SoTypeBulk cancel_token "progress_sink option" "string list"
  | SoKindBulk cancel_token "progress_sink option" "string list"
  | SoNameBulk cancel_token "progress_sink option" "string list"
  | SoQueryBulk cancel_token "progress_sink option" "string list"
  | SoNameText cancel_token lobj
  | SoNameTexts cancel_token "progress_sink option" "lobj list"
  | SoListStrings cancel_token "progress_sink option" declaration_filter
  | SoSearch cancel_token search_request
  | SoInspect cancel_token inspection_request
  | SoExprText cancel_token lobj
  | SoModuleQuery cancel_token string module_query lean_elab_options
  | SoModuleBatch cancel_token string "query_selector list" output_budgets lean_elab_options
  | SoModuleCached cancel_token string "query_selector list" output_budgets lean_elab_options query_cache_policy
  | SoAttempt cancel_token attempt_request lean_elab_options
  | SoVerify cancel_token verification_request lean_elab_options
  | SoVerifyBatch cancel_token verification_batch_request lean_elab_options
  | SoClearCache
  | SoElaborate cancel_token lean_elab_options "lobj option" string
  | SoElaborateBulk cancel_token "progress_sink option" lean_elab_options "string list"
  | SoKernelCheck cancel_token "progress_sink option" lean_elab_options string
  | SoCheckEvidence cancel_token lobj
  | SoSummarize cancel_token lobj
  | SoMetaExpr cancel_token string lobj meta_options
  | SoMetaDefEq cancel_token "lobj \<times> lobj \<times> meta_transparency" meta_options
  | SoMetaPp cancel_token lobj meta_options

definition discard :: "'a session_call \<Rightarrow> unit session_call" where
  "discard m = session_bind m (\<lambda>_. session_return ())"

fun session_op_call :: "shims \<Rightarrow> session_op \<Rightarrow> unit session_call" where
  "session_op_call L (SoQuery tok name) = discard (query_declaration L tok name)"
| "session_op_call L (SoRange tok name) = discard (declaration_source_range L tok name)"
| "session_op_call L (SoType tok name) = discard (session_declaration_type L tok name)"
| "session_op_call L (SoKind tok name) = discard (declaration_kind_of L tok name)"
| "session_op_call L (SoName tok name) = discard (declaration_name_of L tok name)"
| "session_op_call L (SoList tok) = discard (list_declarations L tok)"
| "session_op_call L (SoListFiltered tok sink f) = discard (list_declarations_filtered L tok sink f)"
| "session_op_call L (SoTypeBulk tok sink names) = discard (declaration_type_bulk L tok sink names)"
| "session_op_call L (SoKindBulk tok sink names) = discard (declaration_kind_bulk L tok sink names)"
| "session_op_call L (SoNameBulk tok sink names) = discard (declaration_name_bulk L tok sink names)"
| "session_op_call L (SoQueryBulk tok sink names) = discard (query_declarations_bulk L tok sink names)"
| "session_op_call L (SoNameText tok name) = discard (name_to_string L tok name)"
| "session_op_call L (SoNameTexts tok sink names) = discard (name_to_string_bulk L tok sink names)"
| "session_op_call L (SoListStrings tok sink f) = discard (session_list_strings L tok sink f)"
| "session_op_call L (SoSearch tok request) = discard (search_declarations L tok request)"
| "session_op_call L (SoInspect tok request) = discard (inspect_declaration L tok request)"
| "session_op_call L (SoExprText tok expr) = discard (expr_to_string_raw L tok expr)"
| "session_op_call L (SoModuleQuery tok source query o1) = discard (process_module_query L tok source query o1)"
| "session_op_call L (SoModuleBatch tok source selectors budgets o1) =
     discard (session_query_batch L tok source selectors budgets o1)"
| "session_op_call L (SoModuleCached tok source selectors budgets o1 policy) =
     discard (process_module_query_batch_cached L tok source selectors budgets o1 policy)"
| "session_op_call L (SoAttempt tok request o1) = discard (session_attempt_proof L tok request o1)"
| "session_op_call L (SoVerify tok request o1) = discard (session_verify L tok request o1)"
| "session_op_call L (SoVerifyBatch tok request o1) = discard (session_verify_batch L tok request o1)"
| "session_op_call L SoClearCache = discard (clear_snapshot_cache L)"
| "session_op_call L (SoElaborate tok o1 expected source) = discard (elaborate_term L tok o1 expected source)"
| "session_op_call L (SoElaborateBulk tok sink o1 sources) = discard (elaborate_bulk L tok sink o1 sources)"
| "session_op_call L (SoKernelCheck tok sink o1 source) = discard (session_kernel_check L tok sink o1 source)"
| "session_op_call L (SoCheckEvidence tok evidence) = discard (check_evidence L tok evidence)"
| "session_op_call L (SoSummarize tok evidence) = discard (summarize_evidence L tok evidence)"
| "session_op_call L (SoMetaExpr tok service expr o1) = discard (run_meta_expr L tok service expr o1)"
| "session_op_call L (SoMetaDefEq tok request o1) = discard (run_meta_is_def_eq L tok request o1)"
| "session_op_call L (SoMetaPp tok expr o1) = discard (run_meta_pp_expr L tok expr o1)"

fun session_op_token :: "session_op \<Rightarrow> cancel_token" where
  "session_op_token (SoQuery tok name) = tok"
| "session_op_token (SoRange tok name) = tok"
| "session_op_token (SoType tok name) = tok"
| "session_op_token (SoKind tok name) = tok"
| "session_op_token (SoName tok name) = tok"
| "session_op_token (SoList tok) = tok"
| "session_op_token (SoListFiltered tok sink f) = tok"
| "session_op_token (SoTypeBulk tok sink names) = tok"
| "session_op_token (SoKindBulk tok sink names) = tok"
| "session_op_token (SoNameBulk tok sink names) = tok"
| "session_op_token (SoQueryBulk tok sink names) = tok"
| "session_op_token (SoNameText tok name) = tok"
| "session_op_token (SoNameTexts tok sink names) = tok"
| "session_op_token (SoListStrings tok sink f) = tok"
| "session_op_token (SoSearch tok request) = tok"
| "session_op_token (SoInspect tok request) = tok"
| "session_op_token (SoExprText tok expr) = tok"
| "session_op_token (SoModuleQuery tok source query o1) = tok"
| "session_op_token (SoModuleBatch tok source selectors budgets o1) = tok"
| "session_op_token (SoModuleCached tok source selectors budgets o1 policy) = tok"
| "session_op_token (SoAttempt tok request o1) = tok"
| "session_op_token (SoVerify tok request o1) = tok"
| "session_op_token (SoVerifyBatch tok request o1) = tok"
| "session_op_token SoClearCache = None"
| "session_op_token (SoElaborate tok o1 expected source) = tok"
| "session_op_token (SoElaborateBulk tok sink o1 sources) = tok"
| "session_op_token (SoKernelCheck tok sink o1 source) = tok"
| "session_op_token (SoCheckEvidence tok evidence) = tok"
| "session_op_token (SoSummarize tok evidence) = tok"
| "session_op_token (SoMetaExpr tok service expr o1) = tok"
| "session_op_token (SoMetaDefEq tok request o1) = tok"
| "session_op_token (SoMetaPp tok expr o1) = tok"

text \<open>The bulk methods answer an empty batch before they look at the token.\<close>

fun empty_batch :: "session_op \<Rightarrow> bool" where
  "empty_batch (SoTypeBulk tok sink names) \<longleftrightarrow> names = []"
| "empty_batch (SoKindBulk tok sink names) \<longleftrightarrow> names = []"
| "empty_batch (SoNameBulk tok sink names) \<longleftrightarrow> names = []"
| "empty_batch (SoQueryBulk tok sink names) \<longleftrightarrow> names = []"
| "empty_batch (SoNameTexts tok sink names) \<longleftrightarrow> names = []"
| "empty_batch (SoElaborateBulk tok sink o1 sources) \<longleftrightarrow> sources = []"
| "empty_batch op \<longleftrightarrow> False"

text \<open>The calls whose failure is left uncounted: one name asked for all, with nothing watching.\<close>

definition same_name_batch :: "cancel_token \<Rightarrow> progress_sink option \<Rightarrow> string list \<Rightarrow> bool" where
  "same_name_batch tok sink names \<longleftrightarrow> tok = None \<and> sink = None \<and> all_equal_name names \<noteq> None"

fun counts_late :: "session_op \<Rightarrow> bool" where
  "counts_late (SoTypeBulk tok sink names) \<longleftrightarrow> same_name_batch tok sink names"
| "counts_late (SoKindBulk tok sink names) \<longleftrightarrow> same_name_batch tok sink names"
| "counts_late (SoNameBulk tok sink names) \<longleftrightarrow> same_name_batch tok sink names"
| "counts_late op \<longleftrightarrow> False"

section \<open>Calls and their count\<close>

text \<open>
  A tallied step only appends calls and events, counts each call once, keeps the environment and leaves the table of
  callbacks as it found it.
\<close>

definition session_frame :: "session_world \<Rightarrow> session_world \<Rightarrow> bool" where
  "session_frame w w1 \<longleftrightarrow>
     sw_environment w1 = sw_environment w \<and> sw_polls w \<le> sw_polls w1 \<and> rg_entries (sw_registry w1) = rg_entries (sw_registry w) \<and>
     (\<exists>cs. sw_calls w1 = sw_calls w @ cs) \<and> (\<exists>es. sw_events w1 = sw_events w @ es)"

definition new_calls :: "session_world \<Rightarrow> session_world \<Rightarrow> nat" where
  "new_calls w w1 = length (sw_calls w1) - length (sw_calls w)"

definition tallied :: "'a session_call \<Rightarrow> bool" where
  "tallied m \<longleftrightarrow>
     (\<forall>w. ss_ffi_calls (sw_stats w) \<le> u64_max \<longrightarrow> session_frame w (snd (m w)) \<and>
        ss_ffi_calls (sw_stats (snd (m w))) = sat_add (ss_ffi_calls (sw_stats w)) (new_calls w (snd (m w))))"

named_theorems tallied_rules

lemma tallied_step:
  "tallied m \<Longrightarrow> ss_ffi_calls (sw_stats w) \<le> u64_max \<Longrightarrow> session_frame w (snd (m w))"
  "tallied m \<Longrightarrow> ss_ffi_calls (sw_stats w) \<le> u64_max \<Longrightarrow>
     ss_ffi_calls (sw_stats (snd (m w))) = sat_add (ss_ffi_calls (sw_stats w)) (new_calls w (snd (m w)))"
  by (simp_all add: tallied_def)

lemma session_frame_refl [simp]: "session_frame w w"
  by (simp add: session_frame_def)

lemma session_frame_trans:
  assumes "session_frame w w1" "session_frame w1 w2"
  shows "session_frame w w2" "new_calls w w2 = new_calls w w1 + new_calls w1 w2"
  using assms by (auto simp: session_frame_def new_calls_def)

lemma session_bind_cases:
  obtains e w1 where "m w = (Inl e, w1)" "session_bind m f w = (Inl e, w1)"
  | x w1 where "m w = (Inr x, w1)" "session_bind m f w = f x w1"
  by (cases "m w"; cases "fst (m w)") (auto simp: session_bind_def)

lemma tallied_bind [tallied_rules]:
  assumes "tallied m" "\<And>x. tallied (f x)"
  shows "tallied (session_bind m f)"
  unfolding tallied_def
proof (intro allI impI)
  fix w :: session_world
  assume le: "ss_ffi_calls (sw_stats w) \<le> u64_max"
  show "session_frame w (snd (session_bind m f w)) \<and>
    ss_ffi_calls (sw_stats (snd (session_bind m f w))) =
      sat_add (ss_ffi_calls (sw_stats w)) (new_calls w (snd (session_bind m f w)))"
  proof (cases rule: session_bind_cases [of m w f])
    case (1 e w1)
    then show ?thesis using tallied_step [OF assms(1) le] by simp
  next
    case (2 x w1)
    note a = tallied_step [OF assms(1) le, unfolded 2(1), simplified]
    from a(2) have "ss_ffi_calls (sw_stats w1) \<le> u64_max" using sat_add_le_max by simp
    note b = tallied_step [OF assms(2) this, of x]
    show ?thesis
      using session_frame_trans [OF a(1) b(1)] a(2) b(2) 2(2) by (simp add: sat_add_assoc)
  qed
qed

lemma tallied_quiet:
  assumes "\<And>w. session_frame w (snd (m w))" "\<And>w. sw_calls (snd (m w)) = sw_calls w" "\<And>w. sw_stats (snd (m w)) = sw_stats w"
  shows "tallied m"
  using assms by (simp add: tallied_def new_calls_def)

lemma tallied_ok [tallied_rules]: "tallied (session_return x)" "tallied (session_fail e)" "tallied (\<lambda>w. (r, w))"
  by (rule tallied_quiet; simp add: session_return_def session_fail_def)+

lemma tallied_poll [tallied_rules]: "tallied (poll_token tok)"
  by (rule tallied_quiet) (simp_all add: poll_token_def session_frame_def split: option.splits)

lemma tallied_report [tallied_rules]: "tallied (report_progress L sink phase current bound)"
  by (rule tallied_quiet) (simp_all add: report_progress_def session_frame_def Let_def split: option.splits)

lemma tallied_io [tallied_rules]: "tallied (io_shim L dec batch name args)" "tallied (pure_shim L dec name args)"
  "tallied (env_shim L dec batch name args)"
  by (simp_all add: tallied_def io_shim_def env_shim_def pure_shim_def Let_def count_call_def issue_def session_frame_def
    new_calls_def record_stats_def)

lemma allocate_id_entries:
  "allocate_id tries rg = (r, rg1) \<Longrightarrow>
     rg_entries rg1 = rg_entries rg \<and> rg_heap rg1 = rg_heap rg \<and> rg_poisoned rg1 = rg_poisoned rg \<and> rg_runs rg1 = rg_runs rg \<and>
     (\<forall>i. r = Some i \<longrightarrow> map_of (rg_entries rg) i = None)"
proof (induction tries arbitrary: rg)
  case (Suc tries)
  let ?rg = "rg\<lparr>rg_next := (rg_next rg + 1) mod 2 ^ 64\<rparr>"
  show ?case
  proof (cases "rg_next rg = 0 \<or> map_of (rg_entries rg) (rg_next rg) \<noteq> None")
    case True
    then have "allocate_id tries ?rg = (r, rg1)" using Suc.prems by (auto simp: Let_def)
    from Suc.IH [OF this] show ?thesis by simp
  next
    case False
    then show ?thesis using Suc.prems by (auto simp: Let_def)
  qed
qed simp

lemma register_entry_entries:
  assumes "register_entry kind rg = (r, rg1)"
  shows "case r of
      Inl e \<Rightarrow> rg_entries rg1 = rg_entries rg
    | Inr h \<Rightarrow> \<not> rg_poisoned rg1 \<and> rg_entries rg1 = (ch_id h, ch_entry h) # rg_entries rg \<and> map_of (rg_entries rg) (ch_id h) = None \<and>
        ch_entry h < length (rg_heap rg1) \<and> kb_kind (rg_heap rg1 ! ch_entry h) = kind \<and> last_callback_error h rg1 = None"
proof -
  obtain i rg2 where al: "allocate_id 1024 rg = (i, rg2)" by fastforce
  show ?thesis
    using assms allocate_id_entries [OF al] al
    by (auto simp: register_entry_def last_callback_error_def split: if_splits option.splits)
qed

lemma drop_registered:
  assumes "register_entry kind rg = (Inr h, rg1)" "rg_entries rg2 = rg_entries rg1" "rg_poisoned rg2 = rg_poisoned rg1"
  shows "rg_entries (drop_handle h rg2) = rg_entries rg"
proof -
  have e: "\<not> rg_poisoned rg1" "rg_entries rg1 = (ch_id h, ch_entry h) # rg_entries rg" "map_of (rg_entries rg) (ch_id h) = None"
    using register_entry_entries [OF assms(1)] by simp_all
  have "\<forall>p \<in> set (rg_entries rg). fst p \<noteq> ch_id h" using e(3) by (force simp: map_of_eq_None_iff)
  then have "filter (\<lambda>p. fst p \<noteq> ch_id h) (rg_entries rg) = rg_entries rg" by simp
  then show ?thesis using e assms(2,3) by (simp add: drop_handle_def)
qed

lemma trampoline_frame:
  assumes "progress_trampoline behaviour i tag a b rg = (st, rg1)"
  shows "rg_entries rg1 = rg_entries rg \<and> rg_poisoned rg1 = rg_poisoned rg \<and> length (rg_heap rg1) = length (rg_heap rg)"
  using assms report_event_frame by (fastforce simp: progress_trampoline_def split: if_splits option.splits)

text \<open>What the delivery of ticks leaves alone.\<close>

definition tick_frame :: "session_world \<Rightarrow> session_world \<Rightarrow> bool" where
  "tick_frame w w1 \<longleftrightarrow>
     sw_environment w1 = sw_environment w \<and> sw_polls w1 = sw_polls w \<and> sw_calls w1 = sw_calls w \<and> sw_stats w1 = sw_stats w \<and>
     rg_entries (sw_registry w1) = rg_entries (sw_registry w) \<and> rg_poisoned (sw_registry w1) = rg_poisoned (sw_registry w) \<and>
     (\<exists>es. sw_events w1 = sw_events w @ es)"

lemma deliver_tick_frame:
  assumes "deliver_tick L report phase bound h tick w = (st, w1)"
  shows "tick_frame w w1"
proof -
  obtain st1 rg where t: "progress_trampoline (bridge_closure L report phase bound w) (ch_id h) PAYLOAD_PROGRESS_TICK (fst tick)
      (snd tick) (sw_registry w) = (st1, rg)" by fastforce
  show ?thesis using assms trampoline_frame [OF t] by (auto simp: deliver_tick_def t tick_frame_def)
qed

lemma deliver_ticks_frame: "tick_frame w (snd (deliver_ticks L report phase bound h ticks w))"
proof (induction ticks arbitrary: w)
  case Nil
  then show ?case by (simp add: tick_frame_def)
next
  case (Cons tick ticks)
  obtain st w1 where d: "deliver_tick L report phase bound h tick w = (st, w1)" by fastforce
  obtain sts w2 where r: "deliver_ticks L report phase bound h ticks w1 = (sts, w2)" by fastforce
  have "tick_frame w w1" by (rule deliver_tick_frame [OF d])
  moreover have "tick_frame w1 w2" using Cons.IH [of w1] r by simp
  ultimately show ?case using d r by (auto simp: tick_frame_def)
qed

lemma tallied_progress [tallied_rules]: "tallied (progress_shim L dec report phase bound batch name args)"
  unfolding tallied_def
proof (intro allI impI)
  fix w :: session_world
  assume "ss_ffi_calls (sw_stats w) \<le> u64_max"
  let ?m = "progress_shim L dec report phase bound batch name args"
  obtain r rg where reg: "register_entry KindProgress (sw_registry w) = (r, rg)" by fastforce
  show "session_frame w (snd (?m w)) \<and>
    ss_ffi_calls (sw_stats (snd (?m w))) = sat_add (ss_ffi_calls (sw_stats w)) (new_calls w (snd (?m w)))"
  proof (cases r)
    case (Inl e)
    then show ?thesis
      using reg register_entry_entries [OF reg] \<open>ss_ffi_calls (sw_stats w) \<le> u64_max\<close>
      by (simp add: progress_shim_def session_frame_def new_calls_def)
  next
    case (Inr h)
    define c where "c = \<lparr>sc_symbol = name,
      sc_args = ArgOwned (sw_environment w) # args @ [ArgScalar (ch_id h), ArgScalar (sh_trampoline L)]\<rparr>"
    define w0 where "w0 = issue c (w\<lparr>sw_registry := rg\<rparr>)"
    obtain sts w1 where d: "deliver_ticks L report phase bound h (sr_ticks (sh_reply L (length (sw_calls w)) c)) w0 = (sts, w1)"
      by fastforce
    have f: "tick_frame w0 w1" using deliver_ticks_frame [of w0] d by (metis snd_conv)
    have "rg_entries (drop_handle h (sw_registry w1)) = rg_entries (sw_registry w)"
      using f by (intro drop_registered [OF reg [unfolded Inr]]) (simp_all add: tick_frame_def w0_def issue_def)
    moreover have "snd (?m w) = (count_call L (length (sw_calls w)) batch w1)\<lparr>sw_registry := drop_handle h (sw_registry w1)\<rparr>"
      using d by (simp add: progress_shim_def reg Inr Let_def c_def w0_def)
    ultimately show ?thesis
      using f by (auto simp: tick_frame_def session_frame_def new_calls_def count_call_def w0_def issue_def record_stats_def)
  qed
qed

lemma tallied_if [tallied_rules]: "tallied a \<Longrightarrow> tallied b \<Longrightarrow> tallied (if P then a else b)"
  by simp

lemma tallied_option [tallied_rules]: "tallied a \<Longrightarrow> (\<And>x. tallied (b x)) \<Longrightarrow> tallied (case v of None \<Rightarrow> a | Some x \<Rightarrow> b x)"
  by (cases v) simp_all

lemma tallied_per_item [tallied_rules]: "(\<And>x. tallied (one x)) \<Longrightarrow> tallied (per_item L tok sink phase one bound idx xs)"
  by (induction xs arbitrary: idx) (simp_all, (intro tallied_rules; assumption?)+)

definition uncounted_failure :: "session_world \<Rightarrow> (lean_rs_error + 'a) \<times> session_world \<Rightarrow> bool" where
  "uncounted_failure w r \<longleftrightarrow>
     (\<exists>e. fst r = Inl e) \<and> session_frame w (snd r) \<and> new_calls w (snd r) = 1 \<and> sw_stats (snd r) = sw_stats w"

lemma name_bulk_tallied:
  assumes "\<not> same_name_batch tok sink names" "\<And>x. tallied (one x)"
  shows "tallied (name_bulk L tok sink phase one dec default1 bulk bulk_progress names)"
  unfolding tallied_def
proof (intro allI impI)
  fix w :: session_world
  assume le: "ss_ffi_calls (sw_stats w) \<le> u64_max"
  let ?n = "length (sw_calls w)"
  let ?k = "if tok \<noteq> None then each_item L tok sink phase one names
        else case sink of
          None \<Rightarrow> env_shim L (dec ?n) (clamp_u64 (length names)) bulk [arg_strings names]
        | Some report \<Rightarrow>
            progress_shim L (dec ?n) report phase (Some (clamp_u64 (length names)))
              (clamp_u64 (length names)) bulk_progress [arg_strings names]"
  let ?m = "if names = [] then session_return [] else session_bind (poll_token tok) (\<lambda>_. ?k)"
  have "tallied ?m"
    unfolding each_item_def by (intro tallied_rules assms)
  moreover have "name_bulk L tok sink phase one dec default1 bulk bulk_progress names w = ?m w"
    using assms(1)
    by (auto simp: name_bulk_def same_name_batch_def session_bind_def session_return_def poll_token_def split: option.splits)
  ultimately show "session_frame w (snd (name_bulk L tok sink phase one dec default1 bulk bulk_progress names w)) \<and>
    ss_ffi_calls (sw_stats (snd (name_bulk L tok sink phase one dec default1 bulk bulk_progress names w))) =
      sat_add (ss_ffi_calls (sw_stats w)) (new_calls w (snd (name_bulk L tok sink phase one dec default1 bulk bulk_progress names w)))"
    using le by (simp add: tallied_def)
qed

text \<open>A success counted every call; a failure made one call and did not count it.\<close>

definition accounted :: "session_world \<Rightarrow> (lean_rs_error + 'a) \<times> session_world \<Rightarrow> bool" where
  "accounted w r \<longleftrightarrow>
     (if \<exists>e. fst r = Inl e then uncounted_failure w r
      else session_frame w (snd r) \<and>
        ss_ffi_calls (sw_stats (snd r)) = sat_add (ss_ffi_calls (sw_stats w)) (new_calls w (snd r)))"

lemma name_bulk_late:
  assumes "same_name_batch tok sink names"
  shows "accounted w (name_bulk L tok sink phase one dec default1 bulk bulk_progress names w)"
proof -
  obtain name where eq: "tok = None" "sink = None" "all_equal_name names = Some name"
    using assms by (auto simp: same_name_batch_def)
  then have "names \<noteq> []" by auto
  with eq have run: "name_bulk L tok sink phase one dec default1 bulk bulk_progress names w =
      session_bind (env_shim_early L (dec (length (sw_calls w))) (clamp_u64 (length names)) bulk [arg_strings [name]])
        (\<lambda>r. session_return (replicate (length names) (last_or default1 r))) w"
    by (simp add: name_bulk_def session_bind_def poll_token_def)
  show ?thesis
    unfolding run accounted_def
    by (auto simp: session_bind_def env_shim_early_def Let_def uncounted_failure_def session_frame_def new_calls_def issue_def
      count_call_def record_stats_def session_return_def split: sum.splits)
qed

lemma session_calls_tallied [tallied_rules]:
  "tallied (make_name L tok name)"
  "(\<And>x. tallied (k x)) \<Longrightarrow> tallied (with_name L tok name k)"
  "tallied (query_declaration L tok name)"
  "tallied (declaration_source_range L tok name)"
  "tallied (session_declaration_type L tok name)"
  "tallied (declaration_kind_of L tok name)"
  "tallied (declaration_name_of L tok name)"
  "tallied (list_declarations L tok)"
  "tallied (list_declarations_filtered L tok sink f)"
  "tallied (name_to_string L tok v)"
  "tallied (name_to_string_bulk L tok sink vs)"
  "tallied (session_list_strings L tok sink f)"
  "tallied (search_declarations L tok sr)"
  "tallied (inspect_declaration L tok ir)"
  "tallied (expr_to_string_raw L tok v)"
  "tallied (elaborate_term L tok o1 ex source)"
  "tallied (elaborate_bulk L tok sink o1 names)"
  "tallied (session_kernel_check L tok sink o1 source)"
  "tallied (check_evidence L tok v)"
  "tallied (summarize_evidence L tok v)"
  "tallied (optional_shim L tok dec absent batch name args)"
  "tallied (dispatch_meta L dec2 known name v m1)"
  unfolding make_name_def with_name_def query_declaration_def declaration_source_range_def session_declaration_type_def
    declaration_kind_of_def declaration_name_of_def list_declarations_def list_declarations_filtered_def name_to_string_def
    name_to_string_bulk_def session_list_strings_def search_declarations_def inspect_declaration_def
    expr_to_string_raw_def elaborate_term_def elaborate_bulk_def session_kernel_check_def check_evidence_def
    summarize_evidence_def optional_shim_def dispatch_meta_def each_item_def
  by (intro tallied_rules; assumption?)+

lemma prepare_names_tallied [tallied_rules]: "tallied (prepare_names L tok sink bound idx names)"
  by (induction names arbitrary: idx) (simp_all, (intro tallied_rules; assumption?)+)

lemma session_queries_tallied [tallied_rules]:
  "tallied (query_declarations_bulk L tok sink names)"
  "tallied (process_module_query L tok source q o1)"
  "tallied (session_query_batch L tok source qs bs o1)"
  "tallied (process_module_query_batch_cached L tok source qs bs o1 policy)"
  "tallied (session_attempt_proof L tok ar o1)"
  "tallied (session_verify L tok vr o1)"
  "tallied (session_verify_batch L tok vb o1)"
  "tallied (clear_snapshot_cache L)"
  "tallied (run_meta_expr L tok name v m1)"
  "tallied (run_meta_is_def_eq L tok t3 m1)"
  "tallied (run_meta_pp_expr L tok v m1)"
  unfolding query_declarations_bulk_def process_module_query_def session_query_batch_def
    process_module_query_batch_cached_def session_attempt_proof_def session_verify_def session_verify_batch_def
    clear_snapshot_cache_def run_meta_expr_def run_meta_is_def_eq_def run_meta_pp_expr_def each_item_def
  by (intro tallied_rules; assumption?)+

lemma tallied_discard [tallied_rules]: "tallied m \<Longrightarrow> tallied (discard m)"
  unfolding discard_def by (intro tallied_rules)

lemma session_op_tallied:
  assumes "\<not> counts_late op"
  shows "tallied (session_op_call L op)"
  using assms
  by (cases op) (simp_all add: tallied_rules name_bulk_tallied declaration_type_bulk_def declaration_kind_bulk_def
    declaration_name_bulk_def)

lemma discard_result: "snd (discard m w) = snd (m w)" "(\<exists>e. fst (discard m w) = Inl e) \<longleftrightarrow> (\<exists>e. fst (m w) = Inl e)"
  by (cases "m w"; cases "fst (m w)"; simp add: discard_def session_bind_def session_return_def)+

lemma accounted_discard: "accounted w (m w) \<Longrightarrow> accounted w (discard m w)"
  by (auto simp: accounted_def uncounted_failure_def discard_result)

lemma session_op_late: "counts_late op \<Longrightarrow> accounted w (session_op_call L op w)"
  by (cases op) (simp_all add: declaration_type_bulk_def declaration_kind_bulk_def declaration_name_bulk_def
    accounted_discard name_bulk_late)

section \<open>Polls pay for calls\<close>

definition spends :: "nat \<Rightarrow> 'a session_call \<Rightarrow> bool" where
  "spends n m \<longleftrightarrow>
     (\<forall>w. length (sw_calls (snd (m w))) + min n (sw_polls w) \<le> length (sw_calls w) + min n (sw_polls (snd (m w))))"

text \<open>One call in advance.\<close>

definition on_credit :: "nat \<Rightarrow> 'a session_call \<Rightarrow> bool" where
  "on_credit n m \<longleftrightarrow>
     (\<forall>w. length (sw_calls (snd (m w))) + min n (sw_polls w) \<le> Suc (length (sw_calls w)) + min n (sw_polls (snd (m w))))"

lemma spends_bind:
  assumes "spends n m" "\<And>x. spends n (f x)"
  shows "spends n (session_bind m f)"
  unfolding spends_def
proof
  fix w :: session_world
  show "length (sw_calls (snd (session_bind m f w))) + min n (sw_polls w)
      \<le> length (sw_calls w) + min n (sw_polls (snd (session_bind m f w)))"
  proof (cases rule: session_bind_cases [of m w f])
    case (1 e w1)
    then show ?thesis using spec [OF assms(1) [unfolded spends_def], of w] by simp
  next
    case (2 x w1)
    then show ?thesis
      using spec [OF assms(1) [unfolded spends_def], of w] assms(2) [of x, unfolded spends_def, THEN spec, of w1] by simp
  qed
qed

lemma credit_bind:
  assumes "on_credit n m" "\<And>x. spends n (f x)"
  shows "on_credit n (session_bind m f)"
  unfolding on_credit_def
proof
  fix w :: session_world
  show "length (sw_calls (snd (session_bind m f w))) + min n (sw_polls w)
      \<le> Suc (length (sw_calls w)) + min n (sw_polls (snd (session_bind m f w)))"
  proof (cases rule: session_bind_cases [of m w f])
    case (1 e w1)
    then show ?thesis using spec [OF assms(1) [unfolded on_credit_def], of w] by simp
  next
    case (2 x w1)
    then show ?thesis
      using spec [OF assms(1) [unfolded on_credit_def], of w] assms(2) [of x, unfolded spends_def, THEN spec, of w1] by simp
  qed
qed

lemma credit_spends: "spends n m \<Longrightarrow> on_credit n m"
  unfolding spends_def on_credit_def using le_SucI by fastforce

lemma spends_after_poll:
  assumes "on_credit n (f ())"
  shows "spends n (session_bind (poll_token (Some n)) f)"
  unfolding spends_def
proof
  fix w :: session_world
  let ?w = "w\<lparr>sw_polls := Suc (sw_polls w)\<rparr>"
  show "length (sw_calls (snd (session_bind (poll_token (Some n)) f w))) + min n (sw_polls w)
      \<le> length (sw_calls w) + min n (sw_polls (snd (session_bind (poll_token (Some n)) f w)))"
  proof (cases "n \<le> sw_polls w")
    case True
    then show ?thesis by (simp add: session_bind_def poll_token_def)
  next
    case False
    then show ?thesis
      using spec [OF assms [unfolded on_credit_def], of ?w] by (simp add: session_bind_def poll_token_def)
  qed
qed

lemma spends_quiet:
  assumes "\<And>w. sw_calls (snd (m w)) = sw_calls w \<and> sw_polls w \<le> sw_polls (snd (m w))"
  shows "spends n m"
  unfolding spends_def
proof
  fix w :: session_world
  have "min n (sw_polls w) \<le> min n (sw_polls (snd (m w)))" using assms [of w] by (intro min.mono) simp_all
  then show "length (sw_calls (snd (m w))) + min n (sw_polls w) \<le> length (sw_calls w) + min n (sw_polls (snd (m w)))"
    using assms [of w] by simp
qed

lemma spends_nothing:
  "spends n (session_return x)" "spends n (session_fail e)" "spends n (\<lambda>w. (r, w))" "spends n (poll_token tok)"
  "spends n (report_progress L sink phase current bound)"
  by (rule spends_quiet; simp add: session_return_def session_fail_def poll_token_def report_progress_def Let_def
    split: option.splits)+

lemma credit_calls:
  "on_credit n (io_shim L dec batch name args)" "on_credit n (pure_shim L dec name args)" "on_credit n (env_shim L dec batch name args)"
  by (simp_all add: on_credit_def io_shim_def env_shim_def pure_shim_def Let_def count_call_def issue_def)

lemma credit_progress: "on_credit n (progress_shim L dec report phase bound batch name args)"
  unfolding on_credit_def
proof
  fix w :: session_world
  let ?m = "progress_shim L dec report phase bound batch name args"
  obtain r rg where reg: "register_entry KindProgress (sw_registry w) = (r, rg)" by fastforce
  show "length (sw_calls (snd (?m w))) + min n (sw_polls w) \<le> Suc (length (sw_calls w)) + min n (sw_polls (snd (?m w)))"
  proof (cases r)
    case (Inr h)
    define c where "c = \<lparr>sc_symbol = name,
      sc_args = ArgOwned (sw_environment w) # args @ [ArgScalar (ch_id h), ArgScalar (sh_trampoline L)]\<rparr>"
    let ?w = "issue c (w\<lparr>sw_registry := rg\<rparr>)"
    obtain sts w1 where d: "deliver_ticks L report phase bound h (sr_ticks (sh_reply L (length (sw_calls w)) c)) ?w = (sts, w1)"
      by fastforce
    have "tick_frame ?w w1" using deliver_ticks_frame [of ?w] d by (metis snd_conv)
    then show ?thesis
      using d by (simp add: progress_shim_def reg Inr Let_def c_def [symmetric] tick_frame_def issue_def count_call_def)
  qed (simp add: progress_shim_def reg)
qed

lemma spends_option: "spends n a \<Longrightarrow> (\<And>x. spends n (b x)) \<Longrightarrow> spends n (case v of None \<Rightarrow> a | Some x \<Rightarrow> b x)"
  by (cases v) simp_all

lemma credit_option: "on_credit n a \<Longrightarrow> (\<And>x. on_credit n (b x)) \<Longrightarrow> on_credit n (case v of None \<Rightarrow> a | Some x \<Rightarrow> b x)"
  by (cases v) simp_all

lemma credit_if: "on_credit n a \<Longrightarrow> on_credit n b \<Longrightarrow> on_credit n (if P then a else b)"
  by simp

lemma spends_if: "spends n a \<Longrightarrow> spends n b \<Longrightarrow> spends n (if P then a else b)"
  by simp

lemma spends_per_item: "(\<And>x. spends n (one x)) \<Longrightarrow> spends n (per_item L tok sink phase one bound idx xs)"
  by (induction xs arbitrary: idx) (simp_all add: spends_bind spends_nothing)

lemma spends_each_item: "(\<And>x. spends n (one x)) \<Longrightarrow> spends n (each_item L tok sink phase one xs)"
  unfolding each_item_def by (rule spends_per_item)

lemmas credit_rules = credit_bind credit_calls credit_progress credit_option credit_if

lemma make_name_spends: "spends n (make_name L (Some n) name)"
  unfolding make_name_def by (intro spends_after_poll credit_rules)

lemma with_name_spends: "(\<And>x. on_credit n (k x)) \<Longrightarrow> spends n (with_name L (Some n) name k)"
  unfolding with_name_def
  by (intro spends_bind [OF spends_nothing(4)] spends_bind [OF make_name_spends] spends_after_poll)

lemma lookups_spend:
  "spends n (query_declaration L (Some n) name)" "spends n (declaration_source_range L (Some n) name)"
  "spends n (session_declaration_type L (Some n) name)" "spends n (declaration_kind_of L (Some n) name)"
  "spends n (declaration_name_of L (Some n) name)" "spends n (name_to_string L (Some n) v)"
  "spends n (list_declarations L (Some n))" "spends n (list_declarations_filtered L (Some n) sink f)"
  "spends n (elaborate_term L (Some n) o1 ex source)"
  unfolding query_declaration_def declaration_source_range_def session_declaration_type_def declaration_kind_of_def
    declaration_name_of_def name_to_string_def list_declarations_def list_declarations_filtered_def elaborate_term_def
  by (intro with_name_spends credit_spends [OF spends_after_poll] spends_after_poll credit_rules spends_option spends_nothing)+

lemma bulks_spend:
  "spends n (name_bulk L (Some n) sink phase (one :: string \<Rightarrow> 'a session_call) dec default1 bulk bulk_progress names)"
  if "\<And>x. spends n (one x)"
proof -
  let ?m = "if names = [] then session_return [] else session_bind (poll_token (Some n)) (\<lambda>_. each_item L (Some n) sink phase one names)"
  have "spends n ?m"
    by (intro spends_if spends_nothing spends_bind [OF spends_nothing(4)] spends_each_item that)
  moreover have "name_bulk L (Some n) sink phase one dec default1 bulk bulk_progress names w = ?m w" for w
    by (simp add: name_bulk_def session_return_def session_bind_def split: prod.splits sum.splits)
  ultimately show ?thesis by (simp add: spends_def)
qed

lemma batches_spend:
  "spends n (query_declarations_bulk L (Some n) sink names)" "spends n (name_to_string_bulk L (Some n) sink vs)"
  "spends n (elaborate_bulk L (Some n) sink o1 names)" "spends n (session_list_strings L (Some n) sink f)"
proof -
  show "spends n (query_declarations_bulk L (Some n) sink names)" "spends n (elaborate_bulk L (Some n) sink o1 names)"
    and a: "spends n (name_to_string_bulk L (Some n) sink vs)" for vs
    by (simp_all add: query_declarations_bulk_def elaborate_bulk_def name_to_string_bulk_def spends_nothing spends_bind
      spends_each_item lookups_spend)
  show "spends n (session_list_strings L (Some n) sink f)"
    unfolding session_list_strings_def by (rule spends_bind [OF lookups_spend(8) a])
qed

lemma polled_calls_spend:
  "spends n (optional_shim L (Some n) dec absent batch name args)"
  "spends n (search_declarations L (Some n) sr)" "spends n (inspect_declaration L (Some n) ir)"
  "spends n (expr_to_string_raw L (Some n) v)" "spends n (session_kernel_check L (Some n) sink o1 source)"
  "spends n (check_evidence L (Some n) v)" "spends n (summarize_evidence L (Some n) v)"
  unfolding optional_shim_def search_declarations_def inspect_declaration_def expr_to_string_raw_def
    session_kernel_check_def check_evidence_def summarize_evidence_def
  by (intro spends_after_poll credit_calls credit_progress credit_option credit_if credit_spends [OF spends_nothing(1)]
    credit_spends [OF spends_after_poll])+

lemma meta_calls_spend:
  "spends n (run_meta_expr L (Some n) name v m1)" "spends n (run_meta_is_def_eq L (Some n) t3 m1)"
  "spends n (run_meta_pp_expr L (Some n) v m1)"
  unfolding run_meta_expr_def run_meta_is_def_eq_def run_meta_pp_expr_def dispatch_meta_def
  by (intro spends_after_poll credit_if credit_spends [OF spends_nothing(1)] credit_calls)+

lemma spends_discard: "spends n m \<Longrightarrow> spends n (discard m)"
  unfolding discard_def by (rule spends_bind) (simp_all add: spends_nothing)

lemmas all_spend = lookups_spend batches_spend polled_calls_spend meta_calls_spend bulks_spend

lemma session_op_spends: "session_op_token op = Some n \<Longrightarrow> spends n (session_op_call L op)"
  by (cases op) (simp_all add: spends_discard all_spend process_module_query_def session_query_batch_def
    process_module_query_batch_cached_def session_attempt_proof_def session_verify_def session_verify_batch_def
    declaration_type_bulk_def declaration_kind_bulk_def declaration_name_bulk_def)

section \<open>A set token stops everything\<close>

definition stops :: "nat \<Rightarrow> 'a session_call \<Rightarrow> bool" where
  "stops n m \<longleftrightarrow> (\<forall>w. n \<le> sw_polls w \<longrightarrow> m w = (Inl host_cancelled, w\<lparr>sw_polls := Suc (sw_polls w)\<rparr>))"

lemma stops_poll: "stops n (poll_token (Some n))"
  by (simp add: stops_def poll_token_def)

lemma stops_bind: "stops n m \<Longrightarrow> stops n (session_bind m f)"
  by (simp add: stops_def session_bind_def)

lemma name_bulk_stops:
  "names \<noteq> [] \<Longrightarrow> stops n (name_bulk L (Some n) sink phase one dec default1 bulk bulk_progress names)"
  by (simp add: stops_def name_bulk_def session_bind_def poll_token_def)

lemma calls_stop:
  "stops n (with_name L (Some n) name k)" "stops n (list_declarations L (Some n))"
  "stops n (list_declarations_filtered L (Some n) sink f)" "stops n (name_to_string L (Some n) v)"
  "stops n (search_declarations L (Some n) sr)" "stops n (inspect_declaration L (Some n) ir)"
  "stops n (expr_to_string_raw L (Some n) v)" "stops n (optional_shim L (Some n) dec absent batch name args)"
  "stops n (elaborate_term L (Some n) o1 ex source)" "stops n (session_kernel_check L (Some n) sink o1 source)"
  "stops n (check_evidence L (Some n) v)" "stops n (summarize_evidence L (Some n) v)"
  "stops n (run_meta_expr L (Some n) name v m1)" "stops n (run_meta_is_def_eq L (Some n) t3 m1)"
  "stops n (run_meta_pp_expr L (Some n) v m1)"
  unfolding with_name_def list_declarations_def list_declarations_filtered_def name_to_string_def search_declarations_def
    inspect_declaration_def expr_to_string_raw_def optional_shim_def elaborate_term_def session_kernel_check_def
    check_evidence_def summarize_evidence_def run_meta_expr_def run_meta_is_def_eq_def run_meta_pp_expr_def
  by (intro stops_bind stops_poll)+

lemma batches_stop:
  "names \<noteq> [] \<Longrightarrow> stops n (query_declarations_bulk L (Some n) sink names)"
  "vs \<noteq> [] \<Longrightarrow> stops n (name_to_string_bulk L (Some n) sink vs)"
  "names \<noteq> [] \<Longrightarrow> stops n (elaborate_bulk L (Some n) sink o1 names)"
  "stops n (session_list_strings L (Some n) sink f)"
  by (simp_all add: query_declarations_bulk_def name_to_string_bulk_def elaborate_bulk_def session_list_strings_def
    stops_bind stops_poll calls_stop)

lemma session_op_stops: "session_op_token op = Some n \<Longrightarrow> \<not> empty_batch op \<Longrightarrow> stops n (session_op_call L op)"
  by (cases op) (simp_all add: discard_def stops_bind calls_stop batches_stop name_bulk_stops query_declaration_def
    declaration_source_range_def session_declaration_type_def declaration_kind_of_def declaration_name_of_def
    process_module_query_def session_query_batch_def process_module_query_batch_cached_def session_attempt_proof_def
    session_verify_def session_verify_batch_def declaration_type_bulk_def declaration_kind_bulk_def
    declaration_name_bulk_def)

lemma empty_batch_runs: "empty_batch op \<Longrightarrow> session_op_call L op w = (Inr (), w)"
  by (cases op) (simp_all add: discard_def session_bind_def session_return_def declaration_type_bulk_def
    declaration_kind_bulk_def declaration_name_bulk_def name_bulk_def query_declarations_bulk_def name_to_string_bulk_def
    elaborate_bulk_def)

section \<open>Histories\<close>

text \<open>The number of failures left uncounted, and the session after the operations.\<close>

fun run_session :: "shims \<Rightarrow> session_op list \<Rightarrow> session_world \<Rightarrow> nat \<times> session_world" where
  "run_session L [] w = (0, w)"
| "run_session L (op # ops) w =
     (case session_op_call L op w of
        (r, w1) \<Rightarrow>
          (case run_session L ops w1 of
             (missed, w2) \<Rightarrow> (if counts_late op \<and> (\<exists>e. r = Inl e) then Suc missed else missed, w2)))"

definition fresh_session_world :: "lobj \<Rightarrow> registry \<Rightarrow> session_world" where
  "fresh_session_world environment rg =
     \<lparr>sw_environment = environment, sw_stats = session_stats_default, sw_polls = 0, sw_calls = [], sw_events = [],
      sw_registry = rg\<rparr>"

lemma session_op_step:
  assumes "ss_ffi_calls (sw_stats w) \<le> u64_max" "session_op_call L op w = (r, w1)"
  shows "session_frame w w1 \<and>
    (if counts_late op \<and> (\<exists>e. r = Inl e)
     then ss_ffi_calls (sw_stats w1) = ss_ffi_calls (sw_stats w) \<and> new_calls w w1 = 1
     else ss_ffi_calls (sw_stats w1) = sat_add (ss_ffi_calls (sw_stats w)) (new_calls w w1))"
proof (cases "counts_late op")
  case True
  then show ?thesis using session_op_late [OF True, of w L] assms(2) by (auto simp: accounted_def uncounted_failure_def)
next
  case False
  then show ?thesis using tallied_step [OF session_op_tallied [OF False] assms(1), of L] assms(2) by simp
qed

lemma run_session_ledger:
  assumes "run_session L ops w = (missed, w1)" "ss_ffi_calls (sw_stats w) \<le> u64_max"
  shows "session_frame w w1 \<and> missed \<le> new_calls w w1 \<and>
    ss_ffi_calls (sw_stats w1) = sat_add (ss_ffi_calls (sw_stats w)) (new_calls w w1 - missed)"
  using assms
proof (induction ops arbitrary: w missed)
  case Nil
  then show ?case by (simp add: new_calls_def)
next
  case (Cons op ops)
  obtain r w0 where op: "session_op_call L op w = (r, w0)" by fastforce
  obtain m0 where rest: "run_session L ops w0 = (m0, w1)" using Cons.prems(1) op by (auto split: prod.splits)
  note step = session_op_step [OF Cons.prems(2) op]
  have le: "ss_ffi_calls (sw_stats w0) \<le> u64_max"
    using step Cons.prems(2) sat_add_le_max by (auto split: if_splits)
  note IH = Cons.IH [OF rest le]
  have out: "missed = (if counts_late op \<and> (\<exists>e. r = Inl e) then Suc m0 else m0)"
    using Cons.prems(1) op rest by auto
  have calls: "new_calls w w1 = new_calls w w0 + new_calls w0 w1" and fr: "session_frame w w1"
    using session_frame_trans step IH by blast+
  show ?case
    using step IH calls fr out by (auto simp: sat_add_assoc split: if_splits)
qed

section \<open>Bulk methods as folds\<close>

text \<open>
  What the shims do for a list of names (\<open>Environment.lean\<close>): the bulk shim answers with the array of the
  answers of the singular one, and the progress shim reports \<open>1, 2, \<dots>\<close> and wraps that array in
  \<open>Except.ok\<close> as long as the statuses are successes.
\<close>

definition folding_lookup :: "shims \<Rightarrow> lobj \<Rightarrow> string \<Rightarrow> string \<Rightarrow> string \<Rightarrow> (string \<Rightarrow> lobj) \<Rightarrow> (string \<Rightarrow> lobj) \<Rightarrow> bool" where
  "folding_lookup L env single bulk bulk_progress nm answer \<longleftrightarrow>
     (\<forall>n s. sh_pure L n \<lparr>sc_symbol = ''lean_rs_host_name_from_string'', sc_args = [arg_string s]\<rparr> = nm s) \<and>
     (\<forall>n s. sr_result (sh_reply L n \<lparr>sc_symbol = single, sc_args = [ArgOwned env, ArgOwned (nm s)]\<rparr>) [] = IoOk (answer s)) \<and>
     (\<forall>n ss. sr_result (sh_reply L n \<lparr>sc_symbol = bulk, sc_args = [ArgOwned env, arg_strings ss]\<rparr>) [] =
        IoOk (LArray (map answer ss))) \<and>
     (\<forall>n ss h t.
        let reply = sh_reply L n \<lparr>sc_symbol = bulk_progress, sc_args = [ArgOwned env, arg_strings ss, ArgScalar h, ArgScalar t]\<rparr>
        in sr_ticks reply = map (\<lambda>i. (i, length ss)) [1..<Suc (length ss)] \<and>
           (\<forall>sts. set sts \<subseteq> {CsOk} \<longrightarrow> sr_result reply sts = IoOk (Ctor 1 [LArray (map answer ss)] [])))"

definition event_facts :: "lean_progress_event \<Rightarrow> string \<times> nat \<times> nat option" where
  "event_facts e = (pe_phase e, pe_current e, pe_total e)"

definition count_to :: "string \<Rightarrow> nat \<Rightarrow> (string \<times> nat \<times> nat option) list" where
  "count_to phase n = map (\<lambda>i. (phase, i, Some n)) [1..<Suc n]"

definition quiet_sink :: "progress_sink \<Rightarrow> bool" where
  "quiet_sink report \<longleftrightarrow> (\<forall>ev. report ev = None)"

definition live_progress :: "callback_handle \<Rightarrow> registry \<Rightarrow> bool" where
  "live_progress h rg \<longleftrightarrow>
     registered_entry (ch_id h) rg = Some (ch_entry h) \<and> kb_kind (rg_heap rg ! ch_entry h) = KindProgress"

lemma registered_live: "register_entry KindProgress rg = (Inr h, rg1) \<Longrightarrow> live_progress h rg1"
  using register_entry_entries [of KindProgress rg "Inr h" rg1] by (simp add: live_progress_def registered_entry_def)

lemma deliver_tick_quiet:
  assumes "live_progress h (sw_registry w)" "quiet_sink report"
  shows "\<exists>w1. deliver_tick L report phase bound h tick w = (CsOk, w1) \<and> live_progress h (sw_registry w1) \<and>
    map event_facts (sw_events w1) = map event_facts (sw_events w) @ [(phase, fst tick, bound)]"
proof -
  let ?ev = "ProgressTick (fst tick) (snd tick)" and ?rg = "sw_registry w"
  have run: "progress_trampoline (bridge_closure L report phase bound w) (ch_id h) PAYLOAD_PROGRESS_TICK (fst tick) (snd tick) ?rg
      = (CsOk, ?rg\<lparr>rg_runs := rg_runs ?rg @ [(ch_entry h, ?ev)]\<rparr>)"
    using assms
    by (simp add: progress_trampoline_def live_progress_def report_event_def flow_or_panic_def bridge_closure_def
      quiet_sink_def closure_result_def event_kind_def)
  show ?thesis
    using assms(1)
    by (auto simp: deliver_tick_def run live_progress_def registered_entry_def event_facts_def progress_event_at_def
      split: if_splits)
qed

lemma deliver_ticks_quiet:
  assumes "live_progress h (sw_registry w)" "quiet_sink report"
  shows "\<exists>w1. deliver_ticks L report phase bound h ticks w = (replicate (length ticks) CsOk, w1) \<and>
    map event_facts (sw_events w1) = map event_facts (sw_events w) @ map (\<lambda>t. (phase, fst t, bound)) ticks"
  using assms(1)
proof (induction ticks arbitrary: w)
  case (Cons tick ticks)
  obtain w1 where one: "deliver_tick L report phase bound h tick w = (CsOk, w1)" "live_progress h (sw_registry w1)"
    "map event_facts (sw_events w1) = map event_facts (sw_events w) @ [(phase, fst tick, bound)]"
    using deliver_tick_quiet [OF Cons.prems assms(2)] by blast
  from Cons.IH [OF one(2)] show ?case using one by auto
qed simp

lemma decode_progress_ok: "decode_result dec h rg (Ctor 1 [v] []) = dec v"
  by (simp add: decode_result_def except_from_lean_def ctor_tag_layout take_one_def take_ctor_objects_def ctor_shape_def
    decode_simps progress_outcome_def split: sum.splits)

lemma counted_events:
  "map event_facts es = pre @ map (\<lambda>t. (phase, fst t, Some n)) (map (\<lambda>i. (i, n)) [1..<Suc n]) \<longleftrightarrow>
     map event_facts es = pre @ count_to phase n"
  by (simp add: count_to_def comp_def del: upt_Suc)

text \<open>One call on all names, with a bridge.\<close>

lemma progress_shim_folds:
  assumes fold: "folding_lookup L (sw_environment w) single bulk bulk_progress nm answer" and quiet: "quiet_sink report"
    and reg: "register_entry KindProgress (sw_registry w) = (Inr h, rg)"
  shows "\<exists>w1. progress_shim L dec report phase (Some (length ss)) batch bulk_progress [arg_strings ss] w
      = (dec (LArray (map answer ss)), w1)
    \<and> map event_facts (sw_events w1) = map event_facts (sw_events w) @ count_to phase (length ss)"
proof -
  define c where "c = \<lparr>sc_symbol = bulk_progress,
    sc_args = [ArgOwned (sw_environment w), arg_strings ss, ArgScalar (ch_id h), ArgScalar (sh_trampoline L)]\<rparr>"
  define w0 where "w0 = issue c (w\<lparr>sw_registry := rg\<rparr>)"
  let ?reply = "sh_reply L (length (sw_calls w)) c"
  have ticks: "sr_ticks ?reply = map (\<lambda>i. (i, length ss)) [1..<Suc (length ss)]"
    and ok: "\<And>sts. set sts \<subseteq> {CsOk} \<Longrightarrow> sr_result ?reply sts = IoOk (Ctor 1 [LArray (map answer ss)] [])"
    using fold by (simp_all add: folding_lookup_def c_def Let_def del: upt_Suc)
  obtain w1 where d: "deliver_ticks L report phase (Some (length ss)) h (sr_ticks ?reply) w0 = (replicate (length ss) CsOk, w1)"
    and ev: "map event_facts (sw_events w1) = map event_facts (sw_events w) @ count_to phase (length ss)"
    using deliver_ticks_quiet [of h w0 report L phase "Some (length ss)" "sr_ticks ?reply"] registered_live [OF reg] quiet
    unfolding ticks counted_events by (auto simp: w0_def issue_def simp del: upt_Suc)
  have "sr_result ?reply (replicate (length ss) CsOk) = IoOk (Ctor 1 [LArray (map answer ss)] [])" by (rule ok) auto
  then have run: "progress_shim L dec report phase (Some (length ss)) batch bulk_progress [arg_strings ss] w
      = (dec (LArray (map answer ss)), (count_call L (length (sw_calls w)) batch w1)\<lparr>sw_registry := drop_handle h (sw_registry w1)\<rparr>)"
    using d by (simp add: progress_shim_def reg Let_def c_def [symmetric] w0_def [symmetric] decode_io_def decode_progress_ok [unfolded One_nat_def])
  show ?thesis unfolding run using ev by (simp add: count_call_def)
qed

text \<open>One lookup under a token that stays unset: four polls at most, the environment kept.\<close>

lemma single_lookup_folds:
  assumes fold: "folding_lookup L (sw_environment w) single bulk bulk_progress nm answer" and val: "dec1 (answer s) = Inr (val s)"
    and unset: "sw_polls w + 3 \<le> n"
  shows "\<exists>w1. with_name L (Some n) s (\<lambda>h. env_shim L dec1 0 single [ArgOwned h]) w = (Inr (val s), w1) \<and>
    sw_environment w1 = sw_environment w \<and> sw_polls w1 = sw_polls w + 3 \<and> sw_events w1 = sw_events w"
proof -
  have name: "\<And>n. sh_pure L n \<lparr>sc_symbol = ''lean_rs_host_name_from_string'', sc_args = [arg_string s]\<rparr> = nm s"
    and reply: "\<And>n. sr_result (sh_reply L n \<lparr>sc_symbol = single, sc_args = [ArgOwned (sw_environment w), ArgOwned (nm s)]\<rparr>) [] =
      IoOk (answer s)"
    using fold by (simp_all add: folding_lookup_def)
  show ?thesis
    using unset
    by (simp add: with_name_def make_name_def session_bind_def poll_token_def pure_shim_def env_shim_def io_shim_def Let_def
      issue_def count_call_def handle_from_lean_def name reply decode_io_as_def decode_io_def val)
qed

lemma per_item_folds:
  assumes fold: "folding_lookup L (sw_environment w) single bulk bulk_progress nm answer"
    and val: "\<forall>s \<in> set ss. dec1 (answer s) = Inr (val s)" and unset: "sw_polls w + 4 * length ss \<le> n"
    and quiet: "quiet_sink report" and small: "idx + length ss \<le> u64_max"
  shows "\<exists>w1. per_item L (Some n) (Some report) phase (\<lambda>s. with_name L (Some n) s (\<lambda>h. env_shim L dec1 0 single [ArgOwned h]))
      bound idx ss w = (Inr (map val ss), w1)
    \<and> map event_facts (sw_events w1) = map event_facts (sw_events w) @ map (\<lambda>i. (phase, i, Some bound)) [Suc idx..<Suc (idx + length ss)]"
  using fold val unset small
proof (induction ss arbitrary: w idx)
  case Nil
  then show ?case by (simp add: session_return_def)
next
  case (Cons s ss)
  let ?w = "w\<lparr>sw_polls := Suc (sw_polls w)\<rparr>"
  obtain w1 where one: "with_name L (Some n) s (\<lambda>h. env_shim L dec1 0 single [ArgOwned h]) ?w = (Inr (val s), w1)"
    "sw_environment w1 = sw_environment w" "sw_polls w1 = sw_polls ?w + 3" "sw_events w1 = sw_events w"
    using single_lookup_folds [of L ?w single bulk bulk_progress nm answer dec1 s val n] Cons.prems by auto
  define w2 where "w2 = w1\<lparr>sw_events := sw_events w1 @ [progress_event_at L phase (Suc idx) (Some bound) w1]\<rparr>"
  have clamp: "clamp_u64 (idx + 1) = Suc idx" using Cons.prems(4) by (simp add: clamp_u64_def)
  have report: "report_progress L (Some report) phase (clamp_u64 (idx + 1)) (Some bound) w1 = (Inr (), w2)"
    using quiet by (simp add: report_progress_def quiet_sink_def Let_def w2_def clamp [simplified])
  have "folding_lookup L (sw_environment w2) single bulk bulk_progress nm answer" "sw_polls w2 + 4 * length ss \<le> n"
    using Cons.prems one by (simp_all add: w2_def)
  with Cons.IH [of w2 "Suc idx"] Cons.prems obtain w3 where
    rest: "per_item L (Some n) (Some report) phase (\<lambda>s. with_name L (Some n) s (\<lambda>h. env_shim L dec1 0 single [ArgOwned h]))
      bound (Suc idx) ss w2 = (Inr (map val ss), w3)"
    and ev: "map event_facts (sw_events w3) = map event_facts (sw_events w2) @
      map (\<lambda>i. (phase, i, Some bound)) [Suc (Suc idx)..<Suc (Suc idx + length ss)]"
    by auto
  have poll: "poll_token (Some n) w = (Inr (), ?w)" using Cons.prems(3) by (simp add: poll_token_def)
  have "per_item L (Some n) (Some report) phase (\<lambda>s. with_name L (Some n) s (\<lambda>h. env_shim L dec1 0 single [ArgOwned h]))
      bound idx (s # ss) w = (Inr (map val (s # ss)), w3)"
    using rest report by (simp add: session_bind_def poll one session_return_def)
  moreover have "map event_facts (sw_events w2) = map event_facts (sw_events w) @ [(phase, Suc idx, Some bound)]"
    using one(4) by (simp add: w2_def event_facts_def progress_event_at_def)
  ultimately show ?case using ev by (auto simp: upt_conv_Cons simp del: upt_Suc)
qed

text \<open>The three paths of a bulk lookup, for decoders that read the arrays of the bulk shims.\<close>

lemma name_bulk_folds:
  fixes phase :: string and d :: 'a and val :: "string \<Rightarrow> 'a"
  assumes fold: "folding_lookup L (sw_environment w) single bulk bulk_progress nm answer"
    and one: "\<forall>s \<in> set names. dec1 (answer s) = Inr (val s)"
    and many: "\<And>n. dec n (LArray (map answer names)) = Inr (map val names)"
    and same: "\<And>n s. s \<in> set names \<Longrightarrow> dec n (LArray [answer s]) = Inr [val s]"
    and quiet: "quiet_sink report" and reg: "register_entry KindProgress (sw_registry w) = (Inr h, rg)"
    and unset: "sw_polls w + 1 + 4 * length names \<le> n" and small: "length names \<le> u64_max"
  defines "run \<equiv> \<lambda>tok sink. name_bulk L tok sink phase
    (\<lambda>s. with_name L tok s (\<lambda>h. env_shim L dec1 0 single [ArgOwned h])) dec d bulk bulk_progress names w"
  shows "fst (run None None) = Inr (map val names)" "fst (run None (Some report)) = Inr (map val names)"
    "fst (run (Some n) (Some report)) = Inr (map val names)"
    "map event_facts (sw_events (snd (run None (Some report)))) =
       map event_facts (sw_events w) @ (if names = [] then [] else count_to phase (length names))"
    "map event_facts (sw_events (snd (run (Some n) (Some report)))) =
       map event_facts (sw_events w) @ (if names = [] then [] else count_to phase (length names))"
proof -
  have clamp: "clamp_u64 (length names) = length names" using small by (simp add: clamp_u64_def)
  have bulk: "\<And>n ss. sr_result (sh_reply L n \<lparr>sc_symbol = bulk, sc_args = [ArgOwned (sw_environment w), arg_strings ss]\<rparr>) [] =
      IoOk (LArray (map answer ss))"
    using fold by (simp add: folding_lookup_def)
  show "fst (run None None) = Inr (map val names)"
  proof (cases "all_equal_name names")
    case None
    then show ?thesis
      by (simp add: run_def name_bulk_def session_bind_def poll_token_def env_shim_def io_shim_def Let_def bulk decode_io_as_def
        decode_io_def many)
  next
    case (Some s)
    then obtain rest where names: "names = s # rest" "\<forall>x \<in> set rest. x = s" by (cases names) (auto split: if_splits)
    then have "map val names = map (\<lambda>_. val s) names" by simp
    then have "map val names = replicate (length names) (val s)" by (simp only: map_replicate_const)
    then show ?thesis
      using Some names(1) same [of s]
      by (simp add: run_def name_bulk_def session_bind_def poll_token_def env_shim_early_def Let_def bulk decode_io_as_def
        decode_io_def session_return_def last_or_def)
  qed
  show "fst (run None (Some report)) = Inr (map val names)"
    "map event_facts (sw_events (snd (run None (Some report)))) =
       map event_facts (sw_events w) @ (if names = [] then [] else count_to phase (length names))"
    using progress_shim_folds [OF fold quiet reg, of "dec (length (sw_calls w))" phase names "length names"] many
    by (auto simp: run_def name_bulk_def session_bind_def poll_token_def clamp)
  let ?w = "w\<lparr>sw_polls := Suc (sw_polls w)\<rparr>"
  have "\<exists>w1. per_item L (Some n) (Some report) phase (\<lambda>s. with_name L (Some n) s (\<lambda>h. env_shim L dec1 0 single [ArgOwned h]))
      (length names) 0 names ?w = (Inr (map val names), w1)
    \<and> map event_facts (sw_events w1) =
      map event_facts (sw_events ?w) @ map (\<lambda>i. (phase, i, Some (length names))) [Suc 0..<Suc (0 + length names)]"
    using fold one unset small quiet
    by (intro per_item_folds [where bulk = bulk and bulk_progress = bulk_progress and nm = nm and answer = answer]) simp_all
  then obtain w1 where item: "per_item L (Some n) (Some report) phase
      (\<lambda>s. with_name L (Some n) s (\<lambda>h. env_shim L dec1 0 single [ArgOwned h])) (length names) 0 names ?w = (Inr (map val names), w1)"
    and ev: "map event_facts (sw_events w1) = map event_facts (sw_events w) @ count_to phase (length names)"
    by (auto simp: count_to_def simp del: upt_Suc)
  show "fst (run (Some n) (Some report)) = Inr (map val names)"
    "map event_facts (sw_events (snd (run (Some n) (Some report)))) =
       map event_facts (sw_events w) @ (if names = [] then [] else count_to phase (length names))"
    using item ev unset by (auto simp: run_def name_bulk_def session_bind_def poll_token_def each_item_def clamp)
qed

text \<open>Elements at one address are one object, and every element is text.\<close>

definition addressed_faithfully :: "shims \<Rightarrow> string list \<Rightarrow> (string \<Rightarrow> string) \<Rightarrow> bool" where
  "addressed_faithfully L names f \<longleftrightarrow>
     (\<forall>s \<in> set names. utf8_valid (f s)) \<and>
     (\<forall>n i j. i < length names \<longrightarrow> j < length names \<longrightarrow> sh_addresses L n i = sh_addresses L n j \<longrightarrow> f (names ! i) = f (names ! j))"

lemma strings_from_bulk:
  assumes "addressed_faithfully L names f"
  shows "strings_from_lean L n (LArray (map (\<lambda>s. LString (f s)) names)) = Inr (map f names)"
proof -
  let ?raw = "addressed L n (map (\<lambda>s. LString (f s)) names)"
  have valid: "\<forall>s \<in> set names. utf8_valid (f s)" using assms by (simp add: addressed_faithfully_def)
  have each: "decode_each handle_from_lean vs = Inr vs" for vs by (induction vs) (simp_all add: handle_from_lean_def)
  have snds: "map snd ?raw = map (\<lambda>s. LString (f s)) names" by (simp add: addressed_def)
  have decoded: "decode_each string_from_lean (map (\<lambda>s. LString (f s)) names) = Inr (map f names)"
    using valid by (induction names) (simp_all add: string_layout)
  have "decode_strings_cached ?raw = Inr (map f names)"
  proof (cases ?raw)
    case Nil
    then show ?thesis using snds by (simp add: decode_strings_cached_def)
  next
    case (Cons r rest)
    then obtain s ss where names: "names = s # ss" and r: "r = (sh_addresses L n 0, LString (f s))"
      by (cases names) (auto simp: addressed_def upt_conv_Cons simp del: upt_Suc)
    have len: "length ?raw = length names" by (simp add: addressed_def)
    show ?thesis
    proof (cases "\<forall>x \<in> set rest. fst x = sh_addresses L n 0")
      case True
      have "f (names ! i) = f s" if "i < length names" for i
      proof -
        have "fst (?raw ! i) = sh_addresses L n i" using that by (simp add: addressed_def)
        moreover have "fst (?raw ! i) = sh_addresses L n 0"
          using True that len unfolding Cons r by (cases i) (auto dest: nth_mem)
        ultimately show ?thesis using assms that names unfolding addressed_faithfully_def by (metis length_pos_if_in_set list.set_intros(1) nth_Cons_0)
      qed
      then have "map f names = replicate (length names) (f s)" by (intro nth_equalityI) simp_all
      moreover have "decode_strings_cached ?raw = Inr (replicate (length names) (f s))"
        using True len valid names unfolding Cons r by (simp add: decode_strings_cached_def string_layout)
      ultimately show ?thesis by simp
    next
      case False
      then show ?thesis using snds decoded unfolding Cons r by (auto simp: decode_strings_cached_def simp del: decode_each.simps)
    qed
  qed
  then show ?thesis by (simp add: strings_from_lean_def array_from_lean_def each)
qed

definition folding_shims ::
  "shims \<Rightarrow> lobj \<Rightarrow> (string \<Rightarrow> lobj) \<Rightarrow> (string \<Rightarrow> lobj option) \<Rightarrow> (string \<Rightarrow> string) \<Rightarrow> (string \<Rightarrow> string) \<Rightarrow> bool" where
  "folding_shims L env nm ty kind text \<longleftrightarrow>
     folding_lookup L env ''lean_rs_host_env_declaration_type'' ''lean_rs_host_env_declaration_type_bulk''
       ''lean_rs_host_env_declaration_type_bulk_progress'' nm (\<lambda>s. option_into_lean id (ty s)) \<and>
     folding_lookup L env ''lean_rs_host_env_declaration_kind'' ''lean_rs_host_env_declaration_kind_bulk''
       ''lean_rs_host_env_declaration_kind_bulk_progress'' nm (\<lambda>s. LString (kind s)) \<and>
     folding_lookup L env ''lean_rs_host_env_declaration_name'' ''lean_rs_host_env_declaration_name_bulk''
       ''lean_rs_host_env_declaration_name_bulk_progress'' nm (\<lambda>s. LString (text s))"

lemma types_from_bulk:
  "array_from_lean (option_from_lean handle_from_lean) (LArray (map (\<lambda>s. option_into_lean id (ty s)) names)) = Inr (map ty names)"
  "option_from_lean handle_from_lean (option_into_lean id o1) = Inr o1"
proof -
  show one: "option_from_lean handle_from_lean (option_into_lean id o1) = Inr o1" for o1
    by (rule option_layout) (simp add: handle_from_lean_def)
  have "decode_each (option_from_lean handle_from_lean) (map (\<lambda>s. option_into_lean id (ty s)) names) = Inr (map ty names)"
    by (induction names) (simp_all add: one [unfolded id_def] id_def)
  then show "array_from_lean (option_from_lean handle_from_lean) (LArray (map (\<lambda>s. option_into_lean id (ty s)) names)) = Inr (map ty names)"
    by (simp add: array_from_lean_def)
qed

section \<open>Properties\<close>

text \<open>C14: A call into Lean is paid for by a poll of the token that found it unset.  Whatever the operation, the calls it
  makes are at most the polls it spends below the moment the token is set; once the token is set no call is made, no
  progress is reported, nothing is counted, and the operation answers with the cancellation (an empty batch answers at
  once, without looking).\<close>

theorem nothing_called_after_cancellation:
  assumes "session_op_token op = Some n" "session_op_call L op w = (r, w1)"
  shows "length (sw_calls w1) - length (sw_calls w) \<le> min n (sw_polls w1) - min n (sw_polls w)
    \<and> (n \<le> sw_polls w \<longrightarrow>
         (if empty_batch op then r = Inr () \<and> w1 = w
          else r = Inl host_cancelled \<and> w1 = w\<lparr>sw_polls := Suc (sw_polls w)\<rparr>))"
proof -
  have "length (sw_calls w1) + min n (sw_polls w) \<le> length (sw_calls w) + min n (sw_polls w1)"
    using session_op_spends [OF assms(1), unfolded spends_def, THEN spec, of L w] assms(2) by simp
  moreover have "r = Inl host_cancelled \<and> w1 = w\<lparr>sw_polls := Suc (sw_polls w)\<rparr>" if "n \<le> sw_polls w" "\<not> empty_batch op"
    using session_op_stops [OF assms(1) that(2), of L] that(1) assms(2) by (simp add: stops_def)
  moreover have "r = Inr () \<and> w1 = w" if "empty_batch op"
    using empty_batch_runs [OF that, of L w] assms(2) by simp
  ultimately show ?thesis by auto
qed

text \<open>C15: The metrics of a session count its calls.  After any sequence of operations on a fresh session, whatever Lean
  answered and wherever tokens or sinks cut an operation short, \<open>ffi_calls\<close> is the number of calls made less the
  failed batches that asked one name for all without a token or a sink, up to saturation; and no operation replaces the
  environment or leaves a callback registered.\<close>

theorem session_counts_its_calls:
  assumes "run_session L ops (fresh_session_world environment rg) = (missed, w)"
  shows "ss_ffi_calls (sw_stats w) = min (length (sw_calls w) - missed) u64_max
    \<and> missed \<le> length (filter counts_late ops)
    \<and> sw_environment w = environment \<and> rg_entries (sw_registry w) = rg_entries rg"
proof -
  have missed: "fst (run_session L os w0) \<le> length (filter counts_late os)" for os w0
  proof (induction os arbitrary: w0)
    case (Cons op os)
    obtain r w1 where "session_op_call L op w0 = (r, w1)" by fastforce
    then show ?case using Cons.IH [of w1] by (auto split: prod.splits)
  qed simp
  show ?thesis
    using run_session_ledger [OF assms] missed [of ops "fresh_session_world environment rg"] assms
    by (simp add: fresh_session_world_def session_stats_default_def session_frame_def new_calls_def sat_add_def)
qed


section \<open>A library of shims\<close>

definition sample_object :: "string \<Rightarrow> lobj \<Rightarrow> lobj" where
  "sample_object name v =
     (if name \<in> {''lean_rs_host_env_declaration_type'', ''lean_rs_host_env_declaration_type_bulk'',
          ''lean_rs_host_env_declaration_type_bulk_progress''}
      then (if v = LString ''Nat'' then Ctor 1 [Boxed 7] [] else Boxed 0)
      else if name \<in> {''lean_rs_host_env_declaration_kind'', ''lean_rs_host_env_declaration_kind_bulk'',
          ''lean_rs_host_env_declaration_kind_bulk_progress''}
      then LString (if v = LString ''Nat'' then ''inductive'' else ''missing'')
      else v)"

definition sample_reply :: "nat \<Rightarrow> shim_call \<Rightarrow> shim_reply" where
  "sample_reply n c =
     (case sc_args c of
        ArgOwned env # ArgOwned v # bridge \<Rightarrow>
          (case v of
             LArray vs \<Rightarrow>
               \<lparr>sr_ticks = map (\<lambda>i. (i, length vs)) [1..<Suc (length vs)],
                sr_result = (\<lambda>sts.
                  if bridge = [] then IoOk (LArray (map (sample_object (sc_symbol c)) vs))
                  else if set sts \<subseteq> {CsOk} then IoOk (Ctor 1 [LArray (map (sample_object (sc_symbol c)) vs)] [])
                  else IoOk (Ctor 0 [Boxed (status_as_abi (last sts))] []))\<rparr>
           | _ \<Rightarrow> \<lparr>sr_ticks = [], sr_result = (\<lambda>_. IoOk (sample_object (sc_symbol c) v))\<rparr>)
      | _ \<Rightarrow> \<lparr>sr_ticks = [], sr_result = (\<lambda>_. IoError (Boxed 0))\<rparr>)"

definition sample_shims :: shims where
  "sample_shims =
     \<lparr>sh_exports = (\<lambda>_. False), sh_reply = sample_reply,
      sh_pure = (\<lambda>n c. case sc_args c of ArgOwned v # _ \<Rightarrow> v | _ \<Rightarrow> Boxed 0),
      sh_took = (\<lambda>n. 1000), sh_addresses = (\<lambda>n i. i), sh_clock = (\<lambda>k. 5 * k), sh_memory = (\<lambda>_ _. 0), sh_trampoline = 64,
      sh_source_roots = [''/project'']\<rparr>"

definition sample_session :: session_world where
  "sample_session = fresh_session_world (Ctor 0 [] []) registry_new"

lemma sample_shims_fold:
  "folding_shims sample_shims env LString (\<lambda>s. if s = ''Nat'' then Some (Boxed 7) else None)
     (\<lambda>s. if s = ''Nat'' then ''inductive'' else ''missing'') (\<lambda>s. s)"
  by (simp add: folding_shims_def folding_lookup_def sample_shims_def sample_reply_def sample_object_def arg_string_def
    arg_strings_def string_into_lean_def array_into_lean_def option_into_lean_def lean_box_def alloc_ctor_with_objects_def
    del: upt_Suc cong: map_cong)


lemma nothing_called_after_cancellation_witness:
  "fst (session_op_call sample_shims (SoTypeBulk (Some 0) None [''Nat'']) sample_session) = Inl host_cancelled
    \<and> sw_calls (snd (session_op_call sample_shims (SoTypeBulk (Some 0) None [''Nat'']) sample_session)) = []"
proof -
  obtain r w1 where run: "session_op_call sample_shims (SoTypeBulk (Some 0) None [''Nat'']) sample_session = (r, w1)" by fastforce
  have "session_op_token (SoTypeBulk (Some 0) None [''Nat'']) = Some 0" by simp
  from nothing_called_after_cancellation [OF this run] have "r = Inl host_cancelled" "sw_calls w1 = []"
    by (simp_all add: sample_session_def fresh_session_world_def)
  then show ?thesis unfolding run by simp
qed

lemma session_counts_its_calls_witness:
  "\<exists>w. run_session sample_shims [SoKind None ''Nat'', SoTypeBulk (Some 2) None [''Nat'']]
       (fresh_session_world (Ctor 0 [] []) registry_new) = (0, w)
    \<and> ss_ffi_calls (sw_stats w) = min (length (sw_calls w)) u64_max"
proof -
  let ?ops = "[SoKind None ''Nat'', SoTypeBulk (Some 2) None [''Nat'']]"
  obtain missed w where run: "run_session sample_shims ?ops (fresh_session_world (Ctor 0 [] []) registry_new) = (missed, w)"
    by fastforce
  have "missed = 0" using session_counts_its_calls [OF run] by (simp add: same_name_batch_def)
  then show ?thesis using session_counts_its_calls [OF run] run by simp
qed

end
