(* ===== verification/Capability_Manifest.thy ===== *)
theory Capability_Manifest
  imports Lake_Modules
begin

text \<open>
  The manifest of a built capability (\<open>loader.rs\<close>, \<open>manifest_validation.rs\<close> and \<open>built_capability.rs\<close> of
  \<open>lean-toolchain\<close>): the signatures of its exports, the parser of the JSON document the build writes, the static
  checks made before anything is loaded, and the descriptor a program opens a capability by.  Text is bytes, a path
  the text it is displayed as.
\<close>

section \<open>JSON values\<close>

text \<open>
  A \<open>serde_json::Value\<close>.  Of the numbers only those \<open>as_u64\<close> accepts matter; the others are kept as text.  An object
  holds its entries in key order, as the \<open>BTreeMap\<close> behind \<open>serde_json::Map\<close> does; \<open>json_object\<close> is the \<open>json!\<close>
  literal.  Parsing text into a value is \<open>serde_json::from_slice\<close>, a parameter of what follows.
\<close>

datatype jvalue =
    JNull
  | JBool bool
  | JNat nat
  | JOtherNumber string
  | JString string
  | JArray "jvalue list"
  | JObject "(string \<times> jvalue) list"

definition json_object :: "(string \<times> jvalue) list \<Rightarrow> jvalue" where
  "json_object kvs = JObject (fold (\<lambda>(k, v). btree_insert k v) kvs [])"

fun jget :: "string \<Rightarrow> jvalue \<Rightarrow> jvalue option" where
  "jget name (JObject entries) = map_of entries name"
| "jget name v = None"

fun jas_str :: "jvalue \<Rightarrow> string option" where
  "jas_str (JString s) = Some s"
| "jas_str v = None"

fun jas_bool :: "jvalue \<Rightarrow> bool option" where
  "jas_bool (JBool b) = Some b"
| "jas_bool v = None"

fun jas_u64 :: "jvalue \<Rightarrow> nat option" where
  "jas_u64 (JNat n) = Some n"
| "jas_u64 v = None"

fun jas_array :: "jvalue \<Rightarrow> jvalue list option" where
  "jas_array (JArray vs) = Some vs"
| "jas_array v = None"

lemma fold_btree_insert_lookup:
  "strictly_sorted m \<Longrightarrow>
     map_of (fold (\<lambda>(k, v). btree_insert k v) kvs m) = map_of m ++ map_of (rev kvs)"
proof (induction kvs arbitrary: m)
  case (Cons e kvs)
  obtain k v where e: "e = (k, v)" by fastforce
  have "map_of (fold (\<lambda>(k, v). btree_insert k v) kvs (btree_insert k v m)) =
      map_of (btree_insert k v m) ++ map_of (rev kvs)"
    by (rule Cons.IH [OF btree_insert_sorted [OF Cons.prems]])
  then show ?case
    by (simp add: e btree_insert_lookup [OF Cons.prems] fun_eq_iff map_add_def split: option.split)
qed simp

lemma jget_json_object [simp]: "jget k (json_object kvs) = map_of (rev kvs) k"
  by (simp add: json_object_def fold_btree_insert_lookup strictly_sorted_def)

section \<open>Loader data\<close>

datatype loader_code =
    LcMissingManifest
  | LcMalformedManifest
  | LcUnsupportedManifestSchema
  | LcMissingPrimaryDylib
  | LcMissingTransitiveDependency
  | LcUnsupportedArchitecture
  | LcUnsupportedToolchainFingerprint
  | LcStaleManifest
  | LcMissingInitializer
  | LcMissingImportedSymbol

fun loader_code_str :: "loader_code \<Rightarrow> string" where
  "loader_code_str LcMissingManifest = ''lean_rs.loader.missing_manifest''"
| "loader_code_str LcMalformedManifest = ''lean_rs.loader.malformed_manifest''"
| "loader_code_str LcUnsupportedManifestSchema = ''lean_rs.loader.unsupported_manifest_schema''"
| "loader_code_str LcMissingPrimaryDylib = ''lean_rs.loader.missing_primary_dylib''"
| "loader_code_str LcMissingTransitiveDependency = ''lean_rs.loader.missing_transitive_dependency''"
| "loader_code_str LcUnsupportedArchitecture = ''lean_rs.loader.unsupported_architecture''"
| "loader_code_str LcUnsupportedToolchainFingerprint = ''lean_rs.loader.unsupported_toolchain_fingerprint''"
| "loader_code_str LcStaleManifest = ''lean_rs.loader.stale_manifest''"
| "loader_code_str LcMissingInitializer = ''lean_rs.loader.missing_initializer''"
| "loader_code_str LcMissingImportedSymbol = ''lean_rs.loader.missing_imported_symbol''"

datatype export_kind = ExportFunction | ExportGlobal

fun export_kind_str :: "export_kind \<Rightarrow> string" where
  "export_kind_str ExportFunction = ''function''"
| "export_kind_str ExportGlobal = ''global''"

definition export_kind_from :: "string \<Rightarrow> export_kind option" where
  "export_kind_from v =
     (if v = ''function'' then Some ExportFunction else if v = ''global'' then Some ExportGlobal else None)"

datatype abi_repr =
    ReprObject | ReprU8 | ReprU16 | ReprU32 | ReprU64 | ReprUSize
  | ReprI8 | ReprI16 | ReprI32 | ReprI64 | ReprISize | ReprF64

fun abi_repr_str :: "abi_repr \<Rightarrow> string" where
  "abi_repr_str ReprObject = ''lean_object''"
| "abi_repr_str ReprU8 = ''u8''"
| "abi_repr_str ReprU16 = ''u16''"
| "abi_repr_str ReprU32 = ''u32''"
| "abi_repr_str ReprU64 = ''u64''"
| "abi_repr_str ReprUSize = ''usize''"
| "abi_repr_str ReprI8 = ''i8''"
| "abi_repr_str ReprI16 = ''i16''"
| "abi_repr_str ReprI32 = ''i32''"
| "abi_repr_str ReprI64 = ''i64''"
| "abi_repr_str ReprISize = ''isize''"
| "abi_repr_str ReprF64 = ''f64''"

definition abi_repr_from :: "string \<Rightarrow> abi_repr option" where
  "abi_repr_from v =
     map_of [(''lean_object'', ReprObject), (''u8'', ReprU8), (''u16'', ReprU16), (''u32'', ReprU32),
       (''u64'', ReprU64), (''usize'', ReprUSize), (''i8'', ReprI8), (''i16'', ReprI16), (''i32'', ReprI32),
       (''i64'', ReprI64), (''isize'', ReprISize), (''f64'', ReprF64)] v"

datatype export_ownership = OwnershipNone | OwnershipOwned

fun ownership_str :: "export_ownership \<Rightarrow> string" where
  "ownership_str OwnershipNone = ''none''"
| "ownership_str OwnershipOwned = ''owned''"

definition ownership_from :: "string \<Rightarrow> export_ownership option" where
  "ownership_from v =
     (if v = ''none'' then Some OwnershipNone else if v = ''owned'' then Some OwnershipOwned else None)"

record arg_abi =
  aa_repr :: abi_repr
  aa_ownership :: export_ownership

definition arg_abi_to_json :: "arg_abi \<Rightarrow> jvalue" where
  "arg_abi_to_json a =
     json_object [(''repr'', JString (abi_repr_str (aa_repr a))),
       (''ownership'', JString (ownership_str (aa_ownership a)))]"

datatype result_convention = ConventionPure | ConventionIo

fun convention_str :: "result_convention \<Rightarrow> string" where
  "convention_str ConventionPure = ''pure''"
| "convention_str ConventionIo = ''io_result''"

definition convention_from :: "string \<Rightarrow> result_convention option" where
  "convention_from v =
     (if v = ''pure'' then Some ConventionPure else if v = ''io_result'' then Some ConventionIo else None)"

record return_abi =
  ra_repr :: abi_repr
  ra_ownership :: export_ownership
  ra_convention :: result_convention

definition return_abi_to_json :: "return_abi \<Rightarrow> jvalue" where
  "return_abi_to_json r =
     json_object [(''repr'', JString (abi_repr_str (ra_repr r))),
       (''ownership'', JString (ownership_str (ra_ownership r))),
       (''convention'', JString (convention_str (ra_convention r)))]"

record export_signature =
  es_symbol :: string
  es_kind :: export_kind
  es_args :: "arg_abi list"
  es_result :: return_abi

definition signature_function :: "string \<Rightarrow> arg_abi list \<Rightarrow> return_abi \<Rightarrow> export_signature" where
  "signature_function symbol args result =
     \<lparr>es_symbol = symbol, es_kind = ExportFunction, es_args = args, es_result = result\<rparr>"

definition signature_global :: "string \<Rightarrow> return_abi \<Rightarrow> export_signature" where
  "signature_global symbol result =
     \<lparr>es_symbol = symbol, es_kind = ExportGlobal, es_args = [], es_result = result\<rparr>"

definition signature_to_json :: "export_signature \<Rightarrow> jvalue" where
  "signature_to_json s =
     json_object [(''symbol'', JString (es_symbol s)), (''kind'', JString (export_kind_str (es_kind s))),
       (''args'', JArray (map arg_abi_to_json (es_args s))), (''return'', return_abi_to_json (es_result s))]"

datatype loader_severity = SeverityInfo | SeverityWarning | SeverityError

fun severity_debug :: "loader_severity \<Rightarrow> string" where
  "severity_debug SeverityInfo = ''Info''"
| "severity_debug SeverityWarning = ''Warning''"
| "severity_debug SeverityError = ''Error''"

definition LOADER_DIAGNOSTIC_TEXT_LIMIT :: nat where "LOADER_DIAGNOSTIC_TEXT_LIMIT = 4 * 1024"

definition bound_loader_text :: "string \<Rightarrow> string" where
  "bound_loader_text s =
     (if length s \<le> LOADER_DIAGNOSTIC_TEXT_LIMIT then s
      else take (floor_boundary s LOADER_DIAGNOSTIC_TEXT_LIMIT) s)"

record loader_check =
  lc_code :: loader_code
  lc_severity :: loader_severity
  lc_subject :: string
  lc_message :: string
  lc_repair_hint :: string

definition loader_error :: "loader_code \<Rightarrow> string \<Rightarrow> string \<Rightarrow> string \<Rightarrow> loader_check" where
  "loader_error code subject msg repair =
     \<lparr>lc_code = code, lc_severity = SeverityError, lc_subject = bound_loader_text subject,
      lc_message = bound_loader_text msg, lc_repair_hint = bound_loader_text repair\<rparr>"

definition loader_check_text :: "loader_check \<Rightarrow> string" where
  "loader_check_text c =
     loader_code_str (lc_code c) @ '' ['' @ severity_debug (lc_severity c) @ ''] '' @ lc_subject c @ '': '' @
     lc_message c @ '' (repair: '' @ lc_repair_hint c @ '')''"

record loader_report =
  lr_manifest_path :: "string option"
  lr_checks :: "loader_check list"

definition report_errors :: "loader_report \<Rightarrow> loader_check list" where
  "report_errors r = filter (\<lambda>c. lc_severity c = SeverityError) (lr_checks r)"

definition report_is_ok :: "loader_report \<Rightarrow> bool" where
  "report_is_ok r \<longleftrightarrow> report_errors r = []"

definition report_first_error :: "loader_report \<Rightarrow> loader_check option" where
  "report_first_error r = (case report_errors r of [] \<Rightarrow> None | c # _ \<Rightarrow> Some c)"

record module_initializer =
  mi_package :: string
  mi_module :: string

record library_dependency =
  ld_path :: string
  ld_exports_symbols :: bool
  ld_initializer :: "module_initializer option"

definition dependency_at :: "string \<Rightarrow> library_dependency" where
  "dependency_at p = \<lparr>ld_path = p, ld_exports_symbols = False, ld_initializer = None\<rparr>"

definition export_symbols_for_dependents :: "library_dependency \<Rightarrow> library_dependency" where
  "export_symbols_for_dependents d = d\<lparr>ld_exports_symbols := True\<rparr>"

definition dependency_initializer :: "string \<Rightarrow> string \<Rightarrow> library_dependency \<Rightarrow> library_dependency" where
  "dependency_initializer package module d =
     d\<lparr>ld_initializer := Some \<lparr>mi_package = package, mi_module = module\<rparr>\<rparr>"

section \<open>The machine a capability is built and loaded on\<close>

text \<open>
  What the checks ask of the file system and the environment, and the toolchain this process was compiled against
  (constants of its own build).  A failed read says whether the file was missing, and why.
\<close>

record cap_host =
  ch_read :: "string \<Rightarrow> (bool \<times> string) + string"
  ch_modified :: "string \<Rightarrow> nat option"
  ch_is_file :: "string \<Rightarrow> bool"
  ch_env :: "string \<Rightarrow> string option"
  ch_parse_json :: "string \<Rightarrow> string + jvalue"
  ch_header_digest :: string
  ch_lean_version :: string
  ch_resolved_version :: string

section \<open>Reading a manifest\<close>

definition rebuild_hint :: string where
  "rebuild_hint = ''rebuild the Lean capability through CargoLeanCapability''"

abbreviation malformed :: "string \<Rightarrow> string \<Rightarrow> string \<Rightarrow> loader_check" where
  "malformed \<equiv> loader_error LcMalformedManifest"

definition nonempty_text :: "jvalue option \<Rightarrow> string option" where
  "nonempty_text ov =
     (case ov of None \<Rightarrow> None
      | Some v \<Rightarrow> (case jas_str v of None \<Rightarrow> None | Some s \<Rightarrow> if s = [] then None else Some s))"

definition required_string :: "jvalue \<Rightarrow> string \<Rightarrow> string \<Rightarrow> loader_check + string" where
  "required_string v field p =
     (case nonempty_text (jget field v) of
        Some s \<Rightarrow> Inr s
      | None \<Rightarrow> Inl (malformed p (''Lean capability manifest '' @ quoted p @
          '' is missing non-empty string field '' @ backquoted field) rebuild_hint))"

definition optional_string :: "jvalue \<Rightarrow> string \<Rightarrow> string option" where
  "optional_string v field = nonempty_text (jget field v)"

definition required_u64 :: "jvalue \<Rightarrow> string \<Rightarrow> string \<Rightarrow> loader_check + nat" where
  "required_u64 v field p =
     (case Option.bind (jget field v) jas_u64 of
        Some n \<Rightarrow> Inr n
      | None \<Rightarrow> Inl (malformed p (''Lean capability manifest '' @ quoted p @
          '' is missing unsigned integer field '' @ backquoted field) rebuild_hint))"

definition validate_ownership :: "abi_repr \<Rightarrow> export_ownership \<Rightarrow> string \<Rightarrow> loader_check + unit" where
  "validate_ownership repr ownership p =
     (if ownership = (if repr = ReprObject then OwnershipOwned else OwnershipNone) then Inr ()
      else Inl (malformed p (''Lean capability manifest ABI ownership '' @ backquoted (ownership_str ownership) @
          '' does not match representation '' @ backquoted (abi_repr_str repr))
        (''use '' @ backquoted ''owned'' @ '' for '' @ backquoted ''lean_object'' @ '' slots and '' @
          backquoted ''none'' @ '' for scalar slots'')))"

definition parse_export_repr :: "jvalue \<Rightarrow> string \<Rightarrow> loader_check + abi_repr" where
  "parse_export_repr v p =
     (case required_string v ''repr'' p of Inl e \<Rightarrow> Inl e | Inr repr \<Rightarrow>
        (case abi_repr_from repr of Some r \<Rightarrow> Inr r
         | None \<Rightarrow> Inl (malformed repr (''Lean capability manifest ABI '' @ backquoted ''repr'' @ '' is not supported'')
             ''use a supported Lean export ABI representation'')))"

definition parse_export_ownership :: "jvalue \<Rightarrow> string \<Rightarrow> loader_check + export_ownership" where
  "parse_export_ownership v p =
     (case required_string v ''ownership'' p of Inl e \<Rightarrow> Inl e | Inr ownership \<Rightarrow>
        (case ownership_from ownership of Some w \<Rightarrow> Inr w
         | None \<Rightarrow> Inl (malformed ownership (''Lean capability manifest ABI '' @ backquoted ''ownership'' @
             '' must be '' @ backquoted ''none'' @ '' or '' @ backquoted ''owned'') rebuild_hint)))"

definition parse_export_result_convention :: "jvalue \<Rightarrow> string \<Rightarrow> loader_check + result_convention" where
  "parse_export_result_convention v p =
     (case required_string v ''convention'' p of Inl e \<Rightarrow> Inl e | Inr convention \<Rightarrow>
        (case convention_from convention of Some c \<Rightarrow> Inr c
         | None \<Rightarrow> Inl (malformed convention (''Lean capability manifest return '' @ backquoted ''convention'' @
             '' must be '' @ backquoted ''pure'' @ '' or '' @ backquoted ''io_result'') rebuild_hint)))"

definition parse_export_kind :: "jvalue \<Rightarrow> string \<Rightarrow> loader_check + export_kind" where
  "parse_export_kind v p =
     (case required_string v ''kind'' p of Inl e \<Rightarrow> Inl e | Inr kind \<Rightarrow>
        (case export_kind_from kind of Some k \<Rightarrow> Inr k
         | None \<Rightarrow> Inl (malformed kind (''Lean capability manifest export '' @ backquoted ''kind'' @ '' must be '' @
             backquoted ''function'' @ '' or '' @ backquoted ''global'') rebuild_hint)))"

definition export_arg_from_manifest :: "jvalue \<Rightarrow> string \<Rightarrow> loader_check + arg_abi" where
  "export_arg_from_manifest v p =
     (case parse_export_repr v p of Inl e \<Rightarrow> Inl e | Inr repr \<Rightarrow>
     (case parse_export_ownership v p of Inl e \<Rightarrow> Inl e | Inr ownership \<Rightarrow>
     (case validate_ownership repr ownership p of Inl e \<Rightarrow> Inl e | Inr _ \<Rightarrow>
        Inr \<lparr>aa_repr = repr, aa_ownership = ownership\<rparr>)))"

text \<open>\<open>iter().map(..).collect::<Result<Vec<_>, _>>()\<close>: the first failure ends it.\<close>

fun collect_results :: "('a \<Rightarrow> 'e + 'b) \<Rightarrow> 'a list \<Rightarrow> 'e + 'b list" where
  "collect_results f [] = Inr []"
| "collect_results f (x # xs) =
     (case f x of Inl e \<Rightarrow> Inl e | Inr y \<Rightarrow>
        (case collect_results f xs of Inl e \<Rightarrow> Inl e | Inr ys \<Rightarrow> Inr (y # ys)))"

definition export_args_from_manifest :: "jvalue \<Rightarrow> string \<Rightarrow> loader_check + arg_abi list" where
  "export_args_from_manifest v p =
     (case jget ''args'' v of
        None \<Rightarrow> Inl (malformed p (''Lean capability manifest export is missing required array field '' @
          backquoted ''args'') rebuild_hint)
      | Some raw \<Rightarrow>
          (case jas_array raw of
             None \<Rightarrow> Inl (malformed p (''Lean capability manifest export field '' @ backquoted ''args'' @
               '' must be an array'') rebuild_hint)
           | Some args \<Rightarrow> collect_results (\<lambda>arg. export_arg_from_manifest arg p) args))"

definition export_return_from_manifest :: "jvalue \<Rightarrow> string \<Rightarrow> loader_check + return_abi" where
  "export_return_from_manifest v p =
     (case jget ''return'' v of
        None \<Rightarrow> Inl (malformed p (''Lean capability manifest export is missing required object field '' @
          backquoted ''return'') rebuild_hint)
      | Some raw \<Rightarrow>
         (case parse_export_repr raw p of Inl e \<Rightarrow> Inl e | Inr repr \<Rightarrow>
         (case parse_export_ownership raw p of Inl e \<Rightarrow> Inl e | Inr ownership \<Rightarrow>
         (case validate_ownership repr ownership p of Inl e \<Rightarrow> Inl e | Inr _ \<Rightarrow>
         (case parse_export_result_convention raw p of Inl e \<Rightarrow> Inl e | Inr convention \<Rightarrow>
            if convention = ConventionIo \<and> (repr \<noteq> ReprObject \<or> ownership \<noteq> OwnershipOwned)
            then Inl (malformed p (''Lean capability manifest IO result must use owned '' @
                   backquoted ''lean_object'' @ '' return ABI'')
                 (''record IO exports with '' @ backquoted ''repr: lean_object'' @ '', '' @
                   backquoted ''ownership: owned'' @ '', and '' @ backquoted ''convention: io_result''))
            else Inr \<lparr>ra_repr = repr, ra_ownership = ownership, ra_convention = convention\<rparr>)))))"

definition signature_from_manifest :: "jvalue \<Rightarrow> string \<Rightarrow> string \<Rightarrow> loader_check + export_signature" where
  "signature_from_manifest export symbol p =
     (case parse_export_kind export p of Inl e \<Rightarrow> Inl e | Inr kind \<Rightarrow>
     (case export_args_from_manifest export p of Inl e \<Rightarrow> Inl e | Inr args \<Rightarrow>
     (case export_return_from_manifest export p of Inl e \<Rightarrow> Inl e | Inr result \<Rightarrow>
        if kind = ExportGlobal \<and> args \<noteq> []
        then Inl (malformed symbol ''Lean capability manifest describes a global export with function arguments''
               (''record globals with an empty '' @ backquoted ''args'' @ '' array''))
        else if kind = ExportGlobal \<and> ra_convention result = ConventionIo
        then Inl (malformed symbol ''Lean capability manifest describes a global export as an IO result''
               ''record globals with a pure return convention'')
        else Inr (case kind of ExportFunction \<Rightarrow> signature_function symbol args result
                  | ExportGlobal \<Rightarrow> signature_global symbol result))))"

fun exports_loop :: "string \<Rightarrow> string list \<Rightarrow> jvalue list \<Rightarrow> loader_check + export_signature list" where
  "exports_loop p seen [] = Inr []"
| "exports_loop p seen (export # exports) =
     (case required_string export ''symbol'' p of Inl e \<Rightarrow> Inl e | Inr symbol \<Rightarrow>
        if symbol \<in> set seen
        then Inl (malformed symbol ''Lean capability manifest contains duplicate export signature metadata''
               ''emit at most one signature entry for each exported symbol'')
        else (case signature_from_manifest export symbol p of Inl e \<Rightarrow> Inl e | Inr sig \<Rightarrow>
               (case exports_loop p (symbol # seen) exports of Inl e \<Rightarrow> Inl e | Inr out \<Rightarrow> Inr (sig # out))))"

definition exports_from_manifest :: "jvalue \<Rightarrow> string \<Rightarrow> loader_check + export_signature list" where
  "exports_from_manifest v p =
     (case jget ''exports'' v of
        None \<Rightarrow> Inl (malformed p (''Lean capability manifest '' @ quoted p @
          '' is missing required array field '' @ backquoted ''exports'') rebuild_hint)
      | Some raw \<Rightarrow>
          (case jas_array raw of
             None \<Rightarrow> Inl (malformed p (''Lean capability manifest '' @ quoted p @ '' field '' @
               backquoted ''exports'' @ '' must be an array'') rebuild_hint)
           | Some exports \<Rightarrow> exports_loop p [] exports))"

definition dependency_from_manifest :: "string \<Rightarrow> jvalue \<Rightarrow> loader_check + library_dependency" where
  "dependency_from_manifest p dependency =
     (case required_string dependency ''dylib_path'' p of Inl e \<Rightarrow> Inl e | Inr dylib \<Rightarrow>
        let d0 = dependency_at dylib;
            d1 = (if Option.bind (jget ''export_symbols_for_dependents'' dependency) jas_bool = Some True
                  then export_symbols_for_dependents d0 else d0)
        in (case jget ''initializer'' dependency of
              None \<Rightarrow> Inr d1
            | Some initializer \<Rightarrow>
               (case required_string initializer ''package'' p of Inl e \<Rightarrow> Inl e | Inr package \<Rightarrow>
               (case required_string initializer ''module'' p of Inl e \<Rightarrow> Inl e | Inr module \<Rightarrow>
                  Inr (dependency_initializer package module d1)))))"

definition dependencies_from_manifest :: "jvalue \<Rightarrow> string \<Rightarrow> loader_check + library_dependency list" where
  "dependencies_from_manifest v p =
     (case jget ''dependencies'' v of
        None \<Rightarrow> Inr []
      | Some raw \<Rightarrow>
          (case jas_array raw of
             None \<Rightarrow> Inl (malformed p (''Lean capability manifest '' @ quoted p @ '' field '' @
               backquoted ''dependencies'' @ '' must be an array'') rebuild_hint)
           | Some dependencies \<Rightarrow> collect_results (dependency_from_manifest p) dependencies))"

record capability_manifest =
  cm_primary_dylib :: string
  cm_package :: string
  cm_module :: string
  cm_dependencies :: "library_dependency list"
  cm_lean_version :: "string option"
  cm_resolved_lean_version :: "string option"
  cm_lean_header_sha256 :: "string option"
  cm_exports :: "export_signature list"

definition or_else :: "'a option \<Rightarrow> 'a option \<Rightarrow> 'a option" where
  "or_else a b = (case a of None \<Rightarrow> b | Some x \<Rightarrow> Some x)"

definition manifest_from_value :: "jvalue \<Rightarrow> string \<Rightarrow> loader_check + capability_manifest" where
  "manifest_from_value v p =
     (case required_u64 v ''schema_version'' p of Inl e \<Rightarrow> Inl e | Inr version \<Rightarrow>
        if version \<noteq> CAPABILITY_MANIFEST_SCHEMA_VERSION
        then Inl (loader_error LcUnsupportedManifestSchema p
               (''unsupported Lean capability manifest schema '' @ decimal version @ ''; supported schema is '' @
                 decimal CAPABILITY_MANIFEST_SCHEMA_VERSION)
               ''rebuild the Lean capability with the same lean-rs version as the runtime crate'')
        else
         (case required_string v ''primary_dylib'' p of Inl e \<Rightarrow> Inl e | Inr primary_dylib \<Rightarrow>
         (case required_string v ''package'' p of Inl e \<Rightarrow> Inl e | Inr package \<Rightarrow>
         (case required_string v ''module'' p of Inl e \<Rightarrow> Inl e | Inr module \<Rightarrow>
         (case dependencies_from_manifest v p of Inl e \<Rightarrow> Inl e | Inr dependencies \<Rightarrow>
         (case exports_from_manifest v p of Inl e \<Rightarrow> Inl e | Inr exports \<Rightarrow>
            let fingerprint = (case jget ''toolchain_fingerprint'' v of None \<Rightarrow> JNull | Some f \<Rightarrow> f)
            in Inr \<lparr>cm_primary_dylib = primary_dylib, cm_package = package, cm_module = module,
                 cm_dependencies = dependencies,
                 cm_lean_version = or_else (optional_string fingerprint ''lean_version'')
                   (optional_string v ''lean_version''),
                 cm_resolved_lean_version = or_else (optional_string fingerprint ''resolved_version'')
                   (optional_string v ''resolved_lean_version''),
                 cm_lean_header_sha256 = or_else (optional_string fingerprint ''header_sha256'')
                   (optional_string v ''lean_header_sha256''),
                 cm_exports = exports\<rparr>))))))"

definition read_manifest :: "cap_host \<Rightarrow> string \<Rightarrow> loader_check + capability_manifest" where
  "read_manifest h p =
     (case ch_read h p of
        Inl (missing, err) \<Rightarrow>
          Inl (loader_error (if missing then LcMissingManifest else LcMalformedManifest) p
            (''failed to read Lean capability manifest '' @ quoted p @ '': '' @ err)
            ''rebuild the Lean capability through CargoLeanCapability and ensure the manifest file is packaged'')
      | Inr bytes \<Rightarrow>
          (case ch_parse_json h bytes of
             Inl err \<Rightarrow> Inl (malformed p (''Lean capability manifest '' @ quoted p @ '' is not valid JSON: '' @ err)
               rebuild_hint)
           | Inr v \<Rightarrow> manifest_from_value v p))"

section \<open>Static checks\<close>

definition rebuild_digest_hint :: string where
  "rebuild_digest_hint = ''rebuild the Lean capability so the manifest records a Lean header digest''"

definition check_fingerprint :: "cap_host \<Rightarrow> capability_manifest \<Rightarrow> loader_check list \<Rightarrow> loader_check list" where
  "check_fingerprint h m checks =
     (case cm_lean_header_sha256 m of
        Some digest \<Rightarrow>
          (if digest \<noteq> ch_header_digest h
           then checks @ [loader_error LcUnsupportedToolchainFingerprint digest
             (''manifest Lean header digest '' @ digest @ '' does not match this process digest '' @ ch_header_digest h)
             ''rebuild the Lean capability with the same Lean ABI used by this Rust binary'']
           else checks)
      | None \<Rightarrow>
          (case (case cm_lean_version m of
                   Some version \<Rightarrow> (if supported_for version = None then Some version else None)
                 | None \<Rightarrow> None) of
             Some version \<Rightarrow>
               checks @ [loader_error LcUnsupportedToolchainFingerprint version
                 (''legacy manifest was built with unsupported Lean toolchain '' @ version) rebuild_digest_hint]
           | None \<Rightarrow>
               (case cm_resolved_lean_version m of
                  Some resolved \<Rightarrow>
                    (if resolved \<noteq> ch_resolved_version h
                     then checks @ [loader_error LcUnsupportedToolchainFingerprint resolved
                       (''legacy manifest resolved Lean version '' @ resolved @
                         '' does not match this process resolved version '' @ ch_resolved_version h)
                       rebuild_digest_hint]
                     else checks)
                | None \<Rightarrow> checks)))"

definition check_staleness ::
    "cap_host \<Rightarrow> string \<Rightarrow> capability_manifest \<Rightarrow> loader_check list \<Rightarrow> loader_check list" where
  "check_staleness h p m checks =
     (case ch_modified h p of None \<Rightarrow> checks | Some manifest_modified \<Rightarrow>
     (case ch_modified h (cm_primary_dylib m) of None \<Rightarrow> checks | Some primary_modified \<Rightarrow>
        if primary_modified > manifest_modified
        then checks @ [loader_error LcStaleManifest p
          (''manifest '' @ quoted p @ '' is older than primary dylib '' @ quoted (cm_primary_dylib m))
          ''rebuild the Lean capability through CargoLeanCapability so the manifest matches the dylib'']
        else checks))"

definition check_dependency_path ::
    "cap_host \<Rightarrow> library_dependency \<Rightarrow> loader_check list \<Rightarrow> loader_check list" where
  "check_dependency_path h dependency checks =
     (if \<not> ch_is_file h (ld_path dependency)
      then checks @ [loader_error LcMissingTransitiveDependency (ld_path dependency)
        (''Lean dependency dylib '' @ quoted (ld_path dependency) @ '' named by the manifest is missing'')
        ''rebuild the Lean capability through CargoLeanCapability and package every manifest dependency'']
      else checks)"

definition check_dependency_paths ::
    "cap_host \<Rightarrow> capability_manifest \<Rightarrow> loader_check list \<Rightarrow> loader_check list" where
  "check_dependency_paths h m = fold (check_dependency_path h) (cm_dependencies m)"

definition check_primary_dylib_present ::
    "cap_host \<Rightarrow> capability_manifest \<Rightarrow> loader_check list \<Rightarrow> loader_check list" where
  "check_primary_dylib_present h m checks =
     (if \<not> ch_is_file h (cm_primary_dylib m)
      then checks @ [loader_error LcMissingPrimaryDylib (cm_primary_dylib m)
        (''primary Lean capability dylib '' @ quoted (cm_primary_dylib m) @ '' named by the manifest is missing'')
        ''rebuild the Lean capability through CargoLeanCapability and package the primary dylib'']
      else checks)"

definition check_static :: "cap_host \<Rightarrow> string \<Rightarrow> loader_report" where
  "check_static h manifest_path =
     (case read_manifest h manifest_path of
        Inl check \<Rightarrow> \<lparr>lr_manifest_path = Some manifest_path, lr_checks = [check]\<rparr>
      | Inr m \<Rightarrow>
          \<lparr>lr_manifest_path = Some manifest_path,
           lr_checks = check_primary_dylib_present h m (check_dependency_paths h m
             (check_staleness h manifest_path m (check_fingerprint h m [])))\<rparr>)"

section \<open>Built capabilities\<close>

record built_capability =
  bc_dylib_path :: "string option"
  bc_env_var :: "string option"
  bc_manifest_path :: "string option"
  bc_manifest_env_var :: "string option"
  bc_package :: "string option"
  bc_module :: "string option"
  bc_dependencies :: "library_dependency list"

definition built_empty :: built_capability where
  "built_empty = \<lparr>bc_dylib_path = None, bc_env_var = None, bc_manifest_path = None, bc_manifest_env_var = None,
     bc_package = None, bc_module = None, bc_dependencies = []\<rparr>"

definition built_path :: "string \<Rightarrow> built_capability" where
  "built_path p = built_empty\<lparr>bc_dylib_path := Some p\<rparr>"

definition built_env :: "string \<Rightarrow> built_capability" where
  "built_env v = built_empty\<lparr>bc_env_var := Some v\<rparr>"

definition built_manifest_path :: "string \<Rightarrow> built_capability" where
  "built_manifest_path p = built_empty\<lparr>bc_manifest_path := Some p\<rparr>"

definition built_manifest_env :: "string \<Rightarrow> built_capability" where
  "built_manifest_env v = built_empty\<lparr>bc_manifest_env_var := Some v\<rparr>"

definition built_with_package :: "string \<Rightarrow> built_capability \<Rightarrow> built_capability" where
  "built_with_package package b = b\<lparr>bc_package := Some package\<rparr>"

definition built_with_module :: "string \<Rightarrow> built_capability \<Rightarrow> built_capability" where
  "built_with_module module b = b\<lparr>bc_module := Some module\<rparr>"

definition built_with_dependency :: "library_dependency \<Rightarrow> built_capability \<Rightarrow> built_capability" where
  "built_with_dependency d b = b\<lparr>bc_dependencies := bc_dependencies b @ [d]\<rparr>"

datatype built_artifact = ArtifactDylib | ArtifactManifest

fun built_artifact_str :: "built_artifact \<Rightarrow> string" where
  "built_artifact_str ArtifactDylib = ''Lean capability dylib''"
| "built_artifact_str ArtifactManifest = ''Lean capability manifest''"

datatype built_capability_error =
    MissingDylibSource
  | MissingManifestSource
  | EnvVarNotSet string built_artifact

fun built_error_text :: "built_capability_error \<Rightarrow> string" where
  "built_error_text MissingDylibSource =
     ''LeanBuiltCapability needs either a dylib path or an environment variable''"
| "built_error_text MissingManifestSource =
     ''LeanBuiltCapability needs either a manifest path or manifest environment variable''"
| "built_error_text (EnvVarNotSet v kind) =
     ''environment variable '' @ v @ '' is not set for '' @ built_artifact_str kind"

definition built_dylib_path :: "cap_host \<Rightarrow> built_capability \<Rightarrow> built_capability_error + string" where
  "built_dylib_path h b =
     (case bc_dylib_path b of
        Some p \<Rightarrow> Inr p
      | None \<Rightarrow>
          (case bc_env_var b of
             None \<Rightarrow> Inl MissingDylibSource
           | Some v \<Rightarrow>
               (case ch_env h v of Some p \<Rightarrow> Inr p | None \<Rightarrow> Inl (EnvVarNotSet v ArtifactDylib))))"

definition resolved_manifest_path :: "cap_host \<Rightarrow> built_capability \<Rightarrow> built_capability_error + string" where
  "resolved_manifest_path h b =
     (case bc_manifest_path b of
        Some p \<Rightarrow> Inr p
      | None \<Rightarrow>
          (case bc_manifest_env_var b of
             None \<Rightarrow> Inl MissingManifestSource
           | Some v \<Rightarrow>
               (case ch_env h v of Some p \<Rightarrow> Inr p | None \<Rightarrow> Inl (EnvVarNotSet v ArtifactManifest))))"

section \<open>What a manifest that reads is\<close>

definition slot_ok :: "abi_repr \<Rightarrow> export_ownership \<Rightarrow> bool" where
  "slot_ok repr ownership \<longleftrightarrow> ownership = (if repr = ReprObject then OwnershipOwned else OwnershipNone)"

definition signature_ok :: "export_signature \<Rightarrow> bool" where
  "signature_ok s \<longleftrightarrow>
     es_symbol s \<noteq> [] \<and> (\<forall>a \<in> set (es_args s). slot_ok (aa_repr a) (aa_ownership a)) \<and>
     slot_ok (ra_repr (es_result s)) (ra_ownership (es_result s)) \<and>
     (ra_convention (es_result s) = ConventionIo \<longrightarrow> ra_repr (es_result s) = ReprObject) \<and>
     (es_kind s = ExportGlobal \<longrightarrow> es_args s = [] \<and> ra_convention (es_result s) = ConventionPure)"

definition dependency_ok :: "library_dependency \<Rightarrow> bool" where
  "dependency_ok d \<longleftrightarrow>
     ld_path d \<noteq> [] \<and> (\<forall>i. ld_initializer d = Some i \<longrightarrow> mi_package i \<noteq> [] \<and> mi_module i \<noteq> [])"

definition manifest_ok :: "capability_manifest \<Rightarrow> bool" where
  "manifest_ok m \<longleftrightarrow>
     cm_primary_dylib m \<noteq> [] \<and> cm_package m \<noteq> [] \<and> cm_module m \<noteq> [] \<and>
     (\<forall>d \<in> set (cm_dependencies m). dependency_ok d) \<and>
     distinct (map es_symbol (cm_exports m)) \<and> (\<forall>s \<in> set (cm_exports m). signature_ok s) \<and>
     cm_lean_version m \<noteq> Some [] \<and> cm_resolved_lean_version m \<noteq> Some [] \<and> cm_lean_header_sha256 m \<noteq> Some []"

subsection \<open>Spellings\<close>

lemma export_kind_spelling [simp]: "export_kind_from (export_kind_str k) = Some k"
  by (cases k) (simp_all add: export_kind_from_def)

lemma abi_repr_spelling [simp]: "abi_repr_from (abi_repr_str r) = Some r"
  by (cases r) (simp_all add: abi_repr_from_def)

lemma ownership_spelling [simp]: "ownership_from (ownership_str w) = Some w"
  by (cases w) (simp_all add: ownership_from_def)

lemma convention_spelling [simp]: "convention_from (convention_str c) = Some c"
  by (cases c) (simp_all add: convention_from_def)

lemma spellings_nonempty [simp]:
  "export_kind_str k \<noteq> []" "abi_repr_str r \<noteq> []" "ownership_str w \<noteq> []" "convention_str c \<noteq> []"
  by (cases k, simp_all) (cases r, simp_all, cases w, simp_all, cases c, simp_all)

subsection \<open>Fields\<close>

lemma nonempty_text_some: "nonempty_text ov = Some s \<longleftrightarrow> ov = Some (JString s) \<and> s \<noteq> []"
proof -
  have "jas_str v = Some s \<longleftrightarrow> v = JString s" for v s by (cases v) auto
  then show ?thesis by (auto simp: nonempty_text_def split: option.splits)
qed

lemma nonempty_text_string [simp]: "s \<noteq> [] \<Longrightarrow> nonempty_text (Some (JString s)) = Some s"
  by (simp add: nonempty_text_some)

lemma nonempty_text_empty [simp]: "nonempty_text (Some (JString [])) = None" "nonempty_text (Some JNull) = None"
    "nonempty_text None = None"
  by (simp_all add: nonempty_text_def)

lemma result_bind_ok: "(case x of Inl e \<Rightarrow> Inl e | Inr y \<Rightarrow> f y) = Inr z \<longleftrightarrow> (\<exists>y. x = Inr y \<and> f y = Inr z)"
  by (cases x) auto

lemma required_string_ok: "required_string v f p = Inr s \<longleftrightarrow> jget f v = Some (JString s) \<and> s \<noteq> []"
proof -
  have "required_string v f p = Inr s \<longleftrightarrow> nonempty_text (jget f v) = Some s"
    by (simp add: required_string_def split: option.split)
  then show ?thesis by (simp add: nonempty_text_some)
qed

lemma optional_string_some: "optional_string v f = Some s \<longleftrightarrow> jget f v = Some (JString s) \<and> s \<noteq> []"
  by (simp add: optional_string_def nonempty_text_some)

lemma required_u64_ok: "required_u64 v f p = Inr n \<longleftrightarrow> jget f v = Some (JNat n)"
proof -
  have "jas_u64 w = Some n \<longleftrightarrow> w = JNat n" for w n by (cases w) auto
  then show ?thesis by (auto simp: required_u64_def bind_eq_Some_conv split: option.splits)
qed

lemma jas_array_some: "jas_array v = Some vs \<longleftrightarrow> v = JArray vs"
  by (cases v) auto

lemma validate_ownership_ok: "validate_ownership r w p = Inr u \<longleftrightarrow> slot_ok r w"
  by (simp add: validate_ownership_def slot_ok_def)

lemma collect_results_ok: "collect_results f xs = Inr ys \<longleftrightarrow> list_all2 (\<lambda>x y. f x = Inr y) xs ys"
proof (induction xs arbitrary: ys)
  case (Cons x xs)
  show ?case by (cases ys) (auto simp: result_bind_ok Cons.IH)
qed auto

lemmas parse_defs =
  parse_export_repr_def parse_export_ownership_def parse_export_result_convention_def parse_export_kind_def

lemma parsed_spellings:
  "parse_export_repr v p = Inr r \<longleftrightarrow> jget ''repr'' v = Some (JString (abi_repr_str r))"
  "parse_export_ownership v p = Inr w \<longleftrightarrow> jget ''ownership'' v = Some (JString (ownership_str w))"
  "parse_export_result_convention v p = Inr c \<longleftrightarrow> jget ''convention'' v = Some (JString (convention_str c))"
  "parse_export_kind v p = Inr k \<longleftrightarrow> jget ''kind'' v = Some (JString (export_kind_str k))"
proof -
  have r: "abi_repr_from s = Some r \<longleftrightarrow> s = abi_repr_str r" for s
  proof -
    have "abi_repr_from s = Some r \<longleftrightarrow> (s, r) \<in>
        set [(''lean_object'', ReprObject), (''u8'', ReprU8), (''u16'', ReprU16), (''u32'', ReprU32),
          (''u64'', ReprU64), (''usize'', ReprUSize), (''i8'', ReprI8), (''i16'', ReprI16), (''i32'', ReprI32),
          (''i64'', ReprI64), (''isize'', ReprISize), (''f64'', ReprF64)]"
      unfolding abi_repr_from_def by (rule map_of_eq_Some_iff) simp
    then show ?thesis by (cases r) simp_all
  qed
  have w: "ownership_from s = Some w \<longleftrightarrow> s = ownership_str w" for s
    by (cases w) (auto simp: ownership_from_def)
  have c: "convention_from s = Some c \<longleftrightarrow> s = convention_str c" for s
    by (cases c) (auto simp: convention_from_def)
  have k: "export_kind_from s = Some k \<longleftrightarrow> s = export_kind_str k" for s
    by (cases k) (auto simp: export_kind_from_def)
  have opt: "(case x of Some y \<Rightarrow> Inr y | None \<Rightarrow> Inl e) = Inr z \<longleftrightarrow> x = Some z"
    for x :: "'b option" and e :: loader_check and z by (cases x) auto
  note [simp] = opt result_bind_ok required_string_ok
  show "parse_export_repr v p = Inr r \<longleftrightarrow> jget ''repr'' v = Some (JString (abi_repr_str r))"
    by (auto simp: parse_defs r)
  show "parse_export_ownership v p = Inr w \<longleftrightarrow> jget ''ownership'' v = Some (JString (ownership_str w))"
    by (auto simp: parse_defs w)
  show "parse_export_result_convention v p = Inr c \<longleftrightarrow> jget ''convention'' v = Some (JString (convention_str c))"
    by (auto simp: parse_defs c)
  show "parse_export_kind v p = Inr k \<longleftrightarrow> jget ''kind'' v = Some (JString (export_kind_str k))"
    by (auto simp: parse_defs k)
qed

subsection \<open>Signatures\<close>

lemma export_arg_parsed:
  "export_arg_from_manifest v p = Inr a \<longleftrightarrow>
     parse_export_repr v p = Inr (aa_repr a) \<and> parse_export_ownership v p = Inr (aa_ownership a) \<and>
     slot_ok (aa_repr a) (aa_ownership a)"
  by (cases a) (auto simp: export_arg_from_manifest_def result_bind_ok validate_ownership_ok)

lemma export_arg_ok:
  "export_arg_from_manifest v p = Inr a \<longleftrightarrow>
     jget ''repr'' v = Some (JString (abi_repr_str (aa_repr a))) \<and>
     jget ''ownership'' v = Some (JString (ownership_str (aa_ownership a))) \<and> slot_ok (aa_repr a) (aa_ownership a)"
  by (simp only: export_arg_parsed parsed_spellings)

lemma export_return_parsed:
  "export_return_from_manifest v p = Inr r \<longleftrightarrow>
     (\<exists>raw. jget ''return'' v = Some raw \<and> parse_export_repr raw p = Inr (ra_repr r) \<and>
        parse_export_ownership raw p = Inr (ra_ownership r) \<and>
        parse_export_result_convention raw p = Inr (ra_convention r)) \<and>
     slot_ok (ra_repr r) (ra_ownership r) \<and> (ra_convention r = ConventionIo \<longrightarrow> ra_repr r = ReprObject)"
proof (cases "jget ''return'' v")
  case (Some raw)
  obtain repr ownership convention where r: "r = \<lparr>ra_repr = repr, ra_ownership = ownership, ra_convention = convention\<rparr>"
    by (cases r)
  show ?thesis
    by (cases "parse_export_repr raw p"; cases "parse_export_ownership raw p";
        cases "parse_export_result_convention raw p")
      (auto simp: export_return_from_manifest_def Some r result_bind_ok validate_ownership_ok slot_ok_def split: if_splits)
qed (simp add: export_return_from_manifest_def)

lemma export_return_ok:
  "export_return_from_manifest v p = Inr r \<longleftrightarrow>
     (\<exists>raw. jget ''return'' v = Some raw \<and>
        jget ''repr'' raw = Some (JString (abi_repr_str (ra_repr r))) \<and>
        jget ''ownership'' raw = Some (JString (ownership_str (ra_ownership r))) \<and>
        jget ''convention'' raw = Some (JString (convention_str (ra_convention r)))) \<and>
     slot_ok (ra_repr r) (ra_ownership r) \<and> (ra_convention r = ConventionIo \<longrightarrow> ra_repr r = ReprObject)"
  by (simp only: export_return_parsed parsed_spellings)

lemma export_args_ok:
  "export_args_from_manifest v p = Inr args \<longleftrightarrow>
     (\<exists>vs. jget ''args'' v = Some (JArray vs) \<and> list_all2 (\<lambda>x a. export_arg_from_manifest x p = Inr a) vs args)"
  by (auto simp: export_args_from_manifest_def collect_results_ok jas_array_some split: option.splits)

lemma signature_from_manifest_ok:
  "signature_from_manifest v symbol p = Inr s \<longleftrightarrow>
     es_symbol s = symbol \<and> parse_export_kind v p = Inr (es_kind s) \<and>
     export_args_from_manifest v p = Inr (es_args s) \<and> export_return_from_manifest v p = Inr (es_result s) \<and>
     (es_kind s = ExportGlobal \<longrightarrow> es_args s = [] \<and> ra_convention (es_result s) = ConventionPure)"
proof -
  obtain symbol' kind args result where
    s: "s = \<lparr>es_symbol = symbol', es_kind = kind, es_args = args, es_result = result\<rparr>" by (cases s)
  have c: "ra_convention r = ConventionPure \<longleftrightarrow> ra_convention r \<noteq> ConventionIo" for r :: return_abi
    by (cases "ra_convention r") auto
  show ?thesis
    by (cases "parse_export_kind v p"; cases "export_args_from_manifest v p"; cases "export_return_from_manifest v p")
      (auto simp: s signature_from_manifest_def signature_function_def signature_global_def c
        split: if_splits export_kind.splits)
qed

lemma args_slots: "list_all2 (\<lambda>x a. export_arg_from_manifest x p = Inr a) vs args \<Longrightarrow>
    \<forall>a \<in> set args. slot_ok (aa_repr a) (aa_ownership a)"
  by (induction rule: list_all2_induct) (auto simp: export_arg_ok)

lemma signature_sound: "signature_from_manifest v symbol p = Inr s \<Longrightarrow> symbol \<noteq> [] \<Longrightarrow> signature_ok s"
  by (auto simp: signature_from_manifest_ok signature_ok_def export_args_ok export_return_ok args_slots)

lemma signature_reads_back:
  "signature_from_manifest (signature_to_json s) (es_symbol s) p = Inr s \<longleftrightarrow> signature_ok s \<or> es_symbol s = [] \<and>
     signature_ok (s\<lparr>es_symbol := ''x''\<rparr>)"
proof -
  have "list_all2 (\<lambda>x a. export_arg_from_manifest x p = Inr a) (map arg_abi_to_json args) args \<longleftrightarrow>
      (\<forall>a \<in> set args. slot_ok (aa_repr a) (aa_ownership a))" for args
    by (simp add: list_all2_map1 list_all2_same export_arg_ok arg_abi_to_json_def)
  then show ?thesis
    by (auto simp: signature_from_manifest_ok signature_to_json_def parsed_spellings export_args_ok export_return_ok
        return_abi_to_json_def signature_ok_def)
qed

lemma signature_only_reads_back:
  "signature_from_manifest (signature_to_json s) (es_symbol s) p = Inr t \<Longrightarrow> t = s"
proof -
  assume *: "signature_from_manifest (signature_to_json s) (es_symbol s) p = Inr t"
  have str: "abi_repr_str r = abi_repr_str r' \<longleftrightarrow> r = r'" "ownership_str w = ownership_str w' \<longleftrightarrow> w = w'"
      "convention_str c = convention_str c' \<longleftrightarrow> c = c'" "export_kind_str k = export_kind_str k' \<longleftrightarrow> k = k'"
    for r r' w w' c c' k k'
    by (metis abi_repr_spelling option.inject, metis ownership_spelling option.inject,
        metis convention_spelling option.inject, metis export_kind_spelling option.inject)
  have arg: "export_arg_from_manifest (arg_abi_to_json a) p = Inr z \<Longrightarrow> z = a" for a z
    by (simp add: export_arg_ok arg_abi_to_json_def str)
  have args: "list_all2 (\<lambda>x a. export_arg_from_manifest x p = Inr a) (map arg_abi_to_json args) args' \<Longrightarrow> args' = args"
    for args args'
    by (induction args arbitrary: args') (auto simp: list_all2_Cons1 dest: arg)
  from * show ?thesis
    by (auto simp: signature_from_manifest_ok signature_to_json_def parsed_spellings export_args_ok export_return_ok
        return_abi_to_json_def str dest: args intro!: export_signature.equality return_abi.equality)
qed

subsection \<open>Documents\<close>

lemma exports_loop_ok:
  "exports_loop p seen vs = Inr sigs \<longleftrightarrow>
     list_all2 (\<lambda>v s. required_string v ''symbol'' p = Inr (es_symbol s) \<and>
       signature_from_manifest v (es_symbol s) p = Inr s) vs sigs \<and>
     distinct (map es_symbol sigs) \<and> set (map es_symbol sigs) \<inter> set seen = {}"
proof (induction vs arbitrary: seen sigs)
  case (Cons v vs)
  show ?case
  proof (cases sigs)
    case (Cons s sigs')
    have "signature_from_manifest v symbol p = Inr s \<Longrightarrow> es_symbol s = symbol" for symbol
      by (simp add: signature_from_manifest_ok)
    with Cons show ?thesis
      by (auto simp: result_bind_ok Cons.IH split: if_splits)
  qed (auto simp: result_bind_ok split: if_splits)
qed auto

lemma exports_from_manifest_ok:
  "exports_from_manifest v p = Inr sigs \<longleftrightarrow>
     (\<exists>vs. jget ''exports'' v = Some (JArray vs) \<and> exports_loop p [] vs = Inr sigs)"
  by (auto simp: exports_from_manifest_def jas_array_some split: option.splits)

lemma dependency_from_manifest_ok:
  "dependency_from_manifest p v = Inr d \<longleftrightarrow>
     jget ''dylib_path'' v = Some (JString (ld_path d)) \<and> ld_path d \<noteq> [] \<and>
     ld_exports_symbols d = (Option.bind (jget ''export_symbols_for_dependents'' v) jas_bool = Some True) \<and>
     (case jget ''initializer'' v of
        None \<Rightarrow> ld_initializer d = None
      | Some i \<Rightarrow> \<exists>package module. required_string i ''package'' p = Inr package \<and>
          required_string i ''module'' p = Inr module \<and>
          ld_initializer d = Some \<lparr>mi_package = package, mi_module = module\<rparr>)"
proof -
  obtain q b i where d: "d = \<lparr>ld_path = q, ld_exports_symbols = b, ld_initializer = i\<rparr>" by (cases d)
  show ?thesis
    by (cases "jget ''initializer'' v")
      (auto simp: d dependency_from_manifest_def result_bind_ok required_string_ok dependency_at_def
        export_symbols_for_dependents_def dependency_initializer_def Let_def)
qed

lemma dependencies_from_manifest_ok:
  "dependencies_from_manifest v p = Inr ds \<longleftrightarrow>
     (case jget ''dependencies'' v of
        None \<Rightarrow> ds = []
      | Some raw \<Rightarrow> \<exists>vs. raw = JArray vs \<and> list_all2 (\<lambda>x d. dependency_from_manifest p x = Inr d) vs ds)"
  by (auto simp: dependencies_from_manifest_def collect_results_ok jas_array_some split: option.splits)

definition fingerprint_text :: "jvalue \<Rightarrow> string \<Rightarrow> string \<Rightarrow> string option" where
  "fingerprint_text v inner outer =
     or_else (case jget ''toolchain_fingerprint'' v of None \<Rightarrow> None | Some f \<Rightarrow> optional_string f inner)
       (optional_string v outer)"

lemma fingerprint_text_nonempty: "fingerprint_text v inner outer \<noteq> Some []"
  by (auto simp: fingerprint_text_def or_else_def optional_string_some split: option.splits)

lemma manifest_from_value_ok:
  "manifest_from_value v p = Inr m \<longleftrightarrow>
     required_u64 v ''schema_version'' p = Inr CAPABILITY_MANIFEST_SCHEMA_VERSION \<and>
     required_string v ''primary_dylib'' p = Inr (cm_primary_dylib m) \<and>
     required_string v ''package'' p = Inr (cm_package m) \<and> required_string v ''module'' p = Inr (cm_module m) \<and>
     dependencies_from_manifest v p = Inr (cm_dependencies m) \<and> exports_from_manifest v p = Inr (cm_exports m) \<and>
     cm_lean_version m = fingerprint_text v ''lean_version'' ''lean_version'' \<and>
     cm_resolved_lean_version m = fingerprint_text v ''resolved_version'' ''resolved_lean_version'' \<and>
     cm_lean_header_sha256 m = fingerprint_text v ''header_sha256'' ''lean_header_sha256''"
proof -
  obtain q pk md ds lv rv hd es where m: "m = \<lparr>cm_primary_dylib = q, cm_package = pk, cm_module = md,
      cm_dependencies = ds, cm_lean_version = lv, cm_resolved_lean_version = rv, cm_lean_header_sha256 = hd,
      cm_exports = es\<rparr>" by (cases m)
  have f: "or_else (optional_string (case jget ''toolchain_fingerprint'' v of None \<Rightarrow> JNull | Some f \<Rightarrow> f) inner)
      (optional_string v outer) = fingerprint_text v inner outer" for inner outer
    by (simp add: fingerprint_text_def optional_string_def split: option.split)
  show ?thesis
    by (cases "required_u64 v ''schema_version'' p"; cases "required_string v ''primary_dylib'' p";
        cases "required_string v ''package'' p"; cases "required_string v ''module'' p";
        cases "dependencies_from_manifest v p"; cases "exports_from_manifest v p")
      (auto simp: m manifest_from_value_def f Let_def)
qed

lemma dependency_sound: "dependency_from_manifest p v = Inr d \<Longrightarrow> dependency_ok d"
  by (auto simp: dependency_from_manifest_ok dependency_ok_def required_string_ok split: option.splits)

lemma list_all2_right: "list_all2 P xs ys \<Longrightarrow> (\<And>x y. P x y \<Longrightarrow> Q y) \<Longrightarrow> \<forall>y \<in> set ys. Q y"
  by (induction rule: list_all2_induct) auto

lemma exports_sound: "exports_loop p seen vs = Inr sigs \<Longrightarrow> \<forall>s \<in> set sigs. signature_ok s"
  unfolding exports_loop_ok
  by (elim conjE, erule list_all2_right) (auto simp: required_string_ok intro: signature_sound)

lemma dependencies_sound: "dependencies_from_manifest v p = Inr ds \<Longrightarrow> \<forall>d \<in> set ds. dependency_ok d"
  unfolding dependencies_from_manifest_ok
  by (auto split: option.splits dest!: list_all2_right [where Q = dependency_ok] intro: dependency_sound)

lemma manifest_sound: "manifest_from_value v p = Inr m \<Longrightarrow> manifest_ok m"
proof -
  assume *: "manifest_from_value v p = Inr m"
  then have deps: "\<forall>d \<in> set (cm_dependencies m). dependency_ok d"
    by (intro dependencies_sound [of v p]) (simp add: manifest_from_value_ok)
  from * obtain vs where e: "exports_loop p [] vs = Inr (cm_exports m)"
    by (auto simp: manifest_from_value_ok exports_from_manifest_ok)
  then have "distinct (map es_symbol (cm_exports m))" by (simp add: exports_loop_ok)
  with * deps exports_sound [OF e] show ?thesis
    by (simp add: manifest_from_value_ok manifest_ok_def required_string_ok fingerprint_text_nonempty)
qed

subsection \<open>Findings\<close>

text \<open>What a check looks like: an error of the given code whose texts are bounded.\<close>

definition finding :: "loader_code \<Rightarrow> loader_check \<Rightarrow> bool" where
  "finding code c \<longleftrightarrow>
     lc_code c = code \<and> lc_severity c = SeverityError \<and> length (lc_subject c) \<le> LOADER_DIAGNOSTIC_TEXT_LIMIT \<and>
     length (lc_message c) \<le> LOADER_DIAGNOSTIC_TEXT_LIMIT \<and> length (lc_repair_hint c) \<le> LOADER_DIAGNOSTIC_TEXT_LIMIT"

lemma bound_loader_text_length: "length (bound_loader_text s) \<le> LOADER_DIAGNOSTIC_TEXT_LIMIT"
  using floor_boundary_le by (auto simp: bound_loader_text_def min_def intro: order_trans)

lemma loader_error_finding [simp]: "finding code (loader_error code' subject msg repair) \<longleftrightarrow> code = code'"
  by (auto simp: finding_def loader_error_def bound_loader_text_length)

named_theorems malformed_findings \<open>failures of the parser are malformed manifests\<close>

lemma result_bind_finding:
  "(case x of Inl e \<Rightarrow> Inl e | Inr y \<Rightarrow> f y) = Inl e \<Longrightarrow>
     (x = Inl e \<Longrightarrow> finding c e) \<Longrightarrow> (\<And>y. x = Inr y \<Longrightarrow> f y = Inl e \<Longrightarrow> finding c e) \<Longrightarrow> finding c e"
  by (cases x) auto

lemma required_findings [malformed_findings]:
  "required_string v f p = Inl e \<Longrightarrow> finding LcMalformedManifest e"
  "required_u64 v f p = Inl e \<Longrightarrow> finding LcMalformedManifest e"
  "validate_ownership r w p = Inl e \<Longrightarrow> finding LcMalformedManifest e"
  by (auto simp: required_string_def required_u64_def validate_ownership_def split: option.splits if_splits)

lemma spelling_findings [malformed_findings]:
  "parse_export_repr v p = Inl e \<Longrightarrow> finding LcMalformedManifest e"
  "parse_export_ownership v p = Inl e \<Longrightarrow> finding LcMalformedManifest e"
  "parse_export_result_convention v p = Inl e \<Longrightarrow> finding LcMalformedManifest e"
  "parse_export_kind v p = Inl e \<Longrightarrow> finding LcMalformedManifest e"
  by (auto simp: parse_defs dest: malformed_findings split: option.splits sum.splits)

lemma collect_results_finding:
  "collect_results f xs = Inl e \<Longrightarrow> (\<And>x e. f x = Inl e \<Longrightarrow> finding c e) \<Longrightarrow> finding c e"
  by (induction xs) (auto split: sum.splits)

lemma export_arg_finding [malformed_findings]: "export_arg_from_manifest v p = Inl e \<Longrightarrow> finding LcMalformedManifest e"
  by (auto simp: export_arg_from_manifest_def dest: malformed_findings split: sum.splits)

lemma export_parts_finding [malformed_findings]:
  "export_args_from_manifest v p = Inl e \<Longrightarrow> finding LcMalformedManifest e"
  "export_return_from_manifest v p = Inl e \<Longrightarrow> finding LcMalformedManifest e"
  by (auto simp: export_args_from_manifest_def export_return_from_manifest_def
      elim!: result_bind_finding collect_results_finding dest: malformed_findings split: option.splits if_splits)

lemma signature_finding [malformed_findings]:
  "signature_from_manifest v symbol p = Inl e \<Longrightarrow> finding LcMalformedManifest e"
  by (auto simp: signature_from_manifest_def elim!: result_bind_finding dest: malformed_findings
      split: if_splits export_kind.splits)

lemma exports_loop_finding [malformed_findings]: "exports_loop p seen vs = Inl e \<Longrightarrow> finding LcMalformedManifest e"
  by (induction vs arbitrary: seen)
    (auto elim!: result_bind_finding dest: malformed_findings split: if_splits)

lemma dependency_finding [malformed_findings]:
  "dependency_from_manifest p v = Inl e \<Longrightarrow> finding LcMalformedManifest e"
  by (auto simp: dependency_from_manifest_def Let_def elim!: result_bind_finding dest: malformed_findings
      split: option.splits)

lemma lists_finding [malformed_findings]:
  "exports_from_manifest v p = Inl e \<Longrightarrow> finding LcMalformedManifest e"
  "dependencies_from_manifest v p = Inl e \<Longrightarrow> finding LcMalformedManifest e"
  by (auto simp: exports_from_manifest_def dependencies_from_manifest_def elim!: collect_results_finding
      dest: malformed_findings split: option.splits)

lemma manifest_from_value_finding:
  "manifest_from_value v p = Inl e \<Longrightarrow> finding LcMalformedManifest e \<or> finding LcUnsupportedManifestSchema e"
  by (cases "required_u64 v ''schema_version'' p"; cases "required_string v ''primary_dylib'' p";
      cases "required_string v ''package'' p"; cases "required_string v ''module'' p";
      cases "dependencies_from_manifest v p"; cases "exports_from_manifest v p")
    (auto simp: manifest_from_value_def Let_def dest: malformed_findings split: if_splits)

section \<open>Properties\<close>

definition fingerprint_accepted :: "cap_host \<Rightarrow> capability_manifest \<Rightarrow> bool" where
  "fingerprint_accepted h m \<longleftrightarrow>
     (case cm_lean_header_sha256 m of
        Some digest \<Rightarrow> digest = ch_header_digest h
      | None \<Rightarrow>
          (\<forall>version. cm_lean_version m = Some version \<longrightarrow> supported_for version \<noteq> None) \<and>
          (\<forall>resolved. cm_resolved_lean_version m = Some resolved \<longrightarrow> resolved = ch_resolved_version h))"

definition manifest_stale :: "cap_host \<Rightarrow> string \<Rightarrow> capability_manifest \<Rightarrow> bool" where
  "manifest_stale h p m \<longleftrightarrow>
     (\<exists>t t'. ch_modified h p = Some t \<and> ch_modified h (cm_primary_dylib m) = Some t' \<and> t < t')"

definition codes_if :: "bool \<Rightarrow> loader_code \<Rightarrow> loader_code list" where
  "codes_if b code = (if b then [code] else [])"

text \<open>A check appends to the findings it is given: the codes of what it appends.\<close>

definition appends :: "loader_code list \<Rightarrow> (loader_check list \<Rightarrow> loader_check list) \<Rightarrow> bool" where
  "appends codes f \<longleftrightarrow> (\<forall>checks. \<exists>new. f checks = checks @ new \<and> list_all2 finding codes new)"

lemma appends_comp: "appends cs f \<Longrightarrow> appends ds g \<Longrightarrow> appends (cs @ ds) (\<lambda>checks. g (f checks))"
  unfolding appends_def by (metis append.assoc list_all2_appendI)

lemma check_fingerprint_appends:
  "appends (codes_if (\<not> fingerprint_accepted h m) LcUnsupportedToolchainFingerprint) (check_fingerprint h m)"
  by (auto simp: appends_def codes_if_def fingerprint_accepted_def check_fingerprint_def split: option.split)

lemma check_staleness_appends: "appends (codes_if (manifest_stale h p m) LcStaleManifest) (check_staleness h p m)"
  by (auto simp: appends_def codes_if_def manifest_stale_def check_staleness_def split: option.split)

lemma appends_nothing: "appends [] (\<lambda>checks. checks)"
  by (simp add: appends_def)

lemma appends_fold: "(\<And>x. appends (cs x) (f x)) \<Longrightarrow> appends (concat (map cs xs)) (fold f xs)"
proof (induction xs)
  case (Cons x xs)
  from appends_comp [OF Cons.prems Cons.IH [OF Cons.prems]] show ?case by (simp add: comp_def)
qed (simp add: appends_nothing id_def)

lemma check_dependency_paths_appends:
  "appends (map (\<lambda>_. LcMissingTransitiveDependency) (filter (\<lambda>d. \<not> ch_is_file h (ld_path d)) (cm_dependencies m)))
     (check_dependency_paths h m)"
proof -
  have one: "appends (codes_if (\<not> ch_is_file h (ld_path d)) LcMissingTransitiveDependency) (check_dependency_path h d)"
    for d by (auto simp: appends_def codes_if_def check_dependency_path_def)
  have "map (\<lambda>_. LcMissingTransitiveDependency) (filter (\<lambda>d. \<not> ch_is_file h (ld_path d)) ds) =
      concat (map (\<lambda>d. codes_if (\<not> ch_is_file h (ld_path d)) LcMissingTransitiveDependency) ds)" for ds :: "library_dependency list"
    by (induction ds) (auto simp: codes_if_def)
  then show ?thesis
    using appends_fold [of "\<lambda>d. codes_if (\<not> ch_is_file h (ld_path d)) LcMissingTransitiveDependency"
        "check_dependency_path h" "cm_dependencies m", OF one]
    by (simp only: check_dependency_paths_def)
qed

lemma check_primary_appends:
  "appends (codes_if (\<not> ch_is_file h (cm_primary_dylib m)) LcMissingPrimaryDylib) (check_primary_dylib_present h m)"
  by (auto simp: appends_def codes_if_def check_primary_dylib_present_def)

lemma static_checks_append:
  "appends
     (codes_if (\<not> fingerprint_accepted h m) LcUnsupportedToolchainFingerprint @
      codes_if (manifest_stale h p m) LcStaleManifest @
      map (\<lambda>_. LcMissingTransitiveDependency) (filter (\<lambda>d. \<not> ch_is_file h (ld_path d)) (cm_dependencies m)) @
      codes_if (\<not> ch_is_file h (cm_primary_dylib m)) LcMissingPrimaryDylib)
     (\<lambda>checks. check_primary_dylib_present h m (check_dependency_paths h m
        (check_staleness h p m (check_fingerprint h m checks))))"
  using appends_comp [OF appends_comp [OF appends_comp [OF check_fingerprint_appends check_staleness_appends]
      check_dependency_paths_appends] check_primary_appends] by simp

lemma findings_codes: "list_all2 finding codes checks \<Longrightarrow> map lc_code checks = codes"
  by (induction rule: list_all2_induct) (auto simp: finding_def)

lemma findings_errors: "list_all2 finding codes checks \<Longrightarrow> report_is_ok \<lparr>lr_manifest_path = q, lr_checks = checks\<rparr> \<longleftrightarrow> codes = []"
  by (induction rule: list_all2_induct) (auto simp: finding_def report_is_ok_def report_errors_def)


text \<open>C26: the static check of a manifest is exact.  It lists one bounded error per failing condition, in a fixed order
  (unaccepted fingerprint, stale manifest, each missing dependency, missing primary library), or the one failure to
  read; the report is clean exactly when the manifest reads and no condition fails.
\<close>

theorem static_check_is_exact:
  "lr_manifest_path (check_static h p) = Some p \<and>
   (\<exists>codes. list_all2 finding codes (lr_checks (check_static h p)) \<and>
      (report_is_ok (check_static h p) \<longleftrightarrow> codes = []) \<and>
      (case read_manifest h p of
         Inl c \<Rightarrow> codes = [lc_code c]
       | Inr m \<Rightarrow> codes =
           codes_if (\<not> fingerprint_accepted h m) LcUnsupportedToolchainFingerprint @
           codes_if (manifest_stale h p m) LcStaleManifest @
           map (\<lambda>_. LcMissingTransitiveDependency) (filter (\<lambda>d. \<not> ch_is_file h (ld_path d)) (cm_dependencies m)) @
           codes_if (\<not> ch_is_file h (cm_primary_dylib m)) LcMissingPrimaryDylib))"
proof (cases "read_manifest h p")
  case (Inl c)
  then have "finding (lc_code c) c"
    by (auto simp: read_manifest_def finding_def loader_error_def bound_loader_text_length
        dest!: manifest_from_value_finding split: sum.splits prod.splits)
  then show ?thesis
    by (simp add: check_static_def Inl report_is_ok_def report_errors_def finding_def)
next
  case (Inr m)
  from static_checks_append [of h m p, unfolded appends_def, rule_format, of "[]"] show ?thesis
    by (auto simp: check_static_def Inr findings_errors)
qed

end
