(* ===== verification/Capability_Load.thy ===== *)
theory Capability_Load
  imports Capability_Manifest Lean_Abi
begin

text \<open>
  Loading a capability (\<open>module/\<close> of \<open>lean-rs\<close>): the initializer symbols of a Lean module, the preflight over the
  manifest and the symbol tables, libraries and bundles of them, the opened capability, and its exports with the
  calls made through them.
\<close>

section \<open>Initializer names\<close>

record initializer_name =
  in_symbol :: string
  in_legacy_symbol :: string
  in_display :: string

text \<open>\<open>Debug\<close> of a character: the escapes of ASCII, and for the rest what Unicode calls printable.\<close>

definition code_point :: "string \<Rightarrow> nat" where
  "code_point ch =
     (case map (\<lambda>c. of_char c :: nat) ch of
        [a] \<Rightarrow> a
      | [a, b] \<Rightarrow> (a mod 32) * 64 + b mod 64
      | [a, b, c] \<Rightarrow> ((a mod 16) * 64 + b mod 64) * 64 + c mod 64
      | [a, b, c, d] \<Rightarrow> (((a mod 8) * 64 + b mod 64) * 64 + c mod 64) * 64 + d mod 64
      | _ \<Rightarrow> 0)"

definition char_debug :: "(string \<Rightarrow> bool) \<Rightarrow> string \<Rightarrow> string" where
  "char_debug printable ch =
     quoted (if ch = [CHR 0x00] then [CHR 0x5C, CHR ''0'']
       else if ch = [CHR 0x09] then [CHR 0x5C, CHR ''t'']
       else if ch = [CHR 0x0D] then [CHR 0x5C, CHR ''r'']
       else if ch = [CHR 0x0A] then [CHR 0x5C, CHR ''n'']
       else if ch = [CHR 0x27] then [CHR 0x5C, CHR 0x27]
       else if ch = [CHR 0x5C] then [CHR 0x5C, CHR 0x5C]
       else if printable ch then ch
       else [CHR 0x5C] @ ''u{'' @ hex (code_point ch) @ ''}'')"

definition ascii_alphabetic :: "char \<Rightarrow> bool" where
  "ascii_alphabetic c \<longleftrightarrow> (CHR ''A'' \<le> c \<and> c \<le> CHR ''Z'') \<or> (CHR ''a'' \<le> c \<and> c \<le> CHR ''z'')"

definition ascii_digit :: "char \<Rightarrow> bool" where
  "ascii_digit c \<longleftrightarrow> CHR ''0'' \<le> c \<and> c \<le> CHR ''9''"

definition is_ident_start :: "string \<Rightarrow> bool" where
  "is_ident_start ch \<longleftrightarrow> (\<exists>c \<in> set ch. ch = [c] \<and> (c = CHR ''_'' \<or> ascii_alphabetic c))"

definition is_ident_continue :: "string \<Rightarrow> bool" where
  "is_ident_continue ch \<longleftrightarrow> (\<exists>c \<in> set ch. ch = [c] \<and> (c = CHR ''_'' \<or> ascii_alphabetic c \<or> ascii_digit c))"

definition validate_component :: "(string \<Rightarrow> bool) \<Rightarrow> string \<Rightarrow> string \<Rightarrow> lean_rs_error + unit" where
  "validate_component printable component kind =
     (case str_chars component of
        [] \<Rightarrow> Inl (linking (''invalid '' @ kind @ '': empty component''))
      | first # rest \<Rightarrow>
          if \<not> is_ident_start first
          then Inl (linking (''invalid '' @ kind @ '' '' @ quoted component @
                 '': first character must be ASCII letter or underscore''))
          else (case find (\<lambda>ch. \<not> is_ident_continue ch) rest of
                  Some ch \<Rightarrow> Inl (linking (''invalid '' @ kind @ '' '' @ quoted component @ '': character '' @
                    char_debug printable ch @ '' is not in [A-Za-z0-9_]''))
                | None \<Rightarrow> Inr ()))"

definition push_mangled :: "string \<Rightarrow> string \<Rightarrow> string" where
  "push_mangled out component = out @ concat (map (\<lambda>c. if c = CHR ''_'' then ''__'' else [c]) component)"

fun push_modern :: "(string \<Rightarrow> bool) \<Rightarrow> string \<Rightarrow> string list \<Rightarrow> lean_rs_error + string" where
  "push_modern printable mangled [] = Inr mangled"
| "push_modern printable mangled (component # components) =
     (case validate_component printable component ''module component'' of Inl e \<Rightarrow> Inl e | Inr _ \<Rightarrow>
        push_modern printable (push_mangled (mangled @ ''_'') component) components)"

fun push_legacy :: "bool \<Rightarrow> string \<Rightarrow> string list \<Rightarrow> string" where
  "push_legacy is_first legacy [] = legacy"
| "push_legacy is_first legacy (component # components) =
     push_legacy False (push_mangled (if is_first then legacy else legacy @ ''_'') component) components"

definition from_lake_names :: "(string \<Rightarrow> bool) \<Rightarrow> string \<Rightarrow> string \<Rightarrow> lean_rs_error + initializer_name" where
  "from_lake_names printable package module =
     (case validate_component printable package ''package name'' of Inl e \<Rightarrow> Inl e | Inr _ \<Rightarrow>
     (case push_modern printable (push_mangled ''initialize_'' package) (split_on (CHR ''.'') module) of
        Inl e \<Rightarrow> Inl e
      | Inr mangled \<Rightarrow>
          let legacy = push_legacy True ''initialize_'' (split_on (CHR ''.'') module) in
          if CHR 0x00 \<in> set mangled
          then Inl (linking ''internal: mangled initializer symbol contained NUL byte'')
          else if CHR 0x00 \<in> set legacy
          then Inl (linking ''internal: legacy initializer symbol contained NUL byte'')
          else Inr \<lparr>in_symbol = mangled, in_legacy_symbol = legacy,
                 in_display = package @ ''::'' @ module\<rparr>))"

section \<open>The machine a capability is loaded on\<close>

text \<open>
  The symbol table the \<open>object\<close> crate reads from a library's bytes, the dynamic loader, and the initializers of
  loaded modules.  \<open>lh_hash_order\<close> is the order in which a \<open>HashSet\<close> is iterated.
\<close>

datatype architecture = ArchX86_64 | ArchAarch64 | ArchArm | ArchI386 | ArchOther string

datatype binary_format = FormatElf | FormatMachO | FormatWasm | FormatOther

datatype section_kind =
    SectionText | SectionData | SectionReadOnlyData | SectionReadOnlyDataWithRel | SectionUninitializedData
  | SectionCommon | SectionTls | SectionUninitializedTls | SectionOther

record object_symbol =
  ob_name :: "string option"
  ob_undefined :: bool
  ob_global :: bool
  ob_section :: "section_kind option"

record object_file =
  of_architecture :: architecture
  of_format :: binary_format
  of_symbols :: "object_symbol list"
  of_dynamic_symbols :: "object_symbol list"

record loader_state =
  ls_open :: "(nat \<times> string \<times> bool) list"
  ls_next :: nat
  ls_initialized :: "(string \<times> string) list"

datatype initializer_end = InitPanicked panic_payload | InitNull | InitReturned io_result

record load_host =
  lh_cap :: cap_host
  lh_object :: "string \<Rightarrow> string + object_file"
  lh_arch :: string
  lh_hash_order :: "string set \<Rightarrow> string list"
  lh_printable :: "string \<Rightarrow> bool"
  lh_dlopen :: "loader_state \<Rightarrow> string \<Rightarrow> bool \<Rightarrow> string option"
  lh_dlsym :: "string \<Rightarrow> string \<Rightarrow> string option"
  lh_initializer :: "loader_state \<Rightarrow> string \<Rightarrow> string \<Rightarrow> initializer_end"
  lh_unix :: bool

section \<open>Symbol tables\<close>

datatype artifact_role = RolePrimary | RoleDependency

record artifact_info =
  ai_defined :: "string set"
  ai_undefined :: "string set"

fun architecture_debug :: "architecture \<Rightarrow> string" where
  "architecture_debug ArchX86_64 = ''X86_64''"
| "architecture_debug ArchAarch64 = ''Aarch64''"
| "architecture_debug ArchArm = ''Arm''"
| "architecture_debug ArchI386 = ''I386''"
| "architecture_debug (ArchOther name) = name"

definition architecture_matches_host :: "string \<Rightarrow> architecture \<Rightarrow> bool" where
  "architecture_matches_host arch a \<longleftrightarrow>
     (arch, a) \<in> {(''x86_64'', ArchX86_64), (''aarch64'', ArchAarch64), (''arm'', ArchArm), (''x86'', ArchI386)}"

definition strips_underscore :: "object_file \<Rightarrow> bool" where
  "strips_underscore f \<longleftrightarrow> of_format f = FormatMachO \<or> of_format f = FormatWasm"

definition normalise_symbol_name :: "string \<Rightarrow> bool \<Rightarrow> string" where
  "normalise_symbol_name name strip_underscore =
     (if strip_underscore then (case strip_prefix ''_'' name of Some rest \<Rightarrow> rest | None \<Rightarrow> name) else name)"

definition inspect_symbol :: "bool \<Rightarrow> object_symbol \<Rightarrow> artifact_info \<Rightarrow> artifact_info" where
  "inspect_symbol strip symbol info =
     (case ob_name symbol of
        None \<Rightarrow> info
      | Some name \<Rightarrow>
          let normalised = normalise_symbol_name name strip in
          if normalised = [] then info
          else if ob_undefined symbol then info\<lparr>ai_undefined := insert normalised (ai_undefined info)\<rparr>
          else if ob_global symbol then info\<lparr>ai_defined := insert normalised (ai_defined info)\<rparr>
          else info)"

definition missing_artifact_code :: "artifact_role \<Rightarrow> loader_code" where
  "missing_artifact_code role =
     (case role of RolePrimary \<Rightarrow> LcMissingPrimaryDylib | RoleDependency \<Rightarrow> LcMissingTransitiveDependency)"

definition missing_artifact_hint :: "artifact_role \<Rightarrow> string" where
  "missing_artifact_hint role =
     (case role of
        RolePrimary \<Rightarrow> ''rebuild the Lean capability through CargoLeanCapability and package the primary dylib''
      | RoleDependency \<Rightarrow>
          ''rebuild the Lean capability through CargoLeanCapability and package every manifest dependency'')"

definition rebuild_architecture_hint :: string where
  "rebuild_architecture_hint = ''rebuild the Lean capability for the current target architecture''"

definition inspect_artifact :: "load_host \<Rightarrow> string \<Rightarrow> artifact_role \<Rightarrow> loader_check + artifact_info" where
  "inspect_artifact h p role =
     (case ch_read (lh_cap h) p of
        Inl (missing, err) \<Rightarrow>
          Inl (loader_error (if missing then missing_artifact_code role else LcUnsupportedArchitecture) p
            (''failed to read Lean dylib '' @ quoted p @ '': '' @ err) (missing_artifact_hint role))
      | Inr bytes \<Rightarrow>
          (case lh_object h bytes of
             Inl err \<Rightarrow>
               Inl (loader_error LcUnsupportedArchitecture p
                 (''Lean dylib '' @ quoted p @ '' is not a supported native object for this platform: '' @ err)
                 rebuild_architecture_hint)
           | Inr file \<Rightarrow>
               if \<not> architecture_matches_host (lh_arch h) (of_architecture file)
               then Inl (loader_error LcUnsupportedArchitecture p
                      (''Lean dylib '' @ quoted p @ '' has architecture '' @
                        architecture_debug (of_architecture file) @ '', but this process is '' @ lh_arch h)
                      rebuild_architecture_hint)
               else Inr (fold (inspect_symbol (strips_underscore file)) (of_symbols file @ of_dynamic_symbols file)
                      \<lparr>ai_defined = {}, ai_undefined = {}\<rparr>)))"

definition is_data_section :: "section_kind \<Rightarrow> bool" where
  "is_data_section kind \<longleftrightarrow> kind \<notin> {SectionText, SectionOther}"

definition classified_global :: "bool \<Rightarrow> object_symbol \<Rightarrow> string option" where
  "classified_global strip symbol =
     (if \<not> ob_global symbol \<or> ob_undefined symbol then None
      else (case ob_section symbol of
              None \<Rightarrow> None
            | Some kind \<Rightarrow>
                if \<not> is_data_section kind then None
                else (case ob_name symbol of
                        None \<Rightarrow> None
                      | Some name \<Rightarrow>
                          let normalised = normalise_symbol_name name strip in
                          if normalised = [] then None else Some normalised)))"

definition classify_globals :: "load_host \<Rightarrow> string \<Rightarrow> lean_rs_error + string set" where
  "classify_globals h p =
     (case ch_read (lh_cap h) p of
        Inl (_, err) \<Rightarrow> Inl (module_init (''failed to read Lean library '' @ quoted p @ '': '' @ err))
      | Inr bytes \<Rightarrow>
          (case lh_object h bytes of
             Inl err \<Rightarrow> Inl (module_init (''failed to parse object file '' @ quoted p @ '': '' @ err))
           | Inr file \<Rightarrow> Inr (set (List.map_filter (classified_global (strips_underscore file)) (of_symbols file)))))"

section \<open>Preflight\<close>

definition check_initializer ::
    "load_host \<Rightarrow> capability_manifest \<Rightarrow> artifact_info \<Rightarrow> loader_check list \<Rightarrow> loader_check list" where
  "check_initializer h m primary checks =
     (case from_lake_names (lh_printable h) (cm_package m) (cm_module m) of
        Inl err \<Rightarrow>
          checks @ [loader_error LcMalformedManifest (cm_package m @ ''/'' @ cm_module m) (error_text err)
            ''rebuild the manifest with valid Lake package and module names'']
      | Inr name \<Rightarrow>
          if in_symbol name \<in> ai_defined primary \<or> in_legacy_symbol name \<in> ai_defined primary then checks
          else checks @ [loader_error LcMissingInitializer (cm_package m @ ''/'' @ cm_module m)
            (''primary dylib '' @ quoted (cm_primary_dylib m) @ '' does not export initializer '' @
              quoted (in_symbol name) @ '' or '' @ quoted (in_legacy_symbol name))
            ''check the package/module names and rebuild the Lean capability shared target''])"

definition is_lean_dependency_symbol :: "string \<Rightarrow> bool" where
  "is_lean_dependency_symbol symbol \<longleftrightarrow>
     strip_prefix ''LeanRs'' symbol \<noteq> None \<or> strip_prefix ''lean_rs_'' symbol \<noteq> None \<or>
     strip_prefix ''initialize_LeanRs'' symbol \<noteq> None"

definition check_imported_symbols ::
    "load_host \<Rightarrow> capability_manifest \<Rightarrow> artifact_info \<Rightarrow> string set \<Rightarrow> loader_check list \<Rightarrow> loader_check list" where
  "check_imported_symbols h m primary dependency_exports checks =
     (case find (\<lambda>symbol. symbol \<notin> dependency_exports)
             (filter is_lean_dependency_symbol (lh_hash_order h (ai_undefined primary))) of
        None \<Rightarrow> checks
      | Some symbol \<Rightarrow>
          checks @ [loader_error LcMissingImportedSymbol symbol
            (''primary dylib '' @ quoted (cm_primary_dylib m) @ '' imports Lean symbol '' @ quoted symbol @
              '' that is not provided by the manifest dependencies'')
            ''rebuild the Lean capability through CargoLeanCapability so dependency dylibs are recorded in the manifest''])"

text \<open>One dependency: what it exports is added, or the finding about it.\<close>

definition inspect_dependency ::
    "load_host \<Rightarrow> library_dependency \<Rightarrow> string set \<times> loader_check list \<Rightarrow> string set \<times> loader_check list" where
  "inspect_dependency h dependency acc =
     (case acc of (exports, checks) \<Rightarrow>
        (case inspect_artifact h (ld_path dependency) RoleDependency of
           Inr info \<Rightarrow> (exports \<union> ai_defined info, checks)
         | Inl check \<Rightarrow> (exports, checks @ [check])))"

definition preflight_manifest :: "load_host \<Rightarrow> string \<Rightarrow> capability_manifest \<Rightarrow> loader_check list" where
  "preflight_manifest h manifest_path m =
     (let checks0 = check_staleness (lh_cap h) manifest_path m (check_fingerprint (lh_cap h) m []);
          (dependency_exports, checks1) = fold (inspect_dependency h) (cm_dependencies m) ({}, checks0)
      in (case inspect_artifact h (cm_primary_dylib m) RolePrimary of
            Inr info \<Rightarrow>
              check_imported_symbols h m info dependency_exports (check_initializer h m info checks1)
          | Inl check \<Rightarrow> checks1 @ [check]))"

definition runtime_preflight :: "load_host \<Rightarrow> built_capability \<Rightarrow> loader_report" where
  "runtime_preflight h spec =
     (case resolved_manifest_path (lh_cap h) spec of
        Inl err \<Rightarrow>
          \<lparr>lr_manifest_path = None, lr_checks = [loader_error LcMissingManifest ''manifest'' (built_error_text err)
             ''rebuild the Lean capability through CargoLeanCapability and embed the manifest env var'']\<rparr>
      | Inr manifest_path \<Rightarrow>
          (case read_manifest (lh_cap h) manifest_path of
             Inl check \<Rightarrow> \<lparr>lr_manifest_path = Some manifest_path, lr_checks = [check]\<rparr>
           | Inr m \<Rightarrow>
               \<lparr>lr_manifest_path = Some manifest_path, lr_checks = preflight_manifest h manifest_path m\<rparr>))"

definition report_into_error :: "loader_report \<Rightarrow> lean_rs_error" where
  "report_into_error report =
     (case find (\<lambda>c. lc_severity c = SeverityError) (lr_checks report) of
        None \<Rightarrow> module_init ''Lean capability preflight failed without a recorded finding''
      | Some c \<Rightarrow>
          module_init (bound_message (loader_code_str (lc_code c) @ '': '' @ lc_message c @ ''. repair: '' @
            lc_repair_hint c)))"

definition manifest_error_to_lean_error :: "loader_check \<Rightarrow> lean_rs_error" where
  "manifest_error_to_lean_error check = report_into_error \<lparr>lr_manifest_path = None, lr_checks = [check]\<rparr>"

section \<open>Libraries\<close>

record lean_library =
  ll_handle :: nat
  ll_path :: string
  ll_globals :: "string set"

type_synonym 'a loading = "(lean_rs_error + 'a) \<times> loader_state"

definition open_library :: "load_host \<Rightarrow> bool \<Rightarrow> string \<Rightarrow> loader_state \<Rightarrow> lean_library loading" where
  "open_library h globally p ls =
     (case classify_globals h p of
        Inl e \<Rightarrow> (Inl e, ls)
      | Inr globals \<Rightarrow>
          (case lh_dlopen h ls p globally of
             Some err \<Rightarrow>
               (Inl (module_init (''failed to open Lean library '' @ quoted p @
                  (if globally \<and> lh_unix h then '' with RTLD_GLOBAL'' else []) @ '': '' @ err)), ls)
           | None \<Rightarrow>
               (Inr \<lparr>ll_handle = ls_next ls, ll_path = p, ll_globals = globals\<rparr>,
                ls\<lparr>ls_open := ls_open ls @ [(ls_next ls, p, globally)], ls_next := Suc (ls_next ls)\<rparr>)))"

text \<open>Dropping a library closes its handle.\<close>

definition drop_library :: "lean_library \<Rightarrow> loader_state \<Rightarrow> loader_state" where
  "drop_library lib ls = ls\<lparr>ls_open := filter (\<lambda>e. fst e \<noteq> ll_handle lib) (ls_open ls)\<rparr>"

definition lookup_initializer :: "load_host \<Rightarrow> lean_library \<Rightarrow> initializer_name \<Rightarrow> lean_rs_error + string" where
  "lookup_initializer h lib name =
     (case lh_dlsym h (ll_path lib) (in_symbol name) of
        None \<Rightarrow> Inr (in_symbol name)
      | Some _ \<Rightarrow>
          (case lh_dlsym h (ll_path lib) (in_legacy_symbol name) of
             None \<Rightarrow> Inr (in_legacy_symbol name)
           | Some err \<Rightarrow>
               Inl (linking (''missing initializer symbol in '' @ quoted (ll_path lib) @ '': tried '' @
                 quoted (in_symbol name) @ '' and '' @ quoted (in_legacy_symbol name) @ '': '' @ err))))"

definition call_initializer ::
    "load_host \<Rightarrow> lean_library \<Rightarrow> string \<Rightarrow> initializer_name \<Rightarrow> loader_state \<Rightarrow> unit loading" where
  "call_initializer h lib symbol name ls =
     ((case lh_initializer h ls (ll_path lib) symbol of
         InitPanicked payload \<Rightarrow> Inl (module_init_panic payload)
       | InitNull \<Rightarrow>
           Inl (module_init (''module '' @ quoted (in_display name) @ '' initializer returned a null IO result pointer''))
       | InitReturned result \<Rightarrow>
           (case decode_io result of
              Inr _ \<Rightarrow> Inr ()
            | Inl (LeanException exc) \<Rightarrow>
                Inl (module_init (''module '' @ quoted (in_display name) @ '' initializer raised: '' @ lx_message exc))
            | Inl other \<Rightarrow> Inl other)),
      ls\<lparr>ls_initialized := ls_initialized ls @ [(ll_path lib, symbol)]\<rparr>)"

definition initialize_module ::
    "load_host \<Rightarrow> lean_library \<Rightarrow> string \<Rightarrow> string \<Rightarrow> loader_state \<Rightarrow> initializer_name loading" where
  "initialize_module h lib package module ls =
     (case from_lake_names (lh_printable h) package module of
        Inl e \<Rightarrow> (Inl e, ls)
      | Inr name \<Rightarrow>
          (case lookup_initializer h lib name of
             Inl e \<Rightarrow> (Inl e, ls)
           | Inr symbol \<Rightarrow>
               (case call_initializer h lib symbol name ls of
                  (Inl e, ls1) \<Rightarrow> (Inl e, ls1)
                | (Inr _, ls1) \<Rightarrow> (Inr name, ls1))))"

section \<open>Bundles\<close>

record lean_bundle =
  lb_primary :: lean_library
  lb_dependencies :: "lean_library list"

text \<open>
  The loop over the dependencies; \<open>opened\<close> are the libraries it holds.  On a failure the library at hand and then
  the held ones are dropped.
\<close>

fun open_dependencies ::
    "load_host \<Rightarrow> lean_library list \<Rightarrow> library_dependency list \<Rightarrow> loader_state \<Rightarrow> lean_library list loading" where
  "open_dependencies h opened [] ls = (Inr opened, ls)"
| "open_dependencies h opened (dependency # dependencies) ls =
     (case open_library h (ld_exports_symbols dependency) (ld_path dependency) ls of
        (Inl e, ls1) \<Rightarrow> (Inl e, fold drop_library opened ls1)
      | (Inr lib, ls1) \<Rightarrow>
          (case ld_initializer dependency of
             None \<Rightarrow> open_dependencies h (opened @ [lib]) dependencies ls1
           | Some initializer \<Rightarrow>
               (case initialize_module h lib (mi_package initializer) (mi_module initializer) ls1 of
                  (Inl e, ls2) \<Rightarrow> (Inl e, fold drop_library opened (drop_library lib ls2))
                | (Inr _, ls2) \<Rightarrow> open_dependencies h (opened @ [lib]) dependencies ls2)))"

definition bundle_open ::
    "load_host \<Rightarrow> string \<Rightarrow> library_dependency list \<Rightarrow> loader_state \<Rightarrow> lean_bundle loading" where
  "bundle_open h primary_path dependencies ls =
     (case open_dependencies h [] dependencies ls of
        (Inl e, ls1) \<Rightarrow> (Inl e, ls1)
      | (Inr opened, ls1) \<Rightarrow>
          (case open_library h False primary_path ls1 of
             (Inl e, ls2) \<Rightarrow> (Inl e, fold drop_library opened ls2)
           | (Inr primary, ls2) \<Rightarrow> (Inr \<lparr>lb_primary = primary, lb_dependencies = opened\<rparr>, ls2)))"

text \<open>Fields are dropped in their order: the primary library first.\<close>

definition drop_bundle :: "lean_bundle \<Rightarrow> loader_state \<Rightarrow> loader_state" where
  "drop_bundle b ls = fold drop_library (lb_dependencies b) (drop_library (lb_primary b) ls)"

section \<open>Capabilities\<close>

record lean_capability =
  lp_bundle :: lean_bundle
  lp_package :: string
  lp_module :: string
  lp_signatures :: "(string \<times> export_signature) list"

text \<open>Collecting pairs into a \<open>HashMap\<close>: the last one of a symbol stays.\<close>

definition collect_signatures :: "export_signature list \<Rightarrow> (string \<times> export_signature) list" where
  "collect_signatures sigs = rev (map (\<lambda>s. (es_symbol s, s)) sigs)"

definition open_with_dependencies_and_exports ::
    "load_host \<Rightarrow> string \<Rightarrow> string \<Rightarrow> string \<Rightarrow> library_dependency list \<Rightarrow> export_signature list \<Rightarrow> loader_state
     \<Rightarrow> lean_capability loading" where
  "open_with_dependencies_and_exports h dylib_path package module dependencies sigs ls =
     (case bundle_open h dylib_path dependencies ls of
        (Inl e, ls1) \<Rightarrow> (Inl e, ls1)
      | (Inr b, ls1) \<Rightarrow>
          (case initialize_module h (lb_primary b) package module ls1 of
             (Inl e, ls2) \<Rightarrow> (Inl e, drop_bundle b ls2)
           | (Inr _, ls2) \<Rightarrow>
               (Inr \<lparr>lp_bundle = b, lp_package = package, lp_module = module,
                  lp_signatures = collect_signatures sigs\<rparr>, ls2)))"

definition open_capability_at :: "load_host \<Rightarrow> string \<Rightarrow> string \<Rightarrow> string \<Rightarrow> loader_state \<Rightarrow> lean_capability loading" where
  "open_capability_at h dylib_path package module ls =
     open_with_dependencies_and_exports h dylib_path package module [] [] ls"

definition open_with_dependencies ::
    "load_host \<Rightarrow> string \<Rightarrow> string \<Rightarrow> string \<Rightarrow> library_dependency list \<Rightarrow> loader_state \<Rightarrow> lean_capability loading" where
  "open_with_dependencies h dylib_path package module dependencies ls =
     open_with_dependencies_and_exports h dylib_path package module dependencies [] ls"

definition built_capability_error_to_lean_error :: "built_capability_error \<Rightarrow> lean_rs_error" where
  "built_capability_error_to_lean_error err = module_init (built_error_text err)"

text \<open>The manifest is read twice: \<open>h\<close> is the machine during the preflight, \<open>h'\<close> from the second reading on.\<close>

definition from_build_manifest ::
    "load_host \<Rightarrow> load_host \<Rightarrow> built_capability \<Rightarrow> loader_state \<Rightarrow> lean_capability loading" where
  "from_build_manifest h h' spec ls =
     (let report = runtime_preflight h spec in
      if \<not> report_is_ok report then (Inl (report_into_error report), ls)
      else (case resolved_manifest_path (lh_cap h') spec of
              Inl err \<Rightarrow> (Inl (built_capability_error_to_lean_error err), ls)
            | Inr manifest_path \<Rightarrow>
                (case read_manifest (lh_cap h') manifest_path of
                   Inl check \<Rightarrow> (Inl (manifest_error_to_lean_error check), ls)
                 | Inr m \<Rightarrow>
                     open_with_dependencies_and_exports h' (cm_primary_dylib m) (cm_package m) (cm_module m)
                       (cm_dependencies m) (cm_exports m) ls)))"

definition from_build_env :: "load_host \<Rightarrow> built_capability \<Rightarrow> loader_state \<Rightarrow> lean_capability loading" where
  "from_build_env h spec ls =
     (case built_dylib_path (lh_cap h) spec of
        Inl err \<Rightarrow> (Inl (built_capability_error_to_lean_error err), ls)
      | Inr dylib_path \<Rightarrow>
          (case bc_package spec of
             None \<Rightarrow>
               (Inl (linking (''LeanBuiltCapability is missing the Lake package name; call '' @
                  backquoted ''.package(...)'')), ls)
           | Some package \<Rightarrow>
               (case bc_module spec of
                  None \<Rightarrow>
                    (Inl (linking (''LeanBuiltCapability is missing the root Lean module name; call '' @
                       backquoted ''.module(...)'')), ls)
                | Some module \<Rightarrow>
                    open_with_dependencies_and_exports h dylib_path package module (bc_dependencies spec) [] ls)))"

definition capability_module :: "load_host \<Rightarrow> lean_capability \<Rightarrow> loader_state \<Rightarrow> initializer_name loading" where
  "capability_module h c ls = initialize_module h (lb_primary (lp_bundle c)) (lp_package c) (lp_module c) ls"

section \<open>Exports\<close>

text \<open>
  The C representation \<open>LeanAbi\<close> gives each type, and the slots of a call.  A value in a slot is an object, an
  unboxed number of its representation, or the result of an \<open>IO\<close> action.
\<close>

datatype c_value = CObject lobj | CScalar abi_repr int | CIo io_result

datatype return_type = ReturnPure abi_type | ReturnIo abi_type

primrec c_repr :: "abi_type \<Rightarrow> abi_repr" where
  "c_repr TyUnit = ReprObject"
| "c_repr TyBool = ReprU8"
| "c_repr (TySmall is_signed w) =
     (case w of
        W8 \<Rightarrow> if is_signed then ReprI8 else ReprU8
      | W16 \<Rightarrow> if is_signed then ReprI16 else ReprU16
      | W32 \<Rightarrow> if is_signed then ReprI32 else ReprU32)"
| "c_repr (TyWide is_signed pointer_sized) =
     (if pointer_sized then (if is_signed then ReprISize else ReprUSize)
      else (if is_signed then ReprI64 else ReprU64))"
| "c_repr TyF64 = ReprF64"
| "c_repr TyChar = ReprU32"
| "c_repr TyString = ReprObject"
| "c_repr (TyOption t) = ReprObject"
| "c_repr (TyExcept e t) = ReprObject"
| "c_repr (TyPair a b) = ReprObject"
| "c_repr (TyTriple a b c) = ReprObject"
| "c_repr (TyArray t) = ReprObject"

definition ownership_for_repr :: "abi_repr \<Rightarrow> export_ownership" where
  "ownership_for_repr repr = (if repr = ReprObject then OwnershipOwned else OwnershipNone)"

definition export_abi_arg_for :: "abi_type \<Rightarrow> arg_abi" where
  "export_abi_arg_for t = \<lparr>aa_repr = c_repr t, aa_ownership = ownership_for_repr (c_repr t)\<rparr>"

fun export_abi_return :: "return_type \<Rightarrow> return_abi" where
  "export_abi_return (ReturnPure t) =
     \<lparr>ra_repr = c_repr t, ra_ownership = ownership_for_repr (c_repr t), ra_convention = ConventionPure\<rparr>"
| "export_abi_return (ReturnIo t) =
     \<lparr>ra_repr = ReprObject, ra_ownership = OwnershipOwned, ra_convention = ConventionIo\<rparr>"

fun expects_io_result :: "return_type \<Rightarrow> bool" where
  "expects_io_result (ReturnPure t) = False"
| "expects_io_result (ReturnIo t) = True"

datatype callable_target = TargetFunction string string | TargetGlobal string string

record lean_exported =
  le_target :: callable_target
  le_args :: "abi_type list"
  le_return :: return_type

definition resolve_function_symbol :: "load_host \<Rightarrow> lean_library \<Rightarrow> string \<Rightarrow> lean_rs_error + unit" where
  "resolve_function_symbol h lib name =
     (case lh_dlsym h (ll_path lib) name of
        None \<Rightarrow> Inr ()
      | Some err \<Rightarrow>
          Inl (symbol_lookup (''unknown exported symbol '' @ quoted name @ '' in '' @ quoted (ll_path lib) @ '': '' @ err)))"

definition resolve_global_symbol :: "load_host \<Rightarrow> lean_library \<Rightarrow> string \<Rightarrow> lean_rs_error + unit" where
  "resolve_global_symbol h lib name =
     (case lh_dlsym h (ll_path lib) name of
        None \<Rightarrow> Inr ()
      | Some err \<Rightarrow>
          Inl (symbol_lookup (''unknown global symbol '' @ quoted name @ '' in '' @ quoted (ll_path lib) @ '': '' @ err)))"

definition exported_unchecked ::
    "load_host \<Rightarrow> lean_library \<Rightarrow> abi_type list \<Rightarrow> return_type \<Rightarrow> string \<Rightarrow> lean_rs_error + lean_exported" where
  "exported_unchecked h lib args ret name =
     (if name \<in> ll_globals lib
      then (if args \<noteq> []
            then Inl (symbol_lookup (''exported symbol '' @ quoted name @ '' in '' @ quoted (ll_path lib) @
                   '' is a Lean nullary-constant global, not a function; look it up with '' @
                   backquoted ''exported_unchecked::<(), R>(name)'' @ '' instead (lookup arity is '' @
                   decimal (length args) @ '')''))
            else if expects_io_result ret
            then Inl (symbol_lookup (''exported symbol '' @ quoted name @ '' in '' @ quoted (ll_path lib) @
                   '' is a Lean nullary-constant global; '' @ backquoted ''LeanIo<_>'' @
                   '' does not apply (Lean does not compile globals as IO-returning)''))
            else (case resolve_global_symbol h lib name of
                    Inl e \<Rightarrow> Inl e
                  | Inr _ \<Rightarrow>
                      Inr \<lparr>le_target = TargetGlobal (ll_path lib) name, le_args = args, le_return = ret\<rparr>))
      else (case resolve_function_symbol h lib name of
              Inl e \<Rightarrow> Inl e
            | Inr _ \<Rightarrow> Inr \<lparr>le_target = TargetFunction (ll_path lib) name, le_args = args, le_return = ret\<rparr>))"

datatype checked_export_error =
    MissingSignatureMetadata string
  | SignatureMismatch string export_signature export_signature
  | SymbolKindMismatch string export_kind export_kind
  | MissingSymbol string lean_rs_error
  | ModuleFailed lean_rs_error

definition expected_signature :: "export_kind \<Rightarrow> abi_type list \<Rightarrow> return_type \<Rightarrow> string \<Rightarrow> export_signature" where
  "expected_signature kind args ret name =
     (if kind = ExportGlobal \<and> args = [] \<and> \<not> expects_io_result ret
      then signature_global name (export_abi_return ret)
      else signature_function name (map export_abi_arg_for args) (export_abi_return ret))"

definition checked_export ::
    "load_host \<Rightarrow> lean_capability \<Rightarrow> abi_type list \<Rightarrow> return_type \<Rightarrow> string \<Rightarrow> loader_state
     \<Rightarrow> (checked_export_error + lean_exported) \<times> loader_state" where
  "checked_export h c args ret name ls =
     (case map_of (lp_signatures c) name of
        None \<Rightarrow> (Inl (MissingSignatureMetadata name), ls)
      | Some manifest \<Rightarrow>
          let expected = expected_signature (es_kind manifest) args ret name;
              lib = lb_primary (lp_bundle c);
              actual_kind = (if name \<in> ll_globals lib then ExportGlobal else ExportFunction)
          in if expected \<noteq> manifest then (Inl (SignatureMismatch name expected manifest), ls)
             else if es_kind manifest \<noteq> actual_kind
             then (Inl (SymbolKindMismatch name (es_kind manifest) actual_kind), ls)
             else (case capability_module h c ls of
                     (Inl e, ls1) \<Rightarrow> (Inl (ModuleFailed e), ls1)
                   | (Inr _, ls1) \<Rightarrow>
                       (case exported_unchecked h lib args ret name of
                          Inl source \<Rightarrow> (Inl (MissingSymbol name source), ls1)
                        | Inr handle \<Rightarrow> (Inr handle, ls1))))"

section \<open>Calls\<close>

text \<open>\<open>LeanAbi::into_c\<close> and \<open>from_c\<close>.\<close>

definition value_into_c :: "abi_type \<Rightarrow> abi_value \<Rightarrow> c_value" where
  "value_into_c t v =
     (case t of
        TyBool \<Rightarrow> CScalar ReprU8 (if the_bool v then 1 else 0)
      | TySmall _ _ \<Rightarrow> CScalar (c_repr t) (the_int v)
      | TyWide _ _ \<Rightarrow> CScalar (c_repr t) (the_int v)
      | TyF64 \<Rightarrow> CScalar ReprF64 (int (the_code v))
      | TyChar \<Rightarrow> CScalar ReprU32 (int (the_code v))
      | _ \<Rightarrow> CObject (value_into_lean t v))"

definition scalar_from_c :: "abi_type \<Rightarrow> int \<Rightarrow> abi_value decoded" where
  "scalar_from_c t n =
     (case t of
        TyBool \<Rightarrow> (if n = 0 then Inr (VBool False) else if n = 1 then Inr (VBool True) else Inl (out_of_range ''bool''))
      | TyF64 \<Rightarrow> Inr (VCode (nat n))
      | TyChar \<Rightarrow>
          (if is_unicode_scalar (nat n) then Inr (VCode (nat n))
           else Inl (conversion_error (''Lean char 0x'' @ hex (nat n) @ '' is not a Unicode scalar value'')))
      | _ \<Rightarrow> Inr (VInt n))"

text \<open>
  What a library holds under a symbol: code with the representations it was compiled for, or a variable.  A call whose
  slots differ from those, a global that is not an object, and an object read where a scalar is wanted, are undefined
  behaviour.
\<close>

datatype compiled_symbol =
    CompiledFunction "abi_repr list" abi_repr bool "c_value list \<Rightarrow> c_value"
  | CompiledGlobal abi_repr c_value

datatype call_end = CallReturned "abi_value decoded" | CallUndefined

definition decode_c :: "(lobj \<Rightarrow> nat \<Rightarrow> nat) \<Rightarrow> return_type \<Rightarrow> c_value \<Rightarrow> call_end" where
  "decode_c mem ret c =
     (case (ret, c) of
        (ReturnPure t, CObject x) \<Rightarrow>
          (if c_repr t = ReprObject then CallReturned (value_from_lean mem t x) else CallUndefined)
      | (ReturnPure t, CScalar repr n) \<Rightarrow>
          (if c_repr t = repr \<and> repr \<noteq> ReprObject then CallReturned (scalar_from_c t n) else CallUndefined)
      | (ReturnIo t, CIo result) \<Rightarrow> CallReturned (decode_io_as (value_from_lean mem t) result)
      | _ \<Rightarrow> CallUndefined)"

definition call_exported ::
    "(lobj \<Rightarrow> nat \<Rightarrow> nat) \<Rightarrow> (string \<Rightarrow> string \<Rightarrow> compiled_symbol option) \<Rightarrow> lean_exported \<Rightarrow> abi_value list \<Rightarrow> call_end" where
  "call_exported mem code handle vs =
     (case le_target handle of
        TargetFunction p name \<Rightarrow>
          (case code p name of
             Some (CompiledFunction reprs result is_io run) \<Rightarrow>
               (if map c_repr (le_args handle) = reprs \<and>
                   result = ra_repr (export_abi_return (le_return handle)) \<and> is_io = expects_io_result (le_return handle)
                then decode_c mem (le_return handle) (run (map2 value_into_c (le_args handle) vs))
                else CallUndefined)
           | _ \<Rightarrow> CallUndefined)
      | TargetGlobal p name \<Rightarrow>
          (case code p name of
             Some (CompiledGlobal ReprObject content) \<Rightarrow> decode_c mem (le_return handle) content
           | _ \<Rightarrow> CallUndefined))"

section \<open>Initializer symbols identify modules\<close>

definition ident_char :: "char \<Rightarrow> bool" where
  "ident_char c \<longleftrightarrow> c = CHR ''_'' \<or> ascii_alphabetic c \<or> ascii_digit c"

definition lake_name :: "string \<Rightarrow> bool" where
  "lake_name s \<longleftrightarrow> s \<noteq> [] \<and> \<not> ascii_digit (hd s) \<and> (\<forall>c \<in> set s. ident_char c)"

definition mangle :: "string \<Rightarrow> string" where
  "mangle s = concat (map (\<lambda>c. if c = CHR ''_'' then ''__'' else [c]) s)"

definition mangled_parts :: "string list \<Rightarrow> string" where
  "mangled_parts ks = concat (map (\<lambda>k. CHR ''_'' # mangle k) ks)"

lemma ident_char_ascii: "ident_char c \<Longrightarrow> (of_char c :: nat) < 128"
  by (auto simp: ident_char_def ascii_alphabetic_def ascii_digit_def less_eq_char_def)

lemma ascii_digit_alphabetic: "ascii_digit c \<Longrightarrow> \<not> ascii_alphabetic c" "ascii_digit c \<Longrightarrow> c \<noteq> CHR ''_''"
  by (auto simp: ascii_alphabetic_def ascii_digit_def less_eq_char_def)

lemma str_chars_single: "\<forall>c \<in> set s. \<not> continuation_byte c \<Longrightarrow> str_chars s = map (\<lambda>c. [c]) s"
proof (induction s)
  case (Cons c s)
  then have "takeWhile continuation_byte s = []" "dropWhile continuation_byte s = s" by (cases s; simp)+
  with Cons show ?case by simp
qed simp

lemma concat_str_chars: "concat (str_chars s) = s"
  by (induction s rule: str_chars.induct) simp_all

lemma validate_component_ok: "validate_component pr component kind = Inr u \<longleftrightarrow> lake_name component"
proof
  assume "validate_component pr component kind = Inr u"
  then obtain ch rest where chars: "str_chars component = ch # rest" and first: "is_ident_start ch"
      and rest: "\<forall>ch \<in> set rest. is_ident_continue ch"
    by (auto simp: validate_component_def find_None_iff split: list.splits if_splits option.splits)
  from first obtain c where ch: "ch = [c]" "c = CHR ''_'' \<or> ascii_alphabetic c" by (auto simp: is_ident_start_def)
  from chars ch have s: "component = c # concat rest" using concat_str_chars [of component] by simp
  have "\<forall>d \<in> set (concat rest). ident_char d" using rest by (auto simp: is_ident_continue_def ident_char_def)
  with s ch(2) show "lake_name component"
    using ascii_digit_alphabetic by (auto simp: lake_name_def ident_char_def)
next
  assume name: "lake_name component"
  then have "str_chars component = map (\<lambda>c. [c]) component"
    by (intro str_chars_single) (auto simp: lake_name_def continuation_byte_def dest!: ident_char_ascii)
  moreover obtain c s where c: "component = c # s" using name by (cases component) (auto simp: lake_name_def)
  moreover have "find (\<lambda>ch. \<not> is_ident_continue ch) (map (\<lambda>c. [c]) s) = None"
    using name c by (auto simp: find_None_iff is_ident_continue_def lake_name_def ident_char_def)
  moreover have "is_ident_start [c]" using name c by (auto simp: is_ident_start_def lake_name_def ident_char_def)
  ultimately show "validate_component pr component kind = Inr u" by (simp add: validate_component_def)
qed

lemma push_mangled: "push_mangled out k = out @ mangle k"
  by (simp add: push_mangled_def mangle_def)

lemma push_modern_ok: "push_modern pr out ks = Inr s \<longleftrightarrow> (\<forall>k \<in> set ks. lake_name k) \<and> s = out @ mangled_parts ks"
proof (induction ks arbitrary: out)
  case (Cons k ks)
  show ?case by (auto simp: result_bind_ok validate_component_ok Cons.IH push_mangled mangled_parts_def)
qed (auto simp: mangled_parts_def)

lemma push_legacy_parts:
  "push_legacy False out ks = out @ mangled_parts ks"
  "ks \<noteq> [] \<Longrightarrow> push_legacy True out ks = out @ tl (mangled_parts ks)"
proof -
  show rest: "push_legacy False out ks = out @ mangled_parts ks" for out ks
    by (induction ks arbitrary: out) (simp_all add: push_mangled mangled_parts_def)
  show "ks \<noteq> [] \<Longrightarrow> push_legacy True out ks = out @ tl (mangled_parts ks)"
    by (cases ks) (simp_all add: rest push_mangled mangled_parts_def)
qed

lemma mangle_chars: "set (mangle s) = set s"
  by (induction s) (auto simp: mangle_def)

lemma mangled_parts_chars: "set (mangled_parts ks) = (\<Union>k \<in> set ks. insert (CHR ''_'') (set k))"
  by (auto simp: mangled_parts_def mangle_chars)

lemma set_tl: "set (tl xs) \<subseteq> set xs"
  by (cases xs) auto

lemma ident_char_constants:
  "ident_char (CHR ''_'')" "\<not> ident_char (CHR 0x00)" "\<forall>c \<in> set ''initialize_''. ident_char c"
  by (simp_all add: ident_char_def ascii_alphabetic_def ascii_digit_def less_eq_char_def)

lemma from_lake_names_ok:
  "from_lake_names pr package module = Inr n \<longleftrightarrow>
     lake_name package \<and> (\<forall>k \<in> set (split_on (CHR ''.'') module). lake_name k) \<and>
     n = \<lparr>in_symbol = ''initialize_'' @ mangle package @ mangled_parts (split_on (CHR ''.'') module),
          in_legacy_symbol = ''initialize_'' @ tl (mangled_parts (split_on (CHR ''.'') module)),
          in_display = package @ ''::'' @ module\<rparr>"
proof -
  let ?ks = "split_on (CHR ''.'') module"
  have nul: "CHR 0x00 \<notin> set (''initialize_'' @ mangle package @ mangled_parts ?ks)"
      "CHR 0x00 \<notin> set (''initialize_'' @ tl (mangled_parts ?ks))"
    if "lake_name package" "\<forall>k \<in> set ?ks. lake_name k"
  proof -
    have z: "CHR 0x00 \<notin> set k" if "lake_name k" for k
      using that ident_char_constants(2) by (auto simp: lake_name_def)
    have parts: "CHR 0x00 \<notin> set (mangled_parts ?ks)" using that(2) z by (auto simp: mangled_parts_chars)
    then show "CHR 0x00 \<notin> set (''initialize_'' @ mangle package @ mangled_parts ?ks)"
      using z [OF that(1)] by (simp add: mangle_chars)
    from parts show "CHR 0x00 \<notin> set (''initialize_'' @ tl (mangled_parts ?ks))"
      using set_tl [of "mangled_parts ?ks"] by auto
  qed
  show ?thesis
  proof (cases "lake_name package \<and> (\<forall>k \<in> set ?ks. lake_name k)")
    case True
    then have "push_modern pr (push_mangled ''initialize_'' package) ?ks =
        Inr (''initialize_'' @ mangle package @ mangled_parts ?ks)"
      using push_modern_ok [of pr "push_mangled ''initialize_'' package" ?ks] by (simp add: push_mangled)
    moreover have "validate_component pr package ''package name'' = Inr ()" using True by (simp add: validate_component_ok)
    ultimately show ?thesis using True nul by (auto simp: from_lake_names_def push_legacy_parts)
  next
    case False
    then show ?thesis
      by (auto simp: from_lake_names_def result_bind_ok validate_component_ok push_modern_ok)
  qed
qed

text \<open>Reading a mangled name back: a doubled underscore stands for itself, a single one ends a component.\<close>

definition glue :: "char \<Rightarrow> string list \<Rightarrow> string list" where
  "glue c ps = (c # hd ps) # tl ps"

fun demangle :: "string \<Rightarrow> string list" where
  "demangle [] = [[]]"
| "demangle [c] = (if c = CHR ''_'' then [[], []] else [[c]])"
| "demangle (c # d # s) =
     (if c = CHR ''_'' then (if d = CHR ''_'' then glue c (demangle s) else [] # demangle (d # s))
      else glue c (demangle (d # s)))"

lemma demangle_nonempty [simp]: "demangle s \<noteq> []"
  by (induction s rule: demangle.induct) (auto simp: glue_def)

lemma demangle_plain: "c \<noteq> CHR ''_'' \<Longrightarrow> demangle (c # s) = glue c (demangle s)"
  by (cases s) (auto simp: glue_def)

lemma demangle_mangle: "demangle (mangle k @ r) = (k @ hd (demangle r)) # tl (demangle r)"
proof (induction k)
  case (Cons c k)
  then show ?case by (cases "c = CHR ''_''") (simp_all add: mangle_def demangle_plain glue_def)
qed (simp add: mangle_def)

lemma demangle_parts:
  "\<forall>k \<in> set ks. k \<noteq> [] \<and> hd k \<noteq> CHR ''_'' \<Longrightarrow> demangle (mangle p @ mangled_parts ks) = p # ks"
proof (induction ks arbitrary: p)
  case (Cons k ks)
  then obtain c k' where k: "k = c # k'" "c \<noteq> CHR ''_''" by (cases k) auto
  then have m: "mangle k = c # mangle k'" by (simp add: mangle_def)
  have "demangle (mangled_parts (k # ks)) = [] # demangle (mangle k @ mangled_parts ks)"
    using k(2) by (simp add: mangled_parts_def m)
  also have "\<dots> = [] # k # ks" using Cons by simp
  finally show ?case by (simp add: demangle_mangle)
next
  case Nil
  show ?case using demangle_mangle [of p "[]"] by (simp add: mangled_parts_def)
qed


lemma underscored_modules_collide:
  "\<exists>n n'. from_lake_names pr ''a_'' ''B'' = Inr n \<and> from_lake_names pr ''a'' ''_B'' = Inr n' \<and> in_symbol n = in_symbol n'"
  by (simp add: from_lake_names_ok lake_name_def ident_char_def ascii_alphabetic_def ascii_digit_def less_eq_char_def
      mangle_def mangled_parts_def)

section \<open>What a clean preflight means\<close>

lemma inspect_artifact_finding:
  "inspect_artifact h p role = Inl c \<Longrightarrow> \<exists>code. finding code c"
  by (auto simp: inspect_artifact_def split: sum.splits if_splits)

lemma appends_nil: "appends codes f \<Longrightarrow> f [] = [] \<longleftrightarrow> codes = []"
  unfolding appends_def by (metis append_Nil list_all2_Nil list_all2_Nil2)

text \<open>The checks that append depending on what was read: what they append has some codes.\<close>

definition sound_findings :: "loader_check list \<Rightarrow> bool" where
  "sound_findings checks \<longleftrightarrow> (\<forall>c \<in> set checks. \<exists>code. finding code c)"

lemma sound_findings_report: "sound_findings (lr_checks r) \<Longrightarrow> report_is_ok r \<longleftrightarrow> lr_checks r = []"
proof -
  assume "sound_findings (lr_checks r)"
  then have "filter (\<lambda>c. lc_severity c = SeverityError) (lr_checks r) = lr_checks r"
    by (auto simp: sound_findings_def finding_def filter_id_conv)
  then show ?thesis by (simp add: report_is_ok_def report_errors_def)
qed

lemma appends_sound: "appends codes f \<Longrightarrow> sound_findings checks \<Longrightarrow> sound_findings (f checks)"
proof -
  assume f: "appends codes f" and c: "sound_findings checks"
  from f obtain new where new: "f checks = checks @ new" "list_all2 finding codes new" by (auto simp: appends_def)
  from new(2) have "\<forall>c \<in> set new. \<exists>code. finding code c" by (induction rule: list_all2_induct) auto
  with new(1) c show ?thesis by (auto simp: sound_findings_def)
qed

lemma check_initializer_sound: "sound_findings checks \<Longrightarrow> sound_findings (check_initializer h m info checks)"
  by (auto simp: check_initializer_def sound_findings_def split: sum.split)

lemma check_imported_symbols_sound:
  "sound_findings checks \<Longrightarrow> sound_findings (check_imported_symbols h m info exports checks)"
  by (auto simp: check_imported_symbols_def sound_findings_def split: option.split)

lemma check_imported_symbols_nil:
  assumes "set (lh_hash_order h (ai_undefined info)) = ai_undefined info"
  shows "check_imported_symbols h m info exports checks = [] \<longleftrightarrow>
     checks = [] \<and> (\<forall>symbol \<in> ai_undefined info. is_lean_dependency_symbol symbol \<longrightarrow> symbol \<in> exports)"
proof -
  have "find (\<lambda>symbol. symbol \<notin> exports) (filter is_lean_dependency_symbol (lh_hash_order h (ai_undefined info))) = None \<longleftrightarrow>
      (\<forall>symbol \<in> ai_undefined info. is_lean_dependency_symbol symbol \<longrightarrow> symbol \<in> exports)"
    using assms by (auto simp: find_None_iff)
  then show ?thesis by (auto simp: check_imported_symbols_def split: option.split)
qed

lemma check_initializer_nil:
  "check_initializer h m info checks = [] \<longleftrightarrow>
     checks = [] \<and> (\<exists>n. from_lake_names (lh_printable h) (cm_package m) (cm_module m) = Inr n \<and>
       (in_symbol n \<in> ai_defined info \<or> in_legacy_symbol n \<in> ai_defined info))"
  by (auto simp: check_initializer_def split: sum.split)

definition dependency_exports :: "load_host \<Rightarrow> library_dependency list \<Rightarrow> string set" where
  "dependency_exports h ds =
     (\<Union>d \<in> set ds. case inspect_artifact h (ld_path d) RoleDependency of Inr info \<Rightarrow> ai_defined info | Inl _ \<Rightarrow> {})"

lemma inspect_dependencies_fold:
  "fold (inspect_dependency h) ds (exports, checks) =
     (exports \<union> dependency_exports h ds,
      checks @ List.map_filter (\<lambda>d. case inspect_artifact h (ld_path d) RoleDependency of
         Inl c \<Rightarrow> Some c | Inr _ \<Rightarrow> None) ds)"
proof (induction ds arbitrary: exports checks)
  case (Cons d ds)
  have step: "inspect_dependency h d (exports, checks) =
      (case inspect_artifact h (ld_path d) RoleDependency of
         Inr info \<Rightarrow> (exports \<union> ai_defined info, checks) | Inl check \<Rightarrow> (exports, checks @ [check]))"
    by (simp add: inspect_dependency_def)
  show ?case
    by (cases "inspect_artifact h (ld_path d) RoleDependency")
      (auto simp: step Cons.IH dependency_exports_def map_filter_simps)
qed (simp add: dependency_exports_def map_filter_simps)

lemma dependency_findings_nil:
  "List.map_filter (\<lambda>d. case inspect_artifact h (ld_path d) RoleDependency of Inl c \<Rightarrow> Some c | Inr _ \<Rightarrow> None) ds = [] \<longleftrightarrow>
     (\<forall>d \<in> set ds. \<exists>info. inspect_artifact h (ld_path d) RoleDependency = Inr info)"
proof (induction ds)
  case (Cons d ds)
  then show ?case by (cases "inspect_artifact h (ld_path d) RoleDependency") (simp_all add: map_filter_simps)
qed (simp add: map_filter_simps)

lemma static_part_nil:
  "check_staleness h p m (check_fingerprint h m []) = [] \<longleftrightarrow> fingerprint_accepted h m \<and> \<not> manifest_stale h p m"
proof -
  have "appends (codes_if (\<not> fingerprint_accepted h m) LcUnsupportedToolchainFingerprint @
      codes_if (manifest_stale h p m) LcStaleManifest) (\<lambda>checks. check_staleness h p m (check_fingerprint h m checks))"
    by (rule appends_comp [OF check_fingerprint_appends check_staleness_appends])
  from appends_nil [OF this] show ?thesis by (simp add: codes_if_def)
qed

text \<open>The manifest is usable on this machine: what the preflight is there to find out.\<close>

definition manifest_loads :: "load_host \<Rightarrow> string \<Rightarrow> capability_manifest \<Rightarrow> bool" where
  "manifest_loads h p m \<longleftrightarrow>
     fingerprint_accepted (lh_cap h) m \<and> \<not> manifest_stale (lh_cap h) p m \<and>
     (\<forall>d \<in> set (cm_dependencies m). \<exists>info. inspect_artifact h (ld_path d) RoleDependency = Inr info) \<and>
     (\<exists>info. inspect_artifact h (cm_primary_dylib m) RolePrimary = Inr info \<and>
        (\<exists>n. from_lake_names (lh_printable h) (cm_package m) (cm_module m) = Inr n \<and>
           (in_symbol n \<in> ai_defined info \<or> in_legacy_symbol n \<in> ai_defined info)) \<and>
        (\<forall>symbol \<in> ai_undefined info. is_lean_dependency_symbol symbol \<longrightarrow>
           symbol \<in> dependency_exports h (cm_dependencies m)))"

lemma preflight_manifest_sound: "sound_findings (preflight_manifest h p m)"
proof -
  have s: "sound_findings (check_staleness (lh_cap h) p m (check_fingerprint (lh_cap h) m []))"
    by (intro appends_sound [OF check_staleness_appends] appends_sound [OF check_fingerprint_appends])
      (simp add: sound_findings_def)
  have d: "sound_findings (check_staleness (lh_cap h) p m (check_fingerprint (lh_cap h) m []) @
      List.map_filter (\<lambda>d. case inspect_artifact h (ld_path d) RoleDependency of Inl c \<Rightarrow> Some c | Inr _ \<Rightarrow> None) ds)" for ds
    using s inspect_artifact_finding
    by (auto simp: sound_findings_def List.map_filter_def split: sum.splits)
  show ?thesis
  proof (cases "inspect_artifact h (cm_primary_dylib m) RolePrimary")
    case (Inl c)
    with d [of "cm_dependencies m"] inspect_artifact_finding [OF Inl] show ?thesis
      by (auto simp: preflight_manifest_def inspect_dependencies_fold sound_findings_def)
  next
    case (Inr info)
    with d [of "cm_dependencies m"] show ?thesis
      by (simp add: preflight_manifest_def inspect_dependencies_fold check_imported_symbols_sound check_initializer_sound)
  qed
qed

lemma preflight_manifest_nil:
  assumes order: "\<forall>A. finite A \<longrightarrow> set (lh_hash_order h A) = A"
    and finite: "\<forall>info. inspect_artifact h (cm_primary_dylib m) RolePrimary = Inr info \<longrightarrow> finite (ai_undefined info)"
  shows "preflight_manifest h p m = [] \<longleftrightarrow> manifest_loads h p m"
proof (cases "inspect_artifact h (cm_primary_dylib m) RolePrimary")
  case (Inl c)
  then show ?thesis by (simp add: preflight_manifest_def inspect_dependencies_fold manifest_loads_def)
next
  case (Inr info)
  with order finite have o: "set (lh_hash_order h (ai_undefined info)) = ai_undefined info" by blast
  show ?thesis
    by (auto simp: preflight_manifest_def inspect_dependencies_fold Inr check_imported_symbols_nil [OF o]
        check_initializer_nil dependency_findings_nil static_part_nil manifest_loads_def)
qed

lemma inspect_finite: "inspect_artifact h p role = Inr info \<Longrightarrow> finite (ai_undefined info)"
proof -
  have step: "finite (ai_undefined i) \<Longrightarrow> finite (ai_undefined (inspect_symbol b s i))" for b s i
    by (auto simp: inspect_symbol_def Let_def split: option.split)
  have "finite (ai_undefined i) \<Longrightarrow> finite (ai_undefined (fold (inspect_symbol b) ss i))" for b ss i
    by (induction ss arbitrary: i) (auto simp: step)
  then show "inspect_artifact h p role = Inr info \<Longrightarrow> ?thesis"
    by (auto simp: inspect_artifact_def split: sum.splits if_splits prod.splits)
qed

lemma report_error_first: "\<not> report_is_ok r \<Longrightarrow> sound_findings (lr_checks r) \<Longrightarrow>
    \<exists>c rest. lr_checks r = c # rest \<and> lc_severity c = SeverityError"
  by (cases "lr_checks r") (auto simp: report_is_ok_def report_errors_def sound_findings_def finding_def)

lemma preflight_sound: "sound_findings (lr_checks (runtime_preflight h spec))"
proof -
  have r: "\<exists>code. finding code c" if "read_manifest h' p = Inl c" for h' p c
    using that by (auto simp: read_manifest_def dest!: manifest_from_value_finding split: sum.splits prod.splits)
  show ?thesis
    using preflight_manifest_sound
    by (auto simp: runtime_preflight_def sound_findings_def dest: r split: sum.split)
qed

lemma runtime_preflight_ok:
  assumes "\<forall>A. finite A \<longrightarrow> set (lh_hash_order h A) = A"
  shows "report_is_ok (runtime_preflight h spec) \<longleftrightarrow>
      (\<exists>p m. resolved_manifest_path (lh_cap h) spec = Inr p \<and> read_manifest (lh_cap h) p = Inr m \<and>
         manifest_loads h p m)"
proof -
  have ok: "report_is_ok (runtime_preflight h spec) \<longleftrightarrow> lr_checks (runtime_preflight h spec) = []"
    by (rule sound_findings_report [OF preflight_sound])
  have nil: "preflight_manifest h p m = [] \<longleftrightarrow> manifest_loads h p m" for p m
    using assms inspect_finite by (intro preflight_manifest_nil) blast+
  show ?thesis
    unfolding ok by (auto simp: runtime_preflight_def nil split: sum.split)
qed


section \<open>Opening is all or nothing\<close>

definition handles_fresh :: "loader_state \<Rightarrow> bool" where
  "handles_fresh ls \<longleftrightarrow> (\<forall>e \<in> set (ls_open ls). fst e < ls_next ls)"

definition opened_entry :: "library_dependency \<Rightarrow> lean_library \<Rightarrow> nat \<times> string \<times> bool" where
  "opened_entry d lib = (ll_handle lib, ld_path d, ld_exports_symbols d)"

lemma open_library_result:
  "open_library h globally p ls = (r, ls') \<Longrightarrow>
     (case r of
        Inl e \<Rightarrow> ls' = ls
      | Inr lib \<Rightarrow> ll_handle lib = ls_next ls \<and> ll_path lib = p \<and> classify_globals h p = Inr (ll_globals lib) \<and>
          ls' = ls\<lparr>ls_open := ls_open ls @ [(ls_next ls, p, globally)], ls_next := Suc (ls_next ls)\<rparr>)"
  by (auto simp: open_library_def split: sum.splits option.splits)

lemma initialize_module_result:
  "initialize_module h lib package module ls = (r, ls') \<Longrightarrow>
     ls_open ls' = ls_open ls \<and> ls_next ls' = ls_next ls \<and>
     (\<forall>n. r = Inr n \<longrightarrow> from_lake_names (lh_printable h) package module = Inr n \<and>
        map fst (ls_initialized ls') = map fst (ls_initialized ls) @ [ll_path lib])"
  by (auto simp: initialize_module_def call_initializer_def split: sum.splits prod.splits)

lemma drop_libraries_open:
  "ls_open (fold drop_library libs ls) = filter (\<lambda>e. fst e \<notin> ll_handle ` set libs) (ls_open ls)"
  by (induction libs arbitrary: ls) (auto simp: drop_library_def intro!: filter_cong)

lemma drop_libraries_next: "ls_next (fold drop_library libs ls) = ls_next ls"
  by (induction libs arbitrary: ls) (auto simp: drop_library_def)

lemma drop_fresh:
  "handles_fresh ls \<Longrightarrow> (\<And>lib. lib \<in> set libs \<Longrightarrow> ls_next ls \<le> ll_handle lib) \<Longrightarrow>
     filter (\<lambda>e. fst e \<notin> ll_handle ` set libs) (ls_open ls) = ls_open ls"
  by (fastforce simp: handles_fresh_def filter_id_conv)

text \<open>What the loop over the dependencies has done when it returns, started on no libraries in \<open>ls0\<close>.\<close>

definition opened_since :: "loader_state \<Rightarrow> library_dependency list \<Rightarrow> lean_library list \<Rightarrow> loader_state \<Rightarrow> bool" where
  "opened_since ls0 ds libs ls \<longleftrightarrow>
     length libs = length ds \<and> ls_open ls = ls_open ls0 @ map2 opened_entry ds libs \<and>
     (\<forall>lib \<in> set libs. ls_next ls0 \<le> ll_handle lib \<and> ll_handle lib < ls_next ls) \<and> ls_next ls0 \<le> ls_next ls \<and>
     map fst (ls_initialized ls) =
       map fst (ls_initialized ls0) @ map ld_path (filter (\<lambda>d. ld_initializer d \<noteq> None) ds)"

lemma opened_since_dropped:
  assumes "handles_fresh ls0" and "opened_since ls0 ds libs ls1" and "ls_open ls2 = ls_open ls1"
  shows "ls_open (fold drop_library libs ls2) = ls_open ls0"
proof -
  have "filter (\<lambda>e. fst e \<notin> ll_handle ` set libs) (map2 opened_entry ds libs) = []"
    by (auto simp: filter_empty_conv opened_entry_def dest: set_zip_rightD)
  moreover have "filter (\<lambda>e. fst e \<notin> ll_handle ` set libs) (ls_open ls0) = ls_open ls0"
    using assms(1,2) by (intro drop_fresh) (auto simp: opened_since_def)
  ultimately show ?thesis
    using assms(2,3) by (simp add: drop_libraries_open opened_since_def)
qed

lemma opened_since_fresh: "opened_since ls0 ds libs ls \<Longrightarrow> handles_fresh ls0 \<Longrightarrow> handles_fresh ls"
proof -
  assume s: "opened_since ls0 ds libs ls" and f: "handles_fresh ls0"
  have "fst e < ls_next ls" if "e \<in> set (map2 opened_entry ds libs)" for e
  proof -
    from that obtain d l where "(d, l) \<in> set (zip ds libs)" "e = opened_entry d l" by auto
    then have "l \<in> set libs" "fst e = ll_handle l" by (auto simp: opened_entry_def dest: set_zip_rightD)
    with s show ?thesis by (simp add: opened_since_def)
  qed
  moreover have "fst e < ls_next ls" if "e \<in> set (ls_open ls0)" for e
    using that s f by (fastforce simp: handles_fresh_def opened_since_def)
  moreover have "set (ls_open ls) = set (ls_open ls0) \<union> set (map2 opened_entry ds libs)"
    using s by (simp only: opened_since_def set_append)
  ultimately show ?thesis unfolding handles_fresh_def by blast
qed

lemma filter_fresh_handle: "handles_fresh ls \<Longrightarrow> filter (\<lambda>e. fst e \<noteq> ls_next ls) (ls_open ls) = ls_open ls"
  by (fastforce simp: handles_fresh_def filter_id_conv)

lemma open_dependencies_result:
  assumes "handles_fresh ls0" and "opened_since ls0 done opened ls"
    and "open_dependencies h opened ds ls = (r, ls')"
  shows "case r of
      Inl e \<Rightarrow> ls_open ls' = ls_open ls0 \<and> ls_next ls0 \<le> ls_next ls'
    | Inr libs \<Rightarrow> opened_since ls0 (done @ ds) libs ls'"
  using assms(2,3)
proof (induction ds arbitrary: "done" opened ls)
  case (Cons d ds)
  obtain r1 ls1 where o: "open_library h (ld_exports_symbols d) (ld_path d) ls = (r1, ls1)" by fastforce
  note or = open_library_result [OF o]
  show ?case
  proof (cases r1)
    case (Inl e)
    with or o Cons.prems opened_since_dropped [OF assms(1) Cons.prems(1), of ls] show ?thesis
      by (auto simp: drop_libraries_next opened_since_def)
  next
    case (Inr lib)
    have entry: "(ls_next ls, ld_path d, ld_exports_symbols d) = opened_entry d lib"
      using or Inr by (simp add: opened_entry_def)
    have one: "opened_since ls0 (done @ [d]) (opened @ [lib]) ls2"
      if "ls_open ls2 = ls_open ls1" "ls_next ls2 = ls_next ls1"
        "map fst (ls_initialized ls2) = map fst (ls_initialized ls) @ (if ld_initializer d = None then [] else [ld_path d])"
      for ls2
      using Cons.prems(1) or Inr that by (auto simp: opened_since_def entry)
    show ?thesis
    proof (cases "ld_initializer d")
      case None
      have "opened_since ls0 (done @ [d]) (opened @ [lib]) ls1"
        using or Inr None by (intro one) simp_all
      from Cons.IH [OF this] Cons.prems(2) o Inr None show ?thesis by (simp split: sum.splits)
    next
      case (Some i)
      obtain r2 ls2 where m: "initialize_module h lib (mi_package i) (mi_module i) ls1 = (r2, ls2)" by fastforce
      note mr = initialize_module_result [OF m]
      show ?thesis
      proof (cases r2)
        case (Inl e)
        have l: "ls_open ls1 = ls_open ls @ [(ls_next ls, ld_path d, ld_exports_symbols d)]" "ll_handle lib = ls_next ls"
          using or \<open>r1 = Inr lib\<close> by simp_all
        have "filter (\<lambda>e. fst e \<noteq> ll_handle lib) (ls_open ls) = ls_open ls"
          using filter_fresh_handle [OF opened_since_fresh [OF Cons.prems(1) assms(1)]] l(2) by simp
        then have "ls_open (drop_library lib ls2) = ls_open ls" using mr l by (simp add: drop_library_def)
        from opened_since_dropped [OF assms(1) Cons.prems(1) this] Cons.prems o \<open>r1 = Inr lib\<close> Some m Inl mr or
        show ?thesis by (auto simp: drop_libraries_next drop_library_def opened_since_def)
      next
        case (Inr n)
        have "opened_since ls0 (done @ [d]) (opened @ [lib]) ls2"
          using mr Inr or \<open>r1 = Inr lib\<close> Some by (intro one) simp_all
        from Cons.IH [OF this] Cons.prems(2) o \<open>r1 = Inr lib\<close> Some m Inr show ?thesis by (simp split: sum.splits)
      qed
    qed
  qed
qed auto

definition requested_loads :: "library_dependency list \<Rightarrow> string \<Rightarrow> (string \<times> bool) list" where
  "requested_loads ds p = map (\<lambda>d. (ld_path d, ld_exports_symbols d)) ds @ [(p, False)]"

definition requested_initializers :: "library_dependency list \<Rightarrow> string \<Rightarrow> string list" where
  "requested_initializers ds p = map ld_path (filter (\<lambda>d. ld_initializer d \<noteq> None) ds) @ [p]"

text \<open>What opening did: all of it, to be undone by dropping the bundle, or nothing that stays.\<close>

fun all_or_nothing :: "loader_state \<Rightarrow> library_dependency list \<Rightarrow> string \<Rightarrow> lean_capability loading \<Rightarrow> bool" where
  "all_or_nothing ls ds p (Inl e, ls') \<longleftrightarrow> ls_open ls' = ls_open ls"
| "all_or_nothing ls ds p (Inr c, ls') \<longleftrightarrow>
     map snd (ls_open ls') = map snd (ls_open ls) @ requested_loads ds p \<and>
     map fst (ls_initialized ls') = map fst (ls_initialized ls) @ requested_initializers ds p \<and>
     ll_path (lb_primary (lp_bundle c)) = p \<and> ls_open (drop_bundle (lp_bundle c) ls') = ls_open ls"

lemma opening_all_or_nothing:
  assumes fresh: "handles_fresh ls"
  shows "all_or_nothing ls ds p (open_with_dependencies_and_exports h p package module ds sigs ls)"
proof -
  obtain r1 ls1 where d: "open_dependencies h [] ds ls = (r1, ls1)" by fastforce
  have "opened_since ls [] [] ls" by (simp add: opened_since_def)
  from open_dependencies_result [OF fresh this d]
  have dr: "case r1 of Inl e \<Rightarrow> ls_open ls1 = ls_open ls \<and> ls_next ls \<le> ls_next ls1 | Inr libs \<Rightarrow> opened_since ls ds libs ls1"
    by (simp split: sum.splits)
  show ?thesis
  proof (cases r1)
    case (Inl e)
    with d dr show ?thesis by (simp add: open_with_dependencies_and_exports_def bundle_open_def)
  next
    case (Inr libs)
    with dr have since: "opened_since ls ds libs ls1" by simp
    obtain r2 ls2 where o: "open_library h False p ls1 = (r2, ls2)" by fastforce
    note or = open_library_result [OF o]
    show ?thesis
    proof (cases r2)
      case (Inl e)
      with or have "ls_open ls2 = ls_open ls1" by simp
      from opened_since_dropped [OF fresh since this] Inl o d \<open>r1 = Inr libs\<close> show ?thesis
        by (simp add: open_with_dependencies_and_exports_def bundle_open_def)
    next
      case (Inr primary)
      let ?b = "\<lparr>lb_primary = primary, lb_dependencies = libs\<rparr>"
      have b: "bundle_open h p ds ls = (Inr ?b, ls2)"
        using d o Inr \<open>r1 = Inr libs\<close> by (simp add: bundle_open_def)
      obtain r3 ls3 where m: "initialize_module h primary package module ls2 = (r3, ls3)" by fastforce
      note mr = initialize_module_result [OF m]
      have l: "ls_open ls2 = ls_open ls1 @ [(ls_next ls1, p, False)]" "ll_handle primary = ls_next ls1" "ll_path primary = p"
          "ls_initialized ls2 = ls_initialized ls1"
        using or Inr by simp_all
      have "filter (\<lambda>e. fst e \<noteq> ll_handle primary) (ls_open ls1) = ls_open ls1"
        using filter_fresh_handle [OF opened_since_fresh [OF since fresh]] l(2) by simp
      then have "ls_open (drop_library primary ls3) = ls_open ls1" using mr l by (simp add: drop_library_def)
      from opened_since_dropped [OF fresh since this]
      have dropped: "ls_open (drop_bundle ?b ls3) = ls_open ls" by (simp add: drop_bundle_def)
      show ?thesis
      proof (cases r3)
        case (Inl e)
        with b m dropped show ?thesis by (simp add: open_with_dependencies_and_exports_def)
      next
        case (Inr n)
        have entries: "length libs = length ds \<Longrightarrow>
            map snd (map2 opened_entry ds libs) = map (\<lambda>d. (ld_path d, ld_exports_symbols d)) ds"
          by (induction ds libs rule: list_induct2') (auto simp: opened_entry_def)
        from since entries l mr Inr
        have "map snd (ls_open ls3) = map snd (ls_open ls) @ requested_loads ds p \<and>
            map fst (ls_initialized ls3) = map fst (ls_initialized ls) @ requested_initializers ds p"
          by (simp add: opened_since_def requested_loads_def requested_initializers_def)
        with b m Inr dropped l(3) show ?thesis by (simp add: open_with_dependencies_and_exports_def)
      qed
    qed
  qed
qed

text \<open>C22: opening a capability by its manifest is all or nothing.  It opens every dependency in the manifest's order, visible
  to later libraries where the manifest says so and initialized where it names an initializer, then the primary
  library, and initializes that; dropping the capability closes exactly what was opened, and any failure leaves no
  library open.  It succeeds only if the preflight found the manifest usable, and keeps for each symbol its signature.
\<close>

theorem capability_opens_all_or_nothing:
  assumes "handles_fresh ls" and "\<forall>A. finite A \<longrightarrow> set (lh_hash_order h A) = A"
    and "from_build_manifest h h' spec ls = (r, ls')"
  shows "case r of
      Inl e \<Rightarrow> ls_open ls' = ls_open ls
    | Inr c \<Rightarrow> (\<exists>q m0. resolved_manifest_path (lh_cap h) spec = Inr q \<and> read_manifest (lh_cap h) q = Inr m0 \<and>
          manifest_loads h q m0) \<and>
        (\<exists>q m. resolved_manifest_path (lh_cap h') spec = Inr q \<and> read_manifest (lh_cap h') q = Inr m \<and>
          all_or_nothing ls (cm_dependencies m) (cm_primary_dylib m) (Inr c, ls') \<and>
          lp_package c = cm_package m \<and> lp_module c = cm_module m \<and>
          (\<forall>s \<in> set (cm_exports m). map_of (lp_signatures c) (es_symbol s) = Some s))"
proof (cases "report_is_ok (runtime_preflight h spec)")
  case False
  with assms(3) show ?thesis by (auto simp: from_build_manifest_def)
next
  case True
  note ok = True [unfolded runtime_preflight_ok [OF assms(2)]]
  show ?thesis
  proof (cases r)
    case (Inl e)
    with assms(3) True opening_all_or_nothing [OF assms(1)] show ?thesis
      by (auto simp: from_build_manifest_def split: sum.splits) (metis all_or_nothing.simps(1))
  next
    case (Inr c)
    with assms(3) True obtain q m where q: "resolved_manifest_path (lh_cap h') spec = Inr q"
        "read_manifest (lh_cap h') q = Inr m"
      and o: "open_with_dependencies_and_exports h' (cm_primary_dylib m) (cm_package m) (cm_module m)
          (cm_dependencies m) (cm_exports m) ls = (Inr c, ls')"
      by (auto simp: from_build_manifest_def split: sum.splits)
    have c: "lp_package c = cm_package m" "lp_module c = cm_module m" "lp_signatures c = collect_signatures (cm_exports m)"
      using o by (auto simp: open_with_dependencies_and_exports_def split: prod.splits sum.splits)
    have ok_m: "manifest_ok m" using q(2) by (auto simp: read_manifest_def intro: manifest_sound split: sum.splits)
    have "map_of (collect_signatures sigs) (es_symbol s) = Some s"
      if "distinct (map es_symbol sigs)" "s \<in> set sigs" for sigs s
    proof (rule map_of_is_SomeI)
      show "distinct (map fst (collect_signatures sigs))"
        using that(1) by (simp add: collect_signatures_def comp_def flip: rev_map)
    qed (use that(2) in \<open>auto simp: collect_signatures_def\<close>)
    with ok_m c(3) have "\<forall>s \<in> set (cm_exports m). map_of (lp_signatures c) (es_symbol s) = Some s"
      by (simp add: manifest_ok_def)
    with q c ok Inr opening_all_or_nothing [OF assms(1), of "cm_dependencies m" "cm_primary_dylib m" h' "cm_package m"
        "cm_module m" "cm_exports m"] o show ?thesis by auto
  qed
qed

section \<open>Checked exports are what the manifest says\<close>

lemma c_repr_scalar: "c_repr t \<noteq> ReprObject \<longleftrightarrow> (\<exists>sg w. t = TySmall sg w) \<or> (\<exists>sg p. t = TyWide sg p) \<or> t \<in> {TyBool, TyF64, TyChar}"
  by (cases t) (auto split: int_width.split)

text \<open>The values a slot of a representation can hold.\<close>

fun in_slot :: "abi_repr \<Rightarrow> c_value \<Rightarrow> bool" where
  "in_slot repr (CObject x) \<longleftrightarrow> repr = ReprObject"
| "in_slot repr (CScalar repr' n) \<longleftrightarrow> repr = repr' \<and> repr \<noteq> ReprObject"
| "in_slot repr (CIo r) \<longleftrightarrow> False"

lemma value_into_c_slot: "in_slot (c_repr t) (value_into_c t v)"
  by (cases t) (auto simp: value_into_c_def split: int_width.split)

text \<open>The value of a pure result, and of an \<open>IO\<close> result.\<close>

definition slot_value :: "(lobj \<Rightarrow> nat \<Rightarrow> nat) \<Rightarrow> return_type \<Rightarrow> c_value \<Rightarrow> abi_value decoded" where
  "slot_value mem ret c =
     (case (ret, c) of
        (ReturnPure t, CObject x) \<Rightarrow> value_from_lean mem t x
      | (ReturnPure t, CScalar repr n) \<Rightarrow> scalar_from_c t n
      | (ReturnIo t, CIo result) \<Rightarrow> decode_io_as (value_from_lean mem t) result
      | _ \<Rightarrow> Inl (conversion_error ''''))"

definition returns_in_slot :: "return_type \<Rightarrow> c_value \<Rightarrow> bool" where
  "returns_in_slot ret c \<longleftrightarrow> (case ret of ReturnPure t \<Rightarrow> in_slot (c_repr t) c | ReturnIo t \<Rightarrow> (\<exists>r. c = CIo r))"

lemma decode_c_defined: "returns_in_slot ret c \<Longrightarrow> decode_c mem ret c = CallReturned (slot_value mem ret c)"
  by (cases ret; cases c) (auto simp: returns_in_slot_def decode_c_def slot_value_def)

text \<open>A value that is passed to code and handed straight back is read back.\<close>

lemma c_round_trip: "has_type t v \<Longrightarrow> slot_value mem (ReturnPure t) (value_into_c t v) = Inr v"
  using codec.round_trip [OF value_codec, of t v mem]
  by (cases t) (auto simp: slot_value_def value_into_c_def scalar_from_c_def split: if_splits)

text \<open>
  The manifest tells the truth about a library: what it declares for a symbol is how the symbol was compiled, and
  compiled code returns in the slot it was compiled for.
\<close>

definition declares_truly :: "compiled_symbol \<Rightarrow> export_signature \<Rightarrow> bool" where
  "declares_truly symbol s \<longleftrightarrow>
     (case symbol of
        CompiledFunction reprs result is_io run \<Rightarrow>
          es_kind s = ExportFunction \<and> map aa_repr (es_args s) = reprs \<and> ra_repr (es_result s) = result \<and>
          is_io = (ra_convention (es_result s) = ConventionIo) \<and>
          (\<forall>vs. if is_io then \<exists>r. run vs = CIo r else in_slot result (run vs))
      | CompiledGlobal repr content \<Rightarrow>
          es_kind s = ExportGlobal \<and> ra_repr (es_result s) = repr \<and> in_slot repr content)"

lemma expected_signature_function:
  "expected_signature (es_kind s) args ret name = s \<Longrightarrow> es_kind s = ExportFunction \<Longrightarrow>
     es_args s = map export_abi_arg_for args \<and> es_result s = export_abi_return ret \<and> es_symbol s = name"
  by (auto simp: expected_signature_def signature_function_def split: if_splits)

lemma expected_signature_global:
  "expected_signature (es_kind s) args ret name = s \<Longrightarrow> es_kind s = ExportGlobal \<Longrightarrow>
     args = [] \<and> \<not> expects_io_result ret \<and> es_args s = [] \<and> es_result s = export_abi_return ret \<and> es_symbol s = name"
proof -
  assume *: "expected_signature (es_kind s) args ret name = s" "es_kind s = ExportGlobal"
  show ?thesis
  proof (cases "args = [] \<and> \<not> expects_io_result ret")
    case True
    then have "expected_signature (es_kind s) args ret name = signature_global name (export_abi_return ret)"
      using *(2) by (simp add: expected_signature_def)
    with * True show ?thesis by (metis export_signature.select_convs signature_global_def)
  next
    case False
    then have "es_kind (expected_signature (es_kind s) args ret name) = ExportFunction"
      by (auto simp: expected_signature_def signature_function_def)
    with * show ?thesis by simp
  qed
qed

lemma checked_export_ok:
  "checked_export h c args ret name ls = (Inr handle, ls') \<Longrightarrow>
     \<exists>s. map_of (lp_signatures c) name = Some s \<and> expected_signature (es_kind s) args ret name = s \<and>
       (es_kind s = ExportGlobal \<longleftrightarrow> name \<in> ll_globals (lb_primary (lp_bundle c))) \<and>
       (\<exists>n. capability_module h c ls = (Inr n, ls')) \<and>
       lh_dlsym h (ll_path (lb_primary (lp_bundle c))) name = None \<and> le_args handle = args \<and> le_return handle = ret \<and>
       le_target handle = (if es_kind s = ExportGlobal then TargetGlobal else TargetFunction)
         (ll_path (lb_primary (lp_bundle c))) name"
proof -
  assume *: "checked_export h c args ret name ls = (Inr handle, ls')"
  then obtain s where s: "map_of (lp_signatures c) name = Some s"
    by (auto simp: checked_export_def split: option.splits)
  have "expected_signature (es_kind s) args ret name = s"
      and kind: "es_kind s = (if name \<in> ll_globals (lb_primary (lp_bundle c)) then ExportGlobal else ExportFunction)"
      and "\<exists>n. capability_module h c ls = (Inr n, ls')"
      and u: "exported_unchecked h (lb_primary (lp_bundle c)) args ret name = Inr handle"
    using * s by (auto simp: checked_export_def Let_def split: if_splits sum.splits prod.splits)
  moreover have "lh_dlsym h (ll_path (lb_primary (lp_bundle c))) name = None \<and> le_args handle = args \<and>
      le_return handle = ret \<and> le_target handle = (if es_kind s = ExportGlobal then TargetGlobal else TargetFunction)
         (ll_path (lb_primary (lp_bundle c))) name"
    using u kind by (auto simp: exported_unchecked_def resolve_global_symbol_def resolve_function_symbol_def
        split: option.splits if_splits sum.splits)
  ultimately show ?thesis using s by auto
qed

lemma returns_by_signature:
  "in_slot (ra_repr (export_abi_return ret)) c \<Longrightarrow> \<not> expects_io_result ret \<Longrightarrow> returns_in_slot ret c"
  by (cases ret) (auto simp: returns_in_slot_def)

text \<open>C23: a checked export is called as it was compiled.  The lookup succeeds only for the exact signature the manifest
  declares, of a symbol the library has, as the kind the library has it; and where the manifest tells the truth about
  the library and declares no global of an unboxed type, every call through the handle is defined and returns the decoding
  of what the code gave for the encoded arguments.
\<close>

theorem checked_calls_are_defined:
  assumes "checked_export h c args ret name ls = (Inr handle, ls')"
    and "code (ll_path (lb_primary (lp_bundle c))) name = Some symbol"
    and "\<forall>s. map_of (lp_signatures c) name = Some s \<longrightarrow>
           declares_truly symbol s \<and> (es_kind s = ExportGlobal \<longrightarrow> ra_repr (es_result s) = ReprObject)"
  shows "\<exists>s. map_of (lp_signatures c) name = Some s \<and> expected_signature (es_kind s) args ret name = s \<and>
    (case symbol of
       CompiledFunction reprs result is_io run \<Rightarrow>
         reprs = map c_repr args \<and> (\<forall>v vs. map2 value_into_c args vs = v \<longrightarrow>
           call_exported mem code handle vs = CallReturned (slot_value mem ret (run v)))
     | CompiledGlobal repr content \<Rightarrow>
         args = [] \<and> (\<forall>vs. call_exported mem code handle vs = CallReturned (slot_value mem ret content)))"
proof -
  from checked_export_ok [OF assms(1)] obtain s where s: "map_of (lp_signatures c) name = Some s"
      "expected_signature (es_kind s) args ret name = s"
    and h: "le_args handle = args" "le_return handle = ret"
      "le_target handle = (if es_kind s = ExportGlobal then TargetGlobal else TargetFunction)
         (ll_path (lb_primary (lp_bundle c))) name" by blast
  from assms(3) s(1) have truth: "declares_truly symbol s" "es_kind s = ExportGlobal \<longrightarrow> ra_repr (es_result s) = ReprObject"
    by blast+
  have "case symbol of
       CompiledFunction reprs result is_io run \<Rightarrow>
         reprs = map c_repr args \<and> (\<forall>v vs. map2 value_into_c args vs = v \<longrightarrow>
           call_exported mem code handle vs = CallReturned (slot_value mem ret (run v)))
     | CompiledGlobal repr content \<Rightarrow>
         args = [] \<and> (\<forall>vs. call_exported mem code handle vs = CallReturned (slot_value mem ret content))"
  proof (cases symbol)
    case (CompiledFunction reprs result is_io run)
    with truth(1) have k: "es_kind s = ExportFunction" "map aa_repr (es_args s) = reprs" "ra_repr (es_result s) = result"
        "is_io = (ra_convention (es_result s) = ConventionIo)"
        "\<And>vs. if is_io then \<exists>r. run vs = CIo r else in_slot result (run vs)"
      by (simp_all add: declares_truly_def)
    from expected_signature_function [OF s(2) k(1)]
    have e: "es_args s = map export_abi_arg_for args" "es_result s = export_abi_return ret" by simp_all
    have reprs: "reprs = map c_repr args" using k(2) e(1) by (auto simp: export_abi_arg_for_def)
    have io: "is_io = expects_io_result ret" using k(4) e(2) by (cases ret) simp_all
    have "returns_in_slot ret (run vs)" for vs
      using k(3) k(5) [of vs] e(2) io by (cases ret) (auto simp: returns_in_slot_def)
    then show ?thesis
      using CompiledFunction assms(2) h k(1,3) e(2) reprs io by (simp add: call_exported_def decode_c_defined)
  next
    case (CompiledGlobal repr content)
    with truth have k: "es_kind s = ExportGlobal" "ra_repr (es_result s) = ReprObject" "repr = ReprObject"
        "in_slot repr content" by (simp_all add: declares_truly_def)
    from expected_signature_global [OF s(2) k(1)]
    have e: "args = []" "\<not> expects_io_result ret" "es_result s = export_abi_return ret" by simp_all
    have "returns_in_slot ret content" using k e by (intro returns_by_signature) simp_all
    then show ?thesis
      using CompiledGlobal assms(2) h k e by (simp add: call_exported_def decode_c_defined)
  qed
  with s show ?thesis by blast
qed

section \<open>A capability\<close>

definition sample_identity :: export_signature where
  "sample_identity = signature_function ''cap_id'' [export_abi_arg_for TyString] (export_abi_return (ReturnPure TyString))"

definition sample_byte :: export_signature where
  "sample_byte = signature_global ''cap_byte'' (export_abi_return (ReturnPure (TySmall False W8)))"

definition sample_document :: jvalue where
  "sample_document = json_object
     [(''schema_version'', JNat 2), (''package'', JString ''p''), (''module'', JString ''C''),
      (''primary_dylib'', JString ''lib.so''), (''lean_header_sha256'', JString ''00''),
      (''exports'', JArray [signature_to_json sample_identity, signature_to_json sample_byte])]"

definition sample_cap_manifest :: capability_manifest where
  "sample_cap_manifest =
     \<lparr>cm_primary_dylib = ''lib.so'', cm_package = ''p'', cm_module = ''C'', cm_dependencies = [],
      cm_lean_version = None, cm_resolved_lean_version = None, cm_lean_header_sha256 = Some ''00'',
      cm_exports = [sample_identity, sample_byte]\<rparr>"

definition sample_cap_host :: cap_host where
  "sample_cap_host =
     \<lparr>ch_read = (\<lambda>p. if p = ''m.json'' then Inr ''M'' else if p = ''lib.so'' then Inr ''L'' else Inl (True, ''absent'')),
      ch_modified = (\<lambda>_. Some 0), ch_is_file = (\<lambda>p. p = ''lib.so''), ch_env = (\<lambda>_. None),
      ch_parse_json = (\<lambda>s. if s = ''M'' then Inr sample_document else Inl ''expected value''),
      ch_header_digest = ''00'', ch_lean_version = ''4.31.0'', ch_resolved_version = ''4.31.0''\<rparr>"

definition sample_symbol :: "string \<Rightarrow> section_kind \<Rightarrow> object_symbol" where
  "sample_symbol name kind = \<lparr>ob_name = Some name, ob_undefined = False, ob_global = True, ob_section = Some kind\<rparr>"

definition sample_dylib :: object_file where
  "sample_dylib =
     \<lparr>of_architecture = ArchX86_64, of_format = FormatElf,
      of_symbols = [sample_symbol ''initialize_p_C'' SectionText, sample_symbol ''cap_id'' SectionText,
        sample_symbol ''cap_byte'' SectionData],
      of_dynamic_symbols = []\<rparr>"

definition sample_load_host :: load_host where
  "sample_load_host =
     \<lparr>lh_cap = sample_cap_host, lh_object = (\<lambda>_. Inr sample_dylib), lh_arch = ''x86_64'',
      lh_hash_order = sorted_list_of_set, lh_printable = (\<lambda>_. True), lh_dlopen = (\<lambda>_ _ _. None),
      lh_dlsym = (\<lambda>_ _. None), lh_initializer = (\<lambda>_ _ _. InitReturned (IoOk (Boxed 0))), lh_unix = True\<rparr>"

definition sample_library :: lean_library where
  "sample_library = \<lparr>ll_handle = 0, ll_path = ''lib.so'', ll_globals = {''cap_byte''}\<rparr>"

definition sample_capability :: lean_capability where
  "sample_capability =
     \<lparr>lp_bundle = \<lparr>lb_primary = sample_library, lb_dependencies = []\<rparr>, lp_package = ''p'', lp_module = ''C'',
      lp_signatures = collect_signatures [sample_identity, sample_byte]\<rparr>"

definition fresh_loader :: loader_state where
  "fresh_loader = \<lparr>ls_open = [], ls_next = 0, ls_initialized = []\<rparr>"

definition opened_loader :: loader_state where
  "opened_loader = \<lparr>ls_open = [(0, ''lib.so'', False)], ls_next = 1, ls_initialized = [(''lib.so'', ''initialize_p_C'')]\<rparr>"

lemmas sample_defs = sample_identity_def sample_byte_def sample_document_def sample_cap_manifest_def sample_cap_host_def
  sample_symbol_def sample_dylib_def sample_load_host_def sample_library_def sample_capability_def fresh_loader_def
  opened_loader_def

lemma sample_signatures_ok: "signature_ok sample_identity" "signature_ok sample_byte"
  by (simp_all add: sample_defs signature_function_def signature_global_def signature_ok_def slot_ok_def
      export_abi_arg_for_def ownership_for_repr_def)

lemma sample_exports:
  "exports_loop q [] [signature_to_json sample_identity, signature_to_json sample_byte] = Inr [sample_identity, sample_byte]"
proof -
  have sym: "required_string (signature_to_json s) ''symbol'' q = Inr (es_symbol s)" if "signature_ok s" for s
    using that by (simp add: required_string_ok signature_to_json_def signature_ok_def)
  have sig: "signature_from_manifest (signature_to_json s) (es_symbol s) q = Inr s" if "signature_ok s" for s
    using that by (simp add: signature_reads_back)
  show ?thesis
    unfolding exports_loop_ok
    using sym [OF sample_signatures_ok(1)] sym [OF sample_signatures_ok(2)] sig [OF sample_signatures_ok(1)]
      sig [OF sample_signatures_ok(2)]
    by auto (simp_all add: sample_identity_def sample_byte_def signature_function_def signature_global_def)
qed

lemma sample_manifest_reads: "read_manifest sample_cap_host ''m.json'' = Inr sample_cap_manifest"
proof -
  have "manifest_from_value sample_document ''m.json'' = Inr sample_cap_manifest"
    unfolding manifest_from_value_ok
    by (simp add: sample_document_def sample_cap_manifest_def required_string_ok required_u64_ok
        CAPABILITY_MANIFEST_SCHEMA_VERSION_def dependencies_from_manifest_ok exports_from_manifest_ok sample_exports
        fingerprint_text_def optional_string_def or_else_def del: exports_loop.simps)
  then show ?thesis by (simp add: read_manifest_def sample_cap_host_def)
qed

lemma sample_spec_manifest: "resolved_manifest_path sample_cap_host (built_manifest_path ''m.json'') = Inr ''m.json''"
  by (simp add: resolved_manifest_path_def built_manifest_path_def built_empty_def)

lemma sample_initializer:
  "from_lake_names pr ''p'' ''C'' = Inr \<lparr>in_symbol = ''initialize_p_C'', in_legacy_symbol = ''initialize_C'', in_display = ''p::C''\<rparr>"
  by (simp add: from_lake_names_ok lake_name_def ident_char_def ascii_alphabetic_def ascii_digit_def less_eq_char_def
      mangle_def mangled_parts_def)

lemma sample_inspected:
  "inspect_artifact sample_load_host ''lib.so'' RolePrimary =
     Inr \<lparr>ai_defined = {''cap_byte'', ''cap_id'', ''initialize_p_C''}, ai_undefined = {}\<rparr>"
  by (simp add: inspect_artifact_def sample_load_host_def sample_cap_host_def sample_dylib_def sample_symbol_def
      architecture_matches_host_def strips_underscore_def inspect_symbol_def normalise_symbol_name_def)

lemma sample_host_parts:
  "lh_cap sample_load_host = sample_cap_host" "lh_printable sample_load_host = (\<lambda>_. True)"
  "lh_hash_order sample_load_host = sorted_list_of_set"
  by (simp_all add: sample_load_host_def)

lemma sample_loads: "manifest_loads sample_load_host ''m.json'' sample_cap_manifest"
proof -
  have "fingerprint_accepted sample_cap_host sample_cap_manifest"
    by (simp add: fingerprint_accepted_def sample_cap_manifest_def sample_cap_host_def)
  moreover have "\<not> manifest_stale sample_cap_host ''m.json'' sample_cap_manifest"
    by (simp add: manifest_stale_def sample_cap_host_def)
  ultimately show ?thesis
    by (simp add: manifest_loads_def sample_host_parts sample_inspected sample_initializer
        sample_cap_manifest_def)
qed



lemma sample_opens:
  "from_build_manifest sample_load_host sample_load_host (built_manifest_path ''m.json'') fresh_loader =
     (Inr sample_capability, opened_loader)"
proof -
  have ok: "report_is_ok (runtime_preflight sample_load_host (built_manifest_path ''m.json''))"
    using sample_spec_manifest sample_manifest_reads sample_loads
    by (subst runtime_preflight_ok) (auto simp: sample_host_parts)
  have globals: "classify_globals sample_load_host ''lib.so'' = Inr {''cap_byte''}"
    by (simp add: classify_globals_def sample_load_host_def sample_cap_host_def sample_dylib_def sample_symbol_def
        strips_underscore_def classified_global_def is_data_section_def normalise_symbol_name_def map_filter_simps)
  have init: "initialize_module sample_load_host sample_library ''p'' ''C'' ls =
      (Inr \<lparr>in_symbol = ''initialize_p_C'', in_legacy_symbol = ''initialize_C'', in_display = ''p::C''\<rparr>,
       ls\<lparr>ls_initialized := ls_initialized ls @ [(''lib.so'', ''initialize_p_C'')]\<rparr>)" for ls
    by (simp add: initialize_module_def sample_initializer lookup_initializer_def call_initializer_def decode_io_def
        sample_load_host_def sample_library_def)
  have dlopen: "lh_dlopen sample_load_host ls p g = None" for ls p g by (simp add: sample_load_host_def)
  have lib: "open_library sample_load_host False ''lib.so'' fresh_loader =
      (Inr sample_library, fresh_loader\<lparr>ls_open := [(0, ''lib.so'', False)], ls_next := 1\<rparr>)"
    by (simp add: open_library_def globals dlopen sample_library_def fresh_loader_def)
  show ?thesis
    using ok
    by (simp add: from_build_manifest_def sample_host_parts sample_spec_manifest sample_manifest_reads sample_cap_manifest_def
        open_with_dependencies_and_exports_def bundle_open_def lib [unfolded fresh_loader_def] init sample_capability_def fresh_loader_def opened_loader_def)
qed

theorem capability_opens_all_or_nothing_witness:
  "ls_open (drop_bundle (lp_bundle sample_capability) opened_loader) = []"
proof -
  have "handles_fresh fresh_loader" "\<forall>A. finite A \<longrightarrow> set (lh_hash_order sample_load_host A) = A"
    by (simp_all add: handles_fresh_def fresh_loader_def sample_host_parts)
  from capability_opens_all_or_nothing [OF this sample_opens] show ?thesis
    by (auto simp: fresh_loader_def)
qed

text \<open>The code of the sample: an identity on strings, and a byte kept unboxed in its variable.\<close>

fun sample_code :: "string \<Rightarrow> string \<Rightarrow> compiled_symbol option" where
  "sample_code p name =
     (if name = ''cap_id''
      then Some (CompiledFunction [ReprObject] ReprObject False
        (\<lambda>vs. case vs of [CObject x] \<Rightarrow> CObject x | _ \<Rightarrow> CObject (Boxed 0)))
      else if name = ''cap_byte'' then Some (CompiledGlobal ReprU8 (CScalar ReprU8 7)) else None)"

lemma sample_truth:
  "sample_code p ''cap_id'' = Some symbol \<Longrightarrow> declares_truly symbol sample_identity"
  "sample_code p ''cap_byte'' = Some symbol' \<Longrightarrow> declares_truly symbol' sample_byte"
  by (auto simp: declares_truly_def sample_identity_def sample_byte_def signature_function_def signature_global_def
      export_abi_arg_for_def split: list.split c_value.split)

lemma sample_lookup:
  "map_of (lp_signatures sample_capability) ''cap_id'' = Some sample_identity"
  "map_of (lp_signatures sample_capability) ''cap_byte'' = Some sample_byte"
  by (simp_all add: sample_capability_def collect_signatures_def sample_identity_def sample_byte_def
      signature_function_def signature_global_def)

lemma sample_module: "fst (capability_module sample_load_host sample_capability opened_loader) =
    Inr \<lparr>in_symbol = ''initialize_p_C'', in_legacy_symbol = ''initialize_C'', in_display = ''p::C''\<rparr>"
  by (simp add: capability_module_def initialize_module_def sample_capability_def sample_initializer lookup_initializer_def
      call_initializer_def decode_io_def sample_load_host_def)

lemma sample_checked:
  "\<exists>ls'. checked_export sample_load_host sample_capability [TyString] (ReturnPure TyString) ''cap_id'' opened_loader =
     (Inr \<lparr>le_target = TargetFunction ''lib.so'' ''cap_id'', le_args = [TyString], le_return = ReturnPure TyString\<rparr>, ls')"
  "\<exists>ls'. checked_export sample_load_host sample_capability [] (ReturnPure (TySmall False W8)) ''cap_byte'' opened_loader =
     (Inr \<lparr>le_target = TargetGlobal ''lib.so'' ''cap_byte'', le_args = [], le_return = ReturnPure (TySmall False W8)\<rparr>, ls')"
proof -
  have lib: "lb_primary (lp_bundle sample_capability) = sample_library" by (simp add: sample_capability_def)
  obtain n ls' where m: "capability_module sample_load_host sample_capability opened_loader = (Inr n, ls')"
    using sample_module by (cases "capability_module sample_load_host sample_capability opened_loader") auto
  have dl: "lh_dlsym sample_load_host p s = None" for p s by (simp add: sample_load_host_def)
  have kinds: "es_kind sample_identity = ExportFunction" "es_kind sample_byte = ExportGlobal"
    by (simp_all add: sample_identity_def sample_byte_def signature_function_def signature_global_def)
  have shape: "expected_signature ExportFunction [TyString] (ReturnPure TyString) ''cap_id'' = sample_identity"
      "expected_signature ExportGlobal [] (ReturnPure (TySmall False W8)) ''cap_byte'' = sample_byte"
    by (simp_all add: expected_signature_def sample_identity_def sample_byte_def)
  have names: "''cap_id'' \<notin> ll_globals sample_library" "''cap_byte'' \<in> ll_globals sample_library"
      "ll_path sample_library = ''lib.so''" by (simp_all add: sample_library_def)
  have found: "exported_unchecked sample_load_host sample_library [TyString] (ReturnPure TyString) ''cap_id'' =
      Inr \<lparr>le_target = TargetFunction ''lib.so'' ''cap_id'', le_args = [TyString], le_return = ReturnPure TyString\<rparr>"
      "exported_unchecked sample_load_host sample_library [] (ReturnPure (TySmall False W8)) ''cap_byte'' =
      Inr \<lparr>le_target = TargetGlobal ''lib.so'' ''cap_byte'', le_args = [], le_return = ReturnPure (TySmall False W8)\<rparr>"
    by (simp_all add: exported_unchecked_def names resolve_function_symbol_def resolve_global_symbol_def dl)
  show "\<exists>ls'. checked_export sample_load_host sample_capability [TyString] (ReturnPure TyString) ''cap_id'' opened_loader =
     (Inr \<lparr>le_target = TargetFunction ''lib.so'' ''cap_id'', le_args = [TyString], le_return = ReturnPure TyString\<rparr>, ls')"
    by (simp add: checked_export_def sample_lookup m lib kinds shape names found)
  show "\<exists>ls'. checked_export sample_load_host sample_capability [] (ReturnPure (TySmall False W8)) ''cap_byte'' opened_loader =
     (Inr \<lparr>le_target = TargetGlobal ''lib.so'' ''cap_byte'', le_args = [], le_return = ReturnPure (TySmall False W8)\<rparr>, ls')"
    by (simp add: checked_export_def sample_lookup m lib kinds shape names found)
qed

theorem checked_calls_are_defined_witness:
  "call_exported (\<lambda>_ _. 0) sample_code
     \<lparr>le_target = TargetFunction ''lib.so'' ''cap_id'', le_args = [TyString], le_return = ReturnPure TyString\<rparr>
     [VString ''ab''] = CallReturned (Inr (VString ''ab''))"
proof -
  obtain ls' where e: "checked_export sample_load_host sample_capability [TyString] (ReturnPure TyString) ''cap_id'' opened_loader =
     (Inr \<lparr>le_target = TargetFunction ''lib.so'' ''cap_id'', le_args = [TyString], le_return = ReturnPure TyString\<rparr>, ls')"
    using sample_checked(1) by blast
  let ?run = "\<lambda>vs. case vs of [CObject x] \<Rightarrow> CObject x | _ \<Rightarrow> CObject (Boxed 0)"
  have code: "sample_code (ll_path (lb_primary (lp_bundle sample_capability))) ''cap_id'' =
      Some (CompiledFunction [ReprObject] ReprObject False ?run)" by simp
  have truth: "\<forall>s. map_of (lp_signatures sample_capability) ''cap_id'' = Some s \<longrightarrow>
      declares_truly (CompiledFunction [ReprObject] ReprObject False ?run) s \<and>
      (es_kind s = ExportGlobal \<longrightarrow> ra_repr (es_result s) = ReprObject)"
    using sample_truth(1) [OF code] by (simp add: sample_lookup sample_identity_def signature_function_def)
  from checked_calls_are_defined [where code = sample_code and mem = "\<lambda>_ _. 0", OF e code truth]
  have "\<forall>vs. call_exported (\<lambda>_ _. 0) sample_code
     \<lparr>le_target = TargetFunction ''lib.so'' ''cap_id'', le_args = [TyString], le_return = ReturnPure TyString\<rparr> vs =
    CallReturned (slot_value (\<lambda>_ _. 0) (ReturnPure TyString) (?run (map2 value_into_c [TyString] vs)))"
    by (simp only: compiled_symbol.case) blast
  then have "call_exported (\<lambda>_ _. 0) sample_code
     \<lparr>le_target = TargetFunction ''lib.so'' ''cap_id'', le_args = [TyString], le_return = ReturnPure TyString\<rparr>
     [VString ''ab''] =
    CallReturned (slot_value (\<lambda>_ _. 0) (ReturnPure TyString) (?run (map2 value_into_c [TyString] [VString ''ab''])))"
    by (rule spec)
  also have "?run (map2 value_into_c [TyString] [VString ''ab'']) = value_into_c TyString (VString ''ab'')"
    by (simp add: value_into_c_def)
  also have "slot_value (\<lambda>_ _. 0) (ReturnPure TyString) (value_into_c TyString (VString ''ab'')) = Inr (VString ''ab'')"
    by (rule c_round_trip) code_simp
  finally show ?thesis .
qed

text \<open>
  The remaining case.  A global of an unboxed type passes every check of the manifest and of the lookup, for the type it
  has; the call reads its storage as an object all the same.
\<close>

lemma scalar_global_call_is_undefined:
  "signature_ok sample_byte \<and> map_of (lp_signatures sample_capability) ''cap_byte'' = Some sample_byte \<and>
   declares_truly (the (sample_code ''lib.so'' ''cap_byte'')) sample_byte \<and>
   (\<exists>handle ls'. checked_export sample_load_host sample_capability [] (ReturnPure (TySmall False W8)) ''cap_byte''
        opened_loader = (Inr handle, ls') \<and> call_exported mem sample_code handle [] = CallUndefined)"
proof -
  have "call_exported mem sample_code
      \<lparr>le_target = TargetGlobal ''lib.so'' ''cap_byte'', le_args = [], le_return = ReturnPure (TySmall False W8)\<rparr> [] =
     CallUndefined"
    by (simp add: call_exported_def)
  moreover have "declares_truly (the (sample_code ''lib.so'' ''cap_byte'')) sample_byte"
    using sample_truth(2) by simp
  ultimately show ?thesis
    using sample_signatures_ok(2) sample_lookup(2) sample_checked(2) by blast
qed

end
