(* ===== verification/Spec2Isabelle.thy ===== *)
theory Spec2Isabelle
  imports Session_Mirror Worker_Pool Child_Serve Host_Pool Lake_Modules Import_Plan Lean_Callback Session_Calls
    Capability_Load
begin

text \<open>
  A model of \<open>lean-rs\<close>, the Rust bindings and worker runtime for Lean 4, and the properties that make it correct.
  Paths below are relative to \<open>src/crates/\<close>.

  \<^bold>\<open>The program.\<close>  \<open>lean-rs\<close> converts values to and from Lean objects, registers callbacks and
  classifies errors.  On it \<open>lean-rs-host\<close> builds same-process sessions: an imported environment, queried
  through foreign calls into Lean shims, and a pool of such environments.  Because Lean may abort the process, the worker
  crates move this into a child process: \<open>lean-rs-worker-protocol\<close> frames messages over pipes,
  \<open>lean-rs-worker-child\<close> serves requests from host sessions it keeps, and \<open>lean-rs-worker-parent\<close>
  supervises children, checks what they load, pools and leases them, and plans imports.  \<open>lean-toolchain\<close> finds
  the Lean modules of a Lake project, and reads the manifest from which \<open>lean-rs\<close> loads a built
  capability.  The parts meet at the pipe (frames written by one side are read by the other), at
  the reuse hint (the parent predicts which sessions the child still holds), at the environment variables through which the
  builder configures the child, at the callback registry (Lean calls back into the rows and progress of a request), at
  the manifest (written by a build, believed by the loader), and at the layout of Lean objects.

  \<^bold>\<open>Foundations.\<close>
  \<^item> \<open>Prelude\<close>: saturating counters, the \<open>Vec\<close> operations, recency lists, numerals.
    \<open>Ordered_Map\<close>: \<open>BTreeMap\<close>, replacing and grouping, as one locale with two instances.
    \<open>Display_Text\<close>: UTF-8 boundaries and the truncation of a dead child's output
    (\<open>lean-rs-worker-parent/src/supervisor.rs\<close>).
  \<^item> \<open>Lean_Error\<close>: \<open>lean-rs/src/error/mod.rs\<close>, \<open>panic.rs\<close>, \<open>redact.rs\<close>,
    \<open>capture.rs\<close>.  Every constructor bounds its message and fixes stage and code.
  \<^item> \<open>Lean_Abi\<close>: \<open>lean-rs/src/abi/\<close> and \<open>error/io.rs\<close>.  Lean objects as trees with a byte
    tail, constructor views, and one encoder and decoder per type; round trips, and which reads leave the object.
  \<^item> \<open>Callback_Status\<close>, \<open>Lean_Callback\<close>: \<open>lean-rs/src/callback.rs\<close>.  The registry of
    callbacks, the trampolines Lean calls, panics caught on the way; histories of registrations, calls and drops.

  \<^bold>\<open>Same-process sessions\<close> (\<open>lean-rs-host/src/host/\<close>).
  \<^item> \<open>Host_Results\<close>: decoding made into a small theory of its own (what a decoder reads, which layouts it
    accepts), and the results of \<open>elaboration/\<close>, \<open>evidence/\<close> and \<open>meta/\<close>.
  \<^item> \<open>Query_Results\<close>: \<open>process/query.rs\<close>; \<open>Search_Results\<close>: \<open>declaration_search.rs\<close>.
    Each decoder stands beside the layout of the Lean structure it reads (the declarations of the bundled shims), each
    request beside the object sent.  The decoders are instances of the locales of codecs stated there.
  \<^item> \<open>Host_Session\<close>: every query of \<open>session.rs\<close> with \<open>progress.rs\<close> and the option builders:
    when the token is polled, which shim is called with which arguments, what is reported to the progress sink, counted
    and returned.  \<open>Session_Calls\<close>: histories of these operations; calls are paid for by polls, counted, and the
    bulk operations are folds of the single ones.
  \<^item> \<open>Host_Pool\<close>: \<open>pool.rs\<close>, and the import of a session with its metrics; histories of
    acquire, release, drain and registration, the ledger of counters, and the currency of what is handed out.

  \<^bold>\<open>Worker runtime.\<close>
  \<^item> \<open>Wire\<close>: \<open>lean-rs-worker-protocol/src/protocol.rs\<close> and the types the runtime inspects; byte
    streams that may break, the frame codec and the row emitter.
  \<^item> \<open>Worker_Core\<close> (data), \<open>Worker_Life\<close> (spawn, status, shutdown, reaping, restart),
    \<open>Worker_Request\<close> (admission, the response loop, operations, degraded verdicts), \<open>Worker_Session\<close>
    (opening a session, the reuse hint): \<open>lean-rs-worker-parent/src/supervisor.rs\<close> and \<open>session.rs\<close>.
  \<^item> \<open>Bootstrap\<close>: \<open>capability.rs\<close> of the parent: the builder, the checks before a capability opens
    and the handle on the shims alone.  \<open>Worker_Pool\<close>: \<open>pool.rs\<close> of the parent: keys, admission,
    leases, policy cycles.
  \<^item> \<open>Child_Sessions\<close>, \<open>Child_Queries\<close>, \<open>Child_Serve\<close>: \<open>lean-rs-worker-child/src/child.rs\<close>:
    the sessions a child holds, the cache key, limits and memory-pressure taint of its queries, and the loop that
    answers every request kind.
  \<^item> \<open>Session_Mirror\<close>: parent and child as two implementations of one interface, a recency cache, and what
    keeps them in step.  \<open>Child_Serve\<close> ends with the composition of child, pipe and parent over the same bytes.

  \<^bold>\<open>Projects.\<close>
  \<^item> \<open>Lake_Modules\<close>: \<open>lean-toolchain/src/modules.rs\<close>, \<open>lakefile_toml.rs\<close>,
    \<open>fingerprint.rs\<close>: names, paths, enumeration and the lakefile scanner over a tree of files.
    \<open>Import_Plan\<close>: \<open>lean-rs-worker-parent/src/planning.rs\<close>: batches of work by key.

  \<^bold>\<open>Capabilities.\<close>
  \<^item> \<open>Capability_Manifest\<close>: \<open>lean-toolchain/src/loader.rs\<close>, \<open>manifest_validation.rs\<close>,
    \<open>built_capability.rs\<close>: JSON values, the parser of the manifest, the static checks.  What a manifest that
    reads satisfies, and which findings a check lists.
  \<^item> \<open>Capability_Load\<close>: \<open>lean-rs/src/module/\<close>: initializer symbols, the preflight over symbol tables,
    opening libraries and bundles, typed lookups and the calls made through them.  Opening is all or nothing, and a
    checked call is defined as far as the manifest tells the truth, globals of unboxed type excepted.

  \<^bold>\<open>How the code is rendered.\<close>  A struct is a record with the source's fields under a short prefix, an enum a
  datatype, a method a function that takes the state and returns its result with the state updated; \<open>?\<close>, early
  returns and panics are the branches of a sum, \<open>Inl\<close> being the error.  Counters of fixed width are naturals
  with the saturation or wrap-around written out; the bytes of frames and objects are words.  A call whose answer the
  environment chooses (a process state, bytes on a pipe, a clock reading, a file, a foreign call, a sink that may panic)
  reads the next answer of a script held in the state, or asks a function held there; theorems quantify over them and so
  over every behaviour of the environment.  A blocking call advances the clock by at least a nanosecond.

  \<^bold>\<open>Loops and fuel.\<close>  Loops of the source are recursive functions with a measure (scripts get shorter, clocks
  pass their deadline, work lists
  shrink) or recursion on the arrivals or on the data itself (a directory is a tree of files, a Lean object a tree of
  objects), so that they are total and no fuel is needed.  A loop of the source that does not end is shown as such:
  the bounding of bootstrap text that stops on a split character has no result in its model.

  \<^bold>\<open>Parameters.\<close>  The JSON library is an encoder and a decoder of frames with the hypothesis that decoding
  inverts encoding; hashing is a function (the cache key separates environments up to its collisions); Lean's shims
  answer through records of replies; the manifest checks of \<open>lean-toolchain\<close> are an argument of the bootstrap;
  the object-file reader, the dynamic loader and the compiled code of a capability are functions of the machine.
  Their hypotheses are named in the statements and met at concrete instances by the witnesses.

  \<^bold>\<open>Not modelled\<close>, and why.  Payloads that the runtime forwards unopened are carried as their JSON text.
  Reference counts of Lean objects are ownership that the Rust types enforce; the raw foreign declarations and the
  initialisation of the Lean runtime (\<open>lean-rs-sys\<close>, \<open>lean-rs/src/runtime\<close>) are calls into code
  outside the repository.  Running Lake, finding toolchains and packaging sources (\<open>build_helpers.rs\<close>,
  \<open>discover.rs\<close>, \<open>source_package.rs\<close>) is process and file input and output.
  Tracing spans, fuzzers, benches and examples carry no logic of the runtime.
\<close>

end
